(* ===== verification/Prelude.thy ===== *)
theory Prelude
  imports Main "HOL-Library.Word" "HOL-Library.Sublist" "HOL-Library.Signed_Division"
begin

text \<open>
  Shared vocabulary of the development: Rust results, a result-and-state composition for
  methods that take \<open>&mut self\<close>, checked machine integers, and the string functions of
  the Rust standard library that the program uses.

  A Rust \<open>String\<close> or \<open>&str\<close> is modelled by the bytes of its UTF-8 encoding, one
  \<open>char\<close> per byte, so \<open>len()\<close> is \<open>length\<close> and byte offsets are list positions;
  \<open>chars\<close> cuts such a byte string into its UTF-8 encoded characters.
\<close>

section \<open>Results\<close>

abbreviation Ok :: "'a \<Rightarrow> 'e + 'a" where "Ok \<equiv> Inr"
abbreviation Err :: "'e \<Rightarrow> 'e + 'a" where "Err \<equiv> Inl"

named_theorems result_simps \<open>inversion of composed results\<close>

definition is_ok :: "'e + 'a \<Rightarrow> bool" where
  "is_ok r = (case r of Inl _ \<Rightarrow> False | Inr _ \<Rightarrow> True)"

definition is_err :: "'e + 'a \<Rightarrow> bool" where
  "is_err r = (case r of Inl _ \<Rightarrow> True | Inr _ \<Rightarrow> False)"

primrec ok :: "'e + 'a \<Rightarrow> 'a option" where
  "ok (Inl e) = None"
| "ok (Inr x) = Some x"

text \<open>The \<open>?\<close> operator on a plain \<open>Result\<close>.\<close>

primrec res_bind :: "'e + 'a \<Rightarrow> ('a \<Rightarrow> 'e + 'b) \<Rightarrow> 'e + 'b" where
  "res_bind (Inl e) f = Inl e"
| "res_bind (Inr x) f = f x"

primrec res_map :: "('a \<Rightarrow> 'b) \<Rightarrow> 'e + 'a \<Rightarrow> 'e + 'b" where
  "res_map f (Inl e) = Inl e"
| "res_map f (Inr x) = Inr (f x)"

primrec map_err :: "('e \<Rightarrow> 'f) \<Rightarrow> 'e + 'a \<Rightarrow> 'f + 'a" where
  "map_err f (Inl e) = Inl (f e)"
| "map_err f (Inr x) = Inr x"

primrec ok_or :: "'e \<Rightarrow> 'a option \<Rightarrow> 'e + 'a" where
  "ok_or e None = Inl e"
| "ok_or e (Some x) = Inr x"

definition unwrap_or :: "'a \<Rightarrow> 'a option \<Rightarrow> 'a" where
  "unwrap_or d x = (case x of None \<Rightarrow> d | Some y \<Rightarrow> y)"

lemma unwrap_or_simps [simp]: "unwrap_or d None = d" "unwrap_or d (Some x) = x"
  by (simp_all add: unwrap_or_def)

text \<open>\<open>iter().map(f).collect::<Result<Vec<_>, _>>()\<close>: the first error, in order, wins.\<close>

primrec collect_results :: "('a \<Rightarrow> 'e + 'b) \<Rightarrow> 'a list \<Rightarrow> 'e + 'b list" where
  "collect_results f [] = Inr []"
| "collect_results f (x # xs) =
     res_bind (f x) (\<lambda>y. res_bind (collect_results f xs) (\<lambda>ys. Inr (y # ys)))"

lemma is_ok_simps [simp]: "is_ok (Inr x)" "\<not> is_ok (Inl e)" "is_err (Inl e)" "\<not> is_err (Inr x)"
  by (simp_all add: is_ok_def is_err_def)

lemma is_ok_iff: "is_ok r \<longleftrightarrow> (\<exists>x. r = Inr x)"
  by (cases r) simp_all

lemma res_bind_Inr [result_simps]: "res_bind m f = Inr y \<longleftrightarrow> (\<exists>x. m = Inr x \<and> f x = Inr y)"
  by (cases m) simp_all

lemma res_bind_Inl [result_simps]:
  "res_bind m f = Inl e \<longleftrightarrow> m = Inl e \<or> (\<exists>x. m = Inr x \<and> f x = Inl e)"
  by (cases m) simp_all

lemma res_map_Inr [result_simps]: "res_map f m = Inr y \<longleftrightarrow> (\<exists>x. m = Inr x \<and> f x = y)"
  by (cases m) simp_all

lemma res_map_Inl [result_simps]: "res_map f m = Inl e \<longleftrightarrow> m = Inl e"
  by (cases m) simp_all

lemma map_err_Inr [result_simps]: "map_err f m = Inr y \<longleftrightarrow> m = Inr y"
  by (cases m) simp_all

lemma ok_or_Inr [result_simps]: "ok_or e m = Inr y \<longleftrightarrow> m = Some y"
  by (cases m) simp_all

lemma ok_or_Inl [result_simps]: "ok_or e m = Inl e' \<longleftrightarrow> m = None \<and> e' = e"
  by (cases m) auto

lemma ok_Some [simp]: "ok m = Some x \<longleftrightarrow> m = Inr x"
  by (cases m) simp_all

lemma ok_None [simp]: "ok m = None \<longleftrightarrow> (\<exists>e. m = Inl e)"
  by (cases m) simp_all

lemma collect_results_map:
  "(\<And>x. x \<in> set xs \<Longrightarrow> f x = Inr (g x)) \<Longrightarrow> collect_results f xs = Inr (map g xs)"
  by (induction xs) simp_all

text \<open>Recursion through the composition of results.\<close>

lemma res_bind_cong [fundef_cong]:
  "m = m' \<Longrightarrow> (\<And>x. m' = Inr x \<Longrightarrow> f x = g x) \<Longrightarrow> res_bind m f = res_bind m' g"
  by (cases m') simp_all

lemma res_map_cong [fundef_cong]:
  "m = m' \<Longrightarrow> (\<And>x. m' = Inr x \<Longrightarrow> f x = g x) \<Longrightarrow> res_map f m = res_map g m'"
  by (cases m') simp_all

lemma collect_results_cong [fundef_cong]:
  "xs = ys \<Longrightarrow> (\<And>x. x \<in> set ys \<Longrightarrow> f x = g x) \<Longrightarrow> collect_results f xs = collect_results g ys"
proof (induction ys arbitrary: xs)
  case (Cons y ys)
  then show ?case by (auto intro!: res_bind_cong)
qed simp

section \<open>Results with state\<close>

text \<open>
  A method that takes \<open>&mut self\<close> and returns a \<open>Result\<close> is a function from the
  state to the result and the state it leaves, on the error path too. \<open>rbind\<close> is the
  \<open>?\<close> operator on such methods, \<open>rlift\<close> embeds a pure result.
\<close>

type_synonym ('s, 'e, 'a) stm = "'s \<Rightarrow> ('e + 'a) \<times> 's"

definition rbind :: "('s, 'e, 'a) stm \<Rightarrow> ('a \<Rightarrow> ('s, 'e, 'b) stm) \<Rightarrow> ('s, 'e, 'b) stm" where
  "rbind m f s = (case m s of (r, s') \<Rightarrow> (case r of Inl e \<Rightarrow> (Inl e, s') | Inr x \<Rightarrow> f x s'))"

definition rreturn :: "'a \<Rightarrow> ('s, 'e, 'a) stm" where
  "rreturn x s = (Inr x, s)"

definition rthrow :: "'e \<Rightarrow> ('s, 'e, 'a) stm" where
  "rthrow e s = (Inl e, s)"

definition rlift :: "'e + 'a \<Rightarrow> ('s, 'e, 'a) stm" where
  "rlift r s = (r, s)"

lemma rbind_Inr [result_simps]:
  "rbind m f s = (Inr y, t) \<longleftrightarrow> (\<exists>x u. m s = (Inr x, u) \<and> f x u = (Inr y, t))"
  by (auto simp: rbind_def split: prod.splits sum.splits)

lemma rbind_Inl [result_simps]:
  "rbind m f s = (Inl e, t) \<longleftrightarrow>
     m s = (Inl e, t) \<or> (\<exists>x u. m s = (Inr x, u) \<and> f x u = (Inl e, t))"
  by (auto simp: rbind_def split: prod.splits sum.splits)

lemma rbind_run:
  "m s = (Inr x, u) \<Longrightarrow> rbind m f s = f x u"
  "m s = (Inl e, u) \<Longrightarrow> rbind m f s = (Inl e, u)"
  by (simp_all add: rbind_def)

lemma rlift_simps [simp]:
  "rlift r s = (r, s)" "rreturn x s = (Inr x, s)" "rthrow e s = (Inl e, s)"
  by (simp_all add: rlift_def rreturn_def rthrow_def)

section \<open>Machine integers\<close>

text \<open>
  Integers whose overflow is checked are \<open>int\<close> or \<open>nat\<close> with the range written out:
  \<open>checked lo hi x\<close> is Rust's \<open>checked_*\<close>, \<open>saturate lo hi x\<close> its
  \<open>saturating_*\<close>, and \<open>as_i32\<close> the truncating cast \<open>as i32\<close>.
\<close>

abbreviation i128_min :: int where "i128_min \<equiv> - (2 ^ 127)"
abbreviation i128_max :: int where "i128_max \<equiv> 2 ^ 127 - 1"
abbreviation i64_min :: int where "i64_min \<equiv> - (2 ^ 63)"
abbreviation i64_max :: int where "i64_max \<equiv> 2 ^ 63 - 1"
abbreviation i32_min :: int where "i32_min \<equiv> - (2 ^ 31)"
abbreviation i32_max :: int where "i32_max \<equiv> 2 ^ 31 - 1"
abbreviation u32_max :: nat where "u32_max \<equiv> 2 ^ 32 - 1"
abbreviation u64_max :: nat where "u64_max \<equiv> 2 ^ 64 - 1"

definition checked :: "int \<Rightarrow> int \<Rightarrow> int \<Rightarrow> int option" where
  "checked lo hi x = (if lo \<le> x \<and> x \<le> hi then Some x else None)"

definition saturate :: "int \<Rightarrow> int \<Rightarrow> int \<Rightarrow> int" where
  "saturate lo hi x = (if x < lo then lo else if hi < x then hi else x)"

definition checked_nat :: "nat \<Rightarrow> nat \<Rightarrow> nat option" where
  "checked_nat hi x = (if x \<le> hi then Some x else None)"

definition as_i32 :: "int \<Rightarrow> int" where
  "as_i32 x = (x + 2 ^ 31) mod 2 ^ 32 - 2 ^ 31"

lemma checked_Some [result_simps]: "checked lo hi x = Some y \<longleftrightarrow> y = x \<and> lo \<le> x \<and> x \<le> hi"
  by (auto simp: checked_def)

lemma checked_None [result_simps]: "checked lo hi x = None \<longleftrightarrow> x < lo \<or> hi < x"
  by (auto simp: checked_def)

lemma checked_nat_Some [result_simps]: "checked_nat hi x = Some y \<longleftrightarrow> y = x \<and> x \<le> hi"
  by (auto simp: checked_nat_def)

lemma as_i32_id: "i32_min \<le> x \<Longrightarrow> x \<le> i32_max \<Longrightarrow> as_i32 x = x"
  by (simp add: as_i32_def)

end
