(* ===== verification/Rust_Strings.thy ===== *)
theory Rust_Strings
  imports Prelude
begin

text \<open>
  The string functions of the Rust standard library that the program calls, on UTF-8
  byte strings: \<open>chars\<close>, the ASCII character classes, \<open>trim\<close>, \<open>split\<close>,
  \<open>split_whitespace\<close>, \<open>strip_prefix\<close>, \<open>strip_suffix\<close>, \<open>replace\<close>, \<open>find\<close>,
  decimal printing and \<open>str::parse\<close> for the integer types.
\<close>

section \<open>Characters\<close>

text \<open>A lead byte tells the length of its UTF-8 sequence.\<close>

definition utf8_len :: "char \<Rightarrow> nat" where
  "utf8_len c = (let n = (of_char c :: nat) in
     if n < 192 then 1 else if n < 224 then 2 else if n < 240 then 3 else 4)"

lemma utf8_len_pos [simp]: "0 < utf8_len c"
  by (simp add: utf8_len_def Let_def)

function chars :: "string \<Rightarrow> string list" where
  "chars [] = []"
| "chars (c # cs) = (c # take (utf8_len c - 1) cs) # chars (drop (utf8_len c - 1) cs)"
  by pat_completeness auto
termination by (relation "measure length") auto

lemma concat_chars [simp]: "concat (chars s) = s"
  by (induction s rule: chars.induct) simp_all

lemma chars_nonempty: "x \<in> set (chars s) \<Longrightarrow> x \<noteq> []"
  by (induction s rule: chars.induct) auto

lemma chars_eq_Nil [simp]: "chars s = [] \<longleftrightarrow> s = []"
  by (cases s) simp_all

definition byte :: "char \<Rightarrow> nat" where "byte c = of_char c"

definition is_ascii :: "char \<Rightarrow> bool" where "is_ascii c \<longleftrightarrow> byte c < 128"

definition is_ascii_digit :: "char \<Rightarrow> bool" where
  "is_ascii_digit c \<longleftrightarrow> 48 \<le> byte c \<and> byte c \<le> 57"

definition is_ascii_upper :: "char \<Rightarrow> bool" where
  "is_ascii_upper c \<longleftrightarrow> 65 \<le> byte c \<and> byte c \<le> 90"

definition is_ascii_lower :: "char \<Rightarrow> bool" where
  "is_ascii_lower c \<longleftrightarrow> 97 \<le> byte c \<and> byte c \<le> 122"

definition is_ascii_alphabetic :: "char \<Rightarrow> bool" where
  "is_ascii_alphabetic c \<longleftrightarrow> is_ascii_upper c \<or> is_ascii_lower c"

definition is_ascii_alphanumeric :: "char \<Rightarrow> bool" where
  "is_ascii_alphanumeric c \<longleftrightarrow> is_ascii_alphabetic c \<or> is_ascii_digit c"

lemmas ascii_defs =
  is_ascii_def is_ascii_digit_def is_ascii_upper_def is_ascii_lower_def
  is_ascii_alphabetic_def is_ascii_alphanumeric_def byte_def

text \<open>A predicate on ASCII characters, asked of a character of any length.\<close>

definition one_byte :: "(char \<Rightarrow> bool) \<Rightarrow> string \<Rightarrow> bool" where
  "one_byte p ch = (case ch of [c] \<Rightarrow> p c | _ \<Rightarrow> False)"

definition to_ascii_lowercase :: "string \<Rightarrow> string" where
  "to_ascii_lowercase = map (\<lambda>c. if is_ascii_upper c then char_of (byte c + 32) else c)"

lemma length_to_ascii_lowercase [simp]: "length (to_ascii_lowercase s) = length s"
  by (simp add: to_ascii_lowercase_def)

text \<open>Strings of ASCII bytes: every byte is a character of its own.\<close>

lemma utf8_len_ascii [simp]: "is_ascii c \<Longrightarrow> utf8_len c = 1"
  by (simp add: utf8_len_def is_ascii_def byte_def Let_def)

lemma chars_ascii: "list_all is_ascii s \<Longrightarrow> chars s = map (\<lambda>c. [c]) s"
  by (induction s) simp_all

lemma is_ascii_digit_ascii: "is_ascii_digit c \<Longrightarrow> is_ascii c"
  by (simp add: ascii_defs)

section \<open>Whitespace and trimming\<close>

text \<open>
  \<open>char::is_whitespace\<close>: the Unicode property White\_Space, on the UTF-8 encoding of a
  character: U+0009 to U+000D, U+0020, U+0085, U+00A0, U+1680, U+2000 to U+200A, U+2028,
  U+2029, U+202F, U+205F and U+3000.
\<close>

definition is_whitespace :: "string \<Rightarrow> bool" where
  "is_whitespace c =
     (case map byte c of
        [a] \<Rightarrow> (9 \<le> a \<and> a \<le> 13) \<or> a = 32
      | [a, b] \<Rightarrow> a = 194 \<and> (b = 133 \<or> b = 160)
      | [a, b, d] \<Rightarrow>
          (a = 225 \<and> b = 154 \<and> d = 128)
          \<or> (a = 226 \<and> b = 128 \<and> ((128 \<le> d \<and> d \<le> 138) \<or> d = 168 \<or> d = 169 \<or> d = 175))
          \<or> (a = 226 \<and> b = 129 \<and> d = 159)
          \<or> (a = 227 \<and> b = 128 \<and> d = 128)
      | _ \<Rightarrow> False)"

definition trim :: "string \<Rightarrow> string" where
  "trim s = concat (rev (dropWhile is_whitespace (rev (dropWhile is_whitespace (chars s)))))"

definition split_whitespace :: "string \<Rightarrow> string list" where
  "split_whitespace s =
     filter (\<lambda>w. w \<noteq> [])
       (map concat (foldr (\<lambda>c acc. if is_whitespace c then [] # acc
                                   else (c # hd acc) # tl acc) (chars s) [[]]))"

lemma trim_no_ws:
  assumes "list_all is_ascii s" and "\<And>c. c \<in> set s \<Longrightarrow> \<not> is_whitespace [c]"
  shows "trim s = s"
proof -
  have a: "\<And>x. x \<in> set (chars s) \<Longrightarrow> \<not> is_whitespace x"
    using assms by (auto simp: chars_ascii)
  have "dropWhile is_whitespace (chars s) = chars s"
    using a by (cases "chars s") auto
  moreover have "dropWhile is_whitespace (rev (chars s)) = rev (chars s)"
  proof (cases "rev (chars s)")
    case (Cons y ys)
    then have "y \<in> set (chars s)" by (metis list.set_intros(1) set_rev)
    with a Cons show ?thesis by simp
  qed simp
  ultimately show ?thesis by (simp add: trim_def)
qed

section \<open>Searching and cutting\<close>

definition starts_with :: "string \<Rightarrow> string \<Rightarrow> bool" where
  "starts_with p s = (take (length p) s = p)"

definition strip_prefix :: "string \<Rightarrow> string \<Rightarrow> string option" where
  "strip_prefix p s = (if starts_with p s then Some (drop (length p) s) else None)"

definition strip_suffix :: "string \<Rightarrow> string \<Rightarrow> string option" where
  "strip_suffix p s =
     (if starts_with (rev p) (rev s) then Some (take (length s - length p) s) else None)"

text \<open>\<open>str::split\<close> on an ASCII character: always at least one part.\<close>

fun split_on :: "char \<Rightarrow> string \<Rightarrow> string list" where
  "split_on d [] = [[]]"
| "split_on d (c # cs) =
     (if c = d then [] # split_on d cs
      else (case split_on d cs of [] \<Rightarrow> [[c]] | p # ps \<Rightarrow> (c # p) # ps))"

lemma split_on_nonempty [simp]: "split_on d s \<noteq> []"
  by (induction d s rule: split_on.induct) (auto split: list.splits)

lemma split_on_absent: "d \<notin> set s \<Longrightarrow> split_on d s = [s]"
  by (induction s) auto

lemma split_on_append: "d \<notin> set p \<Longrightarrow> split_on d (p @ d # s) = p # split_on d s"
  by (induction p) auto

text \<open>\<open>str::find\<close> of a non-empty pattern, and \<open>str::replace\<close>, leftmost and without
  overlaps.\<close>

fun find_str :: "string \<Rightarrow> string \<Rightarrow> nat option" where
  "find_str p [] = (if p = [] then Some 0 else None)"
| "find_str p (c # cs) =
     (if starts_with p (c # cs) then Some 0 else map_option Suc (find_str p cs))"

function replace :: "string \<Rightarrow> string \<Rightarrow> string \<Rightarrow> string" where
  "replace p r s =
     (if s = [] \<or> p = [] then s
      else if starts_with p s then r @ replace p r (drop (length p) s)
      else hd s # replace p r (tl s))"
  by pat_completeness auto
termination by (relation "measure (\<lambda>(p, r, s). length s)") auto

declare replace.simps [simp del]

lemma replace_Nil [simp]: "replace p r [] = []"
  by (simp add: replace.simps)

text \<open>Replacing a single character is a per-character substitution.\<close>

lemma replace_single: "replace [d] r s = concat (map (\<lambda>c. if c = d then r else [c]) s)"
proof (induction s)
  case Nil
  then show ?case by simp
next
  case (Cons c cs)
  then show ?case by (subst replace.simps) (simp add: starts_with_def)
qed

lemma starts_with_append [simp]: "starts_with p (p @ s)"
  by (simp add: starts_with_def)

lemma strip_prefix_append [simp]: "strip_prefix p (p @ s) = Some s"
  by (simp add: strip_prefix_def)

lemma strip_prefix_Some: "strip_prefix p s = Some t \<longleftrightarrow> s = p @ t"
  by (auto simp: strip_prefix_def starts_with_def) (metis append_take_drop_id)

lemma strip_suffix_Some: "strip_suffix p s = Some t \<longleftrightarrow> s = t @ p"
proof
  assume a: "strip_suffix p s = Some t"
  then have "take (length p) (rev s) = rev p" and t: "t = take (length s - length p) s"
    by (auto simp: strip_suffix_def starts_with_def split: if_splits)
  then have "rev (drop (length s - length p) s) = rev p"
    by (simp add: take_rev)
  then have "drop (length s - length p) s = p" by simp
  with t show "s = t @ p" by (metis append_take_drop_id)
next
  assume "s = t @ p"
  then show "strip_suffix p s = Some t"
    by (simp add: strip_suffix_def starts_with_def)
qed

section \<open>Decimal numerals\<close>

definition digit_char :: "nat \<Rightarrow> char" where "digit_char d = char_of (48 + d)"

definition digit_val :: "char \<Rightarrow> nat" where "digit_val c = byte c - 48"

text \<open>\<open>to_string\<close> of an unsigned and of a signed integer.\<close>

fun show_nat :: "nat \<Rightarrow> string" where
  "show_nat n = (if n < 10 then [digit_char n] else show_nat (n div 10) @ [digit_char (n mod 10)])"

declare show_nat.simps [simp del]

definition show_int :: "int \<Rightarrow> string" where
  "show_int i = (if i < 0 then CHR ''-'' # show_nat (nat (- i)) else show_nat (nat i))"

definition digits_val :: "string \<Rightarrow> nat" where
  "digits_val s = foldl (\<lambda>a c. 10 * a + digit_val c) 0 s"

text \<open>
  \<open>str::parse\<close> for an integer type with range \<open>lo\<close> to \<open>hi\<close>: an optional \<open>+\<close>
  (and, for signed types, \<open>-\<close>), then at least one digit, then the range check.
\<close>

definition parse_digits :: "string \<Rightarrow> nat option" where
  "parse_digits s = (if s \<noteq> [] \<and> list_all is_ascii_digit s then Some (digits_val s) else None)"

definition parse_unsigned :: "nat \<Rightarrow> string \<Rightarrow> nat option" where
  "parse_unsigned hi s =
     (case s of
        c # cs \<Rightarrow> Option.bind (parse_digits (if c = CHR ''+'' then cs else s)) (checked_nat hi)
      | [] \<Rightarrow> None)"

definition parse_signed :: "int \<Rightarrow> int \<Rightarrow> string \<Rightarrow> int option" where
  "parse_signed lo hi s =
     (case s of
        c # cs \<Rightarrow>
          if c = CHR ''-'' then Option.bind (parse_digits cs) (\<lambda>n. checked lo hi (- int n))
          else Option.bind (parse_digits (if c = CHR ''+'' then cs else s))
                 (\<lambda>n. checked lo hi (int n))
      | [] \<Rightarrow> None)"

lemma byte_digit_char: "d < 10 \<Longrightarrow> byte (digit_char d) = 48 + d"
  by (simp add: byte_def digit_char_def)

lemma digit_char_digit [simp]: "d < 10 \<Longrightarrow> is_ascii_digit (digit_char d)"
  by (simp add: is_ascii_digit_def byte_digit_char)

lemma digit_val_digit_char [simp]: "d < 10 \<Longrightarrow> digit_val (digit_char d) = d"
  by (simp add: digit_val_def byte_digit_char)

lemma digit_val_less: "is_ascii_digit c \<Longrightarrow> digit_val c < 10"
  by (auto simp: is_ascii_digit_def digit_val_def)

lemma digits_val_Nil [simp]: "digits_val [] = 0"
  by (simp add: digits_val_def)

lemma digits_val_snoc: "digits_val (s @ [c]) = 10 * digits_val s + digit_val c"
  by (simp add: digits_val_def)

lemma digits_val_foldl: "foldl (\<lambda>a c. 10 * a + digit_val c) a s = a * 10 ^ length s + digits_val s"
proof (induction s rule: rev_induct)
  case Nil
  then show ?case by simp
next
  case (snoc c s)
  then show ?case by (simp add: digits_val_snoc algebra_simps)
qed

lemma digits_val_append: "digits_val (s @ t) = digits_val s * 10 ^ length t + digits_val t"
  by (simp add: digits_val_def) (simp add: digits_val_foldl digits_val_def [symmetric])

lemma digits_val_Cons: "digits_val (c # s) = digit_val c * 10 ^ length s + digits_val s"
  using digits_val_append [of "[c]" s] by (simp add: digits_val_def)

lemma digits_val_less: "list_all is_ascii_digit s \<Longrightarrow> digits_val s < 10 ^ length s"
proof (induction s rule: rev_induct)
  case Nil
  then show ?case by simp
next
  case (snoc c s)
  then have "digits_val s < 10 ^ length s" "digit_val c < 10" by (auto simp: digit_val_less)
  then show ?case by (simp add: digits_val_snoc)
qed

lemma digits_val_zeros [simp]: "digits_val (replicate n (CHR ''0'') @ s) = digits_val s"
  by (induction n) (simp_all add: digits_val_Cons digit_val_def byte_def)

lemma show_nat_digits [simp]: "list_all is_ascii_digit (show_nat n)"
  by (induction n rule: show_nat.induct) (subst show_nat.simps, simp)

lemma digits_val_show_nat [simp]: "digits_val (show_nat n) = n"
proof (induction n rule: show_nat.induct)
  case (1 n)
  show ?case
  proof (cases "n < 10")
    case True
    then show ?thesis by (subst show_nat.simps) (simp add: digits_val_Cons)
  next
    case False
    with 1 show ?thesis by (subst show_nat.simps) (simp add: digits_val_snoc)
  qed
qed

lemma show_nat_nonempty [simp]: "show_nat n \<noteq> []"
  by (subst show_nat.simps) simp

lemma parse_digits_show_nat [simp]: "parse_digits (show_nat n) = Some n"
  by (simp add: parse_digits_def)

lemma show_nat_inj: "show_nat m = show_nat n \<longleftrightarrow> m = n"
  by (metis digits_val_show_nat)

lemma hd_digits_neq:
  "list_all is_ascii_digit (c # s) \<Longrightarrow> c \<noteq> CHR ''+'' \<and> c \<noteq> CHR ''-'' \<and> c \<noteq> CHR ''.''"
  by (auto simp: ascii_defs)

lemma parse_unsigned_show_nat [simp]:
  "parse_unsigned hi (show_nat n) = checked_nat hi n"
proof (cases "show_nat n")
  case (Cons c cs)
  moreover have "list_all is_ascii_digit (c # cs)" using show_nat_digits [of n] Cons by simp
  ultimately show ?thesis
    using hd_digits_neq [of c cs] parse_digits_show_nat [of n]
    by (simp add: parse_unsigned_def)
qed simp

lemma parse_signed_digits:
  assumes "s \<noteq> []" and "list_all is_ascii_digit s"
  shows "parse_signed lo hi s = checked lo hi (int (digits_val s))"
proof (cases s)
  case (Cons c cs)
  with assms hd_digits_neq [of c cs] show ?thesis
    by (simp add: parse_signed_def parse_digits_def)
qed (use assms in simp)

lemma parse_unsigned_digits:
  assumes "s \<noteq> []" and "list_all is_ascii_digit s"
  shows "parse_unsigned hi s = checked_nat hi (digits_val s)"
proof (cases s)
  case (Cons c cs)
  with assms hd_digits_neq [of c cs] show ?thesis
    by (simp add: parse_unsigned_def parse_digits_def)
qed (use assms in simp)

text \<open>Zero-padded printing, as \<open>{:0w}\<close>: the sign counts toward the width.\<close>

definition pad_zeros :: "nat \<Rightarrow> string \<Rightarrow> string" where
  "pad_zeros w s = replicate (w - length s) (CHR ''0'') @ s"

definition show_nat_pad :: "nat \<Rightarrow> nat \<Rightarrow> string" where
  "show_nat_pad w n = pad_zeros w (show_nat n)"

definition show_int_pad :: "nat \<Rightarrow> int \<Rightarrow> string" where
  "show_int_pad w i =
     (if i < 0 then CHR ''-'' # pad_zeros (w - 1) (show_nat (nat (- i)))
      else pad_zeros w (show_nat (nat i)))"

lemma show_nat_pad_digits: "list_all is_ascii_digit (show_nat_pad w n)"
proof -
  have "is_ascii_digit (CHR ''0'')" by (simp add: is_ascii_digit_def byte_def)
  then have "list_all is_ascii_digit (replicate k (CHR ''0''))" for k
    by (simp add: list_all_iff)
  then show ?thesis by (simp add: show_nat_pad_def pad_zeros_def)
qed

lemma digits_val_show_nat_pad [simp]: "digits_val (show_nat_pad w n) = n"
  by (simp add: show_nat_pad_def pad_zeros_def)

lemma length_show_nat: "n < 10 ^ k \<Longrightarrow> 0 < k \<Longrightarrow> length (show_nat n) \<le> k"
proof (induction n arbitrary: k rule: show_nat.induct)
  case (1 n)
  show ?case
  proof (cases "n < 10")
    case True
    with "1.prems" show ?thesis by (subst show_nat.simps) simp
  next
    case False
    with "1.prems" have k: "1 < k"
      by (cases k; cases "k - 1") auto
    have "n div 10 < 10 ^ (k - 1)"
      using "1.prems" by (metis Suc_diff_1 div_less_iff_less_mult power_Suc2 zero_less_numeral)
    with 1 False k have "length (show_nat (n div 10)) \<le> k - 1" by simp
    with False k show ?thesis by (subst show_nat.simps) simp
  qed
qed

lemma length_show_nat_pad: "n < 10 ^ w \<Longrightarrow> 0 < w \<Longrightarrow> length (show_nat_pad w n) = w"
  using length_show_nat [of n w] by (simp add: show_nat_pad_def pad_zeros_def)

text \<open>\<open>to_string\<close> of a \<open>bool\<close>.\<close>

definition show_bool :: "bool \<Rightarrow> string" where
  "show_bool b = (if b then ''true'' else ''false'')"

section \<open>Whole characters\<close>

text \<open>Strings that are made of whole UTF-8 characters, and literals with their quotes and
  backslashes escaped.\<close>

definition utf8_char :: "string \<Rightarrow> bool" where
  "utf8_char ch \<longleftrightarrow> ch \<noteq> [] \<and> length ch = utf8_len (hd ch)"

definition escape_literal :: "string list \<Rightarrow> string list" where
  "escape_literal xs = concat (map (\<lambda>ch. if ch = [CHR 0x22] \<or> ch = [CHR 0x5C] then [[CHR 0x5C], ch] else [ch]) xs)"

definition singles :: "string \<Rightarrow> string list" where "singles s = map (\<lambda>c. [c]) s"

lemma chars_cons: "utf8_char ch \<Longrightarrow> chars (ch @ s) = ch # chars s"
  by (cases ch) (simp_all add: utf8_char_def)

lemma chars_concat: "list_all utf8_char xs \<Longrightarrow> chars (concat xs) = xs"
  by (induction xs) (simp_all add: chars_cons)

lemma utf8_ascii: "is_ascii c \<Longrightarrow> utf8_char [c]"
  by (simp add: utf8_char_def)

lemma escape_literal_utf8: "list_all utf8_char xs \<Longrightarrow> list_all utf8_char (escape_literal xs)"
  by (induction xs) (auto simp: escape_literal_def utf8_char_def utf8_len_def)

lemma takeWhile_singles:
  "list_all (\<lambda>c. p [c]) s \<Longrightarrow> \<not> p x \<Longrightarrow> takeWhile p (singles s @ x # m) = singles s"
  by (induction s) (simp_all add: singles_def)

lemma concat_singles [simp]: "concat (singles s) = s"
  by (induction s) (simp_all add: singles_def)

end
