(* ===== verification/Decimal.thy ===== *)
theory Decimal
  imports Complex_Main Rust_Strings
begin

text \<open>
  \<open>num-runtime/src/decimal.rs\<close>: decimal numbers as an \<open>i128\<close> coefficient and a
  \<open>u32\<close> scale, with checked arithmetic. The lemmas relate every operation to the rational
  number a decimal stands for, show that every constructor yields the normal form, and that
  printing and parsing are inverse.
\<close>

datatype ordering = Less | Equal | Greater

definition cmp_int :: "int \<Rightarrow> int \<Rightarrow> ordering" where
  "cmp_int a b = (if a < b then Less else if a = b then Equal else Greater)"

section \<open>The operations\<close>

record decimal =
  coefficient :: int
  scale :: nat

primrec pow10_loop :: "nat \<Rightarrow> int \<Rightarrow> string + int" where
  "pow10_loop 0 v = Ok v"
| "pow10_loop (Suc n) v =
     res_bind (ok_or ''decimal scale is out of range'' (checked i128_min i128_max (v * 10)))
       (pow10_loop n)"

definition pow10 :: "nat \<Rightarrow> string + int" where
  "pow10 e = pow10_loop e 1"

primrec normalize_loop :: "nat \<Rightarrow> int \<Rightarrow> decimal" where
  "normalize_loop 0 c = \<lparr>coefficient = c, scale = 0\<rparr>"
| "normalize_loop (Suc s) c =
     (if c smod 10 = 0 then normalize_loop s (c sdiv 10)
      else \<lparr>coefficient = c, scale = Suc s\<rparr>)"

definition decimal_normalize :: "decimal \<Rightarrow> decimal" where
  "decimal_normalize d = normalize_loop (scale d) (coefficient d)"

definition decimal_new :: "int \<Rightarrow> nat \<Rightarrow> decimal" where
  "decimal_new c s = decimal_normalize \<lparr>coefficient = c, scale = s\<rparr>"

definition decimal_parse :: "string \<Rightarrow> string + decimal" where
  "decimal_parse raw =
     (let v = trim raw in
      if v = [] then Err ''expected a decimal value'' else
      let negative = starts_with ''-'' v;
          unsigned = (case strip_prefix ''-'' v of None \<Rightarrow> v | Some u \<Rightarrow> u) in
      if unsigned = [] \<or> unsigned = ''.''
      then Err ''expected digits before or after the decimal point'' else
      let parts = split_on (CHR ''.'') unsigned;
          whole = hd parts;
          fraction = (if 1 < length parts then parts ! 1 else []) in
      if 2 < length parts then Err ''expected at most one decimal point'' else
      if whole = [] \<and> fraction = []
      then Err ''expected digits before or after the decimal point'' else
      if \<not> list_all is_ascii_digit whole \<or> \<not> list_all is_ascii_digit fraction
      then Err ''expected ASCII decimal digits'' else
      let digits = (if whole = [] then ''0'' else whole) @ fraction in
      res_bind
        (ok_or ''decimal coefficient is out of range'' (parse_signed i128_min i128_max digits))
        (\<lambda>c. Ok (decimal_new (if negative then - c else c) (length fraction mod 2 ^ 32))))"

definition decimal_align :: "decimal \<Rightarrow> decimal \<Rightarrow> string + (int \<times> int \<times> nat)" where
  "decimal_align a b =
     (let s = max (scale a) (scale b) in
      res_bind (pow10 (s - scale a)) (\<lambda>pa.
      res_bind (ok_or ''decimal scale alignment overflowed''
                 (checked i128_min i128_max (coefficient a * pa))) (\<lambda>l.
      res_bind (pow10 (s - scale b)) (\<lambda>pb.
      res_bind (ok_or ''decimal scale alignment overflowed''
                 (checked i128_min i128_max (coefficient b * pb))) (\<lambda>r.
      Ok (l, r, s))))))"

definition decimal_add :: "decimal \<Rightarrow> decimal \<Rightarrow> string + decimal" where
  "decimal_add a b =
     res_bind (decimal_align a b) (\<lambda>(l, r, s).
     res_bind (ok_or ''decimal addition overflowed'' (checked i128_min i128_max (l + r))) (\<lambda>c.
     Ok (decimal_new c s)))"

definition decimal_subtract :: "decimal \<Rightarrow> decimal \<Rightarrow> string + decimal" where
  "decimal_subtract a b =
     res_bind (decimal_align a b) (\<lambda>(l, r, s).
     res_bind (ok_or ''decimal subtraction overflowed'' (checked i128_min i128_max (l - r))) (\<lambda>c.
     Ok (decimal_new c s)))"

definition decimal_multiply :: "decimal \<Rightarrow> decimal \<Rightarrow> string + decimal" where
  "decimal_multiply a b =
     res_bind (ok_or ''decimal multiplication overflowed''
                (checked i128_min i128_max (coefficient a * coefficient b))) (\<lambda>c.
     res_bind (ok_or ''decimal scale overflowed'' (checked_nat u32_max (scale a + scale b))) (\<lambda>s.
     Ok (decimal_new c s)))"

text \<open>
  In \<open>divide\<close> the scale is computed by \<open>checked_add\<close> and then \<open>checked_sub\<close> on
  \<open>u32\<close>. The quotient \<open>numerator / other.coefficient\<close> is Rust's truncating division;
  \<open>None\<close> is its panic on overflow, which \<open>divide_no_panic\<close> below excludes.
\<close>

definition i128_div :: "int \<Rightarrow> int \<Rightarrow> int option" where
  "i128_div a b = (if b = 0 then None else checked i128_min i128_max (a sdiv b))"

definition decimal_divide :: "decimal \<Rightarrow> decimal \<Rightarrow> (string + decimal) option" where
  "decimal_divide a b =
     (if coefficient b = 0 then Some (Err ''decimal division by zero'') else
      case res_bind (pow10 9) (\<lambda>p. ok_or ''decimal division overflowed''
             (checked i128_min i128_max (coefficient a * p))) of
        Inl e \<Rightarrow> Some (Err e)
      | Inr numerator \<Rightarrow>
          (case i128_div numerator (coefficient b) of
             None \<Rightarrow> None
           | Some c \<Rightarrow>
               Some (res_bind (ok_or ''decimal scale overflowed''
                        (Option.bind (checked_nat u32_max (scale a + 9))
                           (\<lambda>s. if scale b \<le> s then Some (s - scale b) else None)))
                 (\<lambda>s. Ok (decimal_new c s)))))"

definition decimal_multiply_i128_round :: "decimal \<Rightarrow> int \<Rightarrow> string + int" where
  "decimal_multiply_i128_round a n =
     res_bind (ok_or ''decimal multiplication overflowed''
                (checked i128_min i128_max (coefficient a * n))) (\<lambda>scaled.
     res_bind (pow10 (scale a)) (\<lambda>divisor.
     let quotient = scaled sdiv divisor; remainder = scaled smod divisor in
     res_bind (ok_or ''decimal rounding overflowed''
                (checked i128_min i128_max (\<bar>remainder\<bar> * 2))) (\<lambda>twice.
     if \<not> divisor \<le> twice then Ok quotient
     else if 0 \<le> scaled
     then ok_or ''decimal rounded result overflowed'' (checked i128_min i128_max (quotient + 1))
     else ok_or ''decimal rounded result overflowed'' (checked i128_min i128_max (quotient - 1)))))"

definition decimal_cmp :: "decimal \<Rightarrow> decimal \<Rightarrow> string + ordering" where
  "decimal_cmp a b = res_bind (decimal_align a b) (\<lambda>(l, r, _). Ok (cmp_int l r))"

text \<open>
  \<open>Display\<close>. \<open>i128::abs\<close> overflows on the least \<open>i128\<close>: \<open>None\<close> is that panic.
\<close>

definition decimal_to_string :: "decimal \<Rightarrow> string option" where
  "decimal_to_string d =
     (if scale d = 0 then Some (show_int (coefficient d)) else
      Option.bind (checked i128_min i128_max \<bar>coefficient d\<bar>) (\<lambda>m.
        let digits = show_int m;
            sign = (if coefficient d < 0 then ''-'' else []) in
        Some (sign @
          (if length digits \<le> scale d
           then ''0.'' @ replicate (scale d - length digits) (CHR ''0'') @ digits
           else let split = length digits - scale d in
                take split digits @ ''.'' @ drop split digits))))"

section \<open>Normal form and value\<close>

definition decimal_value :: "decimal \<Rightarrow> rat" where
  "decimal_value d = of_int (coefficient d) / 10 ^ scale d"

definition decimal_normal :: "decimal \<Rightarrow> bool" where
  "decimal_normal d \<longleftrightarrow> scale d = 0 \<or> \<not> 10 dvd coefficient d"

definition decimal_wf :: "decimal \<Rightarrow> bool" where
  "decimal_wf d \<longleftrightarrow> decimal_normal d \<and> i128_min \<le> coefficient d \<and> coefficient d \<le> i128_max
     \<and> scale d \<le> u32_max"

lemma pow10_loop_eq:
  "0 < v \<Longrightarrow> v \<le> i128_max \<Longrightarrow>
   pow10_loop n v = (if v * 10 ^ n \<le> i128_max then Ok (v * 10 ^ n)
                     else Err ''decimal scale is out of range'')"
proof (induction n arbitrary: v)
  case 0
  then show ?case by simp
next
  case (Suc n)
  show ?case
  proof (cases "v * 10 \<le> i128_max")
    case True
    with Suc show ?thesis by (simp add: checked_def mult.assoc)
  next
    case False
    have "v * 10 * 1 \<le> v * 10 * 10 ^ n"
      using Suc.prems by (intro mult_left_mono) (auto simp: one_le_power)
    with False have "\<not> v * (10 * 10 ^ n) \<le> i128_max" unfolding mult.assoc by linarith
    with False Suc.prems show ?thesis by (simp add: checked_def)
  qed
qed

lemma pow10_eq:
  "pow10 e = (if (10::int) ^ e \<le> i128_max then Ok (10 ^ e) else Err ''decimal scale is out of range'')"
  by (simp add: pow10_def pow10_loop_eq)

lemma pow10_Ok [result_simps]: "pow10 e = Ok p \<longleftrightarrow> p = 10 ^ e \<and> (10::int) ^ e \<le> i128_max"
  by (auto simp: pow10_eq)

lemma smod_zero_dvd: "(c::int) smod 10 = 0 \<longleftrightarrow> 10 dvd c"
  by (auto simp: signed_modulo_int_def sgn_eq_0_iff mod_eq_0_iff_dvd)

lemma sdiv_ten: "10 dvd c \<Longrightarrow> 10 * ((c::int) sdiv 10) = c"
  using smod_zero_dvd [of c] mult_sdiv_smod_eq [of 10 c] by simp

text \<open>What the normalisation loop preserves and establishes.\<close>

lemma normalize_loop_value: "decimal_value (normalize_loop s c) = of_int c / 10 ^ s"
proof (induction s arbitrary: c)
  case 0
  then show ?case by (simp add: decimal_value_def)
next
  case (Suc s)
  show ?case
  proof (cases "10 dvd c")
    case True
    then have "(of_int c :: rat) = 10 * of_int (c sdiv 10)"
      by (metis sdiv_ten of_int_mult of_int_numeral)
    with True Suc show ?thesis by (simp add: smod_zero_dvd)
  next
    case False
    then show ?thesis by (simp add: smod_zero_dvd decimal_value_def)
  qed
qed

lemma normalize_loop_normal: "decimal_normal (normalize_loop s c)"
  by (induction s arbitrary: c) (auto simp: decimal_normal_def smod_zero_dvd)

lemma normalize_loop_scale: "scale (normalize_loop s c) \<le> s"
  by (induction s arbitrary: c) (auto simp: le_SucI)

lemma normalize_loop_range:
  "lo \<le> c \<Longrightarrow> c \<le> hi \<Longrightarrow> lo \<le> 0 \<Longrightarrow> 0 \<le> hi \<Longrightarrow>
   lo \<le> coefficient (normalize_loop s c) \<and> coefficient (normalize_loop s c) \<le> hi"
proof (induction s arbitrary: c)
  case 0
  then show ?case by simp
next
  case (Suc s)
  show ?case
  proof (cases "c smod 10 = 0")
    case True
    then have "10 * (c sdiv 10) = c" by (simp add: smod_zero_dvd sdiv_ten)
    with Suc.prems have "lo \<le> c sdiv 10" "c sdiv 10 \<le> hi" by linarith+
    with Suc True show ?thesis by simp
  next
    case False
    with Suc show ?thesis by simp
  qed
qed

lemma normalize_loop_numeral [simp]:
  "normalize_loop (numeral n) c =
     (if c smod 10 = 0 then normalize_loop (pred_numeral n) (c sdiv 10)
      else \<lparr>coefficient = c, scale = numeral n\<rparr>)"
  by (simp add: numeral_eq_Suc)

lemma normalize_loop_id: "s = 0 \<or> \<not> 10 dvd c \<Longrightarrow> normalize_loop s c = \<lparr>coefficient = c, scale = s\<rparr>"
  by (cases s) (auto simp: smod_zero_dvd)

lemma decimal_new_value [simp]: "decimal_value (decimal_new c s) = of_int c / 10 ^ s"
  by (simp add: decimal_new_def decimal_normalize_def normalize_loop_value)

lemma decimal_new_wf:
  "i128_min \<le> c \<Longrightarrow> c \<le> i128_max \<Longrightarrow> s \<le> u32_max \<Longrightarrow> decimal_wf (decimal_new c s)"
  using normalize_loop_range [of i128_min c i128_max s] normalize_loop_scale [of s c]
    normalize_loop_normal [of s c]
  by (simp add: decimal_wf_def decimal_new_def decimal_normalize_def)

lemma decimal_new_id: "decimal_wf d \<Longrightarrow> decimal_new (coefficient d) (scale d) = d"
  by (simp add: decimal_wf_def decimal_normal_def decimal_new_def decimal_normalize_def
      normalize_loop_id)

section \<open>Alignment\<close>

lemma decimal_align_Ok:
  assumes "decimal_align a b = Ok (l, r, s)"
  shows "s = max (scale a) (scale b)" "of_int l = decimal_value a * 10 ^ s"
    "of_int r = decimal_value b * 10 ^ s"
proof -
  have s: "s = max (scale a) (scale b)"
    and l: "l = coefficient a * 10 ^ (s - scale a)" and r: "r = coefficient b * 10 ^ (s - scale b)"
    using assms by (auto simp: decimal_align_def Let_def result_simps)
  have pow: "(10::rat) ^ (s - k) * 10 ^ k = 10 ^ s" if "k \<le> s" for k
    using that by (metis le_add_diff_inverse2 power_add)
  show "s = max (scale a) (scale b)" by (fact s)
  show "of_int l = decimal_value a * 10 ^ s"
    using pow [of "scale a"] s by (simp add: l decimal_value_def field_simps)
  show "of_int r = decimal_value b * 10 ^ s"
    using pow [of "scale b"] s by (simp add: r decimal_value_def field_simps)
qed

text \<open>Alignment succeeds exactly when the powers of ten and both coefficients fit.\<close>

lemma decimal_align_iff:
  "decimal_align a b = Ok (l, r, s) \<longleftrightarrow>
     s = max (scale a) (scale b)
     \<and> (10::int) ^ (s - scale a) \<le> i128_max \<and> (10::int) ^ (s - scale b) \<le> i128_max
     \<and> checked i128_min i128_max (coefficient a * 10 ^ (s - scale a)) = Some l
     \<and> checked i128_min i128_max (coefficient b * 10 ^ (s - scale b)) = Some r"
  by (auto simp: decimal_align_def Let_def result_simps)

text \<open>The scaled sum of two values, as an exact integer.\<close>

lemma decimal_add_raw:
  assumes "decimal_add a b = Ok c"
  shows "decimal_value c = decimal_value a + decimal_value b"
proof -
  obtain l r s where al: "decimal_align a b = Ok (l, r, s)" and c: "c = decimal_new (l + r) s"
    using assms by (auto simp: decimal_add_def result_simps)
  then show ?thesis
    using decimal_align_Ok [OF al] by (simp add: add_divide_distrib)
qed

lemma decimal_subtract_raw:
  assumes "decimal_subtract a b = Ok c"
  shows "decimal_value c = decimal_value a - decimal_value b"
proof -
  obtain l r s where al: "decimal_align a b = Ok (l, r, s)" and c: "c = decimal_new (l - r) s"
    using assms by (auto simp: decimal_subtract_def result_simps)
  then show ?thesis
    using decimal_align_Ok [OF al] by (simp add: diff_divide_distrib)
qed

lemma decimal_multiply_raw:
  assumes "decimal_multiply a b = Ok c"
  shows "decimal_value c = decimal_value a * decimal_value b"
  using assms by (auto simp: decimal_multiply_def result_simps decimal_value_def power_add)
     (simp add: decimal_value_def [symmetric] power_add)

section \<open>Division and rounding\<close>

lemma abs_smod_less: "(b::int) \<noteq> 0 \<Longrightarrow> \<bar>a smod b\<bar> < \<bar>b\<bar>"
  by (auto simp: signed_modulo_int_def abs_mult abs_sgn_eq)

lemma sdiv_quotient_error:
  assumes "(b::int) \<noteq> 0"
  shows "\<bar>of_int (a sdiv b) - of_int a / of_int b\<bar> < (1::rat)"
proof -
  have "a = (a sdiv b) * b + a smod b" by (simp add: sdiv_mult_smod_eq)
  then have "(of_int a :: rat) = of_int (a sdiv b) * of_int b + of_int (a smod b)"
    by (metis of_int_add of_int_mult)
  then have "of_int (a sdiv b) - of_int a / of_int b = - (of_int (a smod b) / of_int b :: rat)"
    using assms by (simp add: field_simps)
  moreover have "\<bar>of_int (a smod b) / of_int b :: rat\<bar> < 1"
    using abs_smod_less [OF assms, of a] assms
    by (simp add: abs_divide)
  ultimately show ?thesis by simp
qed

text \<open>The dividend is a multiple of ten, so its quotient never overflows.\<close>

lemma i128_div_total:
  assumes "b \<noteq> 0" and "i128_min < a" and "a \<le> i128_max"
  shows "i128_div a b = Some (a sdiv b)"
proof -
  have "\<bar>a sdiv b\<bar> \<le> \<bar>a\<bar>"
  proof -
    have "0 < \<bar>b\<bar>" using assms(1) by simp
    then have "\<bar>a\<bar> div \<bar>b\<bar> \<le> \<bar>a\<bar>" "0 \<le> \<bar>a\<bar> div \<bar>b\<bar>"
      by (simp_all add: div_le_dividend pos_imp_zdiv_nonneg_iff int_div_less_self
          order.trans [OF zdiv_mono2 [of "\<bar>a\<bar>" 1 "\<bar>b\<bar>"]])
    then show ?thesis by (auto simp: signed_divide_int_def abs_mult abs_sgn_eq)
  qed
  with assms show ?thesis by (simp add: i128_div_def checked_def) linarith
qed

lemma i128_min_not_ten: "coefficient a * 10 ^ 9 \<noteq> i128_min"
proof
  assume "coefficient a * 10 ^ 9 = i128_min"
  then have "10 dvd (i128_min :: int)" by (metis dvd_triv_right dvd_trans dvd_power_le
        le_numeral_extra(4) one_le_numeral power_one_right dvd_power zero_less_numeral)
  then show False by simp
qed

lemma sgn_mult_div_round:
  assumes "0 < (d::int)" and "a = q * d + r" and "\<bar>r\<bar> < d"
  shows "\<lfloor>(of_int a / of_int d :: rat) + 1 / 2\<rfloor> = q + \<lfloor>(of_int r / of_int d :: rat) + 1 / 2\<rfloor>"
proof -
  have "(of_int a / of_int d :: rat) = of_int q + of_int r / of_int d"
    using assms by (simp add: field_simps)
  then show ?thesis by (simp add: add.assoc)
qed

lemma floor_half_fraction:
  assumes "0 < (d::int)" and "0 \<le> r" and "r < d"
  shows "\<lfloor>(of_int r / of_int d :: rat) + 1 / 2\<rfloor> = (if d \<le> 2 * r then 1 else 0)"
proof -
  have d: "(0::rat) < of_int d" and r: "(0::rat) \<le> of_int r" "(of_int r :: rat) < of_int d"
    using assms by simp_all
  show ?thesis
  proof (cases "d \<le> 2 * r")
    case True
    then have "(of_int d :: rat) \<le> 2 * of_int r" by (metis of_int_le_iff of_int_mult of_int_numeral)
    with d r True show ?thesis by (simp add: floor_eq_iff field_simps)
  next
    case False
    then have "(2 * of_int r :: rat) < of_int d"
      by (metis not_le of_int_less_iff of_int_mult of_int_numeral)
    with d r False show ?thesis by (simp add: floor_eq_iff field_simps)
  qed
qed

text \<open>Rounding half away from zero.\<close>

definition round_half_away :: "rat \<Rightarrow> int" where
  "round_half_away x = (if 0 \<le> x then \<lfloor>x + 1 / 2\<rfloor> else - \<lfloor>- x + 1 / 2\<rfloor>)"

lemma round_half_away_div:
  assumes "0 < (d::int)"
  shows "round_half_away (of_int a / of_int d) =
    (let q = a sdiv d; r = a smod d in
     if \<not> d \<le> 2 * \<bar>r\<bar> then q else if 0 \<le> a then q + 1 else q - 1)"
proof (cases "0 \<le> a")
  case True
  then have q: "a sdiv d = a div d" and r: "a smod d = a mod d"
    using assms by (auto simp: signed_divide_int_def signed_modulo_int_def sgn_if)
  have "\<lfloor>(of_int a / of_int d :: rat) + 1 / 2\<rfloor> = a div d + (if d \<le> 2 * (a mod d) then 1 else 0)"
    using sgn_mult_div_round [of d a "a div d" "a mod d"] floor_half_fraction [of d "a mod d"] assms
    by simp
  moreover have "(0::rat) \<le> of_int a / of_int d" using True assms by simp
  ultimately show ?thesis using True assms by (simp add: round_half_away_def q r)
next
  case False
  define m where "m = - a"
  from False have m: "0 < m" by (simp add: m_def)
  then have q: "a sdiv d = - (m div d)" and r: "a smod d = - (m mod d)"
    using assms by (auto simp: signed_divide_int_def signed_modulo_int_def sgn_if m_def)
  have "\<lfloor>(of_int m / of_int d :: rat) + 1 / 2\<rfloor> = m div d + (if d \<le> 2 * (m mod d) then 1 else 0)"
    using sgn_mult_div_round [of d m "m div d" "m mod d"] floor_half_fraction [of d "m mod d"] assms
    by simp
  moreover have "\<not> (0::rat) \<le> of_int a / of_int d"
    using False assms by (simp add: field_simps)
  moreover have "- (of_int a / of_int d) = (of_int m / of_int d :: rat)" by (simp add: m_def)
  ultimately show ?thesis using False assms by (simp add: round_half_away_def q r)
qed

section \<open>Printing and parsing\<close>

lemma parse_unsigned_decimal:
  assumes w: "w \<noteq> []" "list_all is_ascii_digit w" and f: "list_all is_ascii_digit f"
    and v: "int (digits_val (w @ f)) \<le> i128_max" and fl: "length f \<le> u32_max"
    and neg: "sign = [] \<or> sign = ''-''"
    and body: "body = (if f = [] then w else w @ CHR ''.'' # f)"
  shows "decimal_parse (sign @ body)
    = Ok (decimal_new ((if sign = [] then 1 else - 1) * int (digits_val (w @ f))) (length f))"
proof -
  have ascii: "list_all is_ascii w" "list_all is_ascii f"
    using w(2) f by (auto simp: list_all_iff is_ascii_digit_ascii)
  have nodot: "CHR ''.'' \<notin> set w" "CHR ''.'' \<notin> set f" and nominus: "CHR ''-'' \<notin> set w"
    using w(2) f by (auto simp: list_all_iff ascii_defs)
  have nows: "\<not> is_whitespace [c]" if "c \<in> set (sign @ body)" for c
  proof -
    have "c = CHR ''-'' \<or> c = CHR ''.'' \<or> is_ascii_digit c"
      using that neg body w(2) f by (auto simp: list_all_iff split: if_splits)
    then show ?thesis by (auto simp: is_whitespace_def ascii_defs)
  qed
  have "list_all is_ascii (sign @ body)"
    using ascii neg body by (auto simp: is_ascii_def byte_def)
  from trim_no_ws [OF this nows] have tr: "trim (sign @ body) = sign @ body" .
  have "body \<noteq> []" "body \<noteq> ''.''" "\<not> starts_with ''-'' body"
    using w(1) nodot nominus body by (cases w; auto simp: starts_with_def split: if_splits)+
  moreover have "split_on (CHR ''.'') body = (if f = [] then [w] else [w, f])"
    using nodot body by (simp add: split_on_absent split_on_append)
  moreover have "parse_signed i128_min i128_max (w @ f) = Some (int (digits_val (w @ f)))"
    using w f v by (simp add: parse_signed_digits checked_def)
  moreover have "length f mod 2 ^ 32 = length f" using fl by simp
  moreover have "strip_prefix ''-'' (sign @ body) = (if sign = [] then None else Some body)"
    using neg \<open>\<not> starts_with ''-'' body\<close> by (auto simp: strip_prefix_def starts_with_def)
  moreover have "starts_with ''-'' (sign @ body) = (sign \<noteq> [])"
    using neg \<open>\<not> starts_with ''-'' body\<close> by (auto simp: starts_with_def)
  ultimately show ?thesis
    using w f neg by (auto simp: decimal_parse_def tr Let_def)
qed

lemma decimal_align_range:
  assumes "decimal_align a b = Ok (l, r, s)" and "decimal_wf a" and "decimal_wf b"
  shows "s \<le> u32_max"
  using assms by (simp add: decimal_align_iff decimal_wf_def max_def)

lemma decimal_add_wf:
  assumes "decimal_add a b = Ok c" and "decimal_wf a" and "decimal_wf b"
  shows "decimal_wf c"
proof -
  obtain l r s where "decimal_align a b = Ok (l, r, s)" "checked i128_min i128_max (l + r) = Some (l + r)"
    "c = decimal_new (l + r) s"
    using assms(1) by (auto simp: decimal_add_def result_simps)
  with decimal_align_range [of a b l r s] assms(2,3) decimal_new_wf [of "l + r" s] show ?thesis
    by (simp add: checked_Some)
qed

lemma decimal_subtract_wf:
  assumes "decimal_subtract a b = Ok c" and "decimal_wf a" and "decimal_wf b"
  shows "decimal_wf c"
proof -
  obtain l r s where "decimal_align a b = Ok (l, r, s)" "checked i128_min i128_max (l - r) = Some (l - r)"
    "c = decimal_new (l - r) s"
    using assms(1) by (auto simp: decimal_subtract_def result_simps)
  with decimal_align_range [of a b l r s] assms(2,3) decimal_new_wf [of "l - r" s] show ?thesis
    by (simp add: checked_Some)
qed

lemma decimal_multiply_wf:
  assumes "decimal_multiply a b = Ok c"
  shows "decimal_wf c"
proof -
  obtain s where "checked i128_min i128_max (coefficient a * coefficient b) = Some (coefficient a * coefficient b)"
    "s \<le> u32_max" "c = decimal_new (coefficient a * coefficient b) s"
    using assms by (auto simp: decimal_multiply_def result_simps)
  with decimal_new_wf [of "coefficient a * coefficient b" s] show ?thesis
    by (simp add: checked_Some)
qed

lemma decimal_divide_quotient:
  assumes "coefficient b \<noteq> 0" and "checked i128_min i128_max (coefficient a * 10 ^ 9) = Some n"
  shows "i128_div n (coefficient b) = Some (n sdiv coefficient b)"
proof (rule i128_div_total)
  have n: "n = coefficient a * 10 ^ 9" "i128_min \<le> n" "n \<le> i128_max"
    using assms(2) by (auto simp: checked_Some)
  with i128_min_not_ten [of a] show "i128_min < n" by linarith
  show "n \<le> i128_max" by (fact n(3))
qed (fact assms(1))

lemma decimal_divide_no_panic: "decimal_divide a b \<noteq> None"
proof (cases "coefficient b = 0")
  case False
  then show ?thesis
    using decimal_divide_quotient [of b a]
    by (cases "checked i128_min i128_max (coefficient a * 10 ^ 9)")
      (auto simp: decimal_divide_def pow10_eq)
qed (simp add: decimal_divide_def)

lemma decimal_divide_Ok:
  assumes r: "decimal_divide a b = Some (Ok c)"
  shows "coefficient b \<noteq> 0" "scale b \<le> scale a + 9"
    "c = decimal_new (coefficient a * 10 ^ 9 sdiv coefficient b) (scale a + 9 - scale b)"
proof -
  show nz: "coefficient b \<noteq> 0" using r by (auto simp: decimal_divide_def)
  obtain n where n: "checked i128_min i128_max (coefficient a * 10 ^ 9) = Some n"
    using r nz by (cases "checked i128_min i128_max (coefficient a * 10 ^ 9)")
      (simp_all add: decimal_divide_def pow10_eq)
  then have e: "n = coefficient a * 10 ^ 9" by (simp add: checked_Some)
  show "scale b \<le> scale a + 9"
    "c = decimal_new (coefficient a * 10 ^ 9 sdiv coefficient b) (scale a + 9 - scale b)"
    using r nz decimal_divide_quotient [OF nz n] n
    by (simp_all add: decimal_divide_def pow10_eq res_bind_Inr ok_or_Inr checked_nat_Some
        bind_eq_Some_conv e split: if_splits)
qed

lemma decimal_divide_error:
  assumes r: "decimal_divide a b = Some (Ok c)"
  shows "decimal_value b \<noteq> 0 \<and> scale b \<le> scale a + 9 \<and>
    \<bar>decimal_value c - decimal_value a / decimal_value b\<bar> < 1 / 10 ^ (scale a + 9 - scale b)"
proof -
  define n where "n = coefficient a * 10 ^ 9"
  define s where "s = scale a + 9 - scale b"
  note d = decimal_divide_Ok [OF r]
  have "(10::rat) ^ s * 10 ^ scale b = 10 ^ scale a * 10 ^ 9"
    using d(2) by (metis s_def power_add le_add_diff_inverse2)
  then have q: "decimal_value a / decimal_value b = (of_int n / of_int (coefficient b)) / 10 ^ s"
    using d(1) by (simp add: decimal_value_def n_def field_simps)
  have "\<bar>of_int (n sdiv coefficient b) - of_int n / of_int (coefficient b)\<bar> < (1::rat)"
    by (rule sdiv_quotient_error) (fact d(1))
  then have "\<bar>decimal_value c - decimal_value a / decimal_value b\<bar> < 1 / 10 ^ s"
    unfolding q d(3) n_def [symmetric] s_def [symmetric] decimal_new_value
      diff_divide_distrib [symmetric] abs_divide
    by (simp add: divide_strict_right_mono)
  with d(1,2) show ?thesis by (simp add: decimal_value_def s_def)
qed

section \<open>Properties\<close>

text \<open>C39: addition, subtraction and multiplication of decimals are exact: whenever the checked
  operation succeeds, the result is a normalised decimal in range whose rational value is the
  sum, difference or product of the operands' values.\<close>

theorem decimal_arith_exact:
  assumes "decimal_wf a" and "decimal_wf b"
  shows "(\<forall>c. decimal_add a b = Ok c \<longrightarrow>
        decimal_wf c \<and> decimal_value c = decimal_value a + decimal_value b)
    \<and> (\<forall>c. decimal_subtract a b = Ok c \<longrightarrow>
        decimal_wf c \<and> decimal_value c = decimal_value a - decimal_value b)
    \<and> (\<forall>c. decimal_multiply a b = Ok c \<longrightarrow>
        decimal_wf c \<and> decimal_value c = decimal_value a * decimal_value b)"
  using assms decimal_add_wf decimal_subtract_wf decimal_multiply_wf
    decimal_add_raw decimal_subtract_raw decimal_multiply_raw by blast

theorem decimal_arith_exact_witness:
  "decimal_wf \<lparr>coefficient = 1275, scale = 2\<rparr>
   \<and> decimal_value \<lparr>coefficient = 1275, scale = 2\<rparr> =
     decimal_value \<lparr>coefficient = 105, scale = 1\<rparr> + decimal_value \<lparr>coefficient = 225, scale = 2\<rparr>"
proof -
  have w: "decimal_wf \<lparr>coefficient = 105, scale = 1\<rparr>" "decimal_wf \<lparr>coefficient = 225, scale = 2\<rparr>"
    by (simp_all add: decimal_wf_def decimal_normal_def)
  have "decimal_add \<lparr>coefficient = 105, scale = 1\<rparr> \<lparr>coefficient = 225, scale = 2\<rparr> =
    Ok \<lparr>coefficient = 1275, scale = 2\<rparr>"
    by code_simp
  with decimal_arith_exact [OF w] show ?thesis by blast
qed

text \<open>Addition of well-formed decimals fails exactly when a power of ten needed for the
  alignment, an aligned coefficient or the sum of the aligned coefficients leaves the
  \<open>i128\<close> range; in every other case it returns a value.\<close>

theorem decimal_add_total:
  "is_ok (decimal_add a b) \<longleftrightarrow>
     (let s = max (scale a) (scale b);
          l = coefficient a * 10 ^ (s - scale a); r = coefficient b * 10 ^ (s - scale b) in
      (10::int) ^ (s - scale a) \<le> i128_max \<and> (10::int) ^ (s - scale b) \<le> i128_max
      \<and> {l, r, l + r} \<subseteq> {i128_min..i128_max})"
  by (auto simp: is_ok_iff decimal_add_def result_simps decimal_align_iff Let_def)

text \<open>Division never panics on well-formed operands, and when it returns a decimal, that
  decimal is within one unit of its last kept digit (scale \<open>scale a + 9 - scale b\<close>) of the
  exact quotient.\<close>

theorem decimal_divide_bound:
  assumes "decimal_wf a" and "decimal_wf b"
  shows "decimal_divide a b \<noteq> None
    \<and> (\<forall>c. decimal_divide a b = Some (Ok c) \<longrightarrow>
         decimal_value b \<noteq> 0 \<and> scale b \<le> scale a + 9 \<and>
         \<bar>decimal_value c - decimal_value a / decimal_value b\<bar> < 1 / 10 ^ (scale a + 9 - scale b))"
  using decimal_divide_no_panic [of a b] decimal_divide_error [of a b] by blast

theorem decimal_divide_bound_witness:
  "\<bar>decimal_value \<lparr>coefficient = 525, scale = 2\<rparr> -
     decimal_value \<lparr>coefficient = 105, scale = 1\<rparr> / decimal_value \<lparr>coefficient = 2, scale = 0\<rparr>\<bar>
   < 1 / 10 ^ 10"
proof -
  have w: "decimal_wf \<lparr>coefficient = 105, scale = 1\<rparr>" "decimal_wf \<lparr>coefficient = 2, scale = 0\<rparr>"
    by (simp_all add: decimal_wf_def decimal_normal_def)
  have "decimal_divide \<lparr>coefficient = 105, scale = 1\<rparr> \<lparr>coefficient = 2, scale = 0\<rparr> =
    Some (Ok \<lparr>coefficient = 525, scale = 2\<rparr>)"
    by (simp add: decimal_divide_def pow10_eq checked_def checked_nat_def i128_div_def
        decimal_new_def decimal_normalize_def)
  with decimal_divide_bound [OF w] show ?thesis by simp
qed

text \<open>Multiplying a decimal by an integer and rounding returns the exact product rounded
  half away from zero, whenever it returns a value.\<close>

theorem decimal_round_correct:
  assumes "decimal_multiply_i128_round a n = Ok r"
  shows "r = round_half_away (decimal_value a * of_int n)"
proof -
  let ?m = "coefficient a * n" and ?d = "(10::int) ^ scale a"
  have "r = (let q = ?m sdiv ?d; rem = ?m smod ?d in
     if \<not> ?d \<le> 2 * \<bar>rem\<bar> then q else if 0 \<le> ?m then q + 1 else q - 1)"
    using assms
    by (auto simp: decimal_multiply_i128_round_def result_simps Let_def mult.commute
        split: if_splits)
  also have "\<dots> = round_half_away (of_int ?m / of_int ?d)"
    by (rule round_half_away_div [symmetric]) simp
  finally show ?thesis by (simp add: decimal_value_def)
qed

theorem decimal_round_correct_witness:
  "(101::int) = round_half_away (decimal_value \<lparr>coefficient = 1005, scale = 3\<rparr> * of_int 100)"
  by (rule decimal_round_correct) code_simp

text \<open>The comparison of two decimals agrees with the order of their rational values.\<close>

theorem decimal_cmp_correct:
  assumes "decimal_cmp a b = Ok ord"
  shows "(ord = Less \<longleftrightarrow> decimal_value a < decimal_value b)
    \<and> (ord = Equal \<longleftrightarrow> decimal_value a = decimal_value b)
    \<and> (ord = Greater \<longleftrightarrow> decimal_value b < decimal_value a)"
proof -
  obtain l r s where al: "decimal_align a b = Ok (l, r, s)" and ord: "ord = cmp_int l r"
    using assms by (auto simp: decimal_cmp_def result_simps)
  note v = decimal_align_Ok(2,3) [OF al]
  have "(l < r) = (decimal_value a < decimal_value b)" "(l = r) = (decimal_value a = decimal_value b)"
    "(r < l) = (decimal_value b < decimal_value a)"
    using v by (metis mult_less_cancel_right_pos of_int_less_iff zero_less_numeral zero_less_power,
        metis mult_cancel_right of_int_eq_iff power_not_zero zero_neq_numeral,
        metis mult_less_cancel_right_pos of_int_less_iff zero_less_numeral zero_less_power)
  then show ?thesis by (auto simp: ord cmp_int_def)
qed

theorem decimal_cmp_correct_witness:
  "decimal_value \<lparr>coefficient = 105, scale = 1\<rparr> < decimal_value \<lparr>coefficient = 1051, scale = 2\<rparr>"
proof -
  have "decimal_cmp \<lparr>coefficient = 105, scale = 1\<rparr> \<lparr>coefficient = 1051, scale = 2\<rparr> = Ok Less"
    by code_simp
  from decimal_cmp_correct [OF this] show ?thesis by simp
qed

lemma decimal_print_parse:
  assumes wf: "decimal_wf d" and "coefficient d \<noteq> i128_min"
  shows "\<exists>t. decimal_to_string d = Some t \<and> decimal_parse t = Ok d"
proof -
  define m where "m = nat \<bar>coefficient d\<bar>"
  define sign where "sign = (if coefficient d < 0 then ''-'' else [])"
  define w where "w = (if length (show_nat m) \<le> scale d then ''0''
    else take (length (show_nat m) - scale d) (show_nat m))"
  define f where "f = (if length (show_nat m) \<le> scale d
    then replicate (scale d - length (show_nat m)) (CHR ''0'') @ show_nat m
    else drop (length (show_nat m) - scale d) (show_nat m))"
  define body where "body = (if f = [] then w else w @ CHR ''.'' # f)"
  have m: "int m \<le> i128_max" "int m = \<bar>coefficient d\<bar>"
    using assms by (auto simp: decimal_wf_def m_def)
  have dig: "list_all is_ascii_digit (show_nat m)" by simp
  have wf': "w \<noteq> []" "list_all is_ascii_digit w" "list_all is_ascii_digit f" "length f = scale d"
    using dig set_take_subset [of "length (show_nat m) - scale d" "show_nat m"]
      set_drop_subset [of "length (show_nat m) - scale d" "show_nat m"]
    by (auto simp: w_def f_def list_all_iff ascii_defs)
  have v: "digits_val (w @ f) = m"
  proof (cases "length (show_nat m) \<le> scale d")
    case True
    then have "w @ f = replicate (Suc (scale d - length (show_nat m))) (CHR ''0'') @ show_nat m"
      by (simp add: w_def f_def)
    then show ?thesis by (simp only: digits_val_zeros digits_val_show_nat)
  qed (simp add: w_def f_def)
  have "decimal_parse (sign @ body)
    = Ok (decimal_new ((if sign = [] then 1 else - 1) * int (digits_val (w @ f))) (length f))"
    by (rule parse_unsigned_decimal [OF wf'(1,2,3) _ _ _ body_def])
      (use wf m v wf'(4) in \<open>auto simp: decimal_wf_def sign_def\<close>)
  moreover have "(if sign = [] then 1 else - 1) * int m = coefficient d"
    by (simp add: m sign_def)
  ultimately have p: "decimal_parse (sign @ body) = Ok d"
    using decimal_new_id [OF wf] by (simp add: v wf'(4))
  have show1: "show_int (int m) = show_nat m" "show_int (coefficient d) = sign @ show_nat m"
    using m by (auto simp: show_int_def sign_def m_def)
  have abs: "checked i128_min i128_max \<bar>coefficient d\<bar> = Some (int m)"
    using m by (simp add: checked_def)
  have "decimal_to_string d = Some (sign @ body)"
  proof (cases "scale d = 0")
    case True
    then have "f = []" "w = show_nat m" using wf'(4) by (simp_all add: w_def)
    with True show ?thesis by (simp add: decimal_to_string_def show1 body_def)
  next
    case False
    then have "f \<noteq> []" using wf'(4) by auto
    with False show ?thesis
      unfolding decimal_to_string_def abs
      by (simp add: show1 body_def Let_def w_def f_def sign_def)
  qed
  with p show ?thesis by blast
qed

text \<open>C40: a well-formed decimal other than those with the least \<open>i128\<close> as coefficient prints,
  and parsing the printed text gives the same decimal back.\<close>

theorem decimal_roundtrip:
  assumes "decimal_wf d" and "coefficient d \<noteq> i128_min"
  shows "\<exists>t. decimal_to_string d = Some t \<and> decimal_parse t = Ok d"
  using assms by (rule decimal_print_parse)

theorem decimal_roundtrip_witness:
  "\<exists>t. decimal_to_string \<lparr>coefficient = - 5, scale = 2\<rparr> = Some t
     \<and> decimal_parse t = Ok \<lparr>coefficient = - 5, scale = 2\<rparr>"
  by (rule decimal_roundtrip) (simp_all add: decimal_wf_def decimal_normal_def)

end
