(* ===== verification/Date_Time.thy ===== *)
theory Date_Time
  imports Decimal
begin

text \<open>
  \<open>num-runtime/src/datetime.rs\<close>: UTC timestamps in the form \<open>YYYY-MM-DDTHH:MM:SSZ\<close>,
  their conversion to seconds since 1970 and back, comparison and shifting by whole seconds.
  The functions on \<open>f64\<close> hour amounts are not modelled: \<open>shift_seconds\<close> starts where
  \<open>shift_duration_hours\<close> has turned the hours into whole seconds. Rust's \<open>/\<close> and
  \<open>%\<close> on \<open>i64\<close> are \<open>sdiv\<close> and \<open>smod\<close>; \<open>div_euclid\<close> and \<open>rem_euclid\<close> by a
  positive divisor are HOL's \<open>div\<close> and \<open>mod\<close>.
\<close>

section \<open>The operations\<close>

record utc_date_time =
  year :: int
  month :: nat
  day :: nat
  hour :: nat
  minute :: nat
  second :: nat

definition is_leap_year :: "int \<Rightarrow> bool" where
  "is_leap_year y \<longleftrightarrow> (y smod 4 = 0 \<and> y smod 100 \<noteq> 0) \<or> y smod 400 = 0"

definition days_in_month :: "int \<Rightarrow> nat \<Rightarrow> nat" where
  "days_in_month y m =
     (if m \<in> {1, 3, 5, 7, 8, 10, 12} then 31
      else if m \<in> {4, 6, 9, 11} then 30
      else if m = 2 \<and> is_leap_year y then 29
      else if m = 2 then 28
      else 0)"

definition byte_slice :: "nat \<Rightarrow> nat \<Rightarrow> string \<Rightarrow> string" where
  "byte_slice start stop s = take (stop - start) (drop start s)"

definition parse_fixed_i32 :: "string \<Rightarrow> nat \<Rightarrow> nat \<Rightarrow> string \<Rightarrow> string + int" where
  "parse_fixed_i32 s start stop label =
     ok_or (label @ '' must be numeric'') (parse_signed i32_min i32_max (byte_slice start stop s))"

definition parse_fixed_u32 :: "string \<Rightarrow> nat \<Rightarrow> nat \<Rightarrow> string \<Rightarrow> string + nat" where
  "parse_fixed_u32 s start stop label =
     ok_or (label @ '' must be numeric'') (parse_unsigned u32_max (byte_slice start stop s))"

definition parse_iso_utc_parts :: "string \<Rightarrow> string + utc_date_time" where
  "parse_iso_utc_parts s =
     (if length s \<noteq> 20 \<or> s ! 4 \<noteq> CHR ''-'' \<or> s ! 7 \<noteq> CHR ''-'' \<or> s ! 10 \<noteq> CHR ''T''
         \<or> s ! 13 \<noteq> CHR '':'' \<or> s ! 16 \<noteq> CHR '':'' \<or> s ! 19 \<noteq> CHR ''Z''
      then Err ''expected UTC ISO-8601 form YYYY-MM-DDTHH:MM:SSZ'' else
      res_bind (parse_fixed_i32 s 0 4 ''year'') (\<lambda>y.
      res_bind (parse_fixed_u32 s 5 7 ''month'') (\<lambda>mo.
      res_bind (parse_fixed_u32 s 8 10 ''day'') (\<lambda>d.
      res_bind (parse_fixed_u32 s 11 13 ''hour'') (\<lambda>h.
      res_bind (parse_fixed_u32 s 14 16 ''minute'') (\<lambda>mi.
      res_bind (parse_fixed_u32 s 17 19 ''second'') (\<lambda>sec.
      if \<not> (1 \<le> mo \<and> mo \<le> 12) then Err ''month must be 01..12''
      else if d = 0 \<or> days_in_month y mo < d then Err ''day is outside the month range''
      else if 23 < h \<or> 59 < mi \<or> 59 < sec
      then Err ''time must be within 00:00:00..23:59:59''
      else Ok \<lparr>year = y, month = mo, day = d, hour = h, minute = mi, second = sec\<rparr>)))))))"

definition format_iso_utc_parts :: "utc_date_time \<Rightarrow> string" where
  "format_iso_utc_parts t =
     show_int_pad 4 (year t) @ ''-'' @ show_nat_pad 2 (month t) @ ''-'' @ show_nat_pad 2 (day t)
     @ ''T'' @ show_nat_pad 2 (hour t) @ '':'' @ show_nat_pad 2 (minute t) @ '':''
     @ show_nat_pad 2 (second t) @ ''Z''"

definition parse_iso_utc :: "string \<Rightarrow> string + string" where
  "parse_iso_utc s = res_map format_iso_utc_parts (parse_iso_utc_parts s)"

definition format_iso_utc :: "string \<Rightarrow> string + string" where
  "format_iso_utc s = parse_iso_utc s"

definition days_from_civil :: "int \<Rightarrow> nat \<Rightarrow> nat \<Rightarrow> int" where
  "days_from_civil y m d =
     (let y = y - (if m \<le> 2 then 1 else 0);
          era = y div 400;
          yoe = y - era * 400;
          m = int m;
          doy = (153 * (m + (if 2 < m then - 3 else 9)) + 2) sdiv 5 + int d - 1;
          doe = yoe * 365 + yoe sdiv 4 - yoe sdiv 100 + doy in
      era * 146097 + doe - 719468)"

definition civil_from_days :: "int \<Rightarrow> int \<times> nat \<times> nat" where
  "civil_from_days days =
     (let days = days + 719468;
          era = days div 146097;
          doe = days - era * 146097;
          yoe = (doe - doe sdiv 1460 + doe sdiv 36524 - doe sdiv 146096) sdiv 365;
          y = yoe + era * 400;
          doy = doe - (365 * yoe + yoe sdiv 4 - yoe sdiv 100);
          mp = (5 * doy + 2) sdiv 153;
          d = doy - (153 * mp + 2) sdiv 5 + 1;
          m = mp + (if mp < 10 then 3 else - 9);
          y = y + (if m \<le> 2 then 1 else 0) in
      (as_i32 y, nat m, nat d))"

definition timestamp_seconds :: "utc_date_time \<Rightarrow> string + int" where
  "timestamp_seconds t =
     (let days = days_from_civil (year t) (month t) (day t);
          day_seconds = int (hour t) * 3600 + int (minute t) * 60 + int (second t) in
      ok_or ''DateTime timestamp overflowed''
        (Option.bind (checked i64_min i64_max (days * 86400))
           (\<lambda>s. checked i64_min i64_max (s + day_seconds))))"

definition datetime_from_timestamp_seconds :: "int \<Rightarrow> utc_date_time" where
  "datetime_from_timestamp_seconds seconds =
     (let days = seconds div 86400;
          day_seconds = seconds mod 86400 in
      case civil_from_days days of (y, m, d) \<Rightarrow>
        \<lparr>year = y, month = m, day = d,
         hour = nat (day_seconds sdiv 3600),
         minute = nat ((day_seconds smod 3600) sdiv 60),
         second = nat (day_seconds smod 60)\<rparr>)"

definition compare_iso_utc :: "string \<Rightarrow> string \<Rightarrow> string + ordering" where
  "compare_iso_utc left right =
     res_bind (res_bind (parse_iso_utc_parts left) timestamp_seconds) (\<lambda>l.
     res_bind (res_bind (parse_iso_utc_parts right) timestamp_seconds) (\<lambda>r.
     Ok (cmp_int l r)))"

definition shift_seconds :: "string \<Rightarrow> int \<Rightarrow> string + string" where
  "shift_seconds s seconds_delta =
     res_bind (res_bind (parse_iso_utc_parts s) timestamp_seconds) (\<lambda>base.
     res_bind (ok_or ''DateTime arithmetic overflowed''
                (checked i64_min i64_max (base + seconds_delta))) (\<lambda>shifted.
     Ok (format_iso_utc_parts (datetime_from_timestamp_seconds shifted))))"

section \<open>The calendar\<close>

definition valid_date :: "int \<Rightarrow> nat \<Rightarrow> nat \<Rightarrow> bool" where
  "valid_date y m d \<longleftrightarrow> 1 \<le> m \<and> m \<le> 12 \<and> 1 \<le> d \<and> d \<le> days_in_month y m"

definition valid_date_time :: "utc_date_time \<Rightarrow> bool" where
  "valid_date_time t \<longleftrightarrow> valid_date (year t) (month t) (day t)
     \<and> hour t \<le> 23 \<and> minute t \<le> 59 \<and> second t \<le> 59"

lemma sdiv_nonneg [simp]: "0 \<le> (a::int) \<Longrightarrow> 0 < b \<Longrightarrow> a sdiv b = a div b"
  by (auto simp: signed_divide_int_def sgn_if)

lemma smod_nonneg [simp]: "0 \<le> (a::int) \<Longrightarrow> 0 < b \<Longrightarrow> a smod b = a mod b"
  by (auto simp: signed_modulo_int_def sgn_if)

lemma smod_eq_0_dvd: "(a::int) smod b = 0 \<longleftrightarrow> b dvd a"
  by (auto simp: signed_modulo_int_def sgn_eq_0_iff mod_eq_0_iff_dvd)

lemma is_leap_year_dvd: "is_leap_year y \<longleftrightarrow> (4 dvd y \<and> \<not> 100 dvd y) \<or> 400 dvd y"
  by (simp add: is_leap_year_def smod_eq_0_dvd)

text \<open>The first and last day of each year of a 400-year era that starts on 1 March.\<close>

definition year_start :: "int \<Rightarrow> int" where
  "year_start yoe = 365 * yoe + yoe div 4 - yoe div 100"

definition leap_after :: "int \<Rightarrow> bool" where
  "leap_after yoe \<longleftrightarrow> ((yoe + 1) mod 4 = 0 \<and> (yoe + 1) mod 100 \<noteq> 0) \<or> (yoe + 1) mod 400 = 0"

definition year_last :: "int \<Rightarrow> int" where
  "year_last yoe = year_start yoe + (if leap_after yoe then 365 else 364)"

definition era_days :: "int \<Rightarrow> int" where
  "era_days doe = doe - doe div 1460 + doe div 36524 - doe div 146096"

lemma le_div_int: "0 < (c::int) \<Longrightarrow> a \<le> b div c \<longleftrightarrow> a * c \<le> b"
proof -
  assume c: "0 < c"
  have "(b + (- a) * c) div c = - a + b div c" using c by (intro div_mult_self1) simp
  with pos_imp_zdiv_nonneg_iff [OF c, of "b + (- a) * c"] show ?thesis by linarith
qed

lemma era_days_step: "era_days doe \<le> era_days (doe + 1)"
proof -
  define a b where "a = doe div 36524" and "b = (doe + 1) div 36524"
  have "(doe + 1) div 1460 \<le> (doe + 1460) div 1460" by (rule zdiv_mono1) simp_all
  then have c: "(doe + 1) div 1460 \<le> doe div 1460 + 1" by simp
  have ab: "a \<le> b" unfolding a_def b_def by (rule zdiv_mono1) simp_all
  have q: "x div 146096 = x div 36524 div 4" for x :: int
    using zdiv_zmult2_eq [of 4 x 36524] by simp
  have "b div 4 \<le> (a + (b - a) * 4) div 4" using ab by (intro zdiv_mono1) simp_all
  then have "b div 4 - a div 4 \<le> b - a" by simp
  with c show ?thesis unfolding era_days_def q a_def [symmetric] b_def [symmetric] by linarith
qed

lemma era_days_mono: "a \<le> b \<Longrightarrow> era_days a \<le> era_days b"
proof (induction b rule: int_ge_induct)
  case base
  then show ?case by simp
next
  case (step i)
  with era_days_step [of i] show ?case by simp
qed

lemma year_of_era_parts:
  assumes "0 \<le> (yoe::int)" and "yoe < 400"
  obtains c p r where "yoe = 100 * c + 4 * p + r" "0 \<le> c" "c \<le> 3" "0 \<le> p" "p \<le> 24" "0 \<le> r" "r \<le> 3"
proof
  show "yoe = 100 * (yoe div 100) + 4 * (yoe mod 100 div 4) + yoe mod 100 mod 4"
    by (metis add.assoc mult_div_mod_eq)
qed (use assms in \<open>linarith+\<close>)

lemma year_start_parts:
  assumes "0 \<le> p" "p \<le> 24" "0 \<le> r" "r \<le> 3"
  shows "year_start (100 * c + 4 * p + r) = 36524 * c + 1461 * p + 365 * r"
proof -
  have "(100 * c + 4 * p + r) div 4 = 25 * c + p"
    using assms by (intro int_div_pos_eq [where r = r]) simp_all
  moreover have "(100 * c + 4 * p + r) div 100 = c"
    using assms by (intro int_div_pos_eq [where r = "4 * p + r"]) simp_all
  ultimately show ?thesis by (simp add: year_start_def)
qed

lemma era_days_parts:
  assumes "0 \<le> c" "c \<le> 3" "0 \<le> p" "p \<le> 24" "0 \<le> (x::int)" "x < 1461" "p = 24 \<Longrightarrow> c < 3 \<Longrightarrow> x < 1460"
  shows "era_days (36524 * c + 1461 * p + x) =
    36500 * c + 1460 * p + x - (24 * c + p + x) div 1460"
proof -
  let ?d = "36524 * c + 1461 * p + x"
  have q1460: "?d div 1460 = 25 * c + p + (24 * c + p + x) div 1460"
  proof -
    have "?d = (24 * c + p + x) + 1460 * (25 * c + p)" by simp
    then have "?d div 1460 = (25 * c + p) + (24 * c + p + x) div 1460"
      by (simp only: div_mult_self2 zero_neq_numeral not_False_eq_True)
    then show ?thesis by simp
  qed
  show ?thesis
  proof (cases "1461 * p + x < 36524")
    case True
    then have "?d div 36524 = c"
      using assms by (intro int_div_pos_eq [where r = "1461 * p + x"]) simp_all
    moreover have "?d div 146096 = 0" using True assms by (simp add: div_pos_pos_trivial)
    ultimately show ?thesis by (simp add: era_days_def q1460)
  next
    case False
    with assms have "p = 24" "x = 1460" "c = 3" by linarith+
    then show ?thesis by (simp add: era_days_def)
  qed
qed

lemma mod_zero_unique: "0 < x \<Longrightarrow> x \<le> n \<Longrightarrow> (x::int) mod n = 0 \<longleftrightarrow> x = n"
  by (metis mod_pos_pos_trivial mod_self not_less_iff_gr_or_eq order_less_le)

lemma leap_after_parts:
  assumes "0 \<le> c" "c \<le> 3" "0 \<le> p" "p \<le> 24" "0 \<le> r" "r \<le> 3"
  shows "leap_after (100 * c + 4 * p + r) \<longleftrightarrow> r = 3 \<and> (p \<noteq> 24 \<or> c = 3)"
proof -
  let ?n = "100 * c + 4 * p + r + 1"
  have "?n = (r + 1) + 4 * (25 * c + p)" by simp
  then have "?n mod 4 = (r + 1) mod 4" by (simp only: mod_mult_self2)
  then have m4: "?n mod 4 = 0 \<longleftrightarrow> r = 3"
    using assms mod_zero_unique [of "r + 1" 4] by linarith
  have "?n = (4 * p + r + 1) + 100 * c" by simp
  then have "?n mod 100 = (4 * p + r + 1) mod 100" by (simp only: mod_mult_self2)
  then have m100: "?n mod 100 = 0 \<longleftrightarrow> p = 24 \<and> r = 3"
    using assms mod_zero_unique [of "4 * p + r + 1" 100] by linarith
  have m400: "?n mod 400 = 0 \<longleftrightarrow> c = 3 \<and> p = 24 \<and> r = 3"
    using assms mod_zero_unique [of ?n 400] by linarith
  show ?thesis unfolding leap_after_def m4 m100 m400 by auto
qed

lemma year_bounds:
  assumes "0 \<le> yoe" and "yoe < 400"
  shows "365 * yoe \<le> era_days (year_start yoe)" and "era_days (year_last yoe) < 365 * (yoe + 1)"
    and "yoe < 399 \<Longrightarrow> year_start (yoe + 1) = year_last yoe + 1"
proof -
  obtain c p r where y: "yoe = 100 * c + 4 * p + r" "0 \<le> c" "c \<le> 3" "0 \<le> p" "p \<le> 24" "0 \<le> r" "r \<le> 3"
    using year_of_era_parts [OF assms] .
  have st: "year_start yoe = 36524 * c + 1461 * p + 365 * r"
    unfolding y(1) using y by (intro year_start_parts) simp_all
  have "24 * c + p + 365 * r < 1460" using y by linarith
  then have "(24 * c + p + 365 * r) div 1460 = 0" using y by (simp add: div_pos_pos_trivial)
  moreover have "365 * r < 1460" using y by linarith
  ultimately show "365 * yoe \<le> era_days (year_start yoe)"
    unfolding st using y by (subst era_days_parts) simp_all
  note leap = leap_after_parts [OF y(2-7), folded y(1)]
  define x where "x = 365 * r + (if leap_after yoe then 365 else 364)"
  have la: "year_last yoe = 36524 * c + 1461 * p + x" by (simp add: year_last_def st x_def)
  have x: "0 \<le> x" "x < 1461" "p = 24 \<Longrightarrow> c < 3 \<Longrightarrow> x < 1460"
    using y leap by (auto simp: x_def split: if_splits)
  have "36500 * c + 1460 * p + x - (24 * c + p + x) div 1460 < 365 * (yoe + 1)"
  proof (cases "leap_after yoe")
    case True
    then have x': "x = 1460" "r = 3" using leap by (simp_all add: x_def)
    have "1460 div 1460 \<le> (24 * c + p + 1460) div 1460" using y by (intro zdiv_mono1) simp_all
    then show ?thesis using y(1) by (simp add: x')
  next
    case False
    moreover have "0 \<le> (24 * c + p + x) div 1460" using y x by simp
    ultimately show ?thesis using y(1) by (simp add: x_def)
  qed
  then show "era_days (year_last yoe) < 365 * (yoe + 1)"
    unfolding la using y x by (subst era_days_parts) simp_all
  show "year_start (yoe + 1) = year_last yoe + 1" if "yoe < 399"
  proof -
    have "r < 3 \<or> (r = 3 \<and> p < 24) \<or> (r = 3 \<and> p = 24 \<and> c < 3)"
      using y that by linarith
    then consider "r < 3" | "r = 3" "p < 24" | "r = 3" "p = 24" "c < 3" by blast
    then show ?thesis
    proof cases
      case 1
      have e: "yoe + 1 = 100 * c + 4 * p + (r + 1)" using y(1) 1 by simp
      show ?thesis
        using year_start_parts [of p "r + 1" c] leap 1 y(2-7) by (simp add: la x_def e)
    next
      case 2
      have e: "yoe + 1 = 100 * c + 4 * (p + 1) + 0" using y(1) 2 by simp
      show ?thesis
        using year_start_parts [of "p + 1" 0 c] leap 2 y(2-7) by (simp add: la x_def e)
    next
      case 3
      have e: "yoe + 1 = 100 * (c + 1) + 4 * 0 + 0" using y(1) 3 by simp
      show ?thesis
        using year_start_parts [of 0 0 "c + 1"] leap 3 y(2-7) by (simp add: la x_def e)
    qed
  qed
qed

lemma year_of_day:
  assumes "0 \<le> yoe" and "yoe < 400" and "year_start yoe \<le> doe" and "doe \<le> year_last yoe"
  shows "era_days doe div 365 = yoe"
proof -
  have "365 * yoe \<le> era_days doe" "era_days doe < 365 * (yoe + 1)"
    using year_bounds(1,2) [OF assms(1,2)] era_days_mono [OF assms(3)] era_days_mono [OF assms(4)]
    by linarith+
  then show ?thesis by (intro int_div_pos_eq [where r = "era_days doe - 365 * yoe"]) simp_all
qed

lemma year_exists:
  "0 \<le> doe \<Longrightarrow> doe \<le> year_last n \<Longrightarrow> 0 \<le> n \<Longrightarrow> n < 400 \<Longrightarrow>
   \<exists>yoe. 0 \<le> yoe \<and> yoe < 400 \<and> year_start yoe \<le> doe \<and> doe \<le> year_last yoe"
proof (induction "nat n" arbitrary: n)
  case 0
  then show ?case by (intro exI [of _ 0]) (simp add: year_start_def)
next
  case (Suc k)
  then have n: "0 \<le> n - 1" "n - 1 < 399" "k = nat (n - 1)" by simp_all
  show ?case
  proof (cases "year_start n \<le> doe")
    case True
    with Suc.prems show ?thesis by blast
  next
    case False
    with year_bounds(3) [of "n - 1"] n have "doe \<le> year_last (n - 1)" by simp
    with Suc.hyps(1) [of "n - 1"] Suc.prems n show ?thesis by simp
  qed
qed

text \<open>Months of the year that starts in March: \<open>mp\<close> counts from 0.\<close>

definition month_start :: "int \<Rightarrow> int" where "month_start mp = (153 * mp + 2) div 5"

lemma month_of_day:
  assumes "0 \<le> mp" and "month_start mp \<le> doy" and "doy < month_start (mp + 1)"
  shows "(5 * doy + 2) div 153 = mp"
proof -
  have "153 * mp + 2 < 5 * doy + 5" "5 * doy < 153 * (mp + 1) + 2 - 4 + 4"
    using assms unfolding month_start_def by linarith+
  then have "153 * mp \<le> 5 * doy + 2" "5 * doy + 2 < 153 * (mp + 1)"
    using assms unfolding month_start_def by linarith+
  then show ?thesis by (intro int_div_pos_eq [where r = "5 * doy + 2 - 153 * mp"]) simp_all
qed

lemma month_exists:
  assumes "0 \<le> (doy::int)" and "doy \<le> 365"
  shows "0 \<le> (5 * doy + 2) div 153" "(5 * doy + 2) div 153 \<le> 11"
    "month_start ((5 * doy + 2) div 153) \<le> doy" "doy < month_start ((5 * doy + 2) div 153 + 1)"
proof -
  define q where "q = (5 * doy + 2) div 153"
  have q: "153 * q \<le> 5 * doy + 2" "5 * doy + 2 < 153 * q + 153"
    unfolding q_def by linarith+
  then have "doy + 1 \<le> (153 * (q + 1) + 2) div 5" by (simp add: le_div_int)
  with q assms show "0 \<le> (5 * doy + 2) div 153" "(5 * doy + 2) div 153 \<le> 11"
    "month_start ((5 * doy + 2) div 153) \<le> doy" "doy < month_start ((5 * doy + 2) div 153 + 1)"
    unfolding month_start_def q_def [symmetric] by linarith+
qed

lemma mod_400_cancel: "k dvd 400 \<Longrightarrow> (y mod 400 + 1) mod k = (y + 1) mod (k::int)"
  by (metis mod_add_left_eq mod_mod_cancel)

lemma leap_after_mod: "leap_after (y mod 400) \<longleftrightarrow> is_leap_year (y + 1)"
proof -
  have e: "(y mod 400 + 1) mod 4 = (y + 1) mod 4" "(y mod 400 + 1) mod 100 = (y + 1) mod 100"
    "(y mod 400 + 1) mod 400 = (y + 1) mod 400"
    by (rule mod_400_cancel, simp)+
  show ?thesis unfolding leap_after_def is_leap_year_dvd dvd_eq_mod_eq_0 e by (rule refl)
qed

lemma month_cases:
  "1 \<le> m \<Longrightarrow> m \<le> 12 \<Longrightarrow> m \<in> {1, 2, 3, 4, 5, 6, 7, 8, 9, 10, 11, 12 :: nat}"
  by (auto simp: le_Suc_eq numeral_eq_Suc)

lemma valid_date_doy:
  assumes "valid_date y m d"
  defines "yp \<equiv> y - (if m \<le> 2 then 1 else 0)" and "mp \<equiv> int m + (if 2 < m then - 3 else 9)"
  defines "doy \<equiv> month_start mp + int d - 1"
  shows "0 \<le> mp" "mp \<le> 11" "month_start mp \<le> doy" "doy < month_start (mp + 1)" "0 \<le> doy"
    "doy \<le> (if leap_after (yp mod 400) then 365 else 364)"
proof -
  have m12: "1 \<le> m" "m \<le> 12" and d: "1 \<le> d" "d \<le> days_in_month y m"
    using assms(1) by (simp_all add: valid_date_def)
  note m = month_cases [OF m12]
  show "0 \<le> mp" "mp \<le> 11" using m by (auto simp: mp_def)
  show "month_start mp \<le> doy" using d(1) by (simp add: doy_def)
  have all: "doy < month_start (mp + 1) \<and> 0 \<le> doy \<and>
      doy \<le> (if leap_after (yp mod 400) then 365 else 364)"
    using m d
    by (elim insertE emptyE)
      (simp_all add: doy_def mp_def yp_def leap_after_mod month_start_def days_in_month_def
        split: if_split_asm)
  then show "doy < month_start (mp + 1)" "0 \<le> doy"
    "doy \<le> (if leap_after (yp mod 400) then 365 else 364)" by simp_all
qed

lemma days_from_civil_parts:
  fixes y :: int and m d :: nat
  assumes "1 \<le> m"
  defines "yp \<equiv> y - (if m \<le> 2 then 1 else 0)" and "mp \<equiv> int m + (if 2 < m then - 3 else 9)"
  shows "days_from_civil y m d =
    (yp div 400) * 146097 + (year_start (yp mod 400) + (month_start mp + int d - 1)) - 719468"
proof -
  have mp: "0 \<le> 153 * mp + 2" using assms(1) by (simp add: mp_def)
  have mp': "int m + (if 2 < int m then - 3 else 9) = mp" by (simp add: mp_def)
  have yoe: "yp - yp div 400 * 400 = yp mod 400" by (simp add: minus_div_mult_eq_mod)
  have "0 \<le> yp mod 400" by simp
  then have "yp mod 400 sdiv 4 = yp mod 400 div 4" "yp mod 400 sdiv 100 = yp mod 400 div 100"
    "(153 * mp + 2) sdiv 5 = (153 * mp + 2) div 5"
    using mp by simp_all
  then show ?thesis
    unfolding days_from_civil_def Let_def yp_def [symmetric] yoe mp' year_start_def month_start_def
    by simp
qed

lemma year_start_nonneg: "0 \<le> yoe \<Longrightarrow> 0 \<le> year_start yoe"
  unfolding year_start_def by linarith

lemma year_last_bound: "0 \<le> yoe \<Longrightarrow> yoe < 400 \<Longrightarrow> year_last yoe \<le> 146096"
proof -
  assume y: "0 \<le> yoe" "yoe < 400"
  show ?thesis
  proof (cases "yoe = 399")
    case True
    then show ?thesis by (simp add: year_last_def year_start_def)
  next
    case False
    with y have "365 * yoe + yoe div 4 - yoe div 100 + 365 \<le> 146096" by linarith
    then show ?thesis by (simp add: year_last_def year_start_def)
  qed
qed

lemma civil_from_days_parts:
  fixes era yoe doy :: int
  assumes "0 \<le> yoe" and "yoe < 400" and "0 \<le> doy" and "year_start yoe + doy \<le> year_last yoe"
  defines "mp \<equiv> (5 * doy + 2) div 153"
  shows "civil_from_days (era * 146097 + (year_start yoe + doy) - 719468) =
    (as_i32 (yoe + era * 400 + (if mp < 10 then 0 else 1)),
     nat (mp + (if mp < 10 then 3 else - 9)), nat (doy - month_start mp + 1))"
proof -
  define doe where "doe = year_start yoe + doy"
  have doe: "0 \<le> doe" "doe \<le> 146096"
    using assms year_start_nonneg [of yoe] year_last_bound [of yoe] by (simp_all add: doe_def)
  have "doy \<le> 365" using assms(4) by (simp add: year_last_def split: if_split_asm)
  then have mp: "0 \<le> mp" "mp \<le> 11" using month_exists [OF assms(3)] by (simp_all add: mp_def)
  have era: "(era * 146097 + doe) div 146097 = era"
    using doe by (intro int_div_pos_eq [where r = doe]) simp_all
  have yoe: "(doe - doe sdiv 1460 + doe sdiv 36524 - doe sdiv 146096) sdiv 365 = yoe"
  proof -
    have "0 \<le> era_days doe"
      using year_bounds(1) [OF assms(1,2)] era_days_mono [of "year_start yoe" doe] assms
      by (simp add: doe_def)
    moreover have "era_days doe div 365 = yoe"
      by (rule year_of_day) (use assms in \<open>simp_all add: doe_def\<close>)
    ultimately show ?thesis using doe(1) by (simp add: era_days_def)
  qed
  have start: "365 * yoe + yoe sdiv 4 - yoe sdiv 100 = year_start yoe"
    using assms(1) by (simp add: year_start_def)
  have doy: "doe - year_start yoe = doy" by (simp add: doe_def)
  have "(5 * doy + 2) sdiv 153 = mp" "(153 * mp + 2) sdiv 5 = month_start mp"
    using assms(3) mp by (simp_all add: mp_def month_start_def)
  then show ?thesis
    using mp
    unfolding civil_from_days_def Let_def doe_def [symmetric] diff_add_cancel era
      add_diff_cancel_left' yoe start doy
    by simp
qed

text \<open>A civil date is recovered from its day number, and a day number from its civil date.\<close>

lemma civil_of_days_of_civil:
  assumes v: "valid_date y m d" and y: "i32_min \<le> y" "y \<le> i32_max"
  shows "civil_from_days (days_from_civil y m d) = (y, m, d)"
proof -
  define yp where "yp = y - (if m \<le> 2 then 1 else 0)"
  define mp where "mp = int m + (if 2 < m then - 3 else 9)"
  define doy where "doy = month_start mp + int d - 1"
  note b = valid_date_doy [OF v, folded yp_def mp_def, folded doy_def]
  have m: "1 \<le> m" "m \<le> 12" "1 \<le> d" using v by (simp_all add: valid_date_def)
  have q: "(5 * doy + 2) div 153 = mp" by (rule month_of_day) (fact b)+
  have "civil_from_days ((yp div 400) * 146097 + (year_start (yp mod 400) + doy) - 719468) =
    (as_i32 (yp mod 400 + yp div 400 * 400 + (if mp < 10 then 0 else 1)),
     nat (mp + (if mp < 10 then 3 else - 9)), nat (doy - month_start mp + 1))"
    using civil_from_days_parts [of "yp mod 400" doy "yp div 400"] b(5,6) q
    by (simp add: year_last_def split: if_split_asm)
  moreover have "yp mod 400 + yp div 400 * 400 = yp" by simp
  moreover have "mp < 10 \<longleftrightarrow> 2 < m" using m by (auto simp: mp_def)
  ultimately show ?thesis
    using m y as_i32_id [of y] days_from_civil_parts [of m y d, OF m(1), folded yp_def mp_def]
    by (auto simp: doy_def [symmetric] add_diff_eq [symmetric] yp_def mp_def doy_def)
qed

lemma days_of_civil_of_days:
  assumes z: "- 700000000000 \<le> z" "z \<le> 700000000000" and c: "civil_from_days z = (y, m, d)"
  shows "valid_date y m d" and "days_from_civil y m d = z" and "i32_min \<le> y" and "y \<le> i32_max"
proof -
  define era where "era = (z + 719468) div 146097"
  define doe where "doe = (z + 719468) mod 146097"
  have zed: "z = era * 146097 + doe - 719468" by (simp add: era_def doe_def)
  have era: "- 5000000 \<le> era" "era \<le> 5000000" using z unfolding era_def by linarith+
  have "0 \<le> doe" "doe \<le> year_last 399"
    by (simp_all add: doe_def year_last_def year_start_def leap_after_def)
  from year_exists [OF this] obtain yoe where
    yoe: "0 \<le> yoe" "yoe < 400" "year_start yoe \<le> doe" "doe \<le> year_last yoe" by auto
  define doy where "doy = doe - year_start yoe"
  define mp where "mp = (5 * doy + 2) div 153"
  have doy: "0 \<le> doy" "doy \<le> (if leap_after yoe then 365 else 364)" "doe = year_start yoe + doy"
    using yoe by (simp_all add: doy_def year_last_def)
  then have "doy \<le> 365" by (simp split: if_split_asm)
  note mp = month_exists [OF doy(1) this, folded mp_def]
  define dd where "dd = doy - month_start mp + 1"
  have yr: "i32_min \<le> yoe + era * 400 + k" "yoe + era * 400 + k \<le> i32_max" if "k \<in> {0, 1}" for k
    using era yoe(1,2) that by auto
  have "civil_from_days z = (as_i32 (yoe + era * 400 + (if mp < 10 then 0 else 1)),
     nat (mp + (if mp < 10 then 3 else - 9)), nat (doy - month_start mp + 1))"
    unfolding zed doy(3) mp_def
    by (rule civil_from_days_parts) (use yoe doy in simp_all)
  then have ymd: "y = yoe + era * 400 + (if mp < 10 then 0 else 1)"
    "int m = mp + (if mp < 10 then 3 else - 9)" "int d = dd"
    using c yr mp by (auto simp: as_i32_id dd_def)
  then show "i32_min \<le> y" "y \<le> i32_max" using yr by auto
  have m: "1 \<le> m" "m \<le> 12" "m \<le> 2 \<longleftrightarrow> 10 \<le> mp" using ymd(2) mp(1,2) by (auto split: if_splits)
  have yp: "y - (if m \<le> 2 then 1 else 0) = yoe + era * 400" using ymd(1) m by auto
  have mp': "int m + (if 2 < m then - 3 else 9) = mp" using ymd(2) m by auto
  have "(yoe + era * 400) mod 400 = yoe" "(yoe + era * 400) div 400 = era"
    using yoe by simp_all
  then show "days_from_civil y m d = z"
    using days_from_civil_parts [OF m(1), of y d] unfolding yp mp'
    by (simp add: ymd(3) dd_def zed doy(3))
  have leap: "leap_after yoe \<longleftrightarrow> is_leap_year (yoe + era * 400 + 1)"
    using leap_after_mod [of "yoe + era * 400"] yoe by simp
  have "dd \<le> int (days_in_month y m)"
    using month_cases [OF m(1,2)] mp(4) doy(2) ymd(1)
    unfolding dd_def mp' [symmetric]
    by (elim insertE emptyE)
      (simp_all add: month_start_def days_in_month_def leap split: if_split_asm)
  with m mp(3) ymd(3) show "valid_date y m d" by (simp add: valid_date_def dd_def)
qed

section \<open>Timestamps\<close>

lemma days_bounds:
  assumes "valid_date y m d" and "i32_min \<le> y" and "y \<le> i32_max"
  shows "- 800000000000 \<le> days_from_civil y m d" and "days_from_civil y m d \<le> 800000000000"
proof -
  define yp where "yp = y - (if m \<le> 2 then 1 else 0)"
  define mp where "mp = int m + (if 2 < m then - 3 else 9)"
  define doy where "doy = month_start mp + int d - 1"
  note b = valid_date_doy [OF assms(1), folded yp_def mp_def, folded doy_def]
  have "1 \<le> m" using assms(1) by (simp add: valid_date_def)
  from days_from_civil_parts [OF this, of y d, folded yp_def mp_def, folded doy_def]
  have e: "days_from_civil y m d = yp div 400 * 146097 + (year_start (yp mod 400) + doy) - 719468" .
  have "0 \<le> yp mod 400" "yp mod 400 < 400" by simp_all
  with year_start_nonneg year_last_bound [of "yp mod 400"] b(5,6)
  have "0 \<le> year_start (yp mod 400) + doy" "year_start (yp mod 400) + doy \<le> 146096"
    by (simp_all add: year_last_def split: if_split_asm)
  moreover have "- 5368710 \<le> yp div 400" "yp div 400 \<le> 5368709"
    using assms(2,3) by (auto simp: yp_def)
  ultimately show "- 800000000000 \<le> days_from_civil y m d" "days_from_civil y m d \<le> 800000000000"
    unfolding e by linarith+
qed

definition day_seconds :: "utc_date_time \<Rightarrow> int" where
  "day_seconds t = int (hour t) * 3600 + int (minute t) * 60 + int (second t)"

definition timestamp :: "utc_date_time \<Rightarrow> int" where
  "timestamp t = days_from_civil (year t) (month t) (day t) * 86400 + day_seconds t"

lemma day_seconds_bounds: "valid_date_time t \<Longrightarrow> 0 \<le> day_seconds t \<and> day_seconds t < 86400"
  by (auto simp: valid_date_time_def day_seconds_def)

lemma timestamp_seconds_total:
  assumes "valid_date_time t" and "i32_min \<le> year t" and "year t \<le> i32_max"
  shows "timestamp_seconds t = Ok (timestamp t)"
  using days_bounds [of "year t" "month t" "day t"] day_seconds_bounds [OF assms(1)] assms
  by (simp add: timestamp_seconds_def Let_def day_seconds_def [symmetric] timestamp_def
      valid_date_time_def checked_def)

lemma datetime_of_timestamp:
  assumes v: "valid_date_time t" and "i32_min \<le> year t" and "year t \<le> i32_max"
  shows "datetime_from_timestamp_seconds (timestamp t) = t"
proof -
  define ds where "ds = day_seconds t"
  have ds: "0 \<le> ds" "ds < 86400" using day_seconds_bounds [OF v] by (simp_all add: ds_def)
  have q: "timestamp t div 86400 = days_from_civil (year t) (month t) (day t)"
    "timestamp t mod 86400 = ds"
    using ds by (simp_all add: timestamp_def ds_def [symmetric])
  have hms: "hour t \<le> 23" "minute t \<le> 59" "second t \<le> 59"
    using v by (simp_all add: valid_date_time_def)
  have "ds = int (hour t) * 3600 + (int (minute t) * 60 + int (second t))"
    by (simp add: ds_def day_seconds_def)
  then have h: "ds div 3600 = int (hour t)" "ds mod 3600 = int (minute t) * 60 + int (second t)"
    using hms by simp_all
  then have "ds mod 3600 div 60 = int (minute t)" using hms by simp
  moreover have "ds mod 60 = int (second t)"
  proof -
    have "ds = int (second t) + (int (hour t) * 60 + int (minute t)) * 60"
      by (simp add: ds_def day_seconds_def)
    then have "ds mod 60 = int (second t) mod 60" by (simp only: mod_mult_self1)
    then show ?thesis using hms by simp
  qed
  ultimately show ?thesis
    using civil_of_days_of_civil [of "year t" "month t" "day t"] v assms(2,3) ds h(1)
    by (simp add: datetime_from_timestamp_seconds_def q valid_date_time_def)
qed

lemma timestamp_of_datetime:
  assumes "- 60000000000000000 \<le> s" and "s \<le> 60000000000000000"
  defines "t \<equiv> datetime_from_timestamp_seconds s"
  shows "valid_date_time t" and "timestamp t = s" and "i32_min \<le> year t" and "year t \<le> i32_max"
proof -
  define ds where "ds = s mod 86400"
  have ds: "0 \<le> ds" "ds < 86400" by (simp_all add: ds_def)
  obtain y m d where c: "civil_from_days (s div 86400) = (y, m, d)" by (metis prod_cases3)
  have "- 700000000000 \<le> s div 86400" "s div 86400 \<le> 700000000000" using assms(1,2) by linarith+
  note dc = days_of_civil_of_days [OF this c]
  have t: "t = \<lparr>year = y, month = m, day = d, hour = nat (ds div 3600),
      minute = nat (ds mod 3600 div 60), second = nat (ds mod 60)\<rparr>"
    using ds by (simp add: t_def datetime_from_timestamp_seconds_def c ds_def [symmetric])
  have "ds div 3600 \<le> 23" "ds mod 3600 div 60 \<le> 59" "ds mod 60 \<le> 59"
    using ds by linarith+
  then show "valid_date_time t" using dc(1) by (simp add: t valid_date_time_def nat_le_iff)
  have m60: "ds mod 3600 mod 60 = ds mod 60" by (rule mod_mod_cancel) simp
  have "ds = ds div 3600 * 3600 + (ds mod 3600 div 60 * 60 + ds mod 3600 mod 60)" by simp
  moreover have "0 \<le> ds div 3600" "0 \<le> ds mod 3600 div 60" using ds by simp_all
  ultimately have "day_seconds t = ds" unfolding m60 by (simp add: t day_seconds_def)
  then show "timestamp t = s" using dc(2) by (simp add: timestamp_def t ds_def)
  show "i32_min \<le> year t" "year t \<le> i32_max" using dc(3,4) by (simp_all add: t)
qed

section \<open>Text\<close>

lemma length_show_int_pad:
  "- 999 \<le> y \<Longrightarrow> y \<le> 9999 \<Longrightarrow> length (show_int_pad 4 y) = 4"
  using length_show_nat_pad [of "nat y" 4] length_show_nat_pad [of "nat (- y)" 3]
  by (auto simp: show_int_pad_def show_nat_pad_def)

lemma parse_signed_show_int_pad:
  assumes "- 999 \<le> y" and "y \<le> 9999"
  shows "parse_signed i32_min i32_max (show_int_pad 4 y) = Some y"
proof (cases "y < 0")
  case True
  have "show_nat_pad 3 (nat (- y)) \<noteq> []" using length_show_nat_pad [of "nat (- y)" 3] assms True by force
  with True assms show ?thesis
    by (simp add: show_int_pad_def parse_signed_def parse_digits_def checked_def
        show_nat_pad_def [symmetric] show_nat_pad_digits)
next
  case False
  have "show_nat_pad 4 (nat y) \<noteq> []" using length_show_nat_pad [of "nat y" 4] assms False by force
  with False assms show ?thesis
    by (simp add: show_int_pad_def show_nat_pad_def [symmetric] show_nat_pad_digits
        parse_signed_digits checked_def)
qed

lemma parse_unsigned_show_nat_pad:
  "n < 100 \<Longrightarrow> parse_unsigned u32_max (show_nat_pad 2 n) = Some n"
  using length_show_nat_pad [of n 2]
  by (subst parse_unsigned_digits) (auto simp: show_nat_pad_digits checked_nat_def)

lemma parse_of_format:
  assumes v: "valid_date_time t" and y: "- 999 \<le> year t" "year t \<le> 9999"
  shows "parse_iso_utc_parts (format_iso_utc_parts t) = Ok t"
proof -
  have dm: "day t \<le> 31"
    using v by (auto simp: valid_date_time_def valid_date_def days_in_month_def split: if_split_asm)
  have b: "month t < 100" "day t < 100" "hour t < 100" "minute t < 100" "second t < 100"
    using v dm by (auto simp: valid_date_time_def valid_date_def)
  have l: "length (show_int_pad 4 (year t)) = 4" "length (show_nat_pad 2 (month t)) = 2"
    "length (show_nat_pad 2 (day t)) = 2" "length (show_nat_pad 2 (hour t)) = 2"
    "length (show_nat_pad 2 (minute t)) = 2" "length (show_nat_pad 2 (second t)) = 2"
    using length_show_int_pad [OF y] b by (simp_all add: length_show_nat_pad)
  let ?s = "format_iso_utc_parts t"
  have sl: "byte_slice 0 4 ?s = show_int_pad 4 (year t)" "byte_slice 5 7 ?s = show_nat_pad 2 (month t)"
    "byte_slice 8 10 ?s = show_nat_pad 2 (day t)" "byte_slice 11 13 ?s = show_nat_pad 2 (hour t)"
    "byte_slice 14 16 ?s = show_nat_pad 2 (minute t)" "byte_slice 17 19 ?s = show_nat_pad 2 (second t)"
    by (simp_all add: byte_slice_def format_iso_utc_parts_def l)
  have "length ?s = 20" "?s ! 4 = CHR ''-''" "?s ! 7 = CHR ''-''" "?s ! 10 = CHR ''T''"
    "?s ! 13 = CHR '':''" "?s ! 16 = CHR '':''" "?s ! 19 = CHR ''Z''"
    by (simp_all add: format_iso_utc_parts_def l nth_append)
  moreover have "parse_fixed_i32 ?s 0 4 ''year'' = Ok (year t)"
    using parse_signed_show_int_pad [OF y] by (simp add: parse_fixed_i32_def sl)
  moreover have "parse_fixed_u32 ?s 5 7 ''month'' = Ok (month t)"
    "parse_fixed_u32 ?s 8 10 ''day'' = Ok (day t)" "parse_fixed_u32 ?s 11 13 ''hour'' = Ok (hour t)"
    "parse_fixed_u32 ?s 14 16 ''minute'' = Ok (minute t)"
    "parse_fixed_u32 ?s 17 19 ''second'' = Ok (second t)"
    using b parse_unsigned_show_nat_pad by (simp_all add: parse_fixed_u32_def sl)
  ultimately show ?thesis
    using v by (simp add: parse_iso_utc_parts_def valid_date_time_def valid_date_def)
qed

lemma parse_signed_bound:
  assumes "parse_signed lo hi s = Some y" and "length s \<le> 4"
  shows "- 999 \<le> y \<and> y \<le> 9999"
proof (cases s)
  case Nil
  then show ?thesis using assms by (simp add: parse_signed_def)
next
  case (Cons c cs)
  have d: "n < 10 ^ length t" if "parse_digits t = Some n" for t n
    using that digits_val_less [of t] by (auto simp: parse_digits_def split: if_splits)
  have p: "(10::nat) ^ length cs \<le> 10 ^ 3" "(10::nat) ^ length s \<le> 10 ^ 4"
    using assms(2) Cons by (intro power_increasing; simp)+
  show ?thesis
  proof (cases "c = CHR ''-''")
    case True
    then obtain n where "parse_digits cs = Some n" "y = - int n"
      using assms(1) Cons by (auto simp: parse_signed_def bind_eq_Some_conv checked_Some)
    with d [of cs n] p show ?thesis by simp
  next
    case False
    then obtain n t where "parse_digits t = Some n" "y = int n" "t = cs \<or> t = s"
      using assms(1) Cons by (auto simp: parse_signed_def bind_eq_Some_conv checked_Some split: if_splits)
    with d [of t n] p show ?thesis by auto
  qed
qed

lemma parse_iso_utc_parts_valid:
  assumes "parse_iso_utc_parts s = Ok t"
  shows "valid_date_time t" and "- 999 \<le> year t" and "year t \<le> 9999"
proof -
  have "parse_fixed_i32 s 0 4 ''year'' = Ok (year t)"
    using assms by (auto simp: parse_iso_utc_parts_def result_simps split: if_splits)
  then have "parse_signed i32_min i32_max (byte_slice 0 4 s) = Some (year t)"
    by (simp add: parse_fixed_i32_def ok_or_Inr)
  from parse_signed_bound [OF this] show "- 999 \<le> year t" "year t \<le> 9999"
    by (auto simp: byte_slice_def)
  show "valid_date_time t"
    using assms
    by (auto simp: parse_iso_utc_parts_def result_simps valid_date_time_def valid_date_def
        split: if_splits)
qed

section \<open>Properties\<close>

text \<open>The two calendar conversions are inverse: a valid civil date is recovered from its day
  number, and a day number (up to 700 thousand million days either way) from its civil date,
  which is a valid date.\<close>

theorem civil_roundtrip:
  "(valid_date y m d \<and> i32_min \<le> y \<and> y \<le> i32_max \<longrightarrow>
      civil_from_days (days_from_civil y m d) = (y, m, d))
   \<and> (- 700000000000 \<le> z \<and> z \<le> 700000000000 \<longrightarrow>
      (case civil_from_days z of (y', m', d') \<Rightarrow>
         valid_date y' m' d' \<and> days_from_civil y' m' d' = z))"
  using civil_of_days_of_civil [of y m d] days_of_civil_of_days(1,2) [of z]
  by (auto split: prod.splits)

theorem civil_roundtrip_witness: "civil_from_days (days_from_civil 2024 2 29) = (2024, 2, 29)"
  using civil_roundtrip [of 2024 2 29 0]
  by (simp add: valid_date_def days_in_month_def is_leap_year_def)

text \<open>Parsing accepts what formatting prints: a valid date and time with a year from -999 to
  9999 is recovered from its text, and every accepted text parses to such a date, so that
  canonicalising a timestamp twice is the same as canonicalising it once.\<close>

theorem iso_utc_roundtrip:
  "(valid_date_time t \<and> - 999 \<le> year t \<and> year t \<le> 9999 \<longrightarrow>
      parse_iso_utc_parts (format_iso_utc_parts t) = Ok t)
   \<and> (parse_iso_utc s = Ok u \<longrightarrow> parse_iso_utc u = Ok u)"
  using parse_of_format [of t] parse_iso_utc_parts_valid [of s] parse_of_format
  by (auto simp: parse_iso_utc_def res_map_Inr)

theorem iso_utc_roundtrip_witness:
  "parse_iso_utc_parts (format_iso_utc_parts
     \<lparr>year = 2026, month = 6, day = 26, hour = 12, minute = 30, second = 45\<rparr>)
   = Ok \<lparr>year = 2026, month = 6, day = 26, hour = 12, minute = 30, second = 45\<rparr>"
  using iso_utc_roundtrip [of "\<lparr>year = 2026, month = 6, day = 26, hour = 12, minute = 30, second = 45\<rparr>"]
  by (simp add: valid_date_time_def valid_date_def days_in_month_def)

text \<open>Shifting a timestamp by whole seconds moves the instant by exactly that amount: if the
  shifted instant falls in the years -999 to 9999, the shift succeeds, its text parses, and the
  parsed instant is the original one plus the delta.\<close>

theorem shift_seconds_correct:
  assumes "parse_iso_utc_parts s = Ok t"
    and "\<bar>timestamp t + delta\<bar> \<le> 60000000000000000"
    and "- 999 \<le> year (datetime_from_timestamp_seconds (timestamp t + delta))"
    and "year (datetime_from_timestamp_seconds (timestamp t + delta)) \<le> 9999"
  shows "\<exists>u t'. shift_seconds s delta = Ok u \<and> parse_iso_utc_parts u = Ok t'
    \<and> timestamp_seconds t' = Ok (timestamp t + delta)"
proof -
  define t' where "t' = datetime_from_timestamp_seconds (timestamp t + delta)"
  note v = parse_iso_utc_parts_valid [OF assms(1)]
  have ts: "timestamp_seconds t = Ok (timestamp t)"
    by (rule timestamp_seconds_total) (use v in auto)
  have r: "- 60000000000000000 \<le> timestamp t + delta" "timestamp t + delta \<le> 60000000000000000"
    using assms(2) by linarith+
  note d = timestamp_of_datetime [OF r, folded t'_def]
  have "shift_seconds s delta = Ok (format_iso_utc_parts t')"
    using r by (simp add: shift_seconds_def assms(1) ts checked_def t'_def)
  moreover have "parse_iso_utc_parts (format_iso_utc_parts t') = Ok t'"
    by (rule parse_of_format) (use d assms(3,4) in \<open>simp_all add: t'_def\<close>)
  moreover have "timestamp_seconds t' = Ok (timestamp t + delta)"
    using timestamp_seconds_total [OF d(1,3,4)] d(2) by simp
  ultimately show ?thesis by blast
qed

lemma parse_example:
  "parse_iso_utc_parts ''2026-06-30T23:00:00Z'' =
     Ok \<lparr>year = 2026, month = 6, day = 30, hour = 23, minute = 0, second = 0\<rparr>"
  by (simp add: parse_iso_utc_parts_def parse_fixed_i32_def parse_fixed_u32_def byte_slice_def
      parse_signed_def parse_unsigned_def parse_digits_def digits_val_def digit_val_def
      ascii_defs checked_def checked_nat_def days_in_month_def nth_Cons')

lemma timestamp_example:
  "timestamp \<lparr>year = 2026, month = 6, day = 30, hour = 23, minute = 0, second = 0\<rparr> = 1782860400"
  "datetime_from_timestamp_seconds 1782867600 =
     \<lparr>year = 2026, month = 7, day = 1, hour = 1, minute = 0, second = 0\<rparr>"
  by code_simp+

theorem shift_seconds_correct_witness:
  "\<exists>u t'. shift_seconds ''2026-06-30T23:00:00Z'' 7200 = Ok u \<and> parse_iso_utc_parts u = Ok t'
    \<and> timestamp_seconds t' = Ok (timestamp \<lparr>year = 2026, month = 6, day = 30, hour = 23,
         minute = 0, second = 0\<rparr> + 7200)"
  by (rule shift_seconds_correct [OF parse_example]) (simp_all add: timestamp_example)

text \<open>Chronological order: comparison of the fields from the year down.\<close>

fun lex_less :: "int list \<Rightarrow> int list \<Rightarrow> bool" where
  "lex_less (x # xs) (y # ys) = (x < y \<or> x = y \<and> lex_less xs ys)"
| "lex_less _ _ = False"

definition date_fields :: "utc_date_time \<Rightarrow> int list" where
  "date_fields t = [year t, int (month t), int (day t), int (hour t), int (minute t), int (second t)]"

lemma year_start_step:
  "yp div 400 * 146097 + year_start (yp mod 400) + (if leap_after (yp mod 400) then 366 else 365)
   = (yp + 1) div 400 * 146097 + year_start ((yp + 1) mod 400)"
proof (cases "yp mod 400 = 399")
  case True
  then have e: "yp + 1 = 400 * (yp div 400 + 1)" using mult_div_mod_eq [of 400 yp] by simp
  have "(yp + 1) div 400 = yp div 400 + 1" "(yp + 1) mod 400 = 0"
    by (subst e, simp only: nonzero_mult_div_cancel_left zero_neq_numeral mod_mult_self1_is_0
        not_False_eq_True simp_thms)+
  then show ?thesis by (simp add: True year_start_def leap_after_def)
next
  case False
  with pos_mod_bound [of 400 yp] have lt: "yp mod 400 < 399" by linarith
  have e: "yp + 1 = 400 * (yp div 400) + (yp mod 400 + 1)" by simp
  have nn: "0 \<le> yp mod 400 + 1" "yp mod 400 + 1 < 400" using lt by simp_all
  have "(yp + 1) div 400 = yp div 400" "(yp + 1) mod 400 = yp mod 400 + 1"
    using int_div_pos_eq [OF e nn] int_mod_pos_eq [OF e nn] by blast+
  moreover have "year_start (yp mod 400 + 1) = year_last (yp mod 400) + 1"
    using lt by (intro year_bounds(3)) simp_all
  ultimately show ?thesis by (simp add: year_last_def)
qed

definition march_day :: "int \<Rightarrow> int" where
  "march_day yp = yp div 400 * 146097 + year_start (yp mod 400)"

lemma march_day_mono: "a \<le> b \<Longrightarrow> march_day a \<le> march_day b"
proof (induction b rule: int_ge_induct)
  case (step i)
  have "march_day i \<le> march_day (i + 1)"
    using year_start_step [of i] by (simp add: march_day_def split: if_split_asm)
  with step show ?case by linarith
qed simp

lemma month_start_mono: "a \<le> b \<Longrightarrow> month_start a \<le> month_start b"
  unfolding month_start_def by (intro zdiv_mono1) simp_all

text \<open>The day number is strictly monotone in the lexicographic order of year, month and day.\<close>

lemma days_from_civil_less:
  assumes v: "valid_date y m d" "valid_date y' m' d'"
    and less: "lex_less [y, int m, int d] [y', int m', int d']"
  shows "days_from_civil y m d < days_from_civil y' m' d'"
proof -
  define yp mp where "yp = y - (if m \<le> 2 then 1 else 0)" and "mp = int m + (if 2 < m then - 3 else 9)"
  define yq mq where "yq = y' - (if m' \<le> 2 then 1 else 0)" and "mq = int m' + (if 2 < m' then - 3 else 9)"
  note b = valid_date_doy [OF v(1), folded yp_def mp_def]
  note b' = valid_date_doy [OF v(2), folded yq_def mq_def]
  have m: "1 \<le> m" "1 \<le> m'" "m \<le> 12" "m' \<le> 12" "1 \<le> d" "1 \<le> d'"
    using v by (simp_all add: valid_date_def)
  have e: "days_from_civil y m d = march_day yp + (month_start mp + int d - 1) - 719468"
    "days_from_civil y' m' d' = march_day yq + (month_start mq + int d' - 1) - 719468"
    using days_from_civil_parts [OF m(1), of y d, folded yp_def mp_def]
      days_from_civil_parts [OF m(2), of y' d', folded yq_def mq_def] by (simp_all add: march_day_def)
  have "yp < yq \<or> (yp = yq \<and> mp < mq) \<or> (yp = yq \<and> mp = mq \<and> d < d')"
    using less m by (auto simp: yp_def yq_def mp_def mq_def split: if_splits)
  then consider "yp + 1 \<le> yq" | "yp = yq" "mp + 1 \<le> mq" | "yp = yq" "mp = mq" "d < d'" by fastforce
  then show ?thesis
  proof cases
    case 1
    have "march_day yp + (month_start mp + int d - 1) < march_day (yp + 1)"
      using year_start_step [of yp] b(6) by (simp add: march_day_def split: if_split_asm)
    with march_day_mono [OF 1] b'(5) show ?thesis by (simp add: e)
  next
    case 2
    with b(4) month_start_mono [OF 2(2)] m(6) show ?thesis by (simp add: e)
  next
    case 3
    then show ?thesis by (simp add: e)
  qed
qed

lemma timestamp_less:
  assumes v: "valid_date_time t" "valid_date_time u" and less: "lex_less (date_fields t) (date_fields u)"
  shows "timestamp t < timestamp u"
proof (cases "lex_less [year t, int (month t), int (day t)] [year u, int (month u), int (day u)]")
  case True
  with v have "days_from_civil (year t) (month t) (day t) < days_from_civil (year u) (month u) (day u)"
    by (intro days_from_civil_less) (simp_all add: valid_date_time_def)
  with day_seconds_bounds [OF v(1)] day_seconds_bounds [OF v(2)] show ?thesis
    by (simp add: timestamp_def)
next
  case False
  with less have eq: "year t = year u" "month t = month u" "day t = day u"
    and hms: "hour t < hour u \<or> hour t = hour u \<and> (minute t < minute u \<or>
      minute t = minute u \<and> second t < second u)"
    by (auto simp: date_fields_def)
  have "minute t \<le> 59" "minute u \<le> 59" "second t \<le> 59" "second u \<le> 59"
    using v by (simp_all add: valid_date_time_def)
  with hms have "day_seconds t < day_seconds u" by (auto simp: day_seconds_def)
  then show ?thesis by (simp add: timestamp_def eq)
qed

lemma lex_less_total: "length xs = length ys \<Longrightarrow> lex_less xs ys \<or> xs = ys \<or> lex_less ys xs"
  by (induction xs ys rule: lex_less.induct) auto

lemma date_fields_inject: "date_fields t = date_fields u \<longleftrightarrow> t = u"
  by (auto simp: date_fields_def)

lemma timestamp_less_iff:
  assumes "valid_date_time t" and "valid_date_time u"
  shows "timestamp t < timestamp u \<longleftrightarrow> lex_less (date_fields t) (date_fields u)"
proof
  assume a: "timestamp t < timestamp u"
  consider "lex_less (date_fields t) (date_fields u)" | "date_fields t = date_fields u"
    | "lex_less (date_fields u) (date_fields t)"
    using lex_less_total [of "date_fields t" "date_fields u"] by (auto simp: date_fields_def)
  then show "lex_less (date_fields t) (date_fields u)"
  proof cases
    case 2
    with a show ?thesis by (simp add: date_fields_inject)
  next
    case 3
    with assms a show ?thesis using timestamp_less [of u t] by simp
  qed
qed (rule timestamp_less [OF assms])

text \<open>Comparing two accepted timestamps always returns, and the answer is the lexicographic
  comparison of year, month, day, hour, minute and second.\<close>

theorem compare_iso_utc_correct:
  assumes "parse_iso_utc_parts left = Ok t" and "parse_iso_utc_parts right = Ok u"
  shows "compare_iso_utc left right = Ok
    (if lex_less (date_fields t) (date_fields u) then Less
     else if date_fields t = date_fields u then Equal else Greater)"
proof -
  note v = parse_iso_utc_parts_valid [OF assms(1)] parse_iso_utc_parts_valid [OF assms(2)]
  have "timestamp_seconds t = Ok (timestamp t)" "timestamp_seconds u = Ok (timestamp u)"
    using v by (simp_all add: timestamp_seconds_total)
  moreover have "timestamp t = timestamp u \<longleftrightarrow> t = u"
    using lex_less_total [of "date_fields t" "date_fields u"] timestamp_less [OF v(1,4)]
      timestamp_less [OF v(4,1)]
    by (auto simp: date_fields_inject) (auto simp: date_fields_def)
  ultimately show ?thesis
    using timestamp_less_iff [OF v(1,4)]
    by (simp add: compare_iso_utc_def assms cmp_int_def date_fields_inject)
qed

theorem compare_iso_utc_correct_witness:
  "compare_iso_utc ''2026-06-30T23:00:00Z'' ''2026-06-30T23:00:00Z'' = Ok Equal"
  by (subst compare_iso_utc_correct [OF parse_example parse_example]) (simp add: date_fields_def)

end
