(* ===== verification/Redaction.thy ===== *)
theory Redaction
  imports Rust_Strings
begin

text \<open>
  Redaction of free text (\<open>redaction.rs\<close>): \<open>redact_text\<close> looks for a sensitive key,
  ignoring ASCII case, and replaces the value assigned to it by a marker, and
  \<open>redact_text_with_values\<close> then blanks a list of known secrets. The loop over a byte
  index of the source is a recursion on the text that is left.
\<close>

definition REDACTION_MARKER :: string where "REDACTION_MARKER = ''<redacted>''"

definition KEYS :: "string list" where
  "KEYS = [''secret'', ''token'', ''api_key'', ''apikey'', ''password'', ''authorization'',
           ''bearer'']"

text \<open>\<open>Iterator::min_by_key\<close>: the first of the minimal elements.\<close>

fun min_by_key :: "('a \<Rightarrow> nat) \<Rightarrow> 'a list \<Rightarrow> 'a option" where
  "min_by_key f [] = None"
| "min_by_key f (x # xs) = Some (foldl (\<lambda>m y. if f y < f m then y else m) x xs)"

definition find_sensitive_key :: "string \<Rightarrow> (nat \<times> string) option" where
  "find_sensitive_key text =
     (let lower = to_ascii_lowercase text
      in min_by_key fst
           (List.map_filter (\<lambda>key. map_option (\<lambda>index. (index, key)) (find_str key lower)) KEYS))"

text \<open>The length of the separator after a key, 0 when there is none.\<close>

definition separator_len :: "string \<Rightarrow> string \<Rightarrow> nat" where
  "separator_len key after_key =
     (case chars after_key of
        [] \<Rightarrow> 0
      | ch # _ \<Rightarrow>
          if ch = ''='' \<or> ch = '':'' \<or> (ch = '' '' \<and> (key = ''authorization'' \<or> key = ''bearer''))
          then length ch else 0)"

definition ends_value :: "string \<Rightarrow> bool" where
  "ends_value ch \<longleftrightarrow> is_whitespace ch \<or> ch = '','' \<or> ch = '';'' \<or> ch = ''}'' \<or> ch = '']''"

definition skip_value :: "string \<Rightarrow> string" where
  "skip_value text = concat (dropWhile (\<lambda>ch. \<not> ends_value ch) (chars text))"

lemma min_by_key_fold:
  "foldl (\<lambda>m y. if f y < f m then y else m) x xs = z \<Longrightarrow>
     z \<in> set (x # xs) \<and> (\<forall>y \<in> set (x # xs). (f z :: nat) \<le> f y)"
proof (induction xs arbitrary: x)
  case (Cons a xs)
  from Cons.IH [OF Cons.prems [simplified]] show ?case by (auto split: if_splits)
qed auto

lemma min_by_key_Some:
  "min_by_key f xs = Some z \<Longrightarrow> z \<in> set xs \<and> (\<forall>y \<in> set xs. f z \<le> f y)"
  by (cases xs) (use min_by_key_fold in force)+

lemma min_by_key_None [simp]: "min_by_key f xs = None \<longleftrightarrow> xs = []"
  by (cases xs) simp_all

lemma find_str_Some:
  "p \<noteq> [] \<Longrightarrow> find_str p s = Some i \<longleftrightarrow>
     starts_with p (drop i s) \<and> (\<forall>j < i. \<not> starts_with p (drop j s))"
proof (induction p s arbitrary: i rule: find_str.induct)
  case (1 p)
  then show ?case by (simp add: starts_with_def)
next
  case (2 p c cs)
  show ?case
  proof (cases i)
    case 0
    then show ?thesis by auto
  next
    case (Suc k)
    have "(\<forall>j < Suc k. \<not> starts_with p (drop j (c # cs))) \<longleftrightarrow>
      \<not> starts_with p (c # cs) \<and> (\<forall>j < k. \<not> starts_with p (drop j cs))"
      by (auto simp: less_Suc_eq_0_disj)
    with 2 Suc show ?thesis by auto
  qed
qed

lemma find_str_None:
  "p \<noteq> [] \<Longrightarrow> find_str p s = None \<longleftrightarrow> (\<forall>j. \<not> starts_with p (drop j s))"
proof (induction p s rule: find_str.induct)
  case (1 p)
  then show ?case by (simp add: starts_with_def)
next
  case (2 p c cs)
  have "(\<forall>j. \<not> starts_with p (drop j (c # cs))) \<longleftrightarrow>
      \<not> starts_with p (c # cs) \<and> (\<forall>j. \<not> starts_with p (drop j cs))"
    by (metis drop0 drop_Suc_Cons not0_implies_Suc)
  with 2 show ?case by auto
qed

definition key_at :: "string \<Rightarrow> nat \<Rightarrow> string \<Rightarrow> bool" where
  "key_at text i key \<longleftrightarrow> key \<in> set KEYS \<and> starts_with key (drop i (to_ascii_lowercase text))"

lemma KEYS_nonempty: "k \<in> set KEYS \<Longrightarrow> 0 < length k"
  by (auto simp: KEYS_def)

lemma key_found:
  assumes "find_sensitive_key text = Some (i, k)"
  shows "key_at text i k" and "\<And>j k'. j < i \<Longrightarrow> \<not> key_at text j k'"
proof -
  let ?l = "to_ascii_lowercase text"
  let ?c = "List.map_filter (\<lambda>key. map_option (\<lambda>index. (index, key)) (find_str key ?l)) KEYS"
  have *: "(j, k') \<in> set ?c \<longleftrightarrow> k' \<in> set KEYS \<and> find_str k' ?l = Some j" for j k'
    by (force simp: List.map_filter_def image_iff)
  from assms min_by_key_Some [of fst ?c "(i, k)"]
  have m: "(i, k) \<in> set ?c" "\<And>y. y \<in> set ?c \<Longrightarrow> i \<le> fst y"
    by (auto simp: find_sensitive_key_def Let_def)
  with * have k: "k \<in> set KEYS" "find_str k ?l = Some i" by auto
  then show "key_at text i k"
    using KEYS_nonempty by (force simp: key_at_def find_str_Some)
  fix j k' assume j: "j < i"
  show "\<not> key_at text j k'"
  proof
    assume a: "key_at text j k'"
    then have k': "k' \<in> set KEYS" "k' \<noteq> []" using KEYS_nonempty by (force simp: key_at_def)+
    show False
    proof (cases "find_str k' ?l")
      case None
      with a k' show False by (auto simp: key_at_def find_str_None)
    next
      case (Some j')
      with k' * m(2) have "i \<le> j'" by force
      with Some a k' j show False by (auto simp: key_at_def find_str_Some)
    qed
  qed
qed

lemma key_not_found: "find_sensitive_key text = None \<longleftrightarrow> (\<forall>j k. \<not> key_at text j k)"
proof -
  have "find_sensitive_key text = None \<longleftrightarrow>
      (\<forall>k \<in> set KEYS. find_str k (to_ascii_lowercase text) = None)"
    by (auto simp: find_sensitive_key_def Let_def List.map_filter_def filter_empty_conv)
  also have "\<dots> \<longleftrightarrow> (\<forall>j k. \<not> key_at text j k)"
    using KEYS_nonempty by (force simp: key_at_def find_str_None)
  finally show ?thesis .
qed

text \<open>No key begins another or occurs inside another.\<close>

lemma KEYS_no_overlap:
  "k \<in> set KEYS \<Longrightarrow> k' \<in> set KEYS \<Longrightarrow>
     \<forall>d \<in> set [0..<13]. starts_with k (drop d k') \<longrightarrow> d = 0 \<and> k = k'"
  unfolding KEYS_def list.set insert_iff empty_iff
  by (elim disjE FalseE; simp add: starts_with_def upt_rec del: set_upt)

lemma KEYS_length: "k \<in> set KEYS \<Longrightarrow> length k < 14"
  by (auto simp: KEYS_def)

lemma key_at_length: "key_at text i k \<Longrightarrow> 0 < length k \<and> i + length k \<le> length text"
proof -
  assume a: "key_at text i k"
  then have k: "0 < length k" using KEYS_nonempty by (simp add: key_at_def)
  have "length (take (length k) (drop i (to_ascii_lowercase text))) = length k"
    using a by (simp add: key_at_def starts_with_def)
  then have "length k \<le> length text - i" by simp
  with k show ?thesis by linarith
qed

lemma skip_value_length: "length (skip_value text) \<le> length text"
proof -
  have "length (concat (dropWhile P xs)) \<le> length (concat xs)" for P and xs :: "string list"
    by (induction xs) auto
  from this [of "\<lambda>ch. \<not> ends_value ch" "chars text"] show ?thesis by (simp add: skip_value_def)
qed

lemma redact_rest_shorter:
  assumes "find_sensitive_key rest = Some (i, k)"
  shows "length (drop (i + length k) rest) < length rest"
    and "length (skip_value (drop n (drop (i + length k) rest))) < length rest"
proof -
  from assms key_found(1) key_at_length have "0 < length k" "i + length k \<le> length rest" by blast+
  then show l: "length (drop (i + length k) rest) < length rest"
    by (simp only: length_drop)
  then show "length (skip_value (drop n (drop (i + length k) rest))) < length rest"
    using skip_value_length [of "drop n (drop (i + length k) rest)"]
      length_drop [of n "drop (i + length k) rest"] by linarith
qed

text \<open>\<open>redact_sensitive_assignments\<close> on the text from the current index on.\<close>

function redact_sensitive_assignments :: "string \<Rightarrow> string" where
  "redact_sensitive_assignments rest =
     (case find_sensitive_key rest of
        None \<Rightarrow> rest
      | Some (key_offset, key) \<Rightarrow>
          (let key_end = key_offset + length key;
               after_key = drop key_end rest;
               len = separator_len key after_key
           in if len = 0 then take key_end rest @ redact_sensitive_assignments after_key
              else take key_end rest @ take len after_key @ REDACTION_MARKER
                     @ redact_sensitive_assignments (skip_value (drop len after_key))))"
  by pat_completeness auto
termination
  by (relation "measure length") (use redact_rest_shorter in \<open>auto simp: in_measure simp del: drop_drop\<close>)

declare redact_sensitive_assignments.simps [simp del]

definition redact_text :: "string \<Rightarrow> string" where
  "redact_text text = redact_sensitive_assignments text"

definition redact_text_with_values :: "string \<Rightarrow> string list \<Rightarrow> string" where
  "redact_text_with_values text values =
     foldl (\<lambda>redacted value.
        if value = [] \<or> value = REDACTION_MARKER then redacted
        else replace value REDACTION_MARKER redacted) (redact_text text) values"

section \<open>What redaction guarantees\<close>

text \<open>Strings made of whole UTF-8 sequences, and strings that begin with a character that
  ends a value.\<close>

definition whole_chars :: "string \<Rightarrow> bool" where
  "whole_chars s \<longleftrightarrow> list_all (\<lambda>ch. length ch = utf8_len (hd ch)) (chars s)"

definition at_value_end :: "string \<Rightarrow> bool" where
  "at_value_end s \<longleftrightarrow> s = [] \<or> ends_value (hd (chars s))"

lemma chars_append: "whole_chars s \<Longrightarrow> chars (s @ t) = chars s @ chars t"
proof (induction s rule: chars.induct)
  case (2 c cs)
  from 2(2) have "utf8_len c - 1 \<le> length cs" and w: "whole_chars (drop (utf8_len c - 1) cs)"
    using utf8_len_pos [of c] by (auto simp: whole_chars_def)
  with 2(1) [OF w] show ?case by simp
qed simp

lemma skip_value_append:
  assumes "whole_chars v" and "\<forall>ch \<in> set (chars v). \<not> ends_value ch" and "at_value_end post"
  shows "skip_value (v @ post) = post"
proof -
  have "dropWhile (\<lambda>ch. \<not> ends_value ch) (chars post) = chars post"
    using assms(3) by (cases "chars post") (auto simp: at_value_end_def)
  with assms show ?thesis by (simp add: skip_value_def chars_append dropWhile_append2)
qed

lemma at_value_end_skip [simp]: "at_value_end (skip_value s)"
proof -
  define d where "d = dropWhile (\<lambda>ch. \<not> ends_value ch) (chars s)"
  have "chars (concat (dropWhile P (chars s))) = dropWhile P (chars s)" for P
    by (induction s rule: chars.induct) simp_all
  then have "chars (skip_value s) = d" by (simp add: skip_value_def d_def)
  moreover have "d = [] \<or> ends_value (hd d)"
    unfolding d_def using hd_dropWhile by blast
  ultimately show ?thesis by (metis at_value_end_def chars_eq_Nil)
qed

lemma separator_len_simps:
  "separator_len key [] = 0"
  "separator_len key (c # s) =
     (if c = CHR ''='' \<or> c = CHR '':'' \<or>
         (c = CHR '' '' \<and> (key = ''authorization'' \<or> key = ''bearer'')) then 1 else 0)"
  by (auto simp: separator_len_def utf8_len_def)

lemma ends_value_whole: "ends_value ch \<Longrightarrow> length ch = utf8_len (hd ch) \<and> ch \<noteq> []"
  by (auto simp: ends_value_def is_whitespace_def utf8_len_def byte_def Let_def split: list.splits)

lemma ends_value_no_letter: "ends_value ch \<Longrightarrow> c \<in> set ch \<Longrightarrow> \<not> is_ascii_alphabetic c"
  by (auto simp: ends_value_def is_whitespace_def ascii_defs split: list.splits)

lemma key_at_letter: "key_at s i k \<Longrightarrow> is_ascii_alphabetic (s ! i)"
proof -
  assume a: "key_at s i k"
  define low where "low c = (if is_ascii_upper c then char_of (byte c + 32) else c)" for c
  have l: "to_ascii_lowercase s = map low s" by (simp add: to_ascii_lowercase_def low_def)
  from key_at_length [OF a] have i: "i < length s" by linarith
  have "hd k = low (s ! i)" and k: "k \<in> set KEYS"
    using a i KEYS_nonempty [of k]
    by (cases k; auto simp: key_at_def starts_with_def l drop_map Cons_nth_drop_Suc [symmetric])+
  moreover from k have "is_ascii_lower (hd k)"
    by (auto simp: KEYS_def ascii_defs)
  ultimately show ?thesis
    by (auto simp: low_def is_ascii_alphabetic_def split: if_splits)
qed

lemma key_at_append:
  assumes "i + length k \<le> n" and "n \<le> length s"
  shows "key_at (take n s @ z) i k \<longleftrightarrow> key_at s i k"
proof -
  have "take (length k) (drop i (map f (take n s @ z))) = take (length k) (drop i (map f s))"
    for f :: "char \<Rightarrow> char"
  proof -
    have "length k \<le> n - i" and "n - i \<le> length s - i" using assms by linarith+
    then show ?thesis
      by (simp add: drop_map [symmetric] take_map [symmetric] drop_take min_def)
  qed
  then show ?thesis by (simp add: key_at_def starts_with_def to_ascii_lowercase_def)
qed

lemma keys_no_overlap_at:
  assumes "key_at s i k" and "key_at s j k'" and "j \<le> i" and "i < j + length k'"
    and "i + length k \<le> j + length k'"
  shows "i = j \<and> k = k'"
proof -
  let ?l = "to_ascii_lowercase s"
  define d where "d = i - j"
  have k: "k \<in> set KEYS" "k' \<in> set KEYS" "take (length k) (drop i ?l) = k"
    "take (length k') (drop j ?l) = k'"
    using assms by (simp_all add: key_at_def starts_with_def)
  have "drop d k' = take (length k' - d) (drop i ?l)"
    using k(4) assms(3) by (metis add.commute d_def drop_drop drop_take le_add_diff_inverse)
  then have sw: "starts_with k (drop d k')"
  proof -
    have "length k \<le> length k' - d" using assms(3-5) by (simp add: d_def)
    then have "take (length k) (drop d k') = take (length k) (drop i ?l)"
      using \<open>drop d k' = _\<close> by (simp add: min_def)
    with k(3) show ?thesis by (simp add: starts_with_def)
  qed
  have "d < 13" using assms(3,4) KEYS_length [OF k(2)] by (simp add: d_def)
  then have "d \<in> set [0..<13]" by simp
  with KEYS_no_overlap [OF k(1,2)] sw have "d = 0" "k = k'" by blast+
  with assms(3) show ?thesis by (simp add: d_def)
qed

lemma find_sensitive_keyI:
  assumes "key_at s i k" and "\<And>j k'. j < i \<Longrightarrow> \<not> key_at s j k'"
  shows "find_sensitive_key s = Some (i, k)"
proof (cases "find_sensitive_key s")
  case None
  with assms show ?thesis by (simp add: key_not_found)
next
  case (Some a)
  obtain i' k' where a: "a = (i', k')" by (cases a)
  with Some key_found [of s i' k'] assms have k': "key_at s i' k'" and i: "i' = i"
    by (metis linorder_neqE_nat)+
  have "k = k'"
    using keys_no_overlap_at [OF assms(1) k'] keys_no_overlap_at [OF k' assms(1)] i
      key_at_length [OF assms(1)] key_at_length [OF k'] by fastforce
  with Some a i show ?thesis by simp
qed

text \<open>The first key is found again when the text after it changes.\<close>

lemma find_sensitive_key_append:
  assumes f: "find_sensitive_key s = Some (i, k)"
  shows "find_sensitive_key (take (i + length k) s @ z) = Some (i, k)"
proof (rule find_sensitive_keyI)
  note k = key_found [OF f] and len = key_at_length [OF key_found(1) [OF f]]
  let ?t = "take (i + length k) s @ z"
  show kt: "key_at ?t i k" using k(1) len by (simp add: key_at_append)
  fix j k' assume j: "j < i"
  show "\<not> key_at ?t j k'"
  proof
    assume a: "key_at ?t j k'"
    show False
    proof (cases "j + length k' \<le> i + length k")
      case True
      with a len have "key_at s j k'" by (simp add: key_at_append)
      with k(2) j show False by blast
    next
      case False
      with keys_no_overlap_at [OF kt a] j len show False by simp
    qed
  qed
qed

abbreviation "redacted_rest \<equiv> redact_sensitive_assignments"

lemma redact_keeps_prefix:
  assumes "find_sensitive_key s = Some (i, k)"
  obtains z where "redacted_rest s = take (i + length k) s @ z"
proof -
  have "\<exists>z. redacted_rest s = take (i + length k) s @ z"
    using assms by (subst redact_sensitive_assignments.simps) (auto simp: Let_def)
  with that show thesis by blast
qed

lemma redact_hd: "redacted_rest s = [] \<longleftrightarrow> s = []" "s \<noteq> [] \<Longrightarrow> hd (redacted_rest s) = hd s"
proof -
  have "(redacted_rest s = [] \<longleftrightarrow> s = []) \<and> (s \<noteq> [] \<longrightarrow> hd (redacted_rest s) = hd s)"
  proof (cases "find_sensitive_key s")
    case None
    then show ?thesis by (subst (1 2) redact_sensitive_assignments.simps) simp
  next
    case (Some a)
    obtain i k where a: "a = (i, k)" by (cases a)
    with Some obtain z where "redacted_rest s = take (i + length k) s @ z"
      using redact_keeps_prefix by blast
    moreover have "0 < i + length k" "i + length k \<le> length s"
      using key_at_length [OF key_found(1)] Some a by (blast intro: add_pos_nonneg)+
    ultimately show ?thesis by (cases s) auto
  qed
  then show "redacted_rest s = [] \<longleftrightarrow> s = []" "s \<noteq> [] \<Longrightarrow> hd (redacted_rest s) = hd s"
    by blast+
qed

lemma separator_len_redact [simp]: "separator_len k (redacted_rest s) = separator_len k s"
  using redact_hd [of s]
  by (cases s; cases "redacted_rest s") (simp_all add: separator_len_simps)

text \<open>A text that begins with the end of a value keeps that beginning.\<close>

lemma at_value_end_redact:
  assumes "at_value_end s"
  shows "at_value_end (redacted_rest s)"
proof (cases "s = []")
  case False
  define ch where "ch = hd (chars s)"
  from assms False have e: "ends_value ch" by (simp add: at_value_end_def ch_def)
  obtain t where s: "s = ch @ t"
    using False concat_chars [of s] by (cases "chars s") (auto simp: ch_def)
  obtain z where "redacted_rest s = ch @ z"
  proof (cases "find_sensitive_key s")
    case None
    then have "redacted_rest s = ch @ t"
      using s by (subst redact_sensitive_assignments.simps) simp
    then show ?thesis by (rule that)
  next
    case (Some a)
    obtain i k where a: "a = (i, k)" by (cases a)
    with Some have k: "key_at s i k" using key_found(1) by blast
    have "length ch \<le> i"
    proof (rule ccontr)
      assume "\<not> length ch \<le> i"
      then have "s ! i \<in> set ch" by (simp add: s nth_append)
      with key_at_letter [OF k] ends_value_no_letter [OF e] show False by blast
    qed
    then have "take (i + length k) s = ch @ take (i + length k - length ch) t"
      by (simp add: s)
    with Some a that redact_keeps_prefix show ?thesis by (metis append.assoc)
  qed
  moreover have "whole_chars ch" "chars ch = [ch]"
    using ends_value_whole [OF e]
    by (cases ch; simp add: whole_chars_def; metis One_nat_def Suc_diff_1 diff_Suc_1 take_all drop_all
        order_refl utf8_len_pos chars_eq_Nil)+
  ultimately show ?thesis using e by (simp add: at_value_end_def chars_append)
qed (use redact_hd(1) in \<open>simp add: at_value_end_def\<close>)

lemma marker_skipped:
  "at_value_end z \<Longrightarrow> skip_value (REDACTION_MARKER @ z) = z"
  by (rule skip_value_append)
    (simp_all add: REDACTION_MARKER_def whole_chars_def utf8_len_def ends_value_def
      is_whitespace_def byte_def)

lemma redact_skipped:
  assumes "find_sensitive_key s = Some (i, k)" and "separator_len k (drop (i + length k) s) = 0"
  shows "redacted_rest s = take (i + length k) s @ redacted_rest (drop (i + length k) s)"
  using assms by (subst redact_sensitive_assignments.simps) (simp add: Let_def)

lemma redact_assigned:
  assumes "find_sensitive_key s = Some (i, k)" and "separator_len k (drop (i + length k) s) \<noteq> 0"
  obtains c v where "drop (i + length k) s = c # v" "separator_len k (c # w) = 1"
    "redacted_rest s
       = take (i + length k) s @ c # REDACTION_MARKER @ redacted_rest (skip_value v)"
proof (cases "drop (i + length k) s")
  case Nil
  with assms(2) show ?thesis by (simp add: separator_len_simps)
next
  case (Cons c v)
  with assms(2) have l: "separator_len k (c # w) = 1" for w
    by (auto simp: separator_len_simps split: if_splits)
  have "redacted_rest s
      = take (i + length k) s @ c # REDACTION_MARKER @ redacted_rest (skip_value v)"
    using assms(1) Cons l [of v] by (subst redact_sensitive_assignments.simps) (simp add: Let_def)
  with Cons l that show ?thesis by blast
qed

lemma redact_text_idem: "redact_text (redact_text text) = redact_text text"
proof -
  have "redacted_rest (redacted_rest s) = redacted_rest s" for s
  proof (induction "length s" arbitrary: s rule: less_induct)
    case less
    show ?case
    proof (cases "find_sensitive_key s")
      case None
      then have "redacted_rest s = s" by (subst redact_sensitive_assignments.simps) simp
      then show ?thesis by simp
    next
      case (Some a)
      obtain i k where a: "a = (i, k)" by (cases a)
      note f = Some [unfolded a] and len = key_at_length [OF key_found(1) [OF Some [unfolded a]]]
      let ?p = "take (i + length k) s" and ?r = "drop (i + length k) s"
      have lp: "length ?p = i + length k" using len by simp
      show ?thesis
      proof (cases "separator_len k ?r = 0")
        case True
        have e: "redacted_rest s = ?p @ redacted_rest ?r" by (rule redact_skipped [OF f True])
        have "redacted_rest (?p @ redacted_rest ?r)
            = take (i + length k) (?p @ redacted_rest ?r)
              @ redacted_rest (drop (i + length k) (?p @ redacted_rest ?r))"
          by (rule redact_skipped [OF find_sensitive_key_append [OF f]]) (use lp True in simp)
        also have "\<dots> = ?p @ redacted_rest (redacted_rest ?r)" using lp by simp
        also have "redacted_rest (redacted_rest ?r) = redacted_rest ?r"
          by (rule less) (rule redact_rest_shorter(1) [OF f])
        finally show ?thesis unfolding e .
      next
        case False
        obtain c v where r: "?r = c # v"
          and e: "redacted_rest s = ?p @ c # REDACTION_MARKER @ redacted_rest (skip_value v)"
          using redact_assigned [OF f False] by blast
        let ?o = "?p @ c # REDACTION_MARKER @ redacted_rest (skip_value v)"
        have d: "drop (i + length k) ?o = c # REDACTION_MARKER @ redacted_rest (skip_value v)"
          and t: "take (i + length k) ?o = ?p" using lp by simp_all
        have "separator_len k (drop (i + length k) ?o) \<noteq> 0"
          unfolding d using False r by (auto simp: separator_len_simps split: if_splits)
        then obtain c' v' where d': "drop (i + length k) ?o = c' # v'"
          and e': "redacted_rest ?o
            = take (i + length k) ?o @ c' # REDACTION_MARKER @ redacted_rest (skip_value v')"
          using redact_assigned [OF find_sensitive_key_append [OF f]] by blast
        have "v' = REDACTION_MARKER @ redacted_rest (skip_value v)" "c' = c" using d d' by simp_all
        then have "skip_value v' = redacted_rest (skip_value v)"
          using marker_skipped [OF at_value_end_redact [OF at_value_end_skip]] by metis
        moreover have "redacted_rest (redacted_rest (skip_value v)) = redacted_rest (skip_value v)"
          using redact_rest_shorter(2) [OF f, of 1] r by (intro less) simp
        ultimately have "redacted_rest ?o = ?o" using t e' \<open>c' = c\<close> by simp
        then show ?thesis unfolding e .
      qed
    qed
  qed
  then show ?thesis by (simp add: redact_text_def)
qed

text \<open>Redacting twice changes nothing: in a redacted text every value assigned to a
  sensitive key is already the marker, and nothing that redaction kept is taken for a key
  later.\<close>

theorem redact_text_idempotent: "redact_text (redact_text text) = redact_text text"
  by (rule redact_text_idem)

text \<open>C38: the value assigned to the first sensitive key of a text does not reach the output: a
  text with one value and the same text with another are redacted to the same string, the
  marker standing for the value.\<close>

theorem redact_text_hides_value:
  assumes "find_sensitive_key (pre @ [sep]) = Some (length pre - length key, key)"
    and "separator_len key [sep] \<noteq> 0"
    and "whole_chars v" and "\<forall>ch \<in> set (chars v). \<not> ends_value ch" and "at_value_end post"
  shows "redact_text (pre @ [sep] @ v @ post) = pre @ [sep] @ REDACTION_MARKER @ redact_text post"
proof -
  define i where "i = length pre - length key"
  have f: "find_sensitive_key (pre @ [sep]) = Some (i, key)" using assms(1) by (simp add: i_def)
  have "find_sensitive_key (pre @ [sep]) = None \<or> i + length key \<le> length pre"
  proof (cases "length key \<le> length pre")
    case False
    with key_at_length [OF key_found(1) [OF f]] have "length key = length pre + 1" "i = 0"
      by (auto simp: i_def)
    with key_found(1) [OF f] have "key = to_ascii_lowercase (pre @ [sep])" "key \<in> set KEYS"
      by (simp_all add: key_at_def starts_with_def)
    then have "is_ascii_lower (last (to_ascii_lowercase (pre @ [sep])))"
      by (auto simp: KEYS_def ascii_defs)
    with assms(2) show ?thesis
      by (auto simp: separator_len_simps to_ascii_lowercase_def ascii_defs split: if_splits)
  qed (simp add: i_def)
  with f have l: "i + length key = length pre" by (auto simp: i_def)
  let ?s = "pre @ [sep] @ v @ post"
  have "find_sensitive_key ?s = Some (i, key)"
    using find_sensitive_key_append [OF f, of "[sep] @ v @ post"] l by simp
  moreover have "separator_len key (sep # w) = 1" for w
    using assms(2) by (auto simp: separator_len_simps split: if_splits)
  ultimately have "redacted_rest ?s
      = pre @ [sep] @ REDACTION_MARKER @ redacted_rest (skip_value (v @ post))"
    using l by (subst redact_sensitive_assignments.simps) (simp add: Let_def)
  with skip_value_append [OF assms(3-5)] show ?thesis by (simp add: redact_text_def)
qed

theorem redact_text_hides_value_witness:
  "redact_text (''Token'' @ [CHR ''=''] @ ''hunter2'' @ '' ok'')
     = ''Token'' @ [CHR ''=''] @ REDACTION_MARKER @ redact_text '' ok''"
proof (rule redact_text_hides_value [where key = "''token''"])
  show "find_sensitive_key (''Token'' @ [CHR ''='']) = Some (length ''Token'' - length ''token'', ''token'')"
    by code_simp
qed (simp_all add: separator_len_simps whole_chars_def utf8_len_def ends_value_def
      is_whitespace_def at_value_end_def byte_def)

end
