(* ===== verification/Scalar_Validation.thy ===== *)
theory Scalar_Validation
  imports Rust_Strings
begin

text \<open>
  The validators of the scalar types Email, Url, Uuid and PhoneNumber
  (\<open>scalar_validation.rs\<close>). Their patterns are ASCII, so a test on every \<open>char\<close>
  of a value is a test on every byte: a multi-byte character has a byte that is not ASCII.
\<close>

definition is_ascii_hexdigit :: "char \<Rightarrow> bool" where
  "is_ascii_hexdigit c \<longleftrightarrow>
     is_ascii_digit c \<or> (65 \<le> byte c \<and> byte c \<le> 70) \<or> (97 \<le> byte c \<and> byte c \<le> 102)"

definition all_chars :: "(char \<Rightarrow> bool) \<Rightarrow> string \<Rightarrow> bool" where
  "all_chars p s = list_all (\<lambda>ch. length ch = 1 \<and> p (hd ch)) (chars s)"

definition split_once :: "char \<Rightarrow> string \<Rightarrow> (string \<times> string) option" where
  "split_once d s =
     (case dropWhile (\<lambda>c. c \<noteq> d) s of
        [] \<Rightarrow> None
      | _ # rest \<Rightarrow> Some (takeWhile (\<lambda>c. c \<noteq> d) s, rest))"

definition ends_with :: "char \<Rightarrow> string \<Rightarrow> bool" where
  "ends_with d s \<longleftrightarrow> s \<noteq> [] \<and> last s = d"

definition email_char :: "char \<Rightarrow> bool" where
  "email_char c \<longleftrightarrow> is_ascii_alphanumeric c \<or> c \<in> set ''@._%+-''"

definition validate_email :: "string \<Rightarrow> string + string" where
  "validate_email value = (let value = trim value in
     case split_once (CHR ''@'') value of
       None \<Rightarrow> Err ''expected one `@` separator''
     | Some (local, domain) \<Rightarrow>
         if local = [] \<or> domain = [] \<or> CHR ''@'' \<in> set domain
         then Err ''expected non-empty local and domain parts''
         else if starts_with ''.'' domain \<or> ends_with (CHR ''.'') domain \<or> CHR ''.'' \<notin> set domain
         then Err ''expected a dotted domain''
         else if \<not> all_chars email_char value
         then Err ''expected conservative ASCII email characters''
         else Ok value)"

definition url_host :: "string \<Rightarrow> string" where
  "url_host rest =
     hd (split_on (CHR '':'')
       (last (split_on (CHR ''@'')
         (takeWhile (\<lambda>c. c \<notin> set ''/?#'') rest))))"

definition validate_url :: "string \<Rightarrow> string + string" where
  "validate_url value = (let value = trim value in
     res_bind
       (ok_or ''expected absolute http or https URL''
         (case strip_prefix ''https://'' value of
            Some rest \<Rightarrow> Some rest
          | None \<Rightarrow> strip_prefix ''http://'' value))
       (\<lambda>rest. let host = url_host rest in
          if host = [] \<or> CHR ''.'' \<notin> set host then Err ''expected a dotted host''
          else if \<not> all_chars (\<lambda>c. is_ascii_alphanumeric c \<or> c = CHR ''.'' \<or> c = CHR ''-'') host
          then Err ''expected conservative ASCII host characters''
          else Ok value))"

definition uuid_lengths :: "nat list" where "uuid_lengths = [8, 4, 4, 4, 12]"

definition validate_uuid :: "string \<Rightarrow> string + string" where
  "validate_uuid value = (let value = trim value; parts = split_on (CHR ''-'') value in
     if length parts \<noteq> length uuid_lengths
        \<or> list_ex (\<lambda>(part, len). length part \<noteq> len \<or> \<not> all_chars is_ascii_hexdigit part)
            (zip parts uuid_lengths)
     then Err ''expected 8-4-4-4-12 hexadecimal UUID format''
     else Ok (to_ascii_lowercase value))"

definition validate_phone_number :: "string \<Rightarrow> string + string" where
  "validate_phone_number value = (let value = trim value;
       digits = (case strip_prefix ''+'' value of Some d \<Rightarrow> d | None \<Rightarrow> value) in
     if length digits < 8 \<or> 15 < length digits \<or> \<not> all_chars is_ascii_digit digits
     then Err ''expected 8 to 15 digits with an optional leading `+`''
     else Ok value)"

section \<open>Trimming\<close>

lemma chars_whole_butlast:
  "chars s = xs @ [x] @ ys \<Longrightarrow> ys \<noteq> [] \<Longrightarrow> length x = utf8_len (hd x)"
proof (induction s arbitrary: xs rule: chars.induct)
  case (2 c cs)
  show ?case
  proof (cases xs)
    case Nil
    with 2(2) have x: "x = c # take (utf8_len c - 1) cs" and d: "chars (drop (utf8_len c - 1) cs) = ys"
      by auto
    from d 2(3) have "drop (utf8_len c - 1) cs \<noteq> []" by (metis chars_eq_Nil)
    then show ?thesis using x by simp
  next
    case (Cons a as)
    with 2 show ?thesis by auto
  qed
qed simp

lemma chars_concat_chars:
  "\<forall>x \<in> set (butlast xs). x \<noteq> [] \<and> length x = utf8_len (hd x) \<Longrightarrow> xs = [] \<or> (last xs \<noteq> [] \<and> length (last xs) \<le> utf8_len (hd (last xs)))
     \<Longrightarrow> chars (concat xs) = xs"
proof (induction xs)
  case (Cons x xs)
  show ?case
  proof (cases xs)
    case Nil
    with Cons.prems(2) show ?thesis by (cases x) simp_all
  next
    case (Cons y ys)
    with Cons.prems Cons.IH have "chars (concat xs) = xs" by auto
    moreover have "x \<noteq> []" "length x = utf8_len (hd x)" using Cons.prems(1) Cons by simp_all
    ultimately show ?thesis by (cases x) simp_all
  qed
qed simp

lemma chars_elem_length: "x \<in> set (chars s) \<Longrightarrow> x \<noteq> [] \<and> length x \<le> utf8_len (hd x)"
proof (induction s rule: chars.induct)
  case (2 c cs)
  then show ?case using utf8_len_pos [of c] by (auto simp del: utf8_len_pos)
qed simp

lemma chars_sublist:
  assumes "chars s = as @ bs @ cs"
  shows "chars (concat bs) = bs"
proof (rule chars_concat_chars)
  have "x \<noteq> []" "length x \<le> utf8_len (hd x)" if "x \<in> set bs" for x
    using chars_elem_length [of x s] assms that by auto
  then show "bs = [] \<or> (last bs \<noteq> [] \<and> length (last bs) \<le> utf8_len (hd (last bs)))"
    by (metis last_in_set)
  show "\<forall>x \<in> set (butlast bs). x \<noteq> [] \<and> length x = utf8_len (hd x)"
  proof
    fix x assume x: "x \<in> set (butlast bs)"
    then obtain us vs where "butlast bs = us @ x # vs" by (meson split_list)
    moreover from x have "bs = butlast bs @ [last bs]" by (cases bs rule: rev_cases) auto
    ultimately have "chars s = (as @ us) @ [x] @ (vs @ [last bs] @ cs)"
      using assms by (metis append.assoc append_Cons append_Nil)
    then have "length x = utf8_len (hd x)" by (rule chars_whole_butlast) simp
    moreover have "x \<in> set (chars s)" using \<open>chars s = (as @ us) @ _\<close> by simp
    ultimately show "x \<noteq> [] \<and> length x = utf8_len (hd x)" using chars_nonempty by blast
  qed
qed

definition strip_ws :: "string list \<Rightarrow> string list" where
  "strip_ws xs = rev (dropWhile is_whitespace (rev (dropWhile is_whitespace xs)))"

lemma dropWhile_rev_suffix: "\<exists>t. xs = rev (dropWhile P (rev xs)) @ t"
  by (metis rev_append rev_rev_ident takeWhile_dropWhile_id)

lemma strip_ws_sublist: "\<exists>as cs. xs = as @ strip_ws xs @ cs"
  unfolding strip_ws_def by (metis dropWhile_rev_suffix takeWhile_dropWhile_id)

lemma strip_ws_idem [simp]: "strip_ws (strip_ws xs) = strip_ws xs"
proof -
  define ys where "ys = dropWhile is_whitespace xs"
  define zs where "zs = rev (dropWhile is_whitespace (rev ys))"
  have "zs = [] \<or> \<not> is_whitespace (hd zs)"
  proof (cases zs)
    case (Cons z zs')
    obtain t where "ys = zs @ t" using dropWhile_rev_suffix zs_def by blast
    with Cons have "hd ys = z" "ys \<noteq> []" by auto
    with Cons show ?thesis using hd_dropWhile [of is_whitespace xs] by (auto simp: ys_def)
  qed simp
  then have "dropWhile is_whitespace zs = zs" by (cases zs) auto
  moreover have "dropWhile is_whitespace (rev zs) = rev zs"
    by (simp add: zs_def dropWhile_idem)
  ultimately show ?thesis by (simp add: strip_ws_def zs_def [symmetric] ys_def [symmetric])
qed

lemma trim_trim [simp]: "trim (trim s) = trim s"
proof -
  have "trim s = concat (strip_ws (chars s))" by (simp add: trim_def strip_ws_def)
  moreover have "chars (concat (strip_ws (chars s))) = strip_ws (chars s)"
    using strip_ws_sublist chars_sublist by metis
  ultimately show ?thesis by (simp add: trim_def strip_ws_def [symmetric])
qed

section \<open>What the validators accept\<close>

text \<open>For a predicate on ASCII characters, testing the characters is testing the bytes.\<close>

lemma all_chars_bytes:
  assumes "\<And>c. p c \<Longrightarrow> is_ascii c"
  shows "all_chars p s \<longleftrightarrow> list_all p s"
proof (induction s rule: chars.induct)
  case (2 c cs)
  show ?case
  proof (cases "p c")
    case True
    then have "utf8_len c = 1" using assms by simp
    with 2 True show ?thesis by (simp add: all_chars_def)
  qed (simp add: all_chars_def)
qed (simp add: all_chars_def)

lemma email_char_ascii: "email_char c \<Longrightarrow> is_ascii c"
  by (auto simp: email_char_def ascii_defs)

lemma hexdigit_ascii: "is_ascii_hexdigit c \<Longrightarrow> is_ascii c"
  by (auto simp: is_ascii_hexdigit_def ascii_defs)

lemma split_once_simps:
  "split_once d [] = None"
  "split_once d (c # s) =
     (if c = d then Some ([], s) else map_option (\<lambda>(a, b). (c # a, b)) (split_once d s))"
proof -
  show "split_once d [] = None" by (simp add: split_once_def)
  show "split_once d (c # s) =
     (if c = d then Some ([], s) else map_option (\<lambda>(a, b). (c # a, b)) (split_once d s))"
    unfolding split_once_def by (cases "dropWhile (\<lambda>c. c \<noteq> d) s") (simp_all del: dropWhile_eq_Nil_conv)
qed

lemma split_once_Some:
  "split_once d s = Some (a, b) \<longleftrightarrow> s = a @ d # b \<and> d \<notin> set a"
proof (induction s arbitrary: a)
  case (Cons c s)
  show ?case by (cases a) (auto simp: split_once_simps Cons.IH)
qed (simp add: split_once_simps)

text \<open>\<open>validate_email\<close> accepts a value exactly when, trimmed, it consists of the allowed
  ASCII characters and is a non-empty local part, one \<open>@\<close>, and a domain with an inner dot
  and none at its ends; the result is the trimmed value.\<close>

theorem validate_email_accepts:
  "validate_email value = Ok w \<longleftrightarrow>
     w = trim value \<and> list_all email_char w \<and>
     (\<exists>local domain. w = local @ CHR ''@'' # domain \<and> local \<noteq> []
        \<and> CHR ''@'' \<notin> set local \<and> CHR ''@'' \<notin> set domain
        \<and> CHR ''.'' \<in> set domain \<and> hd domain \<noteq> CHR ''.'' \<and> last domain \<noteq> CHR ''.'')"
proof -
  have d: "starts_with ''.'' d \<longleftrightarrow> hd d = CHR ''.''" "ends_with (CHR ''.'') d \<longleftrightarrow> last d = CHR ''.''"
    if "d \<noteq> []" for d
    using that by (cases d; simp add: starts_with_def ends_with_def)+
  note all_chars_bytes [OF email_char_ascii, simp]
  show ?thesis
  proof (cases "split_once (CHR ''@'') (trim value)")
    case None
    then have "\<nexists>local domain. trim value = local @ CHR ''@'' # domain \<and> CHR ''@'' \<notin> set local"
      by (metis option.distinct(1) split_once_Some)
    with None show ?thesis by (auto simp: validate_email_def)
  next
    case (Some ab)
    obtain a b where ab: "ab = (a, b)" by (cases ab)
    have u: "trim value = local @ CHR ''@'' # domain \<and> CHR ''@'' \<notin> set local \<longleftrightarrow>
        local = a \<and> domain = b" for local domain
      using Some ab split_once_Some by (metis option.inject prod.inject)
    have "validate_email value = Ok w \<longleftrightarrow> w = trim value \<and> list_all email_char w \<and>
        a \<noteq> [] \<and> CHR ''@'' \<notin> set b \<and> CHR ''.'' \<in> set b \<and> hd b \<noteq> CHR ''.'' \<and> last b \<noteq> CHR ''.''"
      using Some ab by (cases "b = []") (auto simp: validate_email_def Let_def d)
    moreover have "w = trim value \<Longrightarrow>
        (\<exists>local domain. w = local @ CHR ''@'' # domain \<and> local \<noteq> []
          \<and> CHR ''@'' \<notin> set local \<and> CHR ''@'' \<notin> set domain
          \<and> CHR ''.'' \<in> set domain \<and> hd domain \<noteq> CHR ''.'' \<and> last domain \<noteq> CHR ''.'')
        \<longleftrightarrow> a \<noteq> [] \<and> CHR ''@'' \<notin> set b \<and> CHR ''.'' \<in> set b \<and> hd b \<noteq> CHR ''.'' \<and> last b \<noteq> CHR ''.''"
      using u by metis
    ultimately show ?thesis by blast
  qed
qed

lemma no_whitespace_trim:
  assumes "list_all p s" and "\<And>c. p c \<Longrightarrow> is_ascii c \<and> \<not> is_whitespace [c]"
  shows "trim s = s"
  by (rule trim_no_ws) (use assms in \<open>auto simp: list_all_iff\<close>)

lemma to_ascii_lowercase_idem [simp]: "to_ascii_lowercase (to_ascii_lowercase s) = to_ascii_lowercase s"
  by (auto simp: to_ascii_lowercase_def ascii_defs)

lemma lower_hexdigit: "is_ascii_hexdigit c \<Longrightarrow> c' = (if is_ascii_upper c then char_of (byte c + 32) else c) \<Longrightarrow>
    is_ascii_hexdigit c'"
  by (auto simp: is_ascii_hexdigit_def ascii_defs)

text \<open>Cutting at \<open>-\<close> and lowering the case commute.\<close>

lemma split_on_lowercase:
  assumes "\<not> is_ascii_alphabetic d"
  shows "split_on d (to_ascii_lowercase s) = map to_ascii_lowercase (split_on d s)"
proof -
  have "(if is_ascii_upper c then char_of (byte c + 32) else c) = d \<longleftrightarrow> c = d" for c
  proof (cases "is_ascii_upper c")
    case True
    then have "is_ascii_alphabetic (char_of (byte c + 32))" by (auto simp: ascii_defs)
    with assms True show ?thesis by (auto simp: ascii_defs)
  qed simp
  then show ?thesis
    by (induction d s rule: split_on.induct)
      (auto simp: to_ascii_lowercase_def split: list.splits)
qed

definition uuid_shape :: "string \<Rightarrow> bool" where
  "uuid_shape s \<longleftrightarrow>
     map length (split_on (CHR ''-'') s) = uuid_lengths
     \<and> list_all (list_all is_ascii_hexdigit) (split_on (CHR ''-'') s)"

lemma validate_uuid_shape:
  "validate_uuid value = Ok w \<longleftrightarrow> w = to_ascii_lowercase (trim value) \<and> uuid_shape (trim value)"
proof -
  have "(length ps = length ls \<and> \<not> list_ex (\<lambda>(p, n). length p \<noteq> n \<or> \<not> list_all q p) (zip ps ls))
      \<longleftrightarrow> map length ps = ls \<and> list_all (list_all q) ps" for ps :: "string list" and ls q
    by (induction ps ls rule: list_induct2')  auto
  from this [of _ uuid_lengths is_ascii_hexdigit] show ?thesis
    by (auto simp: validate_uuid_def Let_def uuid_shape_def all_chars_bytes [OF hexdigit_ascii])
qed

lemma join_split_on: "c \<in> set s \<Longrightarrow> c = d \<or> (\<exists>p \<in> set (split_on d s). c \<in> set p)"
proof (induction s)
  case (Cons a s)
  show ?case
  proof (cases "a = d \<or> c = d")
    case False
    with Cons show ?thesis by (cases "split_on d s") auto
  qed (use Cons in auto)
qed simp

lemma not_whitespace:
  "is_ascii_hexdigit c \<Longrightarrow> \<not> is_whitespace [c]"
  "email_char c \<Longrightarrow> \<not> is_whitespace [c]"
  by (auto simp: is_ascii_hexdigit_def email_char_def ascii_defs is_whitespace_def)

lemma uuid_lowercase:
  assumes "uuid_shape s"
  shows "uuid_shape (to_ascii_lowercase s)" and "trim (to_ascii_lowercase s) = to_ascii_lowercase s"
proof -
  have "list_all is_ascii_hexdigit p \<Longrightarrow> list_all is_ascii_hexdigit (to_ascii_lowercase p)" for p
    by (induction p) (auto simp: to_ascii_lowercase_def intro: lower_hexdigit)
  moreover have "split_on (CHR ''-'') (to_ascii_lowercase s) = map to_ascii_lowercase (split_on (CHR ''-'') s)"
    by (rule split_on_lowercase) (simp add: ascii_defs)
  ultimately show u: "uuid_shape (to_ascii_lowercase s)"
    using assms by (auto simp: uuid_shape_def list_all_iff comp_def)
  have "list_all (\<lambda>c. is_ascii_hexdigit c \<or> c = CHR ''-'') (to_ascii_lowercase s)"
    using u join_split_on [of _ "to_ascii_lowercase s" "CHR ''-''"]
    by (fastforce simp: uuid_shape_def list_all_iff)
  then show "trim (to_ascii_lowercase s) = to_ascii_lowercase s"
    by (rule no_whitespace_trim)
      (auto simp: hexdigit_ascii not_whitespace, simp_all add: ascii_defs is_whitespace_def)
qed

text \<open>The validators are normalisations: a value that one of them returns is accepted by it
  again and returned unchanged.\<close>

theorem scalar_validation_stable:
  "(validate_email value = Ok w \<longrightarrow> validate_email w = Ok w)
   \<and> (validate_url value = Ok w \<longrightarrow> validate_url w = Ok w)
   \<and> (validate_uuid value = Ok w \<longrightarrow> validate_uuid w = Ok w)
   \<and> (validate_phone_number value = Ok w \<longrightarrow> validate_phone_number w = Ok w)"
proof (intro conjI impI)
  assume "validate_email value = Ok w"
  moreover from this have "w = trim value"
    by (auto simp: validate_email_def Let_def split: option.splits if_splits prod.splits)
  ultimately show "validate_email w = Ok w" by (simp add: validate_email_def)
next
  assume "validate_url value = Ok w"
  moreover from this have "w = trim value"
    by (auto simp: validate_url_def Let_def result_simps split: if_splits)
  ultimately show "validate_url w = Ok w" by (simp add: validate_url_def)
next
  assume "validate_uuid value = Ok w"
  then show "validate_uuid w = Ok w"
    using uuid_lowercase [of "trim value"] by (simp add: validate_uuid_shape)
next
  assume "validate_phone_number value = Ok w"
  moreover from this have "w = trim value"
    by (auto simp: validate_phone_number_def Let_def split: if_splits)
  ultimately show "validate_phone_number w = Ok w" by (simp add: validate_phone_number_def)
qed

theorem scalar_validation_stable_witness:
  "validate_phone_number '' +4912345678'' = Ok ''+4912345678''
   \<and> validate_phone_number ''+4912345678'' = Ok ''+4912345678''"
proof -
  have "validate_phone_number '' +4912345678'' = Ok ''+4912345678''" by code_simp
  then show ?thesis
    using scalar_validation_stable [of "'' +4912345678''" "''+4912345678''"] by blast
qed

end
