(* ===== verification/Json.thy ===== *)
theory Json
  imports Rust_Strings "HOL-Library.Finite_Map" "HOL-Library.Char_ord" "HOL-Library.List_Lexorder"
begin

text \<open>
  The values of \<open>serde_json\<close> that the runtime builds and reads: the constructors of
  \<open>serde_json::Value\<close> and the accessors \<open>get\<close>, \<open>as_str\<close>, \<open>as_u64\<close>,
  \<open>as_i64\<close>, \<open>as_array\<close>, \<open>as_object\<close> as its documentation states them. An object
  is a finite map, a \<open>BTreeMap<String, Value>\<close>; a number is an integer of the range of
  \<open>i64\<close> and \<open>u64\<close> together, or a finite \<open>f64\<close>, kept as its 64 bits.

  Printing and parsing belong to the library: they are a parameter of the model, a
  \<open>codec\<close> over any type of bytes, and the one law used of it is that parsing what was
  printed returns the value (\<open>codec_ok\<close>, for values without floats: the parser's float
  reading is not exact in the configuration the repository builds).
\<close>

datatype json =
    JNull
  | JBool bool
  | JInt int
  | JFloat "64 word"
  | JString string
  | JArray "json list"
  | JObject "(string, json) fmap"

text \<open>An object literal of the \<open>json!\<close> macro: a later key overwrites an earlier one.\<close>

definition json_object :: "(string \<times> json) list \<Rightarrow> json" where
  "json_object kvs = JObject (foldl (\<lambda>m (k, v). fmupd k v m) fmempty kvs)"

fun json_get :: "json \<Rightarrow> string \<Rightarrow> json option" where
  "json_get (JObject m) k = fmlookup m k"
| "json_get _ k = None"

fun as_str :: "json \<Rightarrow> string option" where
  "as_str (JString s) = Some s"
| "as_str _ = None"

fun as_bool :: "json \<Rightarrow> bool option" where
  "as_bool (JBool b) = Some b"
| "as_bool _ = None"

fun as_u64 :: "json \<Rightarrow> nat option" where
  "as_u64 (JInt i) = (if 0 \<le> i \<and> i \<le> int u64_max then Some (nat i) else None)"
| "as_u64 _ = None"

fun as_i64 :: "json \<Rightarrow> int option" where
  "as_i64 (JInt i) = (if i64_min \<le> i \<and> i \<le> i64_max then Some i else None)"
| "as_i64 _ = None"

fun as_array :: "json \<Rightarrow> json list option" where
  "as_array (JArray xs) = Some xs"
| "as_array _ = None"

fun as_object :: "json \<Rightarrow> (string, json) fmap option" where
  "as_object (JObject m) = Some m"
| "as_object _ = None"

definition json_opt :: "('a \<Rightarrow> json) \<Rightarrow> 'a option \<Rightarrow> json" where
  "json_opt f x = (case x of None \<Rightarrow> JNull | Some y \<Rightarrow> f y)"

definition json_strings :: "string list \<Rightarrow> json" where
  "json_strings xs = JArray (map JString xs)"

definition json_string_map :: "(string, string) fmap \<Rightarrow> json" where
  "json_string_map m = JObject (fmmap JString m)"

definition json_nat :: "nat \<Rightarrow> json" where "json_nat n = JInt (int n)"

text \<open>A \<open>f64\<close> becomes a number, or null when it is not finite (its exponent bits are all
  set). An \<open>i128\<close> outside the range of \<open>Number\<close> makes \<open>json!\<close> panic.\<close>

definition json_f64 :: "64 word \<Rightarrow> json" where
  "json_f64 w = (if take_bit 11 (drop_bit 52 w) = (2047 :: 64 word) then JNull else JFloat w)"

definition json_i128 :: "int \<Rightarrow> json option" where
  "json_i128 i = (if i64_min \<le> i \<and> i \<le> int u64_max then Some (JInt i) else None)"

text \<open>Values that survive printing and parsing: integers in range and no floats.\<close>

primrec json_plain :: "json \<Rightarrow> bool" where
  "json_plain JNull = True"
| "json_plain (JBool b) = True"
| "json_plain (JInt i) = (i64_min \<le> i \<and> i \<le> int u64_max)"
| "json_plain (JFloat w) = False"
| "json_plain (JString s) = True"
| "json_plain (JArray xs) = list_all id (map json_plain xs)"
| "json_plain (JObject m) = fmpred (\<lambda>_ b. b) (fmmap json_plain m)"

text \<open>The library's printer (\<open>to_vec_pretty\<close>, \<open>to_string\<close>) and parser
  (\<open>from_slice\<close>); an error is its message. The printer yields one chunk of bytes, the
  parser reads the content of a file, which is a list of chunks.\<close>

record 'b codec =
  to_vec :: "json \<Rightarrow> string + 'b"
  from_slice :: "'b list \<Rightarrow> string + json"

definition codec_ok :: "'b codec \<Rightarrow> bool" where
  "codec_ok c \<longleftrightarrow> (\<forall>v. json_plain v \<longrightarrow> (\<exists>b. to_vec c v = Ok b \<and> from_slice c [b] = Ok v))"

text \<open>A concrete codec: the value is its own text.\<close>

definition id_codec :: "json codec" where
  "id_codec = \<lparr>to_vec = Ok,
     from_slice = (\<lambda>bs. case bs of [v] \<Rightarrow> Ok v | _ \<Rightarrow> Err ''expected value at line 1 column 1'')\<rparr>"

lemma id_codec_ok [simp]: "codec_ok id_codec"
  by (simp add: codec_ok_def id_codec_def)

lemma codec_okD: "codec_ok c \<Longrightarrow> json_plain v \<Longrightarrow> \<exists>b. to_vec c v = Ok b \<and> from_slice c [b] = Ok v"
  by (simp add: codec_ok_def)

lemma json_object_get [simp]:
  "json_get (json_object []) k = None"
  "json_get (json_object (kvs @ [(k', v)])) k = (if k = k' then Some v else json_get (json_object kvs) k)"
  by (simp_all add: json_object_def)

lemma foldl_fmupd_lookup:
  "fmlookup (foldl (\<lambda>m (k, v). fmupd k v m) m kvs) k
     = (case map_of (rev kvs) k of None \<Rightarrow> fmlookup m k | Some v \<Rightarrow> Some v)"
  by (induction kvs arbitrary: m) (auto simp: map_add_def split: option.splits)

lemma json_get_object: "json_get (json_object kvs) k = map_of (rev kvs) k"
  by (simp add: json_object_def foldl_fmupd_lookup split: option.splits)

lemma json_plain_object:
  "list_all (\<lambda>(k, v). json_plain v) kvs \<Longrightarrow> json_plain (json_object kvs)"
proof -
  have "fmpred (\<lambda>_ b. b) (fmmap json_plain m) \<Longrightarrow> list_all (\<lambda>(k, v). json_plain v) kvs \<Longrightarrow>
      fmpred (\<lambda>_ b. b) (fmmap json_plain (foldl (\<lambda>m (k, v). fmupd k v m) m kvs))" for m
    by (induction kvs arbitrary: m) (auto simp: fmpred_upd)
  then show "list_all (\<lambda>(k, v). json_plain v) kvs \<Longrightarrow> json_plain (json_object kvs)"
    by (simp add: json_object_def)
qed

lemma json_plain_simps [simp]:
  "json_plain (json_strings xs)" "json_plain (json_string_map m)"
  "n \<le> u64_max \<Longrightarrow> json_plain (json_nat n)"
  by (auto simp: json_strings_def json_string_map_def json_nat_def list_all_iff)

text \<open>Reading every entry of an object, in the order of its keys; the first error wins.\<close>

definition collect_object ::
    "(string \<Rightarrow> json \<Rightarrow> 'e + 'a) \<Rightarrow> (string, json) fmap \<Rightarrow> 'e + (string, 'a) fmap" where
  "collect_object f m =
     res_map fmap_of_list
       (collect_results (\<lambda>(k, v). res_map (Pair k) (f k v)) (sorted_list_of_fmap m))"

lemma collect_object_fmmap:
  assumes "\<And>k v. fmlookup m k = Some v \<Longrightarrow> f k (g v) = Inr v"
  shows "collect_object f (fmmap g m) = Inr m"
proof -
  have "collect_results (\<lambda>(k, v). res_map (Pair k) (f k v)) (sorted_list_of_fmap (fmmap g m))
      = Inr (map (\<lambda>(k, v). (k, the (fmlookup m k))) (sorted_list_of_fmap (fmmap g m)))"
  proof (rule collect_results_map)
    fix x assume "x \<in> set (sorted_list_of_fmap (fmmap g m))"
    then obtain k v where x: "x = (k, g v)" and v: "fmlookup m k = Some v"
      by (auto simp: sorted_list_of_fmap_def fmlookup_dom_iff)
    show "(case x of (k, v) \<Rightarrow> res_map (Pair k) (f k v))
        = Inr (case x of (k, v) \<Rightarrow> (k, the (fmlookup m k)))"
      using assms [OF v] by (simp add: x v)
  qed
  also have "map (\<lambda>(k, v). (k, the (fmlookup m k))) (sorted_list_of_fmap (fmmap g m))
      = sorted_list_of_fmap m"
    by (simp add: sorted_list_of_fmap_def)
  finally show ?thesis
    by (simp add: collect_object_def) (rule fmap_ext, simp add: fmlookup_of_list)
qed

end
