(* ===== verification/Runtime_Types.thy ===== *)
theory Runtime_Types
  imports Redaction Json
begin

text \<open>
  The types that every part of the runtime shares (\<open>num-runtime/src/lib.rs\<close>): workflow
  states, security contexts, money, audit events, values with a confidence, and
  \<open>RuntimeError\<close> with its kind, message and JSON form. A \<open>SystemTime\<close> is the signed
  number of nanoseconds since the Unix epoch, a \<open>Duration\<close> a number of nanoseconds. Two
  enums of the source share variant names, so their constructors are written qualified.
\<close>

type_synonym system_time = int
type_synonym duration = nat

datatype workflow_status = Created | Running | Waiting | Failed | Compensated | Completed | Cancelled

record security_context =
  actor :: string
  tenant :: string
  roles :: "string fset"
  permissions :: "string fset"
  correlation_id :: string
  request_id :: string
  provenance :: "string option"
  trust :: "string option"

definition has_permission :: "security_context \<Rightarrow> string \<Rightarrow> bool" where
  "has_permission ctx permission \<longleftrightarrow> permission |\<in>| permissions ctx"

record workflow_state =
  wf_id :: string
  wf_name :: string
  status :: workflow_status
  security :: security_context
  started_at :: system_time
  updated_at :: system_time
  metadata :: "(string, string) fmap"

datatype risk_level = Low | Medium | High | Critical

record money =
  minor_units :: int
  currency :: string

record action_spec =
  spec_name :: string
  required_permissions :: "string list"
  risk :: risk_level
  timeout :: "duration option"
  rollback :: "string option"
  idempotency_key :: "string option"
  max_cost :: "money option"

datatype audit_result =
  Started | Waiting | Resumed | Succeeded | Failed string | RolledBack | Cancelled

record audit_event =
  ae_event_id :: string
  ae_timestamp :: system_time
  ae_actor :: string
  ae_tenant :: string
  ae_action :: string
  ae_result :: audit_result
  ae_permissions_used :: "string list"
  ae_data_sources :: "string list"
  ae_ai_models :: "string list"
  ae_confidence_values :: "64 word list"
  ae_rollback_status :: "string option"
  ae_correlation_id :: string
  ae_request_id :: string

section \<open>Risk levels are ordered\<close>

primrec risk_rank :: "risk_level \<Rightarrow> nat" where
  "risk_rank Low = 0"
| "risk_rank Medium = 1"
| "risk_rank High = 2"
| "risk_rank Critical = 3"

lemma risk_rank_inject: "risk_rank a = risk_rank b \<longleftrightarrow> a = b"
  by (cases a; cases b) simp_all

instantiation risk_level :: linorder
begin

definition less_eq_risk_level :: "risk_level \<Rightarrow> risk_level \<Rightarrow> bool" where
  "less_eq_risk_level a b \<longleftrightarrow> risk_rank a \<le> risk_rank b"

definition less_risk_level :: "risk_level \<Rightarrow> risk_level \<Rightarrow> bool" where
  "less_risk_level a b \<longleftrightarrow> risk_rank a < risk_rank b"

instance
  by standard (auto simp: less_eq_risk_level_def less_risk_level_def risk_rank_inject)

end

section \<open>Values with a confidence\<close>

text \<open>
  The comparison of two \<open>f64\<close>: never true of a NaN, otherwise that of the signed
  magnitudes, so that the two zeros are equal.
\<close>

definition f64_nan :: "64 word \<Rightarrow> bool" where
  "f64_nan w \<longleftrightarrow> take_bit 11 (drop_bit 52 w) = (2047 :: 64 word) \<and> take_bit 52 w \<noteq> 0"

definition f64_key :: "64 word \<Rightarrow> int" where
  "f64_key w = (if bit w 63 then - uint (take_bit 63 w) else uint (take_bit 63 w))"

definition f64_ge :: "64 word \<Rightarrow> 64 word \<Rightarrow> bool" where
  "f64_ge a b \<longleftrightarrow> \<not> f64_nan a \<and> \<not> f64_nan b \<and> f64_key b \<le> f64_key a"

record 'a uncertain =
  value_of :: 'a
  confidence :: "64 word"
  source :: string
  explanation :: "string option"
  evidence :: "string list"

record 'a uncertainty_error =
  rejected_value :: 'a
  rejected_confidence :: "64 word"
  threshold :: "64 word"

definition accept :: "'a uncertain \<Rightarrow> 64 word \<Rightarrow> 'a uncertainty_error + 'a" where
  "accept u thr =
     (if f64_ge (confidence u) thr then Ok (value_of u)
      else Err \<lparr>rejected_value = value_of u, rejected_confidence = confidence u, threshold = thr\<rparr>)"

section \<open>Errors\<close>

datatype runtime_error =
    PermissionDenied string
  | CostLimitExceeded money money
  | RateLimitExceeded string nat
  | Timeout string
  | ActionFailed string string
  | ConnectorFailed string string string bool
  | SanitizationFailed string
  | TenantIsolationViolation string string
  | AuthenticationFailed string string
  | SecretNotFound string
  | SecretDenied string
  | SecretUnavailable string string
  | SecretInvalidResponse string string
  | EncryptionDenied string string
  | EncryptionUnavailable string string
  | EncryptionInvalidEnvelope string string
  | Storage string

fun kind :: "runtime_error \<Rightarrow> string" where
  "kind (PermissionDenied _) = ''permission_denied''"
| "kind (CostLimitExceeded _ _) = ''cost_limit_exceeded''"
| "kind (RateLimitExceeded _ _) = ''rate_limit_exceeded''"
| "kind (Timeout _) = ''timeout''"
| "kind (ActionFailed _ _) = ''action_failed''"
| "kind (ConnectorFailed _ _ _ _) = ''connector_failed''"
| "kind (SanitizationFailed _) = ''sanitization_failed''"
| "kind (TenantIsolationViolation _ _) = ''tenant_isolation_violation''"
| "kind (AuthenticationFailed _ _) = ''authentication_failed''"
| "kind (SecretNotFound _) = ''secret_not_found''"
| "kind (SecretDenied _) = ''secret_denied''"
| "kind (SecretUnavailable _ _) = ''secret_unavailable''"
| "kind (SecretInvalidResponse _ _) = ''secret_invalid_response''"
| "kind (EncryptionDenied _ _) = ''encryption_denied''"
| "kind (EncryptionUnavailable _ _) = ''encryption_unavailable''"
| "kind (EncryptionInvalidEnvelope _ _) = ''encryption_invalid_envelope''"
| "kind (Storage _) = ''storage''"

definition quoted :: "string \<Rightarrow> string" where
  "quoted s = [CHR 0x27] @ s @ [CHR 0x27]"

fun message :: "runtime_error \<Rightarrow> string" where
  "message (PermissionDenied permission) =
     ''Security Violation: Missing required permission '' @ quoted permission"
| "message (CostLimitExceeded limit actual) =
     ''Cost limit exceeded: actual '' @ show_int (minor_units actual) @ '' '' @ currency actual
       @ '', limit '' @ show_int (minor_units limit) @ '' '' @ currency limit"
| "message (RateLimitExceeded scope limit) =
     ''Rate limit exceeded for '' @ quoted scope @ '': limit '' @ show_nat limit"
| "message (Timeout action) =
     ''Timeout while executing action '' @ quoted action"
| "message (ActionFailed action reason) = redact_text reason"
| "message (ConnectorFailed mtd code msg retryable) =
     ''Connector '' @ quoted mtd @ '' failed ['' @ code @ '', retryable=''
       @ show_bool retryable @ '']: '' @ redact_text msg"
| "message (SanitizationFailed reason) = ''Sanitization failed: '' @ redact_text reason"
| "message (TenantIsolationViolation expected actual) =
     ''Tenant isolation violation: expected '' @ quoted expected
       @ '', got '' @ quoted actual"
| "message (AuthenticationFailed code reason) = ''Authentication failed: '' @ redact_text reason"
| "message (SecretNotFound nm) = ''Secret '' @ quoted nm @ '' not found''"
| "message (SecretDenied nm) = ''Secret '' @ quoted nm @ '' denied by backend''"
| "message (SecretUnavailable backend reason) =
     ''Secret backend '' @ quoted backend @ '' unavailable: '' @ redact_text reason"
| "message (SecretInvalidResponse backend reason) =
     ''Secret backend '' @ quoted backend @ '' returned an invalid response: ''
       @ redact_text reason"
| "message (EncryptionDenied provider key_id) =
     ''Encryption provider '' @ quoted provider @ '' denied key ''
       @ quoted key_id"
| "message (EncryptionUnavailable provider reason) =
     ''Encryption provider '' @ quoted provider @ '' unavailable: ''
       @ redact_text reason"
| "message (EncryptionInvalidEnvelope provider reason) =
     ''Encryption provider '' @ quoted provider @ '' rejected envelope: ''
       @ redact_text reason"
| "message (Storage msg) = ''Storage error: '' @ redact_text msg"

text \<open>The JSON forms; \<open>None\<close> is the panic of \<open>json!\<close> on an amount that no JSON number
  holds.\<close>

definition money_to_json :: "money \<Rightarrow> json option" where
  "money_to_json m =
     map_option (\<lambda>n. json_object [(''minor_units'', n), (''currency'', JString (currency m))])
       (json_i128 (minor_units m))"

definition error_object :: "runtime_error \<Rightarrow> (string \<times> json) list \<Rightarrow> json option" where
  "error_object e details =
     Some (json_object ([(''kind'', JString (kind e)), (''message'', JString (message e))] @ details))"

fun to_json :: "runtime_error \<Rightarrow> json option" where
  "to_json (PermissionDenied permission) =
     error_object (PermissionDenied permission) [(''permission'', JString permission)]"
| "to_json (CostLimitExceeded limit actual) =
     (case (money_to_json limit, money_to_json actual) of
        (Some l, Some a) \<Rightarrow>
          error_object (CostLimitExceeded limit actual) [(''limit'', l), (''actual'', a)]
      | _ \<Rightarrow> None)"
| "to_json (RateLimitExceeded scope limit) =
     error_object (RateLimitExceeded scope limit)
       [(''scope'', JString scope), (''limit'', json_nat limit)]"
| "to_json (Timeout action) = error_object (Timeout action) [(''action'', JString action)]"
| "to_json (ActionFailed action reason) =
     error_object (ActionFailed action reason)
       [(''action'', JString action), (''reason'', JString (redact_text reason))]"
| "to_json (ConnectorFailed mtd code msg retryable) =
     error_object (ConnectorFailed mtd code msg retryable)
       [(''connector'', json_object
          [(''method'', JString mtd), (''code'', JString code),
           (''message'', JString (redact_text msg)), (''retryable'', JBool retryable)])]"
| "to_json (SanitizationFailed reason) =
     error_object (SanitizationFailed reason) [(''reason'', JString (redact_text reason))]"
| "to_json (TenantIsolationViolation expected actual) =
     error_object (TenantIsolationViolation expected actual)
       [(''expected'', JString expected), (''actual'', JString actual)]"
| "to_json (AuthenticationFailed code reason) =
     error_object (AuthenticationFailed code reason)
       [(''code'', JString code), (''reason'', JString (redact_text reason))]"
| "to_json (SecretNotFound nm) = error_object (SecretNotFound nm) [(''name'', JString nm)]"
| "to_json (SecretDenied nm) = error_object (SecretDenied nm) [(''name'', JString nm)]"
| "to_json (SecretUnavailable backend reason) =
     error_object (SecretUnavailable backend reason)
       [(''backend'', JString backend), (''reason'', JString (redact_text reason))]"
| "to_json (SecretInvalidResponse backend reason) =
     error_object (SecretInvalidResponse backend reason)
       [(''backend'', JString backend), (''reason'', JString (redact_text reason))]"
| "to_json (EncryptionDenied provider key_id) =
     error_object (EncryptionDenied provider key_id)
       [(''provider'', JString provider), (''key_id'', JString key_id)]"
| "to_json (EncryptionUnavailable provider reason) =
     error_object (EncryptionUnavailable provider reason)
       [(''provider'', JString provider), (''reason'', JString (redact_text reason))]"
| "to_json (EncryptionInvalidEnvelope provider reason) =
     error_object (EncryptionInvalidEnvelope provider reason)
       [(''provider'', JString provider), (''reason'', JString (redact_text reason))]"
| "to_json (Storage msg) = error_object (Storage msg) []"

definition require_permission :: "security_context \<Rightarrow> string \<Rightarrow> runtime_error + unit" where
  "require_permission ctx permission =
     (if has_permission ctx permission then Ok () else Err (PermissionDenied permission))"

section \<open>What error reports disclose\<close>

text \<open>The error whose free text has been redacted.\<close>

fun redact_error :: "runtime_error \<Rightarrow> runtime_error" where
  "redact_error (ActionFailed action reason) = ActionFailed action (redact_text reason)"
| "redact_error (ConnectorFailed mtd code msg retryable) =
     ConnectorFailed mtd code (redact_text msg) retryable"
| "redact_error (SanitizationFailed reason) = SanitizationFailed (redact_text reason)"
| "redact_error (AuthenticationFailed code reason) = AuthenticationFailed code (redact_text reason)"
| "redact_error (SecretUnavailable backend reason) = SecretUnavailable backend (redact_text reason)"
| "redact_error (SecretInvalidResponse backend reason) =
     SecretInvalidResponse backend (redact_text reason)"
| "redact_error (EncryptionUnavailable provider reason) =
     EncryptionUnavailable provider (redact_text reason)"
| "redact_error (EncryptionInvalidEnvelope provider reason) =
     EncryptionInvalidEnvelope provider (redact_text reason)"
| "redact_error (Storage msg) = Storage (redact_text msg)"
| "redact_error e = e"

text \<open>The message and the JSON form of an error see its free text only after redaction:
  both are those of the error whose reason was redacted beforehand.\<close>

theorem error_report_redacted:
  "message e = message (redact_error e) \<and> to_json e = to_json (redact_error e)"
  by (cases e) (simp_all add: redact_text_idem error_object_def)

text \<open>The JSON form of an error exists for every error except a cost limit whose amounts do
  not fit a JSON number, where the code panics; when it exists it carries the kind and the
  message of the error.\<close>

theorem to_json_report:
  "(case to_json e of
      None \<Rightarrow> \<exists>limit actual. e = CostLimitExceeded limit actual \<and>
        (minor_units limit < i64_min \<or> int u64_max < minor_units limit
         \<or> minor_units actual < i64_min \<or> int u64_max < minor_units actual)
    | Some j \<Rightarrow> json_get j ''kind'' = Some (JString (kind e))
        \<and> json_get j ''message'' = Some (JString (message e)))"
proof (cases e)
  case (CostLimitExceeded limit actual)
  then show ?thesis
    by (auto simp: error_object_def json_get_object money_to_json_def json_i128_def
        simp del: json_object_get split: option.splits)
qed (simp_all add: error_object_def json_get_object del: json_object_get)

end
