(* ===== verification/Cost.thy ===== *)
theory Cost
  imports Runtime_Types
begin

text \<open>
  The tenant guard (\<open>tenant.rs\<close>) and the cost ledger (\<open>cost.rs\<close>): per currency, what
  has been spent, the list of charges, and a stack of budget scopes, each with limits and the
  amounts already spent when it was opened. Totals are \<open>i128\<close>, added with a checked
  addition and compared after a saturating subtraction.
\<close>

section \<open>Tenant guard\<close>

datatype tenant_isolation_mode = Strict | Disabled

record tenant_guard = mode :: tenant_isolation_mode

definition enabled :: "tenant_isolation_mode \<Rightarrow> bool" where
  "enabled m = (case m of Strict \<Rightarrow> True | Disabled \<Rightarrow> False)"

definition strict :: tenant_guard where "strict = \<lparr>mode = Strict\<rparr>"
definition disabled :: tenant_guard where "disabled = \<lparr>mode = Disabled\<rparr>"

definition ensure_access :: "tenant_guard \<Rightarrow> security_context \<Rightarrow> string \<Rightarrow> runtime_error + unit" where
  "ensure_access g ctx resource_tenant =
     (if \<not> enabled (mode g) \<or> tenant ctx = resource_tenant then Ok ()
      else Err (TenantIsolationViolation (tenant ctx) resource_tenant))"

lemma ensure_access_Ok [result_simps]:
  "ensure_access g ctx t = Ok u \<longleftrightarrow> \<not> enabled (mode g) \<or> tenant ctx = t"
  by (simp add: ensure_access_def)

lemma ensure_access_strict: "ensure_access strict ctx t = Ok () \<longleftrightarrow> tenant ctx = t"
  by (simp add: ensure_access_def strict_def enabled_def)

section \<open>Cost ledger\<close>

record cost_dimensions =
  dim_connector :: "string option"
  dim_model :: "string option"
  dim_workflow :: "string option"
  dim_route :: "string option"
  dim_request_id :: "string option"
  dim_correlation_id :: "string option"
  dim_actor :: "string option"
  dim_tenant :: "string option"

definition no_dimensions :: cost_dimensions where
  "no_dimensions = \<lparr>dim_connector = None, dim_model = None, dim_workflow = None, dim_route = None,
     dim_request_id = None, dim_correlation_id = None, dim_actor = None, dim_tenant = None\<rparr>"

record cost_entry =
  action :: string
  amount :: money
  dimensions :: cost_dimensions
  recorded_at_unix_ms :: "int option"

definition action_charge :: "string \<Rightarrow> money \<Rightarrow> cost_entry" where
  "action_charge act amt =
     \<lparr>action = act, amount = amt, dimensions = no_dimensions, recorded_at_unix_ms = None\<rparr>"

record budget_scope =
  limits :: "string \<rightharpoonup> int"
  baseline :: "string \<rightharpoonup> int"

record cost_ledger =
  spent_in :: "string \<rightharpoonup> int"
  entries :: "cost_entry list"
  budget_scopes :: "budget_scope list"

definition new_ledger :: cost_ledger where
  "new_ledger = \<lparr>spent_in = Map.empty, entries = [], budget_scopes = []\<rparr>"

definition set_budget :: "money \<Rightarrow> cost_ledger \<Rightarrow> cost_ledger" where
  "set_budget budget l =
     (let scopes = (if budget_scopes l = [] then [\<lparr>limits = Map.empty, baseline = Map.empty\<rparr>]
                    else budget_scopes l);
          first = hd scopes
      in l\<lparr>budget_scopes :=
             first\<lparr>limits := (limits first)(currency budget \<mapsto> minor_units budget)\<rparr> # tl scopes\<rparr>)"

definition with_budget :: "money \<Rightarrow> cost_ledger \<Rightarrow> cost_ledger" where
  "with_budget budget l = set_budget budget l"

definition push_budget_scope :: "string \<Rightarrow> money \<Rightarrow> cost_ledger \<Rightarrow> cost_ledger" where
  "push_budget_scope name budget l =
     l\<lparr>budget_scopes := budget_scopes l
          @ [\<lparr>limits = [currency budget \<mapsto> minor_units budget], baseline = spent_in l\<rparr>]\<rparr>"

definition pop_budget_scope :: "cost_ledger \<Rightarrow> cost_ledger" where
  "pop_budget_scope l = l\<lparr>budget_scopes := butlast (budget_scopes l)\<rparr>"

definition active_budget_scopes :: "cost_ledger \<Rightarrow> nat" where
  "active_budget_scopes l = length (budget_scopes l)"

text \<open>The scopes are checked from the outermost to the innermost; a scope without a limit in
  the currency is passed over.\<close>

fun check_budget_scopes :: "budget_scope list \<Rightarrow> string \<Rightarrow> int \<Rightarrow> runtime_error + unit" where
  "check_budget_scopes [] cur next_total = Ok ()"
| "check_budget_scopes (scope # scopes) cur next_total =
     (case limits scope cur of
        None \<Rightarrow> check_budget_scopes scopes cur next_total
      | Some limit \<Rightarrow>
          (let base = unwrap_or 0 (baseline scope cur);
               scoped_actual = saturate i128_min i128_max (next_total - base)
           in if limit < scoped_actual
              then Err (CostLimitExceeded \<lparr>minor_units = limit, currency = cur\<rparr>
                          \<lparr>minor_units = scoped_actual, currency = cur\<rparr>)
              else check_budget_scopes scopes cur next_total))"

definition overflow_error :: "string \<Rightarrow> runtime_error" where
  "overflow_error cur = Storage (''cost ledger overflow for currency '' @ cur)"

definition authorize :: "cost_ledger \<Rightarrow> money \<Rightarrow> runtime_error + unit" where
  "authorize l amt =
     (case checked i128_min i128_max (unwrap_or 0 (spent_in l (currency amt)) + minor_units amt) of
        None \<Rightarrow> Err (overflow_error (currency amt))
      | Some next_total \<Rightarrow> check_budget_scopes (budget_scopes l) (currency amt) next_total)"

definition charge :: "string \<Rightarrow> money \<Rightarrow> (cost_ledger, runtime_error, unit) stm" where
  "charge act amt l =
     (case checked i128_min i128_max (unwrap_or 0 (spent_in l (currency amt)) + minor_units amt) of
        None \<Rightarrow> (Err (overflow_error (currency amt)), l)
      | Some next_total \<Rightarrow>
          (case check_budget_scopes (budget_scopes l) (currency amt) next_total of
             Inl e \<Rightarrow> (Err e, l)
           | Inr _ \<Rightarrow>
               (Ok (), l\<lparr>spent_in := (spent_in l)(currency amt \<mapsto> next_total),
                         entries := entries l @ [action_charge act amt]\<rparr>)))"

definition spent :: "cost_ledger \<Rightarrow> string \<Rightarrow> money" where
  "spent l cur = \<lparr>minor_units = unwrap_or 0 (spent_in l cur), currency = cur\<rparr>"

lemma action_charge_simps [simp]: "amount (action_charge a m) = m" "action (action_charge a m) = a"
  by (simp_all add: action_charge_def)

section \<open>Authorising and charging\<close>

text \<open>\<open>charge\<close> accepts exactly what \<open>authorize\<close> accepts and reports the same error
  otherwise; a refused charge leaves the ledger as it was, an accepted one adds the amount to
  the total of its currency, leaves every other currency alone and appends one entry.\<close>

theorem charge_authorized:
  "charge act amt l =
     (case authorize l amt of
        Inl e \<Rightarrow> (Err e, l)
      | Inr _ \<Rightarrow> (Ok (), l\<lparr>
          spent_in := (spent_in l)(currency amt \<mapsto>
                         minor_units (spent l (currency amt)) + minor_units amt),
          entries := entries l @ [action_charge act amt]\<rparr>))"
  by (auto simp: charge_def authorize_def spent_def checked_def split: sum.splits)

text \<open>Which charges the scopes allow, and the ledgers that the operations reach.\<close>

definition scope_allows :: "string \<Rightarrow> int \<Rightarrow> budget_scope \<Rightarrow> bool" where
  "scope_allows cur tot scope \<longleftrightarrow>
     (\<forall>limit. limits scope cur = Some limit \<longrightarrow>
        saturate i128_min i128_max (tot - unwrap_or 0 (baseline scope cur)) \<le> limit)"

lemma check_budget_scopes_Ok [result_simps]:
  "check_budget_scopes scopes cur tot = Ok u \<longleftrightarrow> list_all (scope_allows cur tot) scopes"
  by (induction scopes) (auto simp: scope_allows_def Let_def split: option.splits)

lemma charge_Ok [result_simps]:
  "charge act amt l = (Ok u, l') \<longleftrightarrow>
     (let tot = unwrap_or 0 (spent_in l (currency amt)) + minor_units amt in
        i128_min \<le> tot \<and> tot \<le> i128_max
        \<and> list_all (scope_allows (currency amt) tot) (budget_scopes l)
        \<and> l' = l\<lparr>spent_in := (spent_in l)(currency amt \<mapsto> tot),
                  entries := entries l @ [action_charge act amt]\<rparr>)"
proof -
  let ?tot = "unwrap_or 0 (spent_in l (currency amt)) + minor_units amt"
  show ?thesis
    using check_budget_scopes_Ok [of "budget_scopes l" "currency amt" ?tot "()"]
    by (cases "check_budget_scopes (budget_scopes l) (currency amt) ?tot")
      (auto simp: charge_def checked_def Let_def)
qed

lemma charge_cases [case_names refused accepted]:
  obtains e where "snd (charge act amt l) = l" "fst (charge act amt l) = Err e"
  | tot where "tot = unwrap_or 0 (spent_in l (currency amt)) + minor_units amt"
      "i128_min \<le> tot" "tot \<le> i128_max"
      "list_all (scope_allows (currency amt) tot) (budget_scopes l)"
      "snd (charge act amt l) = l\<lparr>spent_in := (spent_in l)(currency amt \<mapsto> tot),
                  entries := entries l @ [action_charge act amt]\<rparr>"
      "fst (charge act amt l) = Ok ()"
proof (cases "charge act amt l")
  case (Pair r l')
  show ?thesis
  proof (cases r)
    case (Inl e)
    with Pair have "l' = l" by (auto simp: charge_def split: option.splits sum.splits)
    with Pair Inl that(1) show ?thesis by simp
  next
    case (Inr u)
    with Pair have "charge act amt l = (Ok u, l')" by simp
    from this [unfolded charge_Ok Let_def] Pair Inr show ?thesis
      by (intro that(2) [OF refl]) simp_all
  qed
qed

inductive ledger_reachable :: "cost_ledger \<Rightarrow> bool" where
  new: "ledger_reachable new_ledger"
| budget: "ledger_reachable l \<Longrightarrow> ledger_reachable (set_budget b l)"
| push: "ledger_reachable l \<Longrightarrow> ledger_reachable (push_budget_scope n b l)"
| pop: "ledger_reachable l \<Longrightarrow> ledger_reachable (pop_budget_scope l)"
| charge: "ledger_reachable l \<Longrightarrow> ledger_reachable (snd (charge act amt l))"

definition charged :: "string \<Rightarrow> cost_entry list \<Rightarrow> int" where
  "charged cur es = (\<Sum>e \<leftarrow> es. if currency (amount e) = cur then minor_units (amount e) else 0)"

lemma charged_simps [simp]:
  "charged cur [] = 0"
  "charged cur (es @ fs) = charged cur es + charged cur fs"
  "charged cur (e # es) = (if currency (amount e) = cur then minor_units (amount e) else 0) + charged cur es"
  by (simp_all add: charged_def)

definition ledger_inv :: "cost_ledger \<Rightarrow> bool" where
  "ledger_inv l \<longleftrightarrow> (\<forall>cur. unwrap_or 0 (spent_in l cur) = charged cur (entries l)
     \<and> i128_min \<le> charged cur (entries l) \<and> charged cur (entries l) \<le> i128_max)"

lemma ledger_inv_cong:
  "spent_in l' = spent_in l \<Longrightarrow> entries l' = entries l \<Longrightarrow> ledger_inv l' = ledger_inv l"
  by (simp add: ledger_inv_def)

lemma ledger_inv_charge: "ledger_inv l \<Longrightarrow> ledger_inv (snd (charge act amt l))"
  by (cases rule: charge_cases [of act amt l]) (auto simp: ledger_inv_def)

lemma ledger_totals_inv: "ledger_reachable l \<Longrightarrow> ledger_inv l"
proof (induction rule: ledger_reachable.induct)
  case new
  show ?case by (simp add: ledger_inv_def new_ledger_def)
next
  case (charge l act amt)
  then show ?case by (simp add: ledger_inv_charge)
qed (simp_all add: ledger_inv_cong [of "set_budget _ _"] ledger_inv_cong [of "push_budget_scope _ _ _"]
    ledger_inv_cong [of "pop_budget_scope _"] set_budget_def push_budget_scope_def
    pop_budget_scope_def Let_def ledger_inv_def)

text \<open>C36: in every ledger that the operations build, whatever the budgets, the total of a
  currency is the sum of its entries and fits an \<open>i128\<close>.\<close>

theorem ledger_totals:
  assumes "ledger_reachable l"
  shows "minor_units (spent l cur) = charged cur (entries l)
    \<and> i128_min \<le> charged cur (entries l) \<and> charged cur (entries l) \<le> i128_max"
  using ledger_totals_inv [OF assms] by (simp add: ledger_inv_def spent_def)

abbreviation "eur n \<equiv> \<lparr>minor_units = n, currency = ''EUR''\<rparr>"

theorem ledger_totals_witness:
  "minor_units (spent (snd (charge ''a'' (eur 5) new_ledger)) ''EUR'') = 5"
  using ledger_totals [OF ledger_reachable.charge [OF ledger_reachable.new, of "''a''" "eur 5"], of "''EUR''"]
  by (simp add: charge_def checked_def new_ledger_def)

section \<open>Budgets\<close>

text \<open>What may happen while the scope at position \<open>d\<close> is open: charges, each of which may be refused,
  scopes that are opened and closed inside, and, when \<open>d\<close> is not the outermost scope, a new limit for
  that one.\<close>

inductive under_scope :: "nat \<Rightarrow> cost_ledger \<Rightarrow> cost_ledger \<Rightarrow> bool" for d l where
  opened: "under_scope d l l"
| charged: "under_scope d l l' \<Longrightarrow> under_scope d l (snd (charge act amt l'))"
| pushed: "under_scope d l l' \<Longrightarrow> under_scope d l (push_budget_scope n b l')"
| popped: "under_scope d l l' \<Longrightarrow> Suc d < active_budget_scopes l' \<Longrightarrow> under_scope d l (pop_budget_scope l')"
| limited: "under_scope d l l' \<Longrightarrow> 0 < d \<Longrightarrow> under_scope d l (set_budget b l')"

lemma charge_keeps_scopes [simp]: "budget_scopes (snd (charge act amt l)) = budget_scopes l"
  by (simp add: charge_def split: option.splits sum.splits)

lemma scope_operations [simp]:
  "entries (push_budget_scope n b l) = entries l" "spent_in (push_budget_scope n b l) = spent_in l"
  "entries (pop_budget_scope l) = entries l" "spent_in (pop_budget_scope l) = spent_in l"
  "entries (set_budget b l) = entries l" "spent_in (set_budget b l) = spent_in l"
  by (simp_all add: push_budget_scope_def pop_budget_scope_def set_budget_def Let_def)

lemma set_budget_scope:
  "0 < d \<Longrightarrow> d < length (budget_scopes l) \<Longrightarrow>
     budget_scopes (set_budget b l) ! d = budget_scopes l ! d \<and> d < length (budget_scopes (set_budget b l))"
  by (cases "budget_scopes l") (auto simp: set_budget_def Let_def nth_Cons')

text \<open>The scope stays where it is, entries are only added, and every one that is accepted was allowed
  by the scope.\<close>

lemma under_scope_law:
  assumes "under_scope d l l'" and "ledger_inv l" and "d < length (budget_scopes l)"
  obtains es where "entries l' = entries l @ es" "ledger_inv l'" "d < length (budget_scopes l')"
    "budget_scopes l' ! d = budget_scopes l ! d"
proof -
  have "ledger_inv l' \<and> d < length (budget_scopes l') \<and> budget_scopes l' ! d = budget_scopes l ! d
      \<and> (\<exists>es. entries l' = entries l @ es)"
    using assms
  proof induction
    case (charged l' act amt)
    then show ?case
      using ledger_inv_charge [of l' act amt] by (cases rule: charge_cases [of act amt l']) auto
  next
    case (pushed l' n b)
    then show ?case
      using ledger_inv_cong [of "push_budget_scope n b l'" l']
      by (auto simp: push_budget_scope_def nth_append)
  next
    case (popped l')
    then show ?case
      using ledger_inv_cong [of "pop_budget_scope l'" l']
      by (auto simp: pop_budget_scope_def active_budget_scopes_def nth_butlast)
  next
    case (limited l' b)
    then show ?case
      using ledger_inv_cong [of "set_budget b l'" l'] set_budget_scope [of d l' b] by auto
  qed simp
  then show ?thesis using that by blast
qed

text \<open>C35: a budget scope bounds what is spent under it: while it is open, whatever charges are tried,
  whatever scopes are opened and closed inside, and whatever limit the outermost scope is given
  (if it is another one), the charges accepted in its currency since it was opened add up to at
  most its budget (or there are none). The budget is less than the largest \<open>i128\<close>: under that one, after
  negative charges, the subtraction of the check saturates and more is accepted.\<close>

theorem budget_scope_respected:
  assumes "ledger_reachable l" and "minor_units b < i128_max"
    and "under_scope (active_budget_scopes l) (push_budget_scope n b l) l'" and "entries l' = entries l @ es"
  shows "charged (currency b) es \<le> minor_units b \<or> (\<forall>e \<in> set es. currency (amount e) \<noteq> currency b)"
  using assms(3,4)
proof (induction arbitrary: es)
  let ?p = "push_budget_scope n b l" and ?cur = "currency b" and ?d = "active_budget_scopes l"
  let ?scope = "\<lparr>limits = [?cur \<mapsto> minor_units b], baseline = spent_in l\<rparr>"
  case (charged l1 act amt)
  have p: "ledger_inv ?p" "?d < length (budget_scopes ?p)" "budget_scopes ?p ! ?d = ?scope"
    using ledger_totals_inv [OF assms(1)] ledger_inv_cong [of ?p l]
    by (simp_all add: active_budget_scopes_def push_budget_scope_def)
  obtain es1 where l1: "entries l1 = entries l @ es1" "ledger_inv l1" "?d < length (budget_scopes l1)"
    "budget_scopes l1 ! ?d = ?scope"
    by (rule under_scope_law [OF charged.hyps p(1,2)]) (simp add: p(3))
  note IH = charged.IH [OF l1(1)]
  show ?case
  proof (cases rule: charge_cases [of act amt l1])
    case (refused e)
    with charged.prems l1(1) IH show ?thesis by simp
  next
    case (accepted tot)
    have es: "es = es1 @ [action_charge act amt]" using accepted(5) charged.prems l1(1) by simp
    show ?thesis
    proof (cases "currency amt = ?cur")
      case False
      with IH es show ?thesis by auto
    next
      case True
      have "unwrap_or 0 (spent_in l ?cur) = charged ?cur (entries l)"
        using ledger_totals_inv [OF assms(1)] by (simp add: ledger_inv_def)
      moreover have "tot = charged ?cur (entries l) + charged ?cur es1 + minor_units amt"
        using l1(1,2) True accepted(1) by (simp add: ledger_inv_def)
      moreover have "scope_allows ?cur tot ?scope"
        using accepted(4) l1(3,4) True by (metis list_all_length)
      ultimately have "charged ?cur es1 + minor_units amt \<le> minor_units b"
        using assms(2) by (auto simp: scope_allows_def saturate_def split: if_splits)
      then show ?thesis using es True by simp
    qed
  qed
qed simp_all

text \<open>A charge of 7 and one of 4 that is refused, with a scope that is opened and closed in between.\<close>

theorem budget_scope_respected_witness:
  "charged ''EUR'' [action_charge ''a'' (eur 7)] \<le> 10"
proof -
  let ?p = "push_budget_scope ''t'' (eur 10) new_ledger"
  let ?l1 = "push_budget_scope ''u'' (eur 8) (snd (charge ''a'' (eur 7) ?p))"
  let ?l2 = "snd (charge ''b'' (eur 4) (pop_budget_scope ?l1))"
  have "under_scope (active_budget_scopes new_ledger) ?p ?l2"
    by (intro under_scope.charged under_scope.popped under_scope.pushed under_scope.opened)
      (simp add: active_budget_scopes_def push_budget_scope_def new_ledger_def)
  moreover have "entries ?l2 = entries new_ledger @ [action_charge ''a'' (eur 7)]"
    by (simp add: charge_def checked_def new_ledger_def push_budget_scope_def pop_budget_scope_def saturate_def Let_def)
  ultimately show ?thesis
    using budget_scope_respected [OF ledger_reachable.new, of "eur 10" "''t''" ?l2 "[action_charge ''a'' (eur 7)]"]
    by simp
qed

text \<open>Under the largest budget the saturating subtraction accepts any charge, once the total was negative.\<close>

lemma saturated_budget_exceeded:
  "fst (charge ''b'' (eur (i128_max - 1)) (snd (charge ''a'' (eur 5)
       (push_budget_scope ''t'' (eur i128_max) (snd (charge ''r'' (eur (-5)) new_ledger)))))) = Ok ()"
  by (simp add: charge_def checked_def new_ledger_def push_budget_scope_def saturate_def Let_def)

end
