(* ===== verification/File_System.thy ===== *)
theory File_System
  imports Runtime_Types
begin

text \<open>
  What the runtime uses of \<open>std::fs\<close>, \<open>std::path\<close> and \<open>std::time\<close>: a world with
  files, directories, a clock and a script of failures. A path is its list of components; the
  content of a file is the list of the byte chunks written to it, so that appending a line
  keeps the earlier ones apart. The files are listed in the order in which \<open>read_dir\<close>
  returns them, which is any order.

  Every operation takes the next entry of the failure script: an entry can make it fail with an
  error and no effect, and a write can also fail and leave a partial content behind. Where the
  script is used up, operations fail only for the reasons the documentation gives (a missing
  file or parent directory). The clock is any function from the number of readings to
  nanoseconds since the epoch.
\<close>

type_synonym path = "string list"

datatype error_kind = NotFound | OtherError

record io_error =
  io_kind :: error_kind
  io_message :: string

datatype 'b fault = NoFault | Fault io_error | PartialFault io_error "'b list"

record 'b world =
  files :: "(path \<times> 'b list) list"
  dirs :: "path list"
  faults :: "'b fault list"
  clock :: "nat \<Rightarrow> system_time"
  ticks :: nat

type_synonym ('b, 'a) io = "('b world, io_error, 'a) stm"

section \<open>Operations\<close>

definition next_fault :: "'b world \<Rightarrow> 'b fault \<times> 'b world" where
  "next_fault w = (case faults w of [] \<Rightarrow> (NoFault, w) | f # fs \<Rightarrow> (f, w\<lparr>faults := fs\<rparr>))"

definition attempt :: "('b list \<Rightarrow> 'b world \<Rightarrow> 'b world) \<Rightarrow> ('b, 'a) io \<Rightarrow> ('b, 'a) io" where
  "attempt partial m w =
     (case next_fault w of
        (NoFault, w') \<Rightarrow> m w'
      | (Fault e, w') \<Rightarrow> (Err e, w')
      | (PartialFault e left, w') \<Rightarrow> (Err e, partial left w'))"

definition not_found :: "path \<Rightarrow> io_error" where
  "not_found p = \<lparr>io_kind = NotFound, io_message = ''No such file or directory (os error 2)''\<rparr>"

definition other_error :: "string \<Rightarrow> io_error" where
  "other_error msg = \<lparr>io_kind = OtherError, io_message = msg\<rparr>"

definition is_dir :: "'b world \<Rightarrow> path \<Rightarrow> bool" where
  "is_dir w p \<longleftrightarrow> p = [] \<or> p \<in> set (dirs w)"

definition file_content :: "'b world \<Rightarrow> path \<Rightarrow> 'b list option" where
  "file_content w p = map_of (files w) p"

definition path_exists :: "path \<Rightarrow> 'b world \<Rightarrow> bool" where
  "path_exists p w \<longleftrightarrow> is_dir w p \<or> file_content w p \<noteq> None"

text \<open>Setting the content keeps the position in the listing; a new file comes last.\<close>

fun put_file :: "path \<Rightarrow> 'c \<Rightarrow> (path \<times> 'c) list \<Rightarrow> (path \<times> 'c) list" where
  "put_file p c [] = [(p, c)]"
| "put_file p c ((q, d) # fs) = (if p = q then (p, c) # fs else (q, d) # put_file p c fs)"

definition drop_file :: "path \<Rightarrow> (path \<times> 'c) list \<Rightarrow> (path \<times> 'c) list" where
  "drop_file p fs = filter (\<lambda>(q, _). q \<noteq> p) fs"

definition prefixes_of :: "path \<Rightarrow> path list" where
  "prefixes_of p = map (\<lambda>n. take n p) [1..<Suc (length p)]"

definition create_dir_all :: "path \<Rightarrow> ('b, unit) io" where
  "create_dir_all p = attempt (\<lambda>_ w. w) (\<lambda>w.
     if list_ex (\<lambda>q. file_content w q \<noteq> None) (prefixes_of p)
     then (Err (other_error ''File exists (os error 17)''), w)
     else (Ok (), w\<lparr>dirs := dirs w @ filter (\<lambda>q. q \<notin> set (dirs w)) (prefixes_of p)\<rparr>))"

definition fs_read :: "path \<Rightarrow> ('b, 'b list) io" where
  "fs_read p = attempt (\<lambda>_ w. w) (\<lambda>w.
     case file_content w p of None \<Rightarrow> (Err (not_found p), w) | Some c \<Rightarrow> (Ok c, w))"

definition fs_write :: "path \<Rightarrow> 'b \<Rightarrow> ('b, unit) io" where
  "fs_write p b =
     attempt (\<lambda>left w. if is_dir w (butlast p) \<and> \<not> is_dir w p
                       then w\<lparr>files := put_file p left (files w)\<rparr> else w)
       (\<lambda>w. if is_dir w p then (Err (other_error ''Is a directory (os error 21)''), w)
            else if \<not> is_dir w (butlast p) then (Err (not_found p), w)
            else (Ok (), w\<lparr>files := put_file p [b] (files w)\<rparr>))"

definition content_or_empty :: "'b world \<Rightarrow> path \<Rightarrow> 'b list" where
  "content_or_empty w p = (case file_content w p of None \<Rightarrow> [] | Some c \<Rightarrow> c)"

definition fs_append :: "path \<Rightarrow> 'b \<Rightarrow> ('b, unit) io" where
  "fs_append p b =
     attempt (\<lambda>left w. if is_dir w (butlast p) \<and> \<not> is_dir w p
                       then w\<lparr>files := put_file p (content_or_empty w p @ left) (files w)\<rparr> else w)
       (\<lambda>w. if is_dir w p then (Err (other_error ''Is a directory (os error 21)''), w)
            else if \<not> is_dir w (butlast p) then (Err (not_found p), w)
            else (Ok (), w\<lparr>files := put_file p (content_or_empty w p @ [b]) (files w)\<rparr>))"

text \<open>Opening a file for appending creates it.\<close>

definition fs_open_append :: "path \<Rightarrow> ('b, unit) io" where
  "fs_open_append p = attempt (\<lambda>_ w. w) (\<lambda>w.
     if is_dir w p then (Err (other_error ''Is a directory (os error 21)''), w)
     else if \<not> is_dir w (butlast p) then (Err (not_found p), w)
     else (Ok (), w\<lparr>files := put_file p (content_or_empty w p) (files w)\<rparr>))"

definition fs_rename :: "path \<Rightarrow> path \<Rightarrow> ('b, unit) io" where
  "fs_rename p q = attempt (\<lambda>_ w. w) (\<lambda>w.
     case file_content w p of
       None \<Rightarrow> (Err (not_found p), w)
     | Some c \<Rightarrow>
         if is_dir w q then (Err (other_error ''Is a directory (os error 21)''), w)
         else if \<not> is_dir w (butlast q) then (Err (not_found q), w)
         else (Ok (), w\<lparr>files := put_file q c (if p = q then files w else drop_file p (files w))\<rparr>))"

definition fs_remove_file :: "path \<Rightarrow> ('b, unit) io" where
  "fs_remove_file p = attempt (\<lambda>_ w. w) (\<lambda>w.
     case file_content w p of
       None \<Rightarrow> (Err (not_found p), w)
     | Some _ \<Rightarrow> (Ok (), w\<lparr>files := drop_file p (files w)\<rparr>))"

text \<open>\<open>read_dir\<close> yields a result for each entry: an entry of the failure script is used up
  by the call itself and by every entry of the directory.\<close>

definition children :: "path \<Rightarrow> 'b world \<Rightarrow> path list" where
  "children d w = filter (\<lambda>p. p \<noteq> [] \<and> butlast p = d) (map fst (files w) @ dirs w)"

fun read_entries :: "path list \<Rightarrow> 'b world \<Rightarrow> (io_error + path) list \<times> 'b world" where
  "read_entries [] w = ([], w)"
| "read_entries (p # ps) w =
     (case next_fault w of (f, w') \<Rightarrow>
        (case read_entries ps w' of (rs, w'') \<Rightarrow>
           ((case f of NoFault \<Rightarrow> Ok p | Fault e \<Rightarrow> Err e | PartialFault e _ \<Rightarrow> Err e) # rs, w'')))"

definition read_dir :: "path \<Rightarrow> ('b, (io_error + path) list) io" where
  "read_dir d = attempt (\<lambda>_ w. w) (\<lambda>w.
     if \<not> is_dir w d then (Err (not_found d), w)
     else (case read_entries (children d w) w of (rs, w') \<Rightarrow> (Ok rs, w')))"

definition read_clock :: "'b world \<Rightarrow> ('e + system_time) \<times> 'b world" where
  "read_clock w = (Ok (clock w (ticks w)), w\<lparr>ticks := Suc (ticks w)\<rparr>)"

text \<open>\<open>map_storage\<close>: any I/O error becomes a storage error with its message.\<close>

definition storage_io :: "('b, 'a) io \<Rightarrow> ('b world, runtime_error, 'a) stm" where
  "storage_io m w = (case m w of (r, w') \<Rightarrow> (map_err (\<lambda>e. Storage (io_message e)) r, w'))"

definition storage_result :: "string + 'a \<Rightarrow> runtime_error + 'a" where
  "storage_result r = map_err Storage r"

section \<open>Paths and times\<close>

text \<open>\<open>Path::extension\<close>: what follows the last dot of the file name, unless that dot begins
  the name. \<open>with_extension\<close> replaces it, or adds one.\<close>

definition split_extension :: "string \<Rightarrow> string \<times> string option" where
  "split_extension name =
     (let ext = rev (takeWhile (\<lambda>c. c \<noteq> CHR ''.'') (rev name));
          stem = butlast (take (length name - length ext) name)
      in if name = ''..'' \<or> CHR ''.'' \<notin> set name \<or> stem = [] then (name, None)
         else (stem, Some ext))"

definition file_extension :: "path \<Rightarrow> string option" where
  "file_extension p = (if p = [] then None else snd (split_extension (last p)))"

definition with_extension :: "string \<Rightarrow> path \<Rightarrow> path" where
  "with_extension ext p = butlast p @ [fst (split_extension (last p)) @ ''.'' @ ext]"

text \<open>\<open>duration_since(UNIX_EPOCH)\<close> in milliseconds and nanoseconds, zero before the epoch.\<close>

definition system_time_ms :: "system_time \<Rightarrow> nat" where
  "system_time_ms t = min u64_max (nat t div 1000000)"

definition system_time_ns :: "system_time \<Rightarrow> nat" where
  "system_time_ns t = nat t"

definition system_time_from_ms :: "nat \<Rightarrow> system_time" where
  "system_time_from_ms ms = int ms * 1000000"

text \<open>\<open>safe_file_id\<close>: every character that is not alphanumeric, a dash, an underscore or a
  dot becomes an underscore.\<close>

definition safe_char :: "char \<Rightarrow> bool" where
  "safe_char c \<longleftrightarrow> is_ascii_alphanumeric c \<or> c = CHR ''-'' \<or> c = CHR ''_'' \<or> c = CHR ''.''"

definition safe_file_id :: "string \<Rightarrow> string" where
  "safe_file_id s = concat (map (\<lambda>ch. if length ch = 1 \<and> safe_char (hd ch) then ch else ''_'') (chars s))"

section \<open>Laws\<close>

lemma put_file_lookup [simp]:
  "map_of (put_file p c fs) q = (if q = p then Some c else map_of fs q)"
  by (induction fs) auto

lemma drop_file_lookup [simp]:
  "map_of (drop_file p fs) q = (if q = p then None else map_of fs q)"
  by (induction fs) (auto simp: drop_file_def)

lemma put_file_keys: "fst ` set (put_file p c fs) = insert p (fst ` set fs)"
proof (induction fs)
  case (Cons f fs)
  then show ?case by (cases f) auto
qed simp

lemma put_file_distinct [simp]:
  "distinct (map fst fs) \<Longrightarrow> distinct (map fst (put_file p c fs))"
  by (induction fs) (auto simp: put_file_keys)

lemma drop_file_distinct [simp]: "distinct (map fst fs) \<Longrightarrow> distinct (map fst (drop_file p fs))"
  by (induction fs) (auto simp: drop_file_def)

lemma attempt_no_fault [simp]: "faults w = [] \<Longrightarrow> attempt partial m w = m w"
  by (simp add: attempt_def next_fault_def)

lemma read_entries_no_fault [simp]: "faults w = [] \<Longrightarrow> read_entries ps w = (map Ok ps, w)"
  by (induction ps) (simp_all add: next_fault_def)

lemma split_extension_dot:
  assumes "stem \<noteq> []" and "CHR ''.'' \<notin> set ext" and "ext \<noteq> []"
  shows "split_extension (stem @ ''.'' @ ext) = (stem, Some ext)"
proof -
  have "takeWhile (\<lambda>c. c \<noteq> CHR ''.'') (rev ext @ CHR ''.'' # rev stem) = rev ext"
    using assms(2) by (subst takeWhile_append2) auto
  moreover have "stem @ ''.'' @ ext \<noteq> ''..''"
    using assms by (auto simp: append_eq_Cons_conv)
  ultimately show ?thesis using assms by (simp add: split_extension_def Let_def)
qed

lemma file_extension_dot:
  "stem \<noteq> [] \<Longrightarrow> CHR ''.'' \<notin> set ext \<Longrightarrow> ext \<noteq> [] \<Longrightarrow> file_extension (d @ [stem @ ''.'' @ ext]) = Some ext"
  using split_extension_dot [of stem ext] by (simp add: file_extension_def)

lemma with_extension_dot:
  "stem \<noteq> [] \<Longrightarrow> CHR ''.'' \<notin> set ext \<Longrightarrow> ext \<noteq> [] \<Longrightarrow>
     with_extension ext' (d @ [stem @ ''.'' @ ext]) = d @ [stem @ ''.'' @ ext']"
  using split_extension_dot [of stem ext] by (simp add: with_extension_def)

lemma system_time_ms_le [simp]:
  "system_time_ms t \<le> u64_max" "system_time_ms t \<le> 18446744073709551615"
  by (simp_all add: system_time_ms_def)

lemma system_time_ms_from_ms [simp]: "ms \<le> u64_max \<Longrightarrow> system_time_ms (system_time_from_ms ms) = ms"
  by (simp add: system_time_ms_def system_time_from_ms_def nat_mult_distrib)

lemma safe_file_id_safe: "list_all safe_char (safe_file_id s)"
proof -
  have "list_all safe_char (concat (map (\<lambda>ch. if length ch = 1 \<and> safe_char (hd ch) then ch else ''_'') xs))"
    for xs
    by (induction xs) (auto simp: length_Suc_conv, simp_all add: safe_char_def)
  then show ?thesis by (simp add: safe_file_id_def)
qed

lemma safe_file_id_id: "list_all safe_char s \<Longrightarrow> safe_file_id s = s"
proof -
  assume a: "list_all safe_char s"
  then have "list_all is_ascii s" by (auto simp: list_all_iff safe_char_def ascii_defs)
  then have "safe_file_id s = concat (map (\<lambda>c. if safe_char c then [c] else ''_'') s)"
    by (simp add: safe_file_id_def chars_ascii comp_def cong: if_cong)
  also have "\<dots> = s" using a by (induction s) auto
  finally show ?thesis .
qed

section \<open>Replacing a file\<close>

text \<open>\<open>fs::write(&temp, bytes)?; fs::rename(temp, path)\<close>.\<close>

definition write_then_rename :: "path \<Rightarrow> path \<Rightarrow> 'b \<Rightarrow> ('b world, runtime_error, unit) stm" where
  "write_then_rename temp p b = rbind (storage_io (fs_write temp b)) (\<lambda>_. storage_io (fs_rename temp p))"

lemma file_content_update [simp]:
  "file_content (w\<lparr>dirs := ds\<rparr>) q = file_content w q"
  "file_content (w\<lparr>ticks := n\<rparr>) q = file_content w q"
  "file_content (w\<lparr>faults := fs\<rparr>) q = file_content w q"
  "file_content (w\<lparr>files := put_file p c (files w)\<rparr>) q = (if q = p then Some c else file_content w q)"
  "file_content (w\<lparr>files := drop_file p (files w)\<rparr>) q = (if q = p then None else file_content w q)"
  "file_content (w\<lparr>files := put_file p c (drop_file r (files w))\<rparr>) q
     = (if q = p then Some c else if q = r then None else file_content w q)"
  by (simp_all add: file_content_def)

lemma is_dir_update [simp]:
  "is_dir (w\<lparr>files := fs\<rparr>) q = is_dir w q"
  "is_dir (w\<lparr>ticks := n\<rparr>) q = is_dir w q"
  "is_dir (w\<lparr>faults := ft\<rparr>) q = is_dir w q"
  by (simp_all add: is_dir_def)

lemma write_then_rename_ok:
  assumes "faults w = []" and "butlast temp = butlast p" and "temp \<noteq> p"
    and "is_dir w (butlast p)" and "\<not> is_dir w p" and "\<not> is_dir w temp"
  obtains w' where "write_then_rename temp p b w = (Ok (), w')"
    "\<And>q. file_content w' q = (if q = p then Some [b] else if q = temp then None else file_content w q)"
    "dirs w' = dirs w" "faults w' = []" "ticks w' = ticks w" "clock w' = clock w"
proof -
  let ?w' = "w\<lparr>files := put_file p [b] (drop_file temp (put_file temp [b] (files w)))\<rparr>"
  have "write_then_rename temp p b w = (Ok (), ?w')"
    using assms by (simp add: write_then_rename_def rbind_def storage_io_def fs_write_def fs_rename_def)
  then show ?thesis
    by (rule that) (use assms in \<open>auto simp: file_content_def\<close>)
qed

text \<open>Creating a directory changes nothing else, and it does not fail where no file is in the
  way.\<close>

lemma create_dir_all_ok:
  assumes "faults w = []" and "\<forall>q \<in> set (prefixes_of p). file_content w q = None"
  obtains w' where "create_dir_all p w = (Ok (), w')" "files w' = files w" "faults w' = []"
    "ticks w' = ticks w" "clock w' = clock w" "\<And>q. is_dir w' q \<longleftrightarrow> is_dir w q \<or> q \<in> set (prefixes_of p)"
proof -
  let ?w' = "w\<lparr>dirs := dirs w @ filter (\<lambda>q. q \<notin> set (dirs w)) (prefixes_of p)\<rparr>"
  have "\<not> list_ex (\<lambda>q. file_content w q \<noteq> None) (prefixes_of p)"
    using assms(2) by (auto simp: list_ex_iff)
  then have "create_dir_all p w = (Ok (), ?w')"
    using assms(1) by (simp add: create_dir_all_def)
  then show ?thesis
    by (rule that) (use assms(1) in \<open>auto simp: is_dir_def\<close>)
qed

lemma prefixes_of_self [simp]: "p \<noteq> [] \<Longrightarrow> p \<in> set (prefixes_of p)"
  by (cases p) (auto simp: prefixes_of_def intro!: rev_image_eqI [of "length p"])

lemma prefixes_of_prefix: "q \<in> set (prefixes_of p) \<Longrightarrow> prefix q p \<and> q \<noteq> []"
  by (auto simp: prefixes_of_def take_is_prefix)

text \<open>Reading and parsing a JSON file.\<close>

definition read_json :: "'b codec \<Rightarrow> path \<Rightarrow> ('b world, runtime_error, json) stm" where
  "read_json c p =
     rbind (storage_io (fs_read p)) (\<lambda>bytes. rlift (storage_result (from_slice c bytes)))"

lemma read_json_ok:
  "faults w = [] \<Longrightarrow> file_content w p = Some bs \<Longrightarrow> from_slice c bs = Ok v \<Longrightarrow> read_json c p w = (Ok v, w)"
  by (simp add: read_json_def rbind_def storage_io_def fs_read_def storage_result_def)

text \<open>A temporary name is never the name it stands for.\<close>

lemma length_takeWhile_neq: "d \<in> set xs \<Longrightarrow> length (takeWhile (\<lambda>c. c \<noteq> d) xs) < length xs"
  by (induction xs) auto

lemma split_extension_length:
  "length (fst (split_extension name)) + (case snd (split_extension name) of None \<Rightarrow> 0 | Some e \<Rightarrow> Suc (length e))
     = length name"
proof -
  have "length (takeWhile (\<lambda>c. c \<noteq> CHR ''.'') (rev name)) < length name" if "CHR ''.'' \<in> set name"
    using that length_takeWhile_neq [of "CHR ''.''" "rev name"] by simp
  then show ?thesis
    by (auto simp: split_extension_def Let_def)
qed

lemma with_extension_neq:
  assumes "p \<noteq> []" and "CHR ''.'' \<in> set ext"
  shows "with_extension ext p \<noteq> p"
proof
  let ?s = "split_extension (last p)"
  assume "with_extension ext p = p"
  then have l: "fst ?s @ ''.'' @ ext = last p" by (metis last_snoc with_extension_def)
  show False
  proof (cases "snd ?s")
    case None
    with split_extension_length [of "last p"] l [THEN arg_cong, of length] show False by simp
  next
    case (Some e)
    then have e: "e = rev (takeWhile (\<lambda>c. c \<noteq> CHR ''.'') (rev (last p)))"
      by (auto simp: split_extension_def Let_def split: if_splits)
    have "length ext = length e"
      using split_extension_length [of "last p"] l [THEN arg_cong, of length] Some by simp
    moreover have "\<exists>t. last p = t @ e"
      unfolding e by (metis rev_append rev_rev_ident takeWhile_dropWhile_id)
    ultimately have "e = ext" using l by (metis append.assoc append_eq_append_conv)
    with assms(2) have "CHR ''.'' \<in> set e" by simp
    then show False unfolding e by (auto dest: set_takeWhileD)
  qed
qed

lemma with_extension_butlast [simp]: "butlast (with_extension ext p) = butlast p"
  by (simp add: with_extension_def)

lemma length_with_extension [simp]: "p \<noteq> [] \<Longrightarrow> length (with_extension ext p) = length p"
  by (simp add: with_extension_def)

lemma prefixes_of_shorter: "q \<in> set (prefixes_of (butlast p)) \<Longrightarrow> length q < length p"
proof -
  assume q: "q \<in> set (prefixes_of (butlast p))"
  then have "length q \<le> length (butlast p)" and "p \<noteq> []"
    using prefixes_of_prefix prefix_length_le by (blast, auto simp: prefixes_of_def)
  then have "length q \<le> length p - 1" "0 < length p" by simp_all
  then show ?thesis by linarith
qed

lemma split_extension_Some:
  assumes "split_extension name = (stem, Some ext)"
  shows "name = stem @ ''.'' @ ext" and "stem \<noteq> []"
proof -
  define e where "e = rev (takeWhile (\<lambda>c. c \<noteq> CHR ''.'') (rev name))"
  define t where "t = rev (dropWhile (\<lambda>c. c \<noteq> CHR ''.'') (rev name))"
  have n: "name = t @ e"
    unfolding t_def e_def rev_append [symmetric] takeWhile_dropWhile_id rev_rev_ident ..
  then have take: "take (length name - length e) name = t" by simp
  from assms take have *: "CHR ''.'' \<in> set name" "stem = butlast t" "stem \<noteq> []" "ext = e"
    by (auto simp: split_extension_def Let_def e_def [symmetric] split: if_splits)
  from *(1) have "dropWhile (\<lambda>c. c \<noteq> CHR ''.'') (rev name) \<noteq> []" by auto
  then have "t \<noteq> []" "last t = CHR ''.''"
    using hd_dropWhile [of "\<lambda>c. c \<noteq> CHR ''.''" "rev name"] by (simp_all add: t_def last_rev)
  then have "t = stem @ ''.''" using *(2) append_butlast_last_id [of t] by simp
  with n *(3,4) show "name = stem @ ''.'' @ ext" "stem \<noteq> []" by simp_all
qed

end
