(* ===== verification/Rate_Limit.thy ===== *)
theory Rate_Limit
  imports File_System
begin

text \<open>
  The rate limiter (\<open>rate_limit.rs\<close>): fixed windows, one per storage key, kept in memory
  or in a JSON file behind the \<open>RateLimitStore\<close> trait. The trait is the locale
  \<open>rate_limit_store\<close>; both stores interpret it, and what a limiter guarantees is proved
  once from its law. The limit of a request is a count and a duration, times are
  \<open>u64\<close> milliseconds.
\<close>

record rate_limit =
  max_requests :: nat
  window :: duration

definition new_rate_limit :: "nat \<Rightarrow> duration \<Rightarrow> rate_limit" where
  "new_rate_limit m d = \<lparr>max_requests = max m 1, window = d\<rparr>"

record rate_window =
  started_at_unix_ms :: nat
  count :: nat

datatype rate_limit_subject =
  Workflow string | ServiceRoute string string string | Action string | Custom string

fun storage_value :: "rate_limit_subject \<Rightarrow> string" where
  "storage_value (Workflow name) = ''workflow:'' @ name"
| "storage_value (ServiceRoute service mtd pth) =
     ''service_route:'' @ service @ '':'' @ mtd @ '':'' @ pth"
| "storage_value (Action name) = ''action:'' @ name"
| "storage_value (Custom scope) = ''custom:'' @ scope"

fun subject_label :: "rate_limit_subject \<Rightarrow> string" where
  "subject_label (Workflow name) = ''workflow:'' @ name"
| "subject_label (ServiceRoute service mtd pth) = ''service:'' @ service @ '':'' @ mtd @ '':'' @ pth"
| "subject_label (Action name) = ''action:'' @ name"
| "subject_label (Custom scope) = scope"

record rate_limit_key =
  key_tenant :: string
  key_actor :: string
  subject :: rate_limit_subject

definition escape_key_part :: "string \<Rightarrow> string" where
  "escape_key_part raw =
     replace ''='' ''%3D'' (replace ''|'' ''%7C'' (replace ''%'' ''%25'' raw))"

definition storage_key :: "rate_limit_key \<Rightarrow> string" where
  "storage_key k = ''tenant='' @ escape_key_part (key_tenant k) @ ''|actor=''
     @ escape_key_part (key_actor k) @ ''|'' @ escape_key_part (storage_value (subject k))"

definition label :: "rate_limit_key \<Rightarrow> string" where
  "label k = subject_label (subject k) @ '' tenant='' @ key_tenant k @ '' actor='' @ key_actor k"

section \<open>Windows\<close>

definition duration_millis :: "duration \<Rightarrow> nat" where
  "duration_millis d = min u64_max (d div 1000000)"

type_synonym windows = "(string, rate_window) fmap"

definition check_window :: "rate_limit_key \<Rightarrow> rate_limit \<Rightarrow> nat \<Rightarrow> (windows, runtime_error, unit) stm" where
  "check_window key limit now_unix_ms windows =
     (let sk = storage_key key;
          w0 = (case fmlookup windows sk of
                  None \<Rightarrow> \<lparr>started_at_unix_ms = now_unix_ms, count = 0\<rparr>
                | Some w \<Rightarrow> w);
          w1 = (if duration_millis (window limit) \<le> now_unix_ms - started_at_unix_ms w0
                then \<lparr>started_at_unix_ms = now_unix_ms, count = 0\<rparr> else w0)
      in if max_requests limit \<le> count w1
         then (Err (RateLimitExceeded (label key) (max_requests limit)), fmupd sk w1 windows)
         else (Ok (), fmupd sk (w1\<lparr>count := count w1 + 1\<rparr>) windows))"

section \<open>The stores\<close>

record memory_store = memory_windows :: windows

definition new_memory_store :: memory_store where
  "new_memory_store = \<lparr>memory_windows = fmempty\<rparr>"

definition memory_check :: "rate_limit_key \<Rightarrow> rate_limit \<Rightarrow> nat \<Rightarrow> (memory_store, runtime_error, unit) stm" where
  "memory_check key limit now_unix_ms s =
     (case check_window key limit now_unix_ms (memory_windows s) of
        (r, ws) \<Rightarrow> (r, s\<lparr>memory_windows := ws\<rparr>))"

definition window_from_json :: "string \<Rightarrow> json \<Rightarrow> runtime_error + rate_window" where
  "window_from_json key v =
     res_bind
       (ok_or (Storage (''rate-limit window `'' @ key @ ''` is missing started_at_unix_ms''))
         (Option.bind (json_get v ''started_at_unix_ms'') as_u64)) (\<lambda>started.
     res_bind
       (ok_or (Storage (''rate-limit window `'' @ key @ ''` is missing count''))
         (Option.bind (json_get v ''count'') as_u64)) (\<lambda>raw.
     res_bind
       (ok_or (Storage (''rate-limit window `'' @ key @ ''` count is too large''))
         (checked_nat u32_max raw)) (\<lambda>n.
     Ok \<lparr>started_at_unix_ms = started, count = n\<rparr>)))"

definition window_to_json :: "rate_window \<Rightarrow> json" where
  "window_to_json w =
     json_object [(''started_at_unix_ms'', json_nat (started_at_unix_ms w)), (''count'', json_nat (count w))]"

definition windows_from_json :: "json \<Rightarrow> runtime_error + windows" where
  "windows_from_json v =
     res_bind (ok_or (Storage ''rate-limit store root must be a JSON object'') (as_object v))
       (collect_object window_from_json)"

text \<open>The file store: the path of its file. \<open>read_windows\<close> gives no windows for a file that
  does not exist.\<close>

definition read_windows :: "'b codec \<Rightarrow> path \<Rightarrow> ('b world, runtime_error, windows) stm" where
  "read_windows c p w =
     (if \<not> path_exists p w then (Ok fmempty, w)
      else rbind (read_json c p) (\<lambda>v. rlift (windows_from_json v)) w)"

definition write_windows :: "'b codec \<Rightarrow> path \<Rightarrow> windows \<Rightarrow> ('b world, runtime_error, unit) stm" where
  "write_windows c p ws =
     rbind (if p = [] then rreturn () else storage_io (create_dir_all (butlast p))) (\<lambda>_.
     rbind (rlift (storage_result (to_vec c (JObject (fmmap window_to_json ws))))) (\<lambda>bytes.
     write_then_rename (with_extension ''json.tmp'' p) p bytes))"

definition file_check ::
    "'b codec \<Rightarrow> path \<Rightarrow> rate_limit_key \<Rightarrow> rate_limit \<Rightarrow> nat \<Rightarrow> ('b world, runtime_error, unit) stm" where
  "file_check c p key limit now_unix_ms =
     rbind (read_windows c p) (\<lambda>ws.
       case check_window key limit now_unix_ms ws of
         (Inl e, _) \<Rightarrow> rthrow e
       | (Inr _, ws') \<Rightarrow> write_windows c p ws')"

text \<open>The limiter: a shared store behind a mutex, which is poisoned when a thread panicked
  while it held it.\<close>

record 's rate_limiter =
  store :: 's
  poisoned :: bool

definition check_at ::
    "(rate_limit_key \<Rightarrow> rate_limit \<Rightarrow> nat \<Rightarrow> ('s, runtime_error, unit) stm)
     \<Rightarrow> rate_limit_key \<Rightarrow> rate_limit \<Rightarrow> nat \<Rightarrow> ('s rate_limiter, runtime_error, unit) stm" where
  "check_at check_and_increment key limit now_unix_ms l =
     (if poisoned l then (Err (Storage ''rate-limit store lock poisoned''), l)
      else (case check_and_increment key limit now_unix_ms (store l) of
              (r, s) \<Rightarrow> (r, l\<lparr>store := s\<rparr>)))"

section \<open>Parsing limits\<close>

definition ns_of_ms :: "nat \<Rightarrow> duration" where "ns_of_ms n = n * 1000000"
definition ns_of_secs :: "nat \<Rightarrow> duration" where "ns_of_secs n = n * 1000000000"

definition parse_duration :: "string \<Rightarrow> duration option" where
  "parse_duration raw = (let raw = trim raw in
     case strip_suffix ''ms'' raw of
       Some v \<Rightarrow> map_option ns_of_ms (parse_unsigned u64_max v)
     | None \<Rightarrow>
     (case strip_suffix ''s'' raw of
       Some v \<Rightarrow> map_option ns_of_secs (parse_unsigned u64_max v)
     | None \<Rightarrow>
     (case strip_suffix ''m'' raw of
       Some v \<Rightarrow> map_option ns_of_secs
                   (Option.bind (parse_unsigned u64_max v) (\<lambda>n. checked_nat u64_max (n * 60)))
     | None \<Rightarrow>
     (case strip_suffix ''h'' raw of
       Some v \<Rightarrow> map_option ns_of_secs
                   (Option.bind (parse_unsigned u64_max v) (\<lambda>n. checked_nat u64_max (n * (60 * 60))))
     | None \<Rightarrow> map_option ns_of_secs (parse_unsigned u64_max raw)))))"

definition eq_ignore_ascii_case :: "string \<Rightarrow> string \<Rightarrow> bool" where
  "eq_ignore_ascii_case a b \<longleftrightarrow> to_ascii_lowercase a = to_ascii_lowercase b"

definition parse_rate_limit :: "string \<Rightarrow> rate_limit option" where
  "parse_rate_limit raw =
     (let normalized = replace '' h'' ''h'' (replace '' m'' ''m'' (replace '' s'' ''s''
                         (replace '' ms'' ''ms'' (trim raw))))
      in if normalized = [] then None
         else (let parts = split_whitespace normalized in
           case parts of
             [] \<Rightarrow> None
           | first # _ \<Rightarrow>
               Option.bind (parse_unsigned u32_max first) (\<lambda>m.
                 let window_raw =
                       (if 3 \<le> length parts \<and> eq_ignore_ascii_case (parts ! 1) ''per'' then parts ! 2
                        else if 1 < length parts then parts ! 1 else ''1m'')
                 in map_option (new_rate_limit m) (parse_duration window_raw))))"

section \<open>Storage keys\<close>

definition escape_char :: "char \<Rightarrow> string" where
  "escape_char c = (if c = CHR ''%'' then ''%25'' else if c = CHR ''|'' then ''%7C''
                    else if c = CHR ''='' then ''%3D'' else [c])"

lemma concat_map_concat_map: "concat (map f (concat (map g s))) = concat (map (\<lambda>c. concat (map f (g c))) s)"
  by (induction s) auto

lemma escape_key_part_chars: "escape_key_part s = concat (map escape_char s)"
  unfolding escape_key_part_def replace_single concat_map_concat_map
  by (induction s) (auto simp: escape_char_def)

lemma escape_no_separator: "CHR ''|'' \<notin> set (escape_key_part s)"
  by (auto simp: escape_key_part_chars escape_char_def)

lemma escape_char_prefix: "escape_char c @ x = escape_char d @ y \<Longrightarrow> c = d \<and> x = y"
  by (auto simp: escape_char_def split: if_splits)

lemma escape_key_part_inject: "escape_key_part s = escape_key_part t \<longleftrightarrow> s = t"
proof -
  have "concat (map escape_char s) = concat (map escape_char t) \<Longrightarrow> s = t" for s t
  proof (induction s arbitrary: t)
    case Nil
    then show ?case by (cases t) (auto simp: escape_char_def split: if_splits)
  next
    case (Cons c s)
    then obtain d t' where t: "t = d # t'"
      by (cases t) (auto simp: escape_char_def split: if_splits)
    with Cons.prems have "c = d \<and> concat (map escape_char s) = concat (map escape_char t')"
      by (intro escape_char_prefix) simp
    with Cons.IH t show ?case by blast
  qed
  then show ?thesis by (auto simp: escape_key_part_chars)
qed

text \<open>Two requests share a window exactly when tenant, actor and the text of the subject
  are the same, whatever characters the names contain.\<close>

theorem storage_key_separates:
  "storage_key k = storage_key k' \<longleftrightarrow>
     key_tenant k = key_tenant k' \<and> key_actor k = key_actor k'
     \<and> storage_value (subject k) = storage_value (subject k')"
proof
  assume "storage_key k = storage_key k'"
  then have "split_on (CHR ''|'') (storage_key k) = split_on (CHR ''|'') (storage_key k')" by simp
  moreover have "split_on (CHR ''|'') (storage_key q) =
      [''tenant='' @ escape_key_part (key_tenant q), ''actor='' @ escape_key_part (key_actor q),
       escape_key_part (storage_value (subject q))]" for q
    using split_on_append [of "CHR ''|''" "''tenant='' @ escape_key_part (key_tenant q)"
        "''actor='' @ escape_key_part (key_actor q) @ ''|'' @ escape_key_part (storage_value (subject q))"]
      split_on_append [of "CHR ''|''" "''actor='' @ escape_key_part (key_actor q)"
        "escape_key_part (storage_value (subject q))"]
      split_on_absent [OF escape_no_separator [of "storage_value (subject q)"]]
      escape_no_separator [of "key_tenant q"] escape_no_separator [of "key_actor q"]
    by (simp add: storage_key_def)
  ultimately show "key_tenant k = key_tenant k' \<and> key_actor k = key_actor k'
      \<and> storage_value (subject k) = storage_value (subject k')"
    by (simp add: escape_key_part_inject)
qed (simp add: storage_key_def)

section \<open>What a window allows\<close>

text \<open>Without any interface: the window of the key after a request, and the others.\<close>

definition window_of :: "windows \<Rightarrow> string \<Rightarrow> nat \<Rightarrow> rate_limit \<Rightarrow> rate_window" where
  "window_of ws sk now lim =
     (case fmlookup ws sk of
        None \<Rightarrow> \<lparr>started_at_unix_ms = now, count = 0\<rparr>
      | Some w \<Rightarrow> if duration_millis (window lim) \<le> now - started_at_unix_ms w
                  then \<lparr>started_at_unix_ms = now, count = 0\<rparr> else w)"

lemma check_window_eq:
  "check_window key limit now ws =
     (let sk = storage_key key; w = window_of ws sk now limit in
        if max_requests limit \<le> count w
        then (Err (RateLimitExceeded (label key) (max_requests limit)), fmupd sk w ws)
        else (Ok (), fmupd sk (w\<lparr>count := count w + 1\<rparr>) ws))"
  by (auto simp: check_window_def window_of_def Let_def split: option.splits)

text \<open>A refused request changes no window: the window it hit was full already.\<close>

lemma check_window_refused:
  assumes "check_window key limit now ws = (Err e, ws')" and "1 \<le> max_requests limit"
  shows "ws' = ws"
proof -
  let ?w = "window_of ws (storage_key key) now limit"
  from assms have "1 \<le> count ?w" and ws': "ws' = fmupd (storage_key key) ?w ws"
    by (auto simp: check_window_eq Let_def split: if_splits)
  then have "fmlookup ws (storage_key key) = Some ?w"
    by (auto simp: window_of_def split: option.splits if_splits)
  then show ?thesis unfolding ws' by (intro fmap_ext) auto
qed

text \<open>Requests in order, and the times at which those of one key were accepted.\<close>

type_synonym request = "rate_limit_key \<times> rate_limit \<times> nat"

fun run_requests ::
    "(rate_limit_key \<Rightarrow> rate_limit \<Rightarrow> nat \<Rightarrow> ('s, runtime_error, unit) stm)
     \<Rightarrow> request list \<Rightarrow> 's \<Rightarrow> (runtime_error + unit) list \<times> 's" where
  "run_requests check [] s = ([], s)"
| "run_requests check ((k, l, t) # rs) s =
     (case check k l t s of (r, s') \<Rightarrow> (case run_requests check rs s' of (out, s'') \<Rightarrow> (r # out, s'')))"

definition accepted_times :: "string \<Rightarrow> request list \<Rightarrow> (runtime_error + unit) list \<Rightarrow> nat list" where
  "accepted_times sk rs out =
     map (\<lambda>((k, l, t), r). t) (filter (\<lambda>((k, l, t), r). storage_key k = sk \<and> is_ok r) (zip rs out))"

definition valid_request :: "request \<Rightarrow> bool" where
  "valid_request = (\<lambda>(k, l, t). 1 \<le> max_requests l \<and> max_requests l \<le> u32_max \<and> t \<le> u64_max)"

text \<open>The interface of a store: it keeps windows, and answers a request as
  \<open>check_window\<close> does on them.\<close>

locale rate_limit_store =
  fixes check :: "rate_limit_key \<Rightarrow> rate_limit \<Rightarrow> nat \<Rightarrow> ('s, runtime_error, unit) stm"
    and inv :: "'s \<Rightarrow> bool"
    and windows_of :: "'s \<Rightarrow> windows"
  assumes check_law: "valid_request (k, l, t) \<Longrightarrow> inv s \<Longrightarrow>
    \<exists>s'. check k l t s = (fst (check_window k l t (windows_of s)), s') \<and> inv s'
      \<and> windows_of s' = snd (check_window k l t (windows_of s))"
begin

lemma run_windows:
  assumes "list_all valid_request rs" and "inv s"
  shows "fst (run_requests check rs s) = fst (run_requests check_window rs (windows_of s))"
  using assms
proof (induction rs arbitrary: s)
  case (Cons r rs)
  obtain k l t where r: "r = (k, l, t)" by (cases r)
  with Cons.prems have "valid_request (k, l, t)" "list_all valid_request rs" by simp_all
  with check_law [of k l t s] Cons.prems(2) obtain s' where s':
    "check k l t s = (fst (check_window k l t (windows_of s)), s')" "inv s'"
    "windows_of s' = snd (check_window k l t (windows_of s))" by blast
  from Cons.IH [OF \<open>list_all valid_request rs\<close> s'(2)] show ?case
    by (simp add: r s' split_beta)
qed simp

end

text \<open>The memory store meets the interface.\<close>

interpretation memory: rate_limit_store memory_check "\<lambda>_. True" memory_windows
  by unfold_locales (simp add: memory_check_def split_beta)

text \<open>The file store meets it in a world where its file, if any, holds windows, no other
  file is in the way of its directories, and no operation fails.\<close>

definition valid_windows :: "windows \<Rightarrow> bool" where
  "valid_windows = fmpred (\<lambda>_ w. started_at_unix_ms w \<le> u64_max \<and> count w \<le> u32_max)"

definition file_windows :: "'b codec \<Rightarrow> path \<Rightarrow> 'b world \<Rightarrow> windows" where
  "file_windows c p w =
     (case file_content w p of
        None \<Rightarrow> fmempty
      | Some bs \<Rightarrow>
          (case res_bind (storage_result (from_slice c bs)) windows_from_json of
             Inl _ \<Rightarrow> fmempty
           | Inr ws \<Rightarrow> ws))"

definition file_inv :: "'b codec \<Rightarrow> path \<Rightarrow> 'b world \<Rightarrow> bool" where
  "file_inv c p w \<longleftrightarrow>
     codec_ok c \<and> faults w = [] \<and> p \<noteq> [] \<and> \<not> is_dir w p \<and> \<not> is_dir w (with_extension ''json.tmp'' p)
     \<and> (\<forall>q \<in> set (prefixes_of (butlast p)). file_content w q = None)
     \<and> (\<forall>bs. file_content w p = Some bs \<longrightarrow>
          (\<exists>ws. from_slice c bs = Ok (JObject (fmmap window_to_json ws)) \<and> valid_windows ws))"

lemma window_roundtrip:
  "count w \<le> u32_max \<Longrightarrow> started_at_unix_ms w \<le> u64_max \<Longrightarrow> window_from_json k (window_to_json w) = Ok w"
  by (simp add: window_from_json_def window_to_json_def json_get_object json_nat_def checked_nat_def
      del: json_object_get)

lemma windows_roundtrip:
  "valid_windows ws \<Longrightarrow> windows_from_json (JObject (fmmap window_to_json ws)) = Ok ws"
  by (simp add: windows_from_json_def)
    (rule collect_object_fmmap, auto simp: valid_windows_def fmpred_iff window_roundtrip)

lemma windows_plain: "valid_windows ws \<Longrightarrow> json_plain (JObject (fmmap window_to_json ws))"
proof -
  have "json_plain (window_to_json w)" if "count w \<le> u32_max" "started_at_unix_ms w \<le> u64_max" for w
    unfolding window_to_json_def using that by (intro json_plain_object) simp
  then show "valid_windows ws \<Longrightarrow> json_plain (JObject (fmmap window_to_json ws))"
    by (auto simp: valid_windows_def fmpred_iff)
qed

lemma check_window_valid:
  assumes "valid_request (k, l, t)" and "valid_windows ws"
  shows "valid_windows (snd (check_window k l t ws))"
proof -
  let ?w = "window_of ws (storage_key k) t l"
  have w: "started_at_unix_ms ?w \<le> u64_max" "count ?w \<le> u32_max"
    using assms by (auto simp: window_of_def valid_request_def valid_windows_def fmpred_iff
        split: option.splits)
  then show ?thesis
    using assms by (auto simp: check_window_eq Let_def valid_request_def valid_windows_def)
qed

lemma file_read_windows:
  assumes "file_inv c p w"
  shows "read_windows c p w = (Ok (file_windows c p w), w)" and "valid_windows (file_windows c p w)"
proof -
  have *: "path_exists p w \<longleftrightarrow> file_content w p \<noteq> None" "faults w = []"
    using assms by (auto simp: file_inv_def path_exists_def)
  have "read_windows c p w = (Ok (file_windows c p w), w) \<and> valid_windows (file_windows c p w)"
  proof (cases "file_content w p")
    case None
    with * show ?thesis by (simp add: read_windows_def file_windows_def valid_windows_def)
  next
    case (Some bs)
    with assms obtain ws where ws: "from_slice c bs = Ok (JObject (fmmap window_to_json ws))"
      "valid_windows ws" by (auto simp: file_inv_def)
    with Some * show ?thesis
      by (simp add: read_windows_def file_windows_def rbind_run(1) [OF read_json_ok]
          windows_roundtrip storage_result_def)
  qed
  then show "read_windows c p w = (Ok (file_windows c p w), w)" "valid_windows (file_windows c p w)"
    by blast+
qed

lemma file_write_windows:
  assumes "file_inv c p w" and "valid_windows ws"
  obtains w' where "write_windows c p ws w = (Ok (), w')" "file_inv c p w'" "file_windows c p w' = ws"
proof -
  let ?v = "JObject (fmmap window_to_json ws)" and ?t = "with_extension ''json.tmp'' p"
  note inv = assms(1) [unfolded file_inv_def]
  obtain b where b: "to_vec c ?v = Ok b" "from_slice c [b] = Ok ?v"
    using codec_okD windows_plain [OF assms(2)] inv by blast
  obtain w1 where w1: "create_dir_all (butlast p) w = (Ok (), w1)" "files w1 = files w" "faults w1 = []"
    "\<And>q. is_dir w1 q \<longleftrightarrow> is_dir w q \<or> q \<in> set (prefixes_of (butlast p))"
    using create_dir_all_ok [of w "butlast p"] inv by metis
  have len: "p \<notin> set (prefixes_of (butlast p))" "?t \<notin> set (prefixes_of (butlast p))"
    using prefixes_of_shorter [of _ p] inv by (force simp del: length_with_extension,
        metis length_with_extension less_irrefl)
  have "is_dir w1 (butlast p)"
    using w1(4) [of "butlast p"] prefixes_of_self [of "butlast p"]
    by (cases "butlast p = []") (simp add: is_dir_def, blast)
  moreover have "?t \<noteq> p" using inv by (intro with_extension_neq) simp_all
  moreover have "\<not> is_dir w1 p" "\<not> is_dir w1 ?t" using w1(4) len inv by blast+
  ultimately obtain w' where w': "write_then_rename ?t p b w1 = (Ok (), w')"
    "\<And>q. file_content w' q = (if q = p then Some [b] else if q = ?t then None else file_content w1 q)"
    "dirs w' = dirs w1" "faults w' = []"
    using write_then_rename_ok [of w1 ?t p b, OF w1(3) with_extension_butlast] by metis
  show ?thesis
  proof (rule that)
    show "write_windows c p ws w = (Ok (), w')"
      using inv w1(1) w'(1) b(1)
      by (simp add: write_windows_def rbind_def storage_io_def storage_result_def)
    have "\<forall>q \<in> set (prefixes_of (butlast p)). file_content w' q = None"
      using w'(2) len inv w1(2) by (metis file_content_def)
    then show "file_inv c p w'"
      using inv w'(2-4) w1(4) len b assms(2) by (auto simp: file_inv_def is_dir_def)
    show "file_windows c p w' = ws"
      using w'(2) b by (simp add: file_windows_def storage_result_def windows_roundtrip assms(2))
  qed
qed

interpretation file_store: rate_limit_store "file_check c p" "file_inv c p" "file_windows c p"
  for c :: "'b codec" and p
proof
  fix k l t and s :: "'b world"
  assume v: "valid_request (k, l, t)" and inv: "file_inv c p s"
  note rd = file_read_windows [OF inv]
  show "\<exists>s'. file_check c p k l t s = (fst (check_window k l t (file_windows c p s)), s') \<and> file_inv c p s'
      \<and> file_windows c p s' = snd (check_window k l t (file_windows c p s))"
  proof (cases "check_window k l t (file_windows c p s)")
    case (Pair r ws')
    show ?thesis
    proof (cases r)
      case (Inl e)
      have "file_check c p k l t s = (Err e, s)"
        using Pair Inl rd(1) by (simp add: file_check_def rbind_def)
      moreover have "ws' = file_windows c p s"
        using check_window_refused Pair Inl v by (fastforce simp: valid_request_def)
      ultimately show ?thesis using Pair Inl inv by simp
    next
      case (Inr u)
      have "valid_windows ws'" using check_window_valid [OF v rd(2)] Pair by simp
      then obtain w' where "write_windows c p ws' s = (Ok (), w')" "file_inv c p w'"
        "file_windows c p w' = ws'" by (rule file_write_windows [OF inv])
      moreover have "file_check c p k l t s = write_windows c p ws' s"
        using Pair Inr rd(1) by (simp add: file_check_def rbind_def)
      ultimately show ?thesis using Pair Inr by simp
    qed
  qed
qed

section \<open>How many requests an interval sees\<close>

definition count_in :: "nat \<Rightarrow> nat \<Rightarrow> nat list \<Rightarrow> nat" where
  "count_in t0 len ts = length (filter (\<lambda>t. t0 \<le> t \<and> t < t0 + len) ts)"

definition request_times :: "request list \<Rightarrow> nat list" where
  "request_times rs = map (\<lambda>(k, l, t). t) rs"

definition one_limit :: "string \<Rightarrow> rate_limit \<Rightarrow> request list \<Rightarrow> bool" where
  "one_limit sk lim rs \<longleftrightarrow> (\<forall>(k, l, t) \<in> set rs. storage_key k = sk \<longrightarrow> l = lim)"

lemma count_in_simps [simp]:
  "count_in t0 len [] = 0"
  "count_in t0 len (t # ts) = (if t0 \<le> t \<and> t < t0 + len then Suc (count_in t0 len ts) else count_in t0 len ts)"
  by (simp_all add: count_in_def)

lemma count_in_empty [simp]: "count_in t0 0 ts = 0"
  by (simp add: count_in_def)

lemma count_in_late: "\<forall>t \<in> set ts. t0 + len \<le> t \<Longrightarrow> count_in t0 len ts = 0"
  by (induction ts) auto

abbreviation accepted_from :: "string \<Rightarrow> request list \<Rightarrow> windows \<Rightarrow> nat list" where
  "accepted_from sk rs ws \<equiv> accepted_times sk rs (fst (run_requests check_window rs ws))"

lemma accepted_from_Cons:
  "accepted_from sk ((k, l, t) # rs) ws =
     (let (r, ws') = check_window k l t ws in
        (if storage_key k = sk \<and> is_ok r then [t] else []) @ accepted_from sk rs ws')"
  by (simp add: accepted_times_def split_beta Let_def)

lemma accepted_from_other:
  "storage_key k \<noteq> sk \<Longrightarrow> accepted_from sk ((k, l, t) # rs) ws = accepted_from sk rs (snd (check_window k l t ws))"
  "storage_key k \<noteq> sk \<Longrightarrow> fmlookup (snd (check_window k l t ws)) sk = fmlookup ws sk"
  by (simp add: accepted_from_Cons split_beta Let_def del: run_requests.simps)
    (simp add: check_window_eq Let_def)

lemma accepted_from_subset: "set (accepted_from sk rs ws) \<subseteq> set (request_times rs)"
proof (induction rs arbitrary: ws)
  case (Cons r rs)
  obtain k l t where r: "r = (k, l, t)" by (cases r)
  obtain x ws' where "check_window k l t ws = (x, ws')" by (cases "check_window k l t ws")
  with r Cons.IH [of ws'] show ?case
    by (auto simp: request_times_def accepted_from_Cons simp del: run_requests.simps)
qed (simp add: accepted_times_def)

text \<open>With an open window that began at \<open>s\<close> and has counted \<open>n\<close>: an interval that
  begins no later than \<open>s\<close> sees what is left of this window; one that begins before the
  window ends sees what is left and at most one window more; any sees at most two windows.\<close>

lemma count_in_window:
  assumes "sorted (request_times rs)" and "one_limit sk lim rs" and "1 \<le> max_requests lim"
    and "fmlookup ws sk = Some w"
  defines "len \<equiv> duration_millis (window lim)" and "acc \<equiv> accepted_from sk rs ws"
  shows "(t0 \<le> started_at_unix_ms w \<longrightarrow> count_in t0 len acc \<le> max_requests lim - count w)
    \<and> (t0 < started_at_unix_ms w + len \<longrightarrow>
         count_in t0 len acc \<le> (max_requests lim - count w) + max_requests lim)
    \<and> count_in t0 len acc \<le> 2 * max_requests lim"
  using assms(1,2,4) unfolding acc_def
proof (induction rs arbitrary: ws w)
  case Nil
  then show ?case by (simp add: accepted_times_def)
next
  case (Cons r rs)
  obtain k l t where r: "r = (k, l, t)" by (cases r)
  let ?m = "max_requests lim" and ?s = "started_at_unix_ms w" and ?n = "count w"
  have pre: "sorted (request_times rs)" "one_limit sk lim rs" and later: "\<forall>t' \<in> set (request_times rs). t \<le> t'"
    and lim: "storage_key k = sk \<longrightarrow> l = lim"
    using Cons.prems(1,2) by (auto simp: r request_times_def one_limit_def)
  note IH = Cons.IH [OF pre]
  show ?case
  proof (cases "storage_key k = sk")
    case False
    with IH [of "snd (check_window k l t ws)" w] Cons.prems(3) show ?thesis
      unfolding r by (simp add: accepted_from_other del: run_requests.simps)
  next
    case True
    with lim have l: "l = lim" by simp
    show ?thesis
    proof (cases "len \<le> t - ?s")
      case True
      let ?w = "\<lparr>started_at_unix_ms = t, count = 1\<rparr>"
      have ck: "check_window k l t ws = (Ok (), fmupd sk ?w ws)"
        using True \<open>storage_key k = sk\<close> l Cons.prems(3) assms(3)
        by (simp add: check_window_eq window_of_def len_def)
      let ?a = "accepted_from sk rs (fmupd sk ?w ws)"
      have acc: "accepted_from sk (r # rs) ws = t # ?a"
        unfolding r accepted_from_Cons ck by (simp add: \<open>storage_key k = sk\<close>)
      have "\<forall>t' \<in> set ?a. t \<le> t'" using later accepted_from_subset by blast
      then have "t0 + len \<le> t \<Longrightarrow> count_in t0 len ?a = 0"
        by (intro count_in_late) (meson order_trans)
      then show ?thesis
        using IH [of "fmupd sk ?w ws" ?w] True assms(3) unfolding acc by (cases "len = 0") auto
    next
      case False
      show ?thesis
      proof (cases "?m \<le> ?n")
        case True
        have ck: "check_window k l t ws = (Err (RateLimitExceeded (label k) ?m), fmupd sk w ws)"
          using True False \<open>storage_key k = sk\<close> l Cons.prems(3)
          by (simp add: check_window_eq window_of_def len_def)
        have acc: "accepted_from sk (r # rs) ws = accepted_from sk rs (fmupd sk w ws)"
          unfolding r accepted_from_Cons ck by simp
        show ?thesis using IH [of "fmupd sk w ws" w] unfolding acc by simp
      next
        case room: False
        let ?w = "w\<lparr>count := ?n + 1\<rparr>"
        have ck: "check_window k l t ws = (Ok (), fmupd sk ?w ws)"
          using False room \<open>storage_key k = sk\<close> l Cons.prems(3)
          by (simp add: check_window_eq window_of_def len_def)
        have acc: "accepted_from sk (r # rs) ws = t # accepted_from sk rs (fmupd sk ?w ws)"
          unfolding r accepted_from_Cons ck by (simp add: \<open>storage_key k = sk\<close>)
        show ?thesis
          using IH [of "fmupd sk ?w ws" ?w] False room unfolding acc by auto
      qed
    qed
  qed
qed

lemma count_in_windows:
  assumes "sorted (request_times rs)" and "one_limit sk lim rs" and "1 \<le> max_requests lim"
  shows "count_in t0 (duration_millis (window lim)) (accepted_from sk rs ws) \<le> 2 * max_requests lim"
proof (cases "fmlookup ws sk")
  case (Some w)
  with count_in_window [OF assms] show ?thesis by blast
next
  case None
  then show ?thesis using assms(1,2)
  proof (induction rs arbitrary: ws)
    case Nil
    then show ?case by (simp add: accepted_times_def)
  next
    case (Cons r rs)
    obtain k l t where r: "r = (k, l, t)" by (cases r)
    have pre: "sorted (request_times rs)" "one_limit sk lim rs" "storage_key k = sk \<longrightarrow> l = lim"
      using Cons.prems by (auto simp: r request_times_def one_limit_def)
    show ?case
    proof (cases "storage_key k = sk")
      case False
      with Cons.IH [of "snd (check_window k l t ws)"] Cons.prems(1) pre show ?thesis
        unfolding r by (simp add: accepted_from_other del: run_requests.simps)
    next
      case True
      txt \<open>The first request of the key opens its window; it is one that was open before it.\<close>
      let ?ws = "fmupd sk \<lparr>started_at_unix_ms = t, count = 0\<rparr> ws"
      have "window_of ?ws sk t lim = window_of ws sk t lim"
        using Cons.prems(1) by (simp add: window_of_def)
      then have "check_window k l t ?ws = check_window k l t ws"
        using True pre(3) by (auto simp: check_window_eq Let_def intro!: fmap_ext)
      then have "accepted_from sk (r # rs) ws = accepted_from sk (r # rs) ?ws"
        unfolding r accepted_from_Cons by simp
      then show ?thesis
        using count_in_window [OF Cons.prems(2,3) assms(3), of ?ws] by simp
    qed
  qed
qed

context rate_limit_store
begin

lemma interval_bound:
  assumes "list_all valid_request rs" and "inv s" and "sorted (request_times rs)"
    and "one_limit sk lim rs" and "1 \<le> max_requests lim"
  shows "count_in t0 (duration_millis (window lim)) (accepted_times sk rs (fst (run_requests check rs s)))
    \<le> 2 * max_requests lim"
  using count_in_windows [OF assms(3-5)] run_windows [OF assms(1,2)] by simp

end

text \<open>C34: the file-backed limiter bounds bursts: for requests in the order of their times, with
  one limit for a key, any interval as long as the limit's window sees at most twice the limit
  of accepted requests of that key, whatever the other keys do and whatever windows the file
  held before.\<close>

theorem file_limiter_burst_bound:
  assumes "file_inv c p w" and "list_all valid_request rs" and "sorted (request_times rs)"
    and "one_limit sk lim rs" and "1 \<le> max_requests lim"
  shows "count_in t0 (duration_millis (window lim))
      (accepted_times sk rs (fst (run_requests (file_check c p) rs w))) \<le> 2 * max_requests lim"
  by (rule file_store.interval_bound [OF assms(2,1,3-5)])

definition empty_world :: "'b world" where
  "empty_world = \<lparr>files = [], dirs = [], faults = [], clock = (\<lambda>_. 0), ticks = 0\<rparr>"

definition sample_key :: rate_limit_key where
  "sample_key = \<lparr>key_tenant = ''t'', key_actor = ''a'', subject = Action ''x''\<rparr>"

definition sample_limit :: rate_limit where "sample_limit = new_rate_limit 1 (10 * 1000000)"

text \<open>The bound is reached: two requests nine milliseconds apart under a limit of one per ten.\<close>

lemma sample_inv: "file_inv id_codec [''limits.json''] empty_world"
  by (simp add: file_inv_def empty_world_def is_dir_def file_content_def prefixes_of_def
      with_extension_def)

theorem file_limiter_burst_bound_witness:
  "count_in 9 10 (accepted_times (storage_key sample_key)
     [(sample_key, sample_limit, 0), (sample_key, sample_limit, 9), (sample_key, sample_limit, 10)]
     (fst (run_requests (file_check id_codec [''limits.json''])
        [(sample_key, sample_limit, 0), (sample_key, sample_limit, 9), (sample_key, sample_limit, 10)]
        empty_world))) \<le> 2"
proof -
  let ?rs = "[(sample_key, sample_limit, 0), (sample_key, sample_limit, 9), (sample_key, sample_limit, 10)]"
  have "list_all valid_request ?rs" "sorted (request_times ?rs)"
    "one_limit (storage_key sample_key) sample_limit ?rs" "1 \<le> max_requests sample_limit"
    by (simp_all add: valid_request_def request_times_def one_limit_def sample_limit_def new_rate_limit_def)
  from file_limiter_burst_bound [OF sample_inv this, of 9] show ?thesis
    by (simp add: sample_limit_def new_rate_limit_def duration_millis_def del: run_requests.simps)
qed

text \<open>The two stores are interchangeable: a file store whose file holds some windows answers
  any sequence of requests as a memory store with these windows does.\<close>

theorem file_store_refines_memory:
  assumes "file_inv c p w" and "list_all valid_request rs"
  shows "fst (run_requests (file_check c p) rs w)
    = fst (run_requests memory_check rs \<lparr>memory_windows = file_windows c p w\<rparr>)"
  using file_store.run_windows [OF assms(2,1)]
    memory.run_windows [OF assms(2), of "\<lparr>memory_windows = file_windows c p w\<rparr>"] by simp

theorem file_store_refines_memory_witness:
  "fst (run_requests (file_check id_codec [''limits.json''])
      [(sample_key, sample_limit, 0), (sample_key, sample_limit, 9)] empty_world)
    = [Ok (), Err (RateLimitExceeded (label sample_key) 1)]"
proof -
  let ?rs = "[(sample_key, sample_limit, 0), (sample_key, sample_limit, 9)]"
  have "list_all valid_request ?rs"
    by (simp add: valid_request_def sample_limit_def new_rate_limit_def)
  moreover have "file_windows id_codec [''limits.json''] empty_world = fmempty"
    by (simp add: file_windows_def empty_world_def file_content_def)
  ultimately show ?thesis
    using file_store_refines_memory [OF sample_inv, of ?rs]
    by (simp add: memory_check_def check_window_def sample_limit_def new_rate_limit_def
        duration_millis_def)
qed

section \<open>Durations\<close>

lemma trim_digits_unit:
  assumes "list_all is_ascii_digit ds" and "list_all is_ascii_lower u"
  shows "trim (ds @ u) = ds @ u"
proof (rule trim_no_ws)
  show "list_all is_ascii (ds @ u)" using assms by (auto simp: list_all_iff ascii_defs)
  show "c \<in> set (ds @ u) \<Longrightarrow> \<not> is_whitespace [c]" for c
    using assms by (auto simp: list_all_iff ascii_defs is_whitespace_def)
qed

lemma strip_suffix_ds:
  assumes "list_all is_ascii_digit ds"
  shows "strip_suffix u (ds @ u) = Some ds"
    and "u \<noteq> [] \<Longrightarrow> \<not> is_ascii_digit (hd u) \<Longrightarrow> length v < length u \<Longrightarrow>
      strip_suffix u (ds @ v) = None"
proof -
  show "strip_suffix u (ds @ u) = Some ds" by (simp add: strip_suffix_Some)
  assume u: "u \<noteq> []" "\<not> is_ascii_digit (hd u)" and l: "length v < length u"
  show "strip_suffix u (ds @ v) = None"
  proof (cases "strip_suffix u (ds @ v)")
    case (Some t)
    then have e: "ds @ v = t @ u" by (simp add: strip_suffix_Some)
    then have "(ds @ v) ! length t = hd u" using u(1) by (simp add: nth_append hd_conv_nth)
    moreover have "length t < length ds" using e [THEN arg_cong, of length] l by simp
    ultimately have "hd u \<in> set ds" by (metis nth_append nth_mem)
    with assms u(2) show ?thesis by (auto simp: list_all_iff)
  qed
qed

text \<open>A decimal count with a unit (or none, which means seconds) is read as that many
  milliseconds, seconds, minutes or hours; a count of minutes or hours whose number of seconds
  does not fit a \<open>u64\<close> is refused, and so is a count that does not fit one itself.\<close>

theorem parse_duration_units:
  "parse_duration (show_nat n @ ''ms'') = map_option ns_of_ms (checked_nat u64_max n)
   \<and> parse_duration (show_nat n @ ''s'') = map_option ns_of_secs (checked_nat u64_max n)
   \<and> parse_duration (show_nat n @ ''m'') = map_option ns_of_secs (checked_nat u64_max (n * 60))
   \<and> parse_duration (show_nat n @ ''h'') = map_option ns_of_secs (checked_nat u64_max (n * 3600))
   \<and> parse_duration (show_nat n) = map_option ns_of_secs (checked_nat u64_max n)"
proof -
  note d = show_nat_digits [of n]
  have t: "trim (show_nat n @ u) = show_nat n @ u" if "list_all is_ascii_lower u" for u
    using trim_digits_unit [OF d that] .
  have u: "list_all is_ascii_lower ''ms''" "list_all is_ascii_lower ''s''"
    "list_all is_ascii_lower ''m''" "list_all is_ascii_lower ''h''" "list_all is_ascii_lower []"
    by (simp_all add: ascii_defs)
  have nd: "\<not> is_ascii_digit CHR ''m''" "\<not> is_ascii_digit CHR ''s''" "\<not> is_ascii_digit CHR ''h''"
    by (simp_all add: ascii_defs)
  have neq: "strip_suffix [a] (show_nat n @ [b]) = None" if "a \<noteq> b" for a b
    using that by (cases "strip_suffix [a] (show_nat n @ [b])") (auto simp: strip_suffix_Some)
  have none: "strip_suffix (a # u) (show_nat n) = None" if "\<not> is_ascii_digit a" for a u
    using strip_suffix_ds(2) [OF d, of "a # u" "[]"] that by simp
  note s = strip_suffix_ds(1) [OF d] strip_suffix_ds(2) [OF d, of "''ms''"] none neq nd
  have bound: "Option.bind (checked_nat u64_max n) (\<lambda>n. checked_nat u64_max (n * k)) = checked_nat u64_max (n * k)"
    if "1 \<le> k" for k
  proof -
    have "n \<le> n * k" using mult_le_mono2 [OF that, of n] by simp
    then have "n * k \<le> u64_max \<Longrightarrow> n \<le> u64_max" by (rule order_trans)
    then show ?thesis by (auto simp: checked_nat_def simp del: One_nat_def)
  qed
  show ?thesis
    using t [OF u(1)] t [OF u(2)] t [OF u(3)] t [OF u(4)] t [OF u(5)] bound [of 60] bound [of 3600]
    by (simp add: parse_duration_def Let_def s)
qed

end
