(* ===== verification/Storage.thy ===== *)
theory Storage
  imports File_System
begin

text \<open>
  The file-backed state store and audit sink (\<open>storage.rs\<close>): workflow states and audit
  events as JSON, one file per workflow under \<open>workflows/\<close>, replaced through a temporary
  file, and one line per audit event. The JSON of a state leaves out the roles, the provenance
  and the trust of its security context and keeps milliseconds only; \<open>norm_workflow\<close> says
  so, and is what the store returns. The readers of JSON fields are also those of
  \<open>events.rs\<close>, which repeats them.
\<close>

section \<open>Fields\<close>

definition missing :: "string \<Rightarrow> string \<Rightarrow> runtime_error" where
  "missing what key = Storage (''missing '' @ what @ '' field '' @ quoted key)"

definition string_field :: "json \<Rightarrow> string \<Rightarrow> runtime_error + string" where
  "string_field v key = ok_or (missing ''string'' key) (Option.bind (json_get v key) as_str)"

definition u64_field :: "json \<Rightarrow> string \<Rightarrow> runtime_error + nat" where
  "u64_field v key = ok_or (missing ''u64'' key) (Option.bind (json_get v key) as_u64)"

definition string_array_field :: "json \<Rightarrow> string \<Rightarrow> runtime_error + string list" where
  "string_array_field v key =
     res_bind (ok_or (missing ''string array'' key) (Option.bind (json_get v key) as_array))
       (collect_results (\<lambda>item. ok_or (Storage (''non-string item in '' @ quoted key)) (as_str item)))"

definition string_map_field :: "json \<Rightarrow> string \<Rightarrow> runtime_error + (string, string) fmap" where
  "string_map_field v key =
     res_bind (ok_or (missing ''string map'' key) (Option.bind (json_get v key) as_object))
       (collect_object (\<lambda>fld item.
          ok_or (Storage (''non-string value in '' @ quoted (key @ ''.'' @ fld))) (as_str item)))"

section \<open>Workflow states\<close>

fun workflow_status_str :: "workflow_status \<Rightarrow> string" where
  "workflow_status_str workflow_status.Created = ''Created''"
| "workflow_status_str workflow_status.Running = ''Running''"
| "workflow_status_str workflow_status.Waiting = ''Waiting''"
| "workflow_status_str workflow_status.Failed = ''Failed''"
| "workflow_status_str workflow_status.Compensated = ''Compensated''"
| "workflow_status_str workflow_status.Completed = ''Completed''"
| "workflow_status_str workflow_status.Cancelled = ''Cancelled''"

definition workflow_status_from_str :: "string \<Rightarrow> runtime_error + workflow_status" where
  "workflow_status_from_str s =
     (if s = ''Created'' then Ok workflow_status.Created
      else if s = ''Running'' then Ok workflow_status.Running
      else if s = ''Waiting'' then Ok workflow_status.Waiting
      else if s = ''Failed'' then Ok workflow_status.Failed
      else if s = ''Compensated'' then Ok workflow_status.Compensated
      else if s = ''Completed'' then Ok workflow_status.Completed
      else if s = ''Cancelled'' then Ok workflow_status.Cancelled
      else Err (Storage (''unknown workflow status '' @ quoted s)))"

definition security_to_json :: "security_context \<Rightarrow> json" where
  "security_to_json sec = json_object
     [(''actor'', JString (actor sec)), (''tenant'', JString (tenant sec)),
      (''permissions'', json_strings (sorted_list_of_fset (permissions sec))),
      (''correlation_id'', JString (correlation_id sec)), (''request_id'', JString (request_id sec))]"

definition workflow_to_json :: "workflow_state \<Rightarrow> json" where
  "workflow_to_json st = json_object
     [(''id'', JString (wf_id st)), (''name'', JString (wf_name st)),
      (''status'', JString (workflow_status_str (status st))),
      (''security'', security_to_json (security st)),
      (''started_at_ms'', json_nat (system_time_ms (started_at st))),
      (''updated_at_ms'', json_nat (system_time_ms (updated_at st))),
      (''metadata'', json_string_map (metadata st))]"

definition json_to_security :: "json \<Rightarrow> runtime_error + security_context" where
  "json_to_security v =
     res_bind (string_field v ''actor'') (\<lambda>act.
     res_bind (string_field v ''tenant'') (\<lambda>ten.
     res_bind (string_array_field v ''permissions'') (\<lambda>perms.
     res_bind (string_field v ''correlation_id'') (\<lambda>cid.
     res_bind (string_field v ''request_id'') (\<lambda>rid.
     Ok \<lparr>actor = act, tenant = ten, roles = {||}, permissions = fset_of_list perms,
         correlation_id = cid, request_id = rid, provenance = None, trust = None\<rparr>)))))"

definition json_to_workflow :: "json \<Rightarrow> runtime_error + workflow_state" where
  "json_to_workflow v =
     res_bind (ok_or (Storage ''missing workflow security'') (json_get v ''security'')) (\<lambda>sec.
     res_bind (string_field v ''id'') (\<lambda>i.
     res_bind (string_field v ''name'') (\<lambda>n.
     res_bind (res_bind (string_field v ''status'') workflow_status_from_str) (\<lambda>st.
     res_bind (json_to_security sec) (\<lambda>ctx.
     res_bind (u64_field v ''started_at_ms'') (\<lambda>started.
     res_bind (u64_field v ''updated_at_ms'') (\<lambda>updated.
     res_bind (string_map_field v ''metadata'') (\<lambda>meta.
     Ok \<lparr>wf_id = i, wf_name = n, status = st, security = ctx,
         started_at = system_time_from_ms started, updated_at = system_time_from_ms updated,
         metadata = meta\<rparr>))))))))"

text \<open>What survives.\<close>

definition norm_security :: "security_context \<Rightarrow> security_context" where
  "norm_security sec = sec\<lparr>roles := {||}, provenance := None, trust := None\<rparr>"

definition norm_time :: "system_time \<Rightarrow> system_time" where
  "norm_time t = system_time_from_ms (system_time_ms t)"

definition norm_workflow :: "workflow_state \<Rightarrow> workflow_state" where
  "norm_workflow st = st\<lparr>security := norm_security (security st),
     started_at := norm_time (started_at st), updated_at := norm_time (updated_at st)\<rparr>"

lemma json_fields [simp]:
  "string_field (json_object kvs) k = ok_or (missing ''string'' k) (Option.bind (map_of (rev kvs) k) as_str)"
  "u64_field (json_object kvs) k = ok_or (missing ''u64'' k) (Option.bind (map_of (rev kvs) k) as_u64)"
  by (simp_all add: string_field_def u64_field_def json_get_object del: json_object_get)

lemma as_u64_json_nat [simp]: "n \<le> u64_max \<Longrightarrow> as_u64 (json_nat n) = Some n"
  by (simp add: json_nat_def)

lemma string_array_field_strings:
  "json_get v k = Some (json_strings xs) \<Longrightarrow> string_array_field v k = Ok xs"
proof -
  have "collect_results (\<lambda>item. ok_or e (as_str item)) (map JString xs) = Ok xs" for e
    by (induction xs) simp_all
  then show "json_get v k = Some (json_strings xs) \<Longrightarrow> string_array_field v k = Ok xs"
    by (simp add: string_array_field_def json_strings_def)
qed

lemma string_map_field_map:
  "json_get v k = Some (json_string_map m) \<Longrightarrow> string_map_field v k = Ok m"
  by (simp add: string_map_field_def json_string_map_def) (rule collect_object_fmmap, simp)

lemma workflow_status_roundtrip [simp]: "workflow_status_from_str (workflow_status_str st) = Ok st"
  by (cases st) (simp_all add: workflow_status_from_str_def)

lemma security_roundtrip [simp]: "json_to_security (security_to_json sec) = Ok (norm_security sec)"
  using string_array_field_strings [of "security_to_json sec" "''permissions''"
      "sorted_list_of_fset (permissions sec)"]
  by (simp add: json_to_security_def security_to_json_def json_get_object norm_security_def
      del: json_object_get)

lemma workflow_roundtrip: "json_to_workflow (workflow_to_json st) = Ok (norm_workflow st)"
  using string_map_field_map [of "workflow_to_json st" "''metadata''" "metadata st"]
  by (simp add: json_to_workflow_def workflow_to_json_def json_get_object norm_workflow_def
      norm_time_def del: json_object_get)

lemma security_plain [simp]: "json_plain (security_to_json sec)"
  unfolding security_to_json_def by (intro json_plain_object) simp

lemma workflow_plain: "json_plain (workflow_to_json st)"
  unfolding workflow_to_json_def by (intro json_plain_object) simp

section \<open>Audit events\<close>

fun audit_result_to_json :: "audit_result \<Rightarrow> json" where
  "audit_result_to_json audit_result.Started = json_object [(''kind'', JString ''Started'')]"
| "audit_result_to_json audit_result.Waiting = json_object [(''kind'', JString ''Waiting'')]"
| "audit_result_to_json audit_result.Resumed = json_object [(''kind'', JString ''Resumed'')]"
| "audit_result_to_json audit_result.Succeeded = json_object [(''kind'', JString ''Succeeded'')]"
| "audit_result_to_json (audit_result.Failed reason) =
     json_object [(''kind'', JString ''Failed''), (''reason'', JString reason)]"
| "audit_result_to_json audit_result.RolledBack = json_object [(''kind'', JString ''RolledBack'')]"
| "audit_result_to_json audit_result.Cancelled = json_object [(''kind'', JString ''Cancelled'')]"

definition audit_to_json :: "audit_event \<Rightarrow> json" where
  "audit_to_json e = json_object
     [(''event_id'', JString (ae_event_id e)),
      (''timestamp_ms'', json_nat (system_time_ms (ae_timestamp e))),
      (''actor'', JString (ae_actor e)), (''tenant'', JString (ae_tenant e)),
      (''action'', JString (ae_action e)), (''result'', audit_result_to_json (ae_result e)),
      (''permissions_used'', json_strings (ae_permissions_used e)),
      (''data_sources'', json_strings (ae_data_sources e)),
      (''ai_models'', json_strings (ae_ai_models e)),
      (''confidence_values'', JArray (map json_f64 (ae_confidence_values e))),
      (''rollback_status'', json_opt JString (ae_rollback_status e)),
      (''correlation_id'', JString (ae_correlation_id e)),
      (''request_id'', JString (ae_request_id e))]"

lemma audit_plain: "ae_confidence_values e = [] \<Longrightarrow> json_plain (audit_to_json e)"
proof -
  have "json_plain (audit_result_to_json r)" for r
    by (cases r) (simp_all add: json_plain_object)
  then show "ae_confidence_values e = [] \<Longrightarrow> json_plain (audit_to_json e)"
    unfolding audit_to_json_def
    by (intro json_plain_object) (simp add: json_opt_def split: option.split)
qed

section \<open>The state store\<close>

record file_state_store = root :: path

definition workflow_dir :: "file_state_store \<Rightarrow> path" where
  "workflow_dir st = root st @ [''workflows'']"

definition workflow_path :: "file_state_store \<Rightarrow> string \<Rightarrow> path" where
  "workflow_path st i = workflow_dir st @ [safe_file_id i @ ''.json'']"

text \<open>\<open>to_vec_pretty\<close>, then a write to the temporary name and a rename.\<close>

definition replace_json :: "'b codec \<Rightarrow> path \<Rightarrow> json \<Rightarrow> ('b world, runtime_error, unit) stm" where
  "replace_json c p v =
     rbind (rlift (storage_result (to_vec c v))) (\<lambda>bytes.
     write_then_rename (with_extension ''json.tmp'' p) p bytes)"

definition save_workflow ::
    "'b codec \<Rightarrow> file_state_store \<Rightarrow> workflow_state \<Rightarrow> ('b world, runtime_error, unit) stm" where
  "save_workflow c st state =
     rbind (storage_io (create_dir_all (workflow_dir st))) (\<lambda>_.
     replace_json c (workflow_path st (wf_id state)) (workflow_to_json state))"

definition load_workflow ::
    "'b codec \<Rightarrow> file_state_store \<Rightarrow> string \<Rightarrow> ('b world, runtime_error, workflow_state option) stm" where
  "load_workflow c st i w =
     (let p = workflow_path st i in
        if \<not> path_exists p w then (Ok None, w)
        else rbind (read_json c p) (\<lambda>v. rlift (res_map Some (json_to_workflow v))) w)"

text \<open>\<open>collect\<close> of an iterator whose elements are computed with effects: the first error
  stops it.\<close>

primrec collect_stm :: "('a \<Rightarrow> ('s, 'e, 'b) stm) \<Rightarrow> 'a list \<Rightarrow> ('s, 'e, 'b list) stm" where
  "collect_stm f [] = rreturn []"
| "collect_stm f (x # xs) =
     rbind (f x) (\<lambda>y. rbind (collect_stm f xs) (\<lambda>ys. rreturn (y # ys)))"

definition json_files :: "(io_error + path) list \<Rightarrow> path list" where
  "json_files rs = filter (\<lambda>p. file_extension p = Some ''json'') (List.map_filter ok rs)"

definition list_workflows ::
    "'b codec \<Rightarrow> file_state_store \<Rightarrow> ('b world, runtime_error, workflow_state list) stm" where
  "list_workflows c st w =
     (if \<not> path_exists (workflow_dir st) w then (Ok [], w)
      else rbind (storage_io (read_dir (workflow_dir st))) (\<lambda>rs.
             collect_stm (\<lambda>p. rbind (read_json c p) (\<lambda>v. rlift (json_to_workflow v)))
               (sort (json_files rs))) w)"

record file_audit_sink = sink_path :: path

definition append_audit ::
    "'b codec \<Rightarrow> file_audit_sink \<Rightarrow> audit_event \<Rightarrow> ('b world, runtime_error, unit) stm" where
  "append_audit c sink e =
     rbind (if sink_path sink = [] then rreturn ()
            else storage_io (create_dir_all (butlast (sink_path sink)))) (\<lambda>_.
     rbind (storage_io (fs_open_append (sink_path sink))) (\<lambda>_.
     rbind (rlift (storage_result (to_vec c (audit_to_json e)))) (\<lambda>line.
     storage_io (fs_append (sink_path sink) line))))"

section \<open>The interface of a state store\<close>

text \<open>A store is a table from keys to states: saving puts the normalised state under the key of
  its id, loading looks the key of the id up.\<close>

locale state_store =
  fixes save :: "workflow_state \<Rightarrow> ('w, runtime_error, unit) stm"
    and load :: "string \<Rightarrow> ('w, runtime_error, workflow_state option) stm"
    and inv :: "'w \<Rightarrow> bool"
    and table :: "'w \<Rightarrow> string \<Rightarrow> workflow_state option"
    and key :: "string \<Rightarrow> string"
    and norm :: "workflow_state \<Rightarrow> workflow_state"
  assumes load_law: "inv w \<Longrightarrow> load i w = (Ok (table w (key i)), w)"
    and save_law: "inv w \<Longrightarrow> \<exists>w'. save s w = (Ok (), w') \<and> inv w' \<and> table w' = (table w)(key (wf_id s) \<mapsto> norm s)"
    and norm_id: "wf_id (norm s) = wf_id s"
begin

lemma load_after_save:
  assumes "inv w"
  obtains w' where "save s w = (Ok (), w')" "inv w'"
    "\<And>i. load i w' = (Ok (if key i = key (wf_id s) then Some (norm s) else table w (key i)), w')"
  using save_law [OF assms, of s] load_law by fastforce

end

section \<open>The file store meets it\<close>

lemma replace_json_ok:
  assumes "codec_ok c" and "json_plain v" and "faults w = []" and "p \<noteq> []"
    and "is_dir w (butlast p)" and "\<not> is_dir w p" and "\<not> is_dir w (with_extension ''json.tmp'' p)"
  obtains w' b where "replace_json c p v w = (Ok (), w')" "from_slice c [b] = Ok v"
    "\<And>q. file_content w' q = (if q = p then Some [b]
            else if q = with_extension ''json.tmp'' p then None else file_content w q)"
    "dirs w' = dirs w" "faults w' = []" "ticks w' = ticks w" "clock w' = clock w"
proof -
  let ?t = "with_extension ''json.tmp'' p"
  obtain b where b: "to_vec c v = Ok b" "from_slice c [b] = Ok v"
    using codec_okD [OF assms(1,2)] by blast
  have "?t \<noteq> p" using assms(4) by (intro with_extension_neq) simp_all
  then obtain w' where w': "write_then_rename ?t p b w = (Ok (), w')"
    "\<And>q. file_content w' q = (if q = p then Some [b] else if q = ?t then None else file_content w q)"
    "dirs w' = dirs w" "faults w' = []" "ticks w' = ticks w" "clock w' = clock w"
    by (rule write_then_rename_ok [OF assms(3) with_extension_butlast _ assms(5-7)]) blast+
  have "replace_json c p v w = (Ok (), w')"
    using b w' by (simp add: replace_json_def rbind_def storage_result_def)
  with that b w' show ?thesis by blast
qed

lemma temp_not_json: "with_extension ''json.tmp'' p \<noteq> d @ [n @ ''.json'']"
proof
  assume "with_extension ''json.tmp'' p = d @ [n @ ''.json'']"
  then have "last (last (with_extension ''json.tmp'' p)) = last (n @ ''.json'')" by simp
  then show False by (simp add: with_extension_def)
qed

text \<open>No file is where a directory of the store belongs, no directory where a file belongs, and
  every JSON file in the directory holds a workflow state.\<close>

definition dir_ready :: "path \<Rightarrow> 'b world \<Rightarrow> bool" where
  "dir_ready d w \<longleftrightarrow> (\<forall>q \<in> set (prefixes_of d). file_content w q = None) \<and> (\<forall>n. \<not> is_dir w (d @ [n]))"

definition store_inv :: "'b codec \<Rightarrow> file_state_store \<Rightarrow> 'b world \<Rightarrow> bool" where
  "store_inv c st w \<longleftrightarrow>
     codec_ok c \<and> faults w = [] \<and> dir_ready (workflow_dir st) w
     \<and> (\<forall>n bs. file_content w (workflow_dir st @ [n @ ''.json'']) = Some bs \<longrightarrow>
          (\<exists>v s. from_slice c bs = Ok v \<and> json_to_workflow v = Ok s))"

definition store_table :: "'b codec \<Rightarrow> file_state_store \<Rightarrow> 'b world \<Rightarrow> string \<Rightarrow> workflow_state option" where
  "store_table c st w k =
     (case file_content w (workflow_dir st @ [k @ ''.json'']) of
        None \<Rightarrow> None
      | Some bs \<Rightarrow> ok (res_bind (storage_result (from_slice c bs)) json_to_workflow))"

lemma workflow_dir_nonempty [simp]: "workflow_dir st \<noteq> []"
  by (simp add: workflow_dir_def)

lemma load_workflow_law:
  assumes "store_inv c st w"
  shows "load_workflow c st i w = (Ok (store_table c st w (safe_file_id i)), w)"
proof -
  let ?p = "workflow_path st i"
  have p: "?p = workflow_dir st @ [safe_file_id i @ ''.json'']" by (simp add: workflow_path_def)
  have nd: "\<not> is_dir w ?p" and nf: "faults w = []"
    using assms by (simp_all add: store_inv_def dir_ready_def p)
  show ?thesis
  proof (cases "file_content w ?p")
    case None
    with nd show ?thesis by (simp add: load_workflow_def path_exists_def store_table_def p)
  next
    case (Some bs)
    then obtain v s where v: "from_slice c bs = Ok v" "json_to_workflow v = Ok s"
      using assms unfolding p store_inv_def by blast
    have "load_workflow c st i w = (Ok (Some s), w)"
      using read_json_ok [OF nf Some v(1)] Some v(2)
      by (simp add: load_workflow_def path_exists_def rbind_def)
    then show ?thesis
      using Some v by (simp add: store_table_def p storage_result_def)
  qed
qed

text \<open>Storing a JSON value under a name of a directory: create the directory, write, rename.\<close>

lemma store_json:
  assumes "codec_ok c" and "json_plain v" and "faults w = []" and "dir_ready d w" and "d \<noteq> []"
  obtains w' b where
    "rbind (storage_io (create_dir_all d)) (\<lambda>_. replace_json c (d @ [k @ ''.json'']) v) w = (Ok (), w')"
    "from_slice c [b] = Ok v"
    "\<And>n. file_content w' (d @ [n @ ''.json''])
        = (if n = k then Some [b] else file_content w (d @ [n @ ''.json'']))"
    "dir_ready d w'" "faults w' = []"
    "\<And>q. butlast q \<noteq> d \<Longrightarrow> file_content w' q = file_content w q"
    "\<And>q. is_dir w' q \<longleftrightarrow> is_dir w q \<or> q \<in> set (prefixes_of d)"
    "ticks w' = ticks w" "clock w' = clock w"
proof -
  let ?p = "d @ [k @ ''.json'']"
  note ready = assms(4) [unfolded dir_ready_def]
  obtain w1 where w1: "create_dir_all d w = (Ok (), w1)" "files w1 = files w" "faults w1 = []"
    "ticks w1 = ticks w" "clock w1 = clock w"
    "\<And>q. is_dir w1 q \<longleftrightarrow> is_dir w q \<or> q \<in> set (prefixes_of d)"
    using create_dir_all_ok [of w d] ready assms(3) by metis
  have child: "d @ [n] \<notin> set (prefixes_of d)" for n
    using prefixes_of_shorter [of "d @ [n]" "d @ [n]"] by auto
  have t: "\<exists>n. with_extension ''json.tmp'' ?p = d @ [n]" by (simp add: with_extension_def)
  have pre: "is_dir w1 (butlast ?p)" "\<not> is_dir w1 ?p" "\<not> is_dir w1 (with_extension ''json.tmp'' ?p)"
    using w1(6) ready child t assms(5) by auto
  obtain w' b where w': "replace_json c ?p v w1 = (Ok (), w')" "from_slice c [b] = Ok v"
    "\<And>q. file_content w' q = (if q = ?p then Some [b]
            else if q = with_extension ''json.tmp'' ?p then None else file_content w1 q)"
    "dirs w' = dirs w1" "faults w' = []" "ticks w' = ticks w1" "clock w' = clock w1"
    by (rule replace_json_ok [OF assms(1,2) w1(3) _ pre]) blast+
  have fc: "file_content w1 = file_content w" using w1(2) by (auto simp: file_content_def)
  have id': "is_dir w' q \<longleftrightarrow> is_dir w1 q" for q using w'(4) by (simp add: is_dir_def)
  show ?thesis
  proof (rule that)
    show "rbind (storage_io (create_dir_all d)) (\<lambda>_. replace_json c ?p v) w = (Ok (), w')"
      using w1(1) w'(1) by (simp add: rbind_def storage_io_def)
    show "file_content w' (d @ [n @ ''.json'']) = (if n = k then Some [b] else file_content w (d @ [n @ ''.json'']))" for n
      using w'(3) temp_not_json [of ?p d n] by (simp add: fc)
    have "\<forall>q \<in> set (prefixes_of d). file_content w' q = None"
      using w'(3) child t ready by (metis fc)
    then show "dir_ready d w'" using ready w1(6) id' child by (auto simp: dir_ready_def)
    show "file_content w' q = file_content w q" if "butlast q \<noteq> d" for q
    proof -
      have "q \<noteq> ?p" "q \<noteq> with_extension ''json.tmp'' ?p" using that t by auto
      then show ?thesis using w'(3) by (simp add: fc)
    qed
  qed (use w1 w' id' in simp_all)
qed

lemma save_workflow_law:
  assumes "store_inv c st w"
  obtains w' where "save_workflow c st s w = (Ok (), w')" "store_inv c st w'"
    "store_table c st w' = (store_table c st w)(safe_file_id (wf_id s) \<mapsto> norm_workflow s)"
    "\<And>q. butlast q \<noteq> workflow_dir st \<Longrightarrow> file_content w' q = file_content w q"
    "\<And>q. is_dir w' q \<longleftrightarrow> is_dir w q \<or> q \<in> set (prefixes_of (workflow_dir st))"
    "ticks w' = ticks w" "clock w' = clock w"
proof -
  let ?d = "workflow_dir st" and ?k = "safe_file_id (wf_id s)"
  note inv = assms [unfolded store_inv_def]
  have ck: "codec_ok c" "faults w = []" "dir_ready ?d w" using inv by simp_all
  obtain w' b where w':
    "rbind (storage_io (create_dir_all ?d)) (\<lambda>_. replace_json c (?d @ [?k @ ''.json'']) (workflow_to_json s)) w = (Ok (), w')"
    "from_slice c [b] = Ok (workflow_to_json s)"
    "\<And>n. file_content w' (?d @ [n @ ''.json'']) = (if n = ?k then Some [b] else file_content w (?d @ [n @ ''.json'']))"
    "dir_ready ?d w'" "faults w' = []"
    and frame: "\<And>q. butlast q \<noteq> ?d \<Longrightarrow> file_content w' q = file_content w q"
    "\<And>q. is_dir w' q \<longleftrightarrow> is_dir w q \<or> q \<in> set (prefixes_of ?d)" "ticks w' = ticks w" "clock w' = clock w"
    by (rule store_json [OF ck(1) workflow_plain ck(2,3) workflow_dir_nonempty]) blast
  show ?thesis
  proof (rule that)
    show "save_workflow c st s w = (Ok (), w')"
      using w'(1) by (simp add: save_workflow_def workflow_path_def)
    show "store_inv c st w'"
      using inv w'(2-5) workflow_roundtrip [of s] by (auto simp: store_inv_def)
    show "store_table c st w' = (store_table c st w)(?k \<mapsto> norm_workflow s)"
      using w'(2,3) by (auto simp: store_table_def storage_result_def workflow_roundtrip)
  qed (use frame in simp_all)
qed

interpretation file_states: state_store "save_workflow c st" "load_workflow c st" "store_inv c st"
    "store_table c st" safe_file_id norm_workflow
  for c :: "'b codec" and st
proof
  fix s and w :: "'b world"
  assume "store_inv c st w"
  then show "\<exists>w'. save_workflow c st s w = (Ok (), w') \<and> store_inv c st w'
      \<and> store_table c st w' = (store_table c st w)(safe_file_id (wf_id s) \<mapsto> norm_workflow s)"
    by (rule save_workflow_law) blast
qed (simp_all add: load_workflow_law norm_workflow_def)

text \<open>C33: a saved workflow is loaded back, without what its JSON leaves out, under every id with
  the same file name, and what is stored under other file names stays.\<close>

theorem saved_workflow_loaded:
  assumes "store_inv c st w"
  shows "\<exists>w'. save_workflow c st s w = (Ok (), w') \<and> store_inv c st w'
    \<and> (\<forall>i. load_workflow c st i w'
        = (Ok (if safe_file_id i = safe_file_id (wf_id s) then Some (norm_workflow s)
               else store_table c st w (safe_file_id i)), w'))"
  using file_states.load_after_save [OF assms, of s] by metis

definition sample_security :: security_context where
  "sample_security = \<lparr>actor = ''a'', tenant = ''t'', roles = {|''admin''|}, permissions = {||},
     correlation_id = ''c'', request_id = ''r'', provenance = None, trust = None\<rparr>"

definition sample_state :: workflow_state where
  "sample_state = \<lparr>wf_id = ''order/1'', wf_name = ''pay'', status = workflow_status.Running,
     security = sample_security, started_at = 1500000, updated_at = 2500000, metadata = fmempty\<rparr>"

definition sample_world :: "json world" where
  "sample_world = \<lparr>files = [], dirs = [], faults = [], clock = (\<lambda>n. int n * 1000000), ticks = 0\<rparr>"

abbreviation "sample_store \<equiv> \<lparr>root = [''data'']\<rparr>"

lemma sample_store_inv: "store_inv id_codec sample_store sample_world"
  by (simp add: store_inv_def dir_ready_def sample_world_def is_dir_def file_content_def
      workflow_dir_def prefixes_of_def)

theorem saved_workflow_loaded_witness:
  "\<exists>w'. save_workflow id_codec sample_store sample_state sample_world = (Ok (), w')
     \<and> fst (load_workflow id_codec sample_store ''order_1'' w') = Ok (Some (norm_workflow sample_state))"
proof -
  have "safe_file_id ''order/1'' = ''order_1''" "safe_file_id ''order_1'' = ''order_1''" by code_simp+
  then show ?thesis
    using saved_workflow_loaded [OF sample_store_inv, of sample_state]
    by (auto simp: sample_state_def)
qed

section \<open>Saving when operations fail\<close>

lemma attempt_cases:
  assumes "attempt partial m w = (r, w')"
  obtains (run) "m (w\<lparr>faults := tl (faults w)\<rparr>) = (r, w')"
  | (failed) e where "r = Err e" "w' = w\<lparr>faults := tl (faults w)\<rparr>"
  | (partly) e left where "r = Err e" "w' = partial left (w\<lparr>faults := tl (faults w)\<rparr>)"
proof (cases "faults w")
  case Nil
  then have "w\<lparr>faults := tl (faults w)\<rparr> = w" by simp
  moreover have "m w = (r, w')" using assms Nil by (simp only: attempt_no_fault)
  ultimately show ?thesis using that(1) by argo
next
  case (Cons f fs)
  with assms that show ?thesis by (cases f) (auto simp: attempt_def next_fault_def)
qed

lemma create_dir_all_any:
  assumes "create_dir_all d w = (r, w')"
  shows "files w' = files w" and "is_dir w' q \<Longrightarrow> is_dir w q \<or> q \<in> set (prefixes_of d)"
proof -
  from assms [unfolded create_dir_all_def]
  have "files w' = files w \<and> (is_dir w' q \<longrightarrow> is_dir w q \<or> q \<in> set (prefixes_of d))"
    by (cases rule: attempt_cases) (auto simp: is_dir_def split: if_splits)
  then show "files w' = files w" "is_dir w' q \<Longrightarrow> is_dir w q \<or> q \<in> set (prefixes_of d)" by blast+
qed

lemma fs_write_any:
  assumes "fs_write t b w = (r, w')"
  shows "dirs w' = dirs w" and "q \<noteq> t \<Longrightarrow> file_content w' q = file_content w q"
    and "r = Ok u \<Longrightarrow> file_content w' t = Some [b]"
proof -
  from assms [unfolded fs_write_def]
  have "dirs w' = dirs w \<and> (q \<noteq> t \<longrightarrow> file_content w' q = file_content w q)
      \<and> (r = Ok u \<longrightarrow> file_content w' t = Some [b])"
    by (cases rule: attempt_cases) (auto simp: file_content_def split: if_splits)
  then show "dirs w' = dirs w" "q \<noteq> t \<Longrightarrow> file_content w' q = file_content w q"
    "r = Ok u \<Longrightarrow> file_content w' t = Some [b]" by blast+
qed

lemma fs_rename_any:
  assumes "fs_rename t p w = (r, w')" and "t \<noteq> p"
  shows "dirs w' = dirs w" and "r = Err e \<Longrightarrow> file_content w' q = file_content w q"
    and "r = Ok u \<Longrightarrow> file_content w' q =
      (if q = p then file_content w t else if q = t then None else file_content w q)"
proof -
  from assms(1) [unfolded fs_rename_def]
  have "dirs w' = dirs w \<and> (r = Err e \<longrightarrow> file_content w' q = file_content w q)
      \<and> (r = Ok u \<longrightarrow> file_content w' q =
      (if q = p then file_content w t else if q = t then None else file_content w q))"
    by (cases rule: attempt_cases)
      (use assms(2) in \<open>auto simp: file_content_def split: option.splits if_splits\<close>)
  then show "dirs w' = dirs w" "r = Err e \<Longrightarrow> file_content w' q = file_content w q"
    "r = Ok u \<Longrightarrow> file_content w' q =
      (if q = p then file_content w t else if q = t then None else file_content w q)" by blast+
qed

text \<open>A failed replacement leaves every file but the temporary one as it was.\<close>

lemma replace_json_any:
  assumes "replace_json c p v w = (r, w')" and "p \<noteq> []" and "codec_ok c" and "json_plain v"
  shows "dirs w' = dirs w"
    and "r = Err e \<Longrightarrow> q \<noteq> with_extension ''json.tmp'' p \<Longrightarrow> file_content w' q = file_content w q"
    and "r = Ok u \<Longrightarrow> \<exists>b. from_slice c [b] = Ok v \<and> file_content w' = (\<lambda>q. if q = p then Some [b]
            else if q = with_extension ''json.tmp'' p then None else file_content w q)"
proof -
  let ?t = "with_extension ''json.tmp'' p"
  have t: "?t \<noteq> p" using assms(2) by (intro with_extension_neq) simp_all
  obtain b where b: "to_vec c v = Ok b" "from_slice c [b] = Ok v"
    using codec_okD [OF assms(3,4)] by blast
  obtain r1 w1 where w1: "fs_write ?t b w = (r1, w1)" by (cases "fs_write ?t b w")
  obtain r2 w2 where w2: "fs_rename ?t p w1 = (r2, w2)" by (cases "fs_rename ?t p w1")
  have "(\<exists>e. r1 = Err e \<and> (\<exists>e. r = Err e) \<and> w' = w1)
      \<or> (r1 = Ok () \<and> w' = w2 \<and> (is_ok r \<longleftrightarrow> is_ok r2))"
    using assms(1) b w1 w2
    by (cases r1; cases r2)
      (auto simp: replace_json_def rbind_def storage_result_def write_then_rename_def storage_io_def)
  then have "dirs w' = dirs w \<and> (is_err r \<longrightarrow> q \<noteq> ?t \<longrightarrow> file_content w' q = file_content w q)
      \<and> (is_ok r \<longrightarrow> file_content w' = (\<lambda>q. if q = p then Some [b]
            else if q = ?t then None else file_content w q))"
    using fs_write_any [OF w1] fs_rename_any [OF w2 t]
    by (cases r; cases r2) (auto simp: fun_eq_iff)
  then show "dirs w' = dirs w"
    "r = Err e \<Longrightarrow> q \<noteq> ?t \<Longrightarrow> file_content w' q = file_content w q"
    "r = Ok u \<Longrightarrow> \<exists>b. from_slice c [b] = Ok v \<and> file_content w' = (\<lambda>q. if q = p then Some [b]
            else if q = ?t then None else file_content w q)"
    using b(2) by auto
qed

lemma store_inv_recovers:
  assumes "store_inv c st w0" and "codec_ok c" and "faults w = []"
    and "\<And>q. file_content w q = (if q = t then x else file_content w0 q)" and "\<And>d n. t \<noteq> d @ [n @ ''.json'']"
    and "t \<notin> set (prefixes_of (workflow_dir st))"
    and "\<And>q. is_dir w q \<Longrightarrow> is_dir w0 q \<or> q \<in> set (prefixes_of (workflow_dir st))"
  shows "store_inv c st w" and "store_table c st w = store_table c st w0"
proof -
  have f: "file_content w (d @ [n @ ''.json'']) = file_content w0 (d @ [n @ ''.json''])" for d n
    using assms(4) assms(5) [of d n] by auto
  have child: "d @ [n] \<notin> set (prefixes_of d)" for d and n :: string
    using prefixes_of_shorter [of "d @ [n]" "d @ [n]"] by auto
  have "\<not> is_dir w (workflow_dir st @ [n])" for n
    using assms(1) assms(7) [of "workflow_dir st @ [n]"] child [of "workflow_dir st" n]
    by (auto simp: store_inv_def dir_ready_def)
  moreover have "\<forall>q \<in> set (prefixes_of (workflow_dir st)). file_content w q = None"
    using assms(1,4,6) by (auto simp: store_inv_def dir_ready_def)
  ultimately show "store_inv c st w"
    using assms(1) unfolding store_inv_def dir_ready_def f by (simp add: assms(2,3))
  show "store_table c st w = store_table c st w0"
    by (rule ext) (simp add: store_table_def f)
qed

text \<open>C32: saving is all or nothing: whatever operations fail, and whatever a failed write leaves
  in the temporary file, once operations work again the store is intact; it holds the new state
  if the save reported success and exactly what it held before if it reported an error.\<close>

theorem save_workflow_atomic:
  assumes "store_inv c st (w\<lparr>faults := []\<rparr>)" and "save_workflow c st s w = (r, w')"
  shows "store_inv c st (w'\<lparr>faults := []\<rparr>)
    \<and> store_table c st (w'\<lparr>faults := []\<rparr>) =
        (if is_ok r then (store_table c st (w\<lparr>faults := []\<rparr>))(safe_file_id (wf_id s) \<mapsto> norm_workflow s)
         else store_table c st (w\<lparr>faults := []\<rparr>))"
proof -
  let ?d = "workflow_dir st" and ?p = "workflow_path st (wf_id s)" and ?v = "workflow_to_json s"
  let ?t = "with_extension ''json.tmp'' ?p" and ?w0 = "w\<lparr>faults := []\<rparr>"
  have p: "?p = ?d @ [safe_file_id (wf_id s) @ ''.json'']" by (simp add: workflow_path_def)
  have ck: "codec_ok c" using assms(1) by (simp add: store_inv_def)
  have child: "?d @ [n] \<notin> set (prefixes_of ?d)" for n
    using prefixes_of_shorter [of "?d @ [n]" "?d @ [n]"] by auto
  have tp: "?t \<notin> set (prefixes_of ?d)" using child by (simp add: with_extension_def p)
  obtain r1 w1 where w1: "create_dir_all ?d w = (r1, w1)" by (cases "create_dir_all ?d w")
  note any1 = create_dir_all_any [OF w1]
  have fc1: "file_content w1 q = file_content ?w0 q" for q
    using any1(1) by (simp add: file_content_def)
  note rec = store_inv_recovers [OF assms(1) ck]
  show ?thesis
  proof (cases r1)
    case (Inl e)
    then have "w' = w1" "\<not> is_ok r"
      using assms(2) w1 by (auto simp: save_workflow_def rbind_def storage_io_def)
    moreover have "store_inv c st (w1\<lparr>faults := []\<rparr>)" "store_table c st (w1\<lparr>faults := []\<rparr>) = store_table c st ?w0"
      using rec [of "w1\<lparr>faults := []\<rparr>" ?t "file_content ?w0 ?t"] any1(2) tp fc1
        temp_not_json by auto
    ultimately show ?thesis by simp
  next
    case (Inr u)
    then have rep: "replace_json c ?p ?v w1 = (r, w')"
      using assms(2) w1 by (simp add: save_workflow_def rbind_def storage_io_def)
    have pn: "?p \<noteq> []" by (simp add: p)
    note any2 = replace_json_any [OF rep pn ck workflow_plain]
    show ?thesis
    proof (cases r)
      case (Inl e)
      have "store_inv c st (w'\<lparr>faults := []\<rparr>)" "store_table c st (w'\<lparr>faults := []\<rparr>) = store_table c st ?w0"
        using rec [of "w'\<lparr>faults := []\<rparr>" ?t "file_content w' ?t"] any1(2) any2(1,2) tp fc1
          temp_not_json Inl by (auto simp: is_dir_def)
      with Inl show ?thesis by simp
    next
      case (Inr u)
      from any2(3) [OF Inr] obtain b where b: "from_slice c [b] = Ok ?v"
        and e: "file_content w' = (\<lambda>q. if q = ?p then Some [b] else if q = ?t then None else file_content w1 q)"
        by blast
      have fc: "file_content w' q = (if q = ?p then Some [b] else if q = ?t then None else file_content w1 q)"
        for q by (simp add: e)
      have files: "file_content w' (?d @ [n @ ''.json'']) =
          (if n = safe_file_id (wf_id s) then Some [b] else file_content w (?d @ [n @ ''.json'']))" for n
        using fc temp_not_json [of ?p ?d n] fc1 by (simp add: p)
      have "\<forall>q \<in> set (prefixes_of ?d). file_content w' q = None"
        using fc fc1 child tp assms(1) by (auto simp: store_inv_def dir_ready_def p)
      moreover have "\<not> is_dir w' (?d @ [n])" for n
        using any2(1) any1(2) [of "?d @ [n]"] child assms(1)
        by (auto simp: store_inv_def dir_ready_def is_dir_def)
      moreover have "\<exists>v x. from_slice c bs = Ok v \<and> json_to_workflow v = Ok x"
        if "file_content w' (?d @ [n @ ''.json'']) = Some bs" for n bs
      proof (cases "n = safe_file_id (wf_id s)")
        case True
        with that files b workflow_roundtrip [of s] show ?thesis by auto
      next
        case False
        with that files [of n] assms(1) show ?thesis by (simp add: store_inv_def)
      qed
      ultimately have "store_inv c st (w'\<lparr>faults := []\<rparr>)"
        using ck by (simp add: store_inv_def dir_ready_def)
      moreover have "store_table c st (w'\<lparr>faults := []\<rparr>)
          = (store_table c st ?w0)(safe_file_id (wf_id s) \<mapsto> norm_workflow s)"
        using files b by (auto simp: store_table_def storage_result_def workflow_roundtrip)
      ultimately show ?thesis using Inr by simp
    qed
  qed
qed

theorem save_workflow_atomic_witness:
  "\<exists>r w'. save_workflow id_codec sample_store sample_state
      (sample_world\<lparr>faults := [NoFault, PartialFault (other_error ''disk full'') []]\<rparr>) = (r, w')
    \<and> store_table id_codec sample_store (w'\<lparr>faults := []\<rparr>) = Map.empty"
proof -
  let ?w = "sample_world\<lparr>faults := [NoFault, PartialFault (other_error ''disk full'') []]\<rparr>"
  obtain r w' where s: "save_workflow id_codec sample_store sample_state ?w = (r, w')"
    by (cases "save_workflow id_codec sample_store sample_state ?w")
  have e: "?w\<lparr>faults := []\<rparr> = sample_world" by (simp add: sample_world_def)
  have "is_err (fst (save_workflow id_codec sample_store sample_state ?w))"
    by (simp add: save_workflow_def rbind_def storage_io_def create_dir_all_def attempt_def
        next_fault_def replace_json_def storage_result_def id_codec_def write_then_rename_def
        fs_write_def sample_world_def file_content_def list_ex_iff)
  with s have "\<not> is_ok r" by (cases r) simp_all
  moreover have "store_table id_codec sample_store sample_world = Map.empty"
    by (rule ext) (simp add: store_table_def sample_world_def file_content_def)
  ultimately show ?thesis
    using save_workflow_atomic [of id_codec sample_store ?w sample_state r w'] s sample_store_inv e by auto
qed

section \<open>Listing the store\<close>

lemma collect_stm_pure:
  "(\<And>x. x \<in> set xs \<Longrightarrow> f x w = (Ok (g x), w)) \<Longrightarrow> collect_stm f xs w = (Ok (map g xs), w)"
  by (induction xs) (simp_all add: rbind_def)

lemma path_le_iff: "(d @ [a] \<le> d @ [b]) \<longleftrightarrow> (a \<le> (b :: string))" for d :: path
  by (induction d) auto

text \<open>\<open>list_workflows\<close> returns every stored workflow exactly once, in the order of the file
  names; a workflow whose file name has no stem is the exception, it is stored under
  \<open>.json\<close>, which has no extension, and it is not listed.\<close>

theorem list_workflows_complete:
  assumes "store_inv c st w" and "is_dir w (workflow_dir st)" and "distinct (map fst (files w))"
  shows "\<exists>ns. distinct ns \<and> sorted (map (\<lambda>n. n @ ''.json'') ns)
    \<and> set ns = {k. k \<noteq> [] \<and> store_table c st w k \<noteq> None}
    \<and> list_workflows c st w = (Ok (map (\<lambda>k. the (store_table c st w k)) ns), w)"
proof -
  let ?d = "workflow_dir st"
  note inv = assms(1) [unfolded store_inv_def dir_ready_def]
  define ps where "ps = filter (\<lambda>p. file_extension p = Some ''json'') (children ?d w)"
  define stem where "stem p = fst (split_extension (last p))" for p :: path
  define ns where "ns = map stem (sort ps)"
  have p: "p = ?d @ [stem p @ ''.json''] \<and> stem p \<noteq> [] \<and> p \<in> set (map fst (files w))" if "p \<in> set ps" for p
  proof -
    from that have pd: "butlast p = ?d" "p \<noteq> []" "p \<in> set (map fst (files w)) \<or> p \<in> set (dirs w)"
      and "snd (split_extension (last p)) = Some ''json''"
      by (auto simp: ps_def children_def file_extension_def split: if_splits)
    then have "split_extension (last p) = (stem p, Some ''json'')" by (simp add: stem_def prod_eq_iff)
    from split_extension_Some [OF this] have "last p = stem p @ ''.json''" "stem p \<noteq> []" by simp_all
    moreover have "p = ?d @ [last p]" using pd by (metis append_butlast_last_id)
    moreover have "p \<notin> set (dirs w)" using inv \<open>p = ?d @ [last p]\<close> by (metis is_dir_def)
    ultimately show ?thesis using pd by auto
  qed
  have stem_inj: "inj_on stem (set ps)" using p by (metis inj_onI)
  have "filter (\<lambda>p. p \<noteq> [] \<and> butlast p = ?d) (dirs w) = []"
  proof (rule ccontr)
    assume "filter (\<lambda>p. p \<noteq> [] \<and> butlast p = ?d) (dirs w) \<noteq> []"
    then obtain q where "q \<in> set (dirs w)" "q \<noteq> []" "butlast q = ?d"
      by (auto simp: filter_empty_conv)
    with inv show False by (metis append_butlast_last_id is_dir_def)
  qed
  then have ps: "ps = filter (\<lambda>p. file_extension p = Some ''json'')
      (filter (\<lambda>p. p \<noteq> [] \<and> butlast p = ?d) (map fst (files w)))"
    by (simp add: ps_def children_def)
  have "distinct ps" unfolding ps using assms(3) by (simp only: distinct_filter)
  then have "distinct ns" unfolding ns_def using stem_inj by (simp add: distinct_map)
  moreover have "map (\<lambda>q. last q) (sort ps) = map (\<lambda>n. n @ ''.json'') ns"
    unfolding ns_def map_map comp_def using p by (intro map_cong) (auto, metis last_snoc)
  moreover have "sorted (map (\<lambda>q. last q) (sort ps))"
  proof -
    have "last a \<le> last b" if "a \<in> set (sort ps)" "b \<in> set (sort ps)" "a \<le> b" for a b
    proof -
      have "a = ?d @ [last a]" "b = ?d @ [last b]"
        using p [of a] p [of b] that(1,2) by (simp_all, metis last_snoc, metis last_snoc)
      with that(3) show ?thesis by (metis path_le_iff)
    qed
    then have "sorted_wrt (\<lambda>a b. last a \<le> last b) (sort ps)"
      using sorted_sort [of ps] by (rule sorted_wrt_mono_rel)
    then show ?thesis by (simp add: sorted_map)
  qed
  moreover have "set ns = {k. k \<noteq> [] \<and> store_table c st w k \<noteq> None}"
  proof -
    have "k \<in> stem ` set ps \<longleftrightarrow> k \<noteq> [] \<and> store_table c st w k \<noteq> None" for k
    proof
      assume "k \<in> stem ` set ps"
      then obtain q where q: "q \<in> set ps" "k = stem q" by blast
      then have "file_content w (?d @ [k @ ''.json'']) \<noteq> None"
        using p [OF q(1)] by (auto simp: file_content_def map_of_eq_None_iff)
      then obtain bs where bs: "file_content w (?d @ [k @ ''.json'']) = Some bs" by blast
      then obtain v x where "from_slice c bs = Ok v" "json_to_workflow v = Ok x" using inv by blast
      then show "k \<noteq> [] \<and> store_table c st w k \<noteq> None"
        using bs p [OF q(1)] q(2) by (simp add: store_table_def storage_result_def)
    next
      assume k: "k \<noteq> [] \<and> store_table c st w k \<noteq> None"
      let ?q = "?d @ [k @ ''.json'']"
      have "file_content w ?q \<noteq> None" using k by (auto simp: store_table_def split: option.splits)
      then have "?q \<in> set (map fst (files w))" by (auto simp: file_content_def map_of_eq_None_iff)
      moreover have "file_extension ?q = Some ''json''" "stem ?q = k"
        using file_extension_dot [of k "''json''" ?d] split_extension_dot [of k "''json''"] k
        by (simp_all add: stem_def)
      ultimately have "?q \<in> set ps" "k = stem ?q" unfolding ps by simp_all
      then show "k \<in> stem ` set ps" by blast
    qed
    then show ?thesis by (auto simp: ns_def)
  qed
  moreover have "list_workflows c st w = (Ok (map (\<lambda>k. the (store_table c st w k)) ns), w)"
  proof -
    have "List.map_filter ok (map (Inr :: path \<Rightarrow> io_error + path) xs) = xs" for xs
      by (induction xs) (simp_all add: List.map_filter_def)
    then have "json_files (map Ok (children ?d w)) = ps" by (simp add: json_files_def ps_def)
    moreover have "collect_stm (\<lambda>p. rbind (read_json c p) (\<lambda>v. rlift (json_to_workflow v))) (sort ps) w
        = (Ok (map (\<lambda>q. the (store_table c st w (stem q))) (sort ps)), w)"
    proof (rule collect_stm_pure)
      fix q assume "q \<in> set (sort ps)"
      then have q: "q = ?d @ [stem q @ ''.json'']" "q \<in> set (map fst (files w))" using p by auto
      then obtain bs where bs: "file_content w q = Some bs"
        by (cases "file_content w q") (auto simp: file_content_def map_of_eq_None_iff)
      then obtain v x where v: "from_slice c bs = Ok v" "json_to_workflow v = Ok x" using inv q by metis
      moreover have "store_table c st w (stem q) = Some x"
        using bs v q(1) by (simp add: store_table_def storage_result_def)
      ultimately show "rbind (read_json c q) (\<lambda>v. rlift (json_to_workflow v)) w
          = (Ok (the (store_table c st w (stem q))), w)"
        using read_json_ok [OF _ bs v(1)] inv by (simp add: rbind_def)
    qed
    moreover have "read_dir ?d w = (Ok (map Ok (children ?d w)), w)"
      using inv assms(2) by (simp add: read_dir_def)
    ultimately show ?thesis
      using assms(2) by (simp add: list_workflows_def path_exists_def rbind_def storage_io_def ns_def comp_def)
  qed
  ultimately show ?thesis by (intro exI [of _ ns]) simp
qed

theorem list_workflows_complete_witness:
  "\<exists>w'. save_workflow id_codec sample_store sample_state sample_world = (Ok (), w')
    \<and> (\<exists>ns. set ns = {k. k \<noteq> [] \<and> store_table id_codec sample_store w' k \<noteq> None}
        \<and> fst (list_workflows id_codec sample_store w')
            = Ok (map (\<lambda>k. the (store_table id_codec sample_store w' k)) ns))"
proof -
  obtain w' where w': "save_workflow id_codec sample_store sample_state sample_world = (Ok (), w')"
    "store_inv id_codec sample_store w'"
    "\<And>q. is_dir w' q \<longleftrightarrow> is_dir sample_world q \<or> q \<in> set (prefixes_of (workflow_dir sample_store))"
    using save_workflow_law [OF sample_store_inv, of sample_state] by metis
  have "distinct (map fst (files (snd (save_workflow id_codec sample_store sample_state sample_world))))"
    by (simp add: save_workflow_def rbind_def storage_io_def create_dir_all_def sample_world_def
        file_content_def list_ex_iff replace_json_def storage_result_def id_codec_def
        write_then_rename_def fs_write_def fs_rename_def is_dir_def with_extension_def drop_file_def
        workflow_path_def prefixes_of_def workflow_dir_def)
  then have "distinct (map fst (files w'))" using w'(1) by simp
  moreover have "is_dir w' (workflow_dir sample_store)" by (simp only: w'(3) prefixes_of_self workflow_dir_nonempty) simp
  ultimately obtain ns where "set ns = {k. k \<noteq> [] \<and> store_table id_codec sample_store w' k \<noteq> None}"
    "list_workflows id_codec sample_store w' = (Ok (map (\<lambda>k. the (store_table id_codec sample_store w' k)) ns), w')"
    using list_workflows_complete [OF w'(2)] by blast
  with w'(1) show ?thesis by auto
qed

end
