(* ===== verification/Events.thy ===== *)
theory Events
  imports Storage
begin

text \<open>
  Workflow events and their queues (\<open>events.rs\<close>): the events, their JSON, the queue in
  memory, and the queue in a directory, where an event is a file whose name begins with a time
  stamp, a claimed event is a file under \<open>leases/\<close>, and an event that failed too often a
  file under \<open>dead/\<close>. \<open>WorkflowEventQueue\<close> is the locale \<open>event_queue\<close>, which both
  queues interpret.
\<close>

section \<open>Events\<close>

text \<open>\<open>WorkflowStart\<close> of \<open>engine.rs\<close>.\<close>

record workflow_start =
  start_id :: string
  start_name :: string
  start_security :: security_context
  start_metadata :: "(string, string) fmap"

datatype workflow_event_kind =
    Start workflow_start
  | Wait string
  | Resume string
  | Complete string
  | Fail string string
  | Compensate string
  | Cancel string

record workflow_event =
  event_id :: string
  queued_at :: system_time
  event_kind :: workflow_event_kind

text \<open>The constructors read the clock; \<open>now\<close> is the reading.\<close>

definition event_start :: "string \<Rightarrow> workflow_start \<Rightarrow> system_time \<Rightarrow> workflow_event" where
  "event_start i start now = \<lparr>event_id = i, queued_at = now, event_kind = Start start\<rparr>"

definition event_transition ::
    "string \<Rightarrow> string \<Rightarrow> (string \<Rightarrow> workflow_event_kind) \<Rightarrow> system_time \<Rightarrow> workflow_event" where
  "event_transition i workflow_id k now =
     \<lparr>event_id = i, queued_at = now, event_kind = k workflow_id\<rparr>"

definition event_wait :: "string \<Rightarrow> string \<Rightarrow> system_time \<Rightarrow> workflow_event" where
  "event_wait i workflow_id = event_transition i workflow_id Wait"

definition event_resume :: "string \<Rightarrow> string \<Rightarrow> system_time \<Rightarrow> workflow_event" where
  "event_resume i workflow_id = event_transition i workflow_id Resume"

definition event_complete :: "string \<Rightarrow> string \<Rightarrow> system_time \<Rightarrow> workflow_event" where
  "event_complete i workflow_id = event_transition i workflow_id Complete"

definition event_fail :: "string \<Rightarrow> string \<Rightarrow> string \<Rightarrow> system_time \<Rightarrow> workflow_event" where
  "event_fail i workflow_id reason now =
     \<lparr>event_id = i, queued_at = now, event_kind = Fail workflow_id reason\<rparr>"

definition event_compensate :: "string \<Rightarrow> string \<Rightarrow> system_time \<Rightarrow> workflow_event" where
  "event_compensate i workflow_id = event_transition i workflow_id Compensate"

definition event_cancel :: "string \<Rightarrow> string \<Rightarrow> system_time \<Rightarrow> workflow_event" where
  "event_cancel i workflow_id = event_transition i workflow_id Cancel"

record workflow_lease_options =
  option_worker_id :: string
  lease_timeout :: duration
  max_attempts :: nat

definition default_lease_options :: workflow_lease_options where
  "default_lease_options =
     \<lparr>option_worker_id = ''local-worker'', lease_timeout = 30 * 1000000000, max_attempts = 3\<rparr>"

record workflow_event_lease =
  lease_event :: workflow_event
  lease_worker_id :: string
  lease_attempt :: nat
  lease_path :: path

record workflow_lease_heartbeat =
  hb_event_id :: string
  hb_worker_id :: string
  hb_attempt :: nat
  hb_previous_leased_at_ms :: nat
  hb_leased_at_ms :: nat

definition heartbeat_to_json :: "workflow_lease_heartbeat \<Rightarrow> json" where
  "heartbeat_to_json h = json_object
     [(''event_id'', JString (hb_event_id h)), (''worker_id'', JString (hb_worker_id h)),
      (''attempt'', json_nat (hb_attempt h)),
      (''previous_leased_at_ms'', json_nat (hb_previous_leased_at_ms h)),
      (''leased_at_ms'', json_nat (hb_leased_at_ms h))]"

datatype workflow_lease_disposition = Requeued | DeadLettered

record workflow_queue_item =
  item_event :: workflow_event
  item_attempt :: nat

record workflow_lease_metadata =
  meta_worker_id :: string
  meta_leased_at :: system_time

section \<open>JSON\<close>

fun event_kind_to_json :: "workflow_event_kind \<Rightarrow> json" where
  "event_kind_to_json (Start start) = json_object
     [(''type'', JString ''Start''),
      (''workflow'', json_object
        [(''id'', JString (start_id start)), (''name'', JString (start_name start)),
         (''security'', security_to_json (start_security start)),
         (''metadata'', json_string_map (start_metadata start))])]"
| "event_kind_to_json (Wait workflow_id) =
     json_object [(''type'', JString ''Wait''), (''workflow_id'', JString workflow_id)]"
| "event_kind_to_json (Resume workflow_id) =
     json_object [(''type'', JString ''Resume''), (''workflow_id'', JString workflow_id)]"
| "event_kind_to_json (Complete workflow_id) =
     json_object [(''type'', JString ''Complete''), (''workflow_id'', JString workflow_id)]"
| "event_kind_to_json (Fail workflow_id reason) =
     json_object [(''type'', JString ''Fail''), (''workflow_id'', JString workflow_id),
       (''reason'', JString reason)]"
| "event_kind_to_json (Compensate workflow_id) =
     json_object [(''type'', JString ''Compensate''), (''workflow_id'', JString workflow_id)]"
| "event_kind_to_json (Cancel workflow_id) =
     json_object [(''type'', JString ''Cancel''), (''workflow_id'', JString workflow_id)]"

definition event_to_json :: "workflow_event \<Rightarrow> json" where
  "event_to_json e = json_object
     [(''id'', JString (event_id e)), (''queued_at_ms'', json_nat (system_time_ms (queued_at e))),
      (''kind'', event_kind_to_json (event_kind e))]"

definition queue_item_to_json :: "workflow_queue_item \<Rightarrow> json" where
  "queue_item_to_json item = json_object
     [(''event'', event_to_json (item_event item)),
      (''delivery'', json_object [(''attempt'', json_nat (item_attempt item))])]"

definition leased_queue_item_to_json :: "workflow_queue_item \<Rightarrow> string \<Rightarrow> system_time \<Rightarrow> json" where
  "leased_queue_item_to_json item worker_id leased_at = json_object
     [(''event'', event_to_json (item_event item)),
      (''delivery'', json_object [(''attempt'', json_nat (item_attempt item))]),
      (''lease'', json_object [(''worker_id'', JString worker_id),
         (''leased_at_ms'', json_nat (system_time_ms leased_at))])]"

text \<open>The failure time is read from the clock.\<close>

definition dead_letter_item_to_json ::
    "workflow_event \<Rightarrow> nat \<Rightarrow> string \<Rightarrow> string \<Rightarrow> system_time \<Rightarrow> json" where
  "dead_letter_item_to_json e attempts worker_id err now = json_object
     [(''event'', event_to_json e),
      (''delivery'', json_object [(''attempt'', json_nat attempts)]),
      (''dead_letter'', json_object [(''worker_id'', JString worker_id),
         (''failed_at_ms'', json_nat (system_time_ms now)), (''error'', JString err)])]"

definition json_to_event_kind :: "json \<Rightarrow> runtime_error + workflow_event_kind" where
  "json_to_event_kind v =
     res_bind (string_field v ''type'') (\<lambda>ty.
     if ty = ''Start'' then
       res_bind (ok_or (Storage ''missing start workflow payload'') (json_get v ''workflow'')) (\<lambda>workflow.
       res_bind (ok_or (Storage ''missing workflow security payload'') (json_get workflow ''security'')) (\<lambda>sec.
       res_bind (string_field workflow ''id'') (\<lambda>i.
       res_bind (string_field workflow ''name'') (\<lambda>n.
       res_bind (json_to_security sec) (\<lambda>ctx.
       res_bind (string_map_field workflow ''metadata'') (\<lambda>meta.
       Ok (Start \<lparr>start_id = i, start_name = n, start_security = ctx, start_metadata = meta\<rparr>)))))))
     else if ty = ''Wait'' then res_map Wait (string_field v ''workflow_id'')
     else if ty = ''Resume'' then res_map Resume (string_field v ''workflow_id'')
     else if ty = ''Complete'' then res_map Complete (string_field v ''workflow_id'')
     else if ty = ''Fail'' then
       res_bind (string_field v ''workflow_id'') (\<lambda>i.
       res_bind (string_field v ''reason'') (\<lambda>reason. Ok (Fail i reason)))
     else if ty = ''Compensate'' then res_map Compensate (string_field v ''workflow_id'')
     else if ty = ''Cancel'' then res_map Cancel (string_field v ''workflow_id'')
     else Err (Storage (''unknown workflow event type '' @ quoted ty)))"

definition json_to_event :: "json \<Rightarrow> runtime_error + workflow_event" where
  "json_to_event v =
     res_bind (string_field v ''id'') (\<lambda>i.
     res_bind (u64_field v ''queued_at_ms'') (\<lambda>queued.
     res_bind (ok_or (Storage ''missing workflow event kind'') (json_get v ''kind'')) (\<lambda>k.
     res_bind (json_to_event_kind k) (\<lambda>kd.
     Ok \<lparr>event_id = i, queued_at = system_time_from_ms queued, event_kind = kd\<rparr>))))"

definition delivery_attempt :: "json \<Rightarrow> runtime_error + nat" where
  "delivery_attempt v =
     (case json_get v ''delivery'' of
        None \<Rightarrow> Ok 0
      | Some delivery \<Rightarrow>
          (let raw = unwrap_or 0 (Option.bind (json_get delivery ''attempt'') as_u64)
           in ok_or (Storage ''workflow event delivery attempt is too large'') (checked_nat u32_max raw)))"

text \<open>An item without \<open>event\<close> is an event of the older format.\<close>

definition json_to_queue_item :: "json \<Rightarrow> runtime_error + workflow_queue_item" where
  "json_to_queue_item v =
     (case json_get v ''event'' of
        Some e \<Rightarrow>
          res_bind (json_to_event e) (\<lambda>ev.
          res_bind (delivery_attempt v) (\<lambda>n. Ok \<lparr>item_event = ev, item_attempt = n\<rparr>))
      | None \<Rightarrow> res_bind (json_to_event v) (\<lambda>ev. Ok \<lparr>item_event = ev, item_attempt = 0\<rparr>))"

definition json_to_lease_metadata :: "json \<Rightarrow> runtime_error + workflow_lease_metadata" where
  "json_to_lease_metadata v =
     res_bind (ok_or (Storage ''missing workflow event lease metadata'') (json_get v ''lease'')) (\<lambda>lease.
     res_bind (string_field lease ''worker_id'') (\<lambda>wid.
     res_bind (u64_field lease ''leased_at_ms'') (\<lambda>at.
     Ok \<lparr>meta_worker_id = wid, meta_leased_at = system_time_from_ms at\<rparr>)))"

text \<open>What survives.\<close>

fun norm_kind :: "workflow_event_kind \<Rightarrow> workflow_event_kind" where
  "norm_kind (Start start) = Start (start\<lparr>start_security := norm_security (start_security start)\<rparr>)"
| "norm_kind k = k"

definition norm_event :: "workflow_event \<Rightarrow> workflow_event" where
  "norm_event e = e\<lparr>queued_at := norm_time (queued_at e), event_kind := norm_kind (event_kind e)\<rparr>"

lemma event_kind_roundtrip: "json_to_event_kind (event_kind_to_json k) = Ok (norm_kind k)"
proof (cases k)
  case (Start s)
  let ?w = "json_object
        [(''id'', JString (start_id s)), (''name'', JString (start_name s)),
         (''security'', security_to_json (start_security s)),
         (''metadata'', json_string_map (start_metadata s))]"
  have "string_map_field ?w ''metadata'' = Ok (start_metadata s)"
    by (rule string_map_field_map) (simp add: json_get_object del: json_object_get)
  then show ?thesis
    using Start by (simp add: json_to_event_kind_def json_get_object del: json_object_get)
qed (simp_all add: json_to_event_kind_def)

lemma event_roundtrip: "json_to_event (event_to_json e) = Ok (norm_event e)"
  by (simp add: json_to_event_def event_to_json_def json_get_object event_kind_roundtrip
      norm_event_def norm_time_def del: json_object_get)

lemma delivery_attempt_item:
  "n \<le> u32_max \<Longrightarrow> json_get v ''delivery'' = Some (json_object [(''attempt'', json_nat n)]) \<Longrightarrow>
     delivery_attempt v = Ok n"
  by (simp add: delivery_attempt_def json_get_object json_nat_def checked_nat_def del: json_object_get)

lemma queue_item_roundtrip:
  "item_attempt item \<le> u32_max \<Longrightarrow>
     json_to_queue_item (queue_item_to_json item) = Ok \<lparr>item_event = norm_event (item_event item), item_attempt = item_attempt item\<rparr>"
  using delivery_attempt_item [of "item_attempt item" "queue_item_to_json item"]
  by (simp add: json_to_queue_item_def queue_item_to_json_def json_get_object event_roundtrip
      del: json_object_get)

lemma leased_item_roundtrip:
  assumes "item_attempt item \<le> u32_max"
  shows "json_to_queue_item (leased_queue_item_to_json item wid at)
      = Ok \<lparr>item_event = norm_event (item_event item), item_attempt = item_attempt item\<rparr>"
    and "json_to_lease_metadata (leased_queue_item_to_json item wid at)
      = Ok \<lparr>meta_worker_id = wid, meta_leased_at = norm_time at\<rparr>"
  using delivery_attempt_item [OF assms(1), of "leased_queue_item_to_json item wid at"]
  by (simp_all add: json_to_queue_item_def leased_queue_item_to_json_def json_get_object event_roundtrip
      json_to_lease_metadata_def norm_time_def del: json_object_get)

lemma event_plain [simp]: "json_plain (event_to_json e)"
proof -
  have "json_plain (event_kind_to_json k)" for k
    by (cases k) (simp_all add: json_plain_object)
  then show ?thesis unfolding event_to_json_def by (intro json_plain_object) simp
qed

lemma item_plain:
  assumes "item_attempt item \<le> u32_max"
  shows "json_plain (queue_item_to_json item)" and "json_plain (leased_queue_item_to_json item wid at)"
    and "n \<le> u32_max \<Longrightarrow> json_plain (dead_letter_item_to_json e n wid err now)"
  unfolding queue_item_to_json_def leased_queue_item_to_json_def dead_letter_item_to_json_def
  using assms by (intro json_plain_object; simp add: json_plain_object json_nat_def)+

end
