(* ===== verification/Event_Queue.thy ===== *)
theory Event_Queue
  imports Events
begin

text \<open>
  The queues of workflow events (second half of \<open>events.rs\<close>): \<open>MemoryWorkflowEventQueue\<close>
  and \<open>FileWorkflowEventQueue\<close> with its leases and dead letters. The loop that looks for an
  unused time stamp is a recursive function whose termination is proved: each turn finds a file
  that no later turn can find.
\<close>

section \<open>The queue in memory\<close>

record memory_queue = queued_events :: "workflow_event list"

definition new_memory_queue :: memory_queue where "new_memory_queue = \<lparr>queued_events = []\<rparr>"

definition queue_len :: "memory_queue \<Rightarrow> nat" where "queue_len q = length (queued_events q)"
definition queue_is_empty :: "memory_queue \<Rightarrow> bool" where "queue_is_empty q \<longleftrightarrow> queued_events q = []"

definition memory_enqueue :: "workflow_event \<Rightarrow> (memory_queue, runtime_error, unit) stm" where
  "memory_enqueue e q = (Ok (), q\<lparr>queued_events := queued_events q @ [e]\<rparr>)"

definition memory_dequeue :: "(memory_queue, runtime_error, workflow_event option) stm" where
  "memory_dequeue q =
     (case queued_events q of
        [] \<Rightarrow> (Ok None, q)
      | e # es \<Rightarrow> (Ok (Some e), q\<lparr>queued_events := es\<rparr>))"

section \<open>Time stamps of files\<close>

record file_queue = queue_dir :: path

definition leases_dir :: "file_queue \<Rightarrow> path" where "leases_dir q = queue_dir q @ [''leases'']"
definition dead_letter_dir :: "file_queue \<Rightarrow> path" where "dead_letter_dir q = queue_dir q @ [''dead'']"

definition prefix_str :: "nat \<Rightarrow> string" where "prefix_str n = show_nat_pad 30 n @ ''-''"

fun scan_entries :: "(path \<Rightarrow> bool) \<Rightarrow> (io_error + path) list \<Rightarrow> runtime_error + bool" where
  "scan_entries P [] = Ok False"
| "scan_entries P (Inl e # rs) = Err (Storage (io_message e))"
| "scan_entries P (Inr p # rs) = (if P p then Ok True else scan_entries P rs)"

definition event_prefix_exists :: "path \<Rightarrow> nat \<Rightarrow> ('b world, runtime_error, bool) stm" where
  "event_prefix_exists d n w =
     (if \<not> path_exists d w then (Ok False, w)
      else rbind (storage_io (read_dir d)) (\<lambda>rs.
             rlift (scan_entries (\<lambda>p. starts_with (prefix_str n) (last p)) rs)) w)"

text \<open>The entries that carry a time stamp of at least \<open>n\<close>: the measure of the loop.\<close>

definition taken :: "path \<Rightarrow> 'b world \<Rightarrow> nat \<Rightarrow> bool" where
  "taken d w n \<longleftrightarrow> (\<exists>p \<in> set (children d w). starts_with (prefix_str n) (last p))"

lemma children_update [simp]:
  "children d (w\<lparr>faults := fs\<rparr>) = children d w" "children d (w\<lparr>ticks := n\<rparr>) = children d w"
  by (simp_all add: children_def)

lemma same_but_faults: "\<exists>fs. w = w\<lparr>faults := fs\<rparr>"
  by (rule exI [of _ "faults w"]) simp

lemma read_entries_same:
  "read_entries ps w = (rs, w') \<Longrightarrow> \<exists>fs. w' = w\<lparr>faults := fs\<rparr> \<and> (\<forall>p. Inr p \<in> set rs \<longrightarrow> p \<in> set ps)"
proof (induction ps arbitrary: w rs w')
  case (Cons p ps)
  obtain f w1 where f: "next_fault w = (f, w1)" by (cases "next_fault w")
  obtain rs' w2 where r: "read_entries ps w1 = (rs', w2)" by (cases "read_entries ps w1")
  from f have "\<exists>fs. w1 = w\<lparr>faults := fs\<rparr>"
    by (auto simp: next_fault_def split: list.splits intro: exI [of _ "[]"]
        dest: sym [of w1 w])
  with Cons f r show ?case by (fastforce split: fault.splits)
qed (auto simp: same_but_faults)

lemma scan_entries_True: "scan_entries P rs = Ok True \<Longrightarrow> \<exists>p. Inr p \<in> set rs \<and> P p"
  by (induction P rs rule: scan_entries.induct) (auto split: if_splits)

lemma event_prefix_exists_same:
  assumes "event_prefix_exists d n w = (r, w')"
  shows "\<exists>fs. w' = w\<lparr>faults := fs\<rparr>" and "r = Ok True \<Longrightarrow> taken d w n"
proof -
  have "(\<exists>fs. w' = w\<lparr>faults := fs\<rparr>) \<and> (r = Ok True \<longrightarrow> taken d w n)"
  proof (cases "path_exists d w")
    case False
    with assms have "w' = w\<lparr>faults := faults w\<rparr>" "r = Ok False" by (simp_all add: event_prefix_exists_def)
    then show ?thesis by blast
  next
    case True
    obtain rd w1 where rd: "read_dir d w = (rd, w1)" by (cases "read_dir d w")
    from rd [unfolded read_dir_def] have "\<exists>fs. w1 = w\<lparr>faults := fs\<rparr>
        \<and> (\<forall>rs. rd = Ok rs \<longrightarrow> (\<forall>p. Inr p \<in> set rs \<longrightarrow> p \<in> set (children d w)))"
    proof (cases rule: attempt_cases)
      case run
      then show ?thesis
        by (auto split: if_splits prod.splits dest!: read_entries_same)
    qed auto
    with assms True rd show ?thesis
      by (cases rd) (auto simp: event_prefix_exists_def rbind_def storage_io_def taken_def
          dest!: scan_entries_True)
  qed
  then show "\<exists>fs. w' = w\<lparr>faults := fs\<rparr>" "r = Ok True \<Longrightarrow> taken d w n" by blast+
qed

lemma prefix_bound: "starts_with (prefix_str n) s \<Longrightarrow> n < 10 ^ length s"
proof -
  assume "starts_with (prefix_str n) s"
  then have "length (prefix_str n) \<le> length s"
    unfolding starts_with_def by (metis length_take min.cobounded1)
  then have l: "length (show_nat_pad 30 n) \<le> length s" by (simp add: prefix_str_def)
  have "n < 10 ^ length (show_nat_pad 30 n)"
    using digits_val_less [OF show_nat_pad_digits, of 30 n] by simp
  also have "\<dots> \<le> 10 ^ length s" using l by (intro power_increasing) simp_all
  finally show ?thesis .
qed

lemma finite_taken: "finite {m. taken d w m}"
proof -
  have "{m. taken d w m} = (\<Union>p \<in> set (children d w). {m. starts_with (prefix_str m) (last p)})"
    by (auto simp: taken_def)
  moreover have "finite {m. starts_with (prefix_str m) s}" for s
    by (rule finite_subset [of _ "{..< 10 ^ length s}"]) (auto dest: prefix_bound)
  ultimately show ?thesis by simp
qed

text \<open>\<open>while event_prefix_exists(dir, prefix)? { prefix += 1 }\<close>.\<close>

function find_free_prefix :: "path \<Rightarrow> nat \<Rightarrow> ('b world, runtime_error, nat) stm" where
  "find_free_prefix d n w =
     (case event_prefix_exists d n w of
        (Inl e, w') \<Rightarrow> (Err e, w')
      | (Inr b, w') \<Rightarrow> if b then find_free_prefix d (n + 1) w' else (Ok n, w'))"
  by pat_completeness auto
termination
proof (relation "measure (\<lambda>(d, n, w). card {m. n \<le> m \<and> taken d w m})")
  fix d n and w :: "'b world" and r w' b
  assume "(r, w') = event_prefix_exists d n w" "r = Inr b" b
  then have e: "event_prefix_exists d n w = (Ok True, w')" by simp
  then have t: "taken d w n" "taken d w' = taken d w"
    using event_prefix_exists_same [OF e] by (auto simp: taken_def fun_eq_iff)
  have "card {m. n + 1 \<le> m \<and> taken d w m} < card {m. n \<le> m \<and> taken d w m}"
  proof (rule psubset_card_mono)
    show "finite {m. n \<le> m \<and> taken d w m}" by (rule finite_subset [OF _ finite_taken]) auto
    show "{m. n + 1 \<le> m \<and> taken d w m} \<subset> {m. n \<le> m \<and> taken d w m}"
      using t(1) by (intro psubsetI subsetI) (simp, metis (mono_tags, lifting) Suc_eq_plus1 mem_Collect_eq not_less_eq_eq order_refl)
  qed
  with t(2) show "((d, n + 1, w'), d, n, w) \<in> measure (\<lambda>(d, n, w). card {m. n \<le> m \<and> taken d w m})"
    by simp
qed simp

declare find_free_prefix.simps [simp del]

section \<open>Operations of the file queue\<close>

definition event_file :: "path \<Rightarrow> nat \<Rightarrow> workflow_event \<Rightarrow> path" where
  "event_file d n e = d @ [prefix_str n @ safe_file_id (event_id e) @ ''.json'']"

definition event_path :: "file_queue \<Rightarrow> workflow_event \<Rightarrow> ('b world, runtime_error, path) stm" where
  "event_path q e =
     rbind read_clock (\<lambda>now.
     rbind (find_free_prefix (queue_dir q) (system_time_ns now)) (\<lambda>n.
     rreturn (event_file (queue_dir q) n e)))"

definition archive_path :: "path \<Rightarrow> workflow_event \<Rightarrow> ('b world, runtime_error, path) stm" where
  "archive_path d e =
     rbind (storage_io (create_dir_all d)) (\<lambda>_.
     rbind read_clock (\<lambda>now.
     rbind (find_free_prefix d (system_time_ns now)) (\<lambda>n.
     rreturn (event_file d n e))))"

definition next_event_path :: "path \<Rightarrow> ('b world, runtime_error, path option) stm" where
  "next_event_path d =
     rbind (storage_io (read_dir d)) (\<lambda>rs.
     rreturn (case sort (json_files rs) of [] \<Rightarrow> None | p # _ \<Rightarrow> Some p))"

definition read_queue_item :: "'b codec \<Rightarrow> path \<Rightarrow> ('b world, runtime_error, workflow_queue_item) stm" where
  "read_queue_item c p = rbind (read_json c p) (\<lambda>v. rlift (json_to_queue_item v))"

definition read_leased_queue_item ::
    "'b codec \<Rightarrow> path \<Rightarrow> ('b world, runtime_error, workflow_queue_item \<times> workflow_lease_metadata) stm" where
  "read_leased_queue_item c p =
     rbind (read_json c p) (\<lambda>v.
     rlift (res_bind (json_to_queue_item v) (\<lambda>item.
            res_bind (json_to_lease_metadata v) (\<lambda>meta. Ok (item, meta)))))"

definition write_queue_item ::
    "'b codec \<Rightarrow> path \<Rightarrow> workflow_queue_item \<Rightarrow> ('b world, runtime_error, unit) stm" where
  "write_queue_item c p item = replace_json c p (queue_item_to_json item)"

text \<open>Leases and dead letters are written in place.\<close>

definition write_json :: "'b codec \<Rightarrow> path \<Rightarrow> json \<Rightarrow> ('b world, runtime_error, unit) stm" where
  "write_json c p v =
     rbind (rlift (storage_result (to_vec c v))) (\<lambda>bytes. storage_io (fs_write p bytes))"

definition write_leased_item ::
    "'b codec \<Rightarrow> path \<Rightarrow> workflow_queue_item \<Rightarrow> string \<Rightarrow> system_time \<Rightarrow> ('b world, runtime_error, unit) stm" where
  "write_leased_item c p item wid leased_at = write_json c p (leased_queue_item_to_json item wid leased_at)"

definition write_dead_letter_item ::
    "'b codec \<Rightarrow> path \<Rightarrow> workflow_event \<Rightarrow> nat \<Rightarrow> string \<Rightarrow> string \<Rightarrow> ('b world, runtime_error, unit) stm" where
  "write_dead_letter_item c p e n wid err =
     rbind read_clock (\<lambda>now. write_json c p (dead_letter_item_to_json e n wid err now))"

definition file_enqueue :: "'b codec \<Rightarrow> file_queue \<Rightarrow> workflow_event \<Rightarrow> ('b world, runtime_error, unit) stm" where
  "file_enqueue c q e =
     rbind (storage_io (create_dir_all (queue_dir q))) (\<lambda>_.
     rbind (event_path q e) (\<lambda>p.
     replace_json c p (queue_item_to_json \<lparr>item_event = e, item_attempt = 0\<rparr>)))"

definition file_dequeue :: "'b codec \<Rightarrow> file_queue \<Rightarrow> ('b world, runtime_error, workflow_event option) stm" where
  "file_dequeue c q w =
     (if \<not> path_exists (queue_dir q) w then (Ok None, w)
      else rbind (next_event_path (queue_dir q)) (\<lambda>next.
             case next of
               None \<Rightarrow> rreturn None
             | Some p \<Rightarrow>
                 rbind (read_queue_item c p) (\<lambda>item.
                 rbind (storage_io (fs_remove_file p)) (\<lambda>_.
                 rreturn (Some (item_event item))))) w)"

text \<open>One entry of the leases directory during recovery.\<close>

definition recover_lease ::
    "'b codec \<Rightarrow> file_queue \<Rightarrow> workflow_lease_options \<Rightarrow> system_time \<Rightarrow> path \<Rightarrow> ('b world, runtime_error, unit) stm" where
  "recover_lease c q opts now p =
     (if file_extension p \<noteq> Some ''json'' then rreturn ()
      else rbind (read_leased_queue_item c p) (\<lambda>(item, lease).
        if nat (now - meta_leased_at lease) < lease_timeout opts then rreturn ()
        else
          rbind
            (if max_attempts opts \<le> item_attempt item then
               rbind (archive_path (dead_letter_dir q) (item_event item)) (\<lambda>dead_path.
               write_dead_letter_item c dead_path (item_event item) (item_attempt item)
                 (meta_worker_id lease) ''lease expired'')
             else
               rbind (event_path q (item_event item)) (\<lambda>retry_path.
               write_queue_item c retry_path item))
            (\<lambda>_. storage_io (fs_remove_file p))))"

text \<open>A \<open>for\<close> loop over the results of \<open>read_dir\<close>, each mapped with \<open>?\<close>.\<close>

fun for_entries :: "(path \<Rightarrow> ('b world, runtime_error, unit) stm) \<Rightarrow> (io_error + path) list
    \<Rightarrow> ('b world, runtime_error, unit) stm" where
  "for_entries f [] = rreturn ()"
| "for_entries f (Inl e # rs) = rthrow (Storage (io_message e))"
| "for_entries f (Inr p # rs) = rbind (f p) (\<lambda>_. for_entries f rs)"

definition recover_expired_leases ::
    "'b codec \<Rightarrow> file_queue \<Rightarrow> workflow_lease_options \<Rightarrow> ('b world, runtime_error, unit) stm" where
  "recover_expired_leases c q opts w =
     (if \<not> path_exists (leases_dir q) w then (Ok (), w)
      else rbind read_clock (\<lambda>now.
           rbind (storage_io (read_dir (leases_dir q))) (\<lambda>rs.
           for_entries (recover_lease c q opts now) rs)) w)"

definition saturating_succ_u32 :: "nat \<Rightarrow> nat" where
  "saturating_succ_u32 n = min u32_max (n + 1)"

definition take_lease ::
    "'b codec \<Rightarrow> workflow_lease_options \<Rightarrow> path \<Rightarrow> ('b world, runtime_error, workflow_event_lease option) stm" where
  "take_lease c opts lpath =
     rbind (read_queue_item c lpath) (\<lambda>item.
     let item = item\<lparr>item_attempt := saturating_succ_u32 (item_attempt item)\<rparr> in
     rbind read_clock (\<lambda>now.
     rbind (write_leased_item c lpath item (option_worker_id opts) now) (\<lambda>_.
     rreturn (Some \<lparr>lease_event = item_event item, lease_worker_id = option_worker_id opts,
                lease_attempt = item_attempt item, lease_path = lpath\<rparr>))))"

definition claim ::
    "'b codec \<Rightarrow> file_queue \<Rightarrow> workflow_lease_options \<Rightarrow> ('b world, runtime_error, workflow_event_lease option) stm" where
  "claim c q opts =
     rbind (storage_io (create_dir_all (queue_dir q))) (\<lambda>_.
     rbind (storage_io (create_dir_all (leases_dir q))) (\<lambda>_.
     rbind (storage_io (create_dir_all (dead_letter_dir q))) (\<lambda>_.
     rbind (recover_expired_leases c q opts) (\<lambda>_.
     rbind (next_event_path (queue_dir q)) (\<lambda>next.
     case next of
       None \<Rightarrow> rreturn None
     | Some p \<Rightarrow>
         (\<lambda>w. let lpath = leases_dir q @ [last p] in
           case fs_rename p lpath w of
             (Inl e, w') \<Rightarrow>
               (if io_kind e = NotFound then (Ok None, w') else (Err (Storage (io_message e)), w'))
           | (Inr _, w') \<Rightarrow> take_lease c opts lpath w'))))))"

definition remove_if_exists :: "path \<Rightarrow> ('b world, runtime_error, unit) stm" where
  "remove_if_exists p w = (if path_exists p w then storage_io (fs_remove_file p) w else (Ok (), w))"

definition ack :: "workflow_event_lease \<Rightarrow> ('b world, runtime_error, unit) stm" where
  "ack lease = remove_if_exists (lease_path lease)"

definition fail_lease ::
    "'b codec \<Rightarrow> file_queue \<Rightarrow> workflow_event_lease \<Rightarrow> string \<Rightarrow> nat
     \<Rightarrow> ('b world, runtime_error, workflow_lease_disposition) stm" where
  "fail_lease c q lease err max_att =
     (if max_att \<le> lease_attempt lease then
        rbind (archive_path (dead_letter_dir q) (lease_event lease)) (\<lambda>p.
        rbind (write_dead_letter_item c p (lease_event lease) (lease_attempt lease)
                 (lease_worker_id lease) err) (\<lambda>_.
        rbind (remove_if_exists (lease_path lease)) (\<lambda>_.
        rreturn DeadLettered)))
      else
        rbind (event_path q (lease_event lease)) (\<lambda>p.
        rbind (write_queue_item c p \<lparr>item_event = lease_event lease, item_attempt = lease_attempt lease\<rparr>) (\<lambda>_.
        rbind (remove_if_exists (lease_path lease)) (\<lambda>_.
        rreturn Requeued))))"

definition no_lease_error :: "string \<Rightarrow> runtime_error" where
  "no_lease_error eid = Storage (''no active lease found for workflow event '' @ quoted eid)"

fun heartbeat_entries ::
    "'b codec \<Rightarrow> string \<Rightarrow> string \<Rightarrow> (io_error + path) list
     \<Rightarrow> ('b world, runtime_error, workflow_lease_heartbeat) stm" where
  "heartbeat_entries c eid wid [] = rthrow (no_lease_error eid)"
| "heartbeat_entries c eid wid (Inl e # rs) = rthrow (Storage (io_message e))"
| "heartbeat_entries c eid wid (Inr p # rs) =
     (if file_extension p \<noteq> Some ''json'' then heartbeat_entries c eid wid rs
      else rbind (read_leased_queue_item c p) (\<lambda>(item, lease).
        if event_id (item_event item) \<noteq> eid then heartbeat_entries c eid wid rs
        else if meta_worker_id lease \<noteq> wid
        then rthrow (Storage (''workflow event '' @ quoted eid @ '' is leased by ''
               @ quoted (meta_worker_id lease) @ '' not '' @ quoted wid))
        else
          rbind read_clock (\<lambda>now.
          rbind (write_leased_item c p item wid now) (\<lambda>_.
          rreturn \<lparr>hb_event_id = event_id (item_event item), hb_worker_id = wid,
            hb_attempt = item_attempt item,
            hb_previous_leased_at_ms = system_time_ms (meta_leased_at lease),
            hb_leased_at_ms = system_time_ms now\<rparr>))))"

definition heartbeat_lease ::
    "'b codec \<Rightarrow> file_queue \<Rightarrow> string \<Rightarrow> string \<Rightarrow> ('b world, runtime_error, workflow_lease_heartbeat) stm" where
  "heartbeat_lease c q eid wid w =
     (if \<not> path_exists (leases_dir q) w then (Err (no_lease_error eid), w)
      else rbind (storage_io (read_dir (leases_dir q))) (heartbeat_entries c eid wid) w)"

section \<open>The interface of a queue\<close>

text \<open>A run of enqueues, and a number of dequeues with their answers.\<close>

primrec enqueue_all :: "(workflow_event \<Rightarrow> ('q, runtime_error, unit) stm) \<Rightarrow> workflow_event list \<Rightarrow> 'q \<Rightarrow> 'q" where
  "enqueue_all enq [] q = q"
| "enqueue_all enq (e # es) q = enqueue_all enq es (snd (enq e q))"

primrec dequeue_all ::
    "('q, runtime_error, workflow_event option) stm \<Rightarrow> nat \<Rightarrow> 'q \<Rightarrow> (runtime_error + workflow_event option) list" where
  "dequeue_all deq 0 q = []"
| "dequeue_all deq (Suc n) q = fst (deq q) # dequeue_all deq n (snd (deq q))"

text \<open>A queue holds a list of events; enqueuing appends the normalised event, dequeuing takes the
  first. The invariant counts how many more events the queue can take: a file queue needs time
  stamps for them.\<close>

locale event_queue =
  fixes enqueue :: "workflow_event \<Rightarrow> ('q, runtime_error, unit) stm"
    and dequeue :: "('q, runtime_error, workflow_event option) stm"
    and inv :: "nat \<Rightarrow> 'q \<Rightarrow> bool"
    and contents :: "'q \<Rightarrow> workflow_event list"
    and norm :: "workflow_event \<Rightarrow> workflow_event"
  assumes enqueue_law: "inv (Suc n) q \<Longrightarrow>
      \<exists>q'. enqueue e q = (Ok (), q') \<and> inv n q' \<and> contents q' = contents q @ [norm e]"
    and dequeue_law: "inv n q \<Longrightarrow>
      (case contents q of
         [] \<Rightarrow> \<exists>q'. dequeue q = (Ok None, q') \<and> inv n q' \<and> contents q' = []
       | e # es \<Rightarrow> \<exists>q'. dequeue q = (Ok (Some e), q') \<and> inv n q' \<and> contents q' = es)"
begin

lemma enqueue_all_contents:
  "inv (length es + n) q \<Longrightarrow>
     inv n (enqueue_all enqueue es q) \<and> contents (enqueue_all enqueue es q) = contents q @ map norm es"
proof (induction es arbitrary: q)
  case (Cons e es)
  from Cons.prems have "inv (Suc (length es + n)) q" by simp
  from enqueue_law [OF this, of e] obtain q' where
    "enqueue e q = (Ok (), q')" "inv (length es + n) q'" "contents q' = contents q @ [norm e]" by blast
  with Cons.IH [of q'] show ?case by simp
qed simp

lemma dequeue_all_contents:
  "inv n q \<Longrightarrow> k \<le> length (contents q) \<Longrightarrow>
     dequeue_all dequeue k q = map (\<lambda>e. Ok (Some e)) (take k (contents q))"
proof (induction k arbitrary: q)
  case (Suc k)
  then obtain e es where c: "contents q = e # es" by (cases "contents q") auto
  with dequeue_law [OF Suc.prems(1)] obtain q' where
    "dequeue q = (Ok (Some e), q')" "inv n q'" "contents q' = es" by auto
  with Suc c show ?case by simp
qed simp

lemma fifo:
  assumes "inv (length es + n) q" and "k \<le> length (contents q) + length es"
  shows "dequeue_all dequeue k (enqueue_all enqueue es q)
    = map (\<lambda>e. Ok (Some e)) (take k (contents q @ map norm es))"
  using enqueue_all_contents [OF assms(1)]
    dequeue_all_contents [of n "enqueue_all enqueue es q" k] assms(2) by simp

end

interpretation memory_events: event_queue memory_enqueue memory_dequeue "\<lambda>_ _. True" queued_events "\<lambda>e. e"
  by unfold_locales (simp_all add: memory_enqueue_def memory_dequeue_def split: list.split)

section \<open>The order of file names\<close>

lemma digit_less: "is_ascii_digit c \<Longrightarrow> is_ascii_digit d \<Longrightarrow> c < d \<longleftrightarrow> digit_val c < digit_val d"
  by (auto simp: less_char_def is_ascii_digit_def digit_val_def byte_def)

lemma digit_eq: "is_ascii_digit c \<Longrightarrow> is_ascii_digit d \<Longrightarrow> digit_val c = digit_val d \<Longrightarrow> c = d"
  by (simp add: is_ascii_digit_def digit_val_def byte_def eq_diff_iff)

lemma digits_append_less:
  "length s = length t \<Longrightarrow> list_all is_ascii_digit s \<Longrightarrow> list_all is_ascii_digit t \<Longrightarrow>
     digits_val s < digits_val t \<Longrightarrow> s @ x < t @ y"
proof (induction s t rule: list_induct2)
  case (Cons c s d t)
  have b: "digits_val s < 10 ^ length t" "digits_val t < 10 ^ length t"
    using Cons.prems Cons.hyps digits_val_less [of s] digits_val_less [of t] by simp_all
  have dg: "is_ascii_digit c" "is_ascii_digit d" using Cons.prems by simp_all
  have lt: "digit_val c * 10 ^ length t + digits_val s < digit_val d * 10 ^ length t + digits_val t"
    using Cons.prems(3) Cons.hyps by (simp add: digits_val_Cons)
  consider "digit_val c < digit_val d" | "digit_val c = digit_val d" | "digit_val d < digit_val c"
    by linarith
  then show ?case
  proof cases
    case 1
    with dg show ?thesis by (simp add: digit_less)
  next
    case 2
    with dg have "c = d" by (rule digit_eq)
    with 2 lt Cons show ?thesis by simp
  next
    case 3
    then have "Suc (digit_val d) * 10 ^ length t \<le> digit_val c * 10 ^ length t"
      by (intro mult_le_mono1) simp
    with lt b show ?thesis by simp
  qed
qed simp

abbreviation max_stamp :: nat where "max_stamp \<equiv> 10 ^ 30"

lemma length_prefix_str: "n < max_stamp \<Longrightarrow> length (prefix_str n) = 31"
  using length_show_nat_pad [of n 30] by (simp add: prefix_str_def)

lemma prefix_str_less:
  "m < n \<Longrightarrow> n < max_stamp \<Longrightarrow> prefix_str m @ x < prefix_str n @ y"
  using digits_append_less [of "show_nat_pad 30 m" "show_nat_pad 30 n" "''-'' @ x" "''-'' @ y"]
  by (simp add: prefix_str_def show_nat_pad_digits length_show_nat_pad)

lemma prefix_str_inject:
  assumes "starts_with (prefix_str n) (prefix_str m @ x)" and "n < max_stamp" and "m < max_stamp"
  shows "n = m"
proof -
  have "prefix_str n = prefix_str m"
    using assms by (simp add: starts_with_def length_prefix_str)
  then have "show_nat_pad 30 n = show_nat_pad 30 m" by (simp add: prefix_str_def)
  then show ?thesis by (metis digits_val_show_nat_pad)
qed

lemma path_less_iff: "(d @ [a] < d @ [b]) \<longleftrightarrow> (a < (b :: string))" for d :: path
  by (induction d) auto

lemma sorted_list_of_set_snoc:
  assumes "finite A" and "\<forall>a \<in> A. a < b"
  shows "sorted_list_of_set (insert b A) = sorted_list_of_set A @ [b]"
proof -
  have "b \<notin> A" using assms(2) by blast
  then have "card (insert b A) = Suc (card A)" using assms(1) by simp
  then show ?thesis
    using assms sorted_list_of_set_unique [of "insert b A" "sorted_list_of_set A @ [b]"]
    by (auto simp: sorted_wrt_append strict_sorted_iff)
qed

section \<open>The file queue is first in, first out\<close>

definition is_json_file :: "path \<Rightarrow> bool" where
  "is_json_file p \<longleftrightarrow> file_extension p = Some ''json''"

definition queue_files :: "path \<Rightarrow> 'b world \<Rightarrow> path set" where
  "queue_files d w = {p. p \<noteq> [] \<and> butlast p = d \<and> file_content w p \<noteq> None}"

definition item_at :: "'b codec \<Rightarrow> 'b world \<Rightarrow> path \<Rightarrow> workflow_queue_item" where
  "item_at c w p = the (ok (res_bind (res_bind (ok_or (Storage []) (file_content w p))
     (\<lambda>bs. storage_result (from_slice c bs))) json_to_queue_item))"

definition queue_contents :: "'b codec \<Rightarrow> file_queue \<Rightarrow> 'b world \<Rightarrow> workflow_event list" where
  "queue_contents c q w =
     map (\<lambda>p. item_event (item_at c w p)) (sorted_list_of_set (queue_files (queue_dir q) w))"

text \<open>The next \<open>k\<close> readings of the clock increase and fit thirty digits.\<close>

definition clock_ok :: "nat \<Rightarrow> 'b world \<Rightarrow> bool" where
  "clock_ok k w \<longleftrightarrow>
     (\<forall>i < k. 0 \<le> clock w (ticks w + i) \<and> clock w (ticks w + i) < int max_stamp)
     \<and> (\<forall>i j. i < j \<longrightarrow> j < k \<longrightarrow> clock w (ticks w + i) < clock w (ticks w + j))"

text \<open>Every file of the directory is an event with an earlier time stamp, and its only
  directories are those of leases and dead letters.\<close>

definition event_name :: "'b codec \<Rightarrow> nat \<Rightarrow> 'b world \<Rightarrow> path \<Rightarrow> bool" where
  "event_name c k w p \<longleftrightarrow>
     (\<exists>m i. last p = prefix_str m @ safe_file_id i @ ''.json'' \<and> m < max_stamp
        \<and> (0 < k \<longrightarrow> int m < clock w (ticks w)))
     \<and> (\<exists>bs v item. file_content w p = Some bs \<and> from_slice c bs = Ok v \<and> json_to_queue_item v = Ok item)"

definition queue_inv :: "'b codec \<Rightarrow> file_queue \<Rightarrow> nat \<Rightarrow> 'b world \<Rightarrow> bool" where
  "queue_inv c q k w \<longleftrightarrow>
     codec_ok c \<and> faults w = [] \<and> queue_dir q \<noteq> []
     \<and> (\<forall>p \<in> set (prefixes_of (queue_dir q)). file_content w p = None)
     \<and> (\<forall>n. is_dir w (queue_dir q @ [n]) \<longrightarrow> n = ''leases'' \<or> n = ''dead'')
     \<and> (queue_files (queue_dir q) w \<noteq> {} \<longrightarrow> is_dir w (queue_dir q))
     \<and> clock_ok k w \<and> (\<forall>p \<in> queue_files (queue_dir q) w. event_name c k w p)"

lemma event_name_json: "event_name c k w p \<Longrightarrow> p \<noteq> [] \<Longrightarrow> is_json_file p"
proof -
  assume "event_name c k w p" and p: "p \<noteq> []"
  then obtain m i where l: "last p = (prefix_str m @ safe_file_id i) @ ''.'' @ ''json''"
    by (auto simp: event_name_def)
  have "prefix_str m @ safe_file_id i \<noteq> []" by (simp add: prefix_str_def)
  then have "split_extension (last p) = (prefix_str m @ safe_file_id i, Some ''json'')"
    unfolding l by (rule split_extension_dot) simp_all
  with p show ?thesis by (simp add: is_json_file_def file_extension_def)
qed

lemma finite_queue_files [simp]: "finite (queue_files d w)"
  by (rule finite_subset [of _ "set (map fst (files w))"])
    (auto simp: queue_files_def file_content_def map_of_eq_None_iff)

lemma leases_not_json: "\<not> is_json_file (d @ [''leases''])" "\<not> is_json_file (d @ [''dead''])"
  by (simp_all add: is_json_file_def file_extension_def split_extension_def)

text \<open>What the directory listing finds.\<close>

lemma queue_children:
  assumes "queue_inv c q k w"
  shows "set (filter (\<lambda>p. file_extension p = Some ''json'') (children (queue_dir q) w))
    = queue_files (queue_dir q) w"
proof (rule set_eqI)
  fix p
  have "p \<in> set (map fst (files w)) \<longleftrightarrow> file_content w p \<noteq> None"
    by (auto simp: file_content_def map_of_eq_None_iff)
  moreover have "\<not> is_json_file p" if "p \<in> set (dirs w)" "p \<noteq> []" "butlast p = queue_dir q"
  proof -
    have "p = queue_dir q @ [last p]" using that by (metis append_butlast_last_id)
    moreover from this that(1) assms have "last p = ''leases'' \<or> last p = ''dead''"
      unfolding queue_inv_def is_dir_def by metis
    ultimately show ?thesis using leases_not_json by metis
  qed
  moreover have "is_json_file p" if "p \<in> queue_files (queue_dir q) w"
    using event_name_json [of c k w p] that assms by (simp add: queue_inv_def) (simp add: queue_files_def)
  ultimately show "p \<in> set (filter (\<lambda>p. file_extension p = Some ''json'') (children (queue_dir q) w))
      \<longleftrightarrow> p \<in> queue_files (queue_dir q) w"
    by (auto simp: children_def queue_files_def is_json_file_def)
qed

lemma json_files_ok [simp]:
  "json_files (map Inr xs) = filter (\<lambda>p. file_extension p = Some ''json'') xs"
proof -
  have "List.map_filter ok (map (Inr :: path \<Rightarrow> io_error + path) xs) = xs"
    by (induction xs) (simp_all add: List.map_filter_def)
  then show ?thesis by (simp add: json_files_def)
qed

lemma hd_sort: "xs \<noteq> [] \<Longrightarrow> hd (sort xs) = Min (set (xs :: 'a :: linorder list))"
proof -
  assume ne: "xs \<noteq> []"
  then have "sort xs \<noteq> []" by (metis set_empty set_sort)
  moreover have "sorted (sort xs)" by (rule sorted_sort)
  ultimately have "Min (set (sort xs)) = hd (sort xs)"
    by (cases "sort xs") (auto intro!: Min_eqI)
  then show ?thesis by simp
qed

lemma next_event:
  assumes "queue_inv c q k w" and "is_dir w (queue_dir q)"
  shows "next_event_path (queue_dir q) w =
    (Ok (if queue_files (queue_dir q) w = {} then None else Some (Min (queue_files (queue_dir q) w))), w)"
proof -
  let ?d = "queue_dir q"
  define xs where "xs = filter (\<lambda>p. file_extension p = Some ''json'') (children ?d w)"
  have s: "set xs = queue_files ?d w" using queue_children [OF assms(1)] by (simp add: xs_def)
  have "read_dir ?d w = (Ok (map Inr (children ?d w)), w)"
    using assms by (simp add: read_dir_def queue_inv_def)
  then have "next_event_path ?d w = (Ok (case sort xs of [] \<Rightarrow> None | p # _ \<Rightarrow> Some p), w)"
    by (simp add: next_event_path_def rbind_def storage_io_def xs_def)
  moreover have "(case sort xs of [] \<Rightarrow> None | p # _ \<Rightarrow> Some p) =
      (if xs = [] then None else Some (hd (sort xs)))"
    by (cases "sort xs") (auto dest: arg_cong [of _ _ set])
  ultimately show ?thesis using s hd_sort [of xs] by (cases "xs = []") auto
qed

lemma read_entries_Ok:
  "read_entries ps w = (rs, w') \<Longrightarrow> \<forall>e. Inl e \<notin> set rs \<Longrightarrow> rs = map Inr ps"
proof (induction ps arbitrary: w rs w')
  case (Cons p ps)
  obtain f w1 where f: "next_fault w = (f, w1)" by (cases "next_fault w")
  obtain rs' w2 where r: "read_entries ps w1 = (rs', w2)" by (cases "read_entries ps w1")
  from Cons f r show ?case by (cases f) auto
qed simp

lemma scan_entries_False:
  "scan_entries P rs = Ok False \<Longrightarrow> (\<forall>e. Inl e \<notin> set rs) \<and> (\<forall>p. Inr p \<in> set rs \<longrightarrow> \<not> P p)"
  by (induction P rs rule: scan_entries.induct) (auto split: if_splits)

lemma event_prefix_absent:
  assumes "event_prefix_exists d n w = (Ok False, w')" and "path_exists d w"
  shows "\<not> taken d w n"
proof -
  obtain rd w1 where rd: "read_dir d w = (rd, w1)" by (cases "read_dir d w")
  with assms obtain rs where rs: "rd = Ok rs" "scan_entries (\<lambda>p. starts_with (prefix_str n) (last p)) rs = Ok False"
    by (cases rd) (auto simp: event_prefix_exists_def rbind_def storage_io_def)
  note sc = scan_entries_False [OF rs(2)]
  from rd [unfolded read_dir_def rs(1)] have "rs = map Inr (children d w)"
  proof (cases rule: attempt_cases)
    case run
    then obtain w2 where "read_entries (children d w) (w\<lparr>faults := tl (faults w)\<rparr>) = (rs, w2)"
      by (auto split: if_splits prod.splits)
    then show ?thesis using read_entries_Ok sc by blast
  qed auto
  with sc show ?thesis by (auto simp: taken_def)
qed

lemma find_free_prefix_smallest:
  assumes "find_free_prefix d n w = (Ok m, w')" and "path_exists d w"
  shows "n \<le> m \<and> \<not> taken d w m \<and> (\<forall>j. n \<le> j \<longrightarrow> j < m \<longrightarrow> taken d w j)"
  using assms
proof (induction d n w rule: find_free_prefix.induct)
  case (1 d n w)
  obtain r w1 where e: "event_prefix_exists d n w = (r, w1)" by (cases "event_prefix_exists d n w")
  from event_prefix_exists_same(1) [OF e] obtain fs where w1: "w1 = w\<lparr>faults := fs\<rparr>" by blast
  then have t: "taken d w1 = taken d w" and ex: "path_exists d w1"
    using "1.prems"(2) by (auto simp: taken_def fun_eq_iff path_exists_def)
  show ?case
  proof (cases r)
    case (Inl err)
    with "1.prems"(1) e show ?thesis by (subst (asm) find_free_prefix.simps) simp
  next
    case (Inr b)
    show ?thesis
    proof (cases b)
      case True
      then have tk: "taken d w n" using event_prefix_exists_same(2) [OF e] Inr by simp
      have "find_free_prefix d (n + 1) w1 = (Ok m, w')"
        using "1.prems"(1) e Inr True by (subst (asm) find_free_prefix.simps) simp
      from "1.IH" [OF e [symmetric] Inr True this ex]
      have "n + 1 \<le> m" "\<not> taken d w m" "\<forall>j. n + 1 \<le> j \<longrightarrow> j < m \<longrightarrow> taken d w j" by (simp_all add: t)
      with tk show ?thesis by (metis Suc_eq_plus1 Suc_leD Suc_leI le_neq_implies_less)
    next
      case False
      with "1.prems"(1) e Inr have "m = n" by (subst (asm) find_free_prefix.simps) simp
      with event_prefix_absent [OF _ "1.prems"(2)] e Inr False show ?thesis by auto
    qed
  qed
qed

lemma find_free_prefix_free:
  assumes "faults w = []" and "is_dir w d" and "\<not> taken d w n"
  shows "find_free_prefix d n w = (Ok n, w)"
proof -
  have "scan_entries P (map Inr ps) = Ok (\<exists>p \<in> set ps. P p)" for P ps
    by (induction ps) auto
  then have "event_prefix_exists d n w = (Ok False, w)"
    using assms by (simp add: event_prefix_exists_def path_exists_def rbind_def storage_io_def
        read_dir_def taken_def)
  then show ?thesis by (subst find_free_prefix.simps) simp
qed

lemma not_taken:
  assumes "queue_inv c q k w" and "0 < k"
  shows "\<not> taken (queue_dir q) w (nat (clock w (ticks w)))"
proof
  let ?n = "nat (clock w (ticks w))"
  have n: "?n < max_stamp" "0 \<le> clock w (ticks w)"
    using assms by (auto simp: queue_inv_def clock_ok_def)
  assume "taken (queue_dir q) w ?n"
  then obtain p where p: "p \<in> set (children (queue_dir q) w)" "starts_with (prefix_str ?n) (last p)"
    by (auto simp: taken_def)
  show False
  proof (cases "file_content w p = None")
    case True
    then have "p \<in> set (dirs w)" and p': "p \<noteq> []" "butlast p = queue_dir q"
      using p(1) by (auto simp: children_def file_content_def map_of_eq_None_iff)
    moreover from p' have "p = queue_dir q @ [last p]" by (metis append_butlast_last_id)
    ultimately have "p \<in> set (dirs w)" "p = queue_dir q @ [last p]" by blast+
    then have "last p = ''leases'' \<or> last p = ''dead''"
      using assms(1) unfolding queue_inv_def is_dir_def by metis
    moreover have "31 \<le> length (last p)"
      using p(2) n(1) by (metis length_prefix_str length_take min.cobounded1 starts_with_def)
    ultimately show False by auto
  next
    case False
    with p(1) have "p \<in> queue_files (queue_dir q) w" by (auto simp: queue_files_def children_def)
    with assms obtain m i where m: "last p = prefix_str m @ safe_file_id i @ ''.json''" "m < max_stamp"
      "int m < clock w (ticks w)" by (auto simp: queue_inv_def event_name_def)
    with prefix_str_inject [of ?n m] p(2) n have "?n = m" by simp
    with m(3) n(2) show False by simp
  qed
qed

lemma event_path_ok:
  assumes "queue_inv c q (Suc k) w" and "is_dir w (queue_dir q)"
  shows "event_path q e w =
    (Ok (event_file (queue_dir q) (nat (clock w (ticks w))) e), w\<lparr>ticks := Suc (ticks w)\<rparr>)"
proof -
  let ?w = "w\<lparr>ticks := Suc (ticks w)\<rparr>"
  have "faults ?w = []" "is_dir ?w (queue_dir q)" using assms by (simp_all add: queue_inv_def)
  moreover have "\<not> taken (queue_dir q) ?w (nat (clock w (ticks w)))"
    using not_taken [OF assms(1)] by (simp add: taken_def)
  ultimately have "find_free_prefix (queue_dir q) (nat (clock w (ticks w))) ?w
      = (Ok (nat (clock w (ticks w))), ?w)" by (rule find_free_prefix_free)
  then show ?thesis by (simp add: event_path_def rbind_def read_clock_def system_time_ns_def)
qed

lemma clock_ok_step:
  "clock_ok (Suc k) w \<Longrightarrow> ticks w' = Suc (ticks w) \<Longrightarrow> clock w' = clock w \<Longrightarrow>
     clock_ok k w' \<and> (0 < k \<longrightarrow> clock w (ticks w) < clock w' (ticks w'))"
proof -
  assume c: "clock_ok (Suc k) w" "ticks w' = Suc (ticks w)" "clock w' = clock w"
  have "0 \<le> clock w (ticks w + Suc i) \<and> clock w (ticks w + Suc i) < int max_stamp" if "i < k" for i
    using c(1) that unfolding clock_ok_def by (metis Suc_mono)
  moreover have "clock w (ticks w + Suc i) < clock w (ticks w + Suc j)" if "i < j" "j < k" for i j
    using c(1) that unfolding clock_ok_def by (metis Suc_mono)
  moreover have "0 < k \<longrightarrow> clock w (ticks w + 0) < clock w (ticks w + 1)"
    using c(1) unfolding clock_ok_def by (metis One_nat_def Suc_mono zero_less_one)
  ultimately show ?thesis using c(2,3) by (auto simp: clock_ok_def)
qed

lemma enqueue_law:
  assumes "queue_inv c q (Suc k) w"
  obtains w' where "file_enqueue c q e w = (Ok (), w')" "queue_inv c q k w'"
    "queue_contents c q w' = queue_contents c q w @ [norm_event e]"
proof -
  let ?d = "queue_dir q" and ?v = "queue_item_to_json \<lparr>item_event = e, item_attempt = 0\<rparr>"
  let ?n = "nat (clock w (ticks w))"
  define p where "p = event_file ?d ?n e"
  let ?t = "with_extension ''json.tmp'' p"
  note inv = assms [unfolded queue_inv_def]
  have n: "?n < max_stamp" "0 \<le> clock w (ticks w)" using inv by (auto simp: clock_ok_def)
  obtain w1 where w1: "create_dir_all ?d w = (Ok (), w1)" "files w1 = files w" "faults w1 = []"
    "ticks w1 = ticks w" "clock w1 = clock w"
    "\<And>r. is_dir w1 r \<longleftrightarrow> is_dir w r \<or> r \<in> set (prefixes_of ?d)"
    using create_dir_all_ok [of w ?d] inv by metis
  have child: "?d @ [x] \<notin> set (prefixes_of ?d)" for x
    using prefixes_of_shorter [of "?d @ [x]" "?d @ [x]"] by auto
  have fc1: "file_content w1 = file_content w" and qf1: "queue_files ?d w1 = queue_files ?d w"
    using w1(2) by (auto simp: file_content_def queue_files_def)
  have d1: "is_dir w1 ?d" using w1(6) inv by simp
  have inv1: "queue_inv c q (Suc k) w1"
    using inv w1 d1 child by (auto simp: queue_inv_def fc1 qf1 clock_ok_def event_name_def)
  let ?w2 = "w1\<lparr>ticks := Suc (ticks w1)\<rparr>"
  have ep: "event_path q e w1 = (Ok p, ?w2)"
    using event_path_ok [OF inv1 d1] by (simp add: p_def w1(4,5))
  have pd: "p = ?d @ [prefix_str ?n @ safe_file_id (event_id e) @ ''.json'']"
    by (simp add: p_def event_file_def)
  have long: "31 \<le> length (last p)" "31 \<le> length (last ?t)"
    using length_prefix_str [OF n(1)] split_extension_dot [of "prefix_str ?n @ safe_file_id (event_id e)" "''json''"]
    by (simp_all add: pd with_extension_def) (simp add: prefix_str_def)?
  have td: "butlast ?t = ?d" "?t \<noteq> []" by (simp_all add: pd, simp add: with_extension_def)
  then have te: "?t = ?d @ [last ?t]" by (metis append_butlast_last_id)
  have nd: "\<not> is_dir ?w2 p" "\<not> is_dir ?w2 ?t"
  proof -
    have "\<not> is_dir ?w2 (?d @ [x])" if "31 \<le> length x" for x
      using inv1 that by (auto simp: queue_inv_def)
    with long te pd show "\<not> is_dir ?w2 p" "\<not> is_dir ?w2 ?t" by (metis last_snoc, metis)
  qed
  have ck: "codec_ok c" and pn: "p \<noteq> []" and bd: "is_dir ?w2 (butlast p)" and f2: "faults ?w2 = []"
    using inv d1 w1(3) by (simp_all add: pd)
  have pl: "json_plain ?v" by (rule item_plain) simp
  obtain w' b where w': "replace_json c p ?v ?w2 = (Ok (), w')" "from_slice c [b] = Ok ?v"
    "\<And>r. file_content w' r = (if r = p then Some [b] else if r = ?t then None else file_content ?w2 r)"
    "dirs w' = dirs ?w2" "faults w' = []" "ticks w' = ticks ?w2" "clock w' = clock ?w2"
    by (rule replace_json_ok [OF ck pl f2 pn bd nd]) blast
  have run: "file_enqueue c q e w = (Ok (), w')"
    using w1(1) ep w'(1) by (simp add: file_enqueue_def rbind_def storage_io_def)
  have tq: "?t \<notin> queue_files ?d w"
  proof
    assume "?t \<in> queue_files ?d w"
    then obtain m i where "last ?t = prefix_str m @ safe_file_id i @ ''.json''"
      using inv by (auto simp: event_name_def)
    then show False using temp_not_json [of p ?d "prefix_str m @ safe_file_id i"] te by simp
  qed
  have fc': "file_content w' r = (if r = p then Some [b] else if r = ?t then None else file_content w r)" for r
    using w'(3) by (simp add: fc1)
  have qf: "queue_files ?d w' = insert p (queue_files ?d w)"
    using tq fc' pd by (auto simp: queue_files_def split: if_splits)
  have less: "\<forall>r \<in> queue_files ?d w. r < p"
  proof
    fix r assume r: "r \<in> queue_files ?d w"
    then obtain m i where m: "last r = prefix_str m @ safe_file_id i @ ''.json''" "int m < clock w (ticks w)"
      using inv by (auto simp: event_name_def)
    have "r = ?d @ [last r]" using r by (auto simp: queue_files_def) (metis append_butlast_last_id)
    moreover have "last r < prefix_str ?n @ safe_file_id (event_id e) @ ''.json''"
      unfolding m(1) using m(2) n by (intro prefix_str_less) simp_all
    ultimately show "r < p" unfolding pd by (metis path_less_iff)
  qed
  have items: "item_at c w' r = item_at c w r" if "r \<in> queue_files ?d w" for r
    using that less tq fc' by (auto simp: item_at_def)
  have itp: "item_event (item_at c w' p) = norm_event e"
    using fc' w'(2) queue_item_roundtrip [of "\<lparr>item_event = e, item_attempt = 0\<rparr>"]
    by (simp add: item_at_def storage_result_def)
  have cont: "queue_contents c q w' = queue_contents c q w @ [norm_event e]"
    using sorted_list_of_set_snoc [OF finite_queue_files less] items itp
    by (simp add: queue_contents_def qf)
  note clk = clock_ok_step [of k w w']
  have "event_name c k w' r" if "r \<in> queue_files ?d w'" for r
  proof (cases "r = p")
    case True
    have "int ?n = clock w (ticks w)" using n(2) by simp
    then show ?thesis
      using True n(1) clk inv w' w1(4,5) fc' pd queue_item_roundtrip [of "\<lparr>item_event = e, item_attempt = 0\<rparr>"]
      unfolding event_name_def by (intro conjI exI [of _ ?n]) auto
  next
    case False
    with that qf have r: "r \<in> queue_files ?d w" by simp
    then have "r \<noteq> ?t" using tq by blast
    with False r fc' inv clk w' w1(4,5) show ?thesis by (fastforce simp: event_name_def)
  qed
  moreover have "is_dir w' r \<longleftrightarrow> is_dir w1 r" for r using w'(4) by (simp add: is_dir_def)
  moreover have "\<forall>r \<in> set (prefixes_of ?d). file_content w' r = None"
    using fc' child te pd inv by metis
  moreover have "clock_ok k w'" using clk inv w'(6,7) w1(4,5) by simp
  ultimately have "queue_inv c q k w'"
    using inv w'(5) d1 w1(6) child unfolding queue_inv_def by blast
  with run cont that show ?thesis by blast
qed

lemma dequeue_law:
  assumes "queue_inv c q k w"
  shows "case queue_contents c q w of
      [] \<Rightarrow> \<exists>w'. file_dequeue c q w = (Ok None, w') \<and> queue_inv c q k w' \<and> queue_contents c q w' = []
    | e # es \<Rightarrow> \<exists>w'. file_dequeue c q w = (Ok (Some e), w') \<and> queue_inv c q k w' \<and> queue_contents c q w' = es"
proof -
  let ?d = "queue_dir q" and ?F = "queue_files (queue_dir q) w"
  note inv = assms [unfolded queue_inv_def]
  have pe: "path_exists ?d w \<longleftrightarrow> is_dir w ?d"
    using inv by (simp add: path_exists_def)
  show ?thesis
  proof (cases "?F = {}")
    case True
    then have "queue_contents c q w = []" by (simp add: queue_contents_def)
    moreover have "file_dequeue c q w = (Ok None, w)"
      using next_event [OF assms] True by (cases "is_dir w ?d") (simp_all add: file_dequeue_def pe rbind_def)
    ultimately show ?thesis using assms by simp
  next
    case False
    let ?p = "Min ?F" and ?w' = "w\<lparr>files := drop_file (Min ?F) (files w)\<rparr>"
    have pF: "?p \<in> ?F" using False by simp
    then obtain bs v item where bs: "file_content w ?p = Some bs" "from_slice c bs = Ok v"
      "json_to_queue_item v = Ok item" using inv by (auto simp: event_name_def)
    have d: "is_dir w ?d" using inv False by blast
    have rd: "read_queue_item c ?p w = (Ok item, w)"
      using read_json_ok [OF _ bs(1,2)] inv bs(3) by (simp add: read_queue_item_def rbind_def)
    have rm: "fs_remove_file ?p w = (Ok (), ?w')"
      using inv bs(1) by (simp add: fs_remove_file_def)
    have run: "file_dequeue c q w = (Ok (Some (item_event item)), ?w')"
      using next_event [OF assms d] False d rd rm
      by (simp add: file_dequeue_def pe rbind_def storage_io_def)
    have F': "queue_files ?d ?w' = ?F - {?p}" by (auto simp: queue_files_def)
    have "item_at c w ?p = item" using bs by (simp add: item_at_def storage_result_def)
    moreover have "item_at c ?w' r = item_at c w r" if "r \<in> ?F - {?p}" for r
      using that by (simp add: item_at_def)
    moreover have "sorted_list_of_set ?F = ?p # sorted_list_of_set (?F - {?p})"
      using False by (simp add: sorted_list_of_set_nonempty)
    ultimately have cont: "queue_contents c q w = item_event item # queue_contents c q ?w'"
      by (simp add: queue_contents_def F')
    have "event_name c k ?w' r" if "r \<in> ?F - {?p}" for r
    proof -
      have "event_name c k w r" using that inv by blast
      moreover have "file_content ?w' r = file_content w r" using that by simp
      ultimately show ?thesis by (simp add: event_name_def)
    qed
    moreover have "clock_ok k ?w'" using inv by (simp add: clock_ok_def)
    moreover have "\<forall>r \<in> set (prefixes_of ?d). file_content ?w' r = None" using inv by simp
    ultimately have "queue_inv c q k ?w'"
      using inv d unfolding queue_inv_def F' is_dir_update by simp
    with run cont show ?thesis by simp
  qed
qed

interpretation file_events: event_queue "file_enqueue c q" "file_dequeue c q" "queue_inv c q"
    "queue_contents c q" norm_event
  for c :: "'b codec" and q
proof
  fix n e and w :: "'b world"
  assume "queue_inv c q (Suc n) w"
  then show "\<exists>w'. file_enqueue c q e w = (Ok (), w') \<and> queue_inv c q n w'
      \<and> queue_contents c q w' = queue_contents c q w @ [norm_event e]"
    by (rule enqueue_law) blast
next
  fix n and w :: "'b world"
  assume "queue_inv c q n w"
  then show "case queue_contents c q w of
      [] \<Rightarrow> \<exists>w'. file_dequeue c q w = (Ok None, w') \<and> queue_inv c q n w' \<and> queue_contents c q w' = []
    | e # es \<Rightarrow> \<exists>w'. file_dequeue c q w = (Ok (Some e), w') \<and> queue_inv c q n w' \<and> queue_contents c q w' = es"
    by (rule dequeue_law)
qed

text \<open>C31: the file queue is first in, first out across any number of events: after enqueuing some,
  dequeuing returns what it held and then these events, in order, as their JSON keeps them, as
  long as the clock increases.\<close>

theorem file_queue_fifo:
  assumes "queue_inv c q (length es + n) w" and "k \<le> length (queue_contents c q w) + length es"
  shows "dequeue_all (file_dequeue c q) k (enqueue_all (file_enqueue c q) es w)
    = map (\<lambda>e. Ok (Some e)) (take k (queue_contents c q w @ map norm_event es))"
  by (rule file_events.fifo [OF assms])

abbreviation "sample_queue \<equiv> \<lparr>queue_dir = [''events'']\<rparr>"

lemma sample_queue_inv: "queue_inv id_codec sample_queue 5 sample_world"
proof -
  have "queue_files [''events''] sample_world = {}"
    by (auto simp: queue_files_def sample_world_def file_content_def)
  then show ?thesis
    by (auto simp: queue_inv_def sample_world_def file_content_def is_dir_def clock_ok_def)
qed

theorem file_queue_fifo_witness:
  "dequeue_all (file_dequeue id_codec sample_queue) 2
     (enqueue_all (file_enqueue id_codec sample_queue)
        [event_wait ''e1'' ''w'' 0, event_resume ''e2'' ''w'' 0] sample_world)
   = [Ok (Some (event_wait ''e1'' ''w'' 0)), Ok (Some (event_resume ''e2'' ''w'' 0))]"
proof -
  have "queue_contents id_codec sample_queue sample_world = []"
  proof -
    have "queue_files [''events''] sample_world = {}"
      by (auto simp: queue_files_def sample_world_def file_content_def)
    then show ?thesis by (simp add: queue_contents_def)
  qed
  then show ?thesis
    using file_queue_fifo [of id_codec sample_queue
        "[event_wait ''e1'' ''w'' 0, event_resume ''e2'' ''w'' 0]" 3 sample_world 2] sample_queue_inv
    by (simp add: norm_event_def event_wait_def event_resume_def event_transition_def norm_time_def
        system_time_from_ms_def system_time_ms_def)
qed

text \<open>The search for a time stamp ends, and the stamp it returns is the first from the clock
  reading on that no file of the directory carries, so an event never replaces another.\<close>

theorem find_free_prefix_unused:
  assumes "find_free_prefix d n w = (Ok m, w')" and "path_exists d w"
  shows "n \<le> m \<and> \<not> taken d w m \<and> (\<forall>j. n \<le> j \<longrightarrow> j < m \<longrightarrow> taken d w j)"
  using assms by (rule find_free_prefix_smallest)

theorem find_free_prefix_unused_witness:
  "\<not> taken [] (sample_world :: json world) 7"
proof -
  have "find_free_prefix [] 7 (sample_world :: json world) = (Ok 7, sample_world)"
    by (rule find_free_prefix_free)
      (simp_all add: sample_world_def is_dir_def taken_def children_def)
  then show ?thesis
    using find_free_prefix_unused [of "[]" 7 "sample_world :: json world" 7]
    by (simp add: path_exists_def is_dir_def)
qed

section \<open>Leases\<close>

text \<open>A file holds an event when it parses to an item with this event.\<close>

definition holds_at :: "'b codec \<Rightarrow> 'b world \<Rightarrow> path \<Rightarrow> workflow_event \<Rightarrow> bool" where
  "holds_at c w p e \<longleftrightarrow>
     (\<exists>bs v item. file_content w p = Some bs \<and> from_slice c bs = Ok v
        \<and> json_to_queue_item v = Ok item \<and> item_event item = e)"

lemma find_free_prefix_same: "find_free_prefix d n w = (r, w') \<Longrightarrow> \<exists>fs. w' = w\<lparr>faults := fs\<rparr>"
proof (induction d n w arbitrary: r w' rule: find_free_prefix.induct)
  case (1 d n w)
  obtain x w1 where e: "event_prefix_exists d n w = (x, w1)" by (cases "event_prefix_exists d n w")
  from event_prefix_exists_same(1) [OF e] obtain fs where w1: "w1 = w\<lparr>faults := fs\<rparr>" by blast
  show ?case
  proof (cases x)
    case (Inl err)
    with "1.prems" e w1 show ?thesis by (subst (asm) find_free_prefix.simps) auto
  next
    case (Inr b)
    show ?thesis
    proof (cases b)
      case True
      with "1.prems" e Inr have "find_free_prefix d (n + 1) w1 = (r, w')"
        by (subst (asm) find_free_prefix.simps) simp
      from "1.IH" [OF e [symmetric] Inr True this] w1 show ?thesis by auto
    next
      case False
      with "1.prems" e Inr w1 show ?thesis by (subst (asm) find_free_prefix.simps) auto
    qed
  qed
qed

lemma event_file_new:
  assumes "find_free_prefix d n w = (Ok m, w')" and "path_exists d w"
  shows "file_content w (event_file d m e) = None"
proof (rule ccontr)
  let ?p = "event_file d m e"
  assume "file_content w ?p \<noteq> None"
  then have "?p \<in> set (children d w)"
    by (auto simp: children_def event_file_def file_content_def map_of_eq_None_iff)
  moreover have "starts_with (prefix_str m) (last ?p)" by (simp add: event_file_def)
  ultimately have "taken d w m" by (auto simp: taken_def)
  with find_free_prefix_smallest [OF assms] show False by blast
qed

text \<open>The new path, in the cases where it is found.\<close>

lemma event_path_any:
  assumes "event_path q e w = (r, w1)"
  shows "file_content w1 = file_content w"
    and "r = Ok p \<Longrightarrow> path_exists (queue_dir q) w \<Longrightarrow> file_content w p = None \<and> (\<exists>x. p = queue_dir q @ [x])"
proof -
  let ?w = "w\<lparr>ticks := Suc (ticks w)\<rparr>"
  obtain x w2 where f: "find_free_prefix (queue_dir q) (system_time_ns (clock w (ticks w))) ?w = (x, w2)"
    by (cases "find_free_prefix (queue_dir q) (system_time_ns (clock w (ticks w))) ?w")
  with assms have w1: "w1 = w2" by (cases x) (auto simp: event_path_def rbind_def read_clock_def)
  from find_free_prefix_same [OF f] show "file_content w1 = file_content w"
    by (auto simp: w1 fun_eq_iff)
  assume r: "r = Ok p" and ex: "path_exists (queue_dir q) w"
  with assms f obtain m where m: "x = Ok m" "p = event_file (queue_dir q) m e"
    by (cases x) (auto simp: event_path_def rbind_def read_clock_def)
  from ex have "path_exists (queue_dir q) ?w" by (simp add: path_exists_def)
  with event_file_new [of "queue_dir q" _ ?w m w2 e] f m
  show "file_content w p = None \<and> (\<exists>x. p = queue_dir q @ [x])"
    by (simp add: event_file_def)
qed

lemma archive_path_any:
  assumes "archive_path d e w = (r, w1)"
  shows "file_content w1 = file_content w"
    and "r = Ok p \<Longrightarrow> d \<noteq> [] \<Longrightarrow> file_content w p = None \<and> (\<exists>x. p = d @ [x])"
proof -
  obtain y w0 where c: "create_dir_all d w = (y, w0)" by (cases "create_dir_all d w")
  note same = create_dir_all_any(1) [OF c]
  let ?w = "w0\<lparr>ticks := Suc (ticks w0)\<rparr>"
  obtain x w2 where f: "find_free_prefix d (system_time_ns (clock w0 (ticks w0))) ?w = (x, w2)"
    by (cases "find_free_prefix d (system_time_ns (clock w0 (ticks w0))) ?w")
  have w1: "w1 = w0 \<or> w1 = w2"
    using assms c f by (cases y; cases x)
      (auto simp: archive_path_def rbind_def read_clock_def storage_io_def)
  have fc: "file_content w0 = file_content w" using same by (auto simp: file_content_def)
  with w1 find_free_prefix_same [OF f] show "file_content w1 = file_content w"
    by (auto simp: fun_eq_iff)
  assume r: "r = Ok p" and d: "d \<noteq> []"
  with assms c f obtain m u where m: "x = Ok m" "p = event_file d m e" and y: "y = Ok u"
    by (cases y; cases x) (auto simp: archive_path_def rbind_def read_clock_def storage_io_def)
  have "is_dir w0 d"
    using c [unfolded create_dir_all_def y]
    by (cases rule: attempt_cases) (use d in \<open>auto simp: is_dir_def split: if_splits\<close>)
  then have "path_exists d ?w" by (simp add: path_exists_def)
  with event_file_new [of d _ ?w m w2 e] f m fc
  show "file_content w p = None \<and> (\<exists>x. p = d @ [x])"
    by (simp add: event_file_def)
qed

lemma remove_if_exists_any:
  "remove_if_exists p w = (r, w') \<Longrightarrow> q \<noteq> p \<Longrightarrow> file_content w' q = file_content w q"
proof -
  assume a: "remove_if_exists p w = (r, w')" and q: "q \<noteq> p"
  show ?thesis
  proof (cases "path_exists p w")
    case True
    obtain x w1 where x: "fs_remove_file p w = (x, w1)" by (cases "fs_remove_file p w")
    from x [unfolded fs_remove_file_def] have "file_content w1 q = file_content w q"
      by (cases rule: attempt_cases) (use q in \<open>auto simp: file_content_def split: option.splits\<close>)
    with a True x show ?thesis by (simp add: remove_if_exists_def storage_io_def)
  qed (use a in \<open>simp add: remove_if_exists_def\<close>)
qed

lemma write_json_any:
  assumes "write_json c p v w = (r, w')" and "codec_ok c" and "json_plain v"
  shows "q \<noteq> p \<Longrightarrow> file_content w' q = file_content w q"
    and "r = Ok u \<Longrightarrow> \<exists>b. file_content w' p = Some [b] \<and> from_slice c [b] = Ok v"
proof -
  obtain b where b: "to_vec c v = Ok b" "from_slice c [b] = Ok v" using codec_okD [OF assms(2,3)] by blast
  obtain x w1 where x: "fs_write p b w = (x, w1)" by (cases "fs_write p b w")
  have w': "w' = w1" "is_ok r \<longleftrightarrow> is_ok x"
    using assms(1) b x by (cases x; auto simp: write_json_def rbind_def storage_result_def storage_io_def)+
  show "q \<noteq> p \<Longrightarrow> file_content w' q = file_content w q" using fs_write_any(2) [OF x] w' by simp
  assume "r = Ok u"
  with w' obtain u' where "x = Ok u'" by (auto simp: is_ok_iff)
  with fs_write_any(3) [OF x] b w' show "\<exists>b. file_content w' p = Some [b] \<and> from_slice c [b] = Ok v" by auto
qed

lemma dead_letter_roundtrip:
  "n \<le> u32_max \<Longrightarrow> json_to_queue_item (dead_letter_item_to_json e n wid err now)
     = Ok \<lparr>item_event = norm_event e, item_attempt = n\<rparr>"
  using delivery_attempt_item [of n "dead_letter_item_to_json e n wid err now"]
  by (simp add: json_to_queue_item_def dead_letter_item_to_json_def json_get_object event_roundtrip
      del: json_object_get)

lemma holds_at_same: "file_content w' p = file_content w p \<Longrightarrow> holds_at c w' p e = holds_at c w p e"
  by (simp add: holds_at_def)

lemma rbind_cases:
  assumes "rbind m f s = (r, t)"
  obtains (err) e where "m s = (Err e, t)" "r = Err e"
  | (ok) x u where "m s = (Ok x, u)" "f x u = (r, t)"
proof (cases "m s")
  case (Pair y u)
  with assms that show ?thesis by (cases y) (simp_all add: rbind_def)
qed

lemma fail_dead_keeps:
  assumes "codec_ok c" and "lease_attempt lease \<le> u32_max" and "norm_event (lease_event lease) = lease_event lease"
    and "holds_at c w (lease_path lease) (lease_event lease)"
    and "rbind (archive_path (dead_letter_dir q) (lease_event lease)) (\<lambda>p.
        rbind (write_dead_letter_item c p (lease_event lease) (lease_attempt lease) (lease_worker_id lease) err) (\<lambda>_.
        rbind (remove_if_exists (lease_path lease)) (\<lambda>_. rreturn x))) w = (r, w')"
  shows "\<exists>p. holds_at c w' p (lease_event lease)"
  using assms(5)
proof (cases rule: rbind_cases)
  case (err e)
  with archive_path_any(1) have "file_content w' = file_content w" by blast
  then show ?thesis using assms(4) holds_at_same by metis
next
  case (ok p w1)
  note arch = archive_path_any [OF ok(1)]
  have p: "file_content w p = None" using arch(2) [of p] by (simp add: dead_letter_dir_def)
  then have pl: "p \<noteq> lease_path lease" using assms(4) by (auto simp: holds_at_def)
  let ?v = "dead_letter_item_to_json (lease_event lease) (lease_attempt lease) (lease_worker_id lease) err"
  have pn: "json_plain (?v now)" for now
    using item_plain(3) [of "\<lparr>item_event = lease_event lease, item_attempt = 0\<rparr>"] assms(2) by simp
  from ok(2) show ?thesis
  proof (cases rule: rbind_cases)
    case (err e)
    then have "write_json c p (?v (clock w1 (ticks w1))) (w1\<lparr>ticks := Suc (ticks w1)\<rparr>) = (Err e, w')"
      by (simp add: write_dead_letter_item_def rbind_def read_clock_def)
    from write_json_any(1) [OF this assms(1) pn pl [symmetric]] arch(1)
    have "file_content w' (lease_path lease) = file_content w (lease_path lease)" by simp
    then show ?thesis using assms(4) holds_at_same by metis
  next
    case (ok u w2)
    then have "write_json c p (?v (clock w1 (ticks w1))) (w1\<lparr>ticks := Suc (ticks w1)\<rparr>) = (Ok u, w2)"
      by (simp add: write_dead_letter_item_def rbind_def read_clock_def)
    from write_json_any(2) [OF this assms(1) pn refl] obtain b where
      b: "file_content w2 p = Some [b]" "from_slice c [b] = Ok (?v (clock w1 (ticks w1)))" by blast
    from ok(2) obtain y where "remove_if_exists (lease_path lease) w2 = (y, w')"
      by (cases rule: rbind_cases) simp_all
    from remove_if_exists_any [OF this pl] b have "file_content w' p = Some [b]" by simp
    with b dead_letter_roundtrip [OF assms(2)] assms(3) have "holds_at c w' p (lease_event lease)"
      by (simp add: holds_at_def)
    then show ?thesis ..
  qed
qed

lemma fail_requeue_keeps:
  assumes "codec_ok c" and "lease_attempt lease \<le> u32_max" and "norm_event (lease_event lease) = lease_event lease"
    and "holds_at c w (lease_path lease) (lease_event lease)" and "path_exists (queue_dir q) w"
    and "lease_path lease = d @ [n @ ''.json'']"
    and "rbind (event_path q (lease_event lease)) (\<lambda>p.
        rbind (write_queue_item c p \<lparr>item_event = lease_event lease, item_attempt = lease_attempt lease\<rparr>) (\<lambda>_.
        rbind (remove_if_exists (lease_path lease)) (\<lambda>_. rreturn x))) w = (r, w')"
  shows "\<exists>p. holds_at c w' p (lease_event lease)"
  using assms(7)
proof (cases rule: rbind_cases)
  case (err e)
  with event_path_any(1) have "file_content w' = file_content w" by blast
  then show ?thesis using assms(4) holds_at_same by metis
next
  case (ok p w1)
  note path = event_path_any [OF ok(1)]
  have p: "file_content w p = None" "p \<noteq> []" using path(2) [of p] assms(5) by auto
  then have pl: "p \<noteq> lease_path lease" using assms(4) by (auto simp: holds_at_def)
  let ?item = "\<lparr>item_event = lease_event lease, item_attempt = lease_attempt lease\<rparr>"
  have pn: "json_plain (queue_item_to_json ?item)" by (rule item_plain) (use assms(2) in simp)
  from ok(2) show ?thesis
  proof (cases rule: rbind_cases)
    case (err e)
    then have "replace_json c p (queue_item_to_json ?item) w1 = (Err e, w')"
      by (simp add: write_queue_item_def)
    from replace_json_any(2) [OF this p(2) assms(1) pn refl, of "lease_path lease"] path(1)
    have "file_content w' (lease_path lease) = file_content w (lease_path lease)"
      using temp_not_json assms(6) by metis
    then show ?thesis using assms(4) holds_at_same by metis
  next
    case (ok u w2)
    then have "replace_json c p (queue_item_to_json ?item) w1 = (Ok u, w2)"
      by (simp add: write_queue_item_def)
    from replace_json_any(3) [OF this p(2) assms(1) pn refl] obtain b where
      b: "file_content w2 p = Some [b]" "from_slice c [b] = Ok (queue_item_to_json ?item)" by auto
    from ok(2) obtain y where "remove_if_exists (lease_path lease) w2 = (y, w')"
      by (cases rule: rbind_cases) simp_all
    from remove_if_exists_any [OF this pl] b have "file_content w' p = Some [b]" by simp
    with b queue_item_roundtrip [of ?item] assms(2,3) have "holds_at c w' p (lease_event lease)"
      by (simp add: holds_at_def)
    then show ?thesis ..
  qed
qed

text \<open>Failing a lease never loses its event: whichever operations fail on the way, and
  whatever is left of a failed write, some file holds the event afterwards, the lease, the
  requeued event or the dead letter.\<close>

theorem fail_lease_keeps_event:
  assumes "codec_ok c" and "lease_attempt lease \<le> u32_max"
    and "norm_event (lease_event lease) = lease_event lease"
    and "holds_at c w (lease_path lease) (lease_event lease)" and "path_exists (queue_dir q) w"
    and "lease_path lease = d @ [n @ ''.json'']"
    and "fail_lease c q lease err max_att w = (r, w')"
  shows "\<exists>p. holds_at c w' p (lease_event lease)"
proof (cases "max_att \<le> lease_attempt lease")
  case True
  with assms(7) fail_dead_keeps [OF assms(1-4)] show ?thesis by (simp add: fail_lease_def)
next
  case False
  with assms(7) fail_requeue_keeps [OF assms(1-6)] show ?thesis by (simp add: fail_lease_def)
qed

definition sample_lease :: workflow_event_lease where
  "sample_lease = \<lparr>lease_event = event_wait ''e1'' ''w'' 0, lease_worker_id = ''k'', lease_attempt = 1,
     lease_path = [''events'', ''leases'', ''e.json'']\<rparr>"

definition leased_world :: "json world" where
  "leased_world = sample_world\<lparr>dirs := [[''events''], [''events'', ''leases'']],
     files := [([''events'', ''leases'', ''e.json''], [leased_queue_item_to_json
        \<lparr>item_event = event_wait ''e1'' ''w'' 0, item_attempt = 1\<rparr> ''k'' 0])],
     faults := [NoFault, NoFault, PartialFault (other_error ''disk full'') []]\<rparr>"

theorem fail_lease_keeps_event_witness:
  "\<exists>p. holds_at id_codec (snd (fail_lease id_codec sample_queue sample_lease ''boom'' 3 leased_world)) p
     (event_wait ''e1'' ''w'' 0)"
proof -
  have n: "norm_event (event_wait ''e1'' ''w'' 0) = event_wait ''e1'' ''w'' 0"
    by (simp add: norm_event_def event_wait_def event_transition_def norm_time_def
        system_time_from_ms_def system_time_ms_def)
  have h: "holds_at id_codec leased_world (lease_path sample_lease) (lease_event sample_lease)"
    using leased_item_roundtrip(1) [of "\<lparr>item_event = event_wait ''e1'' ''w'' 0, item_attempt = 1\<rparr>" "''k''" 0] n
    by (simp add: holds_at_def leased_world_def sample_lease_def file_content_def id_codec_def)
  obtain r w' where "fail_lease id_codec sample_queue sample_lease ''boom'' 3 leased_world = (r, w')"
    by (cases "fail_lease id_codec sample_queue sample_lease ''boom'' 3 leased_world")
  with fail_lease_keeps_event [OF id_codec_ok _ _ h, of sample_queue "[''events'', ''leases'']" "''e''" "''boom''" 3 r w'] n
  show ?thesis by (simp add: sample_lease_def leased_world_def path_exists_def is_dir_def)
qed

lemma create_dir_all_noop:
  assumes "faults w = []" and "\<forall>q \<in> set (prefixes_of p). is_dir w q \<and> file_content w q = None"
  shows "create_dir_all p w = (Ok (), w)"
proof -
  have "filter (\<lambda>q. q \<notin> set (dirs w)) (prefixes_of p) = []"
    using assms(2) prefixes_of_prefix by (fastforce simp: is_dir_def filter_empty_conv)
  moreover have "\<not> list_ex (\<lambda>q. file_content w q \<noteq> None) (prefixes_of p)"
    using assms(2) by (auto simp: list_ex_iff)
  ultimately show ?thesis using assms(1) by (simp add: create_dir_all_def)
qed

lemma prefixes_of_snoc: "set (prefixes_of (d @ [x])) = insert (d @ [x]) (set (prefixes_of d))"
proof -
  have "[1..<Suc (length (d @ [x]))] = [1..<Suc (length d)] @ [Suc (length d)]" by simp
  moreover have "map (\<lambda>n. take n (d @ [x])) [1..<Suc (length d)] = map (\<lambda>n. take n d) [1..<Suc (length d)]"
    by (rule map_cong) auto
  ultimately show ?thesis unfolding prefixes_of_def by (simp del: upt_Suc)
qed

text \<open>C37: a lease file without lease metadata blocks the queue. Such a file is what a worker leaves
  that stops after it has renamed an event into \<open>leases/\<close> and before it has written the lease:
  if it is the first entry, every \<open>claim\<close> fails with the same error and moves nothing.\<close>

theorem unfinished_claim_blocks_queue:
  assumes "faults w = []"
    and "\<forall>p \<in> set (prefixes_of (leases_dir q)) \<union> set (prefixes_of (dead_letter_dir q)).
           is_dir w p \<and> file_content w p = None"
    and "children (leases_dir q) w = p # ps" and "file_extension p = Some ''json''"
    and "file_content w p = Some bs" and "from_slice c bs = Ok v" and "json_to_queue_item v = Ok item"
    and "json_get v ''lease'' = None"
  shows "fst (claim c q opts w) = Err (Storage ''missing workflow event lease metadata'')
    \<and> files (snd (claim c q opts w)) = files w"
proof -
  let ?e = "Storage ''missing workflow event lease metadata''" and ?w = "w\<lparr>ticks := Suc (ticks w)\<rparr>"
  have dirs: "create_dir_all d w = (Ok (), w)" if "d \<in> {queue_dir q, leases_dir q, dead_letter_dir q}" for d
    by (rule create_dir_all_noop [OF assms(1)])
      (use that assms(2) in \<open>auto simp: leases_dir_def prefixes_of_snoc\<close>)
  have ld: "is_dir w (leases_dir q)" using assms(2) by (simp add: leases_dir_def prefixes_of_snoc)
  have "json_to_lease_metadata v = Err ?e" by (simp add: json_to_lease_metadata_def assms(8))
  then have rl: "read_leased_queue_item c p ?w = (Err ?e, ?w)"
    using read_json_ok [of ?w p bs c v] assms(1,5-7) by (simp add: read_leased_queue_item_def rbind_def)
  have "read_dir (leases_dir q) ?w = (Ok (map Inr (p # ps)), ?w)"
    using assms(1,3) ld by (simp add: read_dir_def del: read_entries.simps)
  then have "recover_expired_leases c q opts w = (Err ?e, ?w)"
    using ld rl assms(4)
    by (simp add: recover_expired_leases_def path_exists_def rbind_def read_clock_def storage_io_def
        recover_lease_def)
  then have "claim c q opts w = (Err ?e, ?w)"
    using dirs by (simp add: claim_def rbind_def storage_io_def)
  then show ?thesis by simp
qed

definition unfinished_world :: "json world" where
  "unfinished_world = sample_world\<lparr>
     dirs := [[''events''], [''events'', ''leases''], [''events'', ''dead'']],
     files := [([''events'', ''leases'', ''e.json''], [queue_item_to_json
        \<lparr>item_event = event_wait ''e1'' ''w'' 0, item_attempt = 0\<rparr>])]\<rparr>"

theorem unfinished_claim_blocks_queue_witness:
  "fst (claim id_codec sample_queue default_lease_options unfinished_world)
     = Err (Storage ''missing workflow event lease metadata'')"
proof -
  let ?v = "queue_item_to_json \<lparr>item_event = event_wait ''e1'' ''w'' 0, item_attempt = 0\<rparr>"
  have "json_get ?v ''lease'' = None"
    by (simp add: queue_item_to_json_def json_get_object del: json_object_get)
  moreover have "file_extension [''events'', ''leases'', ''e.json''] = Some ''json''" by code_simp
  moreover have "json_to_queue_item ?v =
      Ok \<lparr>item_event = norm_event (event_wait ''e1'' ''w'' 0), item_attempt = 0\<rparr>"
    by (simp add: queue_item_roundtrip)
  ultimately show ?thesis
    using unfinished_claim_blocks_queue [of unfinished_world sample_queue
        "[''events'', ''leases'', ''e.json'']" "[]" "[?v]" id_codec ?v _ default_lease_options]
    by (simp add: unfinished_world_def sample_world_def leases_dir_def dead_letter_dir_def
        prefixes_of_snoc is_dir_def file_content_def children_def id_codec_def prefixes_of_def)
qed

end
