(* ===== verification/Engine.thy ===== *)
theory Engine
  imports Event_Queue Cost
begin

text \<open>
  The workflow engine (\<open>engine.rs\<close>): the life cycle of a workflow over a state store, an
  audit sink and a clock. The engine of the source is generic in its store and sink, so the
  operations here take a \<open>backend\<close>, a record of the store's and the sink's operations and of
  the clock on a state of any type; the tenant guard is the one field of the engine that is
  neither. Interfaces and instances follow the operations.
\<close>

record 'w backend =
  save_op :: "workflow_state \<Rightarrow> ('w, runtime_error, unit) stm"
  load_op :: "string \<Rightarrow> ('w, runtime_error, workflow_state option) stm"
  append_op :: "audit_event \<Rightarrow> ('w, runtime_error, unit) stm"
  now_op :: "'w \<Rightarrow> system_time \<times> 'w"

record 'w engine =
  backend_of :: "'w backend"
  tenant_guard_of :: tenant_guard

definition new_engine :: "'w backend \<Rightarrow> 'w engine" where
  "new_engine b = \<lparr>backend_of = b, tenant_guard_of = strict\<rparr>"

definition with_tenant_guard :: "tenant_guard \<Rightarrow> 'w engine \<Rightarrow> 'w engine" where
  "with_tenant_guard g e = e\<lparr>tenant_guard_of := g\<rparr>"

definition now :: "'w backend \<Rightarrow> ('w, runtime_error, system_time) stm" where
  "now b w = (case now_op b w of (t, w') \<Rightarrow> (Ok t, w'))"

section \<open>Status changes\<close>

definition allowed_transition :: "workflow_status \<Rightarrow> workflow_status \<Rightarrow> bool" where
  "allowed_transition current next \<longleftrightarrow> (current, next) \<in> set
     [(workflow_status.Created, workflow_status.Running),
      (workflow_status.Running, workflow_status.Waiting),
      (workflow_status.Waiting, workflow_status.Running),
      (workflow_status.Running, workflow_status.Completed),
      (workflow_status.Running, workflow_status.Failed),
      (workflow_status.Waiting, workflow_status.Failed),
      (workflow_status.Running, workflow_status.Cancelled),
      (workflow_status.Waiting, workflow_status.Cancelled),
      (workflow_status.Failed, workflow_status.Compensated)]"

text \<open>The derived \<open>Debug\<close> form of a status is its name.\<close>

definition validate_transition :: "workflow_status \<Rightarrow> workflow_status \<Rightarrow> runtime_error + unit" where
  "validate_transition current next =
     (if allowed_transition current next then Ok ()
      else Err (Storage (''invalid workflow status transition '' @ workflow_status_str current
             @ '' -> '' @ workflow_status_str next)))"

fun audit_result_label :: "audit_result \<Rightarrow> string" where
  "audit_result_label audit_result.Started = ''Started''"
| "audit_result_label audit_result.Waiting = ''Waiting''"
| "audit_result_label audit_result.Resumed = ''Resumed''"
| "audit_result_label audit_result.Succeeded = ''Succeeded''"
| "audit_result_label (audit_result.Failed _) = ''Failed''"
| "audit_result_label audit_result.RolledBack = ''RolledBack''"
| "audit_result_label audit_result.Cancelled = ''Cancelled''"

fun audit_result_name :: "audit_result \<Rightarrow> string" where
  "audit_result_name audit_result.Started = ''started''"
| "audit_result_name audit_result.Waiting = ''waiting''"
| "audit_result_name audit_result.Resumed = ''resumed''"
| "audit_result_name audit_result.Succeeded = ''succeeded''"
| "audit_result_name (audit_result.Failed _) = ''failed''"
| "audit_result_name audit_result.RolledBack = ''rolled_back''"
| "audit_result_name audit_result.Cancelled = ''cancelled''"

definition workflow_audit_event :: "workflow_state \<Rightarrow> audit_result \<Rightarrow> system_time \<Rightarrow> audit_event" where
  "workflow_audit_event st result t =
     \<lparr>ae_event_id = wf_id st @ '':'' @ audit_result_name result, ae_timestamp = t,
      ae_actor = actor (security st), ae_tenant = tenant (security st), ae_action = wf_name st,
      ae_result = result,
      ae_permissions_used = sorted_list_of_fset (permissions (security st)),
      ae_data_sources = [], ae_ai_models = [], ae_confidence_values = [], ae_rollback_status = None,
      ae_correlation_id = correlation_id (security st), ae_request_id = request_id (security st)\<rparr>"

definition update_workflow_dashboard_metadata :: "workflow_state \<Rightarrow> audit_result \<Rightarrow> workflow_state" where
  "update_workflow_dashboard_metadata st result =
     (let updated_at_ms = show_nat (system_time_ms (updated_at st));
          result_name = audit_result_label result;
          m = fmupd ''last_audit_at_ms'' updated_at_ms
               (fmupd ''last_audit_result'' result_name
               (fmupd ''last_audit_event'' (wf_id st @ '':'' @ result_name) (metadata st)));
          m' = (case result of
                  audit_result.Failed reason \<Rightarrow>
                    fmupd ''failure_at_ms'' updated_at_ms (fmupd ''failure_reason'' reason m)
                | _ \<Rightarrow> m)
      in st\<lparr>metadata := m'\<rparr>)"

definition processed_event_key :: "string \<Rightarrow> string" where
  "processed_event_key eid = ''num.processed_event.'' @ eid"

definition event_already_processed :: "workflow_state \<Rightarrow> string \<Rightarrow> bool" where
  "event_already_processed st eid \<longleftrightarrow> fmlookup (metadata st) (processed_event_key eid) \<noteq> None"

definition mark_event_processed :: "(string, string) fmap \<Rightarrow> string \<Rightarrow> (string, string) fmap" where
  "mark_event_processed m eid = fmupd (processed_event_key eid) ''true'' m"

section \<open>Operations\<close>

definition record_audit :: "'w backend \<Rightarrow> workflow_state \<Rightarrow> audit_result \<Rightarrow> ('w, runtime_error, unit) stm" where
  "record_audit b st result =
     rbind (now b) (\<lambda>t. append_op b (workflow_audit_event st result t))"

definition already_exists :: "string \<Rightarrow> runtime_error" where
  "already_exists i = Storage (''workflow '' @ quoted i @ '' already exists'')"

definition wf_not_found :: "string \<Rightarrow> runtime_error" where
  "wf_not_found i = Storage (''workflow '' @ quoted i @ '' not found'')"

definition start_workflow :: "'w engine \<Rightarrow> workflow_start \<Rightarrow> ('w, runtime_error, workflow_state) stm" where
  "start_workflow e start = (let b = backend_of e in
     rbind (load_op b (start_id start)) (\<lambda>found.
     if found \<noteq> None then rthrow (already_exists (start_id start))
     else
       rbind (now b) (\<lambda>t.
       let st = \<lparr>wf_id = start_id start, wf_name = start_name start, status = workflow_status.Running,
                 security = start_security start, started_at = t, updated_at = t,
                 metadata = start_metadata start\<rparr> in
       rbind (save_op b st) (\<lambda>_.
       rbind (record_audit b st audit_result.Started) (\<lambda>_. rreturn st)))))"

definition start_workflow_as ::
    "'w engine \<Rightarrow> security_context \<Rightarrow> workflow_start \<Rightarrow> ('w, runtime_error, workflow_state) stm" where
  "start_workflow_as e ctx start =
     rbind (rlift (ensure_access (tenant_guard_of e) ctx (tenant (start_security start)))) (\<lambda>_.
     start_workflow e start)"

text \<open>\<open>load_workflow(id)?.ok_or_else(...)\<close>.\<close>

definition load_existing :: "'w backend \<Rightarrow> string \<Rightarrow> ('w, runtime_error, workflow_state) stm" where
  "load_existing b i = rbind (load_op b i) (\<lambda>found. rlift (ok_or (wf_not_found i) found))"

definition transition_workflow ::
    "'w engine \<Rightarrow> string \<Rightarrow> workflow_status \<Rightarrow> audit_result \<Rightarrow> ('w, runtime_error, workflow_state) stm" where
  "transition_workflow e i next result = (let b = backend_of e in
     rbind (load_existing b i) (\<lambda>st.
     rbind (rlift (validate_transition (status st) next)) (\<lambda>_.
     rbind (now b) (\<lambda>t.
     let st' = update_workflow_dashboard_metadata (st\<lparr>status := next, updated_at := t\<rparr>) result in
     rbind (save_op b st') (\<lambda>_.
     rbind (record_audit b st' result) (\<lambda>_. rreturn st'))))))"

definition transition_workflow_as ::
    "'w engine \<Rightarrow> security_context \<Rightarrow> string \<Rightarrow> workflow_status \<Rightarrow> audit_result
     \<Rightarrow> ('w, runtime_error, workflow_state) stm" where
  "transition_workflow_as e ctx i next result =
     rbind (load_existing (backend_of e) i) (\<lambda>st.
     rbind (rlift (ensure_access (tenant_guard_of e) ctx (tenant (security st)))) (\<lambda>_.
     transition_workflow e i next result))"

definition wait_workflow :: "'w engine \<Rightarrow> string \<Rightarrow> ('w, runtime_error, workflow_state) stm" where
  "wait_workflow e i = transition_workflow e i workflow_status.Waiting audit_result.Waiting"

definition wait_workflow_as ::
    "'w engine \<Rightarrow> security_context \<Rightarrow> string \<Rightarrow> ('w, runtime_error, workflow_state) stm" where
  "wait_workflow_as e ctx i = transition_workflow_as e ctx i workflow_status.Waiting audit_result.Waiting"

definition resume_workflow :: "'w engine \<Rightarrow> string \<Rightarrow> ('w, runtime_error, workflow_state) stm" where
  "resume_workflow e i = transition_workflow e i workflow_status.Running audit_result.Resumed"

definition resume_workflow_as ::
    "'w engine \<Rightarrow> security_context \<Rightarrow> string \<Rightarrow> ('w, runtime_error, workflow_state) stm" where
  "resume_workflow_as e ctx i = transition_workflow_as e ctx i workflow_status.Running audit_result.Resumed"

definition complete_workflow :: "'w engine \<Rightarrow> string \<Rightarrow> ('w, runtime_error, workflow_state) stm" where
  "complete_workflow e i = transition_workflow e i workflow_status.Completed audit_result.Succeeded"

definition complete_workflow_as ::
    "'w engine \<Rightarrow> security_context \<Rightarrow> string \<Rightarrow> ('w, runtime_error, workflow_state) stm" where
  "complete_workflow_as e ctx i =
     transition_workflow_as e ctx i workflow_status.Completed audit_result.Succeeded"

definition fail_workflow :: "'w engine \<Rightarrow> string \<Rightarrow> string \<Rightarrow> ('w, runtime_error, workflow_state) stm" where
  "fail_workflow e i reason = transition_workflow e i workflow_status.Failed (audit_result.Failed reason)"

definition fail_workflow_as ::
    "'w engine \<Rightarrow> security_context \<Rightarrow> string \<Rightarrow> string \<Rightarrow> ('w, runtime_error, workflow_state) stm" where
  "fail_workflow_as e ctx i reason =
     transition_workflow_as e ctx i workflow_status.Failed (audit_result.Failed reason)"

definition compensate_workflow :: "'w engine \<Rightarrow> string \<Rightarrow> ('w, runtime_error, workflow_state) stm" where
  "compensate_workflow e i = transition_workflow e i workflow_status.Compensated audit_result.RolledBack"

definition compensate_workflow_as ::
    "'w engine \<Rightarrow> security_context \<Rightarrow> string \<Rightarrow> ('w, runtime_error, workflow_state) stm" where
  "compensate_workflow_as e ctx i =
     transition_workflow_as e ctx i workflow_status.Compensated audit_result.RolledBack"

definition cancel_workflow :: "'w engine \<Rightarrow> string \<Rightarrow> ('w, runtime_error, workflow_state) stm" where
  "cancel_workflow e i = transition_workflow e i workflow_status.Cancelled audit_result.Cancelled"

definition cancel_workflow_as ::
    "'w engine \<Rightarrow> security_context \<Rightarrow> string \<Rightarrow> ('w, runtime_error, workflow_state) stm" where
  "cancel_workflow_as e ctx i =
     transition_workflow_as e ctx i workflow_status.Cancelled audit_result.Cancelled"

definition engine_load :: "'w engine \<Rightarrow> string \<Rightarrow> ('w, runtime_error, workflow_state option) stm" where
  "engine_load e i = load_op (backend_of e) i"

definition engine_load_as ::
    "'w engine \<Rightarrow> security_context \<Rightarrow> string \<Rightarrow> ('w, runtime_error, workflow_state option) stm" where
  "engine_load_as e ctx i =
     rbind (load_op (backend_of e) i) (\<lambda>found.
     case found of
       None \<Rightarrow> rreturn None
     | Some st \<Rightarrow>
         rbind (rlift (ensure_access (tenant_guard_of e) ctx (tenant (security st)))) (\<lambda>_.
         rreturn (Some st)))"

section \<open>Events\<close>

definition start_workflow_for_event ::
    "'w engine \<Rightarrow> string \<Rightarrow> workflow_start \<Rightarrow> ('w, runtime_error, workflow_state) stm" where
  "start_workflow_for_event e eid start =
     rbind (load_op (backend_of e) (start_id start)) (\<lambda>found.
     case found of
       Some st \<Rightarrow>
         if event_already_processed st eid then rreturn st else rthrow (already_exists (start_id start))
     | None \<Rightarrow>
         start_workflow e (start\<lparr>start_metadata := mark_event_processed (start_metadata start) eid\<rparr>))"

definition start_workflow_for_event_as ::
    "'w engine \<Rightarrow> security_context \<Rightarrow> string \<Rightarrow> workflow_start \<Rightarrow> ('w, runtime_error, workflow_state) stm" where
  "start_workflow_for_event_as e ctx eid start =
     rbind (rlift (ensure_access (tenant_guard_of e) ctx (tenant (start_security start)))) (\<lambda>_.
     start_workflow_for_event e eid start)"

definition transition_workflow_for_event ::
    "'w engine \<Rightarrow> string \<Rightarrow> workflow_status \<Rightarrow> audit_result \<Rightarrow> string
     \<Rightarrow> ('w, runtime_error, workflow_state) stm" where
  "transition_workflow_for_event e i next result eid = (let b = backend_of e in
     rbind (load_existing b i) (\<lambda>st.
     if event_already_processed st eid then rreturn st
     else
       rbind (rlift (validate_transition (status st) next)) (\<lambda>_.
       rbind (now b) (\<lambda>t.
       let st' = update_workflow_dashboard_metadata
                   (st\<lparr>status := next, updated_at := t,
                       metadata := mark_event_processed (metadata st) eid\<rparr>) result in
       rbind (save_op b st') (\<lambda>_.
       rbind (record_audit b st' result) (\<lambda>_. rreturn st'))))))"

definition transition_workflow_for_event_as ::
    "'w engine \<Rightarrow> security_context \<Rightarrow> string \<Rightarrow> workflow_status \<Rightarrow> audit_result \<Rightarrow> string
     \<Rightarrow> ('w, runtime_error, workflow_state) stm" where
  "transition_workflow_for_event_as e ctx i next result eid =
     rbind (load_existing (backend_of e) i) (\<lambda>st.
     rbind (rlift (ensure_access (tenant_guard_of e) ctx (tenant (security st)))) (\<lambda>_.
     transition_workflow_for_event e i next result eid))"

definition apply_event :: "'w engine \<Rightarrow> workflow_event \<Rightarrow> ('w, runtime_error, workflow_state) stm" where
  "apply_event e ev = (let eid = event_id ev in
     case event_kind ev of
       Start start \<Rightarrow> start_workflow_for_event e eid start
     | Wait i \<Rightarrow> transition_workflow_for_event e i workflow_status.Waiting audit_result.Waiting eid
     | Resume i \<Rightarrow> transition_workflow_for_event e i workflow_status.Running audit_result.Resumed eid
     | Complete i \<Rightarrow> transition_workflow_for_event e i workflow_status.Completed audit_result.Succeeded eid
     | Fail i reason \<Rightarrow>
         transition_workflow_for_event e i workflow_status.Failed (audit_result.Failed reason) eid
     | Compensate i \<Rightarrow> transition_workflow_for_event e i workflow_status.Compensated audit_result.RolledBack eid
     | Cancel i \<Rightarrow> transition_workflow_for_event e i workflow_status.Cancelled audit_result.Cancelled eid)"

definition apply_event_as ::
    "'w engine \<Rightarrow> security_context \<Rightarrow> workflow_event \<Rightarrow> ('w, runtime_error, workflow_state) stm" where
  "apply_event_as e ctx ev = (let eid = event_id ev in
     case event_kind ev of
       Start start \<Rightarrow> start_workflow_for_event_as e ctx eid start
     | Wait i \<Rightarrow> transition_workflow_for_event_as e ctx i workflow_status.Waiting audit_result.Waiting eid
     | Resume i \<Rightarrow> transition_workflow_for_event_as e ctx i workflow_status.Running audit_result.Resumed eid
     | Complete i \<Rightarrow>
         transition_workflow_for_event_as e ctx i workflow_status.Completed audit_result.Succeeded eid
     | Fail i reason \<Rightarrow>
         transition_workflow_for_event_as e ctx i workflow_status.Failed (audit_result.Failed reason) eid
     | Compensate i \<Rightarrow>
         transition_workflow_for_event_as e ctx i workflow_status.Compensated audit_result.RolledBack eid
     | Cancel i \<Rightarrow>
         transition_workflow_for_event_as e ctx i workflow_status.Cancelled audit_result.Cancelled eid)"

text \<open>The queue is a separate argument of the source's functions; here it may live in the same
  state as the backend or beside it, so its dequeue works on the state of the engine.\<close>

definition process_next_event ::
    "'w engine \<Rightarrow> ('w, runtime_error, workflow_event option) stm \<Rightarrow> ('w, runtime_error, workflow_state option) stm" where
  "process_next_event e dequeue =
     rbind dequeue (\<lambda>next.
     case next of
       None \<Rightarrow> rreturn None
     | Some ev \<Rightarrow> rbind (apply_event e ev) (\<lambda>st. rreturn (Some st)))"

definition process_next_event_as ::
    "'w engine \<Rightarrow> security_context \<Rightarrow> ('w, runtime_error, workflow_event option) stm
     \<Rightarrow> ('w, runtime_error, workflow_state option) stm" where
  "process_next_event_as e ctx dequeue =
     rbind dequeue (\<lambda>next.
     case next of
       None \<Rightarrow> rreturn None
     | Some ev \<Rightarrow> rbind (apply_event_as e ctx ev) (\<lambda>st. rreturn (Some st)))"

end
