(* ===== verification/Engine_Spec.thy ===== *)
theory Engine_Spec
  imports Engine
begin

text \<open>
  What the workflow engine guarantees: an interface for its backend, the steps of the engine as a
  relation, and the properties of the life cycle, of the audit trail, of tenants and of repeated
  events, proved from the interface and interpreted on the file-backed store and sink.
\<close>

section \<open>Steps of the engine\<close>

text \<open>Every operation that may change the state, whatever it answers.\<close>

inductive engine_step :: "'w engine \<Rightarrow> 'w \<Rightarrow> 'w \<Rightarrow> bool" for e where
  step_start: "engine_step e w (snd (start_workflow e s w))"
| step_start_as: "engine_step e w (snd (start_workflow_as e ctx s w))"
| step_wait: "engine_step e w (snd (wait_workflow e i w))"
| step_wait_as: "engine_step e w (snd (wait_workflow_as e ctx i w))"
| step_resume: "engine_step e w (snd (resume_workflow e i w))"
| step_resume_as: "engine_step e w (snd (resume_workflow_as e ctx i w))"
| step_complete: "engine_step e w (snd (complete_workflow e i w))"
| step_complete_as: "engine_step e w (snd (complete_workflow_as e ctx i w))"
| step_fail: "engine_step e w (snd (fail_workflow e i reason w))"
| step_fail_as: "engine_step e w (snd (fail_workflow_as e ctx i reason w))"
| step_compensate: "engine_step e w (snd (compensate_workflow e i w))"
| step_compensate_as: "engine_step e w (snd (compensate_workflow_as e ctx i w))"
| step_cancel: "engine_step e w (snd (cancel_workflow e i w))"
| step_cancel_as: "engine_step e w (snd (cancel_workflow_as e ctx i w))"
| step_load: "engine_step e w (snd (engine_load e i w))"
| step_load_as: "engine_step e w (snd (engine_load_as e ctx i w))"
| step_event: "engine_step e w (snd (apply_event e ev w))"
| step_event_as: "engine_step e w (snd (apply_event_as e ctx ev w))"

inductive engine_steps :: "'w engine \<Rightarrow> 'w \<Rightarrow> 'w \<Rightarrow> bool" for e where
  refl: "engine_steps e w w"
| more: "engine_steps e w w1 \<Longrightarrow> engine_step e w1 w2 \<Longrightarrow> engine_steps e w w2"

section \<open>The life cycle\<close>

text \<open>The abstract life cycle of one workflow: it comes into being running, and then follows the
  allowed transitions, keeping its id, name, tenant and permissions and every metadata key.\<close>

inductive lifecycle :: "workflow_state option \<Rightarrow> workflow_state option \<Rightarrow> bool" where
  begins: "status st = workflow_status.Running \<Longrightarrow> lifecycle None (Some st)"
| moves: "allowed_transition (status st) (status st') \<Longrightarrow> wf_id st' = wf_id st \<Longrightarrow>
    wf_name st' = wf_name st \<Longrightarrow> tenant (security st') = tenant (security st) \<Longrightarrow>
    permissions (security st') = permissions (security st) \<Longrightarrow>
    fmdom (metadata st) |\<subseteq>| fmdom (metadata st') \<Longrightarrow> lifecycle (Some st) (Some st')"

inductive_cases lifecycle_from_Some: "lifecycle (Some st) x"

definition terminal :: "workflow_status \<Rightarrow> bool" where
  "terminal s \<longleftrightarrow> s \<in> {workflow_status.Completed, workflow_status.Compensated, workflow_status.Cancelled}"

lemma terminal_final: "terminal s \<Longrightarrow> \<not> allowed_transition s s'"
  by (auto simp: terminal_def allowed_transition_def)

lemma terminal_iff: "terminal s \<longleftrightarrow> (\<forall>s'. \<not> allowed_transition s s')"
  by (cases s) (auto simp: terminal_def allowed_transition_def)

text \<open>The status in which a change with a given audit result leaves a workflow.\<close>

fun result_status :: "audit_result \<Rightarrow> workflow_status" where
  "result_status audit_result.Started = workflow_status.Running"
| "result_status audit_result.Waiting = workflow_status.Waiting"
| "result_status audit_result.Resumed = workflow_status.Running"
| "result_status audit_result.Succeeded = workflow_status.Completed"
| "result_status (audit_result.Failed _) = workflow_status.Failed"
| "result_status audit_result.RolledBack = workflow_status.Compensated"
| "result_status audit_result.Cancelled = workflow_status.Cancelled"

text \<open>The workflow that an event is about.\<close>

definition event_target :: "workflow_event \<Rightarrow> string" where
  "event_target ev = (case event_kind ev of
     Start s \<Rightarrow> start_id s | Wait i \<Rightarrow> i | Resume i \<Rightarrow> i | Complete i \<Rightarrow> i | Fail i _ \<Rightarrow> i
   | Compensate i \<Rightarrow> i | Cancel i \<Rightarrow> i)"

lemma apply_event_cases:
  obtains (start) s where "event_kind ev = Start s" "event_target ev = start_id s"
      "apply_event e ev = start_workflow_for_event e (event_id ev) s"
  | (move) r where
      "apply_event e ev = transition_workflow_for_event e (event_target ev) (result_status r) r (event_id ev)"
  by (cases "event_kind ev") (force simp: apply_event_def event_target_def intro: that(1) that(2) [of audit_result.Waiting]
      that(2) [of audit_result.Resumed] that(2) [of audit_result.Succeeded] that(2) [of "audit_result.Failed _"]
      that(2) [of audit_result.RolledBack] that(2) [of audit_result.Cancelled])+

section \<open>The interface of a backend\<close>

locale workflow_backend =
  state_store "save_op b" "load_op b" inv table key norm
  for b :: "'w backend" and inv table key norm +
  fixes log :: "'w \<Rightarrow> json list"
  assumes table_key: "inv w \<Longrightarrow> table w k = Some st \<Longrightarrow> key (wf_id st) = k"
    and save_log: "inv w \<Longrightarrow> save_op b st w = (r, w') \<Longrightarrow> log w' = log w"
    and append_law: "inv w \<Longrightarrow> ae_confidence_values a = [] \<Longrightarrow>
      \<exists>w'. append_op b a w = (Ok (), w') \<and> inv w' \<and> table w' = table w \<and> log w' = log w @ [audit_to_json a]"
    and now_law: "inv w \<Longrightarrow> now_op b w = (t, w') \<Longrightarrow> inv w' \<and> table w' = table w \<and> log w' = log w"
    and norm_fields: "status (norm st) = status st \<and> wf_name (norm st) = wf_name st
      \<and> tenant (security (norm st)) = tenant (security st)
      \<and> permissions (security (norm st)) = permissions (security st) \<and> metadata (norm st) = metadata st"
begin

text \<open>One change of the table with its audit line, or none.\<close>

definition one_change :: "'w \<Rightarrow> 'w \<Rightarrow> bool" where
  "one_change w w' \<longleftrightarrow>
     (table w' = table w \<and> log w' = log w)
     \<or> (\<exists>st r t. table w' = (table w)(key (wf_id st) \<mapsto> norm st)
          \<and> lifecycle (table w (key (wf_id st))) (Some (norm st)) \<and> status st = result_status r
          \<and> log w' = log w @ [audit_to_json (workflow_audit_event st r t)])"

lemma one_change_refl [simp]: "one_change w w"
  by (simp add: one_change_def)

lemma load_existing_law:
  "inv w \<Longrightarrow> load_existing b i w = (ok_or (wf_not_found i) (table w (key i)), w)"
  by (cases "table w (key i)") (simp_all add: load_existing_def rbind_def load_law)

lemma now_run:
  assumes "inv w"
  obtains t w' where "now b w = (Ok t, w')" "inv w'" "table w' = table w" "log w' = log w"
  using now_law [OF assms] by (cases "now_op b w") (auto simp: now_def)

lemma commit_law:
  assumes "inv w"
  obtains w' t where
    "rbind (save_op b st) (\<lambda>_. rbind (record_audit b st r) (\<lambda>_. rreturn st)) w = (Ok st, w')"
    "inv w'" "table w' = (table w)(key (wf_id st) \<mapsto> norm st)"
    "log w' = log w @ [audit_to_json (workflow_audit_event st r t)]"
proof -
  from save_law [OF assms, of st] obtain w1 where w1: "save_op b st w = (Ok (), w1)" "inv w1"
    "table w1 = (table w)(key (wf_id st) \<mapsto> norm st)" by blast
  have l1: "log w1 = log w" by (rule save_log [OF assms w1(1)])
  obtain t w2 where w2: "now b w1 = (Ok t, w2)" "inv w2" "table w2 = table w1" "log w2 = log w1"
    by (rule now_run [OF w1(2)])
  have "ae_confidence_values (workflow_audit_event st r t) = []" by (simp add: workflow_audit_event_def)
  from append_law [OF w2(2) this] obtain w3 where w3:
    "append_op b (workflow_audit_event st r t) w2 = (Ok (), w3)" "inv w3" "table w3 = table w2"
    "log w3 = log w2 @ [audit_to_json (workflow_audit_event st r t)]" by blast
  have "rbind (save_op b st) (\<lambda>_. rbind (record_audit b st r) (\<lambda>_. rreturn st)) w = (Ok st, w3)"
    using w1(1) w2(1) w3(1) by (simp add: rbind_def record_audit_def)
  then show ?thesis using w1 w2 w3 l1 by (intro that [of w3 t]) simp_all
qed

lemma start_law:
  assumes "inv w" and "backend_of e = b"
  shows "case table w (key (start_id s)) of
      Some _ \<Rightarrow> start_workflow e s w = (Err (already_exists (start_id s)), w)
    | None \<Rightarrow> \<exists>st w' t. start_workflow e s w = (Ok st, w') \<and> inv w' \<and> wf_id st = start_id s
        \<and> status st = workflow_status.Running \<and> security st = start_security s \<and> metadata st = start_metadata s
        \<and> table w' = (table w)(key (start_id s) \<mapsto> norm st)
        \<and> log w' = log w @ [audit_to_json (workflow_audit_event st audit_result.Started t)]"
proof (cases "table w (key (start_id s))")
  case None
  obtain t w1 where w1: "now b w = (Ok t, w1)" "inv w1" "table w1 = table w" "log w1 = log w"
    by (rule now_run [OF assms(1)])
  let ?st = "\<lparr>wf_id = start_id s, wf_name = start_name s, status = workflow_status.Running,
    security = start_security s, started_at = t, updated_at = t, metadata = start_metadata s\<rparr>"
  obtain w' t' where w': "rbind (save_op b ?st) (\<lambda>_. rbind (record_audit b ?st audit_result.Started)
      (\<lambda>_. rreturn ?st)) w1 = (Ok ?st, w')" "inv w'" "table w' = (table w1)(key (wf_id ?st) \<mapsto> norm ?st)"
    "log w' = log w1 @ [audit_to_json (workflow_audit_event ?st audit_result.Started t')]"
    by (rule commit_law [OF w1(2)])
  have "start_workflow e s w = (Ok ?st, w')"
    using assms None w1(1) w'(1) load_law [OF assms(1)]
    by (simp add: start_workflow_def rbind_run(1) [of "load_op b (start_id s)" w None w]
        rbind_run(1) [of "now b" w t w1] Let_def)
  with None w' w1 show ?thesis by auto
qed (use assms load_law in \<open>simp add: start_workflow_def rbind_def\<close>)

lemma start_change:
  assumes "inv w" and "backend_of e = b"
  shows "inv (snd (start_workflow e s w))" and "one_change w (snd (start_workflow e s w))"
proof -
  have "inv (snd (start_workflow e s w)) \<and> one_change w (snd (start_workflow e s w))"
  proof (cases "table w (key (start_id s))")
    case None
    with start_law [OF assms, of s] obtain st w' t where *: "start_workflow e s w = (Ok st, w')" "inv w'"
      "wf_id st = start_id s" "status st = workflow_status.Running"
      "table w' = (table w)(key (start_id s) \<mapsto> norm st)"
      "log w' = log w @ [audit_to_json (workflow_audit_event st audit_result.Started t)]" by auto
    have "lifecycle (table w (key (wf_id st))) (Some (norm st))"
      using None * norm_fields by (auto intro: lifecycle.begins)
    moreover have "status st = result_status audit_result.Started" using * by simp
    ultimately show ?thesis using * unfolding one_change_def by (metis snd_conv)
  next
    case (Some st)
    with start_law [OF assms, of s] assms show ?thesis by simp
  qed
  then show "inv (snd (start_workflow e s w))" "one_change w (snd (start_workflow e s w))" by blast+
qed

lemma advance_law:
  assumes "inv w" and "table w (key i) = Some st" and "allowed_transition (status st) next"
    and f: "\<And>t. wf_id (f t) = wf_id st" "\<And>t. status (f t) = next" "\<And>t. wf_name (f t) = wf_name st"
      "\<And>t. security (f t) = security st" "\<And>t. fmdom (metadata st) |\<subseteq>| fmdom (metadata (f t))"
  obtains t t' w' where
    "rbind (now b) (\<lambda>t. rbind (save_op b (f t)) (\<lambda>_. rbind (record_audit b (f t) r) (\<lambda>_. rreturn (f t)))) w
      = (Ok (f t), w')" "inv w'" "table w' = (table w)(key i \<mapsto> norm (f t))"
    "log w' = log w @ [audit_to_json (workflow_audit_event (f t) r t')]"
    "lifecycle (table w (key i)) (Some (norm (f t)))"
proof -
  obtain t w1 where w1: "now b w = (Ok t, w1)" "inv w1" "table w1 = table w" "log w1 = log w"
    by (rule now_run [OF assms(1)])
  obtain w' t' where w': "rbind (save_op b (f t)) (\<lambda>_. rbind (record_audit b (f t) r) (\<lambda>_. rreturn (f t))) w1
      = (Ok (f t), w')" "inv w'" "table w' = (table w1)(key (wf_id (f t)) \<mapsto> norm (f t))"
    "log w' = log w1 @ [audit_to_json (workflow_audit_event (f t) r t')]"
    by (rule commit_law [OF w1(2)])
  have k: "key (wf_id st) = key i" by (rule table_key [OF assms(1,2)])
  show ?thesis
  proof (rule that)
    show "lifecycle (table w (key i)) (Some (norm (f t)))"
      by (simp add: assms(2,3) f norm_fields norm_id lifecycle.moves)
  qed (use w1 w' f(1) k in \<open>simp_all add: rbind_run(1) [of "now b" w t w1]\<close>)
qed

lemma update_fields [simp]:
  "wf_id (update_workflow_dashboard_metadata st r) = wf_id st"
  "status (update_workflow_dashboard_metadata st r) = status st"
  "wf_name (update_workflow_dashboard_metadata st r) = wf_name st"
  "security (update_workflow_dashboard_metadata st r) = security st"
  "fmdom (metadata st) |\<subseteq>| fmdom (metadata (update_workflow_dashboard_metadata st r))"
  by (cases r; simp add: update_workflow_dashboard_metadata_def Let_def; blast)+

text \<open>What the two transitions do: refuse and change nothing, or advance the workflow.\<close>

lemma transition_law:
  assumes "inv w" and "backend_of e = b"
  shows "case table w (key i) of
      None \<Rightarrow> transition_workflow e i next r w = (Err (wf_not_found i), w)
    | Some st \<Rightarrow>
        if allowed_transition (status st) next
        then \<exists>st' t w'. transition_workflow e i next r w = (Ok st', w') \<and> inv w' \<and> status st' = next
          \<and> table w' = (table w)(key i \<mapsto> norm st') \<and> lifecycle (table w (key i)) (Some (norm st'))
          \<and> wf_id st' = wf_id st \<and> log w' = log w @ [audit_to_json (workflow_audit_event st' r t)]
        else \<exists>x. transition_workflow e i next r w = (Err x, w)"
proof (cases "table w (key i)")
  case None
  then show ?thesis
    using assms load_existing_law [OF assms(1)] by (simp add: transition_workflow_def rbind_def)
next
  case (Some st)
  let ?f = "\<lambda>t. update_workflow_dashboard_metadata (st\<lparr>status := next, updated_at := t\<rparr>) r"
  have l: "load_existing b i w = (Ok st, w)" using load_existing_law [OF assms(1)] Some by simp
  have run: "transition_workflow e i next r w =
      rbind (rlift (validate_transition (status st) next)) (\<lambda>_. rbind (now b) (\<lambda>t.
        rbind (save_op b (?f t)) (\<lambda>_. rbind (record_audit b (?f t) r) (\<lambda>_. rreturn (?f t))))) w"
    using assms(2) by (simp add: transition_workflow_def Let_def rbind_run(1) [of "load_existing b i", OF l])
  show ?thesis
  proof (cases "allowed_transition (status st) next")
    case True
    have dom: "fmdom (metadata st) |\<subseteq>| fmdom (metadata (?f t))" for t
      using update_fields(5) [of "st\<lparr>status := next, updated_at := t\<rparr>" r] by simp
    obtain t t' w' where "rbind (now b) (\<lambda>t. rbind (save_op b (?f t)) (\<lambda>_.
        rbind (record_audit b (?f t) r) (\<lambda>_. rreturn (?f t)))) w = (Ok (?f t), w')" "inv w'"
      "table w' = (table w)(key i \<mapsto> norm (?f t))"
      "log w' = log w @ [audit_to_json (workflow_audit_event (?f t) r t')]"
      "lifecycle (table w (key i)) (Some (norm (?f t)))"
      by (rule advance_law [OF assms(1) Some True, of ?f r]) (use dom in simp_all)
    moreover from this(1) True have "transition_workflow e i next r w = (Ok (?f t), w')"
      unfolding run by (simp add: validate_transition_def rbind_def [of "rlift _"])
    moreover have "status (?f t) = next" "wf_id (?f t) = wf_id st" by simp_all
    ultimately show ?thesis using Some True by auto
  next
    case False
    then show ?thesis using Some unfolding run by (simp add: validate_transition_def rbind_def)
  qed
qed

lemma transition_for_event_law:
  assumes "inv w" and "backend_of e = b"
  shows "case table w (key i) of
      None \<Rightarrow> transition_workflow_for_event e i next r eid w = (Err (wf_not_found i), w)
    | Some st \<Rightarrow>
        if event_already_processed st eid then transition_workflow_for_event e i next r eid w = (Ok st, w)
        else if allowed_transition (status st) next
        then \<exists>st' t w'. transition_workflow_for_event e i next r eid w = (Ok st', w') \<and> inv w'
          \<and> status st' = next \<and> event_already_processed (norm st') eid \<and> wf_id st' = wf_id st
          \<and> table w' = (table w)(key i \<mapsto> norm st') \<and> lifecycle (table w (key i)) (Some (norm st'))
          \<and> log w' = log w @ [audit_to_json (workflow_audit_event st' r t)]
        else \<exists>x. transition_workflow_for_event e i next r eid w = (Err x, w)"
proof (cases "table w (key i)")
  case None
  then show ?thesis
    using assms load_existing_law [OF assms(1)] by (simp add: transition_workflow_for_event_def rbind_def)
next
  case (Some st)
  let ?s = "\<lambda>t. st\<lparr>status := next, updated_at := t, metadata := mark_event_processed (metadata st) eid\<rparr>"
  let ?f = "\<lambda>t. update_workflow_dashboard_metadata (?s t) r"
  have l: "load_existing b i w = (Ok st, w)" using load_existing_law [OF assms(1)] Some by simp
  have run: "transition_workflow_for_event e i next r eid w =
      (if event_already_processed st eid then (Ok st, w)
       else rbind (rlift (validate_transition (status st) next)) (\<lambda>_. rbind (now b) (\<lambda>t.
        rbind (save_op b (?f t)) (\<lambda>_. rbind (record_audit b (?f t) r) (\<lambda>_. rreturn (?f t))))) w)"
    using assms(2) by (simp add: transition_workflow_for_event_def Let_def rbind_run(1) [of "load_existing b i", OF l])
  show ?thesis
  proof (cases "event_already_processed st eid \<or> \<not> allowed_transition (status st) next")
    case False
    then have np: "\<not> event_already_processed st eid" and al: "allowed_transition (status st) next" by auto
    have sub: "fmdom (metadata (?s t)) |\<subseteq>| fmdom (metadata (?f t))" for t
      using update_fields(5) [of "?s t" r] by simp
    then have dom: "fmdom (metadata st) |\<subseteq>| fmdom (metadata (?f t))" for t
      by (rule order_trans [rotated]) (auto simp: mark_event_processed_def)
    have "processed_event_key eid |\<in>| fmdom (metadata (?f t))" for t
      using sub [of t] by (auto simp: mark_event_processed_def)
    then have proc: "event_already_processed (norm (?f t)) eid" for t
      using norm_fields by (auto simp: event_already_processed_def fmlookup_dom_iff)
    obtain t t' w' where w': "rbind (now b) (\<lambda>t. rbind (save_op b (?f t)) (\<lambda>_.
        rbind (record_audit b (?f t) r) (\<lambda>_. rreturn (?f t)))) w = (Ok (?f t), w')" "inv w'"
      "table w' = (table w)(key i \<mapsto> norm (?f t))"
      "log w' = log w @ [audit_to_json (workflow_audit_event (?f t) r t')]"
      "lifecycle (table w (key i)) (Some (norm (?f t)))"
      by (rule advance_law [OF assms(1) Some al, of ?f r]) (use dom in simp_all)
    moreover from w'(1) np al have "transition_workflow_for_event e i next r eid w = (Ok (?f t), w')"
      unfolding run by (simp add: validate_transition_def rbind_def [of "rlift _"])
    moreover have "status (?f t) = next" "wf_id (?f t) = wf_id st" by simp_all
    ultimately show ?thesis using Some np al proc [of t] by auto
  qed (use Some run in \<open>auto simp: validate_transition_def rbind_def\<close>)
qed

text \<open>Every operation keeps the invariant and makes one change or none.\<close>

definition steps_well :: "('w, runtime_error, 'a) stm \<Rightarrow> bool" where
  "steps_well m \<longleftrightarrow> (\<forall>w. inv w \<longrightarrow> inv (snd (m w)) \<and> one_change w (snd (m w)))"

lemma steps_wellI:
  "(\<And>w. inv w \<Longrightarrow> inv (snd (m w)) \<and> one_change w (snd (m w))) \<Longrightarrow> steps_well m"
  by (simp add: steps_well_def)

lemma steps_well_guard: "steps_well m \<Longrightarrow> steps_well (rbind (rlift r) (\<lambda>_. m))"
  by (cases r) (simp_all add: steps_well_def rbind_def)

lemma steps_well_existing: "(\<And>st. steps_well (m st)) \<Longrightarrow> steps_well (rbind (load_existing b i) m)"
  by (auto simp: steps_well_def rbind_def load_existing_law split: prod.splits sum.splits)

lemma start_well: "backend_of e = b \<Longrightarrow> steps_well (start_workflow e s)"
  by (intro steps_wellI conjI start_change)

lemma one_change_commit:
  "log w' = log w @ [audit_to_json (workflow_audit_event st r t)] \<Longrightarrow>
   table w' = (table w)(k \<mapsto> norm st) \<Longrightarrow> table w k = x \<Longrightarrow> lifecycle x (Some (norm st)) \<Longrightarrow>
   key (wf_id st) = k \<Longrightarrow> status st = result_status r \<Longrightarrow> one_change w w'"
  unfolding one_change_def by metis

lemma transition_well:
  assumes "backend_of e = b" and "next = result_status r"
  shows "steps_well (transition_workflow e i next r)"
proof (rule steps_wellI)
  fix w assume inv: "inv w"
  show "inv (snd (transition_workflow e i next r w)) \<and> one_change w (snd (transition_workflow e i next r w))"
    using transition_law [OF inv assms(1), of i "next" r] table_key [OF inv, of "key i"] inv assms(2)
    by (auto split: option.splits if_splits) (erule (3) one_change_commit, simp, simp)
qed

lemma transition_for_event_well:
  assumes "backend_of e = b" and "next = result_status r"
  shows "steps_well (transition_workflow_for_event e i next r eid)"
proof (rule steps_wellI)
  fix w assume inv: "inv w"
  show "inv (snd (transition_workflow_for_event e i next r eid w))
      \<and> one_change w (snd (transition_workflow_for_event e i next r eid w))"
    using transition_for_event_law [OF inv assms(1), of i "next" r eid] table_key [OF inv, of "key i"] inv assms(2)
    by (auto split: option.splits if_splits) (erule (3) one_change_commit, simp, simp)
qed

lemma steps_well_load: "(\<And>found. steps_well (m found)) \<Longrightarrow> steps_well (rbind (load_op b i) m)"
  by (simp add: steps_well_def rbind_def load_law)

lemma start_for_event_well:
  assumes "backend_of e = b"
  shows "steps_well (start_workflow_for_event e eid s)"
  unfolding start_workflow_for_event_def assms
proof (rule steps_well_load)
  fix found
  show "steps_well (case found of
      None \<Rightarrow> start_workflow e (s\<lparr>start_metadata := mark_event_processed (start_metadata s) eid\<rparr>)
    | Some st \<Rightarrow> if event_already_processed st eid then rreturn st else rthrow (already_exists (start_id s)))"
    using start_well [OF assms] by (cases found) (auto simp: steps_well_def)
qed

lemma event_well:
  assumes "backend_of e = b"
  shows "steps_well (apply_event e ev)" and "steps_well (apply_event_as e ctx ev)"
proof -
  have t: "steps_well (transition_workflow_for_event_as e ctx i next r eid)"
    if "next = result_status r" for i "next" r eid
    unfolding transition_workflow_for_event_as_def assms
    by (intro steps_well_existing steps_well_guard transition_for_event_well assms that)
  have s: "steps_well (start_workflow_for_event_as e ctx eid s)" for eid s
    unfolding start_workflow_for_event_as_def by (intro steps_well_guard start_for_event_well assms)
  show "steps_well (apply_event e ev)" "steps_well (apply_event_as e ctx ev)"
    by (cases "event_kind ev"; simp add: apply_event_def apply_event_as_def Let_def t s
        start_for_event_well [OF assms] transition_for_event_well [OF assms])+
qed

lemma transition_as_well:
  assumes "backend_of e = b" and "next = result_status r"
  shows "steps_well (transition_workflow_as e ctx i next r)"
  unfolding transition_workflow_as_def assms(1)
  by (intro steps_well_existing steps_well_guard transition_well assms)

lemma load_well:
  assumes "backend_of e = b"
  shows "steps_well (engine_load e i)" and "steps_well (engine_load_as e ctx i)"
proof -
  show "steps_well (engine_load e i)"
    by (simp add: engine_load_def assms steps_well_def load_law)
  have "steps_well (case found of None \<Rightarrow> rreturn None
      | Some st \<Rightarrow> rbind (rlift (r st)) (\<lambda>_. rreturn (Some st)))" for found :: "workflow_state option" and r
    by (cases found) (auto simp: steps_well_def rbind_def split: sum.split)
  then show "steps_well (engine_load_as e ctx i)"
    unfolding engine_load_as_def assms by (intro steps_well_load)
qed

lemma ops_well:
  assumes "backend_of e = b"
  shows "steps_well (start_workflow_as e ctx s)"
    and "steps_well (wait_workflow e i)" "steps_well (wait_workflow_as e ctx i)"
    and "steps_well (resume_workflow e i)" "steps_well (resume_workflow_as e ctx i)"
    and "steps_well (complete_workflow e i)" "steps_well (complete_workflow_as e ctx i)"
    and "steps_well (fail_workflow e i reason)" "steps_well (fail_workflow_as e ctx i reason)"
    and "steps_well (compensate_workflow e i)" "steps_well (compensate_workflow_as e ctx i)"
    and "steps_well (cancel_workflow e i)" "steps_well (cancel_workflow_as e ctx i)"
  unfolding start_workflow_as_def wait_workflow_def wait_workflow_as_def resume_workflow_def
    resume_workflow_as_def complete_workflow_def complete_workflow_as_def fail_workflow_def
    fail_workflow_as_def compensate_workflow_def compensate_workflow_as_def cancel_workflow_def
    cancel_workflow_as_def
  by (intro steps_well_guard start_well transition_well transition_as_well assms; simp)+

lemma engine_step_change:
  assumes "engine_step e w w'" and "backend_of e = b" and "inv w"
  shows "inv w' \<and> one_change w w'"
proof -
  have D: "steps_well m \<Longrightarrow> w' = snd (m w) \<Longrightarrow> inv w' \<and> one_change w w'"
    for m :: "('w, runtime_error, 'c) stm"
    using assms(3) by (simp add: steps_well_def)
  note well = start_well [OF assms(2)] ops_well [OF assms(2)] load_well [OF assms(2)] event_well [OF assms(2)]
  show ?thesis
    using assms(1) by cases (erule well [THEN D])+
qed

lemma event_processed_dom: "event_already_processed st eid \<longleftrightarrow> processed_event_key eid |\<in>| fmdom (metadata st)"
  by (auto simp: event_already_processed_def fmlookup_dom_iff)

lemma lifecycle_event_processed:
  "lifecycle (Some st) (Some st') \<Longrightarrow> event_already_processed st eid \<Longrightarrow> event_already_processed st' eid"
  by (auto simp: event_processed_dom elim!: lifecycle_from_Some)

lemma one_change_table:
  assumes "one_change w w'" and "table w k = Some st"
  obtains "table w' k = Some st" | st' where "table w' k = Some st'" "lifecycle (Some st) (Some st')"
  using assms unfolding one_change_def by (auto simp: fun_upd_apply split: if_splits) metis

lemma engine_steps_law:
  assumes "engine_steps e w w'" and "backend_of e = b" and "inv w"
  shows "inv w'"
    and "table w k = Some st \<Longrightarrow> terminal (status st) \<Longrightarrow> table w' k = Some st"
    and "table w k = Some st \<Longrightarrow> event_already_processed st eid \<Longrightarrow>
      \<exists>st'. table w' k = Some st' \<and> event_already_processed st' eid"
proof -
  have "inv w' \<and> (table w k = Some st \<longrightarrow> terminal (status st) \<longrightarrow> table w' k = Some st)
    \<and> (table w k = Some st \<longrightarrow> event_already_processed st eid \<longrightarrow>
        (\<exists>st'. table w' k = Some st' \<and> event_already_processed st' eid))"
    using assms(1,3)
  proof induction
    case (more w w1 w2)
    from engine_step_change [OF more.hyps(2) assms(2)] more.IH [OF more.prems]
    have c: "inv w2" "one_change w1 w2" by auto
    show ?case
    proof (intro conjI impI)
      assume "table w k = Some st" "terminal (status st)"
      with more.IH [OF more.prems] have "table w1 k = Some st" by blast
      with c(2) \<open>terminal (status st)\<close> show "table w2 k = Some st"
        by (elim one_change_table) (auto elim!: lifecycle_from_Some dest: terminal_final)
    next
      assume "table w k = Some st" "event_already_processed st eid"
      with more.IH [OF more.prems] obtain st1 where "table w1 k = Some st1" "event_already_processed st1 eid" by blast
      with c(2) show "\<exists>st'. table w2 k = Some st' \<and> event_already_processed st' eid"
        by (elim one_change_table) (auto dest: lifecycle_event_processed)
    qed (rule c)
  qed simp
  then show "inv w'" and "table w k = Some st \<Longrightarrow> terminal (status st) \<Longrightarrow> table w' k = Some st"
    and "table w k = Some st \<Longrightarrow> event_already_processed st eid \<Longrightarrow>
      \<exists>st'. table w' k = Some st' \<and> event_already_processed st' eid" by blast+
qed

text \<open>A processed event leaves its mark on its workflow, and a marked workflow answers the event
  without a change.\<close>

lemma apply_event_marks:
  assumes "inv w" and "backend_of e = b" and "apply_event e ev w = (Ok s, w')"
  shows "\<exists>st. table w' (key (event_target ev)) = Some st \<and> event_already_processed st (event_id ev)"
  using apply_event_cases [of ev e]
proof cases
  case (start s0)
  let ?s = "s0\<lparr>start_metadata := mark_event_processed (start_metadata s0) (event_id ev)\<rparr>"
  show ?thesis
  proof (cases "table w (key (start_id s0))")
    case None
    with start assms(1,2) have "apply_event e ev w = start_workflow e ?s w"
      by (simp add: start_workflow_for_event_def rbind_def load_law)
    with start_law [OF assms(1,2), of ?s] None obtain st t where
      "table w' = (table w)(key (start_id s0) \<mapsto> norm st)" "metadata st = start_metadata ?s"
      using assms(3) by auto
    with start(2) norm_fields show ?thesis
      by (simp add: event_already_processed_def mark_event_processed_def)
  next
    case (Some st)
    with start assms show ?thesis
      by (auto simp: start_workflow_for_event_def rbind_def load_law split: if_splits)
  qed
next
  case (move r)
  with transition_for_event_law [OF assms(1,2), of "event_target ev" "result_status r" r "event_id ev"] assms(3)
  show ?thesis by (auto split: option.splits if_splits)
qed

lemma apply_event_marked:
  assumes "inv w" and "backend_of e = b"
    and "table w (key (event_target ev)) = Some st" and "event_already_processed st (event_id ev)"
  shows "apply_event e ev w = (Ok st, w)"
  using apply_event_cases [of ev e]
proof cases
  case (start s0)
  with assms show ?thesis by (simp add: start_workflow_for_event_def rbind_def load_law)
next
  case (move r)
  with transition_for_event_law [OF assms(1,2), of "event_target ev" "result_status r" r "event_id ev"] assms(3,4)
  show ?thesis by simp
qed

lemma apply_event_again:
  assumes "inv w" and "backend_of e = b" and "apply_event e ev w = (Ok s, w1)" and "engine_steps e w1 w2"
  shows "\<exists>s'. inv w2 \<and> table w2 (key (event_target ev)) = Some s' \<and> apply_event e ev w2 = (Ok s', w2)"
proof -
  have "inv w1" using event_well(1) [OF assms(2)] assms(1,3) by (metis snd_conv steps_well_def)
  moreover from apply_event_marks [OF assms(1-3)] obtain st where
    "table w1 (key (event_target ev)) = Some st" "event_already_processed st (event_id ev)" by blast
  ultimately obtain st' where "inv w2" "table w2 (key (event_target ev)) = Some st'"
    "event_already_processed st' (event_id ev)"
    using engine_steps_law(1,3) [OF assms(4,2)] by metis
  then show ?thesis using apply_event_marked [OF _ assms(2)] by blast
qed

end

section \<open>The file-backed engine\<close>

definition file_backend :: "'b codec \<Rightarrow> file_state_store \<Rightarrow> file_audit_sink \<Rightarrow> 'b world backend" where
  "file_backend c st sink =
     \<lparr>save_op = save_workflow c st, load_op = load_workflow c st, append_op = append_audit c sink,
      now_op = (\<lambda>w. (clock w (ticks w), w\<lparr>ticks := Suc (ticks w)\<rparr>))\<rparr>"

text \<open>The audit file lies outside the state directory, and nothing is in its way.\<close>

definition sink_inv :: "file_state_store \<Rightarrow> file_audit_sink \<Rightarrow> 'b world \<Rightarrow> bool" where
  "sink_inv st sink w \<longleftrightarrow> sink_path sink \<noteq> [] \<and> \<not> is_dir w (sink_path sink)
     \<and> (\<forall>q \<in> set (prefixes_of (butlast (sink_path sink))). file_content w q = None)
     \<and> \<not> prefix (workflow_dir st) (sink_path sink) \<and> \<not> prefix (sink_path sink) (workflow_dir st)"

definition engine_inv :: "'b codec \<Rightarrow> file_state_store \<Rightarrow> file_audit_sink \<Rightarrow> 'b world \<Rightarrow> bool" where
  "engine_inv c st sink w \<longleftrightarrow> store_inv c st w \<and> sink_inv st sink w
     \<and> (\<forall>k s. store_table c st w k = Some s \<longrightarrow> safe_file_id (wf_id s) = k)"

definition audit_log :: "'b codec \<Rightarrow> file_audit_sink \<Rightarrow> 'b world \<Rightarrow> json list" where
  "audit_log c sink w =
     map (\<lambda>bytes. case from_slice c [bytes] of Err _ \<Rightarrow> JNull | Ok v \<Rightarrow> v) (content_or_empty w (sink_path sink))"
lemma engine_inv_ticks [simp]:
  "engine_inv c st sink (w\<lparr>ticks := n\<rparr>) = engine_inv c st sink w"
  "store_table c st (w\<lparr>ticks := n\<rparr>) = store_table c st w"
  "audit_log c sink (w\<lparr>ticks := n\<rparr>) = audit_log c sink w"
  by (auto simp: engine_inv_def store_inv_def sink_inv_def dir_ready_def store_table_def audit_log_def
      content_or_empty_def fun_eq_iff)

lemma prefix_not_child:
  assumes "\<not> prefix d p" and "q \<in> set (prefixes_of p)"
  shows "q \<noteq> d" and "q \<noteq> d @ [n]"
  using assms prefixes_of_prefix [OF assms(2)] prefix_order.trans [of d "d @ [n]" p] by auto

lemma engine_inv_save:
  assumes "engine_inv c st sink w"
  obtains w' where "save_workflow c st s w = (Ok (), w')" "engine_inv c st sink w'"
    "store_table c st w' = (store_table c st w)(safe_file_id (wf_id s) \<mapsto> norm_workflow s)"
    "audit_log c sink w' = audit_log c sink w"
proof -
  let ?p = "sink_path sink" and ?d = "workflow_dir st"
  have inv: "store_inv c st w" "sink_inv st sink w"
    "\<And>k s. store_table c st w k = Some s \<Longrightarrow> safe_file_id (wf_id s) = k"
    using assms by (auto simp: engine_inv_def)
  obtain w' where w': "save_workflow c st s w = (Ok (), w')" "store_inv c st w'"
    "store_table c st w' = (store_table c st w)(safe_file_id (wf_id s) \<mapsto> norm_workflow s)"
    "\<And>q. butlast q \<noteq> ?d \<Longrightarrow> file_content w' q = file_content w q"
    "\<And>q. is_dir w' q \<longleftrightarrow> is_dir w q \<or> q \<in> set (prefixes_of ?d)"
    by (rule save_workflow_law [OF inv(1)]) blast
  have np: "\<not> prefix ?d ?p" "\<not> prefix ?p ?d" "?p \<noteq> []" using inv(2) by (simp_all add: sink_inv_def)
  have out: "butlast q \<noteq> ?d" if "prefix q ?p" "q \<noteq> []" for q
    using that np(1) by (metis append_butlast_last_id prefixI prefix_order.trans)
  have sink: "file_content w' ?p = file_content w ?p" using w'(4) out np(3) by simp
  have above: "file_content w' q = file_content w q" if "q \<in> set (prefixes_of (butlast ?p))" for q
    using prefixes_of_prefix [OF that] w'(4) out prefixeq_butlast prefix_order.trans by metis
  show ?thesis
  proof (rule that [OF w'(1) _ w'(3)])
    have "\<not> is_dir w' ?p" using inv(2) w'(5) np(2) prefixes_of_prefix by (auto simp: sink_inv_def)
    then have "sink_inv st sink w'" using inv(2) above by (simp add: sink_inv_def)
    then show "engine_inv c st sink w'"
      using w'(2,3) inv(3) by (simp add: engine_inv_def norm_workflow_def)
    show "audit_log c sink w' = audit_log c sink w" using sink by (simp add: audit_log_def content_or_empty_def)
  qed
qed

lemma engine_inv_append:
  assumes "engine_inv c st sink w" and "ae_confidence_values a = []"
  obtains w' where "append_audit c sink a w = (Ok (), w')" "engine_inv c st sink w'"
    "store_table c st w' = store_table c st w" "audit_log c sink w' = audit_log c sink w @ [audit_to_json a]"
proof -
  let ?p = "sink_path sink" and ?d = "workflow_dir st"
  have inv: "store_inv c st w" "sink_inv st sink w"
    "\<And>k s. store_table c st w k = Some s \<Longrightarrow> safe_file_id (wf_id s) = k"
    using assms(1) by (auto simp: engine_inv_def)
  have np: "\<not> prefix ?d ?p" "\<not> prefix ?p ?d" "?p \<noteq> []" "\<not> is_dir w ?p"
    "\<forall>q \<in> set (prefixes_of (butlast ?p)). file_content w q = None"
    using inv(2) by (simp_all add: sink_inv_def)
  have ck: "codec_ok c" and nf: "faults w = []" using inv(1) by (simp_all add: store_inv_def)
  obtain w1 where w1: "create_dir_all (butlast ?p) w = (Ok (), w1)" "files w1 = files w" "faults w1 = []"
    "ticks w1 = ticks w" "clock w1 = clock w"
    "\<And>q. is_dir w1 q \<longleftrightarrow> is_dir w q \<or> q \<in> set (prefixes_of (butlast ?p))"
    by (rule create_dir_all_ok [OF nf np(5)]) blast
  obtain line where line: "to_vec c (audit_to_json a) = Ok line" "from_slice c [line] = Ok (audit_to_json a)"
    using codec_okD [OF ck audit_plain [OF assms(2)]] by blast
  let ?w' = "w1\<lparr>files := put_file ?p (content_or_empty w ?p @ [line]) (put_file ?p (content_or_empty w ?p) (files w1))\<rparr>"
  have fc: "file_content w1 = file_content w" using w1(2) by (auto simp: file_content_def)
  have sp: "?p \<notin> set (prefixes_of (butlast ?p))" using prefixes_of_shorter by blast
  have pd: "is_dir w1 (butlast ?p)"
  proof (cases "butlast ?p = []")
    case True
    then show ?thesis by (simp add: is_dir_def)
  next
    case False
    then show ?thesis using w1(6) by simp
  qed
  have nd: "\<not> is_dir w1 ?p" using w1(6) np(4) sp by blast
  have run: "append_audit c sink a w = (Ok (), ?w')"
    using w1(1,3) pd nd line(1) np(3) fc
    by (simp add: append_audit_def rbind_def storage_io_def storage_result_def fs_open_append_def
        fs_append_def content_or_empty_def)
  have fc': "file_content ?w' q = (if q = ?p then Some (content_or_empty w ?p @ [line]) else file_content w q)" for q
    using w1(2) by (simp add: file_content_def)
  have dir': "is_dir ?w' q \<longleftrightarrow> is_dir w q \<or> q \<in> set (prefixes_of (butlast ?p))" for q
    using w1(6) by simp
  have npb: "\<not> prefix ?d (butlast ?p)" using np(1) prefixeq_butlast prefix_order.trans by metis
  have child: "?d @ [n] \<noteq> ?p" for n using np(1) by (metis prefixI)
  have table: "store_table c st ?w' = store_table c st w"
    using child by (simp add: store_table_def fc' fun_eq_iff)
  show ?thesis
  proof (rule that [OF run])
    have "dir_ready ?d ?w'"
      using inv(1) fc' dir' prefix_not_child(2) [OF npb] np(2) prefixes_of_prefix
      by (auto simp: dir_ready_def store_inv_def)
    moreover have "faults ?w' = []" using w1(3) by simp
    ultimately have "store_inv c st ?w'" using inv(1) fc' child by (auto simp: store_inv_def)
    moreover have "sink_inv st sink ?w'"
      using inv(2) fc' dir' sp by (auto simp: sink_inv_def)
    ultimately show "engine_inv c st sink ?w'" using inv(3) table by (simp add: engine_inv_def)
    show "audit_log c sink ?w' = audit_log c sink w @ [audit_to_json a]"
      using line(2) fc' by (simp add: audit_log_def content_or_empty_def)
  qed (rule table)
qed

interpretation file_engine: workflow_backend "file_backend c st sink" "engine_inv c st sink"
    "store_table c st" safe_file_id norm_workflow "audit_log c sink"
  for c :: "'b codec" and st and sink
proof
  fix i w assume "engine_inv c st sink w"
  then show "load_op (file_backend c st sink) i w = (Ok (store_table c st w (safe_file_id i)), w)"
    by (simp add: file_backend_def load_workflow_law engine_inv_def)
next
  fix s w assume "engine_inv c st sink w"
  then show "\<exists>w'. save_op (file_backend c st sink) s w = (Ok (), w') \<and> engine_inv c st sink w'
      \<and> store_table c st w' = (store_table c st w)(safe_file_id (wf_id s) \<mapsto> norm_workflow s)"
    by (rule engine_inv_save [of c st sink w s]) (auto simp: file_backend_def)
next
  fix s w r w' assume "engine_inv c st sink w" "save_op (file_backend c st sink) s w = (r, w')"
  then show "audit_log c sink w' = audit_log c sink w"
    using engine_inv_save [of c st sink w s] by (auto simp: file_backend_def)
next
  fix a :: audit_event and w assume "engine_inv c st sink w" "ae_confidence_values a = []"
  then show "\<exists>w'. append_op (file_backend c st sink) a w = (Ok (), w') \<and> engine_inv c st sink w'
      \<and> store_table c st w' = store_table c st w \<and> audit_log c sink w' = audit_log c sink w @ [audit_to_json a]"
    by (rule engine_inv_append) (auto simp: file_backend_def)
next
  fix w t w' assume "engine_inv c st sink w" "now_op (file_backend c st sink) w = (t, w')"
  then show "engine_inv c st sink w' \<and> store_table c st w' = store_table c st w
      \<and> audit_log c sink w' = audit_log c sink w"
    by (auto simp: file_backend_def)
qed (auto simp: engine_inv_def norm_workflow_def norm_security_def)
section \<open>What the file-backed engine guarantees\<close>

text \<open>C1: over the file-backed store and audit sink, in a file system in which no access fails (part of
  \<open>engine_inv\<close>, which every operation keeps: the stored workflows are readable, nothing is in the way of
  the files, and no failure is to come), an operation of the engine changes at most one workflow,
  follows the life cycle there, and appends exactly one line to the audit log, which names the state it
  saved and a result that stands for its status; otherwise it changes neither the table of workflows nor
  the log. (When the sink fails after the state was saved, the line is missing: see the last section of
  the theory.)\<close>

theorem engine_step_refines_lifecycle:
  assumes "engine_inv c st sink w" and "backend_of e = file_backend c st sink" and "engine_step e w w'"
  shows "engine_inv c st sink w' \<and>
    ((store_table c st w' = store_table c st w \<and> audit_log c sink w' = audit_log c sink w)
     \<or> (\<exists>s r t. store_table c st w' = (store_table c st w)(safe_file_id (wf_id s) \<mapsto> norm_workflow s)
          \<and> lifecycle (store_table c st w (safe_file_id (wf_id s))) (Some (norm_workflow s))
          \<and> status s = result_status r
          \<and> audit_log c sink w' = audit_log c sink w @ [audit_to_json (workflow_audit_event s r t)]))"
  using file_engine.engine_step_change [OF assms(3,2,1)] by (simp add: file_engine.one_change_def)

abbreviation "sample_sink \<equiv> \<lparr>sink_path = [''audit.jsonl'']\<rparr>"
abbreviation "sample_engine \<equiv> new_engine (file_backend id_codec sample_store sample_sink)"

lemma sample_engine_inv: "engine_inv id_codec sample_store sample_sink sample_world"
proof -
  have "store_table id_codec sample_store sample_world k = None" for k
    by (simp add: store_table_def sample_world_def file_content_def)
  then show ?thesis
    using sample_store_inv
    by (simp add: engine_inv_def sink_inv_def sample_world_def is_dir_def workflow_dir_def prefixes_of_def)
qed

definition sample_start :: workflow_start where
  "sample_start = \<lparr>start_id = ''w1'', start_name = ''pay'', start_security = sample_security,
     start_metadata = fmempty\<rparr>"

lemma sample_engine_backend [simp]: "backend_of sample_engine = file_backend id_codec sample_store sample_sink"
  by (simp add: new_engine_def)

theorem engine_step_refines_lifecycle_witness:
  "engine_inv id_codec sample_store sample_sink (snd (start_workflow sample_engine sample_start sample_world))"
  using engine_step_refines_lifecycle [OF sample_engine_inv sample_engine_backend engine_step.step_start]
  by blast

text \<open>C3: a workflow that is completed, compensated or cancelled stays as it is, whatever operations
  and events, of whatever caller, follow.\<close>

theorem terminal_workflow_final:
  assumes "engine_inv c st sink w" and "backend_of e = file_backend c st sink" and "engine_steps e w w'"
    and "fst (load_workflow c st i w) = Ok (Some s)" and "terminal (status s)"
  shows "fst (load_workflow c st i w') = Ok (Some s)"
proof -
  have "engine_inv c st sink w'" by (rule file_engine.engine_steps_law(1) [OF assms(3,2,1)])
  moreover have "store_table c st w (safe_file_id i) = Some s"
    using assms(1,4) by (simp add: load_workflow_law engine_inv_def)
  ultimately show ?thesis
    using file_engine.engine_steps_law(2) [OF assms(3,2,1) _ assms(5), of "safe_file_id i"]
    by (simp add: load_workflow_law engine_inv_def)
qed

text \<open>C2: an event that was applied is applied once: after it, and after any further operations and
  events, delivering it again is answered with the state in which its workflow is stored by then, and
  changes nothing. The store and the sink are the file-backed ones, and no access to a file fails
  (\<open>engine_inv\<close>).\<close>

theorem event_applied_once:
  assumes "engine_inv c st sink w" and "backend_of e = file_backend c st sink"
    and "apply_event e ev w = (Ok s, w1)" and "engine_steps e w1 w2"
  shows "\<exists>s'. load_workflow c st (event_target ev) w2 = (Ok (Some s'), w2) \<and> apply_event e ev w2 = (Ok s', w2)"
  using file_engine.apply_event_again [OF assms(1-4)] by (auto simp: load_workflow_law engine_inv_def)

text \<open>A transition is made exactly when the workflow exists and the life cycle allows it; it
  returns the state in the new status, and a refused transition changes nothing.\<close>

theorem transition_accepted:
  assumes "engine_inv c st sink w" and "backend_of e = file_backend c st sink"
  shows "case transition_workflow e i next r w of
      (Ok s', w') \<Rightarrow> (\<exists>s. load_workflow c st i w = (Ok (Some s), w) \<and> allowed_transition (status s) next)
        \<and> status s' = next \<and> fst (load_workflow c st i w') = Ok (Some (norm_workflow s'))
    | (Err x, w') \<Rightarrow> w' = w \<and>
        (\<forall>s. load_workflow c st i w = (Ok (Some s), w) \<longrightarrow> \<not> allowed_transition (status s) next)"
proof -
  have l: "load_workflow c st i v = (Ok (store_table c st v (safe_file_id i)), v)" if "engine_inv c st sink v" for v
    using that by (simp add: load_workflow_law engine_inv_def)
  show ?thesis
    using file_engine.transition_law [OF assms, of i "next" r] l [OF assms(1)]
    by (auto simp: l split: option.splits if_splits)
qed

text \<open>C10: what the enabled tenant guard does for a caller of another tenant than the owner of a workflow:
  loading it, moving it on, and every event about it other than a start answer with a tenant violation
  after the one read that finds the owner; starting a workflow for a tenant that is not the caller's is
  refused before anything is read. A start for the caller's own tenant with the id of the foreign
  workflow passes the guard, for only the tenant of the start is compared: it does nothing but that read, and is
  refused because the workflow exists, unless it comes as an event whose id is marked as processed in that
  workflow, which is answered with the foreign workflow's state.\<close>

theorem tenant_isolation:
  assumes "enabled (mode (tenant_guard_of e))" and "tenant ctx \<noteq> tenant (security s)"
    and "load_op (backend_of e) i w = (Ok (Some s), w1)"
  shows "(let refused = TenantIsolationViolation (tenant ctx) in
    engine_load_as e ctx i w = (Err (refused (tenant (security s))), w1)
    \<and> transition_workflow_as e ctx i next r w = (Err (refused (tenant (security s))), w1)
    \<and> ((\<forall>start. event_kind ev \<noteq> Start start) \<and> event_target ev = i \<longrightarrow>
         apply_event_as e ctx ev w = (Err (refused (tenant (security s))), w1))
    \<and> (tenant (start_security start) \<noteq> tenant ctx \<longrightarrow>
         start_workflow_as e ctx start w = (Err (refused (tenant (start_security start))), w)
         \<and> (event_kind ev = Start start \<longrightarrow>
              apply_event_as e ctx ev w = (Err (refused (tenant (start_security start))), w)))
    \<and> (tenant (start_security start) = tenant ctx \<and> start_id start = i \<longrightarrow>
         start_workflow_as e ctx start w = (Err (already_exists i), w1)
         \<and> (event_kind ev = Start start \<longrightarrow> apply_event_as e ctx ev w =
              (if event_already_processed s (event_id ev) then Ok s else Err (already_exists i), w1))))"
proof -
  have t: "transition_workflow_for_event_as e ctx i next' r' eid w
      = (Err (TenantIsolationViolation (tenant ctx) (tenant (security s))), w1)" for next' r' eid
    using assms
    by (simp add: transition_workflow_for_event_as_def load_existing_def ensure_access_def rbind_def)
  have ev: "(\<forall>start. event_kind ev \<noteq> Start start) \<and> event_target ev = i \<longrightarrow>
      apply_event_as e ctx ev w = (Err (TenantIsolationViolation (tenant ctx) (tenant (security s))), w1)"
    by (cases "event_kind ev") (auto simp: apply_event_as_def event_target_def t)
  show ?thesis
    using assms ev
    by (auto simp: engine_load_as_def transition_workflow_as_def load_existing_def start_workflow_as_def
        start_workflow_for_event_as_def start_workflow_for_event_def start_workflow_def apply_event_as_def
        ensure_access_def rbind_def Let_def)
qed

section \<open>Instances\<close>

text \<open>Worlds in which the sample workflow runs, and has been completed.\<close>

lemma sample_load:
  "engine_inv id_codec sample_store sample_sink w \<Longrightarrow>
     load_workflow id_codec sample_store i w
       = (Ok (store_table id_codec sample_store w (safe_file_id i)), w)"
  by (simp add: load_workflow_law engine_inv_def)

lemma sample_running:
  obtains w s where "engine_inv id_codec sample_store sample_sink w"
    "load_workflow id_codec sample_store ''w1'' w = (Ok (Some s), w)"
    "status s = workflow_status.Running" "tenant (security s) = ''t''"
proof -
  have "store_table id_codec sample_store sample_world (safe_file_id ''w1'') = None"
    by (simp add: store_table_def sample_world_def file_content_def)
  with file_engine.start_law [OF sample_engine_inv sample_engine_backend, of sample_start]
  obtain s w' where "engine_inv id_codec sample_store sample_sink w'" "status s = workflow_status.Running"
    "security s = sample_security"
    "store_table id_codec sample_store w' (safe_file_id ''w1'') = Some (norm_workflow s)"
    by (auto simp: sample_start_def)
  then show ?thesis
    by (intro that [of w' "norm_workflow s"])
      (simp_all add: sample_load norm_workflow_def norm_security_def sample_security_def)
qed

lemma sample_completed:
  obtains w s where "engine_inv id_codec sample_store sample_sink w"
    "fst (load_workflow id_codec sample_store ''w1'' w) = Ok (Some s)" "status s = workflow_status.Completed"
proof -
  obtain w s where w: "engine_inv id_codec sample_store sample_sink w"
    "load_workflow id_codec sample_store ''w1'' w = (Ok (Some s), w)" "status s = workflow_status.Running"
    by (rule sample_running)
  then have "store_table id_codec sample_store w (safe_file_id ''w1'') = Some s" by (simp add: sample_load)
  with file_engine.transition_law [OF w(1) sample_engine_backend, of "''w1''" workflow_status.Completed
      audit_result.Succeeded] w(3)
  obtain st' w' where "engine_inv id_codec sample_store sample_sink w'" "status st' = workflow_status.Completed"
    "store_table id_codec sample_store w' (safe_file_id ''w1'') = Some (norm_workflow st')"
    by (auto simp: allowed_transition_def)
  then show ?thesis
    by (intro that [of w' "norm_workflow st'"]) (simp_all add: sample_load norm_workflow_def)
qed

theorem terminal_workflow_final_witness:
  "\<exists>w s. fst (load_workflow id_codec sample_store ''w1'' (snd (cancel_workflow sample_engine ''w1'' w)))
      = Ok (Some s) \<and> status s = workflow_status.Completed"
proof -
  obtain w s where w: "engine_inv id_codec sample_store sample_sink w"
    "fst (load_workflow id_codec sample_store ''w1'' w) = Ok (Some s)" "status s = workflow_status.Completed"
    by (rule sample_completed)
  have "engine_steps sample_engine w (snd (cancel_workflow sample_engine ''w1'' w))"
    by (rule engine_steps.more [OF engine_steps.refl engine_step.step_cancel])
  from terminal_workflow_final [OF w(1) sample_engine_backend this w(2)] w(3) show ?thesis
    by (auto simp: terminal_def)
qed

definition sample_event :: workflow_event where
  "sample_event = \<lparr>event_id = ''e1'', queued_at = 0, event_kind = Start sample_start\<rparr>"

theorem event_applied_once_witness:
  "\<exists>s w1. apply_event sample_engine sample_event sample_world = (Ok s, w1)
     \<and> (\<exists>s'. load_workflow id_codec sample_store ''w1'' w1 = (Ok (Some s'), w1)
          \<and> apply_event sample_engine sample_event w1 = (Ok s', w1))"
proof -
  have "store_table id_codec sample_store sample_world (safe_file_id ''w1'') = None"
    by (simp add: store_table_def sample_world_def file_content_def)
  with file_engine.start_law [OF sample_engine_inv sample_engine_backend,
      of "sample_start\<lparr>start_metadata := mark_event_processed (start_metadata sample_start) ''e1''\<rparr>"]
  obtain s w1 where "apply_event sample_engine sample_event sample_world = (Ok s, w1)"
    by (auto simp: apply_event_def sample_event_def start_workflow_for_event_def Let_def sample_start_def
        rbind_def file_engine.load_law [OF sample_engine_inv])
  with event_applied_once [OF sample_engine_inv sample_engine_backend this engine_steps.refl]
  show ?thesis by (auto simp: event_target_def sample_event_def sample_start_def)
qed

theorem transition_accepted_witness:
  "snd (transition_workflow sample_engine ''w1'' workflow_status.Completed audit_result.Succeeded sample_world)
     = sample_world"
proof -
  have "load_workflow id_codec sample_store ''w1'' sample_world = (Ok None, sample_world)"
    by (simp add: sample_load [OF sample_engine_inv] store_table_def) (simp add: sample_world_def file_content_def)
  then show ?thesis
    using transition_accepted [OF sample_engine_inv sample_engine_backend, of "''w1''"
        workflow_status.Completed audit_result.Succeeded]
    by (auto split: prod.splits sum.splits)
qed

theorem tenant_isolation_witness:
  "\<exists>w. fst (complete_workflow_as sample_engine (sample_security\<lparr>tenant := ''other''\<rparr>) ''w1'' w)
     = Err (TenantIsolationViolation ''other'' ''t'')"
proof -
  obtain w s where "load_workflow id_codec sample_store ''w1'' w = (Ok (Some s), w)"
    "tenant (security s) = ''t''"
    by (rule sample_running)
  then show ?thesis
    using tenant_isolation [of sample_engine "sample_security\<lparr>tenant := ''other''\<rparr>" s "''w1''" w w
        workflow_status.Completed audit_result.Succeeded sample_event sample_start]
    by (intro exI [of _ w])
      (simp add: complete_workflow_as_def new_engine_def strict_def enabled_def file_backend_def Let_def)
qed
section \<open>An audit line that is lost\<close>

lemma attempt_script:
  "attempt partial m (w\<lparr>faults := NoFault # fs\<rparr>) = m (w\<lparr>faults := fs\<rparr>)"
  "attempt partial m (w\<lparr>faults := Fault x # fs\<rparr>) = (Err x, w\<lparr>faults := fs\<rparr>)"
  by (simp_all add: attempt_def next_fault_def)

lemma storage_io_Ok: "storage_io m w = (Ok x, w') \<longleftrightarrow> m w = (Ok x, w')"
  by (auto simp: storage_io_def result_simps split: prod.splits)

lemma faults_ticks: "(w :: 'b world)\<lparr>ticks := n, faults := fs\<rparr> = w\<lparr>faults := fs, ticks := n\<rparr>"
  by simp

lemma is_dir_faults: "is_dir (w\<lparr>faults := fs\<rparr>) = is_dir w"
  by (simp add: is_dir_def fun_eq_iff)

lemma save_workflow_script:
  assumes "save_workflow c st s w = (Ok (), w')" and "faults w = []"
  shows "save_workflow c st s (w\<lparr>faults := NoFault # NoFault # NoFault # fs\<rparr>) = (Ok (), w'\<lparr>faults := fs\<rparr>)"
proof -
  have c: "create_dir_all p (w\<lparr>faults := NoFault # fs\<rparr>) = (r, w'\<lparr>faults := fs\<rparr>)"
    if "create_dir_all p w = (r, w')" "faults w = []" for p r fs and w w' :: "'b world"
    using that by (auto simp: create_dir_all_def attempt_script is_dir_faults split: if_splits)
  have f: "fs_write p x (w\<lparr>faults := NoFault # fs\<rparr>) = (r, w'\<lparr>faults := fs\<rparr>)"
    if "fs_write p x w = (r, w')" "faults w = []" for p x r fs and w w' :: "'b world"
    using that by (auto simp: fs_write_def attempt_script is_dir_faults split: if_splits)
  have n: "fs_rename p q (w\<lparr>faults := NoFault # fs\<rparr>) = (r, w'\<lparr>faults := fs\<rparr>)"
    if "fs_rename p q w = (r, w')" "faults w = []" for p q r fs and w w' :: "'b world"
    using that by (auto simp: fs_rename_def attempt_script is_dir_faults split: if_splits option.splits)
  have k: "faults w' = []" if "create_dir_all p w = (r, w')" "faults w = []" for p r and w w' :: "'b world"
    using that by (auto simp: create_dir_all_def split: if_splits)
  have k': "faults w' = []" if "fs_write p x w = (r, w')" "faults w = []" for p x r and w w' :: "'b world"
    using that by (auto simp: fs_write_def split: if_splits)
  from assms(1) obtain w1 b w2 where 1: "create_dir_all (workflow_dir st) w = (Ok (), w1)"
    and b: "to_vec c (workflow_to_json s) = Ok b"
    and 2: "fs_write (with_extension ''json.tmp'' (workflow_path st (wf_id s))) b w1 = (Ok (), w2)"
    and 3: "fs_rename (with_extension ''json.tmp'' (workflow_path st (wf_id s))) (workflow_path st (wf_id s)) w2
        = (Ok (), w')"
    by (auto simp: save_workflow_def replace_json_def write_then_rename_def result_simps storage_io_Ok
        storage_result_def)
  note f1 = k [OF 1 assms(2)] and f2 = k' [OF 2 k [OF 1 assms(2)]]
  show ?thesis
    using c [OF 1 assms(2)] f [OF 2 f1] n [OF 3 f2] b
    by (simp add: save_workflow_def replace_json_def write_then_rename_def rbind_def storage_io_def
        storage_result_def)
qed

text \<open>C11: an audit line can be lost: when the audit sink fails after the state of a started
  workflow was saved, the caller gets the error and the log no line; delivering the event again
  then reports success without writing the line either.\<close>

theorem audit_failure_not_repaired:
  assumes "engine_inv c st sink w" and "backend_of e = file_backend c st sink"
    and "event_kind ev = Start s" and "load_workflow c st (start_id s) w = (Ok None, w)"
  shows "\<exists>w1 s1. apply_event e ev (w\<lparr>faults := [NoFault, NoFault, NoFault, Fault x]\<rparr>)
        = (Err (Storage (io_message x)), w1)
    \<and> apply_event e ev w1 = (Ok s1, w1) \<and> audit_log c sink w1 = audit_log c sink w"
proof -
  let ?fs = "[NoFault, NoFault, NoFault, Fault x]" and ?t = "clock w (ticks w)"
  let ?w0 = "w\<lparr>ticks := Suc (ticks w)\<rparr>"
  let ?st = "\<lparr>wf_id = start_id s, wf_name = start_name s, status = workflow_status.Running,
    security = start_security s, started_at = ?t, updated_at = ?t,
    metadata = mark_event_processed (start_metadata s) (event_id ev)\<rparr>"
  have inv: "store_inv c st w" "sink_path sink \<noteq> []"
    using assms(1) by (simp_all add: engine_inv_def sink_inv_def)
  have "engine_inv c st sink ?w0" using assms(1) by simp
  then obtain w' where w': "save_workflow c st ?st ?w0 = (Ok (), w')" "engine_inv c st sink w'"
    "store_table c st w' = (store_table c st ?w0)(safe_file_id (start_id s) \<mapsto> norm_workflow ?st)"
    "audit_log c sink w' = audit_log c sink ?w0"
    by (rule engine_inv_save [where s = ?st]) auto
  let ?w1 = "w'\<lparr>ticks := Suc (ticks w')\<rparr>"
  have nf: "faults ?w0 = []" "faults w' = []" using inv(1) w'(2) by (simp_all add: engine_inv_def store_inv_def)
  have w1: "(w'\<lparr>faults := [], ticks := Suc (ticks w')\<rparr>) = ?w1" using nf(2) by simp
  have "\<not> path_exists (workflow_path st (start_id s)) w"
    using assms(4) by (auto simp: load_workflow_def Let_def result_simps split: if_splits)
  then have load: "load_workflow c st (start_id s) (w\<lparr>faults := ?fs\<rparr>) = (Ok None, w\<lparr>faults := ?fs\<rparr>)"
    by (simp add: load_workflow_def path_exists_def is_dir_faults)
  have save: "save_workflow c st ?st (w\<lparr>faults := ?fs, ticks := Suc (ticks w)\<rparr>) = (Ok (), w'\<lparr>faults := [Fault x]\<rparr>)"
    using save_workflow_script [OF w'(1) nf(1), of "[Fault x]"] unfolding faults_ticks by simp
  have app: "append_audit c sink a (w'\<lparr>faults := [Fault x], ticks := n\<rparr>)
      = (Err (Storage (io_message x)), w'\<lparr>faults := [], ticks := n\<rparr>)" for a n
    using inv(2)
    by (simp add: append_audit_def rbind_def storage_io_def create_dir_all_def attempt_def next_fault_def)
  have "apply_event e ev (w\<lparr>faults := ?fs\<rparr>) = (Err (Storage (io_message x)), ?w1)"
    using assms(2,3) load save app w1
    by (simp add: apply_event_def Let_def start_workflow_for_event_def start_workflow_def record_audit_def
        now_def file_backend_def rbind_def)
  moreover have "engine_inv c st sink ?w1" using w'(2) by simp
  moreover have "store_table c st ?w1 (safe_file_id (event_target ev)) = Some (norm_workflow ?st)"
    using w'(3) assms(3) by (simp add: event_target_def)
  moreover have "event_already_processed (norm_workflow ?st) (event_id ev)"
    by (simp add: event_already_processed_def norm_workflow_def mark_event_processed_def)
  ultimately show ?thesis
    using file_engine.apply_event_marked [OF _ assms(2)] w'(4) by (intro exI [of _ ?w1]) auto
qed

theorem audit_failure_not_repaired_witness:
  "\<exists>w1 s1. apply_event sample_engine sample_event
        (sample_world\<lparr>faults := [NoFault, NoFault, NoFault, Fault (other_error ''disk full'')]\<rparr>)
      = (Err (Storage ''disk full''), w1)
    \<and> apply_event sample_engine sample_event w1 = (Ok s1, w1) \<and> audit_log id_codec sample_sink w1 = []"
proof -
  have "load_workflow id_codec sample_store (start_id sample_start) sample_world = (Ok None, sample_world)"
    by (simp add: sample_load [OF sample_engine_inv] store_table_def) (simp add: sample_world_def file_content_def)
  moreover have "audit_log id_codec sample_sink sample_world = []"
    by (simp add: audit_log_def sample_world_def content_or_empty_def file_content_def)
  ultimately show ?thesis
    using audit_failure_not_repaired [OF sample_engine_inv sample_engine_backend, of sample_event sample_start
        "other_error ''disk full''"]
    by (simp add: sample_event_def other_error_def)
qed

end
