(* ===== verification/Worker.thy ===== *)
theory Worker
  imports Engine
begin

text \<open>
  \<open>num-runtime/src/worker.rs\<close>: the worker that takes events from a queue and applies them to
  the workflow engine, either by dequeuing or under leases. The engine and the queue are the two
  fields of \<open>WorkflowWorker\<close>, so the state is a pair: the state of the engine's backend and the
  state of the queue. The loops are partial functions; \<open>None\<close> is a loop that never ends. The
  text of an error is its derived \<open>Debug\<close> form, whose escapes depend on tables of the standard
  library: it is a parameter, \<open>debug\<close>.
\<close>

section \<open>Options and reports\<close>

record drain_options =
  drain_max_events :: "nat option"
  drain_stop_on_error :: bool

definition default_drain_options :: drain_options where
  "default_drain_options = \<lparr>drain_max_events = None, drain_stop_on_error = True\<rparr>"

record leased_drain_options = drain_options +
  drain_worker_id :: string
  drain_lease_timeout :: duration
  drain_max_attempts :: nat

definition default_leased_drain_options :: leased_drain_options where
  "default_leased_drain_options =
     \<lparr>drain_max_events = None, drain_stop_on_error = True, drain_worker_id = ''local-worker'',
      drain_lease_timeout = 30 * 1000000000, drain_max_attempts = 3\<rparr>"

record worker_state =
  ws_event_id :: string
  ws_event_kind :: string
  ws_workflow_id :: string
  ws_workflow_name :: string
  ws_status :: string

record worker_failure =
  wfail_event_id :: string
  wfail_event_kind :: string
  wfail_attempt :: nat
  wfail_disposition :: "string option"
  wfail_error :: string

record worker_report =
  processed :: nat
  failed :: nat
  retried :: nat
  dead_lettered :: nat
  idle :: bool
  states :: "worker_state list"
  failures :: "worker_failure list"

definition empty_report :: worker_report where
  "empty_report = \<lparr>processed = 0, failed = 0, retried = 0, dead_lettered = 0, idle = True,
     states = [], failures = []\<rparr>"

fun event_kind_label :: "workflow_event_kind \<Rightarrow> string" where
  "event_kind_label (Start _) = ''Start''"
| "event_kind_label (Wait _) = ''Wait''"
| "event_kind_label (Resume _) = ''Resume''"
| "event_kind_label (Complete _) = ''Complete''"
| "event_kind_label (Fail _ _) = ''Fail''"
| "event_kind_label (Compensate _) = ''Compensate''"
| "event_kind_label (Cancel _) = ''Cancel''"

fun workflow_status_label :: "workflow_status \<Rightarrow> string" where
  "workflow_status_label workflow_status.Created = ''Created''"
| "workflow_status_label workflow_status.Running = ''Running''"
| "workflow_status_label workflow_status.Waiting = ''Waiting''"
| "workflow_status_label workflow_status.Failed = ''Failed''"
| "workflow_status_label workflow_status.Compensated = ''Compensated''"
| "workflow_status_label workflow_status.Completed = ''Completed''"
| "workflow_status_label workflow_status.Cancelled = ''Cancelled''"

fun disposition_label :: "workflow_lease_disposition \<Rightarrow> string" where
  "disposition_label Requeued = ''requeued''"
| "disposition_label DeadLettered = ''dead_lettered''"

definition state_from_workflow :: "workflow_event \<Rightarrow> workflow_state \<Rightarrow> worker_state" where
  "state_from_workflow ev st =
     \<lparr>ws_event_id = event_id ev, ws_event_kind = event_kind_label (event_kind ev),
      ws_workflow_id = wf_id st, ws_workflow_name = wf_name st,
      ws_status = workflow_status_label (status st)\<rparr>"

definition failure_from_error :: "(runtime_error \<Rightarrow> string) \<Rightarrow> workflow_event \<Rightarrow> runtime_error \<Rightarrow> worker_failure" where
  "failure_from_error debug ev err =
     \<lparr>wfail_event_id = event_id ev, wfail_event_kind = event_kind_label (event_kind ev),
      wfail_attempt = 1, wfail_disposition = None, wfail_error = debug err\<rparr>"

definition failure_from_leased_error ::
    "(runtime_error \<Rightarrow> string) \<Rightarrow> workflow_event \<Rightarrow> nat \<Rightarrow> workflow_lease_disposition \<Rightarrow> runtime_error
     \<Rightarrow> worker_failure" where
  "failure_from_leased_error debug ev att disposition err =
     \<lparr>wfail_event_id = event_id ev, wfail_event_kind = event_kind_label (event_kind ev),
      wfail_attempt = att, wfail_disposition = Some (disposition_label disposition),
      wfail_error = debug err\<rparr>"

section \<open>Reports as JSON and text\<close>

definition worker_state_to_json :: "worker_state \<Rightarrow> json" where
  "worker_state_to_json s = json_object
     [(''event_id'', JString (ws_event_id s)), (''event_kind'', JString (ws_event_kind s)),
      (''workflow_id'', JString (ws_workflow_id s)), (''workflow_name'', JString (ws_workflow_name s)),
      (''status'', JString (ws_status s))]"

definition worker_failure_to_json :: "worker_failure \<Rightarrow> json" where
  "worker_failure_to_json f = json_object
     [(''event_id'', JString (wfail_event_id f)), (''event_kind'', JString (wfail_event_kind f)),
      (''attempt'', json_nat (wfail_attempt f)),
      (''disposition'', json_opt JString (wfail_disposition f)), (''error'', JString (wfail_error f))]"

definition report_to_json :: "worker_report \<Rightarrow> json" where
  "report_to_json r = json_object
     [(''processed'', json_nat (processed r)), (''failed'', json_nat (failed r)),
      (''retried'', json_nat (retried r)), (''dead_lettered'', json_nat (dead_lettered r)),
      (''idle'', JBool (idle r)),
      (''states'', JArray (map worker_state_to_json (states r))),
      (''failures'', JArray (map worker_failure_to_json (failures r)))]"

definition text_line :: "string \<Rightarrow> string" where "text_line s = s @ [CHR 0x0A]"

definition render_report :: "worker_report \<Rightarrow> string" where
  "render_report r =
     text_line (''processed: '' @ show_nat (processed r))
     @ text_line (''failed: '' @ show_nat (failed r))
     @ text_line (''retried: '' @ show_nat (retried r))
     @ text_line (''dead_lettered: '' @ show_nat (dead_lettered r))
     @ text_line (''idle: '' @ show_bool (idle r))
     @ (if states r = [] then [] else text_line ''states:'' @ concat (map (\<lambda>s.
          text_line (''  - event='' @ ws_event_id s @ '' workflow='' @ ws_workflow_id s
            @ '' name='' @ ws_workflow_name s @ '' status='' @ ws_status s)) (states r)))
     @ (if failures r = [] then [] else text_line ''failures:'' @ concat (map (\<lambda>f.
          text_line (''  - event='' @ wfail_event_id f @ '' kind='' @ wfail_event_kind f
            @ '' attempt='' @ show_nat (wfail_attempt f)
            @ '' disposition='' @ unwrap_or ''failed'' (wfail_disposition f)
            @ '' error='' @ wfail_error f)) (failures r)))"

section \<open>Draining\<close>

definition limit_reached :: "'x drain_options_scheme \<Rightarrow> worker_report \<Rightarrow> bool" where
  "limit_reached opts r =
     (case drain_max_events opts of None \<Rightarrow> False | Some n \<Rightarrow> n \<le> processed r + failed r)"

definition count_success :: "workflow_event \<Rightarrow> workflow_state \<Rightarrow> worker_report \<Rightarrow> worker_report" where
  "count_success ev st r =
     r\<lparr>processed := processed r + 1, idle := False, states := states r @ [state_from_workflow ev st]\<rparr>"

definition count_failure :: "worker_failure \<Rightarrow> worker_report \<Rightarrow> worker_report" where
  "count_failure f r = r\<lparr>failed := failed r + 1, idle := False, failures := failures r @ [f]\<rparr>"

partial_function (option) drain_loop ::
    "(runtime_error \<Rightarrow> string) \<Rightarrow> 'w engine \<Rightarrow> ('q, runtime_error, workflow_event option) stm
     \<Rightarrow> drain_options \<Rightarrow> worker_report \<Rightarrow> 'w \<times> 'q \<Rightarrow> ((runtime_error + worker_report) \<times> 'w \<times> 'q) option" where
  "drain_loop debug e dequeue opts r s =
     (if limit_reached opts r then Some (Ok r, s)
      else (case dequeue (snd s) of (found, q) \<Rightarrow>
        (case found of
           Inl err \<Rightarrow> Some (Err err, fst s, q)
         | Inr next \<Rightarrow>
            (case next of
               None \<Rightarrow> Some (Ok r, fst s, q)
             | Some ev \<Rightarrow>
                (case apply_event e ev (fst s) of (result, w) \<Rightarrow>
                   (case result of
                      Inr st \<Rightarrow> drain_loop debug e dequeue opts (count_success ev st r) (w, q)
                    | Inl err \<Rightarrow>
                        (let r' = count_failure (failure_from_error debug ev err) r in
                         if drain_stop_on_error opts then Some (Ok r', w, q)
                         else drain_loop debug e dequeue opts r' (w, q))))))))"

definition drain ::
    "(runtime_error \<Rightarrow> string) \<Rightarrow> 'w engine \<Rightarrow> ('q, runtime_error, workflow_event option) stm
     \<Rightarrow> drain_options \<Rightarrow> 'w \<times> 'q \<Rightarrow> ((runtime_error + worker_report) \<times> 'w \<times> 'q) option" where
  "drain debug e dequeue opts = drain_loop debug e dequeue opts empty_report"

definition lease_options_of :: "leased_drain_options \<Rightarrow> workflow_lease_options" where
  "lease_options_of opts =
     \<lparr>option_worker_id = drain_worker_id opts, lease_timeout = drain_lease_timeout opts,
      max_attempts = drain_max_attempts opts\<rparr>"

text \<open>\<open>drain_leased\<close>: an applied event is acknowledged, a failed one goes back to the queue or
  to the dead letters.\<close>

partial_function (option) drain_leased_loop ::
    "(runtime_error \<Rightarrow> string) \<Rightarrow> 'w engine \<Rightarrow> 'b codec \<Rightarrow> file_queue \<Rightarrow> leased_drain_options
     \<Rightarrow> worker_report \<Rightarrow> 'w \<times> 'b world \<Rightarrow> ((runtime_error + worker_report) \<times> 'w \<times> 'b world) option" where
  "drain_leased_loop debug e c q opts r s =
     (if limit_reached opts r then Some (Ok r, s)
      else (case claim c q (lease_options_of opts) (snd s) of (claimed, v) \<Rightarrow>
        (case claimed of
           Inl err \<Rightarrow> Some (Err err, fst s, v)
         | Inr found \<Rightarrow>
            (case found of
               None \<Rightarrow> Some (Ok r, fst s, v)
             | Some lease \<Rightarrow>
                (case apply_event e (lease_event lease) (fst s) of (result, w) \<Rightarrow>
                   (case result of
                      Inr st \<Rightarrow>
                        (case ack lease v of (acked, v') \<Rightarrow>
                           (case acked of
                              Inl err \<Rightarrow> Some (Err err, w, v')
                            | Inr _ \<Rightarrow>
                                drain_leased_loop debug e c q opts (count_success (lease_event lease) st r) (w, v')))
                    | Inl err \<Rightarrow>
                        (case fail_lease c q lease (debug err) (drain_max_attempts opts) v of (moved, v') \<Rightarrow>
                           (case moved of
                              Inl err' \<Rightarrow> Some (Err err', w, v')
                            | Inr disposition \<Rightarrow>
                                (let r1 = (case disposition of
                                       Requeued \<Rightarrow> r\<lparr>retried := retried r + 1\<rparr>
                                     | DeadLettered \<Rightarrow> r\<lparr>dead_lettered := dead_lettered r + 1\<rparr>);
                                     r' = count_failure (failure_from_leased_error debug (lease_event lease)
                                            (lease_attempt lease) disposition err) r1
                                 in if drain_stop_on_error opts then Some (Ok r', w, v')
                                    else drain_leased_loop debug e c q opts r' (w, v'))))))))))"

definition drain_leased ::
    "(runtime_error \<Rightarrow> string) \<Rightarrow> 'w engine \<Rightarrow> 'b codec \<Rightarrow> file_queue \<Rightarrow> leased_drain_options
     \<Rightarrow> 'w \<times> 'b world \<Rightarrow> ((runtime_error + worker_report) \<times> 'w \<times> 'b world) option" where
  "drain_leased debug e c q opts = drain_leased_loop debug e c q opts empty_report"
section \<open>Draining a queue of known contents\<close>

text \<open>The same run on the list of events that the queue holds: the report, the engine's state and
  the events left over.\<close>

fun drain_list ::
    "(runtime_error \<Rightarrow> string) \<Rightarrow> 'w engine \<Rightarrow> drain_options \<Rightarrow> workflow_event list \<Rightarrow> worker_report \<Rightarrow> 'w
     \<Rightarrow> worker_report \<times> 'w \<times> workflow_event list" where
  "drain_list debug e opts [] r w = (r, w, [])"
| "drain_list debug e opts (ev # evs) r w =
     (if limit_reached opts r then (r, w, ev # evs)
      else (case apply_event e ev w of
          (Inr st, w') \<Rightarrow> drain_list debug e opts evs (count_success ev st r) w'
        | (Inl err, w') \<Rightarrow>
            (let r' = count_failure (failure_from_error debug ev err) r in
             if drain_stop_on_error opts then (r', w', evs) else drain_list debug e opts evs r' w')))"

context event_queue begin

lemma drain_loop_list:
  assumes "inv n q"
  shows "case drain_list debug e opts (contents q) r w of (r', w', left) \<Rightarrow>
    \<exists>q'. drain_loop debug e dequeue opts r (w, q) = Some (Ok r', w', q') \<and> inv n q' \<and> contents q' = left"
  using assms
proof (induction "contents q" arbitrary: q r w)
  case Nil
  with dequeue_law [OF Nil.prems] obtain q' where "dequeue q = (Ok None, q')" "inv n q'" "contents q' = []"
    by auto
  with Nil show ?case by (auto simp: drain_loop.simps [of debug e dequeue opts r])
next
  case (Cons ev evs)
  note loop = drain_loop.simps [of debug e dequeue opts r]
  obtain q' where q': "dequeue q = (Ok (Some ev), q')" "inv n q'" "contents q' = evs"
    using dequeue_law [OF Cons.prems] Cons.hyps(2) [symmetric] by auto
  show ?case
  proof (cases "limit_reached opts r")
    case True
    then show ?thesis using Cons.hyps(2) [symmetric] Cons.prems by (simp add: loop)
  next
    case False
    obtain result w1 where run: "apply_event e ev w = (result, w1)" by (cases "apply_event e ev w")
    have IH: "case drain_list debug e opts evs r1 w1 of (r', w', left) \<Rightarrow>
        \<exists>q''. drain_loop debug e dequeue opts r1 (w1, q') = Some (Ok r', w', q'') \<and> inv n q'' \<and> contents q'' = left"
      for r1 using Cons.hyps(1) [OF q'(3) [symmetric] q'(2)] q'(3) by simp
    show ?thesis
    proof (cases result)
      case (Inl err)
      then show ?thesis
        using False q' run IH Cons.hyps(2) [symmetric] by (auto simp: loop Let_def)
    next
      case (Inr st)
      then show ?thesis using False q' run IH Cons.hyps(2) [symmetric] by (simp add: loop)
    qed
  qed
qed

end

text \<open>C12: draining a file queue ends, and it applies the events to the engine in the order in which
  the queue held them, each once, until the queue is empty, the limit is reached or an event
  fails and the options say to stop; the report, the engine's state and what the queue still
  holds are those of the run over the list of events.\<close>

theorem drain_in_order:
  assumes "queue_inv c q n v"
  shows "case drain_list debug e opts (queue_contents c q v) empty_report w of (r, w', left) \<Rightarrow>
    \<exists>v'. drain debug e (file_dequeue c q) opts (w, v) = Some (Ok r, w', v') \<and> queue_contents c q v' = left"
  using file_events.drain_loop_list [OF assms, of debug e opts empty_report w]
  by (auto simp: drain_def split: prod.splits)

text \<open>A backend that knows no workflow.\<close>

definition empty_backend :: "unit backend" where
  "empty_backend = \<lparr>save_op = (\<lambda>_ w. (Ok (), w)), load_op = (\<lambda>_ w. (Ok None, w)),
     append_op = (\<lambda>_ w. (Ok (), w)), now_op = (\<lambda>w. (0, w))\<rparr>"

theorem drain_in_order_witness:
  "\<exists>r v'. drain (\<lambda>_. ''error'') (new_engine empty_backend) (file_dequeue id_codec sample_queue) default_drain_options
       ((), enqueue_all (file_enqueue id_codec sample_queue)
              [event_wait ''e1'' ''w'' 0, event_resume ''e2'' ''w'' 0] sample_world) = Some (Ok r, (), v')
     \<and> failed r = 1 \<and> queue_contents id_codec sample_queue v' = [event_resume ''e2'' ''w'' 0]"
proof -
  let ?es = "[event_wait ''e1'' ''w'' 0, event_resume ''e2'' ''w'' 0]"
  let ?v = "enqueue_all (file_enqueue id_codec sample_queue) ?es sample_world"
  have "queue_files [''events''] sample_world = {}"
    by (auto simp: queue_files_def sample_world_def file_content_def)
  then have "queue_contents id_codec sample_queue sample_world = []" by (simp add: queue_contents_def)
  then have v: "queue_inv id_codec sample_queue 3 ?v" "queue_contents id_codec sample_queue ?v = map norm_event ?es"
    using file_events.enqueue_all_contents [of id_codec sample_queue ?es 3 sample_world] sample_queue_inv by simp_all
  have n: "map norm_event ?es = ?es"
    by (simp add: norm_event_def event_wait_def event_resume_def event_transition_def norm_time_def
        system_time_from_ms_def system_time_ms_def)
  have a: "apply_event (new_engine empty_backend) (event_wait ''e1'' ''w'' 0) ()
      = (Err (wf_not_found ''w''), ())"
    by (simp add: apply_event_def event_wait_def event_transition_def transition_workflow_for_event_def
        load_existing_def new_engine_def empty_backend_def rbind_def Let_def)
  let ?r = "count_failure (failure_from_error (\<lambda>_. ''error'') (event_wait ''e1'' ''w'' 0) (wf_not_found ''w''))
      empty_report"
  have d: "drain_list (\<lambda>_. ''error'') (new_engine empty_backend) default_drain_options
      (queue_contents id_codec sample_queue ?v) empty_report () = (?r, (), [event_resume ''e2'' ''w'' 0])"
    unfolding v(2) n by (simp add: a limit_reached_def default_drain_options_def Let_def)
  have "failed ?r = 1" by (simp add: count_failure_def empty_report_def)
  with drain_in_order [OF v(1), of "\<lambda>_. ''error''" "new_engine empty_backend" default_drain_options "()"]
  show ?thesis unfolding d prod.case by blast
qed

section \<open>Reports of leased drains\<close>

definition report_ok :: "worker_report \<Rightarrow> bool" where
  "report_ok r \<longleftrightarrow> processed r = length (states r) \<and> failed r = length (failures r)
     \<and> failed r = retried r + dead_lettered r \<and> (idle r \<longleftrightarrow> processed r + failed r = 0)"

lemma report_ok_steps:
  "report_ok empty_report" "report_ok r \<Longrightarrow> report_ok (count_success ev st r)"
  "report_ok r \<Longrightarrow> report_ok (count_failure f (r\<lparr>retried := Suc (retried r)\<rparr>))"
  "report_ok r \<Longrightarrow> report_ok (count_failure f (r\<lparr>dead_lettered := Suc (dead_lettered r)\<rparr>))"
  by (auto simp: report_ok_def empty_report_def count_success_def count_failure_def)

text \<open>A run that ends, with a report that adds up if it succeeds.\<close>

definition ends_well :: "nat \<Rightarrow> ((runtime_error + worker_report) \<times> 's) option \<Rightarrow> bool" where
  "ends_well n x \<longleftrightarrow> (\<exists>result s. x = Some (result, s)
     \<and> (\<forall>r. result = Ok r \<longrightarrow> report_ok r \<and> processed r + failed r \<le> n))"

lemma ends_well_simps [simp]:
  "ends_well n (Some (Err err, s))"
  "ends_well n (Some (Ok r, s)) \<longleftrightarrow> report_ok r \<and> processed r + failed r \<le> n"
  by (auto simp: ends_well_def)

text \<open>One turn of the loop with what follows it as a parameter, and the loop cut off after as many
  turns, each of which claims at most one event.\<close>

definition leased_turn ::
    "(runtime_error \<Rightarrow> string) \<Rightarrow> 'w engine \<Rightarrow> 'b codec \<Rightarrow> file_queue \<Rightarrow> leased_drain_options
     \<Rightarrow> (worker_report \<Rightarrow> 'w \<times> 'b world \<Rightarrow> ((runtime_error + worker_report) \<times> 'w \<times> 'b world) option)
     \<Rightarrow> worker_report \<Rightarrow> 'w \<times> 'b world \<Rightarrow> ((runtime_error + worker_report) \<times> 'w \<times> 'b world) option" where
  "leased_turn debug e c q opts go r s =
     (case claim c q (lease_options_of opts) (snd s) of
        (Inl err, v) \<Rightarrow> Some (Err err, fst s, v)
      | (Inr None, v) \<Rightarrow> Some (Ok r, fst s, v)
      | (Inr (Some lease), v) \<Rightarrow>
          (case apply_event e (lease_event lease) (fst s) of
             (Inr st, w) \<Rightarrow>
               (case ack lease v of
                  (Inl err, v') \<Rightarrow> Some (Err err, w, v')
                | (Inr _, v') \<Rightarrow> go (count_success (lease_event lease) st r) (w, v'))
           | (Inl err, w) \<Rightarrow>
               (case fail_lease c q lease (debug err) (drain_max_attempts opts) v of
                  (Inl err', v') \<Rightarrow> Some (Err err', w, v')
                | (Inr disposition, v') \<Rightarrow>
                    (let r' = count_failure (failure_from_leased_error debug (lease_event lease)
                                (lease_attempt lease) disposition err)
                              (case disposition of
                                 Requeued \<Rightarrow> r\<lparr>retried := retried r + 1\<rparr>
                               | DeadLettered \<Rightarrow> r\<lparr>dead_lettered := dead_lettered r + 1\<rparr>)
                     in if drain_stop_on_error opts then Some (Ok r', w, v') else go r' (w, v')))))"

lemma drain_leased_loop_turn:
  "drain_leased_loop debug e c q opts r s =
     (if limit_reached opts r then Some (Ok r, s)
      else leased_turn debug e c q opts (drain_leased_loop debug e c q opts) r s)"
  by (subst drain_leased_loop.simps)
    (auto simp: leased_turn_def Let_def split: prod.split sum.split option.split)

primrec drain_leased_within ::
    "nat \<Rightarrow> (runtime_error \<Rightarrow> string) \<Rightarrow> 'w engine \<Rightarrow> 'b codec \<Rightarrow> file_queue \<Rightarrow> leased_drain_options
     \<Rightarrow> worker_report \<Rightarrow> 'w \<times> 'b world \<Rightarrow> ((runtime_error + worker_report) \<times> 'w \<times> 'b world) option" where
  "drain_leased_within 0 debug e c q opts r s = (if limit_reached opts r then Some (Ok r, s) else None)"
| "drain_leased_within (Suc k) debug e c q opts r s =
     (if limit_reached opts r then Some (Ok r, s)
      else leased_turn debug e c q opts (drain_leased_within k debug e c q opts) r s)"

text \<open>A turn hands on a report that counts one event more.\<close>

lemma leased_turn_counts:
  assumes "report_ok r" and "processed r + failed r < n"
    and "\<And>r1 s1. report_ok r1 \<Longrightarrow> processed r1 + failed r1 = Suc (processed r + failed r) \<Longrightarrow>
      go1 r1 s1 = go2 r1 s1 \<and> ends_well n (go2 r1 s1)"
  shows "leased_turn debug e c q opts go1 r s = leased_turn debug e c q opts go2 r s
    \<and> ends_well n (leased_turn debug e c q opts go2 r s)"
proof -
  note ok = report_ok_steps(2-4) [OF assms(1)]
  have "processed (count_success ev st r) + failed (count_success ev st r) = Suc (processed r + failed r)"
    "processed (count_failure f (r\<lparr>retried := m\<rparr>)) + failed (count_failure f (r\<lparr>retried := m\<rparr>))
       = Suc (processed r + failed r)"
    "processed (count_failure f (r\<lparr>dead_lettered := m\<rparr>)) + failed (count_failure f (r\<lparr>dead_lettered := m\<rparr>))
       = Suc (processed r + failed r)" for ev st f m
    by (simp_all add: count_success_def count_failure_def)
  with assms ok show ?thesis
    by (simp add: leased_turn_def Let_def Suc_le_eq split: prod.split sum.split option.split
        workflow_lease_disposition.split)
qed

lemma drain_leased_loop_bounded:
  assumes "drain_max_events opts = Some n"
  shows "report_ok r \<Longrightarrow> processed r + failed r + k = n \<Longrightarrow>
    drain_leased_within k debug e c q opts r s = drain_leased_loop debug e c q opts r s
    \<and> ends_well n (drain_leased_loop debug e c q opts r s)"
proof (induction k arbitrary: r s)
  case 0
  then show ?case using assms by (simp add: limit_reached_def drain_leased_loop_turn [of debug e c q opts r s])
next
  case (Suc k)
  have "\<not> limit_reached opts r" using Suc.prems(2) assms by (simp add: limit_reached_def)
  then show ?case
    using leased_turn_counts [OF Suc.prems(1), of n "drain_leased_within k debug e c q opts"
        "drain_leased_loop debug e c q opts"] Suc
    by (simp add: drain_leased_loop_turn [of debug e c q opts r s])
qed

text \<open>C13: a leased drain with a limit of \<open>n\<close> events returns after at most \<open>n\<close> turns, each of which claims
  one event or ends it, whatever the queue, the engine and the file system do and also when it
  ends with an error; with the limit 0 it claims nothing. The report of a drain that succeeds adds
  up: one entry for every event applied and every failure, at most \<open>n\<close> in all, every failure either
  retried or dead-lettered, and it is idle exactly when it has no entry.\<close>

theorem drain_leased_bounded:
  assumes "drain_max_events opts = Some n"
  shows "\<exists>result s'. drain_leased debug e c q opts s = Some (result, s')
    \<and> drain_leased_within n debug e c q opts empty_report s = Some (result, s')
    \<and> (n = 0 \<longrightarrow> result = Ok empty_report \<and> s' = s)
    \<and> (\<forall>r. result = Ok r \<longrightarrow> processed r = length (states r) \<and> failed r = length (failures r)
        \<and> failed r = retried r + dead_lettered r \<and> (idle r \<longleftrightarrow> processed r + failed r = 0)
        \<and> processed r + failed r \<le> n)"
proof -
  have "processed empty_report + failed empty_report + n = n" by (simp add: empty_report_def)
  from drain_leased_loop_bounded [OF assms report_ok_steps(1) this, of debug e c q s] assms
  show ?thesis
    by (cases n) (auto simp: drain_leased_def report_ok_def ends_well_def limit_reached_def)
qed

theorem drain_leased_bounded_witness:
  "\<exists>result s'. drain_leased (\<lambda>_. ''error'') (new_engine empty_backend) id_codec sample_queue
     (default_leased_drain_options\<lparr>drain_max_events := Some 2\<rparr>) ((), sample_world) = Some (result, s')"
  using drain_leased_bounded [of "default_leased_drain_options\<lparr>drain_max_events := Some 2\<rparr>" 2
      "\<lambda>_. ''error''" "new_engine empty_backend" id_codec sample_queue "((), sample_world)"]
  by auto

end
