(* ===== verification/Tokens.thy ===== *)
theory Tokens
  imports Rust_Strings
begin

text \<open>
  \<open>num-compiler/src/span.rs\<close>, \<open>token.rs\<close> and \<open>diagnostic.rs\<close>: source positions, the
  tokens of the language with its keywords, and diagnostics with their printed form. The
  constructors of \<open>Keyword\<close> carry the prefix \<open>Kw_\<close>, because some of their names belong to
  the logic. \<open>usize\<close> is \<open>nat\<close>: positions count bytes and characters of one file.
\<close>

section \<open>Positions\<close>

record span =
  span_source :: string
  span_start :: nat
  span_end :: nat
  span_line :: nat
  span_column :: nat

definition new_span :: "string \<Rightarrow> nat \<Rightarrow> nat \<Rightarrow> nat \<Rightarrow> nat \<Rightarrow> span" where
  "new_span src start stop ln col =
     \<lparr>span_source = src, span_start = start, span_end = stop, span_line = ln, span_column = col\<rparr>"

definition synthetic_span :: "string \<Rightarrow> span" where
  "synthetic_span src = new_span src 0 0 1 1"

section \<open>Tokens\<close>

datatype keyword_kind =
    Kw_Action | Kw_Actor | Kw_Allow | Kw_Assert | Kw_As | Kw_Budget | Kw_Connector | Kw_Cost |
    Kw_Deny | Kw_Else | Kw_Enum | Kw_Event | Kw_Fn | Kw_For | Kw_From | Kw_If | Kw_Impl |
    Kw_Idempotency | Kw_Input | Kw_Internal | Kw_Let | Kw_Match | Kw_Module | Kw_Permission |
    Kw_Policy | Kw_Private | Kw_Public | Kw_Rate | Kw_Regulated | Kw_Requires | Kw_Require |
    Kw_Return | Kw_Retry | Kw_Risk | Kw_Role | Kw_Rollback | Kw_Saga | Kw_Secret |
    Kw_Sensitive | Kw_Service | Kw_Test | Kw_Timeout | Kw_Transaction | Kw_Trusted | Kw_Type |
    Kw_Untrusted | Kw_Use | Kw_Var | Kw_Verified | Kw_Workflow | Kw_Async | Kw_Await | Kw_Scope

datatype symbol =
    Arrow | FatArrow | Colon | Comma | Dot | Eq | EqEq | BangEq | LBrace | RBrace | LParen |
    RParen | Lt | LtEq | Gt | GtEq | Pipe | PipePipe | AmpAmp | Plus | Minus | Star | Slash |
    Question

datatype token_kind =
    Ident string
  | Number string
  | String string
  | Keyword keyword_kind
  | Symbol symbol
  | Newline
  | Eof

record token =
  token_kind :: token_kind
  lexeme :: string
  span :: span

definition eof_token :: "string \<Rightarrow> nat \<Rightarrow> nat \<Rightarrow> nat \<Rightarrow> token" where
  "eof_token src offset ln col =
     \<lparr>token_kind = Eof, lexeme = [], span = new_span src offset offset ln col\<rparr>"

definition keyword_table :: "(string \<times> keyword_kind) list" where
  "keyword_table =
    [(''action'', Kw_Action), (''actor'', Kw_Actor), (''allow'', Kw_Allow),
     (''assert'', Kw_Assert), (''as'', Kw_As), (''budget'', Kw_Budget),
     (''connector'', Kw_Connector), (''cost'', Kw_Cost), (''deny'', Kw_Deny),
     (''else'', Kw_Else), (''enum'', Kw_Enum), (''event'', Kw_Event), (''fn'', Kw_Fn),
     (''for'', Kw_For), (''from'', Kw_From), (''if'', Kw_If), (''impl'', Kw_Impl),
     (''idempotency'', Kw_Idempotency), (''input'', Kw_Input), (''internal'', Kw_Internal),
     (''let'', Kw_Let), (''match'', Kw_Match), (''module'', Kw_Module),
     (''permission'', Kw_Permission), (''policy'', Kw_Policy), (''private'', Kw_Private),
     (''public'', Kw_Public), (''rate'', Kw_Rate), (''regulated'', Kw_Regulated),
     (''requires'', Kw_Requires), (''require'', Kw_Require), (''return'', Kw_Return),
     (''retry'', Kw_Retry), (''risk'', Kw_Risk), (''role'', Kw_Role),
     (''rollback'', Kw_Rollback), (''saga'', Kw_Saga), (''secret'', Kw_Secret),
     (''sensitive'', Kw_Sensitive), (''service'', Kw_Service), (''test'', Kw_Test),
     (''timeout'', Kw_Timeout), (''transaction'', Kw_Transaction), (''trusted'', Kw_Trusted),
     (''type'', Kw_Type), (''untrusted'', Kw_Untrusted), (''use'', Kw_Use), (''var'', Kw_Var),
     (''verified'', Kw_Verified), (''workflow'', Kw_Workflow), (''async'', Kw_Async),
     (''await'', Kw_Await), (''scope'', Kw_Scope)]"

text \<open>The arms of the match, tried in order.\<close>

definition keyword :: "string \<Rightarrow> keyword_kind option" where
  "keyword txt = map_of keyword_table txt"

text \<open>The text of a keyword.\<close>

definition keyword_text :: "keyword_kind \<Rightarrow> string" where
  "keyword_text kw = fst (hd (filter (\<lambda>(_, k). k = kw) keyword_table))"

section \<open>Diagnostics\<close>

datatype severity = Error | Warning | Info

record diagnostic =
  diag_code :: string
  diag_severity :: severity
  diag_message :: string
  diag_span :: span
  diag_reason :: "string option"
  diag_help :: "string option"

definition diagnostic_error :: "string \<Rightarrow> string \<Rightarrow> span \<Rightarrow> diagnostic" where
  "diagnostic_error code msg sp =
     \<lparr>diag_code = code, diag_severity = Error, diag_message = msg, diag_span = sp,
      diag_reason = None, diag_help = None\<rparr>"

definition diagnostic_warning :: "string \<Rightarrow> string \<Rightarrow> span \<Rightarrow> diagnostic" where
  "diagnostic_warning code msg sp =
     \<lparr>diag_code = code, diag_severity = Warning, diag_message = msg, diag_span = sp,
      diag_reason = None, diag_help = None\<rparr>"

definition with_reason :: "string \<Rightarrow> diagnostic \<Rightarrow> diagnostic" where
  "with_reason r d = d\<lparr>diag_reason := Some r\<rparr>"

definition with_help :: "string \<Rightarrow> diagnostic \<Rightarrow> diagnostic" where
  "with_help h d = d\<lparr>diag_help := Some h\<rparr>"

definition is_error :: "diagnostic \<Rightarrow> bool" where
  "is_error d \<longleftrightarrow> diag_severity d = Error"

fun severity_str :: "severity \<Rightarrow> string" where
  "severity_str Error = ''error''"
| "severity_str Warning = ''warning''"
| "severity_str Info = ''info''"

definition newline_str :: string where "newline_str = [CHR 0x0A]"

definition diagnostic_to_string :: "diagnostic \<Rightarrow> string" where
  "diagnostic_to_string d =
     severity_str (diag_severity d) @ ''['' @ diag_code d @ ''] '' @ span_source (diag_span d) @ '':''
     @ show_nat (span_line (diag_span d)) @ '':'' @ show_nat (span_column (diag_span d)) @ '' ''
     @ diag_message d @ newline_str
     @ (case diag_reason d of None \<Rightarrow> [] | Some r \<Rightarrow> ''  reason: '' @ r @ newline_str)
     @ (case diag_help d of None \<Rightarrow> [] | Some h \<Rightarrow> ''  help: '' @ h @ newline_str)"

end
