(* ===== verification/Lexer.thy ===== *)
theory Lexer
  imports Tokens
begin

text \<open>
  \<open>num-compiler/src/lexer.rs\<close>: the lexer of the language, state by state. The state is the
  struct \<open>Lexer\<close>; its loops are recursions on the characters that are left. The theorems say
  where tokens lie in the source, how lines are counted, and that the lexer reads back every
  sequence of tokens that is printed with blanks between them.
\<close>

section \<open>The lexer\<close>

record lexed =
  lexed_tokens :: "token list"
  lexed_diagnostics :: "diagnostic list"

record lexer =
  lx_source_name :: string
  lx_source :: string
  lx_chars :: "string list"
  lx_index :: nat
  lx_offset :: nat
  lx_line :: nat
  lx_column :: nat
  lx_tokens :: "token list"
  lx_diagnostics :: "diagnostic list"

definition new_lexer :: "string \<Rightarrow> string \<Rightarrow> lexer" where
  "new_lexer source_name src =
     \<lparr>lx_source_name = source_name, lx_source = src, lx_chars = chars src, lx_index = 0, lx_offset = 0,
      lx_line = 1, lx_column = 1, lx_tokens = [], lx_diagnostics = []\<rparr>"

definition peek :: "lexer \<Rightarrow> string option" where
  "peek st = (if lx_index st < length (lx_chars st) then Some (lx_chars st ! lx_index st) else None)"

definition peek_next :: "lexer \<Rightarrow> string option" where
  "peek_next st =
     (if lx_index st + 1 < length (lx_chars st) then Some (lx_chars st ! (lx_index st + 1)) else None)"

text \<open>\<open>advance\<close> without its result, which is what \<open>peek\<close> saw before.\<close>

definition advance :: "lexer \<Rightarrow> lexer" where
  "advance st = (case peek st of
     None \<Rightarrow> st
   | Some ch \<Rightarrow> st\<lparr>lx_index := lx_index st + 1, lx_offset := lx_offset st + length ch,
                   lx_column := lx_column st + 1\<rparr>)"

definition lex_span :: "lexer \<Rightarrow> nat \<Rightarrow> nat \<Rightarrow> nat \<Rightarrow> nat \<Rightarrow> span" where
  "lex_span st start stop ln col = new_span (lx_source_name st) start stop ln col"

text \<open>\<open>source[start..offset]\<close>.\<close>

definition source_slice :: "lexer \<Rightarrow> nat \<Rightarrow> nat \<Rightarrow> string" where
  "source_slice st start stop = take (stop - start) (drop start (lx_source st))"

definition push_token :: "token_kind \<Rightarrow> string \<Rightarrow> nat \<Rightarrow> nat \<Rightarrow> nat \<Rightarrow> lexer \<Rightarrow> lexer" where
  "push_token k txt start ln col st =
     st\<lparr>lx_tokens := lx_tokens st @
          [\<lparr>token_kind = k, lexeme = txt, span = lex_span st start (lx_offset st) ln col\<rparr>]\<rparr>"

definition push_diagnostic :: "diagnostic \<Rightarrow> lexer \<Rightarrow> lexer" where
  "push_diagnostic d st = st\<lparr>lx_diagnostics := lx_diagnostics st @ [d]\<rparr>"

definition newline :: "lexer \<Rightarrow> lexer" where
  "newline st =
     (let st' = advance st;
          st'' = push_token Newline newline_str (lx_offset st) (lx_line st) (lx_column st) st'
      in st''\<lparr>lx_line := lx_line st'' + 1, lx_column := 1\<rparr>)"

lemma peek_advance: "peek st = Some ch \<Longrightarrow>
    length (lx_chars (advance st)) - lx_index (advance st) < length (lx_chars st) - lx_index st"
  by (auto simp: peek_def advance_def split: if_splits)

text \<open>\<open>while matches!(self.peek(), Some(p)) { self.advance(); }\<close>.\<close>

function advance_while :: "(string \<Rightarrow> bool) \<Rightarrow> lexer \<Rightarrow> lexer" where
  "advance_while p st =
     (case peek st of
        None \<Rightarrow> st
      | Some ch \<Rightarrow> if p ch then advance_while p (advance st) else st)"
  by pat_completeness auto
termination
  by (relation "measure (\<lambda>(p, st). length (lx_chars st) - lx_index st)") (auto simp: peek_advance)

declare advance_while.simps [simp del]

definition line_comment :: "lexer \<Rightarrow> lexer" where
  "line_comment st = advance_while (\<lambda>ch. ch \<noteq> newline_str) st"

text \<open>The character ranges of the patterns; a character beyond ASCII has more than one byte.\<close>

definition ident_start :: "string \<Rightarrow> bool" where
  "ident_start = one_byte (\<lambda>c. is_ascii_alphabetic c \<or> c = CHR ''_'')"

definition ident_part :: "string \<Rightarrow> bool" where
  "ident_part = one_byte (\<lambda>c. is_ascii_alphanumeric c \<or> c = CHR ''_'' \<or> c = CHR ''-'')"

definition number_part :: "string \<Rightarrow> bool" where
  "number_part = one_byte (\<lambda>c. is_ascii_digit c \<or> c = CHR ''.'')"

definition lex_ident :: "lexer \<Rightarrow> lexer" where
  "lex_ident st =
     (let st' = advance_while ident_part st;
          txt = source_slice st' (lx_offset st) (lx_offset st');
          k = (case keyword txt of Some kw \<Rightarrow> Keyword kw | None \<Rightarrow> Ident txt)
      in push_token k txt (lx_offset st) (lx_line st) (lx_column st) st')"

definition lex_number :: "lexer \<Rightarrow> lexer" where
  "lex_number st =
     (let st' = advance_while number_part st;
          txt = source_slice st' (lx_offset st) (lx_offset st')
      in push_token (Number txt) txt (lx_offset st) (lx_line st) (lx_column st) st')"

text \<open>The loop of \<open>string\<close>: the value read and whether the closing quote was found.\<close>

definition unescape :: "string \<Rightarrow> string" where
  "unescape ch = (if ch = ''n'' then newline_str else if ch = ''t'' then [CHR 0x09] else ch)"

function string_loop :: "string \<Rightarrow> lexer \<Rightarrow> string \<times> bool \<times> lexer" where
  "string_loop val st =
     (case peek st of
        None \<Rightarrow> (val, False, st)
      | Some ch \<Rightarrow>
          if ch = [CHR 0x22] then (val, True, advance st)
          else if ch = [CHR 0x5C] then
            (case peek (advance st) of
               None \<Rightarrow> (val, False, advance st)
             | Some esc \<Rightarrow> string_loop (val @ unescape esc) (advance (advance st)))
          else string_loop (val @ ch) (advance st))"
  by pat_completeness auto
termination
  by (relation "measure (\<lambda>(v, st). length (lx_chars st) - lx_index st)")
    (auto simp: peek_advance dest: less_trans [OF peek_advance peek_advance])

declare string_loop.simps [simp del]

definition lex_string :: "lexer \<Rightarrow> lexer" where
  "lex_string st =
     (case string_loop [] (advance st) of
        (val, closed, st') \<Rightarrow>
          if closed then
            push_token (String val) (source_slice st' (lx_offset st) (lx_offset st'))
              (lx_offset st) (lx_line st) (lx_column st) st'
          else
            push_diagnostic
              (with_help ''close the string with a double quote''
                (diagnostic_error ''N0001'' ''unterminated string literal''
                  (lex_span st' (lx_offset st) (lx_offset st') (lx_line st) (lx_column st)))) st')"

text \<open>The symbol that begins with a character, given the character after it, and whether it
  takes that one too; the order of the arms is the source's.\<close>

definition symbol_of :: "string \<Rightarrow> string option \<Rightarrow> (symbol \<times> bool) option" where
  "symbol_of ch nxt =
     (if ch = ''-'' \<and> nxt = Some ''>'' then Some (Arrow, True)
      else if ch = ''='' \<and> nxt = Some ''>'' then Some (FatArrow, True)
      else if ch = ''='' \<and> nxt = Some ''='' then Some (EqEq, True)
      else if ch = ''!'' \<and> nxt = Some ''='' then Some (BangEq, True)
      else if ch = '':'' then Some (Colon, False)
      else if ch = '','' then Some (Comma, False)
      else if ch = ''.'' then Some (Dot, False)
      else if ch = ''='' then Some (Eq, False)
      else if ch = ''{'' then Some (LBrace, False)
      else if ch = ''}'' then Some (RBrace, False)
      else if ch = ''('' then Some (LParen, False)
      else if ch = '')'' then Some (RParen, False)
      else if ch = ''<'' \<and> nxt = Some ''='' then Some (LtEq, True)
      else if ch = ''<'' then Some (Lt, False)
      else if ch = ''>'' \<and> nxt = Some ''='' then Some (GtEq, True)
      else if ch = ''>'' then Some (Gt, False)
      else if ch = ''|'' \<and> nxt = Some ''|'' then Some (PipePipe, True)
      else if ch = ''|'' then Some (Pipe, False)
      else if ch = ''&'' \<and> nxt = Some ''&'' then Some (AmpAmp, True)
      else if ch = ''+'' then Some (Plus, False)
      else if ch = ''-'' then Some (Minus, False)
      else if ch = ''*'' then Some (Star, False)
      else if ch = ''/'' then Some (Slash, False)
      else if ch = ''?'' then Some (Question, False)
      else None)"

definition lex_symbol :: "lexer \<Rightarrow> lexer" where
  "lex_symbol st =
     (case peek st of
        None \<Rightarrow> st
      | Some ch \<Rightarrow>
          (let st' = advance st in
           case symbol_of ch (peek st') of
             None \<Rightarrow>
               push_diagnostic
                 (with_help ''remove the character or escape it inside a string literal''
                   (diagnostic_error ''N0002'' (''unexpected character `'' @ ch @ ''`'')
                     (lex_span st' (lx_offset st) (lx_offset st') (lx_line st) (lx_column st)))) st'
           | Some (smb, two) \<Rightarrow>
               (let st'' = (if two then advance st' else st') in
                push_token (Symbol smb) (source_slice st'' (lx_offset st) (lx_offset st''))
                  (lx_offset st) (lx_line st) (lx_column st) st'')))"

text \<open>One turn of the main loop on the character that \<open>peek\<close> saw.\<close>

definition lex_step :: "string \<Rightarrow> lexer \<Rightarrow> lexer" where
  "lex_step ch st =
     (if ch = '' '' \<or> ch = [CHR 0x09] \<or> ch = [CHR 0x0D] then advance st
      else if ch = newline_str then newline st
      else if ch = ''/'' \<and> peek_next st = Some ''/'' then line_comment st
      else if ch = [CHR 0x22] then lex_string st
      else if one_byte is_ascii_digit ch then lex_number st
      else if ident_start ch then lex_ident st
      else lex_symbol st)"
section \<open>What is left to read\<close>

definition rest :: "lexer \<Rightarrow> string list" where
  "rest st = drop (lx_index st) (lx_chars st)"

text \<open>The state after some characters were read.\<close>

definition skip :: "string list \<Rightarrow> lexer \<Rightarrow> lexer" where
  "skip cs st = st\<lparr>lx_index := lx_index st + length cs, lx_offset := lx_offset st + length (concat cs),
                    lx_column := lx_column st + length cs\<rparr>"

lemma skip_simps [simp]:
  "lx_source (skip cs st) = lx_source st" "lx_source_name (skip cs st) = lx_source_name st"
  "lx_chars (skip cs st) = lx_chars st" "lx_line (skip cs st) = lx_line st"
  "lx_tokens (skip cs st) = lx_tokens st" "lx_diagnostics (skip cs st) = lx_diagnostics st"
  "rest (skip cs st) = drop (length cs) (rest st)" "skip [] st = st"
  "skip ds (skip cs st) = skip (cs @ ds) st"
  "lx_offset (skip cs st) = lx_offset st + length (concat cs)"
  "lx_column (skip cs st) = lx_column st + length cs" "lx_index (skip cs st) = lx_index st + length cs"
  by (simp_all add: skip_def rest_def add.commute add.assoc)

lemma peek_rest: "peek st = (case rest st of [] \<Rightarrow> None | ch # _ \<Rightarrow> Some ch)"
  by (auto simp: peek_def rest_def Cons_nth_drop_Suc [symmetric] split: list.split)

lemma peek_next_rest: "peek_next st = (case rest st of _ # ch # _ \<Rightarrow> Some ch | _ \<Rightarrow> None)"
proof -
  have "peek_next st = peek (st\<lparr>lx_index := lx_index st + 1\<rparr>)" by (simp add: peek_def peek_next_def)
  also have "\<dots> = (case drop 1 (rest st) of [] \<Rightarrow> None | ch # _ \<Rightarrow> Some ch)"
    by (simp add: peek_rest rest_def drop_drop)
  finally show ?thesis by (auto split: list.split)
qed

lemma advance_skip: "advance st = (case rest st of [] \<Rightarrow> st | ch # _ \<Rightarrow> skip [ch] st)"
  by (simp add: advance_def peek_rest skip_def split: list.split)

lemma advance_while_skip: "advance_while p st = skip (takeWhile p (rest st)) st"
proof (induction p st rule: advance_while.induct)
  case (1 p st)
  show ?case
  proof (cases "rest st")
    case Nil
    then show ?thesis by (simp add: advance_while.simps [of p st] peek_rest)
  next
    case (Cons ch r)
    with 1 [of ch] show ?thesis
      by (simp add: advance_while.simps [of p st] peek_rest advance_skip)
  qed
qed

text \<open>What the loop of a string literal reads: the value, whether it is closed, the characters.\<close>

fun string_scan :: "string list \<Rightarrow> string \<times> bool \<times> string list" where
  "string_scan [] = ([], False, [])"
| "string_scan (ch # r) =
     (if ch = [CHR 0x22] then ([], True, [ch])
      else if ch = [CHR 0x5C] then
        (case r of
           [] \<Rightarrow> ([], False, [ch])
         | esc # r' \<Rightarrow> (case string_scan r' of (v, b, cs) \<Rightarrow> (unescape esc @ v, b, ch # esc # cs)))
      else (case string_scan r of (v, b, cs) \<Rightarrow> (ch @ v, b, ch # cs)))"

lemma string_loop_scan:
  "string_loop val st = (case string_scan (rest st) of (v, b, cs) \<Rightarrow> (val @ v, b, skip cs st))"
proof (induction val st rule: string_loop.induct)
  case (1 val st)
  note l = string_loop.simps [of val st]
  show ?case
  proof (cases "rest st")
    case Nil
    then show ?thesis by (simp add: l peek_rest)
  next
    case (Cons ch r)
    show ?thesis
    proof (cases "ch = [CHR 0x5C]")
      case True
      with Cons 1(1) show ?thesis
        by (cases r) (auto simp: l peek_rest advance_skip split: prod.splits)
    next
      case False
      with Cons 1(2) show ?thesis by (auto simp: l peek_rest advance_skip split: prod.splits)
    qed
  qed
qed

lemma string_scan_prefix: "prefix (snd (snd (string_scan r))) r"
proof (induction r rule: string_scan.induct)
  case (2 ch r)
  show ?case
  proof (cases "ch = [CHR 0x5C] \<and> r \<noteq> []")
    case True
    then obtain esc r' where "r = esc # r'" by (cases r) auto
    with True 2(1) [of esc r'] show ?thesis by (cases "string_scan r'") simp
  next
    case False
    with 2(2) show ?thesis by (cases "string_scan r") (auto split: list.split)
  qed
qed simp
text \<open>What one turn of the main loop reads from the characters that are left, and the kind of the
  token it makes of them, if it makes one.\<close>

definition blank :: "string \<Rightarrow> bool" where
  "blank ch \<longleftrightarrow> ch = '' '' \<or> ch = [CHR 0x09] \<or> ch = [CHR 0x0D]"

definition word_kind :: "string \<Rightarrow> token_kind" where
  "word_kind txt = (case keyword txt of Some kw \<Rightarrow> Keyword kw | None \<Rightarrow> Ident txt)"

definition hd_opt :: "'a list \<Rightarrow> 'a option" where
  "hd_opt xs = (case xs of [] \<Rightarrow> None | x # _ \<Rightarrow> Some x)"

fun scan :: "string list \<Rightarrow> string list \<times> token_kind option" where
  "scan [] = ([], None)"
| "scan (ch # r) =
     (if blank ch then ([ch], None)
      else if ch = newline_str then ([ch], Some Newline)
      else if ch = ''/'' \<and> hd_opt r = Some ''/'' then (takeWhile (\<lambda>c. c \<noteq> newline_str) (ch # r), None)
      else if ch = [CHR 0x22] then
        (case string_scan r of (v, closed, cs) \<Rightarrow> (ch # cs, if closed then Some (String v) else None))
      else if one_byte is_ascii_digit ch then
        (let cs = takeWhile number_part (ch # r) in (cs, Some (Number (concat cs))))
      else if ident_start ch then
        (let cs = takeWhile ident_part (ch # r) in (cs, Some (word_kind (concat cs))))
      else
        (case symbol_of ch (hd_opt r) of
           None \<Rightarrow> ([ch], None)
         | Some (smb, two) \<Rightarrow> (if two then take 2 (ch # r) else [ch], Some (Symbol smb))))"

lemma part_of_start:
  "one_byte is_ascii_digit ch \<Longrightarrow> number_part ch" "ident_start ch \<Longrightarrow> ident_part ch"
  by (auto simp: number_part_def ident_part_def ident_start_def one_byte_def is_ascii_alphanumeric_def
      split: list.splits)

lemma scan_takes: "prefix (fst (scan (ch # r))) (ch # r) \<and> fst (scan (ch # r)) \<noteq> []"
proof -
  have "prefix (ch # snd (snd (string_scan r))) (ch # r)" using string_scan_prefix by simp
  then show ?thesis
    using part_of_start [of ch]
    by (auto simp: Let_def newline_str_def takeWhile_is_prefix take_is_prefix
        split: prod.splits option.splits simp del: prefix_Cons)
qed

text \<open>No character is empty, and the characters before the position add up to the offset.\<close>

definition wf_lexer :: "lexer \<Rightarrow> bool" where
  "wf_lexer st \<longleftrightarrow> concat (lx_chars st) = lx_source st \<and> [] \<notin> set (lx_chars st)
     \<and> lx_index st \<le> length (lx_chars st)
     \<and> lx_offset st = length (concat (take (lx_index st) (lx_chars st)))"

lemma slice_skip:
  assumes "wf_lexer st" and "prefix cs (rest st)"
  shows "source_slice st (lx_offset st) (lx_offset st + length (concat cs)) = concat cs"
proof -
  obtain r where r: "rest st = cs @ r" using assms(2) by (auto simp: prefix_def)
  have "lx_source st = concat (take (lx_index st) (lx_chars st)) @ concat (rest st)"
    using assms(1) by (metis append_take_drop_id concat_append rest_def wf_lexer_def)
  then show ?thesis using assms(1) by (simp add: source_slice_def r wf_lexer_def)
qed

lemma wf_skip:
  assumes "wf_lexer st" and "prefix cs (rest st)"
  shows "wf_lexer (skip cs st)"
proof -
  obtain r where r: "drop (lx_index st) (lx_chars st) = cs @ r"
    using assms(2) by (auto simp: prefix_def rest_def)
  then have "take (lx_index st + length cs) (lx_chars st) = take (lx_index st) (lx_chars st) @ cs"
    by (simp add: take_add)
  moreover have "lx_index st + length cs \<le> length (lx_chars st)"
    using arg_cong [OF r, of length] assms(1) by (auto simp: wf_lexer_def)
  ultimately show ?thesis using assms(1) by (simp add: wf_lexer_def)
qed

lemma push_simps [simp]:
  "lx_source (push_token k t a l c st) = lx_source st" "lx_chars (push_token k t a l c st) = lx_chars st"
  "lx_index (push_token k t a l c st) = lx_index st" "lx_offset (push_token k t a l c st) = lx_offset st"
  "lx_source_name (push_token k t a l c st) = lx_source_name st" "lx_line (push_token k t a l c st) = lx_line st"
  "lx_column (push_token k t a l c st) = lx_column st"
  "rest (push_token k t a l c st) = rest st" "wf_lexer (push_token k t a l c st) = wf_lexer st"
  "lx_source (push_diagnostic d st) = lx_source st" "lx_chars (push_diagnostic d st) = lx_chars st"
  "lx_index (push_diagnostic d st) = lx_index st" "lx_offset (push_diagnostic d st) = lx_offset st"
  "lx_source_name (push_diagnostic d st) = lx_source_name st" "lx_line (push_diagnostic d st) = lx_line st"
  "lx_column (push_diagnostic d st) = lx_column st" "lx_tokens (push_diagnostic d st) = lx_tokens st"
  "rest (push_diagnostic d st) = rest st" "wf_lexer (push_diagnostic d st) = wf_lexer st"
  by (simp_all add: push_token_def push_diagnostic_def rest_def wf_lexer_def)
definition token_at :: "lexer \<Rightarrow> string list \<Rightarrow> token_kind \<Rightarrow> token" where
  "token_at st cs k = \<lparr>token_kind = k, lexeme = concat cs,
     span = new_span (lx_source_name st) (lx_offset st) (lx_offset st + length (concat cs))
              (lx_line st) (lx_column st)\<rparr>"

definition after_scan :: "lexer \<Rightarrow> string list \<Rightarrow> token_kind option \<Rightarrow> diagnostic list \<Rightarrow> lexer" where
  "after_scan st cs k ds =
     (let st' = (skip cs st)\<lparr>lx_tokens := lx_tokens st @ (case k of None \<Rightarrow> [] | Some t \<Rightarrow> [token_at st cs t]),
                             lx_diagnostics := lx_diagnostics st @ ds\<rparr>
      in if k = Some Newline then st'\<lparr>lx_line := lx_line st + 1, lx_column := 1\<rparr> else st')"

lemma after_scan_push:
  "k \<noteq> Newline \<Longrightarrow> push_token k (concat cs) (lx_offset st) (lx_line st) (lx_column st) (skip cs st)
     = after_scan st cs (Some k) []"
  by (simp add: after_scan_def push_token_def token_at_def lex_span_def)

lemma after_scan_none:
  "after_scan st cs None [] = skip cs st" "after_scan st cs None [d] = push_diagnostic d (skip cs st)"
  by (simp_all add: after_scan_def push_diagnostic_def skip_def)

lemma lex_step_scan:
  assumes "wf_lexer st" and "rest st = ch # r" and "scan (ch # r) = (cs, k)"
  obtains ds where "lex_step ch st = after_scan st cs k ds" "k \<noteq> None \<or> blank ch \<Longrightarrow> ds = []"
proof -
  have cs: "prefix cs (rest st)" using scan_takes [of ch r] assms(2,3) by simp
  have adv: "advance st = skip [ch] st" by (simp add: advance_skip assms(2))
  have sl: "source_slice (skip cs st) (lx_offset st) (lx_offset (skip cs st)) = concat cs"
    using slice_skip [OF assms(1) cs] by (simp add: source_slice_def)
  consider "blank ch" | "ch = newline_str" | "\<not> blank ch" "ch \<noteq> newline_str" "ch = ''/''" "hd_opt r = Some ''/''"
    | "ch = [CHR 0x22]" | "one_byte is_ascii_digit ch" | "ident_start ch"
    | "\<not> blank ch" "ch \<noteq> newline_str" "\<not> (ch = ''/'' \<and> hd_opt r = Some ''/'')" "ch \<noteq> [CHR 0x22]"
      "\<not> one_byte is_ascii_digit ch" "\<not> ident_start ch"
    by blast
  then show ?thesis
  proof cases
    case 1
    then have "lex_step ch st = after_scan st cs k []"
      using assms(3) adv by (auto simp: lex_step_def blank_def after_scan_none)
    then show ?thesis by (rule that) simp
  next
    case 2
    then have "lex_step ch st = after_scan st cs k []"
      using assms(3) adv
      by (auto simp: lex_step_def blank_def newline_def Let_def after_scan_def push_token_def token_at_def
          lex_span_def newline_str_def)
    then show ?thesis by (rule that) simp
  next
    case 3
    then have "lex_step ch st = after_scan st cs k []"
      using assms(2,3)
      by (auto simp: lex_step_def line_comment_def advance_while_skip peek_next_rest hd_opt_def blank_def
          after_scan_none split: list.splits)
    then show ?thesis by (rule that) simp
  next
    case 4
    obtain v b ss where ss: "string_scan r = (v, b, ss)" by (cases "string_scan r")
    with 4 assms(3) have k: "cs = ch # ss" "k = (if b then Some (String v) else None)"
      by (auto simp: blank_def newline_str_def)
    have "string_loop [] (advance st) = (v, b, skip cs st)"
      using ss k(1) by (simp add: adv string_loop_scan assms(2))
    then have l: "lex_step ch st = (if b then after_scan st cs k [] else
        after_scan st cs k [with_help ''close the string with a double quote''
                (diagnostic_error ''N0001'' ''unterminated string literal''
                  (lex_span (skip cs st) (lx_offset st) (lx_offset (skip cs st)) (lx_line st) (lx_column st)))])"
      using 4 k(2) sl after_scan_push [of "String v" cs st]
      by (simp add: lex_step_def lex_string_def newline_str_def after_scan_none)
    show ?thesis
      by (cases b) (use l k 4 in \<open>auto simp: blank_def intro: that\<close>)
  next
    case 5
    let ?t = "concat (takeWhile number_part (ch # r))"
    have "blank ch = False" "ch \<noteq> newline_str" "ch \<noteq> ''/''" "ch \<noteq> [CHR 0x22]"
      using 5 by (auto simp: one_byte_def blank_def newline_str_def is_ascii_digit_def byte_def)
    with 5 assms(3) have k: "cs = takeWhile number_part (ch # r)" "k = Some (Number (concat cs))"
      and s: "lex_step ch st = lex_number st"
      by (auto simp: Let_def lex_step_def blank_def)
    have "advance_while number_part st = skip cs st" by (simp only: advance_while_skip assms(2) k(1))
    then have "lex_number st = after_scan st cs k []"
      using sl by (simp add: lex_number_def k(2) after_scan_push)
    with s show ?thesis by (intro that [of "[]"]) simp_all
  next
    case 6
    have "blank ch = False" "ch \<noteq> newline_str" "ch \<noteq> ''/''" "ch \<noteq> [CHR 0x22]" "\<not> one_byte is_ascii_digit ch"
      using 6 by (auto simp: ident_start_def one_byte_def blank_def newline_str_def ascii_defs split: list.splits)
    with 6 assms(3) have k: "cs = takeWhile ident_part (ch # r)" "k = Some (word_kind (concat cs))"
      and s: "lex_step ch st = lex_ident st"
      by (auto simp: Let_def lex_step_def blank_def)
    have "word_kind t \<noteq> Newline" for t by (simp add: word_kind_def split: option.split)
    moreover have "advance_while ident_part st = skip cs st" by (simp only: advance_while_skip assms(2) k(1))
    ultimately have "lex_ident st = after_scan st cs k []"
      using sl by (simp add: lex_ident_def k(2) after_scan_push word_kind_def [symmetric])
    with s show ?thesis by (intro that [of "[]"]) simp_all
  next
    case 7
    then have s: "lex_step ch st = lex_symbol st"
      using assms(2) by (auto simp: lex_step_def blank_def peek_next_rest hd_opt_def split: list.splits)
    have p: "peek (skip [ch] st) = hd_opt r" by (simp add: peek_rest hd_opt_def assms(2))
    show ?thesis
    proof (cases "symbol_of ch (hd_opt r)")
      case None
      with 7 assms(3) have k: "cs = [ch]" "k = None" by auto
      from None obtain d where "lex_symbol st = push_diagnostic d (skip [ch] st)"
        by (simp add: lex_symbol_def peek_rest [of st] assms(2) adv p Let_def)
      with s k 7 show ?thesis by (intro that [of "[d]"]) (simp_all add: after_scan_none)
    next
      case (Some x)
      obtain smb two where x: "x = (smb, two)" by (cases x)
      with 7 Some assms(3) have k: "cs = (if two then take 2 (ch # r) else [ch])" "k = Some (Symbol smb)"
        by auto
      have tw: "(if two then advance (skip [ch] st) else skip [ch] st) = skip cs st"
        by (simp add: advance_skip assms(2) k take_Suc numeral_2_eq_2 split: list.split)
      have "lex_symbol st = after_scan st cs k []"
        using sl Some x tw
        by (simp add: lex_symbol_def peek_rest [of st] assms(2) adv p k(2) after_scan_push Let_def)
      with s show ?thesis by (intro that [of "[]"]) simp_all
    qed
  qed
qed
section \<open>The main loop\<close>

lemma lex_step_progress:
  assumes "peek st = Some ch"
  shows "length (rest (lex_step ch st)) < length (rest st)"
proof -
  obtain r where r: "rest st = ch # r" using assms by (auto simp: peek_rest split: list.splits)
  have line: "rest (st\<lparr>lx_line := l, lx_column := c\<rparr>) = rest st" for st l c by (simp add: rest_def)
  have adv: "advance st = skip [ch] st" by (simp add: advance_skip r)
  have w: "length (rest (advance_while p st)) < length (rest st)" if "p ch" for p
    using that by (simp add: advance_while_skip r)
  have str: "length (rest (lex_string st)) < length (rest st)"
    by (cases "string_scan r") (simp add: lex_string_def adv string_loop_scan r)
  have nl: "length (rest (newline st)) < length (rest st)"
    by (simp add: newline_def Let_def adv line r)
  have sym: "length (rest (lex_symbol st)) < length (rest st)"
    by (simp add: lex_symbol_def peek_rest [of st] r adv Let_def advance_skip
        split: option.split list.split)
  show ?thesis
    using w [of ident_part] w [of number_part] w [of "\<lambda>c. c \<noteq> newline_str"] str nl sym part_of_start [of ch] r
    by (auto simp: lex_step_def adv line_comment_def lex_ident_def lex_number_def Let_def newline_str_def)
qed

function lex_loop :: "lexer \<Rightarrow> lexer" where
  "lex_loop st = (case peek st of None \<Rightarrow> st | Some ch \<Rightarrow> lex_loop (lex_step ch st))"
  by pat_completeness auto
termination
  by (relation "measure (\<lambda>st. length (rest st))") (auto simp: lex_step_progress)

declare lex_loop.simps [simp del]

definition lex :: "string \<Rightarrow> string \<Rightarrow> lexed" where
  "lex source_name src =
     (let st = lex_loop (new_lexer source_name src) in
      \<lparr>lexed_tokens = lx_tokens st @
         [eof_token (lx_source_name st) (length (lx_source st)) (lx_line st) (lx_column st)],
       lexed_diagnostics = lx_diagnostics st\<rparr>)"

text \<open>The loop in terms of what each turn reads.\<close>

lemma wf_after_scan:
  assumes "wf_lexer st" and "prefix cs (rest st)"
  shows "wf_lexer (after_scan st cs k ds)" and "rest (after_scan st cs k ds) = drop (length cs) (rest st)"
    and "lx_source (after_scan st cs k ds) = lx_source st"
    and "lx_source_name (after_scan st cs k ds) = lx_source_name st"
    and "lx_offset (after_scan st cs k ds) = lx_offset st + length (concat cs)"
    and "lx_line (after_scan st cs k ds) = lx_line st + (if k = Some Newline then 1 else 0)"
    and "lx_tokens (after_scan st cs k ds) = lx_tokens st @ (case k of None \<Rightarrow> [] | Some t \<Rightarrow> [token_at st cs t])"
    and "lx_diagnostics (after_scan st cs k ds) = lx_diagnostics st @ ds"
  using wf_skip [OF assms] by (simp_all add: after_scan_def Let_def wf_lexer_def rest_def add.commute)

lemma lex_loop_step:
  assumes "wf_lexer st" and "rest st = ch # r" and "scan (ch # r) = (cs, k)"
  obtains ds where "lex_loop st = lex_loop (after_scan st cs k ds)" "k \<noteq> None \<or> blank ch \<Longrightarrow> ds = []"
    "prefix cs (ch # r)" "cs \<noteq> []" "wf_lexer (after_scan st cs k ds)" "lex_step ch st = after_scan st cs k ds"
proof -
  obtain ds where ds: "lex_step ch st = after_scan st cs k ds" "k \<noteq> None \<or> blank ch \<Longrightarrow> ds = []"
    by (rule lex_step_scan [OF assms]) blast
  have cs: "prefix cs (ch # r)" "cs \<noteq> []" using scan_takes [of ch r] assms(3) by simp_all
  have "peek st = Some ch" using assms(2) by (simp add: peek_rest)
  then have "lex_loop st = lex_loop (after_scan st cs k ds)" by (simp add: lex_loop.simps [of st] ds(1))
  moreover have "wf_lexer (after_scan st cs k ds)" using wf_after_scan(1) [OF assms(1)] cs(1) assms(2) by simp
  ultimately show ?thesis using ds cs that by blast
qed

lemma lex_loop_induct [consumes 1, case_names finished step]:
  assumes "wf_lexer st"
    and "\<And>st. wf_lexer st \<Longrightarrow> rest st = [] \<Longrightarrow> lex_loop st = st \<Longrightarrow> P st"
    and "\<And>st ch r cs k ds. wf_lexer st \<Longrightarrow> rest st = ch # r \<Longrightarrow> scan (ch # r) = (cs, k) \<Longrightarrow>
           prefix cs (ch # r) \<Longrightarrow> cs \<noteq> [] \<Longrightarrow> (k \<noteq> None \<or> blank ch \<Longrightarrow> ds = []) \<Longrightarrow>
           lex_loop st = lex_loop (after_scan st cs k ds) \<Longrightarrow> P (after_scan st cs k ds) \<Longrightarrow> P st"
  shows "P st"
  using assms(1)
proof (induction st rule: lex_loop.induct)
  case (1 st)
  show ?case
  proof (cases "rest st")
    case Nil
    then show ?thesis using assms(2) 1(2) by (simp add: lex_loop.simps [of st] peek_rest)
  next
    case (Cons ch r)
    obtain cs k where sc: "scan (ch # r) = (cs, k)" by (cases "scan (ch # r)")
    obtain ds where ds: "lex_loop st = lex_loop (after_scan st cs k ds)" "k \<noteq> None \<or> blank ch \<Longrightarrow> ds = []"
      "prefix cs (ch # r)" "cs \<noteq> []" "wf_lexer (after_scan st cs k ds)" "lex_step ch st = after_scan st cs k ds"
      by (rule lex_loop_step [OF 1(2) Cons sc]) blast
    have "peek st = Some ch" using Cons by (simp add: peek_rest)
    with 1(1) ds(5,6) have "P (after_scan st cs k ds)" by simp
    with assms(3) [OF 1(2) Cons sc ds(3,4,2,1)] show ?thesis by blast
  qed
qed

section \<open>Where tokens lie\<close>

fun spans_from :: "string \<Rightarrow> nat \<Rightarrow> token list \<Rightarrow> bool" where
  "spans_from src n [] = True"
| "spans_from src n (t # ts) =
     (n \<le> span_start (span t) \<and> span_start (span t) \<le> span_end (span t) \<and> span_end (span t) \<le> length src
      \<and> lexeme t = take (span_end (span t) - span_start (span t)) (drop (span_start (span t)) src)
      \<and> spans_from src (span_end (span t)) ts)"

fun lines_from :: "nat \<Rightarrow> token list \<Rightarrow> bool" where
  "lines_from n [] = True"
| "lines_from n (t # ts) =
     (span_line (span t) = n \<and> lines_from (if token_kind t = Newline then n + 1 else n) ts)"

fun line_after :: "nat \<Rightarrow> token list \<Rightarrow> nat" where
  "line_after n [] = n"
| "line_after n (t # ts) = line_after (if token_kind t = Newline then n + 1 else n) ts"

lemma spans_from_mono: "spans_from src n ts \<Longrightarrow> m \<le> n \<Longrightarrow> spans_from src m ts"
  by (cases ts) auto

lemma spans_from_append:
  "spans_from src n (ts @ us) \<longleftrightarrow> spans_from src n ts
     \<and> spans_from src (if ts = [] then n else span_end (span (last ts))) us"
  by (induction ts arbitrary: n) auto

lemma lines_from_append: "lines_from n (ts @ us) \<longleftrightarrow> lines_from n ts \<and> lines_from (line_after n ts) us"
  by (induction ts arbitrary: n) auto

lemma spans_from_end: "spans_from src n ts \<Longrightarrow> ts \<noteq> [] \<Longrightarrow> span_end (span (last ts)) \<le> length src"
  by (induction ts arbitrary: n) auto

lemma scan_kind: "scan (ch # r) = (cs, Some k) \<Longrightarrow> k \<noteq> Eof"
  by (auto simp: Let_def word_kind_def split: if_splits option.splits prod.splits)

lemma lex_loop_spans:
  assumes "wf_lexer st"
  shows "\<exists>ts. lx_tokens (lex_loop st) = lx_tokens st @ ts \<and> spans_from (lx_source st) (lx_offset st) ts
    \<and> lines_from (lx_line st) ts \<and> lx_line (lex_loop st) = line_after (lx_line st) ts
    \<and> (\<forall>t \<in> set ts. token_kind t \<noteq> Eof \<and> lexeme t \<noteq> [] \<and> span_source (span t) = lx_source_name st)
    \<and> lx_source (lex_loop st) = lx_source st \<and> lx_source_name (lex_loop st) = lx_source_name st"
  using assms
proof (induction rule: lex_loop_induct)
  case (step st ch r cs k ds)
  have pre: "prefix cs (rest st)" using step(2,4) by simp
  note after = wf_after_scan [OF step(1) pre, of k ds]
  have bound: "lx_offset st + length (concat cs) \<le> length (lx_source st)"
    using after(1) wf_skip [OF step(1) pre] after(3,5)
    by (metis append_take_drop_id concat_append le_add1 length_append wf_lexer_def)
  have lex: "concat cs = take (length (concat cs)) (drop (lx_offset st) (lx_source st))"
    using slice_skip [OF step(1) pre] by (simp add: source_slice_def)
  have "set cs \<subseteq> set (lx_chars st)"
    using set_mono_prefix [OF pre] set_drop_subset [of "lx_index st" "lx_chars st"]
    unfolding rest_def by (rule subset_trans)
  then have ne: "concat cs \<noteq> []" using step(1,5) by (cases cs) (auto simp: wf_lexer_def)
  obtain ts where ts: "lx_tokens (lex_loop st) = lx_tokens (after_scan st cs k ds) @ ts"
    "spans_from (lx_source st) (lx_offset st + length (concat cs)) ts"
    "lines_from (lx_line st + (if k = Some Newline then 1 else 0)) ts"
    "lx_line (lex_loop st) = line_after (lx_line st + (if k = Some Newline then 1 else 0)) ts"
    "\<forall>t \<in> set ts. token_kind t \<noteq> Eof \<and> lexeme t \<noteq> [] \<and> span_source (span t) = lx_source_name st"
    "lx_source (lex_loop st) = lx_source st" "lx_source_name (lex_loop st) = lx_source_name st"
    using step(8) step(7) after by auto
  show ?case
  proof (cases k)
    case None
    then show ?thesis
      using ts after(7) by (intro exI [of _ ts]) (auto intro: spans_from_mono)
  next
    case (Some t)
    then have "token_at st cs t # ts = [token_at st cs t] @ ts" by simp
    show ?thesis
      using ts after(7) Some bound lex ne scan_kind [of ch r cs t] step(3)
      by (intro exI [of _ "token_at st cs t # ts"]) (auto simp: token_at_def new_span_def)
  qed
qed (intro exI [of _ "[]"], simp)
lemma wf_new_lexer: "wf_lexer (new_lexer name src)"
  using chars_nonempty [of "[]" src] by (auto simp: wf_lexer_def new_lexer_def)

text \<open>C15: the tokens of a file lie one after the other in its text: each lexeme is the text between
  its offsets, none overlaps the one before it, a token is on the line after as many newline
  tokens as there are before it, and the list ends with the only end-of-file token, at the
  length of the text.\<close>

theorem lex_token_positions:
  "\<exists>ts ln col. lexed_tokens (lex name src) = ts @ [eof_token name (length src) ln col]
     \<and> spans_from src 0 (ts @ [eof_token name (length src) ln col])
     \<and> lines_from 1 (ts @ [eof_token name (length src) ln col])
     \<and> (\<forall>t \<in> set ts. token_kind t \<noteq> Eof \<and> lexeme t \<noteq> [] \<and> span_source (span t) = name)"
proof -
  obtain ts where ts: "lx_tokens (lex_loop (new_lexer name src)) = ts" "spans_from src 0 ts" "lines_from 1 ts"
    "lx_line (lex_loop (new_lexer name src)) = line_after 1 ts"
    "\<forall>t \<in> set ts. token_kind t \<noteq> Eof \<and> lexeme t \<noteq> [] \<and> span_source (span t) = name"
    "lx_source (lex_loop (new_lexer name src)) = src" "lx_source_name (lex_loop (new_lexer name src)) = name"
    using lex_loop_spans [OF wf_new_lexer [of name src]] by (auto simp: new_lexer_def)
  have "span_end (span (last ts)) \<le> length src" if "ts \<noteq> []" using spans_from_end ts(2) that by blast
  then have "spans_from src 0 (ts @ [eof_token name (length src) ln col])" for ln col
    using ts(2) by (auto simp: spans_from_append eof_token_def new_span_def)
  then show ?thesis
    using ts by (auto simp: lex_def Let_def lines_from_append eof_token_def new_span_def)
qed

theorem lex_token_positions_witness:
  "spans_from ''let x = 1'' 0 (lexed_tokens (lex ''a.num'' ''let x = 1''))
     \<and> lines_from 1 (lexed_tokens (lex ''a.num'' ''let x = 1''))"
  using lex_token_positions [of "''a.num''" "''let x = 1''"] by force

section \<open>Reading what was printed\<close>

fun symbol_text :: "symbol \<Rightarrow> string" where
  "symbol_text Arrow = ''->''" | "symbol_text FatArrow = ''=>''" | "symbol_text Colon = '':''"
| "symbol_text Comma = '',''" | "symbol_text Dot = ''.''" | "symbol_text Eq = ''=''"
| "symbol_text EqEq = ''==''" | "symbol_text BangEq = ''!=''" | "symbol_text LBrace = ''{''"
| "symbol_text RBrace = ''}''" | "symbol_text LParen = ''(''" | "symbol_text RParen = '')''"
| "symbol_text Lt = ''<''" | "symbol_text LtEq = ''<=''" | "symbol_text Gt = ''>''"
| "symbol_text GtEq = ''>=''" | "symbol_text Pipe = ''|''" | "symbol_text PipePipe = ''||''"
| "symbol_text AmpAmp = ''&&''" | "symbol_text Plus = ''+''" | "symbol_text Minus = ''-''"
| "symbol_text Star = ''*''" | "symbol_text Slash = ''/''" | "symbol_text Question = ''?''"

fun token_chars :: "token_kind \<Rightarrow> string list" where
  "token_chars (Ident s) = singles s"
| "token_chars (Number s) = singles s"
| "token_chars (String s) = [CHR 0x22] # escape_literal (chars s) @ [[CHR 0x22]]"
| "token_chars (Keyword kw) = singles (keyword_text kw)"
| "token_chars (Symbol smb) = singles (symbol_text smb)"
| "token_chars Newline = [newline_str]"
| "token_chars Eof = []"

definition print_tokens :: "token_kind list \<Rightarrow> string" where
  "print_tokens ks = concat (map (\<lambda>k. concat (token_chars k) @ '' '') ks)"

text \<open>The tokens that have a text: identifiers and numbers of the right shape, and literals of
  whole UTF-8 characters.\<close>

fun printable :: "token_kind \<Rightarrow> bool" where
  "printable (Ident s) =
     (s \<noteq> [] \<and> ident_start [hd s] \<and> list_all (\<lambda>c. ident_part [c]) s \<and> keyword s = None)"
| "printable (Number s) = (s \<noteq> [] \<and> is_ascii_digit (hd s) \<and> list_all (\<lambda>c. number_part [c]) s)"
| "printable (String s) = list_all utf8_char (chars s)"
| "printable Eof = False"
| "printable _ = True"

lemma ident_part_ascii: "ident_part [c] \<Longrightarrow> is_ascii c" "number_part [c] \<Longrightarrow> is_ascii c"
  by (auto simp: ident_part_def number_part_def one_byte_def ascii_defs)

lemma keyword_texts:
  "list_all (\<lambda>(txt, kw). keyword txt = Some kw \<and> txt \<noteq> [] \<and> ident_start [hd txt]
     \<and> list_all (\<lambda>c. ident_part [c]) txt) keyword_table"
  by code_simp

lemma keyword_text_entry: "(keyword_text kw, kw) \<in> set keyword_table"
proof -
  have "list_ex (\<lambda>(_, k). k = kw) keyword_table" by (cases kw; hypsubst; code_simp)
  then have "filter (\<lambda>(_, k). k = kw) keyword_table \<noteq> []" by (auto simp: filter_empty_conv list_ex_iff)
  then have "hd (filter (\<lambda>(_, k). k = kw) keyword_table) \<in> set (filter (\<lambda>(_, k). k = kw) keyword_table)"
    by (rule hd_in_set)
  then show ?thesis by (auto simp: keyword_text_def)
qed

lemma keyword_text_laws:
  "keyword (keyword_text kw) = Some kw" "keyword_text kw \<noteq> []" "ident_start [hd (keyword_text kw)]"
  "list_all (\<lambda>c. ident_part [c]) (keyword_text kw)"
  using keyword_texts keyword_text_entry [of kw] by (auto simp: list_all_iff)

lemma token_chars_utf8: "printable k \<Longrightarrow> list_all utf8_char (token_chars k)"
proof (cases k)
  case (Symbol smb)
  have "list_all is_ascii (symbol_text smb)" by (cases smb) (simp_all add: is_ascii_def byte_def)
  then show ?thesis using Symbol by (auto simp: list_all_iff singles_def intro: utf8_ascii)
next
  case (Keyword kw)
  then show ?thesis
    using keyword_text_laws(4) [of kw]
    by (auto simp: list_all_iff singles_def intro!: utf8_ascii dest: ident_part_ascii)
qed (auto simp: list_all_iff singles_def newline_str_def is_ascii_def byte_def escape_literal_utf8 [unfolded list_all_iff]
    intro!: utf8_ascii dest: ident_part_ascii)

lemma chars_print_tokens:
  "list_all printable ks \<Longrightarrow>
     chars (print_tokens ks) = concat (map (\<lambda>k. token_chars k @ ['' '']) ks)"
proof -
  assume "list_all printable ks"
  then have "list_all utf8_char (concat (map (\<lambda>k. token_chars k @ ['' '']) ks))"
    by (induction ks) (auto simp: token_chars_utf8 utf8_ascii is_ascii_def byte_def)
  moreover have "print_tokens ks = concat (concat (map (\<lambda>k. token_chars k @ ['' '']) ks))"
    by (induction ks) (simp_all add: print_tokens_def)
  ultimately show ?thesis by (simp only: chars_concat)
qed

lemma string_scan_escape:
  "[] \<notin> set xs \<Longrightarrow> string_scan (escape_literal xs @ [CHR 0x22] # m)
     = (concat xs, True, escape_literal xs @ [[CHR 0x22]])"
  by (induction xs) (auto simp: escape_literal_def unescape_def)

lemma start_excludes:
  "ident_start ch \<Longrightarrow> \<not> blank ch \<and> ch \<noteq> newline_str \<and> ch \<noteq> ''/'' \<and> ch \<noteq> [CHR 0x22] \<and> \<not> one_byte is_ascii_digit ch"
  "one_byte is_ascii_digit ch \<Longrightarrow> \<not> blank ch \<and> ch \<noteq> newline_str \<and> ch \<noteq> ''/'' \<and> ch \<noteq> [CHR 0x22]"
  by (auto simp: ident_start_def one_byte_def blank_def newline_str_def ascii_defs split: list.splits)

lemma scan_word:
  assumes "s \<noteq> []" and "ident_start [hd s]" and "list_all (\<lambda>c. ident_part [c]) s"
  shows "scan (singles s @ '' '' # m) = (singles s, Some (word_kind s))"
proof -
  obtain c t where s: "s = c # t" using assms(1) by (cases s) auto
  have "\<not> ident_part '' ''" by (simp add: ident_part_def one_byte_def ascii_defs)
  from takeWhile_singles [of ident_part, OF assms(3) this, of m]
  show ?thesis using start_excludes(1) [OF assms(2)] assms(2) s by (simp add: singles_def)
qed

lemma scan_print:
  assumes "printable k"
  shows "scan (token_chars k @ '' '' # m) = (token_chars k, Some k)"
proof (cases k)
  case (Ident s)
  then show ?thesis using assms scan_word [of s m] by (simp add: word_kind_def)
next
  case (Keyword kw)
  then show ?thesis using scan_word [OF keyword_text_laws(2-4), of kw m] by (simp add: word_kind_def keyword_text_laws)
next
  case (Number s)
  then obtain c t where s: "s = c # t" "is_ascii_digit c" using assms by (cases s) auto
  have d: "one_byte is_ascii_digit [c]" using s(2) by (simp add: one_byte_def)
  have "\<not> number_part '' ''" by (simp add: number_part_def one_byte_def ascii_defs)
  from takeWhile_singles [of number_part s, OF _ this, of m] show ?thesis
    using assms Number start_excludes(2) [OF d] d s by (simp add: singles_def)
next
  case (String s)
  have "[] \<notin> set (chars s)" using chars_nonempty by blast
  from string_scan_escape [OF this] show ?thesis
    using String by (simp add: blank_def newline_str_def)
next
  case (Symbol smb)
  then show ?thesis
    by (cases smb) (simp_all add: singles_def blank_def newline_str_def one_byte_def ident_start_def
        ascii_defs hd_opt_def symbol_of_def)
next
  case Newline
  then show ?thesis by (simp add: blank_def newline_str_def)
qed (use assms in simp)
lemma lex_loop_print:
  "wf_lexer st \<Longrightarrow> rest st = concat (map (\<lambda>k. token_chars k @ ['' '']) ks) \<Longrightarrow> list_all printable ks \<Longrightarrow>
     map token_kind (lx_tokens (lex_loop st)) = map token_kind (lx_tokens st) @ ks
     \<and> lx_diagnostics (lex_loop st) = lx_diagnostics st"
proof (induction ks arbitrary: st)
  case Nil
  then show ?case by (simp add: lex_loop.simps [of st] peek_rest)
next
  case (Cons k ks)
  let ?m = "concat (map (\<lambda>k. token_chars k @ ['' '']) ks)"
  have k: "printable k" "list_all printable ks" using Cons.prems(3) by simp_all
  then have sc: "scan (token_chars k @ '' '' # ?m) = (token_chars k, Some k)" by (intro scan_print)
  then have "token_chars k \<noteq> []" using scan_takes by (cases "token_chars k") (auto simp: blank_def)
  then obtain c cs where c: "token_chars k = c # cs" by (cases "token_chars k") auto
  have r: "rest st = c # cs @ '' '' # ?m" using Cons.prems(2) c by simp
  have sc': "scan (c # cs @ '' '' # ?m) = (token_chars k, Some k)" using sc c by simp
  obtain ds where ds: "lex_loop st = lex_loop (after_scan st (token_chars k) (Some k) ds)"
    "wf_lexer (after_scan st (token_chars k) (Some k) ds)" "ds = []"
    by (rule lex_loop_step [OF Cons.prems(1) r sc']) simp
  let ?st1 = "after_scan st (token_chars k) (Some k) []"
  have pre: "prefix (token_chars k) (rest st)" using r c by simp
  note a1 = wf_after_scan [OF Cons.prems(1) pre, of "Some k" "[]"]
  have r1: "rest ?st1 = '' '' # ?m" using a1(2) r c by simp
  have "scan ('' '' # ?m) = (['' ''], None)" by (simp add: blank_def)
  then obtain ds' where ds': "lex_loop ?st1 = lex_loop (after_scan ?st1 ['' ''] None ds')"
    "wf_lexer (after_scan ?st1 ['' ''] None ds')" "ds' = []"
    by (rule lex_loop_step [OF a1(1) r1]) (simp add: blank_def)
  have "prefix ['' ''] (rest ?st1)" using r1 by simp
  note a2 = wf_after_scan [OF a1(1) this, of None "[]"]
  have "rest (after_scan ?st1 ['' ''] None []) = ?m" using a2(2) r1 by simp
  from Cons.IH [OF a2(1) this k(2)] show ?case
    using ds ds' a1(7,8) a2(7,8) by (simp add: token_at_def)
qed

text \<open>C14: the lexer reads back what is printed: any tokens that have a text, printed with a blank
  after each and string literals escaped, are the tokens it finds, with no diagnostic.\<close>

theorem lex_reads_printed:
  assumes "list_all printable ks"
  shows "map token_kind (lexed_tokens (lex name (print_tokens ks))) = ks @ [Eof]
    \<and> lexed_diagnostics (lex name (print_tokens ks)) = []"
proof -
  have "rest (new_lexer name (print_tokens ks)) = concat (map (\<lambda>k. token_chars k @ ['' '']) ks)"
    using chars_print_tokens [OF assms] by (simp add: rest_def new_lexer_def)
  from lex_loop_print [OF wf_new_lexer this assms] show ?thesis
    by (simp add: lex_def Let_def eof_token_def) (simp add: new_lexer_def)
qed

theorem lex_reads_printed_witness:
  "map token_kind (lexed_tokens (lex ''a.num'' (print_tokens [Keyword Kw_Let, Ident ''x-1'', Symbol Eq, String ''a\"b''])))
     = [Keyword Kw_Let, Ident ''x-1'', Symbol Eq, String ''a\"b'', Eof]"
proof -
  have "list_all printable [Keyword Kw_Let, Ident ''x-1'', Symbol Eq, String ''a\"b'']" by code_simp
  from lex_reads_printed [OF this, of "''a.num''"] show ?thesis by simp
qed

end
