(* ===== verification/Float_Bits.thy ===== *)
theory Float_Bits
  imports Rust_Strings
begin

text \<open>
  What the runtime does with \<open>f64\<close> outside arithmetic, on the 64 bits of the IEEE 754 binary
  format: the cast \<open>as f64\<close> of an integer (to nearest, ties to even), the comparison with the
  range \<open>0.0..=1.0\<close>, finiteness, and printing with two decimals.
\<close>

type_synonym f64 = "64 word"

definition f64_negative :: "f64 \<Rightarrow> bool" where "f64_negative w = bit w 63"

definition f64_exponent :: "f64 \<Rightarrow> nat" where "f64_exponent w = unat w div 2 ^ 52 mod 2 ^ 11"

definition f64_fraction :: "f64 \<Rightarrow> nat" where "f64_fraction w = unat w mod 2 ^ 52"

definition f64_finite :: "f64 \<Rightarrow> bool" where "f64_finite w \<longleftrightarrow> f64_exponent w \<noteq> 2047"

text \<open>The division that rounds to the nearest integer and breaks ties toward the even one.\<close>

definition div_half_even :: "nat \<Rightarrow> nat \<Rightarrow> nat" where
  "div_half_even n d =
     (let q = n div d; r = n mod d
      in if d < 2 * r \<or> (2 * r = d \<and> odd q) then q + 1 else q)"

fun log2_nat :: "nat \<Rightarrow> nat" where
  "log2_nat n = (if n < 2 then 0 else Suc (log2_nat (n div 2)))"

declare log2_nat.simps [simp del]

definition f64_bits_of_nat :: "nat \<Rightarrow> nat" where
  "f64_bits_of_nat n =
     (let e = log2_nat n in
      if n = 0 then 0
      else (e + 1022) * 2 ^ 52 + (if e \<le> 52 then n * 2 ^ (52 - e) else div_half_even n (2 ^ (e - 52))))"

definition f64_of_int :: "int \<Rightarrow> f64" where
  "f64_of_int i = of_nat (f64_bits_of_nat (nat \<bar>i\<bar>) + (if i < 0 then 2 ^ 63 else 0))"

text \<open>\<open>(0.0..=1.0).contains(&w)\<close>: bit patterns up to that of 1.0, and that of -0.0.\<close>

definition f64_in_unit :: "f64 \<Rightarrow> bool" where
  "f64_in_unit w \<longleftrightarrow> unat w \<le> 0x3FF0000000000000 \<or> unat w = 0x8000000000000000"

text \<open>\<open>{:.2}\<close>.\<close>

definition f64_hundredths :: "f64 \<Rightarrow> nat" where
  "f64_hundredths w =
     (let ex = f64_exponent w;
          m = f64_fraction w + (if ex = 0 then 0 else 2 ^ 52);
          e = (if ex = 0 then 1 else ex)
      in if 1075 \<le> e then 100 * m * 2 ^ (e - 1075) else div_half_even (100 * m) (2 ^ (1075 - e)))"

definition show_f64_2 :: "f64 \<Rightarrow> string" where
  "show_f64_2 w =
     (if f64_finite w
      then (if f64_negative w then ''-'' else []) @ show_nat (f64_hundredths w div 100) @ ''.''
             @ show_nat_pad 2 (f64_hundredths w mod 100)
      else if f64_fraction w = 0 then (if f64_negative w then ''-inf'' else ''inf'')
      else ''NaN'')"

text \<open>
  \<open>to_string\<close>: the shortest decimal digits that lie in the rounding interval of the number, the
  closest to it where there are two, written without an exponent. The number is \<open>x / d\<close>, the
  interval goes from \<open>lo / d\<close> to \<open>hi / d\<close> and has its ends when the mantissa is even.
\<close>

definition ratio_pow10 :: "int \<Rightarrow> nat \<times> nat" where
  "ratio_pow10 p = (if 0 \<le> p then (10 ^ nat p, 1) else (1, 10 ^ nat (- p)))"

definition f64_interval :: "f64 \<Rightarrow> nat \<times> nat \<times> nat \<times> nat \<times> bool" where
  "f64_interval w =
     (let ex = f64_exponent w;
          m = f64_fraction w + (if ex = 0 then 0 else 2 ^ 52);
          e = (if ex = 0 then 1 else ex);
          up = 2 ^ (e - 1077); d = 2 ^ (1077 - e)
      in (4 * m * up, (4 * m - (if f64_fraction w = 0 \<and> 1 < ex then 1 else 2)) * up, (4 * m + 2) * up, d, even m))"

text \<open>The candidate with \<open>k\<close> digits, the first of which stands for \<open>10 ^ p\<close>.\<close>

definition digits_candidate :: "nat \<times> nat \<times> nat \<times> nat \<times> bool \<Rightarrow> int \<Rightarrow> nat \<Rightarrow> nat option" where
  "digits_candidate = (\<lambda>(x, lo, hi, d, closed) p k.
     let (un, ud) = ratio_pow10 (p - int k + 1);
         fits = (\<lambda>n. let v = n * un * d in
                  if closed then lo * ud \<le> v \<and> v \<le> hi * ud else lo * ud < v \<and> v < hi * ud);
         n0 = x * ud div (un * d)
     in if fits n0 \<and> (\<not> fits (n0 + 1) \<or> 2 * (x * ud) \<le> (2 * n0 + 1) * (un * d)) then Some n0
        else if fits (n0 + 1) then Some (n0 + 1)
        else None)"

definition first_power :: "nat \<Rightarrow> nat \<Rightarrow> int" where
  "first_power x d =
     (case find (\<lambda>p. x * snd (ratio_pow10 (p + 1)) < d * fst (ratio_pow10 (p + 1))) [-325..309] of
        None \<Rightarrow> 309 | Some p \<Rightarrow> p)"

definition shortest_digits :: "f64 \<Rightarrow> nat \<times> int" where
  "shortest_digits w =
     (let iv = f64_interval w; p = first_power (fst iv) (fst (snd (snd (snd iv)))) in
      case find (\<lambda>k. digits_candidate iv p k \<noteq> None) [1..<18] of
        Some k \<Rightarrow>
          let n = unwrap_or 0 (digits_candidate iv p k)
          in if n = 10 ^ k then (1, p + 1) else (n, p - int k + 1)
      | None \<Rightarrow> (0, 0))"

definition positional :: "nat \<Rightarrow> int \<Rightarrow> string" where
  "positional n q =
     (let ds = show_nat n in
      if 0 \<le> q then ds @ replicate (nat q) (CHR ''0'')
      else let f = nat (- q) in
        if length ds \<le> f then ''0.'' @ replicate (f - length ds) (CHR ''0'') @ ds
        else take (length ds - f) ds @ ''.'' @ drop (length ds - f) ds)"

definition show_f64 :: "f64 \<Rightarrow> string" where
  "show_f64 w =
     (if f64_finite w
      then (if f64_negative w then ''-'' else [])
           @ (if f64_exponent w = 0 \<and> f64_fraction w = 0 then ''0'' else case_prod positional (shortest_digits w))
      else if f64_fraction w = 0 then (if f64_negative w then ''-inf'' else ''inf'')
      else ''NaN'')"

lemma log2_nat_bounds: "0 < n \<Longrightarrow> 2 ^ log2_nat n \<le> n \<and> n < 2 ^ Suc (log2_nat n)"
proof (induction n rule: log2_nat.induct)
  case (1 n)
  then show ?case by (cases "n < 2") (auto simp: log2_nat.simps [of n])
qed

end
