(* ===== verification/Expr.thy ===== *)
theory Expr
  imports Float_Bits
begin

text \<open>
  \<open>num-compiler/src/expr.rs\<close>: the expressions of the language with the questions the analysis
  asks of them, the lexer of expression texts and the parser by recursive descent. The state of
  the parser, its tokens and an index into them, is the list of the tokens from the index on: the
  index never goes back. The depth of the stack is not modelled.
\<close>

section \<open>Expressions\<close>

datatype binary_op =
    Op_Or | Op_And | Op_Equal | Op_NotEqual | Op_LessThan | Op_LessThanOrEqual | Op_GreaterThan
  | Op_GreaterThanOrEqual | Op_Add | Op_Subtract | Op_Multiply | Op_Divide

fun op_str :: "binary_op \<Rightarrow> string" where
  "op_str Op_Or = ''||''"
| "op_str Op_And = ''&&''"
| "op_str Op_Equal = ''==''"
| "op_str Op_NotEqual = ''!=''"
| "op_str Op_LessThan = ''<''"
| "op_str Op_LessThanOrEqual = ''<=''"
| "op_str Op_GreaterThan = ''>''"
| "op_str Op_GreaterThanOrEqual = ''>=''"
| "op_str Op_Add = ''+''"
| "op_str Op_Subtract = ''-''"
| "op_str Op_Multiply = ''*''"
| "op_str Op_Divide = ''/''"

text \<open>The struct \<open>ObjectField\<close> is the pair of its name and its value.\<close>

datatype expr =
    EIdent string
  | EString string
  | EBool bool
  | EInt int
  | EFloat f64
  | EObject "(string \<times> expr) list"
  | EMember expr string
  | ECall expr "expr list"
  | ETry expr
  | EBinary expr binary_op expr
  | EQuantity string string
  | EAsync expr
  | EAwait expr

lemma field_size [termination_simp]:
  "f \<in> set fs \<Longrightarrow> size (snd f) < Suc (size_list (size_prod (\<lambda>_. 0) size) fs)"
proof (induction fs)
  case (Cons g gs)
  then show ?case by (cases g) auto
qed simp

fun contains_ident :: "string \<Rightarrow> expr \<Rightarrow> bool" where
  "contains_ident name (EIdent candidate) \<longleftrightarrow> candidate = name"
| "contains_ident name (EObject fs) \<longleftrightarrow> list_ex (\<lambda>f. contains_ident name (snd f)) fs"
| "contains_ident name (EMember obj _) \<longleftrightarrow> contains_ident name obj"
| "contains_ident name (ECall callee args) \<longleftrightarrow>
     contains_ident name callee \<or> list_ex (contains_ident name) args"
| "contains_ident name (ETry inner) \<longleftrightarrow> contains_ident name inner"
| "contains_ident name (EAsync inner) \<longleftrightarrow> contains_ident name inner"
| "contains_ident name (EAwait inner) \<longleftrightarrow> contains_ident name inner"
| "contains_ident name (EBinary l _ r) \<longleftrightarrow> contains_ident name l \<or> contains_ident name r"
| "contains_ident name _ \<longleftrightarrow> False"

fun contains_member_field :: "string \<Rightarrow> expr \<Rightarrow> bool" where
  "contains_member_field fld (EObject fs) \<longleftrightarrow> list_ex (\<lambda>f. contains_member_field fld (snd f)) fs"
| "contains_member_field fld (EMember obj f) \<longleftrightarrow> f = fld \<or> contains_member_field fld obj"
| "contains_member_field fld (ECall callee args) \<longleftrightarrow>
     contains_member_field fld callee \<or> list_ex (contains_member_field fld) args"
| "contains_member_field fld (ETry inner) \<longleftrightarrow> contains_member_field fld inner"
| "contains_member_field fld (EAsync inner) \<longleftrightarrow> contains_member_field fld inner"
| "contains_member_field fld (EAwait inner) \<longleftrightarrow> contains_member_field fld inner"
| "contains_member_field fld (EBinary l _ r) \<longleftrightarrow>
     contains_member_field fld l \<or> contains_member_field fld r"
| "contains_member_field fld _ \<longleftrightarrow> False"

fun expr_path :: "expr \<Rightarrow> string list option" where
  "expr_path (EIdent name) = Some [name]"
| "expr_path (EMember obj fld) = map_option (\<lambda>p. p @ [fld]) (expr_path obj)"
| "expr_path _ = None"

fun contains_call_path :: "string list \<Rightarrow> expr \<Rightarrow> bool" where
  "contains_call_path expected (ECall callee args) \<longleftrightarrow>
     expr_path callee = Some expected \<or> contains_call_path expected callee
       \<or> list_ex (contains_call_path expected) args"
| "contains_call_path expected (EMember obj _) \<longleftrightarrow> contains_call_path expected obj"
| "contains_call_path expected (ETry inner) \<longleftrightarrow> contains_call_path expected inner"
| "contains_call_path expected (EAsync inner) \<longleftrightarrow> contains_call_path expected inner"
| "contains_call_path expected (EAwait inner) \<longleftrightarrow> contains_call_path expected inner"
| "contains_call_path expected (EBinary l _ r) \<longleftrightarrow>
     contains_call_path expected l \<or> contains_call_path expected r"
| "contains_call_path expected (EObject fs) \<longleftrightarrow> list_ex (\<lambda>f. contains_call_path expected (snd f)) fs"
| "contains_call_path expected _ \<longleftrightarrow> False"

fun direct_call_name :: "expr \<Rightarrow> string option" where
  "direct_call_name (ECall (EIdent name) _) = Some name"
| "direct_call_name _ = None"

record call_ref =
  call_path :: "string list"
  call_args :: "expr list"

text \<open>\<open>collect_calls\<close> pushes onto a vector; \<open>calls\<close> is what it pushes, in order.\<close>

fun calls :: "expr \<Rightarrow> call_ref list" where
  "calls (ECall callee args) =
     (case expr_path callee of Some p \<Rightarrow> [\<lparr>call_path = p, call_args = args\<rparr>] | None \<Rightarrow> [])
     @ calls callee @ concat (map calls args)"
| "calls (EMember obj _) = calls obj"
| "calls (ETry inner) = calls inner"
| "calls (EAsync inner) = calls inner"
| "calls (EAwait inner) = calls inner"
| "calls (EBinary l _ r) = calls l @ calls r"
| "calls (EObject fs) = concat (map (\<lambda>f. calls (snd f)) fs)"
| "calls _ = []"

section \<open>The lexer of expressions\<close>

datatype etok =
    TIdent string
  | TString string
  | TNumber string
  | TDot | TComma | TColon | TLBrace | TRBrace | TLParen | TRParen
  | TOrOr | TAndAnd | TEqEq | TBangEq | TLt | TLtEq | TGt | TGtEq
  | TPlus | TMinus | TStar | TSlash | TQuestion
  | TInvalid string
  | TEof

definition single_tokens :: "(string \<times> etok) list" where
  "single_tokens =
     [(''.'', TDot), ('','', TComma), ('':'', TColon), (''{'', TLBrace), (''}'', TRBrace),
      (''('', TLParen), ('')'', TRParen), (''+'', TPlus), (''-'', TMinus), (''*'', TStar),
      (''/'', TSlash), (''?'', TQuestion)]"

text \<open>A first character with the second one that completes it, the token of both and the
  token of the first character alone.\<close>

definition pair_tokens :: "(string \<times> string \<times> etok \<times> etok) list" where
  "pair_tokens =
     [(''|'', ''|'', TOrOr, TInvalid ''|''), (''&'', ''&'', TAndAnd, TInvalid ''&''),
      (''='', ''='', TEqEq, TInvalid ''=''), (''!'', ''='', TBangEq, TInvalid ''!''),
      (''<'', ''='', TLtEq, TLt), (''>'', ''='', TGtEq, TGt)]"

text \<open>The loop of a string literal: an escaped character stands for itself.\<close>

fun string_rest :: "bool \<Rightarrow> string \<Rightarrow> string list \<Rightarrow> string \<times> string list" where
  "string_rest escaped val [] = (val, [])"
| "string_rest escaped val (ch # rest) =
     (if escaped then string_rest False (val @ ch) rest
      else if ch = [CHR 0x5C] then string_rest True val rest
      else if ch = [CHR 0x22] then (val, rest)
      else string_rest False (val @ ch) rest)"

definition number_char :: "string \<Rightarrow> bool" where
  "number_char = one_byte (\<lambda>c. is_ascii_digit c \<or> c = CHR ''.'')"

definition ident_char :: "string \<Rightarrow> bool" where
  "ident_char = one_byte (\<lambda>c. is_ascii_alphanumeric c \<or> c = CHR ''_'')"

definition ident_first :: "string \<Rightarrow> bool" where
  "ident_first = one_byte (\<lambda>c. is_ascii_alphabetic c \<or> c = CHR ''_'')"

lemma string_rest_length: "length (snd (string_rest escaped val cs)) \<le> length cs"
proof (induction escaped val cs rule: string_rest.induct)
  case (2 escaped val ch rest)
  then show ?case by (cases escaped) (auto intro: le_SucI)
qed simp

lemma string_rest_shorter [termination_simp]:
  "(val, rest') = string_rest escaped v rest \<Longrightarrow> length rest' < Suc (length rest)"
  using string_rest_length [of escaped v rest] by (metis le_imp_less_Suc snd_conv)

function lex_chars :: "string list \<Rightarrow> etok list" where
  "lex_chars [] = [TEof]"
| "lex_chars (ch # rest) =
     (if is_whitespace ch then lex_chars rest
      else case map_of single_tokens ch of
        Some t \<Rightarrow> t # lex_chars rest
      | None \<Rightarrow>
       (case map_of pair_tokens ch of
          Some (second, both, alone) \<Rightarrow>
            if rest \<noteq> [] \<and> hd rest = second then both # lex_chars (tl rest)
            else alone # lex_chars rest
        | None \<Rightarrow>
            if ch = [CHR 0x22] then
              (case string_rest False [] rest of (val, rest') \<Rightarrow> TString val # lex_chars rest')
            else if one_byte is_ascii_digit ch then
              TNumber (ch @ concat (takeWhile number_char rest)) # lex_chars (dropWhile number_char rest)
            else if ident_first ch then
              TIdent (ch @ concat (takeWhile ident_char rest)) # lex_chars (dropWhile ident_char rest)
            else TInvalid ch # lex_chars rest))"
  by pat_completeness auto
termination
  by (relation "measure length")
    (auto simp: less_Suc_eq_le length_dropWhile_le intro: string_rest_shorter [unfolded less_Suc_eq_le])

declare lex_chars.simps [simp del]

definition lex_expr :: "string \<Rightarrow> etok list" where
  "lex_expr txt = lex_chars (chars txt)"

section \<open>Literals\<close>

text \<open>
  \<open>str::parse::<f64>\<close> on a text of digits and points: at most one point, and the closest double,
  ties to the even one, infinity from the middle between the largest double and \<open>2 ^ 1024\<close> on.
\<close>

definition f64_bits_of_ratio :: "nat \<Rightarrow> nat \<Rightarrow> nat" where
  "f64_bits_of_ratio n d =
     (if n = 0 then 0 else
      let e0 = int (log2_nat n) - int (log2_nat d);
          below = (if 0 \<le> e0 then n < d * 2 ^ nat e0 else n * 2 ^ nat (- e0) < d);
          e = max (-1022) (if below then e0 - 1 else e0);
          m = (if e \<le> 52 then div_half_even (n * 2 ^ nat (52 - e)) d
               else div_half_even n (d * 2 ^ nat (e - 52)))
      in min (2047 * 2 ^ 52) (nat (e + 1022) * 2 ^ 52 + m))"

definition parse_f64_digits :: "string \<Rightarrow> f64 option" where
  "parse_f64_digits txt =
     (case split_on (CHR ''.'') txt of
        [a] \<Rightarrow> map_option (\<lambda>n. of_nat (f64_bits_of_ratio n 1)) (parse_digits a)
      | [a, b] \<Rightarrow> map_option (\<lambda>n. of_nat (f64_bits_of_ratio n (10 ^ length b))) (parse_digits (a @ b))
      | _ \<Rightarrow> None)"

type_synonym parsed = "string + expr \<times> etok list"

text \<open>The arm of \<open>primary\<close> for a number: a quantity when a unit follows, else a number.\<close>

definition number_literal :: "string \<Rightarrow> etok list \<Rightarrow> parsed" where
  "number_literal val ts =
     (case ts of
        TIdent unit # TSlash # TIdent next_unit # rest \<Rightarrow>
          Ok (EQuantity val (unit @ ''/'' @ next_unit), rest)
      | TIdent unit # rest \<Rightarrow> Ok (EQuantity val unit, rest)
      | _ \<Rightarrow>
          if CHR ''.'' \<in> set val then
            res_map (\<lambda>f. (EFloat f, ts)) (ok_or ''invalid float literal'' (parse_f64_digits val))
          else
            res_map (\<lambda>i. (EInt i, ts))
              (ok_or ''invalid integer literal'' (parse_signed i64_min i64_max val)))"


section \<open>The parser\<close>

text \<open>
  One function per method and one per loop, on the tokens that are left. A loop goes on with
  \<open>upto ts rest\<close>: the rest a call has left, which is never longer than what the call was given
  (\<open>upto_or\<close> and its companions below), so \<open>upto\<close> only serves the termination proof.
\<close>

definition upto :: "'a list \<Rightarrow> 'a list \<Rightarrow> 'a list" where
  "upto ts rest = (if length rest \<le> length ts then rest else [])"

lemma length_upto: "length (upto ts rest) \<le> length ts"
  by (simp add: upto_def)

lemma upto_same [simp]: "length rest \<le> length ts \<Longrightarrow> upto ts rest = rest"
  by (simp add: upto_def)

fun equality_op :: "etok \<Rightarrow> binary_op option" where
  "equality_op TEqEq = Some Op_Equal"
| "equality_op TBangEq = Some Op_NotEqual"
| "equality_op _ = None"

fun comparison_op :: "etok \<Rightarrow> binary_op option" where
  "comparison_op TLt = Some Op_LessThan"
| "comparison_op TLtEq = Some Op_LessThanOrEqual"
| "comparison_op TGt = Some Op_GreaterThan"
| "comparison_op TGtEq = Some Op_GreaterThanOrEqual"
| "comparison_op _ = None"

fun additive_op :: "etok \<Rightarrow> binary_op option" where
  "additive_op TPlus = Some Op_Add"
| "additive_op TMinus = Some Op_Subtract"
| "additive_op _ = None"

fun multiplicative_op :: "etok \<Rightarrow> binary_op option" where
  "multiplicative_op TStar = Some Op_Multiply"
| "multiplicative_op TSlash = Some Op_Divide"
| "multiplicative_op _ = None"

fun or_op :: "etok \<Rightarrow> binary_op option" where
  "or_op TOrOr = Some Op_Or"
| "or_op _ = None"

fun and_op :: "etok \<Rightarrow> binary_op option" where
  "and_op TAndAnd = Some Op_And"
| "and_op _ = None"

text \<open>\<open>at_named_argument_start\<close>, and the names that objects and named arguments take.\<close>

fun field_name_of :: "etok \<Rightarrow> string option" where
  "field_name_of (TIdent name) = Some name"
| "field_name_of (TString name) = Some name"
| "field_name_of _ = None"

definition at_named_argument_start :: "etok list \<Rightarrow> bool" where
  "at_named_argument_start ts =
     (case ts of t # TColon # _ \<Rightarrow> field_name_of t \<noteq> None | _ \<Rightarrow> False)"

text \<open>\<open>at\<close>: the next token is \<open>t\<close>.\<close>

definition at_tok :: "etok \<Rightarrow> etok list \<Rightarrow> bool" where
  "at_tok t ts \<longleftrightarrow> ts \<noteq> [] \<and> hd ts = t"

lemma at_tok_iff: "at_tok t ts \<longleftrightarrow> (\<exists>us. ts = t # us)"
  by (cases ts) (auto simp: at_tok_def)

lemma at_tok_Cons [simp]: "at_tok t (u # us) \<longleftrightarrow> u = t" "\<not> at_tok t []"
  by (simp_all add: at_tok_def)

text \<open>The name after a point.\<close>

fun member_name :: "etok list \<Rightarrow> (string \<times> etok list) option" where
  "member_name (TIdent fld # rest) = Some (fld, rest)"
| "member_name _ = None"

definition expect :: "etok \<Rightarrow> string \<Rightarrow> etok list \<Rightarrow> string + etok list" where
  "expect t msg ts = (case ts of [] \<Rightarrow> Err msg | u # us \<Rightarrow> if u = t then Ok us else Err msg)"

lemma expect_Inr [result_simps]: "expect t msg ts = Inr us \<longleftrightarrow> ts = t # us"
  by (auto simp: expect_def split: list.splits)

text \<open>A field name and the colon after it.\<close>

definition named_field :: "string \<Rightarrow> string \<Rightarrow> etok list \<Rightarrow> string + string \<times> etok list" where
  "named_field no_name no_colon ts =
     (case ts of
        t # ts' \<Rightarrow> res_bind (ok_or no_name (field_name_of t)) (\<lambda>name.
                   res_map (Pair name) (expect TColon no_colon ts'))
      | [] \<Rightarrow> Err no_name)"

lemma named_field_Inr [result_simps]:
  "named_field e1 e2 ts = Inr (name, us) \<longleftrightarrow>
     (\<exists>t. ts = t # TColon # us \<and> field_name_of t = Some name)"
  by (auto simp: named_field_def result_simps split: list.splits)

text \<open>The tokens left decide; on the same tokens the calls go down the levels.\<close>

definition weight :: "nat \<Rightarrow> etok list \<Rightarrow> nat" where
  "weight level ts = 20 * length ts + level"

definition loop_weight :: "nat \<Rightarrow> 'a \<times> etok list \<Rightarrow> nat" where
  "loop_weight level x = 20 * length (snd x) + level"

lemma at_tok_tl: "at_tok t ts \<Longrightarrow> length (tl ts) < length ts"
  by (auto simp: at_tok_iff)

lemma named_field_length:
  "named_field e1 e2 ts = Inr (name, us) \<Longrightarrow> length us < length (tl ts) \<and> length (tl ts) < length ts"
  by (auto simp: result_simps)

lemma at_tok_nonempty: "at_tok t ts \<Longrightarrow> 0 < length ts"
  by (auto simp: at_tok_iff)

lemma at_tok_shorter:
  assumes "at_tok t us"
  shows "length us - Suc 0 < length us" "11 + 20 * (length us - Suc 0) < 20 * length us"
    "length (upto (tl us) rest) < length us"
  using assms length_upto [of "tl us" rest] by (auto simp: at_tok_iff)

lemma at_tok_upto_shorter:
  assumes "at_tok t (upto us rest)"
  shows "length (upto us rest) - Suc 0 < length us"
  using at_tok_nonempty [OF assms] length_upto [of us rest] by linarith

lemma named_field_shorter:
  assumes "named_field e1 e2 us = Inr x"
  shows "20 * length (upto (tl us) rest) + 9 < 20 * length us"
    "length (upto (upto (tl us) rest) rest') - Suc 0 < length us"
proof -
  have "length (tl us) < length us" using assms named_field_length [of e1 e2 us] by (cases x) simp
  then show "20 * length (upto (tl us) rest) + 9 < 20 * length us"
    "length (upto (upto (tl us) rest) rest') - Suc 0 < length us"
    using length_upto [of "tl us" rest] length_upto [of "upto (tl us) rest" rest'] by linarith+
qed

lemma upto_weight:
  "0 < k \<Longrightarrow> 20 * length (upto ts rest) < k + 20 * length ts"
  "20 * length (upto ts rest) < Suc (Suc (20 * length ts))"
  using length_upto [of ts rest] by simp_all

text \<open>The methods and their loops.\<close>

function or_expr :: "etok list \<Rightarrow> parsed"
  and or_loop :: "expr \<Rightarrow> etok list \<Rightarrow> parsed"
  and and_loop :: "expr \<Rightarrow> etok list \<Rightarrow> parsed"
  and equality_loop :: "expr \<Rightarrow> etok list \<Rightarrow> parsed"
  and comparison_loop :: "expr \<Rightarrow> etok list \<Rightarrow> parsed"
  and additive_loop :: "expr \<Rightarrow> etok list \<Rightarrow> parsed"
  and multiplicative_loop :: "expr \<Rightarrow> etok list \<Rightarrow> parsed"
  and postfix_loop :: "expr \<Rightarrow> etok list \<Rightarrow> parsed"
  and and_expr :: "etok list \<Rightarrow> parsed"
  and equality :: "etok list \<Rightarrow> parsed"
  and comparison :: "etok list \<Rightarrow> parsed"
  and additive :: "etok list \<Rightarrow> parsed"
  and multiplicative :: "etok list \<Rightarrow> parsed"
  and postfix :: "etok list \<Rightarrow> parsed"
  and primary :: "etok list \<Rightarrow> parsed"
  and object_literal :: "etok list \<Rightarrow> parsed"
  and object_fields :: "(string \<times> expr) list \<Rightarrow> etok list \<Rightarrow> parsed"
  and named_arguments :: "(string \<times> expr) list \<Rightarrow> etok list \<Rightarrow> parsed"
  and call_arguments :: "etok list \<Rightarrow> string + expr list \<times> etok list"
  and argument_loop :: "expr list \<Rightarrow> etok list \<Rightarrow> string + expr list \<times> etok list"
where
  "or_expr ts = res_bind (and_expr ts) (\<lambda>(e, rest). or_loop e (upto ts rest))"
| "or_loop e ts =
     (case ts of [] \<Rightarrow> Ok (e, ts) | t # ts' \<Rightarrow>
      (case or_op t of None \<Rightarrow> Ok (e, ts) | Some bop \<Rightarrow>
       res_bind (and_expr ts') (\<lambda>(right, rest). or_loop (EBinary e bop right) (upto ts' rest))))"
| "and_expr ts = res_bind (equality ts) (\<lambda>(e, rest). and_loop e (upto ts rest))"
| "and_loop e ts =
     (case ts of [] \<Rightarrow> Ok (e, ts) | t # ts' \<Rightarrow>
      (case and_op t of None \<Rightarrow> Ok (e, ts) | Some bop \<Rightarrow>
       res_bind (equality ts') (\<lambda>(right, rest). and_loop (EBinary e bop right) (upto ts' rest))))"
| "equality ts = res_bind (comparison ts) (\<lambda>(e, rest). equality_loop e (upto ts rest))"
| "equality_loop e ts =
     (case ts of [] \<Rightarrow> Ok (e, ts) | t # ts' \<Rightarrow>
      (case equality_op t of None \<Rightarrow> Ok (e, ts) | Some bop \<Rightarrow>
       res_bind (comparison ts') (\<lambda>(right, rest). equality_loop (EBinary e bop right) (upto ts' rest))))"
| "comparison ts = res_bind (additive ts) (\<lambda>(e, rest). comparison_loop e (upto ts rest))"
| "comparison_loop e ts =
     (case ts of [] \<Rightarrow> Ok (e, ts) | t # ts' \<Rightarrow>
      (case comparison_op t of None \<Rightarrow> Ok (e, ts) | Some bop \<Rightarrow>
       res_bind (additive ts') (\<lambda>(right, rest). comparison_loop (EBinary e bop right) (upto ts' rest))))"
| "additive ts = res_bind (multiplicative ts) (\<lambda>(e, rest). additive_loop e (upto ts rest))"
| "additive_loop e ts =
     (case ts of [] \<Rightarrow> Ok (e, ts) | t # ts' \<Rightarrow>
      (case additive_op t of None \<Rightarrow> Ok (e, ts) | Some bop \<Rightarrow>
       res_bind (multiplicative ts') (\<lambda>(right, rest). additive_loop (EBinary e bop right) (upto ts' rest))))"
| "multiplicative ts = res_bind (postfix ts) (\<lambda>(e, rest). multiplicative_loop e (upto ts rest))"
| "multiplicative_loop e ts =
     (case ts of [] \<Rightarrow> Ok (e, ts) | t # ts' \<Rightarrow>
      (case multiplicative_op t of None \<Rightarrow> Ok (e, ts) | Some bop \<Rightarrow>
       res_bind (postfix ts') (\<lambda>(right, rest). multiplicative_loop (EBinary e bop right) (upto ts' rest))))"
| "postfix ts = res_bind (primary ts) (\<lambda>(e, rest). postfix_loop e (upto ts rest))"
| "postfix_loop e ts =
     (if at_tok TDot ts then
        (case member_name (tl ts) of
           None \<Rightarrow> Err ''expected member name after `.`''
         | Some (fld, rest) \<Rightarrow> postfix_loop (EMember e fld) (upto (tl ts) rest))
      else if at_tok TLParen ts then
        res_bind (call_arguments (tl ts)) (\<lambda>(args, rest).
        res_bind (expect TRParen ''expected `)` after call arguments'' rest) (\<lambda>rest'.
        postfix_loop (ECall e args) (upto (tl ts) rest')))
      else if at_tok TQuestion ts then postfix_loop (ETry e) (tl ts)
      else Ok (e, ts))"
| "call_arguments ts =
     (if at_tok TRParen ts then Ok ([], ts)
      else if at_named_argument_start ts then
        res_map (\<lambda>(e, rest). ([e], rest)) (named_arguments [] ts)
      else argument_loop [] ts)"
| "argument_loop args ts =
     res_bind (or_expr ts) (\<lambda>(e, rest).
       if at_tok TComma (upto ts rest) then argument_loop (args @ [e]) (tl (upto ts rest))
       else Ok (args @ [e], upto ts rest))"
| "named_arguments fs ts =
     res_bind (named_field ''expected named argument name'' ''expected `:` after named argument name'' ts)
       (\<lambda>(name, after_name). let ts' = upto (tl ts) after_name in
     res_bind (or_expr ts') (\<lambda>(val, rest).
       let fs' = fs @ [(name, val)]; rest' = upto ts' rest in
       if \<not> at_tok TComma rest' then Ok (EObject fs', rest')
       else if at_named_argument_start (tl rest') then named_arguments fs' (tl rest')
       else Err ''named arguments cannot be mixed with positional arguments''))"
| "primary ts =
     (case ts of
        TIdent name # rest \<Rightarrow>
          if name = ''true'' then Ok (EBool True, rest)
          else if name = ''false'' then Ok (EBool False, rest)
          else if name = ''async'' then res_map (\<lambda>(inner, rest'). (EAsync inner, rest')) (postfix rest)
          else if name = ''await'' then res_map (\<lambda>(inner, rest'). (EAwait inner, rest')) (postfix rest)
          else Ok (EIdent name, rest)
      | TInvalid val # rest \<Rightarrow> Err (''invalid token `'' @ val @ ''`'')
      | TString val # rest \<Rightarrow> Ok (EString val, rest)
      | TNumber val # rest \<Rightarrow> number_literal val rest
      | TLParen # rest \<Rightarrow>
          res_bind (or_expr rest) (\<lambda>(e, rest').
          res_map (Pair e) (expect TRParen ''expected `)` after expression'' rest'))
      | TLBrace # rest \<Rightarrow> object_literal rest
      | _ \<Rightarrow> Err ''expected expression'')"
| "object_literal ts =
     (if at_tok TRBrace ts then Ok (EObject [], tl ts) else object_fields [] ts)"
| "object_fields fs ts =
     res_bind (named_field ''expected object field name'' ''expected `:` after object field name'' ts)
       (\<lambda>(name, after_name). let ts' = upto (tl ts) after_name in
     res_bind (or_expr ts') (\<lambda>(val, rest).
       let fs' = fs @ [(name, val)]; rest' = upto ts' rest in
       if at_tok TComma rest' \<and> \<not> at_tok TRBrace (tl rest') then object_fields fs' (tl rest')
       else res_map (Pair (EObject fs'))
              (expect TRBrace ''expected `}` after object literal''
                (if at_tok TComma rest' then tl rest' else rest'))))"
  by pat_completeness auto

termination
  apply (relation "measure
    (case_sum
      (case_sum
        (case_sum (case_sum (weight 9) (loop_weight 1))
          (case_sum (loop_weight 1) (case_sum (loop_weight 1) (loop_weight 1))))
        (case_sum (case_sum (loop_weight 1) (loop_weight 1))
          (case_sum (loop_weight 1) (case_sum (weight 8) (weight 7)))))
      (case_sum
        (case_sum (case_sum (weight 6) (weight 5)) (case_sum (weight 4) (case_sum (weight 3) (weight 2))))
        (case_sum (case_sum (weight 12) (loop_weight 0))
          (case_sum (loop_weight 0) (case_sum (weight 12) (loop_weight 11))))))")
  apply (simp_all add: weight_def loop_weight_def)
  apply (simp_all add: upto_weight at_tok_shorter at_tok_upto_shorter named_field_shorter)
  done

lemmas parser_simps =
or_expr.simps or_loop.simps and_loop.simps equality_loop.simps comparison_loop.simps
  additive_loop.simps multiplicative_loop.simps postfix_loop.simps and_expr.simps equality.simps
  comparison.simps additive.simps multiplicative.simps postfix.simps primary.simps
  object_literal.simps object_fields.simps named_arguments.simps call_arguments.simps
  argument_loop.simps

declare parser_simps [simp del]

lemmas parser_induct =
  or_expr_or_loop_and_loop_equality_loop_comparison_loop_additive_loop_multiplicative_loop_postfix_loop_and_expr_equality_comparison_additive_multiplicative_postfix_primary_object_literal_object_fields_named_arguments_call_arguments_argument_loop.induct

text \<open>What a call leaves is not longer than what it was given.\<close>

definition fits :: "'b list \<Rightarrow> 'e + 'a \<times> 'b list \<Rightarrow> bool" where
  "fits ts r \<longleftrightarrow> (\<forall>x rest. r = Inr (x, rest) \<longrightarrow> length rest \<le> length ts)"

lemma fits_simps [simp]: "fits ts (Inl msg)" "fits ts (Inr (x, rest)) \<longleftrightarrow> length rest \<le> length ts"
  by (simp_all add: fits_def)

lemma fits_bind:
  assumes "\<And>x. m = Inr x \<Longrightarrow> fits ts (f x)"
  shows "fits ts (res_bind m f)"
  using assms by (cases m) simp_all

lemma fits_map:
  assumes "\<And>x rest. m = Inr (x, rest) \<Longrightarrow> length (snd (f (x, rest))) \<le> length ts"
  shows "fits ts (res_map f m)"
  using assms by (cases m) (auto simp: fits_def)

lemma fits_longer: "fits us r \<Longrightarrow> length us \<le> length ts \<Longrightarrow> fits ts r"
  by (auto simp: fits_def)

lemma fits_chain:
  assumes "\<And>x rest. m = Inr (x, rest) \<Longrightarrow> fits (upto ts rest) (f (x, rest))"
  shows "fits ts (res_bind m f)" "fits (t # ts) (res_bind m f)"
proof -
  have *: "fits ts (f (x, rest))" if "m = Inr (x, rest)" for x rest
    using assms [OF that] length_upto by (rule fits_longer)
  then show "fits ts (res_bind m f)" by (cases m) auto
  then show "fits (t # ts) (res_bind m f)" by (rule fits_longer) simp
qed

lemma fits_tl: "fits (tl ts) r \<Longrightarrow> fits ts r"
  by (cases ts) (auto intro: fits_longer le_SucI)

lemma fits_upto: "fits (upto (tl ts) rest) r \<Longrightarrow> fits ts r"
  by (rule fits_tl) (rule fits_longer [OF _ length_upto])

lemma fits_chain_tl:
  assumes "\<And>x rest. m = Inr (x, rest) \<Longrightarrow> fits (upto (upto (tl ts) us) rest) (f (x, rest))"
  shows "fits ts (res_bind m f)"
  by (rule fits_upto [of _ us], rule fits_chain) (rule assms)

lemma fits_Cons: "fits ts r \<Longrightarrow> fits (t # ts) r"
  by (erule fits_longer) simp

lemma fits_wrap: "fits ts m \<Longrightarrow> fits ts (res_map (\<lambda>(x, rest). (f x, rest)) m)"
  by (cases m) (auto simp: fits_def)

lemma number_literal_fits: "fits ts (number_literal val ts)"
  by (auto simp: number_literal_def result_simps fits_def split: list.splits etok.splits if_splits)

lemma parenthesized_fits: "fits ts m \<Longrightarrow> fits ts (res_bind m (\<lambda>(e, rest). res_map (Pair e) (expect t msg rest)))"
  by (auto simp: result_simps fits_def)

lemma close_fits:
  "fits us (res_map (Pair e) (expect t msg us))"
  "fits us (res_map (Pair e) (expect t msg (tl us)))"
  by (cases us; auto simp: result_simps fits_def)+

lemma parser_fits:
  fixes ts :: "etok list" and e :: expr and fs :: "(string \<times> expr) list" and args :: "expr list"
  shows "fits ts (or_expr ts)"
  and "fits ts (or_loop e ts)"
  and "fits ts (and_loop e ts)"
  and "fits ts (equality_loop e ts)"
  and "fits ts (comparison_loop e ts)"
  and "fits ts (additive_loop e ts)"
  and "fits ts (multiplicative_loop e ts)"
  and "fits ts (postfix_loop e ts)"
  and "fits ts (and_expr ts)"
  and "fits ts (equality ts)"
  and "fits ts (comparison ts)"
  and "fits ts (additive ts)"
  and "fits ts (multiplicative ts)"
  and "fits ts (postfix ts)"
  and "fits ts (primary ts)"
  and "fits ts (object_literal ts)"
  and "fits ts (object_fields fs ts)"
  and "fits ts (named_arguments fs ts)"
  and "fits ts (call_arguments ts)"
  and "fits ts (argument_loop args ts)"
proof (induction ts and e ts and e ts and e ts and e ts and e ts and e ts and e ts and ts and ts and ts and ts
    and ts and ts and ts and ts and fs ts and fs ts and ts and args ts
    rule: parser_induct)
  case (1 ts)
  then show ?case by (subst or_expr.simps) (auto intro: fits_chain)
next
  case (2 e ts)
  then show ?case
    by (subst or_loop.simps) (auto split: list.split option.split intro: fits_chain)
next
  case (3 ts)
  then show ?case by (subst and_expr.simps) (auto intro: fits_chain)
next
  case (4 e ts)
  then show ?case
    by (subst and_loop.simps) (auto split: list.split option.split intro: fits_chain)
next
  case (5 ts)
  then show ?case by (subst equality.simps) (auto intro: fits_chain)
next
  case (6 e ts)
  then show ?case
    by (subst equality_loop.simps) (auto split: list.split option.split intro: fits_chain)
next
  case (7 ts)
  then show ?case by (subst comparison.simps) (auto intro: fits_chain)
next
  case (8 e ts)
  then show ?case
    by (subst comparison_loop.simps) (auto split: list.split option.split intro: fits_chain)
next
  case (9 ts)
  then show ?case by (subst additive.simps) (auto intro: fits_chain)
next
  case (10 e ts)
  then show ?case
    by (subst additive_loop.simps) (auto split: list.split option.split intro: fits_chain)
next
  case (11 ts)
  then show ?case by (subst multiplicative.simps) (auto intro: fits_chain)
next
  case (12 e ts)
  then show ?case
    by (subst multiplicative_loop.simps) (auto split: list.split option.split intro: fits_chain)
next
  case (13 ts)
  then show ?case by (subst postfix.simps) (auto intro: fits_chain)
next
  case (14 e ts)
  show ?case
    by (subst postfix_loop.simps)
      (auto split: option.split intro!: fits_bind fits_upto [OF 14(1)] fits_upto [OF 14(3)] fits_tl [OF 14(4)])
next
  case (15 ts)
  then show ?case by (subst call_arguments.simps) (auto intro: fits_map)
next
  case (16 args ts)
  show ?case by (subst argument_loop.simps) (auto intro!: fits_chain fits_tl [OF 16(2)])
next
  case (17 fs ts)
  show ?case
    by (subst named_arguments.simps, rule fits_bind)
      (auto simp: Let_def intro!: fits_chain_tl fits_tl [OF 17(2)])
next
  case (18 ts)
  show ?case
    by (subst primary.simps)
      (auto split: list.split etok.split
        intro!: fits_Cons fits_wrap number_literal_fits parenthesized_fits 18(3,4) intro: 18(1,2))
next
  case (19 ts)
  then show ?case by (subst object_literal.simps) auto
next
  case (20 fs ts)
  show ?case
    by (subst object_fields.simps, rule fits_bind)
      (auto simp: Let_def intro!: fits_chain_tl fits_tl [OF 20(2)] close_fits)
qed

text \<open>So the equations hold as the code has them, without \<open>upto\<close>.\<close>

lemma fitsD: "fits ts m \<Longrightarrow> m = Inr (x, rest) \<Longrightarrow> length rest \<le> length ts"
  by (simp add: fits_def)

lemmas parser_lengths = parser_fits [THEN fitsD]

lemma bind_upto:
  assumes "fits ts m"
  shows "res_bind m (\<lambda>(e, rest). f e (upto ts rest)) = res_bind m (\<lambda>(e, rest). f e rest)"
  using assms by (cases m) (auto simp: fits_def)

lemma level_eqs:
  "or_expr ts = res_bind (and_expr ts) (\<lambda>(e, rest). or_loop e rest)"
  "and_expr ts = res_bind (equality ts) (\<lambda>(e, rest). and_loop e rest)"
  "equality ts = res_bind (comparison ts) (\<lambda>(e, rest). equality_loop e rest)"
  "comparison ts = res_bind (additive ts) (\<lambda>(e, rest). comparison_loop e rest)"
  "additive ts = res_bind (multiplicative ts) (\<lambda>(e, rest). additive_loop e rest)"
  "multiplicative ts = res_bind (postfix ts) (\<lambda>(e, rest). multiplicative_loop e rest)"
  "postfix ts = res_bind (primary ts) (\<lambda>(e, rest). postfix_loop e rest)"
  by (subst or_expr.simps and_expr.simps equality.simps comparison.simps additive.simps
      multiplicative.simps postfix.simps, simp only: bind_upto parser_fits)+

lemma loop_eqs:
  "or_op t = Some bop \<Longrightarrow> or_loop e (t # ts) = res_bind (and_expr ts) (\<lambda>(r, rest). or_loop (EBinary e bop r) rest)"
  "and_op t = Some bop \<Longrightarrow> and_loop e (t # ts) = res_bind (equality ts) (\<lambda>(r, rest). and_loop (EBinary e bop r) rest)"
  "equality_op t = Some bop \<Longrightarrow> equality_loop e (t # ts) =
     res_bind (comparison ts) (\<lambda>(r, rest). equality_loop (EBinary e bop r) rest)"
  "comparison_op t = Some bop \<Longrightarrow> comparison_loop e (t # ts) =
     res_bind (additive ts) (\<lambda>(r, rest). comparison_loop (EBinary e bop r) rest)"
  "additive_op t = Some bop \<Longrightarrow> additive_loop e (t # ts) =
     res_bind (multiplicative ts) (\<lambda>(r, rest). additive_loop (EBinary e bop r) rest)"
  "multiplicative_op t = Some bop \<Longrightarrow> multiplicative_loop e (t # ts) =
     res_bind (postfix ts) (\<lambda>(r, rest). multiplicative_loop (EBinary e bop r) rest)"
  by (subst or_loop.simps and_loop.simps equality_loop.simps comparison_loop.simps additive_loop.simps
      multiplicative_loop.simps, simp, rule res_bind_cong [OF refl], auto dest: parser_lengths)+

lemma loop_stops:
  "\<forall>t us. ts = t # us \<longrightarrow> or_op t = None \<Longrightarrow> or_loop e ts = Inr (e, ts)"
  "\<forall>t us. ts = t # us \<longrightarrow> and_op t = None \<Longrightarrow> and_loop e ts = Inr (e, ts)"
  "\<forall>t us. ts = t # us \<longrightarrow> equality_op t = None \<Longrightarrow> equality_loop e ts = Inr (e, ts)"
  "\<forall>t us. ts = t # us \<longrightarrow> comparison_op t = None \<Longrightarrow> comparison_loop e ts = Inr (e, ts)"
  "\<forall>t us. ts = t # us \<longrightarrow> additive_op t = None \<Longrightarrow> additive_loop e ts = Inr (e, ts)"
  "\<forall>t us. ts = t # us \<longrightarrow> multiplicative_op t = None \<Longrightarrow> multiplicative_loop e ts = Inr (e, ts)"
  "\<forall>t us. ts = t # us \<longrightarrow> t \<noteq> TDot \<and> t \<noteq> TLParen \<and> t \<noteq> TQuestion \<Longrightarrow> postfix_loop e ts = Inr (e, ts)"
  by (subst or_loop.simps and_loop.simps equality_loop.simps comparison_loop.simps additive_loop.simps
      multiplicative_loop.simps postfix_loop.simps, cases ts; simp)+

lemma postfix_loop_eqs:
  "postfix_loop e (TDot # TIdent fld # rest) = postfix_loop (EMember e fld) rest"
  "postfix_loop e (TQuestion # ts) = postfix_loop (ETry e) ts"
  "call_arguments ts = Inr (args, TRParen # rest) \<Longrightarrow>
     postfix_loop e (TLParen # ts) = postfix_loop (ECall e args) rest"
  using parser_fits(19) [of ts] by (subst postfix_loop.simps, simp add: expect_def)+

lemma argument_loop_eq:
  "argument_loop args ts = res_bind (or_expr ts) (\<lambda>(e, rest).
     if at_tok TComma rest then argument_loop (args @ [e]) (tl rest) else Inr (args @ [e], rest))"
  using parser_fits(1) [of ts] by (subst argument_loop.simps) (cases "or_expr ts"; auto simp: fits_def)

lemma object_fields_eq:
  "field_name_of t = Some name \<Longrightarrow> object_fields fs (t # TColon # ts) = res_bind (or_expr ts) (\<lambda>(val, rest).
     if at_tok TComma rest \<and> \<not> at_tok TRBrace (tl rest) then object_fields (fs @ [(name, val)]) (tl rest)
     else res_map (Pair (EObject (fs @ [(name, val)])))
            (expect TRBrace ''expected `}` after object literal'' (if at_tok TComma rest then tl rest else rest)))"
  using parser_fits(1) [of ts]
  by (subst object_fields.simps) (cases "or_expr ts"; auto simp: fits_def named_field_def expect_def)

lemma named_arguments_eq:
  "field_name_of t = Some name \<Longrightarrow> named_arguments fs (t # TColon # ts) = res_bind (or_expr ts) (\<lambda>(val, rest).
     if \<not> at_tok TComma rest then Inr (EObject (fs @ [(name, val)]), rest)
     else if at_named_argument_start (tl rest) then named_arguments (fs @ [(name, val)]) (tl rest)
     else Inl ''named arguments cannot be mixed with positional arguments'')"
  using parser_fits(1) [of ts]
  by (subst named_arguments.simps) (cases "or_expr ts"; auto simp: fits_def named_field_def expect_def)

text \<open>\<open>Parser::parse\<close> and \<open>parse\<close>.\<close>

definition parse_expr :: "string \<Rightarrow> string + expr" where
  "parse_expr txt =
     res_bind (or_expr (lex_expr txt)) (\<lambda>(e, rest).
       if rest = [] \<or> at_tok TEof rest then Ok e else Err ''unexpected token after expression'')"

end
