(* ===== verification/Expr_Spec.thy ===== *)
theory Expr_Spec
  imports Expr
begin

text \<open>
  What \<open>expr.rs\<close> promises: an expression printed with no more parentheses than the precedences
  of its operators need is read back, so the twelve operators bind and associate as their levels
  say; what is read is well formed; and the two ways of finding the calls of an expression agree.
\<close>

section \<open>Calls\<close>

lemma list_ex_concat_map: "list_ex (\<lambda>x. p \<in> set (f x)) xs \<longleftrightarrow> p \<in> set (concat (map f xs))"
  by (induction xs) auto

text \<open>An expression contains a call of a path exactly when the path is among those of its
  calls.\<close>

theorem contains_call_path_iff:
  "contains_call_path expected e \<longleftrightarrow> expected \<in> set (map call_path (calls e))"
proof (induction expected e rule: contains_call_path.induct)
  case (1 expected callee args)
  then show ?case by (auto simp: list_ex_iff split: option.split)
next
  case (7 expected fs)
  then show ?case by (auto simp: list_ex_iff)
qed auto

section \<open>Precedence levels\<close>

fun op_level :: "binary_op \<Rightarrow> nat" where
  "op_level Op_Or = 0" | "op_level Op_And = 1" | "op_level Op_Equal = 2" | "op_level Op_NotEqual = 2"
| "op_level Op_LessThan = 3" | "op_level Op_LessThanOrEqual = 3" | "op_level Op_GreaterThan = 3"
| "op_level Op_GreaterThanOrEqual = 3" | "op_level Op_Add = 4" | "op_level Op_Subtract = 4"
| "op_level Op_Multiply = 5" | "op_level Op_Divide = 5"

fun op_tok :: "binary_op \<Rightarrow> etok" where
  "op_tok Op_Or = TOrOr" | "op_tok Op_And = TAndAnd" | "op_tok Op_Equal = TEqEq"
| "op_tok Op_NotEqual = TBangEq" | "op_tok Op_LessThan = TLt" | "op_tok Op_LessThanOrEqual = TLtEq"
| "op_tok Op_GreaterThan = TGt" | "op_tok Op_GreaterThanOrEqual = TGtEq" | "op_tok Op_Add = TPlus"
| "op_tok Op_Subtract = TMinus" | "op_tok Op_Multiply = TStar" | "op_tok Op_Divide = TSlash"

text \<open>How strongly a token ties to the expression before it.\<close>

fun tok_level :: "etok \<Rightarrow> nat option" where
  "tok_level TOrOr = Some 0" | "tok_level TAndAnd = Some 1" | "tok_level TEqEq = Some 2"
| "tok_level TBangEq = Some 2" | "tok_level TLt = Some 3" | "tok_level TLtEq = Some 3"
| "tok_level TGt = Some 3" | "tok_level TGtEq = Some 3" | "tok_level TPlus = Some 4"
| "tok_level TMinus = Some 4" | "tok_level TStar = Some 5" | "tok_level TSlash = Some 5"
| "tok_level TDot = Some 6" | "tok_level TLParen = Some 6" | "tok_level TQuestion = Some 6"
| "tok_level (TIdent _) = Some 7"
| "tok_level _ = None"

definition follows :: "nat \<Rightarrow> etok list \<Rightarrow> bool" where
  "follows k rest \<longleftrightarrow> (\<forall>t us l. rest = t # us \<longrightarrow> tok_level t = Some l \<longrightarrow> l < k)"

fun level_parser :: "nat \<Rightarrow> etok list \<Rightarrow> parsed" where
  "level_parser k = (if k = 0 then or_expr else if k = 1 then and_expr else if k = 2 then equality
     else if k = 3 then comparison else if k = 4 then additive else if k = 5 then multiplicative
     else postfix)"

fun level_loop :: "nat \<Rightarrow> expr \<Rightarrow> etok list \<Rightarrow> parsed" where
  "level_loop k = (if k = 0 then or_loop else if k = 1 then and_loop else if k = 2 then equality_loop
     else if k = 3 then comparison_loop else if k = 4 then additive_loop
     else if k = 5 then multiplicative_loop else postfix_loop)"

lemma follows_mono: "follows j rest \<Longrightarrow> j \<le> k \<Longrightarrow> follows k rest"
  by (cases rest) (auto simp: follows_def)

lemma follows_Cons: "follows k (t # us) \<longleftrightarrow> (case tok_level t of None \<Rightarrow> True | Some l \<Rightarrow> l < k)"
  by (auto simp: follows_def split: option.split)

lemma op_tok_level [simp]: "tok_level (op_tok bop) = Some (op_level bop)"
  by (cases bop) simp_all

lemma op_level_less: "op_level bop < 6"
  by (cases bop) simp_all

lemma six_levels: "k < (6 :: nat) \<Longrightarrow> k = 0 \<or> k = 1 \<or> k = 2 \<or> k = 3 \<or> k = 4 \<or> k = 5"
  by linarith

lemma op_none:
  "tok_level t \<noteq> Some 0 \<Longrightarrow> or_op t = None" "tok_level t \<noteq> Some 1 \<Longrightarrow> and_op t = None"
  "tok_level t \<noteq> Some 2 \<Longrightarrow> equality_op t = None" "tok_level t \<noteq> Some 3 \<Longrightarrow> comparison_op t = None"
  "tok_level t \<noteq> Some 4 \<Longrightarrow> additive_op t = None" "tok_level t \<noteq> Some 5 \<Longrightarrow> multiplicative_op t = None"
  by (cases t; simp)+

lemma level_loop_stops:
  assumes "follows k rest" and "k \<le> 6"
  shows "level_loop k e rest = Inr (e, rest)"
proof -
  have t: "tok_level t \<noteq> Some k" if "rest = t # us" for t us
    using assms(1) that by (auto simp: follows_def)
  from assms(2) consider "k < 6" | "k = 6" by linarith
  then show ?thesis
  proof cases
    case 1
    then show ?thesis
      using six_levels [OF 1] t by (elim disjE) (auto intro!: loop_stops op_none)
  next
    case 2
    then show ?thesis using t by (auto intro!: loop_stops)
  qed
qed

lemma level_step:
  assumes "level_parser (Suc k) ts = Inr (e, rest)" and "k < 6"
  shows "level_parser k ts = level_loop k e rest"
  using six_levels [OF assms(2)] assms(1) by (elim disjE) (simp_all add: level_eqs)

lemma loop_step:
  assumes "level_parser (Suc k) ts = Inr (r, rest)" and "op_level bop = k"
  shows "level_loop k e (op_tok bop # ts) = level_loop k (EBinary e bop r) rest"
  using assms by (cases bop) (auto simp: loop_eqs)

section \<open>Reading at a level\<close>

text \<open>The tokens \<open>w\<close> are read as \<open>e\<close> by the method of level \<open>k\<close>, whatever follows that does not tie
  to \<open>e\<close> more strongly than the operators of the level.\<close>

definition bound :: "nat \<Rightarrow> nat" where "bound k = (if k < 6 then Suc k else k)"

definition reads :: "nat \<Rightarrow> etok list \<Rightarrow> expr \<Rightarrow> bool" where
  "reads k w e \<longleftrightarrow> (\<forall>rest. follows (bound k) rest \<longrightarrow> level_parser k (w @ rest) = level_loop k e rest)"

lemma readsD: "reads k w e \<Longrightarrow> follows (bound k) rest \<Longrightarrow> level_parser k (w @ rest) = level_loop k e rest"
  by (simp add: reads_def)

lemma reads_whole:
  assumes "reads k w e" and "follows k rest" and "k \<le> 6"
  shows "level_parser k (w @ rest) = Inr (e, rest)"
proof -
  have "follows (bound k) rest" using assms(2) by (rule follows_mono) (simp add: bound_def)
  then show ?thesis using readsD [OF assms(1)] level_loop_stops [OF assms(2,3)] by simp
qed

lemma reads_down:
  assumes "reads (Suc k) w e" and "k \<le> 6"
  shows "reads k w e"
  unfolding reads_def
proof (intro allI impI)
  fix rest
  assume f: "follows (bound k) rest"
  show "level_parser k (w @ rest) = level_loop k e rest"
  proof (cases "k = 6")
    case True
    have "follows 6 rest" using f True by (simp add: bound_def)
    then have "follows 7 rest" by (rule follows_mono) simp
    then show ?thesis using readsD [OF assms(1), of rest] True by (simp add: bound_def)
  next
    case False
    then have k: "k < 6" using assms(2) by simp
    then have "level_parser (Suc k) (w @ rest) = Inr (e, rest)"
      using f assms(1) by (intro reads_whole) (simp_all add: bound_def)
    then show ?thesis using k by (rule level_step)
  qed
qed

lemma reads_le: "reads k w e \<Longrightarrow> j \<le> k \<Longrightarrow> k \<le> 7 \<Longrightarrow> reads j w e"
proof (induction k)
  case (Suc k)
  show ?case
  proof (cases "j = Suc k")
    case False
    have "reads k w e" by (rule reads_down) (use Suc.prems in simp_all)
    then show ?thesis using Suc False by simp
  qed (use Suc in simp)
qed simp

lemma reads_primary:
  assumes "\<And>rest. follows 7 rest \<Longrightarrow> primary (w @ rest) = Inr (e, rest)"
  shows "reads 7 w e"
  using assms by (auto simp: reads_def bound_def level_eqs(7))

lemma reads_paren:
  assumes "reads 0 w e"
  shows "reads 7 (TLParen # w @ [TRParen]) e"
proof (rule reads_primary)
  fix rest
  have "or_expr (w @ TRParen # rest) = Inr (e, TRParen # rest)"
    using reads_whole [OF assms, of "TRParen # rest"] by (simp add: follows_Cons)
  then show "primary ((TLParen # w @ [TRParen]) @ rest) = Inr (e, rest)"
    by (simp add: primary.simps expect_def)
qed

lemma reads_binary:
  assumes "reads (op_level bop) l le" and "reads (Suc (op_level bop)) r re"
  shows "reads (op_level bop) (l @ op_tok bop # r) (EBinary le bop re)"
  unfolding reads_def
proof (intro allI impI)
  fix rest
  let ?k = "op_level bop"
  assume f: "follows (bound ?k) rest"
  have b: "bound ?k = Suc ?k" "Suc ?k \<le> 6" using op_level_less [of bop] by (simp_all add: bound_def)
  have "level_parser ?k (l @ op_tok bop # r @ rest) = level_loop ?k le (op_tok bop # r @ rest)"
    using readsD [OF assms(1), of "op_tok bop # r @ rest"] b by (simp add: follows_Cons)
  also have "\<dots> = level_loop ?k (EBinary le bop re) rest"
    using f b by (intro loop_step reads_whole [OF assms(2)]) simp_all
  finally show "level_parser ?k ((l @ op_tok bop # r) @ rest) = level_loop ?k (EBinary le bop re) rest"
    by simp
qed

lemma reads_async:
  assumes "reads 6 w e"
  shows "reads 6 (TIdent ''async'' # w) (EAsync e)" "reads 6 (TIdent ''await'' # w) (EAwait e)"
  using reads_whole [OF assms] by (auto simp: reads_def bound_def level_eqs(7) primary.simps)

lemma reads_member: "reads 7 w e \<Longrightarrow> reads 7 (w @ [TDot, TIdent fld]) (EMember e fld)"
  by (simp add: reads_def bound_def follows_Cons postfix_loop_eqs)

lemma reads_try: "reads 7 w e \<Longrightarrow> reads 7 (w @ [TQuestion]) (ETry e)"
  by (simp add: reads_def bound_def follows_Cons postfix_loop_eqs)

fun separated :: "'a \<Rightarrow> 'a list list \<Rightarrow> 'a list" where
  "separated t [] = []"
| "separated t [w] = w"
| "separated t (w # ws) = w @ t # separated t ws"

lemma argument_loop_reads:
  "list_all2 (reads 0) ws es \<Longrightarrow> ws \<noteq> [] \<Longrightarrow>
     argument_loop args (separated TComma ws @ TRParen # rest) = Inr (args @ es, TRParen # rest)"
proof (induction TComma ws arbitrary: args es rule: separated.induct)
  case (2 w)
  then obtain e where e: "es = [e]" "reads 0 w e" by (auto simp: list_all2_Cons1)
  then show ?case
    using reads_whole [OF e(2), of "TRParen # rest"] by (simp add: argument_loop_eq follows_Cons)
next
  case (3 w w' ws)
  then obtain e es' where e: "es = e # es'" "reads 0 w e" "list_all2 (reads 0) (w' # ws) es'"
    by (auto simp: list_all2_Cons1)
  then show ?case
    using reads_whole [OF e(2), of "TComma # separated TComma (w' # ws) @ TRParen # rest"] 3(1) [OF e(3)]
    by (simp add: argument_loop_eq [of args] follows_Cons)
qed simp

lemma at_named_argument_start_iff:
  "at_named_argument_start ts \<longleftrightarrow> (\<exists>t us. ts = t # TColon # us \<and> field_name_of t \<noteq> None)"
  by (auto simp: at_named_argument_start_def split: list.splits etok.splits)

lemma or_expr_start:
  "or_expr [] = Inl ''expected expression''"
  "or_expr (TRParen # ts) = Inl ''expected expression''"
  by (simp_all add: level_eqs primary.simps)

lemma or_expr_before_colon:
  assumes "field_name_of t \<noteq> None" and "or_expr (t # TColon # ts) = Inr (e, rest)"
  shows "rest = TColon # ts"
  using assms by (cases t) (auto simp: level_eqs primary.simps loop_stops result_simps split: if_splits)

lemma reads_start:
  assumes "reads 0 w e" and "at_tok TComma r \<or> at_tok TRParen r"
  shows "\<not> at_tok TRParen (w @ r)" "\<not> at_named_argument_start (w @ r)"
proof -
  have a: "or_expr (w @ [TRParen]) = Inr (e, [TRParen])"
    using reads_whole [OF assms(1), of "[TRParen]"] by (simp add: follows_Cons)
  obtain t us where w: "w = t # us" using a or_expr_start by (cases w) auto
  have t: "t \<noteq> TRParen" using a w or_expr_start(2) [of "us @ [TRParen]"] by auto
  have "\<forall>vs. us = TColon # vs \<longrightarrow> field_name_of t = None"
    using a w or_expr_before_colon [of t _ e "[TRParen]"] by fastforce
  then show "\<not> at_named_argument_start (w @ r)"
    using w assms(2) by (cases us) (auto simp: at_named_argument_start_iff at_tok_iff)
  show "\<not> at_tok TRParen (w @ r)" using w t by simp
qed

lemma reads_call:
  assumes "reads 7 w e" and "list_all2 (reads 0) ws es"
  shows "reads 7 (w @ TLParen # separated TComma ws @ [TRParen]) (ECall e es)"
proof -
  have "call_arguments (separated TComma ws @ TRParen # rest) = Inr (es, TRParen # rest)" for rest
  proof (cases ws)
    case Nil
    then show ?thesis using assms(2) by (subst call_arguments.simps) simp
  next
    case (Cons v vs)
    then obtain e1 where "reads 0 v e1" using assms(2) by (auto simp: list_all2_Cons1)
    note st = reads_start [OF this]
    obtain r where r: "separated TComma ws @ TRParen # rest = v @ r" "at_tok TComma r \<or> at_tok TRParen r"
      using Cons by (cases vs) auto
    then show ?thesis
      using st [OF r(2)] argument_loop_reads [OF assms(2), of "[]" rest] Cons
      by (subst call_arguments.simps) simp
  qed
  then show ?thesis
    using assms(1) by (simp add: reads_def bound_def follows_Cons postfix_loop_eqs)
qed

definition reads_field :: "etok list \<Rightarrow> string \<times> expr \<Rightarrow> bool" where
  "reads_field w f \<longleftrightarrow> (\<exists>v. w = TString (fst f) # TColon # v \<and> reads 0 v (snd f))"

lemma object_fields_reads:
  "list_all2 reads_field ws fs \<Longrightarrow> ws \<noteq> [] \<Longrightarrow>
     object_fields acc (separated TComma ws @ TRBrace # rest) = Inr (EObject (acc @ fs), rest)"
proof (induction TComma ws arbitrary: acc fs rule: separated.induct)
  case (2 w)
  then obtain f v where f: "fs = [f]" "w = TString (fst f) # TColon # v" "reads 0 v (snd f)"
    by (auto simp: list_all2_Cons1 reads_field_def)
  then show ?case
    using reads_whole [OF f(3), of "TRBrace # rest"] by (simp add: object_fields_eq follows_Cons expect_def)
next
  case (3 w w' ws)
  then obtain f fs' v where f: "fs = f # fs'" "w = TString (fst f) # TColon # v" "reads 0 v (snd f)"
    "list_all2 reads_field (w' # ws) fs'"
    by (auto simp: list_all2_Cons1 reads_field_def)
  let ?r = "separated TComma (w' # ws) @ TRBrace # rest"
  have "\<not> at_tok TRBrace ?r"
    using f(4) by (cases ws) (auto simp: list_all2_Cons1 reads_field_def)
  then show ?case
    using reads_whole [OF f(3), of "TComma # ?r"] 3(1) [OF f(4)] f
    by (simp add: object_fields_eq follows_Cons)
qed simp

lemma reads_object:
  assumes "list_all2 reads_field ws fs"
  shows "reads 7 (TLBrace # separated TComma ws @ [TRBrace]) (EObject fs)"
proof (rule reads_primary)
  fix rest
  have "object_literal (separated TComma ws @ TRBrace # rest) = Inr (EObject fs, rest)"
  proof (cases ws)
    case (Cons v vs)
    then have "\<not> at_tok TRBrace (separated TComma ws @ TRBrace # rest)"
      using assms by (cases vs) (auto simp: list_all2_Cons1 reads_field_def)
    then show ?thesis
      using object_fields_reads [OF assms, of "[]" rest] Cons by (subst object_literal.simps) simp
  qed (use assms in \<open>simp add: object_literal.simps\<close>)
  then show "primary ((TLBrace # separated TComma ws @ [TRBrace]) @ rest) = Inr (EObject fs, rest)"
    by (simp add: primary.simps)
qed

section \<open>Printing\<close>

text \<open>The tokens of an expression as an operand at level \<open>k\<close>, in parentheses when its own operator
  ties less strongly. \<open>ft\<close> writes a double.\<close>

definition parens_if :: "bool \<Rightarrow> etok list \<Rightarrow> etok list" where
  "parens_if b w = (if b then TLParen # w @ [TRParen] else w)"

fun print_expr :: "(f64 \<Rightarrow> string) \<Rightarrow> nat \<Rightarrow> expr \<Rightarrow> etok list" where
  "print_expr ft k (EIdent name) = [TIdent name]"
| "print_expr ft k (EString s) = [TString s]"
| "print_expr ft k (EBool b) = [TIdent (show_bool b)]"
| "print_expr ft k (EInt i) = [TNumber (show_int i)]"
| "print_expr ft k (EFloat f) = [TNumber (ft f)]"
| "print_expr ft k (EQuantity val unit) =
     (case split_on (CHR ''/'') unit of
        [a, b] \<Rightarrow> [TNumber val, TIdent a, TSlash, TIdent b]
      | _ \<Rightarrow> parens_if True [TNumber val, TIdent unit])"
| "print_expr ft k (EObject fs) =
     TLBrace # separated TComma (map (\<lambda>f. TString (fst f) # TColon # print_expr ft 0 (snd f)) fs) @ [TRBrace]"
| "print_expr ft k (EMember obj fld) = print_expr ft 7 obj @ [TDot, TIdent fld]"
| "print_expr ft k (ECall callee args) =
     print_expr ft 7 callee @ TLParen # separated TComma (map (print_expr ft 0) args) @ [TRParen]"
| "print_expr ft k (ETry inner) = print_expr ft 7 inner @ [TQuestion]"
| "print_expr ft k (EAsync inner) = parens_if (6 < k) (TIdent ''async'' # print_expr ft 6 inner)"
| "print_expr ft k (EAwait inner) = parens_if (6 < k) (TIdent ''await'' # print_expr ft 6 inner)"
| "print_expr ft k (EBinary l bop r) = parens_if (op_level bop < k)
     (print_expr ft (op_level bop) l @ op_tok bop # print_expr ft (Suc (op_level bop)) r)"

definition ident_text :: "string \<Rightarrow> bool" where
  "ident_text s \<longleftrightarrow> s \<noteq> [] \<and> ident_first [hd s] \<and> list_all (\<lambda>c. ident_char [c]) s"

definition number_text :: "string \<Rightarrow> bool" where
  "number_text s \<longleftrightarrow> s \<noteq> [] \<and> is_ascii_digit (hd s) \<and> list_all (\<lambda>c. number_char [c]) s"

definition plain_ident :: "string \<Rightarrow> bool" where
  "plain_ident s \<longleftrightarrow> ident_text s \<and> s \<notin> {''true'', ''false'', ''async'', ''await''}"

definition unit_text :: "string \<Rightarrow> bool" where
  "unit_text u \<longleftrightarrow> list_all ident_text (split_on (CHR ''/'') u) \<and> length (split_on (CHR ''/'') u) \<le> 2"

text \<open>The expressions that have a text.\<close>

fun writable :: "(f64 \<Rightarrow> string) \<Rightarrow> expr \<Rightarrow> bool" where
  "writable ft (EIdent name) \<longleftrightarrow> plain_ident name"
| "writable ft (EString s) \<longleftrightarrow> list_all utf8_char (chars s)"
| "writable ft (EBool b) \<longleftrightarrow> True"
| "writable ft (EInt i) \<longleftrightarrow> 0 \<le> i \<and> i \<le> i64_max"
| "writable ft (EFloat f) \<longleftrightarrow>
     number_text (ft f) \<and> CHR ''.'' \<in> set (ft f) \<and> parse_f64_digits (ft f) = Some f"
| "writable ft (EQuantity val unit) \<longleftrightarrow> number_text val \<and> unit_text unit"
| "writable ft (EObject fs) \<longleftrightarrow>
     list_all (\<lambda>f. list_all utf8_char (chars (fst f)) \<and> writable ft (snd f)) fs"
| "writable ft (EMember obj fld) \<longleftrightarrow> writable ft obj \<and> ident_text fld"
| "writable ft (ECall callee args) \<longleftrightarrow> writable ft callee \<and> list_all (writable ft) args"
| "writable ft (ETry inner) \<longleftrightarrow> writable ft inner"
| "writable ft (EAsync inner) \<longleftrightarrow> writable ft inner"
| "writable ft (EAwait inner) \<longleftrightarrow> writable ft inner"
| "writable ft (EBinary l bop r) \<longleftrightarrow> writable ft l \<and> writable ft r"

lemma reads_parens_if: "reads j w e \<Longrightarrow> j \<le> 7 \<Longrightarrow> k \<le> 7 \<Longrightarrow> reads k (parens_if (j < k) w) e"
  using reads_le [OF reads_paren [OF reads_le [of j w e 0]], of k] reads_le [of j w e k]
  by (auto simp: parens_if_def)

lemma follows_no_ident: "follows 7 rest \<Longrightarrow> rest \<noteq> TIdent x # us"
  by (auto simp: follows_Cons)

lemma number_literal_plain:
  assumes "follows 7 rest"
  shows "number_literal val rest =
    (if CHR ''.'' \<in> set val
     then res_map (\<lambda>f. (EFloat f, rest)) (ok_or ''invalid float literal'' (parse_f64_digits val))
     else res_map (\<lambda>i. (EInt i, rest)) (ok_or ''invalid integer literal'' (parse_signed i64_min i64_max val)))"
  using follows_no_ident [OF assms] by (auto simp: number_literal_def split: list.split etok.split)

lemma digits_no_point: "list_all is_ascii_digit s \<Longrightarrow> CHR ''.'' \<notin> set s"
  by (auto simp: list_all_iff ascii_defs)

lemma split_on_single: "split_on d s = [a] \<Longrightarrow> s = a"
  by (induction d s arbitrary: a rule: split_on.induct) (auto split: if_splits list.splits)

lemma split_on_two: "split_on d s = [a, b] \<Longrightarrow> s = a @ d # b"
proof (induction d s arbitrary: a rule: split_on.induct)
  case (2 d c cs)
  then show ?case by (auto dest: split_on_single split: if_splits list.splits)
qed simp

lemma reads_quantity:
  assumes "unit_text unit"
  shows "reads 7 (print_expr ft k (EQuantity val unit)) (EQuantity val unit)"
proof -
  consider a where "split_on (CHR ''/'') unit = [a]" | a b where "split_on (CHR ''/'') unit = [a, b]"
    using assms by (cases "split_on (CHR ''/'') unit"; cases "tl (split_on (CHR ''/'') unit)")
      (auto simp: unit_text_def)
  then show ?thesis
  proof cases
    case 1
    have "or_expr (TNumber val # TIdent unit # TRParen # rest) = Inr (EQuantity val unit, TRParen # rest)" for rest
      by (simp add: level_eqs primary.simps number_literal_def loop_stops)
    then show ?thesis
      using 1 by (auto simp: parens_if_def primary.simps expect_def intro!: reads_primary)
  next
    case 2
    then show ?thesis
      using split_on_two [OF 2] by (auto simp: primary.simps number_literal_def intro!: reads_primary)
  qed
qed

theorem reads_print:
  "writable ft e \<Longrightarrow> k \<le> 7 \<Longrightarrow> reads k (print_expr ft k e) e"
proof (induction ft k e rule: print_expr.induct)
  case (1 ft k name)
  then have "reads 7 [TIdent name] (EIdent name)"
    by (intro reads_primary) (auto simp: primary.simps plain_ident_def)
  then show ?case using 1 by (auto intro: reads_le)
next
  case (2 ft k s)
  have "reads 7 [TString s] (EString s)" by (intro reads_primary) (auto simp: primary.simps)
  then show ?case using 2 by (auto intro: reads_le)
next
  case (3 ft k b)
  have "reads 7 [TIdent (show_bool b)] (EBool b)"
    by (intro reads_primary) (auto simp: primary.simps show_bool_def)
  then show ?case using 3 by (auto intro: reads_le)
next
  case (4 ft k i)
  then have "reads 7 [TNumber (show_int i)] (EInt i)"
    by (intro reads_primary)
      (simp add: primary.simps number_literal_plain show_int_def digits_no_point parse_signed_digits checked_def)
  then show ?case using 4 by (auto intro: reads_le)
next
  case (5 ft k f)
  then have "reads 7 [TNumber (ft f)] (EFloat f)"
    by (intro reads_primary) (simp add: primary.simps number_literal_plain)
  then show ?case using 5 by (auto intro: reads_le)
next
  case (6 ft k val unit)
  then show ?case by (auto intro: reads_le reads_quantity simp del: print_expr.simps)
next
  case (7 ft k fs)
  then have "reads 7 (print_expr ft k (EObject fs)) (EObject fs)"
    unfolding print_expr.simps
    by (intro reads_object) (auto simp: list_all2_map1 list_all2_same reads_field_def list_all_iff)
  then show ?case using 7 by (auto intro: reads_le simp del: print_expr.simps)
next
  case (8 ft k obj fld)
  then have "reads 7 (print_expr ft k (EMember obj fld)) (EMember obj fld)" by (simp add: reads_member)
  then show ?case using 8 by (auto intro: reads_le simp del: print_expr.simps)
next
  case (9 ft k callee args)
  then have "reads 7 (print_expr ft k (ECall callee args)) (ECall callee args)"
    unfolding print_expr.simps
    by (intro reads_call) (auto simp: list_all2_map1 list_all2_same list_all_iff)
  then show ?case using 9 by (auto intro: reads_le simp del: print_expr.simps)
next
  case (10 ft k inner)
  then have "reads 7 (print_expr ft k (ETry inner)) (ETry inner)" by (simp add: reads_try)
  then show ?case using 10 by (auto intro: reads_le simp del: print_expr.simps)
next
  case (11 ft k inner)
  then show ?case by (auto intro!: reads_parens_if reads_async)
next
  case (12 ft k inner)
  then show ?case by (auto intro!: reads_parens_if reads_async)
next
  case (13 ft k l bop r)
  then show ?case using op_level_less [of bop] by (auto intro!: reads_parens_if reads_binary)
qed

section \<open>The lexer reads what was printed\<close>

fun tok_chars :: "etok \<Rightarrow> string list" where
  "tok_chars (TIdent s) = singles s" | "tok_chars (TNumber s) = singles s"
| "tok_chars (TString s) = [CHR 0x22] # escape_literal (chars s) @ [[CHR 0x22]]"
| "tok_chars TDot = [''.'']" | "tok_chars TComma = ['','']" | "tok_chars TColon = ['':'']"
| "tok_chars TLBrace = [''{'']" | "tok_chars TRBrace = [''}'']" | "tok_chars TLParen = [''('']"
| "tok_chars TRParen = ['')'']" | "tok_chars TOrOr = [''|'', ''|'']" | "tok_chars TAndAnd = [''&'', ''&'']"
| "tok_chars TEqEq = [''='', ''='']" | "tok_chars TBangEq = [''!'', ''='']" | "tok_chars TLt = [''<'']"
| "tok_chars TLtEq = [''<'', ''='']" | "tok_chars TGt = [''>'']" | "tok_chars TGtEq = [''>'', ''='']"
| "tok_chars TPlus = [''+'']" | "tok_chars TMinus = [''-'']" | "tok_chars TStar = [''*'']"
| "tok_chars TSlash = [''/'']" | "tok_chars TQuestion = [''?'']"
| "tok_chars (TInvalid s) = [s]" | "tok_chars TEof = []"

definition spaced :: "etok list \<Rightarrow> string list" where
  "spaced ts = concat (map (\<lambda>t. tok_chars t @ ['' '']) ts)"

definition expr_text :: "(f64 \<Rightarrow> string) \<Rightarrow> expr \<Rightarrow> string" where
  "expr_text ft e = concat (spaced (print_expr ft 0 e))"

fun tok_writable :: "etok \<Rightarrow> bool" where
  "tok_writable (TIdent s) = ident_text s"
| "tok_writable (TNumber s) = number_text s"
| "tok_writable (TString s) = list_all utf8_char (chars s)"
| "tok_writable (TInvalid _) = False"
| "tok_writable TEof = False"
| "tok_writable _ = True"

lemma one_byte_simps: "one_byte p [c] = p c"
  by (simp add: one_byte_def)

lemmas expr_char_defs =
  ident_first_def ident_char_def number_char_def one_byte_def is_whitespace_def single_tokens_def
  pair_tokens_def ascii_defs

lemma one_byte_cases: "one_byte p ch \<Longrightarrow> (\<And>c. ch = [c] \<Longrightarrow> p c \<Longrightarrow> thesis) \<Longrightarrow> thesis"
  by (auto simp: one_byte_def split: list.splits)

lemma no_token_char:
  assumes "is_ascii_alphanumeric c \<or> c = CHR ''_''"
  shows "\<not> is_whitespace [c]" "map_of single_tokens [c] = None" "map_of pair_tokens [c] = None"
    "c \<noteq> CHR 0x22"
proof -
  have "48 \<le> byte c \<and> byte c \<le> 57 \<or> 65 \<le> byte c \<and> byte c \<le> 90 \<or> byte c = 95
      \<or> 97 \<le> byte c \<and> byte c \<le> 122"
    using assms unfolding is_ascii_alphanumeric_def is_ascii_alphabetic_def is_ascii_upper_def
      is_ascii_lower_def is_ascii_digit_def by (elim disjE) (simp_all add: byte_def)
  then have b: "48 \<le> byte c" "byte c \<noteq> 58" "byte c \<noteq> 60" "byte c \<noteq> 61" "byte c \<noteq> 62"
    "byte c \<noteq> 63" "byte c \<noteq> 123" "byte c \<noteq> 124" "byte c \<noteq> 125"
    by linarith+
  show "\<not> is_whitespace [c]" using b by (simp add: is_whitespace_def)
  have "c \<notin> set ''.,:{}()+-*/?|&=!<>''" using b by (auto simp: byte_def)
  then show "map_of single_tokens [c] = None" "map_of pair_tokens [c] = None"
    by (simp_all add: single_tokens_def pair_tokens_def)
  show "c \<noteq> CHR 0x22" using b by (auto simp: byte_def)
qed

lemma lex_blank: "lex_chars ('' '' # m) = lex_chars m"
  by (subst lex_chars.simps) (simp add: is_whitespace_def byte_def)

lemma string_rest_escape:
  "[] \<notin> set xs \<Longrightarrow> string_rest False v (escape_literal xs @ [CHR 0x22] # m) = (v @ concat xs, m)"
  by (induction xs arbitrary: v) (auto simp: escape_literal_def)

lemma dropWhile_singles:
  "list_all (\<lambda>c. p [c]) s \<Longrightarrow> \<not> p x \<Longrightarrow> dropWhile p (singles s @ x # m) = x # m"
  by (induction s) (simp_all add: singles_def)

lemma lex_ident_eq:
  assumes "ident_first ch"
  shows "lex_chars (ch # rest) =
    TIdent (ch @ concat (takeWhile ident_char rest)) # lex_chars (dropWhile ident_char rest)"
proof -
  obtain c where c: "ch = [c]" "is_ascii_alphabetic c \<or> c = CHR ''_''"
    using assms by (auto simp: ident_first_def elim: one_byte_cases)
  then have "\<not> one_byte is_ascii_digit ch" by (auto simp: expr_char_defs)
  then show ?thesis
    using no_token_char [of c] c assms by (subst lex_chars.simps) (auto simp: is_ascii_alphanumeric_def)
qed

lemma lex_number_eq:
  assumes "one_byte is_ascii_digit ch"
  shows "lex_chars (ch # rest) =
    TNumber (ch @ concat (takeWhile number_char rest)) # lex_chars (dropWhile number_char rest)"
proof -
  obtain c where c: "ch = [c]" "is_ascii_digit c" using assms by (auto elim: one_byte_cases)
  then show ?thesis
    using no_token_char [of c] assms by (subst lex_chars.simps) (auto simp: is_ascii_alphanumeric_def)
qed

lemma lex_word:
  assumes "ident_text s"
  shows "lex_chars (singles s @ '' '' # m) = TIdent s # lex_chars m"
proof -
  obtain c t where s: "s = c # t" "ident_first [c]" "list_all (\<lambda>c. ident_char [c]) t"
    using assms by (cases s) (auto simp: ident_text_def)
  have "\<not> ident_char '' ''" by (simp add: expr_char_defs)
  note w = takeWhile_singles [of ident_char, OF s(3) this, of m] dropWhile_singles [of ident_char, OF s(3) this, of m]
  show ?thesis
    using lex_ident_eq [OF s(2), of "singles t @ '' '' # m"] w by (simp add: s(1) singles_def lex_blank)
qed

lemma lex_number:
  assumes "number_text s"
  shows "lex_chars (singles s @ '' '' # m) = TNumber s # lex_chars m"
proof -
  obtain c t where s: "s = c # t" "one_byte is_ascii_digit [c]" "list_all (\<lambda>c. number_char [c]) t"
    using assms by (cases s) (auto simp: number_text_def one_byte_def)
  have "\<not> number_char '' ''" by (simp add: expr_char_defs)
  note w = takeWhile_singles [of number_char, OF s(3) this, of m] dropWhile_singles [of number_char, OF s(3) this, of m]
  show ?thesis
    using lex_number_eq [OF s(2), of "singles t @ '' '' # m"] w by (simp add: s(1) singles_def lex_blank)
qed

lemma lex_literal: "lex_chars ([CHR 0x22] # escape_literal (chars s) @ [CHR 0x22] # m) = TString s # lex_chars m"
proof -
  have "[] \<notin> set (chars s)" using chars_nonempty by blast
  note e = string_rest_escape [OF this, of "[]" m]
  show ?thesis by (subst lex_chars.simps) (simp add: e is_whitespace_def single_tokens_def pair_tokens_def byte_def)
qed

lemma lex_token:
  assumes "tok_writable t"
  shows "lex_chars (tok_chars t @ '' '' # m) = t # lex_chars m"
proof (cases t)
  case (TIdent s)
  then show ?thesis using assms by (simp add: lex_word)
next
  case (TNumber s)
  then show ?thesis using assms by (simp add: lex_number)
next
  case (TString s)
  then show ?thesis by (simp add: lex_literal lex_blank)
qed (use assms in \<open>simp_all add: lex_chars.simps(2) expr_char_defs lex_blank\<close>)

lemma lex_spaced: "list_all tok_writable ts \<Longrightarrow> lex_chars (spaced ts) = ts @ [TEof]"
  by (induction ts) (simp_all add: spaced_def lex_chars.simps(1) lex_token)

lemma spaced_utf8: "list_all tok_writable ts \<Longrightarrow> list_all utf8_char (spaced ts)"
proof (induction ts)
  case (Cons t ts)
  have "list_all utf8_char (tok_chars t)"
    using Cons.prems
    by (cases t)
      (auto simp: list_all_iff singles_def ident_text_def number_text_def ident_char_def number_char_def
        one_byte_def ascii_defs escape_literal_utf8 [unfolded list_all_iff] intro!: utf8_ascii)
  then show ?case using Cons by (auto simp: spaced_def utf8_ascii is_ascii_def byte_def)
qed (simp add: spaced_def)

lemma separated_all: "list_all p (separated t ws) \<longleftrightarrow> (ws = [] \<or> length ws = 1 \<or> p t) \<and> list_all (list_all p) ws"
  by (induction t ws rule: separated.induct) auto

lemma digits_number_text: "s \<noteq> [] \<Longrightarrow> list_all is_ascii_digit s \<Longrightarrow> number_text s"
  by (cases s) (auto simp: number_text_def number_char_def one_byte_def list_all_iff)

lemma reserved_text: "ident_text ''true''" "ident_text ''false''" "ident_text ''async''" "ident_text ''await''"
  by (simp_all add: ident_text_def expr_char_defs)

lemma op_tok_writable [simp]: "tok_writable (op_tok bop)"
  by (cases bop) simp_all

lemma print_writable: "writable ft e \<Longrightarrow> list_all tok_writable (print_expr ft k e)"
proof (induction ft k e rule: print_expr.induct)
  case (4 ft k i)
  then show ?case by (simp add: show_int_def digits_number_text)
next
  case (6 ft k val unit)
  then show ?case
    by (auto simp: parens_if_def unit_text_def dest: split_on_single split: list.splits)
next
  case (7 ft k fs)
  then show ?case by (simp add: separated_all) (auto simp: list_all_iff)
next
  case (9 ft k callee args)
  then show ?case by (simp add: separated_all) (auto simp: list_all_iff)
qed (auto simp: plain_ident_def show_bool_def reserved_text parens_if_def)

text \<open>C16: the parser reads back what is printed: an expression whose names, numbers and strings have
  a text, written with a blank after every token and with no more parentheses than the levels of its
  operators need, is parsed as that expression. So each of the twelve operators binds as tightly as
  its level says and associates to the left, and calls, members, objects, quantities, \<open>?\<close>,
  \<open>async\<close> and \<open>await\<close> nest as they are written.\<close>

theorem parse_reads_printed:
  assumes "writable ft e"
  shows "parse_expr (expr_text ft e) = Inr e"
proof -
  have "lex_expr (expr_text ft e) = print_expr ft 0 e @ [TEof]"
    using print_writable [OF assms, of 0]
    by (simp add: lex_expr_def expr_text_def chars_concat spaced_utf8 lex_spaced)
  moreover have "or_expr (print_expr ft 0 e @ [TEof]) = Inr (e, [TEof])"
    using reads_whole [OF reads_print [OF assms, of 0], of "[TEof]"] by (simp add: follows_Cons)
  ultimately show ?thesis by (simp add: parse_expr_def)
qed

theorem parse_reads_printed_witness:
  "parse_expr (expr_text (\<lambda>_. ''0.5'')
     (EBinary (EBinary (EInt 1) Op_Subtract (EInt 2)) Op_Multiply
       (ECall (EMember (EIdent ''fx'') ''rate'') [EObject [(''to'', EString ''a\"b'')], EQuantity ''3'' ''km/h''])))
   = Inr (EBinary (EBinary (EInt 1) Op_Subtract (EInt 2)) Op_Multiply
       (ECall (EMember (EIdent ''fx'') ''rate'') [EObject [(''to'', EString ''a\"b'')], EQuantity ''3'' ''km/h'']))"
  by (rule parse_reads_printed) code_simp

end
