(* ===== verification/Expr_Type.thy ===== *)
theory Expr_Type
  imports Expr_Spec
begin

text \<open>
  The type of what \<open>parse\<close> of \<open>expr.rs\<close> returns, as an invariant of every method of the parser on
  the tokens that the lexer makes, and two texts that are not read as one might expect.
\<close>

section \<open>What is read is well formed\<close>

fun well_formed :: "expr \<Rightarrow> bool" where
  "well_formed (EIdent name) \<longleftrightarrow> plain_ident name"
| "well_formed (EString s) \<longleftrightarrow> True"
| "well_formed (EBool b) \<longleftrightarrow> True"
| "well_formed (EInt i) \<longleftrightarrow> 0 \<le> i \<and> i \<le> i64_max"
| "well_formed (EFloat f) \<longleftrightarrow> unat f \<le> 2047 * 2 ^ 52"
| "well_formed (EQuantity val unit) \<longleftrightarrow> number_text val \<and> unit_text unit"
| "well_formed (EObject fs) \<longleftrightarrow> list_all (\<lambda>f. well_formed (snd f)) fs"
| "well_formed (EMember obj fld) \<longleftrightarrow> well_formed obj \<and> ident_text fld"
| "well_formed (ECall callee args) \<longleftrightarrow> well_formed callee \<and> list_all well_formed args"
| "well_formed (ETry inner) \<longleftrightarrow> well_formed inner"
| "well_formed (EAsync inner) \<longleftrightarrow> well_formed inner"
| "well_formed (EAwait inner) \<longleftrightarrow> well_formed inner"
| "well_formed (EBinary l bop r) \<longleftrightarrow> well_formed l \<and> well_formed r"

fun tok_ok :: "etok \<Rightarrow> bool" where
  "tok_ok (TIdent s) = ident_text s"
| "tok_ok (TNumber s) = number_text s"
| "tok_ok _ = True"

lemma concat_one_byte:
  "list_all (one_byte p) xs \<Longrightarrow> list_all (\<lambda>c. one_byte p [c]) (concat xs)"
  by (induction xs) (auto simp: one_byte_def split: list.splits)

lemma takeWhile_all: "list_all p (takeWhile p xs)"
  by (auto simp: list_all_iff dest: set_takeWhileD)

lemma first_is_part: "ident_first ch \<Longrightarrow> ident_char ch" "one_byte is_ascii_digit ch \<Longrightarrow> number_char ch"
  by (auto simp: ident_first_def ident_char_def number_char_def is_ascii_alphanumeric_def
      one_byte_def split: list.splits)

lemma ident_tok_ok: "ident_first ch \<Longrightarrow> ident_text (ch @ concat (takeWhile ident_char rest))"
proof -
  assume a: "ident_first ch"
  then obtain c where c: "ch = [c]" by (auto simp: ident_first_def elim: one_byte_cases)
  have "list_all (\<lambda>c. ident_char [c]) (concat (takeWhile ident_char rest))"
    using concat_one_byte [OF takeWhile_all [of ident_char rest, unfolded ident_char_def]]
    by (simp add: ident_char_def)
  then show ?thesis using a c first_is_part(1) [OF a] by (simp add: ident_text_def)
qed

lemma number_tok_ok: "one_byte is_ascii_digit ch \<Longrightarrow> number_text (ch @ concat (takeWhile number_char rest))"
proof -
  assume a: "one_byte is_ascii_digit ch"
  then obtain c where c: "ch = [c]" "is_ascii_digit c" by (auto elim: one_byte_cases)
  have "list_all (\<lambda>c. number_char [c]) (concat (takeWhile number_char rest))"
    using concat_one_byte [OF takeWhile_all [of number_char rest, unfolded number_char_def]]
    by (simp add: number_char_def)
  then show ?thesis using c first_is_part(2) [OF a] by (simp add: number_text_def)
qed

lemma table_toks_ok:
  "map_of single_tokens ch = Some t \<Longrightarrow> tok_ok t"
  "map_of pair_tokens ch = Some (second, both, alone) \<Longrightarrow> tok_ok both \<and> tok_ok alone"
  by (auto simp: single_tokens_def pair_tokens_def split: if_splits)

lemma lex_chars_ok: "list_all tok_ok (lex_chars cs)"
proof (induction cs rule: lex_chars.induct)
  case (2 ch rest)
  show ?case
  proof (cases "is_whitespace ch")
    case True
    then show ?thesis using 2(1) by (simp add: lex_chars.simps(2))
  next
    case False
    note f = this
    show ?thesis
    proof (cases "map_of single_tokens ch")
      case (Some t)
      then show ?thesis using f 2 table_toks_ok(1) [OF Some] by (simp add: lex_chars.simps(2))
    next
      case None
      note n = this
      show ?thesis
      proof (cases "map_of pair_tokens ch")
        case (Some x)
        obtain second both alone where x: "x = (second, both, alone)" by (cases x)
        then show ?thesis
          using f n Some 2 table_toks_ok(2) [OF Some [unfolded x]]
          by (simp add: lex_chars.simps(2))
      next
        case None
        then show ?thesis
          using f n 2
          by (cases "string_rest False [] rest") (auto simp: lex_chars.simps(2) ident_tok_ok number_tok_ok)
      qed
    qed
  qed
qed (simp add: lex_chars.simps)

definition good :: "('a \<Rightarrow> bool) \<Rightarrow> string + 'a \<times> etok list \<Rightarrow> bool" where
  "good p r \<longleftrightarrow> (\<forall>x rest. r = Inr (x, rest) \<longrightarrow> p x \<and> list_all tok_ok rest)"

lemma good_simps [simp]:
  "good p (Inl msg)" "good p (Inr (x, rest)) \<longleftrightarrow> p x \<and> list_all tok_ok rest"
  by (simp_all add: good_def)

lemma good_bind:
  "good p m \<Longrightarrow> (\<And>x rest. m = Inr (x, rest) \<Longrightarrow> p x \<Longrightarrow> list_all tok_ok rest \<Longrightarrow> good q (f (x, rest))) \<Longrightarrow>
     good q (res_bind m f)"
  by (cases m) (auto simp: good_def)

lemma upto_ok [simp]: "list_all tok_ok rest \<Longrightarrow> list_all tok_ok (upto ts rest)"
  by (simp add: upto_def)

lemma tl_ok [simp]: "list_all tok_ok ts \<Longrightarrow> list_all tok_ok (tl ts)"
  by (cases ts) simp_all

lemma f64_bits_of_ratio_bound: "unat (of_nat (f64_bits_of_ratio n d) :: f64) \<le> 2047 * 2 ^ 52"
proof -
  have "f64_bits_of_ratio n d \<le> 2047 * 2 ^ 52" by (simp add: f64_bits_of_ratio_def Let_def)
  then show ?thesis by (simp add: unat_of_nat)
qed

lemma unit_text_pair: "ident_text a \<Longrightarrow> ident_text b \<Longrightarrow> unit_text (a @ ''/'' @ b)"
proof -
  assume ab: "ident_text a" "ident_text b"
  have no: "CHR ''/'' \<notin> set s" if "ident_text s" for s
    using that by (auto simp: ident_text_def list_all_iff expr_char_defs)
  show ?thesis
    using ab no [OF ab(1)] no [OF ab(2)] by (simp add: unit_text_def split_on_append split_on_absent)
qed

lemma unit_text_single: "ident_text a \<Longrightarrow> unit_text a"
proof -
  assume a: "ident_text a"
  then have "CHR ''/'' \<notin> set a" by (auto simp: ident_text_def list_all_iff expr_char_defs)
  with a show ?thesis by (simp add: unit_text_def split_on_absent)
qed

lemma number_literal_good:
  assumes "number_text val" and "list_all tok_ok ts"
  shows "good well_formed (number_literal val ts)"
proof -
  have "parse_signed i64_min i64_max val = Some i \<Longrightarrow> 0 \<le> i" for i
    using assms(1) by (cases val)
      (auto simp: parse_signed_def number_text_def expr_char_defs result_simps split: if_splits Option.bind_splits)
  moreover have "parse_signed i64_min i64_max val = Some i \<Longrightarrow> i \<le> i64_max" for i
    by (auto simp: parse_signed_def result_simps bind_eq_Some_conv split: list.splits if_splits)
  moreover have "parse_f64_digits val = Some f \<Longrightarrow> unat f \<le> 2047 * 2 ^ 52" for f
    using f64_bits_of_ratio_bound by (auto simp: parse_f64_digits_def split: list.splits)
  ultimately show ?thesis
    using assms
    by (auto simp: number_literal_def good_def result_simps unit_text_pair [simplified] unit_text_single
        split: list.splits etok.splits if_splits)
qed

lemma good_expect: "list_all tok_ok us \<Longrightarrow> p e \<Longrightarrow> good p (res_map (Pair e) (expect t msg us))"
  by (auto simp: good_def result_simps)

lemma good_map: "good p m \<Longrightarrow> (\<And>x. p x \<Longrightarrow> q (f x)) \<Longrightarrow> good q (res_map (\<lambda>(x, rest). (f x, rest)) m)"
  by (auto simp: good_def result_simps)

lemma good_named: "list_all tok_ok ts \<Longrightarrow> good (\<lambda>_. True) (named_field e1 e2 ts)"
  by (auto simp: good_def result_simps)

lemma member_name_ok: "list_all tok_ok ts \<Longrightarrow> member_name ts = Some (fld, rest) \<Longrightarrow> ident_text fld \<and> list_all tok_ok rest"
  by (cases ts rule: member_name.cases) auto

lemma good_expect_bind:
  "list_all tok_ok us \<Longrightarrow>
   (\<And>vs. expect t msg us = Inr vs \<Longrightarrow> list_all tok_ok vs \<Longrightarrow> good q (f vs)) \<Longrightarrow>
   good q (res_bind (expect t msg us) f)"
proof (cases "expect t msg us")
  case (Inr vs)
  assume "list_all tok_ok us"
    and f: "\<And>vs. expect t msg us = Inr vs \<Longrightarrow> list_all tok_ok vs \<Longrightarrow> good q (f vs)"
  moreover have "us = t # vs" using Inr by (simp add: result_simps)
  ultimately have "good q (f vs)" using f [OF Inr] by simp
  with Inr show ?thesis by simp
qed simp

lemma parser_good:
  fixes ts :: "etok list" and e :: expr and fs :: "(string \<times> expr) list" and args :: "expr list"
  shows "list_all tok_ok ts \<Longrightarrow> good well_formed (or_expr ts)"
  and "well_formed e \<Longrightarrow> list_all tok_ok ts \<Longrightarrow> good well_formed (or_loop e ts)"
  and "well_formed e \<Longrightarrow> list_all tok_ok ts \<Longrightarrow> good well_formed (and_loop e ts)"
  and "well_formed e \<Longrightarrow> list_all tok_ok ts \<Longrightarrow> good well_formed (equality_loop e ts)"
  and "well_formed e \<Longrightarrow> list_all tok_ok ts \<Longrightarrow> good well_formed (comparison_loop e ts)"
  and "well_formed e \<Longrightarrow> list_all tok_ok ts \<Longrightarrow> good well_formed (additive_loop e ts)"
  and "well_formed e \<Longrightarrow> list_all tok_ok ts \<Longrightarrow> good well_formed (multiplicative_loop e ts)"
  and "well_formed e \<Longrightarrow> list_all tok_ok ts \<Longrightarrow> good well_formed (postfix_loop e ts)"
  and "list_all tok_ok ts \<Longrightarrow> good well_formed (and_expr ts)"
  and "list_all tok_ok ts \<Longrightarrow> good well_formed (equality ts)"
  and "list_all tok_ok ts \<Longrightarrow> good well_formed (comparison ts)"
  and "list_all tok_ok ts \<Longrightarrow> good well_formed (additive ts)"
  and "list_all tok_ok ts \<Longrightarrow> good well_formed (multiplicative ts)"
  and "list_all tok_ok ts \<Longrightarrow> good well_formed (postfix ts)"
  and "list_all tok_ok ts \<Longrightarrow> good well_formed (primary ts)"
  and "list_all tok_ok ts \<Longrightarrow> good well_formed (object_literal ts)"
  and "list_all (\<lambda>f. well_formed (snd f)) fs \<Longrightarrow> list_all tok_ok ts \<Longrightarrow> good well_formed (object_fields fs ts)"
  and "list_all (\<lambda>f. well_formed (snd f)) fs \<Longrightarrow> list_all tok_ok ts \<Longrightarrow> good well_formed (named_arguments fs ts)"
  and "list_all tok_ok ts \<Longrightarrow> good (list_all well_formed) (call_arguments ts)"
  and "list_all well_formed args \<Longrightarrow> list_all tok_ok ts \<Longrightarrow> good (list_all well_formed) (argument_loop args ts)"
proof (induction ts and e ts and e ts and e ts and e ts and e ts and e ts and e ts and ts and ts and ts and ts
    and ts and ts and ts and ts and fs ts and fs ts and ts and args ts
    rule: parser_induct)
  case (1 ts)
  then show ?case by (subst or_expr.simps) (auto intro!: good_bind [where p = well_formed])
next
  case (2 e ts)
  then show ?case
    by (subst or_loop.simps) (auto split: list.split option.split intro!: good_bind [where p = well_formed])
next
  case (3 ts)
  then show ?case by (subst and_expr.simps) (auto intro!: good_bind [where p = well_formed])
next
  case (4 e ts)
  then show ?case
    by (subst and_loop.simps) (auto split: list.split option.split intro!: good_bind [where p = well_formed])
next
  case (5 ts)
  then show ?case by (subst equality.simps) (auto intro!: good_bind [where p = well_formed])
next
  case (6 e ts)
  then show ?case
    by (subst equality_loop.simps) (auto split: list.split option.split intro!: good_bind [where p = well_formed])
next
  case (7 ts)
  then show ?case by (subst comparison.simps) (auto intro!: good_bind [where p = well_formed])
next
  case (8 e ts)
  then show ?case
    by (subst comparison_loop.simps) (auto split: list.split option.split intro!: good_bind [where p = well_formed])
next
  case (9 ts)
  then show ?case by (subst additive.simps) (auto intro!: good_bind [where p = well_formed])
next
  case (10 e ts)
  then show ?case
    by (subst additive_loop.simps) (auto split: list.split option.split intro!: good_bind [where p = well_formed])
next
  case (11 ts)
  then show ?case by (subst multiplicative.simps) (auto intro!: good_bind [where p = well_formed])
next
  case (12 e ts)
  then show ?case
    by (subst multiplicative_loop.simps) (auto split: list.split option.split intro!: good_bind [where p = well_formed])
next
  case (13 ts)
  then show ?case by (subst postfix.simps) (auto intro!: good_bind [where p = well_formed])
next
  case (14 e ts)
  show ?case
    by (subst postfix_loop.simps)
      (use 14 in \<open>auto split: option.split dest: member_name_ok [OF tl_ok]
        intro!: good_bind [where p = "list_all well_formed"] good_expect_bind\<close>)
next
  case (15 ts)
  then show ?case by (subst call_arguments.simps) (auto intro!: good_map)
next
  case (16 args ts)
  then show ?case by (subst argument_loop.simps) (auto intro!: good_bind [where p = well_formed])
next
  case (17 fs ts)
  then show ?case
    by (subst named_arguments.simps) (auto simp: Let_def intro!: good_bind [OF good_named] good_bind [where p = well_formed])
next
  case (18 ts)
  show ?case
  proof (cases ts)
    case (Cons t us)
    then show ?thesis using 18 by (cases t)
      (auto simp: primary.simps plain_ident_def good_expect number_literal_good
        intro!: good_bind [where p = well_formed] good_map [where p = well_formed])
  qed (simp add: primary.simps)
next
  case (19 ts)
  then show ?case by (subst object_literal.simps) auto
next
  case (20 fs ts)
  then show ?case
    by (subst object_fields.simps) (auto simp: Let_def intro!: good_bind [OF good_named] good_bind [where p = well_formed] good_expect)
qed

text \<open>C30: what the parser accepts is well formed: identifiers have the shape of one and are not
  reserved, integers are between 0 and the largest \<open>i64\<close>, floats are neither negative nor a NaN, the
  value and the unit of a quantity are a number and one or two names, all the way down.\<close>

theorem parse_well_formed:
  assumes "parse_expr txt = Inr e"
  shows "well_formed e"
proof -
  have "good well_formed (or_expr (lex_expr txt))"
    by (rule parser_good) (simp add: lex_expr_def lex_chars_ok)
  then show ?thesis using assms by (auto simp: parse_expr_def good_def result_simps split: if_splits)
qed

theorem parse_well_formed_witness:
  "well_formed (EBinary (EQuantity ''10'' ''km/h'') Op_LessThan (EAwait (EIdent ''speed'')))"
proof -
  have "parse_expr ''10 km/h < await speed''
      = Inr (EBinary (EQuantity ''10'' ''km/h'') Op_LessThan (EAwait (EIdent ''speed'')))"
    by code_simp
  then show ?thesis by (rule parse_well_formed)
qed

text \<open>A quantity takes a division by a name as a part of its unit, and an escaped \<open>n\<close> is the letter.\<close>

lemma quantity_takes_division: "parse_expr ''10 km / rate'' = Inr (EQuantity ''10'' ''km/rate'')"
  by code_simp

lemma escape_is_dropped: "parse_expr [CHR 0x22, CHR 0x5C, CHR ''n'', CHR 0x22] = Inr (EString ''n'')"
  by code_simp

end
