(* ===== verification/Hashing.thy ===== *)
theory Hashing
  imports Rust_Strings
begin

text \<open>
  \<open>num-runtime/src/hashing.rs\<close>: SHA-256 as the source computes it, on a struct with a 64-byte
  buffer that is filled byte by byte, HMAC, and the two base64 encodings. Bytes are \<open>8 word\<close>,
  the hash works on \<open>32 word\<close>, the bit count is a wrapping \<open>64 word\<close>; arrays are lists updated
  by index. The reference at the end is the standard's: pad the message, cut it into blocks,
  schedule and fold.
\<close>

unbundle bit_operations_syntax

type_synonym u8 = "8 word"
type_synonym u32 = "32 word"

section \<open>SHA-256\<close>

record sha256_state =
  sha_state :: "u32 list"
  buffer :: "u8 list"
  buffer_len :: nat
  bit_len :: "64 word"

definition new_sha256 :: sha256_state where
  "new_sha256 =
     \<lparr>sha_state = [0x6a09e667, 0xbb67ae85, 0x3c6ef372, 0xa54ff53a, 0x510e527f, 0x9b05688c, 0x1f83d9ab,
        0x5be0cd19],
      buffer = replicate 64 0, buffer_len = 0, bit_len = 0\<rparr>"

definition SHA256_K :: "u32 list" where
  "SHA256_K = concat
    [[0x428a2f98, 0x71374491, 0xb5c0fbcf, 0xe9b5dba5, 0x3956c25b, 0x59f111f1, 0x923f82a4, 0xab1c5ed5],
     [0xd807aa98, 0x12835b01, 0x243185be, 0x550c7dc3, 0x72be5d74, 0x80deb1fe, 0x9bdc06a7, 0xc19bf174],
     [0xe49b69c1, 0xefbe4786, 0x0fc19dc6, 0x240ca1cc, 0x2de92c6f, 0x4a7484aa, 0x5cb0a9dc, 0x76f988da],
     [0x983e5152, 0xa831c66d, 0xb00327c8, 0xbf597fc7, 0xc6e00bf3, 0xd5a79147, 0x06ca6351, 0x14292967],
     [0x27b70a85, 0x2e1b2138, 0x4d2c6dfc, 0x53380d13, 0x650a7354, 0x766a0abb, 0x81c2c92e, 0x92722c85],
     [0xa2bfe8a1, 0xa81a664b, 0xc24b8b70, 0xc76c51a3, 0xd192e819, 0xd6990624, 0xf40e3585, 0x106aa070],
     [0x19a4c116, 0x1e376c08, 0x2748774c, 0x34b0bcb5, 0x391c0cb3, 0x4ed8aa4a, 0x5b9cca4f, 0x682e6ff3],
     [0x748f82ee, 0x78a5636f, 0x84c87814, 0x8cc70208, 0x90befffa, 0xa4506ceb, 0xbef9a3f7, 0xc67178f2]]"

text \<open>\<open>from_be_bytes\<close> and \<open>to_be_bytes\<close>.\<close>

definition u32_of_be :: "u8 list \<Rightarrow> u32" where
  "u32_of_be bs =
     push_bit 24 (ucast (bs ! 0)) OR push_bit 16 (ucast (bs ! 1)) OR push_bit 8 (ucast (bs ! 2)) OR ucast (bs ! 3)"

definition u32_to_be :: "u32 \<Rightarrow> u8 list" where
  "u32_to_be w = [ucast (drop_bit 24 w), ucast (drop_bit 16 w), ucast (drop_bit 8 w), ucast w]"

definition u64_to_be :: "64 word \<Rightarrow> u8 list" where
  "u64_to_be w = map (\<lambda>i. ucast (drop_bit (8 * (7 - i)) w)) [0..<8]"

text \<open>\<open>buffer.chunks_exact(4).take(16)\<close> fills the first sixteen words; the loop fills the rest.\<close>

definition initial_words :: "u8 list \<Rightarrow> u32 list" where
  "initial_words buf = map (\<lambda>i. u32_of_be (take 4 (drop (4 * i) buf))) [0..<16] @ replicate 48 0"

definition extend_word :: "nat \<Rightarrow> u32 list \<Rightarrow> u32 list" where
  "extend_word i ws =
     (let s0 = word_rotr 7 (ws ! (i - 15)) XOR word_rotr 18 (ws ! (i - 15)) XOR drop_bit 3 (ws ! (i - 15));
          s1 = word_rotr 17 (ws ! (i - 2)) XOR word_rotr 19 (ws ! (i - 2)) XOR drop_bit 10 (ws ! (i - 2))
      in ws[i := ws ! (i - 16) + s0 + ws ! (i - 7) + s1])"

type_synonym registers = "u32 \<times> u32 \<times> u32 \<times> u32 \<times> u32 \<times> u32 \<times> u32 \<times> u32"

fun sha_round :: "u32 \<Rightarrow> u32 \<Rightarrow> registers \<Rightarrow> registers" where
  "sha_round k w (a, b, c, d, e, f, g, h) =
     (let s1 = word_rotr 6 e XOR word_rotr 11 e XOR word_rotr 25 e;
          ch = (e AND f) XOR (NOT e AND g);
          temp1 = h + s1 + ch + k + w;
          s0 = word_rotr 2 a XOR word_rotr 13 a XOR word_rotr 22 a;
          maj = (a AND b) XOR (a AND c) XOR (b AND c);
          temp2 = s0 + maj
      in (temp1 + temp2, a, b, c, d + temp1, e, f, g))"

definition registers_of :: "u32 list \<Rightarrow> registers" where
  "registers_of st = (st ! 0, st ! 1, st ! 2, st ! 3, st ! 4, st ! 5, st ! 6, st ! 7)"

fun add_registers :: "u32 list \<Rightarrow> registers \<Rightarrow> u32 list" where
  "add_registers st (a, b, c, d, e, f, g, h) =
     st[0 := st ! 0 + a, 1 := st ! 1 + b, 2 := st ! 2 + c, 3 := st ! 3 + d,
        4 := st ! 4 + e, 5 := st ! 5 + f, 6 := st ! 6 + g, 7 := st ! 7 + h]"

definition compress :: "sha256_state \<Rightarrow> sha256_state" where
  "compress s =
     (let ws = fold extend_word [16..<64] (initial_words (buffer s));
          regs = fold (\<lambda>i. sha_round (SHA256_K ! i) (ws ! i)) [0..<64] (registers_of (sha_state s))
      in s\<lparr>sha_state := add_registers (sha_state s) regs\<rparr>)"

definition update_byte :: "u8 \<Rightarrow> sha256_state \<Rightarrow> sha256_state" where
  "update_byte b s =
     (let s' = s\<lparr>buffer := (buffer s)[buffer_len s := b], buffer_len := buffer_len s + 1\<rparr>
      in if buffer_len s' = 64
         then (compress s')\<lparr>bit_len := bit_len s' + 512, buffer_len := 0\<rparr>
         else s')"

definition sha_update :: "u8 list \<Rightarrow> sha256_state \<Rightarrow> sha256_state" where
  "sha_update bytes s = fold update_byte bytes s"

text \<open>\<open>for index in from..to { self.buffer[index] = 0; }\<close>.\<close>

definition zero_from :: "nat \<Rightarrow> nat \<Rightarrow> u8 list \<Rightarrow> u8 list" where
  "zero_from start stop buf = fold (\<lambda>i b. b[i := 0]) [start..<stop] buf"

definition finalize :: "sha256_state \<Rightarrow> u8 list" where
  "finalize s =
     (let data_bits = bit_len s + of_nat (buffer_len s) * 8;
          s1 = s\<lparr>buffer := (buffer s)[buffer_len s := 0x80], buffer_len := buffer_len s + 1\<rparr>;
          s2 = (if 56 < buffer_len s1
                then (compress (s1\<lparr>buffer := zero_from (buffer_len s1) 64 (buffer s1)\<rparr>))\<lparr>buffer_len := 0\<rparr>
                else s1);
          s3 = s2\<lparr>buffer := take 56 (zero_from (buffer_len s2) 56 (buffer s2)) @ u64_to_be data_bits\<rparr>
      in concat (map u32_to_be (sha_state (compress s3))))"

definition sha256 :: "u8 list \<Rightarrow> u8 list" where
  "sha256 bytes = finalize (sha_update bytes new_sha256)"

definition hex_digit :: "nat \<Rightarrow> char" where
  "hex_digit n = (if n < 10 then char_of (48 + n) else char_of (87 + n))"

definition sha256_hex :: "u8 list \<Rightarrow> string" where
  "sha256_hex bytes =
     concat (map (\<lambda>b. [hex_digit (unat b div 16), hex_digit (unat b mod 16)]) (sha256 bytes))"

text \<open>HMAC with a block of 64 bytes.\<close>

definition normalized_key :: "u8 list \<Rightarrow> u8 list" where
  "normalized_key key =
     (let k = (if 64 < length key then sha256 key else key) in k @ replicate (64 - length k) 0)"

definition hmac_sha256 :: "u8 list \<Rightarrow> u8 list \<Rightarrow> u8 list" where
  "hmac_sha256 key msg =
     (let k = normalized_key key;
          outer = map (\<lambda>i. 0x5c XOR k ! i) [0..<64];
          inner = map (\<lambda>i. 0x36 XOR k ! i) [0..<64]
      in sha256 (outer @ sha256 (inner @ msg)))"

section \<open>Base64\<close>

definition ALPHABET :: string where
  "ALPHABET = ''ABCDEFGHIJKLMNOPQRSTUVWXYZabcdefghijklmnopqrstuvwxyz0123456789+/''"

definition alphabet_char :: "u8 \<Rightarrow> char" where "alphabet_char v = ALPHABET ! unat v"

fun base64_encode :: "u8 list \<Rightarrow> string" where
  "base64_encode [] = []"
| "base64_encode [b0] =
     [alphabet_char (drop_bit 2 b0), alphabet_char (push_bit 4 (b0 AND 3)), CHR ''='', CHR ''='']"
| "base64_encode [b0, b1] =
     [alphabet_char (drop_bit 2 b0), alphabet_char (push_bit 4 (b0 AND 3) OR drop_bit 4 b1),
      alphabet_char (push_bit 2 (b1 AND 15)), CHR ''='']"
| "base64_encode (b0 # b1 # b2 # bs) =
     [alphabet_char (drop_bit 2 b0), alphabet_char (push_bit 4 (b0 AND 3) OR drop_bit 4 b1),
      alphabet_char (push_bit 2 (b1 AND 15) OR drop_bit 6 b2), alphabet_char (b2 AND 63)]
     @ base64_encode bs"

definition sha256_base64 :: "u8 list \<Rightarrow> string" where
  "sha256_base64 bytes = base64_encode (sha256 bytes)"

definition base64_value :: "char \<Rightarrow> u8 option" where
  "base64_value c =
     (let n = byte c in
      if is_ascii_upper c then Some (of_nat (n - 65))
      else if is_ascii_lower c then Some (of_nat (n - 97 + 26))
      else if is_ascii_digit c then Some (of_nat (n - 48 + 52))
      else if c = CHR ''+'' then Some 62
      else if c = CHR ''/'' then Some 63
      else None)"

text \<open>A byte as a \<open>char\<close>, printed: the UTF-8 encoding of the code point with its number.\<close>

definition latin1 :: "char \<Rightarrow> string" where
  "latin1 c = (if byte c < 128 then [c] else [char_of (192 + byte c div 64), char_of (128 + byte c mod 64)])"

text \<open>The values of one chunk of four characters and its padding.\<close>

fun chunk_values :: "string \<Rightarrow> nat \<Rightarrow> string + (u8 list \<times> nat)" where
  "chunk_values [] padding = Ok ([], padding)"
| "chunk_values (c # cs) padding =
     (if c = CHR ''='' then res_map (\<lambda>(vs, p). (0 # vs, p)) (chunk_values cs (padding + 1))
      else if 0 < padding then Err ''base64 padding must be at the end''
      else (case base64_value c of
              None \<Rightarrow> Err (''invalid base64 character '' @ [CHR 0x27] @ latin1 c @ [CHR 0x27])
            | Some v \<Rightarrow> res_map (\<lambda>(vs, p). (v # vs, p)) (chunk_values cs padding)))"

definition chunk_bytes :: "u8 list \<Rightarrow> nat \<Rightarrow> u8 list" where
  "chunk_bytes vs padding =
     [push_bit 2 (vs ! 0) OR drop_bit 4 (vs ! 1)]
     @ (if padding < 2 then [push_bit 4 (vs ! 1) OR drop_bit 2 (vs ! 2)] else [])
     @ (if padding = 0 then [push_bit 6 (vs ! 2) OR vs ! 3] else [])"

fun decode_chunks :: "string \<Rightarrow> string + u8 list" where
  "decode_chunks (c0 # c1 # c2 # c3 # cs) =
     res_bind (chunk_values [c0, c1, c2, c3] 0) (\<lambda>(vs, padding).
     if 2 < padding then Err ''base64 padding may contain at most two `=` characters''
     else res_map (\<lambda>bs. chunk_bytes vs padding @ bs) (decode_chunks cs))"
| "decode_chunks _ = Ok []"

definition base64_decode :: "string \<Rightarrow> string + u8 list" where
  "base64_decode input =
     (let normalized = trim input in
      if normalized = [] then Ok []
      else if length normalized mod 4 \<noteq> 0 then Err ''base64 length must be a multiple of 4''
      else decode_chunks normalized)"

definition trim_end_matches :: "char \<Rightarrow> string \<Rightarrow> string" where
  "trim_end_matches d s = rev (dropWhile (\<lambda>c. c = d) (rev s))"

definition base64url_encode_no_pad :: "u8 list \<Rightarrow> string" where
  "base64url_encode_no_pad bytes =
     replace ''/'' ''_'' (replace ''+'' ''-'' (trim_end_matches (CHR ''='') (base64_encode bytes)))"

definition base64url_decode :: "string \<Rightarrow> string + u8 list" where
  "base64url_decode input =
     (let normalized = trim input in
      if CHR ''='' \<in> set normalized then Err ''base64url input must be unpadded''
      else if list_ex (\<lambda>c. \<not> is_ascii_alphanumeric c \<and> c \<noteq> CHR ''-'' \<and> c \<noteq> CHR ''_'') normalized
      then Err ''base64url input contains invalid characters''
      else
        (let standard = replace ''_'' ''/'' (replace ''-'' ''+'' normalized) in
         if length standard mod 4 = 0 then base64_decode standard
         else if length standard mod 4 = 2 then base64_decode (standard @ ''=='')
         else if length standard mod 4 = 3 then base64_decode (standard @ ''='')
         else Err ''base64url length is invalid''))"
section \<open>The standard\<close>

text \<open>SHA-256 as FIPS 180-4 defines it: the padded message in blocks of 64 bytes, the message
  schedule as a recursion.\<close>

fun schedule :: "(nat \<Rightarrow> u32) \<Rightarrow> nat \<Rightarrow> u32" where
  "schedule m t =
     (if t < 16 then m t
      else (word_rotr 17 (schedule m (t - 2)) XOR word_rotr 19 (schedule m (t - 2)) XOR drop_bit 10 (schedule m (t - 2)))
         + schedule m (t - 7)
         + (word_rotr 7 (schedule m (t - 15)) XOR word_rotr 18 (schedule m (t - 15)) XOR drop_bit 3 (schedule m (t - 15)))
         + schedule m (t - 16))"

declare schedule.simps [simp del]

definition block_word :: "u8 list \<Rightarrow> nat \<Rightarrow> u32" where
  "block_word block t = u32_of_be (take 4 (drop (4 * t) block))"

definition hash_block :: "u8 list \<Rightarrow> u32 list \<Rightarrow> u32 list" where
  "hash_block block h =
     add_registers h
       (fold (\<lambda>t. sha_round (SHA256_K ! t) (schedule (block_word block) t)) [0..<64] (registers_of h))"

function blocks :: "u8 list \<Rightarrow> u8 list list" where
  "blocks bs = (if bs = [] then [] else take 64 bs # blocks (drop 64 bs))"
  by pat_completeness auto
termination by (relation "measure length") auto

declare blocks.simps [simp del]

definition pad :: "u8 list \<Rightarrow> u8 list" where
  "pad msg = msg @ [0x80] @ replicate ((119 - length msg mod 64) mod 64) 0
     @ u64_to_be (of_nat (8 * length msg))"

definition hash_blocks :: "u8 list \<Rightarrow> u32 list" where
  "hash_blocks bs = fold hash_block (blocks bs) (sha_state new_sha256)"

definition sha256_standard :: "u8 list \<Rightarrow> u8 list" where
  "sha256_standard msg = concat (map u32_to_be (hash_blocks (pad msg)))"

section \<open>The source computes the standard\<close>

lemma schedule_small: "t < 16 \<Longrightarrow> schedule m t = m t"
  by (simp add: schedule.simps [of m t])

lemma extend_word_nth:
  assumes "length ws = 64" and "16 \<le> n" and "n < 64" and "\<And>i. i < n \<Longrightarrow> ws ! i = schedule m i"
  shows "extend_word n ws ! n = schedule m n"
  using assms(1-3) by (simp add: extend_word_def Let_def schedule.simps [of m n] assms(4) add_ac)

lemma extend_words:
  assumes "16 \<le> n" and "n \<le> 64" and "length block = 64"
  shows "length (fold extend_word [16..<n] (initial_words block)) = 64
    \<and> (\<forall>i < n. fold extend_word [16..<n] (initial_words block) ! i = schedule (block_word block) i)"
  using assms(1,2)
proof (induction n rule: dec_induct)
  case base
  then show ?case
    by (auto simp: initial_words_def nth_append schedule_small) (simp add: block_word_def)
next
  case (step n)
  let ?ws = "fold extend_word [16..<n] (initial_words block)"
  have IH: "length ?ws = 64" "\<And>i. i < n \<Longrightarrow> ?ws ! i = schedule (block_word block) i"
    using step by simp_all
  have "extend_word n ?ws ! n = schedule (block_word block) n"
    using step.hyps(1) step.prems by (intro extend_word_nth IH) simp_all
  moreover have "extend_word n ?ws ! i = ?ws ! i" if "i < n" for i
    using that by (simp add: extend_word_def Let_def)
  moreover have "length (extend_word n ?ws) = 64" using IH(1) by (simp add: extend_word_def Let_def)
  ultimately show ?case
    using step.hyps IH by (auto simp: less_Suc_eq)
qed

lemma compress_state:
  assumes "length (buffer s) = 64"
  shows "compress s = s\<lparr>sha_state := hash_block (buffer s) (sha_state s)\<rparr>"
proof -
  have "fold (\<lambda>i. sha_round (SHA256_K ! i) (fold extend_word [16..<64] (initial_words (buffer s)) ! i)) [0..<64] r
      = fold (\<lambda>t. sha_round (SHA256_K ! t) (schedule (block_word (buffer s)) t)) [0..<64] r" for r
    by (rule fold_cong) (use extend_words [of 64 "buffer s"] assms in auto)
  then show ?thesis by (simp add: compress_def hash_block_def Let_def)
qed

lemma blocks_append: "64 dvd length xs \<Longrightarrow> blocks (xs @ ys) = blocks xs @ blocks ys"
proof (induction xs rule: blocks.induct)
  case (1 xs)
  show ?case
  proof (cases "xs = []")
    case True
    then show ?thesis by (simp add: blocks.simps [of "[]"])
  next
    case False
    then have l: "64 \<le> length xs" using dvd_imp_le [OF 1(2)] by simp
    with 1(2) have "64 dvd length (drop 64 xs)" by (simp add: dvd_diff_nat)
    with 1(1) False have "blocks (drop 64 xs @ ys) = blocks (drop 64 xs) @ blocks ys" by blast
    with False l show ?thesis by (simp add: blocks.simps [of "xs @ ys"] blocks.simps [of xs])
  qed
qed

lemma blocks_one: "length b = 64 \<Longrightarrow> blocks b = [b]"
  by (subst blocks.simps) (auto simp: blocks.simps [of "[]"])

lemma hash_blocks_append:
  "64 dvd length xs \<Longrightarrow> length b = 64 \<Longrightarrow> hash_blocks (xs @ b) = hash_block b (hash_blocks xs)"
  by (simp add: hash_blocks_def blocks_append blocks_one)

text \<open>The struct after some bytes: whole blocks are hashed, the rest is at the start of the buffer.\<close>

definition sha_inv :: "u8 list \<Rightarrow> u8 list \<Rightarrow> sha256_state \<Rightarrow> bool" where
  "sha_inv full rest s \<longleftrightarrow> 64 dvd length full \<and> length rest < 64 \<and> length (buffer s) = 64
     \<and> buffer_len s = length rest \<and> take (length rest) (buffer s) = rest
     \<and> sha_state s = hash_blocks full \<and> bit_len s = of_nat (8 * length full)"

lemma sha_inv_byte:
  assumes "sha_inv full rest s"
  shows "if length rest = 63 then sha_inv (full @ rest @ [b]) [] (update_byte b s)
    else sha_inv full (rest @ [b]) (update_byte b s)"
proof -
  note inv = assms [unfolded sha_inv_def]
  let ?buf = "(buffer s)[length rest := b]"
  have t: "take (Suc (length rest)) ?buf = rest @ [b]"
    using inv by (subst take_Suc_conv_app_nth) auto
  show ?thesis
  proof (cases "length rest = 63")
    case True
    then have "?buf = rest @ [b]" using t inv by simp
    moreover have "64 dvd length full + 64" using inv by simp
    ultimately show ?thesis
      using inv True hash_blocks_append [of full "rest @ [b]"]
      by (simp add: sha_inv_def update_byte_def Let_def compress_state algebra_simps)
  next
    case False
    then show ?thesis using inv t by (simp add: sha_inv_def update_byte_def Let_def)
  qed
qed

lemma sha_inv_update: "\<exists>full rest. bytes = full @ rest \<and> sha_inv full rest (sha_update bytes new_sha256)"
proof (induction bytes rule: rev_induct)
  case Nil
  then show ?case
    by (simp add: sha_update_def sha_inv_def hash_blocks_def blocks.simps [of "[]"]) (simp add: new_sha256_def)
next
  case (snoc b bytes)
  then obtain full rest where r: "bytes = full @ rest" "sha_inv full rest (sha_update bytes new_sha256)" by blast
  have u: "sha_update (bytes @ [b]) new_sha256 = update_byte b (sha_update bytes new_sha256)"
    by (simp add: sha_update_def)
  show ?case
  proof (cases "length rest = 63")
    case True
    with sha_inv_byte [OF r(2), of b] r(1) show ?thesis
      unfolding u by (intro exI [of _ "full @ rest @ [b]"] exI [of _ "[]"]) simp
  next
    case False
    with sha_inv_byte [OF r(2), of b] r(1) show ?thesis
      unfolding u by (intro exI [of _ full] exI [of _ "rest @ [b]"]) simp
  qed
qed

lemma zero_from_nth:
  "stop \<le> length buf \<Longrightarrow> length (zero_from start stop buf) = length buf
     \<and> (\<forall>i < length buf. zero_from start stop buf ! i = (if start \<le> i \<and> i < stop then 0 else buf ! i))"
proof (induction stop)
  case (Suc stop)
  then show ?case
    by (cases "start \<le> stop") (auto simp: zero_from_def nth_list_update less_Suc_eq)
qed (simp add: zero_from_def)

lemma zero_from_eq:
  assumes "start \<le> stop" and "stop \<le> length buf"
  shows "take stop (zero_from start stop buf) = take start buf @ replicate (stop - start) 0"
  using assms zero_from_nth [OF assms(2), of start]
  by (intro nth_equalityI) (auto simp: nth_append)
lemma length_u64_to_be [simp]: "length (u64_to_be w) = 8"
  by (simp add: u64_to_be_def)

lemma finalize_standard:
  assumes "sha_inv full rest s"
  shows "finalize s = concat (map u32_to_be (hash_blocks (pad (full @ rest))))"
proof -
  note inv = assms [unfolded sha_inv_def]
  let ?l = "length rest" and ?bits = "u64_to_be (of_nat (8 * length (full @ rest)))"
  let ?buf = "(buffer s)[length rest := 0x80]"
  have bits: "bit_len s + of_nat (buffer_len s) * 8 = of_nat (8 * length (full @ rest))"
    using inv by (simp add: algebra_simps)
  have m: "length (full @ rest) mod 64 = ?l" using inv by (auto elim!: dvdE)
  have t: "take (Suc ?l) ?buf = rest @ [0x80]"
    using inv by (subst take_Suc_conv_app_nth) auto
  show ?thesis
  proof (cases "?l < 56")
    case True
    let ?b = "rest @ [0x80] @ replicate (55 - ?l) 0 @ ?bits"
    have "(119 - ?l) mod 64 = 55 - ?l"
    proof -
      have "119 - ?l = 55 - ?l + 64" using True by simp
      then show ?thesis by (metis mod_add_self2 mod_less less_imp_diff_less numeral_less_iff semiring_norm(76,78,81))
    qed
    then have p: "pad (full @ rest) = full @ ?b" unfolding pad_def m by simp
    have "take 56 (zero_from (Suc ?l) 56 ?buf) = rest @ [0x80] @ replicate (55 - ?l) 0"
      using zero_from_eq [of "Suc ?l" 56 ?buf] True inv t by simp
    then have "finalize s = concat (map u32_to_be (hash_block ?b (hash_blocks full)))"
      using True inv bits
      by (simp add: finalize_def Let_def compress_state mult.commute [of "word_of_nat (length rest)"])
    moreover have "length ?b = 64" using True by simp
    ultimately show ?thesis using hash_blocks_append inv p by simp
  next
    case False
    let ?b1 = "rest @ [0x80] @ replicate (63 - ?l) 0" and ?b2 = "replicate 56 0 @ ?bits"
    have k: "(119 - ?l) mod 64 = (63 - ?l) + 56" using False inv by simp
    have p: "pad (full @ rest) = full @ ?b1 @ ?b2" unfolding pad_def m k by (simp add: replicate_add)
    have l1: "length ?b1 = 64" using inv by simp
    have z1: "zero_from (Suc ?l) 64 ?buf = ?b1"
      using zero_from_eq [of "Suc ?l" 64 ?buf] inv t zero_from_nth [of 64 ?buf "Suc ?l"] by simp
    have z2: "take 56 (zero_from 0 56 ?b1) = replicate 56 0"
      using zero_from_eq [of 0 56 ?b1] l1 by simp
    have "finalize s = concat (map u32_to_be (hash_block ?b2 (hash_block ?b1 (hash_blocks full))))"
      using False inv bits z1 z2 l1
      by (simp add: finalize_def Let_def compress_state mult.commute [of "word_of_nat (length rest)"])
    moreover have "64 dvd length (full @ ?b1)" using inv l1 by simp
    ultimately show ?thesis
      using hash_blocks_append [of full ?b1] hash_blocks_append [of "full @ ?b1" ?b2] inv l1 p by simp
  qed
qed

text \<open>C19: the incremental hash of the source, with its buffer, its block counter and its two-block
  end, is SHA-256 as the standard defines it, for every message.\<close>

theorem sha256_is_standard: "sha256 bytes = sha256_standard bytes"
  using sha_inv_update [of bytes] finalize_standard
  by (auto simp: sha256_def sha256_standard_def)

section \<open>Base64 is read back\<close>

lemma alphabet_table:
  "list_all (\<lambda>(c, i). base64_value c = Some (of_nat i)
     \<and> (is_ascii_alphanumeric c \<or> c = CHR ''+'' \<or> c = CHR ''/'')) (zip ALPHABET [0..<64])"
  by (simp add: ALPHABET_def base64_value_def Let_def ascii_defs upt_conv_Cons)

lemma alphabet_char_laws:
  assumes "take_bit 6 v = (v :: u8)"
  shows "base64_value (alphabet_char v) = Some v"
    and "is_ascii_alphanumeric (alphabet_char v) \<or> alphabet_char v = CHR ''+'' \<or> alphabet_char v = CHR ''/''"
proof -
  have "unat v = unat (take_bit 6 v)" using assms by simp
  also have "\<dots> < 64" by (simp add: unsigned_take_bit_eq take_bit_nat_def)
  finally have "unat v < length (zip ALPHABET [0..<64])" by (simp add: ALPHABET_def)
  from nth_mem [OF this] alphabet_table show "base64_value (alphabet_char v) = Some v"
    "is_ascii_alphanumeric (alphabet_char v) \<or> alphabet_char v = CHR ''+'' \<or> alphabet_char v = CHR ''/''"
    using \<open>unat v < length (zip ALPHABET [0..<64])\<close>
    by (auto simp: list_all_iff alphabet_char_def)
qed

lemma masks: "b AND 3 = take_bit 2 (b :: u8)" "b AND 15 = take_bit 4 b" "b AND 63 = take_bit 6 b"
  by (simp_all add: take_bit_eq_mask mask_eq_exp_minus_1)

lemma sextets [simp]:
  fixes b0 b1 b2 :: u8
  shows "take_bit 6 (drop_bit 2 b0) = drop_bit 2 b0"
    and "take_bit 6 (push_bit 4 (b0 AND 3) OR drop_bit 4 b1) = push_bit 4 (b0 AND 3) OR drop_bit 4 b1"
    and "take_bit 6 (push_bit 2 (b1 AND 15) OR drop_bit 6 b2) = push_bit 2 (b1 AND 15) OR drop_bit 6 b2"
    and "take_bit 6 (b2 AND 63) = b2 AND 63"
    and "take_bit 6 (push_bit 4 (b0 AND 3)) = push_bit 4 (b0 AND 3)"
    and "take_bit 6 (push_bit 2 (b1 AND 15)) = push_bit 2 (b1 AND 15)"
  unfolding masks by (rule bit_word_eqI; auto simp: bit_simps dest: bit_imp_le_length)+

lemma bits_u8: "(\<And>n. n \<in> {0, 1, 2, 3, 4, 5, 6, 7} \<Longrightarrow> bit a n = bit b n) \<Longrightarrow> a = (b :: u8)"
proof (rule bit_word_eqI)
  fix n assume "\<And>n. n \<in> {0, 1, 2, 3, 4, 5, 6, 7} \<Longrightarrow> bit a n = bit b n" and "n < LENGTH(8)"
  moreover from this(2) have "n \<in> {0, 1, 2, 3, 4, 5, 6, 7}" by (simp; arith)
  ultimately show "bit a n = bit b n" by blast
qed

lemma octets:
  fixes b0 b1 b2 :: u8
  shows "push_bit 2 (drop_bit 2 b0) OR drop_bit 4 (push_bit 4 (b0 AND 3) OR drop_bit 4 b1) = b0"
    and "push_bit 4 (push_bit 4 (b0 AND 3) OR drop_bit 4 b1) OR drop_bit 2 (push_bit 2 (b1 AND 15) OR drop_bit 6 b2) = b1"
    and "push_bit 6 (push_bit 2 (b1 AND 15) OR drop_bit 6 b2) OR (b2 AND 63) = b2"
    and "push_bit 2 (drop_bit 2 b0) OR drop_bit 4 (push_bit 4 (b0 AND 3)) = b0"
    and "push_bit 4 (push_bit 4 (b0 AND 3) OR drop_bit 4 b1) OR drop_bit 2 (push_bit 2 (b1 AND 15)) = b1"
  unfolding masks by (rule bits_u8; auto simp: bit_simps numeral_2_eq_2 [symmetric])+


lemma no_equals [simp]: "base64_value (CHR ''='') = None"
  by (simp add: base64_value_def Let_def ascii_defs)

lemma chunk_values_char:
  "take_bit 6 v = (v :: u8) \<Longrightarrow>
   chunk_values (alphabet_char v # cs) 0 = res_map (\<lambda>(vs, p). (v # vs, p)) (chunk_values cs 0)"
  using alphabet_char_laws (1) [of v] by auto

lemma chunk_values_padding [simp]:
  "chunk_values [CHR ''=''] p = Ok ([0], p + 1)"
  "chunk_values [CHR ''='', CHR ''=''] p = Ok ([0, 0], p + 2)"
  by simp_all

lemma decode_quad:
  assumes "take_bit 6 v0 = v0" "take_bit 6 v1 = v1" "take_bit 6 v2 = v2" "take_bit 6 v3 = v3"
  shows "decode_chunks (alphabet_char v0 # alphabet_char v1 # alphabet_char v2 # alphabet_char v3 # cs)
      = res_map ((@) (chunk_bytes [v0, v1, v2, v3] 0)) (decode_chunks cs)"
    and "decode_chunks [alphabet_char v0, alphabet_char v1, alphabet_char v2, CHR ''='']
      = Ok (chunk_bytes [v0, v1, v2, 0] 1)"
    and "decode_chunks [alphabet_char v0, alphabet_char v1, CHR ''='', CHR ''='']
      = Ok (chunk_bytes [v0, v1, 0, 0] 2)"
  using assms by (simp_all add: chunk_values_char numeral_2_eq_2 [symmetric] del: chunk_values.simps(2))

lemma chunk_of:
  fixes b0 b1 b2 :: u8
  shows "chunk_bytes [drop_bit 2 b0, push_bit 4 (b0 AND 3) OR drop_bit 4 b1,
      push_bit 2 (b1 AND 15) OR drop_bit 6 b2, b2 AND 63] 0 = [b0, b1, b2]"
    and "chunk_bytes [drop_bit 2 b0, push_bit 4 (b0 AND 3) OR drop_bit 4 b1, push_bit 2 (b1 AND 15), 0] 1 = [b0, b1]"
    and "chunk_bytes [drop_bit 2 b0, push_bit 4 (b0 AND 3), 0, 0] 2 = [b0]"
  unfolding chunk_bytes_def numeral_2_eq_2 numeral_3_eq_3 One_nat_def nth_Cons_0 nth_Cons_Suc
  by (simp_all only: numeral_2_eq_2 [symmetric] octets) simp_all

lemma decode_encode: "decode_chunks (base64_encode bs) = Ok bs"
proof (induction bs rule: base64_encode.induct)
  case (2 b0)
  show ?case unfolding base64_encode.simps decode_quad(3) [OF sextets(1,5) sextets(4,4)] chunk_of ..
next
  case (3 b0 b1)
  show ?case unfolding base64_encode.simps decode_quad(2) [OF sextets(1,2,6) sextets(4)] chunk_of ..
next
  case (4 b0 b1 b2 bs)
  then show ?case
    unfolding base64_encode.simps append.simps decode_quad(1) [OF sextets(1,2,3,4)] chunk_of by simp
qed simp

definition in_alphabet :: "char \<Rightarrow> bool" where
  "in_alphabet c \<longleftrightarrow> is_ascii_alphanumeric c \<or> c = CHR ''+'' \<or> c = CHR ''/''"

lemma encode_shape:
  "\<exists>body p. base64_encode bs = body @ replicate p (CHR ''='') \<and> p \<le> 2 \<and> (length body + p) mod 4 = 0
     \<and> list_all in_alphabet body"
proof (induction bs rule: base64_encode.induct)
  case 1
  show ?case by (intro exI [of _ "[]"] exI [of _ 0]) simp
next
  case (2 b0)
  have "list_all in_alphabet [alphabet_char (drop_bit 2 b0), alphabet_char (push_bit 4 (b0 AND 3))]"
    by (simp only: list.pred_inject in_alphabet_def alphabet_char_laws(2) [OF sextets(1)]
        alphabet_char_laws(2) [OF sextets(5)] simp_thms)
  then show ?case
    by (intro exI [of _ "[alphabet_char (drop_bit 2 b0), alphabet_char (push_bit 4 (b0 AND 3))]"] exI [of _ 2])
      (simp only: base64_encode.simps numeral_2_eq_2 replicate.simps append.simps list.size; simp)
next
  case (3 b0 b1)
  let ?b = "[alphabet_char (drop_bit 2 b0), alphabet_char (push_bit 4 (b0 AND 3) OR drop_bit 4 b1),
      alphabet_char (push_bit 2 (b1 AND 15))]"
  have "list_all in_alphabet ?b"
    by (simp only: list.pred_inject in_alphabet_def alphabet_char_laws(2) [OF sextets(1)]
        alphabet_char_laws(2) [OF sextets(2)] alphabet_char_laws(2) [OF sextets(6)] simp_thms)
  then show ?case
    by (intro exI [of _ ?b] exI [of _ 1])
      (simp only: base64_encode.simps One_nat_def replicate.simps append.simps list.size; simp)
next
  case (4 b0 b1 b2 bs)
  let ?b = "[alphabet_char (drop_bit 2 b0), alphabet_char (push_bit 4 (b0 AND 3) OR drop_bit 4 b1),
      alphabet_char (push_bit 2 (b1 AND 15) OR drop_bit 6 b2), alphabet_char (b2 AND 63)]"
  have b: "list_all in_alphabet ?b"
    by (simp only: list.pred_inject in_alphabet_def alphabet_char_laws(2) [OF sextets(1)]
        alphabet_char_laws(2) [OF sextets(2)] alphabet_char_laws(2) [OF sextets(3)]
        alphabet_char_laws(2) [OF sextets(4)] simp_thms)
  from 4 obtain body p where "base64_encode bs = body @ replicate p (CHR ''='')" "p \<le> 2"
    "(length body + p) mod 4 = 0" "list_all in_alphabet body" by (elim exE conjE) (rule that)
  with b show ?case
    by (intro exI [of _ "?b @ body"] exI [of _ p])
      (simp only: base64_encode.simps append_assoc list_all_append length_append list.size; simp)
qed

lemma in_alphabet_char:
  "in_alphabet c \<Longrightarrow> is_ascii c \<and> \<not> is_whitespace [c] \<and> c \<noteq> CHR ''='' \<and> c \<noteq> CHR ''-'' \<and> c \<noteq> CHR ''_''"
  by (auto simp: in_alphabet_def ascii_defs is_whitespace_def)

lemma trim_alphabet:
  "list_all (\<lambda>c. in_alphabet c \<or> c = CHR ''='' \<or> c = CHR ''-'' \<or> c = CHR ''_'') s \<Longrightarrow> trim s = s"
proof (rule trim_no_ws)
  assume s: "list_all (\<lambda>c. in_alphabet c \<or> c = CHR ''='' \<or> c = CHR ''-'' \<or> c = CHR ''_'') s"
  have "is_ascii (CHR ''='') \<and> is_ascii (CHR ''-'') \<and> is_ascii (CHR ''_'')" by (simp add: ascii_defs)
  with s show "list_all is_ascii s" unfolding list_all_iff using in_alphabet_char by metis
  have "\<not> is_whitespace ''='' \<and> \<not> is_whitespace ''-'' \<and> \<not> is_whitespace ''_''"
    by (simp add: is_whitespace_def byte_def)
  with s show "\<not> is_whitespace [c]" if "c \<in> set s" for c
    using that in_alphabet_char unfolding list_all_iff by metis
qed

lemma base64_decode_encode: "base64_decode (base64_encode bs) = Ok bs"
proof -
  obtain body p where e: "base64_encode bs = body @ replicate p (CHR ''='')" "(length body + p) mod 4 = 0"
    "list_all in_alphabet body"
    using encode_shape [of bs] by (elim exE conjE) (rule that)
  then have "trim (base64_encode bs) = base64_encode bs"
    by (intro trim_alphabet) (auto simp: list_all_iff)
  moreover have "length (base64_encode bs) mod 4 = 0" using e by simp
  moreover have "base64_encode bs = [] \<Longrightarrow> bs = []" by (cases bs rule: base64_encode.cases) simp_all
  ultimately show ?thesis using decode_encode [of bs] by (auto simp: base64_decode_def Let_def)
qed

text \<open>The URL alphabet.\<close>

definition to_url :: "char \<Rightarrow> char" where
  "to_url c = (if c = CHR ''+'' then CHR ''-'' else if c = CHR ''/'' then CHR ''_'' else c)"

definition from_url :: "char \<Rightarrow> char" where
  "from_url c = (if c = CHR ''-'' then CHR ''+'' else if c = CHR ''_'' then CHR ''/'' else c)"

lemma replace_char: "replace [d] [e] s = map (\<lambda>c. if c = d then e else c) s"
  unfolding replace_single by (induction s) simp_all

lemma to_url_replace: "replace ''/'' ''_'' (replace ''+'' ''-'' s) = map to_url s"
  by (simp add: replace_char to_url_def)

lemma from_url_replace: "replace ''_'' ''/'' (replace ''-'' ''+'' s) = map from_url s"
  by (simp add: replace_char from_url_def)

lemma from_to_url: "list_all in_alphabet s \<Longrightarrow> map from_url (map to_url s) = s"
  by (induction s) (auto simp: to_url_def from_url_def dest: in_alphabet_char)

lemma to_url_char:
  "in_alphabet c \<Longrightarrow> to_url c \<noteq> CHR ''='' \<and> (is_ascii_alphanumeric (to_url c) \<or> to_url c = CHR ''-'' \<or> to_url c = CHR ''_'')"
  by (auto simp: in_alphabet_def to_url_def ascii_defs)

lemma trim_end_padding:
  "list_all in_alphabet body \<Longrightarrow> trim_end_matches (CHR ''='') (body @ replicate p (CHR ''='')) = body"
  by (cases body rule: rev_cases)
    (auto simp: trim_end_matches_def dropWhile_append dest: in_alphabet_char)

text \<open>C23: what \<open>base64_encode\<close> and \<open>base64url_encode_no_pad\<close> write, the decoders read back, for every
  byte string.\<close>

theorem base64_roundtrip:
  "base64_decode (base64_encode bs) = Ok bs \<and> base64url_decode (base64url_encode_no_pad bs) = Ok bs"
proof
  obtain body p where e: "base64_encode bs = body @ replicate p (CHR ''='')" "p \<le> 2" "(length body + p) mod 4 = 0"
    "list_all in_alphabet body"
    using encode_shape [of bs] by (elim exE conjE) (rule that)
  have url: "base64url_encode_no_pad bs = map to_url body"
    using e by (simp add: base64url_encode_no_pad_def to_url_replace trim_end_padding)
  have chars: "list_all (\<lambda>c. c \<noteq> CHR ''='' \<and> (is_ascii_alphanumeric c \<or> c = CHR ''-'' \<or> c = CHR ''_'')) (map to_url body)"
    using e(4) by (simp add: list_all_iff to_url_char)
  then have "trim (map to_url body) = map to_url body"
    by (intro trim_alphabet) (auto simp: list_all_iff in_alphabet_def)
  moreover have "CHR ''='' \<notin> set (map to_url body)"
    and "\<not> list_ex (\<lambda>c. \<not> is_ascii_alphanumeric c \<and> c \<noteq> CHR ''-'' \<and> c \<noteq> CHR ''_'') (map to_url body)"
    using chars by (auto simp: list_all_iff list_ex_iff)
  moreover have "map from_url (map to_url body) = body" using e(4) by (rule from_to_url)
  ultimately have d: "base64url_decode (map to_url body) =
      (if length body mod 4 = 0 then base64_decode body
       else if length body mod 4 = 2 then base64_decode (body @ ''=='')
       else if length body mod 4 = 3 then base64_decode (body @ ''='')
       else Err ''base64url length is invalid'')"
    unfolding base64url_decode_def Let_def from_url_replace by simp
  have "p = 0 \<and> length body mod 4 = 0 \<or> p = 1 \<and> length body mod 4 = 3 \<or> p = 2 \<and> length body mod 4 = 2"
    using e(2,3) by presburger
  then show "base64url_decode (base64url_encode_no_pad bs) = Ok bs"
    using base64_decode_encode [of bs] unfolding url d e(1) by (auto simp: numeral_2_eq_2)
qed (rule base64_decode_encode)

end
