(* ===== verification/Utf8.thy ===== *)
theory Utf8
  imports Rust_Strings
begin

text \<open>
  \<open>std::str::from_utf8\<close> and \<open>String::from_utf8_lossy\<close> on bytes: the well-formed sequences of the
  Unicode standard, the position and length of the first error, and the text in which every
  ill-formed part is replaced by U+FFFD.
\<close>

datatype utf8_step = Valid nat | Invalid nat | Incomplete

text \<open>The ranges of the bytes that follow a lead byte.\<close>

definition follow_ranges :: "nat \<Rightarrow> (nat \<times> nat) list option" where
  "follow_ranges b =
     (let tail = (128, 191) in
      if b < 128 then Some []
      else if 194 \<le> b \<and> b \<le> 223 then Some [tail]
      else if b = 224 then Some [(160, 191), tail]
      else if b = 237 then Some [(128, 159), tail]
      else if 225 \<le> b \<and> b \<le> 239 then Some [tail, tail]
      else if b = 240 then Some [(144, 191), tail, tail]
      else if 241 \<le> b \<and> b \<le> 243 then Some [tail, tail, tail]
      else if b = 244 then Some [(128, 143), tail, tail]
      else None)"

fun match_follow :: "(nat \<times> nat) list \<Rightarrow> string \<Rightarrow> nat \<Rightarrow> utf8_step" where
  "match_follow [] cs n = Valid n"
| "match_follow (r # rs) [] n = Incomplete"
| "match_follow ((lo, hi) # rs) (c # cs) n =
     (if lo \<le> byte c \<and> byte c \<le> hi then match_follow rs cs (n + 1) else Invalid n)"

definition utf8_step :: "char \<Rightarrow> string \<Rightarrow> utf8_step" where
  "utf8_step c cs = (case follow_ranges (byte c) of None \<Rightarrow> Invalid 1 | Some rs \<Rightarrow> match_follow rs cs 1)"

text \<open>The first error: its position, and its length unless the input ends within a sequence.\<close>

function utf8_error :: "nat \<Rightarrow> string \<Rightarrow> (nat \<times> nat option) option" where
  "utf8_error i [] = None"
| "utf8_error i (c # cs) =
     (case utf8_step c cs of
        Valid n \<Rightarrow> utf8_error (i + n) (drop (n - 1) cs)
      | Invalid n \<Rightarrow> Some (i, Some n)
      | Incomplete \<Rightarrow> Some (i, None))"
  by pat_completeness auto
termination by (relation "measure (\<lambda>(i, s). length s)") auto

definition from_utf8 :: "string \<Rightarrow> string + string" where
  "from_utf8 s =
     (case utf8_error 0 s of
        None \<Rightarrow> Ok s
      | Some (i, Some n) \<Rightarrow> Err (''invalid utf-8 sequence of '' @ show_nat n @ '' bytes from index '' @ show_nat i)
      | Some (i, None) \<Rightarrow> Err (''incomplete utf-8 byte sequence from index '' @ show_nat i))"

definition replacement_char :: string where
  "replacement_char = [char_of (239 :: nat), char_of (191 :: nat), char_of (189 :: nat)]"

function from_utf8_lossy :: "string \<Rightarrow> string" where
  "from_utf8_lossy [] = []"
| "from_utf8_lossy (c # cs) =
     (case utf8_step c cs of
        Valid n \<Rightarrow> c # take (n - 1) cs @ from_utf8_lossy (drop (n - 1) cs)
      | Invalid n \<Rightarrow> replacement_char @ from_utf8_lossy (drop (n - 1) cs)
      | Incomplete \<Rightarrow> replacement_char)"
  by pat_completeness auto
termination by (relation "measure length") auto

text \<open>Text that is well formed is kept, and ASCII is well formed.\<close>

lemma from_utf8_lossy_valid: "utf8_error i s = None \<Longrightarrow> from_utf8_lossy s = s"
  by (induction i s rule: utf8_error.induct) (auto split: utf8_step.splits)

lemma utf8_error_ascii: "list_all is_ascii s \<Longrightarrow> utf8_error i s = None"
  by (induction s arbitrary: i) (auto simp: utf8_step_def follow_ranges_def is_ascii_def Let_def)

end
