(* ===== verification/Documents.thy ===== *)
theory Documents
  imports Float_Bits Json
begin

text \<open>
  The document values of \<open>num-runtime/src/document.rs\<close>: the ten structs, their JSON, the JSON
  that connectors exchange (the same object under a key that names its type), the readers that
  accept either form, and the display texts. An \<open>i64\<close> is an \<open>int\<close> whose range is written out, a
  \<open>f64\<close> is its 64 bits.
\<close>

section \<open>The structs\<close>

record document_value =
  d_id :: string
  d_name :: string
  d_mime_type :: string
  d_size_bytes :: int
  d_source :: string
  d_privacy :: string
  d_trust :: string

record pdf_value =
  pdf_document :: document_value
  pdf_page_count :: int

record docx_value =
  docx_document :: document_value
  docx_title :: string
  docx_creator :: string
  docx_paragraph_count :: int

record spreadsheet_sheet_value =
  sheet_name :: string
  sheet_row_count :: int
  sheet_column_count :: int
  sheet_header_row :: int

record spreadsheet_value =
  ss_document :: document_value
  ss_sheet_count :: int
  ss_sheets :: "spreadsheet_sheet_value list"

record image_value =
  img_document :: document_value
  img_width :: int
  img_height :: int
  img_format :: string

record ocr_result_value =
  ocr_image :: image_value
  ocr_text :: string
  ocr_confidence :: f64
  ocr_provider :: string
  ocr_model :: string
  ocr_source :: string
  ocr_privacy :: string
  ocr_trust :: string

record extracted_text_value =
  ext_document :: document_value
  ext_text :: string
  ext_provider :: string
  ext_model :: string
  ext_source :: string
  ext_privacy :: string
  ext_trust :: string

record extraction_metadata_value =
  meta_document :: document_value
  meta_title :: string
  meta_author :: string
  meta_language :: string
  meta_page_count :: int
  meta_provider :: string
  meta_source :: string
  meta_privacy :: string
  meta_trust :: string

record extraction_error_value =
  xerr_document :: document_value
  xerr_code :: string
  xerr_message :: string
  xerr_retryable :: bool
  xerr_provider :: string
  xerr_source :: string
  xerr_privacy :: string
  xerr_trust :: string

section \<open>Display\<close>

definition dquoted :: "string \<Rightarrow> string" where
  "dquoted s = [CHR 0x22] @ s @ [CHR 0x22]"

definition show_document :: "document_value \<Rightarrow> string" where
  "show_document v =
     ''<document id='' @ dquoted (d_id v) @ '' name='' @ dquoted (d_name v) @ '' mime=''
     @ dquoted (d_mime_type v) @ '' size_bytes='' @ show_int (d_size_bytes v) @ ''>''"

definition show_pdf :: "pdf_value \<Rightarrow> string" where
  "show_pdf v =
     ''<pdf id='' @ dquoted (d_id (pdf_document v)) @ '' name=''
     @ dquoted (d_name (pdf_document v)) @ '' pages='' @ show_int (pdf_page_count v) @ ''>''"

definition show_docx :: "docx_value \<Rightarrow> string" where
  "show_docx v =
     ''<docx id='' @ dquoted (d_id (docx_document v)) @ '' name=''
     @ dquoted (d_name (docx_document v)) @ '' paragraphs='' @ show_int (docx_paragraph_count v)
     @ ''>''"

definition show_sheet :: "spreadsheet_sheet_value \<Rightarrow> string" where
  "show_sheet v =
     ''<spreadsheet_sheet name='' @ dquoted (sheet_name v) @ '' rows=''
     @ show_int (sheet_row_count v) @ '' columns='' @ show_int (sheet_column_count v)
     @ '' header_row='' @ show_int (sheet_header_row v) @ ''>''"

definition show_spreadsheet :: "spreadsheet_value \<Rightarrow> string" where
  "show_spreadsheet v =
     ''<spreadsheet id='' @ dquoted (d_id (ss_document v)) @ '' name=''
     @ dquoted (d_name (ss_document v)) @ '' sheets='' @ show_int (ss_sheet_count v) @ ''>''"

definition show_image :: "image_value \<Rightarrow> string" where
  "show_image v =
     ''<image id='' @ dquoted (d_id (img_document v)) @ '' name=''
     @ dquoted (d_name (img_document v)) @ '' format='' @ dquoted (img_format v) @ '' width=''
     @ show_int (img_width v) @ '' height='' @ show_int (img_height v) @ ''>''"

definition show_ocr_result :: "ocr_result_value \<Rightarrow> string" where
  "show_ocr_result v =
     ''<ocr_result image='' @ dquoted (d_id (img_document (ocr_image v))) @ '' provider=''
     @ dquoted (ocr_provider v) @ '' confidence='' @ show_f64_2 (ocr_confidence v) @ '' trust=''
     @ dquoted (ocr_trust v) @ ''>''"

definition show_extracted_text :: "extracted_text_value \<Rightarrow> string" where
  "show_extracted_text v =
     ''<extracted_document_text document='' @ dquoted (d_id (ext_document v)) @ '' provider=''
     @ dquoted (ext_provider v) @ '' trust='' @ dquoted (ext_trust v) @ ''>''"

definition show_extraction_metadata :: "extraction_metadata_value \<Rightarrow> string" where
  "show_extraction_metadata v =
     ''<document_extraction_metadata document='' @ dquoted (d_id (meta_document v))
     @ '' provider='' @ dquoted (meta_provider v) @ '' pages='' @ show_int (meta_page_count v)
     @ ''>''"

definition show_extraction_error :: "extraction_error_value \<Rightarrow> string" where
  "show_extraction_error v =
     ''<document_extraction_error document='' @ dquoted (d_id (xerr_document v)) @ '' code=''
     @ dquoted (xerr_code v) @ '' retryable='' @ show_bool (xerr_retryable v) @ ''>''"

section \<open>JSON\<close>

definition document_to_json :: "document_value \<Rightarrow> json" where
  "document_to_json v = json_object
     [(''id'', JString (d_id v)), (''name'', JString (d_name v)),
      (''mime_type'', JString (d_mime_type v)), (''size_bytes'', JInt (d_size_bytes v)),
      (''source'', JString (d_source v)), (''privacy'', JString (d_privacy v)),
      (''trust'', JString (d_trust v))]"

definition pdf_to_json :: "pdf_value \<Rightarrow> json" where
  "pdf_to_json v = json_object
     [(''document'', document_to_json (pdf_document v)),
      (''page_count'', JInt (pdf_page_count v))]"

definition docx_to_json :: "docx_value \<Rightarrow> json" where
  "docx_to_json v = json_object
     [(''document'', document_to_json (docx_document v)), (''title'', JString (docx_title v)),
      (''creator'', JString (docx_creator v)),
      (''paragraph_count'', JInt (docx_paragraph_count v))]"

definition sheet_to_json :: "spreadsheet_sheet_value \<Rightarrow> json" where
  "sheet_to_json v = json_object
     [(''name'', JString (sheet_name v)), (''row_count'', JInt (sheet_row_count v)),
      (''column_count'', JInt (sheet_column_count v)),
      (''header_row'', JInt (sheet_header_row v))]"

definition spreadsheet_to_json :: "spreadsheet_value \<Rightarrow> json" where
  "spreadsheet_to_json v = json_object
     [(''document'', document_to_json (ss_document v)),
      (''sheet_count'', JInt (ss_sheet_count v)),
      (''sheets'', JArray (map sheet_to_json (ss_sheets v)))]"

definition image_to_json :: "image_value \<Rightarrow> json" where
  "image_to_json v = json_object
     [(''document'', document_to_json (img_document v)), (''width'', JInt (img_width v)),
      (''height'', JInt (img_height v)), (''format'', JString (img_format v))]"

definition ocr_result_to_json :: "ocr_result_value \<Rightarrow> json" where
  "ocr_result_to_json v = json_object
     [(''image'', image_to_json (ocr_image v)), (''text'', JString (ocr_text v)),
      (''confidence'', json_f64 (ocr_confidence v)), (''provider'', JString (ocr_provider v)),
      (''model'', JString (ocr_model v)), (''source'', JString (ocr_source v)),
      (''privacy'', JString (ocr_privacy v)), (''trust'', JString (ocr_trust v))]"

definition extracted_text_to_json :: "extracted_text_value \<Rightarrow> json" where
  "extracted_text_to_json v = json_object
     [(''document'', document_to_json (ext_document v)), (''text'', JString (ext_text v)),
      (''provider'', JString (ext_provider v)), (''model'', JString (ext_model v)),
      (''source'', JString (ext_source v)), (''privacy'', JString (ext_privacy v)),
      (''trust'', JString (ext_trust v))]"

definition extraction_metadata_to_json :: "extraction_metadata_value \<Rightarrow> json" where
  "extraction_metadata_to_json v = json_object
     [(''document'', document_to_json (meta_document v)), (''title'', JString (meta_title v)),
      (''author'', JString (meta_author v)), (''language'', JString (meta_language v)),
      (''page_count'', JInt (meta_page_count v)), (''provider'', JString (meta_provider v)),
      (''source'', JString (meta_source v)), (''privacy'', JString (meta_privacy v)),
      (''trust'', JString (meta_trust v))]"

definition extraction_error_to_json :: "extraction_error_value \<Rightarrow> json" where
  "extraction_error_to_json v = json_object
     [(''document'', document_to_json (xerr_document v)), (''code'', JString (xerr_code v)),
      (''message'', JString (xerr_message v)), (''retryable'', JBool (xerr_retryable v)),
      (''provider'', JString (xerr_provider v)), (''source'', JString (xerr_source v)),
      (''privacy'', JString (xerr_privacy v)), (''trust'', JString (xerr_trust v))]"

text \<open>The connector form: \<open>json!({ "$document": value.to_json() })\<close> and so on.\<close>

definition connector_json :: "document_value \<Rightarrow> json" where
  "connector_json v = json_object [(''$document'', document_to_json v)]"

definition pdf_connector_json :: "pdf_value \<Rightarrow> json" where
  "pdf_connector_json v = json_object [(''$pdf'', pdf_to_json v)]"

definition docx_connector_json :: "docx_value \<Rightarrow> json" where
  "docx_connector_json v = json_object [(''$docx'', docx_to_json v)]"

definition spreadsheet_sheet_connector_json :: "spreadsheet_sheet_value \<Rightarrow> json" where
  "spreadsheet_sheet_connector_json v = json_object [(''$spreadsheet_sheet'', sheet_to_json v)]"

definition spreadsheet_connector_json :: "spreadsheet_value \<Rightarrow> json" where
  "spreadsheet_connector_json v = json_object [(''$spreadsheet'', spreadsheet_to_json v)]"

definition image_connector_json :: "image_value \<Rightarrow> json" where
  "image_connector_json v = json_object [(''$image'', image_to_json v)]"

definition ocr_result_connector_json :: "ocr_result_value \<Rightarrow> json" where
  "ocr_result_connector_json v = json_object [(''$ocr_result'', ocr_result_to_json v)]"

definition extracted_document_text_connector_json :: "extracted_text_value \<Rightarrow> json" where
  "extracted_document_text_connector_json v = json_object [(''$extracted_document_text'', extracted_text_to_json v)]"

definition document_extraction_metadata_connector_json :: "extraction_metadata_value \<Rightarrow> json" where
  "document_extraction_metadata_connector_json v = json_object [(''$document_extraction_metadata'', extraction_metadata_to_json v)]"

definition document_extraction_error_connector_json :: "extraction_error_value \<Rightarrow> json" where
  "document_extraction_error_connector_json v = json_object [(''$document_extraction_error'', extraction_error_to_json v)]"

section \<open>Reading JSON\<close>

type_synonym object = "(string, json) fmap"

text \<open>\<open>as_f64\<close>: an integer is converted.\<close>

fun as_f64 :: "json \<Rightarrow> f64 option" where
  "as_f64 (JInt i) = Some (f64_of_int i)"
| "as_f64 (JFloat w) = Some w"
| "as_f64 _ = None"

definition field_error :: "string \<Rightarrow> string \<Rightarrow> string" where
  "field_error key what = ''Document field `'' @ key @ ''` must be '' @ what"

definition required_string :: "object \<Rightarrow> string \<Rightarrow> string + string" where
  "required_string obj key = ok_or (field_error key ''a string'') (Option.bind (fmlookup obj key) as_str)"

definition optional_string :: "object \<Rightarrow> string \<Rightarrow> string + string" where
  "optional_string obj key =
     ok_or (field_error key ''a string'')
       (case Option.bind (fmlookup obj key) as_str of None \<Rightarrow> Some [] | Some s \<Rightarrow> Some s)"

definition required_i64 :: "object \<Rightarrow> string \<Rightarrow> string + int" where
  "required_i64 obj key = ok_or (field_error key ''an integer'') (Option.bind (fmlookup obj key) as_i64)"

definition required_f64 :: "object \<Rightarrow> string \<Rightarrow> string + f64" where
  "required_f64 obj key = ok_or (field_error key ''a number'') (Option.bind (fmlookup obj key) as_f64)"

definition required_bool :: "object \<Rightarrow> string \<Rightarrow> string + bool" where
  "required_bool obj key = ok_or (field_error key ''a boolean'') (Option.bind (fmlookup obj key) as_bool)"

text \<open>The object to read: the one under the type's key if it is an object, or the value itself.\<close>

definition object_of :: "string \<Rightarrow> string \<Rightarrow> json \<Rightarrow> string + object" where
  "object_of key label v =
     ok_or (''expected object for '' @ label)
       (Option.bind (as_object v) (\<lambda>obj.
          case Option.bind (fmlookup obj key) as_object of Some inner \<Rightarrow> Some inner | None \<Rightarrow> Some obj))"

definition required_part :: "(json \<Rightarrow> string + 'a) \<Rightarrow> object \<Rightarrow> string \<Rightarrow> string \<Rightarrow> string + 'a" where
  "required_part f obj label key =
     res_bind (ok_or (label @ '' field `'' @ key @ ''` is required'') (fmlookup obj key)) f"

definition value_from_json :: "json \<Rightarrow> string + document_value" where
  "value_from_json v =
     res_bind (object_of ''$document'' ''Document'' v) (\<lambda>obj.
     res_bind (required_string obj ''id'') (\<lambda>id.
     res_bind (required_string obj ''name'') (\<lambda>name.
     res_bind (required_string obj ''mime_type'') (\<lambda>mime_type.
     res_bind (required_i64 obj ''size_bytes'') (\<lambda>size_bytes.
     res_bind (required_string obj ''source'') (\<lambda>source.
     res_bind (required_string obj ''privacy'') (\<lambda>privacy.
     res_bind (required_string obj ''trust'') (\<lambda>trust.
     Ok \<lparr>d_id = id, d_name = name, d_mime_type = mime_type, d_size_bytes = size_bytes,
         d_source = source, d_privacy = privacy, d_trust = trust\<rparr>))))))))"

definition pdf_from_json :: "json \<Rightarrow> string + pdf_value" where
  "pdf_from_json v =
     res_bind (object_of ''$pdf'' ''Pdf'' v) (\<lambda>obj.
     res_bind (required_part value_from_json obj ''Pdf'' ''document'') (\<lambda>document.
     res_bind (required_i64 obj ''page_count'') (\<lambda>page_count.
     Ok \<lparr>pdf_document = document, pdf_page_count = page_count\<rparr>)))"

definition docx_from_json :: "json \<Rightarrow> string + docx_value" where
  "docx_from_json v =
     res_bind (object_of ''$docx'' ''Docx'' v) (\<lambda>obj.
     res_bind (required_part value_from_json obj ''Docx'' ''document'') (\<lambda>document.
     res_bind (optional_string obj ''title'') (\<lambda>title.
     res_bind (optional_string obj ''creator'') (\<lambda>creator.
     res_bind (required_i64 obj ''paragraph_count'') (\<lambda>paragraph_count.
     Ok \<lparr>docx_document = document, docx_title = title, docx_creator = creator,
         docx_paragraph_count = paragraph_count\<rparr>)))))"

definition spreadsheet_sheet_from_json :: "json \<Rightarrow> string + spreadsheet_sheet_value" where
  "spreadsheet_sheet_from_json v =
     res_bind (object_of ''$spreadsheet_sheet'' ''SpreadsheetSheet'' v) (\<lambda>obj.
     res_bind (required_string obj ''name'') (\<lambda>name.
     res_bind (required_i64 obj ''row_count'') (\<lambda>row_count.
     res_bind (required_i64 obj ''column_count'') (\<lambda>column_count.
     res_bind (required_i64 obj ''header_row'') (\<lambda>header_row.
     Ok \<lparr>sheet_name = name, sheet_row_count = row_count,
         sheet_column_count = column_count, sheet_header_row = header_row\<rparr>)))))"

definition spreadsheet_from_json :: "json \<Rightarrow> string + spreadsheet_value" where
  "spreadsheet_from_json v =
     res_bind (object_of ''$spreadsheet'' ''Spreadsheet'' v) (\<lambda>obj.
     res_bind (required_part value_from_json obj ''Spreadsheet'' ''document'') (\<lambda>document.
     res_bind (res_bind (ok_or ''Spreadsheet field `sheets` must be an array'' (Option.bind (fmlookup obj ''sheets'') as_array))
         (collect_results spreadsheet_sheet_from_json)) (\<lambda>sheets.
     Ok \<lparr>ss_document = document,
         ss_sheet_count = unwrap_or (int (length sheets)) (Option.bind (fmlookup obj ''sheet_count'') as_i64),
         ss_sheets = sheets\<rparr>)))"

definition image_from_json :: "json \<Rightarrow> string + image_value" where
  "image_from_json v =
     res_bind (object_of ''$image'' ''Image'' v) (\<lambda>obj.
     res_bind (required_part value_from_json obj ''Image'' ''document'') (\<lambda>document.
     res_bind (required_i64 obj ''width'') (\<lambda>width.
     res_bind (required_i64 obj ''height'') (\<lambda>height.
     res_bind (required_string obj ''format'') (\<lambda>format.
     Ok \<lparr>img_document = document, img_width = width, img_height = height,
         img_format = format\<rparr>)))))"

definition ocr_result_from_json :: "json \<Rightarrow> string + ocr_result_value" where
  "ocr_result_from_json v =
     res_bind (object_of ''$ocr_result'' ''OcrResult'' v) (\<lambda>obj.
     res_bind (required_part image_from_json obj ''OcrResult'' ''image'') (\<lambda>image.
     res_bind (required_string obj ''text'') (\<lambda>body.
     res_bind (required_f64 obj ''confidence'') (\<lambda>confidence.
     res_bind (required_string obj ''provider'') (\<lambda>provider.
     res_bind (required_string obj ''model'') (\<lambda>model.
     res_bind (optional_string obj ''source'') (\<lambda>source.
     res_bind (optional_string obj ''privacy'') (\<lambda>privacy.
     res_bind (optional_string obj ''trust'') (\<lambda>trust.
     Ok \<lparr>ocr_image = image, ocr_text = body, ocr_confidence = confidence,
         ocr_provider = provider, ocr_model = model, ocr_source = source,
         ocr_privacy = privacy, ocr_trust = trust\<rparr>)))))))))"

definition extracted_document_text_from_json :: "json \<Rightarrow> string + extracted_text_value" where
  "extracted_document_text_from_json v =
     res_bind (object_of ''$extracted_document_text'' ''ExtractedDocumentText'' v) (\<lambda>obj.
     res_bind (required_part value_from_json obj ''ExtractedDocumentText'' ''document'') (\<lambda>document.
     res_bind (required_string obj ''text'') (\<lambda>body.
     res_bind (required_string obj ''provider'') (\<lambda>provider.
     res_bind (required_string obj ''model'') (\<lambda>model.
     res_bind (optional_string obj ''source'') (\<lambda>source.
     res_bind (optional_string obj ''privacy'') (\<lambda>privacy.
     res_bind (optional_string obj ''trust'') (\<lambda>trust.
     Ok \<lparr>ext_document = document, ext_text = body, ext_provider = provider,
         ext_model = model, ext_source = source, ext_privacy = privacy, ext_trust = trust\<rparr>))))))))"

definition document_extraction_metadata_from_json :: "json \<Rightarrow> string + extraction_metadata_value" where
  "document_extraction_metadata_from_json v =
     res_bind (object_of ''$document_extraction_metadata'' ''DocumentExtractionMetadata'' v) (\<lambda>obj.
     res_bind (required_part value_from_json obj ''DocumentExtractionMetadata'' ''document'') (\<lambda>document.
     res_bind (optional_string obj ''title'') (\<lambda>title.
     res_bind (optional_string obj ''author'') (\<lambda>author.
     res_bind (optional_string obj ''language'') (\<lambda>language.
     res_bind (required_i64 obj ''page_count'') (\<lambda>page_count.
     res_bind (required_string obj ''provider'') (\<lambda>provider.
     res_bind (optional_string obj ''source'') (\<lambda>source.
     res_bind (optional_string obj ''privacy'') (\<lambda>privacy.
     res_bind (optional_string obj ''trust'') (\<lambda>trust.
     Ok \<lparr>meta_document = document, meta_title = title, meta_author = author,
         meta_language = language, meta_page_count = page_count, meta_provider = provider,
         meta_source = source, meta_privacy = privacy, meta_trust = trust\<rparr>))))))))))"

definition document_extraction_error_from_json :: "json \<Rightarrow> string + extraction_error_value" where
  "document_extraction_error_from_json v =
     res_bind (object_of ''$document_extraction_error'' ''DocumentExtractionError'' v) (\<lambda>obj.
     res_bind (required_part value_from_json obj ''DocumentExtractionError'' ''document'') (\<lambda>document.
     res_bind (required_string obj ''code'') (\<lambda>code.
     res_bind (required_string obj ''message'') (\<lambda>message.
     res_bind (required_bool obj ''retryable'') (\<lambda>retryable.
     res_bind (required_string obj ''provider'') (\<lambda>provider.
     res_bind (optional_string obj ''source'') (\<lambda>source.
     res_bind (optional_string obj ''privacy'') (\<lambda>privacy.
     res_bind (optional_string obj ''trust'') (\<lambda>trust.
     Ok \<lparr>xerr_document = document, xerr_code = code, xerr_message = message,
         xerr_retryable = retryable, xerr_provider = provider, xerr_source = source,
         xerr_privacy = privacy, xerr_trust = trust\<rparr>)))))))))"

section \<open>What is written is read\<close>

abbreviation i64_ok :: "int \<Rightarrow> bool" where "i64_ok i \<equiv> i64_min \<le> i \<and> i \<le> i64_max"

definition document_ok :: "document_value \<Rightarrow> bool" where
  "document_ok v \<longleftrightarrow> i64_ok (d_size_bytes v)"

definition image_ok :: "image_value \<Rightarrow> bool" where
  "image_ok v \<longleftrightarrow> document_ok (img_document v) \<and> i64_ok (img_width v) \<and> i64_ok (img_height v)"

definition sheet_ok :: "spreadsheet_sheet_value \<Rightarrow> bool" where
  "sheet_ok v \<longleftrightarrow> i64_ok (sheet_row_count v) \<and> i64_ok (sheet_column_count v) \<and> i64_ok (sheet_header_row v)"

lemma as_object_json_object [simp]: "as_object (json_object kvs) = Some (foldl (\<lambda>m (k, v). fmupd k v m) fmempty kvs)"
  by (simp add: json_object_def)

lemma lookup_fields [simp]: "fmlookup (foldl (\<lambda>m (k, v). fmupd k v m) fmempty kvs) k = map_of (rev kvs) k"
  by (simp add: foldl_fmupd_lookup split: option.splits)
lemma required_string_lookup [simp]:
  "fmlookup obj k = Some (JString s) \<Longrightarrow> required_string obj k = Ok s"
  "fmlookup obj k = Some (JString s) \<Longrightarrow> optional_string obj k = Ok s"
  by (simp_all add: required_string_def optional_string_def)

lemma required_i64_lookup [simp]:
  "fmlookup obj k = Some (JInt i) \<Longrightarrow> i64_ok i \<Longrightarrow> required_i64 obj k = Ok i"
  by (simp add: required_i64_def)

lemma required_bool_lookup [simp]: "fmlookup obj k = Some (JBool b) \<Longrightarrow> required_bool obj k = Ok b"
  by (simp add: required_bool_def)

lemma f64_exponent_bits: "take_bit 11 (drop_bit 52 w) = (2047 :: 64 word) \<longleftrightarrow> \<not> f64_finite w"
proof -
  have "take_bit 11 (drop_bit 52 w) = (2047 :: 64 word) \<longleftrightarrow> unat (take_bit 11 (drop_bit 52 w)) = 2047"
    by (simp add: word_unat_eq_iff)
  moreover have "unat w < 2 ^ 64" using unsigned_less [of w, where 'a = nat] by simp
  ultimately show ?thesis
    by (simp add: f64_finite_def f64_exponent_def unsigned_take_bit_eq unsigned_drop_bit_eq take_bit_nat_def
        drop_bit_nat_def)
qed

lemma json_f64_finite [simp]: "f64_finite w \<Longrightarrow> json_f64 w = JFloat w"
  by (simp add: json_f64_def f64_exponent_bits)

lemma required_f64_lookup [simp]: "fmlookup obj k = Some (JFloat w) \<Longrightarrow> required_f64 obj k = Ok w"
  by (simp add: required_f64_def)

lemma required_part_lookup [simp]: "fmlookup obj k = Some v \<Longrightarrow> required_part f obj label k = f v"
  by (simp add: required_part_def)

text \<open>The reader looks through the connector's key, and a plain object has no such key.\<close>

lemma object_of_fields:
  "map_of (rev kvs) key = None \<Longrightarrow>
   object_of key label (json_object kvs) = Ok (foldl (\<lambda>m (k, v). fmupd k v m) fmempty kvs)"
  by (simp add: object_of_def)

lemma object_of_connector:
  "object_of key label (json_object [(key, json_object kvs)]) = Ok (foldl (\<lambda>m (k, v). fmupd k v m) fmempty kvs)"
  by (simp add: object_of_def)

lemma document_read [simp]:
  assumes "document_ok v"
  shows "value_from_json (document_to_json v) = Ok v" "value_from_json (connector_json v) = Ok v"
  using assms
  by (simp_all add: value_from_json_def document_to_json_def connector_json_def document_ok_def
      object_of_fields object_of_connector)

lemma sheet_read [simp]:
  assumes "sheet_ok v"
  shows "spreadsheet_sheet_from_json (sheet_to_json v) = Ok v"
    "spreadsheet_sheet_from_json (spreadsheet_sheet_connector_json v) = Ok v"
  using assms
  by (simp_all add: spreadsheet_sheet_from_json_def sheet_to_json_def spreadsheet_sheet_connector_json_def
      sheet_ok_def object_of_fields object_of_connector)

lemma image_read [simp]:
  assumes "image_ok v"
  shows "image_from_json (image_to_json v) = Ok v" "image_from_json (image_connector_json v) = Ok v"
  using assms
  by (simp_all add: image_from_json_def image_to_json_def image_connector_json_def image_ok_def
      object_of_fields object_of_connector)

text \<open>The ten types as one, with the reader of each.\<close>

datatype any_document =
    ADocument document_value
  | APdf pdf_value
  | ADocx docx_value
  | ASheet spreadsheet_sheet_value
  | ASpreadsheet spreadsheet_value
  | AImage image_value
  | AOcr ocr_result_value
  | AText extracted_text_value
  | AMetadata extraction_metadata_value
  | AError extraction_error_value

fun any_ok :: "any_document \<Rightarrow> bool" where
  "any_ok (ADocument v) \<longleftrightarrow> document_ok v"
| "any_ok (APdf v) \<longleftrightarrow> document_ok (pdf_document v) \<and> i64_ok (pdf_page_count v)"
| "any_ok (ADocx v) \<longleftrightarrow> document_ok (docx_document v) \<and> i64_ok (docx_paragraph_count v)"
| "any_ok (ASheet v) \<longleftrightarrow> sheet_ok v"
| "any_ok (ASpreadsheet v) \<longleftrightarrow>
     document_ok (ss_document v) \<and> i64_ok (ss_sheet_count v) \<and> list_all sheet_ok (ss_sheets v)"
| "any_ok (AImage v) \<longleftrightarrow> image_ok v"
| "any_ok (AOcr v) \<longleftrightarrow> image_ok (ocr_image v) \<and> f64_finite (ocr_confidence v)"
| "any_ok (AText v) \<longleftrightarrow> document_ok (ext_document v)"
| "any_ok (AMetadata v) \<longleftrightarrow> document_ok (meta_document v) \<and> i64_ok (meta_page_count v)"
| "any_ok (AError v) \<longleftrightarrow> document_ok (xerr_document v)"

fun any_to_json :: "any_document \<Rightarrow> json" where
  "any_to_json (ADocument v) = document_to_json v"
| "any_to_json (APdf v) = pdf_to_json v"
| "any_to_json (ADocx v) = docx_to_json v"
| "any_to_json (ASheet v) = sheet_to_json v"
| "any_to_json (ASpreadsheet v) = spreadsheet_to_json v"
| "any_to_json (AImage v) = image_to_json v"
| "any_to_json (AOcr v) = ocr_result_to_json v"
| "any_to_json (AText v) = extracted_text_to_json v"
| "any_to_json (AMetadata v) = extraction_metadata_to_json v"
| "any_to_json (AError v) = extraction_error_to_json v"

fun any_connector_json :: "any_document \<Rightarrow> json" where
  "any_connector_json (ADocument v) = connector_json v"
| "any_connector_json (APdf v) = pdf_connector_json v"
| "any_connector_json (ADocx v) = docx_connector_json v"
| "any_connector_json (ASheet v) = spreadsheet_sheet_connector_json v"
| "any_connector_json (ASpreadsheet v) = spreadsheet_connector_json v"
| "any_connector_json (AImage v) = image_connector_json v"
| "any_connector_json (AOcr v) = ocr_result_connector_json v"
| "any_connector_json (AText v) = extracted_document_text_connector_json v"
| "any_connector_json (AMetadata v) = document_extraction_metadata_connector_json v"
| "any_connector_json (AError v) = document_extraction_error_connector_json v"

fun any_from_json :: "any_document \<Rightarrow> json \<Rightarrow> string + any_document" where
  "any_from_json (ADocument _) j = res_map ADocument (value_from_json j)"
| "any_from_json (APdf _) j = res_map APdf (pdf_from_json j)"
| "any_from_json (ADocx _) j = res_map ADocx (docx_from_json j)"
| "any_from_json (ASheet _) j = res_map ASheet (spreadsheet_sheet_from_json j)"
| "any_from_json (ASpreadsheet _) j = res_map ASpreadsheet (spreadsheet_from_json j)"
| "any_from_json (AImage _) j = res_map AImage (image_from_json j)"
| "any_from_json (AOcr _) j = res_map AOcr (ocr_result_from_json j)"
| "any_from_json (AText _) j = res_map AText (extracted_document_text_from_json j)"
| "any_from_json (AMetadata _) j = res_map AMetadata (document_extraction_metadata_from_json j)"
| "any_from_json (AError _) j = res_map AError (document_extraction_error_from_json j)"

lemma collect_results_sheets [simp]:
  "list_all sheet_ok xs \<Longrightarrow> collect_results spreadsheet_sheet_from_json (map sheet_to_json xs) = Ok xs"
  by (induction xs) simp_all

lemmas to_json_defs =
  pdf_to_json_def docx_to_json_def spreadsheet_to_json_def ocr_result_to_json_def extracted_text_to_json_def extraction_metadata_to_json_def extraction_error_to_json_def

lemma any_document_read:
  assumes "any_ok v"
  shows "any_from_json v (any_to_json v) = Ok v \<and> any_from_json v (any_connector_json v) = Ok v"
  using assms
  by (cases v)
    (simp_all add: docx_from_json_def pdf_from_json_def spreadsheet_from_json_def ocr_result_from_json_def
      extracted_document_text_from_json_def document_extraction_metadata_from_json_def
      document_extraction_error_from_json_def to_json_defs pdf_connector_json_def docx_connector_json_def
      spreadsheet_connector_json_def ocr_result_connector_json_def extracted_document_text_connector_json_def
      document_extraction_metadata_connector_json_def document_extraction_error_connector_json_def
      object_of_fields object_of_connector)


text \<open>C24: each of the ten document types is read back from its JSON and from the form that connectors
  exchange, unchanged, as long as its integers are those of \<open>i64\<close> and a confidence is finite.\<close>

theorem document_json_roundtrip:
  assumes "any_ok v"
  shows "any_from_json v (any_to_json v) = Ok v \<and> any_from_json v (any_connector_json v) = Ok v"
  using assms by (rule any_document_read)

text \<open>A spreadsheet with a sheet.\<close>

definition sample_document :: document_value where
  "sample_document = \<lparr>d_id = ''d1'', d_name = ''a.xlsx'', d_mime_type = ''x'', d_size_bytes = 7, d_source = ''Upload'',
     d_privacy = ''private'', d_trust = ''untrusted''\<rparr>"

definition sample_sheet :: spreadsheet_sheet_value where
  "sample_sheet = \<lparr>sheet_name = ''Sheet1'', sheet_row_count = 3, sheet_column_count = 2, sheet_header_row = 1\<rparr>"

definition sample_spreadsheet :: spreadsheet_value where
  "sample_spreadsheet = \<lparr>ss_document = sample_document, ss_sheet_count = 1, ss_sheets = [sample_sheet]\<rparr>"

theorem document_json_roundtrip_witness:
  "any_from_json (ASpreadsheet sample_spreadsheet) (any_to_json (ASpreadsheet sample_spreadsheet))
     = Ok (ASpreadsheet sample_spreadsheet)
   \<and> any_from_json (ASpreadsheet sample_spreadsheet) (any_connector_json (ASpreadsheet sample_spreadsheet))
     = Ok (ASpreadsheet sample_spreadsheet)"
  by (rule document_json_roundtrip)
    (simp add: sample_spreadsheet_def sample_document_def sample_sheet_def document_ok_def sheet_ok_def)

end
