(* ===== verification/Document_Readers.thy ===== *)
theory Document_Readers
  imports Documents Utf8
begin

text \<open>
  The readers of \<open>document.rs\<close> that take the metadata out of the bytes of a file: the pages of a
  PDF, the stored entries of a ZIP archive with the parts of a DOCX and of a spreadsheet, and the
  dimensions in the header of a PNG or JPEG. A byte string is a \<open>string\<close>. Where the code indexes,
  \<open>byte_at\<close> is the index with its panic as \<open>None\<close>.
\<close>

section \<open>Searching bytes\<close>

text \<open>\<open>windows(needle.len())\<close>: the positions where the needle occurs.\<close>

definition occurrences :: "string \<Rightarrow> string \<Rightarrow> nat list" where
  "occurrences needle hay =
     filter (\<lambda>i. starts_with needle (drop i hay)) [0..<Suc (length hay) - length needle]"

definition count_occurrences :: "string \<Rightarrow> string \<Rightarrow> nat" where
  "count_occurrences hay needle = (if needle = [] then 0 else length (occurrences needle hay))"

definition find_bytes :: "string \<Rightarrow> string \<Rightarrow> bool" where
  "find_bytes hay needle \<longleftrightarrow> occurrences needle hay \<noteq> []"

definition count_pdf_pages :: "string \<Rightarrow> nat" where
  "count_pdf_pages bytes =
     length (filter (\<lambda>i. \<not> starts_with ''s'' (drop (i + length ''/Type /Page'') bytes))
       (occurrences ''/Type /Page'' bytes))"

definition parse_pdf_metadata :: "document_value \<Rightarrow> string \<Rightarrow> string + pdf_value" where
  "parse_pdf_metadata doc bytes =
     (if \<not> starts_with ''%PDF-'' bytes then Err ''malformed PDF: missing %PDF header''
      else if \<not> find_bytes bytes ''%%EOF'' then Err ''malformed PDF: missing EOF marker''
      else if count_pdf_pages bytes = 0 then Err ''malformed PDF: no page objects found''
      else Ok \<lparr>pdf_document = doc, pdf_page_count = int (count_pdf_pages bytes)\<rparr>)"

section \<open>Images\<close>

definition byte_at :: "string \<Rightarrow> nat \<Rightarrow> nat option" where
  "byte_at bytes i = (if i < length bytes then Some (byte (bytes ! i)) else None)"

definition be16_at :: "string \<Rightarrow> nat \<Rightarrow> nat option" where
  "be16_at bytes i =
     Option.bind (byte_at bytes i) (\<lambda>a. Option.bind (byte_at bytes (i + 1)) (\<lambda>b. Some (256 * a + b)))"

definition be32_at :: "string \<Rightarrow> nat \<Rightarrow> nat option" where
  "be32_at bytes i =
     Option.bind (be16_at bytes i) (\<lambda>a. Option.bind (be16_at bytes (i + 2)) (\<lambda>b. Some (65536 * a + b)))"

type_synonym dimensions = "string \<times> int \<times> int"

definition parse_png_dimensions :: "string \<Rightarrow> (string + dimensions) option" where
  "parse_png_dimensions bytes =
     (if length bytes < 24 then Some (Err ''malformed PNG: truncated IHDR'')
      else if take 4 (drop 12 bytes) \<noteq> ''IHDR'' then Some (Err ''malformed PNG: missing IHDR chunk'')
      else Option.bind (be32_at bytes 16) (\<lambda>width. Option.bind (be32_at bytes 20) (\<lambda>height.
        if width = 0 \<or> height = 0 then Some (Err ''malformed PNG: invalid dimensions'')
        else Some (Ok (''png'', int width, int height)))))"

definition sof_markers :: "nat list" where
  "sof_markers = [0xc0, 0xc1, 0xc2, 0xc3, 0xc5, 0xc6, 0xc7, 0xc9, 0xca, 0xcb, 0xcd, 0xce, 0xcf]"

text \<open>\<open>while offset < bytes.len() && bytes[offset] == 0xff { offset += 1; }\<close>.\<close>

definition skip_fill :: "string \<Rightarrow> nat \<Rightarrow> nat" where
  "skip_fill bytes offset = offset + length (takeWhile (\<lambda>c. byte c = 0xff) (drop offset bytes))"

function jpeg_loop :: "string \<Rightarrow> nat \<Rightarrow> (string + dimensions) option" where
  "jpeg_loop bytes offset =
     (let none_found = Some (Err ''malformed JPEG: missing SOF dimensions'');
          at = skip_fill bytes offset in
      if length bytes < offset + 4 then none_found
      else if length bytes \<le> at then none_found
      else Option.bind (byte_at bytes at) (\<lambda>marker.
        if marker = 0xd9 \<or> marker = 0xda then none_found
        else if length bytes < at + 1 + 2 then Some (Err ''malformed JPEG: truncated segment length'')
        else Option.bind (be16_at bytes (at + 1)) (\<lambda>segment_len.
          if segment_len < 2 \<or> length bytes < at + 1 + segment_len
          then Some (Err ''malformed JPEG: invalid segment length'')
          else if marker \<in> set sof_markers
          then (if segment_len < 7 then Some (Err ''malformed JPEG: truncated SOF segment'')
                else Option.bind (be16_at bytes (at + 1 + 3)) (\<lambda>height.
                     Option.bind (be16_at bytes (at + 1 + 5)) (\<lambda>width.
                     if width = 0 \<or> height = 0 then Some (Err ''malformed JPEG: invalid dimensions'')
                     else Some (Ok (''jpeg'', int width, int height)))))
          else jpeg_loop bytes (at + 1 + segment_len))))"
  by pat_completeness auto
termination
  by (relation "measure (\<lambda>(bytes, offset). length bytes - offset)") (auto simp: skip_fill_def)

declare jpeg_loop.simps [simp del]

definition parse_jpeg_dimensions :: "string \<Rightarrow> (string + dimensions) option" where
  "parse_jpeg_dimensions bytes = jpeg_loop bytes 2"

definition png_header :: string where
  "png_header = [CHR 0x89, CHR ''P'', CHR ''N'', CHR ''G'', CHR 0x0D, CHR 0x0A, CHR 0x1A, CHR 0x0A]"

definition parse_image_metadata :: "document_value \<Rightarrow> string \<Rightarrow> (string + image_value) option" where
  "parse_image_metadata doc bytes =
     map_option (res_map (\<lambda>(fmt, w, h). \<lparr>img_document = doc, img_width = w, img_height = h, img_format = fmt\<rparr>))
       (if starts_with png_header bytes then parse_png_dimensions bytes
        else if starts_with [CHR 0xFF, CHR 0xD8] bytes then parse_jpeg_dimensions bytes
        else Some (Err ''malformed image: unsupported or missing image header''))"

section \<open>ZIP archives\<close>

definition truncated_header :: "string \<Rightarrow> string" where
  "truncated_header what = ''malformed '' @ what @ '': truncated ZIP header''"

definition le_u16 :: "string \<Rightarrow> nat \<Rightarrow> string \<Rightarrow> string + nat" where
  "le_u16 bytes offset what =
     (if length bytes < offset + 2 then Err (truncated_header what)
      else Ok (byte (bytes ! offset) + 256 * byte (bytes ! (offset + 1))))"

definition le_u32 :: "string \<Rightarrow> nat \<Rightarrow> string \<Rightarrow> string + nat" where
  "le_u32 bytes offset what =
     (if length bytes < offset + 4 then Err (truncated_header what)
      else Ok (byte (bytes ! offset) + 256 * byte (bytes ! (offset + 1))
               + 65536 * byte (bytes ! (offset + 2)) + 16777216 * byte (bytes ! (offset + 3))))"

definition zip_magic :: string where "zip_magic = [CHR ''P'', CHR ''K'', CHR 0x03, CHR 0x04]"

text \<open>One entry at an offset: its name, its data, and where the next one starts.\<close>

definition zip_entry_at :: "string \<Rightarrow> nat \<Rightarrow> string \<Rightarrow> string \<Rightarrow> string + (string \<times> string \<times> nat)" where
  "zip_entry_at bytes offset what label =
     res_bind (le_u16 bytes (offset + 8) what) (\<lambda>compression.
     res_bind (le_u32 bytes (offset + 18) what) (\<lambda>compressed_size.
     res_bind (le_u32 bytes (offset + 22) what) (\<lambda>uncompressed_size.
     res_bind (le_u16 bytes (offset + 26) what) (\<lambda>name_len.
     res_bind (le_u16 bytes (offset + 28) what) (\<lambda>extra_len.
     res_bind (ok_or (''malformed '' @ what @ '': ZIP entry offset overflow'')
       (Option.bind (checked_nat u64_max (offset + 30 + name_len)) (\<lambda>n. checked_nat u64_max (n + extra_len)))) (\<lambda>data_start.
     res_bind (ok_or (''malformed '' @ what @ '': ZIP entry size overflow'')
       (checked_nat u64_max (data_start + compressed_size))) (\<lambda>data_end.
     if length bytes < data_end then Err (''malformed '' @ what @ '': truncated ZIP entry'')
     else res_bind (map_err (\<lambda>e. ''malformed '' @ what @ '': invalid ZIP entry name: '' @ e)
            (from_utf8 (take name_len (drop (offset + 30) bytes)))) (\<lambda>name.
     if compression \<noteq> 0
     then Err (''unsupported '' @ label @ '' compression method '' @ show_nat compression
               @ ''; first slice supports stored test fixtures'')
     else if compressed_size \<noteq> uncompressed_size
     then Err (''malformed '' @ what @ '': stored ZIP entry size mismatch'')
     else Ok (name, take compressed_size (drop data_start bytes), data_end)))))))))"

lemma zip_entry_at_next: "zip_entry_at bytes offset what label = Ok (name, data, next_at) \<Longrightarrow> offset < next_at"
  by (auto simp: zip_entry_at_def result_simps bind_eq_Some_conv split: if_splits)

function zip_loop :: "string \<Rightarrow> string \<Rightarrow> string \<Rightarrow> nat \<Rightarrow> string + (string \<times> string) list" where
  "zip_loop bytes what label offset =
     (if length bytes < offset + 30 \<or> take 4 (drop offset bytes) \<noteq> zip_magic then Ok []
      else (case zip_entry_at bytes offset what label of
              Inl e \<Rightarrow> Inl e
            | Inr (name, data, next_at) \<Rightarrow> res_map ((#) (name, data)) (zip_loop bytes what label next_at)))"
  by pat_completeness auto
termination
  by (relation "measure (\<lambda>(bytes, what, label, offset). length bytes - offset)")
    (auto dest!: zip_entry_at_next sym [of "Inr _"])

declare zip_loop.simps [simp del]

definition stored_zip_entries :: "string \<Rightarrow> string \<Rightarrow> string \<Rightarrow> string + (string \<times> string) list" where
  "stored_zip_entries bytes what label =
     res_bind (zip_loop bytes what label 0) (\<lambda>entries.
     if entries = [] then Err (''malformed '' @ what @ '': missing ZIP local file entries'') else Ok entries)"

section \<open>DOCX\<close>

definition find_from :: "string \<Rightarrow> string \<Rightarrow> nat \<Rightarrow> nat option" where
  "find_from needle text i = map_option ((+) i) (find_str needle (drop i text))"

definition slice :: "nat \<Rightarrow> nat \<Rightarrow> string \<Rightarrow> string" where
  "slice i j text = take (j - i) (drop i text)"

definition extract_xml_text :: "string \<Rightarrow> string \<Rightarrow> string option" where
  "extract_xml_text xml tag =
     (let open_tag = ''<'' @ tag @ ''>''; close_tag = ''</'' @ tag @ ''>'' in
      Option.bind (find_str open_tag xml) (\<lambda>i. let start = i + length open_tag in
      Option.bind (find_from close_tag xml start) (\<lambda>stop. Some (slice start stop xml))))"

definition entry_text :: "string \<Rightarrow> (string \<times> string) list \<Rightarrow> string option" where
  "entry_text name entries = map_option from_utf8_lossy (map_of entries name)"

definition parse_docx_metadata :: "document_value \<Rightarrow> string \<Rightarrow> string + docx_value" where
  "parse_docx_metadata doc bytes =
     res_bind (stored_zip_entries bytes ''DOCX'' ''DOCX'') (\<lambda>entries.
     res_bind (ok_or ''malformed DOCX: missing word/document.xml'' (entry_text ''word/document.xml'' entries)) (\<lambda>document_xml.
     let core_xml = unwrap_or [] (entry_text ''docProps/core.xml'' entries) in
     Ok \<lparr>docx_document = doc,
         docx_title = unwrap_or [] (extract_xml_text core_xml ''dc:title''),
         docx_creator = unwrap_or [] (extract_xml_text core_xml ''dc:creator''),
         docx_paragraph_count = int (count_occurrences document_xml ''<w:p'')\<rparr>))"

section \<open>Spreadsheets\<close>

definition xml_attr :: "string \<Rightarrow> string \<Rightarrow> string option" where
  "xml_attr tag name =
     (let pat = name @ ''='' @ [CHR 0x22] in
      Option.bind (find_str pat tag) (\<lambda>i. let start = i + length pat in
      Option.bind (find_from [CHR 0x22] tag start) (\<lambda>stop. Some (slice start stop tag))))"

lemma find_str_le: "find_str p s = Some i \<Longrightarrow> i + length p \<le> length s"
  by (induction p s arbitrary: i rule: find_str.induct)
    (auto simp: starts_with_def split: if_splits dest: arg_cong [of "take _ _" _ length])

function extract_sheet_names :: "string \<Rightarrow> string list" where
  "extract_sheet_names text =
     (case find_str ''<sheet'' text of
        None \<Rightarrow> []
      | Some i \<Rightarrow>
          let after = drop (i + length ''<sheet'') text in
          (case find_str ''>'' after of
             None \<Rightarrow> []
           | Some stop \<Rightarrow>
               (case xml_attr (take stop after) ''name'' of None \<Rightarrow> [] | Some name \<Rightarrow> [name])
               @ extract_sheet_names (drop stop after)))"
  by pat_completeness auto
termination
  by (relation "measure length") (auto dest!: find_str_le)

declare extract_sheet_names.simps [simp del]

definition to_ascii_uppercase :: "char \<Rightarrow> nat" where
  "to_ascii_uppercase c = (if is_ascii_lower c then byte c - 32 else byte c)"

text \<open>The column of a cell reference in base 26, with checked \<open>i64\<close> arithmetic, and its row digits.\<close>

fun cell_ref_loop :: "string list \<Rightarrow> int \<Rightarrow> string \<Rightarrow> (int \<times> string) option" where
  "cell_ref_loop [] column row = Some (column, row)"
| "cell_ref_loop (ch # chs) column row =
     (if length ch = 1 \<and> is_ascii_alphabetic (hd ch)
      then Option.bind (checked i64_min i64_max (column * 26)) (\<lambda>c.
           Option.bind (checked i64_min i64_max (c + int (to_ascii_uppercase (hd ch) - 65 + 1))) (\<lambda>c'.
           cell_ref_loop chs c' row))
      else if length ch = 1 \<and> is_ascii_digit (hd ch) then cell_ref_loop chs column (row @ ch)
      else cell_ref_loop chs column row)"

definition split_cell_ref :: "string \<Rightarrow> (int \<times> int) option" where
  "split_cell_ref v =
     Option.bind (cell_ref_loop (chars v) 0 []) (\<lambda>(column, row).
     if column = 0 \<or> row = [] then None
     else map_option (Pair column) (parse_signed i64_min i64_max row))"

definition after_last :: "char \<Rightarrow> string \<Rightarrow> string" where
  "after_last d s = rev (takeWhile (\<lambda>c. c \<noteq> d) (rev s))"

definition dimensions_from_ref :: "string \<Rightarrow> (int \<times> int) option" where
  "dimensions_from_ref v = map_option prod.swap (split_cell_ref (after_last (CHR '':'') v))"

function max_column_loop :: "string \<Rightarrow> int \<Rightarrow> int" where
  "max_column_loop text max_column =
     (case find_str ''<c '' text of
        None \<Rightarrow> max_column
      | Some i \<Rightarrow>
          let after = drop (i + 3) text in
          (case find_str ''>'' after of
             None \<Rightarrow> max_column
           | Some stop \<Rightarrow>
               max_column_loop (drop stop after)
                 (case Option.bind (xml_attr (take stop after) ''r'') split_cell_ref of
                    None \<Rightarrow> max_column | Some (column, _) \<Rightarrow> max max_column column)))"
  by pat_completeness auto
termination
  by (relation "measure (\<lambda>(text, m). length text)") (auto dest!: find_str_le)

declare max_column_loop.simps [simp del]

definition max_column_from_cells :: "string \<Rightarrow> int" where
  "max_column_from_cells xml = max_column_loop xml 0"

definition worksheet_dimensions :: "string \<Rightarrow> int \<times> int" where
  "worksheet_dimensions xml =
     (case Option.bind (find_str ''<dimension'' xml) (\<lambda>i.
             Option.bind (find_from ''>'' xml i) (\<lambda>stop.
             Option.bind (xml_attr (slice i stop xml) ''ref'') dimensions_from_ref)) of
        Some (rows, columns) \<Rightarrow> (rows, columns)
      | None \<Rightarrow> (int (count_occurrences xml ''<row''), max_column_from_cells xml))"

definition has_str :: "string \<Rightarrow> string \<Rightarrow> bool" where
  "has_str needle text \<longleftrightarrow> find_str needle text \<noteq> None"

definition type_attr :: "string \<Rightarrow> string" where
  "type_attr v = '' t='' @ [CHR 0x22] @ v @ [CHR 0x22]"

definition detect_header_row :: "string \<Rightarrow> int" where
  "detect_header_row xml =
     (case find_str ''<row'' xml of
        None \<Rightarrow> 0
      | Some row_index \<Rightarrow>
          (case find_from ''</row>'' xml row_index of
             None \<Rightarrow> 0
           | Some row_end \<Rightarrow>
               let row = slice row_index row_end xml in
               (case find_str ''>'' row of
                  None \<Rightarrow> 0
                | Some tag_end \<Rightarrow>
                    let row_number = unwrap_or 1
                      (Option.bind (xml_attr (take tag_end row) ''r'') (parse_signed i64_min i64_max))
                    in if has_str (type_attr ''s'') row \<or> has_str (type_attr ''str'') row
                          \<or> has_str (type_attr ''inlineStr'') row \<or> has_str ''<is>'' row
                       then row_number else 0)))"

definition worksheet_entry :: "string \<Rightarrow> bool" where
  "worksheet_entry name \<longleftrightarrow> starts_with ''xl/worksheets/sheet'' name \<and> strip_suffix ''.xml'' name \<noteq> None"

definition worksheet_value :: "string list \<Rightarrow> nat \<times> string \<Rightarrow> spreadsheet_sheet_value" where
  "worksheet_value names = (\<lambda>(index, data).
     let xml = from_utf8_lossy data; (rows, columns) = worksheet_dimensions xml in
     \<lparr>sheet_name = (if index < length names then names ! index else ''Sheet'' @ show_nat (index + 1)),
      sheet_row_count = rows, sheet_column_count = columns, sheet_header_row = detect_header_row xml\<rparr>)"

definition parse_spreadsheet_metadata :: "document_value \<Rightarrow> string \<Rightarrow> string + spreadsheet_value" where
  "parse_spreadsheet_metadata doc bytes =
     res_bind (stored_zip_entries bytes ''spreadsheet'' ''XLSX'') (\<lambda>entries.
     res_bind (ok_or ''malformed spreadsheet: missing xl/workbook.xml'' (entry_text ''xl/workbook.xml'' entries)) (\<lambda>workbook_xml.
     let names = extract_sheet_names workbook_xml in
     if names = [] then Err ''malformed spreadsheet: workbook has no sheets'' else
     let worksheets = sort_key fst (filter (\<lambda>(name, _). worksheet_entry name) entries) in
     if worksheets = [] then Err ''malformed spreadsheet: missing worksheet XML entries'' else
     let sheets = map (worksheet_value names) (enumerate 0 (map snd worksheets)) in
     Ok \<lparr>ss_document = doc, ss_sheet_count = int (length sheets), ss_sheets = sheets\<rparr>))"

section \<open>Results of extraction\<close>

definition ocr_result :: "image_value \<Rightarrow> string \<Rightarrow> f64 \<Rightarrow> string \<Rightarrow> string \<Rightarrow> string + ocr_result_value" where
  "ocr_result img body confidence provider model =
     (if \<not> f64_in_unit confidence then Err ''OCR confidence must be between 0.0 and 1.0''
      else Ok \<lparr>ocr_image = img, ocr_text = body, ocr_confidence = confidence, ocr_provider = provider,
        ocr_model = model, ocr_source = ''OCR:'' @ provider, ocr_privacy = d_privacy (img_document img),
        ocr_trust = ''untrusted''\<rparr>)"

definition extracted_document_text :: "document_value \<Rightarrow> string \<Rightarrow> string \<Rightarrow> string \<Rightarrow> extracted_text_value" where
  "extracted_document_text doc body provider model =
     \<lparr>ext_document = doc, ext_text = body, ext_provider = provider, ext_model = model,
      ext_source = ''DocumentExtraction:'' @ provider, ext_privacy = d_privacy doc, ext_trust = ''untrusted''\<rparr>"

definition document_extraction_metadata ::
    "document_value \<Rightarrow> string \<Rightarrow> string \<Rightarrow> string \<Rightarrow> int \<Rightarrow> string \<Rightarrow> extraction_metadata_value" where
  "document_extraction_metadata doc title author language page_count provider =
     \<lparr>meta_document = doc, meta_title = title, meta_author = author, meta_language = language,
      meta_page_count = page_count, meta_provider = provider, meta_source = ''DocumentExtraction:'' @ provider,
      meta_privacy = d_privacy doc, meta_trust = ''untrusted''\<rparr>"

definition document_extraction_error ::
    "document_value \<Rightarrow> string \<Rightarrow> string \<Rightarrow> bool \<Rightarrow> string \<Rightarrow> extraction_error_value" where
  "document_extraction_error doc code msg retryable provider =
     \<lparr>xerr_document = doc, xerr_code = code, xerr_message = msg, xerr_retryable = retryable,
      xerr_provider = provider, xerr_source = ''DocumentExtraction:'' @ provider, xerr_privacy = d_privacy doc,
      xerr_trust = ''trusted''\<rparr>"

section \<open>No read is out of range\<close>

lemma byte_at_Some: "i < length bytes \<Longrightarrow> byte_at bytes i = Some (byte (bytes ! i))"
  by (simp add: byte_at_def)

lemma be16_at_Some:
  "i + 1 < length bytes \<Longrightarrow> be16_at bytes i = Some (256 * byte (bytes ! i) + byte (bytes ! (i + 1)))"
  by (simp add: be16_at_def byte_at_Some)

lemma be32_at_Some:
  "i + 3 < length bytes \<Longrightarrow> be32_at bytes i =
     Some (65536 * (256 * byte (bytes ! i) + byte (bytes ! (i + 1))) + (256 * byte (bytes ! (i + 2)) + byte (bytes ! (i + 3))))"
  by (simp add: be32_at_def be16_at_Some numeral_3_eq_3)

lemma byte_less: "byte c < 256"
proof -
  have "(of_char c :: nat) \<in> {0..<256}" using range_nat_of_char by blast
  then show ?thesis by (simp add: byte_def)
qed

lemma be16_bound: "be16_at bytes i = Some n \<Longrightarrow> n < 2 ^ 16"
  using byte_less [of "bytes ! i"] byte_less [of "bytes ! (i + 1)"]
  by (auto simp: be16_at_def byte_at_def split: if_splits)

lemma be32_bound: "be32_at bytes i = Some n \<Longrightarrow> n < 2 ^ 32"
  by (auto simp: be32_at_def bind_eq_Some_conv dest!: be16_bound)

definition good_dimensions :: "(string + dimensions) option \<Rightarrow> bool" where
  "good_dimensions r \<longleftrightarrow> (case r of
     None \<Rightarrow> False
   | Some (Inl e) \<Rightarrow> True
   | Some (Inr (fmt, w, h)) \<Rightarrow> 0 < w \<and> w < 2 ^ 32 \<and> 0 < h \<and> h < 2 ^ 32)"

lemma good_dimensions_simps [simp]:
  "\<not> good_dimensions None" "good_dimensions (Some (Err e))"
  "good_dimensions (Some (Ok (fmt, w, h))) \<longleftrightarrow> 0 < w \<and> w < 2 ^ 32 \<and> 0 < h \<and> h < 2 ^ 32"
  by (simp_all add: good_dimensions_def)

lemma parse_png_good: "good_dimensions (parse_png_dimensions bytes)"
proof (cases "length bytes < 24 \<or> take 4 (drop 12 bytes) \<noteq> ''IHDR''")
  case False
  then obtain w h where "be32_at bytes 16 = Some w" "be32_at bytes 20 = Some h"
    using be32_at_Some [of 16 bytes] be32_at_Some [of 20 bytes] by auto
  with False be32_bound [of bytes 16 w] be32_bound [of bytes 20 h] show ?thesis
    by (auto simp: parse_png_dimensions_def)
qed (auto simp: parse_png_dimensions_def)

lemma jpeg_loop_good: "good_dimensions (jpeg_loop bytes offset)"
proof (induction bytes offset rule: jpeg_loop.induct)
  case (1 bytes offset)
  let ?at = "skip_fill bytes offset"
  show ?case
  proof (cases "length bytes < offset + 4 \<or> length bytes \<le> ?at")
    case True
    then show ?thesis by (subst jpeg_loop.simps) (auto simp: Let_def)
  next
    case in_range: False
    define m where "m = byte (bytes ! ?at)"
    have m: "byte_at bytes ?at = Some m" using in_range by (simp add: byte_at_def m_def)
    show ?thesis
    proof (cases "m = 0xd9 \<or> m = 0xda \<or> length bytes < ?at + 1 + 2")
      case True
      then show ?thesis using in_range m by (subst jpeg_loop.simps) (auto simp: Let_def)
    next
      case more: False
      then obtain n where n: "be16_at bytes (?at + 1) = Some n" using be16_at_Some [of "?at + 1" bytes] by auto
      show ?thesis
      proof (cases "n < 2 \<or> length bytes < ?at + 1 + n")
        case True
        then show ?thesis using in_range m more n by (subst jpeg_loop.simps) (auto simp: Let_def)
      next
        case seg: False
        show ?thesis
        proof (cases "m \<in> set sof_markers")
          case sof: True
          show ?thesis
          proof (cases "n < 7")
            case True
            then show ?thesis using in_range m more n seg sof by (subst jpeg_loop.simps) (auto simp: Let_def)
          next
            case False
            obtain h w where hw: "be16_at bytes (?at + 1 + 3) = Some h" "be16_at bytes (?at + 1 + 5) = Some w"
              using be16_at_Some [of "?at + 1 + 3" bytes] be16_at_Some [of "?at + 1 + 5" bytes] seg False by auto
            have "jpeg_loop bytes offset =
                (if w = 0 \<or> h = 0 then Some (Err ''malformed JPEG: invalid dimensions'')
                 else Some (Ok (''jpeg'', int w, int h)))"
              using in_range m more n seg sof False hw by (subst jpeg_loop.simps) (simp add: Let_def)
            then show ?thesis using be16_bound [OF hw(1)] be16_bound [OF hw(2)] by auto
          qed
        next
          case False
          have "jpeg_loop bytes offset = jpeg_loop bytes (?at + 1 + n)"
            using in_range m more n seg False by (subst jpeg_loop.simps) (simp add: Let_def)
          moreover have "good_dimensions (jpeg_loop bytes (?at + 1 + n))"
            using 1 in_range m more n seg False by simp
          ultimately show ?thesis by simp
        qed
      qed
    qed
  qed
qed

text \<open>Reading the metadata of an image never reads outside the bytes, whatever they are, and the
  dimensions it reports are positive and fit 32 bits.\<close>

theorem image_reader_in_range:
  "case parse_image_metadata doc bytes of
     None \<Rightarrow> False
   | Some (Inl e) \<Rightarrow> True
   | Some (Inr v) \<Rightarrow> 0 < img_width v \<and> img_width v < 2 ^ 32 \<and> 0 < img_height v \<and> img_height v < 2 ^ 32
       \<and> img_document v = doc"
proof -
  have "good_dimensions (if starts_with png_header bytes then parse_png_dimensions bytes
        else if starts_with [CHR 0xFF, CHR 0xD8] bytes then parse_jpeg_dimensions bytes
        else Some (Err ''malformed image: unsupported or missing image header''))" (is "good_dimensions ?r")
    by (simp add: parse_png_good parse_jpeg_dimensions_def jpeg_loop_good)
  then show ?thesis
    unfolding parse_image_metadata_def
    by (cases ?r; cases "the ?r") (auto simp: good_dimensions_def split: sum.splits prod.splits)
qed

section \<open>Archives are read back\<close>

text \<open>A stored entry as the format lays it out: its header with version, flags, time and checksum, the
  name, the extra field, the data.\<close>

record zip_file =
  zf_version :: string
  zf_stamp :: string
  zf_extra :: string
  zf_name :: string
  zf_data :: string

definition le16_bytes :: "nat \<Rightarrow> string" where
  "le16_bytes n = [char_of (n mod 256), char_of (n div 256 mod 256)]"

definition le32_bytes :: "nat \<Rightarrow> string" where
  "le32_bytes n = le16_bytes (n mod 65536) @ le16_bytes (n div 65536)"

definition zip_header :: "zip_file \<Rightarrow> string" where
  "zip_header z =
     zip_magic @ zf_version z @ le16_bytes 0 @ zf_stamp z @ le32_bytes (length (zf_data z))
     @ le32_bytes (length (zf_data z)) @ le16_bytes (length (zf_name z)) @ le16_bytes (length (zf_extra z))"

definition zip_bytes :: "zip_file \<Rightarrow> string" where
  "zip_bytes z = zip_header z @ zf_name z @ zf_extra z @ zf_data z"

definition zip_file_ok :: "zip_file \<Rightarrow> bool" where
  "zip_file_ok z \<longleftrightarrow>
     length (zf_version z) = 4 \<and> length (zf_stamp z) = 8 \<and> length (zf_extra z) < 2 ^ 16
     \<and> length (zf_name z) < 2 ^ 16 \<and> length (zf_data z) < 2 ^ 32 \<and> utf8_error 0 (zf_name z) = None"

lemma byte_char_of [simp]: "byte (char_of n) = n mod 256"
  by (simp add: byte_def)

lemma length_le_bytes [simp]: "length (le16_bytes n) = 2" "length (le32_bytes n) = 4"
  by (simp_all add: le16_bytes_def le32_bytes_def)

lemma length_zip_header: "zip_file_ok z \<Longrightarrow> length (zip_header z) = 30"
  by (simp add: zip_header_def zip_file_ok_def zip_magic_def)

lemma le_u16_at:
  assumes "drop offset bytes = le16_bytes n @ rest" and "offset \<le> length bytes" and "n < 2 ^ 16"
  shows "le_u16 bytes offset what = Ok n"
proof -
  have l: "offset + 2 \<le> length bytes" using arg_cong [OF assms(1), of length] assms(2) by simp
  have "bytes ! offset = (le16_bytes n @ rest) ! 0" "bytes ! (offset + 1) = (le16_bytes n @ rest) ! 1"
    using l assms(1) nth_drop [of offset bytes 0] nth_drop [of offset bytes 1] by simp_all
  then show ?thesis
    using l assms(3) by (simp add: le_u16_def le16_bytes_def)
qed

lemma le_u32_at:
  assumes "drop offset bytes = le32_bytes n @ rest" and "offset \<le> length bytes" and "n < 2 ^ 32"
  shows "le_u32 bytes offset what = Ok n"
proof -
  have l: "offset + 4 \<le> length bytes" using arg_cong [OF assms(1), of length] assms(2) by simp
  have "bytes ! (offset + i) = (le32_bytes n @ rest) ! i" for i
    using l assms(1) nth_drop [of offset bytes i] assms(2) by metis
  note at = this [of 0, unfolded add_0_right] this [of 1] this [of 2] this [of 3]
  define a where "a = n mod 65536"
  define b where "b = n div 65536"
  have n: "n = a + 65536 * b" "a < 65536" "b < 65536"
    using assms(3) by (simp_all add: a_def b_def div_less_iff_less_mult)
  have two: "m mod 256 + 256 * (m div 256 mod 256) = m" if "m < 65536" for m :: nat
  proof -
    have "m div 256 < 256" using that by (simp add: div_less_iff_less_mult)
    then show ?thesis by simp
  qed
  have "le32_bytes n = le16_bytes a @ le16_bytes b" by (simp add: le32_bytes_def a_def b_def)
  then have "le_u32 bytes offset what = Ok (a mod 256 + 256 * (a div 256 mod 256)
      + 65536 * (b mod 256) + 16777216 * (b div 256 mod 256))"
    unfolding le_u32_def at using l by (simp add: le16_bytes_def)
  also have "a mod 256 + 256 * (a div 256 mod 256) + 65536 * (b mod 256) + 16777216 * (b div 256 mod 256) = n"
    using two [OF n(2)] two [OF n(3)] n(1) by linarith
  finally show ?thesis .
qed

lemma zip_entry_at_bytes:
  assumes z: "zip_file_ok z" and bytes: "bytes = pre @ zip_bytes z @ post" and len: "length bytes \<le> u64_max"
  shows "zip_entry_at bytes (length pre) what label = Ok (zf_name z, zf_data z, length pre + length (zip_bytes z))"
proof -
  let ?o = "length pre" and ?d = "zf_data z" and ?n = "zf_name z" and ?x = "zf_extra z"
  note ok = z [unfolded zip_file_ok_def]
  have l: "length bytes = ?o + 30 + length ?n + length ?x + length ?d + length post"
    using length_zip_header [OF z] by (simp add: bytes zip_bytes_def)
  have tail: "drop (?o + k) bytes = drop k (zip_header z) @ ?n @ ?x @ ?d @ post" if "k \<le> 30" for k
    using that length_zip_header [OF z] by (simp add: bytes zip_bytes_def)
  have parts: "le_u16 bytes (?o + 8) what = Ok 0" "le_u32 bytes (?o + 18) what = Ok (length ?d)"
    "le_u32 bytes (?o + 22) what = Ok (length ?d)" "le_u16 bytes (?o + 26) what = Ok (length ?n)"
    "le_u16 bytes (?o + 28) what = Ok (length ?x)"
    by (rule le_u16_at le_u32_at; use ok l in \<open>simp add: tail zip_header_def zip_magic_def\<close>)+
  have name: "take (length ?n) (drop (?o + 30) bytes) = ?n"
    using tail [of 30] length_zip_header [OF z] by simp
  have data: "take (length ?d) (drop (?o + 30 + length ?n + length ?x) bytes) = ?d"
    using length_zip_header [OF z] by (simp add: bytes zip_bytes_def)
  have "from_utf8 ?n = Ok ?n" using ok by (simp add: from_utf8_def)
  then show ?thesis
    using parts name data l len length_zip_header [OF z]
    by (simp add: zip_entry_at_def checked_nat_def zip_bytes_def add.assoc)
qed

lemma zip_loop_bytes:
  assumes "list_all zip_file_ok zs" and "length (pre @ concat (map zip_bytes zs) @ post) \<le> u64_max"
    and "length post < 30 \<or> take 4 post \<noteq> zip_magic"
  shows "zip_loop (pre @ concat (map zip_bytes zs) @ post) what label (length pre)
    = Ok (map (\<lambda>z. (zf_name z, zf_data z)) zs)"
  using assms(1,2)
proof (induction zs arbitrary: pre)
  case Nil
  with assms(3) show ?case by (subst zip_loop.simps) auto
next
  case (Cons z zs)
  let ?rest = "concat (map zip_bytes zs) @ post" and ?bytes = "pre @ concat (map zip_bytes (z # zs)) @ post"
  have z: "zip_file_ok z" using Cons.prems by simp
  have b: "?bytes = pre @ zip_bytes z @ ?rest" by simp
  have e: "zip_entry_at ?bytes (length pre) what label = Ok (zf_name z, zf_data z, length (pre @ zip_bytes z))"
    using zip_entry_at_bytes [OF z b] Cons.prems(2) by simp
  have "take 4 (zip_bytes z) = zip_magic" by (simp add: zip_bytes_def zip_header_def zip_magic_def)
  then have m: "take 4 (drop (length pre) ?bytes) = zip_magic" "length pre + 30 \<le> length ?bytes"
    using length_zip_header [OF z] by (simp_all add: zip_bytes_def)
  have "zip_loop ?bytes what label (length (pre @ zip_bytes z)) = Ok (map (\<lambda>z. (zf_name z, zf_data z)) zs)"
    using Cons.IH [of "pre @ zip_bytes z"] Cons.prems by simp
  with e m show ?case by (subst zip_loop.simps) simp
qed

text \<open>The entries of an archive whose entries are all stored are read back, names and data in
  order, up to what follows the last of them.\<close>

theorem stored_zip_read_back:
  assumes "list_all zip_file_ok zs" and "zs \<noteq> []" and "length post < 30 \<or> take 4 post \<noteq> zip_magic"
    and "length (concat (map zip_bytes zs) @ post) \<le> u64_max"
  shows "stored_zip_entries (concat (map zip_bytes zs) @ post) what label
    = Ok (map (\<lambda>z. (zf_name z, zf_data z)) zs)"
  using zip_loop_bytes [of zs "[]" post what label] assms by (simp add: stored_zip_entries_def)

definition sample_zip :: zip_file where
  "sample_zip = \<lparr>zf_version = replicate 4 (CHR 0x00), zf_stamp = replicate 8 (CHR 0x00), zf_extra = [],
     zf_name = ''word/document.xml'', zf_data = ''<w:p/><w:p><w:pPr/></w:p>''\<rparr>"

lemma sample_zip_ok: "zip_file_ok sample_zip"
proof -
  have "utf8_error 0 ''word/document.xml'' = None" by (rule utf8_error_ascii) (simp add: ascii_defs)
  then show ?thesis by (simp add: zip_file_ok_def sample_zip_def del: utf8_error.simps)
qed

lemma sample_zip_length: "length (zip_bytes sample_zip) \<le> u64_max"
  using length_zip_header [OF sample_zip_ok] by (simp add: zip_bytes_def sample_zip_def)

theorem stored_zip_read_back_witness:
  "stored_zip_entries (zip_bytes sample_zip) ''DOCX'' ''DOCX''
     = Ok [(''word/document.xml'', ''<w:p/><w:p><w:pPr/></w:p>'')]"
  using stored_zip_read_back [of "[sample_zip]" "[]" "''DOCX''" "''DOCX''"] sample_zip_ok sample_zip_length
  by (simp add: sample_zip_def)

text \<open>A document of two paragraphs, one of which has paragraph properties, is reported to have three:
  the counter also finds the tag of the properties.\<close>

lemma docx_counts_properties:
  "parse_docx_metadata doc (zip_bytes sample_zip)
     = Ok \<lparr>docx_document = doc, docx_title = [], docx_creator = [], docx_paragraph_count = 3\<rparr>"
proof -
  have "zip_loop (zip_bytes sample_zip) ''DOCX'' ''DOCX'' 0 = Ok [(zf_name sample_zip, zf_data sample_zip)]"
    using zip_loop_bytes [of "[sample_zip]" "[]" "[]" "''DOCX''" "''DOCX''"] sample_zip_ok sample_zip_length by simp
  then have e: "stored_zip_entries (zip_bytes sample_zip) ''DOCX'' ''DOCX'' = Ok [(zf_name sample_zip, zf_data sample_zip)]"
    by (simp add: stored_zip_entries_def)
  have "utf8_error 0 (zf_data sample_zip) = None" unfolding sample_zip_def zip_file.simps
    by (rule utf8_error_ascii) (simp add: ascii_defs)
  then have "from_utf8_lossy (zf_data sample_zip) = zf_data sample_zip" by (rule from_utf8_lossy_valid)
  moreover have "count_occurrences (zf_data sample_zip) ''<w:p'' = 3" by code_simp
  moreover have "zf_name sample_zip = ''word/document.xml''" by (simp add: sample_zip_def)
  moreover have "extract_xml_text [] ''dc:title'' = None" "extract_xml_text [] ''dc:creator'' = None" by code_simp+
  ultimately show ?thesis by (simp add: parse_docx_metadata_def e entry_text_def)
qed

end
