(* ===== verification/Xml.thy ===== *)
theory Xml
  imports Rust_Strings
begin

text \<open>
  \<open>num-runtime/src/xml.rs\<close>: the check a text must pass to be an XML value. It looks at the
  first and the last character, at control characters and at the first tag, no more.
\<close>

text \<open>\<open>char::is_control\<close>: U+0000 to U+001F and U+007F to U+009F.\<close>

definition is_control :: "string \<Rightarrow> bool" where
  "is_control c =
     (case map byte c of
        [a] \<Rightarrow> a < 32 \<or> a = 127
      | [a, b] \<Rightarrow> a = 194 \<and> 128 \<le> b \<and> b \<le> 159
      | _ \<Rightarrow> False)"

lemma find_str_length: "find_str p s = Some i \<Longrightarrow> p \<noteq> [] \<Longrightarrow> i < length s"
  by (induction p s arbitrary: i rule: find_str.induct) (auto split: if_splits)

definition tag_name_char :: "string \<Rightarrow> bool" where
  "tag_name_char ch \<longleftrightarrow>
     ch = ''_'' \<or> ch = '':'' \<or> ch = ''-'' \<or> (length ch = 1 \<and> is_ascii_alphanumeric (hd ch))"

function contains_tag_name :: "string \<Rightarrow> bool" where
  "contains_tag_name raw =
     (case find_str ''<'' raw of
        None \<Rightarrow> False
      | Some offset \<Rightarrow>
          let rest = drop (offset + 1) raw in
          if rest \<noteq> [] \<and> (hd rest = CHR ''!'' \<or> hd rest = CHR ''?'' \<or> hd rest = CHR ''/'')
          then contains_tag_name rest
          else list_ex tag_name_char
                 (takeWhile (\<lambda>ch. \<not> is_whitespace ch \<and> ch \<noteq> ''/'' \<and> ch \<noteq> ''>'') (chars rest)))"
  by pat_completeness auto
termination
  by (relation "measure length") (auto dest: find_str_length)

declare contains_tag_name.simps [simp del]

definition validate_xml_document :: "string \<Rightarrow> string + unit" where
  "validate_xml_document raw =
     (let trimmed = trim raw in
      if trimmed = [] then Err ''XML value cannot be empty''
      else if hd trimmed \<noteq> CHR ''<'' \<or> last trimmed \<noteq> CHR ''>''
      then Err (''XML value must start with '' @ [CHR 0x27] @ ''<'' @ [CHR 0x27] @ '' and end with ''
                @ [CHR 0x27] @ ''>'' @ [CHR 0x27])
      else if list_ex (\<lambda>ch. is_control ch \<and> \<not> is_whitespace ch) (chars trimmed)
      then Err ''XML value contains unsupported control characters''
      else if \<not> contains_tag_name trimmed then Err ''XML value must contain at least one element tag''
      else Ok ())"

end
