(* ===== verification/Values.thy ===== *)
theory Values
  imports Storage Documents Xml Hashing Decimal Redaction
begin

text \<open>
  The values of the language (\<open>Value\<close> in \<open>num-runtime/src/interpreter.rs\<close>), the fields of the
  document values (\<open>document.rs\<close>), and the JSON in which \<open>execution.rs\<close> stores a value and reads
  it back. A \<open>HashMap\<close> is a finite map. \<open>runtime_value_to_json\<close> panics (\<open>None\<close>) for an amount that
  no JSON number can hold and for the decimal that \<open>Display\<close> panics on.
\<close>

datatype rt_value =
    Null
  | Bool bool
  | Integer int
  | Float f64
  | Dec decimal
  | String string
  | Bytes "u8 list"
  | Xml string
  | Document document_value
  | Pdf pdf_value
  | Docx docx_value
  | SpreadsheetSheet spreadsheet_sheet_value
  | Spreadsheet spreadsheet_value
  | Image image_value
  | OcrResult ocr_result_value
  | ExtractedDocumentText extracted_text_value
  | DocumentExtractionMetadata extraction_metadata_value
  | DocumentExtractionError extraction_error_value
  | Money int string
  | ExchangeRate string string decimal string
  | Brand string rt_value
  | Secret rt_value
  | Uncertain rt_value f64
  | List "rt_value list"
  | Map "(rt_value \<times> rt_value) list"
  | Set "rt_value list"
  | Queue "rt_value list"
  | Stack "rt_value list"
  | Stream "rt_value list"
  | Struct string "(string, rt_value) fmap"
  | Enum string string "rt_value option"
  | Quantity f64 string

section \<open>Fields of the document values\<close>

definition field_or :: "rt_value option \<Rightarrow> (string \<times> rt_value) list \<Rightarrow> string \<Rightarrow> rt_value option" where
  "field_or other own key = (case map_of own key of Some x \<Rightarrow> Some x | None \<Rightarrow> other)"

definition document_field :: "document_value \<Rightarrow> string \<Rightarrow> rt_value option" where
  "document_field v key = field_or None
     [(''id'', String (d_id v)), (''name'', String (d_name v)),
      (''mime_type'', String (d_mime_type v)), (''size_bytes'', Integer (d_size_bytes v)),
      (''source'', String (d_source v)), (''privacy'', String (d_privacy v)),
      (''trust'', String (d_trust v))] key"

definition pdf_field :: "pdf_value \<Rightarrow> string \<Rightarrow> rt_value option" where
  "pdf_field v key = field_or (document_field (pdf_document v) key)
     [(''document'', Document (pdf_document v)), (''page_count'', Integer (pdf_page_count v))] key"

definition docx_field :: "docx_value \<Rightarrow> string \<Rightarrow> rt_value option" where
  "docx_field v key = field_or (document_field (docx_document v) key)
     [(''document'', Document (docx_document v)), (''title'', String (docx_title v)),
      (''creator'', String (docx_creator v)),
      (''paragraph_count'', Integer (docx_paragraph_count v))] key"

definition sheet_field :: "spreadsheet_sheet_value \<Rightarrow> string \<Rightarrow> rt_value option" where
  "sheet_field v key = field_or None
     [(''name'', String (sheet_name v)), (''row_count'', Integer (sheet_row_count v)),
      (''column_count'', Integer (sheet_column_count v)),
      (''header_row'', Integer (sheet_header_row v))] key"

definition spreadsheet_field :: "spreadsheet_value \<Rightarrow> string \<Rightarrow> rt_value option" where
  "spreadsheet_field v key = field_or (document_field (ss_document v) key)
     [(''document'', Document (ss_document v)), (''sheet_count'', Integer (ss_sheet_count v)),
      (''sheets'', List (map SpreadsheetSheet (ss_sheets v))),
      (''sheet_names'', List (map (\<lambda>sh. String (sheet_name sh)) (ss_sheets v)))] key"

definition image_field :: "image_value \<Rightarrow> string \<Rightarrow> rt_value option" where
  "image_field v key = field_or (document_field (img_document v) key)
     [(''document'', Document (img_document v)), (''width'', Integer (img_width v)),
      (''height'', Integer (img_height v)), (''format'', String (img_format v))] key"

definition ocr_result_field :: "ocr_result_value \<Rightarrow> string \<Rightarrow> rt_value option" where
  "ocr_result_field v key = field_or None
     [(''image'', Image (ocr_image v)), (''text'', String (ocr_text v)),
      (''confidence'', Float (ocr_confidence v)), (''provider'', String (ocr_provider v)),
      (''model'', String (ocr_model v)), (''source'', String (ocr_source v)),
      (''privacy'', String (ocr_privacy v)), (''trust'', String (ocr_trust v))] key"

definition extracted_text_field :: "extracted_text_value \<Rightarrow> string \<Rightarrow> rt_value option" where
  "extracted_text_field v key = field_or (document_field (ext_document v) key)
     [(''document'', Document (ext_document v)), (''text'', String (ext_text v)),
      (''provider'', String (ext_provider v)), (''model'', String (ext_model v)),
      (''source'', String (ext_source v)), (''privacy'', String (ext_privacy v)),
      (''trust'', String (ext_trust v))] key"

definition extraction_metadata_field :: "extraction_metadata_value \<Rightarrow> string \<Rightarrow> rt_value option" where
  "extraction_metadata_field v key = field_or (document_field (meta_document v) key)
     [(''document'', Document (meta_document v)), (''title'', String (meta_title v)),
      (''author'', String (meta_author v)), (''language'', String (meta_language v)),
      (''page_count'', Integer (meta_page_count v)), (''provider'', String (meta_provider v)),
      (''source'', String (meta_source v)), (''privacy'', String (meta_privacy v)),
      (''trust'', String (meta_trust v))] key"

definition extraction_error_field :: "extraction_error_value \<Rightarrow> string \<Rightarrow> rt_value option" where
  "extraction_error_field v key = field_or (document_field (xerr_document v) key)
     [(''document'', Document (xerr_document v)), (''code'', String (xerr_code v)),
      (''message'', String (xerr_message v)), (''retryable'', Bool (xerr_retryable v)),
      (''provider'', String (xerr_provider v)), (''source'', String (xerr_source v)),
      (''privacy'', String (xerr_privacy v)), (''trust'', String (xerr_trust v))] key"

section \<open>Values as JSON\<close>

definition kinded :: "string \<Rightarrow> (string \<times> json) list \<Rightarrow> json" where
  "kinded k fs = json_object ((''kind'', JString k) # fs)"

definition items_json :: "string \<Rightarrow> json list \<Rightarrow> json" where
  "items_json k js = kinded k [(''items'', JArray js)]"

definition decimal_text :: "decimal \<Rightarrow> string" where
  "decimal_text d = unwrap_or [] (decimal_to_string d)"

text \<open>The JSON of a value that prints.\<close>

primrec value_json :: "rt_value \<Rightarrow> json" where
  "value_json Null = kinded ''Null'' []"
| "value_json (Bool b) = kinded ''Bool'' [(''value'', JBool b)]"
| "value_json (Integer i) = kinded ''Int'' [(''value'', JInt i)]"
| "value_json (Float f) = kinded ''Float'' [(''value'', json_f64 f)]"
| "value_json (Dec d) = kinded ''Decimal'' [(''value'', JString (decimal_text d))]"
| "value_json (String s) = kinded ''String'' [(''value'', JString s)]"
| "value_json (Bytes bs) = kinded ''Bytes'' [(''base64'', JString (base64_encode bs))]"
| "value_json (Xml s) = kinded ''Xml'' [(''value'', JString s)]"
| "value_json (Document v) = kinded ''Document'' [(''value'', document_to_json v)]"
| "value_json (Pdf v) = kinded ''Pdf'' [(''value'', pdf_to_json v)]"
| "value_json (Docx v) = kinded ''Docx'' [(''value'', docx_to_json v)]"
| "value_json (SpreadsheetSheet v) = kinded ''SpreadsheetSheet'' [(''value'', sheet_to_json v)]"
| "value_json (Spreadsheet v) = kinded ''Spreadsheet'' [(''value'', spreadsheet_to_json v)]"
| "value_json (Image v) = kinded ''Image'' [(''value'', image_to_json v)]"
| "value_json (OcrResult v) = kinded ''OcrResult'' [(''value'', ocr_result_to_json v)]"
| "value_json (ExtractedDocumentText v) =
     kinded ''ExtractedDocumentText'' [(''value'', extracted_text_to_json v)]"
| "value_json (DocumentExtractionMetadata v) =
     kinded ''DocumentExtractionMetadata'' [(''value'', extraction_metadata_to_json v)]"
| "value_json (DocumentExtractionError v) =
     kinded ''DocumentExtractionError'' [(''value'', extraction_error_to_json v)]"
| "value_json (Money amount cur) = kinded ''Money'' [(''minor_units'', JInt amount), (''currency'', JString cur)]"
| "value_json (ExchangeRate from_cur to_cur rate src) =
     kinded ''ExchangeRate''
       [(''from'', JString from_cur), (''to'', JString to_cur), (''rate'', JString (decimal_text rate)),
        (''source'', JString src)]"
| "value_json (Brand name v) = kinded ''Brand'' [(''name'', JString name), (''value'', value_json v)]"
| "value_json (Secret v) = kinded ''Secret'' [(''value'', JString REDACTION_MARKER)]"
| "value_json (Uncertain v conf) = kinded ''Uncertain'' [(''value'', value_json v), (''confidence'', json_f64 conf)]"
| "value_json (List vs) = items_json ''List'' (map value_json vs)"
| "value_json (Map es) =
     kinded ''Map''
       [(''entries'', JArray (map (\<lambda>(k, v). json_object [(''key'', k), (''value'', v)])
                              (map (map_prod value_json value_json) es)))]"
| "value_json (Set vs) = items_json ''Set'' (map value_json vs)"
| "value_json (Queue vs) = items_json ''Queue'' (map value_json vs)"
| "value_json (Stack vs) = items_json ''Stack'' (map value_json vs)"
| "value_json (Stream vs) = items_json ''Stream'' (map value_json vs)"
| "value_json (Struct name fs) =
     kinded ''Struct'' [(''name'', JString name), (''fields'', JObject (fmmap value_json fs))]"
| "value_json (Enum name variant payload) =
     kinded ''Enum''
       ([(''name'', JString name), (''variant'', JString variant)]
        @ (case map_option value_json payload of None \<Rightarrow> [] | Some p \<Rightarrow> [(''payload'', p)]))"
| "value_json (Quantity amount unit) = kinded ''Quantity'' [(''amount'', json_f64 amount), (''unit'', JString unit)]"

text \<open>Where nothing panics: every amount fits a JSON number and every decimal prints.\<close>

primrec prints :: "rt_value \<Rightarrow> bool" where
  "prints Null = True"
| "prints (Bool b) = True"
| "prints (Integer i) = True"
| "prints (Float f) = True"
| "prints (Dec d) = (decimal_to_string d \<noteq> None)"
| "prints (String s) = True"
| "prints (Bytes bs) = True"
| "prints (Xml s) = True"
| "prints (Document v) = True"
| "prints (Pdf v) = True"
| "prints (Docx v) = True"
| "prints (SpreadsheetSheet v) = True"
| "prints (Spreadsheet v) = True"
| "prints (Image v) = True"
| "prints (OcrResult v) = True"
| "prints (ExtractedDocumentText v) = True"
| "prints (DocumentExtractionMetadata v) = True"
| "prints (DocumentExtractionError v) = True"
| "prints (Money amount cur) = (json_i128 amount \<noteq> None)"
| "prints (ExchangeRate from_cur to_cur rate src) = (decimal_to_string rate \<noteq> None)"
| "prints (Brand name v) = prints v"
| "prints (Secret v) = True"
| "prints (Uncertain v conf) = prints v"
| "prints (List vs) = list_all id (map prints vs)"
| "prints (Map es) = list_all (\<lambda>(k, v). k \<and> v) (map (map_prod prints prints) es)"
| "prints (Set vs) = list_all id (map prints vs)"
| "prints (Queue vs) = list_all id (map prints vs)"
| "prints (Stack vs) = list_all id (map prints vs)"
| "prints (Stream vs) = list_all id (map prints vs)"
| "prints (Struct name fs) = fmpred (\<lambda>_ b. b) (fmmap prints fs)"
| "prints (Enum name variant payload) = (map_option prints payload \<noteq> Some False)"
| "prints (Quantity amount unit) = True"

definition runtime_value_to_json :: "rt_value \<Rightarrow> json option" where
  "runtime_value_to_json v = (if prints v then Some (value_json v) else None)"

section \<open>Reading a value\<close>

text \<open>The nesting depth of a JSON value, on which the reader recurses.\<close>

primrec json_depth :: "json \<Rightarrow> nat" where
  "json_depth JNull = 0"
| "json_depth (JBool b) = 0"
| "json_depth (JInt i) = 0"
| "json_depth (JFloat w) = 0"
| "json_depth (JString s) = 0"
| "json_depth (JArray js) = Suc (Max (insert 0 (set (map json_depth js))))"
| "json_depth (JObject m) = Suc (Max (insert 0 (fset (fmran (fmmap json_depth m)))))"

lemma json_depth_member: "as_array v = Some js \<Longrightarrow> j \<in> set js \<Longrightarrow> json_depth j < json_depth v"
  by (cases v) (auto simp: less_Suc_eq_le intro: Max_ge)

lemma json_depth_lookup:
  assumes "as_object v = Some m" and "fmlookup m k = Some j"
  shows "json_depth j < json_depth v"
proof -
  have "json_depth j \<in> json_depth ` fset (fmran m)" using assms(2) by (auto intro: fmranI)
  then have "json_depth j \<le> Max (insert 0 (json_depth ` fset (fmran m)))" by (intro Max_ge) auto
  with assms(1) show ?thesis by (cases v) (auto simp: less_Suc_eq_le)
qed

lemma json_depth_get: "json_get v k = Some j \<Longrightarrow> json_depth j < json_depth v"
  using json_depth_lookup [of v] by (cases v) (auto simp del: json_depth.simps)

lemma collect_object_cong [fundef_cong]:
  assumes "m = m'" and "\<And>k v. fmlookup m' k = Some v \<Longrightarrow> f k v = g k v"
  shows "collect_object f m = collect_object g m'"
proof -
  have "collect_results (\<lambda>(k, v). res_map (Pair k) (f k v)) (sorted_list_of_fmap m')
      = collect_results (\<lambda>(k, v). res_map (Pair k) (g k v)) (sorted_list_of_fmap m')"
    by (rule collect_results_cong) (auto simp: sorted_list_of_fmap_def assms(2) fmlookup_dom_iff)
  then show ?thesis by (simp add: collect_object_def assms(1))
qed

definition bool_field :: "json \<Rightarrow> string \<Rightarrow> runtime_error + bool" where
  "bool_field v key = ok_or (missing ''bool'' key) (Option.bind (json_get v key) as_bool)"

definition i64_field :: "json \<Rightarrow> string \<Rightarrow> runtime_error + int" where
  "i64_field v key = ok_or (missing ''i64'' key) (Option.bind (json_get v key) as_i64)"

definition i128_field :: "json \<Rightarrow> string \<Rightarrow> runtime_error + int" where
  "i128_field v key = ok_or (missing ''i128'' key) (Option.bind (json_get v key) as_i64)"

definition f64_field :: "json \<Rightarrow> string \<Rightarrow> runtime_error + f64" where
  "f64_field v key = ok_or (missing ''f64'' key) (Option.bind (json_get v key) as_f64)"

definition u32_field :: "json \<Rightarrow> string \<Rightarrow> runtime_error + nat" where
  "u32_field v key = ok_or (missing ''u32'' key)
     (Option.bind (Option.bind (json_get v key) as_u64) (checked_nat u32_max))"

text \<open>\<open>value.get(key).ok_or_else(|| storage_error("missing ..."))\<close>, and the array under \<open>items\<close>.\<close>

definition part :: "json \<Rightarrow> string \<Rightarrow> string \<Rightarrow> runtime_error + json" where
  "part v key what = ok_or (Storage (''missing '' @ what)) (json_get v key)"

definition items_of :: "json \<Rightarrow> string \<Rightarrow> string \<Rightarrow> runtime_error + json list" where
  "items_of v key what = ok_or (Storage (''missing '' @ what)) (Option.bind (json_get v key) as_array)"

lemma part_depth: "part v key what = Inr j \<Longrightarrow> json_depth j < json_depth v"
  by (simp add: part_def result_simps json_depth_get)

lemma items_depth: "items_of v key what = Inr js \<Longrightarrow> j \<in> set js \<Longrightarrow> json_depth j < json_depth v"
  by (auto simp: items_of_def result_simps bind_eq_Some_conv dest!: json_depth_get dest: json_depth_member)

text \<open>A document of another module: its reader's message becomes a storage error.\<close>

definition read_part :: "(json \<Rightarrow> string + 'a) \<Rightarrow> ('a \<Rightarrow> rt_value) \<Rightarrow> string \<Rightarrow> json \<Rightarrow> runtime_error + rt_value" where
  "read_part f con what v = res_bind (part v ''value'' what) (\<lambda>j. storage_result (res_map con (f j)))"

function json_to_runtime_value :: "json \<Rightarrow> runtime_error + rt_value" where
  "json_to_runtime_value v =
     res_bind (string_field v ''kind'') (\<lambda>k.
     if k = ''Bool'' then res_map Bool (bool_field v ''value'')
     else if k = ''Int'' then res_map Integer (i64_field v ''value'')
     else if k = ''Float'' then res_map Float (f64_field v ''value'')
     else if k = ''Decimal''
     then res_bind (string_field v ''value'') (\<lambda>s. storage_result (res_map Dec (decimal_parse s)))
     else if k = ''String'' then res_map String (string_field v ''value'')
     else if k = ''Bytes''
     then res_bind (string_field v ''base64'') (\<lambda>s. storage_result (res_map Bytes (base64_decode s)))
     else if k = ''Xml''
     then res_bind (string_field v ''value'') (\<lambda>raw.
          storage_result (res_map (\<lambda>_. Xml raw) (validate_xml_document raw)))
     else if k = ''Document'' then read_part value_from_json Document ''document value'' v
     else if k = ''Pdf'' then read_part pdf_from_json Pdf ''pdf value'' v
     else if k = ''Docx'' then read_part docx_from_json Docx ''docx value'' v
     else if k = ''SpreadsheetSheet''
     then read_part spreadsheet_sheet_from_json SpreadsheetSheet ''spreadsheet sheet value'' v
     else if k = ''Spreadsheet'' then read_part spreadsheet_from_json Spreadsheet ''spreadsheet value'' v
     else if k = ''Image'' then read_part image_from_json Image ''image value'' v
     else if k = ''OcrResult'' then read_part ocr_result_from_json OcrResult ''OCR result value'' v
     else if k = ''ExtractedDocumentText''
     then read_part extracted_document_text_from_json ExtractedDocumentText ''extracted document text value'' v
     else if k = ''DocumentExtractionMetadata''
     then read_part document_extraction_metadata_from_json DocumentExtractionMetadata
            ''document extraction metadata value'' v
     else if k = ''DocumentExtractionError''
     then read_part document_extraction_error_from_json DocumentExtractionError
            ''document extraction error value'' v
     else if k = ''Money''
     then res_bind (i128_field v ''minor_units'') (\<lambda>amount. res_map (Money amount) (string_field v ''currency''))
     else if k = ''ExchangeRate''
     then res_bind (string_field v ''from'') (\<lambda>from_cur.
          res_bind (string_field v ''to'') (\<lambda>to_cur.
          res_bind (res_bind (string_field v ''rate'') (\<lambda>s. storage_result (decimal_parse s))) (\<lambda>rate.
          res_map (ExchangeRate from_cur to_cur rate) (string_field v ''source''))))
     else if k = ''Brand''
     then res_bind (string_field v ''name'') (\<lambda>name.
          res_bind (part v ''value'' ''brand value'') (\<lambda>j. res_map (Brand name) (json_to_runtime_value j)))
     else if k = ''Secret'' then Ok (Secret (String REDACTION_MARKER))
     else if k = ''Uncertain''
     then res_bind (part v ''value'' ''uncertain value'') (\<lambda>j.
          res_bind (json_to_runtime_value j) (\<lambda>inner.
          res_map (Uncertain inner) (f64_field v ''confidence'')))
     else if k = ''List''
     then res_bind (items_of v ''items'' ''list items'') (\<lambda>js. res_map List (collect_results json_to_runtime_value js))
     else if k = ''Map''
     then res_bind (items_of v ''entries'' ''map entries'') (\<lambda>js.
          res_map Map (collect_results (\<lambda>entry.
            res_bind (part entry ''key'' ''map entry key'') (\<lambda>key.
            res_bind (part entry ''value'' ''map entry value'') (\<lambda>val.
            res_bind (json_to_runtime_value key) (\<lambda>a.
            res_map (Pair a) (json_to_runtime_value val))))) js))
     else if k = ''Set''
     then res_bind (items_of v ''items'' ''set items'') (\<lambda>js. res_map Set (collect_results json_to_runtime_value js))
     else if k = ''Queue''
     then res_bind (items_of v ''items'' ''queue items'') (\<lambda>js. res_map Queue (collect_results json_to_runtime_value js))
     else if k = ''Stack''
     then res_bind (items_of v ''items'' ''stack items'') (\<lambda>js. res_map Stack (collect_results json_to_runtime_value js))
     else if k = ''Stream''
     then res_bind (items_of v ''items'' ''stream items'') (\<lambda>js. res_map Stream (collect_results json_to_runtime_value js))
     else if k = ''Struct''
     then res_bind (string_field v ''name'') (\<lambda>name.
          res_bind (ok_or (Storage ''missing struct fields'') (Option.bind (json_get v ''fields'') as_object)) (\<lambda>m.
          res_map (Struct name) (collect_object (\<lambda>_ j. json_to_runtime_value j) m)))
     else if k = ''Enum''
     then res_bind (string_field v ''name'') (\<lambda>name.
          res_bind (string_field v ''variant'') (\<lambda>variant.
          (case json_get v ''payload'' of
             None \<Rightarrow> Ok (Enum name variant None)
           | Some p \<Rightarrow> res_map (\<lambda>x. Enum name variant (Some x)) (json_to_runtime_value p))))
     else if k = ''Quantity''
     then res_bind (f64_field v ''amount'') (\<lambda>amount. res_map (Quantity amount) (string_field v ''unit''))
     else Err (Storage (''unknown runtime value kind '' @ quoted k)))"
  by pat_completeness auto
termination
  by (relation "measure json_depth")
    (auto simp: result_simps bind_eq_Some_conv dest!: part_depth items_depth json_depth_get
      dest: json_depth_lookup less_trans)

declare json_to_runtime_value.simps [simp del]

section \<open>What is stored is read\<close>

text \<open>What the reader gives back: the content of every secret is replaced by the marker.\<close>

primrec sealed :: "rt_value \<Rightarrow> rt_value" where
  "sealed Null = Null"
| "sealed (Bool b) = Bool b"
| "sealed (Integer i) = Integer i"
| "sealed (Float f) = Float f"
| "sealed (Dec d) = Dec d"
| "sealed (String s) = String s"
| "sealed (Bytes bs) = Bytes bs"
| "sealed (Xml s) = Xml s"
| "sealed (Document v) = Document v"
| "sealed (Pdf v) = Pdf v"
| "sealed (Docx v) = Docx v"
| "sealed (SpreadsheetSheet v) = SpreadsheetSheet v"
| "sealed (Spreadsheet v) = Spreadsheet v"
| "sealed (Image v) = Image v"
| "sealed (OcrResult v) = OcrResult v"
| "sealed (ExtractedDocumentText v) = ExtractedDocumentText v"
| "sealed (DocumentExtractionMetadata v) = DocumentExtractionMetadata v"
| "sealed (DocumentExtractionError v) = DocumentExtractionError v"
| "sealed (Money amount cur) = Money amount cur"
| "sealed (ExchangeRate from_cur to_cur rate src) = ExchangeRate from_cur to_cur rate src"
| "sealed (Brand name v) = Brand name (sealed v)"
| "sealed (Secret v) = Secret (String REDACTION_MARKER)"
| "sealed (Uncertain v conf) = Uncertain (sealed v) conf"
| "sealed (List vs) = List (map sealed vs)"
| "sealed (Map es) = Map (map (map_prod sealed sealed) es)"
| "sealed (Set vs) = Set (map sealed vs)"
| "sealed (Queue vs) = Queue (map sealed vs)"
| "sealed (Stack vs) = Stack (map sealed vs)"
| "sealed (Stream vs) = Stream (map sealed vs)"
| "sealed (Struct name fs) = Struct name (fmmap sealed fs)"
| "sealed (Enum name variant payload) = Enum name variant (map_option sealed payload)"
| "sealed (Quantity amount unit) = Quantity amount unit"

text \<open>What the reader can read: there is no reader for \<open>Null\<close>, amounts come back through \<open>i64\<close>, a
  float that is not finite was written as null, and the texts must still parse.\<close>

definition decimal_ok :: "decimal \<Rightarrow> bool" where
  "decimal_ok d \<longleftrightarrow> decimal_wf d \<and> coefficient d \<noteq> i128_min"

primrec readable :: "rt_value \<Rightarrow> bool" where
  "readable Null = False"
| "readable (Bool b) = True"
| "readable (Integer i) = i64_ok i"
| "readable (Float f) = f64_finite f"
| "readable (Dec d) = decimal_ok d"
| "readable (String s) = True"
| "readable (Bytes bs) = True"
| "readable (Xml s) = (validate_xml_document s = Ok ())"
| "readable (Document v) = any_ok (ADocument v)"
| "readable (Pdf v) = any_ok (APdf v)"
| "readable (Docx v) = any_ok (ADocx v)"
| "readable (SpreadsheetSheet v) = any_ok (ASheet v)"
| "readable (Spreadsheet v) = any_ok (ASpreadsheet v)"
| "readable (Image v) = any_ok (AImage v)"
| "readable (OcrResult v) = any_ok (AOcr v)"
| "readable (ExtractedDocumentText v) = any_ok (AText v)"
| "readable (DocumentExtractionMetadata v) = any_ok (AMetadata v)"
| "readable (DocumentExtractionError v) = any_ok (AError v)"
| "readable (Money amount cur) = i64_ok amount"
| "readable (ExchangeRate from_cur to_cur rate src) = decimal_ok rate"
| "readable (Brand name v) = readable v"
| "readable (Secret v) = True"
| "readable (Uncertain v conf) = (readable v \<and> f64_finite conf)"
| "readable (List vs) = list_all id (map readable vs)"
| "readable (Map es) = list_all (\<lambda>(k, v). k \<and> v) (map (map_prod readable readable) es)"
| "readable (Set vs) = list_all id (map readable vs)"
| "readable (Queue vs) = list_all id (map readable vs)"
| "readable (Stack vs) = list_all id (map readable vs)"
| "readable (Stream vs) = list_all id (map readable vs)"
| "readable (Struct name fs) = fmpred (\<lambda>_ b. b) (fmmap readable fs)"
| "readable (Enum name variant payload) = (map_option readable payload \<noteq> Some False)"
| "readable (Quantity amount unit) = f64_finite amount"

lemma decimal_text_read: "decimal_ok d \<Longrightarrow> decimal_to_string d \<noteq> None \<and> decimal_parse (decimal_text d) = Ok d"
  using decimal_print_parse [of d] by (auto simp: decimal_ok_def decimal_text_def)

lemma any_document_parts:
  "any_ok (ADocument v1) \<Longrightarrow> value_from_json (document_to_json v1) = Ok v1"
  "any_ok (APdf v2) \<Longrightarrow> pdf_from_json (pdf_to_json v2) = Ok v2"
  "any_ok (ADocx v3) \<Longrightarrow> docx_from_json (docx_to_json v3) = Ok v3"
  "any_ok (ASheet v4) \<Longrightarrow> spreadsheet_sheet_from_json (sheet_to_json v4) = Ok v4"
  "any_ok (ASpreadsheet v5) \<Longrightarrow> spreadsheet_from_json (spreadsheet_to_json v5) = Ok v5"
  "any_ok (AImage v6) \<Longrightarrow> image_from_json (image_to_json v6) = Ok v6"
  "any_ok (AOcr v7) \<Longrightarrow> ocr_result_from_json (ocr_result_to_json v7) = Ok v7"
  "any_ok (AText v8) \<Longrightarrow> extracted_document_text_from_json (extracted_text_to_json v8) = Ok v8"
  "any_ok (AMetadata v9) \<Longrightarrow> document_extraction_metadata_from_json (extraction_metadata_to_json v9) = Ok v9"
  "any_ok (AError v10) \<Longrightarrow> document_extraction_error_from_json (extraction_error_to_json v10) = Ok v10"
  using any_document_read by (fastforce simp: result_simps simp del: any_ok.simps)+

lemma kinded_get:
  "json_get (kinded k fs) key = (case map_of (rev fs) key of Some v \<Rightarrow> Some v | None \<Rightarrow> if key = ''kind'' then Some (JString k) else None)"
  by (simp add: kinded_def json_get_object map_add_def del: json_object_get split: option.splits)

lemmas field_defs = string_field_def bool_field_def i64_field_def i128_field_def f64_field_def part_def items_of_def read_part_def

lemma collect_results_image:
  "(\<And>x. x \<in> set xs \<Longrightarrow> f (g x) = Ok (h x)) \<Longrightarrow> collect_results f (map g xs) = Ok (map h xs)"
  by (induction xs) simp_all

lemma collect_object_image:
  assumes "\<And>k x. fmlookup m k = Some x \<Longrightarrow> f (g x) = Ok (h x)"
  shows "collect_object (\<lambda>_ j. f j) (fmmap g m) = Ok (fmmap h m)"
proof -
  let ?m = "fmmap h m"
  have "collect_results (\<lambda>(k, v). res_map (Pair k) (f v)) (sorted_list_of_fmap (fmmap g m))
      = Ok (map (\<lambda>(k, v). (k, the (fmlookup ?m k))) (sorted_list_of_fmap (fmmap g m)))"
  proof (rule collect_results_map)
    fix e assume "e \<in> set (sorted_list_of_fmap (fmmap g m))"
    then obtain k x where "e = (k, g x)" "fmlookup m k = Some x"
      by (auto simp: sorted_list_of_fmap_def fmlookup_dom_iff)
    then show "(case e of (k, v) \<Rightarrow> res_map (Pair k) (f v)) = Ok (case e of (k, v) \<Rightarrow> (k, the (fmlookup ?m k)))"
      using assms by simp
  qed
  also have "map (\<lambda>(k, v). (k, the (fmlookup ?m k))) (sorted_list_of_fmap (fmmap g m)) = sorted_list_of_fmap ?m"
    by (simp add: sorted_list_of_fmap_def)
  finally show ?thesis
    by (simp add: collect_object_def) (rule fmap_ext, simp add: fmlookup_of_list)
qed

lemma items_read:
  assumes "\<And>x. x \<in> set vs \<Longrightarrow> readable x \<Longrightarrow> json_to_runtime_value (value_json x) = Ok (sealed x)"
    and "list_all id (map readable vs)"
  shows "collect_results json_to_runtime_value (map value_json vs) = Ok (map sealed vs)"
  using assms by (intro collect_results_image) (simp add: list_all_iff)

lemma entries_read:
  assumes "\<And>k v. (k, v) \<in> set es \<Longrightarrow> readable k \<and> readable v \<Longrightarrow>
      json_to_runtime_value (value_json k) = Ok (sealed k) \<and> json_to_runtime_value (value_json v) = Ok (sealed v)"
    and "list_all (\<lambda>(k, v). k \<and> v) (map (map_prod readable readable) es)"
  shows "collect_results (\<lambda>entry.
            res_bind (part entry ''key'' ''map entry key'') (\<lambda>key.
            res_bind (part entry ''value'' ''map entry value'') (\<lambda>val.
            res_bind (json_to_runtime_value key) (\<lambda>a.
            res_map (Pair a) (json_to_runtime_value val)))))
      (map ((\<lambda>(k, v). json_object [(''key'', k), (''value'', v)]) \<circ> map_prod value_json value_json) es)
    = Ok (map (map_prod sealed sealed) es)"
  using assms
  by (intro collect_results_image) (fastforce simp: list_all_iff part_def json_get_object simp del: json_object_get)

lemma value_json_read: "readable v \<Longrightarrow> json_to_runtime_value (value_json v) = Ok (sealed v)"
proof (induction v)
  case (List vs)
  from items_read [of vs, OF List.IH] List.prems show ?case
    by (subst json_to_runtime_value.simps) (simp add: kinded_get field_defs items_json_def)
next
  case (Map es)
  have "collect_results (\<lambda>entry.
            res_bind (part entry ''key'' ''map entry key'') (\<lambda>key.
            res_bind (part entry ''value'' ''map entry value'') (\<lambda>val.
            res_bind (json_to_runtime_value key) (\<lambda>a.
            res_map (Pair a) (json_to_runtime_value val)))))
      (map ((\<lambda>(k, v). json_object [(''key'', k), (''value'', v)]) \<circ> map_prod value_json value_json) es)
    = Ok (map (map_prod sealed sealed) es)"
    using Map by (intro entries_read) (auto simp: prod_set_defs)
  then show ?case
    by (subst json_to_runtime_value.simps)
      (simp add: kinded_get string_field_def items_of_def)
next
  case (Set vs)
  from items_read [of vs, OF Set.IH] Set.prems show ?case
    by (subst json_to_runtime_value.simps) (simp add: kinded_get field_defs items_json_def)
next
  case (Queue vs)
  from items_read [of vs, OF Queue.IH] Queue.prems show ?case
    by (subst json_to_runtime_value.simps) (simp add: kinded_get field_defs items_json_def)
next
  case (Stack vs)
  from items_read [of vs, OF Stack.IH] Stack.prems show ?case
    by (subst json_to_runtime_value.simps) (simp add: kinded_get field_defs items_json_def)
next
  case (Stream vs)
  from items_read [of vs, OF Stream.IH] Stream.prems show ?case
    by (subst json_to_runtime_value.simps) (simp add: kinded_get field_defs items_json_def)
next
  case (Struct name fs)
  have "collect_object (\<lambda>_ j. json_to_runtime_value j) (fmmap value_json fs) = Ok (fmmap sealed fs)"
    using Struct by (intro collect_object_image) (auto intro: fmran'I)
  then show ?case
    by (subst json_to_runtime_value.simps) (simp add: kinded_get field_defs)
next
  case (Enum name variant payload)
  then show ?case
    by (subst json_to_runtime_value.simps) (cases payload; simp add: kinded_get field_defs)
qed (subst json_to_runtime_value.simps;
  simp add: kinded_get field_defs storage_result_def any_document_parts decimal_text_read base64_decode_encode del: any_ok.simps)+

lemma readable_prints: "readable v \<Longrightarrow> prints v"
  by (induction v) (auto simp: list_all_iff decimal_text_read json_i128_def prod_set_defs intro: fmran'I split: option.splits)

text \<open>C18: a readable value does not panic the writer, and reading its JSON gives the value back, with
  the content of every secret in it, however deeply nested, replaced by the redaction marker.\<close>

theorem runtime_value_roundtrip:
  assumes "readable v"
  shows "\<exists>j. runtime_value_to_json v = Some j \<and> json_to_runtime_value j = Ok (sealed v)"
  using assms by (simp add: runtime_value_to_json_def readable_prints value_json_read)

theorem runtime_value_roundtrip_witness:
  "\<exists>j. runtime_value_to_json (List [Integer 3, Secret (String ''hunter2'')]) = Some j
     \<and> json_to_runtime_value j = Ok (List [Integer 3, Secret (String REDACTION_MARKER)])"
  using runtime_value_roundtrip [of "List [Integer 3, Secret (String ''hunter2'')]"] by simp

lemma fmmap_fmmap_cong:
  "(\<And>x. x \<in> fmran' m \<Longrightarrow> f (g x) = f x) \<Longrightarrow> fmmap f (fmmap g m) = fmmap f m"
  by (rule fmap_ext) (fastforce simp: option.map_comp fmlookup_ran'_iff intro!: map_option_cong)

lemma sealed_value_json [simp]: "value_json (sealed v) = value_json v"
proof (induction v)
  case (Map es)
  then show ?case by (auto simp: kinded_def prod_set_defs intro!: arg_cong [of _ _ json_object])
next
  case (Struct name fs)
  have "fmmap value_json (fmmap sealed fs) = fmmap value_json fs"
    by (rule fmmap_fmmap_cong) (rule Struct.IH)
  then show ?case by simp
next
  case (Enum name variant payload)
  then show ?case by (cases payload) simp_all
qed (simp_all add: items_json_def comp_def cong: map_cong)

lemma sealed_prints [simp]: "prints (sealed v) = prints v"
proof (induction v)
  case (Map es)
  then show ?case by (auto simp: list_all_iff prod_set_defs)
next
  case (Struct name fs)
  have "fmmap prints (fmmap sealed fs) = fmmap prints fs"
    by (rule fmmap_fmmap_cong) (rule Struct.IH)
  then show ?case by simp
next
  case (Enum name variant payload)
  then show ?case by (cases payload) simp_all
qed (simp_all add: list_all_iff)

text \<open>C21: what is stored of a value does not depend on the secrets in it: two values that differ only
  in the content of secrets have the same JSON.\<close>

theorem secrets_not_stored:
  assumes "sealed v = sealed w"
  shows "runtime_value_to_json v = runtime_value_to_json w"
proof -
  have "runtime_value_to_json (sealed u) = runtime_value_to_json u" for u
    by (simp add: runtime_value_to_json_def)
  then show ?thesis using assms by metis
qed

theorem secrets_not_stored_witness:
  "runtime_value_to_json (Brand ''Card'' (Secret (String ''4242''))) = runtime_value_to_json (Brand ''Card'' (Secret Null))"
  by (rule secrets_not_stored) simp

end
