(* ===== verification/Value_Redaction.thy ===== *)
theory Value_Redaction
  imports Values
begin

text \<open>
  The part of \<open>num-runtime/src/redaction.rs\<close> that knows the values of the language: replacing the
  secrets in a value, and taking the arguments of a connector call that are secret out of the
  message of its error.
\<close>

section \<open>Replacing secrets in a value\<close>

primrec redacted_value :: "rt_value \<Rightarrow> rt_value" where
  "redacted_value Null = Null"
| "redacted_value (Bool b) = Bool b"
| "redacted_value (Integer i) = Integer i"
| "redacted_value (Float f) = Float f"
| "redacted_value (Dec d) = Dec d"
| "redacted_value (String s) = String s"
| "redacted_value (Bytes bs) = Bytes bs"
| "redacted_value (Xml s) = Xml s"
| "redacted_value (Document v) = Document v"
| "redacted_value (Pdf v) = Pdf v"
| "redacted_value (Docx v) = Docx v"
| "redacted_value (SpreadsheetSheet v) = SpreadsheetSheet v"
| "redacted_value (Spreadsheet v) = Spreadsheet v"
| "redacted_value (Image v) = Image v"
| "redacted_value (OcrResult v) = OcrResult v"
| "redacted_value (ExtractedDocumentText v) = ExtractedDocumentText v"
| "redacted_value (DocumentExtractionMetadata v) = DocumentExtractionMetadata v"
| "redacted_value (DocumentExtractionError v) = DocumentExtractionError v"
| "redacted_value (Money amount cur) = Money amount cur"
| "redacted_value (ExchangeRate from_cur to_cur rate src) = ExchangeRate from_cur to_cur rate src"
| "redacted_value (Brand name v) = Brand name (redacted_value v)"
| "redacted_value (Secret v) = String REDACTION_MARKER"
| "redacted_value (Uncertain v conf) = Uncertain (redacted_value v) conf"
| "redacted_value (List vs) = List (map redacted_value vs)"
| "redacted_value (Map es) = Map (map (map_prod redacted_value redacted_value) es)"
| "redacted_value (Set vs) = Set (map redacted_value vs)"
| "redacted_value (Queue vs) = Queue (map redacted_value vs)"
| "redacted_value (Stack vs) = Stack (map redacted_value vs)"
| "redacted_value (Stream vs) = Stream (map redacted_value vs)"
| "redacted_value (Struct name fs) = Struct name (fmmap redacted_value fs)"
| "redacted_value (Enum name variant payload) = Enum name variant (map_option redacted_value payload)"
| "redacted_value (Quantity amount unit) = Quantity amount unit"

section \<open>The texts of a value\<close>

text \<open>What \<open>collect_scalar_values\<close> appends to the list for a value, in order; an entry \<open>None\<close> is the
  panic of a decimal that cannot be printed. The order of a \<open>HashMap\<close> is not specified: the caller sorts.\<close>

definition document_texts :: "document_value \<Rightarrow> string list" where
  "document_texts v =
     [d_id v, d_name v, d_mime_type v, show_int (d_size_bytes v), d_source v, d_privacy v, d_trust v]"

definition sheet_texts :: "spreadsheet_sheet_value \<Rightarrow> string list" where
  "sheet_texts v =
     [sheet_name v, show_int (sheet_row_count v), show_int (sheet_column_count v), show_int (sheet_header_row v)]"

definition image_texts :: "image_value \<Rightarrow> string list" where
  "image_texts v =
     document_texts (img_document v) @ [show_int (img_width v), show_int (img_height v), img_format v]"

definition map_values :: "(string, 'a) fmap \<Rightarrow> 'a list" where
  "map_values m = map snd (sorted_list_of_fmap m)"

primrec scalar_texts :: "rt_value \<Rightarrow> string option list" where
  "scalar_texts Null = []"
| "scalar_texts (Bool b) = [Some (show_bool b)]"
| "scalar_texts (Integer i) = [Some (show_int i)]"
| "scalar_texts (Float f) = [Some (show_f64 f)]"
| "scalar_texts (Dec d) = [decimal_to_string d]"
| "scalar_texts (String s) = [Some s]"
| "scalar_texts (Bytes bs) = [Some (base64_encode bs)]"
| "scalar_texts (Xml s) = [Some s]"
| "scalar_texts (Document v) = map Some (document_texts v)"
| "scalar_texts (Pdf v) = map Some (document_texts (pdf_document v))"
| "scalar_texts (Docx v) =
     map Some
       (document_texts (docx_document v) @ [docx_title v, docx_creator v, show_int (docx_paragraph_count v)])"
| "scalar_texts (SpreadsheetSheet v) = map Some (sheet_texts v)"
| "scalar_texts (Spreadsheet v) =
     map Some
       (document_texts (ss_document v) @ [show_int (ss_sheet_count v)] @ concat (map sheet_texts (ss_sheets v)))"
| "scalar_texts (Image v) = map Some (image_texts v)"
| "scalar_texts (OcrResult v) =
     map Some
       (image_texts (ocr_image v)
        @ [ocr_text v, show_f64 (ocr_confidence v), ocr_provider v, ocr_model v, ocr_source v, ocr_privacy v, ocr_trust v])"
| "scalar_texts (ExtractedDocumentText v) =
     map Some
       (document_texts (ext_document v)
        @ [ext_text v, ext_provider v, ext_model v, ext_source v, ext_privacy v, ext_trust v])"
| "scalar_texts (DocumentExtractionMetadata v) =
     map Some
       (document_texts (meta_document v)
        @ [meta_title v, meta_author v, meta_language v, show_int (meta_page_count v), meta_provider v, meta_source v,
           meta_privacy v, meta_trust v])"
| "scalar_texts (DocumentExtractionError v) =
     map Some
       (document_texts (xerr_document v)
        @ [xerr_code v, xerr_message v, show_bool (xerr_retryable v), xerr_provider v, xerr_source v, xerr_privacy v,
           xerr_trust v])"
| "scalar_texts (Money amount cur) = map Some [show_int amount, show_int amount @ '':'' @ cur]"
| "scalar_texts (ExchangeRate from_cur to_cur rate src) =
     [map_option (\<lambda>t. from_cur @ '':'' @ to_cur @ '':'' @ t) (decimal_to_string rate), Some src]"
| "scalar_texts (Brand name v) = scalar_texts v"
| "scalar_texts (Secret v) = scalar_texts v"
| "scalar_texts (Uncertain v conf) = scalar_texts v"
| "scalar_texts (List vs) = concat (map scalar_texts vs)"
| "scalar_texts (Map es) = concat (map (\<lambda>(k, v). k @ v) (map (map_prod scalar_texts scalar_texts) es))"
| "scalar_texts (Set vs) = concat (map scalar_texts vs)"
| "scalar_texts (Queue vs) = concat (map scalar_texts vs)"
| "scalar_texts (Stack vs) = concat (map scalar_texts vs)"
| "scalar_texts (Stream vs) = concat (map scalar_texts vs)"
| "scalar_texts (Struct name fs) = concat (map_values (fmmap scalar_texts fs))"
| "scalar_texts (Enum name variant payload) = (case map_option scalar_texts payload of None \<Rightarrow> [] | Some ts \<Rightarrow> ts)"
| "scalar_texts (Quantity amount unit) = [Some (show_f64 amount @ '':'' @ unit)]"

text \<open>The texts of the secrets inside a value.\<close>

primrec explicit_secrets :: "rt_value \<Rightarrow> string option list" where
  "explicit_secrets Null = []"
| "explicit_secrets (Bool b) = []"
| "explicit_secrets (Integer i) = []"
| "explicit_secrets (Float f) = []"
| "explicit_secrets (Dec d) = []"
| "explicit_secrets (String s) = []"
| "explicit_secrets (Bytes bs) = []"
| "explicit_secrets (Xml s) = []"
| "explicit_secrets (Document v) = []"
| "explicit_secrets (Pdf v) = []"
| "explicit_secrets (Docx v) = []"
| "explicit_secrets (SpreadsheetSheet v) = []"
| "explicit_secrets (Spreadsheet v) = []"
| "explicit_secrets (Image v) = []"
| "explicit_secrets (OcrResult v) = []"
| "explicit_secrets (ExtractedDocumentText v) = []"
| "explicit_secrets (DocumentExtractionMetadata v) = []"
| "explicit_secrets (DocumentExtractionError v) = []"
| "explicit_secrets (Money amount cur) = []"
| "explicit_secrets (ExchangeRate from_cur to_cur rate src) = []"
| "explicit_secrets (Brand name v) = explicit_secrets v"
| "explicit_secrets (Secret v) = scalar_texts v"
| "explicit_secrets (Uncertain v conf) = explicit_secrets v"
| "explicit_secrets (List vs) = concat (map explicit_secrets vs)"
| "explicit_secrets (Map es) = concat (map (\<lambda>(k, v). k @ v) (map (map_prod explicit_secrets explicit_secrets) es))"
| "explicit_secrets (Set vs) = concat (map explicit_secrets vs)"
| "explicit_secrets (Queue vs) = concat (map explicit_secrets vs)"
| "explicit_secrets (Stack vs) = concat (map explicit_secrets vs)"
| "explicit_secrets (Stream vs) = concat (map explicit_secrets vs)"
| "explicit_secrets (Struct name fs) = concat (map_values (fmmap explicit_secrets fs))"
| "explicit_secrets (Enum name variant payload) = (case map_option explicit_secrets payload of None \<Rightarrow> [] | Some ts \<Rightarrow> ts)"
| "explicit_secrets (Quantity amount unit) = []"

section \<open>The errors of connectors\<close>

record connector_error =
  ce_code :: string
  ce_message :: string
  ce_retryable :: bool

record connector_arg_label =
  label_index :: nat
  label_name :: string
  label_ty :: string
  label_source :: "string option"
  label_privacy :: "string option"
  label_trust :: "string option"

record connector_call_context =
  cc_connector :: string
  cc_method_name :: string
  cc_method :: string
  cc_capability :: string
  cc_actor :: string
  cc_tenant :: string
  cc_correlation_id :: string
  cc_request_id :: string
  cc_policy_decision :: string
  cc_arg_labels :: "connector_arg_label list"

definition is_secret_label :: "string option \<Rightarrow> string \<Rightarrow> bool" where
  "is_secret_label privacy ty \<longleftrightarrow>
     privacy = Some ''secret'' \<or> trim ty = ''Secret'' \<or> starts_with ''Secret<'' (trim ty)"

definition labelled_texts :: "connector_call_context \<Rightarrow> rt_value list \<Rightarrow> string option list" where
  "labelled_texts context args =
     concat (map (\<lambda>l. if is_secret_label (label_privacy l) (label_ty l) \<and> label_index l < length args
                       then scalar_texts (args ! label_index l) else [])
       (cc_arg_labels context))"

text \<open>\<open>sort\<close> and \<open>dedup\<close>.\<close>

definition secret_argument_values :: "connector_call_context \<Rightarrow> rt_value list \<Rightarrow> string list option" where
  "secret_argument_values context args =
     map_option (\<lambda>values. remdups_adj (sort values))
       (those (labelled_texts context args @ concat (map explicit_secrets args)))"

definition redact_connector_error ::
    "connector_error \<Rightarrow> connector_call_context \<Rightarrow> rt_value list \<Rightarrow> connector_error option" where
  "redact_connector_error err context args =
     map_option (\<lambda>values.
       \<lparr>ce_code = ce_code err,
        ce_message = redact_text_with_values (ce_message err) values,
        ce_retryable = ce_retryable err\<rparr>) (secret_argument_values context args)"

section \<open>Redacted values\<close>

primrec secret_free :: "rt_value \<Rightarrow> bool" where
  "secret_free Null = True"
| "secret_free (Bool b) = True"
| "secret_free (Integer i) = True"
| "secret_free (Float f) = True"
| "secret_free (Dec d) = True"
| "secret_free (String s) = True"
| "secret_free (Bytes bs) = True"
| "secret_free (Xml s) = True"
| "secret_free (Document v) = True"
| "secret_free (Pdf v) = True"
| "secret_free (Docx v) = True"
| "secret_free (SpreadsheetSheet v) = True"
| "secret_free (Spreadsheet v) = True"
| "secret_free (Image v) = True"
| "secret_free (OcrResult v) = True"
| "secret_free (ExtractedDocumentText v) = True"
| "secret_free (DocumentExtractionMetadata v) = True"
| "secret_free (DocumentExtractionError v) = True"
| "secret_free (Money amount cur) = True"
| "secret_free (ExchangeRate from_cur to_cur rate src) = True"
| "secret_free (Brand name v) = secret_free v"
| "secret_free (Secret v) = False"
| "secret_free (Uncertain v conf) = secret_free v"
| "secret_free (List vs) = list_all id (map secret_free vs)"
| "secret_free (Map es) = list_all (\<lambda>(k, v). k \<and> v) (map (map_prod secret_free secret_free) es)"
| "secret_free (Set vs) = list_all id (map secret_free vs)"
| "secret_free (Queue vs) = list_all id (map secret_free vs)"
| "secret_free (Stack vs) = list_all id (map secret_free vs)"
| "secret_free (Stream vs) = list_all id (map secret_free vs)"
| "secret_free (Struct name fs) = fmpred (\<lambda>_ b. b) (fmmap secret_free fs)"
| "secret_free (Enum name variant payload) = (map_option secret_free payload \<noteq> Some False)"
| "secret_free (Quantity amount unit) = True"

lemma redacted_secret_free: "secret_free (redacted_value v)"
proof (induction v)
  case (Map es)
  then show ?case by (auto simp: list_all_iff prod_set_defs)
next
  case (Enum name variant payload)
  then show ?case by (cases payload) simp_all
qed (auto simp: list_all_iff fmlookup_ran'_iff)

lemma redacted_id: "secret_free v \<Longrightarrow> redacted_value v = v"
proof (induction v)
  case (Map es)
  then show ?case by (auto simp: list_all_iff prod_set_defs intro!: map_idI)
next
  case (Struct name fs)
  have "map_option redacted_value (fmlookup fs k) = fmlookup fs k" for k
    using Struct by (cases "fmlookup fs k") (auto simp: fmlookup_ran'_iff)
  then have "fmmap redacted_value fs = fs" by (intro fmap_ext) simp
  then show ?case by simp
next
  case (Enum name variant payload)
  then show ?case by (cases payload) simp_all
qed (auto simp: list_all_iff intro!: map_idI)

lemma redacted_sealed: "redacted_value (sealed v) = redacted_value v"
proof (induction v)
  case (Map es)
  then show ?case by (auto simp: prod_set_defs)
next
  case (Struct name fs)
  have "fmmap redacted_value (fmmap sealed fs) = fmmap redacted_value fs"
    by (rule fmmap_fmmap_cong) (rule Struct.IH)
  then show ?case by simp
next
  case (Enum name variant payload)
  then show ?case by (cases payload) simp_all
qed simp_all

text \<open>A redacted value holds no secret, does not depend on the content of the secrets it replaced,
  and is the value itself when there were none.\<close>

theorem redacted_value_hides:
  assumes "sealed v = sealed w"
  shows "secret_free (redacted_value v) \<and> redacted_value v = redacted_value w
    \<and> (secret_free v \<longrightarrow> redacted_value v = v)"
  using redacted_secret_free redacted_id redacted_sealed [of v] redacted_sealed [of w] assms by metis

theorem redacted_value_hides_witness:
  "secret_free (redacted_value (Brand ''Card'' (Secret (String ''4242''))))
   \<and> redacted_value (Brand ''Card'' (Secret (String ''4242''))) = redacted_value (Brand ''Card'' (Secret Null))"
  using redacted_value_hides [of "Brand ''Card'' (Secret (String ''4242''))" "Brand ''Card'' (Secret Null)"] by simp

section \<open>Messages without secrets\<close>

text \<open>A text that cannot overlap the marker: it has none of its angle brackets and is not a part of
  the word between them.\<close>

definition off_marker :: "string \<Rightarrow> bool" where
  "off_marker v \<longleftrightarrow> v \<noteq> [] \<and> CHR ''<'' \<notin> set v \<and> CHR ''>'' \<notin> set v \<and> \<not> sublist v ''redacted''"

lemma off_marker_sublist: "off_marker v \<Longrightarrow> \<not> sublist v REDACTION_MARKER"
proof
  assume v: "off_marker v" and "sublist v REDACTION_MARKER"
  then have "sublist v (''<'' @ ''redacted'' @ ''>'')" by (simp add: REDACTION_MARKER_def)
  then have "sublist v (''redacted'' @ ''>'')"
    using v unfolding off_marker_def by (cases v) (auto simp: sublist_Cons_right)
  then consider "sublist v ''redacted''" | "sublist v ''>''"
    | a b where "v = a @ b" "suffix a ''redacted''" "prefix b ''>''"
    unfolding sublist_append by blast
  then show False
  proof cases
    case 3
    with v have "b = []" by (cases b) (auto simp: off_marker_def)
    with 3 v show False by (auto simp: off_marker_def dest: suffix_imp_sublist)
  next
    case 2
    from set_mono_sublist [OF this] v show False by (cases v) (auto simp: off_marker_def)
  qed (use v in \<open>simp add: off_marker_def\<close>)
qed

lemma suffix_marker: "suffix a REDACTION_MARKER \<Longrightarrow> CHR ''>'' \<notin> set a \<Longrightarrow> a = []"
  by (cases a rule: rev_cases) (auto simp: REDACTION_MARKER_def suffix_def)

lemma prefix_replace:
  "prefix v (replace p REDACTION_MARKER s) \<Longrightarrow> CHR ''<'' \<notin> set v \<Longrightarrow> prefix v s"
proof (induction s arbitrary: v)
  case Nil
  then show ?case by simp
next
  case (Cons c cs)
  show ?case
  proof (cases v)
    case v: (Cons d ds)
    show ?thesis
    proof (cases "p = [] \<or> \<not> starts_with p (c # cs)")
      case True
      then have "replace p REDACTION_MARKER (c # cs) = (if p = [] then c # cs else c # replace p REDACTION_MARKER cs)"
        by (subst replace.simps) auto
      with Cons v show ?thesis by (auto split: if_splits)
    next
      case False
      then have "replace p REDACTION_MARKER (c # cs) = REDACTION_MARKER @ replace p REDACTION_MARKER (drop (length p) (c # cs))"
        by (subst replace.simps) simp
      with Cons.prems v show ?thesis by (auto simp: REDACTION_MARKER_def)
    qed
  qed simp
qed

lemma sublist_replace:
  assumes "off_marker v" and "sublist v (replace p REDACTION_MARKER s)"
  shows "sublist v s \<and> v \<noteq> p"
  using assms(2)
proof (induction "length s" arbitrary: s rule: less_induct)
  case less
  show ?case
  proof (cases "s = [] \<or> p = []")
    case True
    then show ?thesis using less.prems assms(1) by (subst (asm) replace.simps) (auto simp: off_marker_def)
  next
    case nonempty: False
    show ?thesis
    proof (cases "starts_with p s")
      case True
      let ?rest = "drop (length p) s"
      have "sublist v (REDACTION_MARKER @ replace p REDACTION_MARKER ?rest)"
        using less.prems True nonempty by (subst (asm) replace.simps) simp
      then have "sublist v REDACTION_MARKER \<or> sublist v (replace p REDACTION_MARKER ?rest)
          \<or> (\<exists>a b. v = a @ b \<and> suffix a REDACTION_MARKER \<and> prefix b (replace p REDACTION_MARKER ?rest))"
        by (simp add: sublist_append)
      then have "sublist v (replace p REDACTION_MARKER ?rest)"
        using assms(1) off_marker_sublist [OF assms(1)] suffix_marker
        by (fastforce simp: off_marker_def dest: prefix_imp_sublist)
      then have "sublist v ?rest \<and> v \<noteq> p" using nonempty by (intro less.hyps) simp_all
      then show ?thesis by (blast intro: sublist_order.order_trans [OF _ sublist_drop])
    next
      case False
      then have "replace p REDACTION_MARKER s = hd s # replace p REDACTION_MARKER (tl s)"
        using nonempty by (subst replace.simps) simp
      with less.prems have "prefix v (replace p REDACTION_MARKER s) \<or> sublist v (replace p REDACTION_MARKER (tl s))"
        by (auto simp: sublist_Cons_right)
      then show ?thesis
      proof
        assume "prefix v (replace p REDACTION_MARKER s)"
        then have "prefix v s" by (rule prefix_replace) (use assms(1) in \<open>simp add: off_marker_def\<close>)
        moreover from this have "v \<noteq> p" using False by (auto simp: starts_with_def prefix_def)
        ultimately show ?thesis by auto
      next
        assume "sublist v (replace p REDACTION_MARKER (tl s))"
        then have "sublist v (tl s) \<and> v \<noteq> p" using nonempty by (intro less.hyps) simp_all
        then show ?thesis by (blast intro: sublist_order.order_trans [OF _ sublist_tl])
      qed
    qed
  qed
qed

definition hide_value :: "string \<Rightarrow> string \<Rightarrow> string" where
  "hide_value redacted value =
     (if value = [] \<or> value = REDACTION_MARKER then redacted else replace value REDACTION_MARKER redacted)"

lemma hide_value_keeps: "off_marker v \<Longrightarrow> \<not> sublist v t \<Longrightarrow> \<not> sublist v (hide_value t x)"
  using sublist_replace [of v x t] by (auto simp: hide_value_def)

lemma hide_value_hides: "off_marker v \<Longrightarrow> \<not> sublist v (hide_value t v)"
  using sublist_replace [of v v t] off_marker_sublist [of v] by (auto simp: hide_value_def off_marker_def)

lemma hide_values_keep: "off_marker v \<Longrightarrow> \<not> sublist v t \<Longrightarrow> \<not> sublist v (foldl hide_value t xs)"
  by (induction xs arbitrary: t) (simp_all add: hide_value_keeps)

lemma hide_values_hide: "off_marker v \<Longrightarrow> v \<in> set xs \<Longrightarrow> \<not> sublist v (foldl hide_value t xs)"
  by (induction xs arbitrary: t) (auto simp: hide_values_keep hide_value_hides)

lemma redact_text_with_values_hides:
  "off_marker v \<Longrightarrow> v \<in> set vals \<Longrightarrow> \<not> sublist v (redact_text_with_values text vals)"
  using hide_values_hide [of v vals "redact_text text"]
  by (simp add: redact_text_with_values_def hide_value_def [abs_def])

lemma those_set: "those xs = Some ys \<Longrightarrow> Some ` set ys = set xs"
proof (induction xs arbitrary: ys)
  case (Cons x xs)
  then obtain a bs where "x = Some a" "those xs = Some bs" "ys = a # bs" by (auto split: option.splits)
  with Cons.IH [of bs] show ?case by simp
qed simp

text \<open>C20: the message of a connector error, once redacted, contains no text of a secret argument:
  neither of an argument whose label is secret nor of a secret anywhere inside an argument, as
  long as the text cannot overlap the marker itself.\<close>

theorem connector_error_hides_secrets:
  assumes "redact_connector_error err context args = Some err'"
    and "Some v \<in> set (labelled_texts context args) \<union> (\<Union>a \<in> set args. set (explicit_secrets a))"
    and "off_marker v"
  shows "\<not> sublist v (ce_message err') \<and> ce_code err' = ce_code err \<and> ce_retryable err' = ce_retryable err"
proof -
  from assms(1) obtain vals where vals: "those (labelled_texts context args @ concat (map explicit_secrets args)) = Some vals"
    and err': "ce_message err' = redact_text_with_values (ce_message err) (remdups_adj (sort vals))"
      "ce_code err' = ce_code err" "ce_retryable err' = ce_retryable err"
    by (auto simp: redact_connector_error_def secret_argument_values_def)
  have "Some v \<in> Some ` set vals" using those_set [OF vals] assms(2) by auto
  then have "v \<in> set (remdups_adj (sort vals))" by auto
  with err' assms(3) show ?thesis by (simp add: redact_text_with_values_hides)
qed

text \<open>A secret argument in the middle of a message.\<close>

definition sample_label :: connector_arg_label where
  "sample_label = \<lparr>label_index = 0, label_name = ''card'', label_ty = ''Secret<Text>'', label_source = None,
     label_privacy = None, label_trust = None\<rparr>"

definition sample_context :: connector_call_context where
  "sample_context = \<lparr>cc_connector = ''pay'', cc_method_name = ''charge'', cc_method = ''pay.charge'', cc_capability = [],
     cc_actor = [], cc_tenant = [], cc_correlation_id = [], cc_request_id = [], cc_policy_decision = [],
     cc_arg_labels = [sample_label]\<rparr>"

theorem connector_error_hides_secrets_witness:
  "\<exists>err'. redact_connector_error \<lparr>ce_code = ''E1'', ce_message = ''card 4242 refused'', ce_retryable = False\<rparr>
        sample_context [String ''4242''] = Some err' \<and> \<not> sublist ''4242'' (ce_message err')"
proof -
  have "trim ''Secret<Text>'' = ''Secret<Text>''" by code_simp
  then have l: "is_secret_label None ''Secret<Text>''" by (simp add: is_secret_label_def starts_with_def)
  let ?e = "\<lparr>ce_code = ''E1'', ce_message = ''card 4242 refused'', ce_retryable = False\<rparr>"
  obtain err' where e: "redact_connector_error ?e sample_context [String ''4242''] = Some err'"
    using l by (auto simp: redact_connector_error_def secret_argument_values_def labelled_texts_def sample_context_def
        sample_label_def)
  have "Some ''4242'' \<in> set (labelled_texts sample_context [String ''4242''])"
    using l by (simp add: labelled_texts_def sample_context_def sample_label_def)
  then show ?thesis
    using connector_error_hides_secrets [OF e, of "''4242''"] e by (auto simp: off_marker_def sublist_Cons_right)
qed

end
