(* ===== verification/Execution.thy ===== *)
theory Execution
  imports Value_Redaction
begin

text \<open>
  \<open>num-runtime/src/execution.rs\<close>: running an action with a cost limit, a timeout, retries and an
  idempotency key, and the two stores of the records of earlier runs. The operation that is run
  is the caller's closure: a function of the number of the attempt and of the world that yields
  a result, the time it took on the monotonic clock, and the world it leaves. A panic ends the
  run with what it has done so far.
\<close>

section \<open>Policies, outcomes and records\<close>

record retry_policy = max_attempts :: nat

definition retry_none :: retry_policy where "retry_none = \<lparr>max_attempts = 1\<rparr>"

definition retry_attempts :: "nat \<Rightarrow> retry_policy" where
  "retry_attempts n = \<lparr>max_attempts = max n 1\<rparr>"

datatype execution_outcome = Succeeded rt_value | Failed string

record action_execution_record =
  rec_action :: string
  rec_key :: "string option"
  rec_attempts :: nat
  rec_outcome :: execution_outcome

record action_execution =
  exec_record :: action_execution_record
  replayed :: bool

definition execution_value :: "action_execution \<Rightarrow> rt_value option" where
  "execution_value ex = (case rec_outcome (exec_record ex) of Succeeded v \<Rightarrow> Some v | Failed _ \<Rightarrow> None)"

datatype stop = Error runtime_error | Panic

definition guarded :: "('w, runtime_error, 'a) stm \<Rightarrow> ('w, stop, 'a) stm" where
  "guarded m w = (case m w of (r, w') \<Rightarrow> (map_err Error r, w'))"

section \<open>Errors\<close>

definition enforce_cost :: "action_spec \<Rightarrow> money option \<Rightarrow> runtime_error + unit" where
  "enforce_cost action actual_cost =
     (case (max_cost action, actual_cost) of
        (Some limit, Some actual) \<Rightarrow>
          if currency limit = currency actual \<and> minor_units limit < minor_units actual
          then Err (CostLimitExceeded limit actual) else Ok ()
      | _ \<Rightarrow> Ok ())"

fun is_retryable :: "runtime_error \<Rightarrow> bool" where
  "is_retryable (ConnectorFailed _ _ _ retryable) = retryable"
| "is_retryable (ActionFailed _ _) = True"
| "is_retryable (Timeout _) = True"
| "is_retryable (EncryptionUnavailable _ _) = True"
| "is_retryable (Storage _) = True"
| "is_retryable _ = False"

fun error_message :: "runtime_error \<Rightarrow> string" where
  "error_message (PermissionDenied permission) = ''permission denied: '' @ permission"
| "error_message (CostLimitExceeded limit actual) =
     ''cost limit exceeded: actual '' @ show_int (minor_units actual) @ '' '' @ currency actual
     @ '', limit '' @ show_int (minor_units limit) @ '' '' @ currency limit"
| "error_message (RateLimitExceeded scope limit) =
     ''rate limit exceeded for '' @ scope @ '': limit '' @ show_nat limit"
| "error_message (Timeout action) = ''timeout: '' @ action"
| "error_message (ActionFailed action reason) = ''action failed: '' @ action @ '': '' @ redact_text reason"
| "error_message (ConnectorFailed mtd code msg retryable) =
     ''connector failed: '' @ mtd @ '': '' @ code @ '': retryable='' @ show_bool retryable @ '': '' @ redact_text msg"
| "error_message (SanitizationFailed reason) = ''sanitization failed: '' @ redact_text reason"
| "error_message (TenantIsolationViolation expected actual) =
     ''tenant isolation violation: expected '' @ expected @ '', actual '' @ actual"
| "error_message (AuthenticationFailed code reason) =
     ''authentication failed: '' @ code @ '': '' @ redact_text reason"
| "error_message (SecretNotFound nm) = ''secret not found: '' @ nm"
| "error_message (SecretDenied nm) = ''secret denied: '' @ nm"
| "error_message (SecretUnavailable backend reason) =
     ''secret backend unavailable: '' @ backend @ '': '' @ redact_text reason"
| "error_message (SecretInvalidResponse backend reason) =
     ''secret backend invalid response: '' @ backend @ '': '' @ redact_text reason"
| "error_message (EncryptionDenied provider key_id) = ''encryption denied: '' @ provider @ '': key '' @ key_id"
| "error_message (EncryptionUnavailable provider reason) =
     ''encryption provider unavailable: '' @ provider @ '': '' @ redact_text reason"
| "error_message (EncryptionInvalidEnvelope provider reason) =
     ''encryption invalid envelope: '' @ provider @ '': '' @ redact_text reason"
| "error_message (Storage msg) = ''storage: '' @ redact_text msg"

section \<open>The executor\<close>

text \<open>A store is its two operations; the executor runs over any of them.\<close>

record 'w idempotency_store =
  idem_load :: "string \<Rightarrow> ('w, stop, action_execution_record option) stm"
  idem_save :: "action_execution_record \<Rightarrow> ('w, stop, unit) stm"

type_synonym 'w operation = "nat \<Rightarrow> 'w \<Rightarrow> ((runtime_error + rt_value) \<times> duration) \<times> 'w"

text \<open>One attempt: a zero timeout fails without a call, a call that took longer than the timeout has
  timed out whatever it returned.\<close>

definition run_attempt :: "action_spec \<Rightarrow> 'w operation \<Rightarrow> nat \<Rightarrow> 'w \<Rightarrow> (runtime_error + rt_value) \<times> 'w" where
  "run_attempt action op n w =
     (if timeout action = Some 0 then (Err (Timeout (spec_name action)), w)
      else (case op n w of
        ((result, elapsed), w') \<Rightarrow>
          (case timeout action of
             Some limit \<Rightarrow> if limit < elapsed then (Err (Timeout (spec_name action)), w') else (result, w')
           | None \<Rightarrow> (result, w'))))"

definition record_of :: "action_spec \<Rightarrow> nat \<Rightarrow> execution_outcome \<Rightarrow> action_execution_record" where
  "record_of action n outcome =
     \<lparr>rec_action = spec_name action, rec_key = idempotency_key action, rec_attempts = n, rec_outcome = outcome\<rparr>"

function attempt_loop ::
    "'w idempotency_store \<Rightarrow> action_spec \<Rightarrow> retry_policy \<Rightarrow> 'w operation \<Rightarrow> nat \<Rightarrow> ('w, stop, action_execution) stm" where
  "attempt_loop store action retry op attempts w =
     (case run_attempt action op (attempts + 1) w of
        (Inr v, w') \<Rightarrow>
          (let r = record_of action (attempts + 1) (Succeeded v) in
           rbind (idem_save store r) (\<lambda>_. rreturn \<lparr>exec_record = r, replayed = False\<rparr>) w')
      | (Inl e, w') \<Rightarrow>
          if attempts + 1 < max_attempts retry \<and> is_retryable e
          then attempt_loop store action retry op (attempts + 1) w'
          else rbind (idem_save store (record_of action (attempts + 1) (Failed (error_message e))))
                 (\<lambda>_. rthrow (Error e)) w')"
  by pat_completeness auto
termination
  by (relation "measure (\<lambda>(store, action, retry, op, attempts, w). max_attempts retry - attempts)") auto

declare attempt_loop.simps [simp del]

definition is_success :: "action_execution_record \<Rightarrow> bool" where
  "is_success r = (case rec_outcome r of Succeeded _ \<Rightarrow> True | Failed _ \<Rightarrow> False)"

definition execute ::
    "'w idempotency_store \<Rightarrow> action_spec \<Rightarrow> retry_policy \<Rightarrow> money option \<Rightarrow> 'w operation \<Rightarrow> ('w, stop, action_execution) stm" where
  "execute store action retry actual_cost op =
     rbind (rlift (map_err Error (enforce_cost action actual_cost))) (\<lambda>_.
     rbind (case idempotency_key action of
              None \<Rightarrow> rreturn None
            | Some key \<Rightarrow> rbind (idem_load store key) (\<lambda>found.
                rreturn (case found of
                           None \<Rightarrow> None
                         | Some r \<Rightarrow> if is_success r then Some r else None))) (\<lambda>earlier.
     case earlier of
       Some r \<Rightarrow> rreturn \<lparr>exec_record = r, replayed = True\<rparr>
     | None \<Rightarrow> attempt_loop store action retry op 0))"

section \<open>The stores\<close>

type_synonym memory_idempotency_store = "(string, action_execution_record) fmap"

definition memory_load_record :: "string \<Rightarrow> (memory_idempotency_store \<times> 'o, stop, action_execution_record option) stm" where
  "memory_load_record key = (\<lambda>(m, x). (Ok (fmlookup m key), (m, x)))"

definition memory_save_record :: "action_execution_record \<Rightarrow> (memory_idempotency_store \<times> 'o, stop, unit) stm" where
  "memory_save_record r = (\<lambda>(m, x).
     (Ok (), (case rec_key r of Some key \<Rightarrow> fmupd key r m | None \<Rightarrow> m, x)))"

definition memory_idempotency :: "(memory_idempotency_store \<times> 'o) idempotency_store" where
  "memory_idempotency = \<lparr>idem_load = memory_load_record, idem_save = memory_save_record\<rparr>"

text \<open>The record as JSON.\<close>

fun outcome_to_json :: "execution_outcome \<Rightarrow> json option" where
  "outcome_to_json (Succeeded v) =
     map_option (\<lambda>j. json_object [(''kind'', JString ''Succeeded''), (''value'', j)]) (runtime_value_to_json v)"
| "outcome_to_json (Failed reason) =
     Some (json_object [(''kind'', JString ''Failed''), (''reason'', JString reason)])"

definition record_to_json :: "action_execution_record \<Rightarrow> json option" where
  "record_to_json r =
     map_option (\<lambda>out. json_object
       [(''action'', JString (rec_action r)), (''idempotency_key'', json_opt JString (rec_key r)),
        (''attempts'', json_nat (rec_attempts r)), (''outcome'', out)]) (outcome_to_json (rec_outcome r))"

definition json_to_outcome :: "json \<Rightarrow> runtime_error + execution_outcome" where
  "json_to_outcome v =
     res_bind (string_field v ''kind'') (\<lambda>k.
     if k = ''Succeeded''
     then res_bind (part v ''value'' ''successful execution value'') (\<lambda>j. res_map Succeeded (json_to_runtime_value j))
     else if k = ''Failed'' then res_map Failed (string_field v ''reason'')
     else Err (Storage (''unknown execution outcome '' @ quoted k)))"

definition json_to_record :: "json \<Rightarrow> runtime_error + action_execution_record" where
  "json_to_record v =
     res_bind (string_field v ''action'') (\<lambda>act.
     res_bind (u32_field v ''attempts'') (\<lambda>n.
     res_bind (res_bind (part v ''outcome'' ''outcome'') json_to_outcome) (\<lambda>out.
     Ok \<lparr>rec_action = act, rec_key = Option.bind (json_get v ''idempotency_key'') as_str,
         rec_attempts = n, rec_outcome = out\<rparr>)))"

text \<open>The file store: its own \<open>safe_file_id\<close> replaces dots too.\<close>

record file_idempotency_store = idem_root :: path

definition safe_key_id :: "string \<Rightarrow> string" where
  "safe_key_id key =
     concat (map (\<lambda>ch. if (length ch = 1 \<and> is_ascii_alphanumeric (hd ch)) \<or> ch = ''-'' \<or> ch = ''_'' then ch else ''_'')
       (chars key))"

definition idempotency_dir :: "file_idempotency_store \<Rightarrow> path" where
  "idempotency_dir st = idem_root st @ [''idempotency'']"

definition record_path :: "file_idempotency_store \<Rightarrow> string \<Rightarrow> path" where
  "record_path st key = idempotency_dir st @ [safe_key_id key @ ''.json'']"

definition on_world :: "('w, 'e, 'a) stm \<Rightarrow> ('w \<times> 'o, 'e, 'a) stm" where
  "on_world m = (\<lambda>(w, x). case m w of (r, w') \<Rightarrow> (r, (w', x)))"

definition file_load_record ::
    "'b codec \<Rightarrow> file_idempotency_store \<Rightarrow> string \<Rightarrow> ('b world, stop, action_execution_record option) stm" where
  "file_load_record c st key w =
     (if \<not> path_exists (record_path st key) w then (Ok None, w)
      else guarded (rbind (read_json c (record_path st key)) (\<lambda>v. rlift (res_map Some (json_to_record v)))) w)"

definition file_save_record ::
    "'b codec \<Rightarrow> file_idempotency_store \<Rightarrow> action_execution_record \<Rightarrow> ('b world, stop, unit) stm" where
  "file_save_record c st r =
     (case rec_key r of
        None \<Rightarrow> rreturn ()
      | Some key \<Rightarrow>
          (case record_to_json r of
             None \<Rightarrow> rbind (guarded (storage_io (create_dir_all (idempotency_dir st)))) (\<lambda>_. rthrow Panic)
           | Some j \<Rightarrow>
               guarded (rbind (storage_io (create_dir_all (idempotency_dir st))) (\<lambda>_.
                        replace_json c (record_path st key) j))))"

definition file_idempotency :: "'b codec \<Rightarrow> file_idempotency_store \<Rightarrow> ('b world \<times> 'o) idempotency_store" where
  "file_idempotency c st =
     \<lparr>idem_load = (\<lambda>key. on_world (file_load_record c st key)), idem_save = (\<lambda>r. on_world (file_save_record c st r))\<rparr>"

section \<open>Attempts\<close>

text \<open>The world after \<open>n\<close> attempts and the result of attempt \<open>n\<close>.\<close>

primrec after_attempts :: "action_spec \<Rightarrow> 'w operation \<Rightarrow> nat \<Rightarrow> 'w \<Rightarrow> 'w" where
  "after_attempts action op 0 w = w"
| "after_attempts action op (Suc n) w = snd (run_attempt action op (Suc n) (after_attempts action op n w))"

definition attempt_result :: "action_spec \<Rightarrow> 'w operation \<Rightarrow> nat \<Rightarrow> 'w \<Rightarrow> runtime_error + rt_value" where
  "attempt_result action op n w = fst (run_attempt action op n (after_attempts action op (n - 1) w))"

definition finish ::
    "'w idempotency_store \<Rightarrow> action_spec \<Rightarrow> nat \<Rightarrow> runtime_error + rt_value \<Rightarrow> ('w, stop, action_execution) stm" where
  "finish store action n result =
     (case result of
        Inr v \<Rightarrow> rbind (idem_save store (record_of action n (Succeeded v)))
          (\<lambda>_. rreturn \<lparr>exec_record = record_of action n (Succeeded v), replayed = False\<rparr>)
      | Inl e \<Rightarrow> rbind (idem_save store (record_of action n (Failed (error_message e)))) (\<lambda>_. rthrow (Error e)))"

definition retried :: "action_spec \<Rightarrow> 'w operation \<Rightarrow> nat \<Rightarrow> 'w \<Rightarrow> bool" where
  "retried action op i w = (case attempt_result action op i w of Inl e \<Rightarrow> is_retryable e | Inr _ \<Rightarrow> False)"

lemma attempt_loop_from:
  "\<exists>n > k. n \<le> max (k + 1) (max_attempts retry)
     \<and> (\<forall>i. k < i \<and> i < n \<longrightarrow> retried action op i w)
     \<and> (n < max_attempts retry \<longrightarrow> \<not> retried action op n w)
     \<and> attempt_loop store action retry op k (after_attempts action op k w)
       = finish store action n (attempt_result action op n w) (after_attempts action op n w)"
proof (induction "max_attempts retry - k" arbitrary: k rule: less_induct)
  case less
  obtain r w' where run: "run_attempt action op (k + 1) (after_attempts action op k w) = (r, w')" by fastforce
  then have step: "after_attempts action op (k + 1) w = w'" "attempt_result action op (k + 1) w = r"
    by (simp_all add: attempt_result_def)
  show ?case
  proof (cases "\<exists>e. r = Inl e \<and> k + 1 < max_attempts retry \<and> is_retryable e")
    case True
    then have "max_attempts retry - (k + 1) < max_attempts retry - k" by auto
    from less.hyps [OF this] obtain n where n: "k + 1 < n" "n \<le> max (k + 2) (max_attempts retry)"
      "\<forall>i. k + 1 < i \<and> i < n \<longrightarrow> retried action op i w" "n < max_attempts retry \<longrightarrow> \<not> retried action op n w"
      "attempt_loop store action retry op (k + 1) (after_attempts action op (k + 1) w)
       = finish store action n (attempt_result action op n w) (after_attempts action op n w)"
      by auto
    have "attempt_loop store action retry op k (after_attempts action op k w) = attempt_loop store action retry op (k + 1) w'"
      using True run by (subst attempt_loop.simps) auto
    moreover have "\<forall>i. k < i \<and> i < n \<longrightarrow> retried action op i w"
    proof (intro allI impI)
      fix i assume "k < i \<and> i < n"
      then consider "i = k + 1" | "k + 1 < i" "i < n" by linarith
      then show "retried action op i w" using n(3) True step by cases (auto simp: retried_def)
    qed
    ultimately show ?thesis using n True step by (intro exI [of _ n]) auto
  next
    case False
    then have "attempt_loop store action retry op k (after_attempts action op k w) = finish store action (k + 1) r w'"
      using run by (subst attempt_loop.simps) (auto simp: finish_def Let_def split: sum.splits)
    then show ?thesis using False step by (intro exI [of _ "k + 1"]) (auto simp: retried_def split: sum.splits)
  qed
qed

text \<open>The loop makes at least one attempt and at most as many as the policy allows; it goes on
  exactly over retryable errors; and what it stores and returns is the result of the last
  attempt, a timeout included, with the number of attempts that were made.\<close>

theorem attempts_bounded:
  "\<exists>n. 0 < n \<and> n \<le> max 1 (max_attempts retry)
     \<and> (\<forall>i. 0 < i \<and> i < n \<longrightarrow> retried action op i w)
     \<and> (n < max_attempts retry \<longrightarrow> \<not> retried action op n w)
     \<and> attempt_loop store action retry op 0 w
       = finish store action n (attempt_result action op n w) (after_attempts action op n w)"
  using attempt_loop_from [of 0 retry action op w store] by simp

section \<open>The contract of a store\<close>

text \<open>What an operation must leave alone: the records.\<close>

definition keeps_records :: "('w \<Rightarrow> bool) \<Rightarrow> ('w \<Rightarrow> string \<Rightarrow> action_execution_record option) \<Rightarrow> 'w operation \<Rightarrow> bool" where
  "keeps_records valid table op \<longleftrightarrow>
     (\<forall>n w. valid w \<longrightarrow> valid (snd (op n w)) \<and> table (snd (op n w)) = table w)"

text \<open>Calls one after the other.\<close>

record 'w call =
  call_action :: action_spec
  call_retry :: retry_policy
  call_cost :: "money option"
  call_op :: "'w operation"

definition run_call :: "'w idempotency_store \<Rightarrow> 'w call \<Rightarrow> ('w, stop, action_execution) stm" where
  "run_call store c = execute store (call_action c) (call_retry c) (call_cost c) (call_op c)"

primrec run_calls :: "'w idempotency_store \<Rightarrow> 'w call list \<Rightarrow> 'w \<Rightarrow> (stop + action_execution) list \<times> 'w" where
  "run_calls store [] w = ([], w)"
| "run_calls store (c # cs) w =
     (case run_call store c w of (r, w') \<Rightarrow> (case run_calls store cs w' of (rs, w'') \<Rightarrow> (r # rs, w'')))"

lemma run_calls_append:
  "run_calls store (cs @ ds) w =
     (case run_calls store cs w of (rs, w') \<Rightarrow> (case run_calls store ds w' of (qs, w'') \<Rightarrow> (rs @ qs, w'')))"
  by (induction cs arbitrary: w) (auto split: prod.splits)

definition replays :: "action_execution_record \<Rightarrow> stop + action_execution \<Rightarrow> bool" where
  "replays r res = (case res of Inr ex \<Rightarrow> replayed ex \<and> exec_record ex = r | Inl _ \<Rightarrow> True)"

text \<open>Results of which at most one is that of a new run: the failures before it, the run, and after
  it failures and replays of its record as the store keeps it.\<close>

fun performed_once ::
    "(action_execution_record \<Rightarrow> action_execution_record) \<Rightarrow> (stop + action_execution) list \<Rightarrow> bool" where
  "performed_once kept [] = True"
| "performed_once kept (Inl e # rs) = performed_once kept rs"
| "performed_once kept (Inr ex # rs) \<longleftrightarrow> \<not> replayed ex \<and> list_all (replays (kept (exec_record ex))) rs"

text \<open>A call that is made under the key with the given slot, whose operation leaves the records alone
  and yields values that the store can store.\<close>

definition fair_call ::
    "('w \<Rightarrow> bool) \<Rightarrow> ('w \<Rightarrow> string \<Rightarrow> action_execution_record option) \<Rightarrow> (action_execution_record \<Rightarrow> bool)
       \<Rightarrow> (string \<Rightarrow> string) \<Rightarrow> string \<Rightarrow> 'w call \<Rightarrow> bool" where
  "fair_call valid table storable slot k c \<longleftrightarrow>
     map_option slot (idempotency_key (call_action c)) = Some k
     \<and> max_attempts (call_retry c) \<le> u32_max
     \<and> keeps_records valid table (call_op c)
     \<and> (\<forall>n w v t w'. call_op c n w = ((Inr v, t), w') \<longrightarrow>
          (\<forall>m. m \<le> u32_max \<longrightarrow> storable (record_of (call_action c) m (Succeeded v))))"

locale idempotency_contract =
  fixes store :: "'w idempotency_store"
    and valid :: "'w \<Rightarrow> bool"
    and table :: "'w \<Rightarrow> string \<Rightarrow> action_execution_record option"
    and slot :: "string \<Rightarrow> string"
    and storable :: "action_execution_record \<Rightarrow> bool"
    and kept :: "action_execution_record \<Rightarrow> action_execution_record"
  assumes load_law: "valid w \<Longrightarrow> idem_load store k w = (Ok (table w (slot k)), w)"
    and save_law: "valid w \<Longrightarrow> storable r \<Longrightarrow> rec_key r = Some k \<Longrightarrow>
      \<exists>w'. idem_save store r w = (Ok (), w') \<and> valid w' \<and> table w' = (table w)(slot k \<mapsto> kept r)"
    and failed_storable: "n \<le> u32_max \<Longrightarrow> storable (record_of action n (Failed reason))"
    and kept_success: "is_success (kept r) = is_success r"
begin

lemma after_attempts_keep:
  "keeps_records valid table op \<Longrightarrow> valid w \<Longrightarrow>
   valid (after_attempts action op n w) \<and> table (after_attempts action op n w) = table w"
proof (induction n)
  case (Suc n)
  let ?w = "after_attempts action op n w"
  have "snd (run_attempt action op (Suc n) ?w) \<in> {?w, snd (op (Suc n) ?w)}"
    by (auto simp: run_attempt_def split: prod.splits option.splits)
  with Suc show ?case by (auto simp: keeps_records_def)
qed simp

text \<open>A call under a key without a successful record leaves one exactly when it succeeds.\<close>

lemma run_call_new:
  assumes "valid w" and "fair_call valid table storable slot k c" and "\<forall>r. table w k = Some r \<longrightarrow> \<not> is_success r"
    and "run_call store c w = (res, w')"
  shows "valid w' \<and> (case res of
      Inl _ \<Rightarrow> \<forall>r. table w' k = Some r \<longrightarrow> \<not> is_success r
    | Inr ex \<Rightarrow> \<not> replayed ex \<and> is_success (exec_record ex) \<and> table w' k = Some (kept (exec_record ex)))"
proof (cases "enforce_cost (call_action c) (call_cost c)")
  case (Inl e)
  then have "res = Inl (Error e)" "w' = w" using assms(4) by (simp_all add: run_call_def execute_def rbind_def)
  with assms(1,3) show ?thesis by simp
next
  case (Inr u)
  obtain key where key: "idempotency_key (call_action c) = Some key" "slot key = k"
    using assms(2) by (auto simp: fair_call_def)
  let ?a = "call_action c" and ?op = "call_op c"
  have "run_call store c w = attempt_loop store ?a (call_retry c) ?op 0 w"
    using Inr assms(1,3) key
    by (auto simp: run_call_def execute_def rbind_def load_law split: option.splits)
  then obtain n where n: "0 < n" "n \<le> max 1 (max_attempts (call_retry c))"
    and run: "run_call store c w = finish store ?a n (attempt_result ?a ?op n w) (after_attempts ?a ?op n w)"
    using attempt_loop_from [of 0 "call_retry c" ?a ?op w store] by auto
  let ?w = "after_attempts ?a ?op n w"
  have kept: "valid ?w" "table ?w = table w"
    using after_attempts_keep assms(1,2) by (auto simp: fair_call_def)
  have nmax: "n \<le> u32_max" using n(2) assms(2) by (auto simp: fair_call_def max_def split: if_splits)
  show ?thesis
  proof (cases "attempt_result ?a ?op n w")
    case (Inl e)
    from save_law [OF kept(1) failed_storable [OF nmax, of ?a "error_message e"]] key
    obtain w2 where "idem_save store (record_of ?a n (Failed (error_message e))) ?w = (Ok (), w2)" "valid w2"
      "table w2 = (table ?w)(k \<mapsto> kept (record_of ?a n (Failed (error_message e))))"
      by (auto simp: record_of_def)
    with run Inl assms(4) kept kept_success show ?thesis
      by (auto simp: finish_def rbind_def is_success_def record_of_def)
  next
    case (Inr v)
    then obtain m w1 t w2 where "?op m w1 = ((Inr v, t), w2)"
      by (fastforce simp: attempt_result_def run_attempt_def split: if_splits prod.splits option.splits)
    then have "storable (record_of ?a n (Succeeded v))"
      using assms(2) nmax unfolding fair_call_def by blast
    from save_law [OF kept(1) this] key
    obtain w2 where "idem_save store (record_of ?a n (Succeeded v)) ?w = (Ok (), w2)" "valid w2"
      "table w2 = (table ?w)(k \<mapsto> kept (record_of ?a n (Succeeded v)))"
      by (auto simp: record_of_def)
    with run Inr assms(4) kept show ?thesis
      by (auto simp: finish_def rbind_def is_success_def record_of_def)
  qed
qed

text \<open>Under a key with a successful record nothing is run.\<close>

lemma run_call_replayed:
  assumes "valid w" and "fair_call valid table storable slot k c" and "table w k = Some r" and "is_success r"
  shows "run_call store c w =
    (case enforce_cost (call_action c) (call_cost c) of
       Inl e \<Rightarrow> Inl (Error e)
     | Inr _ \<Rightarrow> Inr \<lparr>exec_record = r, replayed = True\<rparr>, w)"
proof -
  obtain key where "idempotency_key (call_action c) = Some key" "slot key = k"
    using assms(2) by (auto simp: fair_call_def)
  with assms show ?thesis
    by (auto simp: run_call_def execute_def rbind_def load_law split: sum.splits)
qed

lemma run_calls_replayed:
  assumes "valid w" and "\<forall>c \<in> set cs. fair_call valid table storable slot k c" and "table w k = Some r" and "is_success r"
  shows "snd (run_calls store cs w) = w \<and> list_all (replays r) (fst (run_calls store cs w))"
  using assms(2)
proof (induction cs)
  case (Cons c cs)
  then have "run_call store c w = (case enforce_cost (call_action c) (call_cost c) of
       Inl e \<Rightarrow> Inl (Error e) | Inr _ \<Rightarrow> Inr \<lparr>exec_record = r, replayed = True\<rparr>, w)"
    using assms by (intro run_call_replayed) simp_all
  with Cons show ?case by (auto simp: replays_def split: prod.splits sum.splits)
qed simp

text \<open>A call that returns a value leaves a successful record, and after it nothing is run.\<close>

lemma run_call_settles:
  assumes "valid w" and "fair_call valid table storable slot k c" and "run_call store c w = (res, w')"
  shows "valid w' \<and> (\<forall>ex. res = Inr ex \<longrightarrow> (\<exists>r. table w' k = Some r \<and> is_success r))"
proof (cases "\<exists>r. table w k = Some r \<and> is_success r")
  case True
  then show ?thesis using run_call_replayed [OF assms(1,2)] assms(1,3) by auto
next
  case False
  then show ?thesis using run_call_new [OF assms(1,2) _ assms(3)] kept_success by (fastforce split: sum.splits)
qed

lemma run_calls_valid:
  "valid w \<Longrightarrow> \<forall>c \<in> set cs. fair_call valid table storable slot k c \<Longrightarrow> valid (snd (run_calls store cs w))"
proof (induction cs arbitrary: w)
  case (Cons c cs)
  obtain res w' where run: "run_call store c w = (res, w')" by fastforce
  have "valid w'" using run_call_settles [OF Cons.prems(1) _ run, of k] Cons.prems(2) by simp
  then have "valid (snd (run_calls store cs w'))" using Cons by simp
  then show ?case using run by (simp add: case_prod_beta)
qed simp

lemma run_calls_after_value:
  assumes "valid w" and "\<forall>c \<in> set (before @ c # after). fair_call valid table storable slot k c"
    and "run_call store c (snd (run_calls store before w)) = (Inr ex, w')"
  shows "snd (run_calls store (before @ c # after) w) = w'"
proof -
  have v: "valid (snd (run_calls store before w))"
    by (rule run_calls_valid [OF assms(1), of _ k]) (use assms(2) in simp)
  from run_call_settles [OF v _ assms(3)] assms(2) obtain r where
    "valid w'" "table w' k = Some r" "is_success r" by auto
  from run_calls_replayed [OF this(1) _ this(2,3), of after] assms(2,3) show ?thesis
    by (simp add: run_calls_append case_prod_beta)
qed

text \<open>Of any number of calls under one key at most one is performed, and the later ones that succeed
  get its record.\<close>

lemma run_calls_performed_once:
  "valid w \<Longrightarrow> \<forall>c \<in> set cs. fair_call valid table storable slot k c \<Longrightarrow> \<forall>r. table w k = Some r \<longrightarrow> \<not> is_success r \<Longrightarrow>
   performed_once kept (fst (run_calls store cs w))"
proof (induction cs arbitrary: w)
  case (Cons c cs)
  obtain res w' where run: "run_call store c w = (res, w')" by fastforce
  have new: "valid w' \<and> (case res of Inl _ \<Rightarrow> \<forall>r. table w' k = Some r \<longrightarrow> \<not> is_success r
    | Inr ex \<Rightarrow> \<not> replayed ex \<and> is_success (exec_record ex) \<and> table w' k = Some (kept (exec_record ex)))"
    using Cons.prems run by (intro run_call_new) simp_all
  have fst_eq: "fst (run_calls store (c # cs) w) = res # fst (run_calls store cs w')"
    using run by (simp split: prod.splits)
  show ?case
  proof (cases res)
    case (Inl e)
    with new Cons.prems(2) Cons.IH [of w'] fst_eq show ?thesis by simp
  next
    case (Inr ex)
    with new have ex: "valid w'" "\<not> replayed ex" "table w' k = Some (kept (exec_record ex))" "is_success (kept (exec_record ex))"
      by (simp_all add: kept_success)
    from run_calls_replayed [OF ex(1) _ ex(3,4), of cs] Cons.prems(2) Inr ex(2) fst_eq show ?thesis by simp
  qed
qed simp

end

section \<open>The memory store\<close>

definition memory_table :: "memory_idempotency_store \<times> 'o \<Rightarrow> string \<Rightarrow> action_execution_record option" where
  "memory_table = (\<lambda>(m, x). fmlookup m)"

interpretation memory_records: idempotency_contract memory_idempotency "\<lambda>_. True" memory_table "\<lambda>k. k" "\<lambda>_. True" "\<lambda>r. r"
  by unfold_locales
    (auto simp: memory_idempotency_def memory_load_record_def memory_save_record_def memory_table_def
      fun_eq_iff split: option.splits)

section \<open>The file store\<close>

definition sealed_record :: "action_execution_record \<Rightarrow> action_execution_record" where
  "sealed_record r = r\<lparr>rec_outcome := (case rec_outcome r of Succeeded v \<Rightarrow> Succeeded (sealed v) | Failed e \<Rightarrow> Failed e)\<rparr>"

text \<open>What the file store can read back: no \<open>Null\<close>, and no floats, whose text the parser may round.\<close>

definition storable_record :: "action_execution_record \<Rightarrow> bool" where
  "storable_record r \<longleftrightarrow> rec_attempts r \<le> u32_max
     \<and> (case rec_outcome r of Succeeded v \<Rightarrow> readable v \<and> json_plain (value_json v) | Failed _ \<Rightarrow> True)"

lemma outcome_read:
  "storable_record r \<Longrightarrow> \<exists>j. outcome_to_json (rec_outcome r) = Some j \<and> json_plain j
     \<and> json_to_outcome j = Ok (rec_outcome (sealed_record r))"
  by (cases "rec_outcome r")
    (auto simp: storable_record_def sealed_record_def runtime_value_to_json_def readable_prints value_json_read
      json_to_outcome_def part_def json_get_object simp del: json_object_get intro!: json_plain_object)

lemma record_read:
  assumes "storable_record r"
  obtains j where "record_to_json r = Some j" "json_plain j" "json_to_record j = Ok (sealed_record r)"
proof -
  obtain out where out: "outcome_to_json (rec_outcome r) = Some out" "json_plain out"
    "json_to_outcome out = Ok (rec_outcome (sealed_record r))"
    using outcome_read [OF assms] by blast
  have n: "rec_attempts r \<le> u32_max" using assms by (simp add: storable_record_def)
  let ?j = "json_object [(''action'', JString (rec_action r)), (''idempotency_key'', json_opt JString (rec_key r)),
        (''attempts'', json_nat (rec_attempts r)), (''outcome'', out)]"
  have key: "Option.bind (Some (json_opt JString (rec_key r))) as_str = rec_key r"
    by (cases "rec_key r") (simp_all add: json_opt_def)
  have "json_plain ?j"
    using out n by (intro json_plain_object) (simp add: json_opt_def split: option.split)
  moreover have "json_to_record ?j = Ok (sealed_record r)"
    using out n key
    by (simp add: json_to_record_def part_def u32_field_def json_get_object checked_nat_def sealed_record_def
        del: json_object_get)
  ultimately show ?thesis using that out by (simp add: record_to_json_def)
qed

definition records_valid :: "'b codec \<Rightarrow> file_idempotency_store \<Rightarrow> 'b world \<Rightarrow> bool" where
  "records_valid c st w \<longleftrightarrow>
     codec_ok c \<and> faults w = [] \<and> dir_ready (idempotency_dir st) w
     \<and> (\<forall>n bs. file_content w (idempotency_dir st @ [n @ ''.json'']) = Some bs \<longrightarrow>
          (\<exists>v r. from_slice c bs = Ok v \<and> json_to_record v = Ok r))"

definition records_table ::
    "'b codec \<Rightarrow> file_idempotency_store \<Rightarrow> 'b world \<Rightarrow> string \<Rightarrow> action_execution_record option" where
  "records_table c st w k =
     (case file_content w (idempotency_dir st @ [k @ ''.json'']) of
        None \<Rightarrow> None
      | Some bs \<Rightarrow> ok (res_bind (storage_result (from_slice c bs)) json_to_record))"

lemma record_path_eq: "record_path st key = idempotency_dir st @ [safe_key_id key @ ''.json'']"
  by (simp add: record_path_def)

lemma file_load_record_file:
  assumes "faults w = []" and "dir_ready (idempotency_dir st) w"
    and "file_content w (record_path st key) = Some bs" and "from_slice c bs = Ok v"
  shows "file_load_record c st key w = (map_err Error (res_map Some (json_to_record v)), w)"
  using assms read_json_ok [OF assms(1,3,4)]
  by (simp add: file_load_record_def path_exists_def guarded_def rbind_def)

lemma file_load_record_law:
  assumes "records_valid c st w"
  shows "file_load_record c st key w = (Ok (records_table c st w (safe_key_id key)), w)"
proof (cases "file_content w (record_path st key)")
  case None
  with assms show ?thesis
    by (simp add: file_load_record_def path_exists_def records_table_def record_path_eq records_valid_def dir_ready_def)
next
  case (Some bs)
  then obtain v r where v: "from_slice c bs = Ok v" "json_to_record v = Ok r"
    using assms unfolding record_path_eq records_valid_def by blast
  then show ?thesis
    using file_load_record_file [of w st key bs c v] assms Some
    by (simp add: records_valid_def records_table_def record_path_eq storage_result_def)
qed

lemma file_save_record_law:
  assumes "records_valid c st w" and "storable_record r" and "rec_key r = Some key"
  shows "\<exists>w'. file_save_record c st r w = (Ok (), w') \<and> records_valid c st w'
    \<and> records_table c st w' = (records_table c st w)(safe_key_id key \<mapsto> sealed_record r)"
proof -
  let ?d = "idempotency_dir st" and ?k = "safe_key_id key"
  obtain j where j: "record_to_json r = Some j" "json_plain j" "json_to_record j = Ok (sealed_record r)"
    by (rule record_read [OF assms(2)])
  have pre: "codec_ok c" "faults w = []" "dir_ready ?d w" "?d \<noteq> []"
    using assms(1) by (simp_all add: records_valid_def idempotency_dir_def)
  obtain w' b where w':
    "rbind (storage_io (create_dir_all ?d)) (\<lambda>_. replace_json c (?d @ [?k @ ''.json'']) j) w = (Ok (), w')"
    "from_slice c [b] = Ok j"
    "\<And>n. file_content w' (?d @ [n @ ''.json'']) = (if n = ?k then Some [b] else file_content w (?d @ [n @ ''.json'']))"
    "dir_ready ?d w'" "faults w' = []"
    by (rule store_json [OF pre(1) j(2) pre(2,3,4)]) blast
  have "file_save_record c st r w = (Ok (), w')"
    using w'(1) j assms(3) by (simp add: file_save_record_def guarded_def record_path_eq)
  moreover have "records_valid c st w'"
    using assms(1) w'(2-5) j(3) by (auto simp: records_valid_def)
  moreover have "records_table c st w' = (records_table c st w)(?k \<mapsto> sealed_record r)"
    using w'(2,3) j(3) by (auto simp: records_table_def storage_result_def)
  ultimately show ?thesis by blast
qed

abbreviation world_valid :: "'b codec \<Rightarrow> file_idempotency_store \<Rightarrow> 'b world \<times> 'o \<Rightarrow> bool" where
  "world_valid c st w \<equiv> records_valid c st (fst w)"

abbreviation world_table ::
    "'b codec \<Rightarrow> file_idempotency_store \<Rightarrow> 'b world \<times> 'o \<Rightarrow> string \<Rightarrow> action_execution_record option" where
  "world_table c st w \<equiv> records_table c st (fst w)"

interpretation file_records: idempotency_contract "file_idempotency c st" "world_valid c st" "world_table c st"
    safe_key_id storable_record sealed_record
  for c :: "'b codec" and st
proof
  fix w :: "'b world \<times> 'o" and r k
  assume "world_valid c st w" "storable_record r" "rec_key r = Some k"
  from file_save_record_law [OF this]
  show "\<exists>w'. idem_save (file_idempotency c st) r w = (Ok (), w') \<and> world_valid c st w'
      \<and> world_table c st w' = (world_table c st w)(safe_key_id k \<mapsto> sealed_record r)"
    by (cases w) (auto simp: file_idempotency_def on_world_def)
qed (auto simp: file_idempotency_def on_world_def file_load_record_law storable_record_def record_of_def is_success_def
    sealed_record_def split: prod.splits execution_outcome.splits)

text \<open>C17: of any number of calls under one idempotency key, over a readable file store in a file
  system without failures, at most one succeeds with a run of its own: the calls before it fail, and every
  later one either fails or returns its record as the store keeps it; and once a call has returned a
  value the later calls run nothing: they change neither the files nor anything that the operations act
  on. The calls are those whose operation leaves the store readable and its records alone and returns only
  values that the file store can read back, and no successful record is stored at the start. Keys with
  the same file name count as one key. A value returned after the timeout does not count as a success:
  it is a failure of the attempt, and the operation may be run again.\<close>

theorem action_performed_once:
  assumes "records_valid c st (fst w)"
    and "\<forall>r. records_table c st (fst w) k = Some r \<longrightarrow> \<not> is_success r"
    and "\<forall>a \<in> set calls. fair_call (world_valid c st) (world_table c st) storable_record safe_key_id k a"
  shows "performed_once sealed_record (fst (run_calls (file_idempotency c st) calls w))
    \<and> (\<forall>before a after ex w'. calls = before @ a # after
          \<and> run_call (file_idempotency c st) a (snd (run_calls (file_idempotency c st) before w)) = (Inr ex, w')
        \<longrightarrow> snd (run_calls (file_idempotency c st) calls w) = w')"
  using file_records.run_calls_performed_once [OF assms(1,3,2)] file_records.run_calls_after_value [OF assms(1)] assms(3)
  by blast

text \<open>An operation that counts its calls, fails the first time and then returns the count.\<close>

definition counting :: "(json world \<times> nat) operation" where
  "counting n w = (((if snd w = 0 then Err (ActionFailed ''pay'' ''busy'') else Ok (Integer 1)), 0), (fst w, Suc (snd w)))"

definition pay :: action_spec where
  "pay = \<lparr>spec_name = ''pay'', required_permissions = [], risk = Low, timeout = None, rollback = None,
     idempotency_key = Some ''order-1'', max_cost = None\<rparr>"

definition pay_call :: "(json world \<times> nat) call" where
  "pay_call = \<lparr>call_action = pay, call_retry = retry_none, call_cost = None, call_op = counting\<rparr>"

abbreviation "sample_records \<equiv> \<lparr>idem_root = [''data'']\<rparr>"

lemma sample_records_valid: "records_valid id_codec sample_records sample_world"
  by (simp add: records_valid_def dir_ready_def sample_world_def is_dir_def file_content_def
      idempotency_dir_def prefixes_of_def)

lemma pay_call_fair:
  "fair_call (world_valid id_codec st) (world_table id_codec st) storable_record safe_key_id ''order-1'' pay_call"
proof -
  have "safe_key_id ''order-1'' = ''order-1''" by code_simp
  moreover have "json_plain (value_json (Integer 1))" by (simp add: kinded_def json_plain_object)
  ultimately show ?thesis
    by (auto simp: fair_call_def pay_call_def pay_def retry_none_def keeps_records_def counting_def storable_record_def
        record_of_def split: if_splits)
qed

theorem action_performed_once_witness:
  "performed_once sealed_record
     (fst (run_calls (file_idempotency id_codec sample_records) [pay_call, pay_call, pay_call] (sample_world, 0)))"
proof (rule action_performed_once [where k = "''order-1''", THEN conjunct1])
  show "records_valid id_codec sample_records (fst (sample_world, 0))" by (simp add: sample_records_valid)
qed (simp_all add: pay_call_fair records_table_def sample_world_def file_content_def)

text \<open>What a timeout does to this: an operation that counts its runs and returns its value too late is
  run again by the same call, and the value is lost.\<close>

definition late :: "(memory_idempotency_store \<times> nat) operation" where
  "late n w = ((Ok (Integer 1), 10), (fst w, Suc (snd w)))"

lemma late_value_is_run_again:
  "execute memory_idempotency (pay\<lparr>timeout := Some 5\<rparr>) (retry_attempts 3) None late (fmempty, 0)
     = (Err (Error (Timeout ''pay'')), (fmupd ''order-1'' (record_of pay 3 (Failed (error_message (Timeout ''pay'')))) fmempty, 3))"
  by code_simp

theorem attempts_bounded_witness:
  "\<exists>n. 0 < n \<and> n \<le> 3
     \<and> attempt_loop (file_idempotency id_codec sample_records) pay (retry_attempts 3) counting 0 (sample_world, 0)
       = finish (file_idempotency id_codec sample_records) pay n (attempt_result pay counting n (sample_world, 0))
           (after_attempts pay counting n (sample_world, 0))"
proof -
  have "max_attempts (retry_attempts 3) = 3" by (simp add: retry_attempts_def)
  then show ?thesis
    using attempts_bounded [of "retry_attempts 3" pay counting "(sample_world, 0)" "file_idempotency id_codec sample_records"]
    by (metis max.absorb2 one_le_numeral)
qed

section \<open>A result that cannot be read back\<close>

text \<open>C22: an operation that returns \<open>Null\<close> succeeds and its record is written, but the record cannot be
  read: every later call under the key fails before anything is run.\<close>

theorem null_result_blocks_key:
  assumes "records_valid c st (fst w)" and "records_table c st (fst w) (safe_key_id key) = None"
    and "idempotency_key action = Some key" and "enforce_cost action cost = Ok ()" and "timeout action = None"
    and "op 1 w = ((Ok Null, elapsed), (fst w, x))"
  shows "\<exists>ex w'. execute (file_idempotency c st) action retry cost op w = (Ok ex, w') \<and> execution_value ex = Some Null
    \<and> (\<forall>action' retry' cost' op'. idempotency_key action' = Some key \<and> enforce_cost action' cost' = Ok () \<longrightarrow>
         execute (file_idempotency c st) action' retry' cost' op' w'
           = (Err (Error (Storage (''unknown runtime value kind '' @ quoted ''Null''))), w'))"
proof -
  let ?d = "idempotency_dir st" and ?k = "safe_key_id key" and ?r = "record_of action 1 (Succeeded Null)"
  let ?out = "json_object [(''kind'', JString ''Succeeded''), (''value'', value_json Null)]"
  let ?j = "json_object [(''action'', JString (spec_name action)), (''idempotency_key'', JString key),
        (''attempts'', json_nat 1), (''outcome'', ?out)]"
  have j: "record_to_json ?r = Some ?j"
    using assms(3) by (simp add: record_to_json_def record_of_def runtime_value_to_json_def json_opt_def)
  have plain: "json_plain ?j" by (simp add: json_plain_object kinded_def)
  have "json_to_runtime_value (value_json Null) = Err (Storage (''unknown runtime value kind '' @ quoted ''Null''))"
    by (subst json_to_runtime_value.simps) (simp add: kinded_def)
  then have bad: "json_to_record ?j = Err (Storage (''unknown runtime value kind '' @ quoted ''Null''))"
    by (simp add: json_to_record_def json_to_outcome_def part_def u32_field_def json_get_object checked_nat_def
        del: json_object_get)
  have pre: "codec_ok c" "faults (fst w) = []" "dir_ready ?d (fst w)" "?d \<noteq> []"
    using assms(1) by (simp_all add: records_valid_def idempotency_dir_def)
  obtain w1 b where w1:
    "rbind (storage_io (create_dir_all ?d)) (\<lambda>_. replace_json c (?d @ [?k @ ''.json'']) ?j) (fst w) = (Ok (), w1)"
    "from_slice c [b] = Ok ?j"
    "\<And>n. file_content w1 (?d @ [n @ ''.json'']) = (if n = ?k then Some [b] else file_content (fst w) (?d @ [n @ ''.json'']))"
    "dir_ready ?d w1" "faults w1 = []"
    by (rule store_json [OF pre(1) plain pre(2,3,4)]) blast
  have save: "idem_save (file_idempotency c st) ?r (fst w, x) = (Ok (), (w1, x))"
    using w1(1) j assms(3)
    by (simp add: file_idempotency_def on_world_def file_save_record_def guarded_def record_path_eq record_of_def)
  have "execute (file_idempotency c st) action retry cost op w = attempt_loop (file_idempotency c st) action retry op 0 w"
    using file_records.load_law [OF assms(1)] assms(2-4) by (simp add: execute_def rbind_def)
  also have "\<dots> = (Ok \<lparr>exec_record = ?r, replayed = False\<rparr>, (w1, x))"
    using assms(5,6) save by (subst attempt_loop.simps) (simp add: run_attempt_def rbind_def)
  finally have run: "execute (file_idempotency c st) action retry cost op w = (Ok \<lparr>exec_record = ?r, replayed = False\<rparr>, (w1, x))" .
  have load: "idem_load (file_idempotency c st) key (w1, x)
      = (Err (Error (Storage (''unknown runtime value kind '' @ quoted ''Null''))), (w1, x))"
    using file_load_record_file [OF w1(5,4) _ w1(2), of key] w1(3) [of ?k] bad
    by (simp add: file_idempotency_def on_world_def record_path_eq)
  have "execute (file_idempotency c st) action' retry' cost' op' (w1, x)
      = (Err (Error (Storage (''unknown runtime value kind '' @ quoted ''Null''))), (w1, x))"
    if "idempotency_key action' = Some key" "enforce_cost action' cost' = Ok ()" for action' retry' cost' op'
    using that load by (simp add: execute_def rbind_def)
  with run show ?thesis by (auto simp: execution_value_def record_of_def)
qed

theorem null_result_blocks_key_witness:
  "\<exists>ex w'. execute (file_idempotency id_codec sample_records) pay retry_none None (\<lambda>n w. ((Ok Null, 0), w)) (sample_world, ())
       = (Ok ex, w')
     \<and> fst (execute (file_idempotency id_codec sample_records) pay retry_none None (\<lambda>n w. ((Ok Null, 0), w)) w')
       = Err (Error (Storage (''unknown runtime value kind '' @ quoted ''Null'')))"
proof -
  have "records_table id_codec sample_records (fst (sample_world, ())) k = None" for k
    by (simp add: records_table_def sample_world_def file_content_def)
  moreover have "enforce_cost pay None = Ok ()" "timeout pay = None" "idempotency_key pay = Some ''order-1''"
    by (simp_all add: enforce_cost_def pay_def)
  ultimately show ?thesis
    using null_result_blocks_key [of id_codec sample_records "(sample_world, ())" "''order-1''" pay None
        "\<lambda>n w. ((Ok Null, 0), w)" 0 "()" retry_none] sample_records_valid
    by auto
qed

end
