(* ===== verification/Ast.thy ===== *)
theory Ast
  imports Tokens
begin

text \<open>
  \<open>num-compiler/src/ast.rs\<close>: the tree of a module. The structs are records, whose fields carry a
  prefix because fields are global names; the structs of statements that hold statements are the
  arguments of the constructors of \<open>stmt\<close>.
\<close>

section \<open>Types, labels and expressions\<close>

record type_ref =
  type_raw :: string

definition is_uncertain :: "type_ref \<Rightarrow> bool" where
  "is_uncertain ty = starts_with ''Uncertain<'' (type_raw ty)"

definition is_option :: "type_ref \<Rightarrow> bool" where
  "is_option ty = starts_with ''Option<'' (type_raw ty)"

definition is_result :: "type_ref \<Rightarrow> bool" where
  "is_result ty = starts_with ''Result<'' (type_raw ty)"

definition is_task :: "type_ref \<Rightarrow> bool" where
  "is_task ty = starts_with ''Task<'' (type_raw ty)"

definition is_secret :: "type_ref \<Rightarrow> bool" where
  "is_secret ty \<longleftrightarrow> type_raw ty = ''Secret'' \<or> starts_with ''Secret<'' (type_raw ty)"

datatype trust = Trust_Untrusted | Trust_Trusted | Trust_Verified

datatype privacy =
  Privacy_Public | Privacy_Internal | Privacy_Private | Privacy_Sensitive | Privacy_Secret | Privacy_Regulated

datatype risk = Risk_Low | Risk_Medium | Risk_High | Risk_Critical

record labels =
  label_source :: "string option"
  label_trust :: "trust option"
  label_privacy :: "privacy option"

definition no_labels :: labels where
  "no_labels = \<lparr>label_source = None, label_trust = None, label_privacy = None\<rparr>"

record raw_expr =
  raw_text :: string
  raw_span :: span

section \<open>Statements\<close>

datatype match_binding =
  MatchBinding (binding_field: string) (binding_name: string) (binding_nested_type: "string option")
    (binding_nested: "match_binding list")

datatype match_payload = Binding string | Destructure string "match_binding list"

datatype match_pattern = Variant string "match_payload option" "match_binding list" | Wildcard

datatype policy_expectation = Policy_Allow | Policy_Deny

datatype workflow_expectation = Workflow_Success | Workflow_Failure

record let_stmt =
  let_mutable :: bool
  let_name :: string
  let_ty :: "type_ref option"
  let_labels :: labels
  let_expr :: "raw_expr option"
  let_span :: span

record assign_stmt =
  assign_name :: string
  assign_expr :: raw_expr
  assign_span :: span

record assert_stmt =
  assert_expr :: raw_expr
  assert_span :: span

record expect_workflow_stmt =
  expect_outcome :: workflow_expectation
  expect_call :: raw_expr
  expect_span :: span

record expect_audit_stmt =
  audit_event :: raw_expr
  audit_span :: span

record mock_ai_stmt =
  mock_call :: raw_expr
  mock_value :: raw_expr
  mock_confidence :: raw_expr
  mock_span :: span

record mock_ai_scan_stmt =
  scan_call :: raw_expr
  scan_outcome :: string
  scan_reason :: "raw_expr option"
  scan_span :: span

record mock_connector_stmt =
  connector_call :: raw_expr
  connector_value :: raw_expr
  connector_mock_span :: span

record require_stmt =
  require_permission :: string
  require_actor :: "string option"
  require_span :: span

datatype stmt =
    Let_Stmt let_stmt
  | Assign_Stmt assign_stmt
  | Assert_Stmt assert_stmt
  | ExpectPolicy_Stmt policy_expectation "stmt list" span
  | ExpectWorkflow_Stmt expect_workflow_stmt
  | ExpectAudit_Stmt expect_audit_stmt
  | MockAi_Stmt mock_ai_stmt
  | MockAiScan_Stmt mock_ai_scan_stmt
  | MockConnector_Stmt mock_connector_stmt
  | Require_Stmt require_stmt
  | Transaction_Stmt bool "stmt list" span
  | If_Stmt raw_expr "stmt list" "stmt list" span
  | Match_Stmt raw_expr "match_arm list" span
  | Return_Stmt raw_expr
  | Expr_Stmt raw_expr
  | Scope_Stmt "stmt list" span
and match_arm = MatchArm match_pattern "raw_expr option" "stmt list" span

fun stmt_span :: "stmt \<Rightarrow> span" where
  "stmt_span (Let_Stmt s) = let_span s"
| "stmt_span (Assign_Stmt s) = assign_span s"
| "stmt_span (Assert_Stmt s) = assert_span s"
| "stmt_span (ExpectPolicy_Stmt _ _ sp) = sp"
| "stmt_span (ExpectWorkflow_Stmt s) = expect_span s"
| "stmt_span (ExpectAudit_Stmt s) = audit_span s"
| "stmt_span (MockAi_Stmt s) = mock_span s"
| "stmt_span (MockAiScan_Stmt s) = scan_span s"
| "stmt_span (MockConnector_Stmt s) = connector_mock_span s"
| "stmt_span (Require_Stmt s) = require_span s"
| "stmt_span (Transaction_Stmt _ _ sp) = sp"
| "stmt_span (If_Stmt _ _ _ sp) = sp"
| "stmt_span (Match_Stmt _ _ sp) = sp"
| "stmt_span (Return_Stmt e) = raw_span e"
| "stmt_span (Expr_Stmt e) = raw_span e"
| "stmt_span (Scope_Stmt _ sp) = sp"

section \<open>Declarations\<close>

record permission_decl =
  permission_name :: string
  permission_span :: span

record role_decl =
  role_name :: string
  role_allows :: "string list"
  role_span :: span

datatype policy_effect = Effect_Allow | Effect_Deny

record policy_route_condition =
  condition_method :: string
  condition_path :: string

record policy_rule =
  rule_effect :: policy_effect
  rule_privacy :: "privacy option"
  rule_trust :: "trust option"
  rule_source :: "string option"
  rule_target :: "string option"
  rule_tenant :: "string option"
  rule_route :: "policy_route_condition option"
  rule_raw :: string
  rule_span :: span

record policy_decl =
  policy_name :: string
  policy_rules :: "policy_rule list"
  policy_span :: span

record field =
  field_name :: string
  field_ty :: type_ref
  field_labels :: labels
  field_span :: span

datatype type_body = Struct_Body "field list" | Alias_Body type_ref

record type_decl =
  type_name :: string
  type_generic_params :: "string list"
  type_body :: type_body
  type_span :: span

record enum_variant =
  variant_name :: string
  variant_payload :: "type_ref option"
  variant_span :: span

record enum_decl =
  enum_name :: string
  enum_variants :: "enum_variant list"
  enum_span :: span

record param =
  param_name :: string
  param_ty :: type_ref
  param_labels :: labels
  param_span :: span

record callable_decl =
  callable_name :: string
  callable_params :: "param list"
  callable_result :: "type_ref option"
  callable_requires :: "string list"
  callable_budget :: "string option"
  callable_rate_limit :: "string option"
  callable_body :: "stmt list"
  callable_span :: span

record actor_state_field =
  state_name :: string
  state_ty :: type_ref
  state_labels :: labels
  state_span :: span

record actor_decl =
  actor_name :: string
  actor_state :: "actor_state_field list"
  actor_handlers :: "callable_decl list"
  actor_span :: span

record action_decl =
  action_name :: string
  action_params :: "param list"
  action_result :: "type_ref option"
  action_requires :: "string list"
  action_risk :: risk
  action_rollback :: "string option"
  action_timeout :: "string option"
  action_cost :: "string option"
  action_retry :: "string option"
  action_idempotency_key :: "string option"
  action_body :: "stmt list"
  action_span :: span

record connector_method =
  method_name :: string
  method_params :: "param list"
  method_result :: "type_ref option"
  method_span :: span

record connector_decl =
  connector_name :: string
  connector_methods :: "connector_method list"
  connector_span :: span

record service_input =
  input_name :: string
  input_ty :: type_ref
  input_labels :: labels
  input_span :: span

record service_route =
  route_method :: string
  route_path :: string
  route_requires :: "string list"
  route_input :: "service_input option"
  route_body :: "stmt list"
  route_span :: span

record service_decl =
  service_name :: string
  service_budget :: "string option"
  service_rate_limit :: "string option"
  service_routes :: "service_route list"
  service_span :: span

datatype test_kind = Test_Unit | Test_Policy | Test_Workflow | Test_Ai

record test_decl =
  test_name :: string
  test_kind :: test_kind
  test_body :: "stmt list"
  test_span :: span

record impl_decl =
  impl_target :: string
  impl_methods :: "callable_decl list"
  impl_span :: span

datatype top_decl =
    Permission_Decl permission_decl
  | Role_Decl role_decl
  | Policy_Decl policy_decl
  | Type_Decl type_decl
  | Enum_Decl enum_decl
  | Function_Decl callable_decl
  | Workflow_Decl callable_decl
  | Actor_Decl actor_decl
  | Action_Decl action_decl
  | Connector_Decl connector_decl
  | Service_Decl service_decl
  | Test_Decl test_decl
  | Impl_Decl impl_decl

fun declaration_name :: "top_decl \<Rightarrow> string" where
  "declaration_name (Permission_Decl d) = permission_name d"
| "declaration_name (Role_Decl d) = role_name d"
| "declaration_name (Policy_Decl d) = policy_name d"
| "declaration_name (Type_Decl d) = type_name d"
| "declaration_name (Enum_Decl d) = enum_name d"
| "declaration_name (Function_Decl d) = callable_name d"
| "declaration_name (Workflow_Decl d) = callable_name d"
| "declaration_name (Actor_Decl d) = actor_name d"
| "declaration_name (Action_Decl d) = action_name d"
| "declaration_name (Connector_Decl d) = connector_name d"
| "declaration_name (Service_Decl d) = service_name d"
| "declaration_name (Test_Decl d) = test_name d"
| "declaration_name (Impl_Decl d) = impl_target d"

fun declaration_span :: "top_decl \<Rightarrow> span" where
  "declaration_span (Permission_Decl d) = permission_span d"
| "declaration_span (Role_Decl d) = role_span d"
| "declaration_span (Policy_Decl d) = policy_span d"
| "declaration_span (Type_Decl d) = type_span d"
| "declaration_span (Enum_Decl d) = enum_span d"
| "declaration_span (Function_Decl d) = callable_span d"
| "declaration_span (Workflow_Decl d) = callable_span d"
| "declaration_span (Actor_Decl d) = actor_span d"
| "declaration_span (Action_Decl d) = action_span d"
| "declaration_span (Connector_Decl d) = connector_span d"
| "declaration_span (Service_Decl d) = service_span d"
| "declaration_span (Test_Decl d) = test_span d"
| "declaration_span (Impl_Decl d) = impl_span d"

record import_decl =
  import_path :: string
  import_span :: span

record module_ast =
  mod_name :: "string option"
  mod_imports :: "import_decl list"
  mod_declarations :: "top_decl list"

definition empty_module :: module_ast where
  "empty_module = \<lparr>mod_name = None, mod_imports = [], mod_declarations = []\<rparr>"

end
