(* ===== verification/Parser_Base.thy ===== *)
theory Parser_Base
  imports Ast
begin

text \<open>
  \<open>num-compiler/src/parser.rs\<close>, the lower half: the state of the parser, the single steps
  (\<open>peek\<close>, \<open>advance\<close>, \<open>expect_*\<close>, \<open>match_*\<close>), the loops that collect the text of an
  expression, a type or a line, labels, and the functions on the text of a policy rule.

  Past the last token \<open>peek\<close> sees the last token again, and it panics when there is none.
  \<open>ps_stuck\<close> is not in the code: it marks that the code does not return. It is set for the empty
  list (the first \<open>peek\<close> panics), when the parser advances past the end of a list whose last token
  is not \<open>Eof\<close> (it then sees that token for ever, so the loop of \<open>parse_module\<close> does not end), and
  when a loop went round, or a recursion went down, without having consumed a token. From then on
  the model sees \<open>Eof\<close>, so that its functions are total. \<open>Parser_Spec\<close> shows that the mark is
  never set on a list that ends with \<open>Eof\<close>, as those of the lexer do, and always on one without it.
\<close>

section \<open>The state\<close>

record parser =
  ps_tokens :: "token list"
  ps_index :: nat
  ps_diagnostics :: "diagnostic list"
  ps_stuck :: bool

definition new_parser :: "token list \<Rightarrow> parser" where
  "new_parser ts = \<lparr>ps_tokens = ts, ps_index = 0, ps_diagnostics = [], ps_stuck = (ts = [])\<rparr>"

definition peek_token :: "parser \<Rightarrow> token" where
  "peek_token st =
     (if ps_index st < length (ps_tokens st) then ps_tokens st ! ps_index st else last (ps_tokens st))"

text \<open>The kind of the next token, while the code runs.\<close>

definition peek_kind :: "parser \<Rightarrow> token_kind" where
  "peek_kind st = (if ps_stuck st then Eof else token_kind (peek_token st))"

definition previous_token :: "parser \<Rightarrow> token" where
  "previous_token st = ps_tokens st ! (ps_index st - 1)"

definition previous_span :: "parser \<Rightarrow> span" where
  "previous_span st = span (previous_token st)"

definition advance_token :: "parser \<Rightarrow> parser" where
  "advance_token st =
     (if ps_index st < length (ps_tokens st) then st\<lparr>ps_index := ps_index st + 1\<rparr>
      else if peek_kind st = Eof then st else st\<lparr>ps_stuck := True\<rparr>)"

definition push_error :: "diagnostic \<Rightarrow> parser \<Rightarrow> parser" where
  "push_error d st = st\<lparr>ps_diagnostics := ps_diagnostics st @ [d]\<rparr>"

definition at_eof :: "parser \<Rightarrow> bool" where "at_eof st \<longleftrightarrow> peek_kind st = Eof"

definition at_newline :: "parser \<Rightarrow> bool" where "at_newline st \<longleftrightarrow> peek_kind st = Newline"

definition at_symbol :: "symbol \<Rightarrow> parser \<Rightarrow> bool" where
  "at_symbol s st \<longleftrightarrow> peek_kind st = Symbol s"

definition at_keyword :: "keyword_kind \<Rightarrow> parser \<Rightarrow> bool" where
  "at_keyword k st \<longleftrightarrow> peek_kind st = Keyword k"

text \<open>\<open>format!("{keyword:?}").to_ascii_lowercase()\<close>, the name of a keyword in small letters, is the
  text it is written with.\<close>

definition at_ident_text :: "string \<Rightarrow> parser \<Rightarrow> bool" where
  "at_ident_text expected st =
     (case peek_kind st of
        Ident name \<Rightarrow> name = expected
      | Keyword kw \<Rightarrow> keyword_text kw = to_ascii_lowercase expected
      | _ \<Rightarrow> False)"

definition starts_assignment :: "parser \<Rightarrow> bool" where
  "starts_assignment st =
     (case peek_kind st of
        Ident _ \<Rightarrow> ps_index st + 1 < length (ps_tokens st)
                    \<and> token_kind (ps_tokens st ! (ps_index st + 1)) = Symbol Eq
      | _ \<Rightarrow> False)"

definition is_label_start :: "parser \<Rightarrow> bool" where
  "is_label_start st =
     list_ex (\<lambda>k. at_keyword k st)
       [Kw_From, Kw_Private, Kw_Public, Kw_Internal, Kw_Sensitive, Kw_Secret, Kw_Regulated,
        Kw_Trusted, Kw_Untrusted, Kw_Verified]"

text \<open>The \<open>match_*\<close> methods advance when they answer true; the answer comes first.\<close>

definition match_symbol :: "symbol \<Rightarrow> parser \<Rightarrow> bool \<times> parser" where
  "match_symbol s st = (if at_symbol s st then (True, advance_token st) else (False, st))"

definition match_keyword :: "keyword_kind \<Rightarrow> parser \<Rightarrow> bool \<times> parser" where
  "match_keyword k st = (if at_keyword k st then (True, advance_token st) else (False, st))"

definition match_ident_text :: "string \<Rightarrow> parser \<Rightarrow> bool \<times> parser" where
  "match_ident_text expected st =
     (if at_ident_text expected st then (True, advance_token st) else (False, st))"

definition match_newline :: "parser \<Rightarrow> parser" where
  "match_newline st = (if at_newline st then advance_token st else st)"

definition maybe_ident :: "parser \<Rightarrow> string option \<times> parser" where
  "maybe_ident st =
     (case peek_kind st of
        Ident name \<Rightarrow> (Some name, advance_token st)
      | Keyword kw \<Rightarrow> (Some (keyword_text kw), advance_token st)
      | _ \<Rightarrow> (None, st))"

definition expect_ident :: "string \<Rightarrow> parser \<Rightarrow> string option \<times> parser" where
  "expect_ident msg st =
     (case maybe_ident st of
        (Some name, st') \<Rightarrow> (Some name, st')
      | (None, st') \<Rightarrow> (None, push_error (diagnostic_error ''N0101'' msg (span (peek_token st'))) st'))"

definition expect_string :: "string \<Rightarrow> parser \<Rightarrow> string option \<times> parser" where
  "expect_string msg st =
     (case peek_kind st of
        String val \<Rightarrow> (Some val, advance_token st)
      | _ \<Rightarrow> (None, push_error (diagnostic_error ''N0101'' msg (span (peek_token st))) st))"

definition expect_symbol :: "symbol \<Rightarrow> string \<Rightarrow> parser \<Rightarrow> unit option \<times> parser" where
  "expect_symbol s msg st =
     (if at_symbol s st then (Some (), advance_token st)
      else (None, push_error (diagnostic_error ''N0102'' msg (span (peek_token st))) st))"

text \<open>The \<open>?\<close> operator of a method that returns an \<open>Option\<close>, and a call that returns a value.\<close>

definition andthen :: "(parser \<Rightarrow> 'a option \<times> parser) \<Rightarrow> ('a \<Rightarrow> parser \<Rightarrow> 'b option \<times> parser)
    \<Rightarrow> parser \<Rightarrow> 'b option \<times> parser" where
  "andthen m f st = (case m st of (None, st') \<Rightarrow> (None, st') | (Some x, st') \<Rightarrow> f x st')"

definition calling :: "(parser \<Rightarrow> 'a \<times> parser) \<Rightarrow> ('a \<Rightarrow> parser \<Rightarrow> 'b \<times> parser) \<Rightarrow> parser \<Rightarrow> 'b \<times> parser" where
  "calling m f st = (case m st of (x, st') \<Rightarrow> f x st')"

definition returning :: "'a \<Rightarrow> parser \<Rightarrow> 'a \<times> parser" where
  "returning x st = (x, st)"

section \<open>Progress\<close>

text \<open>What is left to do: the tokens from the next one on and the end, or nothing when stuck.\<close>

definition left :: "parser \<Rightarrow> nat" where
  "left st = (if ps_stuck st then 0 else Suc (length (ps_tokens st) - ps_index st))"

text \<open>The state to go round or down with: \<open>st'\<close>, when a token was consumed since \<open>st\<close>.\<close>

definition progress :: "parser \<Rightarrow> parser \<Rightarrow> parser" where
  "progress st st' =
     (if left st' < left st then st' else st'\<lparr>ps_stuck := True\<rparr>)"

text \<open>The state to go down with when a part of the same method has been read, up to \<open>st'\<close>.\<close>

definition within :: "parser \<Rightarrow> parser \<Rightarrow> parser" where
  "within st st' =
     (if left st' \<le> left st then st' else st'\<lparr>ps_stuck := True\<rparr>)"

lemma left_within: "left (within st st') \<le> left st"
  by (simp add: within_def) (simp add: left_def)

lemma not_eof_left: "\<not> at_eof st \<Longrightarrow> 0 < left st"
  by (auto simp: at_eof_def peek_kind_def left_def split: if_splits)

lemma left_advance: "left (advance_token st) \<le> left st"
  by (auto simp: advance_token_def left_def)

lemma left_advance_less: "\<not> at_eof st \<Longrightarrow> left (advance_token st) < left st"
  by (auto simp: at_eof_def peek_kind_def advance_token_def left_def split: if_splits)

lemma left_progress: "\<not> at_eof st \<Longrightarrow> left (progress st st') < left st"
  using not_eof_left [of st] by (auto simp: progress_def) (simp add: left_def)

lemma at_not_eof:
  "at_symbol s st \<Longrightarrow> \<not> at_eof st" "at_keyword k st \<Longrightarrow> \<not> at_eof st" "at_newline st \<Longrightarrow> \<not> at_eof st"
  "at_ident_text x st \<Longrightarrow> \<not> at_eof st"
  by (auto simp: at_symbol_def at_keyword_def at_newline_def at_eof_def at_ident_text_def)

section \<open>Loops over tokens\<close>

text \<open>\<open>while !stop { self.advance(); }\<close>; every such loop also stops at \<open>Eof\<close>.\<close>

function advance_until :: "(parser \<Rightarrow> bool) \<Rightarrow> parser \<Rightarrow> parser" where
  "advance_until stop st = (if stop st \<or> at_eof st then st else advance_until stop (advance_token st))"
  by pat_completeness auto
termination
  by (relation "measure (\<lambda>(stop, st). left st)") (auto simp: left_advance_less)

declare advance_until.simps [simp del]

definition skip_until_symbol :: "symbol \<Rightarrow> parser \<Rightarrow> parser" where
  "skip_until_symbol s = advance_until (at_symbol s)"

definition consume_line :: "parser \<Rightarrow> parser" where
  "consume_line st = match_newline (advance_until at_newline st)"

definition skip_newlines :: "parser \<Rightarrow> parser" where
  "skip_newlines = advance_until (\<lambda>st. \<not> at_newline st)"

definition synchronize_top_level :: "parser \<Rightarrow> parser" where
  "synchronize_top_level st = skip_newlines (advance_until at_newline st)"

text \<open>\<open>text.push_str(&self.advance().lexeme); text.push(' ')\<close>.\<close>

definition add_lexeme :: "parser \<Rightarrow> string \<Rightarrow> string" where
  "add_lexeme st txt = txt @ lexeme (peek_token st) @ '' ''"

function collect_line_loop :: "symbol \<Rightarrow> string \<Rightarrow> nat \<Rightarrow> nat \<Rightarrow> parser \<Rightarrow> string \<times> parser" where
  "collect_line_loop stop txt parens braces st =
     (if at_eof st \<or> ((at_newline st \<or> at_symbol stop st) \<and> parens = 0 \<and> braces = 0) then (txt, st)
      else collect_line_loop stop (add_lexeme st txt)
             (if at_symbol LParen st then parens + 1 else if at_symbol RParen st then parens - 1 else parens)
             (if at_symbol LBrace st then braces + 1 else if at_symbol RBrace st then braces - 1 else braces)
             (advance_token st))"
  by pat_completeness auto
termination
  by (relation "measure (\<lambda>(stop, txt, p, b, st). left st)") (auto simp: left_advance_less)

declare collect_line_loop.simps [simp del]

definition collect_until_line_or :: "symbol \<Rightarrow> parser \<Rightarrow> string \<times> parser" where
  "collect_until_line_or stop st =
     (case collect_line_loop stop [] 0 0 st of (txt, st') \<Rightarrow> (trim txt, match_newline st'))"

function collect_metadata_loop :: "symbol \<Rightarrow> string \<Rightarrow> parser \<Rightarrow> string \<times> parser" where
  "collect_metadata_loop stop txt st =
     (if at_symbol stop st \<or> at_eof st then (txt, st)
      else if at_newline st then (txt, advance_token st)
      else if at_keyword Kw_Requires st \<or> at_keyword Kw_Budget st \<or> at_keyword Kw_Rate st then (txt, st)
      else collect_metadata_loop stop (add_lexeme st txt) (advance_token st))"
  by pat_completeness auto
termination
  by (relation "measure (\<lambda>(stop, txt, st). left st)") (auto simp: left_advance_less)

declare collect_metadata_loop.simps [simp del]

definition collect_until_metadata_or :: "symbol \<Rightarrow> parser \<Rightarrow> string \<times> parser" where
  "collect_until_metadata_or stop st =
     (case collect_metadata_loop stop [] st of (txt, st') \<Rightarrow> (trim txt, st'))"

function collect_symbol_loop :: "symbol \<Rightarrow> string \<Rightarrow> parser \<Rightarrow> string \<times> parser" where
  "collect_symbol_loop stop txt st =
     (if at_symbol stop st \<or> at_eof st then (txt, st)
      else collect_symbol_loop stop (add_lexeme st txt) (advance_token st))"
  by pat_completeness auto
termination
  by (relation "measure (\<lambda>(stop, txt, st). left st)") (auto simp: left_advance_less)

declare collect_symbol_loop.simps [simp del]

definition collect_until_symbol :: "symbol \<Rightarrow> parser \<Rightarrow> string \<times> parser" where
  "collect_until_symbol stop st = (case collect_symbol_loop stop [] st of (txt, st') \<Rightarrow> (trim txt, st'))"

function collect_ident_loop :: "string \<Rightarrow> symbol \<Rightarrow> string \<Rightarrow> nat \<Rightarrow> parser \<Rightarrow> string \<times> parser" where
  "collect_ident_loop expected stop txt depth st =
     (if at_newline st \<or> at_symbol stop st \<or> at_eof st \<or> (depth = 0 \<and> at_ident_text expected st) then (txt, st)
      else collect_ident_loop expected stop (add_lexeme st txt)
             (if at_symbol LParen st then depth + 1 else if at_symbol RParen st then depth - 1 else depth)
             (advance_token st))"
  by pat_completeness auto
termination
  by (relation "measure (\<lambda>(e, stop, txt, d, st). left st)") (auto simp: left_advance_less)

declare collect_ident_loop.simps [simp del]

definition collect_until_ident_text :: "string \<Rightarrow> symbol \<Rightarrow> parser \<Rightarrow> string \<times> parser" where
  "collect_until_ident_text expected stop st =
     (case collect_ident_loop expected stop [] 0 st of (txt, st') \<Rightarrow> (trim txt, st'))"

function type_ref_loop :: "string \<Rightarrow> nat \<Rightarrow> parser \<Rightarrow> string \<times> parser" where
  "type_ref_loop raw depth st =
     (if at_eof st then (raw, st)
      else if depth = 0 \<and> (at_newline st \<or> at_symbol Comma st \<or> at_symbol RParen st \<or> at_symbol Eq st
                \<or> at_symbol LBrace st \<or> at_keyword Kw_From st \<or> is_label_start st \<or> at_keyword Kw_Requires st)
        then (raw, st)
      else if at_symbol Lt st then type_ref_loop (raw @ ''<'') (depth + 1) (advance_token st)
      else if at_symbol Gt st then type_ref_loop (raw @ ''>'') (depth - 1) (advance_token st)
      else type_ref_loop (raw @ lexeme (peek_token st)) depth (advance_token st))"
  by pat_completeness auto
termination
  by (relation "measure (\<lambda>(raw, d, st). left st)") (auto simp: left_advance_less)

declare type_ref_loop.simps [simp del]

definition collect_type_ref :: "parser \<Rightarrow> type_ref \<times> parser" where
  "collect_type_ref st = (case type_ref_loop [] 0 st of (raw, st') \<Rightarrow> (\<lparr>type_raw = trim raw\<rparr>, st'))"

definition result_type :: "parser \<Rightarrow> type_ref option \<times> parser" where
  "result_type st =
     (case match_symbol Arrow st of
        (True, st') \<Rightarrow> (case collect_type_ref st' of (ty, st'') \<Rightarrow> (Some ty, st''))
      | (False, st') \<Rightarrow> (None, st'))"

section \<open>Labels, permissions and risks\<close>

definition keyword_labels :: "(keyword_kind \<times> (labels \<Rightarrow> labels)) list" where
  "keyword_labels =
     [(Kw_Private, \<lambda>l. l\<lparr>label_privacy := Some Privacy_Private\<rparr>),
      (Kw_Public, \<lambda>l. l\<lparr>label_privacy := Some Privacy_Public\<rparr>),
      (Kw_Internal, \<lambda>l. l\<lparr>label_privacy := Some Privacy_Internal\<rparr>),
      (Kw_Sensitive, \<lambda>l. l\<lparr>label_privacy := Some Privacy_Sensitive\<rparr>),
      (Kw_Secret, \<lambda>l. l\<lparr>label_privacy := Some Privacy_Secret\<rparr>),
      (Kw_Regulated, \<lambda>l. l\<lparr>label_privacy := Some Privacy_Regulated\<rparr>),
      (Kw_Trusted, \<lambda>l. l\<lparr>label_trust := Some Trust_Trusted\<rparr>),
      (Kw_Untrusted, \<lambda>l. l\<lparr>label_trust := Some Trust_Untrusted\<rparr>),
      (Kw_Verified, \<lambda>l. l\<lparr>label_trust := Some Trust_Verified\<rparr>)]"

definition consume_label :: "labels \<Rightarrow> parser \<Rightarrow> labels \<times> parser" where
  "consume_label l st =
     (if at_keyword Kw_From st then
        (case expect_ident ''expected provenance source after from'' (advance_token st) of
           (Some source, st') \<Rightarrow> (l\<lparr>label_source := Some source\<rparr>, st')
         | (None, st') \<Rightarrow> (l, st'))
      else
        (case peek_kind st of
           Keyword kw \<Rightarrow>
             (case map_of keyword_labels kw of
                Some set_label \<Rightarrow> (set_label l, advance_token st)
              | None \<Rightarrow> (l, advance_token st))
         | _ \<Rightarrow> (l, advance_token st)))"

lemma left_expect_ident: "left (snd (expect_ident msg st)) \<le> left st"
  using left_advance [of st]
  by (auto simp: expect_ident_def maybe_ident_def push_error_def left_def split: token_kind.split option.split)

lemma left_consume_label:
  assumes "\<not> at_eof st"
  shows "left (snd (consume_label l st)) < left st"
proof -
  have "left (snd (expect_ident msg (advance_token st))) < left st" for msg
    using left_advance_less [OF assms] left_expect_ident [of msg "advance_token st"] by simp
  then have "left st' < left st" if "expect_ident msg (advance_token st) = (x, st')" for msg x st'
    using that by (metis snd_conv)
  then show ?thesis
    using left_advance_less [OF assms]
    by (auto simp: consume_label_def split: prod.split option.split token_kind.split)
qed

lemma consume_label_less: "consume_label l st = (l', st') \<Longrightarrow> \<not> at_eof st \<Longrightarrow> left st' < left st"
  using left_consume_label [of st l] by simp

text \<open>\<open>while !stop { self.consume_label(&mut labels); }\<close>.\<close>

function labels_until :: "(parser \<Rightarrow> bool) \<Rightarrow> labels \<Rightarrow> parser \<Rightarrow> labels \<times> parser" where
  "labels_until stop l st =
     (if stop st \<or> at_eof st then (l, st)
      else (case consume_label l st of (l', st') \<Rightarrow> labels_until stop l' st'))"
  by pat_completeness auto
termination
  by (relation "measure (\<lambda>(stop, l, st). left st)")
    (auto split: prod.split dest: consume_label_less)

declare labels_until.simps [simp del]

definition collect_labels_until_line_or :: "symbol \<Rightarrow> parser \<Rightarrow> labels \<times> parser" where
  "collect_labels_until_line_or stop = labels_until (\<lambda>st. at_newline st \<or> at_symbol stop st) no_labels"

definition risk_of :: "string \<Rightarrow> risk" where
  "risk_of name =
     (if name = ''low'' then Risk_Low else if name = ''medium'' then Risk_Medium
      else if name = ''high'' then Risk_High else if name = ''critical'' then Risk_Critical
      else Risk_Low)"

definition parse_risk :: "parser \<Rightarrow> risk \<times> parser" where
  "parse_risk st =
     (case maybe_ident st of
        (Some name, st') \<Rightarrow> (risk_of name, st')
      | (None, st') \<Rightarrow> (Risk_Low, st'))"

text \<open>The names after the first one. The result of \<open>permission_path\<close> is the last part; a part that
  is missing after a point gives none.\<close>

function permission_parts :: "string list \<Rightarrow> parser \<Rightarrow> string option \<times> parser" where
  "permission_parts parts st =
     (if at_symbol Dot st then
        (case expect_ident ''expected permission name after `.`'' (advance_token st) of
           (None, st') \<Rightarrow> (None, st')
         | (Some part, st') \<Rightarrow> permission_parts (parts @ [part]) st')
      else (if parts = [] then None else Some (last parts), st))"
  by pat_completeness auto
termination
proof (relation "measure (\<lambda>(parts, st). left st)")
  fix parts :: "string list" and st x y x2
  assume a: "at_symbol Dot st"
    and e: "(x, y) = expect_ident ''expected permission name after `.`'' (advance_token st)"
  have "left y \<le> left (advance_token st)"
    using left_expect_ident [of "''expected permission name after `.`''" "advance_token st"] e [symmetric]
    by simp
  also have "\<dots> < left st" using at_not_eof(1) [OF a] by (rule left_advance_less)
  finally show "((parts @ [x2], y), (parts, st)) \<in> measure (\<lambda>(parts, st). left st)" by simp
qed simp

declare permission_parts.simps [simp del]

definition permission_path :: "parser \<Rightarrow> string option \<times> parser" where
  "permission_path st =
     (case expect_ident ''expected permission name'' st of
        (Some first, st') \<Rightarrow> permission_parts [first] st'
      | (None, st') \<Rightarrow> permission_parts [] st')"

section \<open>Blocks of items\<close>

definition is_top_level_keyword :: "keyword_kind \<Rightarrow> bool" where
  "is_top_level_keyword kw \<longleftrightarrow> kw \<in> {Kw_Module, Kw_Use, Kw_Permission, Kw_Role, Kw_Policy, Kw_Type, Kw_Enum,
     Kw_Fn, Kw_Workflow, Kw_Actor, Kw_Action, Kw_Connector, Kw_Service, Kw_Test}"

definition break_on_top_level_keyword :: "string \<Rightarrow> parser \<Rightarrow> bool \<times> parser" where
  "break_on_top_level_keyword block_kind st =
     (case peek_kind st of
        Keyword kw \<Rightarrow>
          if \<not> is_top_level_keyword kw \<or> ((block_kind = ''impl'' \<or> block_kind = ''actor'') \<and> kw = Kw_Fn)
          then (False, st)
          else (True, push_error
            (with_help ''close the current block before starting the next declaration''
              (with_reason (''a `'' @ block_kind @ ''` block cannot contain top-level declarations'')
                (diagnostic_error ''N0103''
                  (''expected `}` before `'' @ lexeme (peek_token st) @ ''` declaration'')
                  (span (peek_token st))))) st)
      | _ \<Rightarrow> (False, st))"

text \<open>
  The loop that all blocks share: to the closing brace or the end, over line breaks, stopping at a
  keyword that starts a declaration, else one \<open>item\<close> a round. An item without a result leaves
  the whole method by \<open>?\<close>. The flag says that the loop stopped at a keyword.
\<close>

function block_items :: "string \<Rightarrow> ('a \<Rightarrow> parser \<Rightarrow> 'a option \<times> parser) \<Rightarrow> 'a \<Rightarrow> parser
    \<Rightarrow> ('a \<times> bool) option \<times> parser" where
  "block_items kind item acc st =
     (if at_symbol RBrace st \<or> at_eof st then (Some (acc, False), st)
      else if at_symbol RBrace (skip_newlines st) then (Some (acc, False), skip_newlines st)
      else
        (case break_on_top_level_keyword kind (skip_newlines st) of
           (True, st') \<Rightarrow> (Some (acc, True), st')
         | (False, st') \<Rightarrow>
             (case item acc st' of
                (None, st'') \<Rightarrow> (None, st'')
              | (Some acc', st'') \<Rightarrow> block_items kind item acc' (progress st st''))))"
  by pat_completeness auto
termination
  by (relation "measure (\<lambda>(k, item, acc, st). left st)") (auto simp: left_progress)

declare block_items.simps [simp del]

text \<open>The closing brace, unless the loop stopped at a keyword.\<close>

definition close_block :: "string \<Rightarrow> bool \<Rightarrow> 'a \<Rightarrow> parser \<Rightarrow> 'a option \<times> parser" where
  "close_block msg recovered x st =
     (if recovered then (Some x, st)
      else (case expect_symbol RBrace msg st of (r, st') \<Rightarrow> (map_option (\<lambda>_. x) r, st')))"

text \<open>\<open>while !self.at_symbol(LBrace) && !self.at(Eof)\<close>: the clauses before a body.\<close>

function header_items :: "('a \<Rightarrow> parser \<Rightarrow> 'a \<times> parser) \<Rightarrow> 'a \<Rightarrow> parser \<Rightarrow> 'a \<times> parser" where
  "header_items item acc st =
     (if at_symbol LBrace st \<or> at_eof st then (acc, st)
      else header_items item (fst (item acc st)) (progress st (snd (item acc st))))"
  by pat_completeness auto
termination
  by (relation "measure (\<lambda>(item, acc, st). left st)") (auto simp: left_progress)

declare header_items.simps [simp del]

section \<open>The text of a policy rule\<close>

definition str_contains :: "string \<Rightarrow> string \<Rightarrow> bool" where
  "str_contains p txt \<longleftrightarrow> find_str p txt \<noteq> None"

definition privacy_from_text :: "string \<Rightarrow> privacy option" where
  "privacy_from_text txt =
     (if str_contains ''regulated'' txt then Some Privacy_Regulated
      else if str_contains ''sensitive'' txt then Some Privacy_Sensitive
      else if str_contains ''secret'' txt then Some Privacy_Secret
      else if str_contains ''private'' txt then Some Privacy_Private
      else if str_contains ''internal'' txt then Some Privacy_Internal
      else if str_contains ''public'' txt then Some Privacy_Public
      else None)"

definition trust_from_text :: "string \<Rightarrow> trust option" where
  "trust_from_text txt =
     (if str_contains ''untrusted'' txt then Some Trust_Untrusted
      else if str_contains ''verified'' txt then Some Trust_Verified
      else if str_contains ''trusted'' txt then Some Trust_Trusted
      else None)"

definition compact_duration_units :: "string \<Rightarrow> string" where
  "compact_duration_units txt =
     replace '' h'' ''h'' (replace '' m'' ''m'' (replace '' s'' ''s'' (replace '' ms'' ''ms'' txt)))"

definition compact_member_access :: "string \<Rightarrow> string" where
  "compact_member_access txt = replace '' .'' ''.'' (replace ''. '' ''.'' (replace '' . '' ''.'' txt))"

text \<open>\<open>windows(n)\<close>.\<close>

fun windows :: "nat \<Rightarrow> 'a list \<Rightarrow> 'a list list" where
  "windows n [] = []"
| "windows n (x # xs) = (if length (x # xs) < n then [] else take n (x # xs) # windows n xs)"

definition source_from_rule :: "string \<Rightarrow> string option" where
  "source_from_rule txt =
     map_option hd (find (\<lambda>w. w ! 0 \<noteq> ''->'' \<and> w ! 1 = ''->'') (windows 2 (split_whitespace txt)))"

text \<open>\<open>split("->").nth(1)\<close>: what stands between the first arrow and the next one.\<close>

definition after_arrow :: "string \<Rightarrow> string option" where
  "after_arrow txt =
     map_option (\<lambda>i. let rest = drop (i + 2) txt in
                  case find_str ''->'' rest of None \<Rightarrow> rest | Some j \<Rightarrow> take j rest)
       (find_str ''->'' txt)"

definition target_from_rule :: "string \<Rightarrow> string option" where
  "target_from_rule txt =
     Option.bind (map_option compact_member_access (after_arrow txt))
       (\<lambda>right. case split_whitespace right of [] \<Rightarrow> None | w # _ \<Rightarrow> Some w)"

definition tenant_from_rule :: "string \<Rightarrow> string option" where
  "tenant_from_rule txt =
     map_option (\<lambda>w. w ! 2) (find (\<lambda>w. w ! 0 = ''for'' \<and> w ! 1 = ''tenant'') (windows 3 (split_whitespace txt)))"

definition trim_quotes :: "string \<Rightarrow> string" where
  "trim_quotes txt =
     unwrap_or txt (Option.bind (strip_prefix [CHR 0x22] txt) (strip_suffix [CHR 0x22]))"

definition to_ascii_uppercase :: "string \<Rightarrow> string" where
  "to_ascii_uppercase = map (\<lambda>c. if is_ascii_lower c then char_of (byte c - 32) else c)"

definition route_from_rule :: "string \<Rightarrow> policy_route_condition option" where
  "route_from_rule txt =
     map_option (\<lambda>w. \<lparr>condition_method = to_ascii_uppercase (w ! 2), condition_path = trim_quotes (w ! 3)\<rparr>)
       (find (\<lambda>w. w ! 0 = ''when'' \<and> w ! 1 = ''route'') (windows 4 (split_whitespace txt)))"

section \<open>Steps\<close>

text \<open>
  What every method does to the state: the tokens stay, the index does not go back or past the
  end, the code goes on to return when the tokens end with \<open>Eof\<close>, and diagnostics are only added,
  at the place of a token.
\<close>

definition valid :: "parser \<Rightarrow> bool" where
  "valid st \<longleftrightarrow> ps_tokens st \<noteq> [] \<and> ps_index st \<le> length (ps_tokens st)"

text \<open>The tokens end with \<open>Eof\<close>.\<close>

definition closed :: "token list \<Rightarrow> bool" where
  "closed ts \<longleftrightarrow> ts \<noteq> [] \<and> token_kind (last ts) = Eof"

lemma closed_past_end:
  "closed (ps_tokens st) \<Longrightarrow> \<not> ps_index st < length (ps_tokens st) \<Longrightarrow> peek_kind st = Eof"
  by (simp add: closed_def peek_kind_def peek_token_def)

definition steps :: "parser \<Rightarrow> parser \<Rightarrow> bool" where
  "steps st st' \<longleftrightarrow>
     ps_tokens st' = ps_tokens st \<and> ps_index st \<le> ps_index st' \<and> (ps_stuck st \<longrightarrow> ps_stuck st')
     \<and> (closed (ps_tokens st) \<longrightarrow> ps_stuck st' = ps_stuck st)
     \<and> (valid st \<longrightarrow> valid st' \<and> (\<forall>d \<in> set (ps_diagnostics st').
          d \<in> set (ps_diagnostics st) \<or> diag_span d \<in> span ` set (ps_tokens st)))"

named_theorems runs \<open>what the methods of the parser do to its state\<close>

lemma steps_refl [simp, intro]: "steps st st"
  by (simp add: steps_def)

lemma steps_trans: "steps st st' \<Longrightarrow> steps st' st'' \<Longrightarrow> steps st st''"
  by (auto simp: steps_def)

lemma steps_left: "steps st st' \<Longrightarrow> left st' \<le> left st"
  by (auto simp: steps_def left_def)

text \<open>A method that did not bring the parser nearer to the end leaves it at the same token.\<close>

lemma same_place:
  assumes "steps st st'" and "\<not> at_eof st" and "\<not> left st' < left st"
  shows "peek_kind st' = peek_kind st"
proof -
  have "\<not> ps_stuck st" using assms(2) by (auto simp: at_eof_def peek_kind_def)
  moreover from this have "\<not> ps_stuck st'" using assms(3) by (auto simp: left_def)
  ultimately have "length (ps_tokens st) - ps_index st \<le> length (ps_tokens st) - ps_index st'"
    using assms(1,3) by (simp add: left_def steps_def)
  with assms(1) have "ps_index st' = ps_index st
      \<or> \<not> ps_index st < length (ps_tokens st) \<and> \<not> ps_index st' < length (ps_tokens st)"
    by (auto simp: steps_def)
  with assms(1) have "peek_token st' = peek_token st" by (auto simp: peek_token_def steps_def)
  with \<open>\<not> ps_stuck st\<close> \<open>\<not> ps_stuck st'\<close> show ?thesis by (simp add: peek_kind_def)
qed

lemma steps_advance: "steps st (advance_token st)"
  using closed_past_end [of st] by (auto simp: steps_def advance_token_def valid_def)

lemma steps_step: "steps (advance_token st) st' \<Longrightarrow> steps st st'"
  by (rule steps_trans [OF steps_advance])

lemma peek_in_tokens: "valid st \<Longrightarrow> span (peek_token st) \<in> span ` set (ps_tokens st)"
  by (auto simp: valid_def peek_token_def)

lemma previous_in_tokens: "valid st \<Longrightarrow> previous_span st \<in> span ` set (ps_tokens st)"
proof -
  assume "valid st"
  then have "ps_index st - 1 < length (ps_tokens st)" by (cases "ps_tokens st") (auto simp: valid_def)
  then show ?thesis by (simp add: previous_span_def previous_token_def)
qed

lemma steps_push:
  "(valid st \<Longrightarrow> diag_span d \<in> span ` set (ps_tokens st)) \<Longrightarrow> steps st (push_error d st)"
  by (auto simp: steps_def push_error_def valid_def)

lemma diagnostic_spans [simp]:
  "diag_span (diagnostic_error code msg sp) = sp"
  "diag_span (with_help h d) = diag_span d" "diag_span (with_reason r d) = diag_span d"
  by (simp_all add: diagnostic_error_def with_help_def with_reason_def)

lemma steps_push_here: "steps st (push_error (diagnostic_error code msg (span (peek_token st))) st)"
  by (rule steps_push) (simp add: peek_in_tokens)

lemma progress_strict: "left st' < left st \<Longrightarrow> progress st st' = st'"
  by (simp add: progress_def)

lemma within_steps: "steps st st' \<Longrightarrow> within st st' = st'"
  by (simp add: within_def steps_left)

lemma steps_advance_until: "steps st (advance_until stop st)"
proof (induction stop st rule: advance_until.induct)
  case (1 stop st)
  then show ?case by (subst advance_until.simps) (auto intro: steps_step)
qed

lemma steps_match_newline: "steps st (match_newline st)"
  by (simp add: match_newline_def steps_advance)

lemma steps_skip_newlines: "steps st (skip_newlines st)"
  by (simp add: skip_newlines_def steps_advance_until)

lemma steps_skip_until_symbol: "steps st (skip_until_symbol s st)"
  by (simp add: skip_until_symbol_def steps_advance_until)

lemma steps_consume_line: "steps st (consume_line st)"
  unfolding consume_line_def by (rule steps_trans [OF steps_advance_until steps_match_newline])

lemma steps_synchronize: "steps st (synchronize_top_level st)"
  unfolding synchronize_top_level_def by (rule steps_trans [OF steps_advance_until steps_skip_newlines])

lemma steps_collect_line_loop: "steps st (snd (collect_line_loop stop t p b st))"
proof (induction stop t p b st rule: collect_line_loop.induct)
  case (1 stop t p b st)
  then show ?case by (subst collect_line_loop.simps) (auto intro: steps_step)
qed

lemma steps_collect_metadata_loop: "steps st (snd (collect_metadata_loop stop t st))"
proof (induction stop t st rule: collect_metadata_loop.induct)
  case (1 stop t st)
  then show ?case by (subst collect_metadata_loop.simps) (auto intro: steps_step)
qed

lemma steps_collect_symbol_loop: "steps st (snd (collect_symbol_loop stop t st))"
proof (induction stop t st rule: collect_symbol_loop.induct)
  case (1 stop t st)
  then show ?case by (subst collect_symbol_loop.simps) (auto intro: steps_step)
qed

lemma steps_collect_ident_loop: "steps st (snd (collect_ident_loop e stop t d st))"
proof (induction e stop t d st rule: collect_ident_loop.induct)
  case (1 e stop t d st)
  then show ?case by (subst collect_ident_loop.simps) (auto intro: steps_step)
qed

lemma steps_type_ref_loop: "steps st (snd (type_ref_loop raw d st))"
proof (induction raw d st rule: type_ref_loop.induct)
  case (1 raw d st)
  then show ?case by (subst type_ref_loop.simps) (auto intro: steps_step)
qed

lemma steps_collect:
  "steps st (snd (collect_until_line_or s st))" "steps st (snd (collect_until_metadata_or s st))"
  "steps st (snd (collect_until_symbol s st))" "steps st (snd (collect_until_ident_text e s st))"
  "steps st (snd (collect_type_ref st))"
  using steps_trans [OF steps_collect_line_loop [of st] steps_match_newline]
    steps_collect_metadata_loop [of st] steps_collect_symbol_loop [of st] steps_collect_ident_loop [of st]
    steps_type_ref_loop [of st]
  by (simp_all add: collect_until_line_or_def collect_until_metadata_or_def collect_until_symbol_def
      collect_until_ident_text_def collect_type_ref_def case_prod_beta)

lemma steps_match:
  "steps st (snd (match_symbol s st))" "steps st (snd (match_keyword k st))" "steps st (snd (match_ident_text e st))"
  by (simp_all add: match_symbol_def match_keyword_def match_ident_text_def steps_advance)

lemma steps_maybe_ident: "steps st (snd (maybe_ident st))"
  by (simp add: maybe_ident_def steps_advance split: token_kind.split)

lemma steps_expect:
  "steps st (snd (expect_ident msg st))" "steps st (snd (expect_string msg st))" "steps st (snd (expect_symbol s msg st))"
  by (auto simp: expect_ident_def maybe_ident_def expect_string_def expect_symbol_def
      intro: steps_advance steps_push_here split: token_kind.split)

lemma steps_result_type: "steps st (snd (result_type st))"
  using steps_step [OF steps_collect(5) [of "advance_token st"]]
  by (auto simp: result_type_def match_symbol_def case_prod_beta)

lemma steps_consume_label: "steps st (snd (consume_label l st))"
  using steps_step [OF steps_expect(1) [of "advance_token st"]] steps_advance [of st]
  by (auto simp: consume_label_def case_prod_beta split: option.split token_kind.split)

lemma steps_labels_until: "steps st (snd (labels_until stop l st))"
proof (induction stop l st rule: labels_until.induct)
  case (1 stop l st)
  obtain l' st' where c: "consume_label l st = (l', st')" by fastforce
  then have "steps st st'" using steps_consume_label [of st l] by simp
  then show ?case
    using 1 [OF _ c [symmetric]] c by (subst labels_until.simps) (auto intro: steps_trans)
qed

lemma steps_collect_labels: "steps st (snd (collect_labels_until_line_or s st))"
  by (simp add: collect_labels_until_line_or_def steps_labels_until)

lemma steps_parse_risk: "steps st (snd (parse_risk st))"
  using steps_maybe_ident [of st] by (simp add: parse_risk_def case_prod_beta split: option.split)

lemma steps_permission_parts: "steps st (snd (permission_parts parts st))"
proof (induction parts st rule: permission_parts.induct)
  case (1 parts st)
  obtain x st' where e: "expect_ident ''expected permission name after `.`'' (advance_token st) = (x, st')"
    by fastforce
  have "steps st st'"
    using steps_step [OF steps_expect(1) [of "advance_token st" "''expected permission name after `.`''"]] e
    by simp
  then show ?case
    using 1 [OF _ e [symmetric]] e
    by (subst permission_parts.simps) (auto intro: steps_trans split: option.split)
qed

lemma steps_permission_path: "steps st (snd (permission_path st))"
  using steps_trans [OF steps_expect(1) [of st] steps_permission_parts]
  by (auto simp: permission_path_def case_prod_beta split: option.split)

lemma steps_break: "steps st (snd (break_on_top_level_keyword kind st))"
  by (auto simp: break_on_top_level_keyword_def peek_in_tokens intro!: steps_push split: token_kind.split)

lemma steps_close_block: "steps st (snd (close_block msg r x st))"
  by (simp add: close_block_def case_prod_beta steps_expect)

text \<open>The rules for a state that has been reached from \<open>s\<close>, and for compositions.\<close>

lemma steps_after: "steps st st' \<Longrightarrow> steps s st \<Longrightarrow> steps s st'"
  by (rule steps_trans)

lemmas [runs] =
  steps_advance [THEN steps_after] steps_push_here [THEN steps_after] steps_advance_until [THEN
  steps_after] steps_match_newline [THEN steps_after] steps_skip_newlines [THEN steps_after]
  steps_skip_until_symbol [THEN steps_after] steps_consume_line [THEN steps_after]
  steps_synchronize [THEN steps_after] steps_collect [THEN steps_after] steps_match [THEN
  steps_after] steps_maybe_ident [THEN steps_after] steps_expect [THEN steps_after]
  steps_result_type [THEN steps_after] steps_consume_label [THEN steps_after] steps_labels_until
  [THEN steps_after] steps_collect_labels [THEN steps_after] steps_parse_risk [THEN steps_after]
  steps_permission_path [THEN steps_after] steps_break [THEN steps_after] steps_close_block [THEN
  steps_after]

lemma steps_andthen [runs]:
  assumes "steps s (snd (m st))" and "\<And>x st'. m st = (Some x, st') \<Longrightarrow> steps s st' \<Longrightarrow> steps s (snd (f x st'))"
  shows "steps s (snd (andthen m f st))"
  using assms by (cases "m st") (auto simp: andthen_def split: option.split)

lemma steps_calling [runs]:
  assumes "steps s (snd (m st))" and "\<And>x st'. m st = (x, st') \<Longrightarrow> steps s st' \<Longrightarrow> steps s (snd (f x st'))"
  shows "steps s (snd (calling m f st))"
  using assms by (cases "m st") (auto simp: calling_def)

lemma steps_returning [runs]: "steps s st \<Longrightarrow> steps s (snd (returning x st))"
  by (simp add: returning_def)

lemma steps_returning_None [runs]: "steps s st \<Longrightarrow> steps s (snd (None, st))" "steps s st \<Longrightarrow> steps s (snd (Some x, st))"
  by simp_all

lemma andthen_consumes:
  assumes "andthen m f st = (Some y, st'')" and "\<And>x st1. m st = (Some x, st1) \<Longrightarrow> left st1 < left st"
    and "\<And>x st1. steps st1 (snd (f x st1))"
  shows "left st'' < left st"
proof -
  obtain x st1 where m: "m st = (Some x, st1)" and f: "f x st1 = (Some y, st'')"
    using assms(1) by (auto simp: andthen_def split: prod.splits option.splits)
  have "left st'' \<le> left st1" using steps_left [OF assms(3) [of st1 x]] f by simp
  then show ?thesis using assms(2) [OF m] by simp
qed

text \<open>Where a token is consumed.\<close>

lemma expect_ident_consumes: "expect_ident msg st = (Some x, st') \<Longrightarrow> left st' < left st"
  by (auto simp: expect_ident_def maybe_ident_def at_eof_def intro!: left_advance_less
      split: token_kind.splits option.splits)

lemma expect_symbol_consumes: "expect_symbol s msg st = (Some x, st') \<Longrightarrow> left st' < left st"
  by (auto simp: expect_symbol_def dest: at_not_eof intro!: left_advance_less split: if_splits)

lemma consume_line_consumes:
  assumes "\<not> at_eof st"
  shows "left (consume_line st) < left st"
proof (cases "at_newline st")
  case True
  then show ?thesis
    using left_advance_less [OF assms] by (simp add: consume_line_def advance_until.simps match_newline_def)
next
  case False
  have "left (consume_line st) \<le> left (advance_until at_newline (advance_token st))"
    using steps_left [OF steps_match_newline] assms False
    by (simp add: consume_line_def advance_until.simps [of _ st])
  also have "\<dots> \<le> left (advance_token st)" by (rule steps_left [OF steps_advance_until])
  also have "\<dots> < left st" using assms by (rule left_advance_less)
  finally show ?thesis .
qed

lemma skip_newlines_same: "\<not> at_newline st \<Longrightarrow> skip_newlines st = st"
  by (simp add: skip_newlines_def advance_until.simps)

lemma advance_until_stops: "stop (advance_until stop st) \<or> at_eof (advance_until stop st)"
proof (induction stop st rule: advance_until.induct)
  case (1 stop st)
  then show ?case
    by (cases "stop st \<or> at_eof st") (simp_all add: advance_until.simps [of stop st])
qed

lemma skip_newlines_stops: "\<not> at_newline (skip_newlines st)"
  using advance_until_stops [of "\<lambda>st. \<not> at_newline st" st] at_not_eof(3) [of "skip_newlines st"]
  by (auto simp: skip_newlines_def)

text \<open>Over line breaks either nothing happened, or a token is gone.\<close>

lemma skip_newlines_consumes: "skip_newlines st \<noteq> st \<Longrightarrow> left (skip_newlines st) < left st"
proof -
  assume "skip_newlines st \<noteq> st"
  then have n: "at_newline st" using skip_newlines_same by blast
  then have "skip_newlines st = skip_newlines (advance_token st)"
    using at_not_eof(3) [OF n] by (simp add: skip_newlines_def advance_until.simps [of _ st])
  moreover have "left (skip_newlines (advance_token st)) \<le> left (advance_token st)"
    by (rule steps_left [OF steps_skip_newlines])
  ultimately show ?thesis using left_advance_less [OF at_not_eof(3) [OF n]] by simp
qed

lemma block_items_cong [fundef_cong]:
  assumes "kind = kind'" "acc = acc'" "st = st'"
    and "\<And>acc st1. left st1 \<le> left st' \<Longrightarrow> item acc st1 = item' acc st1"
  shows "block_items kind item acc st = block_items kind' item' acc' st'"
proof -
  have "(\<And>acc st1. left st1 \<le> left st \<Longrightarrow> item acc st1 = item' acc st1) \<Longrightarrow>
      block_items kind item acc st = block_items kind item' acc st"
  proof (induction kind item acc st rule: block_items.induct)
    case (1 kind item acc st)
    let ?s = "skip_newlines st"
    have r: "left st1 \<le> left st" if "break_on_top_level_keyword kind ?s = (b, st1)" for b st1
      using steps_left [OF steps_break [of ?s kind]] steps_left [OF steps_skip_newlines [of st]] that by simp
    have p: "left (progress st x) \<le> left st" if "\<not> at_eof st" for x
      using left_progress [OF that, of x] by simp
    show ?case
    proof (cases "at_symbol RBrace st \<or> at_eof st \<or> at_symbol RBrace ?s")
      case True
      then show ?thesis by (subst (1 2) block_items.simps) auto
    next
      case False
      obtain b st1 where b: "break_on_top_level_keyword kind ?s = (b, st1)" by fastforce
      have same: "item acc st1 = item' acc st1" using r [OF b] "1.prems" by blast
      have "block_items kind item x (progress st st2) = block_items kind item' x (progress st st2)"
        if "\<not> b" "item acc st1 = (Some x, st2)" for x st2
      proof (rule "1.IH")
        show "(False, st1) = break_on_top_level_keyword kind ?s" using b that(1) by simp
        show "(Some x, st2) = item acc st1" using that(2) by simp
        show "item acc st1' = item' acc st1'" if "left st1' \<le> left (progress st st2)" for acc st1'
          using that p [of st2] False "1.prems" by simp
      qed (use False that in auto)
      then show ?thesis
        using False b same
        by (subst (1 2) block_items.simps) (auto split: option.split prod.split bool.split)
    qed
  qed
  then show ?thesis using assms by simp
qed

text \<open>The loops never go round without a token consumed, if an item that is read consumes one.\<close>

lemma block_items_steps:
  assumes "\<And>acc st1. left st1 \<le> left st \<Longrightarrow> steps st1 (snd (item acc st1))"
    and "\<And>acc st1 x st2. left st1 \<le> left st \<Longrightarrow> \<not> at_eof st1 \<Longrightarrow> item acc st1 = (Some x, st2) \<Longrightarrow>
           left st2 < left st1"
  shows "steps st (snd (block_items kind item acc st))"
  using assms
proof (induction kind item acc st rule: block_items.induct)
  case (1 kind item acc st)
  let ?s = "skip_newlines st"
  show ?case
  proof (cases "at_symbol RBrace st \<or> at_eof st \<or> at_symbol RBrace ?s")
    case True
    then show ?thesis by (subst block_items.simps) (auto intro: steps_skip_newlines)
  next
    case False
    obtain b st1 where b: "break_on_top_level_keyword kind ?s = (b, st1)" by fastforce
    have s1: "steps st st1"
      using steps_trans [OF steps_skip_newlines steps_break [of ?s kind]] b by simp
    obtain r st2 where r: "item acc st1 = (r, st2)" by fastforce
    have s2: "steps st1 st2" using "1.prems"(1) [OF steps_left [OF s1], of acc] r by simp
    show ?thesis
    proof (cases "\<not> b \<and> r \<noteq> None")
      case True
      then obtain x where x: "r = Some x" and nb: "\<not> b" by auto
      have same: "left st1 = left ?s \<and> at_eof st1 = at_eof ?s"
        using b nb by (auto simp: break_on_top_level_keyword_def split: token_kind.splits if_splits)
      have less: "left st2 < left st"
      proof (cases "?s = st")
        case True
        then have "left st2 < left st1"
          using "1.prems"(2) [OF steps_left [OF s1] _ r [unfolded x]] same False by simp
        then show ?thesis using steps_left [OF s1] by simp
      next
        case False
        then show ?thesis using skip_newlines_consumes [OF False] same steps_left [OF s2] by simp
      qed
      have "steps (progress st st2) (snd (block_items kind item x (progress st st2)))"
      proof (rule "1.IH")
        show "(False, st1) = break_on_top_level_keyword kind ?s" using b nb by simp
        show "(Some x, st2) = item acc st1" using r x by simp
        show "steps st3 (snd (item acc st3))" if "left st3 \<le> left (progress st st2)" for acc st3
          using "1.prems"(1) that less by (simp add: progress_strict)
        show "left st4 < left st3"
          if "left st3 \<le> left (progress st st2)" "\<not> at_eof st3" "item acc st3 = (Some y, st4)" for acc st3 y st4
          using "1.prems"(2) [OF _ that(2,3)] that(1) less by (simp add: progress_strict)
      qed (use False in auto)
      then have "steps st (snd (block_items kind item x st2))"
        using steps_trans [OF s1 steps_trans [OF s2]] less by (simp add: progress_strict)
      then show ?thesis
        using False b nb r x less by (subst block_items.simps) (simp add: progress_strict)
    next
      case n: False
      then show ?thesis
        using False b r s1 steps_trans [OF s1 s2]
        by (subst block_items.simps) (cases b; auto)
    qed
  qed
qed

lemma header_items_steps:
  assumes "\<And>acc st. steps st (snd (item acc st))"
    and "\<And>acc st. \<not> at_eof st \<Longrightarrow> \<not> at_symbol LBrace st \<Longrightarrow> left (snd (item acc st)) < left st"
  shows "steps st (snd (header_items item acc st))"
proof (induction item acc st rule: header_items.induct [of "\<lambda>i acc st. i = item \<longrightarrow> steps st (snd (header_items i acc st))", rule_format])
  case (1 i acc st)
  then show ?case
    using assms(1) [of st acc] assms(2) [of st acc]
    by (subst header_items.simps) (auto simp: progress_strict intro: steps_trans)
qed simp

end
