(* ===== verification/Parser_Stmt.thy ===== *)
theory Parser_Stmt
  imports Parser_Base
begin

text \<open>
  \<open>num-compiler/src/parser.rs\<close>, the upper half: match patterns, statements, declarations and the
  module. Statements hold blocks of statements, so \<open>statement\<close>, \<open>block_body\<close> and the methods between
  them are defined together; every call down or round goes through \<open>progress\<close>.
\<close>

section \<open>Match patterns\<close>

definition opt_map :: "('a \<Rightarrow> 'b) \<Rightarrow> 'a option \<times> parser \<Rightarrow> 'b option \<times> parser" where
  "opt_map f r = (map_option f (fst r), snd r)"

definition opt_list :: "'a option \<Rightarrow> 'a list" where
  "opt_list x = (case x of None \<Rightarrow> [] | Some y \<Rightarrow> [y])"

text \<open>A binding up to its nested list: the field, the name and the nested type, whose brace is
  consumed.\<close>

definition binding_start :: "parser \<Rightarrow> (string \<times> string \<times> string option) option \<times> parser" where
  "binding_start =
     andthen (expect_ident ''expected field name in match pattern'') (\<lambda>fld st.
       if at_symbol Colon st then
         andthen (expect_ident ''expected binding name after `:` in match pattern'') (\<lambda>target st'.
           if at_symbol LBrace st' then (Some (fld, fld, Some target), advance_token st')
           else (Some (fld, target, None), st')) (advance_token st)
       else if at_symbol LBrace st then (Some (fld, fld, Some fld), advance_token st)
       else (Some (fld, fld, None), st))"

definition after_binding :: "parser \<Rightarrow> unit option \<times> parser" where
  "after_binding st =
     (let st' = skip_newlines st in
      if at_symbol Comma st' then (Some (), advance_token st')
      else if \<not> at_symbol RBrace st' then
        expect_symbol Comma ''expected `,` between match pattern bindings'' st'
      else (Some (), st'))"

function match_pattern_binding_list :: "match_binding list \<Rightarrow> parser \<Rightarrow> match_binding list option \<times> parser" where
  "match_pattern_binding_list bindings st =
     (let close = close_block ''expected `}` after match pattern bindings'' False bindings in
      if at_symbol RBrace st \<or> at_eof st then close st
      else if at_symbol RBrace (skip_newlines st) then close (skip_newlines st)
      else
        (case binding_start (skip_newlines st) of
           (None, st') \<Rightarrow> (None, st')
         | (Some (fld, name, nested_type), st') \<Rightarrow>
             (case (if nested_type = None then (Some [], st')
                    else match_pattern_binding_list [] (progress st st')) of
                (None, st'') \<Rightarrow> (None, st'')
              | (Some nested, st'') \<Rightarrow>
                  (case after_binding st'' of
                     (None, st3) \<Rightarrow> (None, st3)
                   | (Some _, st3) \<Rightarrow>
                       match_pattern_binding_list (bindings @ [MatchBinding fld name nested_type nested])
                         (progress st st3)))))"
  by pat_completeness auto
termination
  by (relation "measure (\<lambda>(b, st). left st)") (auto simp: left_progress)

declare match_pattern_binding_list.simps [simp del]

definition match_pattern_bindings :: "parser \<Rightarrow> match_binding list option \<times> parser" where
  "match_pattern_bindings st =
     (if at_symbol LBrace st then match_pattern_binding_list [] (advance_token st) else (Some [], st))"

definition match_pattern_payload :: "parser \<Rightarrow> match_payload option option \<times> parser" where
  "match_pattern_payload st =
     (if \<not> at_symbol LParen st then (Some None, st)
      else
        andthen (expect_ident ''expected payload binding in match pattern'') (\<lambda>target st1.
        andthen (\<lambda>st. if at_symbol LBrace st
                      then opt_map (Destructure target) (match_pattern_binding_list [] (advance_token st))
                      else (Some (Binding target), st)) (\<lambda>payload st2.
        opt_map (\<lambda>_. Some payload)
          (expect_symbol RParen ''expected `)` after match pattern payload'' st2)) st1) (advance_token st))"

definition match_pattern :: "parser \<Rightarrow> match_pattern option \<times> parser" where
  "match_pattern =
     andthen (expect_ident ''expected match pattern'') (\<lambda>pattern_name st.
       if pattern_name = ''_'' then (Some Wildcard, st)
       else andthen match_pattern_payload (\<lambda>payload st'.
              opt_map (Variant pattern_name payload) (match_pattern_bindings st')) st)"

lemma steps_opt_map [runs]: "steps s (snd r) \<Longrightarrow> steps s (snd (opt_map f r))"
  by (simp add: opt_map_def)

lemma opt_map_Some: "opt_map f r = (Some y, st) \<longleftrightarrow> (\<exists>x. r = (Some x, st) \<and> y = f x)"
  by (cases r) (auto simp: opt_map_def)

lemma steps_binding_start [runs]: "steps s st \<Longrightarrow> steps s (snd (binding_start st))"
  unfolding binding_start_def by (auto intro!: runs)

lemma binding_start_consumes: "binding_start st = (Some x, st') \<Longrightarrow> left st' < left st"
  unfolding binding_start_def
  by (erule andthen_consumes) (auto intro!: runs dest: expect_ident_consumes)

lemma steps_after_binding [runs]: "steps s st \<Longrightarrow> steps s (snd (after_binding st))"
  by (auto simp: after_binding_def Let_def intro!: runs)

lemma steps_progress: "steps s st' \<Longrightarrow> left st' < left st \<Longrightarrow> steps s (progress st st')"
  by (simp add: progress_strict)

lemma steps_match_pattern_binding_list [runs]:
  "steps s st \<Longrightarrow> steps s (snd (match_pattern_binding_list bindings st))"
proof (induction bindings st arbitrary: s rule: match_pattern_binding_list.induct)
  case (1 bindings st)
  let ?s = "skip_newlines st"
  show ?case
  proof (cases "at_symbol RBrace st \<or> at_eof st \<or> at_symbol RBrace ?s")
    case True
    then show ?thesis
      using "1.prems" by (subst match_pattern_binding_list.simps) (auto simp: Let_def intro!: runs)
  next
    case False
    obtain r st1 where b: "binding_start ?s = (r, st1)" by fastforce
    have s1: "steps s st1" "steps st st1"
      using steps_binding_start [of s ?s] steps_binding_start [of st ?s] b "1.prems"
      by (auto intro: runs)
    have less: "left st1 < left st" if "r = Some x" for x
      using binding_start_consumes [OF b [unfolded that]] steps_left [OF steps_skip_newlines [of st]] by simp
    show ?thesis
    proof (cases r)
      case None
      then show ?thesis using False b s1 by (subst match_pattern_binding_list.simps) (simp add: Let_def)
    next
      case (Some x)
      obtain fld name ty where x: "x = (fld, name, ty)" by (cases x)
      define n where "n = (if ty = None then (Some [], st1) else match_pattern_binding_list [] (progress st st1))"
      obtain nr st2 where n2: "n = (nr, st2)" by fastforce
      have s2: "steps s' st2" if "steps s' st1" for s'
        using n2 [unfolded n_def] "1.IH"(1) [OF refl _ _ b [symmetric] Some x [symmetric] refl, of s'] False that less [OF Some]
        by (cases ty) (auto simp: steps_progress)
      note st2 = s2 [OF s1(1)] s2 [OF s1(2)]
      have step: "steps s (snd (match_pattern_binding_list (bindings @ [MatchBinding fld name ty nested]) (progress st st3)))"
        if "nr = Some nested" "after_binding st2 = (Some u, st3)" for nested u st3
      proof -
        have "steps st2 st3" using steps_after_binding [OF steps_refl, of st2] that(2) by simp
        moreover from this have "left st3 < left st"
          using steps_left less [OF Some] steps_left [OF s2 [OF steps_refl]] by fastforce
        ultimately show ?thesis
          using "1.IH"(2) [OF refl _ _ b [symmetric] Some x [symmetric] refl n2 [unfolded n_def, symmetric] that(1) that(2) [symmetric]]
            False st2 by (auto intro: steps_progress steps_trans)
      qed
      obtain ar st3 where a: "after_binding st2 = (ar, st3)" by fastforce
      have s3: "steps s st3" using steps_after_binding [OF st2(1)] a by simp
      show ?thesis
        using False b Some x n2 [unfolded n_def] a s3 st2(1) step
        by (subst match_pattern_binding_list.simps) (auto simp: Let_def split: option.split)
    qed
  qed
qed

lemma steps_match_pattern [runs]: "steps s st \<Longrightarrow> steps s (snd (match_pattern st))"
  unfolding match_pattern_def match_pattern_payload_def match_pattern_bindings_def
  by (auto intro!: runs)

lemma match_pattern_consumes: "match_pattern st = (Some x, st') \<Longrightarrow> left st' < left st"
  unfolding match_pattern_def
  by (erule andthen_consumes)
    (auto simp: match_pattern_payload_def match_pattern_bindings_def intro!: runs dest: expect_ident_consumes)

section \<open>Statements without blocks\<close>

definition raw_line :: "span \<Rightarrow> parser \<Rightarrow> raw_expr \<times> parser" where
  "raw_line sp st =
     (case collect_until_line_or RBrace st of (txt, st') \<Rightarrow> (\<lparr>raw_text = txt, raw_span = sp\<rparr>, st'))"

definition raw_until :: "symbol \<Rightarrow> span \<Rightarrow> parser \<Rightarrow> raw_expr \<times> parser" where
  "raw_until stop sp st =
     (case collect_until_symbol stop st of (txt, st') \<Rightarrow> (\<lparr>raw_text = txt, raw_span = sp\<rparr>, st'))"

definition assert_stmt :: "parser \<Rightarrow> stmt option \<times> parser" where
  "assert_stmt st =
     (case raw_line (previous_span st) st of (e, st') \<Rightarrow>
        (Some (Assert_Stmt \<lparr>assert_expr = e, assert_span = previous_span st\<rparr>), st'))"

definition expect_workflow_stmt :: "workflow_expectation \<Rightarrow> parser \<Rightarrow> stmt option \<times> parser" where
  "expect_workflow_stmt outcome st =
     (case raw_line (previous_span st) st of (call, st') \<Rightarrow>
        (Some (ExpectWorkflow_Stmt
           \<lparr>expect_outcome = outcome, expect_call = call, expect_span = previous_span st\<rparr>), st'))"

definition expect_audit_stmt :: "parser \<Rightarrow> stmt option \<times> parser" where
  "expect_audit_stmt st =
     (case raw_line (previous_span st) st of (event, st') \<Rightarrow>
        (Some (ExpectAudit_Stmt \<lparr>audit_event = event, audit_span = previous_span st\<rparr>), st'))"

definition mock_ai_stmt :: "parser \<Rightarrow> stmt option \<times> parser" where
  "mock_ai_stmt st =
     (let sp = previous_span st in
      calling (raw_until FatArrow sp) (\<lambda>call.
      andthen (expect_symbol FatArrow ''expected `=>` after AI mock call'') (\<lambda>_.
      calling (collect_until_ident_text ''confidence'' RBrace) (\<lambda>val.
      calling (match_ident_text ''confidence'') (\<lambda>found st1.
      calling (raw_line sp) (\<lambda>confidence.
      returning (Some (MockAi_Stmt
        \<lparr>mock_call = call, mock_value = \<lparr>raw_text = val, raw_span = sp\<rparr>,
         mock_confidence = confidence, mock_span = sp\<rparr>)))
        (if found then st1
         else push_error (diagnostic_error ''N0101'' ''expected `confidence` in AI mock'' sp) st1))))) st)"

definition mock_ai_scan_stmt :: "parser \<Rightarrow> stmt option \<times> parser" where
  "mock_ai_scan_stmt st =
     (let sp = previous_span st in
      calling (raw_until FatArrow sp) (\<lambda>call.
      andthen (expect_symbol FatArrow ''expected `=>` after AI scanner mock call'') (\<lambda>_.
      andthen (expect_ident ''expected AI scanner outcome'') (\<lambda>outcome.
      calling (match_ident_text ''reason'') (\<lambda>found.
      calling (if found then calling (raw_line sp) (\<lambda>e. returning (Some e)) else returning None) (\<lambda>reason.
      returning (Some (MockAiScan_Stmt
        \<lparr>scan_call = call, scan_outcome = outcome, scan_reason = reason, scan_span = sp\<rparr>))))))) st)"

definition mock_connector_stmt :: "parser \<Rightarrow> stmt option \<times> parser" where
  "mock_connector_stmt st =
     (let sp = previous_span st in
      calling (raw_until FatArrow sp) (\<lambda>call.
      andthen (expect_symbol FatArrow ''expected `=>` after connector mock call'') (\<lambda>_.
      calling (raw_line sp) (\<lambda>val.
      returning (Some (MockConnector_Stmt
        \<lparr>connector_call = call, connector_value = val, connector_mock_span = sp\<rparr>))))) st)"

definition let_stmt :: "bool \<Rightarrow> parser \<Rightarrow> stmt option \<times> parser" where
  "let_stmt is_mutable st =
     (let sp = previous_span st in
      andthen (expect_ident ''expected binding name'') (\<lambda>name.
      calling (match_symbol Colon) (\<lambda>typed.
      calling (if typed then
                 calling collect_type_ref (\<lambda>ty.
                 calling (labels_until (\<lambda>st. at_symbol Eq st \<or> at_newline st \<or> at_symbol RBrace st) no_labels)
                   (\<lambda>l. returning (Some ty, l)))
               else returning (None, no_labels)) (\<lambda>(ty, l).
      calling (match_symbol Eq) (\<lambda>bound st1.
      calling (if bound then calling (raw_line (previous_span st1)) (\<lambda>e. returning (Some e))
               else returning None) (\<lambda>e.
      returning (Some (Let_Stmt
        \<lparr>let_mutable = is_mutable, let_name = name, let_ty = ty, let_labels = l, let_expr = e,
         let_span = sp\<rparr>))) st1)))) st)"

definition assignment_stmt :: "parser \<Rightarrow> stmt option \<times> parser" where
  "assignment_stmt st =
     (let sp = span (peek_token st) in
      andthen (expect_ident ''expected assignment target'') (\<lambda>name.
      andthen (expect_symbol Eq ''expected `=` in assignment'') (\<lambda>_.
      calling (raw_line sp) (\<lambda>e.
      returning (Some (Assign_Stmt \<lparr>assign_name = name, assign_expr = e, assign_span = sp\<rparr>))))) st)"

definition require_stmt :: "parser \<Rightarrow> stmt option \<times> parser" where
  "require_stmt st =
     (let sp = previous_span st in
      andthen permission_path (\<lambda>permission.
      calling (match_keyword Kw_For) (\<lambda>named.
      calling (if named then calling (collect_until_line_or RBrace) (\<lambda>txt. returning (Some txt))
               else (\<lambda>st. (None, consume_line st))) (\<lambda>actor.
      returning (Some (Require_Stmt
        \<lparr>require_permission = permission, require_actor = actor, require_span = sp\<rparr>))))) st)"

definition return_stmt :: "parser \<Rightarrow> stmt option \<times> parser" where
  "return_stmt st = calling (raw_line (previous_span st)) (\<lambda>e. returning (Some (Return_Stmt e))) st"

definition expr_stmt :: "parser \<Rightarrow> stmt option \<times> parser" where
  "expr_stmt st =
     calling (raw_line (span (peek_token st))) (\<lambda>e.
       returning (if trim (raw_text e) = [] then None else Some (Expr_Stmt e))) st"

lemma steps_raw [runs]:
  "steps s st \<Longrightarrow> steps s (snd (raw_line sp st))" "steps s st \<Longrightarrow> steps s (snd (raw_until stop sp st))"
  by (auto simp: raw_line_def raw_until_def case_prod_beta intro!: runs)

lemma steps_push_span [runs]:
  "steps s st \<Longrightarrow> (valid s \<Longrightarrow> sp \<in> span ` set (ps_tokens s)) \<Longrightarrow>
     steps s (push_error (diagnostic_error code msg sp) st)"
  by (auto simp: steps_def push_error_def valid_def)

lemma previous_reached: "steps s st \<Longrightarrow> valid s \<Longrightarrow> previous_span st \<in> span ` set (ps_tokens s)"
  using previous_in_tokens [of st] by (auto simp: steps_def)

lemma steps_simple_stmts [runs]:
  "steps s st \<Longrightarrow> steps s (snd (assert_stmt st))" "steps s st \<Longrightarrow> steps s (snd (expect_workflow_stmt w st))"
  "steps s st \<Longrightarrow> steps s (snd (expect_audit_stmt st))"
  "steps s st \<Longrightarrow> steps s (snd (mock_ai_scan_stmt st))" "steps s st \<Longrightarrow> steps s (snd (mock_connector_stmt st))"
  "steps s st \<Longrightarrow> steps s (snd (let_stmt m st))" "steps s st \<Longrightarrow> steps s (snd (assignment_stmt st))"
  "steps s st \<Longrightarrow> steps s (snd (require_stmt st))" "steps s st \<Longrightarrow> steps s (snd (return_stmt st))"
  "steps s st \<Longrightarrow> steps s (snd (expr_stmt st))"
  unfolding assert_stmt_def expect_workflow_stmt_def expect_audit_stmt_def mock_ai_scan_stmt_def
    mock_connector_stmt_def let_stmt_def assignment_stmt_def require_stmt_def return_stmt_def expr_stmt_def Let_def
    case_prod_beta
  by (auto intro!: runs)

lemma steps_mock_ai_stmt [runs]: "steps s st \<Longrightarrow> steps s (snd (mock_ai_stmt st))"
  unfolding mock_ai_stmt_def Let_def by (auto intro!: runs previous_reached)

section \<open>Statements\<close>

text \<open>The span of a guard is that of the last token of it: it is asked for after the text.\<close>

definition match_guard :: "parser \<Rightarrow> raw_expr option \<times> parser" where
  "match_guard st =
     (if at_keyword Kw_If st
      then (case collect_until_symbol FatArrow (advance_token st) of (txt, st') \<Rightarrow>
              (Some \<lparr>raw_text = txt, raw_span = previous_span st'\<rparr>, st'))
      else (None, st))"

lemma steps_match_guard [runs]: "steps s st \<Longrightarrow> steps s (snd (match_guard st))"
  unfolding match_guard_def case_prod_beta by (auto intro!: runs)

lemma left_after:
  "(x, st') = raw_until stop sp st \<Longrightarrow> left st' \<le> left st"
  "(u, st') = expect_symbol sy msg st \<Longrightarrow> left st' \<le> left st"
  "(p, st') = match_pattern st \<Longrightarrow> left st' \<le> left st"
  "(g, st') = match_guard st \<Longrightarrow> left st' \<le> left st"
  using steps_left [OF steps_raw(2) [OF steps_refl]] steps_left [OF steps_expect(3)]
    steps_left [OF steps_match_pattern [OF steps_refl]] steps_left [OF steps_match_guard [OF steps_refl]]
  by (metis snd_conv)+

lemma weights:
  "a \<le> b \<Longrightarrow> 10 * a < 3 + 10 * (b :: nat)" "a \<le> b \<Longrightarrow> 10 * a < Suc (10 * (b :: nat))"
  "a \<le> b \<Longrightarrow> 10 * a < Suc (Suc (10 * (b :: nat)))" "a < b \<Longrightarrow> 4 + 10 * a < 10 * (b :: nat)"
  by simp_all

text \<open>A block that a body must follow: the brace, then the statements.\<close>

function statement :: "parser \<Rightarrow> stmt option \<times> parser"
  and block_body :: "parser \<Rightarrow> stmt list \<times> parser"
  and braced_block :: "string \<Rightarrow> parser \<Rightarrow> stmt list option \<times> parser"
  and if_stmt :: "parser \<Rightarrow> stmt option \<times> parser"
  and match_stmt :: "parser \<Rightarrow> stmt option \<times> parser"
  and match_arm :: "parser \<Rightarrow> match_arm option \<times> parser"
where
  "statement st =
     (let st' = advance_token st; sp = previous_span st' in
      if at_keyword Kw_Let st then let_stmt False st'
      else if at_keyword Kw_Var st then let_stmt True st'
      else if at_keyword Kw_Assert st then assert_stmt st'
      else if at_ident_text ''expect_deny'' st then
        opt_map (\<lambda>body. ExpectPolicy_Stmt Policy_Deny body sp)
          (braced_block ''expected `{` after policy expectation'' st')
      else if at_ident_text ''expect_allow'' st then
        opt_map (\<lambda>body. ExpectPolicy_Stmt Policy_Allow body sp)
          (braced_block ''expected `{` after policy expectation'' st')
      else if at_ident_text ''expect_workflow_success'' st then expect_workflow_stmt Workflow_Success st'
      else if at_ident_text ''expect_workflow_failure'' st then expect_workflow_stmt Workflow_Failure st'
      else if at_ident_text ''expect_audit'' st then expect_audit_stmt st'
      else if at_ident_text ''mock_ai_scan'' st then mock_ai_scan_stmt st'
      else if at_ident_text ''mock_ai'' st then mock_ai_stmt st'
      else if at_ident_text ''mock_connector'' st then mock_connector_stmt st'
      else if at_keyword Kw_Require st then require_stmt st'
      else if at_keyword Kw_Transaction st then
        opt_map (\<lambda>body. Transaction_Stmt (at_keyword Kw_Saga st') body sp)
          (braced_block ''expected transaction body''
            (if at_keyword Kw_Saga st' then advance_token st' else st'))
      else if at_keyword Kw_Scope st then
        opt_map (\<lambda>body. Scope_Stmt body sp) (braced_block ''expected scope body'' st')
      else if at_keyword Kw_If st then if_stmt st'
      else if at_keyword Kw_Match st then match_stmt st'
      else if at_keyword Kw_Return st then return_stmt st'
      else if starts_assignment st then assignment_stmt st
      else expr_stmt st)"
| "block_body st =
     (case block_items ''block'' (\<lambda>body st.
             (case statement st of
                (Some s, st') \<Rightarrow> (Some (body @ [s]), st')
              | (None, st') \<Rightarrow> (Some body, consume_line st'))) [] st of
        (Some (body, recovered), st') \<Rightarrow>
          (body, if recovered then st' else snd (expect_symbol RBrace ''expected `}` after block'' st'))
      | (None, st') \<Rightarrow> ([], st'))"
| "braced_block msg st =
     (if at_symbol LBrace st then (case block_body (advance_token st) of (body, st') \<Rightarrow> (Some body, st'))
      else (None, snd (expect_symbol LBrace msg st)))"
| "if_stmt st =
     (case raw_until LBrace (previous_span st) st of (condition, st1) \<Rightarrow>
      (case braced_block ''expected `{` after if condition'' st1 of
         (None, st2) \<Rightarrow> (None, st2)
       | (Some then_body, st2) \<Rightarrow>
           (case (if at_keyword Kw_Else st2
                  then braced_block ''expected `{` after else'' (within st (advance_token st2))
                  else (Some [], st2)) of
              (None, st3) \<Rightarrow> (None, st3)
            | (Some else_body, st3) \<Rightarrow>
                (Some (If_Stmt condition then_body else_body (previous_span st)), st3))))"
| "match_stmt st =
     (case raw_until LBrace (previous_span st) st of (e, st1) \<Rightarrow>
      (case expect_symbol LBrace ''expected `{` after match expression'' st1 of
         (None, st2) \<Rightarrow> (None, st2)
       | (Some _, st2) \<Rightarrow>
           (case block_items ''match'' (\<lambda>arms st.
                   (case match_arm st of
                      (Some arm, st') \<Rightarrow> (Some (arms @ [arm]), st')
                    | (None, st') \<Rightarrow> (Some arms, consume_line st'))) [] st2 of
              (Some (arms, recovered), st3) \<Rightarrow>
                opt_map (\<lambda>arms. Match_Stmt e arms (previous_span st))
                  (close_block ''expected `}` after match arms'' recovered arms st3)
            | (None, st3) \<Rightarrow> (None, st3))))"
| "match_arm st =
     (case match_pattern st of
        (None, st1) \<Rightarrow> (None, st1)
      | (Some pattern, st1) \<Rightarrow>
          (case match_guard st1 of (guard, st2) \<Rightarrow>
           (case expect_symbol FatArrow ''expected `=>` after match pattern'' st2 of
              (None, st3) \<Rightarrow> (None, st3)
            | (Some _, st3) \<Rightarrow>
                opt_map (\<lambda>body. MatchArm pattern guard body (span (peek_token st)))
                  (braced_block ''expected `{` after match arm'' st3))))"
  by pat_completeness auto
termination
  apply (relation "measure
    (case_sum (case_sum (\<lambda>st. 10 * left st + 5) (case_sum (\<lambda>st. 10 * left st + 6) (\<lambda>(msg, st). 10 * left st + 2)))
      (case_sum (\<lambda>st. 10 * left st + 4) (case_sum (\<lambda>st. 10 * left st + 4) (\<lambda>st. 10 * left st + 3))))")
  apply (simp_all split del: if_split)
  apply (auto dest!: left_after at_not_eof(1) intro!: weights left_advance left_within left_advance_less
    split del: if_split)
  apply (auto intro: le_trans [OF left_advance left_advance] left_advance)
  done

declare statement.simps [simp del] block_body.simps [simp del] braced_block.simps [simp del]
  if_stmt.simps [simp del] match_stmt.simps [simp del] match_arm.simps [simp del]

lemma after_keyword: "\<not> at_eof st \<Longrightarrow> steps (advance_token st) st' \<Longrightarrow> steps st st' \<and> left st' < left st"
  using left_advance_less [of st] steps_left [of "advance_token st" st'] steps_step by fastforce

lemma collect_line_consumes:
  assumes "fst (collect_until_line_or s st) \<noteq> []"
  shows "left (snd (collect_until_line_or s st)) < left st"
proof -
  have a: "\<not> (at_eof st \<or> (at_newline st \<or> at_symbol s st))"
    using assms by (auto simp: collect_until_line_or_def collect_line_loop.simps [of s "[]" 0 0 st] trim_def)
  then have "steps (advance_token st) (snd (collect_until_line_or s st))"
    using steps_trans [OF steps_collect_line_loop steps_match_newline, of "advance_token st"]
    by (simp add: collect_until_line_or_def collect_line_loop.simps [of s "[]" 0 0 st] case_prod_beta)
  then show ?thesis using a after_keyword by blast
qed

lemma expr_stmt_consumes:
  assumes "fst (expr_stmt st) \<noteq> None"
  shows "left (snd (expr_stmt st)) < left st"
proof -
  have t: "trim [] = []" by (simp add: trim_def)
  have "fst (collect_until_line_or RBrace st) \<noteq> []"
    using assms t by (auto simp: expr_stmt_def calling_def raw_line_def returning_def split: prod.splits if_splits)
  from collect_line_consumes [OF this] show ?thesis
    by (simp add: expr_stmt_def calling_def raw_line_def returning_def case_prod_beta)
qed

lemma assignment_stmt_consumes:
  "fst (assignment_stmt st) \<noteq> None \<Longrightarrow> left (snd (assignment_stmt st)) < left st"
proof -
  assume a: "fst (assignment_stmt st) \<noteq> None"
  obtain x st' where r: "assignment_stmt st = (Some x, st')" using a by (cases "assignment_stmt st") auto
  then have "left st' < left st"
    unfolding assignment_stmt_def Let_def
    by (rule andthen_consumes) (auto intro!: runs dest: expect_ident_consumes)
  then show ?thesis using r by simp
qed

lemma consume_line_after:
  assumes "steps st st'" and "\<not> at_eof st"
  shows "left (consume_line st') < left st"
proof (cases "at_eof st'")
  case True
  then have "left st' < left st" using same_place [OF assms] assms(2) by (auto simp: at_eof_def)
  then show ?thesis
    using steps_left [OF assms(1)] steps_left [OF steps_consume_line [of st']] by simp
next
  case False
  then show ?thesis using consume_line_consumes [OF False] steps_left [OF assms(1)] by simp
qed

definition moves :: "(parser \<Rightarrow> 'a option \<times> parser) \<Rightarrow> parser \<Rightarrow> bool" where
  "moves m st \<longleftrightarrow> steps st (snd (m st)) \<and> (fst (m st) \<noteq> None \<longrightarrow> left (snd (m st)) < left st)"

lemma movesI: "\<not> at_eof st \<Longrightarrow> steps (advance_token st) (snd (m st)) \<Longrightarrow> moves m st"
  using after_keyword by (auto simp: moves_def)

text \<open>An item that is read is kept, after one that is not the rest of the line is skipped.\<close>

definition keep_item :: "(parser \<Rightarrow> 'a option \<times> parser) \<Rightarrow> 'a list \<Rightarrow> parser \<Rightarrow> 'a list option \<times> parser" where
  "keep_item m acc st =
     (case m st of (Some x, st') \<Rightarrow> (Some (acc @ [x]), st') | (None, st') \<Rightarrow> (Some acc, consume_line st'))"

lemma keep_item_steps:
  assumes "moves m st"
  shows "steps st (snd (keep_item m acc st))"
    and "\<not> at_eof st \<Longrightarrow> keep_item m acc st = (r, st'') \<Longrightarrow> left st'' < left st"
  using assms(1) consume_line_after [of st "snd (m st)"]
  by (auto simp: keep_item_def moves_def intro: steps_trans [OF _ steps_consume_line] split: prod.splits option.splits)

lemma block_of_items_steps:
  assumes "\<And>st1. left st1 \<le> left st \<Longrightarrow> moves m st1"
  shows "steps st (snd (block_items kind (keep_item m) acc st))"
  using keep_item_steps assms by (intro block_items_steps) fastforce+

lemma steps_if:
  "(b \<Longrightarrow> steps s (snd x)) \<Longrightarrow> (\<not> b \<Longrightarrow> steps s (snd y)) \<Longrightarrow> steps s (snd (if b then x else y))"
  by simp

lemma parser_moves:
  shows "moves statement st"
    and "steps st (snd (block_body st))"
    and "steps st (snd (braced_block msg st))"
    and "steps st (snd (if_stmt st))"
    and "steps st (snd (match_stmt st))"
    and "moves match_arm st"
proof (induction st and st and msg st and st and st and st
    rule: statement_block_body_braced_block_if_stmt_match_stmt_match_arm.induct)
  case (1 st)
  define a where "a = advance_token st"
  define t where "t = (if at_keyword Kw_Saga a then advance_token a else a)"
  have t: "steps a t" by (simp add: t_def steps_advance)
  note IH = "1.IH" [OF refl refl, folded a_def, folded t_def, THEN steps_after]
  define word where "word \<longleftrightarrow> at_keyword Kw_Let st \<or> at_keyword Kw_Var st \<or> at_keyword Kw_Assert st
      \<or> at_ident_text ''expect_deny'' st
      \<or> at_ident_text ''expect_allow'' st \<or> at_ident_text ''expect_workflow_success'' st
      \<or> at_ident_text ''expect_workflow_failure'' st \<or> at_ident_text ''expect_audit'' st
      \<or> at_ident_text ''mock_ai_scan'' st \<or> at_ident_text ''mock_ai'' st \<or> at_ident_text ''mock_connector'' st
      \<or> at_keyword Kw_Require st \<or> at_keyword Kw_Transaction st \<or> at_keyword Kw_Scope st \<or> at_keyword Kw_If st
      \<or> at_keyword Kw_Match st \<or> at_keyword Kw_Return st"
  show ?case
  proof (cases word)
    case True
    then have "\<not> at_eof st" using at_not_eof unfolding word_def by blast
    moreover have "steps a (snd (statement st))"
      apply (unfold statement.simps [of st] Let_def a_def [symmetric] t_def [symmetric])
      apply (intro steps_if)
      apply (auto intro!: runs intro: IH t)[17]
      using True unfolding word_def apply simp_all
      done
    ultimately show ?thesis unfolding a_def by (rule movesI)
  next
    case False
    then have "statement st = (if starts_assignment st then assignment_stmt st else expr_stmt st)"
      unfolding word_def statement.simps [of st] Let_def by simp
    then show ?thesis
      using assignment_stmt_consumes [of st] expr_stmt_consumes [of st]
      by (auto simp: moves_def intro: runs)
  qed
next
  case (2 st)
  have b: "steps st (snd (block_items ''block'' (keep_item statement) [] st))"
    using 2 by (intro block_of_items_steps) simp
  have k: "(\<lambda>body st. case statement st of (Some s, st') \<Rightarrow> (Some (body @ [s]), st')
                       | (None, st') \<Rightarrow> (Some body, consume_line st')) = keep_item statement"
    by (intro ext) (simp add: keep_item_def)
  obtain r st1 where r: "block_items ''block'' (keep_item statement) [] st = (r, st1)" by fastforce
  then have s1: "steps st st1" using b by simp
  then have "steps st (snd (expect_symbol RBrace msg st1))" for msg by (rule steps_expect(3) [THEN steps_after])
  then show ?case
    unfolding block_body.simps [of st] k r using s1 by (cases r) (auto split: prod.split)
next
  case (3 msg st)
  then show ?case
    using steps_expect(3) [of st LBrace msg]
    by (subst braced_block.simps) (simp add: case_prod_beta steps_step)
next
  case (4 st)
  obtain c st1 where c: "raw_until LBrace (previous_span st) st = (c, st1)" by fastforce
  obtain t st2 where t: "braced_block ''expected `{` after if condition'' st1 = (t, st2)" by fastforce
  have s1: "steps st st1" using steps_raw(2) [of st st LBrace "previous_span st"] c by simp
  have s2: "steps st st2" using "4.IH"(1) [OF c [symmetric]] t s1 steps_trans by fastforce
  have a: "within st (advance_token st2) = advance_token st2"
    using s2 steps_advance by (intro within_steps) (rule steps_trans)
  have "steps st (snd (braced_block ''expected `{` after else'' (advance_token st2)))"
    if "t = Some then_body" "at_keyword Kw_Else st2" for then_body
    using "4.IH"(2) [OF c [symmetric] t [symmetric] that] s2 a by (auto intro: steps_trans steps_step)
  then show ?case
    using c t s2 a by (subst if_stmt.simps) (auto simp: case_prod_beta split: option.split)
next
  case (5 st)
  obtain c st1 where c: "raw_until LBrace (previous_span st) st = (c, st1)" by fastforce
  have s1: "steps st st1" using steps_raw(2) [of st st LBrace "previous_span st"] c by simp
  obtain u st2 where u: "expect_symbol LBrace ''expected `{` after match expression'' st1 = (u, st2)" by fastforce
  have s2: "steps st st2"
    using s1 steps_expect(3) [THEN steps_after, of st st1 LBrace "''expected `{` after match expression''"] u by simp
  have k: "(\<lambda>arms st. case match_arm st of (Some arm, st') \<Rightarrow> (Some (arms @ [arm]), st')
                       | (None, st') \<Rightarrow> (Some arms, consume_line st')) = keep_item match_arm"
    by (intro ext) (simp add: keep_item_def)
  have "steps st2 (snd (block_items ''match'' (keep_item match_arm) [] st2))" if "u = Some x" for x
    using "5.IH" [OF c [symmetric] u [symmetric] that] by (intro block_of_items_steps) simp
  then have "steps st (snd (block_items ''match'' (keep_item match_arm) [] st2))" if "u = Some x" for x
    using s2 that steps_trans by blast
  then show ?case
    using c u s2 unfolding match_stmt.simps [of st] k
    by (auto simp: case_prod_beta intro!: runs split: option.split)
next
  case (6 st)
  obtain p st1 where p: "match_pattern st = (p, st1)" by fastforce
  obtain g st2 where g: "match_guard st1 = (g, st2)" by fastforce
  obtain u st3 where u: "expect_symbol FatArrow ''expected `=>` after match pattern'' st2 = (u, st3)" by fastforce
  have s1: "steps st st1" using steps_match_pattern [of st st] p by simp
  have s12: "steps st1 st2" using steps_match_guard [of st1 st1] g by simp
  have s23: "steps st2 st3"
    using steps_expect(3) [of st2 FatArrow "''expected `=>` after match pattern''"] u by simp
  have b: "steps st3 (snd (braced_block ''expected `{` after match arm'' st3))"
    if "p = Some pattern" "u = Some x" for pattern x
    using "6.IH" [OF p [symmetric] that(1) g [symmetric] u [symmetric] that(2)] .
  note s = s1 s12 s23 b
  have "steps st (snd (match_arm st))"
    using p g u s1 steps_trans [OF s1 s12] steps_trans [OF steps_trans [OF s1 s12] s23] steps_trans b
    by (subst match_arm.simps) (auto intro!: runs split: option.split)
  moreover have "left (snd (match_arm st)) < left st" if m: "fst (match_arm st) \<noteq> None"
  proof -
    obtain pattern where pat: "p = Some pattern" using m p by (cases p) (simp_all add: match_arm.simps [of st])
    have "steps st1 (snd (match_arm st))"
      using p g u pat s12 steps_trans [OF s12 s23] steps_trans b
      by (subst match_arm.simps) (auto intro!: runs split: option.split)
    then show ?thesis using match_pattern_consumes [OF p [unfolded pat]] steps_left by fastforce
  qed
  ultimately show ?case by (simp add: moves_def)
qed

end
