(* ===== verification/Parser_Decl.thy ===== *)
theory Parser_Decl
  imports Parser_Stmt
begin

text \<open>
  \<open>num-compiler/src/parser.rs\<close>, the methods for declarations and for the module. \<open>callable_decl\<close> is
  only called with \<open>action_signature = false\<close>, so the parameter and the break it guards are left out.
\<close>

section \<open>Declarations without statements\<close>

definition named_line_decl :: "parser \<Rightarrow> permission_decl option \<times> parser" where
  "named_line_decl st =
     andthen (expect_ident ''expected permission name'') (\<lambda>name st'.
       (Some \<lparr>permission_name = name, permission_span = previous_span st\<rparr>, consume_line st')) st"

definition role_item :: "string list \<Rightarrow> parser \<Rightarrow> string list option \<times> parser" where
  "role_item allows st =
     (if at_keyword Kw_Allow st then
        (case expect_ident ''expected permission after allow'' (advance_token st) of
           (allowed, st') \<Rightarrow> (Some (allows @ opt_list allowed), st'))
      else (Some allows, advance_token st))"

definition role_decl :: "parser \<Rightarrow> role_decl option \<times> parser" where
  "role_decl st =
     andthen (expect_ident ''expected role name'') (\<lambda>name.
     andthen (expect_symbol LBrace ''expected `{` after role name'') (\<lambda>_.
     andthen (block_items ''role'' role_item []) (\<lambda>(allows, recovered).
     close_block ''expected `}` after role body'' recovered
       \<lparr>role_name = name, role_allows = allows, role_span = previous_span st\<rparr>))) st"

definition policy_rule_of :: "policy_effect \<Rightarrow> string \<Rightarrow> span \<Rightarrow> policy_rule" where
  "policy_rule_of effect raw sp =
     \<lparr>rule_effect = effect, rule_privacy = privacy_from_text raw, rule_trust = trust_from_text raw,
      rule_source = source_from_rule raw, rule_target = target_from_rule raw,
      rule_tenant = tenant_from_rule raw, rule_route = route_from_rule raw, rule_raw = raw, rule_span = sp\<rparr>"

definition policy_item :: "policy_rule list \<Rightarrow> parser \<Rightarrow> policy_rule list option \<times> parser" where
  "policy_item rules st =
     (if at_keyword Kw_Allow st \<or> at_keyword Kw_Deny st then
        (case collect_until_line_or RBrace (advance_token st) of (raw, st') \<Rightarrow>
           (Some (rules @ [policy_rule_of (if at_keyword Kw_Allow st then Effect_Allow else Effect_Deny) raw
                             (previous_span (advance_token st))]), st'))
      else (Some rules, advance_token st))"

definition policy_decl :: "parser \<Rightarrow> policy_decl option \<times> parser" where
  "policy_decl st =
     andthen (expect_ident ''expected policy name'') (\<lambda>name.
     andthen (expect_symbol LBrace ''expected `{` after policy name'') (\<lambda>_.
     andthen (block_items ''policy'' policy_item []) (\<lambda>(rules, recovered).
     close_block ''expected `}` after policy body'' recovered
       \<lparr>policy_name = name, policy_rules = rules, policy_span = previous_span st\<rparr>))) st"

text \<open>\<open>generic_params\<close>: the loop, and the brackets around it. A missing \<open>>\<close> is reported, no more.\<close>

function generic_param_loop :: "string list \<Rightarrow> parser \<Rightarrow> string list \<times> parser" where
  "generic_param_loop params st =
     (if at_symbol Gt st \<or> at_eof st then (params, st)
      else
        (case expect_ident ''expected generic parameter name'' st of (r, st1) \<Rightarrow>
         let st2 = (if r = None then advance_token st1 else st1) in
         if at_symbol Comma st2
         then generic_param_loop (params @ opt_list r) (progress st (advance_token st2))
         else (params @ opt_list r, st2)))"
  by pat_completeness auto
termination
  by (relation "measure (\<lambda>(params, st). left st)") (auto simp: left_progress)

declare generic_param_loop.simps [simp del]

definition generic_params :: "parser \<Rightarrow> string list \<times> parser" where
  "generic_params st =
     (if at_symbol Lt st then
        (case generic_param_loop [] (advance_token st) of (params, st') \<Rightarrow>
           (params, snd (expect_symbol Gt ''expected `>` after generic parameter list'' st')))
      else ([], st))"

definition type_item :: "field list \<Rightarrow> parser \<Rightarrow> field list option \<times> parser" where
  "type_item flds st =
     (case expect_ident ''expected field name'' st of
        (None, st1) \<Rightarrow> (Some flds, advance_token st1)
      | (Some name, st1) \<Rightarrow>
          andthen (expect_symbol Colon ''expected `:` after field name'') (\<lambda>_.
          calling collect_type_ref (\<lambda>ty.
          calling (collect_labels_until_line_or RBrace) (\<lambda>l st2.
          (Some (flds @ [\<lparr>field_name = name, field_ty = ty, field_labels = l,
                            field_span = span (peek_token st)\<rparr>]), consume_line st2)))) st1)"

definition type_decl :: "parser \<Rightarrow> type_decl option \<times> parser" where
  "type_decl st =
     andthen (expect_ident ''expected type name'') (\<lambda>name.
     calling generic_params (\<lambda>params.
     calling (match_symbol Eq) (\<lambda>is_alias.
       if is_alias then
         calling collect_type_ref (\<lambda>alias st'.
           (Some \<lparr>type_name = name, type_generic_params = params, type_body = Alias_Body alias,
                  type_span = previous_span st\<rparr>, consume_line st'))
       else
         (\<lambda>st1. andthen (expect_symbol LBrace ''expected `{` after type name'') (\<lambda>_.
           andthen (block_items ''type'' type_item []) (\<lambda>(flds, recovered).
           close_block ''expected `}` after type body'' recovered
             \<lparr>type_name = name, type_generic_params = params, type_body = Struct_Body flds,
              type_span = previous_span st\<rparr>)) (skip_until_symbol LBrace st1))))) st"

definition enum_item :: "enum_variant list \<Rightarrow> parser \<Rightarrow> enum_variant list option \<times> parser" where
  "enum_item variants st =
     (case maybe_ident st of
        (None, st1) \<Rightarrow> (Some variants, advance_token st1)
      | (Some name, st1) \<Rightarrow>
          calling (\<lambda>s. if at_symbol LParen s then
              (case collect_type_ref (advance_token s) of (ty, s') \<Rightarrow>
                 (Some ty, snd (expect_symbol RParen ''expected `)` after enum variant payload'' s')))
            else (None, s)) (\<lambda>payload.
          returning (Some (variants @ [\<lparr>variant_name = name, variant_payload = payload,
                                        variant_span = span (peek_token st)\<rparr>]))) st1)"

definition enum_decl :: "parser \<Rightarrow> enum_decl option \<times> parser" where
  "enum_decl st =
     andthen (expect_ident ''expected enum name'') (\<lambda>name.
     andthen (expect_symbol LBrace ''expected `{` after enum name'') (\<lambda>_.
     andthen (block_items ''enum'' enum_item []) (\<lambda>(variants, recovered).
     close_block ''expected `}` after enum body'' recovered
       \<lparr>enum_name = name, enum_variants = variants, enum_span = previous_span st\<rparr>))) st"

section \<open>Parameters\<close>

function param_loop :: "param list \<Rightarrow> parser \<Rightarrow> param list option \<times> parser" where
  "param_loop params st =
     (if at_symbol RParen st \<or> at_eof st then (Some params, st)
      else
        (case expect_ident ''expected parameter name'' (skip_newlines st) of
           (None, st1) \<Rightarrow> param_loop params (progress st (advance_token st1))
         | (Some name, st1) \<Rightarrow>
             (case expect_symbol Colon ''expected `:` after parameter name'' st1 of
                (None, st2) \<Rightarrow> (None, st2)
              | (Some _, st2) \<Rightarrow>
                  (case collect_type_ref st2 of (ty, st3) \<Rightarrow>
                   (case labels_until (\<lambda>st. at_symbol Comma st \<or> at_symbol RParen st) no_labels st3 of
                      (l, st4) \<Rightarrow>
                        param_loop
                          (params @ [\<lparr>param_name = name, param_ty = ty, param_labels = l,
                                      param_span = span (peek_token (skip_newlines st))\<rparr>])
                          (progress st (snd (match_symbol Comma st4))))))))"
  by pat_completeness auto
termination
  by (relation "measure (\<lambda>(params, st). left st)") (auto simp: left_progress)

declare param_loop.simps [simp del]

definition parse_params :: "parser \<Rightarrow> param list option \<times> parser" where
  "parse_params =
     andthen (expect_symbol LParen ''expected `(` before parameters'') (\<lambda>_.
     andthen (param_loop []) (\<lambda>params st.
       opt_map (\<lambda>_. params) (expect_symbol RParen ''expected `)` after parameters'' st)))"

section \<open>Callables, actors and actions\<close>

definition rate_limit_text :: "parser \<Rightarrow> string \<times> parser" where
  "rate_limit_text st =
     (case collect_until_metadata_or LBrace (snd (match_ident_text ''limit'' st)) of (txt, st') \<Rightarrow>
        (compact_duration_units txt, st'))"

definition callable_clause :: "callable_decl \<Rightarrow> parser \<Rightarrow> callable_decl \<times> parser" where
  "callable_clause c st =
     (let st1 = skip_newlines st in
      if at_keyword Kw_Requires st1 then
        (case permission_path (advance_token st1) of (p, st2) \<Rightarrow>
           (c\<lparr>callable_requires := callable_requires c @ opt_list p\<rparr>, st2))
      else if at_keyword Kw_Budget st1 then
        (case collect_until_metadata_or LBrace (advance_token st1) of (txt, st2) \<Rightarrow>
           (c\<lparr>callable_budget := Some txt\<rparr>, st2))
      else if at_keyword Kw_Rate st1 then
        (case rate_limit_text (advance_token st1) of (txt, st2) \<Rightarrow>
           (c\<lparr>callable_rate_limit := Some txt\<rparr>, st2))
      else (c, advance_token st1))"

definition callable_decl :: "parser \<Rightarrow> callable_decl option \<times> parser" where
  "callable_decl st =
     andthen (expect_ident ''expected callable name'') (\<lambda>name.
     andthen parse_params (\<lambda>params.
     calling result_type (\<lambda>result.
     calling (header_items callable_clause
       \<lparr>callable_name = name, callable_params = params, callable_result = result, callable_requires = [],
        callable_budget = None, callable_rate_limit = None, callable_body = [],
        callable_span = previous_span st\<rparr>) (\<lambda>c st'.
     opt_map (\<lambda>body. c\<lparr>callable_body := body\<rparr>) (braced_block ''expected callable body'' st'))))) st"

definition impl_item :: "callable_decl list \<Rightarrow> parser \<Rightarrow> callable_decl list option \<times> parser" where
  "impl_item methods st =
     (if at_keyword Kw_Fn st then
        (case callable_decl (advance_token st) of (r, st') \<Rightarrow> (Some (methods @ opt_list r), st'))
      else
        (Some methods, advance_token (push_error
           (with_help ''declare methods as `fn name(...) -> Type { ... }`''
             (diagnostic_error ''N0101'' ''expected method declaration inside impl block'' (span (peek_token st)))) st)))"

definition impl_decl :: "parser \<Rightarrow> impl_decl option \<times> parser" where
  "impl_decl st =
     andthen (expect_ident ''expected target type name after impl'') (\<lambda>target.
     andthen (expect_symbol LBrace ''expected `{` after target type name'') (\<lambda>_.
     andthen (block_items ''impl'' impl_item []) (\<lambda>(methods, recovered).
     close_block ''expected `}` after impl body'' recovered
       \<lparr>impl_target = target, impl_methods = methods, impl_span = previous_span st\<rparr>))) st"

definition actor_state_field :: "parser \<Rightarrow> actor_state_field option \<times> parser" where
  "actor_state_field st =
     andthen (expect_ident ''expected actor state field name'') (\<lambda>name.
     andthen (expect_symbol Colon ''expected `:` after actor state field name'') (\<lambda>_.
     calling collect_type_ref (\<lambda>ty.
     calling (collect_labels_until_line_or RBrace) (\<lambda>l st'.
     (Some \<lparr>state_name = name, state_ty = ty, state_labels = l, state_span = previous_span st\<rparr>,
      consume_line st'))))) st"

definition actor_item :: "actor_state_field list \<times> callable_decl list \<Rightarrow> parser
    \<Rightarrow> (actor_state_field list \<times> callable_decl list) option \<times> parser" where
  "actor_item acc st =
     (case acc of (flds, handlers) \<Rightarrow>
      if at_ident_text ''state'' st then
        (case actor_state_field (advance_token st) of
           (Some fld, st') \<Rightarrow> (Some (flds @ [fld], handlers), st')
         | (None, st') \<Rightarrow> (Some acc, consume_line st'))
      else if at_keyword Kw_Fn st then
        (case callable_decl (advance_token st) of (r, st') \<Rightarrow> (Some (flds, handlers @ opt_list r), st'))
      else
        (Some acc, consume_line (push_error
           (with_help ''declare actor members as `state name: Type` or `fn handler(...) { ... }`''
             (diagnostic_error ''N0101'' ''expected actor state field or handler declaration''
               (span (peek_token st)))) st)))"

definition actor_decl :: "parser \<Rightarrow> actor_decl option \<times> parser" where
  "actor_decl st =
     andthen (expect_ident ''expected actor name'') (\<lambda>name.
     andthen (expect_symbol LBrace ''expected `{` after actor name'') (\<lambda>_.
     andthen (block_items ''actor'' actor_item ([], [])) (\<lambda>((flds, handlers), recovered).
     close_block ''expected `}` after actor body'' recovered
       \<lparr>actor_name = name, actor_state = flds, actor_handlers = handlers, actor_span = previous_span st\<rparr>))) st"

definition action_clause :: "action_decl \<Rightarrow> parser \<Rightarrow> action_decl \<times> parser" where
  "action_clause a st =
     (let st1 = advance_token st; line = collect_until_line_or LBrace in
      if at_keyword Kw_Requires st then
        (case permission_path st1 of (p, st2) \<Rightarrow> (a\<lparr>action_requires := action_requires a @ opt_list p\<rparr>, st2))
      else if at_keyword Kw_Risk st then (case parse_risk st1 of (r, st2) \<Rightarrow> (a\<lparr>action_risk := r\<rparr>, st2))
      else if at_keyword Kw_Rollback st then (case line st1 of (t, st2) \<Rightarrow> (a\<lparr>action_rollback := Some t\<rparr>, st2))
      else if at_keyword Kw_Timeout st then (case line st1 of (t, st2) \<Rightarrow> (a\<lparr>action_timeout := Some t\<rparr>, st2))
      else if at_keyword Kw_Cost st then (case line st1 of (t, st2) \<Rightarrow> (a\<lparr>action_cost := Some t\<rparr>, st2))
      else if at_keyword Kw_Retry st then (case line st1 of (t, st2) \<Rightarrow> (a\<lparr>action_retry := Some t\<rparr>, st2))
      else if at_keyword Kw_Idempotency st then
        (case line (snd (match_ident_text ''key'' st1)) of (t, st2) \<Rightarrow>
           (a\<lparr>action_idempotency_key := Some t\<rparr>, st2))
      else (a, st1))"

definition action_decl :: "parser \<Rightarrow> action_decl option \<times> parser" where
  "action_decl st =
     andthen (expect_ident ''expected action name'') (\<lambda>name.
     andthen parse_params (\<lambda>params.
     calling result_type (\<lambda>result.
     calling (header_items action_clause
       \<lparr>action_name = name, action_params = params, action_result = result, action_requires = [],
        action_risk = Risk_Low, action_rollback = None, action_timeout = None, action_cost = None,
        action_retry = None, action_idempotency_key = None, action_body = [],
        action_span = previous_span st\<rparr>) (\<lambda>a st'.
     opt_map (\<lambda>body. a\<lparr>action_body := body\<rparr>) (braced_block ''expected action body'' st'))))) st"

section \<open>Connectors, services and tests\<close>

definition connector_item :: "connector_method list \<Rightarrow> parser \<Rightarrow> connector_method list option \<times> parser" where
  "connector_item methods st =
     (case expect_ident ''expected connector method name'' st of
        (None, st1) \<Rightarrow> (Some methods, consume_line st1)
      | (Some name, st1) \<Rightarrow>
          (case parse_params st1 of
             (None, st2) \<Rightarrow> (Some methods, consume_line st2)
           | (Some params, st2) \<Rightarrow>
               (case result_type st2 of (result, st3) \<Rightarrow>
                  (Some (methods @ [\<lparr>method_name = name, method_params = params, method_result = result,
                                      method_span = span (peek_token st)\<rparr>]), consume_line st3))))"

definition connector_decl :: "parser \<Rightarrow> connector_decl option \<times> parser" where
  "connector_decl st =
     andthen (expect_ident ''expected connector name'') (\<lambda>name.
     andthen (expect_symbol LBrace ''expected connector body'') (\<lambda>_.
     andthen (block_items ''connector'' connector_item []) (\<lambda>(methods, recovered).
     close_block ''expected `}` after connector body'' recovered
       \<lparr>connector_name = name, connector_methods = methods, connector_span = previous_span st\<rparr>))) st"

definition service_input :: "parser \<Rightarrow> service_input option \<times> parser" where
  "service_input st =
     andthen (expect_ident ''expected route input name'') (\<lambda>name.
     andthen (expect_symbol Colon ''expected `:` after route input name'') (\<lambda>_.
     calling collect_type_ref (\<lambda>ty.
     calling (collect_labels_until_line_or RBrace) (\<lambda>l st'.
     (Some \<lparr>input_name = name, input_ty = ty, input_labels = l, input_span = previous_span st\<rparr>,
      consume_line st'))))) st"

definition route_item :: "service_input option \<times> stmt list \<Rightarrow> parser
    \<Rightarrow> (service_input option \<times> stmt list) option \<times> parser" where
  "route_item acc st =
     (case acc of (input, body) \<Rightarrow>
      if at_keyword Kw_Input st then
        (let st1 = advance_token st in
         if input \<noteq> None then
           (Some acc, consume_line (push_error
              (with_help ''declare at most one input binding per route''
                (diagnostic_error ''N0101'' ''duplicate route input'' (previous_span st1))) st1))
         else (case service_input st1 of (r, st2) \<Rightarrow> (Some (r, body), st2)))
      else
        (case statement st of
           (Some s, st1) \<Rightarrow> (Some (input, body @ [s]), st1)
         | (None, st1) \<Rightarrow> (Some acc, consume_line st1)))"

text \<open>A missing brace after the body of a route is reported and does not drop the route.\<close>

definition service_route_body :: "parser \<Rightarrow> (service_input option \<times> stmt list) \<times> parser" where
  "service_route_body st =
     (case block_items ''route'' route_item (None, []) st of
        (Some (acc, recovered), st') \<Rightarrow>
          (acc, if recovered then st' else snd (expect_symbol RBrace ''expected `}` after route body'' st'))
      | (None, st') \<Rightarrow> ((None, []), st'))"

definition route_clause :: "string list \<Rightarrow> parser \<Rightarrow> string list \<times> parser" where
  "route_clause requires st =
     (if at_keyword Kw_Requires st then
        (case permission_path (advance_token st) of (p, st') \<Rightarrow> (requires @ opt_list p, st'))
      else (requires, advance_token st))"

definition service_route :: "parser \<Rightarrow> service_route option \<times> parser" where
  "service_route st =
     andthen (expect_ident ''expected HTTP method after route'') (\<lambda>meth.
     andthen (expect_string ''expected route path string'') (\<lambda>path.
     calling (header_items route_clause []) (\<lambda>requires.
     andthen (expect_symbol LBrace ''expected route body'') (\<lambda>_.
     calling service_route_body (\<lambda>(input, body).
     returning (Some \<lparr>route_method = meth, route_path = path, route_requires = requires,
       route_input = input, route_body = body, route_span = previous_span st\<rparr>)))))) st"

definition service_clause :: "service_decl \<Rightarrow> parser \<Rightarrow> service_decl \<times> parser" where
  "service_clause s st =
     (let st1 = skip_newlines st in
      if at_keyword Kw_Budget st1 then
        (case collect_until_metadata_or LBrace (advance_token st1) of (txt, st2) \<Rightarrow>
           (s\<lparr>service_budget := Some txt\<rparr>, st2))
      else if at_keyword Kw_Rate st1 then
        (case rate_limit_text (advance_token st1) of (txt, st2) \<Rightarrow>
           (s\<lparr>service_rate_limit := Some txt\<rparr>, st2))
      else (s, advance_token st1))"

definition service_item :: "service_route list \<Rightarrow> parser \<Rightarrow> service_route list option \<times> parser" where
  "service_item routes st =
     (if at_ident_text ''route'' st then
        (case service_route (advance_token st) of
           (Some route, st') \<Rightarrow> (Some (routes @ [route]), st')
         | (None, st') \<Rightarrow> (Some routes, consume_line st'))
      else
        (Some routes, consume_line (push_error
           (with_help (''declare routes as `route METHOD '' @ [CHR 0x22] @ ''path'' @ [CHR 0x22] @ '' { ... }`'')
             (diagnostic_error ''N0101'' ''expected service route declaration'' (span (peek_token st)))) st)))"

definition service_decl :: "parser \<Rightarrow> service_decl option \<times> parser" where
  "service_decl st =
     andthen (expect_ident ''expected service name'') (\<lambda>name.
     calling (header_items service_clause
       \<lparr>service_name = name, service_budget = None, service_rate_limit = None, service_routes = [],
        service_span = previous_span st\<rparr>) (\<lambda>s.
     andthen (expect_symbol LBrace ''expected service body'') (\<lambda>_.
     andthen (block_items ''service'' service_item []) (\<lambda>(routes, recovered).
     close_block ''expected `}` after service body'' recovered (s\<lparr>service_routes := routes\<rparr>))))) st"

definition parse_test_kind :: "parser \<Rightarrow> test_kind \<times> parser" where
  "parse_test_kind st =
     (if at_keyword Kw_Policy st then (Test_Policy, advance_token st)
      else if at_keyword Kw_Workflow st then (Test_Workflow, advance_token st)
      else if at_ident_text ''ai'' st then (Test_Ai, advance_token st)
      else (Test_Unit, st))"

definition test_decl :: "parser \<Rightarrow> test_decl option \<times> parser" where
  "test_decl st =
     calling parse_test_kind (\<lambda>k.
     andthen (expect_string ''expected test name string'') (\<lambda>name st'.
       opt_map (\<lambda>body. \<lparr>test_name = name, test_kind = k, test_body = body, test_span = previous_span st\<rparr>)
         (braced_block ''expected `{` after test name'' st'))) st"

section \<open>The module\<close>

definition unknown_declaration :: "parser \<Rightarrow> diagnostic" where
  "unknown_declaration st =
     with_help ''use module, use, permission, role, policy, type, enum, fn, workflow, actor, action, connector, service, or test''
       (diagnostic_error ''N0100''
         (''expected top-level declaration, found `'' @ lexeme (peek_token st) @ ''`'') (span (peek_token st)))"

definition parse_declaration :: "parser \<Rightarrow> top_decl option \<times> parser" where
  "parse_declaration st =
     (let st' = advance_token st in
      if at_keyword Kw_Permission st then opt_map Permission_Decl (named_line_decl st')
      else if at_keyword Kw_Role st then opt_map Role_Decl (role_decl st')
      else if at_keyword Kw_Policy st then opt_map Policy_Decl (policy_decl st')
      else if at_keyword Kw_Type st then opt_map Type_Decl (type_decl st')
      else if at_keyword Kw_Enum st then opt_map Enum_Decl (enum_decl st')
      else if at_keyword Kw_Fn st then opt_map Function_Decl (callable_decl st')
      else if at_keyword Kw_Workflow st then opt_map Workflow_Decl (callable_decl st')
      else if at_keyword Kw_Actor st then opt_map Actor_Decl (actor_decl st')
      else if at_keyword Kw_Action st then opt_map Action_Decl (action_decl st')
      else if at_keyword Kw_Connector st then opt_map Connector_Decl (connector_decl st')
      else if at_keyword Kw_Service st then opt_map Service_Decl (service_decl st')
      else if at_keyword Kw_Test st then opt_map Test_Decl (test_decl st')
      else if at_keyword Kw_Impl st then opt_map Impl_Decl (impl_decl st')
      else (None, push_error (unknown_declaration st) st))"

definition parse_path_until_line :: "parser \<Rightarrow> string option \<times> parser" where
  "parse_path_until_line st =
     (case collect_until_line_or RBrace st of (txt, st') \<Rightarrow>
        (let path = compact_member_access (trim txt) in (if path = [] then None else Some path, st')))"

text \<open>One round of the loop of \<open>parse\<close>, at a token that is neither a line break nor the end.\<close>

definition top_item :: "module_ast \<Rightarrow> parser \<Rightarrow> module_ast \<times> parser" where
  "top_item m st =
     (if at_keyword Kw_Module st then
        (case parse_path_until_line (advance_token st) of (path, st') \<Rightarrow> (m\<lparr>mod_name := path\<rparr>, st'))
      else if at_keyword Kw_Use st then
        (case parse_path_until_line (advance_token st) of
           (Some path, st') \<Rightarrow>
             (m\<lparr>mod_imports := mod_imports m @
                  [\<lparr>import_path = path, import_span = previous_span (advance_token st)\<rparr>]\<rparr>, st')
         | (None, st') \<Rightarrow> (m, st'))
      else
        (case parse_declaration st of
           (Some d, st') \<Rightarrow> (m\<lparr>mod_declarations := mod_declarations m @ [d]\<rparr>, st')
         | (None, st') \<Rightarrow> (m, synchronize_top_level st')))"

function top_level :: "module_ast \<Rightarrow> parser \<Rightarrow> module_ast \<times> parser" where
  "top_level m st =
     (if at_eof st then (m, st)
      else if at_eof (skip_newlines st) then (m, skip_newlines st)
      else (case top_item m (skip_newlines st) of (m', st') \<Rightarrow> top_level m' (progress st st')))"
  by pat_completeness auto
termination
  by (relation "measure (\<lambda>(m, st). left st)") (auto simp: left_progress)

declare top_level.simps [simp del]

definition run_parser :: "token list \<Rightarrow> module_ast \<times> parser" where
  "run_parser ts = top_level empty_module (skip_newlines (new_parser ts))"

record parse_result =
  parsed_module :: module_ast
  parsed_diagnostics :: "diagnostic list"

definition parse_module :: "token list \<Rightarrow> parse_result" where
  "parse_module ts =
     (case run_parser ts of (m, st) \<Rightarrow> \<lparr>parsed_module = m, parsed_diagnostics = ps_diagnostics st\<rparr>)"

end
