(* ===== verification/Parser_Spec.thy ===== *)
theory Parser_Spec
  imports Parser_Decl
begin

text \<open>
  What the parser does on a list of tokens: when the list ends with \<open>Eof\<close> it returns, its recursions
  and loops never go on without having consumed a token; when it has no \<open>Eof\<close> the code does not
  return; and each diagnostic is placed at a token.
\<close>

section \<open>Items of blocks\<close>

definition item_moves :: "('a \<Rightarrow> parser \<Rightarrow> 'a option \<times> parser) \<Rightarrow> bool" where
  "item_moves item \<longleftrightarrow>
     (\<forall>acc st. steps st (snd (item acc st))
        \<and> (\<not> at_eof st \<longrightarrow> fst (item acc st) \<noteq> None \<longrightarrow> left (snd (item acc st)) < left st))"

lemma item_movesI:
  assumes "\<And>acc st. steps (advance_token st) (snd (item acc st))"
  shows "item_moves item"
  using after_keyword [OF _ assms] steps_step [OF assms] by (simp add: item_moves_def)

lemma steps_block_items [runs]:
  assumes "item_moves item" and "steps s st"
  shows "steps s (snd (block_items kind item acc st))"
proof (rule steps_trans [OF assms(2)], rule block_items_steps)
  show "steps st1 (snd (item acc st1))" for acc st1 using assms(1) by (simp add: item_moves_def)
  show "left st2 < left st1" if "\<not> at_eof st1" "item acc st1 = (Some x, st2)" for acc st1 x st2
    using assms(1) [unfolded item_moves_def, rule_format, of st1 acc] that by simp
qed

text \<open>Clauses before a body consume a token in every round.\<close>

definition clause_moves :: "('a \<Rightarrow> parser \<Rightarrow> 'a \<times> parser) \<Rightarrow> bool" where
  "clause_moves item \<longleftrightarrow>
     (\<forall>acc st. steps st (snd (item acc st)) \<and> (\<not> at_eof st \<longrightarrow> left (snd (item acc st)) < left st))"

lemma clause_movesI:
  assumes "\<And>acc st. steps (advance_token st) (snd (item acc st))"
  shows "clause_moves item"
  using after_keyword [OF _ assms] steps_step [OF assms] by (simp add: clause_moves_def)

lemma steps_header_items [runs]:
  assumes "clause_moves item" and "steps s st"
  shows "steps s (snd (header_items item acc st))"
  using assms by (intro steps_trans [OF assms(2)] header_items_steps) (simp_all add: clause_moves_def)

lemma steps_statement [runs]: "steps s st \<Longrightarrow> steps s (snd (statement st))"
  using parser_moves(1) [of st] steps_trans by (auto simp: moves_def)

lemma steps_braced_block [runs]: "steps s st \<Longrightarrow> steps s (snd (braced_block msg st))"
  using parser_moves(3) by (rule steps_after)

lemma steps_case_prod [runs]:
  assumes "steps s (snd r)" and "\<And>x st'. r = (x, st') \<Longrightarrow> steps s st' \<Longrightarrow> steps s (snd (f x st'))"
  shows "steps s (snd (case r of (x, st') \<Rightarrow> f x st'))"
  using assms by (cases r) simp

lemma steps_case_option [runs]:
  assumes "x = None \<Longrightarrow> steps s (snd r)" and "\<And>y. x = Some y \<Longrightarrow> steps s (snd (f y))"
  shows "steps s (snd (case x of None \<Rightarrow> r | Some y \<Rightarrow> f y))"
  using assms by (cases x) simp_all

lemma after_advance [runs]: "steps (advance_token st) (advance_token st)"
  by simp

section \<open>Declarations without statements\<close>

lemma steps_named_line_decl [runs]: "steps s st \<Longrightarrow> steps s (snd (named_line_decl st))"
  unfolding named_line_decl_def by (auto intro!: runs)

lemma role_item_moves [runs]: "item_moves role_item"
  by (rule item_movesI) (auto simp: role_item_def case_prod_beta intro!: runs)

lemma steps_role_decl [runs]: "steps s st \<Longrightarrow> steps s (snd (role_decl st))"
  unfolding role_decl_def case_prod_beta by (auto intro!: runs)

lemma policy_item_moves [runs]: "item_moves policy_item"
  by (rule item_movesI) (auto simp: policy_item_def case_prod_beta intro!: runs)

lemma steps_policy_decl [runs]: "steps s st \<Longrightarrow> steps s (snd (policy_decl st))"
  unfolding policy_decl_def case_prod_beta by (auto intro!: runs)

lemma steps_generic_param_loop [runs]:
  "steps s st \<Longrightarrow> steps s (snd (generic_param_loop params st))"
proof (induction params st arbitrary: s rule: generic_param_loop.induct)
  case (1 params st)
  obtain r st1 where e: "expect_ident ''expected generic parameter name'' st = (r, st1)" by fastforce
  define st2 where "st2 = (if r = None then advance_token st1 else st1)"
  have s1: "steps st st1" using steps_expect(1) [of st "''expected generic parameter name''"] e by simp
  then have s2: "steps st st2" by (auto simp: st2_def intro: runs)
  show ?case
  proof (cases "\<not> (at_symbol Gt st \<or> at_eof st) \<and> at_symbol Comma st2")
    case True
    then have "left (advance_token st2) < left st"
      using left_advance_less [OF at_not_eof(1)] steps_left [OF s2] by fastforce
    then have "progress st (advance_token st2) = advance_token st2" by (rule progress_strict)
    then show ?thesis
      using 1(1) [OF _ e [symmetric] refl] True s2 e 1(2)
      by (subst generic_param_loop.simps) (auto simp: st2_def [symmetric] Let_def intro: steps_advance steps_trans)
  next
    case False
    then show ?thesis
      using e s2 1(2) by (subst generic_param_loop.simps) (auto simp: st2_def Let_def intro: steps_trans)
  qed
qed

lemma steps_generic_params [runs]: "steps s st \<Longrightarrow> steps s (snd (generic_params st))"
  unfolding generic_params_def case_prod_beta by (auto intro!: runs)

text \<open>An item that starts with a name: if there is one it is consumed, else a token is skipped.\<close>

lemma item_moves_after_name:
  assumes "\<And>acc st. steps st (snd (item acc st))"
    and "\<And>acc st. fst (m st) = None \<Longrightarrow> \<not> at_eof st \<Longrightarrow> left (snd (item acc st)) < left st"
    and "\<And>acc st x st1. m st = (Some x, st1) \<Longrightarrow> left st1 < left st \<and> steps st1 (snd (item acc st))"
  shows "item_moves item"
proof -
  have "left (snd (item acc st)) < left st" if "\<not> at_eof st" for acc st
    using assms(2) [OF _ that, of acc] assms(3) [of st _ "snd (m st)" acc] steps_left [of "snd (m st)" "snd (item acc st)"]
    by (cases "fst (m st)") (auto, metis le_less_trans prod.collapse)
  then show ?thesis using assms(1) by (simp add: item_moves_def)
qed

lemma maybe_ident_consumes: "maybe_ident st = (Some x, st') \<Longrightarrow> left st' < left st"
  by (auto simp: maybe_ident_def at_eof_def intro!: left_advance_less split: token_kind.splits)

lemma at_eof_push [simp]: "at_eof (push_error d st) = at_eof st" "left (push_error d st) = left st"
  by (simp_all add: push_error_def at_eof_def peek_kind_def peek_token_def left_def)

lemma no_ident:
  "fst (maybe_ident st) = None \<Longrightarrow> snd (maybe_ident st) = st"
  "fst (expect_ident msg st) = None \<Longrightarrow> left (snd (expect_ident msg st)) = left st \<and> at_eof (snd (expect_ident msg st)) = at_eof st"
  by (auto simp: expect_ident_def maybe_ident_def split: token_kind.splits)

lemma type_item_moves [runs]: "item_moves type_item"
proof (rule item_moves_after_name)
  fix acc :: "field list" and st
  show "steps st (snd (type_item acc st))"
    unfolding type_item_def by (auto intro!: runs)
  show "left (snd (type_item acc st)) < left st"
    if "fst (expect_ident ''expected field name'' st) = None" "\<not> at_eof st"
    using no_ident(2) [OF that(1)] that left_advance_less
    by (cases "expect_ident ''expected field name'' st") (fastforce simp: type_item_def)
  show "left st1 < left st \<and> steps st1 (snd (type_item acc st))"
    if "expect_ident ''expected field name'' st = (Some x, st1)" for x st1
    using expect_ident_consumes [OF that] that by (auto simp: type_item_def intro!: runs)
qed

lemma steps_type_decl [runs]: "steps s st \<Longrightarrow> steps s (snd (type_decl st))"
  unfolding type_decl_def by (auto intro!: runs)

lemma enum_item_moves [runs]: "item_moves enum_item"
proof (rule item_moves_after_name)
  fix acc :: "enum_variant list" and st
  show "steps st (snd (enum_item acc st))"
    unfolding enum_item_def by (auto intro!: runs)
  show "left (snd (enum_item acc st)) < left st" if "fst (maybe_ident st) = None" "\<not> at_eof st"
    using no_ident(1) [OF that(1)] that left_advance_less
    by (cases "maybe_ident st") (fastforce simp: enum_item_def)
  show "left st1 < left st \<and> steps st1 (snd (enum_item acc st))" if "maybe_ident st = (Some x, st1)" for x st1
    using maybe_ident_consumes [OF that] that by (auto simp: enum_item_def intro!: runs)
qed

lemma steps_enum_decl [runs]: "steps s st \<Longrightarrow> steps s (snd (enum_decl st))"
  unfolding enum_decl_def by (auto intro!: runs)

section \<open>Parameters, callables, actors and actions\<close>

lemma steps_param_loop [runs]: "steps s st \<Longrightarrow> steps s (snd (param_loop params st))"
proof (induction params st arbitrary: s rule: param_loop.induct)
  case (1 params st)
  let ?n = "skip_newlines st"
  obtain r st1 where e: "expect_ident ''expected parameter name'' ?n = (r, st1)" by fastforce
  have n1: "steps ?n st1" using steps_expect(1) [of ?n "''expected parameter name''"] e by simp
  then have s1: "steps st st1" using steps_skip_newlines steps_trans by blast
  show ?case
  proof (cases "at_symbol RParen st \<or> at_eof st")
    case True
    then show ?thesis using 1(3) by (subst param_loop.simps) simp
  next
    case False
    show ?thesis
    proof (cases r)
      case None
      have "left (advance_token st1) < left st"
      proof (cases "?n = st")
        case True
        then have "left st1 = left st" "\<not> at_eof st1"
          using no_ident(2) [of "''expected parameter name''" st] e None False by auto
        then show ?thesis using left_advance_less [of st1] by simp
      next
        case n: False
        then show ?thesis
          using skip_newlines_consumes [OF n] steps_left [OF n1] left_advance [of st1] by simp
      qed
      then have "progress st (advance_token st1) = advance_token st1" by (rule progress_strict)
      then show ?thesis
        using 1(1) [OF False e [symmetric] None] steps_trans [OF 1(3) s1] False e None
        by (subst param_loop.simps) (auto intro: steps_advance steps_trans)
    next
      case (Some name)
      obtain u st2 where c: "expect_symbol Colon ''expected `:` after parameter name'' st1 = (u, st2)" by fastforce
      obtain ty st3 where t: "collect_type_ref st2 = (ty, st3)" by fastforce
      obtain l st4 where l: "labels_until (\<lambda>st. at_symbol Comma st \<or> at_symbol RParen st) no_labels st3 = (l, st4)"
        by fastforce
      define st5 where "st5 = snd (match_symbol Comma st4)"
      have s2: "steps st1 st2"
        using steps_expect(3) [of st1 Colon "''expected `:` after parameter name''"] c by simp
      have s5: "steps st1 st5"
        using steps_collect(5) [of st2] steps_labels_until [of st3 _ no_labels] steps_match(1) [of st4 Comma] s2 t l
        unfolding st5_def by (metis snd_conv steps_trans)
      have "left st5 < left st"
        using expect_ident_consumes [OF e [unfolded Some]] steps_left [OF steps_skip_newlines [of st]]
          steps_left [OF s5] by simp
      then have "progress st st5 = st5" by (rule progress_strict)
      then show ?thesis
        using 1(2) [OF False e [symmetric] Some c [symmetric] _ t [symmetric] l [symmetric], folded st5_def]
          steps_trans [OF 1(3) s1] False e c t l Some s2 s5
        by (subst param_loop.simps) (auto simp: st5_def intro: steps_trans split: option.split)
    qed
  qed
qed

lemma steps_parse_params [runs]: "steps s st \<Longrightarrow> steps s (snd (parse_params st))"
  unfolding parse_params_def by (auto intro!: runs)

lemma steps_rate_limit_text [runs]: "steps s st \<Longrightarrow> steps s (snd (rate_limit_text st))"
  unfolding rate_limit_text_def by (auto intro!: runs)

text \<open>A clause that may be preceded by line breaks.\<close>

lemma clause_moves_after_newlines:
  assumes "\<And>acc st. \<not> at_newline st \<Longrightarrow> steps (advance_token st) (snd (item acc st))"
  shows "clause_moves (\<lambda>acc st. item acc (skip_newlines st))"
proof -
  have "steps (skip_newlines st) (snd (item acc (skip_newlines st)))" for acc st
    using assms [OF skip_newlines_stops] steps_step by blast
  moreover have "left (snd (item acc (skip_newlines st))) < left st" if "\<not> at_eof st" for acc st
  proof (cases "skip_newlines st = st")
    case True
    then have "\<not> at_newline st" using skip_newlines_stops [of st] by simp
    then show ?thesis using True assms after_keyword [OF that] by simp
  next
    case False
    then show ?thesis
      using skip_newlines_consumes [OF False] steps_left [OF calculation [of st acc]] by simp
  qed
  ultimately show ?thesis
    unfolding clause_moves_def using steps_trans [OF steps_skip_newlines] by blast
qed

lemma callable_clause_moves [runs]: "clause_moves callable_clause"
proof -
  have "clause_moves (\<lambda>c st. callable_clause c (skip_newlines st))"
    by (rule clause_moves_after_newlines)
      (auto simp: callable_clause_def Let_def skip_newlines_same intro!: runs)
  moreover have "callable_clause c (skip_newlines st) = callable_clause c st" for c st
    by (simp add: callable_clause_def skip_newlines_same [OF skip_newlines_stops])
  ultimately show ?thesis by simp
qed

lemma steps_callable_decl [runs]: "steps s st \<Longrightarrow> steps s (snd (callable_decl st))"
  unfolding callable_decl_def by (auto intro!: runs)

lemma steps_push_report [runs]:
  "steps s st \<Longrightarrow> (valid s \<Longrightarrow> sp \<in> span ` set (ps_tokens s)) \<Longrightarrow>
     steps s (push_error (with_help h (diagnostic_error code msg sp)) st)"
  by (auto simp: steps_def push_error_def valid_def)

lemma peek_reached: "steps s st \<Longrightarrow> valid s \<Longrightarrow> span (peek_token st) \<in> span ` set (ps_tokens s)"
  using peek_in_tokens [of st] by (auto simp: steps_def)

lemma impl_item_moves [runs]: "item_moves impl_item"
proof -
  have "steps st (snd (impl_item acc st))" for acc st
    unfolding impl_item_def by (auto intro!: runs peek_reached)
  moreover have "left (snd (impl_item acc st)) < left st" if "\<not> at_eof st" for acc st
    using after_keyword [OF that steps_callable_decl [OF steps_refl]] that
      left_advance_less [of "push_error d st" for d]
    by (auto simp: impl_item_def case_prod_beta)
  ultimately show ?thesis by (simp add: item_moves_def)
qed

lemma steps_impl_decl [runs]: "steps s st \<Longrightarrow> steps s (snd (impl_decl st))"
  unfolding impl_decl_def by (auto intro!: runs)

lemma steps_actor_state_field [runs]: "steps s st \<Longrightarrow> steps s (snd (actor_state_field st))"
  unfolding actor_state_field_def by (auto intro!: runs)

lemma actor_item_moves [runs]: "item_moves actor_item"
proof -
  have "steps st (snd (actor_item acc st))" for acc st
    unfolding actor_item_def by (cases acc) (auto intro!: runs peek_reached)
  moreover have "left (snd (actor_item acc st)) < left st" if e: "\<not> at_eof st" for acc st
  proof (cases "at_ident_text ''state'' st \<or> at_keyword Kw_Fn st")
    case True
    then have "steps (advance_token st) (snd (actor_item acc st))"
      unfolding actor_item_def by (cases acc) (auto intro!: runs)
    then show ?thesis using after_keyword [OF e] by blast
  next
    case False
    then show ?thesis
      using consume_line_consumes [of "push_error d st" for d] e by (simp add: actor_item_def case_prod_beta)
  qed
  ultimately show ?thesis by (simp add: item_moves_def)
qed

lemma steps_actor_decl [runs]: "steps s st \<Longrightarrow> steps s (snd (actor_decl st))"
  unfolding actor_decl_def by (auto intro!: runs)

lemma action_clause_moves [runs]: "clause_moves action_clause"
  by (rule clause_movesI) (auto simp: action_clause_def Let_def intro!: runs)

lemma steps_action_decl [runs]: "steps s st \<Longrightarrow> steps s (snd (action_decl st))"
  unfolding action_decl_def by (auto intro!: runs)

section \<open>Connectors, services and tests\<close>

lemma connector_item_moves [runs]: "item_moves connector_item"
proof -
  let ?m = "expect_ident ''expected connector method name''"
  have "steps st (snd (connector_item acc st))" for acc st
    unfolding connector_item_def by (auto intro!: runs)
  moreover have "left (snd (connector_item acc st)) < left st" if e: "\<not> at_eof st" for acc st
  proof (cases "?m st")
    case (Pair r st1)
    show ?thesis
    proof (cases r)
      case None
      have "steps st st1" using steps_expect(1) [of st "''expected connector method name''"] Pair by simp
      then show ?thesis using consume_line_after [OF _ e] Pair None by (simp add: connector_item_def)
    next
      case (Some x)
      have "steps st1 (snd (connector_item acc st))"
        using Pair Some by (auto simp: connector_item_def intro!: runs)
      then show ?thesis using expect_ident_consumes [OF Pair [unfolded Some]] steps_left by fastforce
    qed
  qed
  ultimately show ?thesis by (simp add: item_moves_def)
qed

lemma steps_connector_decl [runs]: "steps s st \<Longrightarrow> steps s (snd (connector_decl st))"
  unfolding connector_decl_def by (auto intro!: runs)

lemma steps_service_input [runs]: "steps s st \<Longrightarrow> steps s (snd (service_input st))"
  unfolding service_input_def by (auto intro!: runs)

lemma route_item_moves [runs]: "item_moves route_item"
proof -
  have "steps st (snd (route_item acc st))" for acc st
    unfolding route_item_def Let_def by (cases acc) (auto intro!: runs previous_reached)
  moreover have "left (snd (route_item acc st)) < left st" if e: "\<not> at_eof st" for acc st
  proof (cases "at_keyword Kw_Input st")
    case True
    define a where "a = advance_token st"
    have "steps a (snd (route_item acc st))"
      using True unfolding route_item_def Let_def a_def [symmetric]
      by (cases acc) (auto intro!: runs previous_reached)
    then show ?thesis using after_keyword [OF e] unfolding a_def by blast
  next
    case False
    show ?thesis
      using parser_moves(1) [of st] consume_line_after [OF _ e, of "snd (statement st)"] False
      by (cases acc; cases "statement st"; cases "fst (statement st)")
        (auto simp: route_item_def moves_def)
  qed
  ultimately show ?thesis by (simp add: item_moves_def)
qed

lemma route_clause_moves [runs]: "clause_moves route_clause"
  by (rule clause_movesI) (auto simp: route_clause_def intro!: runs)

lemma steps_service_route [runs]: "steps s st \<Longrightarrow> steps s (snd (service_route st))"
  unfolding service_route_def service_route_body_def by (auto intro!: runs)

lemma service_clause_moves [runs]: "clause_moves service_clause"
proof -
  have "clause_moves (\<lambda>c st. service_clause c (skip_newlines st))"
    by (rule clause_moves_after_newlines)
      (auto simp: service_clause_def Let_def skip_newlines_same intro!: runs)
  moreover have "service_clause c (skip_newlines st) = service_clause c st" for c st
    by (simp add: service_clause_def skip_newlines_same [OF skip_newlines_stops])
  ultimately show ?thesis by simp
qed

lemma service_item_moves [runs]: "item_moves service_item"
proof -
  have "steps st (snd (service_item acc st))" for acc st
    unfolding service_item_def by (auto intro!: runs peek_reached)
  moreover have "left (snd (service_item acc st)) < left st" if e: "\<not> at_eof st" for acc st
  proof (cases "at_ident_text ''route'' st")
    case True
    then have "steps (advance_token st) (snd (service_item acc st))"
      unfolding service_item_def by (auto intro!: runs)
    then show ?thesis using after_keyword [OF e] by blast
  next
    case False
    then show ?thesis
      using consume_line_consumes [of "push_error d st" for d] e by (simp add: service_item_def)
  qed
  ultimately show ?thesis by (simp add: item_moves_def)
qed

lemma steps_service_decl [runs]: "steps s st \<Longrightarrow> steps s (snd (service_decl st))"
  unfolding service_decl_def by (auto intro!: runs)

lemma steps_test_decl [runs]: "steps s st \<Longrightarrow> steps s (snd (test_decl st))"
  unfolding test_decl_def parse_test_kind_def by (auto intro!: runs)

section \<open>The module\<close>

lemma steps_unknown: "steps st (push_error (unknown_declaration st) st)"
  by (rule steps_push) (simp add: unknown_declaration_def peek_in_tokens)

text \<open>A declaration consumes its keyword; without one nothing is consumed.\<close>

lemmas steps_decls =
  steps_named_line_decl steps_role_decl steps_policy_decl steps_type_decl steps_enum_decl steps_callable_decl
  steps_actor_decl steps_action_decl steps_connector_decl steps_service_decl steps_test_decl steps_impl_decl

lemma steps_or_if:
  "(b \<Longrightarrow> steps s (snd x) \<or> x = z) \<Longrightarrow> (\<not> b \<Longrightarrow> steps s (snd y) \<or> y = z) \<Longrightarrow>
     steps s (snd (if b then x else y)) \<or> (if b then x else y) = z"
  by simp

lemma parse_declaration_moves: "moves parse_declaration st"
proof -
  define a where "a = advance_token st"
  show ?thesis
  proof (cases "parse_declaration st = (None, push_error (unknown_declaration st) st)")
    case True
    then show ?thesis by (simp add: moves_def steps_unknown)
  next
    case False
    have "\<not> at_eof st"
    proof
      assume "at_eof st"
      then have "\<not> at_keyword k st" for k using at_not_eof(2) by blast
      then show False using False by (simp add: parse_declaration_def)
    qed
    moreover have "steps a (snd (parse_declaration st))
        \<or> parse_declaration st = (None, push_error (unknown_declaration st) st)"
      unfolding parse_declaration_def Let_def a_def [symmetric]
      by (intro steps_or_if) (auto intro!: steps_opt_map steps_decls)
    ultimately show ?thesis using False movesI unfolding a_def by blast
  qed
qed

lemma steps_path [runs]: "steps s st \<Longrightarrow> steps s (snd (parse_path_until_line st))"
  unfolding parse_path_until_line_def Let_def by (auto intro!: runs)

lemma synchronize_after:
  assumes "steps st st'" and "\<not> at_eof st" and "\<not> at_newline st"
  shows "left (synchronize_top_level st') < left st"
proof (cases "left st' < left st")
  case True
  then show ?thesis using steps_left [OF steps_synchronize [of st']] by simp
next
  case False
  then have k: "\<not> at_eof st'" "\<not> at_newline st'"
    using same_place [OF assms(1,2)] assms(2,3) by (simp_all add: at_eof_def at_newline_def)
  then have "steps (advance_token st') (synchronize_top_level st')"
    using steps_trans [OF steps_advance_until steps_skip_newlines]
    by (simp add: synchronize_top_level_def advance_until.simps [of _ st'])
  then show ?thesis using after_keyword [OF k(1)] steps_left [OF assms(1)] by fastforce
qed

lemma top_item_moves:
  assumes "\<not> at_eof st" and "\<not> at_newline st"
  shows "steps st (snd (top_item m st)) \<and> left (snd (top_item m st)) < left st"
proof (cases "at_keyword Kw_Module st \<or> at_keyword Kw_Use st")
  case True
  then have "steps (advance_token st) (snd (top_item m st))"
    unfolding top_item_def by (auto intro!: runs)
  then show ?thesis by (rule after_keyword [OF assms(1)])
next
  case False
  obtain r st' where d: "parse_declaration st = (r, st')" by fastforce
  then have m: "steps st st'" "r \<noteq> None \<longrightarrow> left st' < left st"
    using parse_declaration_moves [of st] by (auto simp: moves_def)
  show ?thesis
    using False d m synchronize_after [OF m(1) assms] steps_trans [OF m(1) steps_synchronize]
    by (cases r) (simp_all add: top_item_def)
qed

lemma top_level_steps: "steps st (snd (top_level m st))" "at_eof (snd (top_level m st))"
proof (induction m st rule: top_level.induct)
  case (1 m st)
  let ?n = "skip_newlines st"
  obtain m' st' where i: "top_item m ?n = (m', st')" by fastforce
  have moves: "steps st st'" "left st' < left st" if "\<not> at_eof ?n"
    using top_item_moves [OF that skip_newlines_stops, of m] i
      steps_trans [OF steps_skip_newlines [of st]] steps_left [OF steps_skip_newlines [of st]] by auto
  {
    case 1
    then show ?case
      using "1.IH"(1) [OF _ _ i [symmetric]] moves i steps_skip_newlines [of st]
      by (subst top_level.simps) (auto simp: progress_strict intro: steps_trans)
  next
    case 2
    then show ?case
      using "1.IH"(2) [OF _ _ i [symmetric]] moves i
      by (subst top_level.simps) (auto simp: progress_strict)
  }
qed

lemma run_parser_steps:
  "steps (new_parser ts) (snd (run_parser ts))" "at_eof (snd (run_parser ts))"
  using steps_trans [OF steps_skip_newlines [of "new_parser ts"] top_level_steps(1)] top_level_steps(2)
  by (simp_all add: run_parser_def)

text \<open>C25: The parser returns on every list of tokens that ends with \<open>Eof\<close>: each loop that goes round
  and each recursion that goes down has consumed a token before it does, and the parser stops at an
  \<open>Eof\<close>. (On the empty list the code panics, and it does not return
  on a list without \<open>Eof\<close>; the lists of the lexer end with one.)\<close>

theorem parser_terminates:
  assumes "ts \<noteq> []" and "token_kind (last ts) = Eof"
  shows "\<not> ps_stuck (snd (run_parser ts)) \<and> token_kind (peek_token (snd (run_parser ts))) = Eof"
  using run_parser_steps [of ts] assms
  by (simp add: steps_def new_parser_def closed_def at_eof_def peek_kind_def)

theorem parser_terminates_witness:
  "\<not> ps_stuck (snd (run_parser [\<lparr>token_kind = Ident ''a'', lexeme = ''a'', span = new_span [] 0 0 1 1\<rparr>,
      \<lparr>token_kind = Eof, lexeme = [], span = new_span [] 0 0 1 1\<rparr>]))"
  by (rule parser_terminates [THEN conjunct1]) simp_all

text \<open>A list without \<open>Eof\<close> is one on which the code does not return.\<close>

lemma no_end_no_return:
  assumes "\<forall>t \<in> set ts. token_kind t \<noteq> Eof"
  shows "ps_stuck (snd (run_parser ts))"
proof (cases "ts = []")
  case True
  then show ?thesis using run_parser_steps(1) [of ts] by (simp add: steps_def new_parser_def)
next
  case False
  let ?st = "snd (run_parser ts)"
  have "ps_tokens ?st = ts" using run_parser_steps(1) [of ts] by (simp add: steps_def new_parser_def)
  with False have "peek_token ?st \<in> set ts" by (auto simp: peek_token_def)
  with assms run_parser_steps(2) [of ts] show ?thesis by (auto simp: at_eof_def peek_kind_def split: if_splits)
qed

text \<open>Whatever the tokens are, each diagnostic of the parser is placed at one of them.\<close>

theorem parser_diagnostics_at_tokens:
  "diag_span ` set (parsed_diagnostics (parse_module (t # ts))) \<subseteq> span ` set (t # ts)"
  using run_parser_steps(1) [of "t # ts"]
  by (auto simp: parse_module_def steps_def valid_def new_parser_def case_prod_beta)

section \<open>What the parser reads otherwise than it is written\<close>

text \<open>Tokens at no particular place.\<close>

definition plain_token :: "token_kind \<Rightarrow> string \<Rightarrow> token" where
  "plain_token k txt = \<lparr>token_kind = k, lexeme = txt, span = new_span [] 0 0 1 1\<rparr>"

definition line_break :: token where
  "line_break = plain_token Newline [CHR 10]"

text \<open>\<open>fn name() { }\<close>, the opening brace either on the line of the name or on the next one.\<close>

definition function_tokens :: "bool \<Rightarrow> string \<Rightarrow> token list" where
  "function_tokens own_line name =
     [plain_token (Keyword Kw_Fn) ''fn'', plain_token (Ident name) name,
      plain_token (Symbol LParen) ''('', plain_token (Symbol RParen) '')'']
     @ (if own_line then [line_break] else [])
     @ [plain_token (Symbol LBrace) ''{'', plain_token (Symbol RBrace) ''}'', line_break]"

definition names_read :: "token list \<Rightarrow> string list \<times> nat" where
  "names_read ts =
     (case parse_module ts of r \<Rightarrow>
        (map declaration_name (mod_declarations (parsed_module r)), length (parsed_diagnostics r)))"

text \<open>
  A brace on a line of its own is skipped as a clause: the header loop goes over line breaks first
  and then drops the token it finds, without a look whether it is the brace. The function takes
  the body of the next one, which disappears; no diagnostic is given.
\<close>

lemma brace_on_its_own_line_is_skipped:
  "at_symbol LBrace (skip_newlines st) \<Longrightarrow> callable_clause c st = (c, advance_token (skip_newlines st))"
  by (simp add: callable_clause_def Let_def at_symbol_def at_keyword_def)

lemma next_body_is_taken:
  "names_read (function_tokens True ''f'' @ function_tokens False ''g'' @ [plain_token Eof []])
     = ([''f''], 0)"
  by code_simp

text \<open>\<open>type A { x: Int, y: Int }\<close> on one line: the labels of the first field go on to the line break or
  the brace, so the comma and the second field are lost, and then the rest of the line with the brace.\<close>

lemma second_field_on_a_line_is_lost:
  "map (\<lambda>d. case d of Type_Decl t \<Rightarrow> (case type_body t of Struct_Body fs \<Rightarrow> map field_name fs | _ \<Rightarrow> []) | _ \<Rightarrow> [])
     (mod_declarations (parsed_module (parse_module
       [plain_token (Keyword Kw_Type) ''type'', plain_token (Ident ''A'') ''A'', plain_token (Symbol LBrace) ''{'',
        plain_token (Ident ''x'') ''x'', plain_token (Symbol Colon) '':'', plain_token (Ident ''Int'') ''Int'',
        plain_token (Symbol Comma) '','', plain_token (Ident ''y'') ''y'', plain_token (Symbol Colon) '':'',
        plain_token (Ident ''Int'') ''Int'', line_break, plain_token (Symbol RBrace) ''}'', line_break, plain_token Eof []])))
   = [[''x'']]"
  by code_simp

text \<open>A rule about \<open>unverified\<close> data is read as one about verified data.\<close>

lemma unverified_reads_as_verified: "trust_from_text ''unverified data'' = Some Trust_Verified"
  by code_simp

end
