(* ===== verification/Formatter.thy ===== *)
theory Formatter
  imports Parser_Base
begin

text \<open>
  \<open>num-compiler/src/formatter.rs\<close>: the text of a module. The code pushes onto one string, the
  definitions return what is pushed.
\<close>

section \<open>Pieces\<close>

fun join :: "string \<Rightarrow> string list \<Rightarrow> string" where
  "join sep [] = []"
| "join sep [x] = x"
| "join sep (x # y # ys) = x @ sep @ join sep (y # ys)"

definition indent :: "nat \<Rightarrow> string" where
  "indent level = concat (replicate level ''    '')"

text \<open>A piece that is written when there is one, behind a before.\<close>

definition written :: "string \<Rightarrow> ('a \<Rightarrow> string) \<Rightarrow> 'a option \<Rightarrow> string" where
  "written before f x = (case x of None \<Rightarrow> [] | Some y \<Rightarrow> before @ f y)"

fun trust_text :: "trust \<Rightarrow> string" where
  "trust_text Trust_Untrusted = ''untrusted''"
| "trust_text Trust_Trusted = ''trusted''"
| "trust_text Trust_Verified = ''verified''"

fun privacy_text :: "privacy \<Rightarrow> string" where
  "privacy_text Privacy_Public = ''public''"
| "privacy_text Privacy_Internal = ''internal''"
| "privacy_text Privacy_Private = ''private''"
| "privacy_text Privacy_Sensitive = ''sensitive''"
| "privacy_text Privacy_Secret = ''secret''"
| "privacy_text Privacy_Regulated = ''regulated''"

fun risk_text :: "risk \<Rightarrow> string" where
  "risk_text Risk_Low = ''low''"
| "risk_text Risk_Medium = ''medium''"
| "risk_text Risk_High = ''high''"
| "risk_text Risk_Critical = ''critical''"

definition format_labels :: "labels \<Rightarrow> string" where
  "format_labels l =
     written '' from '' (\<lambda>s. s) (label_source l) @ written '' '' trust_text (label_trust l)
     @ written '' '' privacy_text (label_privacy l)"

definition format_param :: "param \<Rightarrow> string" where
  "format_param p = param_name p @ '': '' @ type_raw (param_ty p) @ format_labels (param_labels p)"

definition format_params :: "param list \<Rightarrow> string" where
  "format_params ps = ''('' @ join '', '' (map format_param ps) @ '')''"

definition format_generic_params :: "string list \<Rightarrow> string" where
  "format_generic_params ps = (if ps = [] then [] else ''<'' @ join '', '' ps @ ''>'')"

section \<open>The text of an expression\<close>

record collapse =
  co_out :: string
  co_in_string :: bool
  co_escaped :: bool
  co_pending :: bool

text \<open>One character: inside a literal it is kept, a quote opens one, white space is put off.\<close>

definition pending_space :: "collapse \<Rightarrow> string" where
  "pending_space c = (if co_pending c \<and> co_out c \<noteq> [] then '' '' else [])"

definition collapse_char :: "string \<Rightarrow> collapse \<Rightarrow> collapse" where
  "collapse_char ch c =
     (if co_in_string c then
        c\<lparr>co_out := co_out c @ ch,
          co_escaped := \<not> co_escaped c \<and> ch = [CHR 0x5C],
          co_in_string := co_escaped c \<or> ch \<noteq> [CHR 0x22]\<rparr>
      else if ch = [CHR 0x22] then
        c\<lparr>co_out := co_out c @ pending_space c @ ch, co_pending := False, co_in_string := True\<rparr>
      else if is_whitespace ch then c\<lparr>co_pending := True\<rparr>
      else c\<lparr>co_out := co_out c @ pending_space c @ ch, co_pending := False\<rparr>)"

definition collapse_expr_whitespace :: "string \<Rightarrow> string" where
  "collapse_expr_whitespace txt =
     co_out (fold collapse_char (chars (trim txt))
       \<lparr>co_out = [], co_in_string = False, co_escaped = False, co_pending = False\<rparr>)"

text \<open>The replacements in their order.\<close>

definition call_replacements :: "(string \<times> string) list" where
  "call_replacements =
     [('' . '', ''.''), (''. '', ''.''), ('' .'', ''.''), ('' ( '', ''(''), ('' ('', ''(''), (''( '', ''(''),
      ('' )'', '')''), ('' , '', '', ''), ('' ,'', '',''), ('' : '', '': ''), ('' :'', '':''), (''{  '', ''{ ''),
      ('' {'', '' {'')]"

definition format_call_expr :: "string \<Rightarrow> string" where
  "format_call_expr txt = fold (\<lambda>(a, b). replace a b) call_replacements (collapse_expr_whitespace txt)"

section \<open>Patterns and statements\<close>

fun format_match_binding :: "match_binding \<Rightarrow> string" where
  "format_match_binding (MatchBinding fld name nested_type nested) =
     fld @
     (case nested_type of
        Some ty \<Rightarrow> '': '' @ ty @ '' { '' @ join '', '' (map format_match_binding nested) @ '' }''
      | None \<Rightarrow> (if name \<noteq> fld then '': '' @ name else []))"

fun format_match_payload :: "match_payload \<Rightarrow> string" where
  "format_match_payload (Binding name) = name"
| "format_match_payload (Destructure ty bindings) =
     ty @ '' { '' @ join '', '' (map format_match_binding bindings) @ '' }''"

fun format_match_pattern :: "match_pattern \<Rightarrow> string" where
  "format_match_pattern (Variant name payload bindings) =
     name @ (case payload of None \<Rightarrow> [] | Some p \<Rightarrow> ''('' @ format_match_payload p @ '')'')
     @ (if bindings = [] then [] else '' { '' @ join '', '' (map format_match_binding bindings) @ '' }'')"
| "format_match_pattern Wildcard = ''_''"

definition raw_call :: "raw_expr \<Rightarrow> string" where
  "raw_call e = format_call_expr (raw_text e)"

fun format_stmt :: "nat \<Rightarrow> stmt \<Rightarrow> string"
  and format_match_arm :: "nat \<Rightarrow> match_arm \<Rightarrow> string"
where
  "format_stmt level (Let_Stmt s) =
     indent level @ (if let_mutable s then ''var '' else ''let '') @ let_name s
     @ written '': '' (\<lambda>ty. type_raw ty @ format_labels (let_labels s)) (let_ty s)
     @ written '' = '' raw_call (let_expr s) @ newline_str"
| "format_stmt level (Assign_Stmt s) =
     indent level @ assign_name s @ '' = '' @ raw_call (assign_expr s) @ newline_str"
| "format_stmt level (Assert_Stmt s) =
     indent level @ ''assert '' @ raw_call (assert_expr s) @ newline_str"
| "format_stmt level (ExpectPolicy_Stmt outcome body _) =
     indent level @ (case outcome of Policy_Allow \<Rightarrow> ''expect_allow {'' | Policy_Deny \<Rightarrow> ''expect_deny {'') @ newline_str
     @ concat (map (format_stmt (level + 1)) body) @ indent level @ ''}'' @ newline_str"
| "format_stmt level (ExpectWorkflow_Stmt s) =
     indent level
     @ (case expect_outcome s of Workflow_Success \<Rightarrow> ''expect_workflow_success ''
        | Workflow_Failure \<Rightarrow> ''expect_workflow_failure '')
     @ raw_call (expect_call s) @ newline_str"
| "format_stmt level (ExpectAudit_Stmt s) =
     indent level @ ''expect_audit '' @ trim (raw_text (audit_event s)) @ newline_str"
| "format_stmt level (MockAi_Stmt s) =
     indent level @ ''mock_ai '' @ raw_call (mock_call s) @ '' => '' @ raw_call (mock_value s)
     @ '' confidence '' @ trim (raw_text (mock_confidence s)) @ newline_str"
| "format_stmt level (MockAiScan_Stmt s) =
     indent level @ ''mock_ai_scan '' @ raw_call (scan_call s) @ '' => '' @ scan_outcome s
     @ written '' reason '' raw_call (scan_reason s) @ newline_str"
| "format_stmt level (MockConnector_Stmt s) =
     indent level @ ''mock_connector '' @ raw_call (connector_call s) @ '' => ''
     @ raw_call (connector_value s) @ newline_str"
| "format_stmt level (Require_Stmt s) =
     indent level @ ''require Permission.'' @ require_permission s
     @ written '' for '' (\<lambda>a. a) (require_actor s) @ newline_str"
| "format_stmt level (Transaction_Stmt saga body _) =
     indent level @ (if saga then ''transaction saga {'' else ''transaction {'') @ newline_str
     @ concat (map (format_stmt (level + 1)) body) @ indent level @ ''}'' @ newline_str"
| "format_stmt level (If_Stmt condition then_body else_body _) =
     indent level @ ''if '' @ raw_call condition @ '' {'' @ newline_str
     @ concat (map (format_stmt (level + 1)) then_body) @ indent level @ ''}''
     @ (if else_body = [] then []
        else '' else {'' @ newline_str @ concat (map (format_stmt (level + 1)) else_body) @ indent level @ ''}'')
     @ newline_str"
| "format_stmt level (Match_Stmt e arms _) =
     indent level @ ''match '' @ raw_call e @ '' {'' @ newline_str
     @ concat (map (format_match_arm (level + 1)) arms) @ indent level @ ''}'' @ newline_str"
| "format_stmt level (Return_Stmt e) =
     indent level @ ''return''
     @ (if raw_call e = [] then [] else '' '' @ raw_call e) @ newline_str"
| "format_stmt level (Expr_Stmt e) = indent level @ raw_call e @ newline_str"
| "format_stmt level (Scope_Stmt body _) =
     indent level @ ''scope {'' @ newline_str
     @ concat (map (format_stmt (level + 1)) body) @ indent level @ ''}'' @ newline_str"
| "format_match_arm level (MatchArm pattern guard body _) =
     indent level @ format_match_pattern pattern @ written '' if '' raw_call guard @ '' => {'' @ newline_str
     @ concat (map (format_stmt (level + 1)) body) @ indent level @ ''}'' @ newline_str"

definition format_stmts :: "stmt list \<Rightarrow> nat \<Rightarrow> string" where
  "format_stmts body level = concat (map (format_stmt level) body)"

section \<open>Declarations\<close>

definition format_field :: "string \<Rightarrow> type_ref \<Rightarrow> labels \<Rightarrow> string" where
  "format_field name ty l = name @ '': '' @ type_raw ty @ format_labels l @ newline_str"

definition format_requires :: "string \<Rightarrow> string list \<Rightarrow> string" where
  "format_requires before ps = concat (map (\<lambda>p. before @ ''requires Permission.'' @ p) ps)"

definition format_callable :: "string \<Rightarrow> callable_decl \<Rightarrow> nat \<Rightarrow> string" where
  "format_callable kind c level =
     indent level @ kind @ '' '' @ callable_name c @ format_params (callable_params c)
     @ written '' -> '' type_raw (callable_result c) @ format_requires '' '' (callable_requires c)
     @ written '' budget '' (\<lambda>b. b) (callable_budget c) @ written '' rate limit '' (\<lambda>r. r) (callable_rate_limit c)
     @ '' {'' @ newline_str @ format_stmts (callable_body c) (level + 1) @ indent level @ ''}'' @ newline_str"

definition format_actor :: "actor_decl \<Rightarrow> string" where
  "format_actor a =
     ''actor '' @ actor_name a @ '' {'' @ newline_str
     @ concat (map (\<lambda>f. ''    state '' @ format_field (state_name f) (state_ty f) (state_labels f)) (actor_state a))
     @ (if actor_state a \<noteq> [] \<and> actor_handlers a \<noteq> [] then newline_str else [])
     @ join newline_str (map (\<lambda>h. format_callable ''fn'' h 1) (actor_handlers a)) @ ''}'' @ newline_str"

definition format_impl :: "impl_decl \<Rightarrow> string" where
  "format_impl i =
     ''impl '' @ impl_target i @ '' {'' @ newline_str
     @ concat (map (\<lambda>m. format_callable ''fn'' m 1) (impl_methods i)) @ ''}'' @ newline_str"

definition on_line :: "string \<Rightarrow> string" where
  "on_line txt = newline_str @ ''    '' @ txt"

definition format_action :: "action_decl \<Rightarrow> string" where
  "format_action a =
     ''action '' @ action_name a @ format_params (action_params a)
     @ written '' -> '' type_raw (action_result a)
     @ format_requires (on_line []) (action_requires a)
     @ (if action_risk a = Risk_Low then [] else on_line (''risk '' @ risk_text (action_risk a)))
     @ written (on_line ''timeout '') (\<lambda>x. x) (action_timeout a) @ written (on_line ''cost '') (\<lambda>x. x) (action_cost a)
     @ written (on_line ''retry '') (\<lambda>x. x) (action_retry a)
     @ written (on_line ''idempotency key '') format_call_expr (action_idempotency_key a)
     @ written (on_line ''rollback '') format_call_expr (action_rollback a)
     @ newline_str @ ''{'' @ newline_str @ format_stmts (action_body a) 1 @ ''}'' @ newline_str"

definition format_connector :: "connector_decl \<Rightarrow> string" where
  "format_connector c =
     ''connector '' @ connector_name c @ '' {'' @ newline_str
     @ concat (map (\<lambda>m. ''    '' @ method_name m @ format_params (method_params m)
                       @ written '' -> '' type_raw (method_result m) @ newline_str) (connector_methods c))
     @ ''}'' @ newline_str"

definition format_route :: "service_route \<Rightarrow> string" where
  "format_route r =
     ''    route '' @ route_method r @ '' '' @ [CHR 0x22] @ route_path r @ [CHR 0x22]
     @ format_requires '' '' (route_requires r) @ '' {'' @ newline_str
     @ written ''        input '' (\<lambda>i. format_field (input_name i) (input_ty i) (input_labels i)) (route_input r)
     @ format_stmts (route_body r) 2 @ ''    }'' @ newline_str"

definition format_service :: "service_decl \<Rightarrow> string" where
  "format_service s =
     ''service '' @ service_name s @ written '' budget '' (\<lambda>b. b) (service_budget s)
     @ written '' rate limit '' (\<lambda>r. r) (service_rate_limit s) @ '' {'' @ newline_str
     @ concat (map format_route (service_routes s)) @ ''}'' @ newline_str"

definition format_test :: "test_decl \<Rightarrow> string" where
  "format_test t =
     ''test '' @ (case test_kind t of Test_Unit \<Rightarrow> [] | Test_Policy \<Rightarrow> ''policy '' | Test_Workflow \<Rightarrow> ''workflow ''
                 | Test_Ai \<Rightarrow> ''ai '')
     @ [CHR 0x22] @ test_name t @ [CHR 0x22] @ '' {'' @ newline_str @ format_stmts (test_body t) 1 @ ''}'' @ newline_str"

definition format_block :: "string \<Rightarrow> string \<Rightarrow> string list \<Rightarrow> string" where
  "format_block kind name items =
     kind @ '' '' @ name @ '' {'' @ newline_str @ concat (map (\<lambda>x. ''    '' @ x @ newline_str) items) @ ''}'' @ newline_str"

definition format_type :: "type_decl \<Rightarrow> string" where
  "format_type t =
     ''type '' @ type_name t @ format_generic_params (type_generic_params t)
     @ (case type_body t of
          Struct_Body fs \<Rightarrow>
            '' {'' @ newline_str
            @ concat (map (\<lambda>f. ''    '' @ format_field (field_name f) (field_ty f) (field_labels f)) fs)
            @ ''}'' @ newline_str
        | Alias_Body alias \<Rightarrow> '' = '' @ type_raw alias @ newline_str)"

definition format_variant :: "enum_variant \<Rightarrow> string" where
  "format_variant v =
     variant_name v @ (case variant_payload v of None \<Rightarrow> [] | Some p \<Rightarrow> ''('' @ type_raw p @ '')'')"

definition format_rule :: "policy_rule \<Rightarrow> string" where
  "format_rule r = (case rule_effect r of Effect_Allow \<Rightarrow> ''allow '' | Effect_Deny \<Rightarrow> ''deny '') @ rule_raw r"

fun format_decl :: "top_decl \<Rightarrow> string" where
  "format_decl (Permission_Decl p) = ''permission '' @ permission_name p @ newline_str"
| "format_decl (Role_Decl r) = format_block ''role'' (role_name r) (map (\<lambda>p. ''allow '' @ p) (role_allows r))"
| "format_decl (Policy_Decl p) = format_block ''policy'' (policy_name p) (map format_rule (policy_rules p))"
| "format_decl (Type_Decl t) = format_type t"
| "format_decl (Enum_Decl e) = format_block ''enum'' (enum_name e) (map format_variant (enum_variants e))"
| "format_decl (Function_Decl c) = format_callable ''fn'' c 0"
| "format_decl (Workflow_Decl c) = format_callable ''workflow'' c 0"
| "format_decl (Actor_Decl a) = format_actor a"
| "format_decl (Action_Decl a) = format_action a"
| "format_decl (Connector_Decl c) = format_connector c"
| "format_decl (Service_Decl s) = format_service s"
| "format_decl (Test_Decl t) = format_test t"
| "format_decl (Impl_Decl i) = format_impl i"

text \<open>The loop over the declarations puts a line break before each but the first, and one after each.\<close>

definition format_module :: "module_ast \<Rightarrow> string" where
  "format_module m =
     written ''module '' (\<lambda>n. n @ newline_str @ newline_str) (mod_name m)
     @ concat (map (\<lambda>i. ''use '' @ import_path i @ newline_str) (mod_imports m))
     @ (if mod_imports m = [] then [] else newline_str)
     @ join newline_str (map (\<lambda>d. format_decl d @ newline_str) (mod_declarations m))"

section \<open>What formatting does to literals\<close>

text \<open>The replacements do not know about literals: the text of this one is changed.\<close>

lemma format_changes_literal:
  "format_call_expr ([CHR 0x22] @ ''a . b'' @ [CHR 0x22]) = [CHR 0x22] @ ''a.b'' @ [CHR 0x22]"
  by code_simp

lemma collapse_keeps_literal:
  "collapse_expr_whitespace ([CHR 0x22] @ ''a . b'' @ [CHR 0x22]) = [CHR 0x22] @ ''a . b'' @ [CHR 0x22]"
  by code_simp

end
