(* ===== verification/Lint.thy ===== *)
theory Lint
  imports Formatter
begin

text \<open>
  \<open>num-compiler/src/ir.rs\<close> and \<open>lint.rs\<close>: the effects of a module as the tools see them, and the
  warnings about a module that is otherwise correct.
\<close>

section \<open>Intermediate representation\<close>

datatype ir_item_kind =
  IrPermission | IrRole | IrPolicy | IrType | IrEnum | IrFunction | IrWorkflow | IrActor | IrAction | IrConnector
  | IrService | IrTest | IrImpl

datatype ir_effect =
    Eff_Permission string
  | Eff_DataPolicy string
  | Eff_TypeAlias string
  | Eff_ConnectorMethod string
  | Eff_ActorState string
  | Eff_ActorHandler string
  | Eff_ServiceRoute string
  | Eff_AuditRequired
  | Eff_Rollback string
  | Eff_Cost string
  | Eff_Budget string
  | Eff_RateLimit string
  | Eff_Retry string
  | Eff_IdempotencyKey string
  | Eff_TestKind string
  | Eff_Workflow
  | Eff_ExternalAction

record ir_item =
  ir_kind :: ir_item_kind
  ir_name :: string
  ir_effects :: "ir_effect list"

record ir_module =
  ir_module_name :: "string option"
  ir_items :: "ir_item list"

definition from_option :: "('a \<Rightarrow> 'b) \<Rightarrow> 'a option \<Rightarrow> 'b list" where
  "from_option f x = (case x of None \<Rightarrow> [] | Some y \<Rightarrow> [f y])"

text \<open>The order of the risks, as declared.\<close>

fun risk_level :: "risk \<Rightarrow> nat" where
  "risk_level Risk_Low = 0"
| "risk_level Risk_Medium = 1"
| "risk_level Risk_High = 2"
| "risk_level Risk_Critical = 3"

definition high_risk :: "action_decl \<Rightarrow> bool" where
  "high_risk a \<longleftrightarrow> risk_level Risk_High \<le> risk_level (action_risk a)"

definition signature :: "string \<Rightarrow> param list \<Rightarrow> type_ref option \<Rightarrow> string" where
  "signature name ps result =
     name @ ''('' @ join '', '' (map (\<lambda>p. param_name p @ '': '' @ type_raw (param_ty p)) ps) @ '') -> ''
     @ unwrap_or ''Unit'' (map_option type_raw result)"

definition callable_signature :: "callable_decl \<Rightarrow> string" where
  "callable_signature c = signature (callable_name c) (callable_params c) (callable_result c)"

definition connector_method_signature :: "connector_method \<Rightarrow> string" where
  "connector_method_signature m = signature (method_name m) (method_params m) (method_result m)"

definition actor_state_signature :: "actor_state_field \<Rightarrow> string" where
  "actor_state_signature f = state_name f @ '': '' @ type_raw (state_ty f)"

definition service_route_signature :: "service_route \<Rightarrow> string" where
  "service_route_signature r =
     route_method r @ '' '' @ [CHR 0x22] @ route_path r @ [CHR 0x22]
     @ (if route_requires r = [] then [] else '' requires '' @ join '', '' (route_requires r))
     @ written '' input '' (\<lambda>i. input_name i @ '': '' @ type_raw (input_ty i)) (route_input r)"

definition callable_effects :: "callable_decl \<Rightarrow> bool \<Rightarrow> ir_effect list" where
  "callable_effects c workflow =
     (if workflow then [Eff_Workflow] else []) @ map Eff_Permission (callable_requires c)
     @ from_option Eff_Budget (callable_budget c) @ from_option Eff_RateLimit (callable_rate_limit c)"

fun test_kind_name :: "test_kind \<Rightarrow> string" where
  "test_kind_name Test_Unit = ''unit''"
| "test_kind_name Test_Policy = ''policy''"
| "test_kind_name Test_Workflow = ''workflow''"
| "test_kind_name Test_Ai = ''ai''"

definition action_effects :: "action_decl \<Rightarrow> ir_effect list" where
  "action_effects a =
     [Eff_ExternalAction] @ map Eff_Permission (action_requires a)
     @ (if high_risk a then [Eff_AuditRequired] else [])
     @ from_option Eff_Rollback (action_rollback a) @ from_option Eff_Cost (action_cost a)
     @ from_option Eff_Retry (action_retry a) @ from_option Eff_IdempotencyKey (action_idempotency_key a)"

fun decl_kind :: "top_decl \<Rightarrow> ir_item_kind" where
  "decl_kind (Permission_Decl _) = IrPermission"
| "decl_kind (Role_Decl _) = IrRole"
| "decl_kind (Policy_Decl _) = IrPolicy"
| "decl_kind (Type_Decl _) = IrType"
| "decl_kind (Enum_Decl _) = IrEnum"
| "decl_kind (Function_Decl _) = IrFunction"
| "decl_kind (Workflow_Decl _) = IrWorkflow"
| "decl_kind (Actor_Decl _) = IrActor"
| "decl_kind (Action_Decl _) = IrAction"
| "decl_kind (Connector_Decl _) = IrConnector"
| "decl_kind (Service_Decl _) = IrService"
| "decl_kind (Test_Decl _) = IrTest"
| "decl_kind (Impl_Decl _) = IrImpl"

fun decl_effects :: "top_decl \<Rightarrow> ir_effect list" where
  "decl_effects (Permission_Decl _) = []"
| "decl_effects (Role_Decl r) = map Eff_Permission (role_allows r)"
| "decl_effects (Policy_Decl p) = map (\<lambda>r. Eff_DataPolicy (rule_raw r)) (policy_rules p)"
| "decl_effects (Type_Decl t) =
     (case type_body t of Struct_Body _ \<Rightarrow> [] | Alias_Body alias \<Rightarrow> [Eff_TypeAlias (type_raw alias)])"
| "decl_effects (Enum_Decl _) = []"
| "decl_effects (Function_Decl c) = callable_effects c False"
| "decl_effects (Workflow_Decl c) = callable_effects c True"
| "decl_effects (Actor_Decl a) =
     map (\<lambda>f. Eff_ActorState (actor_state_signature f)) (actor_state a)
     @ map (\<lambda>h. Eff_ActorHandler (callable_signature h)) (actor_handlers a)"
| "decl_effects (Action_Decl a) = action_effects a"
| "decl_effects (Connector_Decl c) =
     map (\<lambda>m. Eff_ConnectorMethod (connector_method_signature m)) (connector_methods c)"
| "decl_effects (Service_Decl s) =
     map (\<lambda>r. Eff_ServiceRoute (service_route_signature r)) (service_routes s)
     @ from_option Eff_Budget (service_budget s) @ from_option Eff_RateLimit (service_rate_limit s)"
| "decl_effects (Test_Decl t) = [Eff_TestKind (test_kind_name (test_kind t))]"
| "decl_effects (Impl_Decl _) = []"

definition lower_decl :: "top_decl \<Rightarrow> ir_item" where
  "lower_decl d = \<lparr>ir_kind = decl_kind d, ir_name = declaration_name d, ir_effects = decl_effects d\<rparr>"

definition lower_module :: "module_ast \<Rightarrow> ir_module" where
  "lower_module m = \<lparr>ir_module_name = mod_name m, ir_items = map lower_decl (mod_declarations m)\<rparr>"

section \<open>Lints\<close>

definition warn :: "string \<Rightarrow> string \<Rightarrow> span \<Rightarrow> string \<Rightarrow> string \<Rightarrow> diagnostic" where
  "warn code msg sp reason help = with_help help (with_reason reason (diagnostic_warning code msg sp))"

definition lint_labels :: "string \<Rightarrow> type_ref \<Rightarrow> labels \<Rightarrow> span \<Rightarrow> string \<Rightarrow> diagnostic list" where
  "lint_labels name ty l sp kind =
     (if label_privacy l \<in> {Some Privacy_Private, Some Privacy_Sensitive, Some Privacy_Regulated}
         \<and> label_source l = None
      then [warn ''N4005'' (kind @ '' `'' @ name @ ''` has privacy label without provenance source'') sp
              ''privacy checks are stronger when values also declare their origin''
              ''add `from <Source>` next to the privacy label'']
      else [])
     @ (if is_secret ty \<and> label_privacy l \<noteq> Some Privacy_Secret
        then [warn ''N4006'' (''secret '' @ kind @ '' `'' @ name @ ''` is missing `secret` privacy label'') sp
                ''Secret<T> values should also carry the explicit secret data label''
                ''add `secret` to the declaration'']
        else [])"

definition lint_params :: "param list \<Rightarrow> diagnostic list" where
  "lint_params ps =
     concat (map (\<lambda>p. lint_labels (param_name p) (param_ty p) (param_labels p) (param_span p) ''parameter'') ps)"

definition lint_type :: "type_decl \<Rightarrow> diagnostic list" where
  "lint_type t =
     (case type_body t of
        Struct_Body fs \<Rightarrow>
          concat (map (\<lambda>f. lint_labels (field_name f) (field_ty f) (field_labels f) (field_span f) ''field'') fs)
      | Alias_Body _ \<Rightarrow> [])"

definition lint_action :: "action_decl \<Rightarrow> diagnostic list" where
  "lint_action a =
     lint_params (action_params a)
     @ (if high_risk a then
          (if action_timeout a = None
           then [warn ''N4001'' (''high-risk action `'' @ action_name a @ ''` has no timeout'') (action_span a)
                   ''external actions should have bounded execution time''
                   ''add `timeout <duration>` to the action signature'']
           else [])
          @ (if action_cost a = None
             then [warn ''N4002'' (''high-risk action `'' @ action_name a @ ''` has no cost metadata'') (action_span a)
                     ''cost-aware workflows need action cost metadata''
                     ''add `cost <amount> <currency>` to the action signature'']
             else [])
          @ (if action_idempotency_key a = None
             then [warn ''N4003'' (''high-risk action `'' @ action_name a @ ''` has no idempotency key'') (action_span a)
                     ''retries and workflow resumes should not repeat real-world effects''
                     ''add `idempotency key <stable expression>` to the action signature'']
             else [])
        else [])"

definition lint_route :: "service_route \<Rightarrow> diagnostic list" where
  "lint_route r =
     (if route_requires r = []
      then [warn ''N4004''
              (''service route `'' @ route_method r @ '' '' @ route_path r @ ''` has no permission requirement'')
              (route_span r) ''backend routes should make authorization explicit''
              ''add `requires Permission.<Name>` to the route'']
      else [])
     @ (case route_input r of None \<Rightarrow> []
        | Some i \<Rightarrow> lint_labels (input_name i) (input_ty i) (input_labels i) (input_span i) ''route input'')"

fun lint_decl :: "top_decl \<Rightarrow> diagnostic list" where
  "lint_decl (Function_Decl c) = lint_params (callable_params c)"
| "lint_decl (Workflow_Decl c) = lint_params (callable_params c)"
| "lint_decl (Action_Decl a) = lint_action a"
| "lint_decl (Actor_Decl a) = concat (map (\<lambda>h. lint_params (callable_params h)) (actor_handlers a))"
| "lint_decl (Service_Decl s) = concat (map lint_route (service_routes s))"
| "lint_decl (Type_Decl t) = lint_type t"
| "lint_decl (Impl_Decl i) = concat (map (\<lambda>m. lint_params (callable_params m)) (impl_methods i))"
| "lint_decl (Permission_Decl _) = []"
| "lint_decl (Role_Decl _) = []"
| "lint_decl (Policy_Decl _) = []"
| "lint_decl (Enum_Decl _) = []"
| "lint_decl (Connector_Decl _) = []"
| "lint_decl (Test_Decl _) = []"

definition lint_module :: "module_ast \<Rightarrow> diagnostic list" where
  "lint_module m =
     (case (mod_name m, mod_declarations m) of
        (None, first # _) \<Rightarrow>
          [warn ''N4000'' ''module has no explicit module path'' (declaration_span first)
             ''multi-file and package imports depend on declared module paths''
             ''add `module package.name` at the top of the file'']
      | _ \<Rightarrow> [])
     @ concat (map lint_decl (mod_declarations m))"

section \<open>What they show\<close>

definition only_warnings :: "diagnostic list \<Rightarrow> bool" where
  "only_warnings ds \<longleftrightarrow> list_all (\<lambda>d. \<not> is_error d) ds"

lemma only_warnings [simp]:
  "only_warnings []" "only_warnings (ds @ ds') \<longleftrightarrow> only_warnings ds \<and> only_warnings ds'"
  "only_warnings (concat dss) \<longleftrightarrow> list_all only_warnings dss"
  "only_warnings [warn code msg sp reason help]"
  by (auto simp: only_warnings_def list_all_iff warn_def is_error_def diagnostic_warning_def
      with_reason_def with_help_def)

lemma lint_labels_warns [simp]: "only_warnings (lint_labels name ty l sp k)"
  by (simp add: lint_labels_def del: append_Cons)

lemma lint_params_warns [simp]: "only_warnings (lint_params ps)"
  by (simp add: lint_params_def list_all_iff)

lemma lint_decl_warns [simp]: "only_warnings (lint_decl d)"
  by (cases d) (simp_all add: list_all_iff lint_action_def lint_route_def lint_type_def
      split: option.split type_body.split)

text \<open>Lints never stop a program: whatever they find is a warning.\<close>

lemma lint_only_warns: "only_warnings (lint_module m)"
  by (simp add: lint_module_def list_all_iff split: option.split list.split)

text \<open>An action is marked for the audit in the IR exactly when the lints ask for its timeout, cost and key.\<close>

lemma audit_required_iff: "Eff_AuditRequired \<in> set (decl_effects (Action_Decl a)) \<longleftrightarrow> high_risk a"
  by (auto simp: action_effects_def from_option_def split: option.splits)

end
