(* ===== verification/Program.thy ===== *)
theory Program
  imports Parser_Spec Lint Lexer
begin

text \<open>
  \<open>num-compiler/src/program.rs\<close>: a program of several files. The modules are found by their names,
  the declarations of the imported ones come before those of the importing one.
\<close>

record source_file =
  file_name :: string
  file_source :: string

record program_module =
  unit_source_name :: string
  unit_module :: module_ast

definition parse_file :: "source_file \<Rightarrow> program_module \<times> diagnostic list" where
  "parse_file f =
     (let lexed = lex (file_name f) (file_source f); parsed = parse_module (lexed_tokens lexed)
      in (\<lparr>unit_source_name = file_name f, unit_module = parsed_module parsed\<rparr>,
          lexed_diagnostics lexed @ parsed_diagnostics parsed))"

text \<open>The tokens of a file end with \<open>Eof\<close>, so the parser returns on them.\<close>

lemma lexed_tokens_end:
  "lexed_tokens (lex name src) \<noteq> []" "token_kind (last (lexed_tokens (lex name src))) = Eof"
  by (simp_all add: lex_def Let_def eof_token_def)

lemma parse_file_returns: "\<not> ps_stuck (snd (run_parser (lexed_tokens (lex (file_name f) (file_source f)))))"
  using run_parser_steps(1) [of "lexed_tokens (lex (file_name f) (file_source f))"]
  by (simp add: steps_def new_parser_def closed_def lexed_tokens_end)

definition parse_files :: "source_file list \<Rightarrow> program_module list \<times> diagnostic list" where
  "parse_files files = (map (fst \<circ> parse_file) files, concat (map (snd \<circ> parse_file) files))"

definition module_span :: "program_module \<Rightarrow> span" where
  "module_span u =
     (case mod_declarations (unit_module u) of
        d # _ \<Rightarrow> declaration_span d
      | [] \<Rightarrow> synthetic_span (unit_source_name u))"

definition duplicate_module :: "string \<Rightarrow> program_module \<Rightarrow> diagnostic" where
  "duplicate_module name u =
     with_help ''rename one module or remove the duplicate file from the check''
       (with_reason ''program checks require each module path to be unique''
         (diagnostic_error ''N1001'' (''duplicate module `'' @ name @ ''`'') (module_span u)))"

text \<open>
  The index, a hash map from names to modules, is a list of pairs with distinct names; the set
  \<open>seen\<close> of the code holds the same names. The first module of a name stays.
\<close>

type_synonym module_map = "(string \<times> program_module) list"

definition index_unit :: "program_module \<Rightarrow> module_map \<times> diagnostic list \<Rightarrow> module_map \<times> diagnostic list" where
  "index_unit u acc =
     (case mod_name (unit_module u) of
        None \<Rightarrow> acc
      | Some name \<Rightarrow>
          (if map_of (fst acc) name \<noteq> None then (fst acc, snd acc @ [duplicate_module name u])
           else ((name, u) # fst acc, snd acc)))"

definition module_index :: "program_module list \<Rightarrow> module_map \<times> diagnostic list" where
  "module_index us = fold index_unit us ([], [])"

section \<open>Imports\<close>

record import_state =
  im_visited :: "string set"
  im_resolving :: "string set"
  im_diagnostics :: "diagnostic list"
  im_declarations :: "top_decl list"

definition unknown_import :: "string \<Rightarrow> span \<Rightarrow> diagnostic" where
  "unknown_import path sp =
     with_help ''add the module file to the checked directory or fix the `use` path''
       (with_reason ''the imported module was not part of this program check''
         (diagnostic_error ''N1002'' (''unknown module import `'' @ path @ ''`'') sp))"

definition unit_imports :: "program_module \<Rightarrow> import_decl list" where
  "unit_imports u = mod_imports (unit_module u)"

definition unit_declarations :: "program_module \<Rightarrow> top_decl list" where
  "unit_declarations u = mod_declarations (unit_module u)"

text \<open>What \<open>collect_imports\<close> does before and after the loop over the imports of a module.\<close>

definition enter_module :: "string \<Rightarrow> import_state \<Rightarrow> import_state" where
  "enter_module path st =
     st\<lparr>im_visited := insert path (im_visited st), im_resolving := insert path (im_resolving st)\<rparr>"

definition leave_module :: "string \<Rightarrow> program_module \<Rightarrow> import_state \<Rightarrow> import_state" where
  "leave_module path u st =
     st\<lparr>im_resolving := im_resolving st - {path},
        im_declarations := im_declarations st @ unit_declarations u\<rparr>"

definition miss_module :: "import_decl \<Rightarrow> import_state \<Rightarrow> import_state" where
  "miss_module i st =
     st\<lparr>im_visited := insert (import_path i) (im_visited st),
        im_diagnostics := im_diagnostics st @ [unknown_import (import_path i) (import_span i)]\<rparr>"

text \<open>
  \<open>collect_imports\<close> and its loop. Each path is entered once, because \<open>visited\<close> only grows, so the
  depth of the recursion is bounded by the size of the index: that is the fuel, and
  \<open>collect_terminates\<close> shows that it is enough. Without fuel the result is \<open>None\<close>.
\<close>

function collect_imports :: "nat \<Rightarrow> module_map \<Rightarrow> import_decl \<Rightarrow> import_state \<Rightarrow> import_state option"
  and collect_all :: "nat \<Rightarrow> module_map \<Rightarrow> import_decl list \<Rightarrow> import_state \<Rightarrow> import_state option"
where
  "collect_imports fuel index i st =
     (if import_path i \<in> im_visited st then Some st
      else
        (case map_of index (import_path i) of
           None \<Rightarrow> Some (miss_module i st)
         | Some u \<Rightarrow>
             (if import_path i \<in> im_resolving st
              then Some (st\<lparr>im_visited := insert (import_path i) (im_visited st)\<rparr>)
              else
                (case fuel of
                   0 \<Rightarrow> None
                 | Suc n \<Rightarrow>
                     map_option (leave_module (import_path i) u)
                       (collect_all n index (unit_imports u) (enter_module (import_path i) st))))))"
| "collect_all fuel index [] st = Some st"
| "collect_all fuel index (i # is) st =
     (case collect_imports fuel index i st of None \<Rightarrow> None | Some st' \<Rightarrow> collect_all fuel index is st')"
  by pat_completeness auto
termination
  by (relation "measures [case_sum (\<lambda>(n, _). n) (\<lambda>(n, _). n),
      case_sum (\<lambda>(n, _). 0) (\<lambda>(n, _, is, _). Suc (length is))]") auto

declare collect_imports.simps [simp del]

definition visible_module :: "module_map \<Rightarrow> program_module \<Rightarrow> (module_ast \<times> nat \<times> diagnostic list) option" where
  "visible_module index u =
     map_option
       (\<lambda>st. ((unit_module u)\<lparr>mod_declarations := im_declarations st @ unit_declarations u\<rparr>,
              length (im_declarations st), im_diagnostics st))
       (collect_all (length index) index (unit_imports u)
         \<lparr>im_visited = {}, im_resolving = {}, im_diagnostics = [], im_declarations = []\<rparr>)"

section \<open>The specification of imports\<close>

text \<open>The paths that a list of imports reaches in the index.\<close>

inductive_set reached :: "module_map \<Rightarrow> import_decl list \<Rightarrow> string set" for index "is" where
  here: "i \<in> set is \<Longrightarrow> import_path i \<in> reached index is"
| step: "p \<in> reached index is \<Longrightarrow> map_of index p = Some u \<Longrightarrow> i \<in> set (unit_imports u)
    \<Longrightarrow> import_path i \<in> reached index is"

definition unvisited :: "module_map \<Rightarrow> import_state \<Rightarrow> nat" where
  "unvisited index st = length (filter (\<lambda>k. k \<notin> im_visited st) (map fst index))"

lemma filter_length_le: "(\<And>x. P x \<Longrightarrow> Q x) \<Longrightarrow> length (filter P xs) \<le> length (filter Q xs)"
  by (induction xs) auto

lemma filter_length_less:
  "(\<And>x. P x \<Longrightarrow> Q x) \<Longrightarrow> x \<in> set xs \<Longrightarrow> Q x \<Longrightarrow> \<not> P x \<Longrightarrow> length (filter P xs) < length (filter Q xs)"
proof (induction xs)
  case (Cons y ys)
  have "length (filter P ys) \<le> length (filter Q ys)" using Cons.prems(1) by (rule filter_length_le)
  then show ?case using Cons by (cases "x = y") auto
qed simp

lemma unvisited_mono: "im_visited st \<subseteq> im_visited st' \<Longrightarrow> unvisited index st' \<le> unvisited index st"
  unfolding unvisited_def by (rule filter_length_le) auto

lemma unvisited_enter:
  assumes "map_of index p = Some u" and "p \<notin> im_visited st"
  shows "unvisited index (enter_module p st) < unvisited index st"
  unfolding unvisited_def enter_module_def
proof (rule filter_length_less)
  show "p \<in> set (map fst index)" using assms(1) by (metis domI dom_map_of_conv_image_fst list.set_map)
qed (use assms in auto)

text \<open>
  What a run of the loop adds: the declarations of the modules \<open>ps\<close> in the order in which they were
  left, and a diagnostic for each unknown path in \<open>qs\<close>; both together are the new visited paths.
\<close>

definition collected :: "module_map \<Rightarrow> import_decl list \<Rightarrow> import_state \<Rightarrow> import_state \<Rightarrow>
    string list \<Rightarrow> (string \<times> span) list \<Rightarrow> bool" where
  "collected index is st st' ps qs \<longleftrightarrow>
     distinct (ps @ map fst qs) \<and> set ps \<subseteq> dom (map_of index) \<and> fst ` set qs \<inter> dom (map_of index) = {}
     \<and> im_visited st' = im_visited st \<union> (set ps \<union> fst ` set qs)
     \<and> (set ps \<union> fst ` set qs) \<inter> im_visited st = {}
     \<and> im_resolving st' = im_resolving st
     \<and> im_declarations st' =
         im_declarations st @ concat (map (\<lambda>p. unit_declarations (the (map_of index p))) ps)
     \<and> im_diagnostics st' = im_diagnostics st @ map (\<lambda>(q, sp). unknown_import q sp) qs
     \<and> import_path ` set is \<subseteq> im_visited st'
     \<and> (\<Union>p \<in> set ps. import_path ` set (unit_imports (the (map_of index p)))) \<subseteq> im_visited st'
     \<and> set ps \<union> fst ` set qs \<subseteq> reached index is"

lemma reached_mono: "set is \<subseteq> set js \<Longrightarrow> reached index is \<subseteq> reached index js"
proof
  fix p assume "p \<in> reached index is" "set is \<subseteq> set js"
  then show "p \<in> reached index js" by induction (auto intro: reached.intros)
qed

lemma reached_through:
  assumes "map_of index (import_path i) = Some u" and "i \<in> set is"
  shows "reached index (unit_imports u) \<subseteq> reached index is"
proof
  fix p assume "p \<in> reached index (unit_imports u)"
  then show "p \<in> reached index is"
    by induction (use assms in \<open>auto intro: reached.intros\<close>)
qed

lemma collectedD:
  assumes "collected index is st st' ps qs"
  shows "distinct ps" "distinct (map fst qs)" "set ps \<inter> fst ` set qs = {}"
    and "set ps \<subseteq> dom (map_of index)" "fst ` set qs \<inter> dom (map_of index) = {}"
    and "im_visited st' = im_visited st \<union> (set ps \<union> fst ` set qs)"
    and "(set ps \<union> fst ` set qs) \<inter> im_visited st = {}" "im_resolving st' = im_resolving st"
    and "im_declarations st' =
      im_declarations st @ concat (map (\<lambda>p. unit_declarations (the (map_of index p))) ps)"
    and "im_diagnostics st' = im_diagnostics st @ map (\<lambda>(q, sp). unknown_import q sp) qs"
    and "import_path ` set is \<subseteq> im_visited st'"
    and "(\<Union>p \<in> set ps. import_path ` set (unit_imports (the (map_of index p)))) \<subseteq> im_visited st'"
    and "set ps \<union> fst ` set qs \<subseteq> reached index is"
  using assms unfolding collected_def distinct_append set_map by - (elim conjE, assumption)+

lemma collected_none: "import_path ` set is \<subseteq> im_visited st \<Longrightarrow> collected index is st st [] []"
  by (simp add: collected_def)

lemma collected_miss:
  "import_path i \<notin> im_visited st \<Longrightarrow> map_of index (import_path i) = None \<Longrightarrow>
     collected index [i] st (miss_module i st) [] [(import_path i, import_span i)]"
  by (auto simp: collected_def miss_module_def intro: reached.intros)

lemma collected_enter:
  assumes "import_path i \<notin> im_visited st" and "map_of index (import_path i) = Some u"
    and "import_path i \<notin> im_resolving st"
    and "collected index (unit_imports u) (enter_module (import_path i) st) st' ps qs"
  shows "collected index [i] st (leave_module (import_path i) u st') (ps @ [import_path i]) qs"
proof -
  have "set ps \<union> fst ` set qs \<subseteq> reached index [i]"
    using assms(4) reached_through [OF assms(2), of "[i]"] by (auto simp: collected_def)
  moreover have "import_path i \<in> reached index [i]" by (auto intro: reached.intros)
  ultimately show ?thesis
    using assms(1-3) collectedD [OF assms(4)] unfolding collected_def
    by (intro conjI) (auto simp: enter_module_def leave_module_def)
qed

lemma collected_append:
  assumes "collected index [i] st st1 ps qs" and "collected index is st1 st2 ps' qs'"
  shows "collected index (i # is) st st2 (ps @ ps') (qs @ qs')"
proof -
  have "set ps \<union> fst ` set qs \<subseteq> reached index (i # is)" "set ps' \<union> fst ` set qs' \<subseteq> reached index (i # is)"
    by (rule subset_trans [OF collectedD(13) [OF assms(1)] reached_mono], simp)
      (rule subset_trans [OF collectedD(13) [OF assms(2)] reached_mono], rule set_subset_Cons)
  note new = this
  note d = collectedD [OF assms(1)] and e = collectedD [OF assms(2)]
  have sub: "im_visited st1 \<subseteq> im_visited st2" using e(6) by simp
  have disj: "(set ps \<union> fst ` set qs) \<inter> (set ps' \<union> fst ` set qs') = {}" using e(7) d(6) by blast
  show ?thesis
    unfolding collected_def
  proof (intro conjI)
    show "distinct ((ps @ ps') @ map fst (qs @ qs'))"
      using d(1-3) e(1-3) disj by (simp add: Int_Un_distrib Int_Un_distrib2) blast
    show "im_visited st2 = im_visited st \<union> (set (ps @ ps') \<union> fst ` set (qs @ qs'))"
      unfolding e(6) d(6) by (simp add: image_Un Un_ac)
    show "(set (ps @ ps') \<union> fst ` set (qs @ qs')) \<inter> im_visited st = {}"
      using e(7) d(6,7) by (simp add: image_Un Int_Un_distrib Int_Un_distrib2)
    show "import_path ` set (i # is) \<subseteq> im_visited st2" using d(11) e(11) sub by auto
    show "(\<Union>p \<in> set (ps @ ps'). import_path ` set (unit_imports (the (map_of index p)))) \<subseteq> im_visited st2"
      using d(12) e(12) sub by (simp add: UN_Un)
    show "set (ps @ ps') \<union> fst ` set (qs @ qs') \<subseteq> reached index (i # is)"
      using new by (simp add: image_Un)
    show "fst ` set (qs @ qs') \<inter> dom (map_of index) = {}" using d(5) e(5) by (simp add: image_Un Int_Un_distrib2)
  qed (use d(4,8-10) e(4,8-10) in simp_all)
qed

lemma collect_terminates:
  "unvisited index st \<le> fuel \<Longrightarrow> im_resolving st \<subseteq> im_visited st \<Longrightarrow>
     \<exists>st' ps qs. collect_imports fuel index i st = Some st' \<and> collected index [i] st st' ps qs"
  "unvisited index st \<le> fuel \<Longrightarrow> im_resolving st \<subseteq> im_visited st \<Longrightarrow>
     \<exists>st' ps qs. collect_all fuel index is st = Some st' \<and> collected index is st st' ps qs"
proof (induction fuel index i st and fuel index "is" st rule: collect_imports_collect_all.induct)
  case (1 fuel index i st)
  let ?p = "import_path i"
  show ?case
  proof (cases "?p \<in> im_visited st \<or> map_of index ?p = None")
    case True
    then show ?thesis
      using collected_none [of "[i]" st index] collected_miss [of i st index]
      by (cases "?p \<in> im_visited st") (simp_all add: collect_imports.simps [of fuel], blast+)
  next
    case False
    then obtain u where u: "map_of index ?p = Some u" and v: "?p \<notin> im_visited st" by auto
    have r: "?p \<notin> im_resolving st" using v "1.prems"(2) by auto
    have less: "unvisited index (enter_module ?p st) < fuel"
      using unvisited_enter [OF u v] "1.prems"(1) by simp
    then obtain n where n: "fuel = Suc n" by (cases fuel) auto
    then obtain st' ps qs where "collect_all n index (unit_imports u) (enter_module ?p st) = Some st'"
      "collected index (unit_imports u) (enter_module ?p st) st' ps qs"
      using "1.IH" [OF v u r n] less "1.prems"(2) by (auto simp: enter_module_def)
    then show ?thesis
      using u v r n collected_enter [OF v u r, of st' ps qs]
      by (intro exI [of _ "leave_module ?p u st'"] exI [of _ "ps @ [?p]"] exI [of _ qs])
        (simp add: collect_imports.simps [of "Suc n"])
  qed
next
  case (2 fuel index st)
  then show ?case using collected_none [of "[]" st index] by auto
next
  case (3 fuel index i "is" st)
  then obtain st1 ps qs where c: "collect_imports fuel index i st = Some st1" "collected index [i] st st1 ps qs"
    by blast
  then have "im_visited st \<subseteq> im_visited st1" "im_resolving st1 = im_resolving st" by (auto simp: collected_def)
  then have "unvisited index st1 \<le> fuel" "im_resolving st1 \<subseteq> im_visited st1"
    using unvisited_mono "3.prems" by (blast intro: le_trans)+
  from "3.IH"(2) [OF c(1) this] obtain st2 ps' qs' where
    "collect_all fuel index is st1 = Some st2" "collected index is st1 st2 ps' qs'" by blast
  then show ?case using c collected_append by fastforce
qed

lemma collected_all_reached:
  assumes "collected index is \<lparr>im_visited = {}, im_resolving = {}, im_diagnostics = [], im_declarations = []\<rparr> st ps qs"
  shows "set ps \<union> fst ` set qs = reached index is"
proof -
  have "p \<in> set ps \<union> fst ` set qs" if "p \<in> reached index is" for p
    using that
  proof induction
    case (here i)
    then show ?case using assms by (auto simp: collected_def)
  next
    case (step p u i)
    then have "p \<in> set ps" using collectedD(5) [OF assms] by auto
    then have "import_path i \<in> im_visited st" using step(2,3) collectedD(12) [OF assms] by force
    then show ?case using collectedD(6) [OF assms] by simp
  qed
  then show ?thesis using assms by (auto simp: collected_def)
qed

text \<open>
  A module is not marked as visited when its own imports are resolved: if it is reached from
  itself, its declarations come twice, as those of an imported module and as its own.
\<close>

lemma circular_import_twice:
  fixes m :: "string \<Rightarrow> string \<Rightarrow> top_decl list \<Rightarrow> program_module"
  assumes "m = (\<lambda>name other ds. \<lparr>unit_source_name = name, unit_module = \<lparr>mod_name = Some name,
      mod_imports = [\<lparr>import_path = other, import_span = synthetic_span name\<rparr>], mod_declarations = ds\<rparr>\<rparr>)"
    and "index = [(''a'', m ''a'' ''b'' ds), (''b'', m ''b'' ''a'' es)]"
  shows "map_option (\<lambda>(md, _). mod_declarations md) (visible_module index (m ''a'' ''b'' ds)) = Some (ds @ es @ ds)"
  by (simp add: assms visible_module_def unit_imports_def unit_declarations_def collect_imports.simps
      enter_module_def leave_module_def)

text \<open>C28: Resolving the imports of a module always ends, also when modules import each other in a
  circle. Before the declarations of the module itself come those of every module that it reaches
  through imports, each module once, and there is one diagnostic for each path it reaches that
  names no module.\<close>

theorem visible_module_collects:
  "\<exists>ps qs. visible_module index u =
      Some ((unit_module u)\<lparr>mod_declarations :=
              concat (map (\<lambda>p. unit_declarations (the (map_of index p))) ps) @ unit_declarations u\<rparr>,
            length (concat (map (\<lambda>p. unit_declarations (the (map_of index p))) ps)),
            map (\<lambda>(q, sp). unknown_import q sp) qs)
    \<and> distinct ps \<and> distinct (map fst qs)
    \<and> set ps = reached index (unit_imports u) \<inter> dom (map_of index)
    \<and> fst ` set qs = reached index (unit_imports u) - dom (map_of index)"
proof -
  let ?st = "\<lparr>im_visited = {}, im_resolving = {}, im_diagnostics = [], im_declarations = []\<rparr>"
  have "unvisited index ?st \<le> length index" by (simp add: unvisited_def)
  then obtain st ps qs where c: "collect_all (length index) index (unit_imports u) ?st = Some st"
    "collected index (unit_imports u) ?st st ps qs"
    using collect_terminates(2) [of index ?st "length index" "unit_imports u"] by auto
  note r = collected_all_reached [OF c(2)]
  have "set ps = reached index (unit_imports u) \<inter> dom (map_of index)"
    "fst ` set qs = reached index (unit_imports u) - dom (map_of index)"
    using r [symmetric] collectedD(4,5) [OF c(2)] by blast+
  moreover have "visible_module index u =
      Some ((unit_module u)\<lparr>mod_declarations :=
              concat (map (\<lambda>p. unit_declarations (the (map_of index p))) ps) @ unit_declarations u\<rparr>,
            length (concat (map (\<lambda>p. unit_declarations (the (map_of index p))) ps)),
            map (\<lambda>(q, sp). unknown_import q sp) qs)"
    using c(1) collectedD(9,10) [OF c(2)] by (simp add: visible_module_def)
  ultimately show ?thesis using collectedD(1,2) [OF c(2)] by (intro exI [of _ ps] exI [of _ qs]) simp
qed

section \<open>The index\<close>

text \<open>The first module of each name is found, every further one is reported.\<close>

definition name_of_unit :: "program_module \<Rightarrow> string option" where
  "name_of_unit u = mod_name (unit_module u)"

lemma module_index_snoc: "module_index (us @ [u]) = index_unit u (module_index us)"
  by (simp add: module_index_def)

lemma module_index_finds:
  "map_of (fst (module_index us)) name = find (\<lambda>u. name_of_unit u = Some name) us"
proof (induction us rule: rev_induct)
  case Nil
  then show ?case by (simp add: module_index_def)
next
  case (snoc u us)
  have "find P (us @ [u]) = (case find P us of Some x \<Rightarrow> Some x | None \<Rightarrow> if P u then Some u else None)" for P
    by (induction us) auto
  then show ?case
    using snoc by (auto simp: module_index_snoc index_unit_def name_of_unit_def split: option.split)
qed

end
