(* ===== verification/Literals.thy ===== *)
theory Literals
  imports Scalar_Validation Date_Time Decimal Xml
begin

text \<open>
  \<open>num-compiler/src/semantic.rs\<close>, the checks of literals at compile time. The compiler has its own
  copies of the validators of the runtime; this theory states how far they agree. The functions
  \<open>parse_fixed_i32\<close>, \<open>parse_fixed_u32\<close>, \<open>days_in_month\<close> and \<open>is_leap_year\<close> are the same in both
  files and are those of \<open>Date_Time\<close>.
\<close>

definition validate_email_literal :: "string \<Rightarrow> string + unit" where
  "validate_email_literal value = (let value = trim value in
     case split_once (CHR ''@'') value of
       None \<Rightarrow> Err ''expected one `@` separator''
     | Some (local, domain) \<Rightarrow>
         if local = [] \<or> domain = [] \<or> CHR ''@'' \<in> set domain
         then Err ''expected non-empty local and domain parts''
         else if starts_with ''.'' domain \<or> ends_with (CHR ''.'') domain \<or> CHR ''.'' \<notin> set domain
         then Err ''expected a dotted domain''
         else if \<not> all_chars email_char value
         then Err ''expected conservative ASCII email characters''
         else Ok ())"

definition validate_url_literal :: "string \<Rightarrow> string + unit" where
  "validate_url_literal value = (let value = trim value in
     res_bind
       (ok_or ''expected absolute http or https URL''
         (case strip_prefix ''https://'' value of
            Some rest \<Rightarrow> Some rest
          | None \<Rightarrow> strip_prefix ''http://'' value))
       (\<lambda>rest. let host = url_host rest in
          if host = [] \<or> CHR ''.'' \<notin> set host then Err ''expected a dotted host''
          else if \<not> all_chars (\<lambda>c. is_ascii_alphanumeric c \<or> c = CHR ''.'' \<or> c = CHR ''-'') host
          then Err ''expected conservative ASCII host characters''
          else Ok ()))"

text \<open>The literal of a UUID is not trimmed.\<close>

definition validate_uuid_literal :: "string \<Rightarrow> string + unit" where
  "validate_uuid_literal value = (let parts = split_on (CHR ''-'') value in
     if length parts \<noteq> length uuid_lengths
        \<or> list_ex (\<lambda>(part, len). length part \<noteq> len \<or> \<not> all_chars is_ascii_hexdigit part)
            (zip parts uuid_lengths)
     then Err ''expected 8-4-4-4-12 hexadecimal UUID format''
     else Ok ())"

definition validate_phone_number_literal :: "string \<Rightarrow> string + unit" where
  "validate_phone_number_literal value = (let value = trim value;
       digits = unwrap_or value (strip_prefix ''+'' value) in
     if length digits < 8 \<or> 15 < length digits \<or> \<not> all_chars is_ascii_digit digits
     then Err ''expected 8 to 15 digits with an optional leading `+`''
     else Ok ())"

definition validate_scalar_value :: "string \<Rightarrow> string \<Rightarrow> string + unit" where
  "validate_scalar_value validator value =
     (if validator = ''validate_email'' then validate_email_literal value
      else if validator = ''validate_url'' then validate_url_literal value
      else if validator = ''validate_uuid'' then validate_uuid_literal value
      else if validator = ''validate_phone_number'' then validate_phone_number_literal value
      else Ok ())"

definition validate_iso_utc_literal :: "string \<Rightarrow> string + unit" where
  "validate_iso_utc_literal s =
     (if length s \<noteq> 20 \<or> s ! 4 \<noteq> CHR ''-'' \<or> s ! 7 \<noteq> CHR ''-'' \<or> s ! 10 \<noteq> CHR ''T''
         \<or> s ! 13 \<noteq> CHR '':'' \<or> s ! 16 \<noteq> CHR '':'' \<or> s ! 19 \<noteq> CHR ''Z''
      then Err ''expected UTC ISO-8601 form YYYY-MM-DDTHH:MM:SSZ'' else
      res_bind (parse_fixed_i32 s 0 4 ''year'') (\<lambda>y.
      res_bind (parse_fixed_u32 s 5 7 ''month'') (\<lambda>mo.
      res_bind (parse_fixed_u32 s 8 10 ''day'') (\<lambda>d.
      res_bind (parse_fixed_u32 s 11 13 ''hour'') (\<lambda>h.
      res_bind (parse_fixed_u32 s 14 16 ''minute'') (\<lambda>mi.
      res_bind (parse_fixed_u32 s 17 19 ''second'') (\<lambda>sec.
        if \<not> (1 \<le> mo \<and> mo \<le> 12) then Err ''month must be 01..12''
        else if d = 0 \<or> days_in_month y mo < d then Err ''day is outside the month range''
        else if 23 < h \<or> 59 < mi \<or> 59 < sec then Err ''time must be within 00:00:00..23:59:59''
        else Ok ())))))))"

definition validate_decimal_literal :: "string \<Rightarrow> string + unit" where
  "validate_decimal_literal raw =
     (let value = trim raw; unsigned = unwrap_or value (strip_prefix ''-'' value) in
      if unsigned = [] \<or> unsigned = ''.''
      then Err ''expected digits before or after the decimal point'' else
      let parts = split_on (CHR ''.'') unsigned;
          whole = hd parts;
          fraction = (if 1 < length parts then parts ! 1 else []) in
      if 2 < length parts then Err ''expected at most one decimal point'' else
      if whole = [] \<and> fraction = []
      then Err ''expected digits before or after the decimal point'' else
      if \<not> list_all is_ascii_digit whole \<or> \<not> list_all is_ascii_digit fraction
      then Err ''expected ASCII decimal digits''
      else Ok ())"

text \<open>The loop over the opening brackets: unlike that of the runtime it goes on after a tag without
  a name.\<close>

function literal_has_tag :: "string \<Rightarrow> bool" where
  "literal_has_tag raw =
     (case find_str ''<'' raw of
        None \<Rightarrow> False
      | Some offset \<Rightarrow>
          let rest = drop (offset + 1) raw in
          if rest \<noteq> [] \<and> (hd rest = CHR ''!'' \<or> hd rest = CHR ''?'' \<or> hd rest = CHR ''/'')
          then literal_has_tag rest
          else list_ex tag_name_char
                 (takeWhile (\<lambda>ch. \<not> is_whitespace ch \<and> ch \<noteq> ''/'' \<and> ch \<noteq> ''>'') (chars rest))
               \<or> literal_has_tag rest)"
  by pat_completeness auto
termination
  by (relation "measure length") (auto dest: find_str_length)

declare literal_has_tag.simps [simp del]

definition validate_xml_literal :: "string \<Rightarrow> string + unit" where
  "validate_xml_literal raw =
     (let trimmed = trim raw in
      if trimmed = [] then Err ''XML value cannot be empty''
      else if hd trimmed \<noteq> CHR ''<'' \<or> last trimmed \<noteq> CHR ''>''
      then Err (''XML value must start with '' @ [CHR 0x27] @ ''<'' @ [CHR 0x27] @ '' and end with ''
                @ [CHR 0x27] @ ''>'' @ [CHR 0x27])
      else if list_ex (\<lambda>ch. is_control ch \<and> \<not> is_whitespace ch) (chars trimmed)
      then Err ''XML value contains unsupported control characters''
      else if literal_has_tag trimmed then Ok ()
      else Err ''XML value must contain at least one element tag'')"

text \<open>
  Hours are parsed as an \<open>f64\<close>: a sign, then \<open>inf\<close>, \<open>infinity\<close>, \<open>nan\<close> or a decimal number with an
  exponent. A decimal number at or above the middle between the largest double and \<open>2 ^ 1024\<close>
  becomes infinite.
\<close>

definition f64_overflow :: int where
  "f64_overflow = (2 ^ 54 - 1) * 2 ^ 970"

definition decimal_below :: "int \<Rightarrow> int \<Rightarrow> int \<Rightarrow> bool" where
  "decimal_below bound m e =
     (if 0 \<le> e then m * 10 ^ nat e < bound else m < bound * 10 ^ nat (- e))"

definition exponent_text :: "string \<Rightarrow> int option" where
  "exponent_text s =
     (case s of
        [] \<Rightarrow> Some 0
      | e # r \<Rightarrow>
          (if e \<noteq> CHR ''e'' \<and> e \<noteq> CHR ''E'' then None
           else
             (case r of
                c # ds \<Rightarrow>
                  (if c = CHR ''-'' then map_option (\<lambda>n. - int n) (parse_digits ds)
                   else map_option int (parse_digits (if c = CHR ''+'' then ds else r)))
              | [] \<Rightarrow> None)))"

text \<open>Whether the text is a number, and then whether the number is finite.\<close>

definition f64_text_finite :: "string \<Rightarrow> bool option" where
  "f64_text_finite s =
     (let body = (case s of c # r \<Rightarrow> if c = CHR ''+'' \<or> c = CHR ''-'' then r else s | [] \<Rightarrow> []) in
      if to_ascii_lowercase body \<in> {''inf'', ''infinity'', ''nan''} then Some False
      else
        (let whole = takeWhile is_ascii_digit body;
             r1 = dropWhile is_ascii_digit body;
             pointed = (r1 \<noteq> [] \<and> hd r1 = CHR ''.'');
             fraction = (if pointed then takeWhile is_ascii_digit (drop 1 r1) else []);
             r2 = (if pointed then dropWhile is_ascii_digit (drop 1 r1) else r1)
         in if whole = [] \<and> fraction = [] then None
            else map_option
              (\<lambda>e. decimal_below f64_overflow (int (digits_val (whole @ fraction))) (e - int (length fraction)))
              (exponent_text r2)))"

definition validate_duration_hours_literal :: "string \<Rightarrow> string + unit" where
  "validate_duration_hours_literal raw =
     (let normalized = replace '' '' [] (trim raw) in
      case strip_suffix ''h'' normalized of
        None \<Rightarrow> Err ''expected an hour duration ending in `h`''
      | Some number \<Rightarrow>
          (case f64_text_finite number of
             None \<Rightarrow> Err ''expected a numeric hour amount before `h`''
           | Some fin \<Rightarrow> if fin then Ok () else Err ''duration hours must be finite''))"

definition validate_datetime_duration_literal :: "string \<Rightarrow> string \<Rightarrow> string + unit" where
  "validate_datetime_duration_literal helper txt =
     (if helper = ''datetime_parse_iso'' then validate_iso_utc_literal txt
      else if helper = ''duration_parse_hours'' then validate_duration_hours_literal txt
      else Ok ())"

lemma duration_literal_examples:
  "validate_duration_hours_literal ''1.5 h'' = Ok ()"
  "validate_duration_hours_literal '' +.5e1h'' = Ok ()"
  "validate_duration_hours_literal ''infh'' = Err ''duration hours must be finite''"
  "validate_duration_hours_literal ''1.2.3h'' = Err ''expected a numeric hour amount before `h`''"
  by code_simp+

section \<open>Agreement with the runtime\<close>

lemma email_literal: "is_ok (validate_email_literal v) = is_ok (validate_email v)"
  by (simp add: validate_email_literal_def validate_email_def Let_def split: option.split)

lemma url_literal: "is_ok (validate_url_literal v) = is_ok (validate_url v)"
proof -
  define r where "r = ok_or ''expected absolute http or https URL''
    (case strip_prefix ''https://'' (trim v) of Some rest \<Rightarrow> Some rest
     | None \<Rightarrow> strip_prefix ''http://'' (trim v))"
  show ?thesis
    unfolding validate_url_literal_def validate_url_def Let_def r_def [symmetric]
    by (cases r) (simp_all add: Let_def)
qed

lemma phone_literal: "is_ok (validate_phone_number_literal v) = is_ok (validate_phone_number v)"
  by (simp add: validate_phone_number_literal_def validate_phone_number_def Let_def unwrap_or_def)

lemma uuid_literal: "trim v = v \<Longrightarrow> is_ok (validate_uuid_literal v) = is_ok (validate_uuid v)"
  by (simp add: validate_uuid_literal_def validate_uuid_def Let_def)

lemma is_ok_bind: "is_ok (res_bind r f) \<longleftrightarrow> (\<exists>x. r = Ok x \<and> is_ok (f x))"
  by (cases r) simp_all

lemma is_ok_guard: "is_ok (if c then Err e else x) \<longleftrightarrow> \<not> c \<and> is_ok x"
  by simp

lemma iso_literal: "is_ok (validate_iso_utc_literal v) = is_ok (parse_iso_utc_parts v)"
  by (simp only: validate_iso_utc_literal_def parse_iso_utc_parts_def is_ok_guard is_ok_bind is_ok_simps)

lemma decimal_literal: "is_ok (decimal_parse v) \<Longrightarrow> is_ok (validate_decimal_literal v)"
  by (cases "strip_prefix ''-'' (trim v)")
    (simp_all only: decimal_parse_def validate_decimal_literal_def Let_def unwrap_or_def is_ok_guard
      is_ok_simps option.case simp_thms de_Morgan_disj)

lemma has_tag_literal: "contains_tag_name v \<Longrightarrow> literal_has_tag v"
proof (induction v rule: contains_tag_name.induct)
  case (1 raw)
  show ?case
    using 1(2) 1(1)
    by (subst literal_has_tag.simps, subst (asm) contains_tag_name.simps)
      (auto simp: Let_def split: option.splits if_splits)
qed

lemma xml_literal: "is_ok (validate_xml_document v) \<Longrightarrow> is_ok (validate_xml_literal v)"
  by (auto simp: validate_xml_document_def validate_xml_literal_def Let_def has_tag_literal
      split: if_splits)

lemma xml_literal_laxer:
  "is_ok (validate_xml_literal ''< ><a>'') \<and> \<not> is_ok (validate_xml_document ''< ><a>'')"
  by code_simp

lemma uuid_literal_stricter:
  "\<not> is_ok (validate_uuid_literal '' 550e8400-e29b-41d4-a716-446655440000'')
   \<and> is_ok (validate_uuid '' 550e8400-e29b-41d4-a716-446655440000'')"
  by code_simp

text \<open>C29: What the compiler says of a literal and what the runtime says of the same text when it is
  converted at run time: for e-mail addresses, URLs, telephone numbers and UTC times the two accept
  the same texts; for a UUID without blanks around it too; a text the runtime accepts as a decimal or
  as XML is accepted by the compiler.\<close>

theorem literal_checks_agree:
  "is_ok (validate_email_literal v) = is_ok (validate_email v)
   \<and> is_ok (validate_url_literal v) = is_ok (validate_url v)
   \<and> is_ok (validate_phone_number_literal v) = is_ok (validate_phone_number v)
   \<and> is_ok (validate_iso_utc_literal v) = is_ok (parse_iso_utc_parts v)
   \<and> is_ok (validate_uuid_literal (trim u)) = is_ok (validate_uuid u)
   \<and> {w. is_ok (decimal_parse w)} \<subseteq> {w. is_ok (validate_decimal_literal w)}
   \<and> {w. is_ok (validate_xml_document w)} \<subseteq> {w. is_ok (validate_xml_literal w)}"
  using email_literal url_literal phone_literal iso_literal decimal_literal xml_literal
  by (auto simp: validate_uuid_def validate_uuid_literal_def Let_def)

end
