(* ===== verification/Policies.thy ===== *)
theory Policies
  imports Ast Scalar_Validation
begin

text \<open>
  \<open>num-compiler/src/semantic/policies.rs\<close>: whether the policies of a module let data flow to a target.
  The wrappers of the code differ in the context they pass; \<open>PolicySet\<close> is the list of its rules.
\<close>

record route_context =
  context_method :: string
  context_path :: string

record policy_context =
  context_tenant :: "string option"
  context_route :: "route_context option"

definition no_context :: policy_context where
  "no_context = \<lparr>context_tenant = None, context_route = None\<rparr>"

definition extend_policy :: "policy_rule list \<Rightarrow> policy_decl \<Rightarrow> policy_rule list" where
  "extend_policy rules p = rules @ policy_rules p"

definition eq_ignore_ascii_case :: "string \<Rightarrow> string \<Rightarrow> bool" where
  "eq_ignore_ascii_case a b \<longleftrightarrow> to_ascii_lowercase a = to_ascii_lowercase b"

definition rule_matches ::
  "policy_rule \<Rightarrow> privacy option \<Rightarrow> trust option \<Rightarrow> string option \<Rightarrow> string \<Rightarrow> policy_context \<Rightarrow> bool" where
  "rule_matches rule privacy trust source target ctx =
     (if rule_target rule \<noteq> Some target then False
      else if (case rule_tenant rule of Some t \<Rightarrow> context_tenant ctx \<noteq> Some t | None \<Rightarrow> False) then False
      else if (case rule_route rule of
                 None \<Rightarrow> False
               | Some rr \<Rightarrow>
                   (case context_route ctx of
                      None \<Rightarrow> True
                    | Some route \<Rightarrow>
                        \<not> eq_ignore_ascii_case (context_method route) (condition_method rr)
                        \<or> context_path route \<noteq> condition_path rr)) then False
      else if rule_privacy rule \<noteq> None \<and> rule_privacy rule \<noteq> privacy then False
      else if rule_trust rule \<noteq> None \<and> rule_trust rule \<noteq> trust then False
      else (case rule_source rule of Some s \<Rightarrow> source = Some s | None \<Rightarrow> True))"

text \<open>The loop over the rules: the first deny rule that matches ends it.\<close>

fun allow_loop :: "(policy_rule \<Rightarrow> bool) \<Rightarrow> bool \<Rightarrow> policy_rule list \<Rightarrow> bool" where
  "allow_loop matches allowed [] = allowed"
| "allow_loop matches allowed (r # rs) =
     (if \<not> matches r then allow_loop matches allowed rs
      else (case rule_effect r of Effect_Allow \<Rightarrow> allow_loop matches True rs | Effect_Deny \<Rightarrow> False))"

definition matches_any ::
  "privacy option \<Rightarrow> trust option \<Rightarrow> string option \<Rightarrow> string list \<Rightarrow> policy_context \<Rightarrow> policy_rule \<Rightarrow> bool" where
  "matches_any privacy trust source targets ctx rule =
     list_ex (\<lambda>target. rule_matches rule privacy trust source target ctx) targets"

definition matching_rules_allow ::
  "policy_rule list \<Rightarrow> privacy option \<Rightarrow> trust option \<Rightarrow> string option \<Rightarrow> string list \<Rightarrow> policy_context \<Rightarrow> bool" where
  "matching_rules_allow rules privacy trust source targets ctx =
     allow_loop (matches_any privacy trust source targets ctx) False rules"

definition is_data_flow_allowed_in_context ::
  "policy_rule list \<Rightarrow> privacy option \<Rightarrow> trust option \<Rightarrow> string option \<Rightarrow> string \<Rightarrow> policy_context \<Rightarrow> bool" where
  "is_data_flow_allowed_in_context rules privacy trust source target ctx =
     matching_rules_allow rules privacy trust source [target] ctx"

definition is_data_flow_allowed_for_tenant ::
  "policy_rule list \<Rightarrow> privacy option \<Rightarrow> trust option \<Rightarrow> string option \<Rightarrow> string \<Rightarrow> string option \<Rightarrow> bool" where
  "is_data_flow_allowed_for_tenant rules privacy trust source target tenant =
     is_data_flow_allowed_in_context rules privacy trust source target
       \<lparr>context_tenant = tenant, context_route = None\<rparr>"

definition is_data_flow_allowed ::
  "policy_rule list \<Rightarrow> privacy option \<Rightarrow> trust option \<Rightarrow> string option \<Rightarrow> string \<Rightarrow> bool" where
  "is_data_flow_allowed rules privacy trust source target =
     is_data_flow_allowed_for_tenant rules privacy trust source target None"

definition is_data_flow_allowed_to_any_for_tenant ::
  "policy_rule list \<Rightarrow> privacy option \<Rightarrow> trust option \<Rightarrow> string option \<Rightarrow> string list \<Rightarrow> string option \<Rightarrow> bool" where
  "is_data_flow_allowed_to_any_for_tenant rules privacy trust source targets tenant =
     matching_rules_allow rules privacy trust source targets
       \<lparr>context_tenant = tenant, context_route = None\<rparr>"

definition is_data_flow_allowed_to_any ::
  "policy_rule list \<Rightarrow> privacy option \<Rightarrow> trust option \<Rightarrow> string option \<Rightarrow> string list \<Rightarrow> bool" where
  "is_data_flow_allowed_to_any rules privacy trust source targets =
     is_data_flow_allowed_to_any_for_tenant rules privacy trust source targets None"

section \<open>The decision\<close>

definition denies :: "policy_rule \<Rightarrow> bool" where
  "denies r \<longleftrightarrow> rule_effect r = Effect_Deny"

lemma allow_loop_decides:
  "allow_loop matches allowed rs \<longleftrightarrow>
     (allowed \<or> list_ex (\<lambda>r. matches r \<and> \<not> denies r) rs) \<and> \<not> list_ex (\<lambda>r. matches r \<and> denies r) rs"
  by (induction rs arbitrary: allowed) (auto simp: denies_def split: policy_effect.splits)

text \<open>A rule with conditions on the tenant or the route never applies outside such a context, and a
  rule without a target never applies.\<close>

lemma rule_matches_conditions:
  "rule_matches rule privacy trust source target ctx \<longleftrightarrow>
     rule_target rule = Some target
     \<and> rule_tenant rule \<in> {None, context_tenant ctx}
     \<and> (rule_route rule = None \<or>
         (\<exists>rr route. rule_route rule = Some rr \<and> context_route ctx = Some route
            \<and> eq_ignore_ascii_case (context_method route) (condition_method rr)
            \<and> context_path route = condition_path rr))
     \<and> rule_privacy rule \<in> {None, privacy} \<and> rule_trust rule \<in> {None, trust}
     \<and> rule_source rule \<in> {None, source}"
  by (auto simp: rule_matches_def split: option.splits)

text \<open>C26: Policies are closed by default and a deny rule wins: data may flow to one of the targets
  exactly when some allow rule of the set matches and no deny rule does. The order of the policies
  does not matter, and adding policies never turns a denied flow into an allowed one when they only
  deny.\<close>

theorem policy_deny_wins:
  "matching_rules_allow rules privacy trust source targets ctx =
     (list_ex (\<lambda>r. matches_any privacy trust source targets ctx r \<and> \<not> denies r) rules
      \<and> \<not> list_ex (\<lambda>r. matches_any privacy trust source targets ctx r \<and> denies r) rules)
   \<and> matching_rules_allow (rules @ others) privacy trust source targets ctx
     = matching_rules_allow (others @ rules) privacy trust source targets ctx
   \<and> {targets. matching_rules_allow (rules @ filter denies others) privacy trust source targets ctx}
     \<subseteq> {targets. matching_rules_allow rules privacy trust source targets ctx}"
  by (auto simp: matching_rules_allow_def allow_loop_decides list_ex_iff)

end
