(* ===== verification/Builtins.thy ===== *)
theory Builtins
  imports Rust_Strings
begin

text \<open>
  \<open>num-compiler/src/builtins.rs\<close>: the names the language knows without a declaration, with the
  texts that the editor shows for them.
\<close>

datatype builtin_kind = Kind_Namespace | Kind_Type | Kind_Function | Kind_Currency

record builtin_symbol =
  builtin_name :: string
  builtin_kind :: builtin_kind
  builtin_signature :: string
  builtin_documentation :: string

definition builtin :: "string \<Rightarrow> builtin_kind \<Rightarrow> string \<Rightarrow> string \<Rightarrow> builtin_symbol" where
  "builtin name kd sig doc =
     \<lparr>builtin_name = name, builtin_kind = kd, builtin_signature = sig, builtin_documentation = doc\<rparr>"

definition builtin_types :: "builtin_symbol list" where
  "builtin_types =
     [builtin ''Permission'' Kind_Namespace
        ''Permission.<Name>''
        ''Built-in namespace used to reference permissions declared with `permission <Name>`.'',
      builtin ''Money'' Kind_Type
        ''Money<CurrencyCode>''
        ''Built-in amount type parameterized by an ISO 4217-style currency code, for example `Money<KZT>`.'',
      builtin ''ExchangeRate'' Kind_Type
        ''ExchangeRate<FromCurrency, ToCurrency>''
        ''Built-in audited exchange-rate boundary for explicit Money currency conversion.'',
      builtin ''Uncertain'' Kind_Type
        ''Uncertain<T>''
        ''Built-in wrapper for probabilistic AI output. Values must be checked before being used as facts.'',
      builtin ''Secret'' Kind_Type
        ''Secret<T>''
        ''Built-in wrapper for values that must not be logged or sent to unsafe sinks.'',
      builtin ''Encrypted'' Kind_Type
        ''Encrypted<T>''
        ''Built-in envelope type for provider-encrypted payloads with algorithm, key id, and redacted ciphertext metadata.'',
      builtin ''Document'' Kind_Type
        ''Document''
        ''Built-in metadata-only document value with id, name, MIME type, byte size, source, privacy, and trust fields.'',
      builtin ''Pdf'' Kind_Type
        ''Pdf''
        ''Built-in document subtype for PDF metadata.'',
      builtin ''Docx'' Kind_Type
        ''Docx''
        ''Built-in document subtype for DOCX metadata.'',
      builtin ''SpreadsheetSheet'' Kind_Type
        ''SpreadsheetSheet''
        ''Built-in metadata value for one spreadsheet sheet.'',
      builtin ''Spreadsheet'' Kind_Type
        ''Spreadsheet''
        ''Built-in document subtype for sheet-level spreadsheet metadata.'',
      builtin ''Image'' Kind_Type
        ''Image''
        ''Built-in document subtype for safe image metadata.'',
      builtin ''OcrResult'' Kind_Type
        ''OcrResult''
        ''Built-in value for OCR connector handoff results that remain untrusted by default.'',
      builtin ''ExtractedDocumentText'' Kind_Type
        ''ExtractedDocumentText''
        ''Built-in document extraction text handoff value that preserves document privacy and stays untrusted by default.'',
      builtin ''DocumentExtractionMetadata'' Kind_Type
        ''DocumentExtractionMetadata''
        ''Built-in document extraction metadata handoff value for connector-boundary fixtures.'',
      builtin ''DocumentExtractionError'' Kind_Type
        ''DocumentExtractionError''
        ''Built-in structured document extraction failure value for auditable connector boundaries.'',
      builtin ''Distance'' Kind_Type
        ''Distance<Unit>''
        ''Built-in distance type parameterized by a unit of measurement, for example `Distance<Kilometer>`.'',
      builtin ''Duration'' Kind_Type
        ''Duration<Unit>''
        ''Built-in duration type parameterized by a unit of measurement, for example `Duration<Hour>`.'',
      builtin ''Speed'' Kind_Type
        ''Speed<Unit>''
        ''Built-in speed type parameterized by a unit of measurement, for example `Speed<KilometersPerHour>`.'',
      builtin ''Kilometer'' Kind_Type
        ''Kilometer''
        ''Distance unit representation.'',
      builtin ''Hour'' Kind_Type
        ''Hour''
        ''Duration unit representation.'',
      builtin ''KilometersPerHour'' Kind_Type
        ''KilometersPerHour''
        ''Speed unit representation.'']"

definition builtin_functions :: "builtin_symbol list" where
  "builtin_functions =
     [builtin ''sanitize'' Kind_Function
        ''sanitize(value)''
        ''Trust gateway for sanitized input. The checker treats the returned value as trusted when assigned with a trusted or verified label.'',
      builtin ''anonymize'' Kind_Function
        ''anonymize(value)''
        ''Privacy gateway for declassified derived data. The checker treats the returned value as public derived data.'',
      builtin ''validate_trust'' Kind_Function
        ''validate_trust(value)''
        ''Trust gateway for validation-backed promotion of untrusted data.'',
      builtin ''validate_email'' Kind_Function
        ''validate_email(value: Text) -> Email''
        ''Validates a text value as a simple email address and returns Email without changing privacy or provenance labels.'',
      builtin ''validate_url'' Kind_Function
        ''validate_url(value: Text) -> Url''
        ''Validates an absolute http(s) URL and returns Url without changing privacy or provenance labels.'',
      builtin ''validate_uuid'' Kind_Function
        ''validate_uuid(value: Text) -> Uuid''
        ''Validates an RFC 4122-style UUID string and returns Uuid without changing privacy or provenance labels.'',
      builtin ''validate_phone_number'' Kind_Function
        ''validate_phone_number(value: Text) -> PhoneNumber''
        ''Validates a conservative E.164-style phone number and returns PhoneNumber without changing privacy or provenance labels.'',
      builtin ''hash_sha256_hex'' Kind_Function
        ''hash_sha256_hex(value: Text|Bytes) -> Text''
        ''Computes a SHA-256 digest for deterministic non-password hashing and returns lowercase hexadecimal text.'',
      builtin ''hash_sha256_base64'' Kind_Function
        ''hash_sha256_base64(value: Text|Bytes) -> Text''
        ''Computes a SHA-256 digest for deterministic non-password hashing and returns standard base64 text.'',
      builtin ''bytes_from_text'' Kind_Function
        ''bytes_from_text(value: Text) -> Bytes''
        ''Encodes text as UTF-8 bytes.'',
      builtin ''bytes_from_base64'' Kind_Function
        ''bytes_from_base64(value: Text) -> Bytes''
        ''Decodes standard base64 text into Bytes.'',
      builtin ''bytes_to_base64'' Kind_Function
        ''bytes_to_base64(value: Bytes) -> Text''
        ''Encodes Bytes as standard base64 text for JSON and connector boundaries.'',
      builtin ''bytes_len'' Kind_Function
        ''bytes_len(value: Bytes) -> Int''
        ''Returns the byte length of a Bytes value.'',
      builtin ''xml_parse'' Kind_Function
        ''xml_parse(value: Text) -> Xml''
        ''Validates text as the first Xml representation and returns Xml.'',
      builtin ''xml_to_text'' Kind_Function
        ''xml_to_text(value: Xml) -> Text''
        ''Returns the original text backing an Xml value.'',
      builtin ''document_metadata'' Kind_Function
        ''document_metadata(id: Text, name: Text, mime_type: Text, size_bytes: Int, source: Text, privacy: Text, trust: Text) -> Document''
        ''Builds a metadata-only Document value without parsing file contents.'',
      builtin ''pdf_metadata'' Kind_Function
        ''pdf_metadata(document: Document, page_count: Int) -> Pdf''
        ''Builds a metadata-only Pdf wrapper from already validated Document metadata.'',
      builtin ''docx_metadata'' Kind_Function
        ''docx_metadata(document: Document, title: Text, creator: Text, paragraph_count: Int) -> Docx''
        ''Builds a metadata-only Docx wrapper from already validated Document metadata.'',
      builtin ''spreadsheet_sheet_metadata'' Kind_Function
        ''spreadsheet_sheet_metadata(name: Text, row_count: Int, column_count: Int, header_row: Int) -> SpreadsheetSheet''
        ''Builds metadata for a single spreadsheet sheet without reading cell contents.'',
      builtin ''spreadsheet_metadata'' Kind_Function
        ''spreadsheet_metadata(document: Document, sheets_json: Text) -> Spreadsheet''
        ''Builds a metadata-only Spreadsheet wrapper from already validated sheet metadata JSON.'']"

definition builtin_gateways :: "builtin_symbol list" where
  "builtin_gateways =
     [builtin ''image_metadata'' Kind_Function
        ''image_metadata(document: Document, width: Int, height: Int, format: Text) -> Image''
        ''Builds a metadata-only Image wrapper from already validated image metadata.'',
      builtin ''ocr_result'' Kind_Function
        ''ocr_result(image: Image, text: Text, confidence: Float, provider: Text, model: Text) -> OcrResult''
        ''Builds an untrusted OCR result for fake OCR tests and connector handoff adapters.'',
      builtin ''extracted_document_text'' Kind_Function
        ''extracted_document_text(document: Document, text: Text, provider: Text, model: Text) -> ExtractedDocumentText''
        ''Builds an untrusted extracted document text value for deterministic extraction connector fixtures.'',
      builtin ''document_extraction_metadata'' Kind_Function
        ''document_extraction_metadata(document: Document, title: Text, author: Text, language: Text, page_count: Int, provider: Text) -> DocumentExtractionMetadata''
        ''Builds untrusted document extraction metadata for deterministic extraction connector fixtures.'',
      builtin ''document_extraction_error'' Kind_Function
        ''document_extraction_error(document: Document, code: Text, message: Text, retryable: Bool, provider: Text) -> DocumentExtractionError''
        ''Builds a structured document extraction error value for auditable connector failure fixtures.'',
      builtin ''pdf_parse_metadata'' Kind_Function
        ''pdf_parse_metadata(document: Document, bytes: Bytes) -> Pdf''
        ''Parses safe PDF metadata from bytes and returns a Pdf wrapper preserving the original Document metadata.'',
      builtin ''docx_parse_metadata'' Kind_Function
        ''docx_parse_metadata(document: Document, bytes: Bytes) -> Docx''
        ''Parses safe DOCX metadata from stored ZIP test-fixture bytes and returns a Docx wrapper preserving the original Document metadata.'',
      builtin ''spreadsheet_parse_metadata'' Kind_Function
        ''spreadsheet_parse_metadata(document: Document, bytes: Bytes) -> Spreadsheet''
        ''Parses safe sheet-level XLSX metadata from stored ZIP test-fixture bytes without executing formulas.'',
      builtin ''image_parse_metadata'' Kind_Function
        ''image_parse_metadata(document: Document, bytes: Bytes) -> Image''
        ''Parses safe PNG/JPEG image dimensions from bytes without decoding pixels or running OCR.'',
      builtin ''datetime_parse_iso'' Kind_Function
        ''datetime_parse_iso(value: Text) -> DateTime''
        ''Parses an explicit UTC ISO-8601 timestamp such as `2026-06-26T12:00:00Z` and returns canonical DateTime text.'',
      builtin ''datetime_format_iso'' Kind_Function
        ''datetime_format_iso(value: DateTime) -> Text''
        ''Formats a DateTime value as canonical UTC ISO-8601 text.'',
      builtin ''duration_parse_hours'' Kind_Function
        ''duration_parse_hours(value: Text) -> Duration<Hour>''
        ''Parses a deterministic hour duration such as `4h` or `1.5 h`.'',
      builtin ''duration_format_hours'' Kind_Function
        ''duration_format_hours(value: Duration<Hour>) -> Text''
        ''Formats a Duration<Hour> value as compact hour text such as `4h`.'',
      builtin ''decimal_parse'' Kind_Function
        ''decimal_parse(value: Text) -> Decimal''
        ''Parses text into an exact Decimal value without falling back to Float.'',
      builtin ''decimal_format'' Kind_Function
        ''decimal_format(value: Decimal) -> Text''
        ''Formats an exact Decimal value as canonical text.'',
      builtin ''exchange_rate'' Kind_Function
        ''exchange_rate(from: Text, to: Text, rate: Decimal, source: Text) -> ExchangeRate<From, To>''
        ''Builds an explicit exchange-rate value in an ExchangeRate<From, To> assignment context.'',
      builtin ''convert_money'' Kind_Function
        ''convert_money(amount: Money<From>, rate: ExchangeRate<From, To>) -> Money<To>''
        ''Converts Money through an explicit audited exchange-rate boundary.'',
      builtin ''verify_trust'' Kind_Function
        ''verify_trust(value)''
        ''Trust gateway for verification-backed promotion of untrusted data.'',
      builtin ''require_human_review'' Kind_Function
        ''require_human_review(reason)''
        ''Human-in-the-loop gateway for uncertain or untrusted data.'',
      builtin ''require_human_approval'' Kind_Function
        ''require_human_approval(reason) or require_human_approval(action: Text, reason: Text)''
        ''Human approval gateway for high-risk actions and uncertain decisions.'',
      builtin ''reject'' Kind_Function
        ''reject(reason)''
        ''Workflow-control builtin that rejects the current operation with a human-readable reason.'']"

definition builtin_currencies :: "builtin_symbol list" where
  "builtin_currencies =
     [builtin ''KZT'' Kind_Currency
        ''KZT''
        ''Currency code for Kazakhstani tenge. Commonly used as the type argument in `Money<KZT>`.'',
      builtin ''USD'' Kind_Currency
        ''USD''
        ''Currency code for United States dollar. Commonly used as the type argument in `Money<USD>`.'',
      builtin ''EUR'' Kind_Currency
        ''EUR''
        ''Currency code for euro. Commonly used as the type argument in `Money<EUR>`.'',
      builtin ''GBP'' Kind_Currency
        ''GBP''
        ''Currency code for pound sterling. Commonly used as the type argument in `Money<GBP>`.'',
      builtin ''RUB'' Kind_Currency
        ''RUB''
        ''Currency code for Russian ruble. Commonly used as the type argument in `Money<RUB>`.'',
      builtin ''CNY'' Kind_Currency
        ''CNY''
        ''Currency code for Chinese yuan. Commonly used as the type argument in `Money<CNY>`.'']"
definition builtin_symbols :: "builtin_symbol list" where
  "builtin_symbols = builtin_types @ builtin_functions @ builtin_gateways @ builtin_currencies"

definition builtin_symbol_of :: "string \<Rightarrow> builtin_symbol option" where
  "builtin_symbol_of name = find (\<lambda>s. builtin_name s = name) builtin_symbols"

definition currency_codes :: "string list" where
  "currency_codes = map builtin_name (filter (\<lambda>s. builtin_kind s = Kind_Currency) builtin_symbols)"

lemma currency_codes_eq: "currency_codes = [''KZT'', ''USD'', ''EUR'', ''GBP'', ''RUB'', ''CNY'']"
  by code_simp

lemma builtin_names_distinct: "distinct (map builtin_name builtin_symbols)"
  by code_simp

end
