(* ===== verification/Type_Text.thy ===== *)
theory Type_Text
  imports Ast Expr Scalar_Validation Builtins "HOL-Library.List_Lexorder" "HOL-Library.Char_ord"
begin

text \<open>
  \<open>num-compiler/src/semantic.rs\<close>, the functions without a checker: types are texts, and these
  functions take them apart. The loops of the code run over the characters of a text by index; here
  they run over the list of the characters that are left.
\<close>

section \<open>Literals in the text of a type\<close>

text \<open>What follows an opening quote: the literal with its closing quote, and the rest. All the
  loops of the code over a literal take the same characters.\<close>

fun literal_rest :: "string list \<Rightarrow> string \<times> string list" where
  "literal_rest [] = ([], [])"
| "literal_rest [ch] = (ch, [])"
| "literal_rest (ch # e # rest) =
     (if ch = [CHR 0x5C] then (let (t, r) = literal_rest rest in (ch @ e @ t, r))
      else if ch = [CHR 0x22] then (ch, e # rest)
      else (let (t, r) = literal_rest (e # rest) in (ch @ t, r)))"

lemma literal_rest_length: "length (snd (literal_rest cs)) \<le> length cs"
  by (induction cs rule: literal_rest.induct) (auto split: prod.split intro: le_SucI)

lemma literal_rest_concat: "fst (literal_rest cs) @ concat (snd (literal_rest cs)) = concat cs"
  by (induction cs rule: literal_rest.induct) (auto split: prod.split)

lemma literal_rest_bytes: "length (concat (snd (literal_rest cs))) \<le> length (concat cs)"
  by (subst literal_rest_concat [of cs, symmetric]) simp

lemma literal_rest_less [termination_simp]:
  "(t, r) = literal_rest rest \<Longrightarrow> length r < Suc (length rest)"
  using literal_rest_length [of rest] by (metis le_imp_less_Suc snd_conv)

fun strip_loop :: "string list \<Rightarrow> string" where
  "strip_loop [] = []"
| "strip_loop (ch # rest) =
     (if ch = [CHR 0x22] then (let (t, r) = literal_rest rest in strip_loop r) else ch @ strip_loop rest)"

definition strip_string_literals :: "string \<Rightarrow> string" where
  "strip_string_literals raw = strip_loop (chars raw)"

section \<open>Names and references\<close>

definition type_ident_start :: "string \<Rightarrow> bool" where
  "type_ident_start = one_byte (\<lambda>c. is_ascii_alphabetic c \<or> c = CHR ''_'')"

definition type_ident_continue :: "string \<Rightarrow> bool" where
  "type_ident_continue = one_byte (\<lambda>c. is_ascii_alphanumeric c \<or> c = CHR ''_'')"

text \<open>\<open>str::split\<close> at the characters that belong to no name; the empty parts are left out.\<close>

fun words_loop :: "string \<Rightarrow> string list \<Rightarrow> string list" where
  "words_loop cur [] = (if cur = [] then [] else [cur])"
| "words_loop cur (ch # rest) =
     (if type_ident_continue ch then words_loop (cur @ ch) rest
      else (if cur = [] then [] else [cur]) @ words_loop [] rest)"

definition type_names :: "type_ref \<Rightarrow> string list" where
  "type_names ty = words_loop [] (chars (strip_string_literals (type_raw ty)))"

definition type_base_name :: "string \<Rightarrow> string" where
  "type_base_name raw =
     (case split_once (CHR ''<'') (trim raw) of Some (base, _) \<Rightarrow> trim base | None \<Rightarrow> trim raw)"

definition is_brand_type :: "type_ref \<Rightarrow> bool" where
  "is_brand_type ty \<longleftrightarrow> type_base_name (type_raw ty) = ''Brand''"

text \<open>The text between two separators, when it is not blank.\<close>

definition nonblank :: "string \<Rightarrow> string list" where
  "nonblank part = (let p = trim part in if p = [] then [] else [p])"

fun args_loop :: "nat \<Rightarrow> string \<Rightarrow> string list \<Rightarrow> string list" where
  "args_loop depth cur [] = nonblank cur"
| "args_loop depth cur (ch # rest) =
     (if ch = ''<'' then args_loop (Suc depth) (cur @ ch) rest
      else if ch = ''>'' then args_loop (depth - 1) (cur @ ch) rest
      else if ch = '','' \<and> depth = 0 then nonblank cur @ args_loop depth [] rest
      else args_loop depth (cur @ ch) rest)"

text \<open>Between the first opening and the last closing bracket.\<close>

definition generic_args :: "string \<Rightarrow> string list" where
  "generic_args raw =
     (if CHR ''<'' \<notin> set raw \<or> CHR ''>'' \<notin> set raw then []
      else
        (let start = length (takeWhile (\<lambda>c. c \<noteq> CHR ''<'') raw);
             stop = length raw - 1 - length (takeWhile (\<lambda>c. c \<noteq> CHR ''>'') (rev raw))
         in if stop \<le> start + 1 then []
            else args_loop 0 [] (chars (take (stop - (start + 1)) (drop (start + 1) raw)))))"

definition generic_arg :: "string \<Rightarrow> string option" where
  "generic_arg raw = (case generic_args raw of [] \<Rightarrow> None | a # _ \<Rightarrow> Some a)"

fun union_loop :: "nat \<Rightarrow> string \<Rightarrow> string list \<Rightarrow> string list" where
  "union_loop depth cur [] = nonblank cur"
| "union_loop depth cur (ch # rest) =
     (if ch = [CHR 0x22] then (let (t, r) = literal_rest rest in union_loop depth (cur @ ch @ t) r)
      else if ch = ''<'' then union_loop (Suc depth) (cur @ ch) rest
      else if ch = ''>'' then union_loop (depth - 1) (cur @ ch) rest
      else if ch = ''|'' \<and> depth = 0 then nonblank cur @ union_loop depth [] rest
      else union_loop depth (cur @ ch) rest)"

definition union_members :: "string \<Rightarrow> string list" where
  "union_members raw = union_loop 0 [] (chars raw)"

section \<open>Substitution of type parameters\<close>

text \<open>A later pair of the same parameter replaces an earlier one in the hash map.\<close>

definition type_param_substitutions :: "string list \<Rightarrow> string list \<Rightarrow> (string \<times> string) list" where
  "type_param_substitutions params args = rev (zip params args)"

lemma dropWhile_less [termination_simp]: "length (dropWhile P xs) < Suc (length xs)"
  using length_dropWhile_le [of P xs] by simp

fun substitute_loop :: "(string \<times> string) list \<Rightarrow> string list \<Rightarrow> string" where
  "substitute_loop substs [] = []"
| "substitute_loop substs (ch # rest) =
     (if ch = [CHR 0x22] then (let (t, r) = literal_rest rest in ch @ t @ substitute_loop substs r)
      else if type_ident_start ch
      then (let ident = ch @ concat (takeWhile type_ident_continue rest)
            in unwrap_or ident (map_of substs ident)
               @ substitute_loop substs (dropWhile type_ident_continue rest))
      else ch @ substitute_loop substs rest)"

definition substitute_type_params :: "type_ref \<Rightarrow> (string \<times> string) list \<Rightarrow> type_ref" where
  "substitute_type_params ty substs =
     (if substs = [] then ty else \<lparr>type_raw = substitute_loop substs (chars (type_raw ty))\<rparr>)"

text \<open>The text between brackets that match, and what follows them.\<close>

fun generic_inner :: "nat \<Rightarrow> string list \<Rightarrow> string \<times> string list" where
  "generic_inner depth [] = ([], [])"
| "generic_inner depth (ch # rest) =
     (if ch = [CHR 0x22]
      then (let (t, r) = literal_rest rest; (inner, after) = generic_inner depth r in (ch @ t @ inner, after))
      else if ch = ''<''
      then (let (inner, after) = generic_inner (Suc depth) rest in ((if 0 < depth then ch else []) @ inner, after))
      else if ch = ''>''
      then (if depth - 1 = 0 then ([], rest)
            else (let (inner, after) = generic_inner (depth - 1) rest in (ch @ inner, after)))
      else (let (inner, after) = generic_inner depth rest in (ch @ inner, after)))"

record type_reference =
  reference_name :: string
  reference_args :: "string list"

lemma generic_inner_shorter:
  "length (fst (generic_inner depth cs)) + length (concat (snd (generic_inner depth cs))) \<le> length (concat cs)
   \<and> length (snd (generic_inner depth cs)) \<le> length cs"
proof (induction depth cs rule: generic_inner.induct)
  case (2 depth ch rest)
  consider "ch = [CHR 0x22]" | "ch = ''<''" | "ch = ''>''" | "ch \<noteq> [CHR 0x22]" "ch \<noteq> ''<''" "ch \<noteq> ''>''" by blast
  then show ?case
  proof cases
    case 1
    obtain t r where l: "literal_rest rest = (t, r)" by fastforce
    have "length (concat rest) = length t + length (concat r)" "length r \<le> length rest"
      using literal_rest_concat [of rest] literal_rest_length [of rest] by (simp_all add: l flip: length_append)
    then show ?thesis using "2.IH"(1) [OF 1 l [symmetric] refl] 1 l by (auto split: prod.split)
  next
    case 2
    show ?thesis using "2.IH"(2) 2 by (auto split: prod.splits)
  next
    case 3
    show ?thesis using "2.IH"(3) 3 by (auto split: prod.splits)
  next
    case 4
    show ?thesis using "2.IH"(4) 4 by (auto split: prod.splits)
  qed
qed simp

lemma length_chars_le: "length (chars s) \<le> length s"
  by (induction s rule: chars.induct) auto

lemma length_concat_dropWhile: "length (concat (dropWhile P xs)) \<le> length (concat xs)"
  by (induction xs) auto

text \<open>The references inside the brackets come before the one that has them.\<close>

function collect_type_references :: "string list \<Rightarrow> type_reference list" where
  "collect_type_references [] = []"
| "collect_type_references (ch # rest) =
     (if ch = [CHR 0x22] then collect_type_references (snd (literal_rest rest))
      else if type_ident_start ch then
        (let name = ch @ concat (takeWhile type_ident_continue rest);
             after = dropWhile is_whitespace (dropWhile type_ident_continue rest)
         in if after \<noteq> [] \<and> hd after = ''<''
            then (let found = generic_inner 0 after
                  in collect_type_references (chars (fst found))
                     @ \<lparr>reference_name = name, reference_args = generic_args (''Synthetic<'' @ fst found @ ''>'')\<rparr>
                     # collect_type_references (snd found))
            else \<lparr>reference_name = name, reference_args = []\<rparr> # collect_type_references after)
      else collect_type_references rest)"
  by pat_completeness auto
termination
proof (relation "measures [length \<circ> concat, length]", goal_cases)
  case (2 ch rest)
  then show ?case using literal_rest_bytes [of rest] by simp
next
  case (3 ch rest name after found)
  have "length (concat after) \<le> length (concat rest)"
    unfolding 3 using length_concat_dropWhile le_trans by blast
  then show ?case
    using 3(2) generic_inner_shorter [of 0 after] by (auto simp: 3(6) type_ident_start_def one_byte_def split: list.splits)
next
  case (4 ch rest name after found)
  have "length (concat after) \<le> length (concat rest)"
    unfolding 4 using length_concat_dropWhile le_trans by blast
  then show ?case
    using 4(2) generic_inner_shorter [of 0 after] by (auto simp: 4(6) type_ident_start_def one_byte_def split: list.splits)
next
  case (5 ch rest name after)
  have "length (concat after) \<le> length (concat rest)"
    unfolding 5 using length_concat_dropWhile le_trans by blast
  then show ?case using 5(2) by (auto simp: type_ident_start_def one_byte_def split: list.splits)
next
  case (6 ch rest)
  then show ?case by (cases ch) auto
qed simp

definition type_references :: "string \<Rightarrow> type_reference list" where
  "type_references raw = collect_type_references (chars raw)"

section \<open>The types of the language\<close>

abbreviation TypeRef :: "string \<Rightarrow> type_ref" where
  "TypeRef raw \<equiv> \<lparr>type_raw = raw\<rparr>"

definition builtin_type_arities :: "(string \<times> nat) list" where
  "builtin_type_arities =
     [(''Text'', 0), (''Int'', 0), (''Float'', 0), (''Decimal'', 0), (''Bool'', 0), (''Date'', 0),
      (''DateTime'', 0), (''Duration'', 1), (''Uuid'', 0), (''Email'', 0), (''PhoneNumber'', 0),
      (''Url'', 0), (''Json'', 0), (''Actor'', 0), (''Bytes'', 0), (''Xml'', 0), (''Result'', 2),
      (''Option'', 1), (''Task'', 1), (''List'', 1), (''Map'', 2), (''Set'', 1), (''Queue'', 1),
      (''Stack'', 1), (''Stream'', 1), (''Brand'', 2), (''Money'', 1), (''ExchangeRate'', 2),
      (''Secret'', 1), (''Encrypted'', 1), (''Uncertain'', 1), (''Document'', 0), (''Pdf'', 0),
      (''Docx'', 0), (''SpreadsheetSheet'', 0), (''Spreadsheet'', 0), (''Image'', 0),
      (''OcrResult'', 0), (''ExtractedDocumentText'', 0), (''DocumentExtractionMetadata'', 0),
      (''DocumentExtractionError'', 0), (''Unit'', 0), (''Distance'', 1), (''Speed'', 1),
      (''Kilometer'', 0), (''Hour'', 0), (''KilometersPerHour'', 0)]"

text \<open>The two tables of the code have the same names.\<close>

definition builtin_type_names :: "string list" where
  "builtin_type_names =
     [''Text'', ''Int'', ''Float'', ''Decimal'', ''Bool'', ''Date'', ''DateTime'', ''Duration'',
      ''Uuid'', ''Email'', ''PhoneNumber'', ''Url'', ''Json'', ''Actor'', ''Bytes'', ''Xml'',
      ''Result'', ''Option'', ''Task'', ''List'', ''Map'', ''Set'', ''Queue'', ''Stack'', ''Stream'',
      ''Brand'', ''Money'', ''ExchangeRate'', ''Secret'', ''Encrypted'', ''Uncertain'', ''Document'',
      ''Pdf'', ''Docx'', ''SpreadsheetSheet'', ''Spreadsheet'', ''Image'', ''OcrResult'',
      ''ExtractedDocumentText'', ''DocumentExtractionMetadata'', ''DocumentExtractionError'', ''Unit'',
      ''Distance'', ''Speed'', ''Kilometer'', ''Hour'', ''KilometersPerHour'']"

lemma builtin_tables_agree: "map fst builtin_type_arities = builtin_type_names"
  by (simp add: builtin_type_arities_def builtin_type_names_def)

definition type_arity_diagnostic :: "string \<Rightarrow> nat \<Rightarrow> nat \<Rightarrow> span \<Rightarrow> diagnostic" where
  "type_arity_diagnostic name expected actual sp =
     with_help ''pass the required generic arguments or remove the extra arguments''
       (with_reason ''generic type references must match the declaration arity''
         (diagnostic_error ''N1203''
           (''type `'' @ name @ ''` expects '' @ show_nat expected @ '' generic argument(s), got ''
            @ show_nat actual) sp))"

definition result_ok_arg :: "type_ref \<Rightarrow> type_ref option" where
  "result_ok_arg ty = map_option TypeRef (generic_arg (type_raw ty))"

definition result_err_arg :: "type_ref \<Rightarrow> type_ref option" where
  "result_err_arg ty =
     (case generic_args (type_raw ty) of _ # e # _ \<Rightarrow> Some (TypeRef e) | _ \<Rightarrow> None)"

definition is_distance_type :: "type_ref \<Rightarrow> bool" where
  "is_distance_type ty \<longleftrightarrow> starts_with ''Distance<'' (type_raw ty) \<and> generic_arg (type_raw ty) \<noteq> None"

definition is_duration_type :: "type_ref \<Rightarrow> bool" where
  "is_duration_type ty \<longleftrightarrow> starts_with ''Duration<'' (type_raw ty) \<and> generic_arg (type_raw ty) \<noteq> None"

definition is_hour_duration_type :: "type_ref \<Rightarrow> bool" where
  "is_hour_duration_type ty \<longleftrightarrow> generic_arg (type_raw ty) = Some ''Hour'' \<and> is_duration_type ty"

definition is_speed_type :: "type_ref \<Rightarrow> bool" where
  "is_speed_type ty \<longleftrightarrow> starts_with ''Speed<'' (type_raw ty) \<and> generic_arg (type_raw ty) \<noteq> None"

definition is_money_type :: "type_ref \<Rightarrow> bool" where
  "is_money_type ty \<longleftrightarrow> starts_with ''Money<'' (type_raw ty) \<and> generic_arg (type_raw ty) \<noteq> None"

definition is_bool_type :: "type_ref \<Rightarrow> bool" where
  "is_bool_type ty \<longleftrightarrow> type_raw ty = ''Bool''"

definition is_numeric_type :: "type_ref \<Rightarrow> bool" where
  "is_numeric_type ty \<longleftrightarrow> type_raw ty \<in> {''Int'', ''Float'', ''Decimal''}"

definition is_ordered_type :: "type_ref \<Rightarrow> bool" where
  "is_ordered_type ty \<longleftrightarrow> type_raw ty \<in> {''Int'', ''Float'', ''Decimal'', ''Date'', ''DateTime''}
     \<or> is_money_type ty \<or> is_distance_type ty \<or> is_duration_type ty \<or> is_speed_type ty"

text \<open>A quantity that has a unit.\<close>

definition is_measure :: "type_ref \<Rightarrow> bool" where
  "is_measure ty \<longleftrightarrow> is_distance_type ty \<or> is_duration_type ty \<or> is_speed_type ty"

definition add_result :: "type_ref \<Rightarrow> type_ref \<Rightarrow> type_ref option" where
  "add_result l r =
     (if type_raw l = ''DateTime'' \<and> is_hour_duration_type r then Some l
      else if (is_numeric_type l \<or> is_money_type l \<or> is_measure l) \<and> l = r then Some l
      else None)"

definition multiply_result :: "type_ref \<Rightarrow> type_ref \<Rightarrow> type_ref option" where
  "multiply_result l r =
     (if is_numeric_type l \<and> l = r then Some l
      else if is_money_type l \<and> is_numeric_type r then Some l
      else if is_numeric_type l \<and> is_money_type r then Some r
      else if ((is_speed_type l \<and> is_duration_type r) \<or> (is_duration_type l \<and> is_speed_type r))
           \<and> generic_arg (type_raw (if is_speed_type l then l else r)) = Some ''KilometersPerHour''
           \<and> generic_arg (type_raw (if is_duration_type l then l else r)) = Some ''Hour''
      then Some (TypeRef ''Distance<Kilometer>'')
      else if is_numeric_type r \<and> is_measure l then Some l
      else if is_numeric_type l \<and> is_measure r then Some r
      else None)"

definition divide_result :: "type_ref \<Rightarrow> type_ref \<Rightarrow> type_ref option" where
  "divide_result l r =
     (if is_numeric_type l \<and> l = r then Some l
      else if is_money_type l \<and> is_numeric_type r then Some l
      else if is_distance_type l \<and> is_duration_type r
           \<and> generic_arg (type_raw l) = Some ''Kilometer'' \<and> generic_arg (type_raw r) = Some ''Hour''
      then Some (TypeRef ''Speed<KilometersPerHour>'')
      else if is_distance_type l \<and> is_speed_type r
           \<and> generic_arg (type_raw l) = Some ''Kilometer''
           \<and> generic_arg (type_raw r) = Some ''KilometersPerHour''
      then Some (TypeRef ''Duration<Hour>'')
      else if is_measure l \<and> l = r then Some (TypeRef ''Float'')
      else if is_numeric_type r \<and> is_measure l then Some l
      else None)"

fun arithmetic_result_type :: "binary_op \<Rightarrow> type_ref \<Rightarrow> type_ref \<Rightarrow> type_ref option" where
  "arithmetic_result_type Op_Add l r = add_result l r"
| "arithmetic_result_type Op_Subtract l r = add_result l r"
| "arithmetic_result_type Op_Multiply l r = multiply_result l r"
| "arithmetic_result_type Op_Divide l r = divide_result l r"
| "arithmetic_result_type _ l r = None"

section \<open>The functions of the language\<close>

definition params_of :: "(string \<times> string list) list \<Rightarrow> string \<Rightarrow> type_ref list option" where
  "params_of table name = map_option (map TypeRef) (map_of table name)"

definition result_of :: "(string \<times> string) list \<Rightarrow> string \<Rightarrow> type_ref option" where
  "result_of table name = map_option TypeRef (map_of table name)"

definition is_scalar_validator :: "string \<Rightarrow> bool" where
  "is_scalar_validator name \<longleftrightarrow>
     name \<in> {''validate_email'', ''validate_url'', ''validate_uuid'', ''validate_phone_number''}"

definition scalar_validator_param_types :: "string \<Rightarrow> type_ref list option" where
  "scalar_validator_param_types name = (if is_scalar_validator name then Some [TypeRef ''Text''] else None)"

definition scalar_validator_result_type :: "string \<Rightarrow> type_ref option" where
  "scalar_validator_result_type = result_of
     [(''validate_email'', ''Email''), (''validate_url'', ''Url''), (''validate_uuid'', ''Uuid''),
      (''validate_phone_number'', ''PhoneNumber'')]"

definition is_hash_helper :: "string \<Rightarrow> bool" where
  "is_hash_helper name \<longleftrightarrow> name \<in> {''hash_sha256_hex'', ''hash_sha256_base64''}"

definition hash_helper_param_types :: "string \<Rightarrow> type_ref list option" where
  "hash_helper_param_types name = (if is_hash_helper name then Some [TypeRef ''Text''] else None)"

definition hash_helper_result_type :: "string \<Rightarrow> type_ref option" where
  "hash_helper_result_type name = (if is_hash_helper name then Some (TypeRef ''Text'') else None)"

definition is_bytes_xml_helper :: "string \<Rightarrow> bool" where
  "is_bytes_xml_helper name \<longleftrightarrow>
     name \<in> {''bytes_from_text'', ''bytes_from_base64'', ''bytes_to_base64'', ''bytes_len'', ''xml_parse'',
       ''xml_to_text''}"

definition bytes_xml_helper_param_types :: "string \<Rightarrow> type_ref list option" where
  "bytes_xml_helper_param_types = params_of
     [(''bytes_from_text'', [''Text'']), (''bytes_from_base64'', [''Text'']), (''xml_parse'', [''Text'']),
      (''bytes_to_base64'', [''Bytes'']), (''bytes_len'', [''Bytes'']), (''xml_to_text'', [''Xml''])]"

definition bytes_xml_helper_result_type :: "string \<Rightarrow> type_ref option" where
  "bytes_xml_helper_result_type = result_of
     [(''bytes_from_text'', ''Bytes''), (''bytes_from_base64'', ''Bytes''), (''bytes_to_base64'', ''Text''),
      (''xml_to_text'', ''Text''), (''bytes_len'', ''Int''), (''xml_parse'', ''Xml'')]"

definition is_document_helper :: "string \<Rightarrow> bool" where
  "is_document_helper name \<longleftrightarrow>
     name \<in> {''document_metadata'', ''pdf_metadata'', ''docx_metadata'', ''spreadsheet_sheet_metadata'',
       ''spreadsheet_metadata'', ''image_metadata'', ''ocr_result'', ''extracted_document_text'',
       ''document_extraction_metadata'', ''document_extraction_error'', ''pdf_parse_metadata'',
       ''docx_parse_metadata'', ''spreadsheet_parse_metadata'', ''image_parse_metadata''}"

definition document_helper_param_types :: "string \<Rightarrow> type_ref list option" where
  "document_helper_param_types = params_of
     [(''document_metadata'', [''Text'', ''Text'', ''Text'', ''Int'', ''Text'', ''Text'', ''Text'']),
      (''pdf_metadata'', [''Document'', ''Int'']),
      (''docx_metadata'', [''Document'', ''Text'', ''Text'', ''Int'']),
      (''spreadsheet_sheet_metadata'', [''Text'', ''Int'', ''Int'', ''Int'']),
      (''spreadsheet_metadata'', [''Document'', ''Text'']),
      (''image_metadata'', [''Document'', ''Int'', ''Int'', ''Text'']),
      (''ocr_result'', [''Image'', ''Text'', ''Float'', ''Text'', ''Text'']),
      (''extracted_document_text'', [''Document'', ''Text'', ''Text'', ''Text'']),
      (''document_extraction_metadata'', [''Document'', ''Text'', ''Text'', ''Text'', ''Int'', ''Text'']),
      (''document_extraction_error'', [''Document'', ''Text'', ''Text'', ''Bool'', ''Text'']),
      (''pdf_parse_metadata'', [''Document'', ''Bytes'']),
      (''docx_parse_metadata'', [''Document'', ''Bytes'']),
      (''spreadsheet_parse_metadata'', [''Document'', ''Bytes'']),
      (''image_parse_metadata'', [''Document'', ''Bytes''])]"

definition document_helper_result_type :: "string \<Rightarrow> type_ref option" where
  "document_helper_result_type = result_of
     [(''document_metadata'', ''Document''), (''pdf_metadata'', ''Pdf''), (''docx_metadata'', ''Docx''),
      (''spreadsheet_sheet_metadata'', ''SpreadsheetSheet''), (''spreadsheet_metadata'', ''Spreadsheet''),
      (''image_metadata'', ''Image''), (''ocr_result'', ''OcrResult''),
      (''extracted_document_text'', ''ExtractedDocumentText''),
      (''document_extraction_metadata'', ''DocumentExtractionMetadata''),
      (''document_extraction_error'', ''DocumentExtractionError''), (''pdf_parse_metadata'', ''Pdf''),
      (''docx_parse_metadata'', ''Docx''), (''spreadsheet_parse_metadata'', ''Spreadsheet''),
      (''image_parse_metadata'', ''Image'')]"

definition is_datetime_duration_helper :: "string \<Rightarrow> bool" where
  "is_datetime_duration_helper name \<longleftrightarrow>
     name \<in> {''datetime_parse_iso'', ''datetime_format_iso'', ''duration_parse_hours'',
       ''duration_format_hours''}"

definition datetime_duration_param_types :: "string \<Rightarrow> type_ref list option" where
  "datetime_duration_param_types = params_of
     [(''datetime_parse_iso'', [''Text'']), (''duration_parse_hours'', [''Text'']),
      (''datetime_format_iso'', [''DateTime'']), (''duration_format_hours'', [''Duration<Hour>''])]"

definition datetime_duration_result_type :: "string \<Rightarrow> type_ref option" where
  "datetime_duration_result_type = result_of
     [(''datetime_parse_iso'', ''DateTime''), (''datetime_format_iso'', ''Text''),
      (''duration_parse_hours'', ''Duration<Hour>''), (''duration_format_hours'', ''Text'')]"

definition is_decimal_helper :: "string \<Rightarrow> bool" where
  "is_decimal_helper name \<longleftrightarrow> name \<in> {''decimal_parse'', ''decimal_format''}"

definition decimal_helper_param_types :: "string \<Rightarrow> type_ref list option" where
  "decimal_helper_param_types = params_of
     [(''decimal_parse'', [''Text'']), (''decimal_format'', [''Decimal''])]"

definition decimal_helper_result_type :: "string \<Rightarrow> type_ref option" where
  "decimal_helper_result_type = result_of
     [(''decimal_parse'', ''Decimal''), (''decimal_format'', ''Text'')]"

definition is_money_helper :: "string \<Rightarrow> bool" where
  "is_money_helper name \<longleftrightarrow> name \<in> {''exchange_rate'', ''convert_money''}"

definition is_currency_code :: "string \<Rightarrow> bool" where
  "is_currency_code txt =
     (case builtin_symbol_of txt of Some s \<Rightarrow> builtin_kind s = Kind_Currency | None \<Rightarrow> False)"

definition exchange_rate_type_args :: "type_ref \<Rightarrow> (string \<times> string) option" where
  "exchange_rate_type_args ty =
     (if \<not> starts_with ''ExchangeRate<'' (type_raw ty) then None
      else (case generic_args (type_raw ty) of [a, b] \<Rightarrow> Some (a, b) | _ \<Rightarrow> None))"

definition exchange_rate_result_type_in_context :: "expr \<Rightarrow> type_ref option \<Rightarrow> type_ref option" where
  "exchange_rate_result_type_in_context e expected =
     (case e of
        ECall callee _ \<Rightarrow>
          (if expr_path callee = Some [''exchange_rate'']
           then (case expected of
                   Some ty \<Rightarrow> if exchange_rate_type_args ty \<noteq> None then Some ty else None
                 | None \<Rightarrow> None)
           else None)
      | _ \<Rightarrow> None)"

definition is_collection_helper :: "string \<Rightarrow> bool" where
  "is_collection_helper name \<longleftrightarrow>
     name \<in> {''map_empty'', ''map_contains'', ''map_get'', ''map_insert'', ''map_remove'', ''set_empty'',
       ''set_contains'', ''set_insert'', ''set_remove'', ''queue_empty'', ''queue_enqueue'',
       ''queue_front'', ''queue_dequeue'', ''queue_is_empty'', ''stack_empty'', ''stack_push'',
       ''stack_peek'', ''stack_pop'', ''stack_is_empty'', ''stream_empty'', ''stream_append'',
       ''stream_has_next'', ''stream_next'', ''stream_advance''}"

definition is_collection_empty_constructor_expr :: "expr \<Rightarrow> bool" where
  "is_collection_empty_constructor_expr e =
     (case e of
        ECall callee args \<Rightarrow> args = []
          \<and> expr_path callee \<in> Some ` {[''map_empty''], [''set_empty''], [''queue_empty''],
              [''stack_empty''], [''stream_empty'']}
      | _ \<Rightarrow> False)"

definition collection_empty_result_type :: "expr \<Rightarrow> type_ref option \<Rightarrow> type_ref option" where
  "collection_empty_result_type e expected =
     (case (e, expected) of
        (ECall callee _, Some ty) \<Rightarrow>
          (case expr_path callee of
             Some (call_name # _) \<Rightarrow>
               (if (call_name, type_base_name (type_raw ty)) \<in>
                     {(''map_empty'', ''Map''), (''set_empty'', ''Set''), (''queue_empty'', ''Queue''),
                      (''stack_empty'', ''Stack''), (''stream_empty'', ''Stream'')}
                then Some ty else None)
           | _ \<Rightarrow> None)
      | _ \<Rightarrow> None)"

definition collection_helper_result_type :: "string \<Rightarrow> type_ref option" where
  "collection_helper_result_type name =
     (if name \<in> {''map_contains'', ''set_contains'', ''queue_is_empty'', ''stack_is_empty'',
        ''stream_has_next''}
      then Some (TypeRef ''Bool'') else None)"

section \<open>Expressions and bodies\<close>

fun expr_label :: "expr \<Rightarrow> string" where
  "expr_label (EIdent name) = name"
| "expr_label (EMember obj fld) = expr_label obj @ ''.'' @ fld"
| "expr_label (ECall callee _) = expr_label callee"
| "expr_label (ETry inner) = expr_label inner"
| "expr_label (EAsync inner) = expr_label inner"
| "expr_label (EAwait inner) = expr_label inner"
| "expr_label (EBinary _ _ _) = ''expression''"
| "expr_label (EObject _) = ''object''"
| "expr_label _ = ''literal''"

text \<open>\<open>str::contains\<close>.\<close>

definition contains_str :: "string \<Rightarrow> string \<Rightarrow> bool" where
  "contains_str p s \<longleftrightarrow> find_str p s \<noteq> None"

definition compact_member_access :: "string \<Rightarrow> string" where
  "compact_member_access txt = replace '' .'' ''.'' (replace ''. '' ''.'' (replace '' . '' ''.'' txt))"

definition is_ai_call :: "string \<Rightarrow> bool" where
  "is_ai_call txt \<longleftrightarrow> contains_str ''ai.'' (compact_member_access txt)"

definition direct_call_path :: "expr \<Rightarrow> string list option" where
  "direct_call_path e = (case e of ECall callee _ \<Rightarrow> expr_path callee | _ \<Rightarrow> None)"

definition is_reject_call :: "string \<Rightarrow> bool" where
  "is_reject_call txt =
     (case parse_expr txt of Ok e \<Rightarrow> direct_call_path e = Some [''reject''] | Err _ \<Rightarrow> False)"

fun direct_workflow_expectation_call_name :: "expr \<Rightarrow> string option" where
  "direct_workflow_expectation_call_name (ECall (EIdent name) _) = Some name"
| "direct_workflow_expectation_call_name _ = None"

fun flatten_stmt :: "stmt \<Rightarrow> raw_expr list"
  and flatten_arm :: "match_arm \<Rightarrow> raw_expr list"
where
  "flatten_stmt (Let_Stmt s) = (case let_expr s of Some e \<Rightarrow> [e] | None \<Rightarrow> [])"
| "flatten_stmt (Assign_Stmt s) = [assign_expr s]"
| "flatten_stmt (Assert_Stmt s) = [assert_expr s]"
| "flatten_stmt (ExpectPolicy_Stmt _ body _) = concat (map flatten_stmt body)"
| "flatten_stmt (ExpectWorkflow_Stmt s) = [expect_call s]"
| "flatten_stmt (ExpectAudit_Stmt s) = [audit_event s]"
| "flatten_stmt (MockAi_Stmt s) = [mock_call s, mock_value s, mock_confidence s]"
| "flatten_stmt (MockAiScan_Stmt s) =
     scan_call s # (case scan_reason s of Some e \<Rightarrow> [e] | None \<Rightarrow> [])"
| "flatten_stmt (MockConnector_Stmt s) = [connector_call s, connector_value s]"
| "flatten_stmt (Require_Stmt _) = []"
| "flatten_stmt (Transaction_Stmt _ body _) = concat (map flatten_stmt body)"
| "flatten_stmt (Scope_Stmt body _) = concat (map flatten_stmt body)"
| "flatten_stmt (If_Stmt c then_body else_body _) =
     c # concat (map flatten_stmt then_body) @ concat (map flatten_stmt else_body)"
| "flatten_stmt (Match_Stmt e arms _) = e # concat (map flatten_arm arms)"
| "flatten_stmt (Return_Stmt e) = [e]"
| "flatten_stmt (Expr_Stmt e) = [e]"
| "flatten_arm (MatchArm _ guard body _) =
     (case guard of Some g \<Rightarrow> [g] | None \<Rightarrow> []) @ concat (map flatten_stmt body)"

definition flatten_exprs :: "stmt list \<Rightarrow> raw_expr list" where
  "flatten_exprs body = concat (map flatten_stmt body)"

definition contains_audit :: "stmt list \<Rightarrow> bool" where
  "contains_audit body \<longleftrightarrow>
     list_ex (\<lambda>e. starts_with ''audit'' (raw_text e) \<or> contains_str '' audit '' (raw_text e))
       (flatten_exprs body)"

fun collect_root_member_names :: "expr \<Rightarrow> string list" where
  "collect_root_member_names (EMember obj fld) =
     (case expr_path (EMember obj fld) of Some (p # _ # _) \<Rightarrow> [p] | _ \<Rightarrow> []) @ collect_root_member_names obj"
| "collect_root_member_names (ECall callee args) =
     collect_root_member_names callee @ concat (map collect_root_member_names args)"
| "collect_root_member_names (EBinary l _ r) = collect_root_member_names l @ collect_root_member_names r"
| "collect_root_member_names (ETry inner) = collect_root_member_names inner"
| "collect_root_member_names (EAsync inner) = collect_root_member_names inner"
| "collect_root_member_names (EAwait inner) = collect_root_member_names inner"
| "collect_root_member_names (EObject fs) = concat (map (\<lambda>f. collect_root_member_names (snd f)) fs)"
| "collect_root_member_names _ = []"

definition root_member_names :: "expr \<Rightarrow> string list" where
  "root_member_names e = remdups_adj (sort (collect_root_member_names e))"

text \<open>\<open>join\<close> of a path.\<close>

definition join_dots :: "string list \<Rightarrow> string" where
  "join_dots path = concat (case path of [] \<Rightarrow> [] | p # ps \<Rightarrow> p # map (\<lambda>q. ''.'' @ q) ps)"

definition external_policy_targets :: "string list \<Rightarrow> string list" where
  "external_policy_targets path =
     [''ExternalApi''] @ (if 2 \<le> length path then [join_dots (take 2 path)] else [])
     @ (if 3 \<le> length path then [join_dots path] else [])"

definition connector_policy_targets :: "string list \<Rightarrow> string list" where
  "connector_policy_targets path =
     [''ConnectorApi''] @ take 1 path @ (if 2 \<le> length path then [join_dots path] else [])"

end
