(* ===== verification/Checker.thy ===== *)
theory Checker
  imports Type_Text Policies Literals "HOL-Library.AList" "HOL-Library.Monad_Syntax"
begin

text \<open>
  \<open>num-compiler/src/semantic.rs\<close>: the state of the checker and the questions about types. The hash
  maps that are only asked for keys are maps; those that the code also iterates over are lists of pairs
  with distinct keys, in the order of the declarations (the code iterates in an unspecified order).

  A loop of the checker may run forever, on a generic alias that grows with each expansion. Results
  are therefore of the type \<open>'a option\<close>, with \<open>None\<close> for a call that does not return; an \<open>Option\<close> of
  the code is a second option inside.
\<close>

section \<open>Runs\<close>

type_synonym 'a run = "'a option"

text \<open>\<open>if let Some(x) = r { f(x) } else { d }\<close>.\<close>

definition if_some :: "'b run \<Rightarrow> 'a option run \<Rightarrow> ('a \<Rightarrow> 'b run) \<Rightarrow> 'b run" where
  "if_some d r f = do { x \<leftarrow> r; case x of None \<Rightarrow> d | Some y \<Rightarrow> f y }"

text \<open>The operator \<open>?\<close> on an \<open>Option\<close>, and \<open>or_else\<close>.\<close>

abbreviation try_some :: "'a option run \<Rightarrow> ('a \<Rightarrow> 'b option run) \<Rightarrow> 'b option run" where
  "try_some \<equiv> if_some (Some None)"

definition orelse :: "'a option run \<Rightarrow> 'a option run \<Rightarrow> 'a option run" where
  "orelse r s = if_some s r (\<lambda>x. Some (Some x))"

text \<open>Checks one after the other; their results are appended.\<close>

fun run_all :: "'a list run list \<Rightarrow> 'a list run" where
  "run_all [] = Some []"
| "run_all (r # rs) = do { xs \<leftarrow> r; ys \<leftarrow> run_all rs; Some (xs @ ys) }"

abbreviation nothing :: "'a list run" where "nothing \<equiv> Some []"

abbreviation return_none :: "'a option run" where "return_none \<equiv> Some None"

abbreviation return_some :: "'a \<Rightarrow> 'a option run" where "return_some x \<equiv> Some (Some x)"

abbreviation on_some :: "'a option run \<Rightarrow> ('a \<Rightarrow> 'b list run) \<Rightarrow> 'b list run" where
  "on_some \<equiv> if_some nothing"

lemma if_some_simps [simp]:
  "if_some d None f = None" "if_some d (Some None) f = d" "if_some d (Some (Some x)) f = f x"
  by (simp_all add: if_some_def)

lemma orelse_simps [simp]:
  "orelse None s = None" "orelse (Some None) s = s" "orelse (Some (Some x)) s = Some (Some x)"
  by (simp_all add: orelse_def)

lemma if_some_cong [fundef_cong]:
  "r = r' \<Longrightarrow> (r' = Some None \<Longrightarrow> d = d') \<Longrightarrow> (\<And>x. r' = Some (Some x) \<Longrightarrow> f x = f' x)
     \<Longrightarrow> if_some d r f = if_some d' r' f'"
  by (cases r'; cases "the r'") auto

lemma orelse_cong [fundef_cong]:
  "r = r' \<Longrightarrow> (r' = Some None \<Longrightarrow> s = s') \<Longrightarrow> orelse r s = orelse r' s'"
  unfolding orelse_def by (rule if_some_cong) auto

section \<open>The state\<close>

datatype result_check = Check_Ok | Check_Err

record binding =
  bind_ty :: "type_ref option"
  bind_labels :: labels
  bind_mutable :: bool
  bind_uncertain :: bool
  bind_option_checked :: bool
  bind_result_checked :: "result_check option"
  bind_secret :: bool

type_synonym env = "(string \<times> binding) list"

datatype callable_kind = Kind_Fn | Kind_Workflow | Kind_Action

record callable_signature =
  sig_kind :: callable_kind
  sig_params :: "param list"
  sig_result :: "type_ref option"

record alias_entry =
  alias_params :: "string list"
  alias_target :: type_ref
  alias_nominal :: bool

record checker =
  ck_module :: module_ast
  ck_first_local :: nat
  ck_permissions :: "string set"
  ck_action_permissions :: "string \<rightharpoonup> string list"
  ck_action_risks :: "string \<rightharpoonup> risk"
  ck_callables :: "string \<rightharpoonup> callable_signature"
  ck_policies :: "policy_rule list"
  ck_types :: "string set"
  ck_type_arities :: "string \<rightharpoonup> nat"
  ck_type_params :: "string \<rightharpoonup> string list"
  ck_aliases :: "string \<rightharpoonup> alias_entry"
  ck_fields :: "string \<rightharpoonup> (string \<times> field) list"
  ck_enum_variants :: "string \<rightharpoonup> string list"
  ck_enum_payloads :: "(string \<times> (string \<rightharpoonup> type_ref option)) list"
  ck_external_namespaces :: "string set"
  ck_connector_methods :: "string \<rightharpoonup> (string \<rightharpoonup> connector_method)"
  ck_actor_handlers :: "string \<rightharpoonup> (string \<rightharpoonup> callable_signature)"
  ck_methods :: "string \<rightharpoonup> (string \<rightharpoonup> callable_signature)"
  ck_tenant :: "string option"
  ck_route :: "(string \<times> string) option"

text \<open>A hash map from pairs: a later pair replaces an earlier one with its key.\<close>

definition map_from :: "('k \<times> 'v) list \<Rightarrow> 'k \<rightharpoonup> 'v" where
  "map_from kvs = map_of (rev kvs)"

definition alist_from :: "('k \<times> 'v) list \<Rightarrow> ('k \<times> 'v) list" where
  "alist_from kvs = fold (\<lambda>(k, v). AList.update k v) kvs []"

definition fn_signature :: "callable_kind \<Rightarrow> callable_decl \<Rightarrow> callable_signature" where
  "fn_signature kd f = \<lparr>sig_kind = kd, sig_params = callable_params f, sig_result = callable_result f\<rparr>"

definition empty_checker :: "module_ast \<Rightarrow> nat \<Rightarrow> checker" where
  "empty_checker md first_local =
     \<lparr>ck_module = md, ck_first_local = first_local, ck_permissions = {}, ck_action_permissions = Map.empty,
      ck_action_risks = Map.empty, ck_callables = Map.empty, ck_policies = [],
      ck_types = set builtin_type_names, ck_type_arities = map_of builtin_type_arities,
      ck_type_params = Map.empty, ck_aliases = Map.empty, ck_fields = Map.empty,
      ck_enum_variants = Map.empty, ck_enum_payloads = [], ck_external_namespaces = {},
      ck_connector_methods = Map.empty, ck_actor_handlers = Map.empty, ck_methods = Map.empty,
      ck_tenant = None, ck_route = None\<rparr>"

definition add_type :: "type_decl \<Rightarrow> checker \<Rightarrow> checker" where
  "add_type t c =
     (let name = type_name t;
          c' = c\<lparr>ck_types := insert name (ck_types c),
                 ck_type_arities := (ck_type_arities c)(name \<mapsto> length (type_generic_params t)),
                 ck_type_params := (ck_type_params c)(name \<mapsto> type_generic_params t)\<rparr>
      in (case type_body t of
            Struct_Body fs \<Rightarrow>
              c'\<lparr>ck_fields := (ck_fields c)(name \<mapsto> alist_from (map (\<lambda>f. (field_name f, f)) fs))\<rparr>
          | Alias_Body target \<Rightarrow>
              c'\<lparr>ck_aliases := (ck_aliases c)(name \<mapsto>
                 \<lparr>alias_params = type_generic_params t, alias_target = target,
                  alias_nominal = is_brand_type target\<rparr>)\<rparr>))"

definition add_method :: "string \<Rightarrow> callable_decl \<Rightarrow> checker \<Rightarrow> checker" where
  "add_method target m c =
     c\<lparr>ck_methods := (ck_methods c)(target \<mapsto>
         (unwrap_or Map.empty (ck_methods c target))(callable_name m \<mapsto> fn_signature Kind_Fn m))\<rparr>"

fun add_declaration :: "top_decl \<Rightarrow> checker \<Rightarrow> checker" where
  "add_declaration (Permission_Decl p) c = c\<lparr>ck_permissions := insert (permission_name p) (ck_permissions c)\<rparr>"
| "add_declaration (Impl_Decl i) c = fold (add_method (impl_target i)) (impl_methods i) c"
| "add_declaration (Action_Decl a) c =
     c\<lparr>ck_action_permissions := (ck_action_permissions c)(action_name a \<mapsto> action_requires a),
       ck_action_risks := (ck_action_risks c)(action_name a \<mapsto> action_risk a),
       ck_callables := (ck_callables c)(action_name a \<mapsto>
         \<lparr>sig_kind = Kind_Action, sig_params = action_params a, sig_result = action_result a\<rparr>)\<rparr>"
| "add_declaration (Function_Decl f) c =
     c\<lparr>ck_callables := (ck_callables c)(callable_name f \<mapsto> fn_signature Kind_Fn f)\<rparr>"
| "add_declaration (Workflow_Decl w) c =
     c\<lparr>ck_callables := (ck_callables c)(callable_name w \<mapsto> fn_signature Kind_Workflow w)\<rparr>"
| "add_declaration (Actor_Decl a) c =
     c\<lparr>ck_actor_handlers := (ck_actor_handlers c)(actor_name a \<mapsto>
         map_from (map (\<lambda>h. (callable_name h, fn_signature Kind_Fn h)) (actor_handlers a)))\<rparr>"
| "add_declaration (Policy_Decl p) c = c\<lparr>ck_policies := extend_policy (ck_policies c) p\<rparr>"
| "add_declaration (Type_Decl t) c = add_type t c"
| "add_declaration (Enum_Decl e) c =
     c\<lparr>ck_types := insert (enum_name e) (ck_types c),
       ck_enum_variants := (ck_enum_variants c)(enum_name e \<mapsto> map variant_name (enum_variants e)),
       ck_enum_payloads := AList.update (enum_name e)
         (map_from (map (\<lambda>v. (variant_name v, variant_payload v)) (enum_variants e))) (ck_enum_payloads c)\<rparr>"
| "add_declaration (Connector_Decl k) c =
     c\<lparr>ck_external_namespaces := insert (connector_name k) (ck_external_namespaces c),
       ck_connector_methods := (ck_connector_methods c)(connector_name k \<mapsto>
         map_from (map (\<lambda>m. (method_name m, m)) (connector_methods k)))\<rparr>"
| "add_declaration (Service_Decl s) c =
     c\<lparr>ck_external_namespaces := insert (service_name s) (ck_external_namespaces c)\<rparr>"
| "add_declaration _ c = c"

definition new_checker :: "module_ast \<Rightarrow> nat \<Rightarrow> checker" where
  "new_checker md first_local = fold add_declaration (mod_declarations md) (empty_checker md first_local)"

definition with_policy_tenant :: "string \<Rightarrow> checker \<Rightarrow> checker" where
  "with_policy_tenant tenant c = c\<lparr>ck_tenant := Some tenant\<rparr>"

text \<open>\<open>to_ascii_uppercase\<close>.\<close>

definition to_ascii_uppercase :: "string \<Rightarrow> string" where
  "to_ascii_uppercase = map (\<lambda>c. if is_ascii_lower c then char_of (byte c - 32) else c)"

definition with_policy_route :: "string \<Rightarrow> string \<Rightarrow> checker \<Rightarrow> checker" where
  "with_policy_route meth path c = c\<lparr>ck_route := Some (to_ascii_uppercase meth, path)\<rparr>"

section \<open>Aliases\<close>

definition expand_alias :: "checker \<Rightarrow> type_ref \<Rightarrow> type_ref option" where
  "expand_alias c ty =
     (case ck_aliases c (type_base_name (type_raw ty)) of
        None \<Rightarrow> None
      | Some alias \<Rightarrow>
          (if alias_nominal alias then None
           else
             (let args = generic_args (type_raw ty) in
              if length args \<noteq> length (alias_params alias) then None
              else Some (substitute_type_params (alias_target alias)
                     (type_param_substitutions (alias_params alias) args)))))"

text \<open>The loop stops at a text it has seen.\<close>

partial_function (option) resolve_loop :: "checker \<Rightarrow> string set \<Rightarrow> type_ref \<Rightarrow> type_ref option" where
  "resolve_loop c seen ty =
     (if type_raw ty \<in> seen then Some ty
      else (case expand_alias c ty of
              None \<Rightarrow> Some ty
            | Some expanded \<Rightarrow> resolve_loop c (insert (type_raw ty) seen) expanded))"

declare resolve_loop.simps [code]

definition resolve_aliases :: "checker \<Rightarrow> type_ref \<Rightarrow> type_ref run" where
  "resolve_aliases c ty = resolve_loop c {} ty"

definition is_option_type :: "checker \<Rightarrow> type_ref \<Rightarrow> bool run" where
  "is_option_type c ty = map_option is_option (resolve_aliases c ty)"

definition is_result_type :: "checker \<Rightarrow> type_ref \<Rightarrow> bool run" where
  "is_result_type c ty = map_option is_result (resolve_aliases c ty)"

definition is_uncertain_type :: "checker \<Rightarrow> type_ref \<Rightarrow> bool run" where
  "is_uncertain_type c ty = map_option is_uncertain (resolve_aliases c ty)"

definition is_task_type :: "checker \<Rightarrow> type_ref \<Rightarrow> bool run" where
  "is_task_type c ty = map_option is_task (resolve_aliases c ty)"

definition is_secret_type :: "checker \<Rightarrow> type_ref \<Rightarrow> bool run" where
  "is_secret_type c ty = map_option is_secret (resolve_aliases c ty)"

definition option_inner_type :: "checker \<Rightarrow> type_ref \<Rightarrow> type_ref option run" where
  "option_inner_type c ty = map_option (\<lambda>t. map_option TypeRef (generic_arg (type_raw t))) (resolve_aliases c ty)"

definition task_inner_type :: "checker \<Rightarrow> type_ref \<Rightarrow> type_ref option run" where
  "task_inner_type c ty = map_option (\<lambda>t. map_option TypeRef (generic_arg (type_raw t))) (resolve_aliases c ty)"

definition result_ok_type :: "checker \<Rightarrow> type_ref \<Rightarrow> type_ref option run" where
  "result_ok_type c ty = map_option result_ok_arg (resolve_aliases c ty)"

definition result_err_type :: "checker \<Rightarrow> type_ref \<Rightarrow> type_ref option run" where
  "result_err_type c ty = map_option result_err_arg (resolve_aliases c ty)"

section \<open>Compatibility\<close>

text \<open>
  One comparison, or the loop of \<open>any\<close> over the members of the expected union, or that of \<open>all\<close> over
  the members of the actual one. The set of the compared pairs is shared by all of them.
\<close>

datatype comparison = One string string | AnyOf "string list" string | AllOf string "string list"

partial_function (option) compatible_loop ::
  "checker \<Rightarrow> comparison \<Rightarrow> (string \<times> string) set \<Rightarrow> (bool \<times> (string \<times> string) set) option" where
  "compatible_loop c cmp seen =
     (case cmp of
        AnyOf es a \<Rightarrow>
          (case es of
             [] \<Rightarrow> Some (False, seen)
           | e # es' \<Rightarrow>
               do { (b, seen') \<leftarrow> compatible_loop c (One e a) seen;
                    if b then Some (True, seen') else compatible_loop c (AnyOf es' a) seen' })
      | AllOf e as \<Rightarrow>
          (case as of
             [] \<Rightarrow> Some (True, seen)
           | a # as' \<Rightarrow>
               do { (b, seen') \<leftarrow> compatible_loop c (One e a) seen;
                    if b then compatible_loop c (AllOf e as') seen' else Some (False, seen') })
      | One e a \<Rightarrow>
          (if e = a then Some (True, seen)
           else if (e, a) \<in> seen then Some (False, seen)
           else if 1 < length (union_members e)
           then compatible_loop c (AnyOf (union_members e) a) (insert (e, a) seen)
           else if 1 < length (union_members a)
           then compatible_loop c (AllOf e (union_members a)) (insert (e, a) seen)
           else
             do { (b, seen') \<leftarrow>
                    (case expand_alias c (TypeRef e) of
                       Some t \<Rightarrow> compatible_loop c (One (type_raw t) a) (insert (e, a) seen)
                     | None \<Rightarrow> Some (False, insert (e, a) seen));
                  if b then Some (True, seen')
                  else
                    (case expand_alias c (TypeRef a) of
                       Some t \<Rightarrow> compatible_loop c (One e (type_raw t)) seen'
                     | None \<Rightarrow> Some (False, seen')) }))"

declare compatible_loop.simps [code]

definition types_compatible :: "checker \<Rightarrow> type_ref \<Rightarrow> type_ref \<Rightarrow> bool run" where
  "types_compatible c expected actual =
     map_option fst (compatible_loop c (One (type_raw expected) (type_raw actual)) {})"

section \<open>Known names\<close>

text \<open>A diagnostic with its reason and its help.\<close>

definition report :: "string \<Rightarrow> string \<Rightarrow> span \<Rightarrow> string \<Rightarrow> string \<Rightarrow> diagnostic" where
  "report code msg sp reason help = with_help help (with_reason reason (diagnostic_error code msg sp))"

definition unknown_permission :: "string \<Rightarrow> span \<Rightarrow> diagnostic" where
  "unknown_permission p sp =
     with_help ''declare the permission at module level''
       (diagnostic_error ''N1101'' (''unknown permission `'' @ p @ ''`'') sp)"

definition known_permission :: "checker \<Rightarrow> string \<Rightarrow> span \<Rightarrow> diagnostic list" where
  "known_permission c p sp = (if p \<in> ck_permissions c then [] else [unknown_permission p sp])"

definition unknown_type :: "string \<Rightarrow> span \<Rightarrow> diagnostic" where
  "unknown_type name sp =
     report ''N1201'' (''unknown type `'' @ name @ ''`'') sp
       ''num uses explicit module-scoped type declarations''
       (''declare `type '' @ name @ '' { ... }` or use a built-in type'')"

definition reference_arity :: "checker \<Rightarrow> span \<Rightarrow> string list \<Rightarrow> type_reference \<Rightarrow> diagnostic list" where
  "reference_arity c sp params r =
     (let given = length (reference_args r) in
      if reference_name r \<in> set params
      then (if given = 0 then [] else [type_arity_diagnostic (reference_name r) 0 given sp])
      else
        (case ck_type_arities c (reference_name r) of
           None \<Rightarrow> []
         | Some expected \<Rightarrow>
             (if expected = given then [] else [type_arity_diagnostic (reference_name r) expected given sp])))"

definition type_ref_arity :: "checker \<Rightarrow> type_ref \<Rightarrow> span \<Rightarrow> string list \<Rightarrow> diagnostic list" where
  "type_ref_arity c ty sp params = concat (map (reference_arity c sp params) (type_references (type_raw ty)))"

definition known_type_ref_with_generics :: "checker \<Rightarrow> type_ref \<Rightarrow> span \<Rightarrow> string list \<Rightarrow> diagnostic list" where
  "known_type_ref_with_generics c ty sp params =
     map (\<lambda>name. unknown_type name sp)
       (filter (\<lambda>name. name \<notin> set params \<and> name \<notin> ck_types c \<and> \<not> is_currency_code name) (type_names ty))
     @ type_ref_arity c ty sp params"

definition known_type_ref :: "checker \<Rightarrow> type_ref \<Rightarrow> span \<Rightarrow> diagnostic list" where
  "known_type_ref c ty sp = known_type_ref_with_generics c ty sp []"

end
