(* ===== verification/Typing.thy ===== *)
theory Typing
  imports Checker
begin

text \<open>
  The types of expressions: the questions of \<open>semantic/expressions.rs\<close>, and those about constructors of
  \<open>semantic/brand_constructors.rs\<close>, \<open>enum_constructors.rs\<close>, \<open>option_constructors.rs\<close> and
  \<open>result_constructors.rs\<close>. A function that asks for the types of arguments is given the list of the
  answers, each of which it looks at only when the code would ask.
\<close>

section \<open>Members of the types of the language\<close>

definition text_members :: "string list \<Rightarrow> (string \<times> string) list" where
  "text_members names = map (\<lambda>n. (n, ''Text'')) names"

definition actor_member_type :: "string \<Rightarrow> type_ref option" where
  "actor_member_type = result_of
     (text_members [''id'', ''tenant'', ''request_id'', ''correlation_id'']
      @ [(''roles'', ''List<Text>'')] @ text_members [''provenance'', ''trust''])"

definition document_members :: "(string \<times> string) list" where
  "document_members =
     text_members [''id'', ''name'', ''mime_type'', ''source'', ''privacy'', ''trust''] @ [(''size_bytes'', ''Int'')]"

definition document_member_type :: "string \<Rightarrow> type_ref option" where
  "document_member_type = result_of document_members"

definition pdf_member_type :: "string \<Rightarrow> type_ref option" where
  "pdf_member_type = result_of ([(''document'', ''Document''), (''page_count'', ''Int'')] @ document_members)"

definition docx_member_type :: "string \<Rightarrow> type_ref option" where
  "docx_member_type = result_of
     ([(''document'', ''Document''), (''title'', ''Text''), (''creator'', ''Text''), (''paragraph_count'', ''Int'')]
      @ document_members)"

definition spreadsheet_sheet_member_type :: "string \<Rightarrow> type_ref option" where
  "spreadsheet_sheet_member_type = result_of
     [(''name'', ''Text''), (''row_count'', ''Int''), (''column_count'', ''Int''), (''header_row'', ''Int'')]"

definition spreadsheet_member_type :: "string \<Rightarrow> type_ref option" where
  "spreadsheet_member_type = result_of
     ([(''document'', ''Document''), (''sheet_count'', ''Int''), (''sheets'', ''List<SpreadsheetSheet>''),
       (''sheet_names'', ''List<Text>'')] @ document_members)"

definition image_member_type :: "string \<Rightarrow> type_ref option" where
  "image_member_type = result_of
     ([(''document'', ''Document''), (''width'', ''Int''), (''height'', ''Int''), (''format'', ''Text'')]
      @ document_members)"

definition ocr_result_member_type :: "string \<Rightarrow> type_ref option" where
  "ocr_result_member_type = result_of
     ((''image'', ''Image'') # text_members [''text'', ''provider'', ''model'', ''source'', ''privacy'', ''trust'']
      @ [(''confidence'', ''Float'')])"

definition extracted_document_text_member_type :: "string \<Rightarrow> type_ref option" where
  "extracted_document_text_member_type = result_of
     ((''document'', ''Document'') # text_members [''text'', ''provider'', ''model'', ''source'', ''privacy'', ''trust'']
      @ document_members)"

definition document_extraction_metadata_member_type :: "string \<Rightarrow> type_ref option" where
  "document_extraction_metadata_member_type = result_of
     ((''document'', ''Document'')
      # text_members [''title'', ''author'', ''language'', ''provider'', ''source'', ''privacy'', ''trust'']
      @ (''page_count'', ''Int'') # document_members)"

definition document_extraction_error_member_type :: "string \<Rightarrow> type_ref option" where
  "document_extraction_error_member_type = result_of
     ((''document'', ''Document'') # text_members [''code'', ''message'', ''provider'', ''source'', ''privacy'', ''trust'']
      @ (''retryable'', ''Bool'') # document_members)"

text \<open>The types of the language that have members, with the question about a member.\<close>

definition document_types :: "(string \<times> (string \<Rightarrow> type_ref option)) list" where
  "document_types =
     [(''Document'', document_member_type), (''Pdf'', pdf_member_type), (''Docx'', docx_member_type),
      (''SpreadsheetSheet'', spreadsheet_sheet_member_type), (''Spreadsheet'', spreadsheet_member_type),
      (''Image'', image_member_type), (''OcrResult'', ocr_result_member_type),
      (''ExtractedDocumentText'', extracted_document_text_member_type),
      (''DocumentExtractionMetadata'', document_extraction_metadata_member_type),
      (''DocumentExtractionError'', document_extraction_error_member_type)]"

definition uncertain_member_type :: "type_ref \<Rightarrow> string \<Rightarrow> type_ref option" where
  "uncertain_member_type base fld =
     (if fld = ''confidence'' then Some (TypeRef ''Float'')
      else if fld = ''value'' then map_option TypeRef (generic_arg (type_raw base)) else None)"

definition option_member_type :: "type_ref \<Rightarrow> string \<Rightarrow> type_ref option" where
  "option_member_type base fld =
     (if fld = ''is_some'' \<or> fld = ''is_none'' then Some (TypeRef ''Bool'')
      else if fld = ''value'' then map_option TypeRef (generic_arg (type_raw base)) else None)"

definition result_member_type :: "type_ref \<Rightarrow> string \<Rightarrow> type_ref option" where
  "result_member_type base fld =
     (if fld = ''is_ok'' \<or> fld = ''is_err'' then Some (TypeRef ''Bool'')
      else if fld = ''value'' then result_ok_arg base
      else if fld = ''error'' then result_err_arg base else None)"

definition method_result_type :: "checker \<Rightarrow> type_ref \<Rightarrow> string \<Rightarrow> type_ref option" where
  "method_result_type c base fld =
     (case ck_methods c (type_base_name (type_raw base)) of
        None \<Rightarrow> None
      | Some ms \<Rightarrow> map_option (\<lambda>sg. unwrap_or (TypeRef ''Unit'') (sig_result sg)) (ms fld))"

definition has_method :: "checker \<Rightarrow> type_ref \<Rightarrow> string \<Rightarrow> bool" where
  "has_method c base fld \<longleftrightarrow>
     (case ck_methods c (type_base_name (type_raw base)) of None \<Rightarrow> False | Some ms \<Rightarrow> ms fld \<noteq> None)"

definition type_substitutions :: "checker \<Rightarrow> type_ref \<Rightarrow> (string \<times> string) list" where
  "type_substitutions c ty =
     (case ck_type_params c (type_base_name (type_raw ty)) of
        None \<Rightarrow> []
      | Some params \<Rightarrow> type_param_substitutions params (generic_args (type_raw ty)))"

definition field_of :: "checker \<Rightarrow> type_ref \<Rightarrow> string \<Rightarrow> field option" where
  "field_of c ty fld =
     (case ck_fields c (type_base_name (type_raw ty)) of None \<Rightarrow> None | Some fs \<Rightarrow> map_of fs fld)"

text \<open>\<open>member_type\<close>, for a base whose type is known.\<close>

definition member_type_of :: "checker \<Rightarrow> type_ref \<Rightarrow> string \<Rightarrow> type_ref option run" where
  "member_type_of c base fld =
     do { resolved \<leftarrow> resolve_aliases c base;
          Some
            (if is_uncertain resolved then uncertain_member_type resolved fld
             else if is_option resolved then option_member_type resolved fld
             else if is_result resolved then result_member_type resolved fld
             else
               (let base_name = type_base_name (type_raw base) in
                if base_name = ''Actor'' then actor_member_type fld
                else
                  (case map_of document_types base_name of
                     Some members \<Rightarrow> members fld
                   | None \<Rightarrow>
                       map_option (\<lambda>f. substitute_type_params (field_ty f) (type_substitutions c base))
                         (field_of c base fld)))) }"

fun binary_result_type :: "binary_op \<Rightarrow> type_ref \<Rightarrow> type_ref \<Rightarrow> type_ref option" where
  "binary_result_type Op_Add l r = arithmetic_result_type Op_Add l r"
| "binary_result_type Op_Subtract l r = arithmetic_result_type Op_Subtract l r"
| "binary_result_type Op_Multiply l r = arithmetic_result_type Op_Multiply l r"
| "binary_result_type Op_Divide l r = arithmetic_result_type Op_Divide l r"
| "binary_result_type _ l r = Some (TypeRef ''Bool'')"

section \<open>Constructors of brands and enums\<close>

record brand_constructor_types =
  brand_base :: type_ref
  brand_result :: type_ref

definition is_brand_constructor_name :: "checker \<Rightarrow> string \<Rightarrow> bool" where
  "is_brand_constructor_name c name \<longleftrightarrow>
     (case ck_aliases c name of Some alias \<Rightarrow> alias_nominal alias | None \<Rightarrow> False)"

definition brand_constructor_alias_name :: "checker \<Rightarrow> expr \<Rightarrow> string option" where
  "brand_constructor_alias_name c callee =
     (case expr_path callee of
        Some [name] \<Rightarrow> if is_brand_constructor_name c name then Some name else None
      | _ \<Rightarrow> None)"

definition is_brand_constructor_expr :: "checker \<Rightarrow> expr \<Rightarrow> bool" where
  "is_brand_constructor_expr c e \<longleftrightarrow>
     (case e of ECall callee _ \<Rightarrow> brand_constructor_alias_name c callee \<noteq> None | _ \<Rightarrow> False)"

definition is_unbrand_call :: "expr \<Rightarrow> bool" where
  "is_unbrand_call callee \<longleftrightarrow> expr_path callee = Some [''unbrand'']"

definition brand_base_type :: "type_ref \<Rightarrow> type_ref option" where
  "brand_base_type ty =
     (case generic_args (type_raw ty) of
        [base, _] \<Rightarrow> if type_base_name (type_raw ty) = ''Brand'' then Some (TypeRef base) else None
      | _ \<Rightarrow> None)"

definition concrete_brand_alias_base_type :: "checker \<Rightarrow> string \<Rightarrow> type_ref option run" where
  "concrete_brand_alias_base_type c name =
     (case ck_aliases c name of
        None \<Rightarrow> return_none
      | Some alias \<Rightarrow>
          (if \<not> alias_nominal alias \<or> alias_params alias \<noteq> [] then return_none
           else map_option brand_base_type (resolve_aliases c (alias_target alias))))"

text \<open>The target of an alias with the arguments of a type, and the base of the brand it is.\<close>

definition applied_brand_base :: "checker \<Rightarrow> alias_entry \<Rightarrow> type_ref \<Rightarrow> type_ref option run" where
  "applied_brand_base c alias ty =
     (let args = generic_args (type_raw ty) in
      if length args \<noteq> length (alias_params alias) then return_none
      else map_option brand_base_type
             (resolve_aliases c
               (substitute_type_params (alias_target alias)
                 (type_param_substitutions (alias_params alias) args))))"

definition branded_value_base_type :: "checker \<Rightarrow> type_ref \<Rightarrow> type_ref option run" where
  "branded_value_base_type c ty =
     (let name = type_base_name (type_raw ty) in
      case ck_aliases c name of
        None \<Rightarrow> return_none
      | Some alias \<Rightarrow>
          (if \<not> alias_nominal alias then return_none
           else if alias_params alias = [] then concrete_brand_alias_base_type c name
           else applied_brand_base c alias ty))"

definition generic_brand_constructor ::
  "checker \<Rightarrow> string \<Rightarrow> type_ref \<Rightarrow> brand_constructor_types option run" where
  "generic_brand_constructor c name expected =
     (case ck_aliases c name of
        None \<Rightarrow> return_none
      | Some alias \<Rightarrow>
          (if \<not> alias_nominal alias \<or> alias_params alias = [] then return_none
           else if type_base_name (type_raw expected) \<noteq> name then return_none
           else map_option (map_option (\<lambda>base. \<lparr>brand_base = base, brand_result = expected\<rparr>))
                  (applied_brand_base c alias expected)))"

definition resolve_brand_constructor ::
  "checker \<Rightarrow> string \<Rightarrow> type_ref option \<Rightarrow> brand_constructor_types option run" where
  "resolve_brand_constructor c name expected =
     (case ck_aliases c name of
        None \<Rightarrow> return_none
      | Some alias \<Rightarrow>
          (if \<not> alias_nominal alias then return_none
           else if alias_params alias = []
           then map_option (map_option (\<lambda>base. \<lparr>brand_base = base, brand_result = TypeRef name\<rparr>))
                  (concrete_brand_alias_base_type c name)
           else (case expected of None \<Rightarrow> return_none | Some ty \<Rightarrow> generic_brand_constructor c name ty)))"

definition brand_constructor_param_types :: "checker \<Rightarrow> expr \<Rightarrow> type_ref list option run" where
  "brand_constructor_param_types c callee =
     (case brand_constructor_alias_name c callee of
        None \<Rightarrow> return_none
      | Some name \<Rightarrow> map_option (map_option (\<lambda>base. [base])) (concrete_brand_alias_base_type c name))"

definition brand_constructor_result_type :: "checker \<Rightarrow> expr \<Rightarrow> type_ref option" where
  "brand_constructor_result_type c callee =
     (case brand_constructor_alias_name c callee of
        None \<Rightarrow> None
      | Some name \<Rightarrow>
          (case ck_aliases c name of
             None \<Rightarrow> None
           | Some alias \<Rightarrow> if alias_params alias = [] then Some (TypeRef name) else None))"

definition is_enum_constructor_name :: "checker \<Rightarrow> string \<Rightarrow> bool" where
  "is_enum_constructor_name c name \<longleftrightarrow> list_ex (\<lambda>(_, vs). vs name \<noteq> None) (ck_enum_payloads c)"

definition enum_constructor_name :: "checker \<Rightarrow> expr \<Rightarrow> string option" where
  "enum_constructor_name c callee =
     (case expr_path callee of
        Some [name] \<Rightarrow> if is_enum_constructor_name c name then Some name else None
      | _ \<Rightarrow> None)"

definition is_enum_constructor_expr :: "checker \<Rightarrow> expr \<Rightarrow> bool" where
  "is_enum_constructor_expr c e \<longleftrightarrow>
     (case e of
        EIdent name \<Rightarrow> is_enum_constructor_name c name
      | ECall callee _ \<Rightarrow> enum_constructor_name c callee \<noteq> None
      | _ \<Rightarrow> False)"

definition unique_enum_type_for_variant :: "checker \<Rightarrow> string \<Rightarrow> type_ref option" where
  "unique_enum_type_for_variant c variant =
     (case filter (\<lambda>(_, vs). vs variant \<noteq> None) (ck_enum_payloads c) of
        [(name, _)] \<Rightarrow> Some (TypeRef name)
      | _ \<Rightarrow> None)"

text \<open>\<open>None\<close> for a type that has no such variant, otherwise the payload of the variant, if any.\<close>

definition enum_variant_payload :: "checker \<Rightarrow> type_ref \<Rightarrow> string \<Rightarrow> type_ref option option run" where
  "enum_variant_payload c ty variant =
     do { resolved \<leftarrow> resolve_aliases c ty;
          Some (case map_of (ck_enum_payloads c) (type_base_name (type_raw resolved)) of
                  None \<Rightarrow> None | Some vs \<Rightarrow> vs variant) }"

definition enum_constructor_param_types :: "checker \<Rightarrow> expr \<Rightarrow> type_ref list option run" where
  "enum_constructor_param_types c callee =
     (case enum_constructor_name c callee of
        None \<Rightarrow> return_none
      | Some variant \<Rightarrow>
          (case unique_enum_type_for_variant c variant of
             None \<Rightarrow> return_none
           | Some ty \<Rightarrow>
               try_some (enum_variant_payload c ty variant)
                 (\<lambda>payload. Some (map_option (\<lambda>p. [p]) payload))))"

definition enum_constructor_result_type :: "checker \<Rightarrow> expr \<Rightarrow> type_ref option \<Rightarrow> type_ref option run" where
  "enum_constructor_result_type c e expected =
     (case (case e of
              EIdent name \<Rightarrow> if is_enum_constructor_name c name then Some name else None
            | ECall callee _ \<Rightarrow> enum_constructor_name c callee
            | _ \<Rightarrow> None) of
        None \<Rightarrow> return_none
      | Some variant \<Rightarrow>
          (case (case expected of Some ty \<Rightarrow> Some ty | None \<Rightarrow> unique_enum_type_for_variant c variant) of
             None \<Rightarrow> return_none
           | Some ty \<Rightarrow> map_option (map_option (\<lambda>_. ty)) (enum_variant_payload c ty variant)))"

datatype option_constructor = Constructor_Some | Constructor_None

definition option_constructor_kind :: "expr \<Rightarrow> option_constructor option" where
  "option_constructor_kind callee =
     (if expr_path callee = Some [''Some''] then Some Constructor_Some
      else if expr_path callee = Some [''None''] then Some Constructor_None else None)"

definition is_option_constructor_expr :: "expr \<Rightarrow> bool" where
  "is_option_constructor_expr e \<longleftrightarrow>
     (case e of
        EIdent name \<Rightarrow> name = ''None''
      | ECall callee _ \<Rightarrow> option_constructor_kind callee \<noteq> None
      | _ \<Rightarrow> False)"

definition is_option_constructor_name :: "string \<Rightarrow> bool" where
  "is_option_constructor_name name \<longleftrightarrow> name = ''Some'' \<or> name = ''None''"

datatype result_constructor = Constructor_Ok | Constructor_Err

fun result_constructor_name :: "result_constructor \<Rightarrow> string" where
  "result_constructor_name Constructor_Ok = ''Ok''"
| "result_constructor_name Constructor_Err = ''Err''"

definition result_constructor_kind :: "expr \<Rightarrow> result_constructor option" where
  "result_constructor_kind callee =
     (if expr_path callee = Some [''Ok''] then Some Constructor_Ok
      else if expr_path callee = Some [''Err''] then Some Constructor_Err else None)"

definition is_result_constructor_expr :: "expr \<Rightarrow> bool" where
  "is_result_constructor_expr e \<longleftrightarrow>
     (case e of ECall callee _ \<Rightarrow> result_constructor_kind callee \<noteq> None | _ \<Rightarrow> False)"

definition is_result_constructor_name :: "string \<Rightarrow> bool" where
  "is_result_constructor_name name \<longleftrightarrow> name = ''Ok'' \<or> name = ''Err''"

section \<open>Calls\<close>

text \<open>The result of a collection function for the type of its first argument.\<close>

definition collection_result :: "string \<Rightarrow> type_ref \<Rightarrow> type_ref option" where
  "collection_result name first =
     (let args = generic_args (type_raw first); base = type_base_name (type_raw first) in
      if base = ''Map'' \<and> length args = 2 then
        (if name = ''map_get'' then Some (TypeRef (args ! 1))
         else if name \<in> {''map_insert'', ''map_remove''} then Some first else None)
      else if length args \<noteq> 1 then None
      else if base = ''Set'' then (if name \<in> {''set_insert'', ''set_remove''} then Some first else None)
      else if base = ''Queue'' then
        (if name = ''queue_front'' then Some (TypeRef (args ! 0))
         else if name \<in> {''queue_enqueue'', ''queue_dequeue''} then Some first else None)
      else if base = ''Stack'' then
        (if name = ''stack_peek'' then Some (TypeRef (args ! 0))
         else if name \<in> {''stack_push'', ''stack_pop''} then Some first else None)
      else if base = ''Stream'' then
        (if name = ''stream_next'' then Some (TypeRef (args ! 0))
         else if name \<in> {''stream_append'', ''stream_advance''} then Some first else None)
      else None)"

definition collection_call_type :: "expr \<Rightarrow> type_ref option run list \<Rightarrow> type_ref option run" where
  "collection_call_type callee tys =
     (case (expr_path callee, tys) of
        (Some [name], ty # _) \<Rightarrow> try_some ty (\<lambda>first. Some (collection_result name first))
      | _ \<Rightarrow> return_none)"

definition money_helper_result_type :: "string \<Rightarrow> expr list \<Rightarrow> type_ref option run list \<Rightarrow> type_ref option run" where
  "money_helper_result_type name args tys =
     (if name = ''exchange_rate'' then
        (case args of
           EString a # EString b # _ \<Rightarrow>
             (if is_currency_code a \<and> is_currency_code b
              then return_some (TypeRef (''ExchangeRate<'' @ a @ '','' @ b @ ''>'')) else return_none)
         | _ \<Rightarrow> return_none)
      else if name = ''convert_money'' then
        (case tys of
           _ # ty # _ \<Rightarrow>
             try_some ty (\<lambda>rate. Some
               (map_option (\<lambda>(_, b). TypeRef (''Money<'' @ b @ ''>'')) (exchange_rate_type_args rate)))
         | _ \<Rightarrow> return_none)
      else return_none)"

definition unbrand_result_type :: "checker \<Rightarrow> expr \<Rightarrow> type_ref option run list \<Rightarrow> type_ref option run" where
  "unbrand_result_type c callee tys =
     (if \<not> is_unbrand_call callee then return_none
      else (case tys of [ty] \<Rightarrow> try_some ty (branded_value_base_type c) | _ \<Rightarrow> return_none))"

text \<open>\<open>or_else\<close> over answers that are there at once.\<close>

definition first_some :: "'a option list \<Rightarrow> 'a option" where
  "first_some xs = (case filter (\<lambda>x. x \<noteq> None) xs of [] \<Rightarrow> None | x # _ \<Rightarrow> x)"

definition call_result_type :: "checker \<Rightarrow> expr \<Rightarrow> type_ref option" where
  "call_result_type c callee =
     (case expr_path callee of
        Some [name] \<Rightarrow>
          first_some
            [map_option (\<lambda>sg. unwrap_or (TypeRef ''Unit'') (sig_result sg)) (ck_callables c name),
             scalar_validator_result_type name, hash_helper_result_type name,
             bytes_xml_helper_result_type name, document_helper_result_type name,
             datetime_duration_result_type name, decimal_helper_result_type name,
             collection_helper_result_type name, brand_constructor_result_type c callee]
      | Some [namespace, meth] \<Rightarrow>
          (case ck_connector_methods c namespace of
             None \<Rightarrow> None
           | Some ms \<Rightarrow> (case ms meth of None \<Rightarrow> None | Some m \<Rightarrow> method_result m))
      | _ \<Rightarrow> None)"

definition call_param_types :: "checker \<Rightarrow> expr \<Rightarrow> type_ref list option run" where
  "call_param_types c callee =
     (case expr_path callee of
        Some [name] \<Rightarrow>
          orelse
            (Some (first_some
              [map_option (\<lambda>sg. map param_ty (sig_params sg)) (ck_callables c name),
               scalar_validator_param_types name, hash_helper_param_types name,
               bytes_xml_helper_param_types name, document_helper_param_types name,
               datetime_duration_param_types name, decimal_helper_param_types name]))
            (orelse (enum_constructor_param_types c callee) (brand_constructor_param_types c callee))
      | Some [namespace, meth] \<Rightarrow>
          Some (case ck_connector_methods c namespace of
                  None \<Rightarrow> None
                | Some ms \<Rightarrow> map_option (\<lambda>m. map param_ty (method_params m)) (ms meth))
      | _ \<Rightarrow> return_none)"

section \<open>Types of expressions\<close>

definition quantity_type :: "string \<Rightarrow> type_ref" where
  "quantity_type u =
     TypeRef
       (if is_currency_code u then ''Money<'' @ u @ ''>''
        else if u = ''km'' \<or> u = ''Kilometer'' then ''Distance<Kilometer>''
        else if u = ''h'' \<or> u = ''Hour'' then ''Duration<Hour>''
        else if u = ''km/h'' \<or> u = ''KilometersPerHour'' then ''Speed<KilometersPerHour>''
        else if CHR ''/'' \<in> set u then ''Speed<'' @ u @ ''>''
        else ''Distance<'' @ u @ ''>'')"

fun expr_type :: "checker \<Rightarrow> env \<Rightarrow> expr \<Rightarrow> type_ref option run" where
  "expr_type c env (EIdent name) = Some (Option.bind (map_of env name) bind_ty)"
| "expr_type c env (EString _) = return_some (TypeRef ''Text'')"
| "expr_type c env (EBool _) = return_some (TypeRef ''Bool'')"
| "expr_type c env (EInt _) = return_some (TypeRef ''Int'')"
| "expr_type c env (EFloat _) = return_some (TypeRef ''Float'')"
| "expr_type c env (EObject _) = return_some (TypeRef ''Json'')"
| "expr_type c env (ECall callee args) =
     (let tys = map (expr_type c env) args in
      orelse
        (case callee of
           EMember obj fld \<Rightarrow> try_some (expr_type c env obj) (\<lambda>base. Some (method_result_type c base fld))
         | _ \<Rightarrow> return_none)
      (orelse (collection_call_type callee tys)
      (orelse
        (case expr_path callee of
           Some [name] \<Rightarrow> money_helper_result_type name args tys
         | _ \<Rightarrow> return_none)
      (orelse (unbrand_result_type c callee tys) (Some (call_result_type c callee))))))"
| "expr_type c env (ETry inner) = try_some (expr_type c env inner) (result_ok_type c)"
| "expr_type c env (EMember obj fld) =
     try_some (expr_type c env obj) (\<lambda>base. member_type_of c base fld)"
| "expr_type c env (EBinary l op r) =
     try_some (expr_type c env l) (\<lambda>tl. try_some (expr_type c env r) (\<lambda>tr. Some (binary_result_type op tl tr)))"
| "expr_type c env (EQuantity _ u) = return_some (quantity_type u)"
| "expr_type c env (EAsync inner) =
     try_some (expr_type c env inner) (\<lambda>ty. return_some (TypeRef (''Task<'' @ type_raw ty @ ''>'')))"
| "expr_type c env (EAwait inner) =
     try_some (expr_type c env inner) (\<lambda>ty. orelse (task_inner_type c ty) (return_some ty))"

text \<open>Only the first parameter of the alias that stands alone as the base of the brand is inferred; the
  others become \<open>Unit\<close>.\<close>

definition infer_brand_constructor_from_arg ::
  "checker \<Rightarrow> string \<Rightarrow> expr \<Rightarrow> env \<Rightarrow> brand_constructor_types option run" where
  "infer_brand_constructor_from_arg c name arg env =
     (case ck_aliases c name of
        None \<Rightarrow> return_none
      | Some alias \<Rightarrow>
          (if \<not> alias_nominal alias \<or> alias_params alias = [] then return_none
           else
             try_some (expr_type c env arg) (\<lambda>actual.
               case generic_args (type_raw (alias_target alias)) of
                 [base_pattern, _] \<Rightarrow>
                   (if base_pattern \<in> set (alias_params alias)
                    then generic_brand_constructor c name
                      (TypeRef (name @ ''<''
                        @ concat (case map (\<lambda>p. if p = base_pattern then type_raw actual else ''Unit'')
                              (alias_params alias) of
                            [] \<Rightarrow> [] | t # ts \<Rightarrow> t # map (\<lambda>u. '', '' @ u) ts)
                        @ ''>''))
                    else return_none)
               | _ \<Rightarrow> return_none)))"

definition brand_constructor_result_type_in_context ::
  "checker \<Rightarrow> expr \<Rightarrow> env \<Rightarrow> type_ref option \<Rightarrow> type_ref option run" where
  "brand_constructor_result_type_in_context c e env expected =
     (case e of
        ECall callee args \<Rightarrow>
          (case brand_constructor_alias_name c callee of
             None \<Rightarrow> return_none
           | Some name \<Rightarrow>
               (case ck_aliases c name of
                  None \<Rightarrow> return_none
                | Some alias \<Rightarrow>
                    (if alias_params alias = [] then return_some (TypeRef name)
                     else
                       (case expected of
                          Some ty \<Rightarrow>
                            map_option (map_option brand_result) (generic_brand_constructor c name ty)
                        | None \<Rightarrow>
                            (case args of
                               [] \<Rightarrow> return_none
                             | arg # _ \<Rightarrow>
                                 map_option (map_option brand_result)
                                   (infer_brand_constructor_from_arg c name arg env))))))
      | _ \<Rightarrow> return_none)"

text \<open>The expected type, when it is an option or a result type.\<close>

definition expected_if :: "(checker \<Rightarrow> type_ref \<Rightarrow> bool run) \<Rightarrow> checker \<Rightarrow> type_ref option \<Rightarrow> type_ref option run" where
  "expected_if p c expected =
     (case expected of
        None \<Rightarrow> return_none
      | Some ty \<Rightarrow> do { b \<leftarrow> p c ty; Some (if b then Some ty else None) })"

definition option_constructor_result_type ::
  "checker \<Rightarrow> expr \<Rightarrow> env \<Rightarrow> type_ref option \<Rightarrow> type_ref option run" where
  "option_constructor_result_type c e env expected =
     orelse (expected_if is_option_type c expected)
       (case e of
          ECall callee [arg] \<Rightarrow>
            (if option_constructor_kind callee = Some Constructor_Some
             then try_some (expr_type c env arg) (\<lambda>ty. return_some (TypeRef (''Option<'' @ type_raw ty @ ''>'')))
             else return_none)
        | _ \<Rightarrow> return_none)"

definition expr_type_in_context :: "checker \<Rightarrow> env \<Rightarrow> expr \<Rightarrow> type_ref option \<Rightarrow> type_ref option run" where
  "expr_type_in_context c env e expected =
     (if is_result_constructor_expr e then expected_if is_result_type c expected
      else if is_option_constructor_expr e then option_constructor_result_type c e env expected
      else if is_collection_empty_constructor_expr e then Some (collection_empty_result_type e expected)
      else if exchange_rate_result_type_in_context e expected \<noteq> None then
        do { inferred \<leftarrow> expr_type c env e;
             Some (case inferred of
                     Some ty \<Rightarrow>
                       if exchange_rate_type_args ty \<noteq> None then Some ty
                       else exchange_rate_result_type_in_context e expected
                   | None \<Rightarrow> exchange_rate_result_type_in_context e expected) }
      else if is_enum_constructor_expr c e then enum_constructor_result_type c e expected
      else if is_brand_constructor_expr c e then brand_constructor_result_type_in_context c e env expected
      else expr_type c env e)"

end
