(* ===== verification/Flow.thy ===== *)
theory Flow
  imports Typing
begin

text \<open>
  The analyses that follow data through expressions: \<open>semantic/trust_flow.rs\<close>, \<open>option_flow.rs\<close> and
  \<open>result_flow.rs\<close>, with the privacy and secrecy checks of \<open>semantic.rs\<close>.
\<close>

section \<open>Labels\<close>

definition merge_labels :: "labels \<Rightarrow> labels \<Rightarrow> labels" where
  "merge_labels explicit inferred =
     \<lparr>label_source = (case label_source explicit of Some s \<Rightarrow> Some s | None \<Rightarrow> label_source inferred),
      label_trust = (case label_trust explicit of Some t \<Rightarrow> Some t | None \<Rightarrow> label_trust inferred),
      label_privacy = (case label_privacy explicit of Some p \<Rightarrow> Some p | None \<Rightarrow> label_privacy inferred)\<rparr>"

text \<open>The first value of the list that one of the two has.\<close>

definition first_of :: "'a list \<Rightarrow> 'a option \<Rightarrow> 'a option \<Rightarrow> 'a option" where
  "first_of ranks l r = find (\<lambda>x. l = Some x \<or> r = Some x) ranks"

definition combine_trust :: "trust option \<Rightarrow> trust option \<Rightarrow> trust option" where
  "combine_trust = first_of [Trust_Untrusted, Trust_Trusted, Trust_Verified]"

definition combine_privacy :: "privacy option \<Rightarrow> privacy option \<Rightarrow> privacy option" where
  "combine_privacy = first_of
     [Privacy_Secret, Privacy_Regulated, Privacy_Sensitive, Privacy_Private, Privacy_Internal, Privacy_Public]"

definition combine_labels :: "labels \<Rightarrow> labels \<Rightarrow> labels" where
  "combine_labels l r =
     \<lparr>label_source = (case label_source l of Some s \<Rightarrow> Some s | None \<Rightarrow> label_source r),
      label_trust = combine_trust (label_trust l) (label_trust r),
      label_privacy = combine_privacy (label_privacy l) (label_privacy r)\<rparr>"

definition combine_opt :: "labels option \<Rightarrow> labels option \<Rightarrow> labels option" where
  "combine_opt l r =
     (case (l, r) of
        (Some a, Some b) \<Rightarrow> Some (combine_labels a b)
      | (Some a, None) \<Rightarrow> Some a
      | (None, b) \<Rightarrow> b)"

definition is_trust_gateway_expr :: "expr \<Rightarrow> bool" where
  "is_trust_gateway_expr e \<longleftrightarrow>
     list_ex (\<lambda>call. call_path call \<in>
       {[''sanitize''], [''validate_email''], [''validate_phone_number''], [''validate_trust''],
        [''validate_url''], [''validate_uuid''], [''verify_trust''], [''require_human_review''],
        [''require_human_approval'']}) (calls e)"

definition is_privacy_gateway_expr :: "expr \<Rightarrow> bool" where
  "is_privacy_gateway_expr e \<longleftrightarrow> list_ex (\<lambda>call. call_path call = [''anonymize'']) (calls e)"

definition intrinsic_type_labels :: "checker \<Rightarrow> type_ref \<Rightarrow> labels option run" where
  "intrinsic_type_labels c ty =
     do { s \<leftarrow> is_secret_type c ty;
          Some (if s then Some (no_labels\<lparr>label_privacy := Some Privacy_Secret\<rparr>) else None) }"

definition labels_for_declared_type :: "checker \<Rightarrow> type_ref \<Rightarrow> labels \<Rightarrow> labels run" where
  "labels_for_declared_type c ty explicit =
     do { il \<leftarrow> intrinsic_type_labels c ty;
          Some (case il of Some ty_labels \<Rightarrow> combine_labels explicit ty_labels | None \<Rightarrow> explicit) }"

text \<open>
  The labels of a type with those of its fields. \<open>visited\<close> holds the structs on the way down, so
  that the depth is bounded by their number; the fields are taken in the order of the declaration.
\<close>

partial_function (option) type_ref_aggregate_labels ::
  "checker \<Rightarrow> type_ref \<Rightarrow> string list \<Rightarrow> field list option \<Rightarrow> labels option \<Rightarrow> labels option option" where
  "type_ref_aggregate_labels c ty visited todo acc =
     (case todo of
        None \<Rightarrow>
          do { il \<leftarrow> intrinsic_type_labels c ty;
               let base = type_base_name (type_raw ty) in
               if base \<in> set visited then Some il
               else
                 (case ck_fields c base of
                    None \<Rightarrow> Some il
                  | Some fs \<Rightarrow> type_ref_aggregate_labels c ty (base # visited) (Some (map snd fs)) il) }
      | Some [] \<Rightarrow> Some acc
      | Some (f # fs) \<Rightarrow>
          do { own \<leftarrow> labels_for_declared_type c (field_ty f) (field_labels f);
               nested \<leftarrow> type_ref_aggregate_labels c (field_ty f) visited None None;
               type_ref_aggregate_labels c ty visited (Some fs)
                 (combine_opt acc (combine_opt (Some own) nested)) })"

declare type_ref_aggregate_labels.simps [code]

definition aggregate_labels :: "checker \<Rightarrow> type_ref \<Rightarrow> labels option run" where
  "aggregate_labels c ty = type_ref_aggregate_labels c ty [] None None"

definition binding_labels :: "checker \<Rightarrow> binding \<Rightarrow> labels run" where
  "binding_labels c b =
     (let l = (if bind_secret b then (bind_labels b)\<lparr>label_privacy := Some Privacy_Secret\<rparr> else bind_labels b) in
      case bind_ty b of
        None \<Rightarrow> Some l
      | Some ty \<Rightarrow>
          do { ty_labels \<leftarrow> aggregate_labels c ty;
               Some (case ty_labels of Some t \<Rightarrow> combine_labels l t | None \<Rightarrow> l) })"

text \<open>\<open>member_labels\<close>, with the answer for the object as the last argument.\<close>

definition member_labels_of ::
  "checker \<Rightarrow> env \<Rightarrow> expr \<Rightarrow> string \<Rightarrow> labels option run \<Rightarrow> labels option run" where
  "member_labels_of c env obj fld obj_labels =
     try_some (expr_type c env obj) (\<lambda>base.
       if has_method c base fld then obj_labels
       else
         do { resolved \<leftarrow> resolve_aliases c base;
              if is_uncertain resolved \<or> is_option resolved \<or> is_result resolved then obj_labels
              else
                (case field_of c base fld of
                   Some f \<Rightarrow> map_option Some (labels_for_declared_type c (field_ty f) (field_labels f))
                 | None \<Rightarrow> obj_labels) })"

text \<open>The labels of a list of expressions, combined from left to right.\<close>

fun combine_all :: "labels option \<Rightarrow> labels option run list \<Rightarrow> labels option run" where
  "combine_all acc [] = Some acc"
| "combine_all acc (r # rs) = do { l \<leftarrow> r; combine_all (combine_opt acc l) rs }"

fun expr_labels :: "checker \<Rightarrow> env \<Rightarrow> expr \<Rightarrow> labels option run" where
  "expr_labels c env (EIdent name) =
     (case map_of env name of None \<Rightarrow> return_none | Some b \<Rightarrow> map_option Some (binding_labels c b))"
| "expr_labels c env (EMember obj fld) = member_labels_of c env obj fld (expr_labels c env obj)"
| "expr_labels c env (ETry inner) = expr_labels c env inner"
| "expr_labels c env (EAsync inner) = expr_labels c env inner"
| "expr_labels c env (EAwait inner) = expr_labels c env inner"
| "expr_labels c env (EBinary l _ r) =
     do { ll \<leftarrow> expr_labels c env l; rl \<leftarrow> expr_labels c env r; Some (combine_opt ll rl) }"
| "expr_labels c env (EObject fs) = combine_all None (map (\<lambda>f. expr_labels c env (snd f)) fs)"
| "expr_labels c env (ECall callee args) =
     (let arg_labels = map (expr_labels c env) args in
      if is_privacy_gateway_expr (ECall callee args) then
        do { l \<leftarrow> combine_all None arg_labels;
             return_some ((unwrap_or no_labels l)
               \<lparr>label_source := Some ''DerivedData'', label_privacy := Some Privacy_Public\<rparr>) }
      else if is_trust_gateway_expr (ECall callee args) then
        do { l \<leftarrow> combine_all None arg_labels;
             return_some ((unwrap_or no_labels l)\<lparr>label_trust := Some Trust_Trusted\<rparr>) }
      else do { l \<leftarrow> expr_labels c env callee; combine_all l arg_labels })"
| "expr_labels c env _ = return_none"

definition labels_for_let :: "checker \<Rightarrow> labels \<Rightarrow> expr \<Rightarrow> env \<Rightarrow> labels run" where
  "labels_for_let c explicit e env =
     do { inferred \<leftarrow> expr_labels c env e; Some (merge_labels explicit (unwrap_or no_labels inferred)) }"

section \<open>Trust\<close>

fun first_answer :: "'a option run list \<Rightarrow> 'a option run" where
  "first_answer [] = return_none"
| "first_answer (r # rs) = orelse r (first_answer rs)"

fun first_untrusted_expr :: "checker \<Rightarrow> env \<Rightarrow> expr \<Rightarrow> string option run" where
  "first_untrusted_expr c env (EIdent name) =
     Some (case map_of env name of
             Some b \<Rightarrow> if label_trust (bind_labels b) = Some Trust_Untrusted then Some name else None
           | None \<Rightarrow> None)"
| "first_untrusted_expr c env (EMember obj fld) =
     orelse
       (try_some (member_labels_of c env obj fld (expr_labels c env obj)) (\<lambda>l.
          Some (if label_trust l = Some Trust_Untrusted then Some (expr_label (EMember obj fld)) else None)))
       (first_untrusted_expr c env obj)"
| "first_untrusted_expr c env (ECall callee args) =
     (if is_trust_gateway_expr (ECall callee args) then return_none
      else orelse (first_untrusted_expr c env callee) (first_answer (map (first_untrusted_expr c env) args)))"
| "first_untrusted_expr c env (ETry inner) = first_untrusted_expr c env inner"
| "first_untrusted_expr c env (EAsync inner) = first_untrusted_expr c env inner"
| "first_untrusted_expr c env (EAwait inner) = first_untrusted_expr c env inner"
| "first_untrusted_expr c env (EBinary l _ r) =
     orelse (first_untrusted_expr c env l) (first_untrusted_expr c env r)"
| "first_untrusted_expr c env (EObject fs) = first_answer (map (\<lambda>f. first_untrusted_expr c env (snd f)) fs)"
| "first_untrusted_expr c env _ = return_none"

definition untrusted_ai_prompt_args :: "checker \<Rightarrow> raw_expr \<Rightarrow> call_ref \<Rightarrow> env \<Rightarrow> diagnostic list run" where
  "untrusted_ai_prompt_args c raw call env =
     run_all (map (\<lambda>arg. on_some (first_untrusted_expr c env arg) (\<lambda>source. Some
       [report ''N2412'' (''untrusted data `'' @ source @ ''` cannot be sent to an AI call'') (raw_span raw)
          ''untrusted prompts and retrieved content can carry prompt-injection instructions''
          ''sanitize, validate, or require human review before passing this value to ai.*'']))
       (call_args call))"

definition untrusted_call_args :: "checker \<Rightarrow> raw_expr \<Rightarrow> call_ref \<Rightarrow> env \<Rightarrow> string \<Rightarrow> diagnostic list run" where
  "untrusted_call_args c raw call env sink =
     run_all (map (\<lambda>arg. on_some (first_untrusted_expr c env arg) (\<lambda>source. Some
       [report ''N2411'' (''untrusted data `'' @ source @ ''` cannot flow into '' @ sink) (raw_span raw)
          ''untrusted inputs must be validated before they can affect real-world or external actions''
          ''sanitize or verify the value into a trusted binding before passing it to this call'']))
       (call_args call))"

definition is_high_risk :: "risk \<Rightarrow> bool" where
  "is_high_risk r \<longleftrightarrow> r = Risk_High \<or> r = Risk_Critical"

definition high_risk_action_name :: "checker \<Rightarrow> call_ref \<Rightarrow> string option" where
  "high_risk_action_name c call =
     (case call_path call of
        [name] \<Rightarrow>
          (case ck_action_risks c name of
             Some r \<Rightarrow> if is_high_risk r then Some name else None
           | None \<Rightarrow> None)
      | _ \<Rightarrow> None)"

definition trust_flow_call :: "checker \<Rightarrow> raw_expr \<Rightarrow> env \<Rightarrow> call_ref \<Rightarrow> diagnostic list run" where
  "trust_flow_call c raw env call =
     (if take 1 (call_path call) = [''ai''] then untrusted_ai_prompt_args c raw call env
      else if take 1 (call_path call) = [''external'']
      then untrusted_call_args c raw call env ''external service''
      else
        (case high_risk_action_name c call of
           Some name \<Rightarrow> untrusted_call_args c raw call env (''high-risk action `'' @ name @ ''`'')
         | None \<Rightarrow> nothing))"

definition trust_flow :: "checker \<Rightarrow> raw_expr \<Rightarrow> expr \<Rightarrow> env \<Rightarrow> diagnostic list run" where
  "trust_flow c raw e env = run_all (map (trust_flow_call c raw env) (calls e))"

definition trust_assignment :: "checker \<Rightarrow> let_stmt \<Rightarrow> expr \<Rightarrow> env \<Rightarrow> diagnostic list run" where
  "trust_assignment c s e env =
     (if label_trust (let_labels s) \<notin> {Some Trust_Trusted, Some Trust_Verified} then nothing
      else
        on_some (first_untrusted_expr c env e) (\<lambda>_.
          if is_trust_gateway_expr e then nothing
          else Some
            [report ''N2410'' (''binding `'' @ let_name s @ ''` cannot promote untrusted data to trusted'')
               (let_span s)
               ''trust labels must be earned through an explicit validation or review gateway''
               ''wrap the source in sanitize(...), validate_trust(...), verify_trust(...), or require_human_review(...) before assigning a trusted/verified label'']))"

section \<open>Secrets, uncertain values, privacy\<close>

definition secret_logging :: "raw_expr \<Rightarrow> expr \<Rightarrow> env \<Rightarrow> diagnostic list" where
  "secret_logging raw e env =
     (if direct_call_name e \<noteq> Some ''log'' then []
      else
        map (\<lambda>(name, _). report ''N2200'' (''secret `'' @ name @ ''` cannot be logged'') (raw_span raw)
               ''secrets must not enter ordinary logs or audit payloads''
               ''log a stable key id or redacted fingerprint instead'')
          (filter (\<lambda>(name, b). bind_secret b \<and> contains_ident name e) env))"

definition uncertain_usage :: "raw_expr \<Rightarrow> expr \<Rightarrow> env \<Rightarrow> diagnostic list" where
  "uncertain_usage raw e env =
     (if contains_member_field ''confidence'' e \<or> contains_member_field ''value'' e
         \<or> contains_call_path [''require_human_review''] e \<or> contains_call_path [''require_human_approval''] e
      then []
      else
        map (\<lambda>(name, _). report ''N2300''
               (''uncertain value `'' @ name @ ''` used without confidence handling'') (raw_span raw)
               ''Uncertain<T> cannot be used where a verified T is expected''
               ''check confidence and pass value.value only in the accepted branch'')
          (filter (\<lambda>(name, b). bind_uncertain b \<and> contains_ident name e) env))"

definition ck_policy_context :: "checker \<Rightarrow> policy_context" where
  "ck_policy_context c =
     \<lparr>context_tenant = ck_tenant c,
      context_route = map_option (\<lambda>(m, p). \<lparr>context_method = m, context_path = p\<rparr>) (ck_route c)\<rparr>"

definition privacy_policy_targets :: "checker \<Rightarrow> string list \<Rightarrow> string list option" where
  "privacy_policy_targets c path =
     (if take 1 path = [''external''] then Some (external_policy_targets path)
      else
        (case path of
           [] \<Rightarrow> None
         | namespace # _ \<Rightarrow>
             if ck_connector_methods c namespace \<noteq> None then Some (connector_policy_targets path) else None))"

definition is_protected :: "privacy option \<Rightarrow> bool" where
  "is_protected p \<longleftrightarrow>
     p \<in> Some ` {Privacy_Private, Privacy_Sensitive, Privacy_Secret, Privacy_Regulated}"

definition privacy_arg :: "checker \<Rightarrow> raw_expr \<Rightarrow> env \<Rightarrow> call_ref \<Rightarrow> string list \<Rightarrow> expr \<Rightarrow> diagnostic list run" where
  "privacy_arg c raw env call targets arg =
     on_some (expr_labels c env arg) (\<lambda>l.
       if \<not> is_protected (label_privacy l) then nothing
       else if matching_rules_allow (ck_policies c) (label_privacy l) (label_trust l) (label_source l) targets
                 (ck_policy_context c) then nothing
       else Some
         [report ''N2400''
            (''private data `'' @ expr_label arg @ ''` cannot be sent to `'' @ join_dots (call_path call) @ ''`'')
            (raw_span raw)
            ''no allow policy permits this privacy/provenance/trust flow''
            (''anonymize the value, send only a derived public value, or add an explicit policy for `''
             @ last targets @ ''`'')])"

definition external_privacy :: "checker \<Rightarrow> raw_expr \<Rightarrow> expr \<Rightarrow> env \<Rightarrow> diagnostic list run" where
  "external_privacy c raw e env =
     run_all (map (\<lambda>call.
       (case privacy_policy_targets c (call_path call) of
          None \<Rightarrow> nothing
        | Some targets \<Rightarrow> run_all (map (privacy_arg c raw env call targets) (call_args call)))) (calls e))"

section \<open>What a condition says about options and results\<close>

text \<open>
  \<open>option_flow.rs\<close> and \<open>result_flow.rs\<close> are the same code over two types of checks; here it is one
  definition over the question about a member. The maps of the code are never iterated over for
  an effect that depends on the order.
\<close>

fun union_loop_checks :: "(string \<times> 'k) list \<Rightarrow> string list \<Rightarrow> (string \<times> 'k) list \<Rightarrow> (string \<times> 'k) list" where
  "union_loop_checks merged conflicts [] = merged"
| "union_loop_checks merged conflicts ((name, check) # rest) =
     (if name \<in> set conflicts then union_loop_checks merged conflicts rest
      else
        (case map_of merged name of
           Some existing \<Rightarrow>
             (if existing \<noteq> check
              then union_loop_checks (AList.delete name merged) (name # conflicts) rest
              else union_loop_checks merged conflicts rest)
         | None \<Rightarrow> union_loop_checks ((name, check) # merged) conflicts rest))"

definition union_consistent :: "(string \<times> 'k) list \<Rightarrow> (string \<times> 'k) list \<Rightarrow> (string \<times> 'k) list" where
  "union_consistent l r = union_loop_checks l [] r"

definition intersection_matching :: "(string \<times> 'k) list \<Rightarrow> (string \<times> 'k) list \<Rightarrow> (string \<times> 'k) list" where
  "intersection_matching l r = filter (\<lambda>(name, check). map_of r name = Some check) l"

fun checks_implied_by ::
  "(expr \<Rightarrow> (string \<times> 'k) option run) \<Rightarrow> ('k \<Rightarrow> 'k) \<Rightarrow> bool \<Rightarrow> expr \<Rightarrow> (string \<times> 'k) list run" where
  "checks_implied_by member invert truth e =
     if_some
       (case e of
          EBinary l op r \<Rightarrow>
            do { lc \<leftarrow> checks_implied_by member invert truth l;
                 rc \<leftarrow> checks_implied_by member invert truth r;
                 Some
                   (if (op = Op_And \<and> truth) \<or> (op = Op_Or \<and> \<not> truth) then union_consistent lc rc
                    else if (op = Op_And \<and> \<not> truth) \<or> (op = Op_Or \<and> truth) then intersection_matching lc rc
                    else []) }
        | _ \<Rightarrow> nothing)
       (member e)
       (\<lambda>(name, check). Some [(name, if truth then check else invert check)])"

datatype option_check = Check_Some | Check_None

fun invert_option_check :: "option_check \<Rightarrow> option_check" where
  "invert_option_check Check_Some = Check_None"
| "invert_option_check Check_None = Check_Some"

fun invert_result_check :: "result_check \<Rightarrow> result_check" where
  "invert_result_check Check_Ok = Check_Err"
| "invert_result_check Check_Err = Check_Ok"

text \<open>A member of a binding whose type has the property.\<close>

definition checked_member ::
  "(checker \<Rightarrow> type_ref \<Rightarrow> bool run) \<Rightarrow> (string \<times> 'k) list \<Rightarrow> checker \<Rightarrow> env \<Rightarrow> expr \<Rightarrow> (string \<times> 'k) option run" where
  "checked_member p table c env e =
     (case e of
        EMember (EIdent name) fld \<Rightarrow>
          (case Option.bind (map_of env name) bind_ty of
             None \<Rightarrow> return_none
           | Some ty \<Rightarrow>
               do { b \<leftarrow> p c ty;
                    Some (if b then map_option (\<lambda>k. (name, k)) (map_of table fld) else None) })
      | _ \<Rightarrow> return_none)"

definition option_check_member :: "checker \<Rightarrow> env \<Rightarrow> expr \<Rightarrow> (string \<times> option_check) option run" where
  "option_check_member = checked_member is_option_type [(''is_some'', Check_Some), (''is_none'', Check_None)]"

definition result_check_member :: "checker \<Rightarrow> env \<Rightarrow> expr \<Rightarrow> (string \<times> result_check) option run" where
  "result_check_member = checked_member is_result_type [(''is_ok'', Check_Ok), (''is_err'', Check_Err)]"

definition option_checks_implied_by :: "checker \<Rightarrow> env \<Rightarrow> bool \<Rightarrow> expr \<Rightarrow> (string \<times> option_check) list run" where
  "option_checks_implied_by c env = checks_implied_by (option_check_member c env) invert_option_check"

definition result_checks_implied_by :: "checker \<Rightarrow> env \<Rightarrow> bool \<Rightarrow> expr \<Rightarrow> (string \<times> result_check) list run" where
  "result_checks_implied_by c env = checks_implied_by (result_check_member c env) invert_result_check"

text \<open>The names a condition shows to be present when it has the given outcome.\<close>

definition checked_option_bindings :: "checker \<Rightarrow> bool \<Rightarrow> raw_expr \<Rightarrow> env \<Rightarrow> string list run" where
  "checked_option_bindings c truth cond env =
     (case parse_expr (raw_text cond) of
        Err _ \<Rightarrow> nothing
      | Ok e \<Rightarrow>
          map_option (\<lambda>cs. map fst (filter (\<lambda>(_, k). k = Check_Some) cs))
            (option_checks_implied_by c env truth e))"

definition checked_result_bindings :: "checker \<Rightarrow> bool \<Rightarrow> raw_expr \<Rightarrow> env \<Rightarrow> (string \<times> result_check) list run" where
  "checked_result_bindings c truth cond env =
     (case parse_expr (raw_text cond) of
        Err _ \<Rightarrow> nothing
      | Ok e \<Rightarrow> result_checks_implied_by c env truth e)"

text \<open>\<open>get_mut\<close> on a binding.\<close>

definition update_binding :: "(binding \<Rightarrow> binding) \<Rightarrow> string \<Rightarrow> env \<Rightarrow> env" where
  "update_binding f name env = map (\<lambda>(n, b). (n, if n = name then f b else b)) env"

definition apply_option_checks :: "string list \<Rightarrow> env \<Rightarrow> env" where
  "apply_option_checks = fold (update_binding (\<lambda>b. b\<lparr>bind_option_checked := True\<rparr>))"

definition apply_result_checks :: "(string \<times> result_check) list \<Rightarrow> env \<Rightarrow> env" where
  "apply_result_checks = fold (\<lambda>(name, k). update_binding (\<lambda>b. b\<lparr>bind_result_checked := Some k\<rparr>) name)"

text \<open>\<open>apply_condition_checks\<close> and \<open>apply_else_condition_checks\<close>.\<close>

definition apply_condition_checks :: "checker \<Rightarrow> bool \<Rightarrow> raw_expr \<Rightarrow> env \<Rightarrow> env run" where
  "apply_condition_checks c truth cond env =
     do { names \<leftarrow> checked_option_bindings c truth cond env;
          let env' = apply_option_checks names env in
          do { checks \<leftarrow> checked_result_bindings c truth cond env';
               Some (apply_result_checks checks env') } }"

definition option_value_is_checked :: "expr \<Rightarrow> env \<Rightarrow> bool" where
  "option_value_is_checked obj env =
     (case obj of
        EIdent name \<Rightarrow> (case map_of env name of Some b \<Rightarrow> bind_option_checked b | None \<Rightarrow> False)
      | _ \<Rightarrow> False)"

definition result_value_is_checked :: "expr \<Rightarrow> env \<Rightarrow> result_check \<Rightarrow> bool" where
  "result_value_is_checked obj env expected =
     (case obj of
        EIdent name \<Rightarrow>
          (case map_of env name of Some b \<Rightarrow> bind_result_checked b = Some expected | None \<Rightarrow> False)
      | _ \<Rightarrow> False)"

end
