(* ===== verification/Expr_Checks.thy ===== *)
theory Expr_Checks
  imports Flow
begin

text \<open>
  The checks of expressions: \<open>semantic/calls.rs\<close>, the constructors, the checks of
  \<open>semantic/expressions.rs\<close>, and \<open>try_expr\<close>, \<open>async_expr\<close> and \<open>expr\<close> of \<open>semantic.rs\<close>. The code appends to the
  diagnostics of the checker; each definition returns what is appended.
\<close>

section \<open>Arguments\<close>

text \<open>One argument against the type it should have.\<close>

definition check_arg ::
  "checker \<Rightarrow> env \<Rightarrow> expr \<Rightarrow> type_ref \<Rightarrow> (type_ref \<Rightarrow> diagnostic) \<Rightarrow> diagnostic list run" where
  "check_arg c env arg expected mismatch =
     on_some (expr_type_in_context c env arg (Some expected)) (\<lambda>actual.
       do { b \<leftarrow> types_compatible c expected actual;
            Some (if b then [] else [mismatch actual]) })"

fun check_args ::
  "checker \<Rightarrow> env \<Rightarrow> (nat \<Rightarrow> type_ref \<Rightarrow> type_ref \<Rightarrow> diagnostic) \<Rightarrow> nat \<Rightarrow> expr list \<Rightarrow> type_ref list \<Rightarrow>
     diagnostic list run"
where
  "check_args c env mismatch i (arg # args) (ty # tys) =
     run_all [check_arg c env arg ty (mismatch i ty), check_args c env mismatch (Suc i) args tys]"
| "check_args c env mismatch i _ _ = nothing"

text \<open>Parameters with their names.\<close>

definition check_params ::
  "checker \<Rightarrow> env \<Rightarrow> (param \<Rightarrow> type_ref \<Rightarrow> diagnostic) \<Rightarrow> expr list \<Rightarrow> param list \<Rightarrow> diagnostic list run" where
  "check_params c env mismatch args params =
     run_all (map (\<lambda>(arg, p). check_arg c env arg (param_ty p) (mismatch p)) (zip args params))"

definition count_text :: "'a list \<Rightarrow> string" where
  "count_text xs = show_nat (length xs)"

section \<open>Permissions and namespaces\<close>

definition action_permission_call :: "checker \<Rightarrow> raw_expr \<Rightarrow> string set \<Rightarrow> call_ref \<Rightarrow> diagnostic list" where
  "action_permission_call c raw granted call =
     (case call_path call of
        [name] \<Rightarrow>
          (case ck_action_permissions c name of
             None \<Rightarrow> []
           | Some required \<Rightarrow>
               map (\<lambda>p. report ''N2500''
                      (''action `'' @ name @ ''` requires permission `'' @ p @ ''`'') (raw_span raw)
                      ''external actions must be guarded by an explicit require statement or callable requires clause''
                      (''add `require Permission.'' @ p @ '' for current_user` before calling the action''))
                 (filter (\<lambda>p. p \<notin> granted) required))
      | _ \<Rightarrow> [])"

definition action_permission :: "checker \<Rightarrow> raw_expr \<Rightarrow> expr \<Rightarrow> string set \<Rightarrow> diagnostic list" where
  "action_permission c raw e granted = concat (map (action_permission_call c raw granted) (calls e))"

definition is_builtin_runtime_namespace :: "string \<Rightarrow> bool" where
  "is_builtin_runtime_namespace name \<longleftrightarrow> name \<in> {''Permission'', ''ai'', ''external''}"

definition external_namespace :: "checker \<Rightarrow> raw_expr \<Rightarrow> expr \<Rightarrow> env \<Rightarrow> diagnostic list" where
  "external_namespace c raw e env =
     map (\<lambda>ns. report ''N2700'' (''unknown external namespace `'' @ ns @ ''`'') (raw_span raw)
            ''external calls must be declared as connector or service dependencies''
            (''add `connector '' @ ns @ '' { ... }` or call a declared action/function''))
       (filter (\<lambda>ns. map_of env ns = None \<and> ns \<notin> ck_external_namespaces c
            \<and> \<not> is_builtin_runtime_namespace ns
            \<and> \<not> list_ex (\<lambda>d. declaration_name d = ns) (mod_declarations (ck_module c)))
         (root_member_names e))"

definition connector_call_check :: "checker \<Rightarrow> raw_expr \<Rightarrow> env \<Rightarrow> call_ref \<Rightarrow> diagnostic list run" where
  "connector_call_check c raw env call =
     (case call_path call of
        [ns, meth] \<Rightarrow>
          (case ck_connector_methods c ns of
             None \<Rightarrow> nothing
           | Some ms \<Rightarrow>
               (case ms meth of
                  None \<Rightarrow> Some
                    [report ''N2702'' (''connector `'' @ ns @ ''` has no method `'' @ meth @ ''`'') (raw_span raw)
                       ''external calls must match declared connector schemas''
                       (''add `'' @ meth @ ''(...) -> ...` to connector `'' @ ns @ ''` or call a declared method'')]
                | Some m \<Rightarrow>
                    (if length (call_args call) \<noteq> length (method_params m) then Some
                       [report ''N2703''
                          (''connector method `'' @ ns @ ''.'' @ meth @ ''` expects '' @ count_text (method_params m)
                           @ '' argument(s), got '' @ count_text (call_args call)) (raw_span raw)
                          ''connector calls must match the declared method arity''
                          ''pass exactly the parameters declared in the connector schema'']
                     else check_params c env
                       (\<lambda>p actual. report ''N2704''
                          (''connector argument `'' @ param_name p @ ''` for `'' @ ns @ ''.'' @ meth
                           @ ''` has type `'' @ type_raw actual @ ''`, expected `'' @ type_raw (param_ty p) @ ''`'')
                          (raw_span raw) ''connector calls must match declared parameter types''
                          ''pass a value with the connector parameter type'')
                       (call_args call) (method_params m))))
      | _ \<Rightarrow> nothing)"

definition connector_call_checks :: "checker \<Rightarrow> raw_expr \<Rightarrow> expr \<Rightarrow> env \<Rightarrow> diagnostic list run" where
  "connector_call_checks c raw e env = run_all (map (connector_call_check c raw env) (calls e))"

definition actor_call_check :: "checker \<Rightarrow> raw_expr \<Rightarrow> call_ref \<Rightarrow> diagnostic list" where
  "actor_call_check c raw call =
     (case call_path call of
        [actor, handler] \<Rightarrow>
          (case ck_actor_handlers c actor of
             None \<Rightarrow> []
           | Some hs \<Rightarrow>
               [report ''N2708''
                  (if hs handler \<noteq> None
                   then ''actor handler `'' @ actor @ ''.'' @ handler @ ''` cannot be executed yet''
                   else ''actor `'' @ actor @ ''` has no executable handler `'' @ handler @ ''`'')
                  (raw_span raw) ''actor declarations are currently parser/formatter/IR metadata only''
                  ''keep actor declarations for design documentation, but do not call actor handlers until actor runtime support lands''])
      | _ \<Rightarrow> [])"

definition actor_runtime_call :: "checker \<Rightarrow> raw_expr \<Rightarrow> expr \<Rightarrow> diagnostic list" where
  "actor_runtime_call c raw e = concat (map (actor_call_check c raw) (calls e))"

section \<open>Functions of the language\<close>

definition scalar_validator_call :: "checker \<Rightarrow> raw_expr \<Rightarrow> string \<Rightarrow> expr list \<Rightarrow> env \<Rightarrow> diagnostic list run" where
  "scalar_validator_call c raw name args env =
     (case args of
        [arg] \<Rightarrow>
          on_some (expr_type_in_context c env arg (Some (TypeRef ''Text''))) (\<lambda>actual.
            do { b \<leftarrow> types_compatible c (TypeRef ''Text'') actual;
                 Some
                   ((if b then []
                     else [report ''N2706''
                             (''validator `'' @ name @ ''` argument has type `'' @ type_raw actual
                              @ ''`, expected `Text`'') (raw_span raw)
                             ''scalar validators operate on raw text input''
                             ''convert the value to Text before validating it''])
                    @ (case arg of
                         EString txt \<Rightarrow>
                           (case validate_scalar_value name txt of
                              Err reason \<Rightarrow>
                                [report ''N2707'' (''invalid literal for `'' @ name @ ''`: '' @ reason) (raw_span raw)
                                   ''literal scalar values can be validated at compile time''
                                   ''fix the literal or validate dynamic user input at runtime'']
                            | Ok _ \<Rightarrow> [])
                       | _ \<Rightarrow> [])) })
      | _ \<Rightarrow> Some
          [report ''N2705'' (''validator `'' @ name @ ''` expects 1 argument, got '' @ count_text args) (raw_span raw)
             ''scalar validators validate exactly one text value'' ''pass one Text expression to the validator''])"

definition hash_helper_call :: "checker \<Rightarrow> raw_expr \<Rightarrow> string \<Rightarrow> expr list \<Rightarrow> env \<Rightarrow> diagnostic list run" where
  "hash_helper_call c raw name args env =
     (case args of
        [arg] \<Rightarrow>
          on_some (expr_type c env arg) (\<lambda>actual.
            if type_raw actual \<in> {''Text'', ''Bytes''} then nothing
            else Some
              [report ''N2706''
                 (''hash helper `'' @ name @ ''` argument has type `'' @ type_raw actual
                  @ ''`, expected `Text` or `Bytes`'') (raw_span raw)
                 ''hash helpers require explicit text or byte input''
                 ''convert the value to Text or Bytes before hashing''])
      | _ \<Rightarrow> Some
          [report ''N2705'' (''hash helper `'' @ name @ ''` expects 1 argument, got '' @ count_text args) (raw_span raw)
             ''hash helpers digest exactly one Text or Bytes value''
             ''pass one Text or Bytes expression to the helper''])"

text \<open>
  The helpers with one argument of a fixed type: the word for the helper, its parameter type, the
  texts of the diagnostics, and the check of a literal.
\<close>

definition one_arg_helper_call ::
  "checker \<Rightarrow> raw_expr \<Rightarrow> string \<Rightarrow> expr list \<Rightarrow> env \<Rightarrow> string \<Rightarrow> type_ref \<Rightarrow> string \<Rightarrow> string \<Rightarrow> string \<Rightarrow>
     (string \<Rightarrow> diagnostic list) \<Rightarrow> diagnostic list run"
where
  "one_arg_helper_call c raw name args env word expected arity_reason mismatch_reason mismatch_help literal =
     (case args of
        [arg] \<Rightarrow>
          on_some (expr_type_in_context c env arg (Some expected)) (\<lambda>actual.
            do { b \<leftarrow> types_compatible c expected actual;
                 Some
                   (if \<not> b then
                      [report ''N2706''
                         (word @ '' `'' @ name @ ''` argument has type `'' @ type_raw actual @ ''`, expected `''
                          @ type_raw expected @ ''`'') (raw_span raw) mismatch_reason mismatch_help]
                    else (case arg of EString txt \<Rightarrow> literal txt | _ \<Rightarrow> [])) })
      | _ \<Rightarrow> Some
          [report ''N2705'' (word @ '' `'' @ name @ ''` expects 1 argument, got '' @ count_text args) (raw_span raw)
             arity_reason ''pass one value with the helper input type''])"

definition invalid_literal :: "raw_expr \<Rightarrow> string \<Rightarrow> string \<Rightarrow> string \<Rightarrow> string + unit \<Rightarrow> diagnostic list" where
  "invalid_literal raw name reason help r =
     (case r of
        Err msg \<Rightarrow> [report ''N2707'' (''invalid literal for `'' @ name @ ''`: '' @ msg) (raw_span raw) reason help]
      | Ok _ \<Rightarrow> [])"

text \<open>The type of the only parameter; the caller has asked whether the name is one of the helpers.\<close>

definition only_param :: "type_ref list option \<Rightarrow> type_ref" where
  "only_param ps = (case ps of Some (p # _) \<Rightarrow> p | _ \<Rightarrow> TypeRef [])"

definition bytes_xml_helper_call :: "checker \<Rightarrow> raw_expr \<Rightarrow> string \<Rightarrow> expr list \<Rightarrow> env \<Rightarrow> diagnostic list run" where
  "bytes_xml_helper_call c raw name args env =
     one_arg_helper_call c raw name args env ''bytes/xml helper'' (only_param (bytes_xml_helper_param_types name))
       ''Bytes and Xml helpers parse or format exactly one value''
       ''Bytes and Xml helpers use explicit Text, Bytes, and Xml boundaries''
       ''parse text first or pass a value with the expected stdlib type''
       (\<lambda>txt. if name = ''xml_parse''
          then invalid_literal raw name ''literal XML values can be validated at compile time''
            ''pass XML text with at least one element tag'' (validate_xml_literal txt)
          else [])"

definition datetime_duration_call :: "checker \<Rightarrow> raw_expr \<Rightarrow> string \<Rightarrow> expr list \<Rightarrow> env \<Rightarrow> diagnostic list run" where
  "datetime_duration_call c raw name args env =
     one_arg_helper_call c raw name args env ''date/time helper'' (only_param (datetime_duration_param_types name))
       ''date/time helpers parse or format exactly one value''
       ''date/time helpers use explicit DateTime and Duration<Hour> boundaries''
       ''parse text first or pass a value with the expected date/time type''
       (\<lambda>txt. invalid_literal raw name ''literal date/time values can be validated at compile time''
          ''use explicit UTC ISO timestamps and hour durations'' (validate_datetime_duration_literal name txt))"

definition decimal_helper_call :: "checker \<Rightarrow> raw_expr \<Rightarrow> string \<Rightarrow> expr list \<Rightarrow> env \<Rightarrow> diagnostic list run" where
  "decimal_helper_call c raw name args env =
     one_arg_helper_call c raw name args env ''decimal helper'' (only_param (decimal_helper_param_types name))
       ''decimal helpers parse or format exactly one value''
       ''decimal helpers use explicit Text and Decimal boundaries''
       ''parse text first or pass a Decimal value''
       (\<lambda>txt. if name = ''decimal_parse''
          then invalid_literal raw name ''literal Decimal values can be validated at compile time''
            ''use digits with at most one decimal point'' (validate_decimal_literal txt)
          else [])"

text \<open>The diagnostic for an argument by its number, from 1.\<close>

definition argument_mismatch ::
  "raw_expr \<Rightarrow> string \<Rightarrow> string \<Rightarrow> string \<Rightarrow> string \<Rightarrow> nat \<Rightarrow> type_ref \<Rightarrow> type_ref \<Rightarrow> diagnostic" where
  "argument_mismatch raw word name reason help i expected actual =
     report ''N2706''
       (word @ '' `'' @ name @ ''` argument '' @ show_nat i @ '' has type `'' @ type_raw actual @ ''`, expected `''
        @ type_raw expected @ ''`'') (raw_span raw) reason help"

definition document_helper_call :: "checker \<Rightarrow> raw_expr \<Rightarrow> string \<Rightarrow> expr list \<Rightarrow> env \<Rightarrow> diagnostic list run" where
  "document_helper_call c raw name args env =
     (let expected = unwrap_or [] (document_helper_param_types name) in
      if length args \<noteq> length expected then Some
        [report ''N2705''
           (''document helper `'' @ name @ ''` expects '' @ count_text expected @ '' arguments, got '' @ count_text args)
           (raw_span raw) ''Document metadata construction uses the fixed first-slice shape''
           ''pass id, name, mime_type, size_bytes, source, privacy, and trust'']
      else check_args c env
        (argument_mismatch raw ''document helper'' name ''Document metadata fields have fixed Text and Int types''
          ''pass Text metadata fields and Int size_bytes'') 1 args expected)"

text \<open>A collection as the first argument, with the types of the further ones as arguments of it.\<close>

definition collection_params ::
  "checker \<Rightarrow> env \<Rightarrow> expr list \<Rightarrow> string \<Rightarrow> nat \<Rightarrow> nat list \<Rightarrow> type_ref list option run" where
  "collection_params c env args base arity further =
     (case args of
        [] \<Rightarrow> return_none
      | arg # _ \<Rightarrow>
          try_some (expr_type c env arg) (\<lambda>ty.
            let targs = generic_args (type_raw ty) in
            if type_base_name (type_raw ty) \<noteq> base \<or> length targs \<noteq> arity then return_none
            else return_some (ty # map (\<lambda>i. TypeRef (targs ! i)) further)))"

definition collection_helper_param_types ::
  "checker \<Rightarrow> env \<Rightarrow> string \<Rightarrow> expr list \<Rightarrow> type_ref list option run" where
  "collection_helper_param_types c env name args =
     (if name \<in> {''map_contains'', ''map_get'', ''map_remove''} then collection_params c env args ''Map'' 2 [0]
      else if name = ''map_insert'' then collection_params c env args ''Map'' 2 [0, 1]
      else if name \<in> {''set_contains'', ''set_remove'', ''set_insert''} then collection_params c env args ''Set'' 1 [0]
      else if name = ''queue_enqueue'' then collection_params c env args ''Queue'' 1 [0]
      else if name \<in> {''queue_front'', ''queue_dequeue'', ''queue_is_empty''}
      then collection_params c env args ''Queue'' 1 []
      else if name = ''stack_push'' then collection_params c env args ''Stack'' 1 [0]
      else if name \<in> {''stack_peek'', ''stack_pop'', ''stack_is_empty''}
      then collection_params c env args ''Stack'' 1 []
      else if name = ''stream_append'' then collection_params c env args ''Stream'' 1 [0]
      else if name \<in> {''stream_next'', ''stream_advance'', ''stream_has_next''}
      then collection_params c env args ''Stream'' 1 []
      else return_none)"

definition collection_helper_call :: "checker \<Rightarrow> raw_expr \<Rightarrow> string \<Rightarrow> expr list \<Rightarrow> env \<Rightarrow> diagnostic list run" where
  "collection_helper_call c raw name args env =
     (if name \<in> {''map_empty'', ''set_empty'', ''queue_empty'', ''stack_empty'', ''stream_empty''} then
        Some (if args = [] then []
              else [report ''N2705''
                      (''collection helper `'' @ name @ ''` expects 0 arguments, got '' @ count_text args) (raw_span raw)
                      ''empty collection constructors infer their type from context''
                      ''assign the empty constructor to an explicit collection type''])
      else
        if_some
          (Some [report ''N2705'' (''collection helper `'' @ name @ ''` received unsupported arguments'') (raw_span raw)
             ''collection helpers require a typed collection as their first argument''
             ''pass a compatible Map, Set, Queue, Stack, or Stream value with matching item arguments''])
          (collection_helper_param_types c env name args)
          (\<lambda>expected.
            if length args \<noteq> length expected then Some
              [report ''N2705''
                 (''collection helper `'' @ name @ ''` expects '' @ count_text expected @ '' argument(s), got ''
                  @ count_text args) (raw_span raw)
                 ''collection helper arity is fixed by the helper name''
                 ''use map_contains/map_get/map_insert/map_remove or set_contains/set_insert/set_remove with the documented arity'']
            else check_args c env
              (argument_mismatch raw ''collection helper'' name
                ''Map/Set operations preserve their generic key and value types''
                ''pass keys and values compatible with the collection type parameters'') 1 args expected))"

definition money_helper_param_types ::
  "checker \<Rightarrow> env \<Rightarrow> string \<Rightarrow> expr list \<Rightarrow> type_ref list option run" where
  "money_helper_param_types c env name args =
     (if name = ''exchange_rate''
      then return_some (map TypeRef [''Text'', ''Text'', ''Decimal'', ''Text''])
      else if name = ''convert_money'' then
        (case args of
           [] \<Rightarrow> return_none
         | amount # rest \<Rightarrow>
             try_some (expr_type c env amount) (\<lambda>_.
               case rest of
                 [] \<Rightarrow> return_none
               | rate # _ \<Rightarrow>
                   try_some (expr_type c env rate) (\<lambda>rate_ty. Some
                     (map_option (\<lambda>(a, _). [TypeRef (''Money<'' @ a @ ''>''), rate_ty])
                       (exchange_rate_type_args rate_ty)))))
      else return_none)"

definition money_helper_call :: "checker \<Rightarrow> raw_expr \<Rightarrow> string \<Rightarrow> expr list \<Rightarrow> env \<Rightarrow> diagnostic list run" where
  "money_helper_call c raw name args env =
     if_some
       (Some [report ''N2705'' (''money helper `'' @ name @ ''` received unsupported arguments'') (raw_span raw)
          ''Money conversion requires an explicit ExchangeRate<From, To> boundary''
          ''assign exchange_rate(...) to ExchangeRate<From, To>, then pass Money<From> to convert_money''])
       (money_helper_param_types c env name args)
       (\<lambda>expected.
         if length args \<noteq> length expected then Some
           [report ''N2705''
              (''money helper `'' @ name @ ''` expects '' @ count_text expected @ '' argument(s), got '' @ count_text args)
              (raw_span raw) ''Money helpers use fixed, explicit exchange-rate signatures''
              ''use exchange_rate(from, to, rate, source) or convert_money(amount, rate)'']
         else check_args c env
           (argument_mismatch raw ''money helper'' name
             ''Money conversion must match the source currency carried by the ExchangeRate type''
             ''use an ExchangeRate<From, To> whose From currency matches the Money<From> amount'') 1 args expected)"

section \<open>Declared functions and methods\<close>

fun callable_kind_label :: "callable_kind \<Rightarrow> string" where
  "callable_kind_label Kind_Fn = ''function''"
| "callable_kind_label Kind_Workflow = ''workflow''"
| "callable_kind_label Kind_Action = ''action''"

definition builtin_runtime_functions :: "string list" where
  "builtin_runtime_functions =
     [''audit'', ''anonymize'', ''log'', ''reject'', ''require_human_approval'', ''require_human_review'', ''sanitize'',
      ''unbrand'', ''hash_sha256_base64'', ''hash_sha256_hex'', ''bytes_from_base64'', ''bytes_from_text'', ''bytes_len'',
      ''bytes_to_base64'', ''docx_metadata'', ''docx_parse_metadata'', ''document_metadata'',
      ''document_extraction_error'', ''document_extraction_metadata'', ''datetime_format_iso'', ''datetime_parse_iso'',
      ''decimal_format'', ''decimal_parse'', ''exchange_rate'', ''convert_money'', ''duration_format_hours'',
      ''duration_parse_hours'', ''map_contains'', ''map_empty'', ''map_get'', ''map_insert'', ''map_remove'',
      ''image_metadata'', ''image_parse_metadata'', ''ocr_result'', ''extracted_document_text'', ''pdf_metadata'',
      ''pdf_parse_metadata'', ''spreadsheet_metadata'', ''spreadsheet_parse_metadata'', ''spreadsheet_sheet_metadata'',
      ''set_contains'', ''set_empty'', ''set_insert'', ''set_remove'', ''validate_email'', ''validate_phone_number'',
      ''validate_trust'', ''validate_url'', ''validate_uuid'', ''verify_trust'', ''xml_parse'', ''xml_to_text'']"

definition is_builtin_runtime_function :: "string \<Rightarrow> bool" where
  "is_builtin_runtime_function name \<longleftrightarrow> name \<in> set builtin_runtime_functions"

definition declared_call :: "checker \<Rightarrow> raw_expr \<Rightarrow> string \<Rightarrow> expr list \<Rightarrow> env \<Rightarrow> diagnostic list run" where
  "declared_call c raw name args env =
     (case ck_callables c name of
        None \<Rightarrow> Some
          [report ''N2701'' (''unknown callable `'' @ name @ ''`'') (raw_span raw)
             ''function and action calls must resolve to an explicit declaration''
             (''declare `fn '' @ name @ ''(...) { ... }` or `action '' @ name @ ''(...) { ... }`'')]
      | Some sg \<Rightarrow>
          (let label = callable_kind_label (sig_kind sg) in
           if length args \<noteq> length (sig_params sg) then Some
             [report ''N2705''
                (label @ '' `'' @ name @ ''` expects '' @ count_text (sig_params sg) @ '' argument(s), got ''
                 @ count_text args) (raw_span raw)
                ''call arguments must match the declared callable arity''
                ''pass exactly the parameters declared by the callable'']
           else check_params c env
             (\<lambda>p actual. report ''N2706''
                (''argument `'' @ param_name p @ ''` for '' @ label @ '' `'' @ name @ ''` has type `'' @ type_raw actual
                 @ ''`, expected `'' @ type_raw (param_ty p) @ ''`'') (raw_span raw)
                ''call arguments must match declared parameter types''
                ''pass a value with the callable parameter type'') args (sig_params sg)))"

definition direct_call_check :: "checker \<Rightarrow> raw_expr \<Rightarrow> env \<Rightarrow> call_ref \<Rightarrow> diagnostic list run" where
  "direct_call_check c raw env call =
     (case call_path call of
        [name] \<Rightarrow>
          (let args = call_args call in
           if is_scalar_validator name then scalar_validator_call c raw name args env
           else if is_hash_helper name then hash_helper_call c raw name args env
           else if is_bytes_xml_helper name then bytes_xml_helper_call c raw name args env
           else if is_document_helper name then document_helper_call c raw name args env
           else if is_datetime_duration_helper name then datetime_duration_call c raw name args env
           else if is_decimal_helper name then decimal_helper_call c raw name args env
           else if is_money_helper name then money_helper_call c raw name args env
           else if is_collection_helper name then collection_helper_call c raw name args env
           else if is_builtin_runtime_function name \<or> is_result_constructor_name name
             \<or> is_option_constructor_name name \<or> is_enum_constructor_name c name
             \<or> is_brand_constructor_name c name then nothing
           else declared_call c raw name args env)
      | _ \<Rightarrow> nothing)"

definition direct_call :: "checker \<Rightarrow> raw_expr \<Rightarrow> expr \<Rightarrow> env \<Rightarrow> diagnostic list run" where
  "direct_call c raw e env = run_all (map (direct_call_check c raw env) (calls e))"

definition check_method_call ::
  "checker \<Rightarrow> raw_expr \<Rightarrow> type_ref \<Rightarrow> string \<Rightarrow> expr list \<Rightarrow> env \<Rightarrow> diagnostic list run" where
  "check_method_call c raw base meth args env =
     (let base_name = type_base_name (type_raw base) in
      case Option.bind (ck_methods c base_name) (\<lambda>ms. ms meth) of
        None \<Rightarrow> nothing
      | Some sg \<Rightarrow>
          (if length args \<noteq> length (sig_params sg) then Some
             [report ''N2705''
                (''method `'' @ base_name @ ''.'' @ meth @ ''` expects '' @ count_text (sig_params sg)
                 @ '' argument(s), got '' @ count_text args) (raw_span raw)
                ''call arguments must match the declared method arity''
                ''pass exactly the parameters declared by the method'']
           else check_params c env
             (\<lambda>p actual. report ''N2706''
                (''argument `'' @ param_name p @ ''` for method `'' @ base_name @ ''.'' @ meth @ ''` has type `''
                 @ type_raw actual @ ''`, expected `'' @ type_raw (param_ty p) @ ''`'') (raw_span raw)
                ''call arguments must match declared parameter types''
                ''pass a value with the method parameter type'') args (sig_params sg)))"

fun check_method_calls :: "checker \<Rightarrow> raw_expr \<Rightarrow> env \<Rightarrow> expr \<Rightarrow> diagnostic list run" where
  "check_method_calls c raw env (ECall callee args) =
     run_all
       ((case callee of
           EMember obj fld \<Rightarrow>
             on_some (expr_type c env obj) (\<lambda>base.
               if has_method c base fld then check_method_call c raw base fld args env else nothing)
         | _ \<Rightarrow> nothing)
        # check_method_calls c raw env callee # map (check_method_calls c raw env) args)"
| "check_method_calls c raw env (EMember obj _) = check_method_calls c raw env obj"
| "check_method_calls c raw env (ETry inner) = check_method_calls c raw env inner"
| "check_method_calls c raw env (EAsync inner) = check_method_calls c raw env inner"
| "check_method_calls c raw env (EAwait inner) = check_method_calls c raw env inner"
| "check_method_calls c raw env (EBinary l _ r) =
     run_all [check_method_calls c raw env l, check_method_calls c raw env r]"
| "check_method_calls c raw env (EObject fs) = run_all (map (\<lambda>f. check_method_calls c raw env (snd f)) fs)"
| "check_method_calls c raw env _ = nothing"

end
