(* ===== verification/Constructor_Checks.thy ===== *)
theory Constructor_Checks
  imports Expr_Checks
begin

text \<open>
  The checks of constructors (\<open>semantic/brand_constructors.rs\<close>, \<open>enum_constructors.rs\<close>,
  \<open>option_constructors.rs\<close>, \<open>result_constructors.rs\<close>), of operators and members
  (\<open>semantic/expressions.rs\<close>), \<open>try_expr\<close>, \<open>async_expr\<close> and the order of all the checks of an
  expression (\<open>Checker::expr\<close>). Each walks over the whole expression. A constructor that walks into its
  arguments is given the walks as functions of the type that the argument should have.
\<close>

section \<open>Walks\<close>

lemma size_zip_arg:
  "p \<in> set (zip xs ys) \<Longrightarrow> size (fst p) < Suc (size_list size xs + n)"
proof -
  assume "p \<in> set (zip xs ys)"
  then have "(fst p, snd p) \<in> set (zip xs ys)" by simp
  then have "fst p \<in> set xs" by (rule set_zip_leftD)
  then have "size (fst p) \<le> size_list size xs" by (rule size_list_estimation') simp
  then show ?thesis by simp
qed

lemma size_zip_pair [termination_simp]:
  "(a, b) \<in> set (zip xs ys) \<Longrightarrow> size a < Suc (size_list size xs + n)"
  using size_zip_arg [of "(a, b)" xs ys n] by simp

text \<open>\<open>param_types.and_then(|params| params.get(index))\<close> for all the arguments.\<close>

definition expected_args :: "type_ref list option \<Rightarrow> expr list \<Rightarrow> type_ref option list" where
  "expected_args params args =
     map (\<lambda>i. case params of Some ps \<Rightarrow> if i < length ps then Some (ps ! i) else None | None \<Rightarrow> None)
       [0..<length args]"

type_synonym walk = "type_ref option \<Rightarrow> diagnostic list run"

section \<open>Brands\<close>

definition brand_constructor_call ::
  "checker \<Rightarrow> raw_expr \<Rightarrow> string \<Rightarrow> expr list \<Rightarrow> env \<Rightarrow> type_ref option \<Rightarrow> diagnostic list run" where
  "brand_constructor_call c raw name args env expected =
     (case args of
        [arg] \<Rightarrow>
          if_some
            (Some [report ''N2312'' (''generic brand constructor `'' @ name @ ''` requires an expected type'') (raw_span raw)
               ''generic Brand aliases need concrete type arguments from context''
               (''use `'' @ name @ ''` in a typed context such as `let id: '' @ name @ ''<User> = '' @ name
                @ ''(value)`'')])
            (orelse (resolve_brand_constructor c name expected) (infer_brand_constructor_from_arg c name arg env))
            (\<lambda>k. check_arg c env arg (brand_base k) (\<lambda>actual.
               report ''N2311''
                 (''brand constructor `'' @ name @ ''` payload has type `'' @ type_raw actual @ ''`, expected `''
                  @ type_raw (brand_base k) @ ''`'') (raw_span raw)
                 ''Brand<T,Tag> constructors must receive a value compatible with T''
                 ''convert or validate the raw value before constructing the branded type''))
      | _ \<Rightarrow> Some
          [report ''N2310'' (''brand constructor `'' @ name @ ''` expects exactly one argument'') (raw_span raw)
             ''Brand aliases wrap one value of their base type''
             (''call `'' @ name @ ''(value)` with a compatible payload'')])"

definition unbrand_call :: "checker \<Rightarrow> raw_expr \<Rightarrow> expr list \<Rightarrow> env \<Rightarrow> diagnostic list run" where
  "unbrand_call c raw args env =
     (case args of
        [arg] \<Rightarrow>
          on_some (expr_type c env arg) (\<lambda>actual.
            if_some
              (Some [report ''N2314'' (''unbrand cannot unwrap non-branded type `'' @ type_raw actual @ ''`'') (raw_span raw)
                 ''only explicit Brand aliases can be unwrapped''
                 ''pass a value whose type is a Brand alias, for example `UserId`''])
              (branded_value_base_type c actual) (\<lambda>_. nothing))
      | _ \<Rightarrow> Some
          [report ''N2313'' (''unbrand expects exactly one argument, got '' @ count_text args) (raw_span raw)
             ''unbrand unwraps one Brand alias value'' ''call `unbrand(value)` with a branded alias value''])"

fun brand_constructor :: "checker \<Rightarrow> raw_expr \<Rightarrow> env \<Rightarrow> type_ref option \<Rightarrow> expr \<Rightarrow> diagnostic list run" where
  "brand_constructor c raw env expected (ECall callee args) =
     run_all
       [case brand_constructor_alias_name c callee of
          Some name \<Rightarrow> brand_constructor_call c raw name args env expected
        | None \<Rightarrow> nothing,
        if is_unbrand_call callee then unbrand_call c raw args env else nothing,
        brand_constructor c raw env None callee,
        do { params \<leftarrow> call_param_types c callee;
             run_all (map (\<lambda>p. brand_constructor c raw env (snd p) (fst p)) (zip args (expected_args params args))) }]"
| "brand_constructor c raw env expected (EMember obj _) = brand_constructor c raw env None obj"
| "brand_constructor c raw env expected (ETry inner) = brand_constructor c raw env None inner"
| "brand_constructor c raw env expected (EBinary l _ r) =
     run_all [brand_constructor c raw env None l, brand_constructor c raw env None r]"
| "brand_constructor c raw env expected (EObject fs) =
     run_all (map (\<lambda>f. brand_constructor c raw env None (snd f)) fs)"
| "brand_constructor c raw env expected (EAsync inner) = brand_constructor c raw env expected inner"
| "brand_constructor c raw env expected (EAwait inner) = brand_constructor c raw env expected inner"
| "brand_constructor c raw env expected _ = nothing"

section \<open>Enums\<close>

definition enum_constructor_arity_diagnostic :: "raw_expr \<Rightarrow> string \<Rightarrow> string \<Rightarrow> diagnostic" where
  "enum_constructor_arity_diagnostic raw variant expected =
     report ''N2321'' (''variant `'' @ variant @ ''` expects '' @ expected) (raw_span raw)
       ''enum variant constructors must match declared payload arity'' ''pass the payload declared on the enum variant''"

definition enum_constructor_call ::
  "checker \<Rightarrow> raw_expr \<Rightarrow> string \<Rightarrow> (expr \<times> walk) list \<Rightarrow> env \<Rightarrow> type_ref option \<Rightarrow> diagnostic list run" where
  "enum_constructor_call c raw variant args env expected =
     (case (case expected of Some ty \<Rightarrow> Some ty | None \<Rightarrow> unique_enum_type_for_variant c variant) of
        None \<Rightarrow> Some
          [report ''N2320'' (''enum variant `'' @ variant @ ''` requires an expected enum type'') (raw_span raw)
             ''enum variant constructors are context typed''
             ''use the constructor in a typed binding, return, assignment, or argument position'']
      | Some ty \<Rightarrow>
          if_some
            (Some [report ''N2320''
               (''variant `'' @ variant @ ''` does not belong to enum type `'' @ type_raw ty @ ''`'') (raw_span raw)
               ''enum constructors must match the expected enum type'' ''use a variant declared on the expected enum''])
            (enum_variant_payload c ty variant)
            (\<lambda>payload.
              case payload of
                Some pty \<Rightarrow>
                  (case args of
                     [(arg, walk)] \<Rightarrow>
                       run_all
                         [walk (Some pty),
                          check_arg c env arg pty (\<lambda>actual.
                            report ''N2322''
                              (''variant `'' @ variant @ ''` payload has type `'' @ type_raw actual @ ''`, expected `''
                               @ type_raw pty @ ''`'') (raw_span raw)
                              ''enum constructor payloads must match variant declarations''
                              ''pass a value with the declared payload type'')]
                   | _ \<Rightarrow> Some [enum_constructor_arity_diagnostic raw variant ''exactly one argument''])
              | None \<Rightarrow>
                  Some (if args = [] then [] else [enum_constructor_arity_diagnostic raw variant ''no arguments''])))"

fun enum_constructor :: "checker \<Rightarrow> raw_expr \<Rightarrow> env \<Rightarrow> type_ref option \<Rightarrow> expr \<Rightarrow> diagnostic list run" where
  "enum_constructor c raw env expected (EIdent name) =
     (if is_enum_constructor_name c name then enum_constructor_call c raw name [] env expected else nothing)"
| "enum_constructor c raw env expected (ECall callee args) =
     (case enum_constructor_name c callee of
        Some variant \<Rightarrow>
          enum_constructor_call c raw variant (map (\<lambda>arg. (arg, \<lambda>ty. enum_constructor c raw env ty arg)) args) env expected
      | None \<Rightarrow>
          do { params \<leftarrow> call_param_types c callee;
               run_all (enum_constructor c raw env None callee
                 # map (\<lambda>p. enum_constructor c raw env (snd p) (fst p)) (zip args (expected_args params args))) })"
| "enum_constructor c raw env expected (EMember obj _) = enum_constructor c raw env None obj"
| "enum_constructor c raw env expected (ETry inner) = enum_constructor c raw env None inner"
| "enum_constructor c raw env expected (EBinary l _ r) =
     run_all [enum_constructor c raw env None l, enum_constructor c raw env None r]"
| "enum_constructor c raw env expected (EObject fs) =
     run_all (map (\<lambda>f. enum_constructor c raw env None (snd f)) fs)"
| "enum_constructor c raw env expected (EAsync inner) = enum_constructor c raw env expected inner"
| "enum_constructor c raw env expected (EAwait inner) = enum_constructor c raw env expected inner"
| "enum_constructor c raw env expected _ = nothing"

section \<open>Options\<close>

definition option_constructor_arity_diagnostic :: "raw_expr \<Rightarrow> string \<Rightarrow> string \<Rightarrow> diagnostic" where
  "option_constructor_arity_diagnostic raw constructor expected =
     report ''N2307'' (''`'' @ constructor @ ''` expects '' @ expected) (raw_span raw)
       ''Option constructor arity must match Option<T>''
       ''pass the payload required by the constructor and expected Option type''"

definition expected_option_diagnostic :: "raw_expr \<Rightarrow> string \<Rightarrow> diagnostic" where
  "expected_option_diagnostic raw constructor =
     report ''N2307'' (''`'' @ constructor @ ''` requires an expected Option<T> type'') (raw_span raw)
       ''Option constructors are context typed''
       ''use the constructor in a typed binding, assignment, argument, or return position''"

definition non_option_diagnostic :: "raw_expr \<Rightarrow> string \<Rightarrow> type_ref \<Rightarrow> diagnostic" where
  "non_option_diagnostic raw constructor expected =
     report ''N2307''
       (''`'' @ constructor @ ''` cannot construct non-Option type `'' @ type_raw expected @ ''`'') (raw_span raw)
       ''Some(...) and None construct Option<T> values''
       ''use an Option<T> expected type or pass the plain value directly''"

definition none_constructor :: "checker \<Rightarrow> raw_expr \<Rightarrow> type_ref option \<Rightarrow> diagnostic list run" where
  "none_constructor c raw expected =
     (case expected of
        None \<Rightarrow> Some [expected_option_diagnostic raw ''None'']
      | Some ty \<Rightarrow>
          do { b \<leftarrow> is_option_type c ty; Some (if b then [] else [non_option_diagnostic raw ''None'' ty]) })"

definition some_constructor ::
  "checker \<Rightarrow> raw_expr \<Rightarrow> (expr \<times> walk) list \<Rightarrow> env \<Rightarrow> type_ref option \<Rightarrow> diagnostic list run" where
  "some_constructor c raw args env expected =
     (let arity = Some [option_constructor_arity_diagnostic raw ''Some'' ''exactly one argument''] in
      case expected of
        None \<Rightarrow> (case args of [(_, walk)] \<Rightarrow> walk None | _ \<Rightarrow> arity)
      | Some ty \<Rightarrow>
          do { b \<leftarrow> is_option_type c ty;
               if \<not> b then Some [non_option_diagnostic raw ''Some'' ty]
               else
                 (case args of
                    [(arg, walk)] \<Rightarrow>
                      on_some (option_inner_type c ty) (\<lambda>inner.
                        run_all
                          [walk (Some inner),
                           check_arg c env arg inner (\<lambda>actual.
                             report ''N2308''
                               (''`Some` payload has type `'' @ type_raw actual @ ''`, expected `'' @ type_raw inner @ ''`'')
                               (raw_span raw) ''Option constructor payloads must match Option<T>''
                               ''pass a value with the expected Option payload type'')])
                  | _ \<Rightarrow> arity) })"

definition option_constructor_call ::
  "checker \<Rightarrow> raw_expr \<Rightarrow> option_constructor \<Rightarrow> (expr \<times> walk) list \<Rightarrow> env \<Rightarrow> type_ref option \<Rightarrow> diagnostic list run"
where
  "option_constructor_call c raw constructor args env expected =
     (case constructor of
        Constructor_Some \<Rightarrow> some_constructor c raw args env expected
      | Constructor_None \<Rightarrow>
          (if args \<noteq> [] then Some [option_constructor_arity_diagnostic raw ''None'' ''no arguments'']
           else none_constructor c raw expected))"

fun option_constructor :: "checker \<Rightarrow> raw_expr \<Rightarrow> env \<Rightarrow> type_ref option \<Rightarrow> expr \<Rightarrow> diagnostic list run" where
  "option_constructor c raw env expected (EIdent name) =
     (if name = ''None'' then none_constructor c raw expected else nothing)"
| "option_constructor c raw env expected (ECall callee args) =
     (case option_constructor_kind callee of
        Some k \<Rightarrow>
          option_constructor_call c raw k (map (\<lambda>arg. (arg, \<lambda>ty. option_constructor c raw env ty arg)) args) env expected
      | None \<Rightarrow>
          do { params \<leftarrow> call_param_types c callee;
               run_all (option_constructor c raw env None callee
                 # map (\<lambda>p. option_constructor c raw env (snd p) (fst p)) (zip args (expected_args params args))) })"
| "option_constructor c raw env expected (EMember obj _) = option_constructor c raw env None obj"
| "option_constructor c raw env expected (ETry inner) = option_constructor c raw env None inner"
| "option_constructor c raw env expected (EBinary l _ r) =
     run_all [option_constructor c raw env None l, option_constructor c raw env None r]"
| "option_constructor c raw env expected (EObject fs) =
     run_all (map (\<lambda>f. option_constructor c raw env None (snd f)) fs)"
| "option_constructor c raw env expected (EAsync inner) = option_constructor c raw env expected inner"
| "option_constructor c raw env expected (EAwait inner) = option_constructor c raw env expected inner"
| "option_constructor c raw env expected _ = nothing"

section \<open>Results\<close>

definition result_constructor_arity_diagnostic :: "raw_expr \<Rightarrow> string \<Rightarrow> string \<Rightarrow> diagnostic" where
  "result_constructor_arity_diagnostic raw constructor expected =
     report ''N2305'' (''`'' @ constructor @ ''` expects '' @ expected) (raw_span raw)
       ''Result constructor arity must match Result<T,E>''
       ''pass the payload required by the constructor and expected Result type''"

definition result_constructor_payload ::
  "checker \<Rightarrow> raw_expr \<Rightarrow> string \<Rightarrow> expr \<Rightarrow> env \<Rightarrow> type_ref \<Rightarrow> diagnostic list run" where
  "result_constructor_payload c raw constructor arg env expected =
     check_arg c env arg expected (\<lambda>actual.
       report ''N2306''
         (''`'' @ constructor @ ''` payload has type `'' @ type_raw actual @ ''`, expected `'' @ type_raw expected @ ''`'')
         (raw_span raw) ''Result constructor payloads must match Result<T,E>''
         ''pass a value with the expected Result payload type'')"

definition ok_constructor ::
  "checker \<Rightarrow> raw_expr \<Rightarrow> (expr \<times> walk) list \<Rightarrow> env \<Rightarrow> type_ref \<Rightarrow> diagnostic list run" where
  "ok_constructor c raw args env expected =
     on_some (result_ok_type c expected) (\<lambda>ok_ty.
       let payload =
             (case args of
                [] \<Rightarrow> []
              | (arg, walk) # _ \<Rightarrow> [walk (Some ok_ty), result_constructor_payload c raw ''Ok'' arg env ok_ty])
       in if type_raw ok_ty = ''Unit'' then
            run_all
              ((if 1 < length args
                then Some [result_constructor_arity_diagnostic raw ''Ok'' ''zero or one argument for Result<Unit,E>'']
                else nothing) # payload)
          else if length args \<noteq> 1
          then Some [result_constructor_arity_diagnostic raw ''Ok'' ''exactly one argument'']
          else run_all payload)"

definition err_constructor ::
  "checker \<Rightarrow> raw_expr \<Rightarrow> (expr \<times> walk) list \<Rightarrow> env \<Rightarrow> type_ref \<Rightarrow> diagnostic list run" where
  "err_constructor c raw args env expected =
     (case args of
        [(arg, walk)] \<Rightarrow>
          on_some (result_err_type c expected) (\<lambda>err_ty.
            run_all [walk (Some err_ty), result_constructor_payload c raw ''Err'' arg env err_ty])
      | _ \<Rightarrow> Some [result_constructor_arity_diagnostic raw ''Err'' ''exactly one argument''])"

definition result_constructor_call ::
  "checker \<Rightarrow> raw_expr \<Rightarrow> result_constructor \<Rightarrow> (expr \<times> walk) list \<Rightarrow> env \<Rightarrow> type_ref option \<Rightarrow> diagnostic list run"
where
  "result_constructor_call c raw constructor args env expected =
     (case expected of
        None \<Rightarrow> Some
          [report ''N2305'' (''`'' @ result_constructor_name constructor @ ''` requires an expected Result<T,E> type'')
             (raw_span raw) ''Result constructors are context typed''
             ''use the constructor in a typed return, typed binding, assignment, or typed argument position'']
      | Some ty \<Rightarrow>
          do { b \<leftarrow> is_result_type c ty;
               if \<not> b then Some
                 [report ''N2305''
                    (''`'' @ result_constructor_name constructor @ ''` cannot construct non-Result type `''
                     @ type_raw ty @ ''`'') (raw_span raw)
                    ''Ok(...) and Err(...) construct Result<T,E> values''
                    ''use a Result<T,E> expected type or return the plain value directly'']
               else
                 (case constructor of
                    Constructor_Ok \<Rightarrow> ok_constructor c raw args env ty
                  | Constructor_Err \<Rightarrow> err_constructor c raw args env ty) })"

fun result_constructor :: "checker \<Rightarrow> raw_expr \<Rightarrow> env \<Rightarrow> type_ref option \<Rightarrow> expr \<Rightarrow> diagnostic list run" where
  "result_constructor c raw env expected (ECall callee args) =
     (case result_constructor_kind callee of
        Some k \<Rightarrow>
          result_constructor_call c raw k (map (\<lambda>arg. (arg, \<lambda>ty. result_constructor c raw env ty arg)) args) env expected
      | None \<Rightarrow>
          do { params \<leftarrow> call_param_types c callee;
               run_all (result_constructor c raw env None callee
                 # map (\<lambda>p. result_constructor c raw env (snd p) (fst p)) (zip args (expected_args params args))) })"
| "result_constructor c raw env expected (EMember obj _) = result_constructor c raw env None obj"
| "result_constructor c raw env expected (ETry inner) = result_constructor c raw env None inner"
| "result_constructor c raw env expected (EBinary l _ r) =
     run_all [result_constructor c raw env None l, result_constructor c raw env None r]"
| "result_constructor c raw env expected (EObject fs) =
     run_all (map (\<lambda>f. result_constructor c raw env None (snd f)) fs)"
| "result_constructor c raw env expected (EAsync inner) = result_constructor c raw env expected inner"
| "result_constructor c raw env expected (EAwait inner) = result_constructor c raw env expected inner"
| "result_constructor c raw env expected _ = nothing"

section \<open>Propagation and tasks\<close>

definition try_operator :: "checker \<Rightarrow> raw_expr \<Rightarrow> type_ref option \<Rightarrow> type_ref \<Rightarrow> diagnostic list run" where
  "try_operator c raw expected_return inner_ty =
     do { b \<leftarrow> is_result_type c inner_ty;
          if \<not> b then Some
            [report ''N2303'' (''`?` cannot unwrap non-Result type `'' @ type_raw inner_ty @ ''`'') (raw_span raw)
               ''the `?` operator only propagates Result<T,E> errors''
               ''use `?` on a Result<T,E> expression or handle the value explicitly'']
          else
            (case expected_return of
               None \<Rightarrow> Some
                 [report ''N2304'' ''`?` requires the enclosing callable to return Result<_,E>'' (raw_span raw)
                    ''error propagation needs a compatible Result return type''
                    ''change the callable result type to Result<_,E> or handle the error explicitly'']
             | Some expected \<Rightarrow>
                 do { r \<leftarrow> is_result_type c expected;
                      if \<not> r then Some
                        [report ''N2304'' (''`?` cannot be used in callable returning `'' @ type_raw expected @ ''`'')
                           (raw_span raw) ''error propagation needs a compatible Result return type''
                           ''change the callable result type to Result<_,E> or handle the error explicitly'']
                      else
                        do { inner_err \<leftarrow> result_err_type c inner_ty;
                             expected_err \<leftarrow> result_err_type c expected;
                             (case (inner_err, expected_err) of
                                (Some ie, Some ee) \<Rightarrow>
                                  do { same \<leftarrow> types_compatible c ie ee;
                                       Some (if same then []
                                             else [report ''N2304''
                                               (''`?` propagates error `'' @ type_raw ie
                                                @ ''`, but enclosing callable returns error `'' @ type_raw ee @ ''`'')
                                               (raw_span raw)
                                               ''Result<T,E>? can only propagate the same error type E''
                                               ''use matching Result error types or convert the error before propagation'']) }
                              | _ \<Rightarrow> nothing) } }) }"

fun try_expr :: "checker \<Rightarrow> raw_expr \<Rightarrow> env \<Rightarrow> type_ref option \<Rightarrow> expr \<Rightarrow> diagnostic list run" where
  "try_expr c raw env ret (ETry inner) =
     run_all [try_expr c raw env ret inner, on_some (expr_type c env inner) (try_operator c raw ret)]"
| "try_expr c raw env ret (ECall callee args) =
     run_all (try_expr c raw env ret callee # map (try_expr c raw env ret) args)"
| "try_expr c raw env ret (EMember obj _) = try_expr c raw env ret obj"
| "try_expr c raw env ret (EBinary l _ r) = run_all [try_expr c raw env ret l, try_expr c raw env ret r]"
| "try_expr c raw env ret (EObject fs) = run_all (map (\<lambda>f. try_expr c raw env ret (snd f)) fs)"
| "try_expr c raw env ret (EAsync inner) = try_expr c raw env ret inner"
| "try_expr c raw env ret (EAwait inner) = try_expr c raw env ret inner"
| "try_expr c raw env ret _ = nothing"

fun async_expr :: "checker \<Rightarrow> raw_expr \<Rightarrow> env \<Rightarrow> expr \<Rightarrow> diagnostic list run" where
  "async_expr c raw env (EAwait inner) =
     run_all
       [async_expr c raw env inner,
        on_some (expr_type c env inner) (\<lambda>ty.
          do { b \<leftarrow> is_task_type c ty;
               Some (if b then []
                     else [report ''N2900'' (''`await` cannot unwrap non-Task type `'' @ type_raw ty @ ''`'') (raw_span raw)
                             ''await only resolves Task<T> values created by async work''
                             ''use `await` on a Task<T> binding or remove `await` from this expression'']) })]"
| "async_expr c raw env (EAsync inner) = async_expr c raw env inner"
| "async_expr c raw env (ETry inner) = async_expr c raw env inner"
| "async_expr c raw env (ECall callee args) =
     run_all (async_expr c raw env callee # map (async_expr c raw env) args)"
| "async_expr c raw env (EMember obj _) = async_expr c raw env obj"
| "async_expr c raw env (EBinary l _ r) = run_all [async_expr c raw env l, async_expr c raw env r]"
| "async_expr c raw env (EObject fs) = run_all (map (\<lambda>f. async_expr c raw env (snd f)) fs)"
| "async_expr c raw env _ = nothing"

section \<open>Operators\<close>

definition operand_mismatch :: "raw_expr \<Rightarrow> string \<Rightarrow> string \<Rightarrow> string \<Rightarrow> binary_op \<Rightarrow> type_ref \<Rightarrow> type_ref \<Rightarrow>
    string \<Rightarrow> string \<Rightarrow> diagnostic" where
  "operand_mismatch raw code word verb op l r reason help =
     report code
       (word @ '' operator `'' @ op_str op @ ''` cannot '' @ verb @ '' `'' @ type_raw l @ ''` and `'' @ type_raw r @ ''`'')
       (raw_span raw) reason help"

definition is_boolean_op :: "binary_op \<Rightarrow> bool" where
  "is_boolean_op op \<longleftrightarrow> op = Op_Or \<or> op = Op_And"

definition is_equality_op :: "binary_op \<Rightarrow> bool" where
  "is_equality_op op \<longleftrightarrow> op = Op_Equal \<or> op = Op_NotEqual"

definition is_ordering_op :: "binary_op \<Rightarrow> bool" where
  "is_ordering_op op \<longleftrightarrow> op \<in> {Op_LessThan, Op_LessThanOrEqual, Op_GreaterThan, Op_GreaterThanOrEqual}"

text \<open>\<open>!a || !b\<close> with the second question only asked when the first answer is yes.\<close>

definition both :: "bool run \<Rightarrow> bool run \<Rightarrow> bool run" where
  "both p q = do { a \<leftarrow> p; if a then q else Some False }"

definition binary_types :: "checker \<Rightarrow> raw_expr \<Rightarrow> binary_op \<Rightarrow> type_ref \<Rightarrow> type_ref \<Rightarrow> diagnostic list run" where
  "binary_types c raw op l r =
     (if is_boolean_op op then
        do { b \<leftarrow> both (map_option is_bool_type (resolve_aliases c l)) (map_option is_bool_type (resolve_aliases c r));
             Some (if b then [] else
               [operand_mismatch raw ''N3003'' ''boolean'' ''combine'' op l r ''boolean operators require Bool operands''
                  ''compare values first or pass Bool expressions'']) }
      else if is_equality_op op then
        do { b \<leftarrow> types_compatible c l r;
             Some (if b then [] else
               [operand_mismatch raw ''N3002'' ''equality'' ''compare'' op l r
                  ''equality comparisons require compatible operand types''
                  ''compare values of the same type or convert explicitly'']) }
      else if is_ordering_op op then
        do { b \<leftarrow> both (types_compatible c l r)
               (both (map_option is_ordered_type (resolve_aliases c l)) (map_option is_ordered_type (resolve_aliases c r)));
             Some (if b then [] else
               [operand_mismatch raw ''N3001'' ''comparison'' ''compare'' op l r
                  ''ordering comparisons require compatible ordered scalar values''
                  ''compare values with the same numeric, decimal, date/time, or duration type'']) }
      else
        Some (if arithmetic_result_type op l r \<noteq> None then [] else
          [operand_mismatch raw ''N3004'' ''arithmetic'' ''combine'' op l r
             ''arithmetic requires compatible numeric types or explicit Money<C> rules''
             ''use matching numeric types, matching Money currencies for +/-, or Money multiplied/divided by a numeric value'']))"

definition binary_operands :: "checker \<Rightarrow> raw_expr \<Rightarrow> binary_op \<Rightarrow> expr \<Rightarrow> expr \<Rightarrow> env \<Rightarrow> diagnostic list run" where
  "binary_operands c raw op l r env =
     on_some (expr_type c env l) (\<lambda>tl. on_some (expr_type c env r) (\<lambda>tr. binary_types c raw op tl tr))"

fun binary_expr :: "checker \<Rightarrow> raw_expr \<Rightarrow> env \<Rightarrow> expr \<Rightarrow> diagnostic list run" where
  "binary_expr c raw env (EBinary l op r) =
     run_all [binary_expr c raw env l, binary_expr c raw env r, binary_operands c raw op l r env]"
| "binary_expr c raw env (ECall callee args) =
     run_all (binary_expr c raw env callee # map (binary_expr c raw env) args)"
| "binary_expr c raw env (ETry inner) = binary_expr c raw env inner"
| "binary_expr c raw env (EMember obj _) = binary_expr c raw env obj"
| "binary_expr c raw env (EObject fs) = run_all (map (\<lambda>f. binary_expr c raw env (snd f)) fs)"
| "binary_expr c raw env (EAsync inner) = binary_expr c raw env inner"
| "binary_expr c raw env (EAwait inner) = binary_expr c raw env inner"
| "binary_expr c raw env _ = nothing"

section \<open>Members\<close>

definition no_field :: "raw_expr \<Rightarrow> type_ref \<Rightarrow> string \<Rightarrow> string \<Rightarrow> string \<Rightarrow> diagnostic" where
  "no_field raw base fld reason help =
     report ''N1301'' (''type `'' @ type_raw base @ ''` has no field `'' @ fld @ ''`'') (raw_span raw) reason help"

definition uncertain_field :: "raw_expr \<Rightarrow> type_ref \<Rightarrow> string \<Rightarrow> diagnostic list" where
  "uncertain_field raw base fld =
     (if fld = ''confidence'' \<or> fld = ''value'' then []
      else [no_field raw base fld ''field access must resolve against the value type''
              ''use `.confidence`, `.value`, or a field declared on the underlying value type''])"

definition option_field :: "raw_expr \<Rightarrow> expr \<Rightarrow> type_ref \<Rightarrow> string \<Rightarrow> env \<Rightarrow> diagnostic list" where
  "option_field raw obj base fld env =
     (if fld \<notin> {''is_some'', ''is_none'', ''value''} then
        [no_field raw base fld ''field access must resolve against the value type''
           ''use `.is_some`, `.is_none`, `.value`, or a field declared on the unwrapped value type'']
      else if fld = ''value'' \<and> \<not> option_value_is_checked obj env then
        [report ''N2301'' ''Option<T>.value used without an is_some check'' (raw_span raw)
           ''Option<T> may be empty and must be checked before unwrapping''
           ''guard the access with `if option.is_some { ... }` or return/reject from an `is_none` guard first'']
      else [])"

definition result_field :: "raw_expr \<Rightarrow> expr \<Rightarrow> type_ref \<Rightarrow> string \<Rightarrow> env \<Rightarrow> diagnostic list" where
  "result_field raw obj base fld env =
     (if fld \<notin> {''is_ok'', ''is_err'', ''value'', ''error''} then
        [no_field raw base fld ''field access must resolve against the value type''
           ''use `.is_ok`, `.is_err`, `.value`, or `.error`'']
      else if fld = ''value'' \<and> \<not> result_value_is_checked obj env Check_Ok then
        [report ''N2302'' ''Result<T,E>.value used without an is_ok check'' (raw_span raw)
           ''Result<T,E> may contain an error and must be checked before unwrapping''
           ''guard the access with `if result.is_ok { ... }` or return/reject from an `is_err` guard first'']
      else if fld = ''error'' \<and> \<not> result_value_is_checked obj env Check_Err then
        [report ''N2302'' ''Result<T,E>.error used without an is_err check'' (raw_span raw)
           ''Result<T,E> may contain a value and must be checked before reading the error''
           ''guard the access with `if result.is_err { ... }` or return/reject from an `is_ok` guard first'']
      else [])"

definition document_field :: "raw_expr \<Rightarrow> type_ref \<Rightarrow> (string \<Rightarrow> type_ref option) \<Rightarrow> string \<Rightarrow> diagnostic list" where
  "document_field raw base members fld =
     (if members fld \<noteq> None then []
      else [no_field raw base fld ''Document metadata has a fixed first-slice shape''
              ''use `.id`, `.name`, `.mime_type`, `.size_bytes`, `.source`, `.privacy`, or `.trust`''])"

definition struct_field :: "checker \<Rightarrow> raw_expr \<Rightarrow> type_ref \<Rightarrow> string \<Rightarrow> diagnostic list" where
  "struct_field c raw base fld =
     (if has_method c base fld then []
      else if type_base_name (type_raw base) = ''Actor'' then
        (if actor_member_type fld \<noteq> None then []
         else [no_field raw base fld ''field access must resolve against declared type fields''
                 ''use `.id`, `.tenant`, `.roles`, `.request_id`, `.correlation_id`, `.provenance`, or `.trust` on current_user''])
      else
        (case ck_fields c (type_base_name (type_raw base)) of
           None \<Rightarrow> []
         | Some fs \<Rightarrow>
             (if map_of fs fld \<noteq> None then []
              else [no_field raw base fld ''field access must resolve against declared type fields''
                      ''declare the field on the type or use an existing field''])))"

definition member_field :: "checker \<Rightarrow> raw_expr \<Rightarrow> env \<Rightarrow> expr \<Rightarrow> string \<Rightarrow> type_ref \<Rightarrow> diagnostic list run" where
  "member_field c raw env obj fld base =
     do { resolved \<leftarrow> resolve_aliases c base;
          Some
            (if is_uncertain resolved then uncertain_field raw base fld
             else if is_option resolved then option_field raw obj base fld env
             else if is_result resolved then result_field raw obj base fld env
             else
               (case map_of document_types (type_base_name (type_raw base)) of
                  Some members \<Rightarrow> document_field raw base members fld
                | None \<Rightarrow> struct_field c raw base fld)) }"

fun field_access :: "checker \<Rightarrow> raw_expr \<Rightarrow> env \<Rightarrow> expr \<Rightarrow> diagnostic list run" where
  "field_access c raw env (EMember obj fld) =
     run_all [on_some (expr_type c env obj) (member_field c raw env obj fld), field_access c raw env obj]"
| "field_access c raw env (ECall callee args) =
     run_all (field_access c raw env callee # map (field_access c raw env) args)"
| "field_access c raw env (EBinary l _ r) = run_all [field_access c raw env l, field_access c raw env r]"
| "field_access c raw env (ETry inner) = field_access c raw env inner"
| "field_access c raw env (EObject fs) = run_all (map (\<lambda>f. field_access c raw env (snd f)) fs)"
| "field_access c raw env (EAsync inner) = field_access c raw env inner"
| "field_access c raw env (EAwait inner) = field_access c raw env inner"
| "field_access c raw env _ = nothing"

section \<open>All the checks of an expression\<close>

text \<open>\<open>Checker::parse_expr\<close>: the expression, if the text is one, and the diagnostics.\<close>

definition checked_parse :: "raw_expr \<Rightarrow> expr option \<times> diagnostic list" where
  "checked_parse raw =
     (if trim (raw_text raw) = [] then (None, [])
      else
        (case parse_expr (raw_text raw) of
           Ok e \<Rightarrow> (Some e, [])
         | Err msg \<Rightarrow>
             (None,
              [report ''N3000'' (''unsupported expression `'' @ raw_text raw @ ''`'') (raw_span raw) msg
                 ''use calls, member access, literals, boolean operators, or comparisons supported by the current expression parser''])))"

definition parsed_checks ::
  "checker \<Rightarrow> raw_expr \<Rightarrow> expr \<Rightarrow> env \<Rightarrow> string set \<Rightarrow> type_ref option \<Rightarrow> type_ref option \<Rightarrow> diagnostic list run" where
  "parsed_checks c raw e env granted expected_return expected_expr =
     run_all
       [Some (secret_logging raw e env), Some (uncertain_usage raw e env), external_privacy c raw e env,
        trust_flow c raw e env, Some (action_permission c raw e granted), Some (external_namespace c raw e env),
        Some (actor_runtime_call c raw e), connector_call_checks c raw e env, direct_call c raw e env,
        check_method_calls c raw env e, brand_constructor c raw env expected_expr e,
        enum_constructor c raw env expected_expr e, option_constructor c raw env expected_expr e,
        result_constructor c raw env expected_expr e, try_expr c raw env expected_return e,
        async_expr c raw env e, binary_expr c raw env e, field_access c raw env e]"

definition check_expr ::
  "checker \<Rightarrow> raw_expr \<Rightarrow> env \<Rightarrow> string set \<Rightarrow> type_ref option \<Rightarrow> type_ref option \<Rightarrow> diagnostic list run" where
  "check_expr c raw env granted expected_return expected_expr =
     (case checked_parse raw of
        (None, ds) \<Rightarrow> Some ds
      | (Some e, ds) \<Rightarrow>
          map_option (\<lambda>more_ds. ds @ more_ds) (parsed_checks c raw e env granted expected_return expected_expr))"

end
