(* ===== verification/Stmt_Checks.thy ===== *)
theory Stmt_Checks
  imports Constructor_Checks
begin

text \<open>
  The checks of statements in \<open>semantic.rs\<close>, and \<open>semantic/match_patterns.rs\<close>. The environment and the
  granted permissions, which the code passes by mutable reference, are returned when a statement can
  change them; the diagnostics are those the statement appends.
\<close>

section \<open>Paths that always end\<close>

fun any_run :: "bool run list \<Rightarrow> bool run" where
  "any_run [] = Some False"
| "any_run (r # rs) = do { b \<leftarrow> r; if b then Some True else any_run rs }"

fun all_run :: "bool run list \<Rightarrow> bool run" where
  "all_run [] = Some True"
| "all_run (r # rs) = do { b \<leftarrow> r; if b then all_run rs else Some False }"

datatype match_domain = Domain_Enum string "string list" | Domain_Union "string list"

fun domain_labels :: "match_domain \<Rightarrow> string list" where
  "domain_labels (Domain_Enum _ variants) = variants"
| "domain_labels (Domain_Union members) = members"

definition match_domain_of :: "checker \<Rightarrow> type_ref \<Rightarrow> match_domain option run" where
  "match_domain_of c ty =
     do { resolved \<leftarrow> resolve_aliases c ty;
          Some
            (case ck_enum_variants c (type_raw resolved) of
               Some variants \<Rightarrow> Some (Domain_Enum (type_raw resolved) variants)
             | None \<Rightarrow>
                 (let members = union_members (type_raw resolved) in
                  if 1 < length members then Some (Domain_Union members) else None)) }"

text \<open>The type of what is matched, when its text is an expression.\<close>

definition match_type :: "checker \<Rightarrow> env \<Rightarrow> raw_expr \<Rightarrow> type_ref option run" where
  "match_type c env raw =
     (case parse_expr (raw_text raw) of Ok e \<Rightarrow> expr_type c env e | Err _ \<Rightarrow> return_none)"

fun arm_pattern :: "match_arm \<Rightarrow> match_pattern" where "arm_pattern (MatchArm p _ _ _) = p"
fun arm_guard :: "match_arm \<Rightarrow> raw_expr option" where "arm_guard (MatchArm _ g _ _) = g"
fun arm_body :: "match_arm \<Rightarrow> stmt list" where "arm_body (MatchArm _ _ b _) = b"
fun arm_span :: "match_arm \<Rightarrow> span" where "arm_span (MatchArm _ _ _ sp) = sp"

fun pattern_variant :: "match_pattern \<Rightarrow> string option" where
  "pattern_variant (Variant name _ _) = Some name"
| "pattern_variant Wildcard = None"

text \<open>The labels the arms cover without a guard, and whether there is such a wildcard.\<close>

definition covers :: "match_arm list \<Rightarrow> string \<Rightarrow> bool" where
  "covers arms label \<longleftrightarrow>
     list_ex (\<lambda>arm. arm_guard arm = None \<and> pattern_variant (arm_pattern arm) = Some label) arms"

definition has_wildcard :: "match_arm list \<Rightarrow> bool" where
  "has_wildcard arms \<longleftrightarrow> list_ex (\<lambda>arm. arm_guard arm = None \<and> arm_pattern arm = Wildcard) arms"

definition match_is_exhaustive :: "checker \<Rightarrow> env \<Rightarrow> raw_expr \<Rightarrow> match_arm list \<Rightarrow> bool run" where
  "match_is_exhaustive c env raw arms =
     (if has_wildcard arms then Some True
      else
        if_some (Some False) (if_some return_none (match_type c env raw) (match_domain_of c))
          (\<lambda>domain. Some (list_all (covers arms) (domain_labels domain))))"

fun stmt_always_terminates :: "checker \<Rightarrow> env \<Rightarrow> stmt \<Rightarrow> bool run"
  and arm_always_terminates :: "checker \<Rightarrow> env \<Rightarrow> match_arm \<Rightarrow> bool run"
where
  "stmt_always_terminates c env (Return_Stmt _) = Some True"
| "stmt_always_terminates c env (If_Stmt _ then_body else_body _) =
     (if then_body = [] \<or> else_body = [] then Some False
      else both (any_run (map (stmt_always_terminates c env) then_body))
        (any_run (map (stmt_always_terminates c env) else_body)))"
| "stmt_always_terminates c env (Match_Stmt e arms _) =
     (if arms = [] then Some False
      else both (match_is_exhaustive c env e arms) (all_run (map (arm_always_terminates c env) arms)))"
| "stmt_always_terminates c env (Transaction_Stmt _ body _) = any_run (map (stmt_always_terminates c env) body)"
| "stmt_always_terminates c env (Scope_Stmt body _) = any_run (map (stmt_always_terminates c env) body)"
| "stmt_always_terminates c env (Expr_Stmt e) = Some (is_reject_call (raw_text e))"
| "stmt_always_terminates c env _ = Some False"
| "arm_always_terminates c env (MatchArm _ _ body _) = any_run (map (stmt_always_terminates c env) body)"

definition all_paths_terminate :: "checker \<Rightarrow> env \<Rightarrow> stmt list \<Rightarrow> bool run" where
  "all_paths_terminate c env body = any_run (map (stmt_always_terminates c env) body)"

section \<open>Match patterns\<close>

text \<open>The loop over the arms: the names that have an arm without a guard, and whether there is such a
  wildcard.\<close>

fun validate_arms_loop ::
  "string list \<Rightarrow> string list \<Rightarrow> bool \<Rightarrow> match_arm list \<Rightarrow> diagnostic list \<times> string list \<times> bool"
where
  "validate_arms_loop lbls seen wild [] = ([], seen, wild)"
| "validate_arms_loop lbls seen wild (MatchArm Wildcard guard body sp # arms) =
     (let ds = (if guard = None \<and> wild then
                  [report ''N1402'' ''duplicate wildcard match arm'' sp
                     ''only one wildcard arm can be reachable'' ''remove the duplicate `_` arm''] else []);
          (es, seen', wild') = validate_arms_loop lbls seen (wild \<or> guard = None) arms
      in (ds @ es, seen', wild'))"
| "validate_arms_loop lbls seen wild (MatchArm (Variant name payload bindings) guard body sp # arms) =
     (let ds = (if name \<in> set lbls then [] else
                  [report ''N1401'' (''unknown match pattern `'' @ name @ ''`'') sp
                     ''match arm patterns must be enum variants or union member types''
                     ''use a declared enum variant, a union member type, or add a wildcard `_` arm'']);
          ds' = (if guard = None \<and> name \<in> set seen then
                   [report ''N1402'' (''duplicate match arm `'' @ name @ ''`'') sp
                      ''duplicate match arms are unreachable'' ''remove the duplicate arm''] else []);
          (es, seen', wild') = validate_arms_loop lbls (if guard = None then name # seen else seen) wild arms
      in (ds @ ds' @ es, seen', wild'))"

definition comma_join :: "string list \<Rightarrow> string" where
  "comma_join names = concat (case names of [] \<Rightarrow> [] | n # ns \<Rightarrow> n # map (\<lambda>m. '', '' @ m) ns)"

definition validate_match_arms :: "match_arm list \<Rightarrow> span \<Rightarrow> string list \<Rightarrow> diagnostic list" where
  "validate_match_arms arms sp lbls =
     (let (ds, seen, wild) = validate_arms_loop lbls [] False arms;
          missing = filter (\<lambda>l. l \<notin> set seen) lbls
      in ds @ (if wild \<or> missing = [] then [] else
           [report ''N1403'' (''non-exhaustive match, missing '' @ comma_join missing) sp
              ''enum and union matches must cover every case or include `_`''
              ''add missing match arms or a wildcard `_` arm'']))"

definition struct_field_binding :: "checker \<Rightarrow> type_ref \<Rightarrow> string \<Rightarrow> (type_ref \<times> labels) option" where
  "struct_field_binding c ty fld =
     map_option (\<lambda>f. (substitute_type_params (field_ty f) (type_substitutions c ty), field_labels f))
       (field_of c ty fld)"

definition no_struct :: "checker \<Rightarrow> string \<Rightarrow> bool" where
  "no_struct c base \<longleftrightarrow> ck_fields c base = None"

text \<open>One binding of a pattern: the fields seen in this pattern and the names seen in all of it.\<close>

fun validate_binding ::
  "checker \<Rightarrow> span \<Rightarrow> string \<Rightarrow> type_ref \<Rightarrow> match_binding \<Rightarrow> string list \<times> string list \<Rightarrow>
     diagnostic list \<times> string list \<times> string list"
  and validate_bindings ::
  "checker \<Rightarrow> span \<Rightarrow> string \<Rightarrow> type_ref \<Rightarrow> match_binding list \<Rightarrow> string list \<times> string list \<Rightarrow>
     diagnostic list \<times> string list \<times> string list"
where
  "validate_binding c sp owner owner_ty (MatchBinding fld name nested_type nested) (seen_fields, seen_names) =
     (let ds = (if fld \<in> set seen_fields then
                  [report ''N1405'' (''duplicate destructured field `'' @ fld @ ''`'') sp
                     ''a match pattern can bind each field only once'' ''remove the duplicate field binding''] else []);
          seen_fields' = List.insert fld seen_fields
      in case struct_field_binding c owner_ty fld of
           None \<Rightarrow>
             (ds @ [report ''N1404'' (''type `'' @ owner @ ''` has no field `'' @ fld @ ''`'') sp
                      ''destructured fields must exist on the union member type''
                      ''use a declared field name or remove it from the pattern''], seen_fields', seen_names)
         | Some (fty, _) \<Rightarrow>
             (if nested = [] then
                (ds @ (if name \<in> set seen_names then
                         [report ''N1405'' (''duplicate match binding `'' @ name @ ''`'') sp
                            ''bindings introduced by one pattern must be unique''
                            ''rename one binding with `field: alias`''] else []),
                 seen_fields', List.insert name seen_names)
              else
                (case nested_type of
                   None \<Rightarrow> (ds, seen_fields', seen_names)
                 | Some nty \<Rightarrow>
                     (let base = type_base_name (type_raw fty) in
                      if base \<noteq> nty then
                        (ds @ [report ''N1404''
                                 (''field `'' @ fld @ ''` has type `'' @ type_raw fty @ ''`, not `'' @ nty @ ''`'') sp
                                 ''nested destructuring must name the field's structured type''
                                 (''use `'' @ base @ ''` for this nested pattern'')], seen_fields', seen_names)
                      else if no_struct c base then
                        (ds @ [report ''N1404''
                                 (''match pattern `'' @ base @ ''` cannot destructure a non-struct type'') sp
                                 ''nested destructuring requires declared fields''
                                 ''destructure a structured type or bind the field directly''], seen_fields', seen_names)
                      else
                        (let (es, _, names) = validate_bindings c sp base fty nested ([], seen_names)
                         in (ds @ es, seen_fields', names))))))"
| "validate_bindings c sp owner owner_ty [] st = ([], st)"
| "validate_bindings c sp owner owner_ty (b # bs) st =
     (let (ds, st1) = validate_binding c sp owner owner_ty b st;
          (es, st2) = validate_bindings c sp owner owner_ty bs st1
      in (ds @ es, st2))"

definition validate_enum_payload_destructuring ::
  "checker \<Rightarrow> span \<Rightarrow> string \<Rightarrow> type_ref \<Rightarrow> string \<Rightarrow> match_binding list \<Rightarrow> diagnostic list" where
  "validate_enum_payload_destructuring c sp variant payload_ty tname bindings =
     (let base = type_base_name (type_raw payload_ty) in
      if base \<noteq> tname then
        [report ''N1404''
           (''enum variant `'' @ variant @ ''` payload has type `'' @ type_raw payload_ty @ ''`, not `'' @ tname @ ''`'') sp
           ''payload destructuring must name the variant payload struct type''
           (''use `'' @ base @ ''` for this payload pattern'')]
      else if no_struct c base then
        [report ''N1404''
           (''match pattern `'' @ variant @ ''` cannot destructure non-struct payload `'' @ type_raw payload_ty @ ''`'') sp
           ''payload destructuring requires a declared struct payload type''
           ''bind the payload directly or use a struct payload type'']
      else fst (validate_bindings c sp base payload_ty bindings ([], [])))"

definition validate_enum_payload_pattern ::
  "checker \<Rightarrow> span \<Rightarrow> string \<Rightarrow> match_payload \<Rightarrow> match_domain option \<Rightarrow> diagnostic list run" where
  "validate_enum_payload_pattern c sp variant payload domain =
     (case domain of
        Some (Domain_Enum ename _) \<Rightarrow>
          do { found \<leftarrow> enum_variant_payload c (TypeRef ename) variant;
               Some
                 (case found of
                    Some (Some pty) \<Rightarrow>
                      (case payload of
                         Destructure tname bindings \<Rightarrow>
                           validate_enum_payload_destructuring c sp variant pty tname bindings
                       | Binding _ \<Rightarrow> [])
                  | Some None \<Rightarrow>
                      [report ''N1404'' (''enum variant `'' @ variant @ ''` has no payload'') sp
                         ''payload binding requires a payload type in the enum declaration''
                         ''remove `(payload)` or declare a payload type on the variant'']
                  | None \<Rightarrow> []) }
      | _ \<Rightarrow> Some
          [report ''N1404'' (''match pattern `'' @ variant @ ''` cannot bind a payload here'') sp
             ''payload patterns are only valid for enum variants with payloads''
             ''use `Variant(payload)` on an enum payload variant''])"

definition is_union :: "match_domain option \<Rightarrow> bool" where
  "is_union domain \<longleftrightarrow> (case domain of Some (Domain_Union _) \<Rightarrow> True | _ \<Rightarrow> False)"

fun validate_arm_destructuring :: "checker \<Rightarrow> match_domain option \<Rightarrow> match_arm \<Rightarrow> diagnostic list run" where
  "validate_arm_destructuring c domain (MatchArm Wildcard _ _ _) = nothing"
| "validate_arm_destructuring c domain (MatchArm (Variant name payload bindings) _ _ sp) =
     (if payload \<noteq> None \<and> bindings \<noteq> [] then Some
        [report ''N1404'' (''match pattern `'' @ name @ ''` mixes payload and field destructuring'') sp
           ''enum payload and struct field patterns are distinct forms''
           ''use either `Variant(payload)` or `Type { field }`'']
      else
        (case payload of
           Some p \<Rightarrow> validate_enum_payload_pattern c sp name p domain
         | None \<Rightarrow>
             (if bindings = [] then nothing
              else if \<not> is_union domain then Some
                [report ''N1404'' (''match pattern `'' @ name @ ''` cannot destructure this match domain'') sp
                   ''only structured union member patterns can destructure fields''
                   ''match the case without `{ ... }` or use a union member struct type'']
              else if no_struct c (type_base_name name) then Some
                [report ''N1404'' (''match pattern `'' @ name @ ''` cannot destructure a non-struct type'') sp
                   ''destructuring requires declared fields on the matched member type''
                   ''destructure a structured type or remove `{ ... }` from the arm'']
              else Some (fst (validate_bindings c sp name (TypeRef name) bindings ([], []))))))"

section \<open>What a pattern binds\<close>

definition plain_binding :: "type_ref \<Rightarrow> labels \<Rightarrow> bool \<Rightarrow> bool \<Rightarrow> binding" where
  "plain_binding ty l uncertain secret =
     \<lparr>bind_ty = Some ty, bind_labels = l, bind_mutable = False, bind_uncertain = uncertain,
      bind_option_checked = False, bind_result_checked = None, bind_secret = secret\<rparr>"

definition typed_binding :: "checker \<Rightarrow> type_ref \<Rightarrow> labels \<Rightarrow> binding run" where
  "typed_binding c ty l =
     do { u \<leftarrow> is_uncertain_type c ty;
          s \<leftarrow> is_secret_type c ty;
          Some (plain_binding ty l u (s \<or> label_privacy l = Some Privacy_Secret)) }"

fun bind_match_binding :: "checker \<Rightarrow> type_ref \<Rightarrow> match_binding \<Rightarrow> env \<Rightarrow> env run"
  and bind_match_bindings :: "checker \<Rightarrow> type_ref \<Rightarrow> match_binding list \<Rightarrow> env \<Rightarrow> env run"
where
  "bind_match_binding c owner (MatchBinding fld name nested_type nested) env =
     (case struct_field_binding c owner fld of
        None \<Rightarrow> Some env
      | Some (fty, l) \<Rightarrow>
          (if nested \<noteq> [] then bind_match_bindings c fty nested env
           else do { b \<leftarrow> typed_binding c fty l; Some (AList.update name b env) }))"
| "bind_match_bindings c owner [] env = Some env"
| "bind_match_bindings c owner (b # bs) env =
     do { env' \<leftarrow> bind_match_binding c owner b env; bind_match_bindings c owner bs env' }"

definition narrow_match_arm :: "match_domain option \<Rightarrow> expr option \<Rightarrow> match_pattern \<Rightarrow> env \<Rightarrow> env" where
  "narrow_match_arm domain parsed pattern env =
     (case (parsed, pattern) of
        (Some (EIdent bname), Variant name _ _) \<Rightarrow>
          (if is_union domain then update_binding (\<lambda>b. b\<lparr>bind_ty := Some (TypeRef name)\<rparr>) bname env else env)
      | _ \<Rightarrow> env)"

definition bind_match_destructuring :: "checker \<Rightarrow> match_domain option \<Rightarrow> match_pattern \<Rightarrow> env \<Rightarrow> env run" where
  "bind_match_destructuring c domain pattern env =
     (case (domain, pattern) of
        (Some (Domain_Enum ename _), Variant name (Some payload) _) \<Rightarrow>
          do { found \<leftarrow> enum_variant_payload c (TypeRef ename) name;
               (case found of
                  Some (Some pty) \<Rightarrow>
                    (case payload of
                       Binding bname \<Rightarrow>
                         do { b \<leftarrow> typed_binding c pty no_labels; Some (AList.update bname b env) }
                     | Destructure _ bindings \<Rightarrow> bind_match_bindings c pty bindings env)
                | _ \<Rightarrow> Some env) }
      | (Some (Domain_Union _), Variant name _ bindings) \<Rightarrow> bind_match_bindings c (TypeRef name) bindings env
      | _ \<Rightarrow> Some env)"

definition match_guard_check ::
  "checker \<Rightarrow> env \<Rightarrow> string set \<Rightarrow> type_ref option \<Rightarrow> raw_expr option \<Rightarrow> diagnostic list run" where
  "match_guard_check c env granted ret guard =
     (case guard of
        None \<Rightarrow> nothing
      | Some g \<Rightarrow>
          run_all
            [check_expr c g env granted ret None,
             (case checked_parse g of
                (None, ds) \<Rightarrow> Some ds
              | (Some e, _) \<Rightarrow>
                  on_some (expr_type c env e) (\<lambda>actual.
                    if is_bool_type actual then nothing
                    else Some
                      [report ''N1406'' (''match guard must be Bool, found `'' @ type_raw actual @ ''`'') (raw_span g)
                         ''match guard clauses decide whether a matched arm can run''
                         ''compare values explicitly, for example `if amount > 0`'']))])"

text \<open>Everything \<open>match_stmt\<close> does before its loop over the arms, with the domain and the parsed expression.\<close>

definition match_head ::
  "checker \<Rightarrow> env \<Rightarrow> string set \<Rightarrow> type_ref option \<Rightarrow> raw_expr \<Rightarrow> match_arm list \<Rightarrow> span \<Rightarrow>
     (diagnostic list \<times> match_domain option \<times> expr option) run"
where
  "match_head c env granted ret raw arms sp =
     do { ds \<leftarrow> check_expr c raw env granted ret None;
          ty \<leftarrow> match_type c env raw;
          domain \<leftarrow> if_some return_none (Some ty) (match_domain_of c);
          let mismatch =
            (case ty of
               Some t \<Rightarrow>
                 if domain = None then
                   [report ''N1400'' (''cannot match on non-enum/non-union type `'' @ type_raw t @ ''`'') sp
                      ''match statements require an enum value or union alias value''
                      ''match on an enum, match on a union alias, or use if/else for boolean conditions'']
                 else []
             | None \<Rightarrow> []);
            arm_ds = (case domain of Some d \<Rightarrow> validate_match_arms arms sp (domain_labels d) | None \<Rightarrow> [])
          in
          do { destructuring \<leftarrow>
                 (if domain = None then nothing else run_all (map (validate_arm_destructuring c domain) arms));
               Some (ds @ mismatch @ arm_ds @ destructuring, domain,
                 (case parse_expr (raw_text raw) of Ok e \<Rightarrow> Some e | Err _ \<Rightarrow> None)) } }"

definition match_arm_env :: "checker \<Rightarrow> match_domain option \<Rightarrow> expr option \<Rightarrow> match_pattern \<Rightarrow> env \<Rightarrow> env run" where
  "match_arm_env c domain parsed pattern env =
     bind_match_destructuring c domain pattern (narrow_match_arm domain parsed pattern env)"

end
