(* ===== verification/Body_Checks.thy ===== *)
theory Body_Checks
  imports Stmt_Checks
begin

text \<open>
  The statements of \<open>semantic.rs\<close> one by one, and the walk over a body (\<open>Checker::statements\<close>).
\<close>

section \<open>Bindings and values\<close>

definition ai_not_uncertain :: "string \<Rightarrow> span \<Rightarrow> diagnostic" where
  "ai_not_uncertain name sp =
     report ''N2100'' (''AI result assigned to `'' @ name @ ''` must be Uncertain<T>'') sp
       ''AI answers are probabilistic and cannot be treated as facts''
       ''use Uncertain<T>, check confidence, then pass result.value''"

definition cannot_assign :: "type_ref \<Rightarrow> type_ref \<Rightarrow> string \<Rightarrow> span \<Rightarrow> string \<Rightarrow> string \<Rightarrow> diagnostic" where
  "cannot_assign inferred declared name sp reason help =
     report ''N1300''
       (''cannot assign `'' @ type_raw inferred @ ''` value to `'' @ type_raw declared @ ''` binding `'' @ name @ ''`'')
       sp reason help"

text \<open>The diagnostic when both types are known and do not fit.\<close>

definition unless_compatible ::
  "checker \<Rightarrow> type_ref option \<Rightarrow> type_ref option \<Rightarrow> (type_ref \<Rightarrow> type_ref \<Rightarrow> diagnostic) \<Rightarrow> diagnostic list run" where
  "unless_compatible c expected actual mismatch =
     (case (expected, actual) of
        (Some e, Some a) \<Rightarrow> do { b \<leftarrow> types_compatible c e a; Some (if b then [] else [mismatch e a]) }
      | _ \<Rightarrow> nothing)"

text \<open>\<open>expr::parse(..).ok().and_then(..)\<close>.\<close>

definition parsed_type :: "checker \<Rightarrow> env \<Rightarrow> raw_expr \<Rightarrow> type_ref option \<Rightarrow> type_ref option run" where
  "parsed_type c env raw expected =
     (case parse_expr (raw_text raw) of
        Ok e \<Rightarrow> expr_type_in_context c env e expected
      | Err _ \<Rightarrow> return_none)"

definition type_holds :: "(checker \<Rightarrow> type_ref \<Rightarrow> bool run) \<Rightarrow> checker \<Rightarrow> type_ref option \<Rightarrow> bool run" where
  "type_holds p c ty = (case ty of Some t \<Rightarrow> p c t | None \<Rightarrow> Some False)"

definition option_text :: "raw_expr option \<Rightarrow> string" where
  "option_text e = (case e of Some r \<Rightarrow> raw_text r | None \<Rightarrow> [])"

text \<open>The labels of the new binding with the diagnostics of \<open>trust_assignment\<close>.\<close>

definition let_binding_labels :: "checker \<Rightarrow> let_stmt \<Rightarrow> env \<Rightarrow> (diagnostic list \<times> labels) run" where
  "let_binding_labels c s env =
     (case let_expr s of
        None \<Rightarrow> Some ([], let_labels s)
      | Some raw \<Rightarrow>
          (case parse_expr (raw_text raw) of
             Err _ \<Rightarrow> Some ([], let_labels s)
           | Ok e \<Rightarrow>
               do { ds \<leftarrow> trust_assignment c s e env;
                    l \<leftarrow> labels_for_let c (let_labels s) e env;
                    Some (ds, l) }))"

definition let_check ::
  "checker \<Rightarrow> let_stmt \<Rightarrow> env \<Rightarrow> string set \<Rightarrow> type_ref option \<Rightarrow> (diagnostic list \<times> env) run" where
  "let_check c s env granted ret =
     (let ai = is_ai_call (option_text (let_expr s)) in
      do { ty_uncertain \<leftarrow> type_holds is_uncertain_type c (let_ty s);
           inferred \<leftarrow> (case let_expr s of Some raw \<Rightarrow> parsed_type c env raw (let_ty s) | None \<Rightarrow> return_none);
           expr_ds \<leftarrow> (case let_expr s of Some raw \<Rightarrow> check_expr c raw env granted ret (let_ty s) | None \<Rightarrow> nothing);
           secret_ty \<leftarrow> type_holds is_secret_type c (let_ty s);
           (trust_ds, l) \<leftarrow> let_binding_labels c s env;
           assign_ds \<leftarrow> unless_compatible c (let_ty s) inferred (\<lambda>e a.
             cannot_assign a e (let_name s) (let_span s)
               ''connector and function results must match explicit binding types''
               ''change the binding type or call an expression that returns the expected type'');
           Some
             ((if ai \<and> let_ty s \<noteq> None \<and> \<not> ty_uncertain then [ai_not_uncertain (let_name s) (let_span s)] else [])
              @ expr_ds @ trust_ds @ assign_ds,
              AList.update (let_name s)
                \<lparr>bind_ty = (case let_ty s of Some t \<Rightarrow> Some t | None \<Rightarrow> inferred), bind_labels = l,
                 bind_mutable = let_mutable s, bind_uncertain = (ai \<or> ty_uncertain), bind_option_checked = False,
                 bind_result_checked = None,
                 bind_secret = (secret_ty \<or> label_privacy (let_labels s) = Some Privacy_Secret)\<rparr> env) })"

definition forget_checks :: "binding \<Rightarrow> binding" where
  "forget_checks b = b\<lparr>bind_option_checked := False, bind_result_checked := None\<rparr>"

definition assign_check ::
  "checker \<Rightarrow> assign_stmt \<Rightarrow> env \<Rightarrow> string set \<Rightarrow> type_ref option \<Rightarrow> (diagnostic list \<times> env) run" where
  "assign_check c s env granted ret =
     (let name = assign_name s; raw = assign_expr s; sp = assign_span s in
      case map_of env name of
        None \<Rightarrow> Some
          ([report ''N1305'' (''cannot assign to unknown binding `'' @ name @ ''`'') sp
              ''assignments must target a local `var` binding'' (''declare `var '' @ name @ ''` before assigning to it'')],
           env)
      | Some b \<Rightarrow>
          do { expr_ds \<leftarrow> check_expr c raw env granted ret (bind_ty b);
               inferred \<leftarrow> parsed_type c env raw (bind_ty b);
               assign_ds \<leftarrow> unless_compatible c (bind_ty b) inferred (\<lambda>e a.
                 cannot_assign a e name sp ''assignment expressions must match the binding type''
                   ''assign a value with the declared binding type'');
               new_labels \<leftarrow>
                 (if bind_ty b \<noteq> None then return_none
                  else (case parse_expr (raw_text raw) of Ok e \<Rightarrow> expr_labels c env e | Err _ \<Rightarrow> return_none));
               Some
                 (expr_ds
                  @ (if bind_mutable b then [] else
                       [report ''N1304'' (''cannot assign to immutable binding `'' @ name @ ''`'') sp
                          ''only `var` bindings can be reassigned''
                          (''declare `'' @ name @ ''` with `var` if mutation is intended'')])
                  @ assign_ds
                  @ (if is_ai_call (raw_text raw) \<and> (case bind_ty b of Some t \<Rightarrow> \<not> is_uncertain t | None \<Rightarrow> False)
                     then [ai_not_uncertain name sp] else []),
                  update_binding
                    (\<lambda>b'. forget_checks
                       (if bind_ty b \<noteq> None then b'
                        else b'\<lparr>bind_ty := inferred,
                               bind_labels := (case new_labels of
                                  Some l \<Rightarrow> merge_labels (bind_labels b') l | None \<Rightarrow> bind_labels b')\<rparr>))
                    name env) })"

definition expr_stmt_check :: "checker \<Rightarrow> raw_expr \<Rightarrow> env \<Rightarrow> string set \<Rightarrow> type_ref option \<Rightarrow> diagnostic list run" where
  "expr_stmt_check c raw env granted ret =
     run_all
       [check_expr c raw env granted ret None,
        Some (case checked_parse raw of
                (Some (EAsync _), _) \<Rightarrow>
                  [report ''N2901'' ''async task is created without an owner'' (raw_span raw)
                     ''structured concurrency requires every async task to be owned''
                     ''bind the task with `let task: Task<T> = async ...` or await an existing Task<T>'']
              | (_, ds) \<Rightarrow> ds)]"

definition return_check :: "checker \<Rightarrow> raw_expr \<Rightarrow> env \<Rightarrow> string set \<Rightarrow> type_ref option \<Rightarrow> diagnostic list run" where
  "return_check c raw env granted ret =
     (let has_value = (trim (raw_text raw) \<noteq> []) in
      run_all
        [if has_value then check_expr c raw env granted ret ret else nothing,
         (case ret of
            Some expected \<Rightarrow>
              (if has_value then
                 (case parse_expr (raw_text raw) of
                    Err _ \<Rightarrow> nothing
                  | Ok e \<Rightarrow>
                      check_arg c env e expected (\<lambda>actual.
                        report ''N1302''
                          (''return value has type `'' @ type_raw actual @ ''`, expected `'' @ type_raw expected @ ''`'')
                          (raw_span raw) ''return expressions must match the callable result type''
                          ''return a value with the declared result type or change the callable signature''))
               else Some
                 [report ''N1302'' (''missing return value of type `'' @ type_raw expected @ ''`'') (raw_span raw)
                    ''this callable declares a result type'' ''return a value with the declared result type''])
          | None \<Rightarrow>
              (if has_value then Some
                 [report ''N1303'' ''unexpected return value from Unit callable'' (raw_span raw)
                    ''callables without `-> Type` return Unit''
                    ''remove the return value or declare an explicit result type'']
               else nothing))])"

text \<open>The second parse of an expression repeats the diagnostic of an unsupported one.\<close>

definition on_parsed :: "raw_expr \<Rightarrow> (expr \<Rightarrow> diagnostic list run) \<Rightarrow> diagnostic list run" where
  "on_parsed raw f = (case checked_parse raw of (None, ds) \<Rightarrow> Some ds | (Some e, _) \<Rightarrow> f e)"

definition assert_check :: "checker \<Rightarrow> assert_stmt \<Rightarrow> env \<Rightarrow> string set \<Rightarrow> type_ref option \<Rightarrow> diagnostic list run" where
  "assert_check c s env granted ret =
     run_all
       [check_expr c (assert_expr s) env granted ret None,
        on_parsed (assert_expr s) (\<lambda>e.
          on_some (expr_type c env e) (\<lambda>actual.
            if is_bool_type actual then nothing
            else Some
              [report ''N3100'' (''assert expression must be Bool, found `'' @ type_raw actual @ ''`'') (assert_span s)
                 ''tests can only assert boolean conditions''
                 ''compare values explicitly, for example `assert total == expected`'']))]"

section \<open>Statements of tests\<close>

definition only_in :: "test_kind option \<Rightarrow> test_kind \<Rightarrow> diagnostic \<Rightarrow> diagnostic list" where
  "only_in kd expected d = (if kd = Some expected then [] else [d])"

text \<open>The denials inside the block are taken out of the diagnostics.\<close>

definition is_policy_denial :: "diagnostic \<Rightarrow> bool" where
  "is_policy_denial d \<longleftrightarrow> diag_code d = ''N2400''"

definition policy_outcome :: "policy_expectation \<Rightarrow> span \<Rightarrow> diagnostic list \<Rightarrow> diagnostic list" where
  "policy_outcome outcome sp ds =
     filter (\<lambda>d. \<not> is_policy_denial d) ds
     @ (case (outcome, list_ex is_policy_denial ds) of
          (Policy_Deny, False) \<Rightarrow>
            [report ''N3101'' ''expected policy denial, but the block was allowed'' sp
               ''expect_deny requires at least one blocked data flow''
               ''send protected data to the target being tested or tighten the policy'']
        | (Policy_Allow, True) \<Rightarrow>
            [report ''N3102'' ''expected policy allow, but the block was denied'' sp
               ''expect_allow requires the block to avoid policy-denial diagnostics''
               ''add an explicit allow policy or remove protected data from the flow'']
        | _ \<Rightarrow> [])"

definition policy_outside :: "span \<Rightarrow> diagnostic" where
  "policy_outside sp =
     report ''N3103'' ''policy expectations are only allowed inside `test policy` blocks'' sp
       ''expect_deny and expect_allow invert policy diagnostics''
       (''wrap the expectation in `test policy '' @ [CHR 0x22] @ ''name'' @ [CHR 0x22] @ '' { ... }`'')"

definition expect_workflow_check ::
  "checker \<Rightarrow> expect_workflow_stmt \<Rightarrow> env \<Rightarrow> string set \<Rightarrow> type_ref option \<Rightarrow> test_kind option \<Rightarrow> diagnostic list run" where
  "expect_workflow_check c s env granted ret kd =
     run_all
       [Some (only_in kd Test_Workflow
          (report ''N3104'' ''workflow expectations are only allowed inside `test workflow` blocks'' (expect_span s)
             ''expect_workflow_success and expect_workflow_failure execute workflow scenarios''
             (''wrap the expectation in `test workflow '' @ [CHR 0x22] @ ''name'' @ [CHR 0x22] @ '' { ... }`''))),
        check_expr c (expect_call s) env granted ret None,
        on_parsed (expect_call s) (\<lambda>e. Some
          (case direct_workflow_expectation_call_name e of
             None \<Rightarrow>
               [report ''N3105'' ''workflow expectation must be a direct workflow call'' (expect_span s)
                  ''workflow tests need an explicit scenario entrypoint''
                  ''call a workflow directly, for example `expect_workflow_success refund(request)`'']
           | Some name \<Rightarrow>
               (if (case ck_callables c name of Some sg \<Rightarrow> sig_kind sg = Kind_Workflow | None \<Rightarrow> False) then []
                else
                  [report ''N3105'' (''`'' @ name @ ''` is not a workflow'') (expect_span s)
                     ''workflow expectations can only execute `workflow` declarations''
                     ''replace the call with a declared workflow''])))]"

definition expect_audit_check ::
  "checker \<Rightarrow> expect_audit_stmt \<Rightarrow> env \<Rightarrow> string set \<Rightarrow> type_ref option \<Rightarrow> test_kind option \<Rightarrow> diagnostic list run" where
  "expect_audit_check c s env granted ret kd =
     run_all
       [Some (only_in kd Test_Workflow
          (report ''N3117'' ''audit expectations are only allowed inside `test workflow` blocks'' (audit_span s)
             ''expect_audit checks workflow audit side effects''
             (''wrap the expectation in `test workflow '' @ [CHR 0x22] @ ''name'' @ [CHR 0x22] @ '' { ... }`''))),
        check_expr c (audit_event s) env granted ret None]"

definition connector_method_of :: "checker \<Rightarrow> string \<Rightarrow> string \<Rightarrow> connector_method option" where
  "connector_method_of c ns meth = Option.bind (ck_connector_methods c ns) (\<lambda>ms. ms meth)"

definition ai_not_connector :: "string \<Rightarrow> span \<Rightarrow> string \<Rightarrow> diagnostic" where
  "ai_not_connector meth sp reason =
     report ''N3108'' (''AI connector has no method `'' @ meth @ ''`'') sp reason
       (''add `'' @ meth @ ''(...) -> Uncertain<T>` to connector `ai`'')"

definition ai_result_not_uncertain :: "string \<Rightarrow> span \<Rightarrow> diagnostic" where
  "ai_result_not_uncertain meth sp =
     report ''N3109'' (''AI connector method `'' @ meth @ ''` must return `Uncertain<T>`'') sp
       ''AI mock values are wrapped with a deterministic confidence''
       ''change the connector method result to `Uncertain<...>`''"

text \<open>The value and the confidence of a mock, once the result of the method is known to be uncertain.\<close>

definition mock_ai_values :: "checker \<Rightarrow> mock_ai_stmt \<Rightarrow> env \<Rightarrow> type_ref \<Rightarrow> diagnostic list run" where
  "mock_ai_values c s env resolved =
     run_all
       [(case (generic_arg (type_raw resolved), parse_expr (raw_text (mock_value s))) of
           (Some inner, Ok e) \<Rightarrow>
             check_arg c env e (TypeRef inner) (\<lambda>actual.
               report ''N3110'' (''AI mock value has type `'' @ type_raw actual @ ''`, expected `'' @ inner @ ''`'')
                 (mock_span s) ''mock_ai value must match the inner type of Uncertain<T>''
                 ''return a mock value compatible with the AI connector result'')
         | _ \<Rightarrow> nothing),
        (case parse_expr (raw_text (mock_confidence s)) of
           Err _ \<Rightarrow> nothing
         | Ok e \<Rightarrow>
             on_some (expr_type c env e) (\<lambda>ty.
               if type_raw ty \<in> {''Float'', ''Int'', ''Decimal''} then nothing
               else Some
                 [report ''N3111'' (''AI mock confidence must be numeric, found `'' @ type_raw ty @ ''`'') (mock_span s)
                    ''Uncertain<T> confidence is a numeric runtime value''
                    ''use a numeric confidence such as `0.91`'']))]"

definition mock_ai_target :: "checker \<Rightarrow> mock_ai_stmt \<Rightarrow> env \<Rightarrow> expr \<Rightarrow> diagnostic list run" where
  "mock_ai_target c s env call =
     (case direct_call_path call of
        None \<Rightarrow> Some
          [report ''N3107'' ''AI mock target must be a direct `ai.*` call'' (mock_span s)
             ''AI tests need an explicit connector method to override''
             ''mock a call such as `mock_ai ai.classify(message) => Intent confidence 0.9`'']
      | Some path \<Rightarrow>
          (if length path \<noteq> 2 \<or> hd path \<noteq> ''ai'' then Some
             [report ''N3107'' ''AI mock target must be a direct `ai.*` call'' (mock_span s)
                ''mock_ai is scoped to AI connector calls'' ''use an `ai.<method>(...)` connector call'']
           else
             (let meth = path ! 1 in
              case connector_method_of c ''ai'' meth of
                None \<Rightarrow> Some
                  [ai_not_connector meth (mock_span s) ''AI mocks must target declared AI connector methods'']
              | Some m \<Rightarrow>
                  (case method_result m of
                     None \<Rightarrow> Some [ai_result_not_uncertain meth (mock_span s)]
                   | Some result \<Rightarrow>
                       do { resolved \<leftarrow> resolve_aliases c result;
                            u \<leftarrow> is_uncertain_type c resolved;
                            if \<not> u then Some [ai_result_not_uncertain meth (mock_span s)]
                            else mock_ai_values c s env resolved }))))"

definition mock_ai_check ::
  "checker \<Rightarrow> mock_ai_stmt \<Rightarrow> env \<Rightarrow> string set \<Rightarrow> type_ref option \<Rightarrow> test_kind option \<Rightarrow> diagnostic list run" where
  "mock_ai_check c s env granted ret kd =
     run_all
       [Some (only_in kd Test_Ai
          (report ''N3106'' ''AI mocks are only allowed inside `test ai` blocks'' (mock_span s)
             ''mock_ai defines deterministic AI responses for AI tests''
             (''wrap the mock in `test ai '' @ [CHR 0x22] @ ''name'' @ [CHR 0x22] @ '' { ... }`''))),
        check_expr c (mock_call s) env granted ret None,
        check_expr c (mock_value s) env granted ret None,
        check_expr c (mock_confidence s) env granted ret None,
        on_parsed (mock_call s) (mock_ai_target c s env)]"

definition scan_reason_check ::
  "checker \<Rightarrow> mock_ai_scan_stmt \<Rightarrow> env \<Rightarrow> string set \<Rightarrow> type_ref option \<Rightarrow> diagnostic list run" where
  "scan_reason_check c s env granted ret =
     (case scan_reason s of
        None \<Rightarrow> nothing
      | Some reason \<Rightarrow>
          run_all
            [check_expr c reason env granted ret (Some (TypeRef ''Text'')),
             (case parse_expr (raw_text reason) of
                Err _ \<Rightarrow> nothing
              | Ok e \<Rightarrow>
                  on_some (expr_type c env e) (\<lambda>ty.
                    if type_raw ty = ''Text'' then nothing
                    else Some
                      [report ''N3121'' (''AI scanner reason must be Text, found `'' @ type_raw ty @ ''`'') (scan_span s)
                         ''scanner reasons are audit text'' ''use a string or Text expression after `reason`'']))])"

definition scan_target :: "checker \<Rightarrow> mock_ai_scan_stmt \<Rightarrow> expr \<Rightarrow> diagnostic list" where
  "scan_target c s call =
     (case direct_call_path call of
        None \<Rightarrow>
          [report ''N3119'' ''AI scanner target must be a direct `ai.*` call'' (scan_span s)
             ''AI scanner fixtures need an explicit connector method to guard''
             ''scan a call such as `mock_ai_scan ai.classify(message) => pass`'']
      | Some path \<Rightarrow>
          (if length path \<noteq> 2 \<or> hd path \<noteq> ''ai'' then
             [report ''N3119'' ''AI scanner target must be a direct `ai.*` call'' (scan_span s)
                ''mock_ai_scan is scoped to AI connector calls'' ''use an `ai.<method>(...)` connector call'']
           else if connector_method_of c ''ai'' (path ! 1) = None then
             [ai_not_connector (path ! 1) (scan_span s) ''AI scanner fixtures must target declared AI connector methods'']
           else []))"

definition mock_ai_scan_check ::
  "checker \<Rightarrow> mock_ai_scan_stmt \<Rightarrow> env \<Rightarrow> string set \<Rightarrow> type_ref option \<Rightarrow> test_kind option \<Rightarrow> diagnostic list run" where
  "mock_ai_scan_check c s env granted ret kd =
     run_all
       [Some (only_in kd Test_Ai
          (report ''N3118'' ''AI scanner fixtures are only allowed inside `test ai` blocks'' (scan_span s)
             ''mock_ai_scan defines deterministic scanner decisions for AI tests''
             (''wrap the scanner fixture in `test ai '' @ [CHR 0x22] @ ''name'' @ [CHR 0x22] @ '' { ... }`''))),
        check_expr c (scan_call s) env granted ret None,
        scan_reason_check c s env granted ret,
        Some (if scan_outcome s \<in> {''pass'', ''suspicious'', ''block''} then [] else
          [report ''N3120'' (''unknown AI scanner outcome `'' @ scan_outcome s @ ''`'') (scan_span s)
             ''AI scanner fixtures must use stable deterministic outcomes'' ''use `pass`, `suspicious`, or `block`'']),
        on_parsed (scan_call s) (\<lambda>e. Some (scan_target c s e))]"

definition connector_mock_target :: "checker \<Rightarrow> mock_connector_stmt \<Rightarrow> env \<Rightarrow> expr \<Rightarrow> diagnostic list run" where
  "connector_mock_target c s env call =
     (let sp = connector_mock_span s in
      case direct_call_path call of
        None \<Rightarrow> Some
          [report ''N3113'' ''connector mock target must be a direct connector method call'' sp
             ''workflow fixtures need an explicit connector method to override''
             (''mock a call such as `mock_connector reports.render(id) => '' @ [CHR 0x22] @ ''ok'' @ [CHR 0x22] @ ''`'')]
      | Some [ns, meth] \<Rightarrow>
          (if ns = ''ai'' then Some
             [report ''N3113'' ''AI connector mocks must use `mock_ai`'' sp ''AI mocks carry an explicit confidence value''
                ''use `mock_ai ai.method(...) => Value confidence 0.9`'']
           else
             (case connector_method_of c ns meth of
                None \<Rightarrow> Some
                  [report ''N3114'' (''connector `'' @ ns @ ''` has no method `'' @ meth @ ''`'') sp
                     ''connector mocks must target declared connector methods''
                     (''add `'' @ meth @ ''(...) -> ...` to connector `'' @ ns @ ''`'')]
              | Some m \<Rightarrow>
                  (case method_result m of
                     None \<Rightarrow> Some
                       [report ''N3115'' (''connector method `'' @ ns @ ''.'' @ meth @ ''` has no result to mock'') sp
                          ''mock_connector provides a deterministic return value''
                          ''mock a connector method with an explicit result type'']
                   | Some result \<Rightarrow>
                       (if type_raw result = ''Unit'' then Some
                          [report ''N3115'' (''connector method `'' @ ns @ ''.'' @ meth @ ''` returns Unit'') sp
                             ''Unit connector calls have no value to replace''
                             ''mock a connector method with a non-Unit result'']
                        else
                          (case parse_expr (raw_text (connector_value s)) of
                             Err _ \<Rightarrow> nothing
                           | Ok e \<Rightarrow>
                               check_arg c env e result (\<lambda>actual.
                                 report ''N3116''
                                   (''connector mock value has type `'' @ type_raw actual @ ''`, expected `''
                                    @ type_raw result @ ''`'') sp
                                   ''mock_connector value must match the connector result type''
                                   ''return a mock value compatible with the connector schema''))))))
      | Some _ \<Rightarrow> Some
          [report ''N3113'' ''connector mock target must be a direct connector method call'' sp
             ''mock_connector is scoped to declared connector methods''
             ''use a two-part connector call such as `connector.method(...)`''])"

definition mock_connector_check ::
  "checker \<Rightarrow> mock_connector_stmt \<Rightarrow> env \<Rightarrow> string set \<Rightarrow> type_ref option \<Rightarrow> test_kind option \<Rightarrow> diagnostic list run" where
  "mock_connector_check c s env granted ret kd =
     run_all
       [Some (only_in kd Test_Workflow
          (report ''N3112'' ''connector mocks are only allowed inside `test workflow` blocks'' (connector_mock_span s)
             ''mock_connector defines deterministic external dependencies for workflow tests''
             (''wrap the mock in `test workflow '' @ [CHR 0x22] @ ''name'' @ [CHR 0x22] @ '' { ... }`''))),
        check_expr c (connector_call s) env granted ret None,
        check_expr c (connector_value s) env granted ret None,
        on_parsed (connector_call s) (connector_mock_target c s env)]"

section \<open>Transactions\<close>

definition action_rollback_of :: "checker \<Rightarrow> string \<Rightarrow> string option" where
  "action_rollback_of c name =
     first_some
       (map (\<lambda>d. case d of Action_Decl a \<Rightarrow> (if action_name a = name then action_rollback a else None) | _ \<Rightarrow> None)
         (mod_declarations (ck_module c)))"

definition saga_expr :: "checker \<Rightarrow> raw_expr \<Rightarrow> diagnostic list" where
  "saga_expr c raw =
     (case parse_expr (raw_text raw) of
        Err _ \<Rightarrow> []
      | Ok e \<Rightarrow>
          (case direct_call_name e of
             None \<Rightarrow> []
           | Some name \<Rightarrow>
               (if (case ck_action_risks c name of Some r \<Rightarrow> is_high_risk r | None \<Rightarrow> False)
                   \<and> action_rollback_of c name = None
                then
                  [with_help ''add rollback metadata to the action declaration''
                     (diagnostic_warning ''N2600''
                       (''saga calls high-risk action `'' @ name @ ''` without rollback metadata'') (raw_span raw))]
                else [])))"

definition saga_transaction :: "checker \<Rightarrow> stmt list \<Rightarrow> diagnostic list" where
  "saga_transaction c body = concat (map (saga_expr c) (flatten_exprs body))"

section \<open>The walk over a body\<close>

text \<open>The environments of the two branches of a condition.\<close>

definition branch_env :: "checker \<Rightarrow> bool \<Rightarrow> raw_expr \<Rightarrow> env \<Rightarrow> env run" where
  "branch_env c truth cond env =
     do { names \<leftarrow> checked_option_bindings c truth cond env;
          checks \<leftarrow> checked_result_bindings c truth cond env;
          Some (apply_result_checks checks (apply_option_checks names env)) }"

text \<open>After the statement: when only one branch always ends, the condition had the outcome of the other.\<close>

definition after_if :: "checker \<Rightarrow> raw_expr \<Rightarrow> stmt list \<Rightarrow> stmt list \<Rightarrow> env \<Rightarrow> env run" where
  "after_if c cond then_body else_body env =
     do { t \<leftarrow> all_paths_terminate c env then_body;
          e \<leftarrow> all_paths_terminate c env else_body;
          if t \<and> \<not> e then apply_condition_checks c False cond env
          else if e \<and> \<not> t then apply_condition_checks c True cond env
          else Some env }"

text \<open>A statement whose environment and permissions stay as they are.\<close>

definition unchanged :: "env \<Rightarrow> string set \<Rightarrow> diagnostic list run \<Rightarrow> (diagnostic list \<times> env \<times> string set) run" where
  "unchanged env granted r = map_option (\<lambda>ds. (ds, env, granted)) r"

definition changed_env :: "string set \<Rightarrow> (diagnostic list \<times> env) run \<Rightarrow> (diagnostic list \<times> env \<times> string set) run" where
  "changed_env granted r = map_option (\<lambda>(ds, env). (ds, env, granted)) r"

type_synonym checked_state = "env \<times> string set"

fun check_stmt :: "checker \<Rightarrow> type_ref option \<Rightarrow> test_kind option \<Rightarrow> stmt \<Rightarrow> checked_state \<Rightarrow> (diagnostic list \<times> checked_state) run"
  and check_stmts :: "checker \<Rightarrow> type_ref option \<Rightarrow> test_kind option \<Rightarrow> stmt list \<Rightarrow> checked_state \<Rightarrow> (diagnostic list \<times> checked_state) run"
  and check_arms :: "checker \<Rightarrow> type_ref option \<Rightarrow> test_kind option \<Rightarrow> match_domain option \<Rightarrow> expr option \<Rightarrow> match_arm list \<Rightarrow> checked_state \<Rightarrow> diagnostic list run"
where
  "check_stmt c ret kd (Let_Stmt s) (env, granted) = changed_env granted (let_check c s env granted ret)"
| "check_stmt c ret kd (Assign_Stmt s) (env, granted) = changed_env granted (assign_check c s env granted ret)"
| "check_stmt c ret kd (Assert_Stmt s) (env, granted) = unchanged env granted (assert_check c s env granted ret)"
| "check_stmt c ret kd (ExpectPolicy_Stmt outcome body sp) (env, granted) =
     unchanged env granted
       (map_option (\<lambda>(ds, _). only_in kd Test_Policy (policy_outside sp) @ policy_outcome outcome sp ds)
         (check_stmts c ret kd body (env, granted)))"
| "check_stmt c ret kd (ExpectWorkflow_Stmt s) (env, granted) =
     unchanged env granted (expect_workflow_check c s env granted ret kd)"
| "check_stmt c ret kd (ExpectAudit_Stmt s) (env, granted) =
     unchanged env granted (expect_audit_check c s env granted ret kd)"
| "check_stmt c ret kd (MockAi_Stmt s) (env, granted) = unchanged env granted (mock_ai_check c s env granted ret kd)"
| "check_stmt c ret kd (MockAiScan_Stmt s) (env, granted) =
     unchanged env granted (mock_ai_scan_check c s env granted ret kd)"
| "check_stmt c ret kd (MockConnector_Stmt s) (env, granted) =
     unchanged env granted (mock_connector_check c s env granted ret kd)"
| "check_stmt c ret kd (Require_Stmt s) (env, granted) =
     Some (known_permission c (require_permission s) (require_span s), env, insert (require_permission s) granted)"
| "check_stmt c ret kd (Transaction_Stmt saga body sp) (env, granted) =
     map_option (\<lambda>(ds, st). (ds @ (if saga then saga_transaction c body else []), st))
       (check_stmts c ret kd body (env, granted))"
| "check_stmt c ret kd (Scope_Stmt body sp) (env, granted) =
     map_option (\<lambda>(ds, _, granted'). (ds, env, granted')) (check_stmts c ret kd body (env, granted))"
| "check_stmt c ret kd (If_Stmt cond then_body else_body sp) (env, granted) =
     do { cond_ds \<leftarrow> check_expr c cond env granted ret None;
          then_env \<leftarrow> branch_env c True cond env;
          else_env \<leftarrow> branch_env c False cond env;
          (then_ds, _) \<leftarrow> check_stmts c ret kd then_body (then_env, granted);
          (else_ds, _) \<leftarrow> check_stmts c ret kd else_body (else_env, granted);
          env' \<leftarrow> after_if c cond then_body else_body env;
          Some (cond_ds @ then_ds @ else_ds, env', granted) }"
| "check_stmt c ret kd (Match_Stmt raw arms sp) (env, granted) =
     do { (head_ds, domain, parsed) \<leftarrow> match_head c env granted ret raw arms sp;
          arms_ds \<leftarrow> check_arms c ret kd domain parsed arms (env, granted);
          Some (head_ds @ arms_ds, env, granted) }"
| "check_stmt c ret kd (Return_Stmt raw) (env, granted) = unchanged env granted (return_check c raw env granted ret)"
| "check_stmt c ret kd (Expr_Stmt raw) (env, granted) = unchanged env granted (expr_stmt_check c raw env granted ret)"
| "check_stmts c ret kd [] st = Some ([], st)"
| "check_stmts c ret kd (s # ss) st =
     do { (ds, st1) \<leftarrow> check_stmt c ret kd s st;
          (es, st2) \<leftarrow> check_stmts c ret kd ss st1;
          Some (ds @ es, st2) }"
| "check_arms c ret kd domain parsed [] st = Some []"
| "check_arms c ret kd domain parsed (MatchArm pattern guard body sp # arms) (env, granted) =
     do { arm_env \<leftarrow> match_arm_env c domain parsed pattern env;
          guard_ds \<leftarrow> match_guard_check c arm_env granted ret guard;
          (body_ds, _) \<leftarrow> check_stmts c ret kd body (arm_env, granted);
          rest_ds \<leftarrow> check_arms c ret kd domain parsed arms (env, granted);
          Some (guard_ds @ body_ds @ rest_ds) }"

end
