(* ===== verification/Semantic.thy ===== *)
theory Semantic
  imports Body_Checks
begin

text \<open>
  The declarations of \<open>semantic.rs\<close> and its entry points: \<open>check\<close>, \<open>check_declarations_from\<close> and
  \<open>check_service_route_for_tenant\<close>.
\<close>

section \<open>Declarations without a body\<close>

text \<open>A loop that inserts a key of each item into a set and sees whether it was there.\<close>

fun map_seen :: "('a \<Rightarrow> 'k) \<Rightarrow> (bool \<Rightarrow> 'a \<Rightarrow> 'b) \<Rightarrow> 'k set \<Rightarrow> 'a list \<Rightarrow> 'b list" where
  "map_seen key f seen [] = []"
| "map_seen key f seen (x # xs) = f (key x \<in> seen) x # map_seen key f (insert (key x) seen) xs"

definition quoted_path :: "string \<Rightarrow> string \<Rightarrow> string" where
  "quoted_path owner name = ''`'' @ owner @ ''.'' @ name @ ''`''"

definition duplicate_declaration :: "top_decl \<Rightarrow> diagnostic" where
  "duplicate_declaration d =
     report ''N1000'' (''duplicate declaration `'' @ declaration_name d @ ''`'') (declaration_span d)
       ''top-level names are module-scoped'' ''rename one declaration or move it into another module''"

definition is_impl :: "top_decl \<Rightarrow> bool" where
  "is_impl d \<longleftrightarrow> (case d of Impl_Decl _ \<Rightarrow> True | _ \<Rightarrow> False)"

definition duplicate_declarations :: "checker \<Rightarrow> diagnostic list" where
  "duplicate_declarations c =
     concat (map_seen declaration_name (\<lambda>dup d. if dup then [duplicate_declaration d] else []) {}
       (filter (\<lambda>d. \<not> is_impl d) (mod_declarations (ck_module c))))"

definition role_check :: "checker \<Rightarrow> role_decl \<Rightarrow> diagnostic list" where
  "role_check c r =
     map (\<lambda>p. with_help ''declare the permission before assigning it to a role''
              (diagnostic_error ''N1100''
                (''role `'' @ role_name r @ ''` allows unknown permission `'' @ p @ ''`'') (role_span r)))
       (filter (\<lambda>p. p \<notin> ck_permissions c) (role_allows r))"

definition enum_check :: "checker \<Rightarrow> enum_decl \<Rightarrow> diagnostic list" where
  "enum_check c e =
     concat (map (\<lambda>v. case variant_payload v of
         Some payload \<Rightarrow> known_type_ref c payload (variant_span v) | None \<Rightarrow> []) (enum_variants e))"

definition duplicate_generic_params :: "type_decl \<Rightarrow> diagnostic list" where
  "duplicate_generic_params t =
     concat (map_seen (\<lambda>p. p)
       (\<lambda>dup p. if dup
          then [with_help ''generic parameter names must be unique inside a type declaration''
                  (diagnostic_error ''N1202''
                    (''duplicate generic parameter `'' @ p @ ''` in type `'' @ type_name t @ ''`'') (type_span t))]
          else []) {} (type_generic_params t))"

definition type_field_check :: "checker \<Rightarrow> type_decl \<Rightarrow> bool \<Rightarrow> field \<Rightarrow> diagnostic list" where
  "type_field_check c t dup f =
     (if dup
      then [with_help ''field names must be unique inside a type''
              (diagnostic_error ''N1200''
                (''duplicate field `'' @ field_name f @ ''` in type `'' @ type_name t @ ''`'') (field_span f))]
      else [])
     @ known_type_ref_with_generics c (field_ty f) (field_span f) (type_generic_params t)"

definition type_check :: "checker \<Rightarrow> type_decl \<Rightarrow> diagnostic list" where
  "type_check c t =
     duplicate_generic_params t
     @ (case type_body t of
          Struct_Body fs \<Rightarrow> concat (map_seen field_name (type_field_check c t) {} fs)
        | Alias_Body target \<Rightarrow> known_type_ref_with_generics c target (type_span t) (type_generic_params t))"

definition known_params :: "checker \<Rightarrow> param list \<Rightarrow> diagnostic list" where
  "known_params c ps = concat (map (\<lambda>p. known_type_ref c (param_ty p) (param_span p)) ps)"

definition known_result :: "checker \<Rightarrow> type_ref option \<Rightarrow> span \<Rightarrow> diagnostic list" where
  "known_result c result sp = (case result of Some t \<Rightarrow> known_type_ref c t sp | None \<Rightarrow> [])"

definition known_permissions :: "checker \<Rightarrow> string list \<Rightarrow> span \<Rightarrow> diagnostic list" where
  "known_permissions c ps sp = concat (map (\<lambda>p. known_permission c p sp) ps)"

definition actor_state_check :: "checker \<Rightarrow> actor_decl \<Rightarrow> bool \<Rightarrow> actor_state_field \<Rightarrow> diagnostic list" where
  "actor_state_check c a dup f =
     (if dup
      then [with_help ''actor state field names must be unique inside an actor''
              (diagnostic_error ''N1200''
                (''duplicate state field `'' @ state_name f @ ''` in actor `'' @ actor_name a @ ''`'') (state_span f))]
      else [])
     @ known_type_ref c (state_ty f) (state_span f)"

definition actor_handler_check :: "checker \<Rightarrow> actor_decl \<Rightarrow> bool \<Rightarrow> callable_decl \<Rightarrow> diagnostic list" where
  "actor_handler_check c a dup h =
     (if dup
      then [with_help ''actor handler names must be unique inside an actor''
              (diagnostic_error ''N2702''
                (''duplicate actor handler '' @ quoted_path (actor_name a) (callable_name h)) (callable_span h))]
      else [])
     @ known_params c (callable_params h)
     @ known_result c (callable_result h) (callable_span h)
     @ known_permissions c (callable_requires h) (callable_span h)"

definition actor_check :: "checker \<Rightarrow> actor_decl \<Rightarrow> diagnostic list" where
  "actor_check c a =
     concat (map_seen state_name (actor_state_check c a) {} (actor_state a))
     @ concat (map_seen callable_name (actor_handler_check c a) {} (actor_handlers a))"

definition connector_method_check :: "checker \<Rightarrow> connector_decl \<Rightarrow> bool \<Rightarrow> connector_method \<Rightarrow> diagnostic list" where
  "connector_method_check c k dup m =
     (if dup
      then [with_help ''connector method names must be unique inside a connector''
              (diagnostic_error ''N2702''
                (''duplicate connector method '' @ quoted_path (connector_name k) (method_name m)) (method_span m))]
      else [])
     @ known_params c (method_params m)
     @ known_result c (method_result m) (method_span m)"

definition connector_check :: "checker \<Rightarrow> connector_decl \<Rightarrow> diagnostic list" where
  "connector_check c k = concat (map_seen method_name (connector_method_check c k) {} (connector_methods k))"

section \<open>Bodies\<close>

definition base_env :: env where
  "base_env = [(''current_user'', plain_binding (TypeRef ''Actor'') no_labels False False)]"

definition bind_param :: "checker \<Rightarrow> param \<Rightarrow> env \<Rightarrow> env run" where
  "bind_param c p env =
     do { b \<leftarrow> typed_binding c (param_ty p) (param_labels p); Some (AList.update (param_name p) b env) }"

fun bind_params :: "checker \<Rightarrow> param list \<Rightarrow> env \<Rightarrow> env run" where
  "bind_params c [] env = Some env"
| "bind_params c (p # ps) env = do { env' \<leftarrow> bind_param c p env; bind_params c ps env' }"

definition missing_return :: "type_ref \<Rightarrow> stmt list \<Rightarrow> span \<Rightarrow> diagnostic" where
  "missing_return expected body sp =
     report ''N1306'' (''not all paths return a value of type `'' @ type_raw expected @ ''`'')
       (if body = [] then sp else stmt_span (last body))
       ''callables with `-> Type` must return a value on every control-flow path''
       ''add a return statement after the conditional flow or return from every branch''"

text \<open>The common part of \<open>body\<close> and \<open>method_body\<close>, after the first bindings. The environment of the
  last check is the one after the statements.\<close>

definition body_from ::
  "checker \<Rightarrow> env \<Rightarrow> stmt list \<Rightarrow> param list \<Rightarrow> string list \<Rightarrow> type_ref option \<Rightarrow> span \<Rightarrow> test_kind option \<Rightarrow>
     diagnostic list run" where
  "body_from c env0 body params declared ret sp kd =
     do { env \<leftarrow> bind_params c params env0;
          (ds, env', _) \<leftarrow> check_stmts c ret kd body (env, set declared);
          returns \<leftarrow> all_paths_terminate c env' body;
          Some (ds @ (case ret of
                        Some expected \<Rightarrow> if returns then [] else [missing_return expected body sp]
                      | None \<Rightarrow> [])) }"

definition body_check ::
  "checker \<Rightarrow> stmt list \<Rightarrow> param list \<Rightarrow> string list \<Rightarrow> type_ref option \<Rightarrow> span \<Rightarrow> test_kind option \<Rightarrow>
     diagnostic list run" where
  "body_check c body params declared ret sp kd = body_from c base_env body params declared ret sp kd"

definition method_body_check ::
  "checker \<Rightarrow> string \<Rightarrow> stmt list \<Rightarrow> param list \<Rightarrow> string list \<Rightarrow> type_ref option \<Rightarrow> span \<Rightarrow> diagnostic list run" where
  "method_body_check c target body params declared ret sp =
     (let self_ty = TypeRef target in
      do { uncertain \<leftarrow> is_uncertain_type c self_ty;
           secret \<leftarrow> is_secret_type c self_ty;
           body_from c (AList.update ''self'' (plain_binding self_ty no_labels uncertain secret) base_env)
             body params declared ret sp None })"

section \<open>Declarations with a body\<close>

definition callable_check :: "checker \<Rightarrow> callable_decl \<Rightarrow> diagnostic list run" where
  "callable_check c f =
     run_all
       [Some (known_params c (callable_params f)
          @ known_result c (callable_result f) (callable_span f)
          @ known_permissions c (callable_requires f) (callable_span f)),
        body_check c (callable_body f) (callable_params f) (callable_requires f) (callable_result f)
          (callable_span f) None]"

definition action_without_audit :: "action_decl \<Rightarrow> diagnostic" where
  "action_without_audit a =
     report ''N2001'' (''high-risk action `'' @ action_name a @ ''` must write an audit event'') (action_span a)
       ''actions with real-world effects need traceability''
       (''add audit('' @ [CHR 0x22] @ ''event_name'' @ [CHR 0x22] @ '', ...) inside the action body'')"

definition action_without_rollback :: "action_decl \<Rightarrow> diagnostic" where
  "action_without_rollback a =
     with_help ''add rollback compensating_action(args) to the action signature''
       (with_reason ''saga transactions can only compensate actions with rollback metadata''
         (diagnostic_warning ''N2002'' (''high-risk action `'' @ action_name a @ ''` has no rollback'')
           (action_span a)))"

definition action_check :: "checker \<Rightarrow> action_decl \<Rightarrow> diagnostic list run" where
  "action_check c a =
     run_all
       [Some (known_params c (action_params a)
          @ known_result c (action_result a) (action_span a)
          @ known_permissions c (action_requires a) (action_span a)
          @ (if is_high_risk (action_risk a) \<and> \<not> contains_audit (action_body a) then [action_without_audit a] else [])
          @ (if is_high_risk (action_risk a) \<and> action_rollback a = None then [action_without_rollback a] else [])),
        body_check c (action_body a) (action_params a) (action_requires a) (action_result a) (action_span a) None]"

definition input_param :: "service_input \<Rightarrow> param" where
  "input_param i =
     \<lparr>param_name = input_name i, param_ty = input_ty i, param_labels = input_labels i, param_span = input_span i\<rparr>"

text \<open>The route in the context of the policies is the one of the body that is checked.\<close>

definition service_route_check :: "checker \<Rightarrow> service_route \<Rightarrow> diagnostic list run" where
  "service_route_check c r =
     run_all
       [Some (known_permissions c (route_requires r) (route_span r)
          @ (case route_input r of Some i \<Rightarrow> known_type_ref c (input_ty i) (input_span i) | None \<Rightarrow> [])),
        body_check (c\<lparr>ck_route := Some (to_ascii_uppercase (route_method r), route_path r)\<rparr>) (route_body r)
          (case route_input r of Some i \<Rightarrow> [input_param i] | None \<Rightarrow> []) (route_requires r) None (route_span r) None]"

definition route_key :: "service_route \<Rightarrow> string" where
  "route_key r = route_method r @ '' '' @ route_path r"

definition service_check :: "checker \<Rightarrow> service_decl \<Rightarrow> diagnostic list run" where
  "service_check c s =
     run_all (map_seen route_key
       (\<lambda>dup r. run_all
          [Some (if dup
                 then [with_help ''service routes must be unique by method and path''
                         (diagnostic_error ''N2800'' (''duplicate service route `'' @ route_key r @ ''`'')
                           (route_span r))]
                 else []),
           service_route_check c r]) {} (service_routes s))"

definition method_check :: "checker \<Rightarrow> string \<Rightarrow> callable_decl \<Rightarrow> diagnostic list run" where
  "method_check c target m =
     run_all
       [Some (known_params c (callable_params m)
          @ known_result c (callable_result m) (callable_span m)
          @ known_permissions c (callable_requires m) (callable_span m)),
        method_body_check c target (callable_body m) (callable_params m) (callable_requires m) (callable_result m)
          (callable_span m)]"

definition impl_check :: "checker \<Rightarrow> impl_decl \<Rightarrow> diagnostic list run" where
  "impl_check c i =
     run_all (Some (known_type_ref c (TypeRef (impl_target i)) (impl_span i))
       # map (method_check c (impl_target i)) (impl_methods i))"

definition test_check :: "checker \<Rightarrow> test_decl \<Rightarrow> diagnostic list run" where
  "test_check c t = body_check c (test_body t) [] [] None (test_span t) (Some (test_kind t))"

section \<open>The module\<close>

fun declaration_check :: "checker \<Rightarrow> top_decl \<Rightarrow> diagnostic list run" where
  "declaration_check c (Permission_Decl _) = nothing"
| "declaration_check c (Role_Decl r) = Some (role_check c r)"
| "declaration_check c (Policy_Decl _) = nothing"
| "declaration_check c (Type_Decl t) = Some (type_check c t)"
| "declaration_check c (Enum_Decl e) = Some (enum_check c e)"
| "declaration_check c (Function_Decl f) = callable_check c f"
| "declaration_check c (Workflow_Decl w) = callable_check c w"
| "declaration_check c (Actor_Decl a) = Some (actor_check c a)"
| "declaration_check c (Action_Decl a) = action_check c a"
| "declaration_check c (Connector_Decl k) = Some (connector_check c k)"
| "declaration_check c (Service_Decl s) = service_check c s"
| "declaration_check c (Test_Decl t) = test_check c t"
| "declaration_check c (Impl_Decl i) = impl_check c i"

definition checker_run :: "checker \<Rightarrow> diagnostic list run" where
  "checker_run c =
     run_all (Some (duplicate_declarations c)
       # map (declaration_check c) (drop (ck_first_local c) (mod_declarations (ck_module c))))"

definition check_declarations_from :: "module_ast \<Rightarrow> nat \<Rightarrow> diagnostic list run" where
  "check_declarations_from md first_local = checker_run (new_checker md first_local)"

definition check_module :: "module_ast \<Rightarrow> diagnostic list run" where
  "check_module md = check_declarations_from md 0"

definition service_named :: "module_ast \<Rightarrow> string \<Rightarrow> service_decl option" where
  "service_named md name =
     first_some
       (map (\<lambda>d. case d of Service_Decl s \<Rightarrow> (if service_name s = name then Some s else None) | _ \<Rightarrow> None)
         (mod_declarations md))"

definition check_service_route_for_tenant ::
  "module_ast \<Rightarrow> string \<Rightarrow> string \<Rightarrow> string \<Rightarrow> string \<Rightarrow> diagnostic list run" where
  "check_service_route_for_tenant md service meth path tenant =
     (case service_named md service of
        None \<Rightarrow> nothing
      | Some s \<Rightarrow>
          (case find (\<lambda>r. eq_ignore_ascii_case (route_method r) meth \<and> route_path r = path) (service_routes s) of
             None \<Rightarrow> nothing
           | Some r \<Rightarrow>
               service_route_check (with_policy_route meth path (with_policy_tenant tenant (new_checker md 0))) r))"

end
