(* ===== verification/Compile.thy ===== *)
theory Compile
  imports Semantic Program
begin

text \<open>
  From source texts to diagnostics: \<open>check\<close> and \<open>compile\<close> of \<open>num-compiler/src/program.rs\<close> and of
  \<open>num-compiler/src/lib.rs\<close>.
\<close>

section \<open>One source\<close>

record compilation =
  compiled_module :: module_ast
  compiled_ir :: ir_module
  compiled_diagnostics :: "diagnostic list"

definition compile_source :: "string \<Rightarrow> string \<Rightarrow> compilation run" where
  "compile_source name source =
     (let lexed = lex name source; parsed = parse_module (lexed_tokens lexed) in
      do { ds \<leftarrow> check_module (parsed_module parsed);
           Some \<lparr>compiled_module = parsed_module parsed, compiled_ir = lower_module (parsed_module parsed),
                 compiled_diagnostics = lexed_diagnostics lexed @ parsed_diagnostics parsed @ ds\<rparr> })"

definition check_source :: "string \<Rightarrow> string \<Rightarrow> diagnostic list run" where
  "check_source name source = map_option compiled_diagnostics (compile_source name source)"

section \<open>Several files\<close>

record program_check =
  checked_modules :: "program_module list"
  checked_diagnostics :: "diagnostic list"

record program_compilation =
  program_modules :: "program_module list"
  program_entry :: module_ast
  program_ir :: ir_module
  program_diagnostics :: "diagnostic list"

text \<open>The lowering of the loop has no effect.\<close>

definition check_unit :: "module_map \<Rightarrow> program_module \<Rightarrow> diagnostic list run" where
  "check_unit index u =
     do { (md, first_local, ds) \<leftarrow> visible_module index u;
          es \<leftarrow> check_declarations_from md first_local;
          Some (ds @ es) }"

definition check_units :: "program_module list \<Rightarrow> module_map \<Rightarrow> diagnostic list run" where
  "check_units us index = run_all (map (check_unit index) us)"

definition check_parsed :: "program_module list \<times> diagnostic list \<Rightarrow> diagnostic list run" where
  "check_parsed parsed =
     (let (us, parse_ds) = parsed; (index, index_ds) = module_index us in
      do { ds \<leftarrow> check_units us index; Some (parse_ds @ index_ds @ ds) })"

definition check_program :: "source_file list \<Rightarrow> program_check run" where
  "check_program files =
     (let parsed = parse_files files in
      do { ds \<leftarrow> check_parsed parsed;
           Some \<lparr>checked_modules = fst parsed, checked_diagnostics = ds\<rparr> })"

definition entry_missing :: "string option \<Rightarrow> diagnostic" where
  "entry_missing entry =
     report ''N1003'' ''program entry source was not found''
       (synthetic_span (unwrap_or ''<empty program>'' entry))
       ''runtime commands need one entry source file from the checked program''
       ''pass a directory containing src/main.num or a concrete .num entry file''"

definition entry_unit :: "program_module list \<Rightarrow> string option \<Rightarrow> program_module option" where
  "entry_unit us entry =
     (case entry of
        Some name \<Rightarrow> find (\<lambda>u. unit_source_name u = name) us
      | None \<Rightarrow> (case us of [] \<Rightarrow> None | u # _ \<Rightarrow> Some u))"

definition compile_program :: "source_file list \<Rightarrow> string option \<Rightarrow> program_compilation run" where
  "compile_program files entry =
     (let parsed = parse_files files; (us, _) = parsed; (index, _) = module_index us in
      do { ds \<leftarrow> check_parsed parsed;
           (md, entry_ds) \<leftarrow>
             (case entry_unit us entry of
                Some u \<Rightarrow> do { (md, _, _) \<leftarrow> visible_module index u; Some (md, []) }
              | None \<Rightarrow> Some (empty_module, [entry_missing entry]));
           Some \<lparr>program_modules = us, program_entry = md, program_ir = lower_module md,
                 program_diagnostics = ds @ entry_ds\<rparr> })"

end
