(* ===== verification/Compatible.thy ===== *)
theory Compatible
  imports Checker
begin

text \<open>
  What the comparison of types of the checker promises, and when it returns. Both loops end when the
  aliases that are expanded have no parameters, also when they refer to each other in a circle. With
  a parameter, an alias can grow with each expansion, and the loops of the code do not end.
\<close>

section \<open>Expansion\<close>

text \<open>No alias that is expanded has parameters; brands are never expanded.\<close>

definition plain_aliases :: "checker \<Rightarrow> bool" where
  "plain_aliases c \<longleftrightarrow>
     finite (dom (ck_aliases c)) \<and> (\<forall>a \<in> ran (ck_aliases c). alias_nominal a \<or> alias_params a = [])"

definition alias_texts :: "checker \<Rightarrow> string set" where
  "alias_texts c = (\<lambda>a. type_raw (alias_target a)) ` ran (ck_aliases c)"

lemma finite_alias_texts: "plain_aliases c \<Longrightarrow> finite (alias_texts c)"
  by (simp add: plain_aliases_def alias_texts_def finite_ran)

lemma expand_alias_text:
  assumes "plain_aliases c" and "expand_alias c ty = Some t"
  shows "type_raw t \<in> alias_texts c"
proof -
  obtain a where a: "ck_aliases c (type_base_name (type_raw ty)) = Some a"
    and t: "\<not> alias_nominal a" "length (generic_args (type_raw ty)) = length (alias_params a)"
      "t = substitute_type_params (alias_target a)
         (type_param_substitutions (alias_params a) (generic_args (type_raw ty)))"
    using assms(2) by (auto simp: expand_alias_def Let_def split: option.splits if_splits)
  have "a \<in> ran (ck_aliases c)" using a by (rule ranI)
  then show ?thesis
    using assms(1) t
    by (auto simp: plain_aliases_def alias_texts_def type_param_substitutions_def substitute_type_params_def)
qed

lemma resolve_loop_returns:
  assumes "plain_aliases c" and "card (alias_texts c - seen) \<le> n"
  shows "\<exists>t. resolve_loop c seen ty = Some t"
proof -
  have texts: "\<exists>t. resolve_loop c seen ty = Some t"
    if "type_raw ty \<in> alias_texts c" "card (alias_texts c - seen) \<le> n" for seen ty n
    using that
  proof (induction n arbitrary: seen ty)
    case 0
    then have "type_raw ty \<in> seen" using finite_alias_texts [OF assms(1)] by auto
    then show ?case by (simp add: resolve_loop.simps)
  next
    case (Suc n)
    show ?case
    proof (cases "type_raw ty \<in> seen \<or> expand_alias c ty = None")
      case True
      then show ?thesis by (auto simp: resolve_loop.simps [of c seen])
    next
      case False
      then obtain t where t: "expand_alias c ty = Some t" and new: "type_raw ty \<notin> seen" by auto
      have "card (alias_texts c - insert (type_raw ty) seen) < card (alias_texts c - seen)"
        using Suc.prems(1) new finite_alias_texts [OF assms(1)] by (intro psubset_card_mono) auto
      then have "\<exists>t'. resolve_loop c (insert (type_raw ty) seen) t = Some t'"
        using Suc.prems(2) by (intro Suc.IH expand_alias_text [OF assms(1) t]) simp
      then show ?thesis using t new by (simp add: resolve_loop.simps [of c seen])
    qed
  qed
  show ?thesis
    using texts [OF expand_alias_text [OF assms(1)] order_refl]
    by (cases "expand_alias c ty") (auto simp: resolve_loop.simps [of c seen])
qed

lemma resolve_aliases_returns: "plain_aliases c \<Longrightarrow> \<exists>t. resolve_aliases c ty = Some t"
  unfolding resolve_aliases_def by (rule resolve_loop_returns [OF _ order_refl])

section \<open>Members are no longer than the union\<close>

lemma length_concat_rev: "length (concat (rev xs)) = length (concat xs)"
  by (induction xs) auto

lemma length_trim_le: "length (trim s) \<le> length s"
  using length_concat_dropWhile [of is_whitespace "rev (dropWhile is_whitespace (chars s))"]
    length_concat_dropWhile [of is_whitespace "chars s"]
  by (simp add: trim_def length_concat_rev)

lemma union_loop_length:
  "m \<in> set (union_loop depth cur cs) \<Longrightarrow> length m \<le> length cur + length (concat cs)"
proof (induction depth cur cs rule: union_loop.induct)
  case (1 depth cur)
  then show ?case using length_trim_le [of cur] by (auto simp: nonblank_def Let_def split: if_splits)
next
  case (2 depth cur ch rest)
  consider "ch = [CHR 0x22]" | "ch = ''<''" | "ch = ''>''" | "ch = ''|'' \<and> depth = 0"
    | "ch \<noteq> [CHR 0x22]" "ch \<noteq> ''<''" "ch \<noteq> ''>''" "\<not> (ch = ''|'' \<and> depth = 0)" by blast
  then show ?case
  proof cases
    case 1
    obtain t r where l: "literal_rest rest = (t, r)" by fastforce
    have "length (concat rest) = length t + length (concat r)"
      using literal_rest_concat [of rest] by (simp add: l flip: length_append)
    then show ?thesis using "2.IH"(1) [OF 1 l [symmetric] refl] "2.prems" 1 l by simp
  next
    case 2
    then show ?thesis using "2.IH"(2) "2.prems" by simp
  next
    case 3
    then show ?thesis using "2.IH"(3) "2.prems" by simp
  next
    case 4
    then show ?thesis
      using "2.IH"(4) "2.prems" length_trim_le [of cur]
      by (auto simp: nonblank_def Let_def split: if_splits)
  next
    case 5
    then show ?thesis using "2.IH"(5) "2.prems" by (auto split: if_splits)
  qed
qed

lemma union_member_length: "m \<in> set (union_members raw) \<Longrightarrow> length m \<le> length raw"
  using union_loop_length [of m 0 "[]" "chars raw"] by (simp add: union_members_def)

section \<open>The comparison returns\<close>

definition short_texts :: "nat \<Rightarrow> string set" where
  "short_texts n = {s. length s \<le> n}"

lemma finite_short_texts: "finite (short_texts n)"
  using finite_lists_length_le [of "UNIV :: char set" n] by (simp add: short_texts_def)

text \<open>What is not yet compared of the texts up to a length.\<close>

definition uncompared :: "nat \<Rightarrow> (string \<times> string) set \<Rightarrow> nat" where
  "uncompared n seen = card (short_texts n \<times> short_texts n - seen)"

lemma uncompared_mono: "seen \<subseteq> seen' \<Longrightarrow> uncompared n seen' \<le> uncompared n seen"
  unfolding uncompared_def by (intro card_mono finite_Diff finite_cartesian_product finite_short_texts) auto

lemma uncompared_less:
  "e \<in> short_texts n \<Longrightarrow> a \<in> short_texts n \<Longrightarrow> (e, a) \<notin> seen \<Longrightarrow>
     uncompared n (insert (e, a) seen) < uncompared n seen"
  unfolding uncompared_def
  by (intro psubset_card_mono finite_Diff finite_cartesian_product finite_short_texts) auto

definition compares :: "checker \<Rightarrow> comparison \<Rightarrow> (string \<times> string) set \<Rightarrow> bool" where
  "compares c cmp seen \<longleftrightarrow> (case compatible_loop c cmp seen of Some (b, seen') \<Rightarrow> seen \<subseteq> seen' | None \<Rightarrow> False)"

lemma comparesE:
  assumes "compares c cmp seen"
  obtains b seen' where "compatible_loop c cmp seen = Some (b, seen')" "seen \<subseteq> seen'"
  using assms by (auto simp: compares_def split: option.splits)

lemma compares_any:
  assumes "\<And>e seen'. e \<in> set es \<Longrightarrow> seen \<subseteq> seen' \<Longrightarrow> compares c (One e a) seen'"
  shows "compares c (AnyOf es a) seen"
  using assms
proof (induction es arbitrary: seen)
  case Nil
  then show ?case by (simp add: compares_def compatible_loop.simps)
next
  case (Cons e es)
  obtain b seen' where o: "compatible_loop c (One e a) seen = Some (b, seen')" "seen \<subseteq> seen'"
    using Cons.prems [of e seen] by (auto elim: comparesE)
  have "compares c (AnyOf es a) seen'" using Cons.prems o(2) by (intro Cons.IH) auto
  then obtain b' seen'' where "compatible_loop c (AnyOf es a) seen' = Some (b', seen'')" "seen' \<subseteq> seen''"
    by (rule comparesE)
  then show ?case using o by (auto simp: compares_def compatible_loop.simps [of c "AnyOf (e # es) a"])
qed

lemma compares_all:
  assumes "\<And>a seen'. a \<in> set as \<Longrightarrow> seen \<subseteq> seen' \<Longrightarrow> compares c (One e a) seen'"
  shows "compares c (AllOf e as) seen"
  using assms
proof (induction as arbitrary: seen)
  case Nil
  then show ?case by (simp add: compares_def compatible_loop.simps)
next
  case (Cons a as)
  obtain b seen' where o: "compatible_loop c (One e a) seen = Some (b, seen')" "seen \<subseteq> seen'"
    using Cons.prems [of a seen] by (auto elim: comparesE)
  have "compares c (AllOf e as) seen'" using Cons.prems o(2) by (intro Cons.IH) auto
  then obtain b' seen'' where "compatible_loop c (AllOf e as) seen' = Some (b', seen'')" "seen' \<subseteq> seen''"
    by (rule comparesE)
  then show ?case using o by (auto simp: compares_def compatible_loop.simps [of c "AllOf e (a # as)"])
qed

lemma compares_one_step:
  assumes "\<And>m. m \<in> set (union_members e) \<Longrightarrow> \<forall>seen'. insert (e, a) seen \<subseteq> seen' \<longrightarrow> compares c (One m a) seen'"
    and "\<And>m. m \<in> set (union_members a) \<Longrightarrow> \<forall>seen'. insert (e, a) seen \<subseteq> seen' \<longrightarrow> compares c (One e m) seen'"
    and "\<And>t. expand_alias c (TypeRef e) = Some t \<Longrightarrow> compares c (One (type_raw t) a) (insert (e, a) seen)"
    and "\<And>t seen'. expand_alias c (TypeRef a) = Some t \<Longrightarrow> insert (e, a) seen \<subseteq> seen' \<Longrightarrow>
           compares c (One e (type_raw t)) seen'"
  shows "compares c (One e a) seen"
proof -
  have any: "compares c (AnyOf (union_members e) a) (insert (e, a) seen)"
    using assms(1) by (intro compares_any) blast
  have all: "compares c (AllOf e (union_members a)) (insert (e, a) seen)"
    using assms(2) by (intro compares_all) blast
  show ?thesis
  proof (cases "e = a \<or> (e, a) \<in> seen \<or> 1 < length (union_members e) \<or> 1 < length (union_members a)")
    case True
    then show ?thesis
      using any all by (auto simp: compares_def compatible_loop.simps [of c "One e a"] split: option.splits)
  next
    case False
    let ?left = "case expand_alias c (TypeRef e) of
        Some t \<Rightarrow> compatible_loop c (One (type_raw t) a) (insert (e, a) seen)
      | None \<Rightarrow> Some (False, insert (e, a) seen)"
    obtain b seen' where left: "?left = Some (b, seen')" and sub: "insert (e, a) seen \<subseteq> seen'"
      using assms(3) by (cases "expand_alias c (TypeRef e)") (auto elim: comparesE)
    then have step: "compatible_loop c (One e a) seen =
        (if b then Some (True, seen')
         else (case expand_alias c (TypeRef a) of
                 Some t \<Rightarrow> compatible_loop c (One e (type_raw t)) seen' | None \<Rightarrow> Some (False, seen')))"
      using False by (simp add: compatible_loop.simps [of c "One e a"])
    show ?thesis
    proof (cases "expand_alias c (TypeRef a)")
      case None
      then show ?thesis using step sub by (auto simp: compares_def)
    next
      case (Some t)
      obtain b' seen'' where "compatible_loop c (One e (type_raw t)) seen' = Some (b', seen'')" "seen' \<subseteq> seen''"
        using assms(4) [OF Some sub] by (rule comparesE)
      then show ?thesis using Some step sub by (auto simp: compares_def)
    qed
  qed
qed

lemma compares_texts:
  assumes plain: "plain_aliases c" and bound: "alias_texts c \<subseteq> short_texts n"
  shows "e \<in> short_texts n \<Longrightarrow> a \<in> short_texts n \<Longrightarrow> uncompared n seen \<le> k \<Longrightarrow> compares c (One e a) seen"
proof (induction k arbitrary: e a seen)
  case 0
  then have "(e, a) \<in> seen" using uncompared_less [of e n a seen] by (cases "(e, a) \<in> seen") auto
  then show ?case by (simp add: compares_def compatible_loop.simps [of c "One e a"])
next
  case (Suc k)
  show ?case
  proof (cases "(e, a) \<in> seen")
    case True
    then show ?thesis by (simp add: compares_def compatible_loop.simps [of c "One e a"])
  next
    case False
    have less: "uncompared n seen' \<le> k" if "insert (e, a) seen \<subseteq> seen'" for seen'
      using uncompared_mono [OF that, of n] uncompared_less [OF Suc.prems(1,2) False] Suc.prems(3) by simp
    have members: "m \<in> short_texts n" if "m \<in> set (union_members s)" "s \<in> short_texts n" for m s
      using union_member_length [OF that(1)] that(2) by (simp add: short_texts_def)
    have targets: "type_raw t \<in> short_texts n" if "expand_alias c ty = Some t" for t ty
      using expand_alias_text [OF plain that] bound by auto
    show ?thesis
    proof (rule compares_one_step)
      show "\<forall>seen'. insert (e, a) seen \<subseteq> seen' \<longrightarrow> compares c (One m a) seen'" if "m \<in> set (union_members e)" for m
        using Suc.IH [OF members [OF that Suc.prems(1)] Suc.prems(2) less] by blast
      show "\<forall>seen'. insert (e, a) seen \<subseteq> seen' \<longrightarrow> compares c (One e m) seen'" if "m \<in> set (union_members a)" for m
        using Suc.IH [OF Suc.prems(1) members [OF that Suc.prems(2)] less] by blast
      show "compares c (One (type_raw t) a) (insert (e, a) seen)" if "expand_alias c (TypeRef e) = Some t" for t
        using Suc.IH [OF targets [OF that] Suc.prems(2) less] by blast
      show "compares c (One e (type_raw t)) seen'"
        if "expand_alias c (TypeRef a) = Some t" "insert (e, a) seen \<subseteq> seen'" for t seen'
        using Suc.IH [OF Suc.prems(1) targets [OF that(1)] less [OF that(2)]] .
    qed
  qed
qed

lemma types_compatible_returns:
  assumes "plain_aliases c"
  shows "\<exists>b. types_compatible c expected actual = Some b"
proof -
  let ?texts = "{type_raw expected, type_raw actual} \<union> alias_texts c"
  define n where "n = Max (length ` ?texts)"
  have "finite (length ` ?texts)" using finite_alias_texts [OF assms] by simp
  then have "length s \<le> n" if "s \<in> ?texts" for s unfolding n_def using that by (intro Max_ge imageI)
  then have "?texts \<subseteq> short_texts n" unfolding short_texts_def by blast
  then have "compares c (One (type_raw expected) (type_raw actual)) {}"
    by (intro compares_texts [OF assms, of n _ _ _ "uncompared n {}"]) auto
  then show ?thesis by (auto simp: types_compatible_def elim: comparesE)
qed

section \<open>What a positive answer means\<close>

text \<open>
  The relation that the code decides in one direction: a type is compatible with itself, with a union
  that has a member it is compatible with, a union with what all its members are compatible with, and
  an alias with what its expansion is compatible with.
\<close>

inductive compatible :: "checker \<Rightarrow> string \<Rightarrow> string \<Rightarrow> bool" for c where
  same: "compatible c e e"
| member: "m \<in> set (union_members e) \<Longrightarrow> compatible c m a \<Longrightarrow> compatible c e a"
| members: "1 < length (union_members a) \<Longrightarrow> (\<And>m. m \<in> set (union_members a) \<Longrightarrow> compatible c e m) \<Longrightarrow> compatible c e a"
| expand_expected: "expand_alias c (TypeRef e) = Some t \<Longrightarrow> compatible c (type_raw t) a \<Longrightarrow> compatible c e a"
| expand_actual: "expand_alias c (TypeRef a) = Some t \<Longrightarrow> compatible c e (type_raw t) \<Longrightarrow> compatible c e a"

fun comparison_holds :: "checker \<Rightarrow> comparison \<Rightarrow> bool" where
  "comparison_holds c (One e a) = compatible c e a"
| "comparison_holds c (AnyOf es a) \<longleftrightarrow> (\<exists>e \<in> set es. compatible c e a)"
| "comparison_holds c (AllOf e as) \<longleftrightarrow> (\<forall>a \<in> set as. compatible c e a)"

lemma compatible_loop_sound:
  assumes "compatible_loop c cmp seen = Some r"
  shows "fst r \<longrightarrow> comparison_holds c cmp"
proof (rule compatible_loop.raw_induct [where P = "\<lambda>c cmp seen r. fst r \<longrightarrow> comparison_holds c cmp", OF _ assms])
  fix loop c cmp seen r
  assume IH: "\<And>c cmp seen r. loop c cmp seen = Some r \<Longrightarrow> fst r \<longrightarrow> comparison_holds c cmp"
    and run: "(case cmp of
        AnyOf es a \<Rightarrow>
          (case es of
             [] \<Rightarrow> Some (False, seen)
           | e # es' \<Rightarrow>
               do { (b, seen') \<leftarrow> loop c (One e a) seen;
                    if b then Some (True, seen') else loop c (AnyOf es' a) seen' })
      | AllOf e as \<Rightarrow>
          (case as of
             [] \<Rightarrow> Some (True, seen)
           | a # as' \<Rightarrow>
               do { (b, seen') \<leftarrow> loop c (One e a) seen;
                    if b then loop c (AllOf e as') seen' else Some (False, seen') })
      | One e a \<Rightarrow>
          (if e = a then Some (True, seen)
           else if (e, a) \<in> seen then Some (False, seen)
           else if 1 < length (union_members e)
           then loop c (AnyOf (union_members e) a) (insert (e, a) seen)
           else if 1 < length (union_members a)
           then loop c (AllOf e (union_members a)) (insert (e, a) seen)
           else
             do { (b, seen') \<leftarrow>
                    (case expand_alias c (TypeRef e) of
                       Some t \<Rightarrow> loop c (One (type_raw t) a) (insert (e, a) seen)
                     | None \<Rightarrow> Some (False, insert (e, a) seen));
                  if b then Some (True, seen')
                  else
                    (case expand_alias c (TypeRef a) of
                       Some t \<Rightarrow> loop c (One e (type_raw t)) seen'
                     | None \<Rightarrow> Some (False, seen')) })) = Some r"
  show "fst r \<longrightarrow> comparison_holds c cmp"
  proof (cases cmp)
    case (One e a)
    then show ?thesis
      using run
      by (auto simp del: One_nat_def split: if_splits option.splits bind_splits dest!: IH
            intro: compatible.same compatible.expand_expected compatible.member compatible.members)
        (blast intro: compatible.expand_actual)+
  next
    case (AnyOf es a)
    then show ?thesis
      using run by (cases es) (auto split: if_splits bind_splits dest!: IH)
  next
    case (AllOf e as)
    then show ?thesis
      using run by (cases as) (auto split: if_splits bind_splits dest!: IH)
  qed
qed

text \<open>C27: The comparison of types is sound: when the checker finds a type compatible with the expected
  one, then the two are related by equality, by a member of the expected union, by all the members of
  the actual union, and by the expansion of aliases on either side.\<close>

theorem types_compatible_sound:
  "types_compatible c expected actual = Some True \<Longrightarrow> compatible c (type_raw expected) (type_raw actual)"
  using compatible_loop_sound [of c "One (type_raw expected) (type_raw actual)" "{}"]
  by (auto simp: types_compatible_def)

definition aliased :: checker where
  "aliased = (empty_checker \<lparr>mod_name = None, mod_imports = [], mod_declarations = []\<rparr> 0)
     \<lparr>ck_aliases := [''U'' \<mapsto> \<lparr>alias_params = [], alias_target = TypeRef ''A | B'', alias_nominal = False\<rparr>]\<rparr>"

theorem types_compatible_sound_witness: "compatible aliased ''C | U'' ''B''"
proof -
  have "types_compatible aliased (TypeRef ''C | U'') (TypeRef ''B'') = Some True" by code_simp
  from types_compatible_sound [OF this] show ?thesis by simp
qed

text \<open>The converse does not hold: the expected union is taken apart first, so a union is not compatible
  with itself in another order, nor with its own alias.\<close>

lemma union_order_matters:
  "types_compatible aliased (TypeRef ''A | B'') (TypeRef ''B | A'') = Some False"
  "types_compatible aliased (TypeRef ''A | B'') (TypeRef ''U'') = Some False"
  by code_simp+

end
