(* ===== verification/Checker_Total.thy ===== *)
theory Checker_Total
  imports Compatible Semantic
begin

text \<open>
  The checker returns on every module whose aliases have no parameters. A call returns when all the
  calls that its definition makes return, so each operation has one lemma, and the lemmas of the
  operations it uses prove it; the loops over aliases are in \<open>Compatible\<close>.
\<close>

named_theorems returns \<open>when a run returns\<close>

definition returns :: "'a run \<Rightarrow> bool" where
  "returns r \<longleftrightarrow> r \<noteq> None"

section \<open>Combinators\<close>

lemma returns_Some [returns]: "returns (Some x)"
  by (simp add: returns_def)

lemma returns_bind [returns]: "returns r \<Longrightarrow> (\<And>x. r = Some x \<Longrightarrow> returns (f x)) \<Longrightarrow> returns (Option.bind r f)"
  by (cases r) (auto simp: returns_def)

lemma returns_map [returns]: "returns r \<Longrightarrow> returns (map_option f r)"
  by (simp add: returns_def)

lemma returns_if_some [returns]:
  "(r = Some None \<Longrightarrow> returns d) \<Longrightarrow> returns r \<Longrightarrow> (\<And>x. r = Some (Some x) \<Longrightarrow> returns (f x)) \<Longrightarrow> returns (if_some d r f)"
  by (cases r; cases "the r") (auto simp: returns_def)

lemma returns_orelse [returns]: "returns r \<Longrightarrow> (r = Some None \<Longrightarrow> returns s) \<Longrightarrow> returns (orelse r s)"
  by (cases r; cases "the r") (auto simp: returns_def)

lemma returns_run_all [returns]: "(\<And>r. r \<in> set rs \<Longrightarrow> returns r) \<Longrightarrow> returns (run_all rs)"
  by (induction rs) (auto intro!: returns)

lemma returns_combine_all [returns]: "(\<And>r. r \<in> set rs \<Longrightarrow> returns r) \<Longrightarrow> returns (combine_all acc rs)"
  by (induction rs arbitrary: acc) (auto intro!: returns)

lemma returns_first_answer [returns]: "(\<And>r. r \<in> set rs \<Longrightarrow> returns r) \<Longrightarrow> returns (first_answer rs)"
  by (induction rs) (auto intro!: returns)

lemma returns_any_run [returns]: "(\<And>r. r \<in> set rs \<Longrightarrow> returns r) \<Longrightarrow> returns (any_run rs)"
  by (induction rs) (auto intro!: returns)

lemma returns_all_run [returns]: "(\<And>r. r \<in> set rs \<Longrightarrow> returns r) \<Longrightarrow> returns (all_run rs)"
  by (induction rs) (auto intro!: returns)

lemma returns_if [returns]:
  "(b \<Longrightarrow> returns r) \<Longrightarrow> (\<not> b \<Longrightarrow> returns s) \<Longrightarrow> returns (if b then r else s)"
  by simp

lemma returns_case_option [returns]:
  "(x = None \<Longrightarrow> returns r) \<Longrightarrow> (\<And>y. x = Some y \<Longrightarrow> returns (f y)) \<Longrightarrow> returns (case x of None \<Rightarrow> r | Some y \<Rightarrow> f y)"
  by (cases x) auto

lemma returns_case_list [returns]:
  "(xs = [] \<Longrightarrow> returns r) \<Longrightarrow> (\<And>y ys. xs = y # ys \<Longrightarrow> returns (f y ys)) \<Longrightarrow>
     returns (case xs of [] \<Rightarrow> r | y # ys \<Rightarrow> f y ys)"
  by (cases xs) auto

lemma returns_case_prod [returns]: "(\<And>a b. p = (a, b) \<Longrightarrow> returns (f a b)) \<Longrightarrow> returns (case p of (a, b) \<Rightarrow> f a b)"
  by (cases p) auto

lemma returns_case_sum [returns]:
  "(\<And>a. s = Inl a \<Longrightarrow> returns (f a)) \<Longrightarrow> (\<And>b. s = Inr b \<Longrightarrow> returns (g b)) \<Longrightarrow>
     returns (case s of Inl a \<Rightarrow> f a | Inr b \<Rightarrow> g b)"
  by (cases s) auto

lemma returns_case_expr [returns]:
  assumes "\<And>x. v = EIdent x \<Longrightarrow> returns (f1 x)" "\<And>x. v = EString x \<Longrightarrow> returns (f2 x)"
    "\<And>x. v = EBool x \<Longrightarrow> returns (f3 x)" "\<And>x. v = EInt x \<Longrightarrow> returns (f4 x)"
    "\<And>x. v = EFloat x \<Longrightarrow> returns (f5 x)" "\<And>x. v = EObject x \<Longrightarrow> returns (f6 x)"
    "\<And>x y. v = EMember x y \<Longrightarrow> returns (f7 x y)" "\<And>x y. v = ECall x y \<Longrightarrow> returns (f8 x y)"
    "\<And>x. v = ETry x \<Longrightarrow> returns (f9 x)" "\<And>x y z. v = EBinary x y z \<Longrightarrow> returns (f10 x y z)"
    "\<And>x y. v = EQuantity x y \<Longrightarrow> returns (f11 x y)" "\<And>x. v = EAsync x \<Longrightarrow> returns (f12 x)"
    "\<And>x. v = EAwait x \<Longrightarrow> returns (f13 x)"
  shows "returns (case_expr f1 f2 f3 f4 f5 f6 f7 f8 f9 f10 f11 f12 f13 v)"
  using assms by (cases v) auto

lemma returns_case_match_pattern [returns]:
  assumes "\<And>x y z. v = Variant x y z \<Longrightarrow> returns (f1 x y z)" "v = Wildcard \<Longrightarrow> returns f2"
  shows "returns (case_match_pattern f1 f2 v)"
  using assms by (cases v) auto

lemma returns_case_match_payload [returns]:
  assumes "\<And>x. v = Binding x \<Longrightarrow> returns (f1 x)" "\<And>x y. v = Destructure x y \<Longrightarrow> returns (f2 x y)"
  shows "returns (case_match_payload f1 f2 v)"
  using assms by (cases v) auto

lemma returns_case_match_domain [returns]:
  assumes "\<And>x y. v = Domain_Enum x y \<Longrightarrow> returns (f1 x y)" "\<And>x. v = Domain_Union x \<Longrightarrow> returns (f2 x)"
  shows "returns (case_match_domain f1 f2 v)"
  using assms by (cases v) auto

lemma returns_case_option_constructor [returns]:
  assumes "v = Constructor_Some \<Longrightarrow> returns f1" "v = Constructor_None \<Longrightarrow> returns f2"
  shows "returns (case_option_constructor f1 f2 v)"
  using assms by (cases v) auto

lemma returns_case_result_constructor [returns]:
  assumes "v = Constructor_Ok \<Longrightarrow> returns f1" "v = Constructor_Err \<Longrightarrow> returns f2"
  shows "returns (case_result_constructor f1 f2 v)"
  using assms by (cases v) auto

lemma returns_both [returns]: "returns p \<Longrightarrow> returns q \<Longrightarrow> returns (both p q)"
  unfolding both_def by (intro returns)

lemma returns_map_seen [returns]: "(\<And>d x. returns (f d x)) \<Longrightarrow> returns (run_all (map_seen key f seen xs))"
  by (induction xs arbitrary: seen) (auto intro!: returns_bind returns_Some)

section \<open>The checker\<close>

text \<open>The aliases have no parameters, and there are finitely many structs.\<close>

definition total :: "checker \<Rightarrow> bool" where
  "total c \<longleftrightarrow> plain_aliases c \<and> finite (dom (ck_fields c))"

lemma resolve_returns [returns]: "total c \<Longrightarrow> returns (resolve_aliases c ty)"
  using resolve_aliases_returns by (auto simp: total_def returns_def)

lemma compatible_returns [returns]: "total c \<Longrightarrow> returns (types_compatible c expected actual)"
  using types_compatible_returns by (auto simp: total_def returns_def)

lemma total_contexts [simp]:
  "total (c\<lparr>ck_route := r\<rparr>) = total c" "total (c\<lparr>ck_tenant := t\<rparr>) = total c"
  by (simp_all add: total_def plain_aliases_def)

section \<open>Questions about types\<close>

lemma is_option_type_returns [returns]:
  "total c \<Longrightarrow> returns (is_option_type c ty)"
  by (auto simp: is_option_type_def Let_def intro!: returns)

lemma is_result_type_returns [returns]:
  "total c \<Longrightarrow> returns (is_result_type c ty)"
  by (auto simp: is_result_type_def Let_def intro!: returns)

lemma is_uncertain_type_returns [returns]:
  "total c \<Longrightarrow> returns (is_uncertain_type c ty)"
  by (auto simp: is_uncertain_type_def Let_def intro!: returns)

lemma is_task_type_returns [returns]:
  "total c \<Longrightarrow> returns (is_task_type c ty)"
  by (auto simp: is_task_type_def Let_def intro!: returns)

lemma is_secret_type_returns [returns]:
  "total c \<Longrightarrow> returns (is_secret_type c ty)"
  by (auto simp: is_secret_type_def Let_def intro!: returns)

lemma option_inner_type_returns [returns]:
  "total c \<Longrightarrow> returns (option_inner_type c ty)"
  by (auto simp: option_inner_type_def Let_def intro!: returns)

lemma task_inner_type_returns [returns]:
  "total c \<Longrightarrow> returns (task_inner_type c ty)"
  by (auto simp: task_inner_type_def Let_def intro!: returns)

lemma result_ok_type_returns [returns]:
  "total c \<Longrightarrow> returns (result_ok_type c ty)"
  by (auto simp: result_ok_type_def Let_def intro!: returns)

lemma result_err_type_returns [returns]:
  "total c \<Longrightarrow> returns (result_err_type c ty)"
  by (auto simp: result_err_type_def Let_def intro!: returns)

section \<open>Types of expressions\<close>

lemma member_type_of_returns [returns]:
  "total c \<Longrightarrow> returns (member_type_of c base fld)"
  by (auto simp: member_type_of_def Let_def intro!: returns)

lemma concrete_brand_alias_base_type_returns [returns]:
  "total c \<Longrightarrow> returns (concrete_brand_alias_base_type c name)"
  by (auto simp: concrete_brand_alias_base_type_def Let_def intro!: returns)

lemma applied_brand_base_returns [returns]:
  "total c \<Longrightarrow> returns (applied_brand_base c alias ty)"
  by (auto simp: applied_brand_base_def Let_def intro!: returns)

lemma branded_value_base_type_returns [returns]:
  "total c \<Longrightarrow> returns (branded_value_base_type c ty)"
  by (auto simp: branded_value_base_type_def Let_def intro!: returns)

lemma generic_brand_constructor_returns [returns]:
  "total c \<Longrightarrow> returns (generic_brand_constructor c name expected)"
  by (auto simp: generic_brand_constructor_def Let_def intro!: returns)

lemma resolve_brand_constructor_returns [returns]:
  "total c \<Longrightarrow> returns (resolve_brand_constructor c name expected)"
  by (auto simp: resolve_brand_constructor_def Let_def intro!: returns)

lemma brand_constructor_param_types_returns [returns]:
  "total c \<Longrightarrow> returns (brand_constructor_param_types c callee)"
  by (auto simp: brand_constructor_param_types_def Let_def intro!: returns)

lemma enum_variant_payload_returns [returns]:
  "total c \<Longrightarrow> returns (enum_variant_payload c ty variant)"
  by (auto simp: enum_variant_payload_def Let_def intro!: returns)

lemma enum_constructor_param_types_returns [returns]:
  "total c \<Longrightarrow> returns (enum_constructor_param_types c callee)"
  by (auto simp: enum_constructor_param_types_def Let_def intro!: returns)

lemma enum_constructor_result_type_returns [returns]:
  "total c \<Longrightarrow> returns (enum_constructor_result_type c e expected)"
  by (auto simp: enum_constructor_result_type_def Let_def intro!: returns)

lemma collection_call_type_returns [returns]:
  "total c \<Longrightarrow> (\<And>r. r \<in> set tys \<Longrightarrow> returns r) \<Longrightarrow> returns (collection_call_type callee tys)"
  by (auto simp: collection_call_type_def Let_def intro!: returns)

lemma money_helper_result_type_returns [returns]:
  "total c \<Longrightarrow> (\<And>r. r \<in> set tys \<Longrightarrow> returns r) \<Longrightarrow> returns (money_helper_result_type name args tys)"
  by (auto simp: money_helper_result_type_def Let_def intro!: returns)

lemma unbrand_result_type_returns [returns]:
  "total c \<Longrightarrow> (\<And>r. r \<in> set tys \<Longrightarrow> returns r) \<Longrightarrow> returns (unbrand_result_type c callee tys)"
  by (auto simp: unbrand_result_type_def Let_def intro!: returns)

lemma call_param_types_returns [returns]:
  "total c \<Longrightarrow> returns (call_param_types c callee)"
  by (auto simp: call_param_types_def Let_def intro!: returns)

lemma expr_type_returns [returns]:
  "total c \<Longrightarrow> returns (expr_type c env e)"
  by (induction rule: expr_type.induct) (auto simp: Let_def intro!: returns)

lemma infer_brand_constructor_from_arg_returns [returns]:
  "total c \<Longrightarrow> returns (infer_brand_constructor_from_arg c name arg env)"
  by (auto simp: infer_brand_constructor_from_arg_def Let_def intro!: returns)

lemma brand_constructor_result_type_in_context_returns [returns]:
  "total c \<Longrightarrow> returns (brand_constructor_result_type_in_context c e env expected)"
  by (auto simp: brand_constructor_result_type_in_context_def Let_def intro!: returns)

lemma expected_if_returns [returns]:
  "total c \<Longrightarrow> (\<And>t. returns (p c t)) \<Longrightarrow> returns (expected_if p c expected)"
  by (auto simp: expected_if_def Let_def intro!: returns)

lemma option_constructor_result_type_returns [returns]:
  "total c \<Longrightarrow> returns (option_constructor_result_type c e env expected)"
  by (auto simp: option_constructor_result_type_def Let_def intro!: returns)

lemma expr_type_in_context_returns [returns]:
  "total c \<Longrightarrow> returns (expr_type_in_context c env e expected)"
  by (auto simp: expr_type_in_context_def Let_def intro!: returns)

section \<open>Data flow\<close>

lemma intrinsic_type_labels_returns [returns]:
  "total c \<Longrightarrow> returns (intrinsic_type_labels c ty)"
  by (auto simp: intrinsic_type_labels_def Let_def intro!: returns)

lemma labels_for_declared_type_returns [returns]:
  "total c \<Longrightarrow> returns (labels_for_declared_type c ty explicit)"
  by (auto simp: labels_for_declared_type_def Let_def intro!: returns)

text \<open>The structs on the way down are distinct, and a list of fields gets shorter.\<close>

lemma type_ref_aggregate_fields:
  assumes "total c" and "\<And>ty. returns (type_ref_aggregate_labels c ty visited None None)"
  shows "returns (type_ref_aggregate_labels c ty visited (Some fs) acc)"
proof (induction fs arbitrary: acc)
  case Nil
  show ?case by (simp add: type_ref_aggregate_labels.simps returns_Some)
next
  case (Cons f fs)
  show ?case
    by (subst type_ref_aggregate_labels.simps) (simp, intro returns assms Cons.IH)
qed

lemma type_ref_aggregate_returns:
  assumes "total c"
  shows "card (dom (ck_fields c) - set visited) \<le> k \<Longrightarrow> returns (type_ref_aggregate_labels c ty visited None acc)"
proof (induction k arbitrary: ty visited acc)
  case 0
  then have "dom (ck_fields c) \<subseteq> set visited" using assms by (simp add: total_def)
  then have "type_base_name (type_raw ty) \<in> set visited \<or> ck_fields c (type_base_name (type_raw ty)) = None"
    by auto
  then show ?case
    by (subst type_ref_aggregate_labels.simps) (auto simp: Let_def intro!: returns assms)
next
  case (Suc k)
  let ?base = "type_base_name (type_raw ty)"
  have "returns (type_ref_aggregate_labels c ty (?base # visited) (Some fs) l)"
    if "?base \<notin> set visited" "ck_fields c ?base = Some gs" for fs gs l
  proof (rule type_ref_aggregate_fields [OF assms Suc.IH])
    have "card (dom (ck_fields c) - insert ?base (set visited)) < card (dom (ck_fields c) - set visited)"
      using that assms by (intro psubset_card_mono) (auto simp: total_def)
    then show "card (dom (ck_fields c) - set (?base # visited)) \<le> k" using Suc.prems by simp
  qed
  then show ?case
    by (subst type_ref_aggregate_labels.simps) (auto simp: Let_def intro!: returns assms)
qed

lemma aggregate_labels_returns [returns]:
  "total c \<Longrightarrow> returns (aggregate_labels c ty)"
  unfolding aggregate_labels_def by (rule type_ref_aggregate_returns [OF _ order_refl])

lemma binding_labels_returns [returns]:
  "total c \<Longrightarrow> returns (binding_labels c b)"
  by (auto simp: binding_labels_def Let_def intro!: returns)

lemma member_labels_of_returns [returns]:
  "total c \<Longrightarrow> returns obj_labels \<Longrightarrow> returns (member_labels_of c env obj fld obj_labels)"
  by (auto simp: member_labels_of_def Let_def intro!: returns)

lemma expr_labels_returns [returns]:
  "total c \<Longrightarrow> returns (expr_labels c env e)"
  by (induction rule: expr_labels.induct) (auto simp: Let_def intro!: returns)

lemma labels_for_let_returns [returns]:
  "total c \<Longrightarrow> returns (labels_for_let c explicit e env)"
  by (auto simp: labels_for_let_def Let_def intro!: returns)

lemma first_untrusted_expr_returns [returns]:
  "total c \<Longrightarrow> returns (first_untrusted_expr c env e)"
  by (induction rule: first_untrusted_expr.induct) (auto simp: Let_def intro!: returns)

lemma untrusted_ai_prompt_args_returns [returns]:
  "total c \<Longrightarrow> returns (untrusted_ai_prompt_args c raw call env)"
  by (auto simp: untrusted_ai_prompt_args_def Let_def intro!: returns)

lemma untrusted_call_args_returns [returns]:
  "total c \<Longrightarrow> returns (untrusted_call_args c raw call env sink)"
  by (auto simp: untrusted_call_args_def Let_def intro!: returns)

lemma trust_flow_call_returns [returns]:
  "total c \<Longrightarrow> returns (trust_flow_call c raw env call)"
  by (auto simp: trust_flow_call_def Let_def intro!: returns)

lemma trust_flow_returns [returns]:
  "total c \<Longrightarrow> returns (trust_flow c raw e env)"
  by (auto simp: trust_flow_def Let_def intro!: returns)

lemma trust_assignment_returns [returns]:
  "total c \<Longrightarrow> returns (trust_assignment c s e env)"
  by (auto simp: trust_assignment_def Let_def intro!: returns)

lemma privacy_arg_returns [returns]:
  "total c \<Longrightarrow> returns (privacy_arg c raw env call targets arg)"
  by (auto simp: privacy_arg_def Let_def intro!: returns)

lemma external_privacy_returns [returns]:
  "total c \<Longrightarrow> returns (external_privacy c raw e env)"
  by (auto simp: external_privacy_def Let_def intro!: returns)

lemma checked_member_returns [returns]:
  "total c \<Longrightarrow> (\<And>t. returns (p c t)) \<Longrightarrow> returns (checked_member p table c env e)"
  by (auto simp: checked_member_def Let_def intro!: returns)

lemma option_check_member_returns [returns]:
  "total c \<Longrightarrow> returns (option_check_member c env e)"
  by (auto simp: option_check_member_def Let_def intro!: returns)

lemma result_check_member_returns [returns]:
  "total c \<Longrightarrow> returns (result_check_member c env e)"
  by (auto simp: result_check_member_def Let_def intro!: returns)

lemma checks_implied_by_returns [returns]:
  "(\<And>e. returns (member e)) \<Longrightarrow> returns (checks_implied_by member invert truth e)"
  by (induction member invert truth e rule: checks_implied_by.induct)
    (subst checks_implied_by.simps, auto simp del: checks_implied_by.simps intro!: returns)

lemma option_checks_implied_by_returns [returns]:
  "total c \<Longrightarrow> returns (option_checks_implied_by c env truth e)"
  by (auto simp: option_checks_implied_by_def Let_def intro!: returns)

lemma result_checks_implied_by_returns [returns]:
  "total c \<Longrightarrow> returns (result_checks_implied_by c env truth e)"
  by (auto simp: result_checks_implied_by_def Let_def intro!: returns)

lemma checked_option_bindings_returns [returns]:
  "total c \<Longrightarrow> returns (checked_option_bindings c truth cond env)"
  by (auto simp: checked_option_bindings_def Let_def intro!: returns)

lemma checked_result_bindings_returns [returns]:
  "total c \<Longrightarrow> returns (checked_result_bindings c truth cond env)"
  by (auto simp: checked_result_bindings_def Let_def intro!: returns)

lemma apply_condition_checks_returns [returns]:
  "total c \<Longrightarrow> returns (apply_condition_checks c truth cond env)"
  by (auto simp: apply_condition_checks_def Let_def intro!: returns)

section \<open>Calls\<close>

lemma check_arg_returns [returns]:
  "total c \<Longrightarrow> returns (check_arg c env arg expected mismatch)"
  by (auto simp: check_arg_def Let_def intro!: returns)

lemma check_args_returns [returns]:
  "total c \<Longrightarrow> returns (check_args c env mismatch i args tys)"
  by (induction rule: check_args.induct) (auto simp: Let_def intro!: returns)

lemma check_params_returns [returns]:
  "total c \<Longrightarrow> returns (check_params c env mismatch args params)"
  by (auto simp: check_params_def Let_def intro!: returns)

lemma connector_call_check_returns [returns]:
  "total c \<Longrightarrow> returns (connector_call_check c raw env call)"
  by (auto simp: connector_call_check_def Let_def intro!: returns)

lemma connector_call_checks_returns [returns]:
  "total c \<Longrightarrow> returns (connector_call_checks c raw e env)"
  by (auto simp: connector_call_checks_def Let_def intro!: returns)

lemma scalar_validator_call_returns [returns]:
  "total c \<Longrightarrow> returns (scalar_validator_call c raw name args env)"
  by (auto simp: scalar_validator_call_def Let_def intro!: returns)

lemma hash_helper_call_returns [returns]:
  "total c \<Longrightarrow> returns (hash_helper_call c raw name args env)"
  by (auto simp: hash_helper_call_def Let_def intro!: returns)

lemma one_arg_helper_call_returns [returns]:
  "total c \<Longrightarrow> returns (one_arg_helper_call c raw name args env word expected arity_reason mismatch_reason mismatch_help literal)"
  by (auto simp: one_arg_helper_call_def Let_def intro!: returns)

lemma bytes_xml_helper_call_returns [returns]:
  "total c \<Longrightarrow> returns (bytes_xml_helper_call c raw name args env)"
  by (auto simp: bytes_xml_helper_call_def Let_def intro!: returns)

lemma datetime_duration_call_returns [returns]:
  "total c \<Longrightarrow> returns (datetime_duration_call c raw name args env)"
  by (auto simp: datetime_duration_call_def Let_def intro!: returns)

lemma decimal_helper_call_returns [returns]:
  "total c \<Longrightarrow> returns (decimal_helper_call c raw name args env)"
  by (auto simp: decimal_helper_call_def Let_def intro!: returns)

lemma document_helper_call_returns [returns]:
  "total c \<Longrightarrow> returns (document_helper_call c raw name args env)"
  by (auto simp: document_helper_call_def Let_def intro!: returns)

lemma collection_params_returns [returns]:
  "total c \<Longrightarrow> returns (collection_params c env args base arity further)"
  by (auto simp: collection_params_def Let_def intro!: returns)

lemma collection_helper_param_types_returns [returns]:
  "total c \<Longrightarrow> returns (collection_helper_param_types c env name args)"
  by (auto simp: collection_helper_param_types_def Let_def intro!: returns)

lemma collection_helper_call_returns [returns]:
  "total c \<Longrightarrow> returns (collection_helper_call c raw name args env)"
  by (auto simp: collection_helper_call_def Let_def intro!: returns)

lemma money_helper_param_types_returns [returns]:
  "total c \<Longrightarrow> returns (money_helper_param_types c env name args)"
  by (auto simp: money_helper_param_types_def Let_def intro!: returns)

lemma money_helper_call_returns [returns]:
  "total c \<Longrightarrow> returns (money_helper_call c raw name args env)"
  by (auto simp: money_helper_call_def Let_def intro!: returns)

lemma declared_call_returns [returns]:
  "total c \<Longrightarrow> returns (declared_call c raw name args env)"
  by (auto simp: declared_call_def Let_def intro!: returns)

lemma direct_call_check_returns [returns]:
  "total c \<Longrightarrow> returns (direct_call_check c raw env call)"
  by (auto simp: direct_call_check_def Let_def intro!: returns)

lemma direct_call_returns [returns]:
  "total c \<Longrightarrow> returns (direct_call c raw e env)"
  by (auto simp: direct_call_def Let_def intro!: returns)

lemma check_method_call_returns [returns]:
  "total c \<Longrightarrow> returns (check_method_call c raw base meth args env)"
  by (auto simp: check_method_call_def Let_def intro!: returns)

lemma check_method_calls_returns [returns]:
  "total c \<Longrightarrow> returns (check_method_calls c raw env e)"
  by (induction rule: check_method_calls.induct) (auto simp: Let_def intro!: returns)

section \<open>Constructors, operators, members\<close>

lemma brand_constructor_call_returns [returns]:
  "total c \<Longrightarrow> returns (brand_constructor_call c raw name args env expected)"
  by (auto simp: brand_constructor_call_def Let_def intro!: returns)

lemma unbrand_call_returns [returns]:
  "total c \<Longrightarrow> returns (unbrand_call c raw args env)"
  by (auto simp: unbrand_call_def Let_def intro!: returns)

lemma brand_constructor_returns [returns]:
  "total c \<Longrightarrow> returns (brand_constructor c raw env expected e)"
  by (induction rule: brand_constructor.induct) (auto simp: Let_def intro!: returns)

lemma enum_constructor_call_returns [returns]:
  "total c \<Longrightarrow> (\<And>a w ty. (a, w) \<in> set args \<Longrightarrow> returns (w ty)) \<Longrightarrow> returns (enum_constructor_call c raw variant args env expected)"
  by (auto simp: enum_constructor_call_def Let_def intro!: returns)

lemma enum_constructor_returns [returns]:
  "total c \<Longrightarrow> returns (enum_constructor c raw env expected e)"
  by (induction rule: enum_constructor.induct) (auto simp: Let_def intro!: returns)

lemma none_constructor_returns [returns]:
  "total c \<Longrightarrow> returns (none_constructor c raw expected)"
  by (auto simp: none_constructor_def Let_def intro!: returns)

lemma some_constructor_returns [returns]:
  "total c \<Longrightarrow> (\<And>a w ty. (a, w) \<in> set args \<Longrightarrow> returns (w ty)) \<Longrightarrow> returns (some_constructor c raw args env expected)"
  by (auto simp: some_constructor_def Let_def intro!: returns)

lemma option_constructor_call_returns [returns]:
  "total c \<Longrightarrow> (\<And>a w ty. (a, w) \<in> set args \<Longrightarrow> returns (w ty)) \<Longrightarrow> returns (option_constructor_call c raw constructor args env expected)"
  by (auto simp: option_constructor_call_def Let_def intro!: returns)

lemma option_constructor_returns [returns]:
  "total c \<Longrightarrow> returns (option_constructor c raw env expected e)"
  by (induction rule: option_constructor.induct) (auto simp: Let_def intro!: returns)

lemma result_constructor_payload_returns [returns]:
  "total c \<Longrightarrow> returns (result_constructor_payload c raw constructor arg env expected)"
  by (auto simp: result_constructor_payload_def Let_def intro!: returns)

lemma ok_constructor_returns [returns]:
  "total c \<Longrightarrow> (\<And>a w ty. (a, w) \<in> set args \<Longrightarrow> returns (w ty)) \<Longrightarrow> returns (ok_constructor c raw args env expected)"
  by (auto simp: ok_constructor_def Let_def intro!: returns) blast

lemma err_constructor_returns [returns]:
  "total c \<Longrightarrow> (\<And>a w ty. (a, w) \<in> set args \<Longrightarrow> returns (w ty)) \<Longrightarrow> returns (err_constructor c raw args env expected)"
  by (auto simp: err_constructor_def Let_def intro!: returns)

lemma result_constructor_call_returns [returns]:
  "total c \<Longrightarrow> (\<And>a w ty. (a, w) \<in> set args \<Longrightarrow> returns (w ty)) \<Longrightarrow> returns (result_constructor_call c raw constructor args env expected)"
  by (auto simp: result_constructor_call_def Let_def intro!: returns)

lemma result_constructor_returns [returns]:
  "total c \<Longrightarrow> returns (result_constructor c raw env expected e)"
  by (induction rule: result_constructor.induct) (auto simp: Let_def intro!: returns)

lemma try_operator_returns [returns]:
  "total c \<Longrightarrow> returns (try_operator c raw expected_return inner_ty)"
  by (auto simp: try_operator_def Let_def intro!: returns)

lemma try_expr_returns [returns]:
  "total c \<Longrightarrow> returns (try_expr c raw env expected e)"
  by (induction rule: try_expr.induct) (auto simp: Let_def intro!: returns)

lemma async_expr_returns [returns]:
  "total c \<Longrightarrow> returns (async_expr c raw env e)"
  by (induction rule: async_expr.induct) (auto simp: Let_def intro!: returns)

lemma binary_types_returns [returns]:
  "total c \<Longrightarrow> returns (binary_types c raw op l r)"
  by (auto simp: binary_types_def Let_def intro!: returns)

lemma binary_operands_returns [returns]:
  "total c \<Longrightarrow> returns (binary_operands c raw op l r env)"
  by (auto simp: binary_operands_def Let_def intro!: returns)

lemma binary_expr_returns [returns]:
  "total c \<Longrightarrow> returns (binary_expr c raw env e)"
  by (induction rule: binary_expr.induct) (auto simp: Let_def intro!: returns)

lemma member_field_returns [returns]:
  "total c \<Longrightarrow> returns (member_field c raw env obj fld base)"
  by (auto simp: member_field_def Let_def intro!: returns)

lemma field_access_returns [returns]:
  "total c \<Longrightarrow> returns (field_access c raw env e)"
  by (induction rule: field_access.induct) (auto simp: Let_def intro!: returns)

lemma parsed_checks_returns [returns]:
  "total c \<Longrightarrow> returns (parsed_checks c raw e env granted expected_return expected_expr)"
  by (auto simp: parsed_checks_def Let_def intro!: returns)

lemma check_expr_returns [returns]:
  "total c \<Longrightarrow> returns (check_expr c raw env granted expected_return expected_expr)"
  by (auto simp: check_expr_def Let_def intro!: returns)

section \<open>Endings and patterns\<close>

lemma match_domain_of_returns [returns]:
  "total c \<Longrightarrow> returns (match_domain_of c ty)"
  by (auto simp: match_domain_of_def Let_def intro!: returns)

lemma match_type_returns [returns]:
  "total c \<Longrightarrow> returns (match_type c env raw)"
  by (auto simp: match_type_def Let_def intro!: returns)

lemma match_is_exhaustive_returns [returns]:
  "total c \<Longrightarrow> returns (match_is_exhaustive c env raw arms)"
  by (auto simp: match_is_exhaustive_def Let_def intro!: returns)

lemma always_terminates_returns [returns]:
  "total c \<Longrightarrow> returns (stmt_always_terminates c env s)"
  "total c \<Longrightarrow> returns (arm_always_terminates c env arm)"
  by (induction c env s and c env arm rule: stmt_always_terminates_arm_always_terminates.induct)
    (auto intro!: returns)

lemma all_paths_terminate_returns [returns]:
  "total c \<Longrightarrow> returns (all_paths_terminate c env body)"
  by (auto simp: all_paths_terminate_def Let_def intro!: returns)

lemma validate_enum_payload_pattern_returns [returns]:
  "total c \<Longrightarrow> returns (validate_enum_payload_pattern c sp variant payload domain)"
  by (auto simp: validate_enum_payload_pattern_def Let_def intro!: returns)

lemma validate_arm_destructuring_returns [returns]:
  "total c \<Longrightarrow> returns (validate_arm_destructuring c domain arm)"
  by (induction rule: validate_arm_destructuring.induct) (auto simp: Let_def intro!: returns)

lemma typed_binding_returns [returns]:
  "total c \<Longrightarrow> returns (typed_binding c ty l)"
  by (auto simp: typed_binding_def Let_def intro!: returns)

lemma bind_match_returns [returns]:
  "total c \<Longrightarrow> returns (bind_match_binding c ty b env)"
  "total c \<Longrightarrow> returns (bind_match_bindings c ty bs env)"
  by (induction c ty b env and c ty bs env rule: bind_match_binding_bind_match_bindings.induct)
    (auto intro!: returns)

lemma bind_match_destructuring_returns [returns]:
  "total c \<Longrightarrow> returns (bind_match_destructuring c domain pattern env)"
  by (auto simp: bind_match_destructuring_def Let_def intro!: returns)

lemma match_guard_check_returns [returns]:
  "total c \<Longrightarrow> returns (match_guard_check c env granted ret guard)"
  by (auto simp: match_guard_check_def Let_def intro!: returns)

lemma match_head_returns [returns]:
  "total c \<Longrightarrow> returns (match_head c env granted ret raw arms sp)"
  by (auto simp: match_head_def Let_def intro!: returns)

lemma match_arm_env_returns [returns]:
  "total c \<Longrightarrow> returns (match_arm_env c domain parsed pattern env)"
  by (auto simp: match_arm_env_def Let_def intro!: returns)

section \<open>Statements\<close>

lemma unless_compatible_returns [returns]:
  "total c \<Longrightarrow> returns (unless_compatible c expected actual mismatch)"
  by (auto simp: unless_compatible_def Let_def intro!: returns)

lemma parsed_type_returns [returns]:
  "total c \<Longrightarrow> returns (parsed_type c env raw expected)"
  by (auto simp: parsed_type_def Let_def intro!: returns)

lemma type_holds_returns [returns]:
  "total c \<Longrightarrow> (\<And>t. returns (p c t)) \<Longrightarrow> returns (type_holds p c ty)"
  by (auto simp: type_holds_def Let_def intro!: returns)

lemma let_binding_labels_returns [returns]:
  "total c \<Longrightarrow> returns (let_binding_labels c s env)"
  by (auto simp: let_binding_labels_def Let_def intro!: returns)

lemma let_check_returns [returns]:
  "total c \<Longrightarrow> returns (let_check c s env granted ret)"
  by (auto simp: let_check_def Let_def intro!: returns)

lemma assign_check_returns [returns]:
  "total c \<Longrightarrow> returns (assign_check c s env granted ret)"
  by (auto simp: assign_check_def Let_def intro!: returns)

lemma expr_stmt_check_returns [returns]:
  "total c \<Longrightarrow> returns (expr_stmt_check c raw env granted ret)"
  by (auto simp: expr_stmt_check_def Let_def intro!: returns)

lemma return_check_returns [returns]:
  "total c \<Longrightarrow> returns (return_check c raw env granted ret)"
  by (auto simp: return_check_def Let_def intro!: returns)

lemma on_parsed_returns [returns]:
  "total c \<Longrightarrow> (\<And>e. returns (f e)) \<Longrightarrow> returns (on_parsed raw f)"
  by (auto simp: on_parsed_def Let_def intro!: returns)

lemma assert_check_returns [returns]:
  "total c \<Longrightarrow> returns (assert_check c s env granted ret)"
  by (auto simp: assert_check_def Let_def intro!: returns)

lemma expect_workflow_check_returns [returns]:
  "total c \<Longrightarrow> returns (expect_workflow_check c s env granted ret kd)"
  by (auto simp: expect_workflow_check_def Let_def intro!: returns)

lemma expect_audit_check_returns [returns]:
  "total c \<Longrightarrow> returns (expect_audit_check c s env granted ret kd)"
  by (auto simp: expect_audit_check_def Let_def intro!: returns)

lemma mock_ai_values_returns [returns]:
  "total c \<Longrightarrow> returns (mock_ai_values c s env resolved)"
  by (auto simp: mock_ai_values_def Let_def intro!: returns)

lemma mock_ai_target_returns [returns]:
  "total c \<Longrightarrow> returns (mock_ai_target c s env call)"
  by (auto simp: mock_ai_target_def Let_def intro!: returns)

lemma mock_ai_check_returns [returns]:
  "total c \<Longrightarrow> returns (mock_ai_check c s env granted ret kd)"
  by (auto simp: mock_ai_check_def Let_def intro!: returns)

lemma scan_reason_check_returns [returns]:
  "total c \<Longrightarrow> returns (scan_reason_check c s env granted ret)"
  by (auto simp: scan_reason_check_def Let_def intro!: returns)

lemma mock_ai_scan_check_returns [returns]:
  "total c \<Longrightarrow> returns (mock_ai_scan_check c s env granted ret kd)"
  by (auto simp: mock_ai_scan_check_def Let_def intro!: returns)

lemma connector_mock_target_returns [returns]:
  "total c \<Longrightarrow> returns (connector_mock_target c s env call)"
  by (auto simp: connector_mock_target_def Let_def intro!: returns)

lemma mock_connector_check_returns [returns]:
  "total c \<Longrightarrow> returns (mock_connector_check c s env granted ret kd)"
  by (auto simp: mock_connector_check_def Let_def intro!: returns)

lemma branch_env_returns [returns]:
  "total c \<Longrightarrow> returns (branch_env c truth cond env)"
  by (auto simp: branch_env_def Let_def intro!: returns)

lemma after_if_returns [returns]:
  "total c \<Longrightarrow> returns (after_if c cond then_body else_body env)"
  by (auto simp: after_if_def Let_def intro!: returns)

lemma unchanged_returns [returns]:
  "total c \<Longrightarrow> returns r \<Longrightarrow> returns (unchanged env granted r)"
  by (auto simp: unchanged_def Let_def intro!: returns)

lemma changed_env_returns [returns]:
  "total c \<Longrightarrow> returns r \<Longrightarrow> returns (changed_env granted r)"
  by (auto simp: changed_env_def Let_def intro!: returns)

lemma check_stmts_returns [returns]:
  "total c \<Longrightarrow> returns (check_stmt c ret kd s st)"
  "total c \<Longrightarrow> returns (check_stmts c ret kd ss st)"
  "total c \<Longrightarrow> returns (check_arms c ret kd domain parsed arms st)"
  by (induction c ret kd s st and c ret kd ss st and c ret kd domain parsed arms st
      rule: check_stmt_check_stmts_check_arms.induct)
    (auto intro!: returns)

section \<open>Declarations\<close>

lemma bind_param_returns [returns]:
  "total c \<Longrightarrow> returns (bind_param c p env)"
  by (auto simp: bind_param_def Let_def intro!: returns)

lemma bind_params_returns [returns]:
  "total c \<Longrightarrow> returns (bind_params c ps env)"
  by (induction rule: bind_params.induct) (auto simp: Let_def intro!: returns)

lemma body_from_returns [returns]:
  "total c \<Longrightarrow> returns (body_from c env0 body params declared ret sp kd)"
  by (auto simp: body_from_def Let_def intro!: returns)

lemma body_check_returns [returns]:
  "total c \<Longrightarrow> returns (body_check c body params declared ret sp kd)"
  by (auto simp: body_check_def Let_def intro!: returns)

lemma method_body_check_returns [returns]:
  "total c \<Longrightarrow> returns (method_body_check c target body params declared ret sp)"
  by (auto simp: method_body_check_def Let_def intro!: returns)

lemma callable_check_returns [returns]:
  "total c \<Longrightarrow> returns (callable_check c f)"
  by (auto simp: callable_check_def Let_def intro!: returns)

lemma action_check_returns [returns]:
  "total c \<Longrightarrow> returns (action_check c a)"
  by (auto simp: action_check_def Let_def intro!: returns)

lemma service_route_check_returns [returns]:
  "total c \<Longrightarrow> returns (service_route_check c r)"
  by (auto simp: service_route_check_def Let_def intro!: returns)

lemma service_check_returns [returns]:
  "total c \<Longrightarrow> returns (service_check c s)"
  by (auto simp: service_check_def Let_def intro!: returns)

lemma method_check_returns [returns]:
  "total c \<Longrightarrow> returns (method_check c target m)"
  by (auto simp: method_check_def Let_def intro!: returns)

lemma impl_check_returns [returns]:
  "total c \<Longrightarrow> returns (impl_check c i)"
  by (auto simp: impl_check_def Let_def intro!: returns)

lemma test_check_returns [returns]:
  "total c \<Longrightarrow> returns (test_check c t)"
  by (auto simp: test_check_def Let_def intro!: returns)

lemma declaration_check_returns [returns]:
  "total c \<Longrightarrow> returns (declaration_check c d)"
  by (induction rule: declaration_check.induct) (auto simp: Let_def intro!: returns)

lemma checker_run_returns [returns]:
  "total c \<Longrightarrow> returns (checker_run c)"
  by (auto simp: checker_run_def Let_def intro!: returns)

section \<open>New checkers\<close>

text \<open>No alias of the module that is expanded has parameters: those of brands are not expanded.\<close>

definition plain_type :: "top_decl \<Rightarrow> bool" where
  "plain_type d \<longleftrightarrow>
     (case d of
        Type_Decl t \<Rightarrow>
          (case type_body t of
             Struct_Body _ \<Rightarrow> True
           | Alias_Body target \<Rightarrow> is_brand_type target \<or> type_generic_params t = [])
      | _ \<Rightarrow> True)"

definition plain_module :: "module_ast \<Rightarrow> bool" where
  "plain_module md \<longleftrightarrow> list_all plain_type (mod_declarations md)"

lemma total_unchanged:
  "ck_aliases c' = ck_aliases c \<Longrightarrow> ck_fields c' = ck_fields c \<Longrightarrow> total c' = total c"
  by (simp add: total_def plain_aliases_def)

lemma fold_add_method [simp]:
  "ck_aliases (fold (add_method target) ms c) = ck_aliases c" "ck_fields (fold (add_method target) ms c) = ck_fields c"
  by (induction ms arbitrary: c) (simp_all add: add_method_def)

lemma total_add:
  assumes "total c" and "plain_type d"
  shows "total (add_declaration d c)"
proof (cases "\<exists>t. d = Type_Decl t")
  case True
  then obtain t where "d = Type_Decl t" by blast
  then show ?thesis
    using assms
    by (cases "type_body t")
      (auto simp: total_def plain_aliases_def add_type_def Let_def plain_type_def ran_def)
next
  case False
  then have "ck_aliases (add_declaration d c) = ck_aliases c \<and> ck_fields (add_declaration d c) = ck_fields c"
    by (cases d) auto
  then show ?thesis using assms(1) total_unchanged by blast
qed

lemma total_new_checker: "plain_module md \<Longrightarrow> total (new_checker md n)"
proof -
  have "total (fold add_declaration ds c)" if "total c" "list_all plain_type ds" for ds c
    using that by (induction ds arbitrary: c) (auto intro: total_add)
  moreover have "total (empty_checker md n)" by (simp add: total_def plain_aliases_def empty_checker_def)
  ultimately show "plain_module md \<Longrightarrow> ?thesis" by (simp add: new_checker_def plain_module_def)
qed

lemma check_declarations_from_returns [returns]: "plain_module md \<Longrightarrow> returns (check_declarations_from md n)"
  unfolding check_declarations_from_def by (intro returns total_new_checker)

lemma check_module_returns [returns]: "plain_module md \<Longrightarrow> returns (check_module md)"
  unfolding check_module_def by (intro returns)

lemma check_service_route_for_tenant_returns [returns]:
  "plain_module md \<Longrightarrow> returns (check_service_route_for_tenant md service meth path tenant)"
  using total_new_checker [of md 0]
  by (auto simp: check_service_route_for_tenant_def with_policy_tenant_def with_policy_route_def intro!: returns)

end
