(* ===== verification/Compile_Spec.thy ===== *)
theory Compile_Spec
  imports Checker_Total Compile
begin

text \<open>
  The compiler returns: on every program of which no module declares an alias with parameters. The
  example shows why the aliases are the condition: with a parameter, an alias can grow for ever.
\<close>

section \<open>The declarations a module sees\<close>

lemma visible_module_plain:
  assumes "list_all (\<lambda>(name, u). plain_module (unit_module u)) index" and "plain_module (unit_module u)"
  shows "\<exists>md n ds. visible_module index u = Some (md, n, ds) \<and> plain_module md"
proof -
  let ?st = "\<lparr>im_visited = {}, im_resolving = {}, im_diagnostics = [], im_declarations = []\<rparr>"
  have "unvisited index ?st \<le> length index" by (simp add: unvisited_def)
  then obtain st ps qs where run: "collect_all (length index) index (unit_imports u) ?st = Some st"
    and c: "collected index (unit_imports u) ?st st ps qs"
    using collect_terminates(2) [of index ?st "length index" "unit_imports u"] by auto
  have "list_all plain_type (unit_declarations (the (map_of index p)))" if p: "p \<in> set ps" for p
  proof -
    obtain v where "map_of index p = Some v" using collectedD(4) [OF c] p by blast
    then show ?thesis
      using assms(1) map_of_SomeD [of index p v] by (fastforce simp: list_all_iff plain_module_def unit_declarations_def)
  qed
  then have "list_all plain_type (im_declarations st)"
    using collectedD(9) [OF c] by (simp add: list_all_iff)
  then show ?thesis using run assms(2) by (auto simp: visible_module_def plain_module_def unit_declarations_def)
qed

lemma index_units: "list_all P us \<Longrightarrow> list_all (\<lambda>(name, u). P u) (fst (module_index us))"
proof (induction us rule: rev_induct)
  case Nil
  then show ?case by (simp add: module_index_def)
next
  case (snoc u us)
  then show ?case
    by (auto simp: module_index_snoc index_unit_def split: option.split prod.split)
qed

lemma check_units_return:
  assumes "list_all (\<lambda>u. plain_module (unit_module u)) us"
  shows "returns (check_units us (fst (module_index us)))"
  unfolding check_units_def
proof (rule returns_run_all)
  fix r assume "r \<in> set (map (check_unit (fst (module_index us))) us)"
  then obtain u where u: "u \<in> set us" "r = check_unit (fst (module_index us)) u" by auto
  obtain md n ds where md: "visible_module (fst (module_index us)) u = Some (md, n, ds)" "plain_module md"
    using visible_module_plain [OF index_units [OF assms]] assms u(1) by (fastforce simp: list_all_iff)
  then show "returns r"
    using check_declarations_from_returns [of md n] by (auto simp: u(2) check_unit_def intro!: returns)
qed

text \<open>C8: The compiler always returns, with a module, its lowered form and its diagnostics, when no
  module of the program declares an alias with parameters: neither imports nor aliases that refer to
  each other in a circle make it run for ever, whatever the sources contain.\<close>

theorem compile_program_returns:
  assumes "list_all (\<lambda>u. plain_module (unit_module u)) (fst (parse_files files))"
  shows "\<exists>r. compile_program files entry = Some r \<and> program_modules r = fst (parse_files files)"
proof -
  obtain us parse_ds where us: "parse_files files = (us, parse_ds)" by fastforce
  obtain index index_ds where index: "module_index us = (index, index_ds)" by fastforce
  have plain: "list_all (\<lambda>u. plain_module (unit_module u)) us" using assms us by simp
  obtain ds where ds: "check_parsed (us, parse_ds) = Some ds"
    using check_units_return [OF plain] by (auto simp: check_parsed_def index returns_def)
  have "\<exists>md. visible_module index u = Some md" if "entry_unit us entry = Some u" for u
  proof -
    have "u \<in> set us" using that by (auto simp: entry_unit_def find_Some_iff split: option.splits list.splits)
    then show ?thesis
      using visible_module_plain [OF index_units [OF plain]] plain index by (fastforce simp: list_all_iff)
  qed
  then show ?thesis
    using ds by (cases "entry_unit us entry") (auto simp: compile_program_def us index)
qed

section \<open>An alias that grows\<close>

text \<open>\<open>type A<T> = A<T-T>\<close>: each expansion doubles the argument.\<close>

definition growing_alias :: alias_entry where
  "growing_alias = \<lparr>alias_params = [''T''], alias_target = TypeRef ''A<T-T>'', alias_nominal = False\<rparr>"

abbreviation applied :: "string \<Rightarrow> string" where
  "applied s \<equiv> ''A<'' @ s @ ''>''"

abbreviation plain_text :: "string \<Rightarrow> bool" where
  "plain_text s \<equiv> set s \<subseteq> {CHR ''x'', CHR ''-''}"

lemma plain_text_ascii: "plain_text s \<Longrightarrow> list_all is_ascii s"
  by (auto simp: list_all_iff ascii_defs byte_def)

lemma chars_applied: "plain_text s \<Longrightarrow> chars (applied s) = map (\<lambda>c. [c]) (applied s)"
  by (rule chars_ascii) (use plain_text_ascii [of s] in \<open>simp add: ascii_defs byte_def\<close>)

lemma trim_applied:
  assumes "plain_text s"
  shows "trim s = s" "trim (applied s) = applied s"
proof -
  have w: "\<not> is_whitespace [c]" if "c \<in> {CHR ''x'', CHR ''-'', CHR ''A'', CHR ''<'', CHR ''>''}" for c
    using that by (auto simp: is_whitespace_def byte_def)
  show "trim s = s" using assms w by (intro trim_no_ws plain_text_ascii) auto
  show "trim (applied s) = applied s"
    using assms w plain_text_ascii [OF assms] by (intro trim_no_ws) (auto simp: ascii_defs byte_def)
qed

lemma args_plain: "plain_text s \<Longrightarrow> args_loop 0 cur (map (\<lambda>c. [c]) s) = nonblank (cur @ s)"
  by (induction s arbitrary: cur) auto

lemma generic_args_applied:
  assumes "plain_text s" and "s \<noteq> []"
  shows "generic_args (applied s) = [s]"
proof -
  have "takeWhile (\<lambda>c. c \<noteq> CHR ''<'') (applied s) = ''A''" by simp
  moreover have "takeWhile (\<lambda>c. c \<noteq> CHR ''>'') (rev (applied s)) = []" by simp
  moreover have "chars s = map (\<lambda>c. [c]) s" by (rule chars_ascii [OF plain_text_ascii [OF assms(1)]])
  ultimately show ?thesis
    using assms args_plain [OF assms(1), of "[]"] trim_applied(1) [OF assms(1)]
    by (simp add: generic_args_def Let_def nonblank_def numeral_2_eq_2)
qed

lemma expand_growing:
  assumes "ck_aliases c ''A'' = Some growing_alias" and "plain_text s" and "s \<noteq> []"
  shows "expand_alias c (TypeRef (applied s)) = Some (TypeRef (applied (s @ ''-'' @ s)))"
proof -
  have trim_A: "trim ''A'' = ''A''" by code_simp
  have "type_base_name (applied s) = ''A''"
    using trim_applied(2) [OF assms(2)] trim_A by (simp add: type_base_name_def split_once_def)
  moreover have "substitute_loop [(''T'', s)] (chars ''A<T-T>'') = applied (s @ ''-'' @ s)"
    by (simp add: chars_ascii ascii_defs byte_def type_ident_start_def type_ident_continue_def one_byte_def)
  ultimately show ?thesis
    using assms generic_args_applied [OF assms(2,3)]
    by (simp add: expand_alias_def growing_alias_def substitute_type_params_def type_param_substitutions_def)
qed

lemma growing_loop:
  assumes "resolve_loop c seen ty = Some r"
  shows "ck_aliases c ''A'' = Some growing_alias \<longrightarrow>
      (\<forall>s. plain_text s \<longrightarrow> s \<noteq> [] \<longrightarrow> ty = TypeRef (applied s) \<longrightarrow> (\<exists>t \<in> seen. length (applied s) \<le> length t))"
proof (rule resolve_loop.raw_induct [where P = "\<lambda>c seen ty r. ck_aliases c ''A'' = Some growing_alias \<longrightarrow>
      (\<forall>s. plain_text s \<longrightarrow> s \<noteq> [] \<longrightarrow> ty = TypeRef (applied s) \<longrightarrow> (\<exists>t \<in> seen. length (applied s) \<le> length t))",
      OF _ assms], intro impI allI)
  fix loop c seen ty r s
  assume IH: "\<And>c seen ty r. loop c seen ty = Some r \<Longrightarrow> ck_aliases c ''A'' = Some growing_alias \<longrightarrow>
      (\<forall>s. plain_text s \<longrightarrow> s \<noteq> [] \<longrightarrow> ty = TypeRef (applied s) \<longrightarrow> (\<exists>t \<in> seen. length (applied s) \<le> length t))"
    and run: "(if type_raw ty \<in> seen then Some ty
       else (case expand_alias c ty of None \<Rightarrow> Some ty | Some e \<Rightarrow> loop c (insert (type_raw ty) seen) e)) = Some r"
    and s: "ck_aliases c ''A'' = Some growing_alias" "plain_text s" "s \<noteq> []" "ty = TypeRef (applied s)"
  show "\<exists>t \<in> seen. length (applied s) \<le> length t"
  proof (cases "applied s \<in> seen")
    case False
    have "plain_text (s @ ''-'' @ s)" using s(2) by simp
    moreover have "loop c (insert (applied s) seen) (TypeRef (applied (s @ ''-'' @ s))) = Some r"
      using run s(4) False expand_growing [OF s(1-3)] by simp
    ultimately obtain t where "t \<in> insert (applied s) seen" "length (applied (s @ ''-'' @ s)) \<le> length t"
      using IH [rule_format, OF _ s(1), of "insert (applied s) seen" _ r "s @ ''-'' @ s"] by auto
    then show ?thesis by (auto intro: bexI [of _ t])
  qed blast
qed

lemma growing_alias_diverges:
  "ck_aliases c ''A'' = Some growing_alias \<Longrightarrow> resolve_aliases c (TypeRef ''A<x>'') = None"
  using growing_loop [of c "{}" "TypeRef (applied ''x'')", rule_format, of _ "''x''"]
  by (cases "resolve_aliases c (TypeRef ''A<x>'')") (simp_all add: resolve_aliases_def)

section \<open>Example\<close>

definition circle :: "source_file list" where
  "circle = [\<lparr>file_name = ''a'', file_source = ''type A=B'' @ [CHR 0x0A] @ ''type B=A''\<rparr>]"

theorem compile_program_returns_witness:
  "\<exists>r. compile_program circle None = Some r \<and> program_modules r = fst (parse_files circle)"
proof (rule compile_program_returns)
  have "plain_module (parsed_module (parse_module (lexed_tokens
      (lex ''a'' (''type A=B'' @ [CHR 0x0A] @ ''type B=A'')))))"
    by code_simp
  then show "list_all (\<lambda>u. plain_module (unit_module u)) (fst (parse_files circle))"
    by (simp only: circle_def parse_files_def parse_file_def Let_def fst_conv list.map comp_apply list.pred_inject
        source_file.simps program_module.simps simp_thms)
qed

end
