(* ===== verification/Flow_Spec.thy ===== *)
theory Flow_Spec
  imports Body_Checks
begin

text \<open>
  What it means that the checker accepts an expression: which data can reach an external service, an AI
  call or a high-risk action, and what is known of options and results after a condition.
\<close>

section \<open>Diagnostics of a run\<close>

definition no_code :: "string \<Rightarrow> diagnostic list \<Rightarrow> bool" where
  "no_code code ds \<longleftrightarrow> list_all (\<lambda>d. diag_code d \<noteq> code) ds"

lemma no_code_simps [simp]:
  "no_code code []" "no_code code (d # ds) \<longleftrightarrow> diag_code d \<noteq> code \<and> no_code code ds"
  "no_code code (ds @ es) \<longleftrightarrow> no_code code ds \<and> no_code code es"
  by (auto simp: no_code_def)

lemma no_code_subset: "no_code code ds \<Longrightarrow> set es \<subseteq> set ds \<Longrightarrow> no_code code es"
  by (auto simp: no_code_def list_all_iff)

lemma diag_code_report [simp]: "diag_code (report code msg sp reason help) = code"
  by (simp add: report_def with_help_def with_reason_def diagnostic_error_def)

lemma run_all_part: "run_all rs = Some ds \<Longrightarrow> r \<in> set rs \<Longrightarrow> \<exists>xs. r = Some xs \<and> set xs \<subseteq> set ds"
proof (induction rs arbitrary: ds)
  case (Cons r' rs)
  obtain xs ys where parts: "r' = Some xs" "run_all rs = Some ys" "ds = xs @ ys"
    using Cons.prems(1) by (auto split: bind_splits)
  show ?case
  proof (cases "r = r'")
    case True
    then show ?thesis using parts by auto
  next
    case False
    then show ?thesis using Cons.prems(2) Cons.IH [OF parts(2)] parts(3) by auto
  qed
qed simp

text \<open>Every check of an accepted expression has run, and its diagnostics are among those reported.\<close>

lemma check_expr_part:
  assumes "check_expr c raw env granted ret expected = Some ds" and "checked_parse raw = (Some e, es)"
    and "r \<in> set
       [Some (secret_logging raw e env), Some (uncertain_usage raw e env), external_privacy c raw e env,
        trust_flow c raw e env, Some (action_permission c raw e granted), Some (external_namespace c raw e env),
        Some (actor_runtime_call c raw e), connector_call_checks c raw e env, direct_call c raw e env,
        check_method_calls c raw env e, brand_constructor c raw env expected e,
        enum_constructor c raw env expected e, option_constructor c raw env expected e,
        result_constructor c raw env expected e, try_expr c raw env ret e,
        async_expr c raw env e, binary_expr c raw env e, field_access c raw env e]"
  shows "\<exists>xs. r = Some xs \<and> set xs \<subseteq> set ds"
proof -
  obtain ys where ys: "parsed_checks c raw e env granted ret expected = Some ys" "ds = es @ ys"
    using assms(1,2) by (auto simp: check_expr_def)
  show ?thesis using run_all_part [OF ys(1) [unfolded parsed_checks_def] assms(3)] ys(2) by auto
qed

section \<open>Untrusted data\<close>

text \<open>
  An expression that exposes untrusted data: a binding or a member that is labelled so, outside of
  every call that has a gateway in it.
\<close>

inductive exposes :: "checker \<Rightarrow> env \<Rightarrow> expr \<Rightarrow> bool" for c env where
  ident: "map_of env name = Some b \<Longrightarrow> label_trust (bind_labels b) = Some Trust_Untrusted \<Longrightarrow> exposes c env (EIdent name)"
| labelled: "member_labels_of c env obj fld (expr_labels c env obj) = Some (Some l) \<Longrightarrow>
    label_trust l = Some Trust_Untrusted \<Longrightarrow> exposes c env (EMember obj fld)"
| object: "exposes c env obj \<Longrightarrow> exposes c env (EMember obj fld)"
| callee: "exposes c env callee \<Longrightarrow> \<not> is_trust_gateway_expr (ECall callee args) \<Longrightarrow> exposes c env (ECall callee args)"
| arg: "arg \<in> set args \<Longrightarrow> exposes c env arg \<Longrightarrow> \<not> is_trust_gateway_expr (ECall callee args) \<Longrightarrow>
    exposes c env (ECall callee args)"
| tried: "exposes c env e \<Longrightarrow> exposes c env (ETry e)"
| async: "exposes c env e \<Longrightarrow> exposes c env (EAsync e)"
| await: "exposes c env e \<Longrightarrow> exposes c env (EAwait e)"
| left: "exposes c env l \<Longrightarrow> exposes c env (EBinary l op r)"
| right: "exposes c env r \<Longrightarrow> exposes c env (EBinary l op r)"
| part: "f \<in> set fs \<Longrightarrow> exposes c env (snd f) \<Longrightarrow> exposes c env (EObject fs)"

lemma orelse_none: "orelse r s = Some None \<longleftrightarrow> r = Some None \<and> s = Some None"
  by (cases r; cases "the r") auto

lemma first_answer_none: "first_answer rs = Some None \<Longrightarrow> r \<in> set rs \<Longrightarrow> r = Some None"
  by (induction rs) (auto simp: orelse_none)

lemma exposes_found: "exposes c env e \<Longrightarrow> first_untrusted_expr c env e \<noteq> Some None"
proof (induction rule: exposes.induct)
  case (arg a args callee)
  then show ?case by (auto simp: orelse_none dest!: first_answer_none [of _ "first_untrusted_expr c env a"])
next
  case (part f fs)
  then show ?case by (auto dest!: first_answer_none [of _ "first_untrusted_expr c env (snd f)"])
qed (auto simp: orelse_none)

text \<open>The calls whose arguments must be trusted.\<close>

definition trust_sink :: "checker \<Rightarrow> call_ref \<Rightarrow> bool" where
  "trust_sink c call \<longleftrightarrow>
     take 1 (call_path call) \<in> {[''ai''], [''external'']} \<or> high_risk_action_name c call \<noteq> None"

lemma arg_reported:
  assumes "run_all (map (\<lambda>arg. on_some (first_untrusted_expr c env arg) (\<lambda>source. Some [report code (msg source) sp reason help]))
      args) = Some ds"
    and "arg \<in> set args" and "first_untrusted_expr c env arg \<noteq> Some None"
  shows "\<not> no_code code ds"
proof -
  obtain xs where xs: "on_some (first_untrusted_expr c env arg)
      (\<lambda>source. Some [report code (msg source) sp reason help]) = Some xs" "set xs \<subseteq> set ds"
    using run_all_part [OF assms(1)] assms(2) by fastforce
  then obtain source where "xs = [report code (msg source) sp reason help]"
    using assms(3) by (cases "first_untrusted_expr c env arg"; cases "the (first_untrusted_expr c env arg)") auto
  then show ?thesis using no_code_subset [OF _ xs(2)] by auto
qed

lemma sink_reports:
  assumes "trust_flow_call c raw env call = Some ds" and "trust_sink c call" and "arg \<in> set (call_args call)"
    and "first_untrusted_expr c env arg \<noteq> Some None"
  shows "\<not> no_code ''N2411'' ds \<or> \<not> no_code ''N2412'' ds"
  using assms(1,2) arg_reported [OF _ assms(3,4)]
  by (auto simp: trust_flow_call_def trust_sink_def untrusted_ai_prompt_args_def untrusted_call_args_def
      split: if_splits option.splits)

text \<open>C6: No untrusted data reaches an AI call, an external service or a high-risk action of an
  accepted expression: when the checks of an expression return without the diagnostics N2411 and
  N2412, then no argument of such a call, at any depth, exposes an untrusted binding or member,
  except inside a call that has a trust gateway in it.\<close>

theorem untrusted_data_rejected:
  assumes "check_expr c raw env granted ret expected = Some ds"
    and "no_code ''N2411'' ds" and "no_code ''N2412'' ds"
    and "checked_parse raw = (Some e, es)"
    and "call \<in> set (calls e)" and "trust_sink c call" and "arg \<in> set (call_args call)"
  shows "\<not> exposes c env arg"
proof
  assume "exposes c env arg"
  then have untrusted: "first_untrusted_expr c env arg \<noteq> Some None" by (rule exposes_found)
  obtain xs where flow: "trust_flow c raw e env = Some xs" and xs: "set xs \<subseteq> set ds"
    using check_expr_part [OF assms(1,4), of "trust_flow c raw e env"] by auto
  obtain ys where ys: "trust_flow_call c raw env call = Some ys" "set ys \<subseteq> set xs"
    using run_all_part [OF flow [unfolded trust_flow_def]] assms(5) by fastforce
  have "no_code ''N2411'' ys" "no_code ''N2412'' ys"
    using no_code_subset [OF assms(2)] no_code_subset [OF assms(3)] ys(2) xs by auto
  then show False using sink_reports [OF ys(1) assms(6,7) untrusted] by blast
qed

section \<open>Protected data\<close>

text \<open>The order in which \<open>combine_privacy\<close> prefers the labels.\<close>

fun privacy_rank :: "privacy \<Rightarrow> nat" where
  "privacy_rank Privacy_Public = 0"
| "privacy_rank Privacy_Internal = 1"
| "privacy_rank Privacy_Private = 2"
| "privacy_rank Privacy_Sensitive = 3"
| "privacy_rank Privacy_Regulated = 4"
| "privacy_rank Privacy_Secret = 5"

lemma privacy_rank_inject: "privacy_rank p = privacy_rank q \<longleftrightarrow> p = q"
  by (cases p; cases q) auto

instantiation privacy :: linorder
begin

definition less_eq_privacy :: "privacy \<Rightarrow> privacy \<Rightarrow> bool" where
  "p \<le> q \<longleftrightarrow> privacy_rank p \<le> privacy_rank q"

definition less_privacy :: "privacy \<Rightarrow> privacy \<Rightarrow> bool" where
  "p < q \<longleftrightarrow> privacy_rank p < privacy_rank q"

instance
  by standard (auto simp: less_eq_privacy_def less_privacy_def privacy_rank_inject)

end

lemma combine_privacy_both: "combine_privacy (Some p) (Some q) = Some (max p q)"
  by (cases p; cases q; simp add: combine_privacy_def first_of_def max_def less_eq_privacy_def)

lemma combine_privacy_one:
  "combine_privacy (Some p) None = Some p" "combine_privacy None (Some p) = Some p" "combine_privacy None None = None"
  by (cases p; simp add: combine_privacy_def first_of_def)+

lemmas combine_privacy_max = combine_privacy_both combine_privacy_one

lemma is_protected_iff: "is_protected (Some p) \<longleftrightarrow> Privacy_Private \<le> p"
  by (cases p) (auto simp: is_protected_def less_eq_privacy_def)

text \<open>Labels at least as private as \<open>p\<close>.\<close>

definition at_least :: "privacy \<Rightarrow> labels option \<Rightarrow> bool" where
  "at_least p r \<longleftrightarrow> (case r of Some l \<Rightarrow> (case label_privacy l of Some q \<Rightarrow> p \<le> q | None \<Rightarrow> False) | None \<Rightarrow> False)"

lemma at_least_combine: "at_least p l \<or> at_least p r \<Longrightarrow> at_least p (combine_opt l r)"
  by (cases l; cases r; cases "label_privacy (the l)"; cases "label_privacy (the r)")
    (auto simp: at_least_def combine_opt_def combine_labels_def combine_privacy_max le_max_iff_disj)

lemma at_least_combine_all:
  "combine_all acc rs = Some r \<Longrightarrow> at_least p acc \<or> (\<exists>x. Some x \<in> set rs \<and> at_least p x) \<Longrightarrow> at_least p r"
proof (induction rs arbitrary: acc)
  case (Cons a rs)
  obtain l where "a = Some l" "combine_all (combine_opt acc l) rs = Some r"
    using Cons.prems(1) by (auto split: bind_splits)
  then show ?case using Cons.IH [of "combine_opt acc l"] Cons.prems(2) at_least_combine [of p acc l] by auto
qed simp

text \<open>
  An expression that carries data at least as private as \<open>p\<close>: a binding or a member with such labels,
  outside of every call that has \<open>anonymize\<close> in it; a call with a trust gateway in it passes on only
  what its arguments carry.
\<close>

inductive carries :: "checker \<Rightarrow> env \<Rightarrow> privacy \<Rightarrow> expr \<Rightarrow> bool" for c env p where
  ident: "map_of env name = Some b \<Longrightarrow> binding_labels c b = Some l \<Longrightarrow> at_least p (Some l) \<Longrightarrow> carries c env p (EIdent name)"
| member: "member_labels_of c env obj fld (expr_labels c env obj) = Some l \<Longrightarrow> at_least p l \<Longrightarrow>
    carries c env p (EMember obj fld)"
| callee: "carries c env p callee \<Longrightarrow> \<not> is_privacy_gateway_expr (ECall callee args) \<Longrightarrow>
    \<not> is_trust_gateway_expr (ECall callee args) \<Longrightarrow> carries c env p (ECall callee args)"
| arg: "a \<in> set args \<Longrightarrow> carries c env p a \<Longrightarrow> \<not> is_privacy_gateway_expr (ECall callee args) \<Longrightarrow>
    carries c env p (ECall callee args)"
| tried: "carries c env p e \<Longrightarrow> carries c env p (ETry e)"
| async: "carries c env p e \<Longrightarrow> carries c env p (EAsync e)"
| await: "carries c env p e \<Longrightarrow> carries c env p (EAwait e)"
| left: "carries c env p l \<Longrightarrow> carries c env p (EBinary l op r)"
| right: "carries c env p r \<Longrightarrow> carries c env p (EBinary l op r)"
| part: "f \<in> set fs \<Longrightarrow> carries c env p (snd f) \<Longrightarrow> carries c env p (EObject fs)"

lemma at_least_trusted: "at_least p l \<Longrightarrow> at_least p (Some ((unwrap_or no_labels l)\<lparr>label_trust := t\<rparr>))"
  by (cases l) (auto simp: at_least_def)

lemma combine_all_defined: "combine_all acc rs = Some r \<Longrightarrow> x \<in> set rs \<Longrightarrow> \<exists>l. x = Some l"
  by (induction rs arbitrary: acc) (auto split: bind_splits)

lemma carries_labels: "carries c env p e \<Longrightarrow> expr_labels c env e = Some r \<Longrightarrow> at_least p r"
proof (induction arbitrary: r rule: carries.induct)
  case (callee callee args)
  then show ?case by (auto simp: Let_def split: bind_splits intro: at_least_combine_all)
next
  case (arg a args callee)
  have found: "at_least p l" if run: "combine_all acc (map (expr_labels c env) args) = Some l" for acc l
  proof -
    obtain x where "expr_labels c env a = Some x" using combine_all_defined [OF run] arg.hyps(1) by auto
    then show ?thesis
      using at_least_combine_all [OF run, of p] arg.IH arg.hyps(1) by (metis image_eqI list.set_map)
  qed
  then show ?case
    using arg.prems arg.hyps(3) by (auto simp: Let_def at_least_trusted split: bind_splits if_splits)
next
  case (part f fs)
  have mem: "expr_labels c env (snd f) \<in> set (map (\<lambda>f. expr_labels c env (snd f)) fs)"
    using part.hyps(1) by (simp add: image_iff) blast
  have run: "combine_all None (map (\<lambda>f. expr_labels c env (snd f)) fs) = Some r" using part.prems by simp
  obtain x where x: "expr_labels c env (snd f) = Some x" using combine_all_defined [OF run mem] by blast
  then have "Some x \<in> set (map (\<lambda>f. expr_labels c env (snd f)) fs)" using mem by simp
  then show ?case using at_least_combine_all [OF run, of p] part.IH [OF x] by blast
qed (auto split: bind_splits intro: at_least_combine)

text \<open>What an accepted argument of an external call may be.\<close>

definition flow_permitted :: "checker \<Rightarrow> string list \<Rightarrow> labels \<Rightarrow> bool" where
  "flow_permitted c targets l \<longleftrightarrow>
     (let applies = matches_any (label_privacy l) (label_trust l) (label_source l) targets (ck_policy_context c)
      in list_ex (\<lambda>r. applies r \<and> \<not> denies r) (ck_policies c)
         \<and> \<not> list_ex (\<lambda>r. applies r \<and> denies r) (ck_policies c))"

lemma privacy_arg_permits:
  assumes "privacy_arg c raw env call targets arg = Some ds" and "no_code ''N2400'' ds"
    and "carries c env p arg" and "Privacy_Private \<le> p"
  shows "\<exists>l. expr_labels c env arg = Some (Some l) \<and> at_least p (Some l) \<and> flow_permitted c targets l"
proof -
  obtain r where r: "expr_labels c env arg = Some r"
    using assms(1) by (cases "expr_labels c env arg") (auto simp: privacy_arg_def)
  then have least: "at_least p r" using carries_labels [OF assms(3)] by simp
  then obtain l q where l: "r = Some l" "label_privacy l = Some q" "p \<le> q"
    by (auto simp: at_least_def split: option.splits)
  then have "is_protected (label_privacy l)" using assms(4) by (simp add: is_protected_iff)
  then have "matching_rules_allow (ck_policies c) (label_privacy l) (label_trust l) (label_source l) targets
      (ck_policy_context c)"
    using assms(1,2) r l(1) by (auto simp: privacy_arg_def split: if_splits)
  then show ?thesis
    using r l least by (auto simp: flow_permitted_def matching_rules_allow_def allow_loop_decides)
qed

text \<open>C5: Where private data is counted it needs a policy: when the checks of an expression return without
  the diagnostic N2400, then every argument of a call of an external service or of a connector that
  carries private, sensitive, regulated or secret data has labels that are at least as private, and for
  those labels some allow rule of the module matches the target and no deny rule does. Counted are
  bindings and members with the labels that the checker gives them, below operators, \<open>?\<close>, async, await,
  objects, and the callee and the arguments of calls. Not counted is anything inside a call that has a
  call of \<open>anonymize\<close> anywhere in it, also beside the anonymized part, nor the callee (so the object of a
  method) of a call that has a trust gateway anywhere in it: there the code loses the labels, as
  \<open>gateways_lose_labels\<close> shows.\<close>

theorem private_data_needs_policy:
  assumes "check_expr c raw env granted ret expected = Some ds" and "no_code ''N2400'' ds"
    and "checked_parse raw = (Some e, es)"
    and "call \<in> set (calls e)" and "privacy_policy_targets c (call_path call) = Some targets"
    and "arg \<in> set (call_args call)" and "carries c env p arg" and "Privacy_Private \<le> p"
  shows "\<exists>l. expr_labels c env arg = Some (Some l) \<and> at_least p (Some l) \<and> flow_permitted c targets l"
proof -
  obtain xs where flow: "external_privacy c raw e env = Some xs" and xs: "set xs \<subseteq> set ds"
    using check_expr_part [OF assms(1,3), of "external_privacy c raw e env"] by auto
  obtain ys where ys: "run_all (map (privacy_arg c raw env call targets) (call_args call)) = Some ys" "set ys \<subseteq> set xs"
    using run_all_part [OF flow [unfolded external_privacy_def]] assms(4,5) by fastforce
  obtain zs where zs: "privacy_arg c raw env call targets arg = Some zs" "set zs \<subseteq> set ys"
    using run_all_part [OF ys(1)] assms(6) by fastforce
  have "no_code ''N2400'' zs" using no_code_subset [OF assms(2)] xs ys(2) zs(2) by auto
  then show ?thesis by (rule privacy_arg_permits [OF zs(1) _ assms(7,8)])
qed

section \<open>Options and results after a condition\<close>

declare checks_implied_by.simps [simp del]

text \<open>The value of a condition, given the values of what is not a conjunction or disjunction.\<close>

fun truth_of :: "(expr \<Rightarrow> bool) \<Rightarrow> expr \<Rightarrow> bool" where
  "truth_of v (EBinary l op r) =
     (if op = Op_And then truth_of v l \<and> truth_of v r
      else if op = Op_Or then truth_of v l \<or> truth_of v r else v (EBinary l op r))"
| "truth_of v e = v e"

definition consistent :: "(string \<Rightarrow> 'k \<Rightarrow> bool) \<Rightarrow> (string \<times> 'k) list \<Rightarrow> bool" where
  "consistent holds cs \<longleftrightarrow> (\<forall>(name, k) \<in> set cs. holds name k)"

lemma consistent_subset: "consistent holds cs \<Longrightarrow> set ds \<subseteq> set cs \<Longrightarrow> consistent holds ds"
  by (auto simp: consistent_def)

lemma consistent_Cons [simp]: "consistent holds ((name, k) # cs) \<longleftrightarrow> holds name k \<and> consistent holds cs"
  by (auto simp: consistent_def)

lemma consistent_union_loop:
  "consistent holds merged \<Longrightarrow> consistent holds later \<Longrightarrow> consistent holds (union_loop_checks merged conflicts later)"
proof (induction merged conflicts later rule: union_loop_checks.induct)
  case (2 merged conflicts name check later)
  have "consistent holds (AList.delete name merged)"
    by (rule consistent_subset [OF "2.prems"(1)]) (auto simp: AList.delete_eq)
  then show ?case using "2" by (auto split: option.splits)
qed simp

lemma checks_of_atom:
  assumes "\<nexists>l op r. e = EBinary l op r"
  shows "checks_implied_by member invert truth e =
      map_option (\<lambda>m. case m of Some (name, k) \<Rightarrow> [(name, if truth then k else invert k)] | None \<Rightarrow> []) (member e)"
  by (subst checks_implied_by.simps) (use assms in \<open>cases e; cases "member e"; auto split: option.splits\<close>)

lemma truth_of_atom: "\<nexists>l op r. e = EBinary l op r \<Longrightarrow> truth_of v e = v e"
  by (cases e) auto

lemma checks_implied_sound:
  assumes member: "\<And>e name k. member e = Some (Some (name, k)) \<Longrightarrow>
      (\<nexists>l op r. e = EBinary l op r) \<and> v e = holds name k"
    and invert: "\<And>name k. holds name (invert k) \<longleftrightarrow> \<not> holds name k"
  shows "checks_implied_by member invert truth e = Some cs \<Longrightarrow> truth_of v e = truth \<Longrightarrow> consistent holds cs"
proof -
  have atom: "consistent holds cs"
    if "checks_implied_by member invert truth e = Some cs" "truth_of v e = truth" "\<nexists>l op r. e = EBinary l op r" for e cs
    using that member [of e] invert
    by (auto simp: checks_of_atom truth_of_atom consistent_def split: option.splits)
  show "checks_implied_by member invert truth e = Some cs \<Longrightarrow> truth_of v e = truth \<Longrightarrow> consistent holds cs"
proof (induction e arbitrary: cs)
  case (EBinary l op r)
  obtain m where m: "member (EBinary l op r) = Some m"
    using EBinary.prems(1) by (subst (asm) checks_implied_by.simps) (cases "member (EBinary l op r)"; simp)
  have none: "m = None" using m member [of "EBinary l op r"] by (cases m) auto
  obtain lc rc where sides: "checks_implied_by member invert truth l = Some lc"
      "checks_implied_by member invert truth r = Some rc"
    and cs: "cs = (if (op = Op_And \<and> truth) \<or> (op = Op_Or \<and> \<not> truth) then union_consistent lc rc
        else if (op = Op_And \<and> \<not> truth) \<or> (op = Op_Or \<and> truth) then intersection_matching lc rc else [])"
    using EBinary.prems(1) m none by (subst (asm) checks_implied_by.simps) (auto split: bind_splits)
  have l: "truth_of v l = truth \<Longrightarrow> consistent holds lc" and r: "truth_of v r = truth \<Longrightarrow> consistent holds rc"
    using EBinary.IH sides by blast+
  show ?case
    unfolding cs
    using EBinary.prems(2) l r consistent_union_loop [of holds lc rc "[]"]
    by (auto simp: union_consistent_def intersection_matching_def consistent_def split: if_splits
        dest: map_of_SomeD)
  qed (rule atom, assumption, assumption, simp)+
qed

text \<open>
  Which options are present and which results are fine, in some state of the program: \<open>P\<close> and \<open>Q\<close>. The
  checks of an environment hold there, and a condition is evaluated there.
\<close>

definition binding_holds :: "bool \<Rightarrow> bool \<Rightarrow> binding \<Rightarrow> bool" where
  "binding_holds present fine b \<longleftrightarrow>
     (bind_option_checked b \<longrightarrow> present)
     \<and> (case bind_result_checked b of Some k \<Rightarrow> fine = (k = Check_Ok) | None \<Rightarrow> True)"

definition checks_hold :: "(string \<Rightarrow> bool) \<Rightarrow> (string \<Rightarrow> bool) \<Rightarrow> env \<Rightarrow> bool" where
  "checks_hold P Q env \<longleftrightarrow> list_all (\<lambda>(name, b). binding_holds (P name) (Q name) b) env"

definition evaluates :: "checker \<Rightarrow> env \<Rightarrow> (string \<Rightarrow> bool) \<Rightarrow> (string \<Rightarrow> bool) \<Rightarrow> (expr \<Rightarrow> bool) \<Rightarrow> bool" where
  "evaluates c env P Q v \<longleftrightarrow>
     (\<forall>name ty. Option.bind (map_of env name) bind_ty = Some ty \<longrightarrow>
        (is_option_type c ty = Some True \<longrightarrow>
           v (EMember (EIdent name) ''is_some'') = P name \<and> v (EMember (EIdent name) ''is_none'') = (\<not> P name))
        \<and> (is_result_type c ty = Some True \<longrightarrow>
           v (EMember (EIdent name) ''is_ok'') = Q name \<and> v (EMember (EIdent name) ''is_err'') = (\<not> Q name)))"

lemma checked_member_Some:
  "checked_member p table c env e = Some (Some (name, k)) \<longleftrightarrow>
     (\<exists>fld ty. e = EMember (EIdent name) fld \<and> Option.bind (map_of env name) bind_ty = Some ty
        \<and> p c ty = Some True \<and> map_of table fld = Some k)"
  by (cases e rule: expr.exhaust; simp add: checked_member_def)
    (auto simp: checked_member_def split: expr.splits option.splits bind_splits if_splits)

lemma option_checks_sound:
  assumes "evaluates c env P Q v" and "option_checks_implied_by c env truth e = Some cs" and "truth_of v e = truth"
  shows "consistent (\<lambda>name k. P name = (k = Check_Some)) cs"
  unfolding option_checks_implied_by_def
proof (rule checks_implied_sound [OF _ _ assms(2) [unfolded option_checks_implied_by_def] assms(3)])
  show "(P name = (invert_option_check k = Check_Some)) = (\<not> (P name = (k = Check_Some)))" for name k
    by (cases k) auto
  show "(\<nexists>l op r. e = EBinary l op r) \<and> v e = (P name = (k = Check_Some))"
    if "option_check_member c env e = Some (Some (name, k))" for e name k
    using that assms(1)
    by (auto simp: option_check_member_def checked_member_Some evaluates_def split: if_splits)
qed

lemma result_checks_sound:
  assumes "evaluates c env P Q v" and "result_checks_implied_by c env truth e = Some cs" and "truth_of v e = truth"
  shows "consistent (\<lambda>name k. Q name = (k = Check_Ok)) cs"
proof (rule checks_implied_sound [OF _ _ assms(2) [unfolded result_checks_implied_by_def] assms(3)])
  show "(Q name = (invert_result_check k = Check_Ok)) = (\<not> (Q name = (k = Check_Ok)))" for name k
    by (cases k) auto
  show "(\<nexists>l op r. e = EBinary l op r) \<and> v e = (Q name = (k = Check_Ok))"
    if "result_check_member c env e = Some (Some (name, k))" for e name k
    using that assms(1)
    by (auto simp: result_check_member_def checked_member_Some evaluates_def split: if_splits)
qed

lemma checks_hold_update:
  "checks_hold P Q env \<Longrightarrow> (\<And>b. binding_holds (P name) (Q name) b \<Longrightarrow> binding_holds (P name) (Q name) (f b)) \<Longrightarrow>
     checks_hold P Q (update_binding f name env)"
  unfolding checks_hold_def list_all_iff update_binding_def by fastforce

lemma apply_option_checks_hold:
  "checks_hold P Q env \<Longrightarrow> list_all P names \<Longrightarrow> checks_hold P Q (apply_option_checks names env)"
proof (induction names arbitrary: env)
  case (Cons name names)
  have "checks_hold P Q (update_binding (\<lambda>b. b\<lparr>bind_option_checked := True\<rparr>) name env)"
    using Cons.prems by (intro checks_hold_update) (auto simp: binding_holds_def)
  then show ?case using Cons by (simp add: apply_option_checks_def)
qed (simp add: apply_option_checks_def)

lemma apply_result_checks_hold:
  "checks_hold P Q env \<Longrightarrow> consistent (\<lambda>name k. Q name = (k = Check_Ok)) cs \<Longrightarrow>
     checks_hold P Q (apply_result_checks cs env)"
proof (induction cs arbitrary: env)
  case (Cons c cs)
  obtain name k where c: "c = (name, k)" by fastforce
  have "checks_hold P Q (update_binding (\<lambda>b. b\<lparr>bind_result_checked := Some k\<rparr>) name env)"
    using Cons.prems by (intro checks_hold_update) (auto simp: binding_holds_def c)
  then show ?case using Cons by (simp add: apply_result_checks_def c)
qed (simp add: apply_result_checks_def)

lemma branch_env_holds:
  assumes "checks_hold P Q env" and "evaluates c env P Q v" and "parse_expr (raw_text cond) = Ok e"
    and "truth_of v e = truth" and "branch_env c truth cond env = Some env'"
  shows "checks_hold P Q env'"
proof -
  obtain os rs where os: "option_checks_implied_by c env truth e = Some os"
    and rs: "result_checks_implied_by c env truth e = Some rs"
    and env': "env' = apply_result_checks rs
      (apply_option_checks (map fst (filter (\<lambda>(_, k). k = Check_Some) os)) env)"
    using assms(3,5)
    by (auto simp: branch_env_def checked_option_bindings_def checked_result_bindings_def split: bind_splits)
  have "list_all P (map fst (filter (\<lambda>(_, k). k = Check_Some) os))"
    using option_checks_sound [OF assms(2) os assms(4)] by (auto simp: consistent_def list_all_iff)
  then show ?thesis
    unfolding env'
    using assms(1) result_checks_sound [OF assms(2) rs assms(4)]
    by (intro apply_result_checks_hold apply_option_checks_hold)
qed

section \<open>Members of options and results\<close>

fun subexprs :: "expr \<Rightarrow> expr list" where
  "subexprs (EMember obj fld) = EMember obj fld # subexprs obj"
| "subexprs (ECall callee args) = ECall callee args # subexprs callee @ concat (map subexprs args)"
| "subexprs (EBinary l op r) = EBinary l op r # subexprs l @ subexprs r"
| "subexprs (ETry e) = ETry e # subexprs e"
| "subexprs (EAsync e) = EAsync e # subexprs e"
| "subexprs (EAwait e) = EAwait e # subexprs e"
| "subexprs (EObject fs) = EObject fs # concat (map (\<lambda>f. subexprs (snd f)) fs)"
| "subexprs e = [e]"

lemma field_access_member:
  "EMember obj fld \<in> set (subexprs e) \<Longrightarrow> field_access c raw env e = Some ds \<Longrightarrow>
     \<exists>xs. on_some (expr_type c env obj) (member_field c raw env obj fld) = Some xs \<and> set xs \<subseteq> set ds"
proof (induction e arbitrary: ds rule: subexprs.induct)
  case (1 obj' fld')
  then obtain xs ys where "on_some (expr_type c env obj') (member_field c raw env obj' fld') = Some xs"
    "field_access c raw env obj' = Some ys" "ds = xs @ ys"
    by (auto split: bind_splits)
  then show ?case using 1 by fastforce
next
  case (2 callee args)
  have "\<exists>a \<in> set (callee # args). EMember obj fld \<in> set (subexprs a)" using "2.prems"(1) by auto
  then obtain a where a: "a \<in> set (callee # args)" "EMember obj fld \<in> set (subexprs a)" by blast
  then obtain ys where ys: "field_access c raw env a = Some ys" "set ys \<subseteq> set ds"
    using run_all_part [of "map (field_access c raw env) (callee # args)" ds "field_access c raw env a"] "2.prems"(2)
    by auto
  then show ?case using a "2.IH" by fastforce
next
  case (3 l op r)
  then obtain xs ys where "field_access c raw env l = Some xs" "field_access c raw env r = Some ys" "ds = xs @ ys"
    by (auto split: bind_splits)
  then show ?case using 3 by fastforce
next
  case (7 fs)
  then obtain f where f: "f \<in> set fs" "EMember obj fld \<in> set (subexprs (snd f))" by auto
  then obtain ys where "field_access c raw env (snd f) = Some ys" "set ys \<subseteq> set ds"
    using run_all_part [of "map (\<lambda>f. field_access c raw env (snd f)) fs" ds "field_access c raw env (snd f)"] "7.prems"(2)
    by auto
  then show ?case using f "7.IH" by fastforce
qed auto

text \<open>C7: An accepted branch of a condition unwraps no empty option and reads no value of a failed
  result: take a state of the program in which the checks recorded in the environment hold, and a
  condition that has the outcome of the branch there. When the checks of an expression in the branch
  return without the diagnostics N2301 and N2302, then every option of which the expression reads the
  value is present in that state, every result of which it reads the value is fine, and every result
  of which it reads the error has failed. This holds for conditions of any shape, with conjunctions,
  disjunctions and both outcomes.\<close>

theorem guarded_unwrap_safe:
  assumes "checks_hold P Q env" and "evaluates c env P Q v" and "parse_expr (raw_text cond) = Ok e0"
    and "truth_of v e0 = truth" and "branch_env c truth cond env = Some env'"
    and "check_expr c raw env' granted ret expected = Some ds"
    and "no_code ''N2301'' ds" and "no_code ''N2302'' ds" and "checked_parse raw = (Some e, es)"
    and "EMember (EIdent name) fld \<in> set (subexprs e)"
    and "expr_type c env' (EIdent name) = Some (Some ty)"
    and "resolve_aliases c ty = Some resolved" and "\<not> is_uncertain resolved"
  shows "(is_option resolved \<and> fld = ''value'' \<longrightarrow> P name)
    \<and> (is_result resolved \<and> \<not> is_option resolved \<and> fld = ''value'' \<longrightarrow> Q name)
    \<and> (is_result resolved \<and> \<not> is_option resolved \<and> fld = ''error'' \<longrightarrow> \<not> Q name)"
proof -
  have holds: "checks_hold P Q env'" by (rule branch_env_holds [OF assms(1-5)])
  obtain xs where xs: "field_access c raw env' e = Some xs" "set xs \<subseteq> set ds"
    using check_expr_part [OF assms(6,9), of "field_access c raw env' e"] by auto
  obtain ys where ys: "member_field c raw env' (EIdent name) fld ty = Some ys" "set ys \<subseteq> set xs"
    using field_access_member [OF assms(10) xs(1)] assms(11) by auto
  have "no_code ''N2301'' ys" "no_code ''N2302'' ys"
    using no_code_subset [OF assms(7)] no_code_subset [OF assms(8)] xs(2) ys(2) by auto
  then show ?thesis
    using ys(1) assms(12,13) holds
    by (auto simp: member_field_def option_field_def result_field_def option_value_is_checked_def
        result_value_is_checked_def checks_hold_def list_all_iff binding_holds_def
        split: if_splits option.splits dest!: map_of_SomeD)
qed

declare type_ref_aggregate_labels.simps [code] resolve_loop.simps [code] compatible_loop.simps [code]
section \<open>Examples\<close>

text \<open>A module with a policy and an external service, and bindings of several kinds.\<close>

definition sample_module :: module_ast where
  "sample_module = \<lparr>mod_name = None, mod_imports = [], mod_declarations =
     [Policy_Decl \<lparr>policy_name = ''p'', policy_rules =
        [\<lparr>rule_effect = Effect_Allow, rule_privacy = Some Privacy_Private, rule_trust = None, rule_source = None,
          rule_target = Some ''ExternalApi'', rule_tenant = None, rule_route = None, rule_raw = [],
          rule_span = synthetic_span []\<rparr>], policy_span = synthetic_span []\<rparr>]\<rparr>"

definition sample_binding :: "string \<Rightarrow> privacy option \<Rightarrow> trust option \<Rightarrow> binding" where
  "sample_binding ty p t =
     \<lparr>bind_ty = Some (TypeRef ty), bind_labels = \<lparr>label_source = None, label_trust = t, label_privacy = p\<rparr>,
      bind_mutable = False, bind_uncertain = False, bind_option_checked = False, bind_result_checked = None,
      bind_secret = False\<rparr>"

definition sample_env :: env where
  "sample_env =
     [(''x'', sample_binding ''Text'' (Some Privacy_Private) None),
      (''y'', sample_binding ''Text'' None (Some Trust_Untrusted)),
      (''o'', sample_binding ''Option<Int>'' None None)]"

definition sample_raw :: "string \<Rightarrow> raw_expr" where
  "sample_raw txt = \<lparr>raw_text = txt, raw_span = synthetic_span []\<rparr>"

abbreviation sample_checker :: checker where
  "sample_checker \<equiv> new_checker sample_module 0"

abbreviation sanitized :: expr where
  "sanitized \<equiv> ECall (EIdent ''sanitize'') [EIdent ''y'']"

theorem untrusted_data_rejected_witness:
  "\<not> exposes sample_checker sample_env sanitized"
proof (rule untrusted_data_rejected)
  show "check_expr sample_checker (sample_raw ''external.send(sanitize(y))'') sample_env {} None None = Some []"
    by code_simp
  show "checked_parse (sample_raw ''external.send(sanitize(y))'') =
      (Some (ECall (EMember (EIdent ''external'') ''send'') [sanitized]), [])"
    by code_simp
  show "\<lparr>call_path = [''external'', ''send''], call_args = [sanitized]\<rparr>
      \<in> set (calls (ECall (EMember (EIdent ''external'') ''send'') [sanitized]))"
    by simp
qed (simp_all add: trust_sink_def)

text \<open>What the checker does not see: without a policy private data in \<open>x\<close> cannot be sent, but it can
  be sent as an argument beside one that is anonymized, and as the object of a method that is
  called with a sanitized argument.\<close>

definition sends :: "expr list \<Rightarrow> string list option" where
  "sends args =
     map_option (map diag_code)
       (external_privacy (new_checker empty_module 0) (sample_raw [])
          (ECall (EMember (EIdent ''external'') ''send'') args) sample_env)"

lemma gateways_lose_labels:
  "sends [EIdent ''x''] = Some [''N2400'']"
  "sends [ECall (EIdent ''f'') [EIdent ''x'', EIdent ''y'']] = Some [''N2400'']"
  "sends [ECall (EIdent ''f'') [EIdent ''x'', ECall (EIdent ''anonymize'') [EIdent ''y'']]] = Some []"
  "sends [ECall (EMember (EIdent ''x'') ''fmt'') [EIdent ''y'']] = Some [''N2400'']"
  "sends [ECall (EMember (EIdent ''x'') ''fmt'') [ECall (EIdent ''sanitize'') [EIdent ''y'']]] = Some []"
  by code_simp+

theorem private_data_needs_policy_witness:
  "\<exists>l. expr_labels sample_checker sample_env (EIdent ''x'') = Some (Some l)
     \<and> at_least Privacy_Private (Some l) \<and> flow_permitted sample_checker [''ExternalApi'', ''external.send''] l"
proof (rule private_data_needs_policy)
  show "check_expr sample_checker (sample_raw ''external.send(x)'') sample_env {} None None = Some []"
    by code_simp
  show "checked_parse (sample_raw ''external.send(x)'') =
      (Some (ECall (EMember (EIdent ''external'') ''send'') [EIdent ''x'']), [])"
    by code_simp
  show "\<lparr>call_path = [''external'', ''send''], call_args = [EIdent ''x'']\<rparr>
      \<in> set (calls (ECall (EMember (EIdent ''external'') ''send'') [EIdent ''x'']))"
    by simp
  show "privacy_policy_targets sample_checker
      (call_path \<lparr>call_path = [''external'', ''send''], call_args = [EIdent ''x'']\<rparr>) = Some [''ExternalApi'', ''external.send'']"
    by code_simp
  have "binding_labels sample_checker (sample_binding ''Text'' (Some Privacy_Private) None)
      = Some \<lparr>label_source = None, label_trust = None, label_privacy = Some Privacy_Private\<rparr>"
    by code_simp
  then show "carries sample_checker sample_env Privacy_Private (EIdent ''x'')"
    by (rule carries.ident [rotated]) (simp_all add: sample_env_def at_least_def)
qed simp_all

definition sample_value :: "expr \<Rightarrow> bool" where
  "sample_value e \<longleftrightarrow> e = EMember (EIdent ''o'') ''is_some''"

lemma sample_evaluates: "evaluates sample_checker sample_env (\<lambda>name. name = ''o'') (\<lambda>name. True) sample_value"
proof -
  have types: "is_option_type sample_checker (TypeRef ''Text'') = Some False"
      "is_result_type sample_checker (TypeRef ''Text'') = Some False"
      "is_result_type sample_checker (TypeRef ''Option<Int>'') = Some False"
    by code_simp+
  show ?thesis
    using types by (auto simp: evaluates_def sample_env_def sample_binding_def sample_value_def split: if_splits)
qed

theorem guarded_unwrap_safe_witness: "(\<lambda>name. name = ''o'') ''o''"
proof -
  let ?P = "\<lambda>name. name = ''o''" and ?Q = "\<lambda>name. True"
  let ?env = "map (\<lambda>(n, b). (n, if n = ''o'' then b\<lparr>bind_option_checked := True\<rparr> else b)) sample_env"
  have "(is_option (TypeRef ''Option<Int>'') \<and> ''value'' = ''value'' \<longrightarrow> ?P ''o'')
    \<and> (is_result (TypeRef ''Option<Int>'') \<and> \<not> is_option (TypeRef ''Option<Int>'') \<and> ''value'' = ''value'' \<longrightarrow> ?Q ''o'')
    \<and> (is_result (TypeRef ''Option<Int>'') \<and> \<not> is_option (TypeRef ''Option<Int>'') \<and> ''value'' = ''error'' \<longrightarrow> \<not> ?Q ''o'')"
  proof (rule guarded_unwrap_safe [OF _ sample_evaluates])
    show "checks_hold ?P ?Q sample_env"
      by (simp add: checks_hold_def binding_holds_def sample_env_def sample_binding_def)
    show "parse_expr (raw_text (sample_raw ''o.is_some'')) = Ok (EMember (EIdent ''o'') ''is_some'')" by code_simp
    show "truth_of sample_value (EMember (EIdent ''o'') ''is_some'') = True" by (simp add: sample_value_def)
    show "branch_env sample_checker True (sample_raw ''o.is_some'') sample_env = Some ?env" by code_simp
    show "check_expr sample_checker (sample_raw ''o.value'') ?env {} None None = Some []" by code_simp
    show "checked_parse (sample_raw ''o.value'') = (Some (EMember (EIdent ''o'') ''value''), [])" by code_simp
    show "expr_type sample_checker ?env (EIdent ''o'') = Some (Some (TypeRef ''Option<Int>''))"
      by (simp add: sample_env_def sample_binding_def)
    show "resolve_aliases sample_checker (TypeRef ''Option<Int>'') = Some (TypeRef ''Option<Int>'')" by code_simp
    show "\<not> is_uncertain (TypeRef ''Option<Int>'')" by code_simp
  qed simp_all
  then show ?thesis by simp
qed

end
