(* ===== verification/Interpreter.thy ===== *)
theory Interpreter
  imports Values Ast
begin

text \<open>
  \<open>num-runtime/src/interpreter.rs\<close>, the execution of statements: the stack of scopes, match patterns
  that bind parts of a value, and \<open>exec_block\<close> with \<open>exec_stmt\<close>. The evaluation of expressions, which
  ends in calls of connectors, and the \<open>Display\<close> of values are arguments (\<open>evaluator\<close>); the security
  context is never written by the interpreter and is an argument, too. What the interpreter prints is
  left out, the trace it records for the debugger is not.
\<close>

section \<open>State\<close>

datatype trace_kind =
    WorkflowStarted | WorkflowCompleted | WorkflowFailed
  | ServiceRouteStarted | ServiceRouteCompleted | ServiceRouteFailed
  | StatementStarted | StatementCompleted
  | FunctionCalled | ActionCalled | ConnectorCalled | AuditLogged

text \<open>An event without the time at which it was recorded.\<close>

record trace_event =
  tr_sequence :: nat
  tr_kind :: trace_kind
  tr_target :: string
  tr_detail :: "string option"

datatype scan_decision = Scan_Pass "string option" | Scan_Suspicious "string option" | Scan_Block "string option"

fun scan_from_outcome :: "string \<Rightarrow> string option \<Rightarrow> string + scan_decision" where
  "scan_from_outcome outcome reason =
     (if outcome = ''pass'' then Ok (Scan_Pass reason)
      else if outcome = ''suspicious'' then Ok (Scan_Suspicious reason)
      else if outcome = ''block'' then Ok (Scan_Block reason)
      else Err (''Unknown AI scanner outcome: '' @ outcome))"

text \<open>
  The fields of \<open>Runtime\<close> that statements read or write; the others (module, connectors, costs, rate
  limits and so on) are the extension of the record. The last scope is the innermost one.
\<close>

record runtime =
  rt_scopes :: "(string \<rightharpoonup> rt_value) list"
  rt_audits :: "string list"
  rt_traces :: "trace_event list"
  rt_next_sequence :: nat
  rt_in_saga :: bool
  rt_rollbacks :: "raw_expr list"
  rt_ai_mocks :: "string \<rightharpoonup> rt_value"
  rt_ai_scans :: "string \<rightharpoonup> scan_decision"
  rt_connector_mocks :: "string \<rightharpoonup> rt_value"

text \<open>\<open>eval_expr\<close> and \<open>Display\<close>.\<close>

type_synonym 'x step = "('x runtime_scheme, string, rt_value) stm"

record 'x evaluator =
  ev_eval :: "raw_expr \<Rightarrow> 'x step"
  ev_show :: "rt_value \<Rightarrow> string"

datatype exec_signal = Continue | Return rt_value

definition record_trace :: "trace_kind \<Rightarrow> string \<Rightarrow> string option \<Rightarrow> 'x runtime_scheme \<Rightarrow> 'x runtime_scheme" where
  "record_trace k target detail st =
     st\<lparr>rt_next_sequence := min u64_max (rt_next_sequence st + 1),
        rt_traces := rt_traces st @
          [\<lparr>tr_sequence = rt_next_sequence st, tr_kind = k, tr_target = target, tr_detail = detail\<rparr>]\<rparr>"

section \<open>Scopes\<close>

definition push_scope :: "'x runtime_scheme \<Rightarrow> 'x runtime_scheme" where
  "push_scope st = st\<lparr>rt_scopes := rt_scopes st @ [Map.empty]\<rparr>"

definition pop_scope :: "'x runtime_scheme \<Rightarrow> 'x runtime_scheme" where
  "pop_scope st = st\<lparr>rt_scopes := butlast (rt_scopes st)\<rparr>"

definition set_var :: "string \<Rightarrow> rt_value \<Rightarrow> 'x runtime_scheme \<Rightarrow> 'x runtime_scheme" where
  "set_var name v st =
     (case rev (rt_scopes st) of
        [] \<Rightarrow> st
      | s # ss \<Rightarrow> st\<lparr>rt_scopes := rev (s(name \<mapsto> v) # ss)\<rparr>)"

text \<open>From the innermost scope outwards: the first one that has the name.\<close>

fun assign_in :: "string \<Rightarrow> rt_value \<Rightarrow> (string \<rightharpoonup> rt_value) list \<Rightarrow> (string \<rightharpoonup> rt_value) list option" where
  "assign_in name v [] = None"
| "assign_in name v (s # ss) =
     (if s name \<noteq> None then Some (s(name \<mapsto> v) # ss) else map_option ((#) s) (assign_in name v ss))"

definition assign_var :: "string \<Rightarrow> rt_value \<Rightarrow> 'x runtime_scheme \<Rightarrow> bool \<times> 'x runtime_scheme" where
  "assign_var name v st =
     (case assign_in name v (rev (rt_scopes st)) of
        None \<Rightarrow> (False, st)
      | Some ss \<Rightarrow> (True, st\<lparr>rt_scopes := rev ss\<rparr>))"

fun first_scope_with :: "string \<Rightarrow> (string \<rightharpoonup> rt_value) list \<Rightarrow> rt_value option" where
  "first_scope_with name [] = None"
| "first_scope_with name (s # ss) = (case s name of Some v \<Rightarrow> Some v | None \<Rightarrow> first_scope_with name ss)"

definition get_var :: "string \<Rightarrow> 'x runtime_scheme \<Rightarrow> rt_value option" where
  "get_var name st = first_scope_with name (rev (rt_scopes st))"

section \<open>Match patterns\<close>

definition in_quotes :: "string \<Rightarrow> string" where
  "in_quotes s = [CHR 0x27] @ s @ [CHR 0x27]"

definition discriminator :: "rt_value \<Rightarrow> string option" where
  "discriminator v =
     (case v of Enum _ variant _ \<Rightarrow> Some variant | Struct name _ \<Rightarrow> Some name | _ \<Rightarrow> None)"

fun match_pattern_matches :: "match_pattern \<Rightarrow> string option \<Rightarrow> bool" where
  "match_pattern_matches Wildcard d = True"
| "match_pattern_matches (Variant name _ _) d = (d = Some name)"

text \<open>\<open>let Value::Struct(name, fields) = value else { .. }\<close>, and the same for truth values.\<close>

definition as_struct :: "rt_value \<Rightarrow> (string \<times> (string, rt_value) fmap) option" where
  "as_struct v = (case v of Struct name vs \<Rightarrow> Some (name, vs) | _ \<Rightarrow> None)"

definition as_bool :: "rt_value \<Rightarrow> bool option" where
  "as_bool v = (case v of Bool b \<Rightarrow> Some b | _ \<Rightarrow> None)"

fun bind_pattern_binding ::
    "(rt_value \<Rightarrow> string) \<Rightarrow> match_binding \<Rightarrow> (string, rt_value) fmap \<Rightarrow> string \<Rightarrow> ('x runtime_scheme, string, unit) stm"
  and bind_pattern_bindings ::
    "(rt_value \<Rightarrow> string) \<Rightarrow> match_binding list \<Rightarrow> (string, rt_value) fmap \<Rightarrow> string \<Rightarrow> ('x runtime_scheme, string, unit) stm"
where
  "bind_pattern_binding display (MatchBinding fld name nested_type nested) vs tname st =
     (case fmlookup vs fld of
        None \<Rightarrow> (Err (''Field '' @ in_quotes fld @ '' not found while destructuring '' @ tname), st)
      | Some v \<Rightarrow>
          (if nested \<noteq> [] then
             (case as_struct v of
                Some (itype, inner) \<Rightarrow> bind_pattern_bindings display nested inner itype st
              | None \<Rightarrow> (Err (''Cannot nested-destructure non-struct field '' @ in_quotes fld @ '': '' @ display v), st))
           else (Ok (), set_var name v st)))"
| "bind_pattern_bindings display [] vs tname st = (Ok (), st)"
| "bind_pattern_bindings display (b # bs) vs tname st =
     (case bind_pattern_binding display b vs tname st of
        (Err e, st') \<Rightarrow> (Err e, st')
      | (Ok _, st') \<Rightarrow> bind_pattern_bindings display bs vs tname st')"

definition bind_match_pattern :: "(rt_value \<Rightarrow> string) \<Rightarrow> match_pattern \<Rightarrow> rt_value \<Rightarrow> ('x runtime_scheme, string, unit) stm" where
  "bind_match_pattern display p v st =
     (case p of
        Wildcard \<Rightarrow> (Ok (), st)
      | Variant _ (Some payload_pattern) _ \<Rightarrow>
          (case v of
             Enum _ _ (Some payload) \<Rightarrow>
               (case payload_pattern of
                  Binding name \<Rightarrow> (Ok (), set_var name payload st)
                | Destructure tname bs \<Rightarrow>
                    (case as_struct payload of
                       Some (ptype, vs) \<Rightarrow>
                         (if ptype \<noteq> tname
                          then (Err (''Cannot destructure enum payload as '' @ tname @ '': found '' @ ptype), st)
                          else bind_pattern_bindings display bs vs ptype st)
                     | None \<Rightarrow> (Err (''Cannot destructure non-struct enum payload: '' @ display payload), st)))
           | _ \<Rightarrow> (Err (''Cannot bind missing enum payload from: '' @ display v), st))
      | Variant _ None bs \<Rightarrow>
          (if bs = [] then (Ok (), st)
           else
             (case as_struct v of
                Some (tname, vs) \<Rightarrow> bind_pattern_bindings display bs vs tname st
              | None \<Rightarrow> (Err (''Cannot destructure non-struct match value: '' @ display v), st))))"

section \<open>Targets of mocks\<close>

definition format_call_label :: "string \<Rightarrow> string" where
  "format_call_label txt =
     fold (\<lambda>(a, b). replace a b)
       [('' . '', ''.''), (''. '', ''.''), ('' .'', ''.''), ('' ( '', ''(''), ('' ('', ''(''), (''( '', ''(''),
        ('' )'', '')''), ('' , '', '', ''), ('' ,'', '','')]
       (trim txt)"

definition mock_ai_target_text :: "string \<Rightarrow> string + string" where
  "mock_ai_target_text txt =
     (let label = format_call_label txt in
      case find_str ''('' label of
        None \<Rightarrow> Err (''AI mock target is not a call: '' @ label)
      | Some paren \<Rightarrow>
          (let target = trim (take paren label) in
           if starts_with ''ai.'' target \<and> length ''ai.'' < length target then Ok target
           else Err (''AI mock target must be an ai.* call: '' @ label)))"

definition mock_connector_target :: "string \<Rightarrow> string + string" where
  "mock_connector_target txt =
     (let label = format_call_label txt in
      case find_str ''('' label of
        None \<Rightarrow> Err (''Connector mock target is not a call: '' @ label)
      | Some paren \<Rightarrow>
          (let target = trim (take paren label) in
           if starts_with ''ai.'' target then Err (''AI connector mocks must use mock_ai: '' @ label)
           else if CHR ''.'' \<in> set target then Ok target
           else Err (''Connector mock target must be a connector method call: '' @ label)))"

fun stmt_trace_target :: "stmt \<Rightarrow> string" where
  "stmt_trace_target (Let_Stmt s) = ''let '' @ let_name s"
| "stmt_trace_target (Assign_Stmt s) = ''assign '' @ assign_name s"
| "stmt_trace_target (Assert_Stmt s) = ''assert '' @ raw_text (assert_expr s)"
| "stmt_trace_target (ExpectPolicy_Stmt outcome _ _) =
     (case outcome of Policy_Allow \<Rightarrow> ''expect_allow'' | Policy_Deny \<Rightarrow> ''expect_deny'')"
| "stmt_trace_target (ExpectWorkflow_Stmt s) =
     (case expect_outcome s of
        Workflow_Success \<Rightarrow> ''expect_workflow_success'' | Workflow_Failure \<Rightarrow> ''expect_workflow_failure'')"
| "stmt_trace_target (ExpectAudit_Stmt s) = ''expect_audit '' @ raw_text (audit_event s)"
| "stmt_trace_target (MockAi_Stmt s) = ''mock_ai '' @ format_call_label (raw_text (mock_call s))"
| "stmt_trace_target (MockAiScan_Stmt s) = ''mock_ai_scan '' @ format_call_label (raw_text (scan_call s))"
| "stmt_trace_target (MockConnector_Stmt s) = ''mock_connector '' @ format_call_label (raw_text (connector_call s))"
| "stmt_trace_target (Require_Stmt s) = ''require '' @ require_stmt.require_permission s"
| "stmt_trace_target (Transaction_Stmt saga _ _) = (if saga then ''transaction saga'' else ''transaction'')"
| "stmt_trace_target (If_Stmt _ _ _ _) = ''if''"
| "stmt_trace_target (Scope_Stmt _ _) = ''scope''"
| "stmt_trace_target (Match_Stmt _ _ _) = ''match''"
| "stmt_trace_target (Return_Stmt raw) = ''return '' @ raw_text raw"
| "stmt_trace_target (Expr_Stmt raw) = raw_text raw"

section \<open>Statements without a block\<close>

type_synonym 'x exec = "('x runtime_scheme, string, exec_signal) stm"

definition continue_in :: "('x runtime_scheme \<Rightarrow> 'x runtime_scheme) \<Rightarrow> 'x exec" where
  "continue_in f st = (Ok Continue, f st)"

definition exec_let :: "'x evaluator \<Rightarrow> let_stmt \<Rightarrow> 'x exec" where
  "exec_let ev s =
     rbind (case let_expr s of Some raw \<Rightarrow> ev_eval ev raw | None \<Rightarrow> rreturn Null)
       (\<lambda>v. continue_in (set_var (let_name s) v))"

definition exec_assign :: "'x evaluator \<Rightarrow> assign_stmt \<Rightarrow> 'x exec" where
  "exec_assign ev s =
     rbind (ev_eval ev (assign_expr s)) (\<lambda>v st.
       (case assign_var (assign_name s) v st of
          (True, st') \<Rightarrow> (Ok Continue, st')
        | (False, st') \<Rightarrow> (Err (''Unknown assignment target '' @ in_quotes (assign_name s)), st')))"

definition exec_assert :: "'x evaluator \<Rightarrow> assert_stmt \<Rightarrow> 'x exec" where
  "exec_assert ev s =
     rbind (ev_eval ev (assert_expr s)) (\<lambda>v.
       case as_bool v of
         Some True \<Rightarrow> rreturn Continue
       | Some False \<Rightarrow> rthrow (''assertion failed: '' @ trim (raw_text (assert_expr s)))
       | None \<Rightarrow> rthrow (''assertion evaluated to non-boolean: '' @ ev_show ev v))"

text \<open>A workflow that fails as expected is caught: the state it leaves is kept.\<close>

definition exec_expect_workflow :: "'x evaluator \<Rightarrow> expect_workflow_stmt \<Rightarrow> 'x exec" where
  "exec_expect_workflow ev s st =
     (let label = [CHR 0x60] @ format_call_label (raw_text (expect_call s)) @ [CHR 0x60];
          (r, st') = ev_eval ev (expect_call s) st in
      (case (expect_outcome s, r) of
         (Workflow_Success, Ok _) \<Rightarrow> Ok Continue
       | (Workflow_Success, Err e) \<Rightarrow> Err (''expected workflow success for '' @ label @ '', got: '' @ e)
       | (Workflow_Failure, Ok _) \<Rightarrow> Err (''expected workflow failure for '' @ label @ '', but it succeeded'')
       | (Workflow_Failure, Err e) \<Rightarrow> Ok Continue,
       st'))"

definition comma_list :: "string list \<Rightarrow> string" where
  "comma_list names = concat (case names of [] \<Rightarrow> [] | n # ns \<Rightarrow> n # map (\<lambda>m. '', '' @ m) ns)"

definition exec_expect_audit :: "'x evaluator \<Rightarrow> expect_audit_stmt \<Rightarrow> 'x exec" where
  "exec_expect_audit ev s =
     rbind (ev_eval ev (audit_event s)) (\<lambda>v st.
       (if ev_show ev v \<in> set (rt_audits st) then Ok Continue
        else Err (''expected audit event '' @ ev_show ev v @ '', observed ['' @ comma_list (rt_audits st) @ '']''), st))"

definition exec_mock_ai :: "'x evaluator \<Rightarrow> mock_ai_stmt \<Rightarrow> 'x exec" where
  "exec_mock_ai ev s =
     rbind (rlift (mock_ai_target_text (raw_text (mock_call s)))) (\<lambda>target.
     rbind (ev_eval ev (mock_value s)) (\<lambda>v.
     rbind (ev_eval ev (mock_confidence s)) (\<lambda>conf.
     rbind (case conf of
              Float f \<Rightarrow> rreturn f
            | Integer i \<Rightarrow> rreturn (f64_of_int i)
            | _ \<Rightarrow> rthrow (''AI mock confidence evaluated to non-number: '' @ ev_show ev conf)) (\<lambda>f.
     continue_in (\<lambda>st. st\<lparr>rt_ai_mocks := (rt_ai_mocks st)(target \<mapsto> Uncertain v f)\<rparr>)))))"

definition exec_mock_ai_scan :: "'x evaluator \<Rightarrow> mock_ai_scan_stmt \<Rightarrow> 'x exec" where
  "exec_mock_ai_scan ev s =
     rbind (rlift (mock_ai_target_text (raw_text (scan_call s)))) (\<lambda>target.
     rbind (case scan_reason s of
              Some raw \<Rightarrow> rbind (ev_eval ev raw) (\<lambda>v. rreturn (Some (ev_show ev v)))
            | None \<Rightarrow> rreturn None) (\<lambda>reason.
     rbind (rlift (scan_from_outcome (scan_outcome s) reason)) (\<lambda>decision.
     continue_in (\<lambda>st. st\<lparr>rt_ai_scans := (rt_ai_scans st)(target \<mapsto> decision)\<rparr>))))"

definition exec_mock_connector :: "'x evaluator \<Rightarrow> mock_connector_stmt \<Rightarrow> 'x exec" where
  "exec_mock_connector ev s =
     rbind (rlift (mock_connector_target (raw_text (connector_call s)))) (\<lambda>target.
     rbind (ev_eval ev (connector_value s)) (\<lambda>v.
     continue_in (\<lambda>st. st\<lparr>rt_connector_mocks := (rt_connector_mocks st)(target \<mapsto> v)\<rparr>)))"

definition exec_require :: "security_context \<Rightarrow> require_stmt \<Rightarrow> 'x exec" where
  "exec_require sec s =
     (if has_permission sec (require_stmt.require_permission s) then rreturn Continue
      else rthrow (''Security Violation: Missing required permission '' @ in_quotes (require_stmt.require_permission s)))"

section \<open>Blocks\<close>

text \<open>
  A failed saga takes the compensations that were registered inside it and evaluates them, the last one
  first; what they return is ignored.
\<close>

definition run_rollbacks :: "'x evaluator \<Rightarrow> nat \<Rightarrow> 'x runtime_scheme \<Rightarrow> 'x runtime_scheme" where
  "run_rollbacks ev before st =
     fold (\<lambda>raw st. snd (ev_eval ev raw st)) (rev (drop before (rt_rollbacks st)))
       (st\<lparr>rt_rollbacks := take before (rt_rollbacks st)\<rparr>)"

definition close_saga :: "'x evaluator \<Rightarrow> bool \<Rightarrow> nat \<Rightarrow> (string + exec_signal) \<times> 'x runtime_scheme \<Rightarrow> (string + exec_signal) \<times> 'x runtime_scheme" where
  "close_saga ev was before res =
     (let (r, st) = res; st' = st\<lparr>rt_in_saga := was\<rparr> in
      case r of Ok sg \<Rightarrow> (Ok sg, st') | Err e \<Rightarrow> (Err e, run_rollbacks ev before st'))"

text \<open>After the body of a branch: the scope is only closed when the body has not failed.\<close>

definition leave_branch :: "(string + exec_signal) \<times> 'x runtime_scheme \<Rightarrow> (string + exec_signal) \<times> 'x runtime_scheme" where
  "leave_branch res = (let (r, st) = res in case r of Ok sg \<Rightarrow> (Ok sg, pop_scope st) | Err e \<Rightarrow> (Err e, st))"

definition leave_scope :: "(string + exec_signal) \<times> 'x runtime_scheme \<Rightarrow> (string + exec_signal) \<times> 'x runtime_scheme" where
  "leave_scope res = (let (r, st) = res in (r, pop_scope st))"

text \<open>Whether the arm is taken, in its own scope, which is closed again when its guard says no.\<close>

definition guard_holds :: "'x evaluator \<Rightarrow> raw_expr option \<Rightarrow> ('x runtime_scheme, string, bool) stm" where
  "guard_holds ev guard =
     (case guard of
        None \<Rightarrow> rreturn True
      | Some raw \<Rightarrow>
          rbind (ev_eval ev raw) (\<lambda>v st.
            (case as_bool v of
               Some True \<Rightarrow> (Ok True, st)
             | Some False \<Rightarrow> (Ok False, pop_scope st)
             | None \<Rightarrow> (Err (''Match guard evaluated to non-boolean: '' @ ev_show ev v), pop_scope st))))"

definition enter_arm :: "'x evaluator \<Rightarrow> match_pattern \<Rightarrow> raw_expr option \<Rightarrow> rt_value \<Rightarrow> ('x runtime_scheme, string, bool) stm" where
  "enter_arm ev pattern guard v st =
     rbind (bind_match_pattern (ev_show ev) pattern v) (\<lambda>_. guard_holds ev guard) (push_scope st)"

fun exec_stmt :: "'x evaluator \<Rightarrow> security_context \<Rightarrow> stmt \<Rightarrow> 'x runtime_scheme \<Rightarrow> (string + exec_signal) \<times> 'x runtime_scheme"
  and exec_block :: "'x evaluator \<Rightarrow> security_context \<Rightarrow> stmt list \<Rightarrow> 'x runtime_scheme \<Rightarrow> (string + exec_signal) \<times> 'x runtime_scheme"
  and exec_arms :: "'x evaluator \<Rightarrow> security_context \<Rightarrow> rt_value \<Rightarrow> match_arm list \<Rightarrow> 'x runtime_scheme \<Rightarrow> (string + exec_signal) \<times> 'x runtime_scheme"
where
  "exec_stmt ev sec (Let_Stmt s) st = exec_let ev s st"
| "exec_stmt ev sec (Assign_Stmt s) st = exec_assign ev s st"
| "exec_stmt ev sec (Assert_Stmt s) st = exec_assert ev s st"
| "exec_stmt ev sec (ExpectPolicy_Stmt _ _ _) st = (Ok Continue, st)"
| "exec_stmt ev sec (ExpectWorkflow_Stmt s) st = exec_expect_workflow ev s st"
| "exec_stmt ev sec (ExpectAudit_Stmt s) st = exec_expect_audit ev s st"
| "exec_stmt ev sec (MockAi_Stmt s) st = exec_mock_ai ev s st"
| "exec_stmt ev sec (MockAiScan_Stmt s) st = exec_mock_ai_scan ev s st"
| "exec_stmt ev sec (MockConnector_Stmt s) st = exec_mock_connector ev s st"
| "exec_stmt ev sec (Require_Stmt s) st = exec_require sec s st"
| "exec_stmt ev sec (Transaction_Stmt saga body _) st =
     (if saga
      then close_saga ev (rt_in_saga st) (length (rt_rollbacks st))
             (leave_scope (exec_block ev sec body (push_scope (st\<lparr>rt_in_saga := True\<rparr>))))
      else leave_scope (exec_block ev sec body (push_scope st)))"
| "exec_stmt ev sec (Scope_Stmt body _) st = leave_scope (exec_block ev sec body (push_scope st))"
| "exec_stmt ev sec (If_Stmt cond then_body else_body _) st =
     (case ev_eval ev cond st of
        (Err e, st1) \<Rightarrow> (Err e, st1)
      | (Ok v, st1) \<Rightarrow>
          (case as_bool v of
             Some b \<Rightarrow>
               (if b then leave_branch (exec_block ev sec then_body (push_scope st1))
                else leave_branch (exec_block ev sec else_body (push_scope st1)))
           | None \<Rightarrow> (Err (''If condition evaluated to non-boolean: '' @ ev_show ev v), st1)))"
| "exec_stmt ev sec (Match_Stmt raw arms _) st =
     (case ev_eval ev raw st of
        (Err e, st1) \<Rightarrow> (Err e, st1)
      | (Ok v, st1) \<Rightarrow> exec_arms ev sec v arms st1)"
| "exec_stmt ev sec (Return_Stmt raw) st =
     (case ev_eval ev raw st of (Err e, st1) \<Rightarrow> (Err e, st1) | (Ok v, st1) \<Rightarrow> (Ok (Return v), st1))"
| "exec_stmt ev sec (Expr_Stmt raw) st =
     (case ev_eval ev raw st of (Err e, st1) \<Rightarrow> (Err e, st1) | (Ok v, st1) \<Rightarrow> (Ok Continue, st1))"
| "exec_block ev sec [] st = (Ok Continue, st)"
| "exec_block ev sec (s # ss) st =
     (case exec_stmt ev sec s (record_trace StatementStarted (stmt_trace_target s) None st) of
        (Err e, st1) \<Rightarrow> (Err e, st1)
      | (Ok Continue, st1) \<Rightarrow>
          exec_block ev sec ss (record_trace StatementCompleted (stmt_trace_target s) None st1)
      | (Ok (Return v), st1) \<Rightarrow>
          (Ok (Return v), record_trace StatementCompleted (stmt_trace_target s) (Some ''return'') st1))"
| "exec_arms ev sec v [] st = (Err (''No match arm for '' @ ev_show ev v), st)"
| "exec_arms ev sec v (MatchArm pattern guard body _ # arms) st =
     (if \<not> match_pattern_matches pattern (discriminator v) then exec_arms ev sec v arms st
      else
        (case enter_arm ev pattern guard v st of
           (Err e, st1) \<Rightarrow> (Err e, st1)
         | (Ok True, st1) \<Rightarrow> leave_branch (exec_block ev sec body st1)
         | (Ok False, st1) \<Rightarrow> exec_arms ev sec v arms st1))"

end
