(* ===== verification/Interpreter_Spec.thy ===== *)
theory Interpreter_Spec
  imports Interpreter Flow_Spec Semantic
begin

text \<open>
  The checker and the interpreter agree: in a body that the checker accepts, the interpreter evaluates
  no call of an action without the permissions of the action, and a body that has to return a value
  never runs off its end. Both hold for every evaluator of expressions.
\<close>

section \<open>Permissions\<close>

text \<open>The actions that an expression calls only need permissions of the security context.\<close>

definition call_permitted :: "checker \<Rightarrow> security_context \<Rightarrow> call_ref \<Rightarrow> bool" where
  "call_permitted c sec call \<longleftrightarrow>
     (case call_path call of
        [name] \<Rightarrow> (case ck_action_permissions c name of
                     None \<Rightarrow> True | Some required \<Rightarrow> list_all (has_permission sec) required)
      | _ \<Rightarrow> True)"

definition expr_permitted :: "checker \<Rightarrow> security_context \<Rightarrow> raw_expr \<Rightarrow> bool" where
  "expr_permitted c sec raw \<longleftrightarrow>
     (case fst (checked_parse raw) of None \<Rightarrow> True | Some e \<Rightarrow> list_all (call_permitted c sec) (calls e))"

text \<open>The evaluator that refuses every expression that is not permitted.\<close>

definition guarded :: "checker \<Rightarrow> security_context \<Rightarrow> 'x evaluator \<Rightarrow> 'x evaluator" where
  "guarded c sec ev =
     ev\<lparr>ev_eval := \<lambda>raw st. if expr_permitted c sec raw then ev_eval ev raw st else (Err ''Security Violation'', st)\<rparr>"

definition holds_all :: "security_context \<Rightarrow> string set \<Rightarrow> bool" where
  "holds_all sec granted \<longleftrightarrow> (\<forall>p \<in> granted. has_permission sec p)"

text \<open>Compensations are built while the program runs, so the checker does not see them.\<close>

definition rollbacks_permitted :: "checker \<Rightarrow> security_context \<Rightarrow> 'x runtime_scheme \<Rightarrow> bool" where
  "rollbacks_permitted c sec st \<longleftrightarrow> list_all (expr_permitted c sec) (rt_rollbacks st)"

definition keeps_rollbacks_permitted :: "checker \<Rightarrow> security_context \<Rightarrow> 'x evaluator \<Rightarrow> bool" where
  "keeps_rollbacks_permitted c sec ev \<longleftrightarrow>
     (\<forall>raw st. rollbacks_permitted c sec st \<longrightarrow> rollbacks_permitted c sec (snd (ev_eval ev raw st)))"

lemma guarded_show [simp]: "ev_show (guarded c sec ev) = ev_show ev"
  by (simp add: guarded_def)

lemma guarded_eval [simp]: "expr_permitted c sec raw \<Longrightarrow> ev_eval (guarded c sec ev) raw = ev_eval ev raw"
  by (simp add: guarded_def fun_eq_iff)

lemma checked_expr_permitted:
  assumes "check_expr c raw env granted ret expected = Some ds" and "no_code ''N2500'' ds"
    and "holds_all sec granted"
  shows "expr_permitted c sec raw"
proof (cases "checked_parse raw")
  case (Pair e es)
  then show ?thesis
  proof (cases e)
    case None
    then show ?thesis using Pair by (simp add: expr_permitted_def)
  next
    case (Some x)
    then have "set (action_permission c raw x granted) \<subseteq> set ds"
      using check_expr_part [OF assms(1), of x es "Some (action_permission c raw x granted)"] Pair by simp
    then have none: "no_code ''N2500'' (action_permission c raw x granted)"
      using no_code_subset [OF assms(2)] by blast
    have "call_permitted c sec call" if "call \<in> set (calls x)" for call
    proof -
      have "no_code ''N2500'' (action_permission_call c raw granted call)"
        using no_code_subset [OF none] that by (auto simp: action_permission_def)
      then have "filter (\<lambda>p. p \<notin> granted) required = []"
        if "call_path call = [name]" "ck_action_permissions c name = Some required" for name required
        using that by (auto simp: action_permission_call_def no_code_def list_all_iff filter_empty_conv)
      then show ?thesis
        using assms(3)
        by (auto simp: call_permitted_def holds_all_def list_all_iff filter_empty_conv split: list.split option.split)
    qed
    then show ?thesis using Some Pair by (simp add: expr_permitted_def list_all_iff)
  qed
qed

text \<open>What a run has required holds when it goes on.\<close>

lemma holds_all_insert [simp]: "holds_all sec (insert p granted) \<longleftrightarrow> has_permission sec p \<and> holds_all sec granted"
  by (auto simp: holds_all_def)

lemma leave_simps:
  "leave_scope (r, st) = (r, pop_scope st)"
  "leave_branch (Ok sg, st) = (Ok sg, pop_scope st)" "leave_branch (Err e, st) = (Err e, st)"
  "close_saga ev was before (Ok sg, st) = (Ok sg, st\<lparr>rt_in_saga := was\<rparr>)"
  "close_saga ev was before (Err e, st) = (Err e, run_rollbacks ev before (st\<lparr>rt_in_saga := was\<rparr>))"
  by (simp_all add: leave_scope_def leave_branch_def close_saga_def)

lemma fst_leave [simp]:
  "fst (leave_scope res) = fst res" "fst (leave_branch res) = fst res" "fst (close_saga ev was before res) = fst res"
  by (cases res; cases "fst res"; simp add: leave_simps)+

lemma granted_hold:
  "check_stmt c ret kd s est = Some (ds, env', granted') \<Longrightarrow> holds_all sec (snd est) \<Longrightarrow>
     fst (exec_stmt ev sec s st) = Ok Continue \<Longrightarrow> holds_all sec granted'"
  "check_stmts c ret kd ss est = Some (ds, env', granted') \<Longrightarrow> holds_all sec (snd est) \<Longrightarrow>
     fst (exec_block ev sec ss st) = Ok Continue \<Longrightarrow> holds_all sec granted'"
  "check_arms c ret kd domain parsed arms est = Some ds \<Longrightarrow> True"
proof (induction c ret kd s est and c ret kd ss est and c ret kd domain parsed arms est
    arbitrary: ds env' granted' st and ds env' granted' st and ds
    rule: check_stmt_check_stmts_check_arms.induct)
  case (10 c ret kd s env granted)
  then show ?case by (auto simp: exec_require_def split: if_splits)
next
  case (11 c ret kd saga body sp env granted)
  obtain es where body: "check_stmts c ret kd body (env, granted) = Some (es, env', granted')"
    using "11.prems"(1) by auto
  show ?case
    using "11.IH" [OF body] "11.prems"(2,3) by (simp split: if_splits)
next
  case (12 c ret kd body sp env granted)
  obtain es e where body: "check_stmts c ret kd body (env, granted) = Some (es, e, granted')"
    using "12.prems"(1) by auto
  show ?case using "12.IH" [OF body] "12.prems"(2,3) by simp
next
  case (18 c ret kd s ss est)
  obtain ds1 env1 granted1 ds2 where first: "check_stmt c ret kd s est = Some (ds1, env1, granted1)"
    and later: "check_stmts c ret kd ss (env1, granted1) = Some (ds2, env', granted')"
    using "18.prems"(1) by (auto split: bind_splits)
  let ?st = "record_trace StatementStarted (stmt_trace_target s) None st"
  obtain st1 where go: "exec_stmt ev sec s ?st = (Ok Continue, st1)"
    and rest: "fst (exec_block ev sec ss (record_trace StatementCompleted (stmt_trace_target s) None st1)) = Ok Continue"
    using "18.prems"(3) by (cases "exec_stmt ev sec s ?st"; cases "fst (exec_stmt ev sec s ?st)")
      (auto split: exec_signal.splits)
  have "holds_all sec granted1" using "18.IH"(1) [OF first "18.prems"(2), of ?st] go by simp
  then show ?case using "18.IH"(2) [OF first refl later _ rest] by simp
qed (auto simp: unchanged_def changed_env_def split: bind_splits prod.splits)

section \<open>The guard is never needed\<close>

text \<open>Two methods that do the same as long as the compensations are permitted, and keep them so.\<close>

definition agree :: "checker \<Rightarrow> security_context \<Rightarrow> ('x runtime_scheme, 'e, 'a) stm \<Rightarrow> ('x runtime_scheme, 'e, 'a) stm \<Rightarrow> bool" where
  "agree c sec m m' \<longleftrightarrow>
     (\<forall>st. rollbacks_permitted c sec st \<longrightarrow> m st = m' st \<and> rollbacks_permitted c sec (snd (m' st)))"

named_theorems agrees \<open>methods that agree\<close>

lemma agreeD:
  assumes "agree c sec m m'" and "rollbacks_permitted c sec st"
  shows "m st = m' st" "rollbacks_permitted c sec (snd (m' st))"
  using assms by (simp_all add: agree_def)

lemma agree_same: "(\<And>st. rt_rollbacks (snd (m st)) = rt_rollbacks st) \<Longrightarrow> agree c sec m m"
  by (simp add: agree_def rollbacks_permitted_def)

lemma agree_bind [agrees]:
  fixes m m' :: "('x runtime_scheme, 'e, 'a) stm"
  assumes "agree c sec m m'" and "\<And>x. agree c sec (f x) (f' x)"
  shows "agree c sec (rbind m f) (rbind m' f')"
  unfolding agree_def
proof (intro allI impI)
  fix st :: "'x runtime_scheme" assume st: "rollbacks_permitted c sec st"
  obtain r st' where m': "m' st = (r, st')" by fastforce
  then have "m st = (r, st')" "rollbacks_permitted c sec st'" using agreeD [OF assms(1) st] by simp_all
  then show "rbind m f st = rbind m' f' st \<and> rollbacks_permitted c sec (snd (rbind m' f' st))"
    using m' agreeD [OF assms(2)] by (cases r) (simp_all add: rbind_def)
qed

lemma agree_pure [agrees]:
  "agree c sec (rreturn x) (rreturn x)" "agree c sec (rthrow e) (rthrow e)" "agree c sec (rlift r) (rlift r)"
  by (simp_all add: agree_same)

lemma agree_eval [agrees]:
  "expr_permitted c sec raw \<Longrightarrow> keeps_rollbacks_permitted c sec ev \<Longrightarrow>
     agree c sec (ev_eval (guarded c sec ev) raw) (ev_eval ev raw)"
  by (simp add: agree_def keeps_rollbacks_permitted_def)

lemma rollbacks_of_scopes [simp]:
  "rt_rollbacks (push_scope st) = rt_rollbacks st" "rt_rollbacks (pop_scope st) = rt_rollbacks st"
  "rt_rollbacks (set_var name v st) = rt_rollbacks st" "rt_rollbacks (snd (assign_var name v st)) = rt_rollbacks st"
  "rt_rollbacks (record_trace k t d st) = rt_rollbacks st"
  by (simp_all add: push_scope_def pop_scope_def set_var_def assign_var_def record_trace_def
      split: list.split option.split)

lemma agree_continue [agrees]:
  "(\<And>st. rt_rollbacks (f st) = rt_rollbacks st) \<Longrightarrow> agree c sec (continue_in f) (continue_in f)"
  by (intro agree_same) (simp add: continue_in_def)

lemma agree_option [agrees]:
  "(x = None \<Longrightarrow> agree c sec m m') \<Longrightarrow> (\<And>y. x = Some y \<Longrightarrow> agree c sec (f y) (f' y)) \<Longrightarrow>
     agree c sec (case x of None \<Rightarrow> m | Some y \<Rightarrow> f y) (case x of None \<Rightarrow> m' | Some y \<Rightarrow> f' y)"
  by (cases x) simp_all

text \<open>Statements without a block.\<close>

lemma agree_assign_var:
  "agree c sec
     (\<lambda>st. case assign_var name v st of (True, st') \<Rightarrow> (Ok Continue, st') | (False, st') \<Rightarrow> (Err e, st'))
     (\<lambda>st. case assign_var name v st of (True, st') \<Rightarrow> (Ok Continue, st') | (False, st') \<Rightarrow> (Err e, st'))"
proof (rule agree_same)
  fix st :: "'a runtime_scheme"
  show "rt_rollbacks (snd (case assign_var name v st of
      (True, st') \<Rightarrow> (Ok Continue, st') | (False, st') \<Rightarrow> (Err e, st'))) = rt_rollbacks st"
    using rollbacks_of_scopes(4) [of name v st] by (cases "assign_var name v st"; cases "fst (assign_var name v st)") simp_all
qed

lemma agree_simple:
  assumes "keeps_rollbacks_permitted c sec ev"
  shows "(\<And>raw. let_expr s1 = Some raw \<Longrightarrow> expr_permitted c sec raw) \<Longrightarrow>
      agree c sec (exec_let (guarded c sec ev) s1) (exec_let ev s1)"
    and "expr_permitted c sec (assign_expr s2) \<Longrightarrow> agree c sec (exec_assign (guarded c sec ev) s2) (exec_assign ev s2)"
    and "expr_permitted c sec (assert_expr s3) \<Longrightarrow> agree c sec (exec_assert (guarded c sec ev) s3) (exec_assert ev s3)"
    and "expr_permitted c sec (audit_event s4) \<Longrightarrow>
      agree c sec (exec_expect_audit (guarded c sec ev) s4) (exec_expect_audit ev s4)"
    and "expr_permitted c sec (mock_value s5) \<Longrightarrow> expr_permitted c sec (mock_confidence s5) \<Longrightarrow>
      agree c sec (exec_mock_ai (guarded c sec ev) s5) (exec_mock_ai ev s5)"
    and "(\<And>raw. scan_reason s6 = Some raw \<Longrightarrow> expr_permitted c sec raw) \<Longrightarrow>
      agree c sec (exec_mock_ai_scan (guarded c sec ev) s6) (exec_mock_ai_scan ev s6)"
    and "expr_permitted c sec (connector_value s7) \<Longrightarrow>
      agree c sec (exec_mock_connector (guarded c sec ev) s7) (exec_mock_connector ev s7)"
    and "agree c sec (exec_require sec s8) (exec_require sec s8)"
    and "expr_permitted c sec (expect_call s9) \<Longrightarrow>
      agree c sec (exec_expect_workflow (guarded c sec ev) s9) (exec_expect_workflow ev s9)"
proof -
  note eval = agree_eval [OF _ assms]
  show "(\<And>raw. let_expr s1 = Some raw \<Longrightarrow> expr_permitted c sec raw) \<Longrightarrow>
      agree c sec (exec_let (guarded c sec ev) s1) (exec_let ev s1)"
    unfolding exec_let_def by (intro agrees eval) simp_all
  show "expr_permitted c sec (assign_expr s2) \<Longrightarrow> agree c sec (exec_assign (guarded c sec ev) s2) (exec_assign ev s2)"
    unfolding exec_assign_def by (intro agree_bind eval agree_assign_var)
  show "expr_permitted c sec (assert_expr s3) \<Longrightarrow> agree c sec (exec_assert (guarded c sec ev) s3) (exec_assert ev s3)"
    unfolding exec_assert_def guarded_show by (intro agree_bind eval agree_same) (simp_all split: option.split bool.split)
  show "expr_permitted c sec (audit_event s4) \<Longrightarrow>
      agree c sec (exec_expect_audit (guarded c sec ev) s4) (exec_expect_audit ev s4)"
    unfolding exec_expect_audit_def guarded_show by (intro agree_bind eval agree_same) simp_all
  show "expr_permitted c sec (mock_value s5) \<Longrightarrow> expr_permitted c sec (mock_confidence s5) \<Longrightarrow>
      agree c sec (exec_mock_ai (guarded c sec ev) s5) (exec_mock_ai ev s5)"
    unfolding exec_mock_ai_def guarded_show
    by (intro agree_bind eval agree_pure agree_continue agree_same) (simp_all split: rt_value.split)
  show "(\<And>raw. scan_reason s6 = Some raw \<Longrightarrow> expr_permitted c sec raw) \<Longrightarrow>
      agree c sec (exec_mock_ai_scan (guarded c sec ev) s6) (exec_mock_ai_scan ev s6)"
    unfolding exec_mock_ai_scan_def guarded_show by (intro agrees eval) simp_all
  show "expr_permitted c sec (connector_value s7) \<Longrightarrow>
      agree c sec (exec_mock_connector (guarded c sec ev) s7) (exec_mock_connector ev s7)"
    unfolding exec_mock_connector_def by (intro agrees eval) simp_all
  show "agree c sec (exec_require sec s8) (exec_require sec s8)"
    by (rule agree_same) (simp add: exec_require_def)
  show "expr_permitted c sec (expect_call s9) \<Longrightarrow>
      agree c sec (exec_expect_workflow (guarded c sec ev) s9) (exec_expect_workflow ev s9)"
    using assms by (auto simp: agree_def keeps_rollbacks_permitted_def exec_expect_workflow_def Let_def split: prod.split)
      (metis snd_conv)
qed

text \<open>Blocks.\<close>

lemma agree_leave:
  fixes m m' :: "'x exec"
  assumes "agree c sec m m'"
  shows "agree c sec (\<lambda>st. leave_scope (m st)) (\<lambda>st. leave_scope (m' st))"
    and "agree c sec (\<lambda>st. leave_branch (m st)) (\<lambda>st. leave_branch (m' st))"
proof -
  have "rollbacks_permitted c sec (snd (leave_scope res)) = rollbacks_permitted c sec (snd res)"
      "rollbacks_permitted c sec (snd (leave_branch res)) = rollbacks_permitted c sec (snd res)"
    for res :: "(string + exec_signal) \<times> 'x runtime_scheme"
    by (cases res; cases "fst res"; simp add: leave_simps leave_scope_def rollbacks_permitted_def)+
  then show "agree c sec (\<lambda>st. leave_scope (m st)) (\<lambda>st. leave_scope (m' st))"
    and "agree c sec (\<lambda>st. leave_branch (m st)) (\<lambda>st. leave_branch (m' st))"
    using assms by (simp_all add: agree_def)
qed

lemma agree_inside:
  assumes "agree c sec m m'" and "\<And>st. rt_rollbacks (f st) = rt_rollbacks st"
  shows "agree c sec (\<lambda>st. m (f st)) (\<lambda>st. m' (f st))"
  using assms by (simp add: agree_def rollbacks_permitted_def)

lemma run_rollbacks_agree:
  assumes "keeps_rollbacks_permitted c sec ev" and "rollbacks_permitted c sec st"
  shows "run_rollbacks (guarded c sec ev) before st = run_rollbacks ev before st"
    and "rollbacks_permitted c sec (run_rollbacks ev before st)"
proof -
  have fold: "fold (\<lambda>raw st. snd (ev_eval (guarded c sec ev) raw st)) raws st = fold (\<lambda>raw st. snd (ev_eval ev raw st)) raws st
      \<and> rollbacks_permitted c sec (fold (\<lambda>raw st. snd (ev_eval ev raw st)) raws st)"
    if "list_all (expr_permitted c sec) raws" "rollbacks_permitted c sec st" for raws st
    using that assms(1) by (induction raws arbitrary: st) (simp_all add: keeps_rollbacks_permitted_def)
  have "list_all (expr_permitted c sec) (rev (drop before (rt_rollbacks st)))"
    and "rollbacks_permitted c sec (st\<lparr>rt_rollbacks := take before (rt_rollbacks st)\<rparr>)"
    using assms(2) by (auto simp: rollbacks_permitted_def list_all_iff dest: in_set_takeD in_set_dropD)
  from fold [OF this]
  show "run_rollbacks (guarded c sec ev) before st = run_rollbacks ev before st"
    and "rollbacks_permitted c sec (run_rollbacks ev before st)"
    by (simp_all add: run_rollbacks_def)
qed

lemma agree_saga:
  fixes m m' :: "'x exec"
  assumes "keeps_rollbacks_permitted c sec ev" and "agree c sec m m'"
  shows "agree c sec (\<lambda>st. close_saga (guarded c sec ev) (was st) (before st) (m st))
      (\<lambda>st. close_saga ev (was st) (before st) (m' st))"
  unfolding agree_def
proof (intro allI impI)
  fix st :: "'x runtime_scheme" assume st: "rollbacks_permitted c sec st"
  obtain r st' where m': "m' st = (r, st')" by fastforce
  then have m: "m st = (r, st')" and "rollbacks_permitted c sec st'" using agreeD [OF assms(2) st] by simp_all
  then have "rollbacks_permitted c sec (st'\<lparr>rt_in_saga := was st\<rparr>)" by (simp add: rollbacks_permitted_def)
  then show "close_saga (guarded c sec ev) (was st) (before st) (m st) = close_saga ev (was st) (before st) (m' st)
      \<and> rollbacks_permitted c sec (snd (close_saga ev (was st) (before st) (m' st)))"
    using run_rollbacks_agree [OF assms(1)] unfolding m m' by (cases r) (simp_all add: leave_simps)
qed

text \<open>The evaluation of an expression, and what is done with its value.\<close>

lemma agree_then:
  fixes ev :: "'x evaluator"
  assumes "keeps_rollbacks_permitted c sec ev" and "expr_permitted c sec raw" and "\<And>v. agree c sec (f v) (f' v)"
  shows "agree c sec
     (\<lambda>st. case ev_eval (guarded c sec ev) raw st of (Err e, st1) \<Rightarrow> (Err e, st1) | (Ok v, st1) \<Rightarrow> f v st1)
     (\<lambda>st. case ev_eval ev raw st of (Err e, st1) \<Rightarrow> (Err e, st1) | (Ok v, st1) \<Rightarrow> f' v st1)"
proof -
  have bind: "(\<lambda>st. case m st of (Err e, st1) \<Rightarrow> (Err e, st1) | (Ok v, st1) \<Rightarrow> g v st1) = rbind m g"
    for m :: "'x step" and g :: "rt_value \<Rightarrow> ('x runtime_scheme, string, 'b) stm"
    by (auto simp: rbind_def fun_eq_iff split: prod.split sum.split)
  show ?thesis unfolding bind by (intro agree_bind agree_eval assms)
qed

lemma rollbacks_of_bindings [simp]:
  "rt_rollbacks (snd (bind_pattern_binding display b vs name st)) = rt_rollbacks st"
  "rt_rollbacks (snd (bind_pattern_bindings display bs vs name st)) = rt_rollbacks st"
proof (induction display b vs name st and display bs vs name st rule: bind_pattern_binding_bind_pattern_bindings.induct)
  case (1 display fld name nested_type nested vs tname st)
  show ?case
  proof (cases "fmlookup vs fld")
    case (Some v)
    then show ?thesis using "1.IH" by (cases "as_struct v") (auto split: prod.split)
  qed simp
next
  case (3 display b bs vs tname st)
  then show ?case
    by (cases "bind_pattern_binding display b vs tname st"; cases "fst (bind_pattern_binding display b vs tname st)")
      auto
qed simp

lemma agree_enter:
  fixes ev :: "'x evaluator"
  assumes "keeps_rollbacks_permitted c sec ev" and "\<And>raw. guard = Some raw \<Longrightarrow> expr_permitted c sec raw"
  shows "agree c sec (enter_arm (guarded c sec ev) pattern guard v) (enter_arm ev pattern guard v)"
proof -
  have "agree c sec (bind_match_pattern (ev_show ev) pattern v) (bind_match_pattern (ev_show ev) pattern v)"
    by (rule agree_same)
      (simp add: bind_match_pattern_def split: match_pattern.split option.split match_payload.split rt_value.split prod.split)
  moreover have "agree c sec (guard_holds (guarded c sec ev) guard) (guard_holds ev guard)"
    unfolding guard_holds_def guarded_show
    by (intro agree_option agree_pure agree_bind agree_eval assms agree_same) (auto split: option.split bool.split)
  ultimately have "agree c sec
      (rbind (bind_match_pattern (ev_show ev) pattern v) (\<lambda>_. guard_holds (guarded c sec ev) guard))
      (rbind (bind_match_pattern (ev_show ev) pattern v) (\<lambda>_. guard_holds ev guard))"
    by (rule agree_bind)
  from agree_inside [OF this, of push_scope] show ?thesis
    by (simp add: enter_arm_def [abs_def])
qed

text \<open>Only the codes of a missing permission and of an unknown target of an assignment matter: such an
  assignment is not checked any further.\<close>

definition permitted_by :: "diagnostic list \<Rightarrow> bool" where
  "permitted_by ds \<longleftrightarrow> no_code ''N2500'' ds \<and> no_code ''N1305'' ds"

lemma permitted_by_simps [simp]:
  "permitted_by (ds @ es) \<longleftrightarrow> permitted_by ds \<and> permitted_by es" "permitted_by []"
  by (auto simp: permitted_by_def)

lemma permitted_by_subset: "permitted_by ds \<Longrightarrow> set es \<subseteq> set ds \<Longrightarrow> permitted_by es"
  by (auto simp: permitted_by_def intro: no_code_subset)

lemma run_all_permitted:
  assumes "run_all rs = Some ds" and "permitted_by ds" and "check_expr c raw env granted ret expected \<in> set rs"
    and "holds_all sec granted"
  shows "expr_permitted c sec raw"
proof -
  obtain xs where "check_expr c raw env granted ret expected = Some xs" "set xs \<subseteq> set ds"
    using run_all_part [OF assms(1,3)] by auto
  then show ?thesis
    using permitted_by_subset [OF assms(2)] assms(4)
    by (intro checked_expr_permitted [of c raw env granted ret expected xs]) (auto simp: permitted_by_def)
qed

lemma checked_simple:
  assumes "holds_all sec granted" and "permitted_by ds"
  shows "let_check c s1 env granted ret = Some (ds, env') \<Longrightarrow> let_expr s1 = Some raw \<Longrightarrow> expr_permitted c sec raw"
    and "assign_check c s2 env granted ret = Some (ds, env') \<Longrightarrow> expr_permitted c sec (assign_expr s2)"
    and "assert_check c s3 env granted ret = Some ds \<Longrightarrow> expr_permitted c sec (assert_expr s3)"
    and "expect_audit_check c s4 env granted ret kd = Some ds \<Longrightarrow> expr_permitted c sec (audit_event s4)"
    and "mock_ai_check c s5 env granted ret kd = Some ds \<Longrightarrow>
      expr_permitted c sec (mock_value s5) \<and> expr_permitted c sec (mock_confidence s5)"
    and "mock_ai_scan_check c s6 env granted ret kd = Some ds \<Longrightarrow> scan_reason s6 = Some raw \<Longrightarrow> expr_permitted c sec raw"
    and "mock_connector_check c s7 env granted ret kd = Some ds \<Longrightarrow> expr_permitted c sec (connector_value s7)"
    and "expect_workflow_check c s9 env granted ret kd = Some ds \<Longrightarrow> expr_permitted c sec (expect_call s9)"
    and "return_check c raw env granted ret = Some ds \<Longrightarrow> expr_permitted c sec raw"
    and "expr_stmt_check c raw env granted ret = Some ds \<Longrightarrow> expr_permitted c sec raw"
    and "match_guard_check c env granted ret guard = Some ds \<Longrightarrow> guard = Some raw \<Longrightarrow> expr_permitted c sec raw"
    and "match_head c env granted ret raw arms sp = Some (ds, domain, parsed) \<Longrightarrow> expr_permitted c sec raw"
proof -
  note run = run_all_permitted [OF _ assms(2) _ assms(1)]
  have one: "expr_permitted c sec raw" if "check_expr c raw env granted ret expected = Some es" "set es \<subseteq> set ds" for raw expected es
    by (rule checked_expr_permitted [OF that(1) _ assms(1)])
      (use permitted_by_subset [OF assms(2) that(2)] in \<open>simp add: permitted_by_def\<close>)
  show "expr_permitted c sec raw" if "let_check c s1 env granted ret = Some (ds, env')" "let_expr s1 = Some raw"
  proof -
    have "\<exists>es. check_expr c raw env granted ret (let_ty s1) = Some es \<and> set es \<subseteq> set ds"
      using that by (auto simp: let_check_def Let_def split: bind_splits)
    then show ?thesis using one by blast
  qed
  show "assert_check c s3 env granted ret = Some ds \<Longrightarrow> expr_permitted c sec (assert_expr s3)"
    unfolding assert_check_def by (erule run) (rule list.set_intros(1) | rule list.set_intros(2))+
  show "expect_audit_check c s4 env granted ret kd = Some ds \<Longrightarrow> expr_permitted c sec (audit_event s4)"
    unfolding expect_audit_check_def by (erule run) (rule list.set_intros(1) | rule list.set_intros(2))+
  show "mock_ai_check c s5 env granted ret kd = Some ds \<Longrightarrow>
      expr_permitted c sec (mock_value s5) \<and> expr_permitted c sec (mock_confidence s5)"
    unfolding mock_ai_check_def by (intro conjI; erule run) (rule list.set_intros(1) | rule list.set_intros(2))+
  show "mock_connector_check c s7 env granted ret kd = Some ds \<Longrightarrow> expr_permitted c sec (connector_value s7)"
    unfolding mock_connector_check_def by (erule run) (rule list.set_intros(1) | rule list.set_intros(2))+
  show "expect_workflow_check c s9 env granted ret kd = Some ds \<Longrightarrow> expr_permitted c sec (expect_call s9)"
    unfolding expect_workflow_check_def by (erule run) (rule list.set_intros(1) | rule list.set_intros(2))+
  show "expr_stmt_check c raw env granted ret = Some ds \<Longrightarrow> expr_permitted c sec raw"
    unfolding expr_stmt_check_def by (erule run) (rule list.set_intros(1) | rule list.set_intros(2))+
  show "expr_permitted c sec raw" if check: "return_check c raw env granted ret = Some ds"
  proof (cases "trim (raw_text raw) = []")
    case True
    then show ?thesis by (simp add: expr_permitted_def checked_parse_def)
  next
    case False
    show "expr_permitted c sec raw"
      using check False unfolding return_check_def Let_def
      by (simp only: not_False_eq_True if_True) (erule run, rule list.set_intros(1))
  qed
  show "match_guard_check c env granted ret guard = Some ds \<Longrightarrow> guard = Some raw \<Longrightarrow> expr_permitted c sec raw"
    unfolding match_guard_check_def by (simp only: option.case) (erule run, rule list.set_intros(1))
  show "expr_permitted c sec raw" if "match_head c env granted ret raw arms sp = Some (ds, domain, parsed)"
  proof -
    have "\<exists>es. check_expr c raw env granted ret None = Some es \<and> set es \<subseteq> set ds"
      using that by (auto simp: match_head_def Let_def split: bind_splits)
    then show ?thesis using one by blast
  qed
  show "expr_permitted c sec (assign_expr s2)" if check: "assign_check c s2 env granted ret = Some (ds, env')"
  proof -
    obtain b where b: "map_of env (assign_name s2) = Some b"
      using check assms(2)
      by (cases "map_of env (assign_name s2)") (auto simp: assign_check_def permitted_by_def Let_def)
    then have "\<exists>es. check_expr c (assign_expr s2) env granted ret (bind_ty b) = Some es \<and> set es \<subseteq> set ds"
      using check by (auto simp: assign_check_def Let_def split: bind_splits)
    then show ?thesis using one by blast
  qed
  show "mock_ai_scan_check c s6 env granted ret kd = Some ds \<Longrightarrow> scan_reason s6 = Some raw \<Longrightarrow> expr_permitted c sec raw"
  proof -
    assume check: "mock_ai_scan_check c s6 env granted ret kd = Some ds" and reason: "scan_reason s6 = Some raw"
    obtain xs where xs: "scan_reason_check c s6 env granted ret = Some xs" "set xs \<subseteq> set ds"
      using run_all_part [OF check [unfolded mock_ai_scan_check_def], of "scan_reason_check c s6 env granted ret"] by auto
    show "expr_permitted c sec raw"
      using xs(1) unfolding scan_reason_check_def reason option.case
      by (rule run_all_permitted [OF _ permitted_by_subset [OF assms(2) xs(2)] _ assms(1)]) (rule list.set_intros(1))
  qed
qed

lemma exec_stmt_block:
  "exec_stmt ev sec (Transaction_Stmt saga body sp) =
     (if saga
      then (\<lambda>st. close_saga ev (rt_in_saga st) (length (rt_rollbacks st))
             (leave_scope (exec_block ev sec body (push_scope (st\<lparr>rt_in_saga := True\<rparr>)))))
      else (\<lambda>st. leave_scope (exec_block ev sec body (push_scope st))))"
  "exec_stmt ev sec (Scope_Stmt body sp) = (\<lambda>st. leave_scope (exec_block ev sec body (push_scope st)))"
  "exec_stmt ev sec (If_Stmt cond then_body else_body sp) =
     (\<lambda>st. case ev_eval ev cond st of
        (Err e, st1) \<Rightarrow> (Err e, st1)
      | (Ok v, st1) \<Rightarrow>
          (case as_bool v of
             Some b \<Rightarrow>
               (if b then leave_branch (exec_block ev sec then_body (push_scope st1))
                else leave_branch (exec_block ev sec else_body (push_scope st1)))
           | None \<Rightarrow> (Err (''If condition evaluated to non-boolean: '' @ ev_show ev v), st1)))"
  "exec_stmt ev sec (Match_Stmt raw arms sp) =
     (\<lambda>st. case ev_eval ev raw st of (Err e, st1) \<Rightarrow> (Err e, st1) | (Ok v, st1) \<Rightarrow> exec_arms ev sec v arms st1)"
  "exec_stmt ev sec (Return_Stmt raw) =
     (\<lambda>st. case ev_eval ev raw st of (Err e, st1) \<Rightarrow> (Err e, st1) | (Ok v, st1) \<Rightarrow> (Ok (Return v), st1))"
  "exec_stmt ev sec (Expr_Stmt raw) =
     (\<lambda>st. case ev_eval ev raw st of (Err e, st1) \<Rightarrow> (Err e, st1) | (Ok v, st1) \<Rightarrow> (Ok Continue, st1))"
  by (simp_all add: fun_eq_iff)

lemma exec_stmt_simple:
  "exec_stmt ev sec (Let_Stmt s1) = exec_let ev s1" "exec_stmt ev sec (Assign_Stmt s2) = exec_assign ev s2"
  "exec_stmt ev sec (Assert_Stmt s3) = exec_assert ev s3"
  "exec_stmt ev sec (ExpectPolicy_Stmt outcome body sp) = rreturn Continue"
  "exec_stmt ev sec (ExpectWorkflow_Stmt s9) = exec_expect_workflow ev s9"
  "exec_stmt ev sec (ExpectAudit_Stmt s4) = exec_expect_audit ev s4"
  "exec_stmt ev sec (MockAi_Stmt s5) = exec_mock_ai ev s5"
  "exec_stmt ev sec (MockAiScan_Stmt s6) = exec_mock_ai_scan ev s6"
  "exec_stmt ev sec (MockConnector_Stmt s7) = exec_mock_connector ev s7"
  "exec_stmt ev sec (Require_Stmt s8) = exec_require sec s8"
  by (simp_all add: fun_eq_iff)

lemma agree_if:
  assumes "keeps_rollbacks_permitted c sec ev" and "expr_permitted c sec cond"
    and "agree c sec (exec_block (guarded c sec ev) sec then_body) (exec_block ev sec then_body)"
    and "agree c sec (exec_block (guarded c sec ev) sec else_body) (exec_block ev sec else_body)"
  shows "agree c sec (exec_stmt (guarded c sec ev) sec (If_Stmt cond then_body else_body sp))
      (exec_stmt ev sec (If_Stmt cond then_body else_body sp))"
  unfolding exec_stmt_block guarded_show
proof (rule agree_then [OF assms(1,2)])
  fix v
  have leave: "agree c sec (\<lambda>st. leave_branch (exec_block (guarded c sec ev) sec body (push_scope st)))
      (\<lambda>st. leave_branch (exec_block ev sec body (push_scope st)))"
    if "agree c sec (exec_block (guarded c sec ev) sec body) (exec_block ev sec body)" for body
    by (intro agree_leave agree_inside [OF that] rollbacks_of_scopes)
  show "agree c sec
      (\<lambda>st1. case as_bool v of
          Some b \<Rightarrow>
            (if b then leave_branch (exec_block (guarded c sec ev) sec then_body (push_scope st1))
             else leave_branch (exec_block (guarded c sec ev) sec else_body (push_scope st1)))
        | None \<Rightarrow> (Err (''If condition evaluated to non-boolean: '' @ ev_show ev v), st1))
      (\<lambda>st1. case as_bool v of
          Some b \<Rightarrow>
            (if b then leave_branch (exec_block ev sec then_body (push_scope st1))
             else leave_branch (exec_block ev sec else_body (push_scope st1)))
        | None \<Rightarrow> (Err (''If condition evaluated to non-boolean: '' @ ev_show ev v), st1))"
    using leave [OF assms(3)] leave [OF assms(4)]
    by (cases "as_bool v") (auto simp: agree_def)
qed

lemma agree_block:
  assumes "agree c sec (exec_stmt ev' sec s) (exec_stmt ev sec s)"
    and "P \<Longrightarrow> agree c sec (exec_block ev' sec ss) (exec_block ev sec ss)"
    and "\<And>st. fst (exec_stmt ev sec s st) = Ok Continue \<Longrightarrow> P"
  shows "agree c sec (exec_block ev' sec (s # ss)) (exec_block ev sec (s # ss))"
  unfolding agree_def
proof (intro allI impI)
  fix st :: "'a runtime_scheme" assume "rollbacks_permitted c sec st"
  then have start: "rollbacks_permitted c sec (record_trace StatementStarted (stmt_trace_target s) None st)"
    by (simp add: rollbacks_permitted_def)
  obtain r st1 where run: "exec_stmt ev sec s (record_trace StatementStarted (stmt_trace_target s) None st) = (r, st1)"
    by fastforce
  have run': "exec_stmt ev' sec s (record_trace StatementStarted (stmt_trace_target s) None st) = (r, st1)"
    and "rollbacks_permitted c sec st1"
    using agreeD [OF assms(1) start] run by simp_all
  then have kept: "rollbacks_permitted c sec (record_trace k t d st1)" for k t d by (simp add: rollbacks_permitted_def)
  show "exec_block ev' sec (s # ss) st = exec_block ev sec (s # ss) st
      \<and> rollbacks_permitted c sec (snd (exec_block ev sec (s # ss) st))"
  proof (cases "r = Ok Continue")
    case True
    then have later: "agree c sec (exec_block ev' sec ss) (exec_block ev sec ss)" using assms(2,3) run by (metis fst_conv)
    show ?thesis using True run run' agreeD [OF later kept] by simp
  next
    case False
    then show ?thesis
      using run run' kept \<open>rollbacks_permitted c sec st1\<close> by (cases r) (auto split: exec_signal.split)
  qed
qed

lemma agree_arm:
  assumes "keeps_rollbacks_permitted c sec ev" and "\<And>raw. guard = Some raw \<Longrightarrow> expr_permitted c sec raw"
    and "agree c sec (exec_block (guarded c sec ev) sec body) (exec_block ev sec body)"
    and "agree c sec (exec_arms (guarded c sec ev) sec v arms) (exec_arms ev sec v arms)"
  shows "agree c sec (exec_arms (guarded c sec ev) sec v (MatchArm pattern guard body sp # arms))
      (exec_arms ev sec v (MatchArm pattern guard body sp # arms))"
proof -
  have "exec_arms ev' sec v (MatchArm pattern guard body sp # arms) =
      (if \<not> match_pattern_matches pattern (discriminator v) then exec_arms ev' sec v arms
       else rbind (enter_arm ev' pattern guard v) (\<lambda>taken.
         if taken then (\<lambda>st. leave_branch (exec_block ev' sec body st)) else exec_arms ev' sec v arms))"
    for ev' :: "'a evaluator"
    by (auto simp: fun_eq_iff rbind_def split: prod.split sum.split bool.split)
  then show ?thesis
    using agree_bind [OF agree_enter [OF assms(1,2)], of guard] agree_leave(2) [OF assms(3)] assms(4)
    by (auto intro!: agree_bind agree_enter assms)
qed

lemma guard_not_needed:
  assumes "keeps_rollbacks_permitted c sec ev"
  shows "check_stmt c ret kd s est = Some (ds, est') \<Longrightarrow> permitted_by ds \<Longrightarrow> holds_all sec (snd est) \<Longrightarrow>
      agree c sec (exec_stmt (guarded c sec ev) sec s) (exec_stmt ev sec s)"
    and "check_stmts c ret kd ss est = Some (ds, est') \<Longrightarrow> permitted_by ds \<Longrightarrow> holds_all sec (snd est) \<Longrightarrow>
      agree c sec (exec_block (guarded c sec ev) sec ss) (exec_block ev sec ss)"
    and "check_arms c ret kd domain parsed arms est = Some ds \<Longrightarrow> permitted_by ds \<Longrightarrow> holds_all sec (snd est) \<Longrightarrow>
      agree c sec (exec_arms (guarded c sec ev) sec v arms) (exec_arms ev sec v arms)"
  using assms
proof (induction c ret kd s est and c ret kd ss est and c ret kd domain parsed arms est
    arbitrary: ds est' and ds est' and ds v
    rule: check_stmt_check_stmts_check_arms.induct)
  case (11 c ret kd saga body sp env granted)
  obtain es where body: "check_stmts c ret kd body (env, granted) = Some (es, est')" "permitted_by es"
    using "11.prems"(1,2) by auto
  have block: "agree c sec (exec_block (guarded c sec ev) sec body) (exec_block ev sec body)"
    using "11.IH" [OF body] "11.prems"(3,4) by simp
  show ?case
    unfolding exec_stmt_block
    by (cases saga)
      (simp_all add: agree_saga agree_leave agree_inside [OF block] "11.prems"(4))
next
  case (12 c ret kd body sp env granted)
  obtain es e g where body: "check_stmts c ret kd body (env, granted) = Some (es, e, g)" "permitted_by es"
    using "12.prems"(1,2) by auto
  have block: "agree c sec (exec_block (guarded c sec ev) sec body) (exec_block ev sec body)"
    using "12.IH" [OF body] "12.prems"(3,4) by simp
  show ?case unfolding exec_stmt_block by (simp add: agree_leave agree_inside [OF block])
next
  case (13 c ret kd cond then_body else_body sp env granted)
  obtain cond_ds then_env else_env then_ds t else_ds e where
    parts: "check_expr c cond env granted ret None = Some cond_ds"
      "branch_env c True cond env = Some then_env" "branch_env c False cond env = Some else_env"
    and blocks: "check_stmts c ret kd then_body (then_env, granted) = Some (then_ds, t)"
      "check_stmts c ret kd else_body (else_env, granted) = Some (else_ds, e)"
    and ds: "permitted_by cond_ds" "permitted_by then_ds" "permitted_by else_ds"
    using "13.prems"(1,2) by (auto split: bind_splits)
  show ?case
  proof (rule agree_if)
    show "expr_permitted c sec cond"
      using checked_expr_permitted [OF parts(1)] ds(1) "13.prems"(3) by (simp add: permitted_by_def)
    show "agree c sec (exec_block (guarded c sec ev) sec then_body) (exec_block ev sec then_body)"
      using "13.IH"(1) [OF parts blocks(1) ds(2)] "13.prems"(3,4) by simp
    show "agree c sec (exec_block (guarded c sec ev) sec else_body) (exec_block ev sec else_body)"
      using "13.IH"(2) [OF parts blocks(1) refl blocks(2) ds(3)] "13.prems"(3,4) by simp
  qed (rule "13.prems"(4))
next
  case (14 c ret kd raw arms sp env granted)
  obtain head_ds domain parsed arms_ds where head: "match_head c env granted ret raw arms sp = Some (head_ds, domain, parsed)"
    and arms: "check_arms c ret kd domain parsed arms (env, granted) = Some arms_ds"
    and ds: "permitted_by head_ds" "permitted_by arms_ds"
    using "14.prems"(1,2) by (auto split: bind_splits)
  have "expr_permitted c sec raw" using checked_simple(12) [OF _ ds(1) head] "14.prems"(3) by simp
  moreover have "agree c sec (exec_arms (guarded c sec ev) sec v arms) (exec_arms ev sec v arms)" for v
    using "14.IH" [OF head refl refl arms ds(2)] "14.prems"(3,4) by simp
  ultimately show ?case unfolding exec_stmt_block by (intro agree_then "14.prems"(4))
next
  case (18 c ret kd s ss est)
  obtain ds1 env1 granted1 ds2 where first: "check_stmt c ret kd s est = Some (ds1, env1, granted1)"
    and later: "check_stmts c ret kd ss (env1, granted1) = Some (ds2, est')"
    and ds: "permitted_by ds1" "permitted_by ds2"
    using "18.prems"(1,2) by (auto split: bind_splits)
  have one: "agree c sec (exec_stmt (guarded c sec ev) sec s) (exec_stmt ev sec s)"
    using "18.IH"(1) [OF first ds(1)] "18.prems"(3,4) by simp
  have more: "agree c sec (exec_block (guarded c sec ev) sec ss) (exec_block ev sec ss)" if "holds_all sec granted1"
    using "18.IH"(2) [OF first refl later ds(2)] that "18.prems"(4) by simp
  show ?case
    using agree_block [OF one more] granted_hold(1) [OF first "18.prems"(3)] by blast
next
  case (20 c ret kd domain parsed pattern guard body sp arms env granted)
  obtain arm_env guard_ds body_ds t rest_ds where
    arm: "match_arm_env c domain parsed pattern env = Some arm_env"
    and guard: "match_guard_check c arm_env granted ret guard = Some guard_ds"
    and body: "check_stmts c ret kd body (arm_env, granted) = Some (body_ds, t)"
    and later: "check_arms c ret kd domain parsed arms (env, granted) = Some rest_ds"
    and ds: "permitted_by guard_ds" "permitted_by body_ds" "permitted_by rest_ds"
    using "20.prems"(1,2) by (auto split: bind_splits)
  show ?case
  proof (rule agree_arm [OF "20.prems"(4)])
    show "expr_permitted c sec raw" if "guard = Some raw" for raw
      using checked_simple(11) [OF _ ds(1) guard that] "20.prems"(3) by simp
    show "agree c sec (exec_block (guarded c sec ev) sec body) (exec_block ev sec body)"
      using "20.IH"(1) [OF arm guard body ds(2)] "20.prems"(3,4) by simp
    show "agree c sec (exec_arms (guarded c sec ev) sec v arms) (exec_arms ev sec v arms)"
      using "20.IH"(2) [OF arm guard body refl later ds(3)] "20.prems"(3,4) by simp
  qed
next
  case (1 c ret kd s env granted)
  then show ?case
    using checked_simple(1) [of sec granted ds c s env ret]
    by (auto simp: exec_stmt_simple changed_env_def agree_simple split: prod.splits)
next
  case (2 c ret kd s env granted)
  then show ?case
    using checked_simple(2) [of sec granted ds c s env ret]
    by (auto simp: exec_stmt_simple changed_env_def agree_simple split: prod.splits)
next
  case (3 c ret kd s env granted)
  then show ?case
    using checked_simple(3) [of sec granted ds c s env ret]
    by (auto simp: exec_stmt_simple unchanged_def agree_simple split: prod.splits)
next
  case (5 c ret kd s env granted)
  then show ?case
    using checked_simple(8) [of sec granted ds c s env ret kd]
    by (auto simp: exec_stmt_simple unchanged_def agree_simple split: prod.splits)
next
  case (6 c ret kd s env granted)
  then show ?case
    using checked_simple(4) [of sec granted ds c s env ret kd]
    by (auto simp: exec_stmt_simple unchanged_def agree_simple split: prod.splits)
next
  case (7 c ret kd s env granted)
  then show ?case
    using checked_simple(5) [of sec granted ds c s env ret kd]
    by (auto simp: exec_stmt_simple unchanged_def agree_simple split: prod.splits)
next
  case (8 c ret kd s env granted)
  then show ?case
    using checked_simple(6) [of sec granted ds c s env ret kd]
    by (auto simp: exec_stmt_simple unchanged_def agree_simple split: prod.splits)
next
  case (9 c ret kd s env granted)
  then show ?case
    using checked_simple(7) [of sec granted ds c s env ret kd]
    by (auto simp: exec_stmt_simple unchanged_def agree_simple split: prod.splits)
next
  case (15 c ret kd raw env granted)
  then have "expr_permitted c sec raw"
    using checked_simple(9) [of sec granted ds c raw env ret] by (auto simp: unchanged_def)
  then show ?case unfolding exec_stmt_block using "15.prems"(4) by (intro agree_then agree_same) simp_all
next
  case (16 c ret kd raw env granted)
  then have "expr_permitted c sec raw"
    using checked_simple(10) [of sec granted ds c raw env ret] by (auto simp: unchanged_def)
  then show ?case unfolding exec_stmt_block using "16.prems"(4) by (intro agree_then agree_same) simp_all
next
  case (17 c ret kd st)
  show ?case by (simp add: agree_def)
next
  case (19 c ret kd domain parsed st)
  show ?case by (simp add: agree_def)
qed (simp_all add: exec_stmt_simple agree_simple agree_pure)

text \<open>C4: A body that the checker accepts calls no action without its permissions: when the checks of a
  body report neither a missing permission (N2500) nor an assignment to an unknown name (N1305), and the
  security context holds the permissions that the callable declares, then the interpreter never evaluates
  an expression that calls an action of which a permission is missing. It runs the same, whatever the
  expressions evaluate to, with an evaluator that refuses all of those. The compensations of failed sagas
  are texts that are built at run time, so the evaluator has to register only permitted ones.\<close>

theorem accepted_actions_permitted:
  assumes "body_check c body params declared ret sp kd = Some ds"
    and "no_code ''N2500'' ds" and "no_code ''N1305'' ds"
    and "list_all (has_permission sec) declared"
    and "keeps_rollbacks_permitted c sec ev" and "rollbacks_permitted c sec st"
  shows "exec_block (guarded c sec ev) sec body st = exec_block ev sec body st"
proof -
  obtain env es st' where "check_stmts c ret kd body (env, set declared) = Some (es, st')" "set es \<subseteq> set ds"
    using assms(1) by (auto simp: body_check_def body_from_def split: bind_splits)
  moreover have "permitted_by es"
    using permitted_by_subset [OF _ \<open>set es \<subseteq> set ds\<close>] assms(2,3) by (simp add: permitted_by_def)
  moreover have "holds_all sec (set declared)" using assms(4) by (simp add: holds_all_def list_all_iff)
  ultimately have "agree c sec (exec_block (guarded c sec ev) sec body) (exec_block ev sec body)"
    by (intro guard_not_needed(2) [OF assms(5)]) auto
  then show ?thesis using assms(6) by (rule agreeD)
qed

section \<open>A body with a result returns\<close>

lemma any_run_True: "any_run rs = Some True \<Longrightarrow> Some True \<in> set rs"
  by (induction rs) (auto split: bind_splits if_splits)

lemma all_run_True: "all_run rs = Some True \<Longrightarrow> r \<in> set rs \<Longrightarrow> r = Some True"
  by (induction rs) (auto split: bind_splits if_splits)

definition stops :: "'x evaluator \<Rightarrow> security_context \<Rightarrow> stmt \<Rightarrow> bool" where
  "stops ev sec s \<longleftrightarrow> (\<forall>st. fst (exec_stmt ev sec s st) \<noteq> Ok Continue)"

lemma block_stops: "s \<in> set body \<Longrightarrow> stops ev sec s \<Longrightarrow> fst (exec_block ev sec body st) \<noteq> Ok Continue"
proof (induction body arbitrary: st)
  case (Cons s' body)
  let ?st = "record_trace StatementStarted (stmt_trace_target s') None st"
  show ?case
  proof (cases "fst (exec_stmt ev sec s' ?st) = Ok Continue")
    case True
    then have "s \<in> set body" using Cons.prems by (auto simp: stops_def)
    then show ?thesis using Cons.IH [OF _ Cons.prems(2)] True by (cases "exec_stmt ev sec s' ?st") simp
  next
    case False
    then show ?thesis
      by (cases "exec_stmt ev sec s' ?st"; cases "fst (exec_stmt ev sec s' ?st)") (auto split: exec_signal.split)
  qed
qed simp

lemma any_block_stops:
  assumes "any_run (map (stmt_always_terminates c env) body) = Some True"
    and "\<And>s. s \<in> set body \<Longrightarrow> stmt_always_terminates c env s = Some True \<Longrightarrow> stops ev sec s"
  shows "fst (exec_block ev sec body st) \<noteq> Ok Continue"
  using any_run_True [OF assms(1)] assms(2) block_stops by fastforce

lemma arms_stop:
  assumes "\<And>arm st. arm \<in> set arms \<Longrightarrow> fst (exec_block ev sec (arm_body arm) st) \<noteq> Ok Continue"
  shows "fst (exec_arms ev sec v arms st) \<noteq> Ok Continue"
  using assms
proof (induction arms arbitrary: st)
  case (Cons arm arms)
  obtain pattern guard body sp where arm: "arm = MatchArm pattern guard body sp" by (cases arm)
  have body: "fst (exec_block ev sec body st) \<noteq> Ok Continue" for st using Cons.prems [of arm] arm by simp
  have later: "fst (exec_arms ev sec v arms st) \<noteq> Ok Continue" for st using Cons by simp
  show ?case
    unfolding arm using body later by (auto split: prod.split sum.split bool.split)
qed simp

lemma terminates_stops:
  assumes "\<forall>raw st. is_reject_call (raw_text raw) \<longrightarrow> is_err (fst (ev_eval ev raw st))"
  shows "stmt_always_terminates c env s = Some True \<Longrightarrow> stops ev sec s"
    and "arm_always_terminates c env arm = Some True \<Longrightarrow> fst (exec_block ev sec (arm_body arm) st) \<noteq> Ok Continue"
proof (induction c env s and c env arm arbitrary: and st rule: stmt_always_terminates_arm_always_terminates.induct)
  case (1 c env raw)
  show ?case by (auto simp: stops_def split: prod.split sum.split)
next
  case (2 c env cond then_body else_body sp)
  have bodies: "any_run (map (stmt_always_terminates c env) then_body) = Some True"
    "any_run (map (stmt_always_terminates c env) else_body) = Some True"
    using "2.prems" by (auto simp: both_def split: if_splits bind_splits)
  have "fst (exec_block ev sec then_body st) \<noteq> Ok Continue" for st
    by (rule any_block_stops [OF bodies(1)]) (use "2.IH" "2.prems" in \<open>auto split: if_splits\<close>)
  moreover have "fst (exec_block ev sec else_body st) \<noteq> Ok Continue" for st
    by (rule any_block_stops [OF bodies(2)]) (use "2.IH" "2.prems" in \<open>auto split: if_splits\<close>)
  ultimately show ?case by (auto simp: stops_def split: prod.split sum.split option.split)
next
  case (3 c env raw arms sp)
  have "all_run (map (arm_always_terminates c env) arms) = Some True"
    using "3.prems" by (auto simp: both_def split: if_splits bind_splits)
  then have "fst (exec_block ev sec (arm_body arm) st) \<noteq> Ok Continue" if "arm \<in> set arms" for arm st
    using "3.IH" [OF _ that] all_run_True that "3.prems" by (auto split: if_splits)
  then have "fst (exec_arms ev sec v arms st) \<noteq> Ok Continue" for v st by (rule arms_stop)
  then show ?case by (auto simp: stops_def split: prod.split sum.split)
next
  case (4 c env saga body sp)
  have "fst (exec_block ev sec body st) \<noteq> Ok Continue" for st
    by (rule any_block_stops) (use "4.IH" "4.prems" in simp_all)
  then show ?case by (simp add: stops_def)
next
  case (5 c env body sp)
  have "fst (exec_block ev sec body st) \<noteq> Ok Continue" for st
    by (rule any_block_stops) (use "5.IH" "5.prems" in simp_all)
  then show ?case by (simp add: stops_def)
next
  case (6 c env raw)
  then show ?case using assms by (auto simp: stops_def is_err_def split: prod.split sum.splits) (metis sum.simps(5) fst_conv)
next
  case (8 c env pattern guard body sp)
  show ?case unfolding arm_body.simps by (rule any_block_stops) (use "8.IH" "8.prems" in simp_all)
qed simp_all

text \<open>C9: A callable that declares a result never runs off the end of its body: when the checks of the
  body do not report a missing return (N1306), then the interpreter leaves the body with a returned value
  or with an error, whatever the expressions evaluate to, given that a call of \<open>reject\<close> fails.\<close>

theorem accepted_body_returns:
  assumes "body_check c body params declared (Some ty) sp kd = Some ds" and "no_code ''N1306'' ds"
    and "\<forall>raw st. is_reject_call (raw_text raw) \<longrightarrow> is_err (fst (ev_eval ev raw st))"
  shows "fst (exec_block ev sec body st) \<noteq> Ok Continue"
proof -
  obtain env where "all_paths_terminate c env body = Some True"
    using assms(1,2)
    by (auto simp: body_check_def body_from_def missing_return_def split: bind_splits if_splits)
  then show ?thesis
    unfolding all_paths_terminate_def by (rule any_block_stops) (rule terminates_stops(1) [OF assms(3)])
qed

section \<open>Scopes that stay open\<close>

text \<open>A branch that fails leaves its scope on the stack. A test that expects the failure goes on, and then
  sets its variables in the scope of the branch that has failed.\<close>

lemma failed_branch_leaves_scope:
  assumes "ev_eval ev cond st = (Ok (Bool True), st)"
    and "exec_block ev sec body (push_scope st) = (Err e, push_scope st)"
  shows "rt_scopes (snd (exec_stmt ev sec (If_Stmt cond body els sp) st)) = rt_scopes st @ [Map.empty]"
  using assms by (simp add: as_bool_def leave_simps push_scope_def)

section \<open>Examples\<close>

definition pay_module :: module_ast where
  "pay_module =
     \<lparr>mod_name = None, mod_imports = [],
      mod_declarations =
        [Permission_Decl \<lparr>permission_name = ''P'', permission_span = synthetic_span []\<rparr>,
         Action_Decl
           \<lparr>action_name = ''pay'', action_params = [], action_result = None, action_requires = [''P''],
            action_risk = Risk_Low, action_rollback = None, action_timeout = None, action_cost = None,
            action_retry = None, action_idempotency_key = None, action_body = [],
            action_span = synthetic_span []\<rparr>]\<rparr>"

definition pay_body :: "stmt list" where
  "pay_body =
     [Require_Stmt \<lparr>require_stmt.require_permission = ''P'', require_actor = None, require_span = synthetic_span []\<rparr>,
      Expr_Stmt (sample_raw ''pay()'')]"

definition clerk :: security_context where
  "clerk =
     \<lparr>actor = ''a'', tenant = ''t'', roles = {||}, permissions = {|''P''|}, correlation_id = [], request_id = [],
      provenance = None, trust = None\<rparr>"

definition no_runtime :: runtime where
  "no_runtime =
     \<lparr>rt_scopes = [Map.empty], rt_audits = [], rt_traces = [], rt_next_sequence = 1, rt_in_saga = False,
      rt_rollbacks = [], rt_ai_mocks = Map.empty, rt_ai_scans = Map.empty, rt_connector_mocks = Map.empty\<rparr>"

text \<open>Every expression is true, only \<open>reject\<close> fails.\<close>

definition true_evaluator :: "unit evaluator" where
  "true_evaluator =
     \<lparr>ev_eval = \<lambda>raw st. (if is_reject_call (raw_text raw) then Err ''rejected'' else Ok (Bool True), st),
      ev_show = \<lambda>v. []\<rparr>"

theorem accepted_actions_permitted_witness:
  "exec_block (guarded (new_checker pay_module 0) clerk true_evaluator) clerk pay_body no_runtime
     = exec_block true_evaluator clerk pay_body no_runtime"
proof (rule accepted_actions_permitted)
  show "body_check (new_checker pay_module 0) pay_body [] [] None (synthetic_span []) None = Some []"
    by code_simp
  show "keeps_rollbacks_permitted (new_checker pay_module 0) clerk true_evaluator"
    by (simp add: keeps_rollbacks_permitted_def true_evaluator_def)
  show "rollbacks_permitted (new_checker pay_module 0) clerk no_runtime"
    by (simp add: rollbacks_permitted_def no_runtime_def)
qed simp_all

definition choose_body :: "stmt list" where
  "choose_body =
     [If_Stmt (sample_raw ''true'') [Return_Stmt (sample_raw ''1'')] [Expr_Stmt (sample_raw ''reject()'')] (synthetic_span [])]"

theorem accepted_body_returns_witness:
  "fst (exec_block true_evaluator clerk choose_body no_runtime) \<noteq> Ok Continue"
proof (rule accepted_body_returns)
  show "body_check (new_checker pay_module 0) choose_body [] [] (Some (TypeRef ''Int'')) (synthetic_span []) None = Some []"
    by code_simp
qed (simp_all add: true_evaluator_def)

end
