(* ===== verification/Spec2Isabelle.thy ===== *)
theory Spec2Isabelle
  imports Decimal Date_Time Redaction Scalar_Validation Runtime_Types Cost Rate_Limit Storage
    Events Event_Queue Engine Engine_Spec Worker Tokens Lexer Expr Expr_Spec Expr_Type
    Hashing Float_Bits Utf8 Documents Document_Readers Xml Values Value_Redaction Execution
    Ast Parser_Base Parser_Stmt Parser_Decl Parser_Spec Formatter Lint Program Literals Policies Semantic Compile
    Compatible Checker_Total Compile_Spec Flow_Spec Interpreter Interpreter_Spec
begin

text \<open>
  A verification development for the \<open>num\<close> language: its compiler front end
  (\<open>language/crates/num-compiler\<close>) and the part of its runtime (\<open>language/crates/num-runtime\<close>) that
  keeps workflows, events, money and secrets. File names below are relative to those two crates; paths
  like \<open>semantic.rs\<close> stand for \<open>src/semantic.rs\<close> of the crate.

  How the program works. A source text is read by the lexer, the parser makes a module of it,
  \<open>program.rs\<close> joins the modules of several files along their imports, and the checker
  (\<open>semantic.rs\<close> with its submodules) reports every violation of the rules of the language: types,
  permissions, trust and privacy of data, exhaustive matches, options and results that are read without
  a check. Linter, formatter and the lowering to the intermediate representation work on the same tree.
  At run time a worker takes events from a queue and gives them to the workflow engine, which moves a
  workflow through its life cycle, saves its state in a store and writes an audit record for each step.
  Actions run under a cost limit and an idempotency key, requests pass a rate limiter and the tenant
  guard, and texts and values are redacted before they leave the process.

  How Rust is modelled. Texts are UTF-8 byte strings and a \<open>char\<close> of the code is a string of one to
  four bytes (\<open>Rust_Strings\<close>); byte offsets are those of the code. A \<open>Result\<close> is a sum with the error on
  the left. A method with \<open>&mut self\<close> takes the state and returns it (\<open>stm\<close> in \<open>Prelude\<close>), and what can panic
  or overflow has that as a value: machine integers are \<open>int\<close> or \<open>nat\<close> with the checked operation and its
  bounds written out, or words where the code works on bits (\<open>Hashing\<close>, \<open>Float_Bits\<close>). The file system
  is a world of files and directories with a script of failures that any operation may meet
  (\<open>File_System\<close>); the printer and parser of \<open>serde_json\<close> are a parameter \<open>codec\<close> with the law that what is
  printed is read back (\<open>Json\<close>).

  The theories of the runtime.
  \<^item> \<open>Decimal\<close>, \<open>Date_Time\<close>, \<open>Scalar_Validation\<close>, \<open>Float_Bits\<close>, \<open>Utf8\<close>, \<open>Xml\<close>, \<open>Hashing\<close>: \<open>decimal.rs\<close>,
    \<open>datetime.rs\<close>, \<open>scalar_validation.rs\<close>, \<open>xml.rs\<close>, \<open>hashing.rs\<close> and what they use of \<open>std\<close>. Arithmetic is exact
    when it returns, printing and parsing are inverse, SHA-256 is the function of the standard, and
    base64 is inverted by its decoder.
  \<^item> \<open>Redaction\<close>, \<open>Value_Redaction\<close>: \<open>redaction.rs\<close> and \<open>redact_connector_error\<close> of \<open>connectors.rs\<close>. The text of a
    secret does not survive.
  \<^item> \<open>Runtime_Types\<close>, \<open>Cost\<close>, \<open>Rate_Limit\<close>: the types of \<open>lib.rs\<close>, the tenant guard and the ledger
    (\<open>tenant.rs\<close>, \<open>cost.rs\<close>), the rate limiter (\<open>rate_limit.rs\<close>) over a store that is an interface with a memory and a
    file instance. An open budget scope bounds what is spent under it, a window admits no more requests than its limit.
  \<^item> \<open>Storage\<close>, \<open>Events\<close>, \<open>Event_Queue\<close>: the state store and the audit sink (\<open>storage.rs\<close>), events and
    their queues (\<open>events.rs\<close>). Saving is atomic under every failure of the file system, what is saved is
    loaded again, and the file queue with its leases is first in, first out.
  \<^item> \<open>Engine\<close>, \<open>Engine_Spec\<close>, \<open>Worker\<close>: \<open>engine.rs\<close> over the interface \<open>workflow_backend\<close> (store and sink),
    its steps as a relation, the refinement of the life cycle, final states, repeated events, tenants and
    the audit trail, where no access to a file fails, and what is lost when one does; \<open>worker.rs\<close>, whose drains are loops that are shown to end and to keep the order.
  \<^item> \<open>Values\<close>, \<open>Execution\<close>, \<open>Documents\<close>, \<open>Document_Readers\<close>: the values of the language and their JSON, the
    executor of actions over an idempotency store (\<open>execution.rs\<close>), the document values and the readers of
    file metadata (\<open>document.rs\<close>). Of the calls under one key
    at most one succeeds with a run of its own, JSON is read back, secrets are not written.

  The theories of the compiler.
  \<^item> \<open>Tokens\<close>, \<open>Lexer\<close>: \<open>span.rs\<close>, \<open>token.rs\<close>, \<open>diagnostic.rs\<close>, \<open>lexer.rs\<close>. Printed tokens are read back, and
    each token stands where its span says.
  \<^item> \<open>Expr\<close>, \<open>Expr_Spec\<close>, \<open>Expr_Type\<close>: \<open>expr.rs\<close>. A printer with the least parentheses is inverted by the
    parser; everything the parser accepts is well formed.
  \<^item> \<open>Ast\<close>, \<open>Parser_Base\<close>, \<open>Parser_Stmt\<close>, \<open>Parser_Decl\<close>, \<open>Parser_Spec\<close>: \<open>ast.rs\<close> and \<open>parser.rs\<close>. The parser
    returns on every list of tokens that ends with \<open>Eof\<close>, as those of the lexer do, and not on a list
    without one; its diagnostics are placed at tokens.
  \<^item> \<open>Formatter\<close>, \<open>Lint\<close>, \<open>Program\<close>: \<open>formatter.rs\<close>, \<open>ir.rs\<close>, \<open>lint.rs\<close>, \<open>program.rs\<close>. Import resolution ends
    and visits each reachable module once.
  \<^item> \<open>Builtins\<close>, \<open>Type_Text\<close>, \<open>Literals\<close>, \<open>Policies\<close>: \<open>builtins.rs\<close>, the functions of \<open>semantic.rs\<close> that have no
    checker, and \<open>semantic/policies.rs\<close>. A deny rule wins over every allow rule.
  \<^item> \<open>Checker\<close>, \<open>Typing\<close>, \<open>Flow\<close>: the tables of the checker, aliases and compatibility, the inference of types,
    and the analyses of labels, options and results (\<open>trust_flow.rs\<close>, \<open>option_flow.rs\<close>, \<open>result_flow.rs\<close>).
  \<^item> \<open>Constructor_Checks\<close>, \<open>Expr_Checks\<close>, \<open>Stmt_Checks\<close>, \<open>Body_Checks\<close>, \<open>Semantic\<close>, \<open>Compile\<close>: the checks of
    expressions, statements and declarations, and the entry points \<open>check\<close> and \<open>compile\<close>.
  \<^item> \<open>Compatible\<close>, \<open>Checker_Total\<close>, \<open>Compile_Spec\<close>: the comparison of types is sound, and the compiler returns on
    every program whose aliases have no parameters; with parameters it need not return.
  \<^item> \<open>Flow_Spec\<close>: what acceptance means: no untrusted data in an AI call, an external call or a high-risk
    action, no private data that the checker counts in an external call without a policy (a gateway
    hides what stands beside it), no read of an empty option.

  Where the two meet. \<open>Interpreter\<close> models the execution of statements (\<open>interpreter.rs\<close>) over any evaluator of
  expressions, and \<open>Interpreter_Spec\<close> relates it to the checker: an accepted body calls no action without
  its permissions, and a body with a result never runs off its end.

  Loops and recursion. Every loop is a terminating function with its own measure, with these exceptions.
  The checker follows aliases, which can be written so that the code does not end: its operations are
  in the option monad (\<open>run\<close> in \<open>Checker\<close>), where \<open>None\<close> is a call that does not return, and
  \<open>Checker_Total\<close> shows that none is reached when no alias has parameters. The resolution of imports has
  the size of the index as fuel, which \<open>collect_terminates\<close> shows to be enough. The drains of the worker
  are partial functions whose properties state that they return. The loops of the parsers are bounded
  by what is left of their input: \<open>Expr\<close> cuts the rest that a method returns to one that is no longer than
  its own (\<open>upto\<close>), which \<open>upto_or\<close> and its companions show to change nothing, and \<open>Parser_Base\<close> records in the ghost flag
  \<open>ps_stuck\<close> that the code does not return (no token to look at, an advance past a last token that is not \<open>Eof\<close>,
  or a loop that goes on without consuming a token), which \<open>Parser_Spec\<close> shows never to happen when the
  tokens end with \<open>Eof\<close>.

  Interfaces. \<open>rate_limit_store\<close>, \<open>state_store\<close>, \<open>event_queue\<close>, \<open>workflow_backend\<close> and \<open>idempotency_contract\<close> are
  locales that state what a client relies on; each is interpreted on the memory and file versions of
  the code, and the properties of the clients are those of the interpretations.

  Not modelled: the evaluation of expressions by the interpreter and the debugger (\<open>f64\<close> arithmetic and
  calls of external connectors), the modules around cryptographic crates (secret store, encryption, JWT, sessions), the HTTP service
  with its metrics, the database client and JSON interop, connectors and sanitisers that start processes,
  the reports, the command line tools and the language server, which are input and output around the
  parts above. Hour durations of \<open>datetime.rs\<close> need decimal printing of \<open>f64\<close> and are left out; the depth of
  the call stack, poisoned locks other than that of the rate limiter, and concurrent access to the same
  files are outside the model.
\<close>

end
